(* ===== verification/Prelude.thy ===== *)
theory Prelude
  imports Main "HOL-Library.Word" "HOL-Library.Product_Lexorder"
begin

text \<open>
  The shared vocabulary of the development: Rust's machine integers and their checked, saturating
  and widening operations, \<open>Result\<close> values and the \<open>?\<close> operator, fixed-size arrays, ordered maps
  (\<open>BTreeMap\<close>), and the three contracts the components share as locales: a bounded ring buffer, a
  state machine with an invariant, and a text or word codec.
\<close>

section \<open>Machine integers\<close>

unbundle bit_operations_syntax

type_synonym u8 = "8 word"
type_synonym u16 = "16 word"
type_synonym u32 = "32 word"
type_synonym u64 = "64 word"
type_synonym u128 = "128 word"

named_theorems int_ops \<comment> \<open>the definitions of the integer operations\<close>
named_theorems unat_ops \<comment> \<open>their values as natural numbers\<close>

definition checked_add :: "'a::len word \<Rightarrow> 'a word \<Rightarrow> 'a word option" where
  [int_ops]: "checked_add a b = (if unat a + unat b < 2 ^ LENGTH('a) then Some (a + b) else None)"

definition checked_sub :: "'a::len word \<Rightarrow> 'a word \<Rightarrow> 'a word option" where
  [int_ops]: "checked_sub a b = (if b \<le> a then Some (a - b) else None)"

definition checked_mul :: "'a::len word \<Rightarrow> 'a word \<Rightarrow> 'a word option" where
  [int_ops]: "checked_mul a b = (if unat a * unat b < 2 ^ LENGTH('a) then Some (a * b) else None)"

definition checked_div :: "'a::len word \<Rightarrow> 'a word \<Rightarrow> 'a word option" where
  [int_ops]: "checked_div a b = (if b = 0 then None else Some (a div b))"

definition saturating_add :: "'a::len word \<Rightarrow> 'a word \<Rightarrow> 'a word" where
  [int_ops]: "saturating_add a b = (if unat a + unat b < 2 ^ LENGTH('a) then a + b else - 1)"

definition saturating_mul :: "'a::len word \<Rightarrow> 'a word \<Rightarrow> 'a word" where
  [int_ops]: "saturating_mul a b = (if unat a * unat b < 2 ^ LENGTH('a) then a * b else - 1)"

definition abs_diff :: "'a::len word \<Rightarrow> 'a word \<Rightarrow> 'a word" where
  [int_ops]: "abs_diff a b = (if a < b then b - a else a - b)"

text \<open>\<open>T::try_from\<close> between unsigned widths, and from \<open>usize\<close> lengths (natural numbers here).\<close>

definition try_from_word :: "'a::len word \<Rightarrow> 'b::len word option" where
  [int_ops]: "try_from_word a = (if unat a < 2 ^ LENGTH('b) then Some (ucast a) else None)"

definition try_from_usize :: "nat \<Rightarrow> 'b::len word option" where
  [int_ops]: "try_from_usize n = (if n < 2 ^ LENGTH('b) then Some (of_nat n) else None)"

definition be16 :: "u8 \<Rightarrow> u8 \<Rightarrow> u16" where
  "be16 hi lo = push_bit 8 (ucast hi) OR ucast lo"

section \<open>Results\<close>

type_synonym ('e, 'a) result = "'e + 'a"

fun rbind :: "('e, 'a) result \<Rightarrow> ('a \<Rightarrow> ('e, 'b) result) \<Rightarrow> ('e, 'b) result" where
  "rbind (Inl e) f = Inl e"
| "rbind (Inr a) f = f a"

fun map_err :: "'f \<Rightarrow> ('e, 'a) result \<Rightarrow> ('f, 'a) result" where
  "map_err f (Inl e) = Inl f"
| "map_err f (Inr a) = Inr a"

fun ok_or :: "'e \<Rightarrow> 'a option \<Rightarrow> ('e, 'a) result" where
  "ok_or e None = Inl e"
| "ok_or e (Some a) = Inr a"

fun is_ok :: "('e, 'a) result \<Rightarrow> bool" where
  "is_ok (Inl e) = False"
| "is_ok (Inr a) = True"

text \<open>\<open>for x in xs { ... ? }\<close>: a loop over a list that may leave with an error.\<close>

fun rfold :: "('a \<Rightarrow> 's \<Rightarrow> ('e, 's) result) \<Rightarrow> 'a list \<Rightarrow> 's \<Rightarrow> ('e, 's) result" where
  "rfold f [] s = Inr s"
| "rfold f (x # xs) s = rbind (f x s) (rfold f xs)"

text \<open>\<open>Option::is_some_and\<close>.\<close>

fun is_some_and :: "'a option \<Rightarrow> ('a \<Rightarrow> bool) \<Rightarrow> bool" where
  "is_some_and None P = False"
| "is_some_and (Some a) P = P a"

fun unwrap_or :: "'a option \<Rightarrow> 'a \<Rightarrow> 'a" where
  "unwrap_or None d = d"
| "unwrap_or (Some a) d = a"

text \<open>\<open>slice::get\<close>: a checked read.\<close>

definition slice_get :: "'a list \<Rightarrow> nat \<Rightarrow> 'a option" where
  "slice_get xs i = (if i < length xs then Some (xs ! i) else None)"

text \<open>A fallible call on an external port: it may change the port's state whether or not it fails.\<close>

type_synonym ('s, 'e, 'a) port = "'s \<Rightarrow> ('e, 'a) result \<times> 's"

definition port_return :: "'a \<Rightarrow> ('s, 'e, 'a) port" where
  "port_return a s = (Inr a, s)"

definition port_bind :: "('s, 'e, 'a) port \<Rightarrow> ('a \<Rightarrow> ('s, 'e, 'b) port) \<Rightarrow> ('s, 'e, 'b) port" where
  "port_bind p f s = (case p s of (Inl e, t) \<Rightarrow> (Inl e, t) | (Inr a, t) \<Rightarrow> f a t)"

definition port_lift :: "('e, 'a) result \<Rightarrow> ('s, 'e, 'a) port" where
  "port_lift r s = (r, s)"

section \<open>ASCII classes of bytes\<close>

text \<open>Rust strings are byte strings here; the code only ever classifies ASCII bytes.\<close>

definition is_ascii_digit :: "char \<Rightarrow> bool" where
  "is_ascii_digit c \<longleftrightarrow> 48 \<le> (of_char c :: nat) \<and> of_char c \<le> (57 :: nat)"

definition is_ascii_uppercase :: "char \<Rightarrow> bool" where
  "is_ascii_uppercase c \<longleftrightarrow> 65 \<le> (of_char c :: nat) \<and> of_char c \<le> (90 :: nat)"

definition is_ascii_lowercase :: "char \<Rightarrow> bool" where
  "is_ascii_lowercase c \<longleftrightarrow> 97 \<le> (of_char c :: nat) \<and> of_char c \<le> (122 :: nat)"

definition is_ascii_alphanumeric :: "char \<Rightarrow> bool" where
  "is_ascii_alphanumeric c \<longleftrightarrow> is_ascii_digit c \<or> is_ascii_uppercase c \<or> is_ascii_lowercase c"

lemmas ascii_class_defs =
  is_ascii_digit_def is_ascii_uppercase_def is_ascii_lowercase_def is_ascii_alphanumeric_def

section \<open>Fixed-size arrays\<close>

datatype 'a arr2 = Arr2 (a2_0: 'a) (a2_1: 'a)
datatype 'a arr3 = Arr3 (a3_0: 'a) (a3_1: 'a) (a3_2: 'a)
datatype 'a arr6 = Arr6 (a6_0: 'a) (a6_1: 'a) (a6_2: 'a) (a6_3: 'a) (a6_4: 'a) (a6_5: 'a)

fun arr2_list :: "'a arr2 \<Rightarrow> 'a list" where
  "arr2_list (Arr2 a b) = [a, b]"

fun arr3_list :: "'a arr3 \<Rightarrow> 'a list" where
  "arr3_list (Arr3 a b c) = [a, b, c]"

fun arr6_list :: "'a arr6 \<Rightarrow> 'a list" where
  "arr6_list (Arr6 a b c d e f) = [a, b, c, d, e, f]"

section \<open>Ordered maps\<close>

text \<open>
  A \<open>BTreeMap\<close> is a list of key/value pairs in strictly increasing key order; \<open>insert\<close> replaces
  the value of a key that is present, and iteration follows the list.
\<close>

fun bt_insert :: "'k::linorder \<Rightarrow> 'v \<Rightarrow> ('k \<times> 'v) list \<Rightarrow> ('k \<times> 'v) list" where
  "bt_insert k v [] = [(k, v)]"
| "bt_insert k v ((l, w) # m) =
     (if k = l then (k, v) # m
      else if k < l then (k, v) # (l, w) # m
      else (l, w) # bt_insert k v m)"

abbreviation bt_get :: "('k \<times> 'v) list \<Rightarrow> 'k \<Rightarrow> 'v option" where
  "bt_get m k \<equiv> map_of m k"

definition bt_wf :: "('k::linorder \<times> 'v) list \<Rightarrow> bool" where
  "bt_wf m \<longleftrightarrow> sorted_wrt (<) (map fst m)"

section \<open>Lemmas on integers\<close>

lemma checked_add_Some [unat_ops]:
  fixes a b :: "'a::len word"
  shows "checked_add a b = Some c \<longleftrightarrow> unat a + unat b < 2 ^ LENGTH('a) \<and> c = a + b"
  by (auto simp: checked_add_def)

lemma checked_add_None:
  fixes a b :: "'a::len word"
  shows "checked_add a b = None \<longleftrightarrow> 2 ^ LENGTH('a) \<le> unat a + unat b"
  by (auto simp: checked_add_def)

lemma checked_add_unat:
  fixes a b :: "'a::len word"
  assumes "checked_add a b = Some c"
  shows "unat c = unat a + unat b"
  using assms by (auto simp: checked_add_def unat_word_ariths split: if_splits)

lemma checked_sub_Some [unat_ops]: "checked_sub a b = Some c \<longleftrightarrow> b \<le> a \<and> c = a - b"
  by (auto simp: checked_sub_def)

lemma checked_sub_None: "checked_sub a b = None \<longleftrightarrow> a < b"
  by (auto simp: checked_sub_def)

lemma unat_diff: "b \<le> a \<Longrightarrow> unat (a - b) = unat a - unat b"
  by (rule unat_sub)

lemma checked_mul_unat:
  fixes a b :: "'a::len word"
  assumes "checked_mul a b = Some c"
  shows "unat c = unat a * unat b"
  using assms by (auto simp: checked_mul_def unat_word_ariths split: if_splits)

lemma try_from_word_unat:
  fixes a :: "'a::len word" and b :: "'b::len word"
  assumes "try_from_word a = Some b"
  shows "unat b = unat a"
  using assms by (auto simp: try_from_word_def unsigned_ucast_eq take_bit_nat_eq_self split: if_splits)

lemma try_from_usize_unat:
  fixes b :: "'b::len word"
  assumes "try_from_usize n = Some b"
  shows "unat b = n"
  using assms by (auto simp: try_from_usize_def unat_of_nat split: if_splits)

lemma unat_widen:
  assumes "LENGTH('a::len) \<le> LENGTH('b::len)"
  shows "unat (ucast (a :: 'a word) :: 'b word) = unat a"
proof -
  have "unat a < 2 ^ LENGTH('a)" by (rule unsigned_less)
  also have "(2::nat) ^ LENGTH('a) \<le> 2 ^ LENGTH('b)" using assms by simp
  finally show ?thesis by (simp add: unsigned_ucast_eq take_bit_nat_eq_self)
qed

lemma unat_lt_64 [simp]: "unat (a :: u64) < 18446744073709551616"
  using unsigned_less [where 'a = nat, of a] by simp

lemma unat_u128_of_u64 [simp]: "unat (ucast (a :: u64) :: u128) = unat a"
  by (rule unat_widen) simp

lemma saturating_add_unat:
  fixes a b :: "'a::len word"
  shows "unat (saturating_add a b) = min (unat a + unat b) (2 ^ LENGTH('a) - 1)"
  by (auto simp: saturating_add_def unat_word_ariths unsigned_minus_1_eq_mask mask_eq_exp_minus_1 min_def)

lemma abs_diff_unat:
  "unat (abs_diff a b) = (if unat a < unat b then unat b - unat a else unat a - unat b)"
  by (auto simp: abs_diff_def word_less_nat_alt not_less unat_sub word_le_nat_alt)

lemma checked_mul_u128_u64: "unat b < 2 ^ 64 \<Longrightarrow> checked_mul (ucast (a :: u64) :: u128) b = Some (ucast a * b)"
proof -
  assume b: "unat b < 2 ^ 64"
  have "unat a * unat b < 2 ^ 64 * 2 ^ 64"
    by (rule mult_strict_mono) (use b in auto)
  then show ?thesis by (simp add: checked_mul_def)
qed

lemma unat_max: "unat (max a b) = max (unat a) (unat b)"
  by (simp add: max_def word_le_nat_alt)

lemma unat_min: "unat (min a b) = min (unat a) (unat b)"
  by (simp add: min_def word_le_nat_alt)

lemma unat_narrow: "unat (w :: u128) < 2 ^ 64 \<Longrightarrow> unat (ucast w :: u64) = unat w"
  by (simp add: unsigned_ucast_eq take_bit_nat_eq_self)

lemma unat_u64_max: "unat (- 1 :: u64) = 2 ^ 64 - 1"
  by (simp add: unsigned_minus_1_eq_mask mask_eq_exp_minus_1)

section \<open>Lemmas on results\<close>

lemma rbind_Inr_conv: "rbind x f = Inr b \<longleftrightarrow> (\<exists>a. x = Inr a \<and> f a = Inr b)"
  by (cases x) auto

lemma rbind_Inl_conv: "rbind x f = Inl e \<longleftrightarrow> x = Inl e \<or> (\<exists>a. x = Inr a \<and> f a = Inl e)"
  by (cases x) auto

lemma map_err_Inr_conv [simp]: "map_err e x = Inr a \<longleftrightarrow> x = Inr a"
  by (cases x) auto

lemma map_err_Inl_conv [simp]: "map_err e x = Inl f \<longleftrightarrow> f = e \<and> (\<exists>g. x = Inl g)"
  by (cases x) auto

lemma ok_or_Inr_conv [simp]: "ok_or e x = Inr a \<longleftrightarrow> x = Some a"
  by (cases x) auto

lemma ok_or_Inl_conv [simp]: "ok_or e x = Inl f \<longleftrightarrow> f = e \<and> x = None"
  by (cases x) auto

lemma is_ok_conv: "is_ok x \<longleftrightarrow> (\<exists>a. x = Inr a)"
  by (cases x) auto

lemma is_some_and_conv: "is_some_and x P \<longleftrightarrow> (\<exists>a. x = Some a \<and> P a)"
  by (cases x) auto

lemma rfold_append: "rfold f (xs @ ys) s = rbind (rfold f xs s) (rfold f ys)"
proof (induction xs arbitrary: s)
  case (Cons x xs)
  then show ?case by (cases "f x s") auto
qed simp

lemma rfold_unit: "rfold (\<lambda>x _. f x) xs () = Inr () \<longleftrightarrow> (\<forall>x \<in> set xs. f x = Inr ())"
  by (induction xs) (auto simp: rbind_Inr_conv)

text \<open>An invariant of a fallible loop, and a loop that cannot fail under its invariant.\<close>

lemma rfold_inv:
  assumes "rfold f xs s = Inr t" and "P s"
    and "\<And>x s t. x \<in> set xs \<Longrightarrow> P s \<Longrightarrow> f x s = Inr t \<Longrightarrow> P t"
  shows "P t"
  using assms
proof (induction xs arbitrary: s)
  case (Cons x xs)
  from Cons.prems(1) obtain r where r: "f x s = Inr r" "rfold f xs r = Inr t"
    by (auto simp: rbind_Inr_conv)
  with Cons.prems have "P r" by auto
  with r Cons show ?case by auto
qed auto

lemma rfold_total:
  assumes "P s" and "\<And>x s. x \<in> set xs \<Longrightarrow> P s \<Longrightarrow> \<exists>t. f x s = Inr t \<and> P t"
  shows "\<exists>t. rfold f xs s = Inr t \<and> P t"
  using assms
proof (induction xs arbitrary: s)
  case (Cons x xs)
  then obtain r where "f x s = Inr r" "P r" by (meson list.set_intros(1))
  with Cons show ?case by auto
qed auto

lemma port_bind_Inr [simp]: "p s = (Inr a, t) \<Longrightarrow> port_bind p f s = f a t"
  by (simp add: port_bind_def)

lemma port_return_apply [simp]: "port_return a s = (Inr a, s)"
  by (simp add: port_return_def)

lemma port_bind_Inr_conv:
  "port_bind p f s = (Inr b, u) \<longleftrightarrow> (\<exists>a t. p s = (Inr a, t) \<and> f a t = (Inr b, u))"
  by (auto simp: port_bind_def split: prod.splits sum.splits)

section \<open>Lemmas on arrays\<close>

lemma length_arr_lists [simp]:
  "length (arr2_list x) = 2" "length (arr3_list y) = 3" "length (arr6_list z) = 6"
  by (cases x, simp) (cases y, simp, cases z, simp)

lemma set_arr_lists [simp]:
  "set (arr2_list x) = set_arr2 x" "set (arr3_list y) = set_arr3 y" "set (arr6_list z) = set_arr6 z"
  by (cases x, simp) (cases y, simp, cases z, simp)

lemma map_arr_lists [simp]:
  "map f (arr2_list x) = arr2_list (map_arr2 f x)"
  "map f (arr3_list y) = arr3_list (map_arr3 f y)"
  "map f (arr6_list z) = arr6_list (map_arr6 f z)"
  by (cases x, simp) (cases y, simp, cases z, simp)

section \<open>Lemmas on ordered maps\<close>

lemma fst_set_bt_insert: "fst ` set (bt_insert k v m) = insert k (fst ` set m)"
  by (induction k v m rule: bt_insert.induct) auto

lemma bt_get_insert: "bt_get (bt_insert k v m) x = (if x = k then Some v else bt_get m x)"
  by (induction k v m rule: bt_insert.induct) auto

lemma bt_wf_Nil [simp]: "bt_wf []"
  by (simp add: bt_wf_def)

lemma bt_wf_insert: "bt_wf m \<Longrightarrow> bt_wf (bt_insert k v m)"
proof (induction k v m rule: bt_insert.induct)
  case (2 k v l w m)
  have keys: "fst ` set (bt_insert k v m) = insert k (fst ` set m)"
    by (rule fst_set_bt_insert)
  show ?case
  proof (cases k l rule: linorder_cases)
    case greater
    moreover from 2 greater have "bt_wf (bt_insert k v m)"
      by (auto simp: bt_wf_def)
    moreover have "\<forall>x \<in> fst ` set (bt_insert k v m). l < x"
      using 2(2) greater unfolding keys by (auto simp: bt_wf_def)
    ultimately show ?thesis by (auto simp: bt_wf_def)
  next
    case less
    with 2 show ?thesis by (auto simp: bt_wf_def intro: less_trans)
  qed (use 2 in \<open>auto simp: bt_wf_def\<close>)
qed (simp add: bt_wf_def)

lemma bt_wf_distinct: "bt_wf m \<Longrightarrow> distinct (map fst m)"
  by (simp add: bt_wf_def strict_sorted_iff)

lemma length_bt_insert:
  "bt_wf m \<Longrightarrow> length (bt_insert k v m) = (if k \<in> fst ` set m then length m else Suc (length m))"
proof (induction k v m rule: bt_insert.induct)
  case (2 k v l w m)
  have "k < l \<Longrightarrow> k \<notin> fst ` set m"
    using 2(2) by (auto simp: bt_wf_def)
  with 2 show ?case by (auto simp: bt_wf_def)
qed simp

text \<open>Two well-formed maps with the same lookups are the same map: the representation is canonical.\<close>

lemma bt_wf_ext:
  assumes "bt_wf m" "bt_wf n" "\<And>k. bt_get m k = bt_get n k"
  shows "m = n"
proof -
  have "set m = set n"
    using assms map_of_inject_set bt_wf_distinct ext by metis
  moreover have "sorted (map fst m)" "sorted (map fst n)"
    using assms by (auto simp: bt_wf_def strict_sorted_iff)
  ultimately show ?thesis
    using assms bt_wf_distinct map_sorted_distinct_set_unique [of fst m n]
    by (metis distinct_map inj_on_Un_image_eq_iff sup.idem)
qed

section \<open>Shared contracts\<close>

text \<open>
  A ring buffer of capacity \<open>cap\<close>: a push appends, and evicts the oldest entry when the buffer is
  full. The two ways the code writes it (append then pop, pop then append) both satisfy it.
\<close>

locale bounded_ring =
  fixes cap :: nat and push :: "'a \<Rightarrow> 'a list \<Rightarrow> 'a list"
  assumes cap_pos: "0 < cap"
    and push_room: "length xs < cap \<Longrightarrow> push x xs = xs @ [x]"
    and push_full: "length xs = cap \<Longrightarrow> push x xs = tl xs @ [x]"
begin

lemma push_eq: "length xs \<le> cap \<Longrightarrow> push x xs = drop (Suc (length xs) - cap) (xs @ [x])"
proof (cases "length xs = cap")
  case True
  with cap_pos obtain z zs where "xs = z # zs" by (cases xs) auto
  with True cap_pos show ?thesis by (simp add: push_full)
qed (simp add: push_room)

lemma push_length: "length xs \<le> cap \<Longrightarrow> length (push x xs) = min cap (Suc (length xs))"
  using cap_pos by (auto simp: push_eq min_def)

lemma push_bounded: "length xs \<le> cap \<Longrightarrow> length (push x xs) \<le> cap"
  by (simp add: push_length)

lemma push_last: "length xs \<le> cap \<Longrightarrow> push x xs \<noteq> [] \<and> last (push x xs) = x"
  using cap_pos by (auto simp: push_eq)

lemma push_set: "length xs \<le> cap \<Longrightarrow> set (push x xs) \<subseteq> insert x (set xs)"
  using set_drop_subset [of "Suc (length xs) - cap" "xs @ [x]"] by (auto simp: push_eq)

lemma push_sorted_wrt:
  assumes "length xs \<le> cap" "sorted_wrt R xs" "\<And>y. y \<in> set xs \<Longrightarrow> R y x"
  shows "sorted_wrt R (push x xs)"
proof -
  have "sorted_wrt R (xs @ [x])" using assms by (auto simp: sorted_wrt_append)
  then show ?thesis using assms(1) by (simp only: push_eq sorted_wrt_drop)
qed

text \<open>After any number of pushes the buffer holds exactly the most recent \<open>cap\<close> entries.\<close>

lemma push_many:
  "length xs \<le> cap \<Longrightarrow> fold push ys xs = drop (length xs + length ys - cap) (xs @ ys)"
proof (induction ys arbitrary: xs)
  case (Cons y ys)
  let ?d = "Suc (length xs) - cap"
  have "fold push (y # ys) xs = drop (length (push y xs) + length ys - cap) (push y xs @ ys)"
    using Cons push_bounded by simp
  also have "\<dots> = drop (length xs + length (y # ys) - cap) (xs @ y # ys)"
  proof (cases "length xs = cap")
    case True
    with cap_pos obtain z zs where "xs = z # zs" by (cases xs) auto
    with True show ?thesis by (simp add: push_full)
  next
    case False
    with Cons.prems show ?thesis by (simp add: push_room)
  qed
  finally show ?case .
qed simp

end

text \<open>A deterministic state machine whose every step keeps an invariant.\<close>

locale machine =
  fixes step :: "'s \<Rightarrow> 'e \<Rightarrow> 's" and inv :: "'s \<Rightarrow> bool"
  assumes step_inv: "inv s \<Longrightarrow> inv (step s e)"
begin

lemma run_inv: "inv s \<Longrightarrow> inv (foldl step s es)"
  by (induction es arbitrary: s) (auto intro: step_inv)

lemma run_prefix_inv: "inv s \<Longrightarrow> inv (foldl step s (take n es))"
  by (rule run_inv)

end

text \<open>
  A codec: what is encoded decodes to the same value. In a canonical codec every text that decodes
  is the encoding of its value, so encoded texts and values correspond one to one.
\<close>

locale codec =
  fixes enc :: "'a \<Rightarrow> 'b" and dec :: "'b \<Rightarrow> ('e, 'a) result"
  assumes dec_enc: "dec (enc x) = Inr x"
begin

lemma enc_inj: "enc x = enc y \<longleftrightarrow> x = y"
  by (metis dec_enc sum.inject(2))

lemma enc_accepted: "is_ok (dec (enc x))"
  by (simp add: dec_enc)

end

locale canonical_codec = codec +
  assumes enc_dec: "dec b = Inr x \<Longrightarrow> enc x = b"
begin

lemma dec_inj: "dec b = Inr x \<Longrightarrow> dec c = Inr x \<Longrightarrow> b = c"
  by (metis enc_dec)

lemma dec_iff: "dec b = Inr x \<longleftrightarrow> b = enc x"
  by (auto simp: dec_enc dest: enc_dec)

lemma accepted_range: "is_ok (dec b) \<longleftrightarrow> b \<in> range enc"
  by (auto simp: is_ok_conv dec_iff)

end

end
