(* ===== verification/Domain.thy ===== *)
theory Domain
  imports Prelude
begin

text \<open>
  The domain values of \<open>crates/l2-loop-core\<close>: the error type (\<open>error.rs\<close>), the numeric ABI enums and
  their conversions (\<open>value.rs\<close> over the constants of \<open>l2-loop-common/src/constants.rs\<close>), interface
  names, generations and the interface lifecycle (\<open>interface.rs\<close>), and the two validated requests
  (\<open>policy.rs\<close>, \<open>probe.rs\<close>).
\<close>

section \<open>Errors\<close>

datatype DomainError =
    InvalidNumericValue string u8
  | InvalidInterfaceName
  | InvalidGeneration
  | InvalidObservation string
  | InvalidVlan u16
  | InvalidTransition string string
  | MissingRateLimit
  | ZeroRateLimit string
  | UnsupportedPolicyClass u8
  | InvalidPolicyTtl nat
  | InvalidProbeTimeout nat

section \<open>Numeric ABI enums\<close>

text \<open>
  The macro \<open>numeric_enum!\<close> gives each enum its discriminants, a conversion to \<open>u8\<close> and a checked
  conversion back: the first variant with that value, or an error that names the enum and the value.
\<close>

definition numeric_try_from :: "string \<Rightarrow> ('a \<Rightarrow> u8) \<Rightarrow> 'a list \<Rightarrow> u8 \<Rightarrow> (DomainError, 'a) result" where
  "numeric_try_from kind code variants value =
     (case find (\<lambda>variant. code variant = value) variants of
        Some variant \<Rightarrow> Inr variant
      | None \<Rightarrow> Inl (InvalidNumericValue kind value))"

datatype AgentMode = ModeDisabled | ModeObserve | ModePolice

fun agent_mode_code :: "AgentMode \<Rightarrow> u8" where
  "agent_mode_code ModeDisabled = 0"
| "agent_mode_code ModeObserve = 1"
| "agent_mode_code ModePolice = 2"

definition agent_mode_try_from :: "u8 \<Rightarrow> (DomainError, AgentMode) result" where
  "agent_mode_try_from = numeric_try_from ''AgentMode'' agent_mode_code [ModeDisabled, ModeObserve, ModePolice]"

datatype Direction = DirIngress | DirEgress

fun direction_code :: "Direction \<Rightarrow> u8" where
  "direction_code DirIngress = 1"
| "direction_code DirEgress = 2"

definition direction_try_from :: "u8 \<Rightarrow> (DomainError, Direction) result" where
  "direction_try_from = numeric_try_from ''Direction'' direction_code [DirIngress, DirEgress]"

datatype HookRole =
  ExternalXdpIngress | PhysicalTcEgress | TemporaryPathIngress | TemporaryPathEgress

fun hook_role_code :: "HookRole \<Rightarrow> u8" where
  "hook_role_code ExternalXdpIngress = 1"
| "hook_role_code PhysicalTcEgress = 2"
| "hook_role_code TemporaryPathIngress = 3"
| "hook_role_code TemporaryPathEgress = 4"

definition hook_role_try_from :: "u8 \<Rightarrow> (DomainError, HookRole) result" where
  "hook_role_try_from = numeric_try_from ''HookRole'' hook_role_code
     [ExternalXdpIngress, PhysicalTcEgress, TemporaryPathIngress, TemporaryPathEgress]"

datatype TrafficClass =
    TcAll | TcL2Broadcast | TcIpv4Multicast | TcIpv6Multicast | TcOtherL2Multicast
  | TcLinkLocalControl | TcUnicastOrUnclassified

fun traffic_class_code :: "TrafficClass \<Rightarrow> u8" where
  "traffic_class_code TcAll = 1"
| "traffic_class_code TcL2Broadcast = 2"
| "traffic_class_code TcIpv4Multicast = 3"
| "traffic_class_code TcIpv6Multicast = 4"
| "traffic_class_code TcOtherL2Multicast = 5"
| "traffic_class_code TcLinkLocalControl = 6"
| "traffic_class_code TcUnicastOrUnclassified = 7"

definition traffic_class_try_from :: "u8 \<Rightarrow> (DomainError, TrafficClass) result" where
  "traffic_class_try_from = numeric_try_from ''TrafficClass'' traffic_class_code
     [TcAll, TcL2Broadcast, TcIpv4Multicast, TcIpv6Multicast, TcOtherL2Multicast,
      TcLinkLocalControl, TcUnicastOrUnclassified]"

definition supports_policing :: "TrafficClass \<Rightarrow> bool" where
  "supports_policing c \<longleftrightarrow> c \<notin> {TcAll, TcUnicastOrUnclassified}"

datatype Verdict = VerdictPass | VerdictWouldDrop | VerdictDrop | VerdictErrorPass

fun verdict_code :: "Verdict \<Rightarrow> u8" where
  "verdict_code VerdictPass = 1"
| "verdict_code VerdictWouldDrop = 2"
| "verdict_code VerdictDrop = 3"
| "verdict_code VerdictErrorPass = 4"

definition verdict_try_from :: "u8 \<Rightarrow> (DomainError, Verdict) result" where
  "verdict_try_from = numeric_try_from ''Verdict'' verdict_code
     [VerdictPass, VerdictWouldDrop, VerdictDrop, VerdictErrorPass]"

datatype ObservationReason =
    ReasonNone | ReasonMissingConfiguration | ReasonParseError | ReasonFingerprintSampleSelected
  | ReasonProbeMatched | ReasonPacketRateExceeded | ReasonByteRateExceeded | ReasonBothRatesExceeded

fun observation_reason_code :: "ObservationReason \<Rightarrow> u8" where
  "observation_reason_code ReasonNone = 0"
| "observation_reason_code ReasonMissingConfiguration = 1"
| "observation_reason_code ReasonParseError = 2"
| "observation_reason_code ReasonFingerprintSampleSelected = 3"
| "observation_reason_code ReasonProbeMatched = 4"
| "observation_reason_code ReasonPacketRateExceeded = 5"
| "observation_reason_code ReasonByteRateExceeded = 6"
| "observation_reason_code ReasonBothRatesExceeded = 7"

definition observation_reason_try_from :: "u8 \<Rightarrow> (DomainError, ObservationReason) result" where
  "observation_reason_try_from = numeric_try_from ''ObservationReason'' observation_reason_code
     [ReasonNone, ReasonMissingConfiguration, ReasonParseError, ReasonFingerprintSampleSelected,
      ReasonProbeMatched, ReasonPacketRateExceeded, ReasonByteRateExceeded, ReasonBothRatesExceeded]"

datatype VlanVisibility = VlanUnknown | VlanVerifiedVisible | VlanUnavailable

fun vlan_visibility_code :: "VlanVisibility \<Rightarrow> u8" where
  "vlan_visibility_code VlanUnknown = 0"
| "vlan_visibility_code VlanVerifiedVisible = 1"
| "vlan_visibility_code VlanUnavailable = 2"

definition vlan_visibility_try_from :: "u8 \<Rightarrow> (DomainError, VlanVisibility) result" where
  "vlan_visibility_try_from = numeric_try_from ''VlanVisibility'' vlan_visibility_code
     [VlanUnknown, VlanVerifiedVisible, VlanUnavailable]"

datatype ProbeScope = ScopeExternal | ScopeInternal

fun probe_scope_code :: "ProbeScope \<Rightarrow> u8" where
  "probe_scope_code ScopeExternal = 1"
| "probe_scope_code ScopeInternal = 2"

definition probe_scope_try_from :: "u8 \<Rightarrow> (DomainError, ProbeScope) result" where
  "probe_scope_try_from = numeric_try_from ''ProbeScope'' probe_scope_code [ScopeExternal, ScopeInternal]"

section \<open>Interface names, generations and the lifecycle\<close>

datatype InterfaceName = InterfaceName (as_str: string)

definition interface_name_new :: "string \<Rightarrow> (DomainError, InterfaceName) result" where
  "interface_name_new value =
     (let valid = value \<noteq> [] \<and> length value \<le> 15 \<and>
            list_all (\<lambda>byte. is_ascii_alphanumeric byte \<or> byte \<in> {CHR ''.'', CHR ''_'', CHR ''-'', CHR '':''}) value
      in if valid then Inr (InterfaceName value) else Inl InvalidInterfaceName)"

datatype Generation = Generation (generation_get: u64)

definition generation_new :: "u64 \<Rightarrow> (DomainError, Generation) result" where
  "generation_new value = (if value = 0 then Inl InvalidGeneration else Inr (Generation value))"

datatype InterfaceState = IfDetached | IfAttaching | IfObserving | IfPolicing | IfError

fun interface_state_name :: "InterfaceState \<Rightarrow> string" where
  "interface_state_name IfDetached = ''detached''"
| "interface_state_name IfAttaching = ''attaching''"
| "interface_state_name IfObserving = ''observing''"
| "interface_state_name IfPolicing = ''policing''"
| "interface_state_name IfError = ''error''"

definition interface_transition :: "InterfaceState \<Rightarrow> InterfaceState \<Rightarrow> (DomainError, InterfaceState) result" where
  "interface_transition self target =
     (let valid = self = target \<or>
            (self = IfDetached \<and> target = IfAttaching) \<or>
            (self = IfAttaching \<and> target = IfObserving) \<or>
            (self = IfObserving \<and> target = IfPolicing) \<or>
            (self = IfPolicing \<and> target = IfObserving) \<or>
            (self \<in> {IfAttaching, IfObserving, IfPolicing} \<and> target = IfError) \<or>
            (self = IfError \<and> target = IfDetached)
      in if valid then Inr target
         else Inl (InvalidTransition (interface_state_name self) (interface_state_name target)))"

definition validate_vlan :: "u16 option \<Rightarrow> (DomainError, unit) result" where
  "validate_vlan vlan =
     (case vlan of None \<Rightarrow> Inr ()
      | Some value \<Rightarrow> if 1 \<le> value \<and> value \<le> 4094 then Inr () else Inl (InvalidVlan value))"

section \<open>Validated requests\<close>

text \<open>A \<open>Duration\<close> is its number of nanoseconds; \<open>as_millis\<close> truncates.\<close>

type_synonym duration = nat

definition from_secs :: "nat \<Rightarrow> duration" where "from_secs s = s * 1000000000"
definition from_millis :: "nat \<Rightarrow> duration" where "from_millis ms = ms * 1000000"
definition as_millis :: "duration \<Rightarrow> nat" where "as_millis d = d div 1000000"

record PolicyRequest =
  pol_interface :: InterfaceName
  pol_vlan :: "u16 option"
  pol_class :: TrafficClass
  pol_pps :: "u64 option"
  pol_bps :: "u64 option"
  pol_ttl :: duration

definition MIN_POLICY_TTL :: duration where "MIN_POLICY_TTL = from_secs 1"
definition MAX_POLICY_TTL :: duration where "MAX_POLICY_TTL = from_secs (24 * 60 * 60)"

definition policy_request_new ::
  "string \<Rightarrow> u16 option \<Rightarrow> TrafficClass \<Rightarrow> u64 option \<Rightarrow> u64 option \<Rightarrow> duration \<Rightarrow> (DomainError, PolicyRequest) result" where
  "policy_request_new name vlan cls pps bps ttl =
     rbind (interface_name_new name) (\<lambda>interface.
     rbind (validate_vlan vlan) (\<lambda>_.
     if \<not> supports_policing cls then Inl (UnsupportedPolicyClass (traffic_class_code cls))
     else if pps = None \<and> bps = None then Inl MissingRateLimit
     else if pps = Some 0 then Inl (ZeroRateLimit ''packet'')
     else if bps = Some 0 then Inl (ZeroRateLimit ''byte'')
     else if \<not> (MIN_POLICY_TTL \<le> ttl \<and> ttl \<le> MAX_POLICY_TTL) then Inl (InvalidPolicyTtl (as_millis ttl))
     else Inr \<lparr>pol_interface = interface, pol_vlan = vlan, pol_class = cls, pol_pps = pps,
                pol_bps = bps, pol_ttl = ttl\<rparr>))"

record ProbeRequest =
  probe_interface :: InterfaceName
  probe_scope :: ProbeScope
  probe_vlan :: "u16 option"
  probe_timeout :: duration

definition MIN_PROBE_TIMEOUT :: duration where "MIN_PROBE_TIMEOUT = from_millis 100"
definition MAX_PROBE_TIMEOUT :: duration where "MAX_PROBE_TIMEOUT = from_secs 30"

definition probe_request_new ::
  "string \<Rightarrow> ProbeScope \<Rightarrow> u16 option \<Rightarrow> duration \<Rightarrow> (DomainError, ProbeRequest) result" where
  "probe_request_new name scope vlan timeout =
     rbind (interface_name_new name) (\<lambda>interface.
     rbind (validate_vlan vlan) (\<lambda>_.
     if \<not> (MIN_PROBE_TIMEOUT \<le> timeout \<and> timeout \<le> MAX_PROBE_TIMEOUT)
     then Inl (InvalidProbeTimeout (as_millis timeout))
     else Inr \<lparr>probe_interface = interface, probe_scope = scope, probe_vlan = vlan, probe_timeout = timeout\<rparr>))"

section \<open>The enums are canonical codecs\<close>

text \<open>
  The contract of \<open>numeric_enum!\<close>: the listed variants are all of them and their values differ. It
  makes the two conversions a canonical codec, whatever the enum.
\<close>

locale numeric_enum =
  fixes kind :: string and code :: "'a \<Rightarrow> u8" and variants :: "'a list"
  assumes codes: "distinct (map code variants)" and complete: "x \<in> set variants"
begin

lemma code_inj: "code x = code y \<Longrightarrow> x = y"
  using codes complete [of x] complete [of y] by (auto simp: distinct_map inj_on_def)

lemma try_from_Inr: "numeric_try_from kind code variants value = Inr x \<longleftrightarrow> value = code x"
proof -
  have "find (\<lambda>v. code v = value) variants = Some x \<longleftrightarrow> code x = value"
  proof
    assume c: "code x = value"
    obtain y where y: "find (\<lambda>v. code v = value) variants = Some y"
      using c complete by (cases "find (\<lambda>v. code v = value) variants") (auto simp: find_None_iff)
    then have "code y = code x" using c by (auto simp: find_Some_iff)
    with y show "find (\<lambda>v. code v = value) variants = Some x" by (auto dest: code_inj)
  qed (auto simp: find_Some_iff)
  then show ?thesis by (auto simp: numeric_try_from_def split: option.splits)
qed

lemma try_from_Inl:
  "numeric_try_from kind code variants value = Inl e \<longleftrightarrow>
     e = InvalidNumericValue kind value \<and> value \<notin> range code"
proof -
  have "find (\<lambda>v. code v = value) variants = None \<longleftrightarrow> value \<notin> range code"
    using complete by (auto simp: find_None_iff)
  then show ?thesis by (auto simp: numeric_try_from_def split: option.splits)
qed

end

sublocale numeric_enum \<subseteq> canonical_codec code "numeric_try_from kind code variants"
  by unfold_locales (simp_all add: try_from_Inr)

interpretation agent_mode: numeric_enum "''AgentMode''" agent_mode_code
  "[ModeDisabled, ModeObserve, ModePolice]"
  using AgentMode.nchotomy by unfold_locales auto

interpretation direction: numeric_enum "''Direction''" direction_code "[DirIngress, DirEgress]"
  using Direction.nchotomy by unfold_locales auto

interpretation hook_role: numeric_enum "''HookRole''" hook_role_code
  "[ExternalXdpIngress, PhysicalTcEgress, TemporaryPathIngress, TemporaryPathEgress]"
  using HookRole.nchotomy by unfold_locales auto

interpretation traffic_class: numeric_enum "''TrafficClass''" traffic_class_code
  "[TcAll, TcL2Broadcast, TcIpv4Multicast, TcIpv6Multicast, TcOtherL2Multicast,
    TcLinkLocalControl, TcUnicastOrUnclassified]"
  using TrafficClass.nchotomy by unfold_locales auto

interpretation verdict: numeric_enum "''Verdict''" verdict_code
  "[VerdictPass, VerdictWouldDrop, VerdictDrop, VerdictErrorPass]"
  using Verdict.nchotomy by unfold_locales auto

interpretation observation_reason: numeric_enum "''ObservationReason''" observation_reason_code
  "[ReasonNone, ReasonMissingConfiguration, ReasonParseError, ReasonFingerprintSampleSelected,
    ReasonProbeMatched, ReasonPacketRateExceeded, ReasonByteRateExceeded, ReasonBothRatesExceeded]"
  using ObservationReason.nchotomy by unfold_locales auto

interpretation vlan_visibility: numeric_enum "''VlanVisibility''" vlan_visibility_code
  "[VlanUnknown, VlanVerifiedVisible, VlanUnavailable]"
  using VlanVisibility.nchotomy by unfold_locales auto

interpretation probe_scope: numeric_enum "''ProbeScope''" probe_scope_code "[ScopeExternal, ScopeInternal]"
  using ProbeScope.nchotomy by unfold_locales auto

text \<open>
  The eight ABI enums convert to and from \<open>u8\<close> without loss: the conversion back accepts
  exactly the bytes that are the value of a variant, returns that variant, and on any other byte
  returns the error naming the enum and the byte.
\<close>

theorem abi_enums_are_exact:
  "(agent_mode_try_from v = Inr m \<longleftrightarrow> v = agent_mode_code m) \<and>
   (direction_try_from v = Inr d \<longleftrightarrow> v = direction_code d) \<and>
   (hook_role_try_from v = Inr h \<longleftrightarrow> v = hook_role_code h) \<and>
   (traffic_class_try_from v = Inr c \<longleftrightarrow> v = traffic_class_code c) \<and>
   (verdict_try_from v = Inr w \<longleftrightarrow> v = verdict_code w) \<and>
   (observation_reason_try_from v = Inr r \<longleftrightarrow> v = observation_reason_code r) \<and>
   (vlan_visibility_try_from v = Inr y \<longleftrightarrow> v = vlan_visibility_code y) \<and>
   (probe_scope_try_from v = Inr p \<longleftrightarrow> v = probe_scope_code p) \<and>
   (traffic_class_try_from v = Inl e \<longleftrightarrow>
      e = InvalidNumericValue ''TrafficClass'' v \<and> v \<notin> range traffic_class_code)"
  unfolding agent_mode_try_from_def direction_try_from_def hook_role_try_from_def
    traffic_class_try_from_def verdict_try_from_def observation_reason_try_from_def
    vlan_visibility_try_from_def probe_scope_try_from_def
  by (simp only: agent_mode.dec_iff direction.dec_iff hook_role.dec_iff traffic_class.dec_iff
      verdict.dec_iff observation_reason.dec_iff vlan_visibility.dec_iff probe_scope.dec_iff
      traffic_class.try_from_Inl simp_thms)

section \<open>Operator requests\<close>

text \<open>
  Exactly which requests the operator can make. A policy is accepted exactly when the interface name
  is one to fifteen bytes of the safe alphabet, the VLAN identifier, if given, is 1 to 4094, the class can be
  policed, at least one rate limit is given and none is zero, and the lifetime is one second to one day; a
  probe when its name and VLAN are as above and its timeout is 100 milliseconds to 30 seconds. What is
  accepted is recorded unchanged.
\<close>

theorem requests_accepted:
  "(policy_request_new name vlan cls pps bps ttl = Inr p \<longleftrightarrow>
      p = \<lparr>pol_interface = InterfaceName name, pol_vlan = vlan, pol_class = cls, pol_pps = pps, pol_bps = bps, pol_ttl = ttl\<rparr> \<and>
      is_ok (interface_name_new name) \<and> is_ok (validate_vlan vlan) \<and> cls \<notin> {TcAll, TcUnicastOrUnclassified} \<and>
      \<not> (pps = None \<and> bps = None) \<and> pps \<noteq> Some 0 \<and> bps \<noteq> Some 0 \<and> 10 ^ 9 \<le> ttl \<and> ttl \<le> 86400 * 10 ^ 9) \<and>
   (probe_request_new name scope vlan timeout = Inr q \<longleftrightarrow>
      q = \<lparr>probe_interface = InterfaceName name, probe_scope = scope, probe_vlan = vlan, probe_timeout = timeout\<rparr> \<and>
      is_ok (interface_name_new name) \<and> is_ok (validate_vlan vlan) \<and> 10 ^ 8 \<le> timeout \<and> timeout \<le> 30 * 10 ^ 9) \<and>
   (is_ok (interface_name_new name) \<longleftrightarrow> 1 \<le> length name \<and> length name \<le> 15 \<and>
      list_all (\<lambda>c. is_ascii_alphanumeric c \<or> c \<in> {CHR ''.'', CHR ''_'', CHR ''-'', CHR '':''}) name) \<and>
   (is_ok (validate_vlan vlan) \<longleftrightarrow> (case vlan of None \<Rightarrow> True | Some v \<Rightarrow> 1 \<le> unat v \<and> unat v \<le> 4094))"
proof (intro conjI)
  have name: "interface_name_new name = Inr n \<longleftrightarrow> n = InterfaceName name \<and> is_ok (interface_name_new name)" for n
    by (auto simp: interface_name_new_def Let_def)
  have vlan: "validate_vlan vlan = Inr () \<longleftrightarrow> is_ok (validate_vlan vlan)"
    by (cases "validate_vlan vlan") auto
  note times = MIN_POLICY_TTL_def MAX_POLICY_TTL_def MIN_PROBE_TIMEOUT_def MAX_PROBE_TIMEOUT_def from_secs_def from_millis_def
  show "policy_request_new name vlan cls pps bps ttl = Inr p \<longleftrightarrow>
      p = \<lparr>pol_interface = InterfaceName name, pol_vlan = vlan, pol_class = cls, pol_pps = pps, pol_bps = bps, pol_ttl = ttl\<rparr> \<and>
      is_ok (interface_name_new name) \<and> is_ok (validate_vlan vlan) \<and> cls \<notin> {TcAll, TcUnicastOrUnclassified} \<and>
      \<not> (pps = None \<and> bps = None) \<and> pps \<noteq> Some 0 \<and> bps \<noteq> Some 0 \<and> 10 ^ 9 \<le> ttl \<and> ttl \<le> 86400 * 10 ^ 9"
    by (auto simp: policy_request_new_def rbind_Inr_conv name vlan times supports_policing_def split: if_splits)
  show "probe_request_new name scope vlan timeout = Inr q \<longleftrightarrow>
      q = \<lparr>probe_interface = InterfaceName name, probe_scope = scope, probe_vlan = vlan, probe_timeout = timeout\<rparr> \<and>
      is_ok (interface_name_new name) \<and> is_ok (validate_vlan vlan) \<and> 10 ^ 8 \<le> timeout \<and> timeout \<le> 30 * 10 ^ 9"
    by (auto simp: probe_request_new_def rbind_Inr_conv name vlan times split: if_splits)
  show "is_ok (interface_name_new name) \<longleftrightarrow> 1 \<le> length name \<and> length name \<le> 15 \<and>
      list_all (\<lambda>c. is_ascii_alphanumeric c \<or> c \<in> {CHR ''.'', CHR ''_'', CHR ''-'', CHR '':''}) name"
    by (cases name) (auto simp: interface_name_new_def Let_def)
  show "is_ok (validate_vlan vlan) \<longleftrightarrow> (case vlan of None \<Rightarrow> True | Some v \<Rightarrow> 1 \<le> unat v \<and> unat v \<le> 4094)"
    by (auto simp: validate_vlan_def word_le_nat_alt split: option.split)
qed

end
