(* ===== verification/Packet.thy ===== *)
theory Packet
  imports Domain
begin

text \<open>
  The Ethernet parser shared by user space and the eBPF programs (\<open>l2-loop-common/src/packet.rs\<close>):
  destination classification, one visible VLAN tag, and the packed word \<open>ParsedL2Word\<close> that carries
  the result through the eBPF verifier. The packed form is proved equal to a direct parser.
\<close>

section \<open>Definitions\<close>

definition NO_VLAN :: u16 where [simp]: "NO_VLAN = 0xffff"
definition ETHERNET_HEADER_LEN :: nat where [simp]: "ETHERNET_HEADER_LEN = 14"
definition SINGLE_VLAN_HEADER_LEN :: nat where [simp]: "SINGLE_VLAN_HEADER_LEN = 18"

definition ETH_P_8021Q :: u16 where [simp]: "ETH_P_8021Q = 0x8100"
definition ETH_P_8021AD :: u16 where [simp]: "ETH_P_8021AD = 0x88a8"
definition ETH_P_IPV4 :: u16 where [simp]: "ETH_P_IPV4 = 0x0800"
definition ETH_P_IPV6 :: u16 where [simp]: "ETH_P_IPV6 = 0x86dd"

record ParsedL2 =
  p_traffic_class :: u8
  p_outer_vlan_id :: "u16 option"
  p_nested_vlan :: bool

datatype ParsedL2Word = ParsedL2Word (into_raw: u64)

definition word_success :: "u8 \<Rightarrow> u16 \<Rightarrow> bool \<Rightarrow> ParsedL2Word" where
  "word_success traffic_class outer_vlan_id nested_vlan =
     ParsedL2Word (ucast traffic_class OR push_bit 8 (ucast outer_vlan_id)
                   OR push_bit 24 (of_bool nested_vlan))"

definition word_failure :: "u64 \<Rightarrow> ParsedL2Word" where
  "word_failure error = ParsedL2Word (push_bit 25 error)"

definition truncated_ethernet :: ParsedL2Word where
  "truncated_ethernet = word_failure 1"

definition truncated_vlan :: ParsedL2Word where
  "truncated_vlan = word_failure 2"

definition word_traffic_class :: "ParsedL2Word \<Rightarrow> u8" where
  "word_traffic_class w = ucast (into_raw w)"

definition word_outer_vlan_id :: "ParsedL2Word \<Rightarrow> u16" where
  "word_outer_vlan_id w = ucast (drop_bit 8 (into_raw w))"

definition has_outer_vlan :: "ParsedL2Word \<Rightarrow> bool" where
  "has_outer_vlan w \<longleftrightarrow> word_outer_vlan_id w \<noteq> NO_VLAN"

definition word_nested_vlan :: "ParsedL2Word \<Rightarrow> bool" where
  "word_nested_vlan w \<longleftrightarrow> drop_bit 24 (into_raw w) AND 1 \<noteq> 0"

definition error_code :: "ParsedL2Word \<Rightarrow> u64" where
  "error_code w = drop_bit 25 (into_raw w) AND 3"

definition is_error :: "ParsedL2Word \<Rightarrow> bool" where
  "is_error w \<longleftrightarrow> error_code w \<noteq> 0"

datatype ParseError = TruncatedEthernet | TruncatedVlan

definition is_vlan_tpid :: "u16 \<Rightarrow> bool" where
  "is_vlan_tpid ether_type \<longleftrightarrow> ether_type = ETH_P_8021Q \<or> ether_type = ETH_P_8021AD"

definition is_link_local_control :: "u8 arr6 \<Rightarrow> bool" where
  "is_link_local_control d \<longleftrightarrow>
     a6_0 d = 0x01 \<and> a6_1 d = 0x80 \<and> a6_2 d = 0xc2 \<and> a6_3 d = 0 \<and> a6_4 d = 0 \<and> a6_5 d \<le> 0x0f"

definition is_ipv4_multicast :: "u8 arr6 \<Rightarrow> bool" where
  "is_ipv4_multicast d \<longleftrightarrow> a6_0 d = 0x01 \<and> a6_1 d = 0 \<and> a6_2 d = 0x5e \<and> a6_3 d AND 0x80 = 0"

definition is_ipv6_multicast :: "u8 arr6 \<Rightarrow> bool" where
  "is_ipv6_multicast d \<longleftrightarrow> a6_0 d = 0x33 \<and> a6_1 d = 0x33"

definition multicast_or_unclassified :: "u8 arr6 \<Rightarrow> u8" where
  "multicast_or_unclassified d =
     (if a6_0 d AND 1 = 1 then traffic_class_code TcOtherL2Multicast
      else traffic_class_code TcUnicastOrUnclassified)"

definition classify :: "u8 arr6 \<Rightarrow> u16 \<Rightarrow> bool \<Rightarrow> u8" where
  "classify destination ether_type nested_vlan =
     (if destination = Arr6 0xff 0xff 0xff 0xff 0xff 0xff then traffic_class_code TcL2Broadcast
      else if is_link_local_control destination then traffic_class_code TcLinkLocalControl
      else if nested_vlan then multicast_or_unclassified destination
      else if ether_type = ETH_P_IPV4 \<and> is_ipv4_multicast destination then traffic_class_code TcIpv4Multicast
      else if ether_type = ETH_P_IPV6 \<and> is_ipv6_multicast destination then traffic_class_code TcIpv6Multicast
      else multicast_or_unclassified destination)"

definition parse_l2_word :: "u8 list \<Rightarrow> ParsedL2Word" where
  "parse_l2_word frame =
     (if length frame < ETHERNET_HEADER_LEN then truncated_ethernet
      else
        let destination = Arr6 (frame ! 0) (frame ! 1) (frame ! 2) (frame ! 3) (frame ! 4) (frame ! 5);
            outer_ether_type = be16 (frame ! 12) (frame ! 13)
        in if is_vlan_tpid outer_ether_type then
             if length frame < SINGLE_VLAN_HEADER_LEN then truncated_vlan
             else
               let tci = be16 (frame ! 14) (frame ! 15);
                   inner_ether_type = be16 (frame ! 16) (frame ! 17);
                   nested_vlan = is_vlan_tpid inner_ether_type
               in word_success (classify destination inner_ether_type nested_vlan) (tci AND 0x0fff) nested_vlan
           else word_success (classify destination outer_ether_type False) NO_VLAN False)"

definition parse_l2 :: "u8 list \<Rightarrow> (ParseError, ParsedL2) result" where
  "parse_l2 frame =
     (let parsed = parse_l2_word frame
      in if error_code parsed = 1 then Inl TruncatedEthernet
         else if error_code parsed = 2 then Inl TruncatedVlan
         else Inr \<lparr>p_traffic_class = word_traffic_class parsed,
                   p_outer_vlan_id = (if has_outer_vlan parsed then Some (word_outer_vlan_id parsed) else None),
                   p_nested_vlan = word_nested_vlan parsed\<rparr>)"

section \<open>The direct parser\<close>

text \<open>
  The specification: destination, EtherType and tag read off the frame, with no packed word. An
  802.1Q or 802.1ad tag is peeled once; the VLAN identifier is the low twelve bits of its control
  field.
\<close>

fun spec_parse :: "u8 list \<Rightarrow> (ParseError, ParsedL2) result" where
  "spec_parse (d0 # d1 # d2 # d3 # d4 # d5 # s0 # s1 # s2 # s3 # s4 # s5 # t0 # t1 # rest) =
     (let d = Arr6 d0 d1 d2 d3 d4 d5 in
      if is_vlan_tpid (be16 t0 t1) then
        (case rest of
           c0 # c1 # e0 # e1 # _ \<Rightarrow>
             Inr \<lparr>p_traffic_class = classify d (be16 e0 e1) (is_vlan_tpid (be16 e0 e1)),
                  p_outer_vlan_id = Some (be16 c0 c1 AND 0x0fff),
                  p_nested_vlan = is_vlan_tpid (be16 e0 e1)\<rparr>
         | _ \<Rightarrow> Inl TruncatedVlan)
      else Inr \<lparr>p_traffic_class = classify d (be16 t0 t1) False, p_outer_vlan_id = None,
                p_nested_vlan = False\<rparr>)"
| "spec_parse _ = Inl TruncatedEthernet"

section \<open>The packed word\<close>

lemma word_traffic_class_success [simp]: "word_traffic_class (word_success c v n) = c"
  by (rule bit_word_eqI) (auto simp: word_traffic_class_def word_success_def bit_simps)

lemma word_outer_vlan_id_success [simp]: "word_outer_vlan_id (word_success c v n) = v"
proof (rule bit_word_eqI)
  fix k :: nat
  assume "k < LENGTH(16)"
  then show "bit (word_outer_vlan_id (word_success c v n)) k = bit v k"
    by (auto simp: word_outer_vlan_id_def word_success_def bit_simps dest: bit_imp_le_length)
qed

lemma and_one_ne_zero: "x AND 1 \<noteq> 0 \<longleftrightarrow> bit (x :: 'a::len word) 0"
  by (simp add: and_one_eq bit_0 odd_iff_mod_2_eq_one)

lemma word_nested_vlan_success [simp]: "word_nested_vlan (word_success c v n) = n"
  by (auto simp: word_nested_vlan_def word_success_def and_one_ne_zero bit_simps dest: bit_imp_le_length)

lemma error_code_success [simp]: "error_code (word_success c v n) = 0"
  by (rule bit_word_eqI) (auto simp: error_code_def word_success_def bit_simps dest: bit_imp_le_length)

lemma error_code_truncated [simp]: "error_code truncated_ethernet = 1" "error_code truncated_vlan = 2"
  by (simp_all add: truncated_ethernet_def truncated_vlan_def word_failure_def error_code_def)

lemma masked_vid_not_sentinel: "v AND 0x0fff \<noteq> (0xffff :: u16)"
proof
  assume "v AND 0x0fff = 0xffff"
  then have "bit (v AND 0x0fff) 15 = bit (0xffff :: u16) 15" by simp
  then show False by (simp add: bit_simps)
qed

section \<open>Properties\<close>

lemma list14_cases:
  assumes "14 \<le> length xs"
  obtains a0 a1 a2 a3 a4 a5 a6 a7 a8 a9 a10 a11 a12 a13 rest
  where "xs = a0 # a1 # a2 # a3 # a4 # a5 # a6 # a7 # a8 # a9 # a10 # a11 # a12 # a13 # rest"
  using assms by (auto simp: numeral_eq_Suc Suc_le_length_iff)

lemma spec_parse_short: "length frame < 14 \<Longrightarrow> spec_parse frame = Inl TruncatedEthernet"
  by (cases frame rule: spec_parse.cases) auto

lemma parse_l2_eq_spec: "parse_l2 frame = spec_parse frame"
proof (cases "length frame < 14")
  case True
  then show ?thesis by (simp add: parse_l2_def parse_l2_word_def spec_parse_short)
next
  case False
  then obtain a0 a1 a2 a3 a4 a5 a6 a7 a8 a9 a10 a11 a12 a13 rest where
    f: "frame = a0 # a1 # a2 # a3 # a4 # a5 # a6 # a7 # a8 # a9 # a10 # a11 # a12 # a13 # rest"
    using list14_cases [of frame] by (metis not_less)
  show ?thesis
  proof (cases "is_vlan_tpid (be16 a12 a13)")
    case tagged: True
    show ?thesis
    proof (cases "4 \<le> length rest")
      case True
      then obtain c0 c1 e0 e1 more where "rest = c0 # c1 # e0 # e1 # more"
        by (auto simp: numeral_eq_Suc Suc_le_length_iff)
      with f tagged show ?thesis
        by (simp add: parse_l2_def parse_l2_word_def has_outer_vlan_def Let_def masked_vid_not_sentinel)
    next
      case False
      with f tagged show ?thesis
        by (auto simp: parse_l2_def parse_l2_word_def Let_def split: list.splits)
    qed
  next
    case False
    with f show ?thesis
      by (simp add: parse_l2_def parse_l2_word_def has_outer_vlan_def Let_def)
  qed
qed

text \<open>
  The reading of the standards, with none of the parser's constants or helpers: a tag is the byte
  pair \<open>81 00\<close> (802.1Q) or \<open>88 a8\<close> (802.1ad); the VLAN identifier is the twelve low bits of the two
  bytes that follow it, as a number; the class codes are those of \<open>TrafficClass\<close>, decided on the
  bytes of the destination address and of the innermost visible EtherType.
\<close>

definition tag_bytes :: "u8 \<Rightarrow> u8 \<Rightarrow> bool" where
  "tag_bytes hi lo \<longleftrightarrow> (unat hi = 129 \<and> unat lo = 0) \<or> (unat hi = 136 \<and> unat lo = 168)"

definition group_class :: "nat list \<Rightarrow> u8" where
  "group_class d = (if odd (hd d) then 5 else 7)"

definition frame_class :: "nat list \<Rightarrow> nat \<times> nat \<Rightarrow> bool \<Rightarrow> u8" where
  "frame_class d ether_type tagged_twice =
     (if d = [255, 255, 255, 255, 255, 255] then 2
      else if take 5 d = [1, 128, 194, 0, 0] \<and> d ! 5 < 16 then 6
      else if tagged_twice then group_class d
      else if ether_type = (8, 0) \<and> take 3 d = [1, 0, 94] \<and> d ! 3 < 128 then 3
      else if ether_type = (134, 221) \<and> take 2 d = [51, 51] then 4
      else group_class d)"

definition vlan_number :: "u8 \<Rightarrow> u8 \<Rightarrow> nat" where
  "vlan_number hi lo = (unat hi mod 16) * 256 + unat lo"

definition frame_spec :: "u8 list \<Rightarrow> (ParseError, ParsedL2) result" where
  "frame_spec frame =
     (let d = map unat (take 6 frame); byte = (\<lambda>i. frame ! i); pair = (\<lambda>i. (unat (frame ! i), unat (frame ! (i + 1)))) in
      if length frame < 14 then Inl TruncatedEthernet
      else if \<not> tag_bytes (byte 12) (byte 13) then
        Inr \<lparr>p_traffic_class = frame_class d (pair 12) False, p_outer_vlan_id = None, p_nested_vlan = False\<rparr>
      else if length frame < 18 then Inl TruncatedVlan
      else Inr \<lparr>p_traffic_class = frame_class d (pair 16) (tag_bytes (byte 16) (byte 17)),
                p_outer_vlan_id = Some (word_of_nat (vlan_number (byte 14) (byte 15))),
                p_nested_vlan = tag_bytes (byte 16) (byte 17)\<rparr>)"

lemma byte_bound: "unat (x :: u8) < 256"
  using unsigned_less [of x] by simp

lemma unat_be16: "unat (be16 hi lo) = unat hi * 256 + unat lo"
proof -
  have disj: "push_bit 8 (unat hi) AND unat lo = 0"
    by (rule bit_eqI) (auto simp: bit_simps dest: bit_imp_le_length)
  have shift: "unat (push_bit 8 (ucast hi :: u16)) = push_bit 8 (unat hi)"
    by (rule bit_eqI) (auto simp: bit_simps dest: bit_imp_le_length)
  have "unat (be16 hi lo) = push_bit 8 (unat hi) OR unat lo"
    unfolding be16_def unsigned_or_eq shift
    by (rule bit_eqI) (auto simp: bit_simps dest: bit_imp_le_length)
  also have "\<dots> = push_bit 8 (unat hi) + unat lo"
    by (rule disjunctive_add_eq_or [OF disj, symmetric])
  finally show ?thesis by (simp add: push_bit_eq_mult)
qed

lemma split_at_256: "(b::nat) < 256 \<Longrightarrow> a * 256 + b = n \<longleftrightarrow> a = n div 256 \<and> b = n mod 256"
  by auto

lemma be16_eq_iff: "be16 hi lo = w \<longleftrightarrow> unat hi = unat w div 256 \<and> unat lo = unat w mod 256"
  by (metis split_at_256 [OF byte_bound] unat_be16 unsigned_word_eqI)

lemma is_vlan_tpid_be16: "is_vlan_tpid (be16 hi lo) \<longleftrightarrow> tag_bytes hi lo"
  by (simp add: is_vlan_tpid_def tag_bytes_def be16_eq_iff)

lemma vid_be16: "be16 hi lo AND 0x0fff = word_of_nat (vlan_number hi lo)"
proof -
  have "be16 hi lo AND 0x0fff = take_bit 12 (be16 hi lo)"
    by (simp add: take_bit_eq_mask mask_numeral mask_eq_exp_minus_1)
  also have "\<dots> = word_of_nat (unat (take_bit 12 (be16 hi lo)))"
    by simp
  also have "unat (take_bit 12 (be16 hi lo)) = take_bit 12 (unat (be16 hi lo))"
    by (rule unsigned_take_bit_eq)
  also have "\<dots> = (unat hi * 256 + unat lo) mod (256 * 16)"
    by (simp add: unat_be16 take_bit_eq_mod)
  also have "\<dots> = vlan_number hi lo"
    unfolding mod_mult2_eq vlan_number_def using byte_bound [of lo] by simp
  finally show ?thesis .
qed

lemma bit_unat: "bit (x :: u8) k \<longleftrightarrow> bit (unat x) k"
  by (auto simp: bit_simps dest: bit_imp_le_length)

lemma byte_odd: "x AND 1 = 1 \<longleftrightarrow> odd (unat (x :: u8))"
  using bit_unat [of x 0] by (simp add: and_one_eq bit_0 mod_2_eq_odd)

lemma byte_high_bit: "x AND 0x80 = 0 \<longleftrightarrow> unat (x :: u8) < 128"
proof -
  have "x AND 0x80 = 0 \<longleftrightarrow> \<not> bit x 7"
    using and_exp_eq_0_iff_not_bit [of x 7] by simp
  also have "bit x 7 \<longleftrightarrow> odd (unat x div 128)"
    by (simp add: bit_unat bit_iff_odd)
  also have "unat x div 128 = (if unat x < 128 then 0 else 1)"
    using byte_bound [of x] by (auto simp: not_less intro!: div_nat_eqI)
  finally show ?thesis by simp
qed

lemma byte_eq_iff: "x = w \<longleftrightarrow> unat x = unat (w :: u8)"
  by (auto intro: unsigned_word_eqI)

lemma byte_le_15: "x \<le> 0x0f \<longleftrightarrow> unat (x :: u8) < 16"
  by (auto simp: word_le_nat_alt)

lemma classify_be16:
  "classify (Arr6 d0 d1 d2 d3 d4 d5) (be16 hi lo) n =
   frame_class (map unat [d0, d1, d2, d3, d4, d5]) (unat hi, unat lo) n"
proof -
  have bcast: "Arr6 d0 d1 d2 d3 d4 d5 = Arr6 0xff 0xff 0xff 0xff 0xff 0xff \<longleftrightarrow>
      map unat [d0, d1, d2, d3, d4, d5] = [255, 255, 255, 255, 255, 255]"
    by (simp add: byte_eq_iff)
  have lldp: "is_link_local_control (Arr6 d0 d1 d2 d3 d4 d5) \<longleftrightarrow>
      take 5 (map unat [d0, d1, d2, d3, d4, d5]) = [1, 128, 194, 0, 0] \<and>
      map unat [d0, d1, d2, d3, d4, d5] ! 5 < 16"
    by (simp add: is_link_local_control_def byte_eq_iff byte_le_15)
  have v4: "be16 hi lo = ETH_P_IPV4 \<longleftrightarrow> (unat hi, unat lo) = (8, 0)"
       "is_ipv4_multicast (Arr6 d0 d1 d2 d3 d4 d5) \<longleftrightarrow>
      take 3 (map unat [d0, d1, d2, d3, d4, d5]) = [1, 0, 94] \<and>
      map unat [d0, d1, d2, d3, d4, d5] ! 3 < 128"
    by (simp_all add: be16_eq_iff is_ipv4_multicast_def byte_high_bit byte_eq_iff [of d0] byte_eq_iff [of d1]
        byte_eq_iff [of d2])
  have v6: "be16 hi lo = ETH_P_IPV6 \<longleftrightarrow> (unat hi, unat lo) = (134, 221)"
       "is_ipv6_multicast (Arr6 d0 d1 d2 d3 d4 d5) \<longleftrightarrow>
      take 2 (map unat [d0, d1, d2, d3, d4, d5]) = [51, 51]"
    by (simp_all add: be16_eq_iff is_ipv6_multicast_def byte_eq_iff)
  have grp: "multicast_or_unclassified (Arr6 d0 d1 d2 d3 d4 d5) =
      group_class (map unat [d0, d1, d2, d3, d4, d5])"
    by (simp add: multicast_or_unclassified_def group_class_def byte_odd)
  show ?thesis
    unfolding classify_def frame_class_def bcast lldp v4 v6 grp by simp
qed

text \<open>
  \<^bold>\<open>C2.\<close> Parsing agrees with the standards' reading of the frame: for every frame, \<open>parse_l2\<close>, which
  works on big-endian words and packs class, VLAN identifier, nesting flag and error into one 64-bit
  word, returns what the byte-level specification \<open>frame_spec\<close> says. That specification shares no
  constant and no helper with the parser: the two tag types are the byte pairs 129/0 and 136/168,
  the VLAN identifier is a number, a second tag stops protocol classification, and the class codes
  are written out.
\<close>

theorem parse_l2_refines_spec: "parse_l2 frame = frame_spec frame"
proof (cases "length frame < 14")
  case True
  then show ?thesis by (simp add: parse_l2_eq_spec spec_parse_short frame_spec_def)
next
  case False
  then obtain a0 a1 a2 a3 a4 a5 a6 a7 a8 a9 a10 a11 a12 a13 rest where
    f: "frame = a0 # a1 # a2 # a3 # a4 # a5 # a6 # a7 # a8 # a9 # a10 # a11 # a12 # a13 # rest"
    using list14_cases [of frame] by (metis not_less)
  show ?thesis
  proof (cases "4 \<le> length rest")
    case True
    then obtain c0 c1 e0 e1 tail where "rest = c0 # c1 # e0 # e1 # tail"
      by (auto simp: numeral_eq_Suc Suc_le_length_iff)
    with f show ?thesis
      by (simp add: parse_l2_eq_spec frame_spec_def is_vlan_tpid_be16 classify_be16 vid_be16 Let_def)
  next
    case False
    with f show ?thesis
      by (auto simp: parse_l2_eq_spec frame_spec_def is_vlan_tpid_be16 classify_be16 Let_def split: list.splits)
  qed
qed

text \<open>The six mutually exclusive classes a parsed frame can have.\<close>

definition is_observed_class :: "u8 \<Rightarrow> bool" where
  "is_observed_class c \<longleftrightarrow> c \<in> {2, 3, 4, 5, 6, 7}"

lemma classify_observed [simp]: "is_observed_class (classify d t n)"
  by (auto simp: is_observed_class_def classify_def multicast_or_unclassified_def)

lemma parse_l2_Inr:
  assumes "parse_l2 frame = Inr parsed"
  shows "14 \<le> length frame"
    and "\<exists>t. p_traffic_class parsed =
      classify (Arr6 (frame ! 0) (frame ! 1) (frame ! 2) (frame ! 3) (frame ! 4) (frame ! 5)) t (p_nested_vlan parsed)"
    and "\<not> (p_outer_vlan_id parsed = None \<and> p_nested_vlan parsed)"
  using assms unfolding parse_l2_eq_spec
  by (cases frame rule: spec_parse.cases; force simp: Let_def split: list.splits if_splits)+

lemma classify_unicast: "classify d t n = 7 \<longleftrightarrow> a6_0 d AND 1 = 0"
proof -
  have odd: "x AND 1 = 1 \<or> x AND 1 = 0" for x :: u8
    by (simp add: and_one_eq mod_2_eq_odd)
  show ?thesis
    using odd [of "a6_0 d"]
    by (auto simp: classify_def multicast_or_unclassified_def is_link_local_control_def
        is_ipv4_multicast_def is_ipv6_multicast_def)
qed

text \<open>
  Classification is total and faithful to the Ethernet group bit: a frame of at least 14
  bytes whose tag, if any, is complete is always given one of the six class codes, and the class is
  \<open>UNICAST_OR_UNCLASSIFIED\<close> exactly when the group bit of the destination address is clear. A frame
  is refused only when it is shorter than its header.
\<close>

theorem parse_l2_classifies:
  "(case parse_l2 frame of
      Inr parsed \<Rightarrow>
        14 \<le> length frame \<and> is_observed_class (p_traffic_class parsed) \<and>
        (p_traffic_class parsed = 7 \<longleftrightarrow> frame ! 0 AND 1 = 0) \<and>
        \<not> (p_outer_vlan_id parsed = None \<and> p_nested_vlan parsed)
    | Inl TruncatedEthernet \<Rightarrow> length frame < 14
    | Inl TruncatedVlan \<Rightarrow> 14 \<le> length frame \<and> length frame < 18 \<and> is_vlan_tpid (be16 (frame ! 12) (frame ! 13)))"
proof (cases "parse_l2 frame")
  case (Inl e)
  then show ?thesis
    unfolding parse_l2_eq_spec
    by (cases frame rule: spec_parse.cases) (auto simp: Let_def split: list.splits if_splits)
next
  case (Inr parsed)
  with parse_l2_Inr [OF Inr] show ?thesis by (auto simp: classify_unicast)
qed

text \<open>
  Behind a second tag the parser never guesses a protocol: broadcast and link-local control
  stay exact, every other group address becomes \<open>OTHER_L2_MULTICAST\<close> and everything else
  \<open>UNICAST_OR_UNCLASSIFIED\<close>.
\<close>

theorem nested_tag_degrades:
  assumes "parse_l2 frame = Inr parsed" and "p_nested_vlan parsed"
  defines "d \<equiv> Arr6 (frame ! 0) (frame ! 1) (frame ! 2) (frame ! 3) (frame ! 4) (frame ! 5)"
  shows "p_traffic_class parsed =
    (if d = Arr6 0xff 0xff 0xff 0xff 0xff 0xff then 2
     else if is_link_local_control d then 6
     else if frame ! 0 AND 1 = 1 then 5 else 7)"
  using parse_l2_Inr(2) [OF assms(1)] assms(2) unfolding d_def
  by (auto simp: classify_def multicast_or_unclassified_def)

theorem nested_tag_degrades_witness:
  "let frame = [0x33, 0x33, 0, 0, 0, 1, 2, 2, 2, 2, 2, 2, 0x81, 0, 0, 7, 0x88, 0xa8, 0, 0];
       parsed = \<lparr>p_traffic_class = 5, p_outer_vlan_id = Some 7, p_nested_vlan = True\<rparr>
   in parse_l2 frame = Inr parsed \<and> p_nested_vlan parsed \<and> p_traffic_class parsed = 5"
proof -
  let ?f = "[0x33, 0x33, 0, 0, 0, 1, 2, 2, 2, 2, 2, 2, 0x81, 0, 0, 7, 0x88, 0xa8, 0, 0] :: u8 list"
  let ?p = "\<lparr>p_traffic_class = 5, p_outer_vlan_id = Some 7, p_nested_vlan = True\<rparr>"
  have "spec_parse ?f = Inr ?p"
    by (simp add: be16_def is_vlan_tpid_def classify_def multicast_or_unclassified_def
        is_link_local_control_def)
  then have 1: "parse_l2 ?f = Inr ?p" by (simp only: parse_l2_eq_spec)
  moreover have "p_nested_vlan ?p" by simp
  ultimately show ?thesis
    using nested_tag_degrades [of ?f ?p] by simp
qed

end
