(* ===== verification/FrameHash.thy ===== *)
theory FrameHash
  imports Packet
begin

text \<open>
  The frame fingerprint of \<open>l2-loop-common/src/fingerprint.rs\<close>: a 64-bit FNV-1a hash over the
  two-byte frame length and at most sixty bytes of the frame, the one-in-sixteen selection, and the
  normalised metadata of a frame (addresses, VLAN tag, EtherType, protocol and subtype).
\<close>

section \<open>Definitions\<close>

definition FINGERPRINT_PREFIX_LEN :: nat where [simp]: "FINGERPRINT_PREFIX_LEN = 60"
definition FINGERPRINT_SAMPLE_SHIFT :: u8 where [simp]: "FINGERPRINT_SAMPLE_SHIFT = 4"
definition FNV_OFFSET_BASIS :: u64 where "FNV_OFFSET_BASIS = 0xcbf29ce484222325"
definition FNV_PRIME :: u64 where "FNV_PRIME = 0x00000100000001b3"
definition ETH_P_ARP :: u16 where [simp]: "ETH_P_ARP = 0x0806"
definition IPPROTO_ICMP :: u8 where [simp]: "IPPROTO_ICMP = 1"
definition IPPROTO_ICMPV6 :: u8 where [simp]: "IPPROTO_ICMPV6 = 58"

record FingerprintMetadata =
  fm_source_mac :: "u8 arr6"
  fm_destination_mac :: "u8 arr6"
  fm_outer_vlan_id :: u16
  fm_ether_type :: u16
  fm_vlan_depth :: u8
  fm_protocol :: u8
  fm_subtype :: u8

definition fingerprint_hash_step :: "u64 \<Rightarrow> u8 \<Rightarrow> u64" where
  "fingerprint_hash_step hash byte = (hash XOR ucast byte) * FNV_PRIME"

definition fingerprint_hash_init :: "u16 \<Rightarrow> u64" where
  "fingerprint_hash_init frame_len =
     fingerprint_hash_step (fingerprint_hash_step FNV_OFFSET_BASIS (ucast (drop_bit 8 frame_len)))
       (ucast frame_len)"

definition fingerprint_hash_with_length :: "u16 \<Rightarrow> u8 list \<Rightarrow> u64 option" where
  "fingerprint_hash_with_length frame_len prefix =
     (if length prefix \<noteq> min (unat frame_len) FINGERPRINT_PREFIX_LEN then None
      else Some (foldl fingerprint_hash_step (fingerprint_hash_init frame_len) prefix))"

definition fingerprint_hash :: "u8 list \<Rightarrow> u64 option" where
  "fingerprint_hash frame =
     (case try_from_usize (length frame) of
        None \<Rightarrow> None
      | Some frame_len \<Rightarrow>
          fingerprint_hash_with_length frame_len (take (min (length frame) FINGERPRINT_PREFIX_LEN) frame))"

definition fingerprint_selected :: "u64 \<Rightarrow> bool" where
  "fingerprint_selected fingerprint \<longleftrightarrow> fingerprint AND (push_bit (unat FINGERPRINT_SAMPLE_SHIFT) 1 - 1) = 0"

definition copy_mac :: "u8 list \<Rightarrow> nat \<Rightarrow> u8 arr6 option" where
  "copy_mac frame offset =
     Option.bind (slice_get frame offset) (\<lambda>a.
     Option.bind (slice_get frame (offset + 1)) (\<lambda>b.
     Option.bind (slice_get frame (offset + 2)) (\<lambda>c.
     Option.bind (slice_get frame (offset + 3)) (\<lambda>d.
     Option.bind (slice_get frame (offset + 4)) (\<lambda>e.
     Option.bind (slice_get frame (offset + 5)) (\<lambda>f. Some (Arr6 a b c d e f)))))))"

definition read_u16 :: "u8 list \<Rightarrow> nat \<Rightarrow> u16 option" where
  "read_u16 frame offset =
     Option.bind (slice_get frame offset) (\<lambda>hi.
     Option.bind (slice_get frame (offset + 1)) (\<lambda>lo. Some (be16 hi lo)))"

definition ipv4_protocol_and_subtype :: "u8 list \<Rightarrow> nat \<Rightarrow> u8 \<times> u8" where
  "ipv4_protocol_and_subtype frame offset =
     (case slice_get frame offset of
        None \<Rightarrow> (0, 0)
      | Some first \<Rightarrow>
          let header_len = unat (first AND 0x0f) * 4
          in if drop_bit 4 first \<noteq> 4 \<or> header_len < 20 \<or> length frame < offset + header_len then (0, 0)
             else case slice_get frame (offset + 9) of
                    None \<Rightarrow> (0, 0)
                  | Some protocol \<Rightarrow>
                      (protocol,
                       if protocol = IPPROTO_ICMP then unwrap_or (slice_get frame (offset + header_len)) 0 else 0))"

definition ipv6_protocol_and_subtype :: "u8 list \<Rightarrow> nat \<Rightarrow> u8 \<times> u8" where
  "ipv6_protocol_and_subtype frame offset =
     (if drop_bit 4 (unwrap_or (slice_get frame offset) 0) \<noteq> 6 \<or> length frame < offset + 40 then (0, 0)
      else let protocol = frame ! (offset + 6)
           in (protocol, if protocol = IPPROTO_ICMPV6 then unwrap_or (slice_get frame (offset + 40)) 0 else 0))"

definition protocol_and_subtype :: "u8 list \<Rightarrow> nat \<Rightarrow> u16 \<Rightarrow> u8 \<times> u8" where
  "protocol_and_subtype frame offset ether_type =
     (if ether_type = ETH_P_IPV4 then ipv4_protocol_and_subtype frame offset
      else if ether_type = ETH_P_IPV6 then ipv6_protocol_and_subtype frame offset
      else if ether_type = ETH_P_ARP then
        (0, case read_u16 frame (offset + 6) of
              Some opcode \<Rightarrow> if opcode \<le> 255 then ucast opcode else 0
            | None \<Rightarrow> 0)
      else (0, 0))"

definition parse_fingerprint_metadata :: "u8 list \<Rightarrow> FingerprintMetadata option" where
  "parse_fingerprint_metadata frame =
     (if length frame < 14 then None
      else Option.bind (copy_mac frame 0) (\<lambda>destination_mac.
           Option.bind (copy_mac frame 6) (\<lambda>source_mac.
           Option.bind (read_u16 frame 12) (\<lambda>outer_ether_type.
           Option.bind
             (if is_vlan_tpid outer_ether_type then
                if length frame < 18 then None
                else Option.bind (read_u16 frame 16) (\<lambda>inner_ether_type.
                     Option.bind (read_u16 frame 14) (\<lambda>tci.
                       Some (inner_ether_type, tci AND 0x0fff,
                             if is_vlan_tpid inner_ether_type then 2 else 1 :: u8, 18 :: nat)))
              else Some (outer_ether_type, NO_VLAN, 0, 14))
             (\<lambda>(ether_type, outer_vlan_id, vlan_depth, network_offset).
               let (protocol, subtype) =
                     (if vlan_depth = 2 then (0, 0)
                      else protocol_and_subtype frame network_offset ether_type)
               in Some \<lparr>fm_source_mac = source_mac, fm_destination_mac = destination_mac,
                        fm_outer_vlan_id = outer_vlan_id, fm_ether_type = ether_type,
                        fm_vlan_depth = vlan_depth, fm_protocol = protocol, fm_subtype = subtype\<rparr>)))))"

section \<open>Properties\<close>

text \<open>The reference: FNV-1a, 64 bits, over a byte string.\<close>

definition fnv1a :: "u8 list \<Rightarrow> u64" where
  "fnv1a = foldl (\<lambda>hash byte. (hash XOR ucast byte) * 0x00000100000001b3) 0xcbf29ce484222325"

lemma foldl_hash_step:
  "foldl fingerprint_hash_step h bs = foldl (\<lambda>hash byte. (hash XOR ucast byte) * 0x00000100000001b3) h bs"
  by (rule arg_cong2 [where f = "\<lambda>f. foldl f h", simplified]) (auto simp: fingerprint_hash_step_def FNV_PRIME_def fun_eq_iff)

lemma hash_from_init:
  "foldl fingerprint_hash_step (fingerprint_hash_init len) bs = fnv1a (ucast (drop_bit 8 len) # ucast len # bs)"
  by (simp add: fnv1a_def foldl_hash_step fingerprint_hash_init_def fingerprint_hash_step_def
      FNV_OFFSET_BASIS_def FNV_PRIME_def)

text \<open>
  The fingerprint is FNV-1a over the big-endian frame length followed by the first sixty
  bytes of the frame, for every frame that fits sixteen bits of length, and absent for longer ones.
  So it depends on the exact length and on a bounded prefix only.
\<close>

theorem fingerprint_hash_is_fnv1a:
  "fingerprint_hash frame =
     (if length frame < 2 ^ 16
      then Some (fnv1a (ucast (drop_bit 8 (of_nat (length frame) :: u16)) # ucast (of_nat (length frame) :: u16)
                        # take 60 frame))
      else None)"
proof (cases "length frame < 2 ^ 16")
  case True
  then have "unat (of_nat (length frame) :: u16) = length frame" by (simp add: unat_of_nat)
  moreover have "take (min (length frame) 60) frame = take 60 frame" by (simp add: min_def)
  ultimately show ?thesis
    using True
    by (simp add: fingerprint_hash_def fingerprint_hash_with_length_def try_from_usize_def hash_from_init)
qed (simp add: fingerprint_hash_def try_from_usize_def)

text \<open>The first vector of the repository's own contract test for the hash.\<close>

lemma fingerprint_hash_contract_vector:
  "fingerprint_hash (map of_nat [0..<14]) = Some 0xd0d70fe308765f64"
  by (simp add: fingerprint_hash_def fingerprint_hash_with_length_def try_from_usize_def
      fingerprint_hash_init_def fingerprint_hash_step_def FNV_OFFSET_BASIS_def FNV_PRIME_def upt_rec)

lemma fingerprint_selected_iff: "fingerprint_selected h \<longleftrightarrow> unat h mod 16 = 0"
proof -
  have "h AND (push_bit 4 1 - 1) = take_bit 4 h"
    by (simp add: take_bit_eq_mask mask_eq_exp_minus_1)
  moreover have "take_bit 4 h = 0 \<longleftrightarrow> unat h mod 16 = 0"
    by (simp add: unat_eq_zero [symmetric] unat_mod take_bit_eq_mod)
  ultimately show ?thesis by (simp add: fingerprint_selected_def)
qed

end
