(* ===== verification/Ebpf.thy ===== *)
theory Ebpf
  imports FrameHash
begin

text \<open>
  The kernel side: the map layouts of \<open>l2-loop-common/src/abi.rs\<close> and the packet accounting of
  \<open>ebpf/l2-loop-ebpf/src/programs.rs\<close>. The maps are one state record. A per-CPU map gives each key a
  counter per CPU, and a program run on a CPU touches that CPU's counter only. What the kernel does
  when it inserts into the LRU fingerprint map (it may evict other entries, or refuse) is a
  parameter \<open>lru\<close>, as are the CPU a program runs on and the time \<open>bpf_ktime_get_ns\<close> returns.
\<close>

section \<open>Map layouts\<close>

record InterfaceConfig =
  ic_interface_generation :: u64
  ic_policy_generation :: u64
  ic_logical_ifindex :: u32
  ic_flags :: u32
  ic_mode :: u8
  ic_role :: u8
  ic_vlan_visibility :: u8
  ic_sample_shift :: u8
  ic_reserved :: "u8 list"

definition interface_config_new :: "u64 \<Rightarrow> u64 \<Rightarrow> u32 \<Rightarrow> u8 \<Rightarrow> u8 \<Rightarrow> u8 \<Rightarrow> u8 \<Rightarrow> InterfaceConfig" where
  "interface_config_new interface_generation policy_generation logical_ifindex mode role vlan_visibility sample_shift =
     \<lparr>ic_interface_generation = interface_generation, ic_policy_generation = policy_generation,
      ic_logical_ifindex = logical_ifindex, ic_flags = 0, ic_mode = mode, ic_role = role,
      ic_vlan_visibility = vlan_visibility, ic_sample_shift = sample_shift, ic_reserved = replicate 4 0\<rparr>"

record StatsKey =
  sk_interface_generation :: u64
  sk_ifindex :: u32
  sk_hook_role :: u8
  sk_traffic_class :: u8
  sk_verdict :: u8
  sk_reason :: u8

definition stats_key_total :: "u64 \<Rightarrow> u32 \<Rightarrow> u8 \<Rightarrow> StatsKey" where
  "stats_key_total generation ifindex role =
     \<lparr>sk_interface_generation = generation, sk_ifindex = ifindex, sk_hook_role = role,
      sk_traffic_class = traffic_class_code TcAll, sk_verdict = verdict_code VerdictPass,
      sk_reason = observation_reason_code ReasonNone\<rparr>"

definition stats_key_classified :: "u64 \<Rightarrow> u32 \<Rightarrow> u8 \<Rightarrow> u8 \<Rightarrow> StatsKey" where
  "stats_key_classified generation ifindex role cls =
     \<lparr>sk_interface_generation = generation, sk_ifindex = ifindex, sk_hook_role = role,
      sk_traffic_class = cls, sk_verdict = verdict_code VerdictPass,
      sk_reason = observation_reason_code ReasonNone\<rparr>"

definition stats_key_parse_error :: "u64 \<Rightarrow> u32 \<Rightarrow> u8 \<Rightarrow> StatsKey" where
  "stats_key_parse_error generation ifindex role =
     \<lparr>sk_interface_generation = generation, sk_ifindex = ifindex, sk_hook_role = role,
      sk_traffic_class = traffic_class_code TcUnicastOrUnclassified,
      sk_verdict = verdict_code VerdictErrorPass, sk_reason = observation_reason_code ReasonParseError\<rparr>"

definition observation_keys :: "u64 \<Rightarrow> u32 \<Rightarrow> u8 \<Rightarrow> StatsKey list" where
  "observation_keys generation ifindex role =
     [stats_key_total generation ifindex role,
      stats_key_classified generation ifindex role (traffic_class_code TcL2Broadcast),
      stats_key_classified generation ifindex role (traffic_class_code TcIpv4Multicast),
      stats_key_classified generation ifindex role (traffic_class_code TcIpv6Multicast),
      stats_key_classified generation ifindex role (traffic_class_code TcOtherL2Multicast),
      stats_key_classified generation ifindex role (traffic_class_code TcLinkLocalControl),
      stats_key_classified generation ifindex role (traffic_class_code TcUnicastOrUnclassified),
      stats_key_parse_error generation ifindex role]"

record CounterValue =
  cv_packets :: u64
  cv_bytes :: u64

record FingerprintKey =
  fk_interface_generation :: u64
  fk_fingerprint :: u64
  fk_ifindex :: u32
  fk_outer_vlan_id :: u16
  fk_ether_type :: u16
  fk_frame_len :: u16
  fk_direction :: u8
  fk_vlan_depth :: u8
  fk_protocol :: u8
  fk_subtype :: u8
  fk_reserved :: "u8 list"

record FingerprintValue =
  fv_first_seen_ns :: u64
  fv_last_seen_ns :: u64
  fv_packets :: u64
  fv_bytes :: u64
  fv_source_mac :: "u8 arr6"
  fv_destination_mac :: "u8 arr6"
  fv_reserved :: "u8 list"

record Maps =
  iface_config :: "u32 \<rightharpoonup> InterfaceConfig"
  hook_stats :: "StatsKey \<rightharpoonup> (nat \<Rightarrow> CounterValue)"
  fingerprints :: "FingerprintKey \<rightharpoonup> FingerprintValue"

type_synonym fingerprint_map = "FingerprintKey \<rightharpoonup> FingerprintValue"
type_synonym lru_insert = "fingerprint_map \<Rightarrow> FingerprintKey \<Rightarrow> FingerprintValue \<Rightarrow> fingerprint_map"

section \<open>Packet accounting\<close>

definition increment_counter :: "CounterValue \<Rightarrow> u64 \<Rightarrow> CounterValue" where
  "increment_counter c bytes = c\<lparr>cv_packets := cv_packets c + 1, cv_bytes := cv_bytes c + bytes\<rparr>"

definition increment_existing :: "nat \<Rightarrow> StatsKey \<Rightarrow> u64 \<Rightarrow> Maps \<Rightarrow> Maps" where
  "increment_existing cpu key bytes m =
     (case hook_stats m key of
        None \<Rightarrow> m
      | Some per_cpu \<Rightarrow>
          m\<lparr>hook_stats := (hook_stats m)(key \<mapsto> per_cpu(cpu := increment_counter (per_cpu cpu) bytes))\<rparr>)"

definition packet_prefix :: "nat \<Rightarrow> u8 list \<Rightarrow> u8 list option" where
  "packet_prefix n data = (if length data < n then None else Some (take n data))"

definition parse_packet :: "u8 list \<Rightarrow> ParsedL2Word" where
  "parse_packet data =
     (case packet_prefix 14 data of
        None \<Rightarrow> truncated_ethernet
      | Some ethernet \<Rightarrow>
          let outer_ether_type = be16 (ethernet ! 12) (ethernet ! 13)
          in if outer_ether_type = 0x8100 \<or> outer_ether_type = 0x88a8 then
               (case packet_prefix 18 data of
                  None \<Rightarrow> truncated_vlan
                | Some tagged \<Rightarrow> parse_l2_word tagged)
             else parse_l2_word ethernet)"

definition fixed_fingerprint_hash :: "u16 \<Rightarrow> u8 list \<Rightarrow> u64" where
  "fixed_fingerprint_hash frame_len frame =
     foldl (\<lambda>hash offset. fingerprint_hash_step hash (frame ! offset)) (fingerprint_hash_init frame_len) [0..<60]"

definition fixed_ipv4_subtype_untagged :: "u8 list \<Rightarrow> u8" where
  "fixed_ipv4_subtype_untagged frame =
     (let ihl = frame ! 14 AND 0x0f
      in if ihl = 5 then frame ! 34 else if ihl = 6 then frame ! 38 else if ihl = 7 then frame ! 42
         else if ihl = 8 then frame ! 46 else if ihl = 9 then frame ! 50 else if ihl = 10 then frame ! 54
         else if ihl = 11 then frame ! 58 else 0)"

definition fixed_ipv4_subtype_tagged :: "u8 list \<Rightarrow> u8" where
  "fixed_ipv4_subtype_tagged frame =
     (let ihl = frame ! 18 AND 0x0f
      in if ihl = 5 then frame ! 38 else if ihl = 6 then frame ! 42 else if ihl = 7 then frame ! 46
         else if ihl = 8 then frame ! 50 else if ihl = 9 then frame ! 54 else if ihl = 10 then frame ! 58 else 0)"

definition fixed_protocol_subtype_untagged :: "u8 list \<Rightarrow> u16 \<Rightarrow> u8 \<times> u8" where
  "fixed_protocol_subtype_untagged frame ether_type =
     (if ether_type = 0x0800 then
        let first = frame ! 14; protocol = frame ! 23
        in if drop_bit 4 first \<noteq> 4 \<or> first AND 0x0f < 5 then (0, 0)
           else (protocol, if protocol = 1 then fixed_ipv4_subtype_untagged frame else 0)
      else if ether_type = 0x86dd then
        let protocol = frame ! 20
        in if drop_bit 4 (frame ! 14) \<noteq> 6 then (0, 0)
           else (protocol, if protocol = 58 then frame ! 54 else 0)
      else if ether_type = 0x0806 then
        let opcode = be16 (frame ! 20) (frame ! 21)
        in (0, if opcode \<le> 255 then ucast opcode else 0)
      else (0, 0))"

definition fixed_protocol_subtype_tagged :: "u8 list \<Rightarrow> u16 \<Rightarrow> u8 \<times> u8" where
  "fixed_protocol_subtype_tagged frame ether_type =
     (if ether_type = 0x0800 then
        let first = frame ! 18; protocol = frame ! 27
        in if drop_bit 4 first \<noteq> 4 \<or> first AND 0x0f < 5 then (0, 0)
           else (protocol, if protocol = 1 then fixed_ipv4_subtype_tagged frame else 0)
      else if ether_type = 0x86dd then
        let protocol = frame ! 24
        in if drop_bit 4 (frame ! 18) \<noteq> 6 then (0, 0)
           else (protocol, if protocol = 58 then frame ! 58 else 0)
      else if ether_type = 0x0806 then
        let opcode = be16 (frame ! 24) (frame ! 25)
        in (0, if opcode \<le> 255 then ucast opcode else 0)
      else (0, 0))"

definition fixed_fingerprint_metadata :: "u8 list \<Rightarrow> FingerprintMetadata" where
  "fixed_fingerprint_metadata frame =
     (let destination_mac = Arr6 (frame ! 0) (frame ! 1) (frame ! 2) (frame ! 3) (frame ! 4) (frame ! 5);
          source_mac = Arr6 (frame ! 6) (frame ! 7) (frame ! 8) (frame ! 9) (frame ! 10) (frame ! 11);
          outer_ether_type = be16 (frame ! 12) (frame ! 13);
          (ether_type, outer_vlan_id, vlan_depth) =
            (if outer_ether_type = 0x8100 \<or> outer_ether_type = 0x88a8 then
               let inner = be16 (frame ! 16) (frame ! 17)
               in (inner, be16 (frame ! 14) (frame ! 15) AND 0x0fff,
                   if inner = 0x8100 \<or> inner = 0x88a8 then 2 else 1 :: u8)
             else (outer_ether_type, NO_VLAN, 0));
          (protocol, subtype) =
            (if vlan_depth = 2 then (0, 0)
             else if vlan_depth = 1 then fixed_protocol_subtype_tagged frame ether_type
             else fixed_protocol_subtype_untagged frame ether_type)
      in \<lparr>fm_source_mac = source_mac, fm_destination_mac = destination_mac,
          fm_outer_vlan_id = outer_vlan_id, fm_ether_type = ether_type, fm_vlan_depth = vlan_depth,
          fm_protocol = protocol, fm_subtype = subtype\<rparr>)"

definition account_fingerprint ::
  "lru_insert \<Rightarrow> u64 \<Rightarrow> u64 \<Rightarrow> u32 \<Rightarrow> u8 \<Rightarrow> u64 \<Rightarrow> u8 list \<Rightarrow> Maps \<Rightarrow> Maps" where
  "account_fingerprint lru now_ns interface_generation ifindex direction bytes data m =
     (case try_from_word bytes of
        None \<Rightarrow> m
      | Some frame_len \<Rightarrow>
     (case packet_prefix FINGERPRINT_PREFIX_LEN data of
        None \<Rightarrow> m
      | Some frame \<Rightarrow>
          let fingerprint = fixed_fingerprint_hash frame_len frame
          in if \<not> fingerprint_selected fingerprint then m
             else
               let metadata = fixed_fingerprint_metadata frame;
                   key = \<lparr>fk_interface_generation = interface_generation, fk_fingerprint = fingerprint,
                          fk_ifindex = ifindex, fk_outer_vlan_id = fm_outer_vlan_id metadata,
                          fk_ether_type = fm_ether_type metadata, fk_frame_len = frame_len,
                          fk_direction = direction, fk_vlan_depth = fm_vlan_depth metadata,
                          fk_protocol = fm_protocol metadata, fk_subtype = fm_subtype metadata,
                          fk_reserved = replicate 2 0\<rparr>
               in case fingerprints m key of
                    Some value \<Rightarrow>
                      m\<lparr>fingerprints := (fingerprints m)(key \<mapsto>
                          value\<lparr>fv_last_seen_ns := now_ns,
                                fv_packets := saturating_add (fv_packets value) 1,
                                fv_bytes := saturating_add (fv_bytes value) bytes\<rparr>)\<rparr>
                  | None \<Rightarrow>
                      m\<lparr>fingerprints := lru (fingerprints m) key
                          \<lparr>fv_first_seen_ns = now_ns, fv_last_seen_ns = now_ns, fv_packets = 1,
                           fv_bytes = bytes, fv_source_mac = fm_source_mac metadata,
                           fv_destination_mac = fm_destination_mac metadata,
                           fv_reserved = replicate 4 0\<rparr>\<rparr>))"

definition promote_vlan_visibility :: "u32 \<Rightarrow> u64 \<Rightarrow> Maps \<Rightarrow> Maps" where
  "promote_vlan_visibility ifindex interface_generation m =
     (case iface_config m ifindex of
        None \<Rightarrow> m
      | Some config \<Rightarrow>
          if ic_interface_generation config = interface_generation
             \<and> ic_vlan_visibility config = vlan_visibility_code VlanUnknown
          then m\<lparr>iface_config := (iface_config m)(ifindex \<mapsto>
                   config\<lparr>ic_vlan_visibility := vlan_visibility_code VlanVerifiedVisible\<rparr>)\<rparr>
          else m)"

definition account_layer ::
  "bool \<Rightarrow> lru_insert \<Rightarrow> nat \<Rightarrow> u64 \<Rightarrow> u32 \<Rightarrow> u8 \<Rightarrow> u64 \<Rightarrow> u8 list \<Rightarrow> Maps \<Rightarrow> Maps" where
  "account_layer with_fingerprints lru cpu now_ns ifindex role bytes data m =
     (case iface_config m ifindex of
        None \<Rightarrow> m
      | Some config \<Rightarrow>
          let generation = ic_interface_generation config;
              visibility = ic_vlan_visibility config;
              sample_shift = ic_sample_shift config;
              m1 = increment_existing cpu (stats_key_total generation ifindex role) bytes m;
              parsed = parse_packet data
          in if is_error parsed then
               increment_existing cpu (stats_key_parse_error generation ifindex role) bytes m1
             else
               let m2 = increment_existing cpu
                          (stats_key_classified generation ifindex role (word_traffic_class parsed)) bytes m1;
                   m3 = (if has_outer_vlan parsed \<and> visibility = vlan_visibility_code VlanUnknown
                         then promote_vlan_visibility ifindex generation m2 else m2)
               in if with_fingerprints \<and> sample_shift = FINGERPRINT_SAMPLE_SHIFT then
                    if role = hook_role_code ExternalXdpIngress then
                      account_fingerprint lru now_ns generation ifindex (direction_code DirIngress) bytes data m3
                    else if role = hook_role_code PhysicalTcEgress then
                      account_fingerprint lru now_ns generation ifindex (direction_code DirEgress) bytes data m3
                    else m3
                  else m3)"

definition account_xdp :: "lru_insert \<Rightarrow> nat \<Rightarrow> u64 \<Rightarrow> u32 \<Rightarrow> u8 list \<Rightarrow> u8 \<Rightarrow> Maps \<Rightarrow> Maps" where
  "account_xdp lru cpu now_ns ifindex data role m =
     account_layer True lru cpu now_ns ifindex role (of_nat (length data)) data m"

definition account_tc :: "lru_insert \<Rightarrow> nat \<Rightarrow> u64 \<Rightarrow> u32 \<Rightarrow> u32 \<Rightarrow> u8 list \<Rightarrow> u8 \<Rightarrow> Maps \<Rightarrow> Maps" where
  "account_tc lru cpu now_ns ifindex skb_len data role m =
     account_layer True lru cpu now_ns ifindex role (ucast skb_len) data m"

datatype PacketAction = XDP_PASS | TC_ACT_OK

definition l2_loop_xdp_ingress :: "lru_insert \<Rightarrow> nat \<Rightarrow> u64 \<Rightarrow> u32 \<Rightarrow> u8 list \<Rightarrow> Maps \<Rightarrow> PacketAction \<times> Maps" where
  "l2_loop_xdp_ingress lru cpu now_ns ifindex data m =
     (XDP_PASS, account_xdp lru cpu now_ns ifindex data (hook_role_code ExternalXdpIngress) m)"

definition l2_loop_tc_egress :: "lru_insert \<Rightarrow> nat \<Rightarrow> u64 \<Rightarrow> u32 \<Rightarrow> u32 \<Rightarrow> u8 list \<Rightarrow> Maps \<Rightarrow> PacketAction \<times> Maps" where
  "l2_loop_tc_egress lru cpu now_ns ifindex skb_len data m =
     (TC_ACT_OK, account_tc lru cpu now_ns ifindex skb_len data (hook_role_code PhysicalTcEgress) m)"

definition l2_loop_tc_path_ingress :: "lru_insert \<Rightarrow> nat \<Rightarrow> u64 \<Rightarrow> u32 \<Rightarrow> u32 \<Rightarrow> u8 list \<Rightarrow> Maps \<Rightarrow> PacketAction \<times> Maps" where
  "l2_loop_tc_path_ingress lru cpu now_ns ifindex skb_len data m =
     (TC_ACT_OK, account_tc lru cpu now_ns ifindex skb_len data (hook_role_code TemporaryPathIngress) m)"

definition l2_loop_tc_path_egress :: "lru_insert \<Rightarrow> nat \<Rightarrow> u64 \<Rightarrow> u32 \<Rightarrow> u32 \<Rightarrow> u8 list \<Rightarrow> Maps \<Rightarrow> PacketAction \<times> Maps" where
  "l2_loop_tc_path_egress lru cpu now_ns ifindex skb_len data m =
     (TC_ACT_OK, account_tc lru cpu now_ns ifindex skb_len data (hook_role_code TemporaryPathEgress) m)"

section \<open>Agreement with the shared parser and hash\<close>

text \<open>
  The programs never hand the verifier a slice of unknown length: they read a fixed prefix, and the
  hash and the metadata are unrolled over constant offsets. Each unrolled routine is compared with
  the routine of \<open>l2-loop-common\<close> that user space runs on the whole frame.
\<close>

lemma packet_prefix_Some: "packet_prefix n data = Some p \<longleftrightarrow> n \<le> length data \<and> p = take n data"
  by (auto simp: packet_prefix_def)

lemma parse_packet_eq: "parse_packet data = parse_l2_word data"
  by (auto simp: parse_packet_def packet_prefix_def parse_l2_word_def is_vlan_tpid_def Let_def)

lemma fixed_hash_eq:
  assumes "length frame = 60"
  shows "fixed_fingerprint_hash len frame = foldl fingerprint_hash_step (fingerprint_hash_init len) frame"
proof -
  have "map (\<lambda>i. frame ! i) [0..<60] = frame"
    using assms map_nth [of frame] by simp
  moreover have "foldl (\<lambda>h i. fingerprint_hash_step h (frame ! i)) (fingerprint_hash_init len) [0..<60]
      = foldl fingerprint_hash_step (fingerprint_hash_init len) (map (\<lambda>i. frame ! i) [0..<60])"
    by (simp only: foldl_map)
  ultimately show ?thesis by (simp only: fixed_fingerprint_hash_def)
qed

text \<open>
  The in-kernel fingerprint of a frame is the fingerprint user space computes: on every
  complete frame of sixty bytes or more whose length fits sixteen bits, the unrolled hash over the
  sixty-byte prefix equals \<open>fingerprint_hash\<close> of the frame.
\<close>

theorem fixed_fingerprint_hash_agrees:
  assumes "60 \<le> length frame" and "length frame < 2 ^ 16"
  shows "Some (fixed_fingerprint_hash (of_nat (length frame)) (take 60 frame)) = fingerprint_hash frame"
proof -
  have "unat (of_nat (length frame) :: u16) = length frame"
    using assms by (simp add: unat_of_nat)
  with assms show ?thesis
    by (simp add: fixed_hash_eq fingerprint_hash_def fingerprint_hash_with_length_def try_from_usize_def min_def)
qed

theorem fixed_fingerprint_hash_agrees_witness:
  "Some (fixed_fingerprint_hash 64 (replicate 60 7)) = fingerprint_hash (replicate 64 7)"
  using fixed_fingerprint_hash_agrees [of "replicate 64 7"] by simp

text \<open>
  The metadata agree too, except for one shape of frame: an IPv4 header whose options run past the
  sixty-byte prefix. There user space, given the same prefix, refuses the header, while the unrolled
  code keeps the protocol number and drops the subtype.
\<close>

definition ipv4_header_overruns :: "u8 list \<Rightarrow> bool" where
  "ipv4_header_overruns frame \<longleftrightarrow>
     (if is_vlan_tpid (be16 (frame ! 12) (frame ! 13))
      then be16 (frame ! 16) (frame ! 17) = ETH_P_IPV4 \<and> 10 < unat (frame ! 18 AND 0x0f)
      else be16 (frame ! 12) (frame ! 13) = ETH_P_IPV4 \<and> 11 < unat (frame ! 14 AND 0x0f))"

lemma nibble_cases:
  fixes x :: u8
  assumes "\<not> x < 5" and "unat x \<le> 11"
  shows "x \<in> {5, 6, 7, 8, 9, 10, 11}"
proof -
  have "unat x \<in> {5..11}" using assms by (auto simp: word_less_nat_alt)
  also have "{5..11} = {5, 6, 7, 8, 9, 10, 11 :: nat}" by auto
  finally show ?thesis
    by (auto simp: unat_eq_nat_uint [symmetric] word_unat_eq_iff)
qed

lemma header_len_lt: "unat (x :: u8) * 4 < 20 \<longleftrightarrow> x < 5"
  by (auto simp: word_less_nat_alt)

lemma untagged_agrees:
  assumes "length frame = 60" and "\<not> (t = ETH_P_IPV4 \<and> 11 < unat (frame ! 14 AND 0x0f))"
  shows "fixed_protocol_subtype_untagged frame t = protocol_and_subtype frame 14 t"
proof (cases "t = ETH_P_IPV4")
  case True
  let ?ihl = "frame ! 14 AND 0x0f"
  show ?thesis
  proof (cases "?ihl < 5")
    case True
    then show ?thesis using \<open>t = ETH_P_IPV4\<close> assms(1)
      by (auto simp: fixed_protocol_subtype_untagged_def protocol_and_subtype_def Let_def
          ipv4_protocol_and_subtype_def slice_get_def header_len_lt)
  next
    case False
    with assms \<open>t = ETH_P_IPV4\<close> have "?ihl \<in> {5, 6, 7, 8, 9, 10, 11}"
      by (intro nibble_cases) auto
    with \<open>t = ETH_P_IPV4\<close> assms(1) show ?thesis
      by (auto simp: fixed_protocol_subtype_untagged_def protocol_and_subtype_def Let_def
          ipv4_protocol_and_subtype_def slice_get_def fixed_ipv4_subtype_untagged_def)
  qed
next
  case False
  with assms show ?thesis
    by (auto simp: fixed_protocol_subtype_untagged_def protocol_and_subtype_def Let_def
        ipv6_protocol_and_subtype_def slice_get_def read_u16_def)
qed

lemma tagged_agrees:
  assumes "length frame = 60" and "\<not> (t = ETH_P_IPV4 \<and> 10 < unat (frame ! 18 AND 0x0f))"
  shows "fixed_protocol_subtype_tagged frame t = protocol_and_subtype frame 18 t"
proof (cases "t = ETH_P_IPV4")
  case True
  let ?ihl = "frame ! 18 AND 0x0f"
  show ?thesis
  proof (cases "?ihl < 5")
    case True
    then show ?thesis using \<open>t = ETH_P_IPV4\<close> assms(1)
      by (auto simp: fixed_protocol_subtype_tagged_def protocol_and_subtype_def Let_def
          ipv4_protocol_and_subtype_def slice_get_def header_len_lt)
  next
    case False
    have "unat ?ihl \<le> 10" using assms \<open>t = ETH_P_IPV4\<close> by simp
    with False have "?ihl \<in> {5, 6, 7, 8, 9, 10}"
      using nibble_cases [of ?ihl] by auto
    with \<open>t = ETH_P_IPV4\<close> assms(1) show ?thesis
      by (auto simp: fixed_protocol_subtype_tagged_def protocol_and_subtype_def Let_def
          ipv4_protocol_and_subtype_def slice_get_def fixed_ipv4_subtype_tagged_def)
  qed
next
  case False
  with assms show ?thesis
    by (auto simp: fixed_protocol_subtype_tagged_def protocol_and_subtype_def Let_def
        ipv6_protocol_and_subtype_def slice_get_def read_u16_def)
qed

text \<open>
  The in-kernel metadata of a sampled frame (addresses, VLAN tag and depth, EtherType,
  protocol, ICMP type or ARP opcode) are those of the shared \<open>parse_fingerprint_metadata\<close> on the same
  sixty bytes, whatever the bytes are, unless an IPv4 header overruns the prefix.
\<close>

theorem fixed_metadata_agrees:
  assumes "length frame = 60" and "\<not> ipv4_header_overruns frame"
  shows "Some (fixed_fingerprint_metadata frame) = parse_fingerprint_metadata frame"
proof (cases "is_vlan_tpid (be16 (frame ! 12) (frame ! 13))")
  case True
  with assms have "fixed_protocol_subtype_tagged frame (be16 (frame ! 16) (frame ! 17))
      = protocol_and_subtype frame 18 (be16 (frame ! 16) (frame ! 17))"
    by (intro tagged_agrees) (auto simp: ipv4_header_overruns_def)
  with True assms(1) show ?thesis
    by (simp add: fixed_fingerprint_metadata_def parse_fingerprint_metadata_def copy_mac_def read_u16_def
        slice_get_def is_vlan_tpid_def Let_def numeral_2_eq_2 split: prod.split)
next
  case False
  with assms have "fixed_protocol_subtype_untagged frame (be16 (frame ! 12) (frame ! 13))
      = protocol_and_subtype frame 14 (be16 (frame ! 12) (frame ! 13))"
    by (intro untagged_agrees) (auto simp: ipv4_header_overruns_def)
  with False assms(1) show ?thesis
    by (simp add: fixed_fingerprint_metadata_def parse_fingerprint_metadata_def copy_mac_def read_u16_def
        slice_get_def is_vlan_tpid_def Let_def numeral_2_eq_2 split: prod.split)
qed

theorem fixed_metadata_agrees_witness:
  "let frame = replicate 12 0xff @ [0x08, 0x06] @ replicate 6 0 @ [0, 2] @ replicate 38 0
   in Some (fixed_fingerprint_metadata frame) = parse_fingerprint_metadata frame
      \<and> fm_subtype (fixed_fingerprint_metadata frame) = 2"
  using fixed_metadata_agrees [of "replicate 12 0xff @ [0x08, 0x06] @ replicate 6 0 @ [0, 2] @ replicate 38 0"]
  by (simp add: ipv4_header_overruns_def is_vlan_tpid_def be16_def nth_append fixed_fingerprint_metadata_def
      fixed_protocol_subtype_untagged_def Let_def)

section \<open>Counters\<close>

text \<open>What one packet does to the counters, whatever else it does.\<close>

definition counter_at :: "Maps \<Rightarrow> nat \<Rightarrow> StatsKey \<Rightarrow> CounterValue" where
  "counter_at m cpu k =
     (case hook_stats m k of None \<Rightarrow> \<lparr>cv_packets = 0, cv_bytes = 0\<rparr> | Some per_cpu \<Rightarrow> per_cpu cpu)"

lemmas stats_key_defs = stats_key_total_def stats_key_classified_def stats_key_parse_error_def

lemma dom_increment [simp]: "dom (hook_stats (increment_existing cpu k b m)) = dom (hook_stats m)"
  by (auto simp: increment_existing_def split: option.splits)

lemma hook_stats_increment_other:
  "x \<noteq> k \<Longrightarrow> hook_stats (increment_existing cpu k b m) x = hook_stats m x"
  by (simp add: increment_existing_def split: option.split)

lemma iface_config_increment [simp]: "iface_config (increment_existing cpu k b m) = iface_config m"
  by (simp add: increment_existing_def split: option.splits)

lemma counter_at_increment:
  assumes "k \<in> dom (hook_stats m)"
  shows "counter_at (increment_existing cpu k b m) c x =
    (if x = k \<and> c = cpu then increment_counter (counter_at m cpu k) b else counter_at m c x)"
  using assms by (auto simp: counter_at_def increment_existing_def)

lemma hook_stats_fingerprint [simp]:
  "hook_stats (account_fingerprint lru now g i d b data m) = hook_stats m"
  "iface_config (account_fingerprint lru now g i d b data m) = iface_config m"
  by (simp_all add: account_fingerprint_def Let_def split: option.splits)

lemma hook_stats_promote [simp]: "hook_stats (promote_vlan_visibility i g m) = hook_stats m"
  by (simp add: promote_vlan_visibility_def split: option.splits)

text \<open>The one key beside the total that a frame is counted under.\<close>

definition outcome_key :: "u64 \<Rightarrow> u32 \<Rightarrow> u8 \<Rightarrow> u8 list \<Rightarrow> StatsKey" where
  "outcome_key g i r data =
     (if is_error (parse_l2_word data) then stats_key_parse_error g i r
      else stats_key_classified g i r (word_traffic_class (parse_l2_word data)))"

lemma hook_stats_account_layer:
  "hook_stats (account_layer fp lru cpu now i r b data m) =
     (case iface_config m i of
        None \<Rightarrow> hook_stats m
      | Some config \<Rightarrow>
          let g = ic_interface_generation config
          in hook_stats (increment_existing cpu (outcome_key g i r data) b
               (increment_existing cpu (stats_key_total g i r) b m)))"
  by (simp add: account_layer_def parse_packet_eq outcome_key_def Let_def split: option.split)

lemma word_class_observed:
  "\<not> is_error (parse_l2_word data) \<Longrightarrow> is_observed_class (word_traffic_class (parse_l2_word data))"
  by (auto simp: parse_l2_word_def is_error_def Let_def split: if_splits)

lemma outcome_key_listed: "outcome_key g i r data \<in> set (tl (observation_keys g i r))"
  using word_class_observed [of data]
  by (auto simp: outcome_key_def observation_keys_def is_observed_class_def)

lemma distinct_observation_keys: "distinct (observation_keys g i r)"
  by (simp add: observation_keys_def stats_key_defs)

lemma observation_keys_owner:
  "k \<in> set (observation_keys g i r) \<Longrightarrow>
     sk_interface_generation k = g \<and> sk_ifindex k = i \<and> sk_hook_role k = r"
  by (auto simp: observation_keys_def stats_key_defs)

lemma observation_keys_head:
  "stats_key_total g i r \<in> set (observation_keys g i r)"
  "set (tl (observation_keys g i r)) \<subseteq> set (observation_keys g i r)"
  "distinct (tl (observation_keys g i r))"
  "stats_key_total g i r \<notin> set (tl (observation_keys g i r))"
  using distinct_observation_keys [of g i r] by (simp_all add: observation_keys_def)

text \<open>Conservation: on every CPU, the total of a hook is the sum of its seven outcomes.\<close>

definition conserved :: "u64 \<Rightarrow> u32 \<Rightarrow> u8 \<Rightarrow> Maps \<Rightarrow> bool" where
  "conserved g i r m \<longleftrightarrow>
     set (observation_keys g i r) \<subseteq> dom (hook_stats m) \<and>
     (\<forall>cpu. cv_packets (counter_at m cpu (stats_key_total g i r))
              = (\<Sum>k\<leftarrow>tl (observation_keys g i r). cv_packets (counter_at m cpu k)) \<and>
            cv_bytes (counter_at m cpu (stats_key_total g i r))
              = (\<Sum>k\<leftarrow>tl (observation_keys g i r). cv_bytes (counter_at m cpu k)))"

lemma sum_list_bump:
  fixes f :: "'k \<Rightarrow> 'v::comm_monoid_add"
  assumes "distinct ks" and "k \<in> set ks"
  shows "(\<Sum>x\<leftarrow>ks. if x = k then f x + d else f x) = (\<Sum>x\<leftarrow>ks. f x) + d"
  using assms
proof (induction ks)
  case (Cons y ks)
  show ?case
  proof (cases "y = k")
    case True
    with Cons have "(\<Sum>x\<leftarrow>ks. if x = k then f x + d else f x) = (\<Sum>x\<leftarrow>ks. f x)"
      by (intro arg_cong [where f = sum_list] map_cong) auto
    with True show ?thesis by (simp add: ac_simps)
  next
    case False
    with Cons show ?thesis by (simp add: ac_simps)
  qed
qed simp

lemma conserved_step:
  assumes c: "conserved g i r m" and k: "k \<in> set (tl (observation_keys g i r))"
  shows "conserved g i r (increment_existing cpu k b (increment_existing cpu (stats_key_total g i r) b m))"
proof -
  let ?ks = "tl (observation_keys g i r)" and ?t = "stats_key_total g i r"
  let ?m = "increment_existing cpu k b (increment_existing cpu ?t b m)"
  have d: "distinct ?ks" "?t \<notin> set ?ks"
    by (rule observation_keys_head)+
  have dom: "?t \<in> dom (hook_stats m)" "k \<in> dom (hook_stats m)"
    using c k observation_keys_head(1,2) [of g i r] unfolding conserved_def by blast+
  have at: "counter_at ?m p x =
      (if p = cpu \<and> (x = k \<or> x = ?t) then increment_counter (counter_at m cpu x) b else counter_at m p x)" for p x
    using dom d k by (auto simp: counter_at_increment)
  have sum: "f (counter_at ?m p ?t) = (\<Sum>x\<leftarrow>?ks. f (counter_at ?m p x))"
    if bump: "\<And>x. f (increment_counter x b) = f x + e"
      and old: "f (counter_at m p ?t) = (\<Sum>x\<leftarrow>?ks. f (counter_at m p x))"
    for f :: "CounterValue \<Rightarrow> u64" and e p
  proof (cases "p = cpu")
    case True
    have "map (\<lambda>x. f (counter_at ?m p x)) ?ks =
        map (\<lambda>x. if x = k then f (counter_at m p x) + e else f (counter_at m p x)) ?ks"
      using d True by (intro map_cong) (auto simp: at bump)
    then have "(\<Sum>x\<leftarrow>?ks. f (counter_at ?m p x)) = (\<Sum>x\<leftarrow>?ks. f (counter_at m p x)) + e"
      by (simp only: sum_list_bump [OF d(1) k, of "\<lambda>x. f (counter_at m p x)" e])
    with True old show ?thesis by (simp add: at bump)
  next
    case False
    with old show ?thesis by (simp add: at)
  qed
  show ?thesis
    unfolding conserved_def
  proof (intro conjI allI)
    show "set (observation_keys g i r) \<subseteq> dom (hook_stats ?m)"
      using c by (simp add: conserved_def)
  qed (rule sum; use c in \<open>simp add: increment_counter_def conserved_def\<close>)+
qed

lemma conserved_cong: 
  assumes "\<And>k. k \<in> set (observation_keys g i r) \<Longrightarrow> hook_stats m k = hook_stats n k"
  shows "conserved g i r m = conserved g i r n"
proof -
  have at: "counter_at m cpu k = counter_at n cpu k" if "k \<in> set (observation_keys g i r)" for cpu k
    using assms [OF that] by (simp add: counter_at_def)
  note t = observation_keys_head(1,2) [of g i r]
  have "map (\<lambda>k. f (counter_at m cpu k)) (tl (observation_keys g i r)) =
      map (\<lambda>k. f (counter_at n cpu k)) (tl (observation_keys g i r))" for f :: "CounterValue \<Rightarrow> u64" and cpu
    using at t by (intro map_cong) auto
  moreover have "set (observation_keys g i r) \<subseteq> dom (hook_stats m) \<longleftrightarrow>
      set (observation_keys g i r) \<subseteq> dom (hook_stats n)"
    using assms by (auto simp: dom_def)
  ultimately show ?thesis
    unfolding conserved_def by (simp only: at [OF t(1)])
qed

lemma conserved_account_layer:
  assumes "conserved g i r m"
  shows "conserved g i r (account_layer fp lru cpu now j q b data m)"
proof (cases "iface_config m j")
  case None
  with assms show ?thesis by (simp add: account_layer_def)
next
  case (Some config)
  let ?h = "ic_interface_generation config"
  let ?n = "increment_existing cpu (outcome_key ?h j q data) b (increment_existing cpu (stats_key_total ?h j q) b m)"
  have stats: "hook_stats (account_layer fp lru cpu now j q b data m) = hook_stats ?n"
    using Some by (simp add: hook_stats_account_layer Let_def)
  have "conserved g i r ?n"
  proof (cases "g = ?h \<and> i = j \<and> r = q")
    case True
    then show ?thesis using conserved_step [OF assms outcome_key_listed] by simp
  next
    case False
    have other: "k \<noteq> stats_key_total ?h j q \<and> k \<noteq> outcome_key ?h j q data"
      if "k \<in> set (observation_keys g i r)" for k
      using observation_keys_owner [OF that] False
      by (auto simp: outcome_key_def stats_key_defs)
    have "hook_stats ?n k = hook_stats m k" if "k \<in> set (observation_keys g i r)" for k
      using other [OF that] by (simp add: hook_stats_increment_other)
    then show ?thesis using assms conserved_cong [of g i r ?n m] by blast
  qed
  then show ?thesis by (simp only: conserved_cong [OF stats [THEN fun_cong]])
qed

section \<open>The programs as a machine\<close>

text \<open>
  A packet event is one run of one of the four attached programs. Programs run to completion on
  their CPU, so a history of the data path is a sequence of such runs, in any interleaving.
\<close>

datatype Hook = XdpIngress | TcEgress | TcPathIngress | TcPathEgress

record PacketEvent =
  pe_hook :: Hook
  pe_cpu :: nat
  pe_now_ns :: u64
  pe_ifindex :: u32
  pe_skb_len :: u32
  pe_data :: "u8 list"

fun hook_role_of :: "Hook \<Rightarrow> u8" where
  "hook_role_of XdpIngress = hook_role_code ExternalXdpIngress"
| "hook_role_of TcEgress = hook_role_code PhysicalTcEgress"
| "hook_role_of TcPathIngress = hook_role_code TemporaryPathIngress"
| "hook_role_of TcPathEgress = hook_role_code TemporaryPathEgress"

definition run_program :: "lru_insert \<Rightarrow> Maps \<Rightarrow> PacketEvent \<Rightarrow> PacketAction \<times> Maps" where
  "run_program lru m e =
     (case pe_hook e of
        XdpIngress \<Rightarrow> l2_loop_xdp_ingress lru (pe_cpu e) (pe_now_ns e) (pe_ifindex e) (pe_data e) m
      | TcEgress \<Rightarrow> l2_loop_tc_egress lru (pe_cpu e) (pe_now_ns e) (pe_ifindex e) (pe_skb_len e) (pe_data e) m
      | TcPathIngress \<Rightarrow> l2_loop_tc_path_ingress lru (pe_cpu e) (pe_now_ns e) (pe_ifindex e) (pe_skb_len e) (pe_data e) m
      | TcPathEgress \<Rightarrow> l2_loop_tc_path_egress lru (pe_cpu e) (pe_now_ns e) (pe_ifindex e) (pe_skb_len e) (pe_data e) m)"

definition packet_step :: "lru_insert \<Rightarrow> Maps \<Rightarrow> PacketEvent \<Rightarrow> Maps" where
  "packet_step lru m e = snd (run_program lru m e)"

definition event_bytes :: "PacketEvent \<Rightarrow> u64" where
  "event_bytes e = (if pe_hook e = XdpIngress then of_nat (length (pe_data e)) else ucast (pe_skb_len e))"

lemma packet_step_layer:
  "packet_step lru m e =
     account_layer True lru (pe_cpu e) (pe_now_ns e) (pe_ifindex e) (hook_role_of (pe_hook e)) (event_bytes e) (pe_data e) m"
  by (simp add: packet_step_def run_program_def event_bytes_def l2_loop_xdp_ingress_def l2_loop_tc_egress_def
      l2_loop_tc_path_ingress_def l2_loop_tc_path_egress_def account_xdp_def account_tc_def split: Hook.split)

interpretation data_path: machine "packet_step lru" "conserved g i r" for lru g i r
  by unfold_locales (simp add: packet_step_layer conserved_account_layer)

definition provisioned :: "u64 \<Rightarrow> u32 \<Rightarrow> u8 \<Rightarrow> Maps" where
  "provisioned g i r =
     \<lparr>iface_config = [i \<mapsto> interface_config_new g 0 i 0 0 0 4],
      hook_stats = map_of (map (\<lambda>k. (k, \<lambda>cpu. \<lparr>cv_packets = 0, cv_bytes = 0\<rparr>)) (observation_keys g i r)),
      fingerprints = Map.empty\<rparr>"

lemma conserved_provisioned: "conserved g i r (provisioned g i r)"
proof -
  have *: "map_of (map (\<lambda>k. (k, z)) ks) k = (if k \<in> set ks then Some z else None)"
    for z :: "nat \<Rightarrow> CounterValue" and ks and k :: StatsKey
    by (induction ks) auto
  have "counter_at (provisioned g i r) cpu k = \<lparr>cv_packets = 0, cv_bytes = 0\<rparr>" for cpu k
    by (simp add: counter_at_def provisioned_def *)
  then show ?thesis
    by (auto simp: conserved_def provisioned_def * split: if_splits)
qed

text \<open>
  \<^bold>\<open>C1.\<close> Conservation of packets: whatever packets the four programs process, on whatever CPUs and in
  whatever order, with whatever LRU evictions, on every CPU the total counter of a hook stays the
  sum of its six traffic classes and its parse errors, in packets and in bytes, wrap-around included.
  No packet is counted twice and none is lost between the total and its outcomes.
\<close>

theorem counters_conserved:
  assumes "conserved g i r m"
  shows "conserved g i r (foldl (packet_step lru) m events)"
  using assms by (rule data_path.run_inv)

theorem counters_conserved_witness:
  "let e = \<lparr>pe_hook = XdpIngress, pe_cpu = 3, pe_now_ns = 9, pe_ifindex = 2, pe_skb_len = 0, pe_data = replicate 20 0xff\<rparr>
   in conserved 1 2 1 (provisioned 1 2 1) \<and>
      conserved 1 2 1 (foldl (packet_step (\<lambda>m k v. m(k \<mapsto> v))) (provisioned 1 2 1) [e, e])"
  by (simp only: Let_def conserved_provisioned counters_conserved)

text \<open>What stays fixed: the configured generation, and the set of counters.\<close>

lemma account_layer_generation:
  "map_option ic_interface_generation (iface_config (account_layer fp lru cpu now j q b data m) i)
     = map_option ic_interface_generation (iface_config m i)"
  by (simp add: account_layer_def promote_vlan_visibility_def Let_def split: option.split)

lemma counter_at_account_layer_total:
  assumes "stats_key_total g i r \<in> dom (hook_stats m)"
    and "map_option ic_interface_generation (iface_config m i) = Some g"
  shows "counter_at (account_layer fp lru p now j q b data m) cpu (stats_key_total g i r) =
    (if j = i \<and> q = r \<and> p = cpu then increment_counter (counter_at m cpu (stats_key_total g i r)) b
     else counter_at m cpu (stats_key_total g i r))"
proof (cases "iface_config m j")
  case None
  with assms(2) show ?thesis by (auto simp: account_layer_def)
next
  case (Some config)
  let ?h = "ic_interface_generation config" and ?t = "stats_key_total g i r"
  let ?n = "increment_existing p (stats_key_total ?h j q) b m"
  have stats: "hook_stats (account_layer fp lru p now j q b data m) ?t
      = hook_stats (increment_existing p (outcome_key ?h j q data) b ?n) ?t"
    using Some by (simp add: hook_stats_account_layer Let_def)
  have "?t \<noteq> outcome_key ?h j q data"
    using word_class_observed [of data]
    by (auto simp: outcome_key_def stats_key_defs is_observed_class_def split: if_splits)
  with stats have eq: "hook_stats (account_layer fp lru p now j q b data m) ?t = hook_stats ?n ?t"
    by (simp add: hook_stats_increment_other)
  show ?thesis
  proof (cases "j = i \<and> q = r")
    case True
    with Some assms(2) have "?h = g" by simp
    have "counter_at (account_layer fp lru p now j q b data m) cpu ?t = counter_at ?n cpu ?t"
      using eq by (simp only: counter_at_def)
    also have "\<dots> = (if p = cpu then increment_counter (counter_at m cpu ?t) b else counter_at m cpu ?t)"
      using True \<open>?h = g\<close> assms(1) by (auto simp: counter_at_increment)
    finally show ?thesis using True by simp
  next
    case False
    then have "?t \<noteq> stats_key_total ?h j q" by (auto simp: stats_key_defs)
    with False eq show ?thesis by (auto simp: counter_at_def hook_stats_increment_other)
  qed
qed

text \<open>A run of the data path adds to a total exactly the packets of that hook on that CPU.\<close>

definition on_hook :: "u32 \<Rightarrow> u8 \<Rightarrow> nat \<Rightarrow> PacketEvent \<Rightarrow> bool" where
  "on_hook i r cpu e \<longleftrightarrow> pe_ifindex e = i \<and> hook_role_of (pe_hook e) = r \<and> pe_cpu e = cpu"

lemma totals_count:
  assumes "set (observation_keys g i r) \<subseteq> dom (hook_stats m)"
    and "map_option ic_interface_generation (iface_config m i) = Some g"
  shows "counter_at (foldl (packet_step lru) m events) cpu (stats_key_total g i r) =
    \<lparr>cv_packets = cv_packets (counter_at m cpu (stats_key_total g i r)) + of_nat (length (filter (on_hook i r cpu) events)),
     cv_bytes = cv_bytes (counter_at m cpu (stats_key_total g i r)) + sum_list (map event_bytes (filter (on_hook i r cpu) events))\<rparr>"
  using assms
proof (induction events arbitrary: m)
  case Nil
  then show ?case by simp
next
  case (Cons e events)
  let ?m = "packet_step lru m e"
  have "dom (hook_stats ?m) = dom (hook_stats m)"
    by (simp add: packet_step_layer hook_stats_account_layer Let_def split: option.split)
  moreover have "map_option ic_interface_generation (iface_config ?m i) = Some g"
    using Cons.prems(2) by (simp only: packet_step_layer account_layer_generation)
  moreover have "counter_at ?m cpu (stats_key_total g i r) =
      (if on_hook i r cpu e then increment_counter (counter_at m cpu (stats_key_total g i r)) (event_bytes e)
       else counter_at m cpu (stats_key_total g i r))"
    unfolding packet_step_layer
    by (subst counter_at_account_layer_total)
      (use Cons.prems observation_keys_head(1) [of g i r] in \<open>auto simp: on_hook_def\<close>)
  ultimately show ?case
    using Cons.IH [of ?m] Cons.prems by (simp add: increment_counter_def)
qed

text \<open>
  The counters mean what they say: on an interface configured with generation \<open>g\<close>, after any
  run of the data path the total of a hook on a CPU has grown by exactly the number of packets that
  hook processed on that CPU, and by the sum of their lengths, modulo \<open>2 ^ 64\<close>.
\<close>

theorem total_counts_packets:
  assumes "set (observation_keys g i r) \<subseteq> dom (hook_stats m)"
    and "map_option ic_interface_generation (iface_config m i) = Some g"
  shows "counter_at (foldl (packet_step lru) m events) cpu (stats_key_total g i r) =
    \<lparr>cv_packets = cv_packets (counter_at m cpu (stats_key_total g i r)) + of_nat (length (filter (on_hook i r cpu) events)),
     cv_bytes = cv_bytes (counter_at m cpu (stats_key_total g i r)) + sum_list (map event_bytes (filter (on_hook i r cpu) events))\<rparr>"
  using assms by (rule totals_count)

theorem total_counts_packets_witness:
  "let e = \<lparr>pe_hook = XdpIngress, pe_cpu = 3, pe_now_ns = 9, pe_ifindex = 2, pe_skb_len = 0, pe_data = replicate 20 0xff\<rparr>
   in set (observation_keys 1 2 1) \<subseteq> dom (hook_stats (provisioned 1 2 1)) \<and>
      map_option ic_interface_generation (iface_config (provisioned 1 2 1) 2) = Some 1 \<and>
      counter_at (foldl (packet_step (\<lambda>m k v. m(k \<mapsto> v))) (provisioned 1 2 1) [e, e\<lparr>pe_cpu := 4\<rparr>, e]) 3 (stats_key_total 1 2 1)
        = \<lparr>cv_packets = 2, cv_bytes = 40\<rparr>"
proof -
  let ?e = "\<lparr>pe_hook = XdpIngress, pe_cpu = 3, pe_now_ns = 9, pe_ifindex = 2, pe_skb_len = 0, pe_data = replicate 20 0xff\<rparr>"
  have 1: "set (observation_keys 1 2 1) \<subseteq> dom (hook_stats (provisioned 1 2 1))"
    using conserved_provisioned [of 1 2 1] by (simp add: conserved_def)
  have 2: "map_option ic_interface_generation (iface_config (provisioned 1 2 1) 2) = Some 1"
    by (simp add: provisioned_def interface_config_new_def)
  have 3: "counter_at (provisioned 1 2 1) 3 (stats_key_total 1 2 1) = \<lparr>cv_packets = 0, cv_bytes = 0\<rparr>"
    by (simp add: counter_at_def provisioned_def observation_keys_def)
  show ?thesis
    using total_counts_packets [OF 1 2, of "\<lambda>m k v. m(k \<mapsto> v)" "[?e, ?e\<lparr>pe_cpu := 4\<rparr>, ?e]" 3]
    by (simp add: 1 2 3 on_hook_def event_bytes_def)
qed

text \<open>
  The programs only observe: every run lets its packet pass, creates or removes no counter,
  never touches another interface's configuration, changes nothing but the VLAN visibility of its own
  one (and that only from unknown to verified visible), and leaves all maps alone on an interface that
  is not configured.
\<close>

theorem programs_only_observe:
  "(case run_program lru m e of (action, n) \<Rightarrow>
      action = (if pe_hook e = XdpIngress then XDP_PASS else TC_ACT_OK) \<and>
      dom (hook_stats n) = dom (hook_stats m) \<and>
      (case iface_config m (pe_ifindex e) of
         None \<Rightarrow> n = m
       | Some config \<Rightarrow>
           iface_config n = iface_config m \<or>
           ic_vlan_visibility config = vlan_visibility_code VlanUnknown \<and>
           iface_config n = (iface_config m)(pe_ifindex e \<mapsto>
             config\<lparr>ic_vlan_visibility := vlan_visibility_code VlanVerifiedVisible\<rparr>)))"
proof -
  have "fst (run_program lru m e) = (if pe_hook e = XdpIngress then XDP_PASS else TC_ACT_OK)"
    by (simp add: run_program_def l2_loop_xdp_ingress_def l2_loop_tc_egress_def
        l2_loop_tc_path_ingress_def l2_loop_tc_path_egress_def split: Hook.split)
  moreover have "dom (hook_stats (packet_step lru m e)) = dom (hook_stats m)"
    by (simp add: packet_step_layer hook_stats_account_layer Let_def split: option.split)
  moreover have "case iface_config m (pe_ifindex e) of
         None \<Rightarrow> packet_step lru m e = m
       | Some config \<Rightarrow>
           iface_config (packet_step lru m e) = iface_config m \<or>
           ic_vlan_visibility config = vlan_visibility_code VlanUnknown \<and>
           iface_config (packet_step lru m e) = (iface_config m)(pe_ifindex e \<mapsto>
             config\<lparr>ic_vlan_visibility := vlan_visibility_code VlanVerifiedVisible\<rparr>)"
    by (auto simp: packet_step_layer account_layer_def promote_vlan_visibility_def Let_def split: option.split)
  ultimately show ?thesis
    by (simp only: packet_step_def case_prod_beta conj_assoc simp_thms)
qed

end
