(* ===== verification/Observation.thy ===== *)
theory Observation
  imports Ebpf
begin

text \<open>
  Observation values (\<open>l2-loop-core/src/observation.rs\<close>) and the reader that aggregates the per-CPU
  kernel counters into them (\<open>l2-loop-agent/src/linux/observation.rs\<close>). The reader's port is a
  parameter: \<open>read_counter\<close> takes the port's state, so nothing is assumed about what happens to the
  kernel maps between two reads. The reader's own checks of a configuration entry and of the current
  keys are included; checks on journal paths and hook inventories are not.
\<close>

section \<open>Values\<close>

record ObservationCounters =
  oc_packets :: u64
  oc_bytes :: u64

definition counters_checked_add ::
  "ObservationCounters \<Rightarrow> ObservationCounters \<Rightarrow> (DomainError, ObservationCounters) result" where
  "counters_checked_add self other =
     rbind (ok_or (InvalidObservation ''packet counter overflow'') (checked_add (oc_packets self) (oc_packets other)))
       (\<lambda>packets.
     rbind (ok_or (InvalidObservation ''byte counter overflow'') (checked_add (oc_bytes self) (oc_bytes other)))
       (\<lambda>bytes. Inr \<lparr>oc_packets = packets, oc_bytes = bytes\<rparr>))"

record ClassObservation =
  co_traffic_class :: TrafficClass
  co_counters :: ObservationCounters

record HookObservation =
  ho_role :: HookRole
  ho_total :: ObservationCounters
  ho_classes :: "ClassObservation arr6"
  ho_parse_errors :: ObservationCounters

datatype ObservationHealth = Healthy | Degraded

definition CLASS_ORDER :: "TrafficClass arr6" where
  "CLASS_ORDER = Arr6 TcL2Broadcast TcIpv4Multicast TcIpv6Multicast TcOtherL2Multicast
     TcLinkLocalControl TcUnicastOrUnclassified"

section \<open>The reader\<close>

datatype PortError = Adapter string | CodedAdapter string string | InvalidReport string

fun stable_code :: "PortError \<Rightarrow> string option" where
  "stable_code (CodedAdapter code evidence) = Some code"
| "stable_code (Adapter e) = None"
| "stable_code (InvalidReport e) = None"

type_synonym 's counter_port = "StatsKey \<Rightarrow> ('s, PortError, CounterValue list option) port"

definition aggregate_values :: "CounterValue list \<Rightarrow> (PortError, ObservationCounters) result" where
  "aggregate_values values =
     rfold (\<lambda>value total. map_err (CodedAdapter ''OBS_SNAPSHOT_FAILED'' ''counter aggregation overflow'')
              (counters_checked_add total \<lparr>oc_packets = cv_packets value, oc_bytes = cv_bytes value\<rparr>))
       values \<lparr>oc_packets = 0, oc_bytes = 0\<rparr>"

definition read_aggregate :: "'s counter_port \<Rightarrow> StatsKey \<Rightarrow> ('s, PortError, ObservationCounters) port" where
  "read_aggregate read_counter key =
     port_bind (read_counter key) (\<lambda>values. port_lift (aggregate_values (unwrap_or values [])))"

definition read_class ::
  "'s counter_port \<Rightarrow> StatsKey \<Rightarrow> TrafficClass \<Rightarrow> ('s, PortError, ClassObservation) port" where
  "read_class read_counter key traffic_class =
     port_bind (read_aggregate read_counter key)
       (\<lambda>counters. port_return \<lparr>co_traffic_class = traffic_class, co_counters = counters\<rparr>)"

definition read_hook ::
  "'s counter_port \<Rightarrow> u64 \<Rightarrow> u32 \<Rightarrow> u8 \<Rightarrow> HookRole \<Rightarrow> ('s, PortError, HookObservation) port" where
  "read_hook read_counter generation ifindex raw_role role =
     (let keys = observation_keys generation ifindex raw_role
      in port_bind (read_aggregate read_counter (keys ! 0)) (\<lambda>total.
         port_bind (read_class read_counter (keys ! 1) TcL2Broadcast) (\<lambda>c1.
         port_bind (read_class read_counter (keys ! 2) TcIpv4Multicast) (\<lambda>c2.
         port_bind (read_class read_counter (keys ! 3) TcIpv6Multicast) (\<lambda>c3.
         port_bind (read_class read_counter (keys ! 4) TcOtherL2Multicast) (\<lambda>c4.
         port_bind (read_class read_counter (keys ! 5) TcLinkLocalControl) (\<lambda>c5.
         port_bind (read_class read_counter (keys ! 6) TcUnicastOrUnclassified) (\<lambda>c6.
         port_bind (read_aggregate read_counter (keys ! 7)) (\<lambda>parse_errors.
         port_return \<lparr>ho_role = role, ho_total = total, ho_classes = Arr6 c1 c2 c3 c4 c5 c6,
                      ho_parse_errors = parse_errors\<rparr>)))))))))"

definition validate_config :: "InterfaceConfig \<Rightarrow> u64 \<Rightarrow> u32 \<Rightarrow> (PortError, VlanVisibility) result" where
  "validate_config config generation ifindex =
     (if ic_interface_generation config \<noteq> generation \<or> ic_logical_ifindex config \<noteq> ifindex
      then Inl (CodedAdapter ''OBS_OWNERSHIP_MISMATCH'' ''interface configuration identity changed'')
      else if ic_mode config \<noteq> agent_mode_code ModeObserve \<or> ic_role config \<noteq> hook_role_code ExternalXdpIngress
      then Inl (CodedAdapter ''OBS_MAP_UNAVAILABLE'' ''interface configuration is not observable'')
      else if ic_vlan_visibility config = vlan_visibility_code VlanUnknown then Inr VlanUnknown
      else if ic_vlan_visibility config = vlan_visibility_code VlanVerifiedVisible then Inr VlanVerifiedVisible
      else Inl (CodedAdapter ''OBS_MAP_UNAVAILABLE'' ''interface VLAN visibility is invalid''))"

definition validate_current_keys :: "StatsKey list \<Rightarrow> u64 \<Rightarrow> u32 \<Rightarrow> (PortError, unit) result" where
  "validate_current_keys current generation ifindex =
     (let approved = observation_keys generation ifindex (hook_role_code ExternalXdpIngress)
                   @ observation_keys generation ifindex (hook_role_code PhysicalTcEgress)
      in if list_ex (\<lambda>key. sk_interface_generation key = generation \<and> \<not> List.member approved key) current
         then Inl (CodedAdapter ''OBS_MAP_UNAVAILABLE'' ''statistics map contains an unsupported current-generation key'')
         else Inr ())"

section \<open>Aggregation\<close>

lemma counters_checked_add_Inr:
  "counters_checked_add a b = Inr c \<longleftrightarrow>
     unat (oc_packets a) + unat (oc_packets b) < 2 ^ 64 \<and> unat (oc_bytes a) + unat (oc_bytes b) < 2 ^ 64 \<and>
     c = \<lparr>oc_packets = oc_packets a + oc_packets b, oc_bytes = oc_bytes a + oc_bytes b\<rparr>"
  by (auto simp: counters_checked_add_def rbind_Inr_conv checked_add_Some)

lemma unat_add_fits: "unat a + unat b < 2 ^ 64 \<Longrightarrow> unat (a + b :: u64) = unat a + unat b"
  by (simp add: unat_word_ariths)

lemma aggregate_fold:
  "rfold (\<lambda>value acc. map_err e
      (counters_checked_add acc \<lparr>oc_packets = cv_packets value, oc_bytes = cv_bytes value\<rparr>)) values acc =
   (if unat (oc_packets acc) + (\<Sum>v\<leftarrow>values. unat (cv_packets v)) < 2 ^ 64 \<and>
       unat (oc_bytes acc) + (\<Sum>v\<leftarrow>values. unat (cv_bytes v)) < 2 ^ 64
    then Inr \<lparr>oc_packets = oc_packets acc + (\<Sum>v\<leftarrow>values. cv_packets v),
              oc_bytes = oc_bytes acc + (\<Sum>v\<leftarrow>values. cv_bytes v)\<rparr>
    else Inl e)"
proof (induction "values" arbitrary: acc)
  case Nil
  then show ?case using unsigned_less [where 'a = nat] by simp
next
  case (Cons v vs)
  let ?c = "\<lparr>oc_packets = cv_packets v, oc_bytes = cv_bytes v\<rparr>"
  show ?case
  proof (cases "counters_checked_add acc ?c")
    case (Inl x)
    then have "\<not> (unat (oc_packets acc) + unat (cv_packets v) < 2 ^ 64 \<and> unat (oc_bytes acc) + unat (cv_bytes v) < 2 ^ 64)"
      using counters_checked_add_Inr [of acc ?c] by auto
    with Inl show ?thesis by auto
  next
    case (Inr t)
    then have t: "unat (oc_packets acc) + unat (cv_packets v) < 2 ^ 64"
      "unat (oc_bytes acc) + unat (cv_bytes v) < 2 ^ 64"
      "t = \<lparr>oc_packets = oc_packets acc + cv_packets v, oc_bytes = oc_bytes acc + cv_bytes v\<rparr>"
      by (auto simp: counters_checked_add_Inr)
    show ?thesis
      using Cons.IH [of t] unat_add_fits [OF t(1)] unat_add_fits [OF t(2)] by (simp add: Inr t(3) add.assoc)
  qed
qed

lemma aggregate_values_eq:
  "aggregate_values values =
     (if (\<Sum>v\<leftarrow>values. unat (cv_packets v)) < 2 ^ 64 \<and> (\<Sum>v\<leftarrow>values. unat (cv_bytes v)) < 2 ^ 64
      then Inr \<lparr>oc_packets = (\<Sum>v\<leftarrow>values. cv_packets v), oc_bytes = (\<Sum>v\<leftarrow>values. cv_bytes v)\<rparr>
      else Inl (CodedAdapter ''OBS_SNAPSHOT_FAILED'' ''counter aggregation overflow''))"
  by (simp add: aggregate_values_def aggregate_fold)

lemma unat_sum_list:
  "(\<Sum>v\<leftarrow>vs. unat (f v :: u64)) < 2 ^ 64 \<Longrightarrow> unat (\<Sum>v\<leftarrow>vs. f v) = (\<Sum>v\<leftarrow>vs. unat (f v))"
proof (induction vs)
  case (Cons v vs)
  then have "unat (\<Sum>v\<leftarrow>vs. f v) = (\<Sum>v\<leftarrow>vs. unat (f v))" by simp
  with Cons.prems show ?case by (simp add: unat_add_fits)
qed simp

text \<open>
  Aggregation over CPUs never wraps: the reader returns the mathematical sum of the per-CPU
  packets and bytes when both fit 64 bits, and \<open>OBS_SNAPSHOT_FAILED\<close> otherwise.
\<close>

theorem aggregate_exact_or_refused:
  "(case aggregate_values values of
      Inr c \<Rightarrow> unat (oc_packets c) = (\<Sum>v\<leftarrow>values. unat (cv_packets v)) \<and>
               unat (oc_bytes c) = (\<Sum>v\<leftarrow>values. unat (cv_bytes v))
    | Inl e \<Rightarrow> stable_code e = Some ''OBS_SNAPSHOT_FAILED'' \<and>
               (2 ^ 64 \<le> (\<Sum>v\<leftarrow>values. unat (cv_packets v)) \<or> 2 ^ 64 \<le> (\<Sum>v\<leftarrow>values. unat (cv_bytes v))))"
  by (auto simp: aggregate_values_eq unat_sum_list)

section \<open>Reading a quiet hook\<close>

text \<open>The port of a data path that processes no packet during the read: the kernel maps of \<open>ncpu\<close> CPUs.\<close>

definition quiet_port :: "nat \<Rightarrow> Maps counter_port" where
  "quiet_port ncpu key m =
     (Inr (map_option (\<lambda>per_cpu. map per_cpu [0..<ncpu]) (hook_stats m key)), m)"

lemma read_aggregate_quiet:
  assumes "read_aggregate (quiet_port n) key m = (Inr c, m')" and "key \<in> dom (hook_stats m)"
  shows "m' = m \<and> oc_packets c = (\<Sum>p\<leftarrow>[0..<n]. cv_packets (counter_at m p key))
    \<and> oc_bytes c = (\<Sum>p\<leftarrow>[0..<n]. cv_bytes (counter_at m p key))"
  using assms
  by (auto simp: read_aggregate_def port_bind_def quiet_port_def port_lift_def aggregate_values_eq
      counter_at_def o_def split: if_splits)

lemma read_class_quiet:
  assumes "read_class (quiet_port n) key t m = (Inr c, m')" and "key \<in> dom (hook_stats m)"
  shows "m' = m \<and> co_traffic_class c = t
    \<and> oc_packets (co_counters c) = (\<Sum>p\<leftarrow>[0..<n]. cv_packets (counter_at m p key))
    \<and> oc_bytes (co_counters c) = (\<Sum>p\<leftarrow>[0..<n]. cv_bytes (counter_at m p key))"
  using assms read_aggregate_quiet
  by (fastforce simp: read_class_def port_bind_Inr_conv port_return_def)

lemma quiet_reads [simp]:
  "snd (read_aggregate (quiet_port n) key m) = m" "snd (read_class (quiet_port n) key t m) = m"
  by (simp_all add: read_class_def read_aggregate_def port_bind_def quiet_port_def port_lift_def port_return_def
      split: sum.split)

lemma quiet_bind_Inr:
  "snd (p m) = m \<Longrightarrow> port_bind p f m = (Inr b, u) \<longleftrightarrow> (\<exists>a. p m = (Inr a, m) \<and> f a m = (Inr b, u))"
  by (auto simp: port_bind_def split: prod.splits sum.splits)

lemma read_hook_class_order:
  assumes "read_hook rd g i raw role s = (Inr h, t)"
  shows "ho_role h = role \<and> map_arr6 co_traffic_class (ho_classes h) = CLASS_ORDER"
  using assms
  by (auto simp: read_hook_def Let_def port_bind_Inr_conv port_return_def read_class_def CLASS_ORDER_def)

definition outcome_sum :: "(ObservationCounters \<Rightarrow> u64) \<Rightarrow> HookObservation \<Rightarrow> u64" where
  "outcome_sum f h = (\<Sum>c\<leftarrow>arr6_list (ho_classes h). f (co_counters c)) + f (ho_parse_errors h)"

lemma read_hook_conserved:
  assumes c: "conserved g i r m" and rd: "read_hook (quiet_port n) g i r role m = (Inr h, m')"
  shows "oc_packets (ho_total h) = outcome_sum oc_packets h" "oc_bytes (ho_total h) = outcome_sum oc_bytes h"
proof -
  let ?k = "observation_keys g i r"
  have dom: "?k ! j \<in> dom (hook_stats m)" if "j < 8" for j
    using c that nth_mem [of j ?k] by (auto simp: conserved_def observation_keys_def)
  have tl: "tl ?k = [?k ! 1, ?k ! 2, ?k ! 3, ?k ! 4, ?k ! 5, ?k ! 6, ?k ! 7]" and hd: "?k ! 0 = stats_key_total g i r"
    by (simp_all add: observation_keys_def)
  obtain c0 c1 c2 c3 c4 c5 c6 c7 where
    rds: "read_aggregate (quiet_port n) (?k ! 0) m = (Inr c0, m)"
    "read_class (quiet_port n) (?k ! 1) TcL2Broadcast m = (Inr c1, m)"
    "read_class (quiet_port n) (?k ! 2) TcIpv4Multicast m = (Inr c2, m)"
    "read_class (quiet_port n) (?k ! 3) TcIpv6Multicast m = (Inr c3, m)"
    "read_class (quiet_port n) (?k ! 4) TcOtherL2Multicast m = (Inr c4, m)"
    "read_class (quiet_port n) (?k ! 5) TcLinkLocalControl m = (Inr c5, m)"
    "read_class (quiet_port n) (?k ! 6) TcUnicastOrUnclassified m = (Inr c6, m)"
    "read_aggregate (quiet_port n) (?k ! 7) m = (Inr c7, m)" and
    h: "ho_total h = c0" "ho_classes h = Arr6 c1 c2 c3 c4 c5 c6" "ho_parse_errors h = c7"
    using rd unfolding read_hook_def Let_def
    by (simp only: quiet_bind_Inr quiet_reads port_return_apply prod.inject sum.inject)
      (elim exE conjE, rule that, assumption+, auto)
  have reads:
    "f c0 = (\<Sum>p\<leftarrow>[0..<n]. e (counter_at m p (?k ! 0)))" "f c7 = (\<Sum>p\<leftarrow>[0..<n]. e (counter_at m p (?k ! 7)))"
    "f (co_counters c1) = (\<Sum>p\<leftarrow>[0..<n]. e (counter_at m p (?k ! 1)))"
    "f (co_counters c2) = (\<Sum>p\<leftarrow>[0..<n]. e (counter_at m p (?k ! 2)))"
    "f (co_counters c3) = (\<Sum>p\<leftarrow>[0..<n]. e (counter_at m p (?k ! 3)))"
    "f (co_counters c4) = (\<Sum>p\<leftarrow>[0..<n]. e (counter_at m p (?k ! 4)))"
    "f (co_counters c5) = (\<Sum>p\<leftarrow>[0..<n]. e (counter_at m p (?k ! 5)))"
    "f (co_counters c6) = (\<Sum>p\<leftarrow>[0..<n]. e (counter_at m p (?k ! 6)))"
    if "f = oc_packets \<and> e = cv_packets \<or> f = oc_bytes \<and> e = cv_bytes"
    for f and e :: "CounterValue \<Rightarrow> u64"
    using that read_aggregate_quiet [OF rds(1) dom] read_aggregate_quiet [OF rds(8) dom]
      read_class_quiet [OF rds(2) dom] read_class_quiet [OF rds(3) dom] read_class_quiet [OF rds(4) dom]
      read_class_quiet [OF rds(5) dom] read_class_quiet [OF rds(6) dom] read_class_quiet [OF rds(7) dom]
    by auto
  have sum: "f c0 = outcome_sum f h"
    if fe: "f = oc_packets \<and> e = cv_packets \<or> f = oc_bytes \<and> e = cv_bytes"
    for f and e :: "CounterValue \<Rightarrow> u64"
  proof -
    have "e (counter_at m p (?k ! 0)) = (\<Sum>x\<leftarrow>tl ?k. e (counter_at m p x))" for p
      using c fe by (auto simp: conserved_def hd)
    then show ?thesis
      by (simp only: outcome_sum_def h reads [OF fe] tl list.map sum_list_simps arr6_list.simps
          sum_list_addf add.assoc add_0_right)
  qed
  show "oc_packets (ho_total h) = outcome_sum oc_packets h" "oc_bytes (ho_total h) = outcome_sum oc_bytes h"
    using sum h(1) by blast+
qed

text \<open>
  End to end: start from maps whose counters agree, let the programs process any packets, then
  read a hook while the data path is quiet. The observation user space gets keeps conservation (the
  total is the sum of the six classes and the parse errors) and has its classes in the fixed order.
\<close>

theorem quiet_read_conserves:
  assumes "conserved g i r m"
    and "read_hook (quiet_port ncpu) g i r role (foldl (packet_step lru) m events) = (Inr h, m')"
  shows "oc_packets (ho_total h) = outcome_sum oc_packets h \<and> oc_bytes (ho_total h) = outcome_sum oc_bytes h
    \<and> map_arr6 co_traffic_class (ho_classes h) = CLASS_ORDER"
  using read_hook_conserved [OF data_path.run_inv [OF assms(1)] assms(2)] read_hook_class_order [OF assms(2)]
  by simp

theorem quiet_read_conserves_witness:
  "let m = provisioned 1 2 1; z = \<lparr>oc_packets = 0, oc_bytes = 0\<rparr>;
       h = \<lparr>ho_role = ExternalXdpIngress, ho_total = z,
            ho_classes = map_arr6 (\<lambda>t. \<lparr>co_traffic_class = t, co_counters = z\<rparr>) CLASS_ORDER, ho_parse_errors = z\<rparr>
   in conserved 1 2 1 m \<and> read_hook (quiet_port 2) 1 2 1 ExternalXdpIngress m = (Inr h, m) \<and>
      oc_packets (ho_total h) = outcome_sum oc_packets h"
proof -
  let ?m = "provisioned 1 2 1" and ?z = "\<lparr>oc_packets = 0, oc_bytes = 0\<rparr>"
  let ?h = "\<lparr>ho_role = ExternalXdpIngress, ho_total = ?z,
            ho_classes = map_arr6 (\<lambda>t. \<lparr>co_traffic_class = t, co_counters = ?z\<rparr>) CLASS_ORDER, ho_parse_errors = ?z\<rparr>"
  have zero: "read_aggregate (quiet_port 2) k ?m = (Inr ?z, ?m)" if "k \<in> set (observation_keys 1 2 1)" for k
  proof -
    have "hook_stats ?m k = Some (\<lambda>cpu. \<lparr>cv_packets = 0, cv_bytes = 0\<rparr>)"
      using that by (simp add: provisioned_def map_of_map_restrict)
    then show ?thesis
      by (simp add: read_aggregate_def port_bind_def quiet_port_def port_lift_def aggregate_values_eq upt_rec)
  qed
  have 1: "read_hook (quiet_port 2) 1 2 1 ExternalXdpIngress ?m = (Inr ?h, ?m)"
    unfolding read_hook_def Let_def read_class_def
    by (simp add: port_bind_def zero observation_keys_def port_return_def CLASS_ORDER_def)
  then show ?thesis
    using quiet_read_conserves [OF conserved_provisioned, where events = "[]"] conserved_provisioned
    by (fastforce simp: Let_def)
qed

end
