(* ===== verification/Rate.thy ===== *)
theory Rate
  imports Observation
begin

text \<open>
  The rate history of one interface (\<open>l2-loop-core/src/rate.rs\<close>): cumulative counter samples in a
  ring of 64, the checks every new sample passes, and the three fixed rate windows (1, 10 and 60
  seconds) computed from them.
\<close>

section \<open>Samples\<close>

definition RATE_WINDOW_MS :: "u64 arr3" where [simp]: "RATE_WINDOW_MS = Arr3 1000 10000 60000"
definition RATE_HISTORY_CAPACITY :: nat where [simp]: "RATE_HISTORY_CAPACITY = 64"
definition RATE_SAMPLE_PERIOD_NS :: u64 where [simp]: "RATE_SAMPLE_PERIOD_NS = 1000000000"
definition RATE_STALE_AFTER_NS :: u64 where [simp]: "RATE_STALE_AFTER_NS = 3000000000"

record RateIdentity =
  ri_ifindex :: u32
  ri_generation :: u64

definition rate_identity_new :: "u32 \<Rightarrow> u64 \<Rightarrow> (DomainError, RateIdentity) result" where
  "rate_identity_new ifindex generation =
     (if ifindex = 0 then Inl (InvalidObservation ''ifindex must be non-zero'')
      else if generation = 0 then Inl (InvalidObservation ''interface generation must be non-zero'')
      else Inr \<lparr>ri_ifindex = ifindex, ri_generation = generation\<rparr>)"

definition rate_identity_validate :: "RateIdentity \<Rightarrow> (DomainError, unit) result" where
  "rate_identity_validate self = rbind (rate_identity_new (ri_ifindex self) (ri_generation self)) (\<lambda>_. Inr ())"

record RateSample =
  rs_identity :: RateIdentity
  rs_captured_at_monotonic_ns :: u64
  rs_captured_at_unix_ms :: u64
  rs_vlan_visibility :: VlanVisibility
  rs_hooks :: "HookObservation arr2"

definition validate_observation_hooks :: "HookObservation arr2 \<Rightarrow> (DomainError, unit) result" where
  "validate_observation_hooks hooks =
     (if ho_role (a2_0 hooks) \<noteq> ExternalXdpIngress \<or> ho_role (a2_1 hooks) \<noteq> PhysicalTcEgress
      then Inl (InvalidObservation ''rate samples must be ordered XDP ingress then TC egress'')
      else if list_ex (\<lambda>hook. list_ex (\<lambda>(actual, expected). co_traffic_class actual \<noteq> expected)
                        (zip (arr6_list (ho_classes hook)) (arr6_list CLASS_ORDER))) (arr2_list hooks)
      then Inl (InvalidObservation ''rate sample classes do not match the fixed class order'')
      else Inr ())"

definition rate_sample_new ::
  "RateIdentity \<Rightarrow> u64 \<Rightarrow> u64 \<Rightarrow> VlanVisibility \<Rightarrow> HookObservation arr2 \<Rightarrow> (DomainError, RateSample) result" where
  "rate_sample_new identity captured_at_monotonic_ns captured_at_unix_ms vlan_visibility hooks =
     rbind (rate_identity_validate identity) (\<lambda>_.
     rbind (validate_observation_hooks hooks) (\<lambda>_.
     Inr \<lparr>rs_identity = identity, rs_captured_at_monotonic_ns = captured_at_monotonic_ns,
          rs_captured_at_unix_ms = captured_at_unix_ms, rs_vlan_visibility = vlan_visibility, rs_hooks = hooks\<rparr>))"

datatype RateHistoryError = IdentityMismatch | ClockRegression | CounterRegression | CalculationFailed

section \<open>Windows\<close>

datatype RateWindowState = WarmingUp | Ready | Stale

record RateCounters =
  rc_packet_delta :: u64
  rc_byte_delta :: u64
  rc_packets_per_second :: u64
  rc_bytes_per_second :: u64

record SamplingStatus =
  ss_latest_success_at_unix_ms :: "u64 option"
  ss_last_error_code :: "string option"
  ss_consecutive_failures :: u32
  ss_sampling_paused :: bool

record ClassRate =
  cr_traffic_class :: TrafficClass
  cr_counters :: RateCounters

record HookRate =
  hr_role :: HookRole
  hr_total :: RateCounters
  hr_classes :: "ClassRate arr6"
  hr_parse_errors :: RateCounters

record DetailedRateWindow =
  dw_window_ms :: u64
  dw_state :: RateWindowState
  dw_coverage_ms :: u64
  dw_elapsed_ns :: "u64 option"
  dw_start_unix_ms :: "u64 option"
  dw_end_unix_ms :: "u64 option"
  dw_hooks :: "HookRate arr2 option"

definition detailed_warming :: "u64 \<Rightarrow> (DomainError, DetailedRateWindow) result" where
  "detailed_warming window_ms =
     (if \<not> List.member (arr3_list RATE_WINDOW_MS) window_ms
      then Inl (InvalidObservation ''rate window is not one of the fixed durations'')
      else Inr \<lparr>dw_window_ms = window_ms, dw_state = WarmingUp, dw_coverage_ms = 0, dw_elapsed_ns = None,
                dw_start_unix_ms = None, dw_end_unix_ms = None, dw_hooks = None\<rparr>)"

definition validate_evidence_shape ::
  "u64 \<Rightarrow> RateWindowState \<Rightarrow> u64 \<Rightarrow> u64 option \<Rightarrow> u64 option \<Rightarrow> u64 option \<Rightarrow> bool \<Rightarrow> (DomainError, unit) result" where
  "validate_evidence_shape window_ms state coverage_ms elapsed_ns start_unix_ms end_unix_ms has_rates =
     (if \<not> List.member (arr3_list RATE_WINDOW_MS) window_ms
      then Inl (InvalidObservation ''rate window is not one of the fixed durations'')
      else
        let evidence_is_complete = elapsed_ns \<noteq> None \<and> start_unix_ms \<noteq> None \<and> end_unix_ms \<noteq> None \<and> has_rates;
            evidence_is_absent = elapsed_ns = None \<and> start_unix_ms = None \<and> end_unix_ms = None \<and> \<not> has_rates
        in case state of
             Ready \<Rightarrow>
               if \<not> evidence_is_complete
               then Inl (InvalidObservation ''ready rate window requires complete rate evidence'')
               else if elapsed_ns = Some 0 \<or> unwrap_or elapsed_ns 0 < saturating_mul window_ms 1000000
                       \<or> coverage_ms < window_ms
               then Inl (InvalidObservation ''ready rate window does not cover its fixed duration'')
               else Inr ()
           | _ \<Rightarrow>
               if \<not> evidence_is_absent
               then Inl (InvalidObservation ''non-ready rate window must not contain rate evidence'')
               else Inr ())"

definition validate_hook_rates :: "HookRate arr2 \<Rightarrow> (DomainError, unit) result" where
  "validate_hook_rates hooks =
     (if hr_role (a2_0 hooks) \<noteq> ExternalXdpIngress \<or> hr_role (a2_1 hooks) \<noteq> PhysicalTcEgress
      then Inl (InvalidObservation ''rate hooks must be ordered XDP ingress then TC egress'')
      else if list_ex (\<lambda>hook. list_ex (\<lambda>(actual, expected). cr_traffic_class actual \<noteq> expected)
                        (zip (arr6_list (hr_classes hook)) (arr6_list CLASS_ORDER))) (arr2_list hooks)
      then Inl (InvalidObservation ''rate classes do not match the fixed class order'')
      else Inr ())"

definition detailed_validate :: "DetailedRateWindow \<Rightarrow> (DomainError, unit) result" where
  "detailed_validate self =
     rbind (validate_evidence_shape (dw_window_ms self) (dw_state self) (dw_coverage_ms self) (dw_elapsed_ns self)
              (dw_start_unix_ms self) (dw_end_unix_ms self) (dw_hooks self \<noteq> None)) (\<lambda>_.
     case dw_hooks self of
       Some hooks \<Rightarrow> rbind (validate_hook_rates hooks) (\<lambda>_. Inr ())
     | None \<Rightarrow> Inr ())"

record StatusRateWindow =
  sw_window_ms :: u64
  sw_state :: RateWindowState
  sw_coverage_ms :: u64
  sw_elapsed_ns :: "u64 option"
  sw_start_unix_ms :: "u64 option"
  sw_end_unix_ms :: "u64 option"
  sw_xdp_ingress :: "RateCounters option"
  sw_tc_egress :: "RateCounters option"

definition status_warming :: "u64 \<Rightarrow> (DomainError, StatusRateWindow) result" where
  "status_warming window_ms =
     (if \<not> List.member (arr3_list RATE_WINDOW_MS) window_ms
      then Inl (InvalidObservation ''rate window is not one of the fixed durations'')
      else Inr \<lparr>sw_window_ms = window_ms, sw_state = WarmingUp, sw_coverage_ms = 0, sw_elapsed_ns = None,
                sw_start_unix_ms = None, sw_end_unix_ms = None, sw_xdp_ingress = None, sw_tc_egress = None\<rparr>)"

definition status_validate :: "StatusRateWindow \<Rightarrow> (DomainError, unit) result" where
  "status_validate self =
     (let has_both_rates = sw_xdp_ingress self \<noteq> None \<and> sw_tc_egress self \<noteq> None;
          has_any_rate = sw_xdp_ingress self \<noteq> None \<or> sw_tc_egress self \<noteq> None
      in if has_any_rate \<and> \<not> has_both_rates
         then Inl (InvalidObservation ''status rate window must contain both hook rates or neither'')
         else validate_evidence_shape (sw_window_ms self) (sw_state self) (sw_coverage_ms self) (sw_elapsed_ns self)
                (sw_start_unix_ms self) (sw_end_unix_ms self) has_both_rates)"

definition warming_detailed_rate_windows :: "DetailedRateWindow arr3" where
  "warming_detailed_rate_windows =
     map_arr3 (\<lambda>window_ms. \<lparr>dw_window_ms = window_ms, dw_state = WarmingUp, dw_coverage_ms = 0, dw_elapsed_ns = None,
       dw_start_unix_ms = None, dw_end_unix_ms = None, dw_hooks = None\<rparr>) RATE_WINDOW_MS"

definition warming_status_rate_windows :: "StatusRateWindow arr3" where
  "warming_status_rate_windows =
     map_arr3 (\<lambda>window_ms. \<lparr>sw_window_ms = window_ms, sw_state = WarmingUp, sw_coverage_ms = 0, sw_elapsed_ns = None,
       sw_start_unix_ms = None, sw_end_unix_ms = None, sw_xdp_ingress = None, sw_tc_egress = None\<rparr>) RATE_WINDOW_MS"

definition validate_detailed_rate_windows :: "DetailedRateWindow arr3 \<Rightarrow> (DomainError, unit) result" where
  "validate_detailed_rate_windows windows =
     rfold (\<lambda>(window, expected_ms) _.
              if dw_window_ms window \<noteq> expected_ms
              then Inl (InvalidObservation ''rate windows do not match the fixed duration order'')
              else detailed_validate window)
       (zip (arr3_list windows) (arr3_list RATE_WINDOW_MS)) ()"

definition validate_status_rate_windows :: "StatusRateWindow arr3 \<Rightarrow> (DomainError, unit) result" where
  "validate_status_rate_windows windows =
     rfold (\<lambda>(window, expected_ms) _.
              if sw_window_ms window \<noteq> expected_ms
              then Inl (InvalidObservation ''status rate windows do not match the fixed duration order'')
              else status_validate window)
       (zip (arr3_list windows) (arr3_list RATE_WINDOW_MS)) ()"

section \<open>The history\<close>

record RateHistory =
  rh_identity :: RateIdentity
  rh_epoch_ns :: u64
  rh_latest_success_at_unix_ms :: "u64 option"
  rh_last_error_code :: "string option"
  rh_consecutive_failures :: u32
  rh_sampling_paused :: bool
  rh_samples :: "RateSample list"

definition rate_history_new :: "RateIdentity \<Rightarrow> u64 \<Rightarrow> (DomainError, RateHistory) result" where
  "rate_history_new identity epoch_ns =
     rbind (rate_identity_validate identity) (\<lambda>_.
     Inr \<lparr>rh_identity = identity, rh_epoch_ns = epoch_ns, rh_latest_success_at_unix_ms = None,
          rh_last_error_code = None, rh_consecutive_failures = 0, rh_sampling_paused = False, rh_samples = []\<rparr>)"

definition vd_back :: "'a list \<Rightarrow> 'a option" where
  "vd_back xs = (if xs = [] then None else Some (last xs))"

definition vd_front :: "'a list \<Rightarrow> 'a option" where
  "vd_front xs = (case xs of [] \<Rightarrow> None | x # _ \<Rightarrow> Some x)"

definition clear_at :: "u64 \<Rightarrow> RateHistory \<Rightarrow> RateHistory" where
  "clear_at epoch_ns h = h\<lparr>rh_samples := [], rh_epoch_ns := epoch_ns\<rparr>"

definition counters_are_monotonic :: "ObservationCounters \<Rightarrow> ObservationCounters \<Rightarrow> bool" where
  "counters_are_monotonic previous current \<longleftrightarrow>
     oc_packets previous \<le> oc_packets current \<and> oc_bytes previous \<le> oc_bytes current"

definition hooks_are_monotonic :: "HookObservation arr2 \<Rightarrow> HookObservation arr2 \<Rightarrow> bool" where
  "hooks_are_monotonic previous current \<longleftrightarrow>
     list_all (\<lambda>(before, after).
       counters_are_monotonic (ho_total before) (ho_total after) \<and>
       counters_are_monotonic (ho_parse_errors before) (ho_parse_errors after) \<and>
       list_all (\<lambda>(before, after).
         co_traffic_class before = co_traffic_class after \<and>
         counters_are_monotonic (co_counters before) (co_counters after))
         (zip (arr6_list (ho_classes before)) (arr6_list (ho_classes after))))
       (zip (arr2_list previous) (arr2_list current))"

definition push_sample :: "RateSample \<Rightarrow> RateSample list \<Rightarrow> RateSample list" where
  "push_sample sample samples =
     (let pushed = samples @ [sample]
      in if length pushed > RATE_HISTORY_CAPACITY then tl pushed else pushed)"

definition rate_insert :: "RateSample \<Rightarrow> RateHistory \<Rightarrow> (RateHistoryError, unit) result \<times> RateHistory" where
  "rate_insert sample h =
     (let sample_time = rs_captured_at_monotonic_ns sample; sample_unix_ms = rs_captured_at_unix_ms sample
      in if rs_identity sample \<noteq> rh_identity h then (Inl IdentityMismatch, clear_at sample_time h)
         else if sample_time < rh_epoch_ns h
              \<or> is_some_and (vd_back (rh_samples h)) (\<lambda>latest. sample_time \<le> rs_captured_at_monotonic_ns latest)
         then (Inl ClockRegression, clear_at sample_time h)
         else if is_some_and (vd_back (rh_samples h)) (\<lambda>latest. \<not> hooks_are_monotonic (rs_hooks latest) (rs_hooks sample))
         then (Inl CounterRegression, clear_at sample_time h)
         else (Inr (), h\<lparr>rh_samples := push_sample sample (rh_samples h),
                         rh_latest_success_at_unix_ms := Some sample_unix_ms,
                         rh_last_error_code := None, rh_consecutive_failures := 0\<rparr>))"

definition record_failure :: "string \<Rightarrow> RateHistory \<Rightarrow> RateHistory" where
  "record_failure err_code h =
     h\<lparr>rh_last_error_code := Some err_code,
       rh_consecutive_failures := saturating_add (rh_consecutive_failures h) 1\<rparr>"

definition record_transient_failure :: "string \<Rightarrow> RateHistory \<Rightarrow> RateHistory" where
  "record_transient_failure err_code h = record_failure err_code h"

definition record_identity_failure :: "u64 \<Rightarrow> string \<Rightarrow> RateHistory \<Rightarrow> RateHistory" where
  "record_identity_failure now_ns err_code h = record_failure err_code (clear_at now_ns h)"

definition record_rate_failure :: "u64 \<Rightarrow> string \<Rightarrow> RateHistory \<Rightarrow> RateHistory" where
  "record_rate_failure now_ns err_code h = record_failure err_code (clear_at now_ns h)"

definition rate_pause :: "u64 \<Rightarrow> string \<Rightarrow> RateHistory \<Rightarrow> RateHistory" where
  "rate_pause now_ns err_code h =
     (clear_at now_ns h)\<lparr>rh_last_error_code := Some err_code, rh_sampling_paused := True\<rparr>"

definition sampling_status :: "RateHistory \<Rightarrow> SamplingStatus" where
  "sampling_status h =
     \<lparr>ss_latest_success_at_unix_ms = rh_latest_success_at_unix_ms h, ss_last_error_code = rh_last_error_code h,
      ss_consecutive_failures = rh_consecutive_failures h, ss_sampling_paused = rh_sampling_paused h\<rparr>"

definition validate_current :: "RateSample \<Rightarrow> RateHistory \<Rightarrow> (RateHistoryError, unit) result \<times> RateHistory" where
  "validate_current current h =
     (let current_time = rs_captured_at_monotonic_ns current
      in if rs_identity current \<noteq> rh_identity h then (Inl IdentityMismatch, clear_at current_time h)
         else if current_time < rh_epoch_ns h
              \<or> is_some_and (vd_back (rh_samples h)) (\<lambda>latest. current_time < rs_captured_at_monotonic_ns latest)
         then (Inl ClockRegression, clear_at current_time h)
         else if is_some_and (vd_back (rh_samples h)) (\<lambda>latest. \<not> hooks_are_monotonic (rs_hooks latest) (rs_hooks current))
         then (Inl CounterRegression, clear_at current_time h)
         else (Inr (), h))"

section \<open>Rate calculation\<close>

definition calculate_rate :: "u64 \<Rightarrow> u64 \<Rightarrow> (RateHistoryError, u64) result" where
  "calculate_rate delta elapsed_ns =
     rbind (ok_or CalculationFailed (checked_mul (ucast delta :: u128) (ucast RATE_SAMPLE_PERIOD_NS))) (\<lambda>numerator.
     rbind (ok_or CalculationFailed (checked_div numerator (ucast elapsed_ns))) (\<lambda>rate.
     ok_or CalculationFailed (try_from_word rate)))"

definition calculate_rate_counters ::
  "ObservationCounters \<Rightarrow> ObservationCounters \<Rightarrow> u64 \<Rightarrow> (RateHistoryError, RateCounters) result" where
  "calculate_rate_counters start end elapsed_ns =
     (if elapsed_ns = 0 then Inl CalculationFailed
      else
        rbind (ok_or CounterRegression (checked_sub (oc_packets end) (oc_packets start))) (\<lambda>packet_delta.
        rbind (ok_or CounterRegression (checked_sub (oc_bytes end) (oc_bytes start))) (\<lambda>byte_delta.
        rbind (calculate_rate packet_delta elapsed_ns) (\<lambda>packets_per_second.
        rbind (calculate_rate byte_delta elapsed_ns) (\<lambda>bytes_per_second.
        Inr \<lparr>rc_packet_delta = packet_delta, rc_byte_delta = byte_delta,
             rc_packets_per_second = packets_per_second, rc_bytes_per_second = bytes_per_second\<rparr>)))))"

definition calculate_class_rate ::
  "ClassObservation \<Rightarrow> ClassObservation \<Rightarrow> u64 \<Rightarrow> (RateHistoryError, ClassRate) result" where
  "calculate_class_rate start end elapsed_ns =
     (if co_traffic_class start \<noteq> co_traffic_class end then Inl CalculationFailed
      else rbind (calculate_rate_counters (co_counters start) (co_counters end) elapsed_ns) (\<lambda>counters.
           Inr \<lparr>cr_traffic_class = co_traffic_class end, cr_counters = counters\<rparr>))"

definition calculate_class_rates ::
  "ClassObservation arr6 \<Rightarrow> ClassObservation arr6 \<Rightarrow> u64 \<Rightarrow> (RateHistoryError, ClassRate arr6) result" where
  "calculate_class_rates start end elapsed_ns =
     rbind (calculate_class_rate (a6_0 start) (a6_0 end) elapsed_ns) (\<lambda>c0.
     rbind (calculate_class_rate (a6_1 start) (a6_1 end) elapsed_ns) (\<lambda>c1.
     rbind (calculate_class_rate (a6_2 start) (a6_2 end) elapsed_ns) (\<lambda>c2.
     rbind (calculate_class_rate (a6_3 start) (a6_3 end) elapsed_ns) (\<lambda>c3.
     rbind (calculate_class_rate (a6_4 start) (a6_4 end) elapsed_ns) (\<lambda>c4.
     rbind (calculate_class_rate (a6_5 start) (a6_5 end) elapsed_ns) (\<lambda>c5.
     Inr (Arr6 c0 c1 c2 c3 c4 c5)))))))"

definition calculate_hook_rate ::
  "HookObservation \<Rightarrow> HookObservation \<Rightarrow> u64 \<Rightarrow> (RateHistoryError, HookRate) result" where
  "calculate_hook_rate start end elapsed_ns =
     (if ho_role start \<noteq> ho_role end then Inl CalculationFailed
      else
        rbind (calculate_rate_counters (ho_total start) (ho_total end) elapsed_ns) (\<lambda>total.
        rbind (calculate_class_rates (ho_classes start) (ho_classes end) elapsed_ns) (\<lambda>classes.
        rbind (calculate_rate_counters (ho_parse_errors start) (ho_parse_errors end) elapsed_ns) (\<lambda>parse_errors.
        Inr \<lparr>hr_role = ho_role end, hr_total = total, hr_classes = classes, hr_parse_errors = parse_errors\<rparr>))))"

definition calculate_hook_rates ::
  "HookObservation arr2 \<Rightarrow> HookObservation arr2 \<Rightarrow> u64 \<Rightarrow> (RateHistoryError, HookRate arr2) result" where
  "calculate_hook_rates start end elapsed_ns =
     rbind (calculate_hook_rate (a2_0 start) (a2_0 end) elapsed_ns) (\<lambda>xdp.
     rbind (calculate_hook_rate (a2_1 start) (a2_1 end) elapsed_ns) (\<lambda>tc.
     Inr (Arr2 xdp tc)))"

datatype CalculatedRateWindow =
    CalcWarming u64 u64
  | CalcStale u64 u64
  | CalcReady u64 u64 u64 u64 u64 "HookRate arr2"

definition coverage_ms :: "RateHistory \<Rightarrow> (RateHistoryError, u64) result" where
  "coverage_ms h =
     (case (vd_front (rh_samples h), vd_back (rh_samples h)) of
        (Some first, Some latest) \<Rightarrow>
          ok_or CalculationFailed
            (map_option (\<lambda>coverage_ns. coverage_ns div 1000000)
               (checked_sub (rs_captured_at_monotonic_ns latest) (rs_captured_at_monotonic_ns first)))
      | _ \<Rightarrow> Inr 0)"

definition calculate_window :: "u64 \<Rightarrow> u64 \<Rightarrow> RateHistory \<Rightarrow> (RateHistoryError, CalculatedRateWindow) result" where
  "calculate_window window_ms coverage h =
     (case vd_back (rh_samples h) of
        None \<Rightarrow> Inr (CalcWarming window_ms coverage)
      | Some latest \<Rightarrow>
     rbind (ok_or CalculationFailed (checked_mul window_ms 1000000)) (\<lambda>window_ns.
     (case checked_sub (rs_captured_at_monotonic_ns latest) window_ns of
        None \<Rightarrow> Inr (CalcWarming window_ms coverage)
      | Some target_ns \<Rightarrow>
     (case find (\<lambda>sample. rs_captured_at_monotonic_ns sample \<le> target_ns) (rev (rh_samples h)) of
        None \<Rightarrow> Inr (CalcWarming window_ms coverage)
      | Some start \<Rightarrow>
     rbind (ok_or CalculationFailed
              (checked_sub (rs_captured_at_monotonic_ns latest) (rs_captured_at_monotonic_ns start))) (\<lambda>elapsed_ns.
     if elapsed_ns < window_ns \<or> elapsed_ns = 0 then Inr (CalcWarming window_ms coverage)
     else
       rbind (calculate_hook_rates (rs_hooks start) (rs_hooks latest) elapsed_ns) (\<lambda>hooks.
       Inr (CalcReady window_ms coverage elapsed_ns (rs_captured_at_unix_ms start) (rs_captured_at_unix_ms latest) hooks)))))))"

definition is_stale :: "u64 \<Rightarrow> RateHistory \<Rightarrow> (RateHistoryError, bool) result" where
  "is_stale now_ns h =
     (if rh_sampling_paused h then Inr True
      else
        let freshness_reference = (case vd_back (rh_samples h) of
                                     None \<Rightarrow> rh_epoch_ns h
                                   | Some latest \<Rightarrow> rs_captured_at_monotonic_ns latest)
        in rbind (ok_or ClockRegression (checked_sub now_ns freshness_reference)) (\<lambda>age_ns.
           Inr (RATE_STALE_AFTER_NS < age_ns)))"

definition calculate_windows :: "u64 \<Rightarrow> RateHistory \<Rightarrow> (RateHistoryError, CalculatedRateWindow arr3) result" where
  "calculate_windows now_ns h =
     rbind (coverage_ms h) (\<lambda>coverage.
     rbind (is_stale now_ns h) (\<lambda>stale.
     if stale then Inr (map_arr3 (\<lambda>window_ms. CalcStale window_ms coverage) RATE_WINDOW_MS)
     else
       rbind (calculate_window (a3_0 RATE_WINDOW_MS) coverage h) (\<lambda>w0.
       rbind (calculate_window (a3_1 RATE_WINDOW_MS) coverage h) (\<lambda>w1.
       rbind (calculate_window (a3_2 RATE_WINDOW_MS) coverage h) (\<lambda>w2.
       Inr (Arr3 w0 w1 w2))))))"

fun into_detailed :: "CalculatedRateWindow \<Rightarrow> DetailedRateWindow" where
  "into_detailed (CalcWarming window_ms coverage) =
     \<lparr>dw_window_ms = window_ms, dw_state = WarmingUp, dw_coverage_ms = coverage, dw_elapsed_ns = None,
      dw_start_unix_ms = None, dw_end_unix_ms = None, dw_hooks = None\<rparr>"
| "into_detailed (CalcStale window_ms coverage) =
     \<lparr>dw_window_ms = window_ms, dw_state = Stale, dw_coverage_ms = coverage, dw_elapsed_ns = None,
      dw_start_unix_ms = None, dw_end_unix_ms = None, dw_hooks = None\<rparr>"
| "into_detailed (CalcReady window_ms coverage elapsed_ns start_unix_ms end_unix_ms hooks) =
     \<lparr>dw_window_ms = window_ms, dw_state = Ready, dw_coverage_ms = coverage, dw_elapsed_ns = Some elapsed_ns,
      dw_start_unix_ms = Some start_unix_ms, dw_end_unix_ms = Some end_unix_ms, dw_hooks = Some hooks\<rparr>"

fun into_status :: "CalculatedRateWindow \<Rightarrow> StatusRateWindow" where
  "into_status (CalcWarming window_ms coverage) =
     \<lparr>sw_window_ms = window_ms, sw_state = WarmingUp, sw_coverage_ms = coverage, sw_elapsed_ns = None,
      sw_start_unix_ms = None, sw_end_unix_ms = None, sw_xdp_ingress = None, sw_tc_egress = None\<rparr>"
| "into_status (CalcStale window_ms coverage) =
     \<lparr>sw_window_ms = window_ms, sw_state = Stale, sw_coverage_ms = coverage, sw_elapsed_ns = None,
      sw_start_unix_ms = None, sw_end_unix_ms = None, sw_xdp_ingress = None, sw_tc_egress = None\<rparr>"
| "into_status (CalcReady window_ms coverage elapsed_ns start_unix_ms end_unix_ms hooks) =
     \<lparr>sw_window_ms = window_ms, sw_state = Ready, sw_coverage_ms = coverage, sw_elapsed_ns = Some elapsed_ns,
      sw_start_unix_ms = Some start_unix_ms, sw_end_unix_ms = Some end_unix_ms,
      sw_xdp_ingress = Some (hr_total (a2_0 hooks)), sw_tc_egress = Some (hr_total (a2_1 hooks))\<rparr>"

definition detailed_windows :: "u64 \<Rightarrow> RateHistory \<Rightarrow> (RateHistoryError, DetailedRateWindow arr3) result" where
  "detailed_windows now_ns h =
     rbind (calculate_windows now_ns h) (\<lambda>windows. Inr (map_arr3 into_detailed windows))"

definition status_windows :: "u64 \<Rightarrow> RateHistory \<Rightarrow> (RateHistoryError, StatusRateWindow arr3) result" where
  "status_windows now_ns h =
     rbind (calculate_windows now_ns h) (\<lambda>windows. Inr (map_arr3 into_status windows))"

section \<open>Well-formed samples and the history invariant\<close>

definition identity_valid :: "RateIdentity \<Rightarrow> bool" where
  "identity_valid i \<longleftrightarrow> ri_ifindex i \<noteq> 0 \<and> ri_generation i \<noteq> 0"

definition hooks_valid :: "HookObservation arr2 \<Rightarrow> bool" where
  "hooks_valid hooks \<longleftrightarrow>
     ho_role (a2_0 hooks) = ExternalXdpIngress \<and> ho_role (a2_1 hooks) = PhysicalTcEgress \<and>
     map_arr6 co_traffic_class (ho_classes (a2_0 hooks)) = CLASS_ORDER \<and>
     map_arr6 co_traffic_class (ho_classes (a2_1 hooks)) = CLASS_ORDER"

lemma identity_validate_Inr [simp]: "rate_identity_validate i = Inr u \<longleftrightarrow> identity_valid i"
  by (auto simp: rate_identity_validate_def rate_identity_new_def identity_valid_def)

lemma class_order_zip:
  "list_ex (\<lambda>(actual, expected). f actual \<noteq> expected) (zip (arr6_list cs) (arr6_list CLASS_ORDER)) \<longleftrightarrow>
     map_arr6 f cs \<noteq> CLASS_ORDER"
  by (cases cs) (auto simp: CLASS_ORDER_def)

lemma observation_hooks_Inr [simp]: "validate_observation_hooks hooks = Inr u \<longleftrightarrow> hooks_valid hooks"
  by (cases hooks) (auto simp: validate_observation_hooks_def hooks_valid_def class_order_zip)

abbreviation at_ns :: "RateSample \<Rightarrow> u64" where
  "at_ns \<equiv> rs_captured_at_monotonic_ns"

definition sample_after :: "RateSample \<Rightarrow> RateSample \<Rightarrow> bool" where
  "sample_after a b \<longleftrightarrow> at_ns a < at_ns b \<and> hooks_are_monotonic (rs_hooks a) (rs_hooks b)"

definition rate_inv :: "RateHistory \<Rightarrow> bool" where
  "rate_inv h \<longleftrightarrow>
     identity_valid (rh_identity h) \<and> length (rh_samples h) \<le> RATE_HISTORY_CAPACITY \<and>
     list_all (\<lambda>s. rs_identity s = rh_identity h \<and> hooks_valid (rs_hooks s) \<and> rh_epoch_ns h \<le> at_ns s) (rh_samples h) \<and>
     sorted_wrt sample_after (rh_samples h)"

lemma arr2_list_nth: "arr2_list x = [a2_0 x, a2_1 x]" by (cases x) simp
lemma arr6_list_nth: "arr6_list x = [a6_0 x, a6_1 x, a6_2 x, a6_3 x, a6_4 x, a6_5 x]" by (cases x) simp

definition class_le :: "ClassObservation \<Rightarrow> ClassObservation \<Rightarrow> bool" where
  "class_le b a \<longleftrightarrow> co_traffic_class b = co_traffic_class a \<and> counters_are_monotonic (co_counters b) (co_counters a)"

definition hook_le :: "HookObservation \<Rightarrow> HookObservation \<Rightarrow> bool" where
  "hook_le b a \<longleftrightarrow> counters_are_monotonic (ho_total b) (ho_total a) \<and>
     counters_are_monotonic (ho_parse_errors b) (ho_parse_errors a) \<and>
     class_le (a6_0 (ho_classes b)) (a6_0 (ho_classes a)) \<and> class_le (a6_1 (ho_classes b)) (a6_1 (ho_classes a)) \<and>
     class_le (a6_2 (ho_classes b)) (a6_2 (ho_classes a)) \<and> class_le (a6_3 (ho_classes b)) (a6_3 (ho_classes a)) \<and>
     class_le (a6_4 (ho_classes b)) (a6_4 (ho_classes a)) \<and> class_le (a6_5 (ho_classes b)) (a6_5 (ho_classes a))"

lemma hooks_are_monotonic_iff:
  "hooks_are_monotonic p c \<longleftrightarrow> hook_le (a2_0 p) (a2_0 c) \<and> hook_le (a2_1 p) (a2_1 c)"
  by (auto simp: hooks_are_monotonic_def arr2_list_nth arr6_list_nth hook_le_def class_le_def)

lemma counters_monotonic_trans:
  "counters_are_monotonic a b \<Longrightarrow> counters_are_monotonic b c \<Longrightarrow> counters_are_monotonic a c"
  by (auto simp: counters_are_monotonic_def)

lemma class_le_trans: "class_le a b \<Longrightarrow> class_le b c \<Longrightarrow> class_le a c"
  by (auto simp: class_le_def intro: counters_monotonic_trans)

lemma hook_le_trans: "hook_le a b \<Longrightarrow> hook_le b c \<Longrightarrow> hook_le a c"
  unfolding hook_le_def by (intro conjI; elim conjE; rule counters_monotonic_trans class_le_trans; assumption)

lemma sample_after_trans: "sample_after a b \<Longrightarrow> sample_after b c \<Longrightarrow> sample_after a c"
  by (auto simp: sample_after_def hooks_are_monotonic_iff intro: hook_le_trans)

interpretation sample_ring: bounded_ring RATE_HISTORY_CAPACITY push_sample
  by unfold_locales (auto simp: push_sample_def tl_append split: list.split)

lemma vd_back_Some [simp]: "vd_back xs = Some x \<longleftrightarrow> xs \<noteq> [] \<and> x = last xs"
  by (auto simp: vd_back_def)

lemma vd_back_None [simp]: "vd_back xs = None \<longleftrightarrow> xs = []"
  by (simp add: vd_back_def)

lemma rate_inv_clear [simp]: "rate_inv (clear_at t h) \<longleftrightarrow> identity_valid (rh_identity h)"
  by (simp add: rate_inv_def clear_at_def)

lemma rate_inv_cong:
  "rh_identity g = rh_identity h \<Longrightarrow> rh_samples g = rh_samples h \<Longrightarrow> rh_epoch_ns g = rh_epoch_ns h \<Longrightarrow>
     rate_inv g = rate_inv h"
  by (simp add: rate_inv_def)

lemma rate_inv_insert:
  assumes "rate_inv h" and "hooks_valid (rs_hooks s)"
  shows "rate_inv (snd (rate_insert s h))"
proof (cases "fst (rate_insert s h)")
  case (Inl e)
  then have "snd (rate_insert s h) = clear_at (at_ns s) h"
    by (auto simp: rate_insert_def Let_def split: if_splits)
  with assms show ?thesis by (simp add: rate_inv_def [of h])
next
  case (Inr u)
  then have ok: "rs_identity s = rh_identity h" "rh_epoch_ns h \<le> at_ns s"
      "rh_samples h \<noteq> [] \<Longrightarrow> sample_after (last (rh_samples h)) s"
      "rh_samples (snd (rate_insert s h)) = push_sample s (rh_samples h)"
      "rh_identity (snd (rate_insert s h)) = rh_identity h" "rh_epoch_ns (snd (rate_insert s h)) = rh_epoch_ns h"
    by (auto simp: rate_insert_def Let_def is_some_and_conv sample_after_def split: if_splits)
  have after: "sample_after y s" if "y \<in> set (rh_samples h)" for y
  proof (cases "y = last (rh_samples h)")
    case True
    with that have "rh_samples h \<noteq> []" by auto
    with True ok(3) show ?thesis by simp
  next
    case False
    with that obtain ys where ys: "rh_samples h = ys @ [last (rh_samples h)]" "y \<in> set ys"
      by (metis UnE append_butlast_last_id empty_iff list.set(1) set_append set_ConsD)
    with assms(1) have "sample_after y (last (rh_samples h))"
      unfolding rate_inv_def by (metis sorted_wrt_append list.set_intros(1))
    moreover have "rh_samples h \<noteq> []" using that by auto
    ultimately show ?thesis using ok(3) sample_after_trans by blast
  qed
  have len: "length (rh_samples h) \<le> RATE_HISTORY_CAPACITY" and srt: "sorted_wrt sample_after (rh_samples h)"
    using assms(1) by (simp_all add: rate_inv_def)
  note ring = sample_ring.push_bounded [OF len, of s] sample_ring.push_set [OF len, of s]
  have "sorted_wrt sample_after (push_sample s (rh_samples h))"
    by (rule sample_ring.push_sorted_wrt [OF len srt]) (rule after)
  with ring assms show ?thesis
    unfolding rate_inv_def ok by (auto simp: list_all_iff ok)
qed

lemma rate_inv_validate_current:
  assumes "rate_inv h"
  shows "rate_inv (snd (validate_current s h))"
proof -
  have "snd (validate_current s h) = h \<or> snd (validate_current s h) = clear_at (at_ns s) h"
    by (auto simp: validate_current_def Let_def)
  with assms show ?thesis by (auto simp: rate_inv_def [of h])
qed

text \<open>Every operation of the history, as one machine; samples come only through \<open>RateSample::new\<close>.\<close>

datatype RateOp =
    OpInsert RateIdentity u64 u64 VlanVisibility "HookObservation arr2"
  | OpValidateCurrent RateIdentity u64 u64 VlanVisibility "HookObservation arr2"
  | OpTransientFailure string
  | OpIdentityFailure u64 string
  | OpRateFailure u64 string
  | OpPause u64 string
  | OpClearAt u64

fun rate_step :: "RateHistory \<Rightarrow> RateOp \<Rightarrow> RateHistory" where
  "rate_step h (OpInsert i t u v hooks) =
     (case rate_sample_new i t u v hooks of Inl e \<Rightarrow> h | Inr s \<Rightarrow> snd (rate_insert s h))"
| "rate_step h (OpValidateCurrent i t u v hooks) =
     (case rate_sample_new i t u v hooks of Inl e \<Rightarrow> h | Inr s \<Rightarrow> snd (validate_current s h))"
| "rate_step h (OpTransientFailure code) = record_transient_failure code h"
| "rate_step h (OpIdentityFailure now code) = record_identity_failure now code h"
| "rate_step h (OpRateFailure now code) = record_rate_failure now code h"
| "rate_step h (OpPause now code) = rate_pause now code h"
| "rate_step h (OpClearAt now) = clear_at now h"

lemma rate_sample_new_Inr:
  "rate_sample_new i t u v hooks = Inr s \<longleftrightarrow> identity_valid i \<and> hooks_valid hooks \<and>
     s = \<lparr>rs_identity = i, rs_captured_at_monotonic_ns = t, rs_captured_at_unix_ms = u,
          rs_vlan_visibility = v, rs_hooks = hooks\<rparr>"
  by (auto simp: rate_sample_new_def rbind_Inr_conv)

lemma rate_step_inv: "rate_inv h \<Longrightarrow> rate_inv (rate_step h op)"
proof (cases op)
  case (OpInsert i t u v hooks)
  then show "rate_inv h \<Longrightarrow> ?thesis"
    by (auto simp: rate_sample_new_Inr rate_inv_insert split: sum.split)
next
  case (OpValidateCurrent i t u v hooks)
  then show "rate_inv h \<Longrightarrow> ?thesis"
    by (auto simp: rate_inv_validate_current split: sum.split)
qed (auto simp: record_transient_failure_def record_identity_failure_def record_rate_failure_def rate_pause_def
      record_failure_def rate_inv_def clear_at_def)

interpretation rate_machine: machine rate_step rate_inv
  by unfold_locales (rule rate_step_inv)

lemma rate_inv_new: "rate_history_new i t = Inr h \<Longrightarrow> rate_inv h"
  by (auto simp: rate_history_new_def rbind_Inr_conv rate_inv_def)

section \<open>Exact rates\<close>

lemma calculate_rate_eq:
  assumes "10 ^ 9 \<le> unat elapsed"
  shows "\<exists>r. calculate_rate delta elapsed = Inr r \<and> unat r = unat delta * 10 ^ 9 div unat elapsed"
proof -
  let ?p = "ucast RATE_SAMPLE_PERIOD_NS :: u128"
  have p: "unat ?p = 10 ^ 9" by simp
  then have mul: "checked_mul (ucast delta) ?p = Some (ucast delta * ?p)"
    by (intro checked_mul_u128_u64) simp
  then have n: "unat (ucast delta * ?p) = unat delta * 10 ^ 9"
    using checked_mul_unat p by fastforce
  have e: "(ucast elapsed :: u128) \<noteq> 0"
    using assms unat_u128_of_u64 [of elapsed] by (metis not_numeral_le_zero unat_0 power_eq_0_iff zero_neq_numeral le_zero_eq)
  let ?q = "(ucast delta * ?p) div (ucast elapsed)"
  have q: "unat ?q = unat delta * 10 ^ 9 div unat elapsed"
    by (simp only: unat_div n unat_u128_of_u64)
  have "unat delta * 10 ^ 9 div unat elapsed \<le> unat delta * 10 ^ 9 div 10 ^ 9"
    using assms by (intro div_le_mono2) auto
  also have "\<dots> < 2 ^ 64" using unat_lt_64 [of delta] by simp
  finally have "unat ?q < 2 ^ 64" using q by simp
  then have t: "try_from_word ?q = Some (ucast ?q :: u64)"
    by (simp add: try_from_word_def)
  have "calculate_rate delta elapsed = Inr (ucast ?q)"
    unfolding calculate_rate_def mul checked_div_def using e t by simp
  then show ?thesis using try_from_word_unat [OF t] q by auto
qed

definition exact_rate :: "u64 \<Rightarrow> u64 \<Rightarrow> u64" where
  "exact_rate delta elapsed = of_nat (unat delta * 10 ^ 9 div unat elapsed)"

lemma calculate_rate_exact:
  assumes "10 ^ 9 \<le> unat elapsed"
  shows "calculate_rate delta elapsed = Inr (exact_rate delta elapsed)"
proof -
  obtain r where r: "calculate_rate delta elapsed = Inr r" "unat r = unat delta * 10 ^ 9 div unat elapsed"
    using calculate_rate_eq [OF assms] by blast
  have "r = of_nat (unat r)" by simp
  with r show ?thesis by (simp only: exact_rate_def)
qed

lemma unat_exact_rate: "10 ^ 9 \<le> unat elapsed \<Longrightarrow> unat (exact_rate delta elapsed) = unat delta * 10 ^ 9 div unat elapsed"
  using calculate_rate_eq [of elapsed delta] calculate_rate_exact [of elapsed delta] by auto

text \<open>The rates of a window: exact counter differences, and their floor per second.\<close>

definition exact_counters :: "ObservationCounters \<Rightarrow> ObservationCounters \<Rightarrow> u64 \<Rightarrow> RateCounters" where
  "exact_counters s e elapsed =
     \<lparr>rc_packet_delta = oc_packets e - oc_packets s, rc_byte_delta = oc_bytes e - oc_bytes s,
      rc_packets_per_second = exact_rate (oc_packets e - oc_packets s) elapsed,
      rc_bytes_per_second = exact_rate (oc_bytes e - oc_bytes s) elapsed\<rparr>"

definition exact_class :: "ClassObservation \<Rightarrow> ClassObservation \<Rightarrow> u64 \<Rightarrow> ClassRate" where
  "exact_class s e elapsed =
     \<lparr>cr_traffic_class = co_traffic_class e, cr_counters = exact_counters (co_counters s) (co_counters e) elapsed\<rparr>"

definition exact_hook :: "HookObservation \<Rightarrow> HookObservation \<Rightarrow> u64 \<Rightarrow> HookRate" where
  "exact_hook s e elapsed =
     \<lparr>hr_role = ho_role e, hr_total = exact_counters (ho_total s) (ho_total e) elapsed,
      hr_classes =
        (let f = (\<lambda>sel. exact_class (sel (ho_classes s)) (sel (ho_classes e)) elapsed)
         in Arr6 (f a6_0) (f a6_1) (f a6_2) (f a6_3) (f a6_4) (f a6_5)),
      hr_parse_errors = exact_counters (ho_parse_errors s) (ho_parse_errors e) elapsed\<rparr>"

definition exact_hooks :: "HookObservation arr2 \<Rightarrow> HookObservation arr2 \<Rightarrow> u64 \<Rightarrow> HookRate arr2" where
  "exact_hooks s e elapsed = Arr2 (exact_hook (a2_0 s) (a2_0 e) elapsed) (exact_hook (a2_1 s) (a2_1 e) elapsed)"

lemma calculate_counters_exact:
  assumes "10 ^ 9 \<le> unat elapsed" and "counters_are_monotonic s e"
  shows "calculate_rate_counters s e elapsed = Inr (exact_counters s e elapsed)"
proof -
  have "elapsed \<noteq> 0" using assms(1) by auto
  with assms show ?thesis
    by (simp add: calculate_rate_counters_def checked_sub_def counters_are_monotonic_def
        calculate_rate_exact exact_counters_def)
qed

lemma calculate_class_exact:
  "10 ^ 9 \<le> unat elapsed \<Longrightarrow> class_le s e \<Longrightarrow> calculate_class_rate s e elapsed = Inr (exact_class s e elapsed)"
  by (simp add: calculate_class_rate_def class_le_def calculate_counters_exact exact_class_def)

lemma calculate_hook_exact:
  "10 ^ 9 \<le> unat elapsed \<Longrightarrow> hook_le s e \<Longrightarrow> ho_role s = ho_role e \<Longrightarrow>
     calculate_hook_rate s e elapsed = Inr (exact_hook s e elapsed)"
  by (simp add: calculate_hook_rate_def calculate_class_rates_def hook_le_def calculate_counters_exact
      calculate_class_exact exact_hook_def Let_def)

lemma calculate_hooks_exact:
  "10 ^ 9 \<le> unat elapsed \<Longrightarrow> hooks_are_monotonic s e \<Longrightarrow> hooks_valid s \<Longrightarrow> hooks_valid e \<Longrightarrow>
     calculate_hook_rates s e elapsed = Inr (exact_hooks s e elapsed)"
  by (simp add: calculate_hook_rates_def hooks_are_monotonic_iff hooks_valid_def calculate_hook_exact exact_hooks_def)

section \<open>Windows of a history\<close>

text \<open>
  The specification of one window, in natural numbers: the newest sample that is at least one window
  older than the latest sample, if there is one.
\<close>

definition window_start :: "u64 \<Rightarrow> RateSample list \<Rightarrow> RateSample option" where
  "window_start window_ms samples =
     (if samples = [] then None
      else find (\<lambda>s. unat (at_ns s) + unat window_ms * 10 ^ 6 \<le> unat (at_ns (last samples))) (rev samples))"

definition covered_ms :: "RateSample list \<Rightarrow> u64" where
  "covered_ms samples = (if samples = [] then 0 else (at_ns (last samples) - at_ns (hd samples)) div 1000000)"

definition window_spec :: "u64 \<Rightarrow> RateSample list \<Rightarrow> CalculatedRateWindow" where
  "window_spec window_ms samples =
     (case window_start window_ms samples of
        None \<Rightarrow> CalcWarming window_ms (covered_ms samples)
      | Some start \<Rightarrow>
          let latest = last samples; elapsed = at_ns latest - at_ns start
          in CalcReady window_ms (covered_ms samples) elapsed (rs_captured_at_unix_ms start)
               (rs_captured_at_unix_ms latest) (exact_hooks (rs_hooks start) (rs_hooks latest) elapsed))"

lemma fixed_windows:
  "window_ms \<in> set_arr3 RATE_WINDOW_MS \<longleftrightarrow> window_ms = 1000 \<or> window_ms = 10000 \<or> window_ms = 60000"
  by auto

lemma sample_order:
  assumes "rate_inv h" and "s \<in> set (rh_samples h)"
  shows "s = last (rh_samples h) \<or> sample_after s (last (rh_samples h))"
    and "s = hd (rh_samples h) \<or> sample_after (hd (rh_samples h)) s"
proof -
  have srt: "sorted_wrt sample_after (rh_samples h)" using assms(1) by (simp add: rate_inv_def)
  show "s = last (rh_samples h) \<or> sample_after s (last (rh_samples h))"
    using srt assms(2) by (cases "rh_samples h" rule: rev_cases) (auto simp: sorted_wrt_append)
  show "s = hd (rh_samples h) \<or> sample_after (hd (rh_samples h)) s"
    using srt assms(2) by (cases "rh_samples h") auto
qed

lemma coverage_eq:
  assumes "rate_inv h"
  shows "coverage_ms h = Inr (covered_ms (rh_samples h))"
proof (cases "rh_samples h = []")
  case False
  have "at_ns (hd (rh_samples h)) \<le> at_ns (last (rh_samples h))"
    using sample_order(1) [OF assms, of "hd (rh_samples h)"] False by (auto simp: sample_after_def)
  with False show ?thesis
    by (auto simp: coverage_ms_def covered_ms_def vd_front_def vd_back_def checked_sub_def split: list.split)
qed (simp add: coverage_ms_def covered_ms_def vd_front_def)

lemma window_start_Some:
  assumes "window_start w xs = Some s"
  shows "s \<in> set xs" "unat (at_ns s) + unat w * 10 ^ 6 \<le> unat (at_ns (last xs))"
  using assms by (auto simp: window_start_def find_Some_iff split: if_splits) (metis nth_mem length_rev set_rev)

lemma window_start_None:
  "xs \<noteq> [] \<Longrightarrow> window_start w xs = None \<longleftrightarrow>
     (\<forall>s \<in> set xs. \<not> unat (at_ns s) + unat w * 10 ^ 6 \<le> unat (at_ns (last xs)))"
  by (auto simp: window_start_def find_None_iff)

lemma window_eq:
  assumes inv: "rate_inv h" and w: "window_ms \<in> set_arr3 RATE_WINDOW_MS"
  shows "calculate_window window_ms (covered_ms (rh_samples h)) h = Inr (window_spec window_ms (rh_samples h))"
proof (cases "rh_samples h = []")
  case True
  then show ?thesis by (simp add: calculate_window_def window_spec_def window_start_def vd_back_def)
next
  case False
  let ?l = "last (rh_samples h)" and ?w = "window_ms * 1000000"
  have mul: "checked_mul window_ms 1000000 = Some ?w" and uw: "unat ?w = unat window_ms * 10 ^ 6"
    and big: "10 ^ 9 \<le> unat ?w"
    using w unfolding fixed_windows by (auto simp: checked_mul_def)
  show ?thesis
  proof (cases "?w \<le> at_ns ?l")
    case short: False
    then have "window_start window_ms (rh_samples h) = None"
      using False uw by (auto simp: window_start_def find_None_iff word_le_nat_alt)
    then show ?thesis
      using False short mul by (simp add: calculate_window_def window_spec_def vd_back_def checked_sub_def)
  next
    case True
    have "unat (at_ns ?l - ?w) = unat (at_ns ?l) - unat ?w" using True by (rule unat_sub)
    then have cond: "(\<lambda>s. at_ns s \<le> at_ns ?l - ?w) = (\<lambda>s. unat (at_ns s) + unat window_ms * 10 ^ 6 \<le> unat (at_ns ?l))"
      using True uw by (auto simp: word_le_nat_alt fun_eq_iff)
    then have fnd: "find (\<lambda>s. at_ns s \<le> at_ns ?l - ?w) (rev (rh_samples h)) = window_start window_ms (rh_samples h)"
      using False by (simp add: window_start_def)
    show ?thesis
    proof (cases "window_start window_ms (rh_samples h)")
      case None
      with False True mul fnd show ?thesis
        by (simp add: calculate_window_def window_spec_def vd_back_def checked_sub_def)
    next
      case (Some s)
      note s = window_start_Some [OF Some]
      have le: "at_ns s \<le> at_ns ?l" using s(2) by (simp add: word_le_nat_alt)
      then have el: "unat (at_ns ?l - at_ns s) = unat (at_ns ?l) - unat (at_ns s)" by (rule unat_sub)
      have long: "?w \<le> at_ns ?l - at_ns s" using el s(2) uw by (simp add: word_le_nat_alt)
      then have e9: "10 ^ 9 \<le> unat (at_ns ?l - at_ns s)" using big by (simp add: word_le_nat_alt)
      then have nz: "at_ns ?l - at_ns s \<noteq> 0" by auto
      have "s \<noteq> ?l" using nz by auto
      then have mono: "hooks_are_monotonic (rs_hooks s) (rs_hooks ?l)"
        using sample_order(1) [OF inv s(1)] by (simp add: sample_after_def)
      have "hooks_valid (rs_hooks s)" "hooks_valid (rs_hooks ?l)"
        using inv s(1) False by (auto simp: rate_inv_def list_all_iff)
      note rates = calculate_hooks_exact [OF e9 mono this]
      show ?thesis
        using False True mul fnd Some le long nz rates
        by (simp add: calculate_window_def window_spec_def vd_back_def checked_sub_def Let_def not_less [symmetric])
    qed
  qed
qed

definition freshness_reference :: "RateHistory \<Rightarrow> u64" where
  "freshness_reference h = (if rh_samples h = [] then rh_epoch_ns h else at_ns (last (rh_samples h)))"

definition windows_spec :: "u64 \<Rightarrow> RateHistory \<Rightarrow> (RateHistoryError, CalculatedRateWindow arr3) result" where
  "windows_spec now h =
     (if \<not> rh_sampling_paused h \<and> now < freshness_reference h then Inl ClockRegression
      else if rh_sampling_paused h \<or> unat (freshness_reference h) + 3 * 10 ^ 9 < unat now
      then Inr (map_arr3 (\<lambda>w. CalcStale w (covered_ms (rh_samples h))) RATE_WINDOW_MS)
      else Inr (map_arr3 (\<lambda>w. window_spec w (rh_samples h)) RATE_WINDOW_MS))"

lemma is_stale_eq:
  "is_stale now h =
     (if rh_sampling_paused h then Inr True
      else if now < freshness_reference h then Inl ClockRegression
      else Inr (unat (freshness_reference h) + 3 * 10 ^ 9 < unat now))"
proof -
  have ref: "(case vd_back (rh_samples h) of None \<Rightarrow> rh_epoch_ns h | Some latest \<Rightarrow> at_ns latest) = freshness_reference h"
    by (simp add: vd_back_def freshness_reference_def)
  have "(RATE_STALE_AFTER_NS < now - freshness_reference h) = (unat (freshness_reference h) + 3 * 10 ^ 9 < unat now)"
    if "freshness_reference h \<le> now"
    using that unat_sub [OF that] by (auto simp: word_less_nat_alt word_le_nat_alt)
  then show ?thesis
    unfolding is_stale_def ref by (auto simp: checked_sub_def Let_def not_le not_less)
qed

lemma calculate_windows_eq:
  assumes "rate_inv h"
  shows "calculate_windows now h = windows_spec now h"
  using window_eq [OF assms]
  by (auto simp: calculate_windows_def coverage_eq [OF assms] is_stale_eq windows_spec_def)

lemma window_spec_valid:
  assumes inv: "rate_inv h" and w: "window_ms \<in> set_arr3 RATE_WINDOW_MS"
  shows "detailed_validate (into_detailed (window_spec window_ms (rh_samples h))) = Inr ()"
    and "status_validate (into_status (window_spec window_ms (rh_samples h))) = Inr ()"
proof -
  have member: "List.member (arr3_list RATE_WINDOW_MS) window_ms" using w by (auto)
  have sat: "unat (saturating_mul window_ms 1000000) = unat window_ms * 10 ^ 6"
    using w unfolding fixed_windows by (auto simp: saturating_mul_def)
  have "detailed_validate (into_detailed (window_spec window_ms (rh_samples h))) = Inr ()
      \<and> status_validate (into_status (window_spec window_ms (rh_samples h))) = Inr ()"
  proof (cases "window_start window_ms (rh_samples h)")
    case None
    then show ?thesis
      using member by (simp add: window_spec_def detailed_validate_def status_validate_def validate_evidence_shape_def)
  next
    case (Some s)
    let ?l = "last (rh_samples h)" and ?f = "hd (rh_samples h)"
    note s = window_start_Some [OF Some]
    have ne: "rh_samples h \<noteq> []" using s(1) by auto
    have fs: "unat (at_ns ?f) \<le> unat (at_ns s)"
      using sample_order(2) [OF inv s(1)] by (auto simp: sample_after_def word_less_nat_alt)
    have el: "unat (at_ns ?l - at_ns s) = unat (at_ns ?l) - unat (at_ns s)"
      "unat (at_ns ?l - at_ns ?f) = unat (at_ns ?l) - unat (at_ns ?f)"
      using s(2) fs by (intro unat_sub; simp add: word_le_nat_alt)+
    have long: "\<not> at_ns ?l - at_ns s < saturating_mul window_ms 1000000"
      using el s(2) by (simp add: word_less_nat_alt sat)
    have "unat window_ms \<le> (unat (at_ns ?l) - unat (at_ns ?f)) div 10 ^ 6"
      using s(2) fs by (simp add: less_eq_div_iff_mult_less_eq)
    then have cov: "\<not> covered_ms (rh_samples h) < window_ms"
      using ne el by (simp add: covered_ms_def word_less_nat_alt unat_div)
    have "window_ms \<noteq> 0" using w by auto
    then have nz: "at_ns ?l - at_ns s \<noteq> 0" using el s(2) by (auto simp: unat_eq_0)
    have "hooks_valid (rs_hooks ?l)" using inv ne by (auto simp: rate_inv_def list_all_iff)
    then have "validate_hook_rates (exact_hooks (rs_hooks s) (rs_hooks ?l) e) = Inr ()" for e
      by (cases "ho_classes (a2_0 (rs_hooks ?l))"; cases "ho_classes (a2_1 (rs_hooks ?l))")
        (auto simp: validate_hook_rates_def exact_hooks_def exact_hook_def exact_class_def class_order_zip hooks_valid_def)
    with member long cov nz Some show ?thesis
      by (simp add: window_spec_def detailed_validate_def status_validate_def validate_evidence_shape_def Let_def)
  qed
  then show "detailed_validate (into_detailed (window_spec window_ms (rh_samples h))) = Inr ()"
    "status_validate (into_status (window_spec window_ms (rh_samples h))) = Inr ()" by auto
qed

lemma stale_valid:
  assumes "window_ms \<in> set_arr3 RATE_WINDOW_MS"
  shows "detailed_validate (into_detailed (CalcStale window_ms c)) = Inr ()"
    and "status_validate (into_status (CalcStale window_ms c)) = Inr ()"
  using assms by (auto simp: detailed_validate_def status_validate_def validate_evidence_shape_def)

lemma window_ms_spec [simp]:
  "dw_window_ms (into_detailed (window_spec w xs)) = w" "sw_window_ms (into_status (window_spec w xs)) = w"
  by (simp_all add: window_spec_def Let_def split: option.split)

lemma windows_valid:
  assumes inv: "rate_inv h"
  shows "detailed_windows now h = Inr ws \<Longrightarrow> validate_detailed_rate_windows ws = Inr ()"
    and "status_windows now h = Inr vs \<Longrightarrow> validate_status_rate_windows vs = Inr ()"
  using window_spec_valid [OF inv] stale_valid
  by (auto simp: detailed_windows_def status_windows_def rbind_Inr_conv calculate_windows_eq [OF inv] windows_spec_def
      validate_detailed_rate_windows_def validate_status_rate_windows_def split: if_splits)

section \<open>The interface to the consumers of windows\<close>

text \<open>
  What the baseline and the detection engine rely on: a source of rate windows whose answers, when it
  gives one, pass the shared validation. The rate history provides it.
\<close>

locale window_source =
  fixes windows :: "u64 \<Rightarrow> 'h \<Rightarrow> (RateHistoryError, DetailedRateWindow arr3) result" and good :: "'h \<Rightarrow> bool"
  assumes windows_validate: "good h \<Longrightarrow> windows now h = Inr ws \<Longrightarrow> validate_detailed_rate_windows ws = Inr ()"
begin

lemma each_window:
  assumes "good h" and "windows now h = Inr ws"
  shows "detailed_validate (a3_0 ws) = Inr () \<and> dw_window_ms (a3_0 ws) = 1000"
    and "detailed_validate (a3_1 ws) = Inr () \<and> dw_window_ms (a3_1 ws) = 10000"
    and "detailed_validate (a3_2 ws) = Inr () \<and> dw_window_ms (a3_2 ws) = 60000"
  using windows_validate [OF assms]
  by (cases ws; auto simp: validate_detailed_rate_windows_def rbind_Inr_conv split: if_splits)+

end

interpretation rate_windows: window_source detailed_windows rate_inv
  by unfold_locales (rule windows_valid)

section \<open>Properties\<close>

text \<open>
  From a fresh history, any sequence of operations (accepted and refused samples, failures,
  pauses, clears) keeps the invariant: at most 64 samples, all of the history's own identity and not
  older than its epoch, with strictly increasing capture times and never-decreasing counters.
\<close>

theorem rate_history_invariant:
  assumes "rate_history_new identity epoch = Inr h"
  shows "rate_inv (foldl rate_step h ops)"
  by (rule rate_machine.run_inv [OF rate_inv_new [OF assms]])

theorem rate_history_invariant_witness:
  "let h = \<lparr>rh_identity = \<lparr>ri_ifindex = 2, ri_generation = 1\<rparr>, rh_epoch_ns = 5, rh_latest_success_at_unix_ms = None,
            rh_last_error_code = None, rh_consecutive_failures = 0, rh_sampling_paused = False, rh_samples = []\<rparr>
   in rate_history_new \<lparr>ri_ifindex = 2, ri_generation = 1\<rparr> 5 = Inr h \<and> rate_inv (foldl rate_step h [OpPause 9 ''x''])"
proof -
  let ?h = "\<lparr>rh_identity = \<lparr>ri_ifindex = 2, ri_generation = 1\<rparr>, rh_epoch_ns = 5, rh_latest_success_at_unix_ms = None,
            rh_last_error_code = None, rh_consecutive_failures = 0, rh_sampling_paused = False, rh_samples = []\<rparr>"
  have "rate_history_new \<lparr>ri_ifindex = 2, ri_generation = 1\<rparr> 5 = Inr ?h"
    by (simp add: rate_history_new_def rate_identity_validate_def rate_identity_new_def)
  then show ?thesis using rate_history_invariant by (simp only: Let_def)
qed

text \<open>
  \<^bold>\<open>C3.\<close> The windows of a reachable history are exact, and asking for them never fails in arithmetic:
  the only error is a clock that runs backwards. A paused history, or one without a sample for more
  than three seconds, gives stale windows; otherwise each window is ready exactly when some sample is
  at least one window older than the latest, it starts at the newest such sample, its deltas are the
  exact counter differences and its rates their floor per second.
\<close>

theorem detailed_windows_exact:
  fixes ops :: "RateOp list"
  assumes "rate_history_new identity epoch = Inr h0"
  defines "h \<equiv> foldl rate_step h0 ops"
  shows "detailed_windows now h = rbind (windows_spec now h) (\<lambda>ws. Inr (map_arr3 into_detailed ws))"
  unfolding detailed_windows_def h_def
  by (simp only: calculate_windows_eq [OF rate_machine.run_inv [OF rate_inv_new [OF assms(1)]]])

theorem detailed_windows_exact_witness:
  "let h = \<lparr>rh_identity = \<lparr>ri_ifindex = 2, ri_generation = 1\<rparr>, rh_epoch_ns = 5, rh_latest_success_at_unix_ms = None,
            rh_last_error_code = None, rh_consecutive_failures = 0, rh_sampling_paused = False, rh_samples = []\<rparr>
   in rate_history_new \<lparr>ri_ifindex = 2, ri_generation = 1\<rparr> 5 = Inr h \<and> detailed_windows 4 h = Inl ClockRegression \<and>
      detailed_windows 6 h = Inr warming_detailed_rate_windows"
proof -
  let ?h = "\<lparr>rh_identity = \<lparr>ri_ifindex = 2, ri_generation = 1\<rparr>, rh_epoch_ns = 5, rh_latest_success_at_unix_ms = None,
            rh_last_error_code = None, rh_consecutive_failures = 0, rh_sampling_paused = False, rh_samples = []\<rparr>"
  have 1: "rate_history_new \<lparr>ri_ifindex = 2, ri_generation = 1\<rparr> 5 = Inr ?h"
    by (simp add: rate_history_new_def rate_identity_validate_def rate_identity_new_def)
  show ?thesis
    using detailed_windows_exact [OF 1, where ops = "[]" and now = 4] detailed_windows_exact [OF 1, where ops = "[]" and now = 6] 1
    by (simp add: windows_spec_def freshness_reference_def window_spec_def window_start_def covered_ms_def
        warming_detailed_rate_windows_def Let_def)
qed

text \<open>
  Whatever the history went through, the windows it reports pass the validation that every
  consumer of a snapshot or a status report applies: in the detailed and in the status form.
\<close>

theorem reported_windows_validate:
  fixes ops :: "RateOp list"
  assumes "rate_history_new identity epoch = Inr h0"
  defines "h \<equiv> foldl rate_step h0 ops"
  shows "(case detailed_windows now h of Inr ws \<Rightarrow> validate_detailed_rate_windows ws = Inr () | Inl e \<Rightarrow> e = ClockRegression) \<and>
         (case status_windows now h of Inr vs \<Rightarrow> validate_status_rate_windows vs = Inr () | Inl e \<Rightarrow> e = ClockRegression)"
proof -
  have inv: "rate_inv h"
    unfolding h_def by (rule rate_machine.run_inv [OF rate_inv_new [OF assms(1)]])
  have "e = ClockRegression" if "calculate_windows now h = Inl e" for e
    using that by (auto simp: calculate_windows_eq [OF inv] windows_spec_def split: if_splits)
  then show ?thesis
    using windows_valid [OF inv, of now]
    by (auto simp: detailed_windows_def status_windows_def rbind_Inl_conv split: sum.split)
qed

theorem reported_windows_validate_witness:
  "let h = \<lparr>rh_identity = \<lparr>ri_ifindex = 2, ri_generation = 1\<rparr>, rh_epoch_ns = 5, rh_latest_success_at_unix_ms = None,
            rh_last_error_code = None, rh_consecutive_failures = 0, rh_sampling_paused = False, rh_samples = []\<rparr>
   in rate_history_new \<lparr>ri_ifindex = 2, ri_generation = 1\<rparr> 5 = Inr h \<and>
      (case detailed_windows 7 (rate_pause 6 ''x'' h) of
         Inr ws \<Rightarrow> validate_detailed_rate_windows ws = Inr () | Inl e \<Rightarrow> e = ClockRegression)"
proof -
  let ?h = "\<lparr>rh_identity = \<lparr>ri_ifindex = 2, ri_generation = 1\<rparr>, rh_epoch_ns = 5, rh_latest_success_at_unix_ms = None,
            rh_last_error_code = None, rh_consecutive_failures = 0, rh_sampling_paused = False, rh_samples = []\<rparr>"
  have 1: "rate_history_new \<lparr>ri_ifindex = 2, ri_generation = 1\<rparr> 5 = Inr ?h"
    by (simp add: rate_history_new_def rate_identity_validate_def rate_identity_new_def)
  show ?thesis
    using reported_windows_validate [OF 1, where ops = "[OpPause 6 ''x'']" and now = 7] 1 by (simp add: Let_def)
qed

text \<open>
  The status report is the detailed report with the per-class rates left out: for every history
  and every instant the two views agree on the error, on the state, coverage and time range of each
  window, and on the total rates of both hooks.
\<close>

definition status_of_detailed :: "DetailedRateWindow \<Rightarrow> StatusRateWindow" where
  "status_of_detailed w =
     \<lparr>sw_window_ms = dw_window_ms w, sw_state = dw_state w, sw_coverage_ms = dw_coverage_ms w,
      sw_elapsed_ns = dw_elapsed_ns w, sw_start_unix_ms = dw_start_unix_ms w, sw_end_unix_ms = dw_end_unix_ms w,
      sw_xdp_ingress = map_option (\<lambda>hooks. hr_total (a2_0 hooks)) (dw_hooks w),
      sw_tc_egress = map_option (\<lambda>hooks. hr_total (a2_1 hooks)) (dw_hooks w)\<rparr>"

lemma status_of_into_detailed: "status_of_detailed (into_detailed w) = into_status w"
  by (cases w) (simp_all add: status_of_detailed_def)

theorem status_projects_detailed:
  "status_windows now h = rbind (detailed_windows now h) (\<lambda>ws. Inr (map_arr3 status_of_detailed ws))"
  by (cases "calculate_windows now h")
    (simp_all add: status_windows_def detailed_windows_def arr3.map_comp o_def status_of_into_detailed)

text \<open>The ring is large enough: 61 samples a second apart cover the longest window.\<close>

definition one_second_apart :: "RateSample list \<Rightarrow> bool" where
  "one_second_apart samples \<longleftrightarrow>
     (\<forall>i. Suc i < length samples \<longrightarrow> unat (at_ns (samples ! i)) + 10 ^ 9 \<le> unat (at_ns (samples ! Suc i)))"

lemma one_second_apart_span:
  assumes "one_second_apart xs" and "i + k < length xs"
  shows "unat (at_ns (xs ! i)) + k * 10 ^ 9 \<le> unat (at_ns (xs ! (i + k)))"
  using assms(2)
proof (induction k)
  case (Suc k)
  then have "unat (at_ns (xs ! i)) + k * 10 ^ 9 \<le> unat (at_ns (xs ! (i + k)))" by simp
  also have "unat (at_ns (xs ! (i + k))) + 10 ^ 9 \<le> unat (at_ns (xs ! Suc (i + k)))"
    using assms(1) Suc.prems by (simp add: one_second_apart_def)
  finally show ?case by simp
qed simp

lemma windows_become_ready:
  assumes inv: "rate_inv h" and n: "61 \<le> length (rh_samples h)" and apart: "one_second_apart (rh_samples h)"
    and fresh: "\<not> rh_sampling_paused h" "freshness_reference h \<le> now" "unat now \<le> unat (freshness_reference h) + 3 * 10 ^ 9"
  shows "\<exists>ws. detailed_windows now h = Inr ws \<and> map_arr3 dw_state ws = Arr3 Ready Ready Ready"
proof -
  let ?xs = "rh_samples h"
  have "unat (at_ns (?xs ! (length ?xs - 61))) + 60 * 10 ^ 9 \<le> unat (at_ns (?xs ! (length ?xs - 61 + 60)))"
    by (rule one_second_apart_span [OF apart]) (use n in simp)
  moreover have ne: "?xs \<noteq> []" using n by auto
  moreover from ne n have "?xs ! (length ?xs - 61 + 60) = last ?xs" by (simp add: last_conv_nth)
  ultimately have old: "unat (at_ns (?xs ! (length ?xs - 61))) + 60 * 10 ^ 9 \<le> unat (at_ns (last ?xs))" by simp
  have mem: "?xs ! (length ?xs - 61) \<in> set ?xs" using n by (intro nth_mem) auto
  have "window_start w ?xs \<noteq> None" if w: "unat w * 10 ^ 6 \<le> 60 * 10 ^ 9" for w
  proof -
    have "unat (at_ns (?xs ! (length ?xs - 61))) + unat w * 10 ^ 6 \<le> unat (at_ns (last ?xs))"
      using old w by linarith
    with mem ne show ?thesis using window_start_None [OF ne] by blast
  qed
  then have "dw_state (into_detailed (window_spec w ?xs)) = Ready" if "unat w * 10 ^ 6 \<le> 60 * 10 ^ 9" for w
    using that by (fastforce simp: window_spec_def Let_def)
  with fresh show ?thesis
    by (simp add: detailed_windows_def calculate_windows_eq [OF inv] windows_spec_def not_less [symmetric])
qed

text \<open>
  Sixty-four slots are enough: a history that is not paused and whose samples are at least a
  second apart has all three windows ready as soon as it holds 61 samples and the latest is at most
  three seconds old.
\<close>

theorem all_windows_ready:
  assumes "rate_inv h" "61 \<le> length (rh_samples h)" "one_second_apart (rh_samples h)"
    and "\<not> rh_sampling_paused h" "freshness_reference h \<le> now"
    and "unat now \<le> unat (freshness_reference h) + 3 * 10 ^ 9"
  shows "\<exists>ws. detailed_windows now h = Inr ws \<and> map_arr3 dw_state ws = Arr3 Ready Ready Ready"
  using assms by (rule windows_become_ready)

definition idle_hook :: "HookRole \<Rightarrow> HookObservation" where
  "idle_hook role =
     (let z = \<lparr>oc_packets = 0, oc_bytes = 0\<rparr>
      in \<lparr>ho_role = role, ho_total = z,
          ho_classes = map_arr6 (\<lambda>t. \<lparr>co_traffic_class = t, co_counters = z\<rparr>) CLASS_ORDER, ho_parse_errors = z\<rparr>)"

definition idle_sample :: "nat \<Rightarrow> RateSample" where
  "idle_sample i =
     \<lparr>rs_identity = \<lparr>ri_ifindex = 2, ri_generation = 1\<rparr>, rs_captured_at_monotonic_ns = of_nat (i * 10 ^ 9),
      rs_captured_at_unix_ms = of_nat (i * 1000), rs_vlan_visibility = VlanUnknown,
      rs_hooks = Arr2 (idle_hook ExternalXdpIngress) (idle_hook PhysicalTcEgress)\<rparr>"

definition idle_history :: RateHistory where
  "idle_history =
     \<lparr>rh_identity = \<lparr>ri_ifindex = 2, ri_generation = 1\<rparr>, rh_epoch_ns = 0, rh_latest_success_at_unix_ms = Some 60000,
      rh_last_error_code = None, rh_consecutive_failures = 0, rh_sampling_paused = False,
      rh_samples = map idle_sample [0..<61]\<rparr>"

lemma idle_sample_at: "i < 64 \<Longrightarrow> unat (at_ns (idle_sample i)) = i * 10 ^ 9"
  by (simp add: idle_sample_def unat_of_nat del: of_nat_mult)

lemma idle_history_inv: "rate_inv idle_history"
proof -
  have "hooks_valid (rs_hooks (idle_sample i))" for i
    by (simp add: hooks_valid_def idle_sample_def idle_hook_def CLASS_ORDER_def Let_def)
  moreover have "sample_after (idle_sample i) (idle_sample j)" if "i < j" "j < 61" for i j
  proof -
    have "unat (at_ns (idle_sample i)) < unat (at_ns (idle_sample j))"
      using that by (simp add: idle_sample_at)
    moreover have "hooks_are_monotonic (rs_hooks (idle_sample i)) (rs_hooks (idle_sample j))"
      by (simp add: hooks_are_monotonic_iff hook_le_def class_le_def counters_are_monotonic_def idle_sample_def)
    ultimately show ?thesis by (simp add: sample_after_def word_less_nat_alt)
  qed
  ultimately show ?thesis
    by (auto simp: rate_inv_def idle_history_def identity_valid_def list_all_iff sorted_wrt_map idle_sample_def
        sorted_wrt_iff_nth_less)
qed

theorem all_windows_ready_witness:
  "rate_inv idle_history \<and> one_second_apart (rh_samples idle_history) \<and>
   (\<exists>ws. detailed_windows 61000000000 idle_history = Inr ws \<and> map_arr3 dw_state ws = Arr3 Ready Ready Ready)"
proof -
  have ref: "freshness_reference idle_history = at_ns (idle_sample 60)"
    by (simp add: freshness_reference_def idle_history_def last_map)
  have apart: "one_second_apart (rh_samples idle_history)"
    by (simp add: one_second_apart_def idle_history_def idle_sample_at)
  have "freshness_reference idle_history \<le> 61000000000"
    "unat (61000000000 :: u64) \<le> unat (freshness_reference idle_history) + 3 * 10 ^ 9"
    unfolding ref by (simp_all add: word_le_nat_alt idle_sample_at)
  then have "\<exists>ws. detailed_windows 61000000000 idle_history = Inr ws \<and> map_arr3 dw_state ws = Arr3 Ready Ready Ready"
    by (intro all_windows_ready idle_history_inv apart) (simp_all add: idle_history_def)
  with idle_history_inv apart show ?thesis by blast
qed

end
