(* ===== verification/Baseline.thy ===== *)
theory Baseline
  imports Rate
begin

text \<open>
  The statistical baseline (\<open>l2-loop-core/src/baseline.rs\<close>): sixteen series (two hooks, each a total,
  six classes and the parse errors) of at most 300 accepted rate pairs, thresholds from the upper
  median and the median absolute deviation, and the engine that evaluates a ready ten-second window.
\<close>

section \<open>Definitions\<close>

definition BASELINE_SOURCE_WINDOW_MS :: u64 where [simp]: "BASELINE_SOURCE_WINDOW_MS = 10000"
definition BASELINE_CAPACITY :: nat where [simp]: "BASELINE_CAPACITY = 300"
definition BASELINE_MINIMUM_SAMPLES :: nat where [simp]: "BASELINE_MINIMUM_SAMPLES = 60"
definition BASELINE_PACKET_NOISE_FLOOR_PPS :: u64 where [simp]: "BASELINE_PACKET_NOISE_FLOOR_PPS = 10"
definition BASELINE_BYTE_NOISE_FLOOR_BPS :: u64 where [simp]: "BASELINE_BYTE_NOISE_FLOOR_BPS = 16384"
definition BASELINE_SUBJECTS_PER_HOOK :: nat where [simp]: "BASELINE_SUBJECTS_PER_HOOK = 8"
definition BASELINE_SUBJECT_COUNT :: nat where [simp]: "BASELINE_SUBJECT_COUNT = 16"
definition BASELINE_METRIC_COUNT :: nat where [simp]: "BASELINE_METRIC_COUNT = 32"

datatype BaselineState = BlLearning | BlWithinBaseline | BlElevated | BlUnavailable
datatype BaselineMetric = BlPackets | BlBytes
datatype BaselineSubject = BlTotal | BlTrafficClass TrafficClass | BlParseErrors

record BaselineMetricReport =
  mr_current :: "u64 option"
  mr_median :: "u64 option"
  mr_mad :: "u64 option"
  mr_threshold :: "u64 option"
  mr_ratio_milli :: "u64 option"
  mr_elevated :: "bool option"

definition metric_absent :: BaselineMetricReport where
  "metric_absent = \<lparr>mr_current = None, mr_median = None, mr_mad = None, mr_threshold = None,
     mr_ratio_milli = None, mr_elevated = None\<rparr>"

definition metric_learning :: "u64 \<Rightarrow> BaselineMetricReport" where
  "metric_learning current = \<lparr>mr_current = Some current, mr_median = None, mr_mad = None, mr_threshold = None,
     mr_ratio_milli = None, mr_elevated = None\<rparr>"

definition validate_for :: "BaselineMetricReport \<Rightarrow> BaselineState \<Rightarrow> (DomainError, unit) result" where
  "validate_for self state =
     (let all_absent = mr_current self = None \<and> mr_median self = None \<and> mr_mad self = None
            \<and> mr_threshold self = None \<and> mr_ratio_milli self = None \<and> mr_elevated self = None;
          complete_evaluation = mr_current self \<noteq> None \<and> mr_median self \<noteq> None \<and> mr_mad self \<noteq> None
            \<and> mr_threshold self \<noteq> None \<and> mr_elevated self \<noteq> None
      in case state of
           BlLearning \<Rightarrow>
             if mr_median self = None \<and> mr_mad self = None \<and> mr_threshold self = None
                \<and> mr_ratio_milli self = None \<and> mr_elevated self = None then Inr ()
             else Inl (InvalidObservation ''learning baseline metric contains evaluated evidence'')
         | BlUnavailable \<Rightarrow>
             if all_absent then Inr ()
             else Inl (InvalidObservation ''unavailable baseline metric must not contain evidence'')
         | _ \<Rightarrow>
             if complete_evaluation then Inr ()
             else Inl (InvalidObservation ''evaluated baseline metric requires complete evidence''))"

record BaselineSeriesEvaluation =
  se_state :: BaselineState
  se_packets :: BaselineMetricReport
  se_bytes :: BaselineMetricReport

record BaselineSamplePair =
  sp_packets_per_second :: u64
  sp_bytes_per_second :: u64
  sp_accepted_at_unix_ms :: u64

type_synonym BaselineSeries = "BaselineSamplePair list"

definition latest_accepted_at_unix_ms :: "BaselineSeries \<Rightarrow> u64 option" where
  "latest_accepted_at_unix_ms samples = map_option sp_accepted_at_unix_ms (vd_back samples)"

definition push_pair :: "BaselineSamplePair \<Rightarrow> BaselineSeries \<Rightarrow> BaselineSeries" where
  "push_pair pair samples =
     (if length samples = BASELINE_CAPACITY then tl samples else samples) @ [pair]"

definition series_accept :: "u64 \<Rightarrow> u64 \<Rightarrow> u64 \<Rightarrow> BaselineSeries \<Rightarrow> BaselineSeries" where
  "series_accept packets_per_second bytes_per_second accepted_at_unix_ms samples =
     push_pair \<lparr>sp_packets_per_second = packets_per_second, sp_bytes_per_second = bytes_per_second,
                sp_accepted_at_unix_ms = accepted_at_unix_ms\<rparr> samples"

definition upper_median :: "u64 list \<Rightarrow> u64 option" where
  "upper_median values =
     (if values = [] then None
      else let sorted_values = sort values in Some (sorted_values ! (length sorted_values div 2)))"

definition median_absolute_deviation :: "u64 list \<Rightarrow> u64 option" where
  "median_absolute_deviation values =
     (case upper_median values of
        None \<Rightarrow> None
      | Some median \<Rightarrow> upper_median (map (\<lambda>v. abs_diff v median) values))"

definition evaluate_metric :: "u64 \<Rightarrow> u64 \<Rightarrow> u64 \<Rightarrow> u64 \<Rightarrow> BaselineMetricReport" where
  "evaluate_metric current median mad noise_floor =
     (let threshold = ucast (min (max (max (ucast median + 6 * ucast mad) (4 * ucast median)) (ucast noise_floor))
                                 (ucast (- 1 :: u64)) :: u128) :: u64;
          ratio_milli = (if median = 0 then None
                         else Some (ucast (min ((ucast current * 1000) div ucast median) (ucast (- 1 :: u64)) :: u128) :: u64))
      in \<lparr>mr_current = Some current, mr_median = Some median, mr_mad = Some mad, mr_threshold = Some threshold,
          mr_ratio_milli = ratio_milli, mr_elevated = Some (threshold < current)\<rparr>)"

definition series_evaluate :: "BaselineSeries \<Rightarrow> u64 \<Rightarrow> u64 \<Rightarrow> BaselineSeriesEvaluation" where
  "series_evaluate samples packets_per_second bytes_per_second =
     (if length samples < BASELINE_MINIMUM_SAMPLES then
        \<lparr>se_state = BlLearning, se_packets = metric_learning packets_per_second,
         se_bytes = metric_learning bytes_per_second\<rparr>
      else
        let packet_samples = map sp_packets_per_second samples;
            byte_samples = map sp_bytes_per_second samples;
            packet_median = unwrap_or (upper_median packet_samples) 0;
            byte_median = unwrap_or (upper_median byte_samples) 0;
            packets = evaluate_metric packets_per_second packet_median
                        (unwrap_or (median_absolute_deviation packet_samples) 0) BASELINE_PACKET_NOISE_FLOOR_PPS;
            bytes = evaluate_metric bytes_per_second byte_median
                        (unwrap_or (median_absolute_deviation byte_samples) 0) BASELINE_BYTE_NOISE_FLOOR_BPS;
            state = (if mr_elevated packets = Some True \<or> mr_elevated bytes = Some True then BlElevated
                     else BlWithinBaseline)
        in \<lparr>se_state = state, se_packets = packets, se_bytes = bytes\<rparr>)"

datatype BaselineError = InvalidSourceWindow | SourceEndpointNotAdvancing

definition hook_for_index :: "nat \<Rightarrow> HookRole" where
  "hook_for_index index = (if index < BASELINE_SUBJECTS_PER_HOOK then ExternalXdpIngress else PhysicalTcEgress)"

definition subject_for_index :: "nat \<Rightarrow> BaselineSubject" where
  "subject_for_index index =
     (let i = index mod BASELINE_SUBJECTS_PER_HOOK
      in if i = 0 then BlTotal
         else if i \<le> 6 then BlTrafficClass (arr6_list CLASS_ORDER ! (i - 1))
         else BlParseErrors)"

definition baseline_subject_index :: "HookRole \<Rightarrow> BaselineSubject \<Rightarrow> nat option" where
  "baseline_subject_index hook subject =
     find (\<lambda>index. hook_for_index index = hook \<and> subject_for_index index = subject) [0..<BASELINE_SUBJECT_COUNT]"

definition subject_rates :: "HookRate arr2 \<Rightarrow> nat \<Rightarrow> u64 \<times> u64" where
  "subject_rates hooks index =
     (let hook = arr2_list hooks ! (index div BASELINE_SUBJECTS_PER_HOOK);
          i = index mod BASELINE_SUBJECTS_PER_HOOK;
          counters = (if i = 0 then hr_total hook
                      else if i \<le> 6 then cr_counters (arr6_list (hr_classes hook) ! (i - 1))
                      else hr_parse_errors hook)
      in (rc_packets_per_second counters, rc_bytes_per_second counters))"

record BaselineSubjectReport =
  sr_hook :: HookRole
  sr_subject :: BaselineSubject
  sr_state :: BaselineState
  sr_sample_count :: u16
  sr_latest_accepted_at_unix_ms :: "u64 option"
  sr_packets :: BaselineMetricReport
  sr_bytes :: BaselineMetricReport

record BaselineReport =
  br_source_window_ms :: u64
  br_capacity :: u16
  br_minimum_samples :: u16
  br_packet_noise_floor_pps :: u64
  br_byte_noise_floor_bps :: u64
  br_state :: BaselineState
  br_evaluated_at_unix_ms :: "u64 option"
  br_source_end_unix_ms :: "u64 option"
  br_last_successful_evaluation_at_unix_ms :: "u64 option"
  br_last_error_code :: "string option"
  br_learning_subject_count :: u16
  br_elevated_metric_count :: u16
  br_subjects :: "BaselineSubjectReport list"

definition aggregate_baseline_state :: "BaselineSubjectReport list \<Rightarrow> BaselineState" where
  "aggregate_baseline_state subjects =
     (if list_ex (\<lambda>v. sr_state v = BlUnavailable) subjects then BlUnavailable
      else if list_ex (\<lambda>v. sr_state v = BlElevated) subjects then BlElevated
      else if list_ex (\<lambda>v. sr_state v = BlLearning) subjects then BlLearning
      else BlWithinBaseline)"

definition learning_count :: "BaselineSubjectReport list \<Rightarrow> nat" where
  "learning_count subjects = length (filter (\<lambda>s. sr_state s = BlLearning) subjects)"

definition elevated_count :: "BaselineSubjectReport list \<Rightarrow> nat" where
  "elevated_count subjects =
     length (filter (\<lambda>e. e = Some True)
       (concat (map (\<lambda>s. [mr_elevated (sr_packets s), mr_elevated (sr_bytes s)]) subjects)))"

definition baseline_report_learning :: "RateIdentity \<Rightarrow> u64 \<Rightarrow> BaselineReport" where
  "baseline_report_learning identity evaluated_at_unix_ms =
     \<lparr>br_source_window_ms = BASELINE_SOURCE_WINDOW_MS, br_capacity = of_nat BASELINE_CAPACITY,
      br_minimum_samples = of_nat BASELINE_MINIMUM_SAMPLES, br_packet_noise_floor_pps = BASELINE_PACKET_NOISE_FLOOR_PPS,
      br_byte_noise_floor_bps = BASELINE_BYTE_NOISE_FLOOR_BPS, br_state = BlLearning,
      br_evaluated_at_unix_ms = Some evaluated_at_unix_ms, br_source_end_unix_ms = None,
      br_last_successful_evaluation_at_unix_ms = None, br_last_error_code = None,
      br_learning_subject_count = of_nat BASELINE_SUBJECT_COUNT, br_elevated_metric_count = 0,
      br_subjects = map (\<lambda>index. \<lparr>sr_hook = hook_for_index index, sr_subject = subject_for_index index,
        sr_state = BlLearning, sr_sample_count = 0, sr_latest_accepted_at_unix_ms = None,
        sr_packets = metric_absent, sr_bytes = metric_absent\<rparr>) [0..<BASELINE_SUBJECT_COUNT]\<rparr>"

definition validate_subject_report :: "nat \<times> BaselineSubjectReport \<Rightarrow> (DomainError, unit) result" where
  "validate_subject_report = (\<lambda>(index, subject).
     if sr_hook subject \<noteq> hook_for_index index \<or> sr_subject subject \<noteq> subject_for_index index
     then Inl (InvalidObservation ''baseline subjects do not match fixed order'')
     else if BASELINE_CAPACITY < unat (sr_sample_count subject)
     then Inl (InvalidObservation ''baseline subject exceeds fixed capacity'')
     else rbind (validate_for (sr_packets subject) (sr_state subject)) (\<lambda>_.
          validate_for (sr_bytes subject) (sr_state subject)))"

definition baseline_report_validate :: "BaselineReport \<Rightarrow> (DomainError, unit) result" where
  "baseline_report_validate self =
     (if br_source_window_ms self \<noteq> BASELINE_SOURCE_WINDOW_MS \<or> unat (br_capacity self) \<noteq> BASELINE_CAPACITY
         \<or> unat (br_minimum_samples self) \<noteq> BASELINE_MINIMUM_SAMPLES
         \<or> br_packet_noise_floor_pps self \<noteq> BASELINE_PACKET_NOISE_FLOOR_PPS
         \<or> br_byte_noise_floor_bps self \<noteq> BASELINE_BYTE_NOISE_FLOOR_BPS
      then Inl (InvalidObservation ''baseline report configuration is not fixed'')
      else
        rbind (rfold (\<lambda>s _. validate_subject_report s) (List.enumerate 0 (br_subjects self)) ()) (\<lambda>_.
        if br_state self \<noteq> aggregate_baseline_state (br_subjects self)
        then Inl (InvalidObservation ''baseline aggregate state does not match subjects'')
        else if unat (br_learning_subject_count self) \<noteq> learning_count (br_subjects self)
        then Inl (InvalidObservation ''baseline learning subject count is inconsistent'')
        else if unat (br_elevated_metric_count self) \<noteq> elevated_count (br_subjects self)
        then Inl (InvalidObservation ''baseline elevated metric count is inconsistent'')
        else Inr ()))"

record BaselineEngine =
  be_identity :: RateIdentity
  be_series :: "BaselineSeries list"
  be_cached :: BaselineReport
  be_last_source_end_unix_ms :: "u64 option"
  be_last_successful_evaluation_at_unix_ms :: "u64 option"

definition baseline_engine_new :: "RateIdentity \<Rightarrow> u64 \<Rightarrow> BaselineEngine" where
  "baseline_engine_new identity started_at_unix_ms =
     \<lparr>be_identity = identity, be_series = replicate BASELINE_SUBJECT_COUNT [],
      be_cached = baseline_report_learning identity started_at_unix_ms, be_last_source_end_unix_ms = None,
      be_last_successful_evaluation_at_unix_ms = None\<rparr>"

definition unavailable_report :: "BaselineEngine \<Rightarrow> u64 \<Rightarrow> string \<Rightarrow> BaselineReport" where
  "unavailable_report self evaluated_at_unix_ms code =
     \<lparr>br_source_window_ms = BASELINE_SOURCE_WINDOW_MS, br_capacity = of_nat BASELINE_CAPACITY,
      br_minimum_samples = of_nat BASELINE_MINIMUM_SAMPLES, br_packet_noise_floor_pps = BASELINE_PACKET_NOISE_FLOOR_PPS,
      br_byte_noise_floor_bps = BASELINE_BYTE_NOISE_FLOOR_BPS, br_state = BlUnavailable,
      br_evaluated_at_unix_ms = Some evaluated_at_unix_ms, br_source_end_unix_ms = None,
      br_last_successful_evaluation_at_unix_ms = be_last_successful_evaluation_at_unix_ms self,
      br_last_error_code = Some code, br_learning_subject_count = 0, br_elevated_metric_count = 0,
      br_subjects = map (\<lambda>index. \<lparr>sr_hook = hook_for_index index, sr_subject = subject_for_index index,
        sr_state = BlUnavailable, sr_sample_count = of_nat (length (be_series self ! index)),
        sr_latest_accepted_at_unix_ms = latest_accepted_at_unix_ms (be_series self ! index),
        sr_packets = metric_absent, sr_bytes = metric_absent\<rparr>) [0..<BASELINE_SUBJECT_COUNT]\<rparr>"

definition baseline_unavailable :: "u64 \<Rightarrow> string \<Rightarrow> BaselineEngine \<Rightarrow> BaselineReport \<times> BaselineEngine" where
  "baseline_unavailable evaluated_at_unix_ms code self =
     (let report = unavailable_report self evaluated_at_unix_ms code in (report, self\<lparr>be_cached := report\<rparr>))"

definition baseline_clear_integrity ::
  "RateIdentity \<Rightarrow> u64 \<Rightarrow> string \<Rightarrow> BaselineEngine \<Rightarrow> BaselineReport \<times> BaselineEngine" where
  "baseline_clear_integrity identity evaluated_at_unix_ms code self =
     (let cleared = self\<lparr>be_identity := identity, be_series := replicate BASELINE_SUBJECT_COUNT [],
                         be_last_source_end_unix_ms := None, be_last_successful_evaluation_at_unix_ms := None\<rparr>;
          report = unavailable_report cleared evaluated_at_unix_ms code
      in (report, cleared\<lparr>be_cached := report\<rparr>))"

text \<open>One turn of the loop over the subjects: a rate that is not elevated enters its own series only.\<close>

definition subject_step ::
  "u64 \<Rightarrow> (u64 \<times> u64) list \<Rightarrow> BaselineSeriesEvaluation list \<times> BaselineSeries list \<Rightarrow> nat \<Rightarrow>
   BaselineSeriesEvaluation list \<times> BaselineSeries list" where
  "subject_step source_end_unix_ms values = (\<lambda>(evaluations, series) index.
     let evaluation = evaluations ! index; (packets, bytes) = values ! index
     in if se_state evaluation \<noteq> BlElevated then
          let series' = series[index := series_accept packets bytes source_end_unix_ms (series ! index)]
          in if se_state evaluation = BlLearning \<and> BASELINE_MINIMUM_SAMPLES \<le> length (series' ! index)
             then (evaluations[index := series_evaluate (series' ! index) packets bytes], series')
             else (evaluations, series')
        else (evaluations, series))"

definition evaluate_ready_window ::
  "DetailedRateWindow \<Rightarrow> u64 \<Rightarrow> BaselineEngine \<Rightarrow> (BaselineError, BaselineReport) result \<times> BaselineEngine" where
  "evaluate_ready_window window evaluated_at_unix_ms self =
     (let invalid = (Inl InvalidSourceWindow,
            snd (baseline_clear_integrity (be_identity self) evaluated_at_unix_ms ''baseline_invalid_source_window'' self))
      in if dw_window_ms window \<noteq> BASELINE_SOURCE_WINDOW_MS \<or> dw_state window \<noteq> Ready
            \<or> \<not> is_ok (detailed_validate window) then invalid
         else
           case dw_end_unix_ms window of
             None \<Rightarrow> invalid
           | Some source_end_unix_ms \<Rightarrow>
               if is_some_and (be_last_source_end_unix_ms self) (\<lambda>last. source_end_unix_ms \<le> last)
               then (Inl SourceEndpointNotAdvancing,
                     snd (baseline_clear_integrity (be_identity self) evaluated_at_unix_ms
                            ''baseline_source_endpoint_not_advancing'' self))
               else
                 case dw_hooks window of
                   None \<Rightarrow> invalid
                 | Some hooks \<Rightarrow>
                     let values = map (subject_rates hooks) [0..<BASELINE_SUBJECT_COUNT];
                         evaluated = map (\<lambda>index. let (packets, bytes) = values ! index
                                                  in series_evaluate (be_series self ! index) packets bytes)
                                       [0..<BASELINE_SUBJECT_COUNT];
                         (evaluations, series) =
                           foldl (subject_step source_end_unix_ms values) (evaluated, be_series self)
                             [0..<BASELINE_SUBJECT_COUNT];
                         subjects = map (\<lambda>index. \<lparr>sr_hook = hook_for_index index, sr_subject = subject_for_index index,
                           sr_state = se_state (evaluations ! index), sr_sample_count = of_nat (length (series ! index)),
                           sr_latest_accepted_at_unix_ms = latest_accepted_at_unix_ms (series ! index),
                           sr_packets = se_packets (evaluations ! index), sr_bytes = se_bytes (evaluations ! index)\<rparr>)
                           [0..<BASELINE_SUBJECT_COUNT];
                         report = \<lparr>br_source_window_ms = BASELINE_SOURCE_WINDOW_MS, br_capacity = of_nat BASELINE_CAPACITY,
                           br_minimum_samples = of_nat BASELINE_MINIMUM_SAMPLES,
                           br_packet_noise_floor_pps = BASELINE_PACKET_NOISE_FLOOR_PPS,
                           br_byte_noise_floor_bps = BASELINE_BYTE_NOISE_FLOOR_BPS,
                           br_state = aggregate_baseline_state subjects,
                           br_evaluated_at_unix_ms = Some evaluated_at_unix_ms,
                           br_source_end_unix_ms = Some source_end_unix_ms,
                           br_last_successful_evaluation_at_unix_ms = Some evaluated_at_unix_ms,
                           br_last_error_code = None, br_learning_subject_count = of_nat (learning_count subjects),
                           br_elevated_metric_count = of_nat (elevated_count subjects), br_subjects = subjects\<rparr>
                     in (Inr report,
                         self\<lparr>be_series := series, be_last_source_end_unix_ms := Some source_end_unix_ms,
                              be_last_successful_evaluation_at_unix_ms := Some evaluated_at_unix_ms,
                              be_cached := report\<rparr>))"

record BaselineElevatedIdentifier =
  ei_hook :: HookRole
  ei_subject :: BaselineSubject
  ei_metric :: BaselineMetric

record BaselineSubjectSampleCount =
  sc_hook :: HookRole
  sc_subject :: BaselineSubject
  sc_sample_count :: u16
  sc_latest_accepted_at_unix_ms :: "u64 option"

record BaselineSummary =
  bs_state :: BaselineState
  bs_evaluated_at_unix_ms :: "u64 option"
  bs_source_end_unix_ms :: "u64 option"
  bs_last_successful_evaluation_at_unix_ms :: "u64 option"
  bs_last_error_code :: "string option"
  bs_learning_subject_count :: u16
  bs_elevated_metric_count :: u16
  bs_subject_sample_counts :: "BaselineSubjectSampleCount list"
  bs_elevated :: "BaselineElevatedIdentifier list"

definition elevated_of_subject :: "BaselineSubjectReport \<Rightarrow> BaselineElevatedIdentifier list" where
  "elevated_of_subject s =
     (if mr_elevated (sr_packets s) = Some True
      then [\<lparr>ei_hook = sr_hook s, ei_subject = sr_subject s, ei_metric = BlPackets\<rparr>] else []) @
     (if mr_elevated (sr_bytes s) = Some True
      then [\<lparr>ei_hook = sr_hook s, ei_subject = sr_subject s, ei_metric = BlBytes\<rparr>] else [])"

definition summary_from_report :: "BaselineReport \<Rightarrow> BaselineSummary" where
  "summary_from_report report =
     \<lparr>bs_state = br_state report, bs_evaluated_at_unix_ms = br_evaluated_at_unix_ms report,
      bs_source_end_unix_ms = br_source_end_unix_ms report,
      bs_last_successful_evaluation_at_unix_ms = br_last_successful_evaluation_at_unix_ms report,
      bs_last_error_code = br_last_error_code report, bs_learning_subject_count = br_learning_subject_count report,
      bs_elevated_metric_count = br_elevated_metric_count report,
      bs_subject_sample_counts = map (\<lambda>index. let s = br_subjects report ! index
        in \<lparr>sc_hook = sr_hook s, sc_subject = sr_subject s, sc_sample_count = sr_sample_count s,
            sc_latest_accepted_at_unix_ms = sr_latest_accepted_at_unix_ms s\<rparr>) [0..<BASELINE_SUBJECT_COUNT],
      bs_elevated = concat (map elevated_of_subject (br_subjects report))\<rparr>"

definition elevated_order :: "BaselineElevatedIdentifier \<Rightarrow> nat option" where
  "elevated_order e =
     map_option (\<lambda>subject_index. subject_index * 2 + (case ei_metric e of BlPackets \<Rightarrow> 0 | BlBytes \<Rightarrow> 1))
       (baseline_subject_index (ei_hook e) (ei_subject e))"

definition summary_validate :: "BaselineSummary \<Rightarrow> (DomainError, unit) result" where
  "summary_validate self =
     (if BASELINE_METRIC_COUNT < length (bs_elevated self)
      then Inl (InvalidObservation ''baseline summary exceeds fixed elevated identifier bound'')
      else if length (bs_elevated self) \<noteq> unat (bs_elevated_metric_count self)
      then Inl (InvalidObservation ''baseline summary elevated count is inconsistent'')
      else if list_ex (\<lambda>(index, s). sc_hook s \<noteq> hook_for_index index \<or> sc_subject s \<noteq> subject_for_index index
                         \<or> BASELINE_CAPACITY < unat (sc_sample_count s))
                (List.enumerate 0 (bs_subject_sample_counts self))
      then Inl (InvalidObservation ''baseline summary subjects do not match fixed contract'')
      else
        rbind (rfold (\<lambda>e previous_order.
                 case elevated_order e of
                   None \<Rightarrow> Inl (InvalidObservation ''baseline summary elevated identifier is outside the fixed contract'')
                 | Some order \<Rightarrow>
                     if is_some_and previous_order (\<lambda>previous. order \<le> previous)
                     then Inl (InvalidObservation ''baseline summary elevated identifiers are not in fixed order'')
                     else Inr (Some order)) (bs_elevated self) None) (\<lambda>_. Inr ()))"

section \<open>Thresholds and medians\<close>

text \<open>The rule of the threshold, in natural numbers.\<close>

definition baseline_limit :: "u64 \<Rightarrow> u64 \<Rightarrow> u64 \<Rightarrow> nat" where
  "baseline_limit median mad noise_floor =
     max (max (unat median + 6 * unat mad) (4 * unat median)) (unat noise_floor)"

lemma widened_sum:
  fixes a b :: u64
  shows "unat (ucast a + 6 * ucast b :: u128) = unat a + 6 * unat b" "unat (4 * ucast a :: u128) = 4 * unat a"
    "unat (ucast a * 1000 :: u128) = unat a * 1000"
proof -
  have "unat a + 6 * unat b < 340282366920938463463374607431768211456" "6 * unat b < 340282366920938463463374607431768211456"
    "4 * unat a < 340282366920938463463374607431768211456" "unat a * 1000 < 340282366920938463463374607431768211456"
    using unat_lt_64 [of a] unat_lt_64 [of b] by linarith+
  then show "unat (ucast a + 6 * ucast b :: u128) = unat a + 6 * unat b" "unat (4 * ucast a :: u128) = 4 * unat a"
    "unat (ucast a * 1000 :: u128) = unat a * 1000"
    by (simp_all add: unat_word_ariths)
qed

lemma evaluate_metric_exact:
  "evaluate_metric current median mad noise_floor =
     \<lparr>mr_current = Some current, mr_median = Some median, mr_mad = Some mad,
      mr_threshold = Some (of_nat (min (baseline_limit median mad noise_floor) (2 ^ 64 - 1))),
      mr_ratio_milli = (if median = 0 then None else Some (of_nat (min (unat current * 1000 div unat median) (2 ^ 64 - 1)))),
      mr_elevated = Some (baseline_limit median mad noise_floor < unat current)\<rparr>"
proof -
  let ?x = "min (max (max (ucast median + 6 * ucast mad) (4 * ucast median)) (ucast noise_floor)) (ucast (- 1 :: u64)) :: u128"
  let ?r = "min ((ucast current * 1000) div ucast median) (ucast (- 1 :: u64)) :: u128"
  have x: "unat ?x = min (baseline_limit median mad noise_floor) (2 ^ 64 - 1)"
    by (simp only: unat_min unat_max widened_sum unat_u128_of_u64 unat_u64_max baseline_limit_def)
  have r: "unat ?r = min (unat current * 1000 div unat median) (2 ^ 64 - 1)"
    by (simp only: unat_min unat_div widened_sum unat_u128_of_u64 unat_u64_max)
  have nx: "unat (ucast ?x :: u64) = unat ?x" and nr: "unat (ucast ?r :: u64) = unat ?r"
    by (rule unat_narrow; simp only: x r; simp)+
  have t: "(ucast ?x :: u64) = of_nat (min (baseline_limit median mad noise_floor) (2 ^ 64 - 1))"
    using nx x by (metis of_nat_unat)
  have q: "(ucast ?r :: u64) = of_nat (min (unat current * 1000 div unat median) (2 ^ 64 - 1))"
    using nr r by (metis of_nat_unat)
  have e: "((ucast ?x :: u64) < current) = (baseline_limit median mad noise_floor < unat current)"
  proof -
    have "unat current \<le> 18446744073709551615" using unat_lt_64 [of current] by linarith
    then show ?thesis unfolding word_less_nat_alt nx x by (auto simp: min_def)
  qed
  show ?thesis
    unfolding evaluate_metric_def Let_def e by (simp only: t q)
qed

lemma upper_median_rank:
  assumes "upper_median values = Some m"
  shows "m \<in> set values" "length values div 2 < length (filter (\<lambda>v. v \<le> m) values)"
    "length values - length values div 2 \<le> length (filter (\<lambda>v. m \<le> v) values)"
proof -
  let ?s = "sort values" and ?k = "length values div 2"
  have ne: "values \<noteq> []" and m: "m = ?s ! ?k"
    using assms by (auto simp: upper_median_def Let_def split: if_splits)
  then have k: "?k < length ?s" by simp
  then show "m \<in> set values" using m nth_mem [OF k] by simp
  have perm: "length (filter P ?s) = length (filter P values)" for P
    by (simp add: filter_sort)
  have count: "length ys \<le> length (filter P values)" if "?s = us @ ys @ vs" "\<And>y. y \<in> set ys \<Longrightarrow> P y" for us ys vs P
    using that perm [of P] by (simp add: filter_True)
  have "length (take (Suc ?k) ?s) \<le> length (filter (\<lambda>v. v \<le> m) values)"
    using k m by (intro count [of "[]" _ "drop (Suc ?k) ?s"])
      (auto simp: in_set_conv_nth less_Suc_eq_le intro!: sorted_nth_mono)
  then show "?k < length (filter (\<lambda>v. v \<le> m) values)" using k by simp
  have "length (drop ?k ?s) \<le> length (filter (\<lambda>v. m \<le> v) values)"
    using k m by (intro count [of "take ?k ?s" _ "[]"])
      (auto simp: in_set_conv_nth intro!: sorted_nth_mono)
  then show "length values - ?k \<le> length (filter (\<lambda>v. m \<le> v) values)" by simp
qed

section \<open>The loop over the subjects\<close>

definition subject_result :: "u64 \<Rightarrow> u64 \<times> u64 \<Rightarrow> BaselineSeries \<Rightarrow> BaselineSeriesEvaluation \<times> BaselineSeries" where
  "subject_result source_end v s =
     (let e = series_evaluate s (fst v) (snd v); s' = series_accept (fst v) (snd v) source_end s
      in if se_state e = BlElevated then (e, s)
         else if se_state e = BlLearning \<and> 60 \<le> length s' then (series_evaluate s' (fst v) (snd v), s')
         else (e, s'))"

lemma subject_step_nth:
  assumes "i < length es" "i < length ss" and "es ! i = series_evaluate (ss ! i) (fst (vs ! i)) (snd (vs ! i))"
  shows "subject_step t vs (es, ss) i =
    (es[i := fst (subject_result t (vs ! i) (ss ! i))], ss[i := snd (subject_result t (vs ! i) (ss ! i))])"
  using assms(1,2)
  by (simp add: subject_step_def subject_result_def Let_def case_prod_beta assms(3) [symmetric])

lemma subject_loop:
  assumes "length vs = 16" "length ss = 16" "n \<le> 16"
    and "es = map (\<lambda>i. series_evaluate (ss ! i) (fst (vs ! i)) (snd (vs ! i))) [0..<16]"
  shows "foldl (subject_step t vs) (es, ss) [0..<n] =
    (map (\<lambda>i. if i < n then fst (subject_result t (vs ! i) (ss ! i)) else es ! i) [0..<16],
     map (\<lambda>i. if i < n then snd (subject_result t (vs ! i) (ss ! i)) else ss ! i) [0..<16])"
  using assms(3)
proof (induction n)
  case 0
  have "map ((!) es) [0..<length es] = es" "map ((!) ss) [0..<length ss] = ss" by (rule map_nth)+
  then show ?case using assms by simp
next
  case (Suc n)
  let ?e = "\<lambda>n. map (\<lambda>i. if i < n then fst (subject_result t (vs ! i) (ss ! i)) else es ! i) [0..<16]"
  let ?s = "\<lambda>n. map (\<lambda>i. if i < n then snd (subject_result t (vs ! i) (ss ! i)) else ss ! i) [0..<16]"
  have "foldl (subject_step t vs) (es, ss) [0..<Suc n] = subject_step t vs (?e n, ?s n) n"
    using Suc by simp
  also have "\<dots> = ((?e n)[n := fst (subject_result t (vs ! n) (ss ! n))], (?s n)[n := snd (subject_result t (vs ! n) (ss ! n))])"
    using Suc.prems assms(4) by (subst subject_step_nth) simp_all
  also have "\<dots> = (?e (Suc n), ?s (Suc n))"
    using Suc.prems by (auto simp: list_eq_iff_nth_eq nth_list_update less_Suc_eq)
  finally show ?case .
qed

interpretation pair_ring: bounded_ring BASELINE_CAPACITY push_pair
  by unfold_locales (auto simp: push_pair_def)

lemma length_series_accept: "length s \<le> 300 \<Longrightarrow> length (series_accept p b t s) \<le> 300"
  using pair_ring.push_bounded by (simp add: series_accept_def)

lemma subject_result_bounded: "length s \<le> 300 \<Longrightarrow> length (snd (subject_result t v s)) \<le> 300"
  by (auto simp: subject_result_def Let_def length_series_accept)

lemma series_evaluate_valid:
  "validate_for (se_packets (series_evaluate s p b)) (se_state (series_evaluate s p b)) = Inr ()"
  "validate_for (se_bytes (series_evaluate s p b)) (se_state (series_evaluate s p b)) = Inr ()"
  by (simp_all add: series_evaluate_def validate_for_def metric_learning_def evaluate_metric_exact Let_def
      del: One_nat_def)

lemma subject_result_eval: "\<exists>s' p b. fst (subject_result t v s) = series_evaluate s' p b"
  by (auto simp: subject_result_def Let_def)

section \<open>The engine invariant\<close>

lemma subjects_validate:
  "rfold (\<lambda>s _. validate_subject_report s) (List.enumerate 0 xs) () = Inr () \<longleftrightarrow>
     (\<forall>i < length xs. validate_subject_report (i, xs ! i) = Inr ())"
  by (auto simp: rfold_unit in_set_enumerate_eq)

lemma count_bounds: "learning_count xs \<le> length xs" "elevated_count xs \<le> 2 * length xs"
proof -
  show "learning_count xs \<le> length xs" by (simp add: learning_count_def)
  have "length (concat (map (\<lambda>s. [mr_elevated (sr_packets s), mr_elevated (sr_bytes s)]) xs)) = 2 * length xs"
    by (induction xs) auto
  then show "elevated_count xs \<le> 2 * length xs"
    unfolding elevated_count_def by (metis length_filter_le)
qed

lemma unat_small: "n < 65536 \<Longrightarrow> unat (of_nat n :: u16) = n"
  by (simp add: unat_of_nat)

definition fixed_configuration :: "BaselineReport \<Rightarrow> bool" where
  "fixed_configuration r \<longleftrightarrow>
     br_source_window_ms r = BASELINE_SOURCE_WINDOW_MS \<and> br_capacity r = of_nat BASELINE_CAPACITY \<and>
     br_minimum_samples r = of_nat BASELINE_MINIMUM_SAMPLES \<and>
     br_packet_noise_floor_pps r = BASELINE_PACKET_NOISE_FLOOR_PPS \<and>
     br_byte_noise_floor_bps r = BASELINE_BYTE_NOISE_FLOOR_BPS"

lemma report_validate_intro:
  assumes "fixed_configuration r" and "length (br_subjects r) = 16"
    and "\<And>i. i < 16 \<Longrightarrow> validate_subject_report (i, br_subjects r ! i) = Inr ()"
    and "br_state r = aggregate_baseline_state (br_subjects r)"
    and "br_learning_subject_count r = of_nat (learning_count (br_subjects r))"
    and "br_elevated_metric_count r = of_nat (elevated_count (br_subjects r))"
  shows "baseline_report_validate r = Inr ()"
proof -
  have "unat (br_learning_subject_count r) = learning_count (br_subjects r)"
    "unat (br_elevated_metric_count r) = elevated_count (br_subjects r)"
    using assms count_bounds [of "br_subjects r"] by (simp_all add: unat_small)
  moreover have "rfold (\<lambda>s _. validate_subject_report s) (List.enumerate 0 (br_subjects r)) () = Inr ()"
    using assms(2,3) by (simp add: subjects_validate)
  ultimately show ?thesis
    using assms(1,4) by (simp add: baseline_report_validate_def fixed_configuration_def)
qed

definition baseline_inv :: "BaselineEngine \<Rightarrow> bool" where
  "baseline_inv e \<longleftrightarrow>
     length (be_series e) = 16 \<and> (\<forall>i < 16. length (be_series e ! i) \<le> 300) \<and>
     length (br_subjects (be_cached e)) = 16 \<and> baseline_report_validate (be_cached e) = Inr ()"

lemma aggregate_uniform:
  "xs \<noteq> [] \<Longrightarrow> \<forall>x \<in> set xs. sr_state x = st \<Longrightarrow> aggregate_baseline_state xs = st"
  by (cases st; cases xs) (auto simp: aggregate_baseline_state_def list_ex_iff)

lemma metric_absent_valid [simp]:
  "validate_for metric_absent BlUnavailable = Inr ()" "validate_for metric_absent BlLearning = Inr ()"
  by (simp_all add: validate_for_def metric_absent_def Let_def)

lemma absent_counts:
  assumes "\<forall>x \<in> set xs. sr_packets x = metric_absent \<and> sr_bytes x = metric_absent"
  shows "elevated_count xs = 0"
  using assms by (induction xs) (auto simp: elevated_count_def metric_absent_def)

lemma learning_report_valid: "baseline_report_validate (baseline_report_learning i t) = Inr ()"
proof (rule report_validate_intro)
  let ?r = "baseline_report_learning i t"
  show "br_state ?r = aggregate_baseline_state (br_subjects ?r)"
    unfolding baseline_report_learning_def by (simp, intro aggregate_uniform [symmetric]) auto
  show "br_elevated_metric_count ?r = of_nat (elevated_count (br_subjects ?r))"
    using absent_counts [of "br_subjects ?r"] by (simp add: baseline_report_learning_def)
  show "br_learning_subject_count ?r = of_nat (learning_count (br_subjects ?r))"
    by (simp add: baseline_report_learning_def learning_count_def)
qed (simp_all add: baseline_report_learning_def fixed_configuration_def validate_subject_report_def)

lemma unavailable_report_valid:
  assumes "\<forall>i < 16. length (be_series e ! i) \<le> 300"
  shows "baseline_report_validate (unavailable_report e t code) = Inr ()"
proof (rule report_validate_intro)
  let ?r = "unavailable_report e t code"
  show "br_state ?r = aggregate_baseline_state (br_subjects ?r)"
    unfolding unavailable_report_def by (simp, intro aggregate_uniform [symmetric]) auto
  show "br_elevated_metric_count ?r = of_nat (elevated_count (br_subjects ?r))"
    using absent_counts [of "br_subjects ?r"] by (simp add: unavailable_report_def)
  show "br_learning_subject_count ?r = of_nat (learning_count (br_subjects ?r))"
    by (simp add: unavailable_report_def learning_count_def)
  show "validate_subject_report (i, br_subjects ?r ! i) = Inr ()" if "i < 16" for i
    using assms that unat_small [of "length (be_series e ! i)"]
    by (fastforce simp: unavailable_report_def validate_subject_report_def not_less)
qed (simp_all add: unavailable_report_def fixed_configuration_def)

lemma baseline_inv_new: "baseline_inv (baseline_engine_new i t)"
  by (simp add: baseline_inv_def baseline_engine_new_def learning_report_valid, simp add: baseline_report_learning_def)

lemma baseline_inv_unavailable: "baseline_inv e \<Longrightarrow> baseline_inv (snd (baseline_unavailable t code e))"
  by (simp add: baseline_inv_def baseline_unavailable_def Let_def unavailable_report_valid,
      simp add: unavailable_report_def)

lemma baseline_inv_clear: "baseline_inv (snd (baseline_clear_integrity i t code e))"
  by (simp add: baseline_inv_def baseline_clear_integrity_def Let_def unavailable_report_valid,
      simp add: unavailable_report_def)

text \<open>What a successful evaluation leaves, subject by subject.\<close>

definition evaluated_subject :: "u64 \<Rightarrow> HookRate arr2 \<Rightarrow> BaselineEngine \<Rightarrow> nat \<Rightarrow> BaselineSubjectReport" where
  "evaluated_subject source_end hooks e = (\<lambda>i.
     let (ev, s) = subject_result source_end (subject_rates hooks i) (be_series e ! i)
      in \<lparr>sr_hook = hook_for_index i, sr_subject = subject_for_index i, sr_state = se_state ev,
          sr_sample_count = of_nat (length s), sr_latest_accepted_at_unix_ms = latest_accepted_at_unix_ms s,
          sr_packets = se_packets ev, sr_bytes = se_bytes ev\<rparr>)"

definition evaluation_guard :: "DetailedRateWindow \<Rightarrow> BaselineEngine \<Rightarrow> (BaselineError, HookRate arr2 \<times> u64) result" where
  "evaluation_guard w e =
     (if dw_window_ms w \<noteq> 10000 \<or> dw_state w \<noteq> Ready \<or> detailed_validate w \<noteq> Inr () then Inl InvalidSourceWindow
      else case (dw_hooks w, dw_end_unix_ms w) of
             (Some hooks, Some source_end) \<Rightarrow>
               if is_some_and (be_last_source_end_unix_ms e) (\<lambda>last. source_end \<le> last)
               then Inl SourceEndpointNotAdvancing else Inr (hooks, source_end)
           | _ \<Rightarrow> Inl InvalidSourceWindow)"

fun clear_code :: "BaselineError \<Rightarrow> string" where
  "clear_code InvalidSourceWindow = ''baseline_invalid_source_window''"
| "clear_code SourceEndpointNotAdvancing = ''baseline_source_endpoint_not_advancing''"

definition evaluated_report :: "u64 \<Rightarrow> u64 \<Rightarrow> BaselineSubjectReport list \<Rightarrow> BaselineReport" where
  "evaluated_report t source_end subjects =
     \<lparr>br_source_window_ms = BASELINE_SOURCE_WINDOW_MS, br_capacity = of_nat BASELINE_CAPACITY,
      br_minimum_samples = of_nat BASELINE_MINIMUM_SAMPLES, br_packet_noise_floor_pps = BASELINE_PACKET_NOISE_FLOOR_PPS,
      br_byte_noise_floor_bps = BASELINE_BYTE_NOISE_FLOOR_BPS, br_state = aggregate_baseline_state subjects,
      br_evaluated_at_unix_ms = Some t, br_source_end_unix_ms = Some source_end,
      br_last_successful_evaluation_at_unix_ms = Some t, br_last_error_code = None,
      br_learning_subject_count = of_nat (learning_count subjects),
      br_elevated_metric_count = of_nat (elevated_count subjects), br_subjects = subjects\<rparr>"

lemma ready_complete:
  "detailed_validate w = Inr () \<Longrightarrow> dw_state w = Ready \<Longrightarrow> dw_hooks w \<noteq> None \<and> dw_end_unix_ms w \<noteq> None"
  by (auto simp: detailed_validate_def validate_evidence_shape_def rbind_Inr_conv Let_def split: if_splits)

lemma evaluate_loop:
  assumes "length (be_series e) = 16"
  shows "foldl (subject_step source_end (map (subject_rates hooks) [0..<16]))
      (map (\<lambda>i. let (p, b) = map (subject_rates hooks) [0..<16] ! i in series_evaluate (be_series e ! i) p b) [0..<16],
       be_series e) [0..<16] =
     (map (\<lambda>i. fst (subject_result source_end (subject_rates hooks i) (be_series e ! i))) [0..<16],
      map (\<lambda>i. snd (subject_result source_end (subject_rates hooks i) (be_series e ! i))) [0..<16])"
  using assms by (subst subject_loop) (auto simp: case_prod_beta)

lemma evaluated_subjects:
  "map (\<lambda>i. \<lparr>sr_hook = hook_for_index i, sr_subject = subject_for_index i,
      sr_state = se_state (map (\<lambda>i. fst (subject_result t (v i) (ss ! i))) [0..<16] ! i),
      sr_sample_count = of_nat (length (map (\<lambda>i. snd (subject_result t (v i) (ss ! i))) [0..<16] ! i)),
      sr_latest_accepted_at_unix_ms = latest_accepted_at_unix_ms (map (\<lambda>i. snd (subject_result t (v i) (ss ! i))) [0..<16] ! i),
      sr_packets = se_packets (map (\<lambda>i. fst (subject_result t (v i) (ss ! i))) [0..<16] ! i),
      sr_bytes = se_bytes (map (\<lambda>i. fst (subject_result t (v i) (ss ! i))) [0..<16] ! i)\<rparr>) [0..<16] =
   map (\<lambda>i. let (ev, s) = subject_result t (v i) (ss ! i) in
     \<lparr>sr_hook = hook_for_index i, sr_subject = subject_for_index i, sr_state = se_state ev,
      sr_sample_count = of_nat (length s), sr_latest_accepted_at_unix_ms = latest_accepted_at_unix_ms s,
      sr_packets = se_packets ev, sr_bytes = se_bytes ev\<rparr>) [0..<16]"
  by (rule map_cong) (simp_all add: case_prod_beta)

lemma evaluate_ready_window_eq:
  assumes "length (be_series e) = 16"
  shows "evaluate_ready_window w t e =
    (case evaluation_guard w e of
       Inl err \<Rightarrow> (Inl err, snd (baseline_clear_integrity (be_identity e) t (clear_code err) e))
     | Inr (hooks, source_end) \<Rightarrow>
         let r = evaluated_report t source_end (map (evaluated_subject source_end hooks e) [0..<16])
         in (Inr r,
             e\<lparr>be_series := map (\<lambda>i. snd (subject_result source_end (subject_rates hooks i) (be_series e ! i))) [0..<16],
               be_last_source_end_unix_ms := Some source_end, be_last_successful_evaluation_at_unix_ms := Some t,
               be_cached := r\<rparr>))"
proof (cases "dw_window_ms w \<noteq> 10000 \<or> dw_state w \<noteq> Ready \<or> detailed_validate w \<noteq> Inr ()")
  case True
  then have "dw_window_ms w \<noteq> BASELINE_SOURCE_WINDOW_MS \<or> dw_state w \<noteq> Ready \<or> \<not> is_ok (detailed_validate w)"
    by (auto simp: is_ok_conv)
  with True show ?thesis by (simp add: evaluate_ready_window_def evaluation_guard_def Let_def)
next
  case False
  then obtain hooks source_end where w: "dw_hooks w = Some hooks" "dw_end_unix_ms w = Some source_end"
    using ready_complete by blast
  show ?thesis
  proof (cases "is_some_and (be_last_source_end_unix_ms e) (\<lambda>last. source_end \<le> last)")
    case True
    with w False show ?thesis by (simp add: evaluate_ready_window_def evaluation_guard_def)
  next
    case fresh: False
    have guard: "evaluation_guard w e = Inr (hooks, source_end)"
      using w False fresh by (simp add: evaluation_guard_def)
    have conds: "(dw_window_ms w \<noteq> 10000 \<or> dw_state w \<noteq> Ready \<or> \<not> is_ok (detailed_validate w)) = False"
      using False by simp
    show ?thesis
      unfolding evaluate_ready_window_def guard Let_def BASELINE_SUBJECT_COUNT_def BASELINE_SOURCE_WINDOW_MS_def conds w
      by (simp only: if_False option.case fresh sum.case prod.case evaluate_loop [OF assms, unfolded Let_def]
          evaluated_subjects [unfolded Let_def] evaluated_report_def evaluated_subject_def Let_def
          BASELINE_SOURCE_WINDOW_MS_def)
  qed
qed

lemma evaluated_subject_valid:
  assumes "length (be_series e ! i) \<le> 300"
  shows "validate_subject_report (i, evaluated_subject t hooks e i) = Inr ()"
proof -
  let ?r = "subject_result t (subject_rates hooks i) (be_series e ! i)"
  obtain s p b where ev: "fst ?r = series_evaluate s p b" using subject_result_eval by blast
  have len: "length (snd ?r) \<le> 300" using assms by (rule subject_result_bounded)
  then have "unat (of_nat (length (snd ?r)) :: u16) = length (snd ?r)" by (simp add: unat_small)
  with len ev show ?thesis
    by (simp add: validate_subject_report_def evaluated_subject_def case_prod_beta series_evaluate_valid not_less)
qed

lemma evaluated_report_valid:
  assumes "\<And>i. i < 16 \<Longrightarrow> length (be_series e ! i) \<le> 300"
  shows "baseline_report_validate (evaluated_report t u (map (evaluated_subject v hooks e) [0..<16])) = Inr ()"
  by (rule report_validate_intro)
    (use assms evaluated_subject_valid in \<open>simp_all add: evaluated_report_def fixed_configuration_def\<close>)

lemma baseline_inv_evaluate:
  assumes inv: "baseline_inv e"
  shows "baseline_inv (snd (evaluate_ready_window w t e))"
proof (cases "evaluation_guard w e")
  case (Inl err)
  with inv show ?thesis
    by (simp add: evaluate_ready_window_eq baseline_inv_def [of e] baseline_inv_clear)
next
  case (Inr hs)
  have len: "length (be_series e) = 16" "\<And>i. i < 16 \<Longrightarrow> length (be_series e ! i) \<le> 300"
    using inv by (auto simp: baseline_inv_def)
  note evaluated_report_valid [OF len(2)]
  with Inr len show ?thesis
    by (simp add: evaluate_ready_window_eq [OF len(1)] case_prod_beta Let_def baseline_inv_def subject_result_bounded)
      (simp add: evaluated_report_def)
qed

text \<open>The operations of the engine.\<close>

datatype BaselineOp =
    BlEvaluate DetailedRateWindow u64
  | BlMarkUnavailable u64 string
  | BlClearIntegrity RateIdentity u64 string

fun baseline_step :: "BaselineEngine \<Rightarrow> BaselineOp \<Rightarrow> BaselineEngine" where
  "baseline_step e (BlEvaluate w t) = snd (evaluate_ready_window w t e)"
| "baseline_step e (BlMarkUnavailable t code) = snd (baseline_unavailable t code e)"
| "baseline_step e (BlClearIntegrity i t code) = snd (baseline_clear_integrity i t code e)"

interpretation baseline_machine: machine baseline_step baseline_inv
proof
  show "baseline_inv (baseline_step e op)" if "baseline_inv e" for e op
    using that by (cases op) (simp_all add: baseline_inv_evaluate baseline_inv_unavailable baseline_inv_clear)
qed

section \<open>Summaries\<close>

lemma below_16:
  "i < 16 \<Longrightarrow> i \<in> {0, 1, 2, 3, 4, 5, 6, 7, 8, 9, 10, 11, 12, 13, 14, 15 :: nat}"
  unfolding insert_iff empty_iff by presburger

lemma subject_index_inverse:
  assumes "i < 16"
  shows "baseline_subject_index (hook_for_index i) (subject_for_index i) = Some i"
  using below_16 [OF assms]
  by (elim insertE emptyE)
    (simp_all add: baseline_subject_index_def hook_for_index_def subject_for_index_def CLASS_ORDER_def upt_rec)

fun subject_orders :: "(nat \<times> BaselineSubjectReport) list \<Rightarrow> nat list" where
  "subject_orders [] = []"
| "subject_orders ((i, s) # rest) =
     (if mr_elevated (sr_packets s) = Some True then [i * 2] else []) @
     (if mr_elevated (sr_bytes s) = Some True then [i * 2 + 1] else []) @ subject_orders rest"

lemma subject_orders_ge: "j \<in> set (subject_orders (List.enumerate n xs)) \<Longrightarrow> 2 * n \<le> j"
  by (induction xs arbitrary: n) (fastforce split: if_splits)+

lemma subject_orders_sorted: "sorted_wrt (<) (subject_orders (List.enumerate n xs))"
proof (induction xs arbitrary: n)
  case (Cons x xs)
  have "2 * Suc n \<le> j" if "j \<in> set (subject_orders (List.enumerate (Suc n) xs))" for j
    using subject_orders_ge [OF that] .
  then show ?case using Cons [of "Suc n"] by (fastforce simp: sorted_wrt_append)
qed simp

lemma elevated_orders:
  assumes "\<And>i. i < length xs \<Longrightarrow> sr_hook (xs ! i) = hook_for_index (n + i) \<and> sr_subject (xs ! i) = subject_for_index (n + i)"
    and "n + length xs \<le> 16"
  shows "map elevated_order (concat (map elevated_of_subject xs)) = map Some (subject_orders (List.enumerate n xs))"
  using assms
proof (induction xs arbitrary: n)
  case (Cons x xs)
  have rest: "map elevated_order (concat (map elevated_of_subject xs)) = map Some (subject_orders (List.enumerate (Suc n) xs))"
    using Cons.prems(1) [of "Suc i" for i] Cons.prems(2) by (intro Cons.IH) fastforce+
  have "sr_hook x = hook_for_index n" "sr_subject x = subject_for_index n"
    using Cons.prems(1) [of 0] by auto
  moreover have "baseline_subject_index (hook_for_index n) (subject_for_index n) = Some n"
    using Cons.prems(2) by (intro subject_index_inverse) simp
  ultimately have "map elevated_order (elevated_of_subject x) =
      (if mr_elevated (sr_packets x) = Some True then [Some (n * 2)] else []) @
      (if mr_elevated (sr_bytes x) = Some True then [Some (n * 2 + 1)] else [])"
    by (simp add: elevated_of_subject_def elevated_order_def)
  with rest show ?case by simp
qed simp

lemma order_loop:
  assumes "map elevated_order es = map Some os" "sorted_wrt (<) os" "\<And>j. j \<in> set os \<Longrightarrow> \<not> is_some_and prev (\<lambda>p. j \<le> p)"
  shows "is_ok (rfold (\<lambda>e previous_order. case elevated_order e of None \<Rightarrow> Inl x
      | Some order \<Rightarrow> if is_some_and previous_order (\<lambda>previous. order \<le> previous) then Inl y else Inr (Some order)) es prev)"
  using assms
proof (induction es arbitrary: os prev)
  case (Cons e es)
  from Cons.prems(1) obtain k ks where o: "os = k # ks" "elevated_order e = Some k" "map elevated_order es = map Some ks"
    by (cases os) auto
  have "is_ok (rfold (\<lambda>e previous_order. case elevated_order e of None \<Rightarrow> Inl x
      | Some order \<Rightarrow> if is_some_and previous_order (\<lambda>previous. order \<le> previous) then Inl y else Inr (Some order)) es (Some k))"
    using Cons.prems(2) o by (intro Cons.IH [of ks]) auto
  with Cons.prems(3) [of k] o show ?case by simp
qed simp

lemma length_elevated: "length (concat (map elevated_of_subject xs)) = elevated_count xs"
  by (induction xs) (auto simp: elevated_of_subject_def elevated_count_def)

lemma summary_valid:
  assumes v: "baseline_report_validate r = Inr ()" and len: "length (br_subjects r) = 16"
  shows "summary_validate (summary_from_report r) = Inr ()"
proof -
  let ?s = "summary_from_report r" and ?xs = "br_subjects r"
  from v have cnt: "unat (br_elevated_metric_count r) = elevated_count ?xs"
    and subj: "\<And>i. i < 16 \<Longrightarrow> validate_subject_report (i, ?xs ! i) = Inr ()"
    using len by (auto simp: baseline_report_validate_def rbind_Inr_conv subjects_validate split: if_splits)
  have ids: "sr_hook (?xs ! i) = hook_for_index i \<and> sr_subject (?xs ! i) = subject_for_index i \<and>
      unat (sr_sample_count (?xs ! i)) \<le> 300" if "i < 16" for i
    using subj [OF that] by (simp add: validate_subject_report_def split: if_splits)
  have n: "length (bs_elevated ?s) = elevated_count ?xs" "length (bs_elevated ?s) \<le> 32"
    using count_bounds(2) [of ?xs] len by (simp_all add: summary_from_report_def length_elevated)
  have fixed: "\<not> list_ex (\<lambda>(index, s). sc_hook s \<noteq> hook_for_index index \<or> sc_subject s \<noteq> subject_for_index index
      \<or> 300 < unat (sc_sample_count s)) (List.enumerate 0 (bs_subject_sample_counts ?s))"
  proof -
    have "\<not> 300 < unat (sr_sample_count (?xs ! i))" if "i < 16" for i using ids [OF that] by simp
    then show ?thesis
      using ids by (auto simp: list_ex_iff in_set_enumerate_eq summary_from_report_def Let_def)
  qed
  have "map elevated_order (bs_elevated ?s) = map Some (subject_orders (List.enumerate 0 ?xs))"
    using elevated_orders [of ?xs 0] ids len by (simp add: summary_from_report_def)
  then have loop: "is_ok (rfold (\<lambda>e previous_order. case elevated_order e of None \<Rightarrow> Inl x
      | Some order \<Rightarrow> if is_some_and previous_order (\<lambda>previous. order \<le> previous) then Inl y else Inr (Some order))
        (bs_elevated ?s) None)" for x y :: DomainError
    by (rule order_loop [OF _ subject_orders_sorted]) simp
  have "bs_elevated_metric_count ?s = br_elevated_metric_count r" by (simp add: summary_from_report_def)
  with n cnt have "\<not> BASELINE_METRIC_COUNT < length (bs_elevated ?s)"
    "\<not> length (bs_elevated ?s) \<noteq> unat (bs_elevated_metric_count ?s)" by simp_all
  with fixed loop [of "InvalidObservation ''baseline summary elevated identifier is outside the fixed contract''"
      "InvalidObservation ''baseline summary elevated identifiers are not in fixed order''"]
  show ?thesis
    unfolding summary_validate_def is_ok_conv BASELINE_CAPACITY_def
    by (elim exE) (simp only: if_False rbind.simps)
qed

section \<open>Properties\<close>

text \<open>
  The threshold rule, exactly and without overflow: a rate is elevated when it exceeds the
  largest of median plus six deviations, four medians and the noise floor, computed in unbounded
  arithmetic; the reported threshold and ratio are those values capped at the largest \<open>u64\<close>.
\<close>

theorem evaluate_metric_threshold:
  "evaluate_metric current median mad noise_floor =
     \<lparr>mr_current = Some current, mr_median = Some median, mr_mad = Some mad,
      mr_threshold = Some (of_nat (min (baseline_limit median mad noise_floor) (2 ^ 64 - 1))),
      mr_ratio_milli = (if median = 0 then None else Some (of_nat (min (unat current * 1000 div unat median) (2 ^ 64 - 1)))),
      mr_elevated = Some (baseline_limit median mad noise_floor < unat current)\<rparr>"
  by (rule evaluate_metric_exact)

text \<open>
  The upper median is one: it is a value of the sample, more than half of the sample is not
  above it and at least half is not below it; it is absent exactly for an empty sample.
\<close>

theorem upper_median_is_median:
  "(case upper_median values of
      None \<Rightarrow> values = []
    | Some m \<Rightarrow> m \<in> set values \<and> length values div 2 < length (filter (\<lambda>v. v \<le> m) values) \<and>
        length values - length values div 2 \<le> length (filter (\<lambda>v. m \<le> v) values))"
  using upper_median_rank [of "values"]
  by (auto simp: upper_median_def Let_def split: option.split if_splits)

text \<open>
  Through any history of evaluations, failures and resets the baseline engine keeps sixteen
  series of at most 300 samples, its cached report passes its own validation, and so does the status
  summary derived from that report.
\<close>

theorem baseline_reports_validate:
  "let e = foldl baseline_step (baseline_engine_new identity started) ops
   in baseline_report_validate (be_cached e) = Inr () \<and>
      summary_validate (summary_from_report (be_cached e)) = Inr () \<and>
      length (be_series e) = 16 \<and> list_all (\<lambda>s. length s \<le> 300) (be_series e)"
proof -
  have "baseline_inv (foldl baseline_step (baseline_engine_new identity started) ops)"
    by (rule baseline_machine.run_inv [OF baseline_inv_new])
  then show ?thesis
    using summary_valid by (auto simp: baseline_inv_def Let_def list_all_iff in_set_conv_nth)
qed

text \<open>
  When a subject counts as elevated, written out over the samples it has learned, in natural numbers
  and without the engine's helpers: the limit is the largest of the median plus six median
  deviations, four medians and the noise floor.
\<close>

definition middle_of :: "nat list \<Rightarrow> nat" where
  "middle_of xs = sort xs ! (length xs div 2)"

definition limit_of :: "nat list \<Rightarrow> nat \<Rightarrow> nat" where
  "limit_of xs floor =
     (let m = middle_of xs; deviation = middle_of (map (\<lambda>x. nat \<bar>int x - int m\<bar>) xs)
      in max (max (m + 6 * deviation) (4 * m)) floor)"

definition exceeds_baseline :: "BaselineSeries \<Rightarrow> u64 \<Rightarrow> u64 \<Rightarrow> bool" where
  "exceeds_baseline s p b \<longleftrightarrow>
     limit_of (map (\<lambda>x. unat (sp_packets_per_second x)) s) 10 < unat p \<or>
     limit_of (map (\<lambda>x. unat (sp_bytes_per_second x)) s) 16384 < unat b"

lemma sort_unat: "sort (map unat xs) = map unat (sort (xs :: u64 list))"
proof -
  have "insort (unat x) (map unat ys) = map unat (insort x ys)" for x :: u64 and ys
    by (induction ys) (simp_all add: word_le_nat_alt)
  then show ?thesis by (induction xs) simp_all
qed

lemma upper_median_middle:
  "xs \<noteq> [] \<Longrightarrow> unat (unwrap_or (upper_median xs) 0) = middle_of (map unat xs)"
  by (simp add: upper_median_def middle_of_def sort_unat Let_def)

lemma unat_abs_diff: "unat (abs_diff a b) = nat \<bar>int (unat a) - int (unat b)\<bar>" for a b :: u64
  unfolding abs_diff_unat by (auto simp: not_less nat_diff_distrib' simp del: of_nat_unat)

lemma deviation_middle:
  assumes "xs \<noteq> []"
  shows "unat (unwrap_or (median_absolute_deviation xs) 0) =
    middle_of (map (\<lambda>x. nat \<bar>int x - int (middle_of (map unat xs))\<bar>) (map unat xs))"
proof -
  obtain m where m: "upper_median xs = Some m" using assms by (simp add: upper_median_def Let_def)
  then have "unat m = middle_of (map unat xs)" using upper_median_middle [OF assms] by simp
  then show ?thesis
    using upper_median_middle [of "map (\<lambda>v. abs_diff v m) xs"] assms
    by (simp add: median_absolute_deviation_def m unat_abs_diff comp_def)
qed

lemma limit_middle:
  assumes "xs \<noteq> []"
  shows "baseline_limit (unwrap_or (upper_median xs) 0) (unwrap_or (median_absolute_deviation xs) 0) f =
    limit_of (map unat xs) (unat f)"
  by (simp only: baseline_limit_def upper_median_middle [OF assms] deviation_middle [OF assms] limit_of_def Let_def)

lemma series_state:
  "se_state (series_evaluate s p b) =
     (if length s < 60 then BlLearning else if exceeds_baseline s p b then BlElevated else BlWithinBaseline)"
proof (cases "length s < 60")
  case False
  then have "s \<noteq> []" by auto
  then show ?thesis
    using limit_middle [of "map sp_packets_per_second s" 10] limit_middle [of "map sp_bytes_per_second s" 16384]
    by (simp add: series_evaluate_def evaluate_metric_exact exceeds_baseline_def Let_def comp_def)
qed (simp add: series_evaluate_def)

definition learned_series :: "u64 \<Rightarrow> u64 \<times> u64 \<Rightarrow> BaselineSeries \<Rightarrow> BaselineSeries" where
  "learned_series source_end v s =
     (if 60 \<le> length s \<and> exceeds_baseline s (fst v) (snd v) then s
      else drop (length s - 299) s @
           [\<lparr>sp_packets_per_second = fst v, sp_bytes_per_second = snd v, sp_accepted_at_unix_ms = source_end\<rparr>])"

definition verdict_of :: "u64 \<Rightarrow> u64 \<times> u64 \<Rightarrow> BaselineSeries \<Rightarrow> BaselineState" where
  "verdict_of source_end v s =
     (if length s < 59 then BlLearning
      else if exceeds_baseline (if length s = 59 then learned_series source_end v s else s) (fst v) (snd v)
      then BlElevated else BlWithinBaseline)"

lemma subject_result_learned: "length s \<le> 300 \<Longrightarrow> snd (subject_result t v s) = learned_series t v s"
  by (auto simp: subject_result_def learned_series_def series_state series_accept_def push_pair_def Let_def
      drop_Suc)

lemma subject_result_verdict: "length s \<le> 300 \<Longrightarrow> se_state (fst (subject_result t v s)) = verdict_of t v s"
  by (auto simp: subject_result_def verdict_of_def learned_series_def series_state series_accept_def push_pair_def
      Let_def)

lemma baseline_reachable:
  "length (be_series (foldl baseline_step (baseline_engine_new identity started) ops)) = 16"
  using baseline_machine.run_inv [OF baseline_inv_new] by (simp add: baseline_inv_def)

lemma baseline_reachable_bounded:
  assumes "e = foldl baseline_step (baseline_engine_new identity started) ops"
  shows "length (be_series e) = 16" "i < 16 \<Longrightarrow> length (be_series e ! i) \<le> 300"
  using baseline_machine.run_inv [OF baseline_inv_new] assms by (simp_all add: baseline_inv_def)

lemma evaluated_window:
  assumes "length (be_series e) = 16" and "\<And>i. i < 16 \<Longrightarrow> length (be_series e ! i) \<le> 300"
    and "evaluation_guard w e = Inr (hooks, source_end)"
  shows "be_series (snd (evaluate_ready_window w t e)) =
      map (\<lambda>i. learned_series source_end (subject_rates hooks i) (be_series e ! i)) [0..<16]"
    and "be_last_source_end_unix_ms (snd (evaluate_ready_window w t e)) = Some source_end"
    and "map sr_state (br_subjects (be_cached (snd (evaluate_ready_window w t e)))) =
      map (\<lambda>i. verdict_of source_end (subject_rates hooks i) (be_series e ! i)) [0..<16]"
    and "fst (evaluate_ready_window w t e) = Inr (be_cached (snd (evaluate_ready_window w t e)))"
  unfolding evaluate_ready_window_eq [OF assms(1)] assms(3)
  using assms(2)
  by (simp_all add: Let_def subject_result_learned subject_result_verdict evaluated_report_def evaluated_subject_def
      case_prod_beta)

text \<open>
  \<^bold>\<open>C4.\<close> An anomaly does not become the new normal, and does not hold its neighbours back. When a
  reachable engine evaluates a window, a subject that has learned at least sixty samples and whose
  rates exceed its own limit is reported elevated and keeps its series as it was; every other subject
  appends its rates (dropping its oldest pair when it holds 300) and is reported learning until its
  sixtieth sample, and within its baseline after it. Only the sixtieth sample itself is judged against
  a series that already holds it. The report is also the one the engine caches.
\<close>

theorem elevated_rates_not_learned:
  fixes ops :: "BaselineOp list"
  assumes "e = foldl baseline_step (baseline_engine_new identity started) ops"
    and "evaluate_ready_window w t e = (Inr r, e')"
    and "dw_hooks w = Some hooks" and "dw_end_unix_ms w = Some source_end"
  shows "be_series e' = map (\<lambda>i. learned_series source_end (subject_rates hooks i) (be_series e ! i)) [0..<16] \<and>
    map sr_state (br_subjects r) =
      map (\<lambda>i. verdict_of source_end (subject_rates hooks i) (be_series e ! i)) [0..<16] \<and>
    be_cached e' = r"
proof -
  note len = baseline_reachable_bounded [OF assms(1)]
  have guard: "evaluation_guard w e = Inr (hooks, source_end)"
    using assms(2-4) unfolding evaluate_ready_window_eq [OF len(1)]
    by (auto simp: Let_def evaluation_guard_def split: sum.splits if_splits)
  show ?thesis
    using evaluated_window [OF len guard, where t = t] assms(2) by simp
qed

text \<open>
  Sixty quiet windows, then one whose total is loud and whose classes are not: the total is reported
  elevated and not learned, the classes learn on.
\<close>

definition window_at :: "u64 \<Rightarrow> u64 \<Rightarrow> DetailedRateWindow" where
  "window_at n pps =
     (let rc = (\<lambda>p. \<lparr>rc_packet_delta = 10 * p, rc_byte_delta = 0, rc_packets_per_second = p, rc_bytes_per_second = 0\<rparr>);
          hr = (\<lambda>role. \<lparr>hr_role = role, hr_total = rc pps,
                 hr_classes = map_arr6 (\<lambda>t. \<lparr>cr_traffic_class = t, cr_counters = rc 0\<rparr>) CLASS_ORDER,
                 hr_parse_errors = rc 0\<rparr>)
      in \<lparr>dw_window_ms = 10000, dw_state = Ready, dw_coverage_ms = 10000, dw_elapsed_ns = Some 10000000000,
          dw_start_unix_ms = Some 0, dw_end_unix_ms = Some n,
          dw_hooks = Some (Arr2 (hr ExternalXdpIngress) (hr PhysicalTcEgress))\<rparr>)"

definition warm_engine :: "nat \<Rightarrow> BaselineEngine" where
  "warm_engine n = foldl baseline_step (baseline_engine_new \<lparr>ri_ifindex = 2, ri_generation = 1\<rparr> 0)
     (map (\<lambda>k. BlEvaluate (window_at (of_nat (Suc k)) 0) 0) [0..<n])"

lemma warm_engine_Suc:
  "warm_engine (Suc n) = snd (evaluate_ready_window (window_at (of_nat (Suc n)) 0) 0 (warm_engine n))"
  by (simp add: warm_engine_def)

lemma window_at_valid:
  assumes "p = 0 \<or> p = 100"
  shows "detailed_validate (window_at n p) = Inr ()"
  using assms
  by (auto simp: window_at_def detailed_validate_def validate_evidence_shape_def validate_hook_rates_def CLASS_ORDER_def
      saturating_mul_def Let_def)

lemma window_at_rates:
  assumes "i < 16"
  shows "subject_rates (the (dw_hooks (window_at n p))) i = (if i mod 8 = 0 then p else 0, 0)"
  using below_16 [OF assms]
  by (elim insertE emptyE) (simp_all add: window_at_def subject_rates_def Let_def CLASS_ORDER_def)

lemma window_at_guard:
  assumes "p = 0 \<or> p = 100" "be_last_source_end_unix_ms e = None \<or>
    (\<exists>m. be_last_source_end_unix_ms e = Some m \<and> m < n)"
  shows "evaluation_guard (window_at n p) e = Inr (the (dw_hooks (window_at n p)), n)"
  using assms window_at_valid [OF assms(1), of n]
  by (auto simp: evaluation_guard_def window_at_def Let_def split: option.splits)

lemma warm_engine_series:
  assumes "n \<le> 60"
  shows "(\<forall>i < 16. map (\<lambda>x. (sp_packets_per_second x, sp_bytes_per_second x)) (be_series (warm_engine n) ! i) = replicate n (0, 0)) \<and>
    length (be_series (warm_engine n)) = 16 \<and>
    be_last_source_end_unix_ms (warm_engine n) = (if n = 0 then None else Some (of_nat n))"
  using assms
proof (induction n)
  case 0
  then show ?case by (simp add: warm_engine_def baseline_engine_new_def)
next
  case (Suc n)
  let ?w = "window_at (of_nat (Suc n)) 0"
  have IH: "map (\<lambda>x. (sp_packets_per_second x, sp_bytes_per_second x)) (be_series (warm_engine n) ! i) = replicate n (0, 0)"
    if "i < 16" for i using Suc that by simp
  have len: "length (be_series (warm_engine n) ! i) = n" if "i < 16" for i
    using arg_cong [OF IH [OF that], of length] by simp
  have "of_nat n < (of_nat (Suc n) :: u64)"
    using Suc.prems by (simp add: word_less_nat_alt unat_of_nat del: of_nat_Suc)
  then have g: "evaluation_guard ?w (warm_engine n) = Inr (the (dw_hooks ?w), of_nat (Suc n))"
    using Suc by (intro window_at_guard) auto
  note ev = evaluated_window [OF _ _ g, where t = 0, folded warm_engine_Suc]
  have "length (be_series (warm_engine n)) = 16" "\<And>i. i < 16 \<Longrightarrow> length (be_series (warm_engine n) ! i) \<le> 300"
    using Suc len by simp_all
  note ev = ev [OF this]
  show ?case
    using Suc.prems IH len
    by (simp add: ev learned_series_def window_at_rates replicate_append_same del: of_nat_Suc)
qed

theorem elevated_rates_not_learned_witness:
  "let e = warm_engine 60; (r, e') = evaluate_ready_window (window_at 61 100) 61 e
   in is_ok r \<and> be_series e' ! 0 = be_series e ! 0 \<and> sr_state (br_subjects (be_cached e') ! 0) = BlElevated \<and>
      be_series e' ! 1 = be_series e ! 1 @
        [\<lparr>sp_packets_per_second = 0, sp_bytes_per_second = 0, sp_accepted_at_unix_ms = 61\<rparr>] \<and>
      sr_state (br_subjects (be_cached e') ! 1) = BlWithinBaseline"
proof -
  let ?e = "warm_engine 60" and ?w = "window_at 61 100"
  let ?hooks = "the (dw_hooks ?w)"
  have W: "map (\<lambda>x. (sp_packets_per_second x, sp_bytes_per_second x)) (be_series ?e ! i) = replicate 60 (0, 0)"
    if "i < 16" for i using warm_engine_series [of 60] that by simp
  have len: "length (be_series ?e ! i) = 60" if "i < 16" for i
    using arg_cong [OF W [OF that], of length] by simp
  have rates: "map (\<lambda>x. unat (sp_packets_per_second x)) (be_series ?e ! i) = replicate 60 0"
    "map (\<lambda>x. unat (sp_bytes_per_second x)) (be_series ?e ! i) = replicate 60 0" if "i < 16" for i
    using arg_cong [OF W [OF that], of "map (unat \<circ> fst)"] arg_cong [OF W [OF that], of "map (unat \<circ> snd)"]
    by (simp_all add: comp_def)
  have quiet: "limit_of (replicate 60 0) f = f" for f
    by (simp add: limit_of_def middle_of_def sorted_sort_id Let_def)
  have loud: "exceeds_baseline (be_series ?e ! i) p 0 \<longleftrightarrow> 10 < unat p" if "i < 16" for i p
    by (simp add: exceeds_baseline_def rates [OF that] quiet)
  have g: "evaluation_guard ?w ?e = Inr (?hooks, 61)"
    using warm_engine_series [of 60] by (intro window_at_guard) auto
  obtain r e' where ev: "evaluate_ready_window ?w 61 ?e = (Inr r, e')"
    using evaluated_window(4) [OF _ _ g, where t = 61] warm_engine_series [of 60] len
    by (cases "evaluate_ready_window ?w 61 ?e") simp
  have kept: "be_series e' = map (\<lambda>i. learned_series 61 (subject_rates ?hooks i) (be_series ?e ! i)) [0..<16] \<and>
      map sr_state (br_subjects r) = map (\<lambda>i. verdict_of 61 (subject_rates ?hooks i) (be_series ?e ! i)) [0..<16] \<and>
      be_cached e' = r"
    using elevated_rates_not_learned [where e = ?e and hooks = ?hooks and source_end = 61, OF warm_engine_def ev]
    by (simp add: window_at_def)
  have st: "sr_state (br_subjects r ! i) = verdict_of 61 (subject_rates ?hooks i) (be_series ?e ! i)" if "i < 16" for i
    using kept that by (metis (no_types, lifting) add_0 diff_zero length_map length_upt nth_map nth_upt)
  show ?thesis
    using kept st [of 0] st [of 1] len [of 0] len [of 1]
    by (simp add: ev learned_series_def verdict_of_def loud window_at_rates)
qed

context window_source
begin

lemma baseline_takes_ready_windows:
  assumes "good h" "windows now h = Inr ws" "dw_state (a3_1 ws) = Ready" "length (be_series e) = 16"
  shows "fst (evaluate_ready_window (a3_1 ws) t e) \<noteq> Inl InvalidSourceWindow"
proof -
  note w = each_window(2) [OF assms(1,2)]
  with assms(3) have "evaluation_guard (a3_1 ws) e \<noteq> Inl InvalidSourceWindow"
    using ready_complete [of "a3_1 ws"] by (auto simp: evaluation_guard_def split: if_splits)
  then show ?thesis
    by (auto simp: evaluate_ready_window_eq [OF assms(4)] Let_def split: sum.split)
qed

end

text \<open>
  The rate history and the baseline fit together: a ten-second window that a reachable history
  reports as ready is never refused by a reachable baseline engine as an invalid source, so the only
  way an evaluation of such a window fails is a wall clock that did not advance; and whenever an
  evaluation fails, the engine has dropped everything it learned and reports itself unavailable.
\<close>

theorem ready_windows_feed_baseline:
  fixes ops :: "RateOp list" and bops :: "BaselineOp list"
  assumes "rate_history_new identity epoch = Inr h0"
    and "detailed_windows now (foldl rate_step h0 ops) = Inr ws" and "dw_state (a3_1 ws) = Ready"
  shows "(case evaluate_ready_window (a3_1 ws) t (foldl baseline_step (baseline_engine_new identity started) bops) of
      (Inr r, e') \<Rightarrow> be_cached e' = r \<and> br_last_error_code r = None
    | (Inl err, e') \<Rightarrow> err = SourceEndpointNotAdvancing \<and> be_series e' = replicate 16 [] \<and>
        br_state (be_cached e') = BlUnavailable)"
proof -
  let ?e = "foldl baseline_step (baseline_engine_new identity started) bops"
  have inv: "rate_inv (foldl rate_step h0 ops)" by (rule rate_machine.run_inv [OF rate_inv_new [OF assms(1)]])
  note len = baseline_reachable [of identity started bops]
  have "fst (evaluate_ready_window (a3_1 ws) t ?e) \<noteq> Inl InvalidSourceWindow"
    by (rule rate_windows.baseline_takes_ready_windows [OF inv assms(2,3) len])
  then show ?thesis
    unfolding evaluate_ready_window_eq [OF len]
    by (auto simp: Let_def baseline_clear_integrity_def unavailable_report_def evaluated_report_def
        split: sum.split) (metis BaselineError.exhaust)
qed

theorem ready_windows_feed_baseline_witness:
  "let h = \<lparr>rh_identity = \<lparr>ri_ifindex = 2, ri_generation = 1\<rparr>, rh_epoch_ns = 0, rh_latest_success_at_unix_ms = None,
            rh_last_error_code = None, rh_consecutive_failures = 0, rh_sampling_paused = False, rh_samples = []\<rparr>;
       op = (\<lambda>i. OpInsert \<lparr>ri_ifindex = 2, ri_generation = 1\<rparr> (at_ns (idle_sample i)) 7 VlanUnknown (rs_hooks (idle_sample i)))
   in \<exists>ws. detailed_windows 11000000000 (foldl rate_step h [op 0, op 11]) = Inr ws \<and> dw_state (a3_1 ws) = Ready \<and>
        (case evaluate_ready_window (a3_1 ws) 8 (baseline_engine_new \<lparr>ri_ifindex = 2, ri_generation = 1\<rparr> 0) of
           (Inr r, e') \<Rightarrow> be_cached e' = r \<and> br_last_error_code r = None
         | (Inl err, e') \<Rightarrow> err = SourceEndpointNotAdvancing \<and> be_series e' = replicate 16 [] \<and>
             br_state (be_cached e') = BlUnavailable)"
proof -
  let ?i = "\<lparr>ri_ifindex = 2, ri_generation = 1\<rparr>"
  let ?h = "\<lparr>rh_identity = ?i, rh_epoch_ns = 0, rh_latest_success_at_unix_ms = None,
            rh_last_error_code = None, rh_consecutive_failures = 0, rh_sampling_paused = False, rh_samples = []\<rparr>"
  let ?op = "\<lambda>i. OpInsert ?i (at_ns (idle_sample i)) 7 VlanUnknown (rs_hooks (idle_sample i))"
  let ?s = "\<lambda>i. \<lparr>rs_identity = ?i, rs_captured_at_monotonic_ns = at_ns (idle_sample i), rs_captured_at_unix_ms = 7,
            rs_vlan_visibility = VlanUnknown, rs_hooks = rs_hooks (idle_sample i)\<rparr>"
  let ?g = "foldl rate_step ?h [?op 0, ?op 11]"
  have new: "rate_history_new ?i 0 = Inr ?h"
    by (simp add: rate_history_new_def rate_identity_validate_def rate_identity_new_def)
  have valid: "hooks_valid (rs_hooks (idle_sample i))" for i
    by (simp add: hooks_valid_def idle_sample_def idle_hook_def CLASS_ORDER_def Let_def)
  have mono: "hooks_are_monotonic (rs_hooks (idle_sample i)) (rs_hooks (idle_sample j))" for i j
    by (simp add: hooks_are_monotonic_iff hook_le_def class_le_def counters_are_monotonic_def idle_sample_def)
  have t: "at_ns (idle_sample 0) = 0" "at_ns (idle_sample 11) = 11000000000" by (simp_all add: idle_sample_def)
  have "rate_sample_new ?i u 7 VlanUnknown (rs_hooks (idle_sample j)) =
      Inr \<lparr>rs_identity = ?i, rs_captured_at_monotonic_ns = u, rs_captured_at_unix_ms = 7,
           rs_vlan_visibility = VlanUnknown, rs_hooks = rs_hooks (idle_sample j)\<rparr>" for u j
    using valid [of j] by (simp add: rate_sample_new_Inr identity_valid_def)
  then have samples: "rh_samples ?g = [?s 0, ?s 11]" and paused: "\<not> rh_sampling_paused ?g"
    using mono t by (simp_all add: rate_insert_def push_sample_def vd_back_def)
  have inv: "rate_inv ?g" by (rule rate_machine.run_inv [OF rate_inv_new [OF new]])
  have start: "window_start 10000 [?s 0, ?s 11] = Some (?s 0)" by (simp add: window_start_def t)
  have fresh: "freshness_reference ?g = 11000000000" using samples t by (simp add: freshness_reference_def)
  have eq: "windows_spec 11000000000 ?g = Inr (map_arr3 (\<lambda>w. window_spec w [?s 0, ?s 11]) RATE_WINDOW_MS)"
    unfolding windows_spec_def fresh samples using paused by (simp only: if_False simp_thms) simp
  obtain ws where ws: "detailed_windows 11000000000 ?g = Inr ws" "dw_state (a3_1 ws) = Ready"
    unfolding detailed_windows_def calculate_windows_eq [OF inv] eq
    using start by (simp add: window_spec_def [of 10000] Let_def)
  show ?thesis
    using ready_windows_feed_baseline [OF new ws, where bops = "[]"] ws unfolding Let_def by auto
qed

end
