(* ===== verification/Fingerprints.thy ===== *)
theory Fingerprints
  imports Baseline "HOL-Library.Multiset"
begin

text \<open>
  The fingerprint report (\<open>l2-loop-core/src/fingerprint.rs\<close>): sampled frame records, read from the
  kernel map in any order, are validated, grouped into relations (the same frame seen on ingress, on
  egress or on both) in an ordered map, and summed up in counters.
\<close>

section \<open>Definitions\<close>

definition FINGERPRINT_CAPACITY :: nat where [simp]: "FINGERPRINT_CAPACITY = 8192"

record FingerprintEvidence =
  fe_key :: FingerprintKey
  fe_value :: FingerprintValue

datatype FingerprintState = FpEmpty | FpObserved | FpUnavailable

record FingerprintCounters =
  fc_packets :: u64
  fc_bytes :: u64

definition no_fingerprint_counters :: FingerprintCounters where
  "no_fingerprint_counters = \<lparr>fc_packets = 0, fc_bytes = 0\<rparr>"

definition fingerprint_counters_checked_add ::
  "FingerprintCounters \<Rightarrow> u64 \<Rightarrow> u64 \<Rightarrow> (DomainError, FingerprintCounters) result" where
  "fingerprint_counters_checked_add self packets bytes =
     rbind (ok_or (InvalidObservation ''fingerprint packet aggregate overflow'') (checked_add (fc_packets self) packets)) (\<lambda>p.
     rbind (ok_or (InvalidObservation ''fingerprint byte aggregate overflow'') (checked_add (fc_bytes self) bytes)) (\<lambda>b.
     Inr \<lparr>fc_packets = p, fc_bytes = b\<rparr>))"

record FingerprintReport =
  fr_state :: FingerprintState
  fr_capacity :: u16
  fr_sample_shift :: u8
  fr_captured_entry_count :: u16
  fr_relation_count :: u16
  fr_ingress_only_relation_count :: u16
  fr_egress_only_relation_count :: u16
  fr_correlated_relation_count :: u16
  fr_ingress_first_relation_count :: u16
  fr_egress_first_relation_count :: u16
  fr_simultaneous_relation_count :: u16
  fr_repeated_relation_count :: u16
  fr_ingress :: FingerprintCounters
  fr_egress :: FingerprintCounters
  fr_maximum_packet_ratio_milli :: "u64 option"
  fr_maximum_byte_ratio_milli :: "u64 option"
  fr_last_error_code :: "string option"

definition fingerprint_report_empty :: FingerprintReport where
  "fingerprint_report_empty =
     \<lparr>fr_state = FpEmpty, fr_capacity = of_nat FINGERPRINT_CAPACITY, fr_sample_shift = FINGERPRINT_SAMPLE_SHIFT,
      fr_captured_entry_count = 0, fr_relation_count = 0, fr_ingress_only_relation_count = 0,
      fr_egress_only_relation_count = 0, fr_correlated_relation_count = 0, fr_ingress_first_relation_count = 0,
      fr_egress_first_relation_count = 0, fr_simultaneous_relation_count = 0, fr_repeated_relation_count = 0,
      fr_ingress = no_fingerprint_counters, fr_egress = no_fingerprint_counters,
      fr_maximum_packet_ratio_milli = None, fr_maximum_byte_ratio_milli = None, fr_last_error_code = None\<rparr>"

text \<open>\<open>derive(PartialOrd, Ord)\<close> orders a key by its fields in declaration order.\<close>

datatype RelationKey = RelationKey (rk_interface_generation: u64) (rk_fingerprint: u64) (rk_ifindex: u32)
  (rk_outer_vlan_id: u16) (rk_ether_type: u16) (rk_frame_len: u16) (rk_vlan_depth: u8) (rk_protocol: u8) (rk_subtype: u8)

definition relation_key_fields ::
  "RelationKey \<Rightarrow> u64 \<times> u64 \<times> u32 \<times> u16 \<times> u16 \<times> u16 \<times> u8 \<times> u8 \<times> u8" where
  "relation_key_fields k = (rk_interface_generation k, rk_fingerprint k, rk_ifindex k, rk_outer_vlan_id k,
     rk_ether_type k, rk_frame_len k, rk_vlan_depth k, rk_protocol k, rk_subtype k)"

lemma relation_key_fields_inject: "relation_key_fields a = relation_key_fields b \<longleftrightarrow> a = b"
  by (auto simp: relation_key_fields_def intro: RelationKey.expand)

instantiation RelationKey :: linorder
begin

definition less_eq_RelationKey :: "RelationKey \<Rightarrow> RelationKey \<Rightarrow> bool" where
  "less_eq_RelationKey a b \<longleftrightarrow> relation_key_fields a \<le> relation_key_fields b"

definition less_RelationKey :: "RelationKey \<Rightarrow> RelationKey \<Rightarrow> bool" where
  "less_RelationKey a b \<longleftrightarrow> relation_key_fields a < relation_key_fields b"

instance
proof
  fix a b c :: RelationKey
  show "(a < b) = (a \<le> b \<and> \<not> b \<le> a)"
    by (simp only: less_eq_RelationKey_def less_RelationKey_def less_le_not_le)
  show "a \<le> a" by (simp add: less_eq_RelationKey_def)
  show "a \<le> b \<Longrightarrow> b \<le> c \<Longrightarrow> a \<le> c" unfolding less_eq_RelationKey_def by (rule order_trans)
  show "a \<le> b \<Longrightarrow> b \<le> a \<Longrightarrow> a = b"
    unfolding less_eq_RelationKey_def relation_key_fields_inject [symmetric] by (rule antisym)
  show "a \<le> b \<or> b \<le> a" unfolding less_eq_RelationKey_def by (rule linear)
qed

end

datatype ExactKey = ExactKey (ek_relation: RelationKey) (ek_direction: u8)

instantiation ExactKey :: linorder
begin

definition less_eq_ExactKey :: "ExactKey \<Rightarrow> ExactKey \<Rightarrow> bool" where
  "less_eq_ExactKey a b \<longleftrightarrow> (ek_relation a, ek_direction a) \<le> (ek_relation b, ek_direction b)"

definition less_ExactKey :: "ExactKey \<Rightarrow> ExactKey \<Rightarrow> bool" where
  "less_ExactKey a b \<longleftrightarrow> (ek_relation a, ek_direction a) < (ek_relation b, ek_direction b)"

instance
proof
  fix a b c :: ExactKey
  show "(a < b) = (a \<le> b \<and> \<not> b \<le> a)"
    by (simp only: less_eq_ExactKey_def less_ExactKey_def less_le_not_le)
  show "a \<le> a" by (simp add: less_eq_ExactKey_def)
  show "a \<le> b \<Longrightarrow> b \<le> c \<Longrightarrow> a \<le> c" unfolding less_eq_ExactKey_def by (rule order_trans)
  show "a \<le> b \<Longrightarrow> b \<le> a \<Longrightarrow> a = b"
    unfolding less_eq_ExactKey_def by (drule (1) antisym) (cases a; cases b; simp)
  show "a \<le> b \<or> b \<le> a" unfolding less_eq_ExactKey_def by (rule linear)
qed

end

definition relation_key_from :: "FingerprintKey \<Rightarrow> RelationKey" where
  "relation_key_from key =
     RelationKey (fk_interface_generation key) (fk_fingerprint key) (fk_ifindex key) (fk_outer_vlan_id key)
       (fk_ether_type key) (fk_frame_len key) (fk_vlan_depth key) (fk_protocol key) (fk_subtype key)"

definition exact_key_from :: "FingerprintKey \<Rightarrow> ExactKey" where
  "exact_key_from key = ExactKey (relation_key_from key) (fk_direction key)"

record Side =
  sd_first_seen_ns :: u64
  sd_counters :: FingerprintCounters

record Relation =
  rel_ingress :: "Side option"
  rel_egress :: "Side option"

definition no_relation :: Relation where
  "no_relation = \<lparr>rel_ingress = None, rel_egress = None\<rparr>"

definition validate_evidence :: "FingerprintEvidence \<Rightarrow> u32 \<Rightarrow> u64 \<Rightarrow> (DomainError, unit) result" where
  "validate_evidence evidence ifindex generation =
     (let key = fe_key evidence; val = fe_value evidence;
          valid_vlan = fk_outer_vlan_id key = NO_VLAN \<or> fk_outer_vlan_id key \<le> 4094
      in if fk_interface_generation key \<noteq> generation \<or> fk_ifindex key \<noteq> ifindex
            \<or> \<not> (fk_direction key = direction_code DirIngress \<or> fk_direction key = direction_code DirEgress)
            \<or> \<not> valid_vlan \<or> 2 < fk_vlan_depth key \<or> fk_reserved key \<noteq> replicate 2 0
            \<or> fv_reserved val \<noteq> replicate 4 0 \<or> fv_packets val = 0 \<or> fv_bytes val < fv_packets val
            \<or> fv_last_seen_ns val < fv_first_seen_ns val
         then Inl (InvalidObservation ''fingerprint evidence shape is invalid'')
         else Inr ())"

definition fp_count :: "nat \<Rightarrow> (DomainError, u16) result" where
  "fp_count n = ok_or (InvalidObservation ''fingerprint evidence count is not representable'') (try_from_usize n)"

definition fp_increment :: "u16 \<Rightarrow> (DomainError, u16) result" where
  "fp_increment n = ok_or (InvalidObservation ''fingerprint relation count overflow'') (checked_add n 1)"

definition capped_ratio_milli :: "u64 \<Rightarrow> u64 \<Rightarrow> u64" where
  "capped_ratio_milli larger smaller =
     unwrap_or (try_from_word ((ucast larger * 1000 :: u128) div ucast smaller)) (- 1)"

definition maximize_ratio :: "u64 option \<Rightarrow> u64 \<Rightarrow> u64 \<Rightarrow> u64 option" where
  "maximize_ratio maximum left right =
     (let larger = max left right; smaller = min left right;
          ratio = (if smaller = 0 then - 1 else capped_ratio_milli larger smaller)
      in Some (max (unwrap_or maximum 0) ratio))"

definition accumulate_relation :: "Relation \<Rightarrow> FingerprintReport \<Rightarrow> (DomainError, FingerprintReport) result" where
  "accumulate_relation relation r =
     rbind (if is_some_and (rel_ingress relation) (\<lambda>s. 1 < fc_packets (sd_counters s))
               \<or> is_some_and (rel_egress relation) (\<lambda>s. 1 < fc_packets (sd_counters s))
            then rbind (fp_increment (fr_repeated_relation_count r)) (\<lambda>n. Inr (r\<lparr>fr_repeated_relation_count := n\<rparr>))
            else Inr r) (\<lambda>r.
     case (rel_ingress relation, rel_egress relation) of
       (Some i, None) \<Rightarrow>
         rbind (fp_increment (fr_ingress_only_relation_count r)) (\<lambda>n. Inr (r\<lparr>fr_ingress_only_relation_count := n\<rparr>))
     | (None, Some e) \<Rightarrow>
         rbind (fp_increment (fr_egress_only_relation_count r)) (\<lambda>n. Inr (r\<lparr>fr_egress_only_relation_count := n\<rparr>))
     | (Some i, Some e) \<Rightarrow>
         rbind (fp_increment (fr_correlated_relation_count r)) (\<lambda>n.
         let r = r\<lparr>fr_correlated_relation_count := n\<rparr> in
         rbind (if sd_first_seen_ns i < sd_first_seen_ns e then
                  rbind (fp_increment (fr_ingress_first_relation_count r)) (\<lambda>n. Inr (r\<lparr>fr_ingress_first_relation_count := n\<rparr>))
                else if sd_first_seen_ns e < sd_first_seen_ns i then
                  rbind (fp_increment (fr_egress_first_relation_count r)) (\<lambda>n. Inr (r\<lparr>fr_egress_first_relation_count := n\<rparr>))
                else
                  rbind (fp_increment (fr_simultaneous_relation_count r)) (\<lambda>n. Inr (r\<lparr>fr_simultaneous_relation_count := n\<rparr>)))
           (\<lambda>r. Inr (r\<lparr>fr_maximum_packet_ratio_milli :=
                         maximize_ratio (fr_maximum_packet_ratio_milli r) (fc_packets (sd_counters i)) (fc_packets (sd_counters e)),
                       fr_maximum_byte_ratio_milli :=
                         maximize_ratio (fr_maximum_byte_ratio_milli r) (fc_bytes (sd_counters i)) (fc_bytes (sd_counters e))\<rparr>)))
     | (None, None) \<Rightarrow> Inl (InvalidObservation ''fingerprint relation has no evidence''))"

type_synonym build_state = "FingerprintReport \<times> (RelationKey \<times> Relation) list \<times> (ExactKey \<times> unit) list"

definition build_item ::
  "u32 \<Rightarrow> u64 \<Rightarrow> FingerprintEvidence \<Rightarrow> build_state \<Rightarrow> (DomainError, build_state) result" where
  "build_item ifindex generation item = (\<lambda>(report, groups, exact).
     rbind (validate_evidence item ifindex generation) (\<lambda>_.
     let key = fe_key item; val = fe_value item; relation_key = relation_key_from key; exact_key = exact_key_from key
     in if bt_get exact exact_key \<noteq> None
        then Inl (InvalidObservation ''duplicate fingerprint evidence key'')
        else
          let exact = bt_insert exact_key () exact;
              counters = \<lparr>fc_packets = fv_packets val, fc_bytes = fv_bytes val\<rparr>;
              side = \<lparr>sd_first_seen_ns = fv_first_seen_ns val, sd_counters = counters\<rparr>;
              relation = unwrap_or (bt_get groups relation_key) no_relation
          in if fk_direction key = direction_code DirIngress then
               rbind (fingerprint_counters_checked_add (fr_ingress report) (fv_packets val) (fv_bytes val)) (\<lambda>c.
               Inr (report\<lparr>fr_ingress := c\<rparr>, bt_insert relation_key (relation\<lparr>rel_ingress := Some side\<rparr>) groups, exact))
             else
               rbind (fingerprint_counters_checked_add (fr_egress report) (fv_packets val) (fv_bytes val)) (\<lambda>c.
               Inr (report\<lparr>fr_egress := c\<rparr>, bt_insert relation_key (relation\<lparr>rel_egress := Some side\<rparr>) groups, exact))))"

definition fingerprint_report_build ::
  "u32 \<Rightarrow> u64 \<Rightarrow> FingerprintEvidence list \<Rightarrow> (DomainError, FingerprintReport) result" where
  "fingerprint_report_build ifindex generation evidence =
     (if ifindex = 0 \<or> generation = 0
      then Inl (InvalidObservation ''fingerprint identity must be non-zero'')
      else if FINGERPRINT_CAPACITY < length evidence
      then Inl (InvalidObservation ''fingerprint evidence exceeds fixed capacity'')
      else
        rbind (fp_count (length evidence)) (\<lambda>captured.
        rbind (rfold (build_item ifindex generation) evidence
                 (fingerprint_report_empty\<lparr>fr_captured_entry_count := captured\<rparr>, [], [])) (\<lambda>(report, groups, exact).
        rbind (fp_count (length groups)) (\<lambda>relations.
        rbind (rfold accumulate_relation (map snd groups) (report\<lparr>fr_relation_count := relations\<rparr>)) (\<lambda>report.
        Inr (if fr_captured_entry_count report \<noteq> 0 then report\<lparr>fr_state := FpObserved\<rparr> else report))))))"

definition fingerprint_code_ok :: "string \<Rightarrow> bool" where
  "fingerprint_code_ok code \<longleftrightarrow> \<not> (code = [] \<or> 64 < length code
     \<or> \<not> list_all (\<lambda>c. is_ascii_uppercase c \<or> is_ascii_digit c \<or> c = CHR ''_'') code)"

definition fingerprint_report_unavailable :: "string \<Rightarrow> (DomainError, FingerprintReport) result" where
  "fingerprint_report_unavailable code =
     (if \<not> fingerprint_code_ok code then Inl (InvalidObservation ''fingerprint error code is invalid'')
      else Inr (fingerprint_report_empty\<lparr>fr_state := FpUnavailable, fr_last_error_code := Some code\<rparr>))"

record FingerprintSummary =
  fs_state :: FingerprintState
  fs_captured_entry_count :: u16
  fs_relation_count :: u16
  fs_ingress_only_relation_count :: u16
  fs_egress_only_relation_count :: u16
  fs_correlated_relation_count :: u16
  fs_ingress_first_relation_count :: u16
  fs_egress_first_relation_count :: u16
  fs_simultaneous_relation_count :: u16
  fs_repeated_relation_count :: u16
  fs_ingress :: FingerprintCounters
  fs_egress :: FingerprintCounters
  fs_maximum_packet_ratio_milli :: "u64 option"
  fs_maximum_byte_ratio_milli :: "u64 option"
  fs_last_error_code :: "string option"

definition fingerprint_summary_from :: "FingerprintReport \<Rightarrow> FingerprintSummary" where
  "fingerprint_summary_from report =
     \<lparr>fs_state = fr_state report, fs_captured_entry_count = fr_captured_entry_count report,
      fs_relation_count = fr_relation_count report, fs_ingress_only_relation_count = fr_ingress_only_relation_count report,
      fs_egress_only_relation_count = fr_egress_only_relation_count report,
      fs_correlated_relation_count = fr_correlated_relation_count report,
      fs_ingress_first_relation_count = fr_ingress_first_relation_count report,
      fs_egress_first_relation_count = fr_egress_first_relation_count report,
      fs_simultaneous_relation_count = fr_simultaneous_relation_count report,
      fs_repeated_relation_count = fr_repeated_relation_count report, fs_ingress = fr_ingress report,
      fs_egress = fr_egress report, fs_maximum_packet_ratio_milli = fr_maximum_packet_ratio_milli report,
      fs_maximum_byte_ratio_milli = fr_maximum_byte_ratio_milli report, fs_last_error_code = fr_last_error_code report\<rparr>"

section \<open>The evidence loop\<close>

text \<open>What a list of records means: its exact keys, its relations and its directional sums.\<close>

definition ekey :: "FingerprintEvidence \<Rightarrow> ExactKey" where
  "ekey e = exact_key_from (fe_key e)"

definition side_of :: "FingerprintEvidence \<Rightarrow> Side" where
  "side_of e = \<lparr>sd_first_seen_ns = fv_first_seen_ns (fe_value e),
     sd_counters = \<lparr>fc_packets = fv_packets (fe_value e), fc_bytes = fv_bytes (fe_value e)\<rparr>\<rparr>"

definition side_at :: "FingerprintEvidence list \<Rightarrow> ExactKey \<Rightarrow> Side option" where
  "side_at es x = map_option side_of (find (\<lambda>e. ekey e = x) es)"

definition relation_at :: "FingerprintEvidence list \<Rightarrow> RelationKey \<Rightarrow> Relation option" where
  "relation_at es k =
     (if side_at es (ExactKey k 1) = None \<and> side_at es (ExactKey k 2) = None then None
      else Some \<lparr>rel_ingress = side_at es (ExactKey k 1), rel_egress = side_at es (ExactKey k 2)\<rparr>)"

definition directed_sum :: "u8 \<Rightarrow> (FingerprintValue \<Rightarrow> u64) \<Rightarrow> FingerprintEvidence list \<Rightarrow> nat" where
  "directed_sum d sel es = (\<Sum>e\<leftarrow>filter (\<lambda>e. fk_direction (fe_key e) = d) es. unat (sel (fe_value e)))"

definition evidence_ok :: "u32 \<Rightarrow> u64 \<Rightarrow> FingerprintEvidence list \<Rightarrow> bool" where
  "evidence_ok i g es \<longleftrightarrow>
     list_all (\<lambda>e. validate_evidence e i g = Inr ()) es \<and> distinct (map ekey es) \<and>
     directed_sum 1 fv_packets es < 2 ^ 64 \<and> directed_sum 1 fv_bytes es < 2 ^ 64 \<and>
     directed_sum 2 fv_packets es < 2 ^ 64 \<and> directed_sum 2 fv_bytes es < 2 ^ 64"

definition sums_to :: "FingerprintCounters \<Rightarrow> u8 \<Rightarrow> FingerprintEvidence list \<Rightarrow> bool" where
  "sums_to c d es \<longleftrightarrow> unat (fc_packets c) = directed_sum d fv_packets es \<and> unat (fc_bytes c) = directed_sum d fv_bytes es"

definition build_inv :: "FingerprintReport \<Rightarrow> FingerprintEvidence list \<Rightarrow> build_state \<Rightarrow> bool" where
  "build_inv r0 es = (\<lambda>(r, gs, ex).
     bt_wf gs \<and> bt_wf ex \<and> (\<forall>x. bt_get ex x \<noteq> None \<longleftrightarrow> x \<in> ekey ` set es) \<and> (\<forall>k. bt_get gs k = relation_at es k) \<and>
     sums_to (fr_ingress r) 1 es \<and> sums_to (fr_egress r) 2 es \<and>
     r\<lparr>fr_ingress := fr_ingress r0, fr_egress := fr_egress r0\<rparr> = r0)"

lemma validate_evidence_direction:
  "validate_evidence e i g = Inr () \<Longrightarrow> fk_direction (fe_key e) = 1 \<or> fk_direction (fe_key e) = 2"
  by (auto simp: validate_evidence_def Let_def split: if_splits)

lemma directed_sum_snoc:
  "directed_sum d sel (es @ [e]) = directed_sum d sel es + (if fk_direction (fe_key e) = d then unat (sel (fe_value e)) else 0)"
  by (simp add: directed_sum_def)

lemma evidence_ok_snoc:
  "evidence_ok i g (es @ [e]) \<longleftrightarrow>
     evidence_ok i g es \<and> validate_evidence e i g = Inr () \<and> ekey e \<notin> ekey ` set es \<and>
     directed_sum 1 fv_packets (es @ [e]) < 2 ^ 64 \<and> directed_sum 1 fv_bytes (es @ [e]) < 2 ^ 64 \<and>
     directed_sum 2 fv_packets (es @ [e]) < 2 ^ 64 \<and> directed_sum 2 fv_bytes (es @ [e]) < 2 ^ 64"
  by (auto simp: evidence_ok_def directed_sum_snoc split: if_splits)

lemma side_at_snoc:
  "ekey e \<notin> ekey ` set es \<Longrightarrow> side_at (es @ [e]) x = (if ekey e = x then Some (side_of e) else side_at es x)"
  by (induction es) (auto simp: side_at_def)

lemma ekey_eq: "ekey e = ExactKey k d \<longleftrightarrow> relation_key_from (fe_key e) = k \<and> fk_direction (fe_key e) = d"
  by (auto simp: ekey_def exact_key_from_def)

lemma relation_at_default:
  "unwrap_or (relation_at es k) no_relation = \<lparr>rel_ingress = side_at es (ExactKey k 1), rel_egress = side_at es (ExactKey k 2)\<rparr>"
  by (simp add: relation_at_def no_relation_def)

lemma relation_at_snoc:
  assumes "ekey e \<notin> ekey ` set es" and "d = fk_direction (fe_key e)" and "d = 1 \<or> d = 2"
  shows "relation_at (es @ [e]) k =
    (if k = relation_key_from (fe_key e)
     then Some (if d = 1 then (unwrap_or (relation_at es k) no_relation)\<lparr>rel_ingress := Some (side_of e)\<rparr>
                else (unwrap_or (relation_at es k) no_relation)\<lparr>rel_egress := Some (side_of e)\<rparr>)
     else relation_at es k)"
  using assms
  by (auto simp: relation_at_def [of "es @ [e]"] side_at_snoc relation_at_default ekey_eq) (auto simp: relation_at_def)

lemma counters_add_sums:
  assumes "sums_to c d es"
  shows "fingerprint_counters_checked_add c p b =
     (if directed_sum d fv_packets es + unat p < 2 ^ 64 \<and> directed_sum d fv_bytes es + unat b < 2 ^ 64
      then Inr \<lparr>fc_packets = fc_packets c + p, fc_bytes = fc_bytes c + b\<rparr>
      else Inl (if directed_sum d fv_packets es + unat p < 2 ^ 64
                then InvalidObservation ''fingerprint byte aggregate overflow''
                else InvalidObservation ''fingerprint packet aggregate overflow''))"
  using assms by (simp add: fingerprint_counters_checked_add_def checked_add_def sums_to_def)

lemma sums_to_snoc:
  assumes "sums_to c d es" and "fk_direction (fe_key e) = d"
    and "directed_sum d fv_packets (es @ [e]) < 2 ^ 64" "directed_sum d fv_bytes (es @ [e]) < 2 ^ 64"
  shows "sums_to \<lparr>fc_packets = fc_packets c + fv_packets (fe_value e), fc_bytes = fc_bytes c + fv_bytes (fe_value e)\<rparr> d (es @ [e])"
  using assms by (simp add: sums_to_def directed_sum_snoc unat_add_fits)

lemma sums_to_other: "sums_to c d es \<Longrightarrow> fk_direction (fe_key e) \<noteq> d \<Longrightarrow> sums_to c d (es @ [e])"
  by (simp add: sums_to_def directed_sum_snoc)

lemma build_item_step:
  assumes inv: "build_inv r0 es st" and ok: "evidence_ok i g es"
  shows "(case build_item i g e st of
      Inr st' \<Rightarrow> evidence_ok i g (es @ [e]) \<and> build_inv r0 (es @ [e]) st'
    | Inl _ \<Rightarrow> \<not> evidence_ok i g (es @ [e]))"
proof -
  obtain r gs ex where st: "st = (r, gs, ex)" by (cases st)
  note i = inv [unfolded st build_inv_def prod.case]
  show ?thesis
  proof (cases "validate_evidence e i g = Inr () \<and> ekey e \<notin> ekey ` set es")
    case False
    then have "is_ok (build_item i g e st) = False"
      using i by (cases "validate_evidence e i g") (auto simp: st build_item_def Let_def ekey_def [symmetric])
    with False show ?thesis by (auto simp: evidence_ok_snoc is_ok_conv split: sum.split)
  next
    case True
    let ?d = "fk_direction (fe_key e)" and ?k = "relation_key_from (fe_key e)"
    have d: "?d = 1 \<or> ?d = 2" using True validate_evidence_direction by blast
    have new: "bt_get ex (ekey e) = None" using i True by blast
    have ex: "bt_wf (bt_insert (ekey e) () ex)"
      "\<forall>x. bt_get (bt_insert (ekey e) () ex) x \<noteq> None \<longleftrightarrow> x \<in> ekey ` set (es @ [e])"
      using i by (auto simp: bt_wf_insert bt_get_insert)
    have rel: "\<forall>k. bt_get (bt_insert ?k (if ?d = 1
         then (unwrap_or (bt_get gs ?k) no_relation)\<lparr>rel_ingress := Some (side_of e)\<rparr>
         else (unwrap_or (bt_get gs ?k) no_relation)\<lparr>rel_egress := Some (side_of e)\<rparr>) gs) k = relation_at (es @ [e]) k"
      using i True d by (simp add: bt_get_insert relation_at_snoc [OF _ refl])
    have ok': "evidence_ok i g (es @ [e]) \<longleftrightarrow>
        directed_sum ?d fv_packets es + unat (fv_packets (fe_value e)) < 2 ^ 64 \<and>
        directed_sum ?d fv_bytes es + unat (fv_bytes (fe_value e)) < 2 ^ 64"
      using ok True d by (auto simp: evidence_ok_snoc directed_sum_snoc evidence_ok_def)
    have sum: "sums_to (if ?d = 1 then fr_ingress r else fr_egress r) ?d es" using i d by auto
    define st' where "st' = (let gs' = bt_insert ?k (if ?d = 1
         then (unwrap_or (bt_get gs ?k) no_relation)\<lparr>rel_ingress := Some (side_of e)\<rparr>
         else (unwrap_or (bt_get gs ?k) no_relation)\<lparr>rel_egress := Some (side_of e)\<rparr>) gs;
         c = (if ?d = 1 then fr_ingress r else fr_egress r);
         c' = \<lparr>fc_packets = fc_packets c + fv_packets (fe_value e), fc_bytes = fc_bytes c + fv_bytes (fe_value e)\<rparr>
       in (if ?d = 1 then r\<lparr>fr_ingress := c'\<rparr> else r\<lparr>fr_egress := c'\<rparr>, gs', bt_insert (ekey e) () ex))"
    have step: "evidence_ok i g (es @ [e]) \<Longrightarrow> build_item i g e st = Inr st'"
      "\<not> evidence_ok i g (es @ [e]) \<Longrightarrow> \<not> is_ok (build_item i g e st)"
      unfolding ok' using True new d sum
      by (auto simp: st st'_def build_item_def Let_def ekey_def [symmetric] side_of_def counters_add_sums)
    have "build_inv r0 (es @ [e]) st'" if "evidence_ok i g (es @ [e])"
    proof -
      have "directed_sum ?d fv_packets (es @ [e]) < 2 ^ 64" "directed_sum ?d fv_bytes (es @ [e]) < 2 ^ 64"
        using that ok' by (simp_all add: directed_sum_snoc)
      note s = sums_to_snoc [OF sum refl this]
      show ?thesis
        using d
      proof
        assume d1: "?d = 1"
        then show ?thesis
          using i s rel ex sums_to_other [of "fr_egress r" 2 es e]
          by (auto simp: build_inv_def st'_def Let_def bt_wf_insert)
      next
        assume d2: "?d = 2"
        then show ?thesis
          using i s rel ex sums_to_other [of "fr_ingress r" 1 es e]
          by (auto simp: build_inv_def st'_def Let_def bt_wf_insert)
      qed
    qed
    with step show ?thesis
      by (cases "evidence_ok i g (es @ [e])"; cases "build_item i g e st") simp_all
  qed
qed

lemma build_fold:
  assumes "fr_ingress r0 = no_fingerprint_counters" "fr_egress r0 = no_fingerprint_counters"
  shows "(case rfold (build_item i g) es (r0, [], []) of
      Inr st \<Rightarrow> evidence_ok i g es \<and> build_inv r0 es st
    | Inl _ \<Rightarrow> \<not> evidence_ok i g es)"
proof (induction es rule: rev_induct)
  case Nil
  then show ?case
    using assms by (simp add: evidence_ok_def build_inv_def directed_sum_def sums_to_def relation_at_def side_at_def
        no_fingerprint_counters_def)
next
  case (snoc e es)
  show ?case
  proof (cases "rfold (build_item i g) es (r0, [], [])")
    case (Inl x)
    with snoc show ?thesis by (simp add: rfold_append evidence_ok_snoc)
  next
    case (Inr st)
    with snoc have "evidence_ok i g es" "build_inv r0 es st" by auto
    note step = build_item_step [OF this(2,1), of e]
    show ?thesis
    proof (cases "build_item i g e st")
      case Inl
      with step \<open>rfold _ _ _ = Inr st\<close> show ?thesis by (simp add: rfold_append)
    next
      case (Inr st')
      with step \<open>rfold _ _ _ = Inr st\<close> show ?thesis by (simp add: rfold_append)
    qed
  qed
qed

section \<open>Tallies\<close>

definition rel_both :: "Relation \<Rightarrow> bool" where
  "rel_both r \<longleftrightarrow> rel_ingress r \<noteq> None \<and> rel_egress r \<noteq> None"

definition rel_repeated :: "Relation \<Rightarrow> bool" where
  "rel_repeated r \<longleftrightarrow> is_some_and (rel_ingress r) (\<lambda>s. 1 < fc_packets (sd_counters s))
     \<or> is_some_and (rel_egress r) (\<lambda>s. 1 < fc_packets (sd_counters s))"

definition rel_order :: "(u64 \<Rightarrow> u64 \<Rightarrow> bool) \<Rightarrow> Relation \<Rightarrow> bool" where
  "rel_order R r \<longleftrightarrow> rel_both r \<and> R (sd_first_seen_ns (the (rel_ingress r))) (sd_first_seen_ns (the (rel_egress r)))"

definition tally :: "(Relation \<Rightarrow> bool) \<Rightarrow> Relation list \<Rightarrow> nat" where
  "tally P rs = length (filter P rs)"

definition tallies :: "Relation list \<Rightarrow> FingerprintReport \<Rightarrow> FingerprintReport \<Rightarrow> bool" where
  "tallies rs r r' \<longleftrightarrow>
     unat (fr_repeated_relation_count r') = unat (fr_repeated_relation_count r) + tally rel_repeated rs \<and>
     unat (fr_ingress_only_relation_count r') =
       unat (fr_ingress_only_relation_count r) + tally (\<lambda>x. rel_egress x = None) rs \<and>
     unat (fr_egress_only_relation_count r') =
       unat (fr_egress_only_relation_count r) + tally (\<lambda>x. rel_ingress x = None) rs \<and>
     unat (fr_correlated_relation_count r') = unat (fr_correlated_relation_count r) + tally rel_both rs \<and>
     unat (fr_ingress_first_relation_count r') = unat (fr_ingress_first_relation_count r) + tally (rel_order (<)) rs \<and>
     unat (fr_egress_first_relation_count r') = unat (fr_egress_first_relation_count r) + tally (rel_order (>)) rs \<and>
     unat (fr_simultaneous_relation_count r') = unat (fr_simultaneous_relation_count r) + tally (rel_order (=)) rs \<and>
     fr_captured_entry_count r' = fr_captured_entry_count r \<and> fr_relation_count r' = fr_relation_count r \<and>
     fr_ingress r' = fr_ingress r \<and> fr_egress r' = fr_egress r"

definition counts_below :: "nat \<Rightarrow> FingerprintReport \<Rightarrow> bool" where
  "counts_below n r \<longleftrightarrow> unat (fr_repeated_relation_count r) + n < 65536 \<and> unat (fr_ingress_only_relation_count r) + n < 65536
     \<and> unat (fr_egress_only_relation_count r) + n < 65536 \<and> unat (fr_correlated_relation_count r) + n < 65536
     \<and> unat (fr_ingress_first_relation_count r) + n < 65536 \<and> unat (fr_egress_first_relation_count r) + n < 65536
     \<and> unat (fr_simultaneous_relation_count r) + n < 65536"

lemma fp_increment_ok [simp]:
  "unat n + 1 < 65536 \<Longrightarrow> fp_increment n = Inr (n + 1)"
  "unat n + 1 < 65536 \<Longrightarrow> unat (n + 1 :: u16) = unat n + 1"
  by (simp_all add: fp_increment_def checked_add_def unat_word_ariths)

lemma accumulate_step:
  assumes c: "counts_below (Suc n) r" and "rel_ingress x \<noteq> None \<or> rel_egress x \<noteq> None"
  shows "\<exists>r'. accumulate_relation x r = Inr r' \<and> tallies [x] r r' \<and> counts_below n r'"
proof -
  note defs = accumulate_relation_def tallies_def tally_def rel_both_def rel_order_def counts_below_def Let_def
  have b: "unat (fr_repeated_relation_count r) + 1 < 65536" "unat (fr_ingress_only_relation_count r) + 1 < 65536"
    "unat (fr_egress_only_relation_count r) + 1 < 65536" "unat (fr_correlated_relation_count r) + 1 < 65536"
    "unat (fr_ingress_first_relation_count r) + 1 < 65536" "unat (fr_egress_first_relation_count r) + 1 < 65536"
    "unat (fr_simultaneous_relation_count r) + 1 < 65536"
    using c by (simp_all add: counts_below_def)
  consider (i) s where "rel_ingress x = Some s" "rel_egress x = None"
    | (e) s where "rel_ingress x = None" "rel_egress x = Some s"
    | (lt) s t where "rel_ingress x = Some s" "rel_egress x = Some t" "sd_first_seen_ns s < sd_first_seen_ns t"
    | (gt) s t where "rel_ingress x = Some s" "rel_egress x = Some t" "sd_first_seen_ns t < sd_first_seen_ns s"
    | (eq) s t where "rel_ingress x = Some s" "rel_egress x = Some t" "sd_first_seen_ns s = sd_first_seen_ns t"
    using assms(2) by (metis not_None_eq linorder_cases)
  then show ?thesis
  proof cases
    case i
    with c b show ?thesis by (cases "rel_repeated x") (simp_all add: defs rel_repeated_def)
  next
    case e
    with c b show ?thesis by (cases "rel_repeated x") (simp_all add: defs rel_repeated_def)
  next
    case lt
    with less_not_sym [OF lt(3)] less_imp_neq [OF lt(3)] c b show ?thesis by (cases "rel_repeated x") (simp_all add: defs rel_repeated_def)
  next
    case gt
    with less_not_sym [OF gt(3)] less_imp_neq [OF gt(3)] c b show ?thesis by (cases "rel_repeated x") (simp_all add: defs rel_repeated_def)
  next
    case eq
    with c b show ?thesis by (cases "rel_repeated x") (simp_all add: defs rel_repeated_def)
  qed
qed

lemma tallies_trans:
  assumes "tallies [x] r s" and "tallies xs s t"
  shows "tallies (x # xs) r t"
  using assms unfolding tallies_def tally_def by (auto split: if_splits)

lemma accumulate_fold:
  assumes "counts_below (length rs) r" and "\<forall>x \<in> set rs. rel_ingress x \<noteq> None \<or> rel_egress x \<noteq> None"
  shows "\<exists>r'. rfold accumulate_relation rs r = Inr r' \<and> tallies rs r r'"
  using assms
proof (induction rs arbitrary: r)
  case Nil
  then show ?case by (simp add: tallies_def tally_def)
next
  case (Cons x xs)
  then obtain s where s: "accumulate_relation x r = Inr s" "tallies [x] r s" "counts_below (length xs) s"
    using accumulate_step [of "length xs" r x] by auto
  with Cons obtain t where "rfold accumulate_relation xs s = Inr t" "tallies xs s t" by auto
  with s show ?case using tallies_trans by auto
qed

text \<open>Each record is one side of one relation.\<close>

lemma side_at_iff: "side_at es x \<noteq> None \<longleftrightarrow> x \<in> ekey ` set es"
  by (auto simp: side_at_def find_None_iff)

lemma sides_count:
  assumes wf: "bt_wf gs" and sel: "\<And>k. (\<exists>r. bt_get gs k = Some r \<and> P r) \<longleftrightarrow> ExactKey k d \<in> ekey ` set es"
    and dist: "distinct (map ekey es)"
  shows "tally P (map snd gs) = length (filter (\<lambda>e. fk_direction (fe_key e) = d) es)"
proof -
  let ?f = "filter (\<lambda>(k, r). P r) gs" and ?es = "filter (\<lambda>e. fk_direction (fe_key e) = d) es"
  let ?key = "\<lambda>e. relation_key_from (fe_key e)"
  have dgs: "distinct (map fst gs)" using wf by (rule bt_wf_distinct)
  then have df: "distinct (map fst ?f)" by (rule distinct_map_filter)
  have "distinct (map ekey ?es)" using dist by (rule distinct_map_filter)
  then have de: "distinct (map ?key ?es)"
    by (auto simp: distinct_map inj_on_def ekey_def exact_key_from_def)
  have "set (map fst ?f) = {k. \<exists>r. bt_get gs k = Some r \<and> P r}"
    using dgs by (force simp: map_of_eq_Some_iff)
  also have "\<dots> = set (map ?key ?es)"
  proof -
    have "k \<in> set (map ?key ?es) \<longleftrightarrow> ExactKey k d \<in> ekey ` set es" for k
      by (auto simp: image_iff ekey_eq eq_commute [of "ExactKey k d"])
    then show ?thesis unfolding sel by blast
  qed
  finally have "length (map fst ?f) = length (map ?key ?es)"
    using df de by (metis distinct_card)
  moreover have "tally P (map snd gs) = length ?f"
    by (simp add: tally_def filter_map o_def case_prod_unfold)
  ultimately show ?thesis by simp
qed

lemma tally_simps [simp]: "tally P [] = 0" "tally P (x # xs) = (if P x then 1 else 0) + tally P xs"
  by (simp_all add: tally_def)

lemma tally_one:
  assumes "rel_ingress x \<noteq> None \<or> rel_egress x \<noteq> None"
  shows "(1::nat) = (if rel_egress x = None then 1 else 0) + (if rel_ingress x = None then 1 else 0) + (if rel_both x then 1 else 0)"
    "(if rel_ingress x \<noteq> None then 1 else 0 :: nat) = (if rel_egress x = None then 1 else 0) + (if rel_both x then 1 else 0)"
    "(if rel_egress x \<noteq> None then 1 else 0 :: nat) = (if rel_ingress x = None then 1 else 0) + (if rel_both x then 1 else 0)"
    "(if rel_both x then 1 else 0 :: nat) = (if rel_order (<) x then 1 else 0) + (if rel_order (>) x then 1 else 0)
       + (if rel_order (=) x then 1 else 0)"
  using assms by (auto simp: rel_both_def rel_order_def)

lemma tally_split:
  assumes "\<forall>x \<in> set rs. rel_ingress x \<noteq> None \<or> rel_egress x \<noteq> None"
  shows "length rs = tally (\<lambda>x. rel_egress x = None) rs + tally (\<lambda>x. rel_ingress x = None) rs + tally rel_both rs \<and>
    tally (\<lambda>x. rel_ingress x \<noteq> None) rs = tally (\<lambda>x. rel_egress x = None) rs + tally rel_both rs \<and>
    tally (\<lambda>x. rel_egress x \<noteq> None) rs = tally (\<lambda>x. rel_ingress x = None) rs + tally rel_both rs \<and>
    tally rel_both rs = tally (rel_order (<)) rs + tally (rel_order (>)) rs + tally (rel_order (=)) rs \<and>
    tally rel_repeated rs \<le> length rs"
  using assms
proof (induction rs)
  case (Cons x xs)
  have "rel_ingress x \<noteq> None \<or> rel_egress x \<noteq> None" using Cons.prems by simp
  note one = tally_one [OF this]
  have "tally rel_repeated (x # xs) \<le> length (x # xs)" unfolding tally_def by (rule length_filter_le)
  moreover have "\<forall>x \<in> set xs. rel_ingress x \<noteq> None \<or> rel_egress x \<noteq> None" using Cons.prems by simp
  note Cons.IH [OF this]
  ultimately show ?case using one unfolding tally_simps list.size by (elim conjE, intro conjI) linarith+
qed simp

lemma relation_at_sides:
  assumes "bt_wf gs" "\<forall>k. bt_get gs k = relation_at es k"
  shows "\<forall>x \<in> set (map snd gs). rel_ingress x \<noteq> None \<or> rel_egress x \<noteq> None"
proof
  fix x assume "x \<in> set (map snd gs)"
  then obtain k where "(k, x) \<in> set gs" by auto
  then have "bt_get gs k = Some x" using bt_wf_distinct [OF assms(1)] by simp
  then show "rel_ingress x \<noteq> None \<or> rel_egress x \<noteq> None"
    using assms(2) by (auto simp: relation_at_def split: if_splits)
qed

lemma relation_at_side:
  "(\<exists>r. relation_at es k = Some r \<and> rel_ingress r \<noteq> None) \<longleftrightarrow> ExactKey k 1 \<in> ekey ` set es"
  "(\<exists>r. relation_at es k = Some r \<and> rel_egress r \<noteq> None) \<longleftrightarrow> ExactKey k 2 \<in> ekey ` set es"
  unfolding side_at_iff [symmetric] by (auto simp: relation_at_def)

lemma groups_sides:
  assumes "bt_wf gs" "\<forall>k. bt_get gs k = relation_at es k" "distinct (map ekey es)"
    and "\<forall>e \<in> set es. fk_direction (fe_key e) = 1 \<or> fk_direction (fe_key e) = 2"
  shows "tally (\<lambda>x. rel_ingress x \<noteq> None) (map snd gs) = length (filter (\<lambda>e. fk_direction (fe_key e) = 1) es)"
    "tally (\<lambda>x. rel_egress x \<noteq> None) (map snd gs) = length (filter (\<lambda>e. fk_direction (fe_key e) = 2) es)"
    "length es = length (filter (\<lambda>e. fk_direction (fe_key e) = 1) es) + length (filter (\<lambda>e. fk_direction (fe_key e) = 2) es)"
proof -
  show "tally (\<lambda>x. rel_ingress x \<noteq> None) (map snd gs) = length (filter (\<lambda>e. fk_direction (fe_key e) = 1) es)"
    by (rule sides_count [OF assms(1) _ assms(3)]) (simp only: assms(2) relation_at_side)
  show "tally (\<lambda>x. rel_egress x \<noteq> None) (map snd gs) = length (filter (\<lambda>e. fk_direction (fe_key e) = 2) es)"
    by (rule sides_count [OF assms(1) _ assms(3)]) (simp only: assms(2) relation_at_side)
  show "length es = length (filter (\<lambda>e. fk_direction (fe_key e) = 1) es) + length (filter (\<lambda>e. fk_direction (fe_key e) = 2) es)"
    using assms(4) by (induction es) auto
qed

section \<open>The whole report\<close>

lemma empty_counters [simp]:
  "fr_ingress fingerprint_report_empty = no_fingerprint_counters" "fr_egress fingerprint_report_empty = no_fingerprint_counters"
  by (simp_all add: fingerprint_report_empty_def)

lemma groups_bounded:
  assumes "bt_wf gs" "\<forall>k. bt_get gs k = relation_at es k" "distinct (map ekey es)"
    "\<forall>e \<in> set es. fk_direction (fe_key e) = 1 \<or> fk_direction (fe_key e) = 2"
  shows "length gs \<le> length es"
  using tally_split [OF relation_at_sides [OF assms(1,2)]] groups_sides [OF assms] length_map [of snd gs]
  by (elim conjE) linarith

definition report_of :: "FingerprintEvidence list \<Rightarrow> Relation list \<Rightarrow> FingerprintReport \<Rightarrow> bool" where
  "report_of es rs r \<longleftrightarrow>
     unat (fr_captured_entry_count r) = length es \<and> unat (fr_relation_count r) = length rs \<and>
     sums_to (fr_ingress r) 1 es \<and> sums_to (fr_egress r) 2 es \<and>
     unat (fr_ingress_only_relation_count r) = tally (\<lambda>x. rel_egress x = None) rs \<and>
     unat (fr_egress_only_relation_count r) = tally (\<lambda>x. rel_ingress x = None) rs \<and>
     unat (fr_correlated_relation_count r) = tally rel_both rs \<and>
     unat (fr_ingress_first_relation_count r) = tally (rel_order (<)) rs \<and>
     unat (fr_egress_first_relation_count r) = tally (rel_order (>)) rs \<and>
     unat (fr_simultaneous_relation_count r) = tally (rel_order (=)) rs \<and>
     unat (fr_repeated_relation_count r) = tally rel_repeated rs"

lemma report_of_state: "report_of es rs (r\<lparr>fr_state := x\<rparr>) = report_of es rs r"
  by (simp add: report_of_def)

text \<open>The report as a function of the relations and the two sums.\<close>

definition finish_report ::
  "nat \<Rightarrow> FingerprintCounters \<Rightarrow> FingerprintCounters \<Rightarrow> Relation list \<Rightarrow> (DomainError, FingerprintReport) result" where
  "finish_report n ci ce rs =
     rbind (rfold accumulate_relation rs
              (fingerprint_report_empty\<lparr>fr_captured_entry_count := of_nat n, fr_ingress := ci, fr_egress := ce,
                 fr_relation_count := of_nat (length rs)\<rparr>))
       (\<lambda>r. Inr (if fr_captured_entry_count r \<noteq> 0 then r\<lparr>fr_state := FpObserved\<rparr> else r))"

lemma fp_count_ok: "n \<le> 8192 \<Longrightarrow> fp_count n = Inr (of_nat n)" "n \<le> 8192 \<Longrightarrow> unat (of_nat n :: u16) = n"
  by (simp_all add: fp_count_def try_from_usize_def unat_small)

lemma build_normal:
  assumes "i \<noteq> 0" "g \<noteq> 0" "length es \<le> 8192" and ok: "evidence_ok i g es"
  obtains gs ci ce where "bt_wf gs" "\<forall>k. bt_get gs k = relation_at es k" "sums_to ci 1 es" "sums_to ce 2 es"
    "length gs \<le> length es" "fingerprint_report_build i g es = finish_report (length es) ci ce (map snd gs)"
proof -
  let ?r0 = "fingerprint_report_empty\<lparr>fr_captured_entry_count := of_nat (length es)\<rparr>"
  have "(case rfold (build_item i g) es (?r0, [], []) of
      Inr st \<Rightarrow> evidence_ok i g es \<and> build_inv ?r0 es st | Inl _ \<Rightarrow> \<not> evidence_ok i g es)"
    by (rule build_fold) simp_all
  with ok obtain r gs ex where fold: "rfold (build_item i g) es (?r0, [], []) = Inr (r, gs, ex)"
    and inv: "build_inv ?r0 es (r, gs, ex)"
    by (cases "rfold (build_item i g) es (?r0, [], [])") auto
  then have gs: "bt_wf gs" "\<forall>k. bt_get gs k = relation_at es k"
    and eq: "r\<lparr>fr_ingress := fr_ingress ?r0, fr_egress := fr_egress ?r0\<rparr> = ?r0"
    and sums: "sums_to (fr_ingress r) 1 es" "sums_to (fr_egress r) 2 es"
    by (auto simp: build_inv_def)
  from arg_cong [OF eq, of "\<lambda>x. x\<lparr>fr_ingress := fr_ingress r, fr_egress := fr_egress r\<rparr>"]
  have r: "r = ?r0\<lparr>fr_ingress := fr_ingress r, fr_egress := fr_egress r\<rparr>" by simp
  have dirs: "\<forall>e \<in> set es. fk_direction (fe_key e) = 1 \<or> fk_direction (fe_key e) = 2" and dist: "distinct (map ekey es)"
    using ok validate_evidence_direction by (auto simp: evidence_ok_def list_all_iff)
  have len: "length gs \<le> length es" by (rule groups_bounded [OF gs dist dirs])
  have "r\<lparr>fr_relation_count := of_nat (length gs)\<rparr> = fingerprint_report_empty\<lparr>fr_captured_entry_count := of_nat (length es),
      fr_ingress := fr_ingress r, fr_egress := fr_egress r, fr_relation_count := of_nat (length (map snd gs))\<rparr>"
    by (subst r) simp
  with assms(1-3) len have "fingerprint_report_build i g es = finish_report (length es) (fr_ingress r) (fr_egress r) (map snd gs)"
    by (simp add: fingerprint_report_build_def finish_report_def fold fp_count_ok)
  with gs sums len show thesis by (rule that)
qed

lemma finish_report_ok:
  assumes "length es \<le> 8192" "length rs \<le> length es" "sums_to ci 1 es" "sums_to ce 2 es"
    and "\<forall>x \<in> set rs. rel_ingress x \<noteq> None \<or> rel_egress x \<noteq> None"
  shows "\<exists>r. finish_report (length es) ci ce rs = Inr r \<and> report_of es rs r"
proof -
  let ?r1 = "fingerprint_report_empty\<lparr>fr_captured_entry_count := of_nat (length es), fr_ingress := ci, fr_egress := ce,
    fr_relation_count := of_nat (length rs)\<rparr>"
  have "counts_below (length rs) ?r1" using assms by (simp add: counts_below_def fingerprint_report_empty_def)
  then obtain r2 where r2: "rfold accumulate_relation rs ?r1 = Inr r2" "tallies rs ?r1 r2"
    using accumulate_fold assms(5) by blast
  have "unat (of_nat (length es) :: u16) = length es" "unat (of_nat (length rs) :: u16) = length rs"
    using assms by (simp_all add: unat_small)
  then have "report_of es rs r2"
    using r2(2) assms by (simp add: tallies_def report_of_def fingerprint_report_empty_def)
  with r2(1) show ?thesis by (simp add: finish_report_def report_of_state)
qed

lemma build_rejects:
  assumes "\<not> (i \<noteq> 0 \<and> g \<noteq> 0 \<and> length es \<le> 8192 \<and> evidence_ok i g es)"
  shows "\<exists>e. fingerprint_report_build i g es = Inl e"
proof (cases "i \<noteq> 0 \<and> g \<noteq> 0 \<and> length es \<le> 8192")
  case True
  let ?r0 = "fingerprint_report_empty\<lparr>fr_captured_entry_count := of_nat (length es)\<rparr>"
  have "(case rfold (build_item i g) es (?r0, [], []) of
      Inr st \<Rightarrow> evidence_ok i g es \<and> build_inv ?r0 es st | Inl _ \<Rightarrow> \<not> evidence_ok i g es)"
    by (rule build_fold) simp_all
  with True assms obtain e where "rfold (build_item i g) es (?r0, [], []) = Inl e"
    by (auto split: sum.splits)
  with True show ?thesis by (simp add: fingerprint_report_build_def fp_count_ok)
qed (auto simp: fingerprint_report_build_def)

lemma build_accepts:
  assumes "i \<noteq> 0" "g \<noteq> 0" "length es \<le> 8192" "evidence_ok i g es"
  shows "\<exists>r gs. fingerprint_report_build i g es = Inr r \<and> bt_wf gs \<and> (\<forall>k. bt_get gs k = relation_at es k) \<and>
    report_of es (map snd gs) r"
proof -
  obtain gs ci ce where gs: "bt_wf gs" "\<forall>k. bt_get gs k = relation_at es k" "sums_to ci 1 es" "sums_to ce 2 es"
    "length gs \<le> length es" "fingerprint_report_build i g es = finish_report (length es) ci ce (map snd gs)"
    using build_normal [OF assms] .
  then show ?thesis
    using finish_report_ok [OF assms(3) _ gs(3,4) relation_at_sides [OF gs(1,2)]] by auto
qed

lemma build_ok_iff:
  "is_ok (fingerprint_report_build i g es) \<longleftrightarrow> i \<noteq> 0 \<and> g \<noteq> 0 \<and> length es \<le> 8192 \<and> evidence_ok i g es"
proof (cases "i \<noteq> 0 \<and> g \<noteq> 0 \<and> length es \<le> 8192 \<and> evidence_ok i g es")
  case True
  with build_accepts [of i g es] show ?thesis by auto
next
  case False
  with build_rejects [OF False] show ?thesis by auto
qed

section \<open>Properties\<close>

text \<open>
  Exactly which scans make a report: a non-zero identity, at most 8192 records, each of them
  well formed and for this interface and generation, no two with the same key and direction, and
  directional sums that fit 64 bits. No relation counter can overflow.
\<close>

theorem fingerprint_report_accepts:
  "is_ok (fingerprint_report_build ifindex generation evidence) \<longleftrightarrow>
     ifindex \<noteq> 0 \<and> generation \<noteq> 0 \<and> length evidence \<le> 8192 \<and> evidence_ok ifindex generation evidence"
  by (rule build_ok_iff)

text \<open>
  The counters of a report add up: every relation is ingress-only, egress-only or correlated,
  every correlated relation is ingress-first, egress-first or simultaneous, every record is one side of
  one relation, and the directional counters are the exact sums over the records of that direction.
\<close>

theorem fingerprint_report_adds_up:
  "(case fingerprint_report_build ifindex generation evidence of
      Inl e \<Rightarrow> True
    | Inr r \<Rightarrow>
        unat (fr_relation_count r) = unat (fr_ingress_only_relation_count r) + unat (fr_egress_only_relation_count r)
          + unat (fr_correlated_relation_count r) \<and>
        unat (fr_correlated_relation_count r) = unat (fr_ingress_first_relation_count r)
          + unat (fr_egress_first_relation_count r) + unat (fr_simultaneous_relation_count r) \<and>
        unat (fr_captured_entry_count r) = length evidence \<and>
        length evidence = unat (fr_ingress_only_relation_count r) + unat (fr_egress_only_relation_count r)
          + 2 * unat (fr_correlated_relation_count r) \<and>
        unat (fr_repeated_relation_count r) \<le> unat (fr_relation_count r) \<and>
        unat (fc_packets (fr_ingress r)) = directed_sum 1 fv_packets evidence \<and>
        unat (fc_bytes (fr_ingress r)) = directed_sum 1 fv_bytes evidence \<and>
        unat (fc_packets (fr_egress r)) = directed_sum 2 fv_packets evidence \<and>
        unat (fc_bytes (fr_egress r)) = directed_sum 2 fv_bytes evidence)"
proof (cases "fingerprint_report_build ifindex generation evidence")
  case (Inr r)
  then have c: "ifindex \<noteq> 0" "generation \<noteq> 0" "length evidence \<le> 8192" "evidence_ok ifindex generation evidence"
    using build_ok_iff [of ifindex generation evidence] by simp_all
  obtain gs where gs: "bt_wf gs" "\<forall>k. bt_get gs k = relation_at evidence k" and rep: "report_of evidence (map snd gs) r"
    using build_accepts [OF c] Inr by auto
  have dirs: "\<forall>e \<in> set evidence. fk_direction (fe_key e) = 1 \<or> fk_direction (fe_key e) = 2"
    and dist: "distinct (map ekey evidence)"
    using c(4) validate_evidence_direction by (auto simp: evidence_ok_def list_all_iff)
  have "length evidence = unat (fr_ingress_only_relation_count r) + unat (fr_egress_only_relation_count r)
      + 2 * unat (fr_correlated_relation_count r)"
    using tally_split [OF relation_at_sides [OF gs]] groups_sides [OF gs dist dirs] rep
    unfolding report_of_def by (elim conjE) linarith
  then show ?thesis
    using tally_split [OF relation_at_sides [OF gs]] rep Inr by (simp add: report_of_def sums_to_def)
qed simp

lemma side_at_perm:
  assumes "mset es = mset fs" "distinct (map ekey es)"
  shows "side_at es x = side_at fs x"
proof -
  have set: "set es = set fs" using assms(1) by (rule mset_eq_setD)
  have uniq: "side_at gs x = Some s \<longleftrightarrow> (\<exists>e \<in> set gs. ekey e = x \<and> s = side_of e)" if "distinct (map ekey gs)" for gs s
    using that by (induction gs) (auto simp: side_at_def image_iff)
  have "mset (map ekey es) = mset (map ekey fs)" using assms(1) by simp
  then have "distinct (map ekey fs)" using assms(2) mset_eq_imp_distinct_iff by blast
  then have "side_at es x = Some s \<longleftrightarrow> side_at fs x = Some s" for s
    using uniq assms(2) set by simp
  then show ?thesis by (metis option.exhaust)
qed

lemma directed_sum_perm: "mset es = mset fs \<Longrightarrow> directed_sum d sel es = directed_sum d sel fs"
proof -
  assume "mset es = mset fs"
  then have "mset (map (\<lambda>e. unat (sel (fe_value e))) (filter (\<lambda>e. fk_direction (fe_key e) = d) es)) =
      mset (map (\<lambda>e. unat (sel (fe_value e))) (filter (\<lambda>e. fk_direction (fe_key e) = d) fs))" by simp
  then show ?thesis unfolding directed_sum_def by (simp only: sum_mset_sum_list [symmetric])
qed

lemma evidence_ok_perm:
  assumes "mset es = mset fs"
  shows "evidence_ok i g es = evidence_ok i g fs"
proof -
  have "distinct (map ekey es) = distinct (map ekey fs)" using assms by (intro mset_eq_imp_distinct_iff) simp
  then show ?thesis
    using mset_eq_setD [OF assms] directed_sum_perm [OF assms] by (simp add: evidence_ok_def list_all_iff)
qed

lemma sums_to_unique: "sums_to c d es \<Longrightarrow> sums_to c' d es \<Longrightarrow> c = c'"
  by (simp add: sums_to_def word_unat_eq_iff)

lemma build_perm:
  assumes perm: "mset es = mset fs" and "fingerprint_report_build i g es = Inr r"
  shows "fingerprint_report_build i g fs = Inr r"
proof -
  have c: "i \<noteq> 0" "g \<noteq> 0" "length es \<le> 8192" "evidence_ok i g es"
    using assms(2) build_ok_iff [of i g es] by simp_all
  have len: "length fs = length es" using perm by (metis size_mset)
  have d: "i \<noteq> 0" "g \<noteq> 0" "length fs \<le> 8192" "evidence_ok i g fs"
    using c evidence_ok_perm [OF perm] by (simp_all add: len)
  obtain gs ci ce where gs: "bt_wf gs" "\<forall>k. bt_get gs k = relation_at es k" "sums_to ci 1 es" "sums_to ce 2 es"
    "fingerprint_report_build i g es = finish_report (length es) ci ce (map snd gs)"
    using build_normal [OF c] .
  obtain hs di de where hs: "bt_wf hs" "\<forall>k. bt_get hs k = relation_at fs k" "sums_to di 1 fs" "sums_to de 2 fs"
    "fingerprint_report_build i g fs = finish_report (length fs) di de (map snd hs)"
    using build_normal [OF d] .
  have "relation_at es k = relation_at fs k" for k
    using side_at_perm [OF perm] c(4) by (simp add: relation_at_def evidence_ok_def)
  then have "gs = hs" using gs(1,2) hs(1,2) by (intro bt_wf_ext) auto
  moreover have "ci = di" "ce = de"
    using gs(3,4) hs(3,4) sums_to_unique directed_sum_perm [OF perm] by (simp_all add: sums_to_def word_unat_eq_iff)
  ultimately show ?thesis using gs(5) hs(5) assms(2) len by simp
qed

text \<open>
  The order in which the kernel map hands out its records does not matter: two scans with the
  same records give the same report, and either both make a report or neither does.
\<close>

theorem fingerprint_report_order_free:
  assumes "mset evidence = mset shuffled"
  shows "(case fingerprint_report_build ifindex generation evidence of
      Inr r \<Rightarrow> fingerprint_report_build ifindex generation shuffled = Inr r
    | Inl e \<Rightarrow> \<not> is_ok (fingerprint_report_build ifindex generation shuffled))"
proof (cases "fingerprint_report_build ifindex generation evidence")
  case (Inr r)
  with build_perm [OF assms Inr] show ?thesis by simp
next
  case (Inl e)
  moreover have "fingerprint_report_build ifindex generation shuffled \<noteq> Inr r" for r
    using build_perm [OF assms [symmetric], of ifindex generation r] Inl by auto
  ultimately show ?thesis by (cases "fingerprint_report_build ifindex generation shuffled") auto
qed

definition sample_evidence :: "u8 \<Rightarrow> u64 \<Rightarrow> FingerprintEvidence" where
  "sample_evidence direction first_seen =
     \<lparr>fe_key = \<lparr>fk_interface_generation = 1, fk_fingerprint = 16, fk_ifindex = 2, fk_outer_vlan_id = NO_VLAN,
        fk_ether_type = 0x0806, fk_frame_len = 60, fk_direction = direction, fk_vlan_depth = 0, fk_protocol = 0,
        fk_subtype = 1, fk_reserved = replicate 2 0\<rparr>,
      fe_value = \<lparr>fv_first_seen_ns = first_seen, fv_last_seen_ns = 100, fv_packets = 2, fv_bytes = 120,
        fv_source_mac = Arr6 2 0 0 0 0 1, fv_destination_mac = Arr6 255 255 255 255 255 255, fv_reserved = replicate 4 0\<rparr>\<rparr>"

lemma sample_evidence_ok: "evidence_ok 2 1 [sample_evidence 1 9, sample_evidence 2 5]"
  by (simp add: evidence_ok_def sample_evidence_def validate_evidence_def directed_sum_def ekey_def exact_key_from_def
      relation_key_from_def Let_def)

theorem fingerprint_report_order_free_witness:
  "let a = sample_evidence 1 9; b = sample_evidence 2 5
   in is_ok (fingerprint_report_build 2 1 [a, b]) \<and> fingerprint_report_build 2 1 [a, b] = fingerprint_report_build 2 1 [b, a]"
proof -
  let ?a = "sample_evidence 1 9" and ?b = "sample_evidence 2 5"
  have "is_ok (fingerprint_report_build 2 1 [?a, ?b])" using sample_evidence_ok by (simp add: build_ok_iff)
  then obtain r where "fingerprint_report_build 2 1 [?a, ?b] = Inr r" by (auto simp: is_ok_conv)
  moreover have "mset [?a, ?b] = mset [?b, ?a]" by simp
  note fingerprint_report_order_free [OF this, of 2 1]
  ultimately show ?thesis unfolding Let_def by simp
qed

section \<open>The records the kernel writes\<close>

text \<open>
  What the code relies on from the kernel: inserting into the LRU map may evict entries or refuse the
  new one, but stores no other value; the monotonic clock does not run backwards; and the linear data
  of a socket buffer is no longer than the buffer.
\<close>

definition lru_contract :: "lru_insert \<Rightarrow> bool" where
  "lru_contract lru \<longleftrightarrow> (\<forall>m k v k' v'. lru m k v k' = Some v' \<longrightarrow> (m(k \<mapsto> v)) k' = Some v')"

definition event_ok :: "PacketEvent \<Rightarrow> bool" where
  "event_ok e \<longleftrightarrow> length (pe_data e) < 2 ^ 64 \<and> \<not> (pe_hook e \<noteq> XdpIngress \<and> unat (pe_skb_len e) < length (pe_data e))"

definition record_ok :: "FingerprintKey \<Rightarrow> FingerprintValue \<Rightarrow> bool" where
  "record_ok k v \<longleftrightarrow>
     fk_reserved k = replicate 2 0 \<and> fv_reserved v = replicate 4 0 \<and> (fk_direction k = 1 \<or> fk_direction k = 2) \<and>
     fk_vlan_depth k \<le> 2 \<and> (fk_outer_vlan_id k = NO_VLAN \<or> fk_outer_vlan_id k \<le> 4095) \<and>
     fv_packets v \<noteq> 0 \<and> fv_packets v \<le> fv_bytes v \<and> fv_first_seen_ns v \<le> fv_last_seen_ns v"

definition records_inv :: "u64 \<Rightarrow> Maps \<Rightarrow> bool" where
  "records_inv t m \<longleftrightarrow> (\<forall>k v. fingerprints m k = Some v \<longrightarrow> record_ok k v \<and> fv_last_seen_ns v \<le> t)"

lemma masked_vid_le: "(x :: u16) AND 0x0fff \<le> 4095"
  unfolding word_le_def by (simp add: uint_and AND_upper2'')

lemma metadata_shape:
  "fm_vlan_depth (fixed_fingerprint_metadata f) \<le> 2"
  "fm_outer_vlan_id (fixed_fingerprint_metadata f) = NO_VLAN \<or> fm_outer_vlan_id (fixed_fingerprint_metadata f) \<le> 4095"
  using masked_vid_le by (auto simp: fixed_fingerprint_metadata_def Let_def split: prod.split)

lemma saturating_positive:
  fixes p b x :: u64
  assumes "p \<noteq> 0" "p \<le> b" "1 \<le> x"
  shows "saturating_add p 1 \<noteq> 0" "saturating_add p 1 \<le> saturating_add b x"
proof -
  have u: "unat (saturating_add p 1) = min (unat p + 1) (2 ^ 64 - 1)" by (simp add: saturating_add_unat)
  have "0 < unat p" using assms(1) by (simp add: unat_gt_0)
  then have "unat (saturating_add p 1) \<noteq> 0" unfolding u by simp
  then show "saturating_add p 1 \<noteq> 0" by auto
  have "unat p \<le> unat b" "1 \<le> unat x" using assms(2,3) by (simp_all add: word_le_nat_alt)
  then show "saturating_add p 1 \<le> saturating_add b x"
    unfolding word_le_nat_alt u saturating_add_unat by simp
qed

lemma lru_stored: "lru_contract lru \<Longrightarrow> lru m k v k' = Some v' \<Longrightarrow> k' = k \<and> v' = v \<or> m k' = Some v'"
  unfolding lru_contract_def by (metis fun_upd_apply option.inject)

lemma records_inv_fingerprint:
  assumes lru: "lru_contract lru" and inv: "records_inv t m" and "t \<le> now" and d: "d = 1 \<or> d = 2"
    and bytes: "60 \<le> length data \<Longrightarrow> 1 \<le> bytes"
  shows "records_inv now (account_fingerprint lru now g i d bytes data m)"
proof -
  have old: "record_ok k v \<and> fv_last_seen_ns v \<le> now" if "fingerprints m k = Some v" for k v
    using inv that assms(3) by (auto simp: records_inv_def intro: order_trans)
  then have same: "records_inv now m" by (simp add: records_inv_def)
  show ?thesis
  proof (cases "try_from_word bytes :: u16 option")
    case None
    then show ?thesis using same by (simp add: account_fingerprint_def)
  next
    case (Some len)
    show ?thesis
    proof (cases "packet_prefix 60 data")
      case None
      then show ?thesis using same Some by (simp add: account_fingerprint_def)
    next
      case frame: (Some f)
      let ?h = "fixed_fingerprint_hash len f" and ?m = "fixed_fingerprint_metadata f"
      let ?k = "\<lparr>fk_interface_generation = g, fk_fingerprint = ?h, fk_ifindex = i, fk_outer_vlan_id = fm_outer_vlan_id ?m,
        fk_ether_type = fm_ether_type ?m, fk_frame_len = len, fk_direction = d, fk_vlan_depth = fm_vlan_depth ?m,
        fk_protocol = fm_protocol ?m, fk_subtype = fm_subtype ?m, fk_reserved = replicate 2 0\<rparr>"
      let ?new = "\<lparr>fv_first_seen_ns = now, fv_last_seen_ns = now, fv_packets = 1, fv_bytes = bytes,
        fv_source_mac = fm_source_mac ?m, fv_destination_mac = fm_destination_mac ?m, fv_reserved = replicate 4 0\<rparr>"
      have b: "1 \<le> bytes" using frame bytes by (simp add: packet_prefix_Some)
      have new: "record_ok ?k ?new" using metadata_shape [of f] d b by (auto simp: record_ok_def)
      show ?thesis
      proof (cases "fingerprint_selected ?h")
        case False
        then show ?thesis using same Some frame by (simp add: account_fingerprint_def)
      next
        case sel: True
        show ?thesis
        proof (cases "fingerprints m ?k")
          case None
          have "record_ok k v \<and> fv_last_seen_ns v \<le> now" if "lru (fingerprints m) ?k ?new k = Some v" for k v
            using lru_stored [OF lru that] new old [of k v] by auto
          then show ?thesis
            using Some frame sel None by (simp add: account_fingerprint_def records_inv_def Let_def)
        next
          case (Some v)
          let ?v = "v\<lparr>fv_last_seen_ns := now, fv_packets := saturating_add (fv_packets v) 1,
                fv_bytes := saturating_add (fv_bytes v) bytes\<rparr>"
          have "record_ok ?k ?v"
            using old [OF Some] saturating_positive [of "fv_packets v" "fv_bytes v" bytes] b
            by (auto simp: record_ok_def intro: order_trans)
          then show ?thesis
            using \<open>try_from_word bytes = Some len\<close> frame sel Some old
            by (simp add: account_fingerprint_def records_inv_def Let_def)
        qed
      qed
    qed
  qed
qed

lemma records_inv_other: "fingerprints n = fingerprints m \<Longrightarrow> records_inv t n = records_inv t m"
  by (simp add: records_inv_def)

lemma fingerprints_unchanged [simp]:
  "fingerprints (increment_existing cpu k b m) = fingerprints m"
  "fingerprints (promote_vlan_visibility i g m) = fingerprints m"
  by (simp_all add: increment_existing_def promote_vlan_visibility_def split: option.split)

lemma records_inv_packet:
  assumes lru: "lru_contract lru" and inv: "records_inv t m" and t: "t \<le> pe_now_ns e" and ok: "event_ok e"
  shows "records_inv (pe_now_ns e) (packet_step lru m e)"
proof -
  have later: "records_inv (pe_now_ns e) n" if "fingerprints n = fingerprints m" for n
    using inv t that by (auto simp: records_inv_def intro: order_trans)
  have bytes: "1 \<le> event_bytes e" if "60 \<le> length (pe_data e)"
  proof (cases "pe_hook e = XdpIngress")
    case True
    then have "unat (event_bytes e) = length (pe_data e)"
      using ok by (simp add: event_bytes_def event_ok_def unat_of_nat)
    with that show ?thesis by (simp add: word_le_nat_alt)
  next
    case False
    then have "unat (event_bytes e) = unat (pe_skb_len e)" by (simp add: event_bytes_def unat_widen)
    with that ok False show ?thesis by (simp add: word_le_nat_alt event_ok_def)
  qed
  have fp: "records_inv (pe_now_ns e) (account_fingerprint lru (pe_now_ns e) g (pe_ifindex e) d (event_bytes e) (pe_data e) n)"
    if "fingerprints n = fingerprints m" "d = 1 \<or> d = 2" for n g d
    by (rule records_inv_fingerprint [OF lru _ t that(2) bytes]) (use inv that(1) in \<open>simp_all add: records_inv_def\<close>)
  show ?thesis
    unfolding packet_step_layer account_layer_def by (simp add: Let_def fp later split: option.split)
qed

lemma records_inv_run:
  assumes "lru_contract lru"
  shows "records_inv t m \<Longrightarrow> sorted (t # map pe_now_ns events) \<Longrightarrow> list_all event_ok events \<Longrightarrow>
    \<exists>t'. records_inv t' (foldl (packet_step lru) m events)"
proof (induction events arbitrary: t m)
  case (Cons e events)
  then have "records_inv (pe_now_ns e) (packet_step lru m e)"
    by (intro records_inv_packet [OF assms]) auto
  with Cons show ?case by simp
qed auto

lemma record_validates:
  "record_ok k v \<Longrightarrow>
     is_ok (validate_evidence \<lparr>fe_key = k, fe_value = v\<rparr> (fk_ifindex k) (fk_interface_generation k)) \<longleftrightarrow> fk_outer_vlan_id k \<noteq> 4095"
proof -
  assume r: "record_ok k v"
  have "fk_outer_vlan_id k \<le> 4094 \<longleftrightarrow> fk_outer_vlan_id k \<le> 4095 \<and> fk_outer_vlan_id k \<noteq> 4095"
    by (auto simp: word_le_nat_alt word_unat_eq_iff)
  with r show ?thesis by (auto simp: record_ok_def validate_evidence_def Let_def not_less)
qed

text \<open>
  \<^bold>\<open>C40.\<close> Kernel and user space agree on the shape of a record up to one VLAN identifier. Whatever
  packets the programs sampled since the map was empty, with whatever evictions, user space accepts a
  record it finds in the map exactly when its VLAN identifier is not 4095: the programs store the twelve
  tag bits as they are, while the validation stops at 4094, so a single sampled frame tagged with the
  reserved identifier 4095 makes the scan that contains it fail.
\<close>

theorem kernel_records_accepted:
  assumes "lru_contract lru" and "fingerprints m = Map.empty"
    and "sorted (map pe_now_ns events)" and "list_all event_ok events"
    and "fingerprints (foldl (packet_step lru) m events) k = Some v"
  shows "is_ok (validate_evidence \<lparr>fe_key = k, fe_value = v\<rparr> (fk_ifindex k) (fk_interface_generation k))
    \<longleftrightarrow> fk_outer_vlan_id k \<noteq> 4095"
proof -
  have "records_inv 0 m" using assms(2) by (simp add: records_inv_def)
  moreover have "sorted (0 # map pe_now_ns events)" using assms(3) by simp
  ultimately obtain t where "records_inv t (foldl (packet_step lru) m events)"
    using records_inv_run [OF assms(1)] assms(4) by blast
  then have "record_ok k v" using assms(5) by (simp add: records_inv_def)
  then show ?thesis by (rule record_validates)
qed

text \<open>A broadcast frame of sixty bytes, tagged with VLAN identifier 4095, that the programs sample.\<close>

definition reserved_vid_frame :: "u8 list" where
  "reserved_vid_frame =
     [0xff, 0xff, 0xff, 0xff, 0xff, 0xff, 0xff, 0xff, 0xff, 0xff, 0xff, 0xff, 0x81, 0, 0x0f, 0xff, 0, 0, 0, 0,
      0, 0, 0, 0, 0, 0, 0, 0, 0, 0, 0, 0, 0, 0, 0, 0, 0, 0, 0, 0, 0, 0, 0, 0, 0, 0, 0, 0, 0, 0, 0, 0, 0, 0, 0, 0, 0, 0, 0, 6]"

text \<open>The sampling decision only reads the low four bits of the hash, which can be followed on their own.\<close>

lemma low_bits_step:
  "(ucast (fingerprint_hash_step h b) :: 4 word) = (ucast h XOR ucast b) * 3"
proof -
  have "(ucast (FNV_PRIME :: u64) :: 4 word) = 3" by (simp add: FNV_PRIME_def)
  moreover have "(ucast (x * y) :: 4 word) = ucast x * ucast y" for x y :: u64
    by (simp add: word_unat_eq_iff unat_word_ariths unsigned_ucast_eq take_bit_eq_mod mod_mod_cancel) (simp add: mod_mult_eq)
  moreover have "(ucast (h XOR ucast b) :: 4 word) = ucast h XOR ucast b"
    by (simp add: bit_eq_iff bit_simps)
  ultimately show ?thesis
    by (simp add: fingerprint_hash_step_def)
qed

lemma low_bits_foldl:
  "(ucast (foldl fingerprint_hash_step h bs) :: 4 word) = foldl (\<lambda>x b. (x XOR ucast b) * 3) (ucast h) bs"
  by (induction bs arbitrary: h) (simp_all add: low_bits_step)

lemma reserved_vid_selected: "fingerprint_selected (fixed_fingerprint_hash 60 reserved_vid_frame)"
proof -
  have "length reserved_vid_frame = 60" by (simp add: reserved_vid_frame_def)
  note fixed_hash_eq [OF this, of 60]
  moreover have "(ucast (foldl fingerprint_hash_step (fingerprint_hash_init 60) reserved_vid_frame) :: 4 word) = 0"
    unfolding low_bits_foldl
    by (simp add: reserved_vid_frame_def fingerprint_hash_init_def low_bits_step FNV_OFFSET_BASIS_def)
  ultimately show ?thesis
    by (simp add: fingerprint_selected_iff unsigned_ucast_eq take_bit_eq_mod word_unat_eq_iff)
qed

lemma reserved_vid_stored:
  "\<exists>k v. fingerprints (packet_step (\<lambda>m k v. m(k \<mapsto> v)) (provisioned 1 2 1)
       \<lparr>pe_hook = XdpIngress, pe_cpu = 0, pe_now_ns = 7, pe_ifindex = 2, pe_skb_len = 0, pe_data = reserved_vid_frame\<rparr>) k = Some v
     \<and> fk_outer_vlan_id k = 4095"
proof -
  have len: "length reserved_vid_frame = 60" by (simp add: reserved_vid_frame_def)
  have prefix: "packet_prefix 60 reserved_vid_frame = Some reserved_vid_frame" by (simp add: packet_prefix_def len)
  have ok: "\<not> is_error (parse_packet reserved_vid_frame)"
    by (simp add: parse_packet_eq parse_l2_word_def reserved_vid_frame_def is_vlan_tpid_def be16_def is_error_def)
  have vid: "fm_outer_vlan_id (fixed_fingerprint_metadata reserved_vid_frame) = 4095"
    by (simp add: fixed_fingerprint_metadata_def reserved_vid_frame_def be16_def Let_def split: prod.split)
  have fits: "try_from_word (60 :: u64) = Some (60 :: u16)" by (simp add: try_from_word_def)
  have empty: "fingerprints n = Map.empty" if "fingerprints n = fingerprints (provisioned 1 2 1)" for n
    using that by (simp add: provisioned_def)
  have fp: "\<exists>k v. fingerprints (account_fingerprint (\<lambda>m k v. m(k \<mapsto> v)) 7 g 2 1 60 reserved_vid_frame n) k = Some v
      \<and> fk_outer_vlan_id k = 4095" if "fingerprints n = fingerprints (provisioned 1 2 1)" for n g
    using empty [OF that] vid
    by (simp add: account_fingerprint_def fits prefix reserved_vid_selected Let_def)
  have cfg: "iface_config (provisioned 1 2 1) 2 = Some (interface_config_new 1 0 2 0 0 0 4)" by (simp add: provisioned_def)
  show ?thesis
    unfolding packet_step_layer account_layer_def
    using ok by (simp add: cfg event_bytes_def len interface_config_new_def Let_def fp [simplified])
qed

theorem kernel_records_accepted_witness:
  "\<exists>k v. fingerprints (foldl (packet_step (\<lambda>m k v. m(k \<mapsto> v))) (provisioned 1 2 1)
       [\<lparr>pe_hook = XdpIngress, pe_cpu = 0, pe_now_ns = 7, pe_ifindex = 2, pe_skb_len = 0, pe_data = reserved_vid_frame\<rparr>]) k = Some v
     \<and> \<not> is_ok (validate_evidence \<lparr>fe_key = k, fe_value = v\<rparr> (fk_ifindex k) (fk_interface_generation k))"
proof -
  let ?lru = "\<lambda>m k v. m(k \<mapsto> v)"
  let ?e = "\<lparr>pe_hook = XdpIngress, pe_cpu = 0, pe_now_ns = 7, pe_ifindex = 2, pe_skb_len = 0, pe_data = reserved_vid_frame\<rparr>"
  obtain k v where k: "fingerprints (foldl (packet_step ?lru) (provisioned 1 2 1) [?e]) k = Some v" "fk_outer_vlan_id k = 4095"
    using reserved_vid_stored by auto
  have "lru_contract ?lru" by (simp add: lru_contract_def)
  moreover have "fingerprints (provisioned 1 2 1) = Map.empty" by (simp add: provisioned_def)
  moreover have "list_all event_ok [?e]" by (simp add: event_ok_def reserved_vid_frame_def)
  ultimately show ?thesis
    using kernel_records_accepted [of ?lru "provisioned 1 2 1" "[?e]" k v] k by auto
qed

end
