(* ===== verification/FingerprintWindow.thy ===== *)
theory FingerprintWindow
  imports Fingerprints
begin

text \<open>
  The fingerprint window (\<open>l2-loop-core/src/fingerprint_window.rs\<close>): two scans of the sampled records,
  ten to fifteen seconds apart, are subtracted record by record and summed into one directional window.
  A scan that cannot be trusted drops the stored endpoint and leaves a stable error code behind.
\<close>

section \<open>Definitions\<close>

definition DETECTION_FINGERPRINT_WINDOW_MS :: u64 where [simp]: "DETECTION_FINGERPRINT_WINDOW_MS = 10000"
definition DETECTION_FINGERPRINT_FRESHNESS_MS :: u64 where [simp]: "DETECTION_FINGERPRINT_FRESHNESS_MS = 15000"

datatype FingerprintWindowState = FwWarmingUp | FwReady | FwUnavailable

record FingerprintWindowReport =
  fw_state :: FingerprintWindowState
  fw_window_ms :: u64
  fw_coverage_ms :: u64
  fw_start_unix_ms :: "u64 option"
  fw_end_unix_ms :: "u64 option"
  fw_captured_entry_count :: u16
  fw_delta_relation_count :: u16
  fw_repeated_relation_count :: u16
  fw_egress_first_correlated_relation_count :: u16
  fw_ingress :: FingerprintCounters
  fw_egress :: FingerprintCounters
  fw_dominant_ingress_packet_ratio_milli :: "u64 option"
  fw_maximum_ingress_to_egress_packet_ratio_milli :: "u64 option"
  fw_last_error_code :: "string option"

definition window_warming :: FingerprintWindowReport where
  "window_warming =
     \<lparr>fw_state = FwWarmingUp, fw_window_ms = DETECTION_FINGERPRINT_WINDOW_MS, fw_coverage_ms = 0,
      fw_start_unix_ms = None, fw_end_unix_ms = None, fw_captured_entry_count = 0, fw_delta_relation_count = 0,
      fw_repeated_relation_count = 0, fw_egress_first_correlated_relation_count = 0,
      fw_ingress = \<lparr>fc_packets = 0, fc_bytes = 0\<rparr>, fw_egress = \<lparr>fc_packets = 0, fc_bytes = 0\<rparr>,
      fw_dominant_ingress_packet_ratio_milli = None, fw_maximum_ingress_to_egress_packet_ratio_milli = None,
      fw_last_error_code = None\<rparr>"

definition validate_error_code :: "string \<Rightarrow> (DomainError, unit) result" where
  "validate_error_code code =
     (if code = [] \<or> 64 < length code
         \<or> \<not> list_all (\<lambda>byte. is_ascii_uppercase byte \<or> is_ascii_digit byte \<or> byte = CHR ''_'') code
      then Inl (InvalidObservation ''detection error code is invalid'')
      else Inr ())"

definition window_unavailable :: "string \<Rightarrow> (DomainError, FingerprintWindowReport) result" where
  "window_unavailable code =
     rbind (validate_error_code code) (\<lambda>_.
     Inr (window_warming\<lparr>fw_state := FwUnavailable, fw_last_error_code := Some code\<rparr>))"

definition window_counters_are_empty :: "FingerprintWindowReport \<Rightarrow> bool" where
  "window_counters_are_empty r \<longleftrightarrow>
     fw_delta_relation_count r = 0 \<and> fw_repeated_relation_count r = 0
     \<and> fw_egress_first_correlated_relation_count r = 0 \<and> fw_ingress r = no_fingerprint_counters
     \<and> fw_egress r = no_fingerprint_counters \<and> fw_dominant_ingress_packet_ratio_milli r = None
     \<and> fw_maximum_ingress_to_egress_packet_ratio_milli r = None"

definition window_validate :: "FingerprintWindowReport \<Rightarrow> (DomainError, unit) result" where
  "window_validate r =
     (if fw_window_ms r \<noteq> DETECTION_FINGERPRINT_WINDOW_MS
         \<or> FINGERPRINT_CAPACITY < unat (fw_captured_entry_count r)
         \<or> fw_delta_relation_count r < fw_repeated_relation_count r
         \<or> fw_delta_relation_count r < fw_egress_first_correlated_relation_count r
         \<or> is_some_and (fw_dominant_ingress_packet_ratio_milli r) (\<lambda>ratio. 1000 < ratio)
      then Inl (InvalidObservation ''fingerprint window fixed contract is invalid'')
      else case fw_state r of
        FwWarmingUp \<Rightarrow>
          if fw_coverage_ms r \<noteq> 0 \<or> fw_start_unix_ms r \<noteq> None \<or> fw_end_unix_ms r \<noteq> None
             \<or> fw_captured_entry_count r \<noteq> 0 \<or> \<not> window_counters_are_empty r \<or> fw_last_error_code r \<noteq> None
          then Inl (InvalidObservation ''warming fingerprint window contains evidence'')
          else Inr ()
      | FwReady \<Rightarrow>
          if \<not> (DETECTION_FINGERPRINT_WINDOW_MS \<le> fw_coverage_ms r \<and> fw_coverage_ms r \<le> DETECTION_FINGERPRINT_FRESHNESS_MS)
             \<or> fw_start_unix_ms r = None \<or> fw_end_unix_ms r = None
             \<or> is_some_and (fw_start_unix_ms r) (\<lambda>s. is_some_and (fw_end_unix_ms r) (\<lambda>e. e < s))
             \<or> fw_last_error_code r \<noteq> None
             \<or> fc_packets (fw_ingress r) = 0 \<and> fw_dominant_ingress_packet_ratio_milli r \<noteq> None
             \<or> fc_packets (fw_egress r) = 0 \<and> fw_maximum_ingress_to_egress_packet_ratio_milli r \<noteq> None
          then Inl (InvalidObservation ''ready fingerprint window evidence is invalid'')
          else Inr ()
      | FwUnavailable \<Rightarrow>
          if fw_coverage_ms r \<noteq> 0 \<or> fw_start_unix_ms r \<noteq> None \<or> fw_end_unix_ms r \<noteq> None
             \<or> fw_captured_entry_count r \<noteq> 0 \<or> \<not> window_counters_are_empty r \<or> fw_last_error_code r = None
          then Inl (InvalidObservation ''unavailable fingerprint window shape is invalid'')
          else rbind (validate_error_code (unwrap_or (fw_last_error_code r) [])) (\<lambda>_. Inr ()))"

datatype FingerprintWindowError = FwInvalidEvidence | FwClockRegression | FwCounterRegression
  | FwImmutableValueChanged | FwCalculationFailed

primrec window_stable_code :: "FingerprintWindowError \<Rightarrow> string" where
  "window_stable_code FwInvalidEvidence = ''DETECTION_FINGERPRINT_INVALID''"
| "window_stable_code FwClockRegression = ''DETECTION_FINGERPRINT_CLOCK_REGRESSION''"
| "window_stable_code FwCounterRegression = ''DETECTION_FINGERPRINT_COUNTER_REGRESSION''"
| "window_stable_code FwImmutableValueChanged = ''DETECTION_FINGERPRINT_IMMUTABLE_CHANGED''"
| "window_stable_code FwCalculationFailed = ''DETECTION_FINGERPRINT_CALCULATION_FAILED''"

record FingerprintEndpoint =
  en_captured_at_monotonic_ns :: u64
  en_captured_at_unix_ms :: u64
  en_entries :: "(ExactKey \<times> FingerprintEvidence) list"

record FingerprintWindowHistory =
  fwh_identity :: RateIdentity
  fwh_endpoint :: "FingerprintEndpoint option"
  fwh_report :: FingerprintWindowReport

definition window_history_new :: "RateIdentity \<Rightarrow> FingerprintWindowHistory" where
  "window_history_new identity = \<lparr>fwh_identity = identity, fwh_endpoint = None, fwh_report = window_warming\<rparr>"

definition validate_scan ::
  "RateIdentity \<Rightarrow> FingerprintEvidence list \<Rightarrow> (FingerprintWindowError, (ExactKey \<times> FingerprintEvidence) list) result" where
  "validate_scan identity evidence =
     rbind (map_err FwInvalidEvidence (fingerprint_report_build (ri_ifindex identity) (ri_generation identity) evidence)) (\<lambda>_.
     rfold (\<lambda>item entries.
       if bt_get entries (exact_key_from (fe_key item)) \<noteq> None then Inl FwInvalidEvidence
       else Inr (bt_insert (exact_key_from (fe_key item)) item entries)) evidence [])"

record SideDelta =
  dl_first_seen_ns :: u64
  dl_packets :: u64
  dl_bytes :: u64

record RelationDelta =
  rd_ingress :: "SideDelta option"
  rd_egress :: "SideDelta option"

definition no_relation_delta :: RelationDelta where
  "no_relation_delta = \<lparr>rd_ingress = None, rd_egress = None\<rparr>"

definition ratio_milli :: "u64 \<Rightarrow> u64 \<Rightarrow> u64 option" where
  "ratio_milli numerator denominator =
     (if denominator = 0 then None
      else Some (unwrap_or (try_from_word ((ucast numerator * 1000 :: u128) div ucast denominator)) (- 1)))"

definition maximize_directional_ratio :: "u64 option \<Rightarrow> u64 \<Rightarrow> u64 \<Rightarrow> u64 option" where
  "maximize_directional_ratio maximum ingress egress =
     (let ratio = (if egress = 0 then - 1
                   else unwrap_or (try_from_word ((ucast ingress * 1000 :: u128) div ucast egress)) (- 1))
      in Some (max (unwrap_or maximum 0) ratio))"

definition add_side :: "FingerprintCounters \<Rightarrow> SideDelta \<Rightarrow> (FingerprintWindowError, FingerprintCounters) result" where
  "add_side counters side =
     rbind (ok_or FwCalculationFailed (checked_add (fc_packets counters) (dl_packets side))) (\<lambda>p.
     rbind (ok_or FwCalculationFailed (checked_add (fc_bytes counters) (dl_bytes side))) (\<lambda>b.
     Inr \<lparr>fc_packets = p, fc_bytes = b\<rparr>))"

text \<open>The difference of one record against the previous scan.\<close>

definition entry_delta ::
  "(ExactKey \<times> FingerprintEvidence) list \<Rightarrow> ExactKey \<Rightarrow> FingerprintEvidence \<Rightarrow> (FingerprintWindowError, u64 \<times> u64) result" where
  "entry_delta previous key item =
     (let new = fe_value item in
      case bt_get previous key of
        Some e \<Rightarrow>
          let old = fe_value e in
          if fv_first_seen_ns old \<noteq> fv_first_seen_ns new \<or> fv_source_mac old \<noteq> fv_source_mac new
             \<or> fv_destination_mac old \<noteq> fv_destination_mac new
          then Inl FwImmutableValueChanged
          else if fv_last_seen_ns new < fv_last_seen_ns old \<or> fv_packets new < fv_packets old
             \<or> fv_bytes new < fv_bytes old
          then Inl FwCounterRegression
          else Inr (fv_packets new - fv_packets old, fv_bytes new - fv_bytes old)
      | None \<Rightarrow> Inr (fv_packets new, fv_bytes new))"

definition window_entry ::
  "(ExactKey \<times> FingerprintEvidence) list \<Rightarrow> ExactKey \<times> FingerprintEvidence \<Rightarrow> (RelationKey \<times> RelationDelta) list
     \<Rightarrow> (FingerprintWindowError, (RelationKey \<times> RelationDelta) list) result" where
  "window_entry previous = (\<lambda>(key, item) relations.
     rbind (entry_delta previous key item) (\<lambda>(packets, bytes).
     if packets = 0 \<and> bytes = 0 then Inr relations
     else
       let side = \<lparr>dl_first_seen_ns = fv_first_seen_ns (fe_value item), dl_packets = packets, dl_bytes = bytes\<rparr>;
           k = relation_key_from (fe_key item);
           relation = unwrap_or (bt_get relations k) no_relation_delta
       in if fk_direction (fe_key item) = direction_code DirIngress
          then Inr (bt_insert k (relation\<lparr>rd_ingress := Some side\<rparr>) relations)
          else if fk_direction (fe_key item) = direction_code DirEgress
          then Inr (bt_insert k (relation\<lparr>rd_egress := Some side\<rparr>) relations)
          else Inl FwInvalidEvidence))"

record WindowTotals =
  wt_ingress :: FingerprintCounters
  wt_egress :: FingerprintCounters
  wt_repeated :: u16
  wt_egress_first :: u16
  wt_maximum_ratio :: "u64 option"
  wt_dominant_ingress_packets :: u64

definition no_totals :: WindowTotals where
  "no_totals = \<lparr>wt_ingress = no_fingerprint_counters, wt_egress = no_fingerprint_counters, wt_repeated = 0,
     wt_egress_first = 0, wt_maximum_ratio = None, wt_dominant_ingress_packets = 0\<rparr>"

definition window_relation :: "RelationDelta \<Rightarrow> WindowTotals \<Rightarrow> (FingerprintWindowError, WindowTotals) result" where
  "window_relation relation t =
     rbind (case rd_ingress relation of
              None \<Rightarrow> Inr t
            | Some side \<Rightarrow>
                rbind (add_side (wt_ingress t) side) (\<lambda>c.
                Inr (t\<lparr>wt_ingress := c, wt_dominant_ingress_packets := max (wt_dominant_ingress_packets t) (dl_packets side)\<rparr>))) (\<lambda>t.
     rbind (case rd_egress relation of
              None \<Rightarrow> Inr t
            | Some side \<Rightarrow> rbind (add_side (wt_egress t) side) (\<lambda>c. Inr (t\<lparr>wt_egress := c\<rparr>))) (\<lambda>t.
     rbind (if is_some_and (rd_ingress relation) (\<lambda>s. 1 < dl_packets s) \<or> is_some_and (rd_egress relation) (\<lambda>s. 1 < dl_packets s)
            then rbind (ok_or FwCalculationFailed (checked_add (wt_repeated t) 1)) (\<lambda>n. Inr (t\<lparr>wt_repeated := n\<rparr>))
            else Inr t) (\<lambda>t.
     case (rd_ingress relation, rd_egress relation) of
       (Some i, Some e) \<Rightarrow>
         rbind (if dl_first_seen_ns e < dl_first_seen_ns i
                then rbind (ok_or FwCalculationFailed (checked_add (wt_egress_first t) 1)) (\<lambda>n. Inr (t\<lparr>wt_egress_first := n\<rparr>))
                else Inr t) (\<lambda>t.
         Inr (t\<lparr>wt_maximum_ratio := maximize_directional_ratio (wt_maximum_ratio t) (dl_packets i) (dl_packets e)\<rparr>))
     | _ \<Rightarrow> Inr t)))"

definition ready_window ::
  "FingerprintEndpoint \<Rightarrow> FingerprintEndpoint \<Rightarrow> u64 \<Rightarrow> u16 \<Rightarrow> u16 \<Rightarrow> WindowTotals \<Rightarrow> FingerprintWindowReport" where
  "ready_window previous current coverage delta_relation_count captured_entry_count t =
     \<lparr>fw_state = FwReady, fw_window_ms = DETECTION_FINGERPRINT_WINDOW_MS, fw_coverage_ms = coverage,
      fw_start_unix_ms = Some (en_captured_at_unix_ms previous), fw_end_unix_ms = Some (en_captured_at_unix_ms current),
      fw_captured_entry_count = captured_entry_count, fw_delta_relation_count = delta_relation_count,
      fw_repeated_relation_count = wt_repeated t, fw_egress_first_correlated_relation_count = wt_egress_first t,
      fw_ingress = wt_ingress t, fw_egress = wt_egress t,
      fw_dominant_ingress_packet_ratio_milli = ratio_milli (wt_dominant_ingress_packets t) (fc_packets (wt_ingress t)),
      fw_maximum_ingress_to_egress_packet_ratio_milli = wt_maximum_ratio t, fw_last_error_code = None\<rparr>"

definition build_window ::
  "FingerprintEndpoint \<Rightarrow> FingerprintEndpoint \<Rightarrow> u64 \<Rightarrow> (FingerprintWindowError, FingerprintWindowReport) result" where
  "build_window previous current coverage =
     rbind (rfold (window_entry (en_entries previous)) (en_entries current) []) (\<lambda>relations.
     rbind (rfold window_relation (map snd relations) no_totals) (\<lambda>t.
     rbind (ok_or FwCalculationFailed (try_from_usize (length relations))) (\<lambda>delta_relation_count.
     rbind (ok_or FwCalculationFailed (try_from_usize (length (en_entries current)))) (\<lambda>captured_entry_count.
     let report = ready_window previous current coverage delta_relation_count captured_entry_count t
     in rbind (map_err FwCalculationFailed (window_validate report)) (\<lambda>_. Inr report)))))"

text \<open>
  \<open>fail\<close> unwraps \<open>unavailable\<close> with \<open>expect\<close>; the \<open>Inl\<close> branch is the panic, which
  \<open>stable_codes_valid\<close> below rules out.
\<close>

definition window_fail ::
  "FingerprintWindowError \<Rightarrow> FingerprintWindowHistory \<Rightarrow> (FingerprintWindowError, 'a) result \<times> FingerprintWindowHistory" where
  "window_fail error h =
     (Inl error, h\<lparr>fwh_endpoint := None,
        fwh_report := (case window_unavailable (window_stable_code error) of Inr r \<Rightarrow> r | Inl _ \<Rightarrow> fwh_report h)\<rparr>)"

definition record_scan ::
  "u64 \<Rightarrow> u64 \<Rightarrow> FingerprintEvidence list \<Rightarrow> FingerprintWindowHistory
     \<Rightarrow> (FingerprintWindowError, FingerprintWindowReport) result \<times> FingerprintWindowHistory" where
  "record_scan captured_at_monotonic_ns captured_at_unix_ms evidence h =
     (case validate_scan (fwh_identity h) evidence of
        Inl error \<Rightarrow> window_fail error h
      | Inr entries \<Rightarrow>
          let current = \<lparr>en_captured_at_monotonic_ns = captured_at_monotonic_ns,
                en_captured_at_unix_ms = captured_at_unix_ms, en_entries = entries\<rparr>
          in case fwh_endpoint h of
               None \<Rightarrow> (Inr window_warming, h\<lparr>fwh_endpoint := Some current, fwh_report := window_warming\<rparr>)
             | Some previous \<Rightarrow>
                 (case checked_sub captured_at_monotonic_ns (en_captured_at_monotonic_ns previous) of
                    None \<Rightarrow> window_fail FwClockRegression h
                  | Some elapsed_ns \<Rightarrow>
                      if elapsed_ns = 0 then window_fail FwClockRegression h
                      else if captured_at_unix_ms < en_captured_at_unix_ms previous then window_fail FwClockRegression h
                      else
                        let coverage = elapsed_ns div 1000000 in
                        if coverage < DETECTION_FINGERPRINT_WINDOW_MS
                        then (Inr window_warming, h\<lparr>fwh_report := window_warming\<rparr>)
                        else if DETECTION_FINGERPRINT_FRESHNESS_MS < coverage
                        then (Inr window_warming, h\<lparr>fwh_endpoint := Some current, fwh_report := window_warming\<rparr>)
                        else
                          case build_window previous current coverage of
                            Inl error \<Rightarrow> window_fail error h
                          | Inr report \<Rightarrow> (Inr report, h\<lparr>fwh_endpoint := Some current, fwh_report := report\<rparr>)))"

definition window_history_unavailable ::
  "string \<Rightarrow> FingerprintWindowHistory \<Rightarrow> (DomainError, unit) result \<times> FingerprintWindowHistory" where
  "window_history_unavailable code h =
     (let h = h\<lparr>fwh_endpoint := None\<rparr>
      in case window_unavailable code of
           Inl e \<Rightarrow> (Inl e, h)
         | Inr report \<Rightarrow> (Inr (), h\<lparr>fwh_report := report\<rparr>))"

definition window_history_clear :: "FingerprintWindowHistory \<Rightarrow> FingerprintWindowHistory" where
  "window_history_clear h = h\<lparr>fwh_endpoint := None, fwh_report := window_warming\<rparr>"


section \<open>Every cached report is valid\<close>

lemma stable_codes_valid: "validate_error_code (window_stable_code e) = Inr ()"
  by (cases e) (simp_all add: validate_error_code_def ascii_class_defs)

lemma warming_validates: "window_validate window_warming = Inr ()"
  by (simp add: window_validate_def window_warming_def window_counters_are_empty_def no_fingerprint_counters_def)

lemma unavailable_validates: "window_unavailable code = Inr r \<Longrightarrow> window_validate r = Inr ()"
proof -
  assume "window_unavailable code = Inr r"
  then have "validate_error_code code = Inr ()" "r = window_warming\<lparr>fw_state := FwUnavailable, fw_last_error_code := Some code\<rparr>"
    by (simp_all add: window_unavailable_def rbind_Inr_conv)
  then show ?thesis
    by (simp add: window_validate_def window_warming_def window_counters_are_empty_def no_fingerprint_counters_def)
qed

lemma build_window_validates: "build_window p c t = Inr r \<Longrightarrow> window_validate r = Inr ()"
  by (auto simp: build_window_def rbind_Inr_conv Let_def)

lemma window_fail_eq:
  "window_fail e h = (Inl e, h\<lparr>fwh_endpoint := None,
     fwh_report := window_warming\<lparr>fw_state := FwUnavailable, fw_last_error_code := Some (window_stable_code e)\<rparr>\<rparr>)"
  by (simp add: window_fail_def window_unavailable_def stable_codes_valid)

lemma failed_report_validates:
  "window_validate (window_warming\<lparr>fw_state := FwUnavailable, fw_last_error_code := Some (window_stable_code e)\<rparr>) = Inr ()"
  by (rule unavailable_validates [of "window_stable_code e"]) (simp add: window_unavailable_def stable_codes_valid)

text \<open>The history is consistent: its report validates, and a ready report ends at the stored endpoint.\<close>

definition window_inv :: "FingerprintWindowHistory \<Rightarrow> bool" where
  "window_inv h \<longleftrightarrow> window_validate (fwh_report h) = Inr () \<and>
     (fw_state (fwh_report h) = FwReady \<and> fwh_endpoint h \<noteq> None \<longrightarrow>
        fw_end_unix_ms (fwh_report h) = map_option en_captured_at_unix_ms (fwh_endpoint h))"

datatype WindowOp = WScan u64 u64 "FingerprintEvidence list" | WUnavailable string | WClear

fun window_step :: "FingerprintWindowHistory \<Rightarrow> WindowOp \<Rightarrow> FingerprintWindowHistory" where
  "window_step h (WScan t u es) = snd (record_scan t u es h)"
| "window_step h (WUnavailable code) = snd (window_history_unavailable code h)"
| "window_step h WClear = window_history_clear h"

lemma warming_not_ready [simp]: "fw_state window_warming = FwWarmingUp"
  by (simp add: window_warming_def)

lemma build_window_end:
  "build_window p c t = Inr r \<Longrightarrow> fw_end_unix_ms r = Some (en_captured_at_unix_ms c) \<and> fw_state r = FwReady \<and> fw_coverage_ms r = t
     \<and> fw_start_unix_ms r = Some (en_captured_at_unix_ms p)"
  by (auto simp: build_window_def rbind_Inr_conv Let_def ready_window_def)

lemma window_inv_fail: "window_inv (snd (window_fail e h))"
  by (simp add: window_inv_def window_fail_eq failed_report_validates)

lemma window_inv_warming: "window_inv (h\<lparr>fwh_endpoint := x, fwh_report := window_warming\<rparr>)"
  "window_inv (h\<lparr>fwh_report := window_warming\<rparr>)"
  by (simp_all add: window_inv_def warming_validates)

lemma window_inv_built:
  "build_window p c t = Inr r \<Longrightarrow> window_inv (h\<lparr>fwh_endpoint := Some c, fwh_report := r\<rparr>)"
  using build_window_validates [of p c t r] build_window_end [of p c t r] by (simp add: window_inv_def)

lemma record_scan_inv: "window_inv (snd (record_scan t u es h))"
  unfolding record_scan_def Let_def
  by (simp add: window_inv_fail window_inv_warming window_inv_built split: sum.split option.split)

lemma window_unavailable_inv: "window_inv h \<Longrightarrow> window_inv (snd (window_history_unavailable code h))"
proof (cases "window_unavailable code")
  case (Inl e)
  assume "window_inv h"
  with Inl show ?thesis by (auto simp: window_history_unavailable_def window_inv_def Let_def)
next
  case (Inr r)
  then have "window_validate r = Inr ()" "fw_state r = FwUnavailable"
    by (auto simp: unavailable_validates) (auto simp: window_unavailable_def rbind_Inr_conv)
  with Inr show ?thesis by (simp add: window_history_unavailable_def window_inv_def Let_def)
qed

interpretation window_machine: machine window_step window_inv
proof
  fix h e
  assume "window_inv h"
  then show "window_inv (window_step h e)"
    by (cases e) (simp_all add: record_scan_inv window_unavailable_inv window_history_clear_def window_inv_warming)
qed

lemma window_run_inv: "window_inv (foldl window_step (window_history_new identity) ops)"
  by (rule window_machine.run_inv) (simp add: window_inv_def window_history_new_def warming_validates)

section \<open>The differences of two scans\<close>

text \<open>What one record adds since the previous scan, and when the two scans agree about it.\<close>

definition old_value :: "(ExactKey \<times> FingerprintEvidence) list \<Rightarrow> FingerprintEvidence \<Rightarrow> (FingerprintValue \<Rightarrow> u64) \<Rightarrow> u64" where
  "old_value previous e sel = (case bt_get previous (ekey e) of None \<Rightarrow> 0 | Some old \<Rightarrow> sel (fe_value old))"

definition delta_of :: "(ExactKey \<times> FingerprintEvidence) list \<Rightarrow> FingerprintEvidence \<Rightarrow> SideDelta" where
  "delta_of previous e =
     \<lparr>dl_first_seen_ns = fv_first_seen_ns (fe_value e),
      dl_packets = fv_packets (fe_value e) - old_value previous e fv_packets,
      dl_bytes = fv_bytes (fe_value e) - old_value previous e fv_bytes\<rparr>"

definition active :: "(ExactKey \<times> FingerprintEvidence) list \<Rightarrow> FingerprintEvidence \<Rightarrow> bool" where
  "active previous e \<longleftrightarrow> \<not> (dl_packets (delta_of previous e) = 0 \<and> dl_bytes (delta_of previous e) = 0)"

definition consistent :: "(ExactKey \<times> FingerprintEvidence) list \<Rightarrow> FingerprintEvidence \<Rightarrow> bool" where
  "consistent previous e \<longleftrightarrow>
     (case bt_get previous (ekey e) of
        None \<Rightarrow> True
      | Some old \<Rightarrow>
          fv_first_seen_ns (fe_value old) = fv_first_seen_ns (fe_value e) \<and>
          fv_source_mac (fe_value old) = fv_source_mac (fe_value e) \<and>
          fv_destination_mac (fe_value old) = fv_destination_mac (fe_value e) \<and>
          fv_last_seen_ns (fe_value old) \<le> fv_last_seen_ns (fe_value e) \<and>
          fv_packets (fe_value old) \<le> fv_packets (fe_value e) \<and> fv_bytes (fe_value old) \<le> fv_bytes (fe_value e))"

lemma entry_delta_ok:
  "consistent previous e \<Longrightarrow> entry_delta previous (ekey e) e = Inr (dl_packets (delta_of previous e), dl_bytes (delta_of previous e))"
  by (auto simp: consistent_def entry_delta_def delta_of_def old_value_def Let_def not_less split: option.split)

lemma entry_delta_refuses: "\<not> consistent previous e \<Longrightarrow> \<not> is_ok (entry_delta previous (ekey e) e)"
  by (auto simp: consistent_def entry_delta_def Let_def not_less not_le split: option.splits)

definition delta_at :: "(ExactKey \<times> FingerprintEvidence) list \<Rightarrow> FingerprintEvidence list \<Rightarrow> ExactKey \<Rightarrow> SideDelta option" where
  "delta_at previous es x = map_option (delta_of previous) (find (\<lambda>e. ekey e = x \<and> active previous e) es)"

definition delta_relation_at ::
  "(ExactKey \<times> FingerprintEvidence) list \<Rightarrow> FingerprintEvidence list \<Rightarrow> RelationKey \<Rightarrow> RelationDelta option" where
  "delta_relation_at previous es k =
     (let i = delta_at previous es (ExactKey k 1); e = delta_at previous es (ExactKey k 2)
      in if i = None \<and> e = None then None else Some \<lparr>rd_ingress = i, rd_egress = e\<rparr>)"

definition delta_sum :: "(ExactKey \<times> FingerprintEvidence) list \<Rightarrow> u8 \<Rightarrow> (SideDelta \<Rightarrow> u64) \<Rightarrow> FingerprintEvidence list \<Rightarrow> nat" where
  "delta_sum previous d sel es = (\<Sum>e\<leftarrow>filter (\<lambda>e. fk_direction (fe_key e) = d) es. unat (sel (delta_of previous e)))"

definition side_sum :: "(RelationDelta \<Rightarrow> SideDelta option) \<Rightarrow> (SideDelta \<Rightarrow> u64) \<Rightarrow> RelationDelta list \<Rightarrow> nat" where
  "side_sum side sel rs = (\<Sum>r\<leftarrow>rs. case side r of None \<Rightarrow> 0 | Some s \<Rightarrow> unat (sel s))"

definition entry_inv ::
  "(ExactKey \<times> FingerprintEvidence) list \<Rightarrow> FingerprintEvidence list \<Rightarrow> (RelationKey \<times> RelationDelta) list \<Rightarrow> bool" where
  "entry_inv previous es rels \<longleftrightarrow> bt_wf rels \<and> (\<forall>k. bt_get rels k = delta_relation_at previous es k) \<and>
     (\<forall>sel \<in> {dl_packets, dl_bytes}. side_sum rd_ingress sel (map snd rels) = delta_sum previous 1 sel es \<and>
        side_sum rd_egress sel (map snd rels) = delta_sum previous 2 sel es)"

lemma bt_insert_sum:
  fixes f :: "'v \<Rightarrow> nat"
  assumes "bt_wf m"
  shows "sum_list (map f (map snd (bt_insert k v m))) + (case bt_get m k of None \<Rightarrow> 0 | Some w \<Rightarrow> f w)
     = sum_list (map f (map snd m)) + f v"
  using assms
proof (induction k v m rule: bt_insert.induct)
  case (2 k v l w m)
  then have wf: "bt_wf m" and above: "k \<le> l \<Longrightarrow> bt_get m k = None"
    by (auto simp: bt_wf_def map_of_eq_None_iff)
  show ?case using 2(1) [OF _ _ wf] above by (cases k l rule: linorder_cases) auto
qed simp

lemma delta_sum_snoc:
  "delta_sum previous d sel (es @ [e]) =
     delta_sum previous d sel es + (if fk_direction (fe_key e) = d then unat (sel (delta_of previous e)) else 0)"
  by (simp add: delta_sum_def)

lemma delta_at_snoc:
  "ekey e \<notin> ekey ` set es \<Longrightarrow>
     delta_at previous (es @ [e]) x =
       (if ekey e = x \<and> active previous e then Some (delta_of previous e) else delta_at previous es x)"
  by (induction es) (auto simp: delta_at_def)

lemma delta_at_fresh: "ekey e \<notin> ekey ` set es \<Longrightarrow> delta_at previous es (ekey e) = None"
  by (induction es) (auto simp: delta_at_def)

lemma delta_relation_default:
  "unwrap_or (delta_relation_at previous es k) no_relation_delta =
     \<lparr>rd_ingress = delta_at previous es (ExactKey k 1), rd_egress = delta_at previous es (ExactKey k 2)\<rparr>"
  by (simp add: delta_relation_at_def no_relation_delta_def Let_def)

lemma side_sum_insert:
  assumes "bt_wf rels" and "side (unwrap_or (bt_get rels k) no_relation_delta) = None"
  shows "side_sum side sel (map snd (bt_insert k r rels)) =
     side_sum side sel (map snd rels) + (case side r of None \<Rightarrow> 0 | Some s \<Rightarrow> unat (sel s))"
  using bt_insert_sum [OF assms(1), of "\<lambda>r. case side r of None \<Rightarrow> 0 | Some s \<Rightarrow> unat (sel s)" k r] assms(2)
  by (auto simp: side_sum_def split: option.splits)

lemma side_sum_keep:
  assumes "bt_wf rels" and "side r = side (unwrap_or (bt_get rels k) no_relation_delta)" "side no_relation_delta = None"
  shows "side_sum side sel (map snd (bt_insert k r rels)) = side_sum side sel (map snd rels)"
  using bt_insert_sum [OF assms(1), of "\<lambda>r. case side r of None \<Rightarrow> 0 | Some s \<Rightarrow> unat (sel s)" k r] assms(2,3)
  by (auto simp: side_sum_def split: option.splits)

lemma window_entry_eq:
  assumes "consistent previous e" and d: "fk_direction (fe_key e) = 1 \<or> fk_direction (fe_key e) = 2"
  shows "window_entry previous (ekey e, e) rels =
    Inr (if active previous e
         then let k = relation_key_from (fe_key e); r = unwrap_or (bt_get rels k) no_relation_delta
              in bt_insert k (if fk_direction (fe_key e) = 1 then r\<lparr>rd_ingress := Some (delta_of previous e)\<rparr>
                              else r\<lparr>rd_egress := Some (delta_of previous e)\<rparr>) rels
         else rels)"
proof -
  have "delta_of previous e = \<lparr>dl_first_seen_ns = fv_first_seen_ns (fe_value e), dl_packets = dl_packets (delta_of previous e),
      dl_bytes = dl_bytes (delta_of previous e)\<rparr>" by (simp add: delta_of_def)
  then show ?thesis
    using d by (auto simp: window_entry_def entry_delta_ok [OF assms(1)] active_def Let_def)
qed

lemma no_delta_sides [simp]: "rd_ingress no_relation_delta = None" "rd_egress no_relation_delta = None"
  by (simp_all add: no_relation_delta_def)

lemma window_entry_step:
  assumes inv: "entry_inv previous es rels" and "consistent previous e"
    and d: "fk_direction (fe_key e) = 1 \<or> fk_direction (fe_key e) = 2" and new: "ekey e \<notin> ekey ` set es"
  shows "\<exists>rels'. window_entry previous (ekey e, e) rels = Inr rels' \<and> entry_inv previous (es @ [e]) rels'"
proof (cases "active previous e")
  case False
  then have zero: "dl_packets (delta_of previous e) = 0" "dl_bytes (delta_of previous e) = 0" by (simp_all add: active_def)
  have "delta_relation_at previous (es @ [e]) k = delta_relation_at previous es k" for k
    using False by (simp add: delta_relation_at_def delta_at_snoc [OF new])
  then have "entry_inv previous (es @ [e]) rels" using inv zero by (simp add: entry_inv_def delta_sum_snoc)
  then show ?thesis using False window_entry_eq [OF assms(2) d] by simp
next
  case True
  let ?k = "relation_key_from (fe_key e)" and ?d = "fk_direction (fe_key e)" and ?s = "delta_of previous e"
  let ?r = "unwrap_or (bt_get rels ?k) no_relation_delta"
  let ?r' = "if ?d = 1 then ?r\<lparr>rd_ingress := Some ?s\<rparr> else ?r\<lparr>rd_egress := Some ?s\<rparr>"
  note i = inv [unfolded entry_inv_def]
  have x: "ekey e = ExactKey ?k ?d" by (simp add: ekey_def exact_key_from_def)
  have r: "?r = \<lparr>rd_ingress = delta_at previous es (ExactKey ?k 1), rd_egress = delta_at previous es (ExactKey ?k 2)\<rparr>"
    using i by (simp add: delta_relation_default)
  have fresh: "delta_at previous es (ExactKey ?k ?d) = None" using delta_at_fresh [OF new] x by simp
  have get: "bt_get (bt_insert ?k ?r' rels) k = delta_relation_at previous (es @ [e]) k" for k
    using d i True r by (auto simp: bt_get_insert delta_relation_at_def delta_at_snoc [OF new] ekey_eq Let_def)
  have sums: "side_sum rd_ingress sel (map snd (bt_insert ?k ?r' rels)) = delta_sum previous 1 sel (es @ [e])"
    "side_sum rd_egress sel (map snd (bt_insert ?k ?r' rels)) = delta_sum previous 2 sel (es @ [e])"
    if "sel \<in> {dl_packets, dl_bytes}" for sel
    using d i fresh r that by (auto simp: side_sum_insert side_sum_keep delta_sum_snoc)
  have "entry_inv previous (es @ [e]) (bt_insert ?k ?r' rels)"
    using i get sums by (simp add: entry_inv_def bt_wf_insert)
  then show ?thesis using True window_entry_eq [OF assms(2) d] by (simp add: Let_def)
qed

lemma window_entries_fold:
  assumes "distinct (map ekey es)" and "\<forall>e \<in> set es. fk_direction (fe_key e) = 1 \<or> fk_direction (fe_key e) = 2"
    and "\<forall>e \<in> set es. consistent previous e"
  shows "\<exists>rels. rfold (window_entry previous) (map (\<lambda>e. (ekey e, e)) es) [] = Inr rels \<and> entry_inv previous es rels"
  using assms
proof (induction es rule: rev_induct)
  case Nil
  then show ?case by (simp add: entry_inv_def delta_relation_at_def delta_at_def side_sum_def delta_sum_def)
next
  case (snoc e es)
  then obtain rels where "rfold (window_entry previous) (map (\<lambda>e. (ekey e, e)) es) [] = Inr rels" "entry_inv previous es rels"
    by auto
  moreover have "\<exists>rels'. window_entry previous (ekey e, e) rels = Inr rels' \<and> entry_inv previous (es @ [e]) rels'"
    by (rule window_entry_step) (use snoc.prems calculation in auto)
  ultimately show ?case by (auto simp: rfold_append)
qed

text \<open>The totals over the relations, as closed expressions.\<close>

definition delta_repeated :: "RelationDelta \<Rightarrow> bool" where
  "delta_repeated r \<longleftrightarrow> is_some_and (rd_ingress r) (\<lambda>s. 1 < dl_packets s) \<or> is_some_and (rd_egress r) (\<lambda>s. 1 < dl_packets s)"

definition delta_egress_first :: "RelationDelta \<Rightarrow> bool" where
  "delta_egress_first r \<longleftrightarrow> is_some_and (rd_ingress r) (\<lambda>i. is_some_and (rd_egress r) (\<lambda>e. dl_first_seen_ns e < dl_first_seen_ns i))"

definition delta_ratio :: "u64 option \<Rightarrow> RelationDelta \<Rightarrow> u64 option" where
  "delta_ratio m r = (case (rd_ingress r, rd_egress r) of
     (Some i, Some e) \<Rightarrow> maximize_directional_ratio m (dl_packets i) (dl_packets e) | _ \<Rightarrow> m)"

definition delta_dominant :: "u64 \<Rightarrow> RelationDelta \<Rightarrow> u64" where
  "delta_dominant m r = (case rd_ingress r of None \<Rightarrow> m | Some s \<Rightarrow> max m (dl_packets s))"

definition totals_of :: "RelationDelta list \<Rightarrow> WindowTotals" where
  "totals_of rs =
     \<lparr>wt_ingress = \<lparr>fc_packets = of_nat (side_sum rd_ingress dl_packets rs), fc_bytes = of_nat (side_sum rd_ingress dl_bytes rs)\<rparr>,
      wt_egress = \<lparr>fc_packets = of_nat (side_sum rd_egress dl_packets rs), fc_bytes = of_nat (side_sum rd_egress dl_bytes rs)\<rparr>,
      wt_repeated = of_nat (length (filter delta_repeated rs)), wt_egress_first = of_nat (length (filter delta_egress_first rs)),
      wt_maximum_ratio = foldl delta_ratio None rs, wt_dominant_ingress_packets = foldl delta_dominant 0 rs\<rparr>"

definition sums_fit :: "RelationDelta list \<Rightarrow> bool" where
  "sums_fit rs \<longleftrightarrow> side_sum rd_ingress dl_packets rs < 2 ^ 64 \<and> side_sum rd_ingress dl_bytes rs < 2 ^ 64 \<and>
     side_sum rd_egress dl_packets rs < 2 ^ 64 \<and> side_sum rd_egress dl_bytes rs < 2 ^ 64 \<and> length rs < 2 ^ 16"

lemma side_sum_snoc: "side_sum side sel (rs @ [r]) = side_sum side sel rs + (case side r of None \<Rightarrow> 0 | Some s \<Rightarrow> unat (sel s))"
  by (simp add: side_sum_def)

lemma checked_add_of_nat:
  fixes x :: "'a::len word"
  assumes "n + unat x < 2 ^ LENGTH('a)"
  shows "checked_add (of_nat n) x = Some (of_nat (n + unat x))"
proof -
  have "unat (of_nat n :: 'a word) = n" using assms by (simp add: unat_of_nat)
  with assms show ?thesis by (simp add: checked_add_def)
qed

lemma add_side_of_nat:
  assumes "p + unat (dl_packets s) < 2 ^ 64" "b + unat (dl_bytes s) < 2 ^ 64"
  shows "add_side \<lparr>fc_packets = of_nat p, fc_bytes = of_nat b\<rparr> s =
    Inr \<lparr>fc_packets = of_nat (p + unat (dl_packets s)), fc_bytes = of_nat (b + unat (dl_bytes s))\<rparr>"
  using assms by (simp add: add_side_def checked_add_of_nat del: of_nat_add)

lemma count_of_nat: "n < 65535 \<Longrightarrow> checked_add (of_nat n :: u16) 1 = Some (of_nat (Suc n))"
  using checked_add_of_nat [of n "1 :: u16"] by simp

lemma window_relation_totals:
  assumes fit: "sums_fit (rs @ [r])"
  shows "window_relation r (totals_of rs) = Inr (totals_of (rs @ [r]))"
proof -
  have n: "length (filter delta_repeated rs) < 65535" "length (filter delta_egress_first rs) < 65535"
    using fit le_less_trans [OF length_filter_le] by (auto simp: sums_fit_def)
  have fi: "add_side (wt_ingress (totals_of rs)) s = Inr \<lparr>fc_packets = of_nat (side_sum rd_ingress dl_packets (rs @ [r])),
      fc_bytes = of_nat (side_sum rd_ingress dl_bytes (rs @ [r]))\<rparr>" if "rd_ingress r = Some s" for s
    using that fit by (simp add: totals_of_def add_side_of_nat sums_fit_def side_sum_snoc del: of_nat_add)
  have fe: "add_side (wt_egress (totals_of rs)) s = Inr \<lparr>fc_packets = of_nat (side_sum rd_egress dl_packets (rs @ [r])),
      fc_bytes = of_nat (side_sum rd_egress dl_bytes (rs @ [r]))\<rparr>" if "rd_egress r = Some s" for s
    using that fit by (simp add: totals_of_def add_side_of_nat sums_fit_def side_sum_snoc del: of_nat_add)
  have rep: "delta_repeated r = (is_some_and (rd_ingress r) (\<lambda>s. 1 < dl_packets s) \<or> is_some_and (rd_egress r) (\<lambda>s. 1 < dl_packets s))"
    by (simp add: delta_repeated_def)
  have cnt: "checked_add (wt_repeated (totals_of rs)) 1 = Some (of_nat (Suc (length (filter delta_repeated rs))))"
    "checked_add (wt_egress_first (totals_of rs)) 1 = Some (of_nat (Suc (length (filter delta_egress_first rs))))"
    using n by (simp_all add: totals_of_def count_of_nat del: of_nat_Suc)
  note defs = totals_of_def side_sum_snoc delta_egress_first_def delta_ratio_def delta_dominant_def
  show ?thesis
  proof (cases "rd_ingress r")
    case None
    then show ?thesis using fe cnt
      unfolding window_relation_def rep [symmetric]
      by (cases "rd_egress r"; cases "delta_repeated r") (simp_all add: defs del: of_nat_Suc of_nat_add)
  next
    case (Some i)
    then show ?thesis using fe fi cnt
      unfolding window_relation_def rep [symmetric]
      by (cases "rd_egress r"; cases "delta_repeated r") (simp_all add: defs del: of_nat_Suc of_nat_add)
  qed
qed

lemma sums_fit_init: "sums_fit (rs @ [r]) \<Longrightarrow> sums_fit rs"
  by (auto simp: sums_fit_def side_sum_snoc)

lemma window_relations_fold: "sums_fit rs \<Longrightarrow> rfold window_relation rs no_totals = Inr (totals_of rs)"
proof (induction rs rule: rev_induct)
  case Nil
  show ?case by (simp add: totals_of_def no_totals_def side_sum_def no_fingerprint_counters_def)
next
  case (snoc r rs)
  with sums_fit_init have "rfold window_relation rs no_totals = Inr (totals_of rs)" by blast
  with window_relation_totals [OF snoc.prems] show ?case by (simp add: rfold_append)
qed

section \<open>What a window reports\<close>

text \<open>The stored scan holds exactly the records of the evidence, in key order.\<close>

definition scan_of :: "FingerprintEvidence list \<Rightarrow> (ExactKey \<times> FingerprintEvidence) list \<Rightarrow> bool" where
  "scan_of es m \<longleftrightarrow> bt_wf m \<and> mset (map snd m) = mset es \<and> m = map (\<lambda>e. (ekey e, e)) (map snd m)"

lemma bt_insert_new: "k \<notin> fst ` set m \<Longrightarrow> mset (bt_insert k v m) = add_mset (k, v) (mset m)"
  by (induction k v m rule: bt_insert.induct) auto

lemma keyed_iff: "m = map (\<lambda>e. (ekey e, e)) (map snd m) \<longleftrightarrow> (\<forall>x \<in> set m. fst x = ekey (snd x))"
  by (induction m) auto

lemma scan_of_keys: "scan_of es m \<Longrightarrow> fst ` set m = ekey ` set es"
proof -
  assume s: "scan_of es m"
  then have "set (map snd m) = set es" unfolding scan_of_def by (metis set_mset_mset)
  moreover have "fst ` set m = ekey ` set (map snd m)"
    using s unfolding scan_of_def keyed_iff by force
  ultimately show ?thesis by simp
qed

lemma scan_of_insert:
  assumes "scan_of es m" and "ekey e \<notin> ekey ` set es"
  shows "scan_of (es @ [e]) (bt_insert (ekey e) e m)"
proof -
  have "mset (bt_insert (ekey e) e m) = add_mset (ekey e, e) (mset m)"
    using assms scan_of_keys by (intro bt_insert_new) simp
  then have "mset (map snd (bt_insert (ekey e) e m)) = mset (es @ [e])" "set (bt_insert (ekey e) e m) = insert (ekey e, e) (set m)"
    using assms(1) by (simp_all add: scan_of_def flip: set_mset_mset)
  then show ?thesis using assms(1) unfolding scan_of_def keyed_iff by (simp add: bt_wf_insert)
qed

lemma validate_scan_ok:
  assumes "ri_ifindex identity \<noteq> 0" "ri_generation identity \<noteq> 0" "length es \<le> 8192"
    and ok: "evidence_ok (ri_ifindex identity) (ri_generation identity) es"
  shows "\<exists>m. validate_scan identity es = Inr m \<and> scan_of es m"
proof -
  let ?f = "\<lambda>item entries. if bt_get entries (exact_key_from (fe_key item)) \<noteq> None then Inl FwInvalidEvidence
       else Inr (bt_insert (exact_key_from (fe_key item)) item entries)"
  have "distinct (map ekey fs) \<Longrightarrow> \<exists>m. rfold ?f fs [] = Inr m \<and> scan_of fs m" for fs
  proof (induction fs rule: rev_induct)
    case Nil
    show ?case by (simp add: scan_of_def)
  next
    case (snoc e fs)
    then obtain m where m: "rfold ?f fs [] = Inr m" "scan_of fs m" by auto
    have new: "ekey e \<notin> ekey ` set fs" using snoc.prems by auto
    then have "bt_get m (ekey e) = None" using scan_of_keys [OF m(2)] by (simp add: map_of_eq_None_iff)
    then show ?case using m(1) scan_of_insert [OF m(2) new] by (simp add: rfold_append ekey_def)
  qed
  moreover have "distinct (map ekey es)" using ok by (simp add: evidence_ok_def)
  ultimately obtain m where "rfold ?f es [] = Inr m" "scan_of es m" by blast
  moreover obtain r where "fingerprint_report_build (ri_ifindex identity) (ri_generation identity) es = Inr r"
    using build_ok_iff [of "ri_ifindex identity" "ri_generation identity" es] assms by (auto simp: is_ok_conv)
  ultimately show ?thesis by (auto simp: validate_scan_def)
qed

lemma bt_count:
  assumes "bt_wf m"
  shows "length (filter P (map snd m)) = card {k. \<exists>r. bt_get m k = Some r \<and> P r}"
proof -
  let ?f = "filter (\<lambda>(k, r). P r) m"
  have d: "distinct (map fst m)" using assms by (rule bt_wf_distinct)
  then have "distinct (map fst ?f)" by (rule distinct_map_filter)
  moreover have "set (map fst ?f) = {k. \<exists>r. bt_get m k = Some r \<and> P r}"
    using d by (force simp: map_of_eq_Some_iff)
  ultimately have "length (map fst ?f) = card {k. \<exists>r. bt_get m k = Some r \<and> P r}" by (metis distinct_card)
  then show ?thesis by (simp add: filter_map o_def case_prod_unfold)
qed

lemma delta_at_Some:
  assumes "distinct (map ekey es)"
  shows "delta_at previous es x = Some s \<longleftrightarrow> (\<exists>e \<in> set es. ekey e = x \<and> active previous e \<and> s = delta_of previous e)"
  using assms by (induction es) (auto simp: delta_at_def image_iff)

lemma delta_relation_Some:
  "delta_relation_at previous es k = Some r \<longleftrightarrow>
     rd_ingress r = delta_at previous es (ExactKey k 1) \<and> rd_egress r = delta_at previous es (ExactKey k 2) \<and>
     (rd_ingress r \<noteq> None \<or> rd_egress r \<noteq> None)"
  by (cases r) (auto simp: delta_relation_at_def Let_def)

lemma delta_sum_perm: "mset es = mset fs \<Longrightarrow> delta_sum previous d sel es = delta_sum previous d sel fs"
proof -
  assume "mset es = mset fs"
  then have "mset (map (\<lambda>e. unat (sel (delta_of previous e))) (filter (\<lambda>e. fk_direction (fe_key e) = d) es)) =
      mset (map (\<lambda>e. unat (sel (delta_of previous e))) (filter (\<lambda>e. fk_direction (fe_key e) = d) fs))" by simp
  then show ?thesis unfolding delta_sum_def by (simp only: sum_mset_sum_list [symmetric])
qed

lemma delta_bounded:
  assumes "consistent previous e"
  shows "unat (dl_packets (delta_of previous e)) \<le> unat (fv_packets (fe_value e))"
    "unat (dl_bytes (delta_of previous e)) \<le> unat (fv_bytes (fe_value e))"
  using assms by (auto simp: consistent_def delta_of_def old_value_def unat_diff split: option.splits)

lemma delta_sum_bounded:
  assumes "\<forall>e \<in> set es. consistent previous e"
  shows "delta_sum previous d dl_packets es \<le> directed_sum d fv_packets es"
    "delta_sum previous d dl_bytes es \<le> directed_sum d fv_bytes es"
  using assms delta_bounded unfolding delta_sum_def directed_sum_def
  by (auto intro!: sum_list_mono)

section \<open>Ratios and sets\<close>

lemma widened_ratio:
  assumes "d \<noteq> 0"
  shows "unat (unwrap_or (try_from_word ((ucast (n :: u64) * 1000 :: u128) div ucast (d :: u64))) (- 1) :: u64)
    = min (unat n * 1000 div unat d) (2 ^ 64 - 1)"
proof -
  have q: "unat ((ucast n * 1000 :: u128) div ucast d) = unat n * 1000 div unat d"
    by (simp only: unat_div widened_sum unat_u128_of_u64)
  show ?thesis
  proof (cases "unat n * 1000 div unat d < 2 ^ 64")
    case True
    then show ?thesis by (simp add: try_from_word_def q unat_narrow)
  next
    case False
    then show ?thesis by (simp add: try_from_word_def q unat_u64_max)
  qed
qed

definition directional_ratio :: "SideDelta \<Rightarrow> SideDelta \<Rightarrow> nat" where
  "directional_ratio i e = (if dl_packets e = 0 then 2 ^ 64 - 1
     else min (1000 * unat (dl_packets i) div unat (dl_packets e)) (2 ^ 64 - 1))"

lemma maximize_unat:
  "map_option unat (maximize_directional_ratio m (dl_packets i) (dl_packets e)) =
     Some (max (case m of None \<Rightarrow> 0 | Some x \<Rightarrow> unat x) (directional_ratio i e))"
  by (cases m) (simp_all add: maximize_directional_ratio_def directional_ratio_def Let_def unat_max unat_u64_max
      widened_ratio mult.commute)

definition ratios :: "RelationDelta list \<Rightarrow> nat set" where
  "ratios rs = {directional_ratio i e | i e r. r \<in> set rs \<and> rd_ingress r = Some i \<and> rd_egress r = Some e}"

lemma ratios_snoc:
  "ratios (rs @ [r]) = (case (rd_ingress r, rd_egress r) of
     (Some i, Some e) \<Rightarrow> insert (directional_ratio i e) (ratios rs) | _ \<Rightarrow> ratios rs)"
  by (auto simp: ratios_def split: option.split)

lemma fold_ratio:
  "finite (ratios rs) \<and>
   map_option unat (foldl delta_ratio None rs) = (if ratios rs = {} then None else Some (Max (ratios rs)))"
proof (induction rs rule: rev_induct)
  case Nil
  show ?case by (simp add: ratios_def)
next
  case (snoc r rs)
  let ?m = "foldl delta_ratio None rs"
  show ?case
  proof (cases "rd_ingress r = None \<or> rd_egress r = None")
    case True
    then have "ratios (rs @ [r]) = ratios rs" "delta_ratio ?m r = ?m"
      by (auto simp: ratios_snoc delta_ratio_def split: option.split)
    with snoc show ?thesis by simp
  next
    case False
    then obtain i e where s: "rd_ingress r = Some i" "rd_egress r = Some e" by auto
    then have "ratios (rs @ [r]) = insert (directional_ratio i e) (ratios rs)" by (simp add: ratios_snoc)
    moreover have "map_option unat (delta_ratio ?m r) = Some (max (case ?m of None \<Rightarrow> 0 | Some x \<Rightarrow> unat x) (directional_ratio i e))"
      using s by (simp add: delta_ratio_def maximize_unat)
    ultimately show ?thesis
      using snoc by (auto simp: Max_insert max.commute split: option.splits if_splits)
  qed
qed

definition ingress_packets :: "RelationDelta list \<Rightarrow> nat set" where
  "ingress_packets rs = {unat (dl_packets s) | s r. r \<in> set rs \<and> rd_ingress r = Some s}"

lemma fold_dominant:
  "finite (ingress_packets rs) \<and> unat (foldl delta_dominant 0 rs) = Max (insert 0 (ingress_packets rs))"
proof (induction rs rule: rev_induct)
  case (snoc r rs)
  have "ingress_packets (rs @ [r]) = (case rd_ingress r of None \<Rightarrow> ingress_packets rs
      | Some s \<Rightarrow> insert (unat (dl_packets s)) (ingress_packets rs))"
    by (auto simp: ingress_packets_def split: option.split)
  with snoc show ?case
    by (cases "rd_ingress r") (auto simp: delta_dominant_def unat_max insert_commute [of 0] max.commute)
qed (simp add: ingress_packets_def)

text \<open>The relations of two scans, in terms of the records.\<close>

abbreviation rkey :: "FingerprintEvidence \<Rightarrow> RelationKey" where
  "rkey e \<equiv> relation_key_from (fe_key e)"

abbreviation edir :: "FingerprintEvidence \<Rightarrow> u8" where
  "edir e \<equiv> fk_direction (fe_key e)"

definition correlated ::
  "(ExactKey \<times> FingerprintEvidence) list \<Rightarrow> FingerprintEvidence list \<Rightarrow> (FingerprintEvidence \<times> FingerprintEvidence) set" where
  "correlated previous es = {(i, e). i \<in> set es \<and> e \<in> set es \<and> edir i = 1 \<and> edir e = 2 \<and> rkey i = rkey e
     \<and> active previous i \<and> active previous e}"

lemma correlated_finite: "finite (correlated previous es)"
  by (rule finite_subset [of _ "set es \<times> set es"]) (auto simp: correlated_def)

lemma delta_sides:
  assumes "distinct (map ekey es)"
  shows "delta_at previous es (ExactKey k d) = Some s \<longleftrightarrow>
    (\<exists>e \<in> set es. rkey e = k \<and> edir e = d \<and> active previous e \<and> s = delta_of previous e)"
  by (auto simp: delta_at_Some [OF assms] ekey_eq)

lemma repeated_active: "1 < dl_packets (delta_of previous e) \<Longrightarrow> active previous e"
  by (auto simp: active_def)

lemma relation_sets:
  assumes dist: "distinct (map ekey es)" and dirs: "\<forall>e \<in> set es. edir e = 1 \<or> edir e = 2"
  shows "{k. \<exists>r. delta_relation_at previous es k = Some r} = rkey ` {e \<in> set es. active previous e}" (is ?all)
    "{k. \<exists>r. delta_relation_at previous es k = Some r \<and> delta_repeated r} =
       rkey ` {e \<in> set es. 1 < dl_packets (delta_of previous e)}" (is ?repeated)
    "{k. \<exists>r. delta_relation_at previous es k = Some r \<and> delta_egress_first r} =
       (\<lambda>(i, e). rkey i) ` {(i, e) \<in> correlated previous es. fv_first_seen_ns (fe_value e) < fv_first_seen_ns (fe_value i)}" (is ?first)
proof -
  note at = delta_sides [OF dist, of previous]
  have ex: "(\<exists>r. delta_relation_at previous es k = Some r \<and> P (rd_ingress r) (rd_egress r)) \<longleftrightarrow>
      P (delta_at previous es (ExactKey k 1)) (delta_at previous es (ExactKey k 2)) \<and>
      (delta_at previous es (ExactKey k 1) \<noteq> None \<or> delta_at previous es (ExactKey k 2) \<noteq> None)" for k P
    by (auto simp: delta_relation_at_def Let_def)
  show ?all
    using ex [of _ "\<lambda>_ _. True"] dirs by (auto simp: at not_None_eq) (metis at)+
  have "(\<exists>r. delta_relation_at previous es k = Some r \<and> delta_repeated r) \<longleftrightarrow>
      (\<exists>e \<in> set es. rkey e = k \<and> 1 < dl_packets (delta_of previous e))" for k
  proof -
    have "(\<exists>r. delta_relation_at previous es k = Some r \<and> delta_repeated r) \<longleftrightarrow>
        (\<exists>d s. (d = 1 \<or> d = 2) \<and> delta_at previous es (ExactKey k d) = Some s \<and> 1 < dl_packets s)"
      using ex [of k "\<lambda>i e. is_some_and i (\<lambda>s. 1 < dl_packets s) \<or> is_some_and e (\<lambda>s. 1 < dl_packets s)"]
      by (auto simp: delta_repeated_def is_some_and_conv)
    also have "\<dots> \<longleftrightarrow> (\<exists>e \<in> set es. rkey e = k \<and> 1 < dl_packets (delta_of previous e))"
      unfolding at using dirs repeated_active by blast
    finally show ?thesis .
  qed
  then show ?repeated by (auto simp: image_iff)
  have "(\<exists>r. delta_relation_at previous es k = Some r \<and> delta_egress_first r) \<longleftrightarrow>
      (\<exists>i e. (i, e) \<in> correlated previous es \<and> rkey i = k \<and> fv_first_seen_ns (fe_value e) < fv_first_seen_ns (fe_value i))" for k
  proof -
    have "(\<exists>r. delta_relation_at previous es k = Some r \<and> delta_egress_first r) \<longleftrightarrow>
        (\<exists>i e. delta_at previous es (ExactKey k 1) = Some i \<and> delta_at previous es (ExactKey k 2) = Some e
           \<and> dl_first_seen_ns e < dl_first_seen_ns i)"
      using ex [of k "\<lambda>i e. is_some_and i (\<lambda>i. is_some_and e (\<lambda>e. dl_first_seen_ns e < dl_first_seen_ns i))"]
      by (auto simp: delta_egress_first_def is_some_and_conv)
    also have "\<dots> \<longleftrightarrow> (\<exists>i e. (i, e) \<in> correlated previous es \<and> rkey i = k
        \<and> dl_first_seen_ns (delta_of previous e) < dl_first_seen_ns (delta_of previous i))"
      unfolding at correlated_def mem_Collect_eq prod.case by (rule iffI; elim exE bexE conjE; metis)
    finally show ?thesis by (simp add: delta_of_def)
  qed
  then show ?first by (simp only:) (rule set_eqI, simp add: image_iff Bex_def, metis)
qed

lemma entry_relations:
  "entry_inv previous es rels \<Longrightarrow> r \<in> set (map snd rels) \<longleftrightarrow> (\<exists>k. delta_relation_at previous es k = Some r)"
proof -
  assume i: "entry_inv previous es rels"
  then have "ran (map_of rels) = snd ` set rels" by (intro ran_distinct bt_wf_distinct) (simp add: entry_inv_def)
  with i show ?thesis by (auto simp: entry_inv_def ran_def)
qed

lemma relation_ingress:
  "(\<exists>r. delta_relation_at previous es k = Some r \<and> rd_ingress r = Some i) \<longleftrightarrow> delta_at previous es (ExactKey k 1) = Some i"
  by (auto simp: delta_relation_at_def Let_def)

lemma relation_pair:
  "(\<exists>r. delta_relation_at previous es k = Some r \<and> rd_ingress r = Some i \<and> rd_egress r = Some e) \<longleftrightarrow>
     delta_at previous es (ExactKey k 1) = Some i \<and> delta_at previous es (ExactKey k 2) = Some e"
  by (auto simp: delta_relation_at_def Let_def)

lemma ratio_set:
  assumes inv: "entry_inv previous es rels" and dist: "distinct (map ekey es)"
  shows "ratios (map snd rels) = (\<lambda>(i, e). directional_ratio (delta_of previous i) (delta_of previous e)) ` correlated previous es"
proof -
  have "ratios (map snd rels) = {directional_ratio i e | i e k. delta_at previous es (ExactKey k 1) = Some i
      \<and> delta_at previous es (ExactKey k 2) = Some e}"
    unfolding ratios_def entry_relations [OF inv] using relation_pair [of previous es] by blast
  also have "\<dots> = (\<lambda>(i, e). directional_ratio (delta_of previous i) (delta_of previous e)) ` correlated previous es"
  proof (rule equalityI; rule subsetI)
    fix x
    assume "x \<in> {directional_ratio i e | i e k. delta_at previous es (ExactKey k 1) = Some i \<and> delta_at previous es (ExactKey k 2) = Some e}"
    then obtain i e where "x = directional_ratio (delta_of previous i) (delta_of previous e)" "(i, e) \<in> correlated previous es"
      unfolding delta_sides [OF dist] by (auto simp: correlated_def)
    then show "x \<in> (\<lambda>(i, e). directional_ratio (delta_of previous i) (delta_of previous e)) ` correlated previous es" by force
  next
    fix x
    assume "x \<in> (\<lambda>(i, e). directional_ratio (delta_of previous i) (delta_of previous e)) ` correlated previous es"
    then obtain i e where x: "x = directional_ratio (delta_of previous i) (delta_of previous e)" and c: "(i, e) \<in> correlated previous es"
      by auto
    from c have "delta_at previous es (ExactKey (rkey i) 1) = Some (delta_of previous i)"
      "delta_at previous es (ExactKey (rkey i) 2) = Some (delta_of previous e)"
      unfolding delta_sides [OF dist] by (auto simp: correlated_def)
    with x show "x \<in> {directional_ratio i e | i e k. delta_at previous es (ExactKey k 1) = Some i \<and> delta_at previous es (ExactKey k 2) = Some e}"
      by blast
  qed
  finally show ?thesis .
qed

lemma dominant_set:
  assumes inv: "entry_inv previous es rels" and dist: "distinct (map ekey es)"
  shows "insert 0 (ingress_packets (map snd rels)) =
    insert 0 ((\<lambda>e. unat (dl_packets (delta_of previous e))) ` {e \<in> set es. edir e = 1})"
proof -
  have "ingress_packets (map snd rels) = {unat (dl_packets s) | s k. delta_at previous es (ExactKey k 1) = Some s}"
    unfolding ingress_packets_def entry_relations [OF inv] using relation_ingress [of previous es] by blast
  also have "\<dots> = (\<lambda>e. unat (dl_packets (delta_of previous e))) ` {e \<in> set es. edir e = 1 \<and> active previous e}"
    by (auto simp: delta_sides [OF dist])
  finally show ?thesis by (auto simp: active_def image_iff)
qed

section \<open>The window as a function of two scans\<close>

definition window_exact ::
  "(ExactKey \<times> FingerprintEvidence) list \<Rightarrow> FingerprintEvidence list \<Rightarrow> FingerprintWindowReport \<Rightarrow> bool" where
  "window_exact previous es r \<longleftrightarrow>
     unat (fw_captured_entry_count r) = length es \<and>
     unat (fc_packets (fw_ingress r)) = delta_sum previous 1 dl_packets es \<and>
     unat (fc_bytes (fw_ingress r)) = delta_sum previous 1 dl_bytes es \<and>
     unat (fc_packets (fw_egress r)) = delta_sum previous 2 dl_packets es \<and>
     unat (fc_bytes (fw_egress r)) = delta_sum previous 2 dl_bytes es \<and>
     unat (fw_delta_relation_count r) = card (rkey ` {e \<in> set es. active previous e}) \<and>
     unat (fw_repeated_relation_count r) = card (rkey ` {e \<in> set es. 1 < dl_packets (delta_of previous e)}) \<and>
     unat (fw_egress_first_correlated_relation_count r) =
       card ((\<lambda>(i, e). rkey i) ` {(i, e) \<in> correlated previous es. fv_first_seen_ns (fe_value e) < fv_first_seen_ns (fe_value i)}) \<and>
     map_option unat (fw_dominant_ingress_packet_ratio_milli r) =
       (if delta_sum previous 1 dl_packets es = 0 then None
        else Some (Max (insert 0 ((\<lambda>e. unat (dl_packets (delta_of previous e))) ` {e \<in> set es. edir e = 1})) * 1000
               div delta_sum previous 1 dl_packets es)) \<and>
     map_option unat (fw_maximum_ingress_to_egress_packet_ratio_milli r) =
       (if correlated previous es = {} then None
        else Some (Max ((\<lambda>(i, e). directional_ratio (delta_of previous i) (delta_of previous e)) ` correlated previous es)))"

text \<open>A record whose packets did not advance has no new bytes either.\<close>

definition untorn :: "(ExactKey \<times> FingerprintEvidence) list \<Rightarrow> FingerprintEvidence \<Rightarrow> bool" where
  "untorn previous e \<longleftrightarrow> dl_packets (delta_of previous e) \<noteq> 0 \<or> dl_bytes (delta_of previous e) = 0"

lemma dominant_le_sum:
  "Max (insert 0 ((\<lambda>e. unat (dl_packets (delta_of previous e))) ` {e \<in> set es. edir e = 1})) \<le> delta_sum previous 1 dl_packets es"
  by (auto simp: delta_sum_def intro!: member_le_sum_list image_eqI)

lemma egress_counted:
  assumes "(i, e) \<in> correlated previous es" "untorn previous e"
  shows "0 < delta_sum previous 2 dl_packets es"
proof -
  have "e \<in> set (filter (\<lambda>e. edir e = 2) es)" "dl_packets (delta_of previous e) \<noteq> 0"
    using assms by (auto simp: correlated_def untorn_def active_def)
  then have "unat (dl_packets (delta_of previous e)) \<le> delta_sum previous 2 dl_packets es" "0 < unat (dl_packets (delta_of previous e))"
    unfolding delta_sum_def by (auto intro!: member_le_sum_list image_eqI simp: unat_gt_0)
  then show ?thesis by simp
qed

lemma relations_fit:
  assumes inv: "entry_inv previous es rels" and dist: "distinct (map ekey es)" and dirs: "\<forall>e \<in> set es. edir e = 1 \<or> edir e = 2"
    and cons: "\<forall>e \<in> set es. consistent previous e" and len: "length es \<le> 8192"
    and sums: "directed_sum 1 fv_packets es < 2 ^ 64" "directed_sum 1 fv_bytes es < 2 ^ 64"
      "directed_sum 2 fv_packets es < 2 ^ 64" "directed_sum 2 fv_bytes es < 2 ^ 64"
  shows "sums_fit (map snd rels)" and "length rels = card (rkey ` {e \<in> set es. active previous e})" and "length rels \<le> 8192"
proof -
  show n: "length rels = card (rkey ` {e \<in> set es. active previous e})"
    using bt_count [of rels "\<lambda>_. True"] inv relation_sets(1) [OF dist dirs, of previous] by (simp add: entry_inv_def)
  also have "\<dots> \<le> card {e \<in> set es. active previous e}" by (rule card_image_le) simp
  also have "\<dots> \<le> card (set es)" by (rule card_mono) auto
  also have "\<dots> \<le> length es" by (rule card_length)
  finally show le: "length rels \<le> 8192" using len by simp
  show "sums_fit (map snd rels)"
    using inv sums delta_sum_bounded [OF cons] le
    by (auto simp: sums_fit_def entry_inv_def intro: le_less_trans)
qed

lemma window_exact_perm: "mset es = mset fs \<Longrightarrow> window_exact previous es r = window_exact previous fs r"
proof -
  assume m: "mset es = mset fs"
  then have "set es = set fs" "length es = length fs" by (auto dest: mset_eq_setD mset_eq_length)
  moreover from this have "correlated previous es = correlated previous fs" by (simp add: correlated_def)
  ultimately show ?thesis by (simp add: window_exact_def delta_sum_perm [OF m])
qed

lemma unat_of_nat_64: "n < 2 ^ 64 \<Longrightarrow> unat (of_nat n :: u64) = n"
  by (simp add: unat_of_nat)

lemma ready_window_totals:
  assumes inv: "entry_inv previous es rels" and dist: "distinct (map ekey es)" and dirs: "\<forall>e \<in> set es. edir e = 1 \<or> edir e = 2"
    and fit: "sums_fit (map snd rels)" and n: "length rels = card (rkey ` {e \<in> set es. active previous e})" "length es \<le> 8192"
  shows "window_exact previous es (ready_window p c cov (of_nat (length rels)) (of_nat (length es)) (totals_of (map snd rels)))"
proof -
  let ?rs = "map snd rels" and ?S = "delta_sum previous 1 dl_packets es"
  let ?D = "Max (insert 0 ((\<lambda>e. unat (dl_packets (delta_of previous e))) ` {e \<in> set es. edir e = 1}))"
  note i = inv [unfolded entry_inv_def] and f = fit [unfolded sums_fit_def]
  have sets: "length (filter P ?rs) = card {k. \<exists>r. delta_relation_at previous es k = Some r \<and> P r}" for P
    using bt_count [of rels P] i by simp
  have counts: "unat (of_nat (length (filter P ?rs)) :: u16) = length (filter P ?rs)" for P
    using f le_less_trans [OF length_filter_le [of P ?rs], of 65536] by (simp add: unat_of_nat)
  note reps = counts [of delta_repeated, unfolded sets [of delta_repeated] relation_sets(2) [OF dist dirs]]
  note firsts = counts [of delta_egress_first, unfolded sets [of delta_egress_first] relation_sets(3) [OF dist dirs]]
  have lens: "unat (of_nat (length es) :: u16) = length es" "unat (of_nat (length rels) :: u16) = length rels"
    using n f by (simp_all add: unat_of_nat)
  have D: "unat (foldl delta_dominant 0 ?rs) = ?D" using fold_dominant [of ?rs] dominant_set [OF inv dist] by simp
  have S: "unat (of_nat ?S :: u64) = ?S" using i f by (intro unat_of_nat_64) simp
  have dom: "map_option unat (ratio_milli (foldl delta_dominant 0 ?rs) (of_nat ?S)) = (if ?S = 0 then None else Some (?D * 1000 div ?S))"
  proof (cases "?S = 0")
    case False
    then have nz: "(of_nat ?S :: u64) \<noteq> 0" using S by auto
    have "?D * 1000 div ?S \<le> ?S * 1000 div ?S" by (intro div_le_mono mult_le_mono1 dominant_le_sum)
    then have "?D * 1000 div ?S \<le> 1000" using False by simp
    then show ?thesis using False nz by (simp add: ratio_milli_def widened_ratio D S)
  qed (simp add: ratio_milli_def)
  have rat: "map_option unat (foldl delta_ratio None ?rs) = (if correlated previous es = {} then None
      else Some (Max ((\<lambda>(i, e). directional_ratio (delta_of previous i) (delta_of previous e)) ` correlated previous es)))"
    using fold_ratio [of ?rs] ratio_set [OF inv dist] by simp
  show ?thesis
    unfolding window_exact_def ready_window_def totals_of_def
    using i f dom rat lens n(1)
    by (simp add: unat_of_nat_64 sets [of delta_repeated] sets [of delta_egress_first] relation_sets [OF dist dirs]
        reps firsts del: filter_map length_filter_map)
qed

lemma exact_validates:
  assumes x: "window_exact previous es r" and un: "\<forall>e \<in> set es. untorn previous e" and len: "length es \<le> 8192"
    and r: "fw_state r = FwReady" "fw_window_ms r = 10000" "10000 \<le> fw_coverage_ms r" "fw_coverage_ms r \<le> 15000"
      "fw_start_unix_ms r = Some s" "fw_end_unix_ms r = Some e" "s \<le> e" "fw_last_error_code r = None"
  shows "window_validate r = Inr ()"
proof -
  note w = x [unfolded window_exact_def]
  let ?S = "delta_sum previous 1 dl_packets es"
  let ?D = "Max (insert 0 ((\<lambda>e. unat (dl_packets (delta_of previous e))) ` {e \<in> set es. edir e = 1}))"
  have "card (rkey ` {e \<in> set es. 1 < dl_packets (delta_of previous e)}) \<le> card (rkey ` {e \<in> set es. active previous e})"
    by (rule card_mono) (auto dest: repeated_active)
  then have rep: "\<not> fw_delta_relation_count r < fw_repeated_relation_count r" using w by (simp add: word_less_nat_alt)
  have "card ((\<lambda>(i, e). rkey i) ` {(i, e) \<in> correlated previous es. fv_first_seen_ns (fe_value e) < fv_first_seen_ns (fe_value i)})
      \<le> card (rkey ` {e \<in> set es. active previous e})"
    by (rule card_mono) (auto simp: correlated_def)
  then have first: "\<not> fw_delta_relation_count r < fw_egress_first_correlated_relation_count r" using w by (simp add: word_less_nat_alt)
  have "?D * 1000 div ?S \<le> ?S * 1000 div ?S" by (intro div_le_mono mult_le_mono1 dominant_le_sum)
  then have "?S \<noteq> 0 \<Longrightarrow> ?D * 1000 div ?S \<le> 1000" by simp
  then have dom: "\<not> is_some_and (fw_dominant_ingress_packet_ratio_milli r) (\<lambda>ratio. 1000 < ratio)"
    "fc_packets (fw_ingress r) = 0 \<Longrightarrow> fw_dominant_ingress_packet_ratio_milli r = None"
    using w by (auto simp: is_some_and_conv word_less_nat_alt split: if_splits)
  have eg: "fw_maximum_ingress_to_egress_packet_ratio_milli r = None" if "fc_packets (fw_egress r) = 0"
  proof -
    have "delta_sum previous 2 dl_packets es = 0" using w that by simp
    then have "correlated previous es = {}" using egress_counted un by (fastforce simp: correlated_def)
    then show ?thesis using w by simp
  qed
  show ?thesis
    using r rep first dom eg w len by (auto simp: window_validate_def not_less)
qed

lemma build_window_exact:
  assumes scan: "scan_of es (en_entries c)" and ok: "evidence_ok i g es" and len: "length es \<le> 8192"
    and cons: "\<forall>e \<in> set es. consistent (en_entries p) e \<and> untorn (en_entries p) e"
    and cov: "10000 \<le> cov" "cov \<le> 15000" and unix: "en_captured_at_unix_ms p \<le> en_captured_at_unix_ms c"
  shows "\<exists>r. build_window p c cov = Inr r \<and> window_exact (en_entries p) es r"
proof -
  let ?fs = "map snd (en_entries c)" and ?prev = "en_entries p"
  have m: "mset es = mset ?fs" and keyed: "en_entries c = map (\<lambda>e. (ekey e, e)) ?fs" using scan by (simp_all add: scan_of_def)
  have set: "set ?fs = set es" and l: "length ?fs = length es" using mset_eq_setD [OF m] mset_eq_length [OF m] by simp_all
  have ok': "evidence_ok i g ?fs" using ok evidence_ok_perm [OF m] by simp
  have dist: "distinct (map ekey ?fs)" and dirs: "\<forall>e \<in> set ?fs. edir e = 1 \<or> edir e = 2"
    using ok' validate_evidence_direction by (auto simp: evidence_ok_def list_all_iff)
  have cons': "\<forall>e \<in> set ?fs. consistent ?prev e" "\<forall>e \<in> set ?fs. untorn ?prev e" using cons set by auto
  obtain rels where rels: "rfold (window_entry ?prev) (en_entries c) [] = Inr rels" and inv: "entry_inv ?prev ?fs rels"
    using window_entries_fold [OF dist dirs cons'(1)] keyed by auto
  have fit: "sums_fit (map snd rels)" "length rels = card (rkey ` {e \<in> set ?fs. active ?prev e})" "length rels \<le> 8192"
    using relations_fit [OF inv dist dirs cons'(1)] len l ok' by (simp_all add: evidence_ok_def)
  let ?r = "ready_window p c cov (of_nat (length rels)) (of_nat (length ?fs)) (totals_of (map snd rels))"
  have exact: "window_exact ?prev ?fs ?r" using ready_window_totals [OF inv dist dirs fit(1,2)] len l by simp
  have "window_validate ?r = Inr ()"
    by (rule exact_validates [OF exact cons'(2), where s = "en_captured_at_unix_ms p" and e = "en_captured_at_unix_ms c"]) (use len l cov unix in \<open>simp_all add: ready_window_def\<close>)
  moreover have "length (en_entries c) < 65536" "length rels < 65536" using len l fit(3) by simp_all
  ultimately have "build_window p c cov = Inr ?r"
    using rels window_relations_fold [OF fit(1)] by (simp add: build_window_def try_from_usize_def)
  with exact show ?thesis using window_exact_perm [OF m] by blast
qed

lemma record_scan_exact:
  assumes "fwh_endpoint h = Some p" and "ri_ifindex (fwh_identity h) \<noteq> 0" "ri_generation (fwh_identity h) \<noteq> 0"
    and "length es \<le> 8192" and ok: "evidence_ok (ri_ifindex (fwh_identity h)) (ri_generation (fwh_identity h)) es"
    and "\<forall>e \<in> set es. consistent (en_entries p) e \<and> untorn (en_entries p) e"
    and "en_captured_at_monotonic_ns p \<le> t" and "en_captured_at_unix_ms p \<le> u"
    and cov: "10000 \<le> (t - en_captured_at_monotonic_ns p) div 1000000" "(t - en_captured_at_monotonic_ns p) div 1000000 \<le> 15000"
  shows "\<exists>r h'. record_scan t u es h = (Inr r, h') \<and> fw_state r = FwReady \<and> fwh_report h' = r \<and> window_exact (en_entries p) es r"
proof -
  obtain m where m: "validate_scan (fwh_identity h) es = Inr m" "scan_of es m"
    using validate_scan_ok [OF assms(2-5)] by blast
  let ?c = "\<lparr>en_captured_at_monotonic_ns = t, en_captured_at_unix_ms = u, en_entries = m\<rparr>"
  let ?cov = "(t - en_captured_at_monotonic_ns p) div 1000000"
  obtain r where r: "build_window p ?c ?cov = Inr r" "window_exact (en_entries p) es r"
    using build_window_exact [OF _ ok, of ?c p ?cov] m(2) assms by auto
  moreover have "t - en_captured_at_monotonic_ns p \<noteq> 0" using cov(1) by auto
  ultimately show ?thesis
    using m(1) assms build_window_end [OF r(1)]
    by (simp add: record_scan_def checked_sub_def not_less [symmetric])
qed

section \<open>Refusals\<close>

lemma rfold_each: "rfold f xs s = Inr t \<Longrightarrow> x \<in> set xs \<Longrightarrow> \<exists>s' t'. f x s' = Inr t'"
  by (induction xs arbitrary: s) (auto simp: rbind_Inr_conv)

lemma validate_scan_scan: "validate_scan identity es = Inr m \<Longrightarrow> scan_of es m"
proof -
  assume v: "validate_scan identity es = Inr m"
  then have "is_ok (fingerprint_report_build (ri_ifindex identity) (ri_generation identity) es)"
    by (auto simp: validate_scan_def rbind_Inr_conv)
  then obtain m' where "validate_scan identity es = Inr m'" "scan_of es m'"
    using validate_scan_ok [of identity es] build_ok_iff by blast
  with v show ?thesis by simp
qed

lemma validate_scan_error: "validate_scan identity es = Inl e \<Longrightarrow> e = FwInvalidEvidence"
proof -
  have "rfold (\<lambda>item entries. if bt_get entries (exact_key_from (fe_key item)) \<noteq> None then Inl FwInvalidEvidence
      else Inr (bt_insert (exact_key_from (fe_key item)) item entries)) fs m = Inl e \<Longrightarrow> e = FwInvalidEvidence" for fs m
    by (induction fs arbitrary: m) (auto simp: rbind_Inl_conv split: if_splits)
  then show "validate_scan identity es = Inl e \<Longrightarrow> e = FwInvalidEvidence"
    by (auto simp: validate_scan_def rbind_Inl_conv)
qed

lemma build_window_consistent:
  assumes "build_window p c cov = Inr r" and "scan_of es (en_entries c)"
  shows "\<forall>e \<in> set es. consistent (en_entries p) e"
proof
  fix e assume "e \<in> set es"
  then have "e \<in> set (map snd (en_entries c))" using assms(2) unfolding scan_of_def by (metis mset_eq_setD)
  then have "(ekey e, e) \<in> set (en_entries c)" using assms(2) unfolding scan_of_def keyed_iff by force
  moreover obtain rels where "rfold (window_entry (en_entries p)) (en_entries c) [] = Inr rels"
    using assms(1) by (auto simp: build_window_def rbind_Inr_conv)
  ultimately obtain s t where "window_entry (en_entries p) (ekey e, e) s = Inr t"
    using rfold_each [of "window_entry (en_entries p)"] by blast
  then have "is_ok (entry_delta (en_entries p) (ekey e) e)" by (auto simp: window_entry_def rbind_Inr_conv is_ok_conv)
  then show "consistent (en_entries p) e" using entry_delta_refuses by blast
qed

lemma record_scan_outcome:
  "(case record_scan t u es h of
      (Inl err, h') \<Rightarrow> h' = snd (window_fail err h)
    | (Inr r, h') \<Rightarrow> fwh_identity h' = fwh_identity h \<and> fwh_report h' = r \<and>
        (r = window_warming \<or>
         (\<exists>p. fwh_endpoint h = Some p \<and> fw_state r = FwReady \<and> fw_coverage_ms r = (t - en_captured_at_monotonic_ns p) div 1000000 \<and>
              en_captured_at_monotonic_ns p < t \<and> (\<forall>e \<in> set es. consistent (en_entries p) e))))"
proof (cases "validate_scan (fwh_identity h) es")
  case (Inl err)
  then show ?thesis by (simp add: record_scan_def window_fail_eq)
next
  case (Inr m)
  let ?c = "\<lparr>en_captured_at_monotonic_ns = t, en_captured_at_unix_ms = u, en_entries = m\<rparr>"
  have scan: "scan_of es m" using Inr by (rule validate_scan_scan)
  show ?thesis
  proof (cases "fwh_endpoint h")
    case None
    with Inr show ?thesis by (simp add: record_scan_def)
  next
    case (Some p)
    let ?cov = "(t - en_captured_at_monotonic_ns p) div 1000000"
    have built: "fw_state r = FwReady \<and> fw_coverage_ms r = ?cov \<and> (\<forall>e \<in> set es. consistent (en_entries p) e)"
      if "build_window p ?c ?cov = Inr r" for r
      using build_window_end [OF that] build_window_consistent [OF that] scan by simp
    show ?thesis
    proof (cases "en_captured_at_monotonic_ns p < t")
      case True
      then have "checked_sub t (en_captured_at_monotonic_ns p) = Some (t - en_captured_at_monotonic_ns p)"
        "t - en_captured_at_monotonic_ns p \<noteq> 0" by (auto simp: checked_sub_def)
      with Inr Some True built show ?thesis
        by (cases "build_window p ?c ?cov") (simp_all add: record_scan_def window_fail_eq Let_def)
    next
      case False
      then have "checked_sub t (en_captured_at_monotonic_ns p) \<in> {None, Some 0}" by (auto simp: checked_sub_def)
      with Inr Some show ?thesis by (auto simp: record_scan_def window_fail_eq)
    qed
  qed
qed

section \<open>Properties\<close>

text \<open>
  Whatever scans, failures and resets happen, in any order, the cached window report satisfies its
  own validation, and a ready report covers ten to fifteen seconds.
\<close>

theorem window_reports_validate:
  "let report = fwh_report (foldl window_step (window_history_new identity) ops)
   in window_validate report = Inr () \<and>
      (case fw_state report of
         FwReady \<Rightarrow> 10000 \<le> fw_coverage_ms report \<and> fw_coverage_ms report \<le> 15000
       | FwWarmingUp \<Rightarrow> report = window_warming
       | FwUnavailable \<Rightarrow> fw_last_error_code report \<noteq> None)"
proof -
  let ?r = "fwh_report (foldl window_step (window_history_new identity) ops)"
  have v: "window_validate ?r = Inr ()" using window_run_inv [of identity ops] by (simp add: window_inv_def)
  then have "fw_window_ms ?r = 10000" by (simp add: window_validate_def split: if_splits)
  then have "(case fw_state ?r of
       FwReady \<Rightarrow> 10000 \<le> fw_coverage_ms ?r \<and> fw_coverage_ms ?r \<le> 15000
     | FwWarmingUp \<Rightarrow> ?r = window_warming
     | FwUnavailable \<Rightarrow> fw_last_error_code ?r \<noteq> None)"
    using v by (cases "fw_state ?r")
      (simp_all add: window_validate_def window_counters_are_empty_def window_warming_def no_fingerprint_counters_def split: if_splits)
  with v show ?thesis by (simp add: Let_def)
qed

text \<open>
  A scan that is refused leaves nothing of the old evidence behind: the endpoint is gone, the cached
  report is the empty unavailable report with the stable code of the error, and the next acceptable scan
  starts a new window. A ready report is only given when every record agrees with the previous scan: same
  first sight and addresses, no counter and no timestamp going backwards, and a clock that advanced.
\<close>

theorem scan_refusal_resets:
  "case record_scan now unix evidence history of
     (Inl error, after) \<Rightarrow>
       fwh_endpoint after = None \<and> fwh_identity after = fwh_identity history \<and>
       fwh_report after = window_warming\<lparr>fw_state := FwUnavailable, fw_last_error_code := Some (window_stable_code error)\<rparr> \<and>
       fst (record_scan now' unix' evidence' after) \<in> {Inl FwInvalidEvidence, Inr window_warming}
   | (Inr report, after) \<Rightarrow>
       fwh_report after = report \<and>
       (case fw_state report of
          FwReady \<Rightarrow> (\<exists>p. fwh_endpoint history = Some p \<and> en_captured_at_monotonic_ns p < now \<and>
             fw_coverage_ms report = (now - en_captured_at_monotonic_ns p) div 1000000 \<and>
             list_all (consistent (en_entries p)) evidence)
        | FwWarmingUp \<Rightarrow> report = window_warming
        | FwUnavailable \<Rightarrow> False)"
proof (cases "record_scan now unix evidence history")
  case (Pair x after)
  have o: "case (x, after) of
      (Inl err, h') \<Rightarrow> h' = snd (window_fail err history)
    | (Inr r, h') \<Rightarrow> fwh_identity h' = fwh_identity history \<and> fwh_report h' = r \<and>
        (r = window_warming \<or>
         (\<exists>p. fwh_endpoint history = Some p \<and> fw_state r = FwReady \<and> fw_coverage_ms r = (now - en_captured_at_monotonic_ns p) div 1000000 \<and>
              en_captured_at_monotonic_ns p < now \<and> (\<forall>e \<in> set evidence. consistent (en_entries p) e)))"
    using record_scan_outcome [where t = now and u = unix and es = evidence and h = history] by (simp only: Pair)
  show ?thesis
  proof (cases x)
    case (Inl err)
    then have after: "fwh_endpoint after = None" "after = snd (window_fail err history)" using o by (simp_all add: window_fail_eq)
    have "fst (record_scan now' unix' evidence' after) \<in> {Inl FwInvalidEvidence, Inr window_warming}"
    proof (cases "validate_scan (fwh_identity after) evidence'")
      case (Inl e)
      then have "e = FwInvalidEvidence" by (rule validate_scan_error)
      with Inl show ?thesis by (simp add: record_scan_def window_fail_eq)
    qed (simp add: record_scan_def after(1))
    with after Pair Inl show ?thesis by (simp add: window_fail_eq)
  next
    case (Inr r)
    with o Pair show ?thesis by (auto simp: list_all_iff split: FingerprintWindowState.split)
  qed
qed

text \<open>
  \<^bold>\<open>C39.\<close> The window is the exact difference of two scans. With a stored endpoint ten to fifteen seconds old
  and a well-formed scan whose records agree with it, \<open>record_scan\<close> succeeds and the ready report holds
  the exact directional sums of the per-record differences, the number of relations that moved, of those
  with more than one new packet, and of those first seen on egress, and the two ratios: the share of the
  busiest ingress relation and the largest ingress-to-egress ratio, in thousandths, capped at 64 bits.
\<close>

theorem ready_window_exact:
  assumes "fwh_endpoint history = Some p" and "ri_ifindex (fwh_identity history) \<noteq> 0" and "ri_generation (fwh_identity history) \<noteq> 0"
    and "length evidence \<le> 8192"
    and "evidence_ok (ri_ifindex (fwh_identity history)) (ri_generation (fwh_identity history)) evidence"
    and "\<forall>e \<in> set evidence. consistent (en_entries p) e \<and> untorn (en_entries p) e"
    and "en_captured_at_monotonic_ns p \<le> now" and "en_captured_at_unix_ms p \<le> unix"
    and "10000 \<le> (now - en_captured_at_monotonic_ns p) div 1000000"
    and "(now - en_captured_at_monotonic_ns p) div 1000000 \<le> 15000"
  shows "\<exists>report after. record_scan now unix evidence history = (Inr report, after) \<and> fw_state report = FwReady \<and>
    fwh_report after = report \<and> window_exact (en_entries p) evidence report"
  using assms by (rule record_scan_exact [where t = now and u = unix])

definition sample_history :: FingerprintWindowHistory where
  "sample_history = \<lparr>fwh_identity = \<lparr>ri_ifindex = 2, ri_generation = 1\<rparr>,
     fwh_endpoint = Some \<lparr>en_captured_at_monotonic_ns = 5, en_captured_at_unix_ms = 6, en_entries = []\<rparr>,
     fwh_report = window_warming\<rparr>"

theorem ready_window_exact_witness:
  "\<exists>report after. record_scan 12000000005 12006 [sample_evidence 1 9, sample_evidence 2 5] sample_history = (Inr report, after) \<and>
     fw_state report = FwReady \<and> fwh_report after = report \<and> window_exact [] [sample_evidence 1 9, sample_evidence 2 5] report"
proof -
  let ?p = "\<lparr>en_captured_at_monotonic_ns = 5, en_captured_at_unix_ms = 6, en_entries = []\<rparr>"
  have "\<forall>e \<in> set [sample_evidence 1 9, sample_evidence 2 5]. consistent (en_entries ?p) e \<and> untorn (en_entries ?p) e"
    by (simp add: consistent_def untorn_def delta_of_def old_value_def sample_evidence_def)
  then show ?thesis
    using ready_window_exact [where history = sample_history and p = ?p and evidence = "[sample_evidence 1 9, sample_evidence 2 5]" and now = 12000000005
        and unix = 12006] sample_evidence_ok
    by (simp add: sample_history_def)
qed

end
