(* ===== verification/Signals.thy ===== *)
theory Signals
  imports FingerprintWindow
begin

text \<open>
  The evidence side of passive detection (\<open>l2-loop-core/src/detection.rs\<close>, up to
  \<open>derive_relationship_signals\<close>): rate windows, the baseline report and the fingerprint window are
  checked against each other and condensed into per-hook storm candidates and two loop relationship
  signals.
\<close>

section \<open>Definitions\<close>

definition DETECTION_ADAPTIVE_PACKET_FLOOR_PPS :: u64 where [simp]: "DETECTION_ADAPTIVE_PACKET_FLOOR_PPS = 1000"
definition DETECTION_ADAPTIVE_BYTE_FLOOR_BPS :: u64 where [simp]: "DETECTION_ADAPTIVE_BYTE_FLOOR_BPS = 1048576"
definition DETECTION_ABSOLUTE_PACKET_THRESHOLD_PPS :: u64 where [simp]: "DETECTION_ABSOLUTE_PACKET_THRESHOLD_PPS = 100000"
definition DETECTION_ABSOLUTE_BYTE_THRESHOLD_BPS :: u64 where [simp]: "DETECTION_ABSOLUTE_BYTE_THRESHOLD_BPS = 104857600"
definition DETECTION_BUM_RATIO_MILLI :: u64 where [simp]: "DETECTION_BUM_RATIO_MILLI = 800"
definition DETECTION_DOMINANT_RATIO_MILLI :: u64 where [simp]: "DETECTION_DOMINANT_RATIO_MILLI = 800"
definition DETECTION_MINIMUM_INGRESS_SAMPLES :: u64 where [simp]: "DETECTION_MINIMUM_INGRESS_SAMPLES = 16"
definition DETECTION_AMPLIFICATION_RATIO_MILLI :: u64 where [simp]: "DETECTION_AMPLIFICATION_RATIO_MILLI = 4000"

datatype StormCandidate = CandNone | CandIngress | CandEgress | CandBidirectional

record HookDetectionSignals =
  hs_bum_packets_per_second :: "u64 option"
  hs_bum_bytes_per_second :: "u64 option"
  hs_bum_ratio_milli :: "u64 option"
  hs_baseline_elevated :: "bool option"
  hs_adaptive_candidate :: "bool option"
  hs_absolute_candidate :: "bool option"

definition hook_signals_warming :: HookDetectionSignals where
  "hook_signals_warming =
     \<lparr>hs_bum_packets_per_second = None, hs_bum_bytes_per_second = None, hs_bum_ratio_milli = None,
      hs_baseline_elevated = None, hs_adaptive_candidate = None, hs_absolute_candidate = None\<rparr>"

record DetectionSignals =
  ds_source_window_end_unix_ms :: "u64 option"
  ds_ingress :: HookDetectionSignals
  ds_egress :: HookDetectionSignals
  ds_candidate :: StormCandidate
  ds_fingerprint_window :: FingerprintWindowReport
  ds_loop_suspected :: "bool option"
  ds_loop_high_confidence :: "bool option"

datatype DetectionError = DetInvalidRateEvidence | DetInvalidBaselineEvidence | DetInvalidFingerprintEvidence
  | DetSourceEndpointMismatch | DetClockRegression | DetCalculationFailed

definition signals_warming :: DetectionSignals where
  "signals_warming =
     \<lparr>ds_source_window_end_unix_ms = None, ds_ingress = hook_signals_warming, ds_egress = hook_signals_warming,
      ds_candidate = CandNone, ds_fingerprint_window = window_warming, ds_loop_suspected = None,
      ds_loop_high_confidence = None\<rparr>"

definition signals_validate :: "DetectionSignals \<Rightarrow> (DomainError, unit) result" where
  "signals_validate s =
     rbind (window_validate (ds_fingerprint_window s)) (\<lambda>_.
     rbind (rfold (\<lambda>hook _. if is_some_and (hs_bum_ratio_milli hook) (\<lambda>ratio. 1000 < ratio)
                            then Inl (InvalidObservation ''detection BUM ratio exceeds one thousand milli'')
                            else Inr ()) [ds_ingress s, ds_egress s] ()) (\<lambda>_.
     if ds_loop_high_confidence s = Some True \<and> ds_loop_suspected s \<noteq> Some True
     then Inl (InvalidObservation ''high-confidence detection requires suspected evidence'')
     else Inr ()))"

definition fixed_window :: "DetailedRateWindow arr3 \<Rightarrow> u64 \<Rightarrow> (DetectionError, DetailedRateWindow) result" where
  "fixed_window windows window_ms =
     ok_or DetInvalidRateEvidence (find (\<lambda>window. dw_window_ms window = window_ms) (arr3_list windows))"

definition validate_source_endpoints ::
  "DetailedRateWindow arr3 \<Rightarrow> BaselineReport \<Rightarrow> FingerprintWindowReport \<Rightarrow> u64 \<Rightarrow> (DetectionError, u64 option) result" where
  "validate_source_endpoints rate_windows baseline fingerprint_window evaluated_at_unix_ms =
     rbind (rfold (\<lambda>window source_end.
         rbind (ok_or DetInvalidRateEvidence (dw_end_unix_ms window)) (\<lambda>end.
         if is_some_and source_end (\<lambda>existing. existing \<noteq> end) then Inl DetSourceEndpointMismatch
         else if evaluated_at_unix_ms < end then Inl DetClockRegression
         else Inr (Some end)))
       (filter (\<lambda>window. dw_state window = Ready) (arr3_list rate_windows)) None) (\<lambda>source_end.
     rbind (case br_source_end_unix_ms baseline of
              None \<Rightarrow> Inr ()
            | Some baseline_end \<Rightarrow>
                if source_end \<noteq> Some baseline_end then Inl DetSourceEndpointMismatch
                else if evaluated_at_unix_ms < baseline_end then Inl DetClockRegression
                else Inr ()) (\<lambda>_.
     if is_some_and (fw_end_unix_ms fingerprint_window) (\<lambda>end. evaluated_at_unix_ms < end)
     then Inl DetClockRegression
     else Inr source_end))"

definition hook_rates :: "DetailedRateWindow \<Rightarrow> HookRole \<Rightarrow> (DetectionError, HookRate option) result" where
  "hook_rates window role =
     (if dw_state window \<noteq> Ready then Inr None
      else ok_or DetInvalidRateEvidence
             (map_option Some (case dw_hooks window of
                None \<Rightarrow> None
              | Some hooks \<Rightarrow> find (\<lambda>hook. hr_role hook = role) (arr2_list hooks))))"

definition bum_rates :: "HookRate \<Rightarrow> (DetectionError, u64 \<times> u64) result" where
  "bum_rates rates =
     rbind (rfold (\<lambda>cls (packets, bytes).
         rbind (ok_or DetCalculationFailed (checked_add packets (rc_packets_per_second (cr_counters cls)))) (\<lambda>packets.
         rbind (ok_or DetCalculationFailed (checked_add bytes (rc_bytes_per_second (cr_counters cls)))) (\<lambda>bytes.
         Inr (packets, bytes)))) (take 4 (arr6_list (hr_classes rates))) (0, 0)) (\<lambda>(packets, bytes).
     if rc_packets_per_second (hr_total rates) < packets \<or> rc_bytes_per_second (hr_total rates) < bytes
     then Inl DetInvalidRateEvidence
     else Inr (packets, bytes))"

definition detection_ratio_milli :: "u64 \<Rightarrow> u64 \<Rightarrow> (DetectionError, u64) result" where
  "detection_ratio_milli numerator denominator =
     (if denominator = 0 then if numerator = 0 then Inr 0 else Inl DetInvalidRateEvidence
      else
        rbind (ok_or DetCalculationFailed (checked_mul (ucast numerator :: u128) 1000)) (\<lambda>scaled.
        ok_or DetCalculationFailed (try_from_word (scaled div ucast denominator))))"

definition BUM_CLASSES :: "TrafficClass list" where
  "BUM_CLASSES = [TcL2Broadcast, TcIpv4Multicast, TcIpv6Multicast, TcOtherL2Multicast]"

text \<open>The loop over the four classes leaves early with \<open>Ok(None)\<close> when a subject is not trustworthy.\<close>

fun bum_elevated_loop ::
  "BaselineReport \<Rightarrow> HookRole \<Rightarrow> TrafficClass list \<Rightarrow> bool \<Rightarrow> (DetectionError, bool option) result" where
  "bum_elevated_loop baseline role [] elevated = Inr (Some elevated)"
| "bum_elevated_loop baseline role (traffic_class # rest) elevated =
     (case find (\<lambda>subject. sr_hook subject = role \<and> sr_subject subject = BlTrafficClass traffic_class)
             (br_subjects baseline) of
        None \<Rightarrow> Inl DetInvalidBaselineEvidence
      | Some subject \<Rightarrow>
          if sr_state subject \<in> {BlLearning, BlUnavailable} then Inr None
          else bum_elevated_loop baseline role rest
                 (elevated \<or> mr_elevated (sr_packets subject) = Some True \<or> mr_elevated (sr_bytes subject) = Some True))"

definition baseline_bum_elevated :: "BaselineReport \<Rightarrow> HookRole \<Rightarrow> (DetectionError, bool option) result" where
  "baseline_bum_elevated baseline role = bum_elevated_loop baseline role BUM_CLASSES False"

definition derive_hook ::
  "DetailedRateWindow \<Rightarrow> DetailedRateWindow \<Rightarrow> BaselineReport \<Rightarrow> HookRole \<Rightarrow> (DetectionError, HookDetectionSignals) result" where
  "derive_hook one_second ten_second baseline role =
     rbind (hook_rates ten_second role) (\<lambda>ten_second_rates.
     rbind (hook_rates one_second role) (\<lambda>one_second_rates.
     rbind (baseline_bum_elevated baseline role) (\<lambda>baseline_elevated.
     rbind (case ten_second_rates of
              None \<Rightarrow> Inr (None, None, None)
            | Some rates \<Rightarrow>
                rbind (bum_rates rates) (\<lambda>(packets, bytes).
                rbind (detection_ratio_milli packets (rc_packets_per_second (hr_total rates))) (\<lambda>ratio.
                Inr (Some packets, Some bytes, Some ratio)))) (\<lambda>(bum_packets, bum_bytes, bum_ratio).
     let adaptive = (case (bum_packets, bum_bytes, baseline_elevated) of
           (Some packets, Some bytes, Some elevated) \<Rightarrow>
             Some (elevated \<and> (DETECTION_ADAPTIVE_PACKET_FLOOR_PPS \<le> packets \<or> DETECTION_ADAPTIVE_BYTE_FLOOR_BPS \<le> bytes))
         | _ \<Rightarrow> None)
     in rbind (case one_second_rates of
                 None \<Rightarrow> Inr None
               | Some rates \<Rightarrow> rbind (bum_rates rates) (\<lambda>(packets, bytes).
                   Inr (Some (DETECTION_ABSOLUTE_PACKET_THRESHOLD_PPS \<le> packets
                              \<or> DETECTION_ABSOLUTE_BYTE_THRESHOLD_BPS \<le> bytes)))) (\<lambda>absolute.
        Inr \<lparr>hs_bum_packets_per_second = bum_packets, hs_bum_bytes_per_second = bum_bytes, hs_bum_ratio_milli = bum_ratio,
             hs_baseline_elevated = baseline_elevated, hs_adaptive_candidate = adaptive, hs_absolute_candidate = absolute\<rparr>)))))"

definition hook_is_candidate :: "HookDetectionSignals \<Rightarrow> bool" where
  "hook_is_candidate signals \<longleftrightarrow> hs_adaptive_candidate signals = Some True \<or> hs_absolute_candidate signals = Some True"

definition derive_relationship_signals ::
  "StormCandidate \<Rightarrow> HookDetectionSignals \<Rightarrow> FingerprintWindowReport \<Rightarrow> u64 \<Rightarrow> (DetectionError, bool option \<times> bool option) result" where
  "derive_relationship_signals candidate ingress fingerprint evaluated_at_unix_ms =
     (if fw_state fingerprint \<noteq> FwReady then Inr (None, None)
      else
        rbind (ok_or DetInvalidFingerprintEvidence (fw_end_unix_ms fingerprint)) (\<lambda>end.
        rbind (ok_or DetClockRegression (checked_sub evaluated_at_unix_ms end)) (\<lambda>age.
        if DETECTION_FINGERPRINT_FRESHNESS_MS < age then Inr (None, None)
        else
          let ingress_or_bidirectional = candidate \<in> {CandIngress, CandBidirectional};
              suspected = ingress_or_bidirectional
                \<and> is_some_and (hs_bum_ratio_milli ingress) (\<lambda>ratio. DETECTION_BUM_RATIO_MILLI \<le> ratio)
                \<and> DETECTION_MINIMUM_INGRESS_SAMPLES \<le> fc_packets (fw_ingress fingerprint)
                \<and> 0 < fw_repeated_relation_count fingerprint
                \<and> is_some_and (fw_dominant_ingress_packet_ratio_milli fingerprint) (\<lambda>ratio. DETECTION_DOMINANT_RATIO_MILLI \<le> ratio);
              high_confidence = suspected
                \<and> 0 < fw_egress_first_correlated_relation_count fingerprint
                \<and> is_some_and (fw_maximum_ingress_to_egress_packet_ratio_milli fingerprint)
                    (\<lambda>ratio. DETECTION_AMPLIFICATION_RATIO_MILLI \<le> ratio)
          in Inr (Some suspected, Some high_confidence))))"

definition storm_candidate :: "bool \<Rightarrow> bool \<Rightarrow> StormCandidate" where
  "storm_candidate ingress egress =
     (case (ingress, egress) of
        (False, False) \<Rightarrow> CandNone
      | (True, False) \<Rightarrow> CandIngress
      | (False, True) \<Rightarrow> CandEgress
      | (True, True) \<Rightarrow> CandBidirectional)"

definition signals_derive ::
  "DetailedRateWindow arr3 \<Rightarrow> BaselineReport \<Rightarrow> FingerprintWindowReport \<Rightarrow> u64 \<Rightarrow> (DetectionError, DetectionSignals) result" where
  "signals_derive rate_windows baseline fingerprint_window evaluated_at_unix_ms =
     rbind (map_err DetInvalidRateEvidence (validate_detailed_rate_windows rate_windows)) (\<lambda>_.
     rbind (map_err DetInvalidBaselineEvidence (baseline_report_validate baseline)) (\<lambda>_.
     rbind (map_err DetInvalidFingerprintEvidence (window_validate fingerprint_window)) (\<lambda>_.
     rbind (fixed_window rate_windows 1000) (\<lambda>one_second.
     rbind (fixed_window rate_windows 10000) (\<lambda>ten_second.
     rbind (validate_source_endpoints rate_windows baseline fingerprint_window evaluated_at_unix_ms) (\<lambda>source_end.
     rbind (derive_hook one_second ten_second baseline ExternalXdpIngress) (\<lambda>ingress.
     rbind (derive_hook one_second ten_second baseline PhysicalTcEgress) (\<lambda>egress.
     let candidate = storm_candidate (hook_is_candidate ingress) (hook_is_candidate egress) in
     rbind (derive_relationship_signals candidate ingress fingerprint_window evaluated_at_unix_ms) (\<lambda>(suspected, high).
     let signals = \<lparr>ds_source_window_end_unix_ms = source_end, ds_ingress = ingress, ds_egress = egress,
           ds_candidate = candidate, ds_fingerprint_window = fingerprint_window, ds_loop_suspected = suspected,
           ds_loop_high_confidence = high\<rparr>
     in rbind (map_err DetCalculationFailed (signals_validate signals)) (\<lambda>_. Inr signals))))))))))"

section \<open>Broadcast, unknown-unicast and multicast rates\<close>

definition bum_sum :: "(RateCounters \<Rightarrow> u64) \<Rightarrow> HookRate \<Rightarrow> nat" where
  "bum_sum sel rates = (\<Sum>c\<leftarrow>take 4 (arr6_list (hr_classes rates)). unat (sel (cr_counters c)))"

lemma bum_loop:
  assumes "unat p + (\<Sum>c\<leftarrow>cs. unat (rc_packets_per_second (cr_counters c))) < 2 ^ 64"
    and "unat b + (\<Sum>c\<leftarrow>cs. unat (rc_bytes_per_second (cr_counters c))) < 2 ^ 64"
  shows "rfold (\<lambda>cls (packets, bytes).
         rbind (ok_or DetCalculationFailed (checked_add packets (rc_packets_per_second (cr_counters cls)))) (\<lambda>packets.
         rbind (ok_or DetCalculationFailed (checked_add bytes (rc_bytes_per_second (cr_counters cls)))) (\<lambda>bytes.
         Inr (packets, bytes)))) cs (p, b) =
    Inr (of_nat (unat p + (\<Sum>c\<leftarrow>cs. unat (rc_packets_per_second (cr_counters c)))),
         of_nat (unat b + (\<Sum>c\<leftarrow>cs. unat (rc_bytes_per_second (cr_counters c)))))"
  using assms
proof (induction cs arbitrary: p b)
  case (Cons c cs)
  let ?p = "p + rc_packets_per_second (cr_counters c)" and ?b = "b + rc_bytes_per_second (cr_counters c)"
  have add: "checked_add p (rc_packets_per_second (cr_counters c)) = Some ?p"
    "checked_add b (rc_bytes_per_second (cr_counters c)) = Some ?b"
    using Cons.prems by (auto simp: checked_add_def)
  then have u: "unat ?p = unat p + unat (rc_packets_per_second (cr_counters c))"
    "unat ?b = unat b + unat (rc_bytes_per_second (cr_counters c))"
    by (auto dest: checked_add_unat)
  show ?case using Cons.IH [of ?p ?b] Cons.prems add u by (simp add: add.assoc del: of_nat_add)
qed simp

lemma bum_loop_exact:
  "rfold (\<lambda>cls (packets, bytes).
         rbind (ok_or DetCalculationFailed (checked_add packets (rc_packets_per_second (cr_counters cls)))) (\<lambda>packets.
         rbind (ok_or DetCalculationFailed (checked_add bytes (rc_bytes_per_second (cr_counters cls)))) (\<lambda>bytes.
         Inr (packets, bytes)))) cs (p, b) = Inr (q, d) \<Longrightarrow>
     unat q = unat p + (\<Sum>c\<leftarrow>cs. unat (rc_packets_per_second (cr_counters c))) \<and>
     unat d = unat b + (\<Sum>c\<leftarrow>cs. unat (rc_bytes_per_second (cr_counters c)))"
proof (induction cs arbitrary: p b)
  case (Cons c cs)
  from Cons.prems obtain p' b' where
    "checked_add p (rc_packets_per_second (cr_counters c)) = Some p'" "checked_add b (rc_bytes_per_second (cr_counters c)) = Some b'"
    and r: "rfold (\<lambda>cls (packets, bytes).
         rbind (ok_or DetCalculationFailed (checked_add packets (rc_packets_per_second (cr_counters cls)))) (\<lambda>packets.
         rbind (ok_or DetCalculationFailed (checked_add bytes (rc_bytes_per_second (cr_counters cls)))) (\<lambda>bytes.
         Inr (packets, bytes)))) cs (p', b') = Inr (q, d)"
    by (auto simp: rbind_Inr_conv)
  with Cons.IH [OF r] show ?case by (auto dest: checked_add_unat)
qed simp

lemma word_of_unat: "unat x = n \<Longrightarrow> x = of_nat n"
  by (drule sym) simp

lemma bum_rates_Inr:
  "bum_rates rates = Inr (p, b) \<longleftrightarrow>
     unat p = bum_sum rc_packets_per_second rates \<and> unat b = bum_sum rc_bytes_per_second rates \<and>
     bum_sum rc_packets_per_second rates \<le> unat (rc_packets_per_second (hr_total rates)) \<and>
     bum_sum rc_bytes_per_second rates \<le> unat (rc_bytes_per_second (hr_total rates))" (is "?l = ?r")
proof
  assume ?l
  then show ?r
    by (auto simp: bum_rates_def rbind_Inr_conv bum_sum_def word_less_nat_alt dest!: bum_loop_exact split: if_splits)
next
  assume r: ?r
  have "bum_sum rc_packets_per_second rates < 2 ^ 64" "bum_sum rc_bytes_per_second rates < 2 ^ 64"
    using r unsigned_less [where 'a = nat, of p] unsigned_less [where 'a = nat, of b] by simp_all
  moreover have "p = of_nat (bum_sum rc_packets_per_second rates)" "b = of_nat (bum_sum rc_bytes_per_second rates)"
    using r word_of_unat by blast+
  ultimately show ?l
    using r bum_loop [of 0 "take 4 (arr6_list (hr_classes rates))" 0]
    by (simp add: bum_rates_def bum_sum_def word_less_nat_alt unat_of_nat not_less)
qed

lemma bum_rates_ok:
  "is_ok (bum_rates rates) \<longleftrightarrow>
     bum_sum rc_packets_per_second rates \<le> unat (rc_packets_per_second (hr_total rates)) \<and>
     bum_sum rc_bytes_per_second rates \<le> unat (rc_bytes_per_second (hr_total rates))" (is "?l = ?r")
proof
  assume ?l
  then show ?r by (auto simp: is_ok_conv bum_rates_Inr)
next
  assume r: ?r
  then have "unat (of_nat (bum_sum rc_packets_per_second rates) :: u64) = bum_sum rc_packets_per_second rates"
    "unat (of_nat (bum_sum rc_bytes_per_second rates) :: u64) = bum_sum rc_bytes_per_second rates"
    by (auto intro!: unat_of_nat_64 intro: le_less_trans)
  with r have "bum_rates rates = Inr (of_nat (bum_sum rc_packets_per_second rates), of_nat (bum_sum rc_bytes_per_second rates))"
    by (simp add: bum_rates_Inr)
  then show ?l by simp
qed

text \<open>An observation whose counters add up: every packet of the total is in one class or a parse error.\<close>

definition adds_up :: "HookObservation \<Rightarrow> bool" where
  "adds_up h \<longleftrightarrow>
     unat (oc_packets (ho_total h)) = (\<Sum>c\<leftarrow>arr6_list (ho_classes h). unat (oc_packets (co_counters c))) + unat (oc_packets (ho_parse_errors h)) \<and>
     unat (oc_bytes (ho_total h)) = (\<Sum>c\<leftarrow>arr6_list (ho_classes h). unat (oc_bytes (co_counters c))) + unat (oc_bytes (ho_parse_errors h))"

lemma div_sum4: "(a :: nat) div n + b div n + c div n + d div n \<le> (a + b + c + d) div n"
proof (cases "n = 0")
  case False
  have "(a div n + b div n + c div n + d div n) * n \<le> a + b + c + d"
    using div_times_less_eq_dividend [of a n] div_times_less_eq_dividend [of b n] div_times_less_eq_dividend [of c n] div_times_less_eq_dividend [of d n] unfolding distrib_right by linarith
  then show ?thesis using False by (simp add: less_eq_div_iff_mult_less_eq)
qed simp

lemma adds_up_bum:
  assumes "adds_up s" "adds_up e" "hook_le s e" and el: "10 ^ 9 \<le> unat elapsed"
  shows "is_ok (bum_rates (exact_hook s e elapsed))"
proof -
  note le = assms(3) [unfolded hook_le_def class_le_def counters_are_monotonic_def]
  note le' = le [unfolded word_le_nat_alt]
  note sums = assms(1,2) [unfolded adds_up_def arr6_list_nth list.map sum_list.Cons sum_list.Nil]
  have rate: "unat (exact_rate x elapsed) = unat x * 10 ^ 9 div unat elapsed" for x using unat_exact_rate [OF el] .
  have P: "unat (oc_packets (co_counters (a6_0 (ho_classes e))) - oc_packets (co_counters (a6_0 (ho_classes s)))) +
      unat (oc_packets (co_counters (a6_1 (ho_classes e))) - oc_packets (co_counters (a6_1 (ho_classes s)))) +
      unat (oc_packets (co_counters (a6_2 (ho_classes e))) - oc_packets (co_counters (a6_2 (ho_classes s)))) +
      unat (oc_packets (co_counters (a6_3 (ho_classes e))) - oc_packets (co_counters (a6_3 (ho_classes s))))
      \<le> unat (oc_packets (ho_total e) - oc_packets (ho_total s))"
    using le' sums by (elim conjE, simp only: unat_diff word_le_nat_alt, linarith)
  have B: "unat (oc_bytes (co_counters (a6_0 (ho_classes e))) - oc_bytes (co_counters (a6_0 (ho_classes s)))) +
      unat (oc_bytes (co_counters (a6_1 (ho_classes e))) - oc_bytes (co_counters (a6_1 (ho_classes s)))) +
      unat (oc_bytes (co_counters (a6_2 (ho_classes e))) - oc_bytes (co_counters (a6_2 (ho_classes s)))) +
      unat (oc_bytes (co_counters (a6_3 (ho_classes e))) - oc_bytes (co_counters (a6_3 (ho_classes s))))
      \<le> unat (oc_bytes (ho_total e) - oc_bytes (ho_total s))"
    using le' sums by (elim conjE, simp only: unat_diff word_le_nat_alt, linarith)
  have floor: "a * 10 ^ 9 div n + b * 10 ^ 9 div n + c * 10 ^ 9 div n + d * 10 ^ 9 div n \<le> t * 10 ^ 9 div n"
    if "a + b + c + d \<le> t" for a b c d t n :: nat
    using div_sum4 [of "a * 10 ^ 9" n "b * 10 ^ 9" "c * 10 ^ 9" "d * 10 ^ 9"] div_le_mono [OF mult_le_mono1 [OF that], of "10 ^ 9" n]
    by (simp add: distrib_right)
  show ?thesis
    unfolding bum_rates_ok using floor [OF P] floor [OF B]
    by (simp add: bum_sum_def exact_hook_def exact_class_def exact_counters_def rate arr6_list_nth Let_def add.assoc)
qed

section \<open>Per-hook signals\<close>

lemma detection_ratio_ok:
  assumes "n \<le> d"
  shows "\<exists>q. detection_ratio_milli n d = Inr q \<and> unat q = unat n * 1000 div unat d \<and> unat q \<le> 1000"
proof (cases "d = 0")
  case True
  with assms show ?thesis by (simp add: detection_ratio_milli_def)
next
  case False
  have le: "unat n * 1000 div unat d \<le> 1000"
  proof -
    have "unat n * 1000 div unat d \<le> unat d * 1000 div unat d"
      using assms by (intro div_le_mono mult_le_mono1) (simp add: word_le_nat_alt)
    also have "\<dots> \<le> 1000" using div_mult_self1_is_m [of "unat d" 1000] by (cases "unat d = 0") simp_all
    finally show ?thesis .
  qed
  have mul: "checked_mul (ucast n :: u128) 1000 = Some (ucast n * 1000)" by (rule checked_mul_u128_u64) simp
  have q: "unat ((ucast n * 1000 :: u128) div ucast d) = unat n * 1000 div unat d"
    by (simp only: unat_div widened_sum unat_u128_of_u64)
  then have "unat (ucast ((ucast n * 1000 :: u128) div ucast d) :: u64) = unat n * 1000 div unat d"
    using le by (subst unat_narrow) simp_all
  with False mul q le show ?thesis by (simp add: detection_ratio_milli_def try_from_word_def)
qed

definition window_rates :: "DetailedRateWindow \<Rightarrow> HookRole \<Rightarrow> HookRate option" where
  "window_rates w role = (if dw_state w \<noteq> Ready then None
     else case dw_hooks w of None \<Rightarrow> None | Some hooks \<Rightarrow> find (\<lambda>hook. hr_role hook = role) (arr2_list hooks))"

lemma hook_rates_Inr: "hook_rates w role = Inr r \<Longrightarrow> r = window_rates w role"
  by (auto simp: hook_rates_def window_rates_def split: if_splits option.splits)

definition bum_subject :: "BaselineReport \<Rightarrow> HookRole \<Rightarrow> TrafficClass \<Rightarrow> BaselineSubjectReport option" where
  "bum_subject baseline role c = find (\<lambda>s. sr_hook s = role \<and> sr_subject s = BlTrafficClass c) (br_subjects baseline)"

definition subject_trusted :: "BaselineSubjectReport \<Rightarrow> bool" where
  "subject_trusted s \<longleftrightarrow> sr_state s \<in> {BlWithinBaseline, BlElevated}"

definition subject_elevated :: "BaselineSubjectReport \<Rightarrow> bool" where
  "subject_elevated s \<longleftrightarrow> mr_elevated (sr_packets s) = Some True \<or> mr_elevated (sr_bytes s) = Some True"

definition bum_elevated :: "BaselineReport \<Rightarrow> HookRole \<Rightarrow> bool" where
  "bum_elevated baseline role \<longleftrightarrow>
     list_all (\<lambda>c. is_some_and (bum_subject baseline role c) subject_trusted) BUM_CLASSES \<and>
     list_ex (\<lambda>c. is_some_and (bum_subject baseline role c) subject_elevated) BUM_CLASSES"

lemma bum_elevated_loop_Inr:
  "bum_elevated_loop baseline role cs acc = Inr r \<Longrightarrow>
     r = Some True \<longleftrightarrow> list_all (\<lambda>c. is_some_and (bum_subject baseline role c) subject_trusted) cs \<and>
       (acc \<or> list_ex (\<lambda>c. is_some_and (bum_subject baseline role c) subject_elevated) cs)"
proof (induction cs arbitrary: acc)
  case (Cons c cs)
  then obtain s where s: "bum_subject baseline role c = Some s"
    by (auto simp: bum_subject_def split: option.splits)
  have st: "sr_state s \<in> {BlLearning, BlUnavailable} \<longleftrightarrow> \<not> subject_trusted s"
    by (cases "sr_state s") (auto simp: subject_trusted_def)
  show ?case
  proof (cases "subject_trusted s")
    case True
    then have "bum_elevated_loop baseline role cs (acc \<or> subject_elevated s) = Inr r"
      using Cons.prems s st by (simp add: bum_subject_def subject_elevated_def)
    from Cons.IH [OF this] True s show ?thesis by auto
  next
    case False
    with Cons.prems s st show ?thesis by (auto simp: bum_subject_def)
  qed
qed auto

definition hook_storm :: "DetailedRateWindow \<Rightarrow> DetailedRateWindow \<Rightarrow> BaselineReport \<Rightarrow> HookRole \<Rightarrow> bool" where
  "hook_storm one_second ten_second baseline role \<longleftrightarrow>
     is_some_and (window_rates ten_second role) (\<lambda>r. bum_elevated baseline role \<and>
       (1000 \<le> bum_sum rc_packets_per_second r \<or> 1048576 \<le> bum_sum rc_bytes_per_second r)) \<or>
     is_some_and (window_rates one_second role) (\<lambda>r.
       100000 \<le> bum_sum rc_packets_per_second r \<or> 104857600 \<le> bum_sum rc_bytes_per_second r)"

lemma derive_hook_Inr:
  assumes "derive_hook one ten baseline role = Inr h"
  shows "hook_is_candidate h \<longleftrightarrow> hook_storm one ten baseline role"
    and "\<not> is_some_and (hs_bum_ratio_milli h) (\<lambda>ratio. 1000 < ratio)"
    and "map_option unat (hs_bum_ratio_milli h) = map_option (\<lambda>r. bum_sum rc_packets_per_second r * 1000 div
           unat (rc_packets_per_second (hr_total r))) (window_rates ten role)"
proof -
  from assms obtain elevated bump bumb ratio absolute where
    el: "baseline_bum_elevated baseline role = Inr elevated" and
    ten: "(case window_rates ten role of
              None \<Rightarrow> Inr (None, None, None)
            | Some rates \<Rightarrow>
                rbind (bum_rates rates) (\<lambda>(packets, bytes).
                rbind (detection_ratio_milli packets (rc_packets_per_second (hr_total rates))) (\<lambda>ratio.
                Inr (Some packets, Some bytes, Some ratio)))) = Inr (bump, bumb, ratio)" and
    one: "(case window_rates one role of
                 None \<Rightarrow> Inr None
               | Some rates \<Rightarrow> rbind (bum_rates rates) (\<lambda>(packets, bytes).
                   Inr (Some (DETECTION_ABSOLUTE_PACKET_THRESHOLD_PPS \<le> packets
                              \<or> DETECTION_ABSOLUTE_BYTE_THRESHOLD_BPS \<le> bytes)))) = Inr absolute" and
    h: "h = \<lparr>hs_bum_packets_per_second = bump, hs_bum_bytes_per_second = bumb, hs_bum_ratio_milli = ratio,
             hs_baseline_elevated = elevated, hs_adaptive_candidate = (case (bump, bumb, elevated) of
           (Some packets, Some bytes, Some elevated) \<Rightarrow>
             Some (elevated \<and> (DETECTION_ADAPTIVE_PACKET_FLOOR_PPS \<le> packets \<or> DETECTION_ADAPTIVE_BYTE_FLOOR_BPS \<le> bytes))
         | _ \<Rightarrow> None), hs_absolute_candidate = absolute\<rparr>"
    unfolding derive_hook_def Let_def rbind_Inr_conv by (fastforce dest: hook_rates_Inr simp: rbind_Inr_conv)
  have elev: "elevated = Some True \<longleftrightarrow> bum_elevated baseline role"
    using bum_elevated_loop_Inr [of baseline role BUM_CLASSES False elevated] el
    by (simp add: baseline_bum_elevated_def bum_elevated_def)
  have abs: "absolute = Some True \<longleftrightarrow> is_some_and (window_rates one role) (\<lambda>r.
       100000 \<le> bum_sum rc_packets_per_second r \<or> 104857600 \<le> bum_sum rc_bytes_per_second r)"
    using one by (auto simp: rbind_Inr_conv bum_rates_Inr word_le_nat_alt split: option.splits)
  have parts: "((case (bump, bumb, elevated) of
           (Some packets, Some bytes, Some elevated) \<Rightarrow>
             Some (elevated \<and> (DETECTION_ADAPTIVE_PACKET_FLOOR_PPS \<le> packets \<or> DETECTION_ADAPTIVE_BYTE_FLOOR_BPS \<le> bytes))
         | _ \<Rightarrow> None) = Some True \<longleftrightarrow> is_some_and (window_rates ten role) (\<lambda>r. bum_elevated baseline role \<and>
       (1000 \<le> bum_sum rc_packets_per_second r \<or> 1048576 \<le> bum_sum rc_bytes_per_second r)))
    \<and> \<not> is_some_and ratio (\<lambda>ratio. 1000 < ratio)
    \<and> map_option unat ratio = map_option (\<lambda>r. bum_sum rc_packets_per_second r * 1000 div
           unat (rc_packets_per_second (hr_total r))) (window_rates ten role)"
  proof (cases "window_rates ten role")
    case (Some r)
    with ten obtain p b q where pb: "bum_rates r = Inr (p, b)" and q: "detection_ratio_milli p (rc_packets_per_second (hr_total r)) = Inr q"
      and eqs: "bump = Some p" "bumb = Some b" "ratio = Some q" by (auto simp: rbind_Inr_conv)
    note sums = pb [unfolded bum_rates_Inr]
    have "p \<le> rc_packets_per_second (hr_total r)" using sums by (simp add: word_le_nat_alt)
    from detection_ratio_ok [OF this] q sums have "unat q = bum_sum rc_packets_per_second r * 1000 div unat (rc_packets_per_second (hr_total r))"
      "unat q \<le> 1000" by auto
    then show ?thesis
      using eqs sums elev Some by (auto simp: word_le_nat_alt word_less_nat_alt split: option.split)
  qed (use ten in auto)
  show "hook_is_candidate h \<longleftrightarrow> hook_storm one ten baseline role"
    "\<not> is_some_and (hs_bum_ratio_milli h) (\<lambda>ratio. 1000 < ratio)"
    "map_option unat (hs_bum_ratio_milli h) = map_option (\<lambda>r. bum_sum rc_packets_per_second r * 1000 div
       unat (rc_packets_per_second (hr_total r))) (window_rates ten role)"
    using parts abs by (simp_all add: h hook_is_candidate_def hook_storm_def)
qed

section \<open>The derived signals\<close>

definition fresh_window :: "FingerprintWindowReport \<Rightarrow> u64 \<Rightarrow> bool" where
  "fresh_window w now \<longleftrightarrow> fw_state w = FwReady \<and>
     is_some_and (fw_end_unix_ms w) (\<lambda>e. unat e \<le> unat now \<and> unat now \<le> unat e + 15000)"

lemma relationship_Inr:
  assumes "derive_relationship_signals c h w now = Inr (suspected, high)"
  shows "suspected = (if fresh_window w now then Some (c \<in> {CandIngress, CandBidirectional} \<and>
      is_some_and (hs_bum_ratio_milli h) (\<lambda>r. 800 \<le> r) \<and> 16 \<le> fc_packets (fw_ingress w) \<and> 0 < fw_repeated_relation_count w \<and>
      is_some_and (fw_dominant_ingress_packet_ratio_milli w) (\<lambda>r. 800 \<le> r)) else None)"
    and "high = (if fresh_window w now then Some (suspected = Some True \<and> 0 < fw_egress_first_correlated_relation_count w \<and>
      is_some_and (fw_maximum_ingress_to_egress_packet_ratio_milli w) (\<lambda>r. 4000 \<le> r)) else None)"
proof -
  have age: "fresh_window w now \<longleftrightarrow> fw_state w = FwReady \<and> \<not> 15000 < now - e"
    if "fw_end_unix_ms w = Some e" "e \<le> now" for e
    using that unat_diff [OF that(2)] by (auto simp: fresh_window_def word_less_nat_alt word_le_nat_alt)
  show "suspected = (if fresh_window w now then Some (c \<in> {CandIngress, CandBidirectional} \<and>
      is_some_and (hs_bum_ratio_milli h) (\<lambda>r. 800 \<le> r) \<and> 16 \<le> fc_packets (fw_ingress w) \<and> 0 < fw_repeated_relation_count w \<and>
      is_some_and (fw_dominant_ingress_packet_ratio_milli w) (\<lambda>r. 800 \<le> r)) else None)"
    "high = (if fresh_window w now then Some (suspected = Some True \<and> 0 < fw_egress_first_correlated_relation_count w \<and>
      is_some_and (fw_maximum_ingress_to_egress_packet_ratio_milli w) (\<lambda>r. 4000 \<le> r)) else None)"
    using assms age
    by (auto simp: derive_relationship_signals_def rbind_Inr_conv checked_sub_Some Let_def fresh_window_def split: if_splits)
qed

lemma valid_windows:
  "validate_detailed_rate_windows ws = Inr () \<Longrightarrow>
     dw_window_ms (a3_0 ws) = 1000 \<and> dw_window_ms (a3_1 ws) = 10000 \<and> dw_window_ms (a3_2 ws) = 60000 \<and>
     detailed_validate (a3_0 ws) = Inr () \<and> detailed_validate (a3_1 ws) = Inr () \<and> detailed_validate (a3_2 ws) = Inr ()"
  by (cases ws) (auto simp: validate_detailed_rate_windows_def rbind_Inr_conv split: if_splits)

lemma fixed_window_ok:
  assumes "validate_detailed_rate_windows ws = Inr ()"
  shows "fixed_window ws 1000 = Inr (a3_0 ws)" "fixed_window ws 10000 = Inr (a3_1 ws)"
  using valid_windows [OF assms] by (cases ws; simp add: fixed_window_def)+

lemma derive_Inr:
  assumes "signals_derive ws baseline w now = Inr s"
  shows "signals_validate s = Inr ()" and "ds_fingerprint_window s = w"
    and "ds_candidate s = storm_candidate (hook_storm (a3_0 ws) (a3_1 ws) baseline ExternalXdpIngress)
           (hook_storm (a3_0 ws) (a3_1 ws) baseline PhysicalTcEgress)"
    and "map_option unat (hs_bum_ratio_milli (ds_ingress s)) = map_option (\<lambda>r. bum_sum rc_packets_per_second r * 1000 div
           unat (rc_packets_per_second (hr_total r))) (window_rates (a3_1 ws) ExternalXdpIngress)"
    and "derive_relationship_signals (ds_candidate s) (ds_ingress s) w now = Inr (ds_loop_suspected s, ds_loop_high_confidence s)"
proof -
  have v: "validate_detailed_rate_windows ws = Inr ()" using assms by (auto simp: signals_derive_def rbind_Inr_conv)
  note fixed_window_ok [OF v]
  with assms v obtain i e where hooks: "derive_hook (a3_0 ws) (a3_1 ws) baseline ExternalXdpIngress = Inr i"
    "derive_hook (a3_0 ws) (a3_1 ws) baseline PhysicalTcEgress = Inr e" and
    s: "ds_ingress s = i" "ds_candidate s = storm_candidate (hook_is_candidate i) (hook_is_candidate e)"
      "derive_relationship_signals (ds_candidate s) i w now = Inr (ds_loop_suspected s, ds_loop_high_confidence s)"
      "signals_validate s = Inr ()" "ds_fingerprint_window s = w"
    by (auto simp: signals_derive_def rbind_Inr_conv Let_def)
  show "signals_validate s = Inr ()" "ds_fingerprint_window s = w"
    "ds_candidate s = storm_candidate (hook_storm (a3_0 ws) (a3_1 ws) baseline ExternalXdpIngress)
           (hook_storm (a3_0 ws) (a3_1 ws) baseline PhysicalTcEgress)"
    "map_option unat (hs_bum_ratio_milli (ds_ingress s)) = map_option (\<lambda>r. bum_sum rc_packets_per_second r * 1000 div
           unat (rc_packets_per_second (hr_total r))) (window_rates (a3_1 ws) ExternalXdpIngress)"
    "derive_relationship_signals (ds_candidate s) (ds_ingress s) w now = Inr (ds_loop_suspected s, ds_loop_high_confidence s)"
    using s derive_hook_Inr [OF hooks(1)] derive_hook_Inr [OF hooks(2)] by simp_all
qed

section \<open>The producers and the derivation\<close>

definition samples_add_up :: "RateHistory \<Rightarrow> bool" where
  "samples_add_up h \<longleftrightarrow> list_all (\<lambda>s. adds_up (a2_0 (rs_hooks s)) \<and> adds_up (a2_1 (rs_hooks s))) (rh_samples h)"

lemma produced_window:
  assumes inv: "rate_inv h" and sums: "samples_add_up h" and ws: "detailed_windows now h = Inr ws"
    and w: "w \<in> set_arr3 ws" and ready: "dw_state w = Ready"
  shows "rh_samples h \<noteq> [] \<and> dw_end_unix_ms w = Some (rs_captured_at_unix_ms (last (rh_samples h))) \<and>
    (\<exists>i e. dw_hooks w = Some (Arr2 i e) \<and> hr_role i = ExternalXdpIngress \<and> hr_role e = PhysicalTcEgress \<and>
      is_ok (bum_rates i) \<and> is_ok (bum_rates e))"
proof -
  from ws obtain cs where cs: "windows_spec now h = Inr cs" and "ws = map_arr3 into_detailed cs"
    by (auto simp: detailed_windows_def rbind_Inr_conv calculate_windows_eq [OF inv])
  with w obtain c where c: "c \<in> set_arr3 cs" "w = into_detailed c" by (auto simp: arr3.set_map)
  from cs have "cs = map_arr3 (\<lambda>w. CalcStale w (covered_ms (rh_samples h))) RATE_WINDOW_MS \<or>
      cs = map_arr3 (\<lambda>w. window_spec w (rh_samples h)) RATE_WINDOW_MS"
    unfolding windows_spec_def by (simp only: split: if_splits) blast+
  with c ready obtain ms where ms: "ms \<in> set_arr3 RATE_WINDOW_MS" and spec: "w = into_detailed (window_spec ms (rh_samples h))"
    unfolding arr3.set_map by (elim disjE) (auto simp: arr3.set_map simp del: RATE_WINDOW_MS_def)
  with ready obtain s where st: "window_start ms (rh_samples h) = Some s"
    by (cases "window_start ms (rh_samples h)") (auto simp: window_spec_def)
  let ?l = "last (rh_samples h)"
  note s = window_start_Some [OF st]
  have ne: "rh_samples h \<noteq> []" using s(1) by auto
  have "at_ns s \<le> at_ns ?l" using s(2) by (simp add: word_le_nat_alt)
  then have el: "unat (at_ns ?l - at_ns s) = unat (at_ns ?l) - unat (at_ns s)" by (rule unat_sub)
  moreover have "10 ^ 9 \<le> unat ms * 10 ^ 6" using ms unfolding fixed_windows by auto
  ultimately have long: "10 ^ 9 \<le> unat (at_ns ?l - at_ns s)" using s(2) by linarith
  then have "s \<noteq> ?l" by auto
  then have mono: "hook_le (a2_0 (rs_hooks s)) (a2_0 (rs_hooks ?l))" "hook_le (a2_1 (rs_hooks s)) (a2_1 (rs_hooks ?l))"
    using sample_order(1) [OF inv s(1)] by (simp_all add: sample_after_def hooks_are_monotonic_iff)
  have "hooks_valid (rs_hooks ?l)" using inv ne by (auto simp: rate_inv_def list_all_iff)
  moreover have "adds_up (a2_0 (rs_hooks s))" "adds_up (a2_1 (rs_hooks s))" "adds_up (a2_0 (rs_hooks ?l))" "adds_up (a2_1 (rs_hooks ?l))"
    using sums s(1) ne by (auto simp: samples_add_up_def list_all_iff)
  ultimately show ?thesis
    using st ne adds_up_bum [OF _ _ mono(1) long] adds_up_bum [OF _ _ mono(2) long]
    by (simp add: spec window_spec_def Let_def exact_hooks_def hooks_valid_def exact_hook_def)
qed

lemma cached_bum_subject:
  assumes inv: "baseline_inv e" and role: "role \<in> {ExternalXdpIngress, PhysicalTcEgress}" and c: "c \<in> set BUM_CLASSES"
  shows "bum_subject (be_cached e) role c \<noteq> None"
proof -
  let ?xs = "br_subjects (be_cached e)"
  have len: "length ?xs = 16" and v: "baseline_report_validate (be_cached e) = Inr ()" using inv by (simp_all add: baseline_inv_def)
  then have subj: "validate_subject_report (i, ?xs ! i) = Inr ()" if "i < 16" for i
    using that by (auto simp: baseline_report_validate_def rbind_Inr_conv subjects_validate split: if_splits)
  have "sr_hook (?xs ! i) = hook_for_index i \<and> sr_subject (?xs ! i) = subject_for_index i" if "i < 16" for i
    using subj [OF that] by (simp add: validate_subject_report_def split: if_splits)
  moreover obtain i where "i < 16" "hook_for_index i = role" "subject_for_index i = BlTrafficClass c"
    using role c
    by (auto simp: BUM_CLASSES_def hook_for_index_def subject_for_index_def CLASS_ORDER_def
        intro: that [of 1] that [of 2] that [of 3] that [of 4] that [of 9] that [of 10] that [of 11] that [of 12])
  ultimately show ?thesis
    using len by (auto simp: bum_subject_def find_None_iff) (metis nth_mem)
qed

lemma bum_elevated_loop_ok:
  "\<forall>c \<in> set cs. bum_subject baseline role c \<noteq> None \<Longrightarrow> is_ok (bum_elevated_loop baseline role cs acc)"
  by (induction cs arbitrary: acc) (auto simp: bum_subject_def split: option.split)

lemma derive_hook_ok:
  assumes "\<And>r. window_rates one role = Some r \<Longrightarrow> is_ok (bum_rates r)" "\<And>r. window_rates ten role = Some r \<Longrightarrow> is_ok (bum_rates r)"
    and "dw_state one = Ready \<Longrightarrow> window_rates one role \<noteq> None" "dw_state ten = Ready \<Longrightarrow> window_rates ten role \<noteq> None"
    and "is_ok (baseline_bum_elevated baseline role)"
  shows "\<exists>h. derive_hook one ten baseline role = Inr h"
proof -
  have rates: "hook_rates one role = Inr (window_rates one role)" "hook_rates ten role = Inr (window_rates ten role)"
    using assms(3,4) by (auto simp: hook_rates_def window_rates_def split: option.splits)
  obtain el where el: "baseline_bum_elevated baseline role = Inr el" using assms(5) by (auto simp: is_ok_conv)
  have "\<exists>x. (case window_rates ten role of
              None \<Rightarrow> Inr (None, None, None)
            | Some rates \<Rightarrow>
                rbind (bum_rates rates) (\<lambda>(packets, bytes).
                rbind (detection_ratio_milli packets (rc_packets_per_second (hr_total rates))) (\<lambda>ratio.
                Inr (Some packets, Some bytes, Some ratio)))) = Inr x"
  proof (cases "window_rates ten role")
    case (Some r)
    with assms(2) obtain p b where pb: "bum_rates r = Inr (p, b)" by (force simp: is_ok_conv)
    then have "p \<le> rc_packets_per_second (hr_total r)" by (simp add: bum_rates_Inr word_le_nat_alt)
    from detection_ratio_ok [OF this] Some pb show ?thesis by auto
  qed simp
  moreover have "\<exists>x. (case window_rates one role of
                 None \<Rightarrow> Inr None
               | Some rates \<Rightarrow> rbind (bum_rates rates) (\<lambda>(packets, bytes).
                   Inr (Some (DETECTION_ABSOLUTE_PACKET_THRESHOLD_PPS \<le> packets
                              \<or> DETECTION_ABSOLUTE_BYTE_THRESHOLD_BPS \<le> bytes)))) = Inr x"
    using assms(1) by (cases "window_rates one role") (force simp: is_ok_conv)+
  ultimately show ?thesis
    unfolding derive_hook_def rates el by (auto simp: Let_def)
qed

lemma not_ready_end: "detailed_validate w = Inr () \<Longrightarrow> dw_state w \<noteq> Ready \<Longrightarrow> dw_end_unix_ms w = None"
proof -
  assume v: "detailed_validate w = Inr ()" and n: "dw_state w \<noteq> Ready"
  from v obtain u where "validate_evidence_shape (dw_window_ms w) (dw_state w) (dw_coverage_ms w) (dw_elapsed_ns w)
      (dw_start_unix_ms w) (dw_end_unix_ms w) (dw_hooks w \<noteq> None) = Inr u"
    unfolding detailed_validate_def rbind_Inr_conv by blast
  with n show ?thesis by (cases "dw_state w") (simp_all add: validate_evidence_shape_def Let_def split: if_splits)
qed

lemma endpoint_loop:
  assumes "\<forall>w \<in> set xs. dw_end_unix_ms w = Some u" "u \<le> t" "acc = None \<or> acc = Some u"
  shows "rfold (\<lambda>window source_end.
         rbind (ok_or DetInvalidRateEvidence (dw_end_unix_ms window)) (\<lambda>end.
         if is_some_and source_end (\<lambda>existing. existing \<noteq> end) then Inl DetSourceEndpointMismatch
         else if t < end then Inl DetClockRegression
         else Inr (Some end))) xs acc = Inr (if xs = [] then acc else Some u)"
  using assms by (induction xs arbitrary: acc) (auto simp: not_less)

lemma relationship_ok:
  assumes "window_validate w = Inr ()" and "\<not> is_some_and (fw_end_unix_ms w) (\<lambda>end. t < end)"
  shows "\<exists>x. derive_relationship_signals c h w t = Inr x"
proof (cases "fw_state w = FwReady")
  case True
  with assms(1) obtain e where "fw_end_unix_ms w = Some e" by (auto simp: window_validate_def split: if_splits)
  with assms(2) True show ?thesis by (simp add: derive_relationship_signals_def checked_sub_def Let_def not_less)
qed (simp add: derive_relationship_signals_def)

lemma signals_valid:
  assumes "window_validate w = Inr ()" "derive_hook one ten b ExternalXdpIngress = Inr i" "derive_hook one ten b PhysicalTcEgress = Inr e"
    "derive_relationship_signals c i w t = Inr (suspected, high)"
  shows "signals_validate \<lparr>ds_source_window_end_unix_ms = end, ds_ingress = i, ds_egress = e, ds_candidate = c,
    ds_fingerprint_window = w, ds_loop_suspected = suspected, ds_loop_high_confidence = high\<rparr> = Inr ()"
  using assms(1) derive_hook_Inr(2) [OF assms(2)] derive_hook_Inr(2) [OF assms(3)] relationship_Inr(2) [OF assms(4)]
  by (auto simp: signals_validate_def split: if_splits)

text \<open>
  What can be wrong with evidence that is in order by itself: a rate window that ends after the time of
  the evaluation, a baseline that was evaluated on another window, a fingerprint window that ends
  after the time of the evaluation.
\<close>

definition ordering_fault ::
  "DetailedRateWindow arr3 \<Rightarrow> u64 option \<Rightarrow> u64 option \<Rightarrow> u64 \<Rightarrow> DetectionError option" where
  "ordering_fault ws baseline_end fingerprint_end t =
     (let ends = {u. \<exists>x \<in> set_arr3 ws. dw_state x = Ready \<and> dw_end_unix_ms x = Some u}
      in if \<exists>u \<in> ends. t < u then Some DetClockRegression
         else if \<exists>u. baseline_end = Some u \<and> u \<notin> ends then Some DetSourceEndpointMismatch
         else if \<exists>u. fingerprint_end = Some u \<and> t < u then Some DetClockRegression
         else None)"

lemma endpoints_exact:
  assumes "\<forall>x \<in> set_arr3 ws. dw_state x = Ready \<longrightarrow> dw_end_unix_ms x = Some u"
  shows "case ordering_fault ws (br_source_end_unix_ms b) (fw_end_unix_ms w) t of
      Some e \<Rightarrow> validate_source_endpoints ws b w t = Inl e
    | None \<Rightarrow> (\<exists>r. validate_source_endpoints ws b w t = Inr r) \<and> \<not> is_some_and (fw_end_unix_ms w) (\<lambda>end. t < end)"
proof -
  let ?ready = "filter (\<lambda>window. dw_state window = Ready) (arr3_list ws)"
  have mem: "x \<in> set ?ready \<longleftrightarrow> x \<in> set_arr3 ws \<and> dw_state x = Ready" for x by (cases ws) auto
  then have ends: "{v. \<exists>x \<in> set_arr3 ws. dw_state x = Ready \<and> dw_end_unix_ms x = Some v} = (if ?ready = [] then {} else {u})"
    using assms hd_in_set [of ?ready] by (auto simp: filter_empty_conv)
  have loop: "rfold (\<lambda>window source_end.
         rbind (ok_or DetInvalidRateEvidence (dw_end_unix_ms window)) (\<lambda>end.
         if is_some_and source_end (\<lambda>existing. existing \<noteq> end) then Inl DetSourceEndpointMismatch
         else if t < end then Inl DetClockRegression
         else Inr (Some end))) ?ready None = (if ?ready = [] then Inr None else if t < u then Inl DetClockRegression else Inr (Some u))"
  proof (cases "?ready \<noteq> [] \<and> t < u")
    case True
    then obtain x xs where "?ready = x # xs" by (cases ?ready) auto
    moreover have "dw_end_unix_ms x = Some u" using assms mem [of x] calculation by simp
    ultimately show ?thesis using True by simp
  next
    case False
    with endpoint_loop [of ?ready u t None] assms mem show ?thesis by (cases "?ready = []") (auto simp: not_less)
  qed
  show ?thesis
    unfolding ordering_fault_def ends Let_def validate_source_endpoints_def loop
    by (cases "br_source_end_unix_ms b"; cases "fw_end_unix_ms w") auto
qed

lemma producers_derive:
  assumes inv: "rate_inv h" and sums: "samples_add_up h" and ws: "detailed_windows now h = Inr ws"
    and b: "baseline_inv e" and w: "window_validate w = Inr ()"
  shows "case ordering_fault ws (br_source_end_unix_ms (be_cached e)) (fw_end_unix_ms w) t of
      Some f \<Rightarrow> signals_derive ws (be_cached e) w t = Inl f
    | None \<Rightarrow> \<exists>s. signals_derive ws (be_cached e) w t = Inr s"
proof -
  let ?b = "be_cached e"
  have v: "validate_detailed_rate_windows ws = Inr ()" by (rule windows_valid(1) [OF inv ws])
  have mem: "a3_0 ws \<in> set_arr3 ws" "a3_1 ws \<in> set_arr3 ws" by (cases ws; simp)+
  note prod = produced_window [OF inv sums ws]
  have "\<forall>x \<in> set_arr3 ws. dw_state x = Ready \<longrightarrow> dw_end_unix_ms x = Some (rs_captured_at_unix_ms (last (rh_samples h)))"
    using prod by simp
  note ends = endpoints_exact [OF this, of ?b w t]
  have bv: "baseline_report_validate ?b = Inr ()" using b by (simp add: baseline_inv_def)
  have hook: "\<exists>x. derive_hook (a3_0 ws) (a3_1 ws) ?b role = Inr x" if role: "role \<in> {ExternalXdpIngress, PhysicalTcEgress}" for role
  proof (rule derive_hook_ok)
    have rates: "window_rates x role = Some r \<Longrightarrow> is_ok (bum_rates r)" "dw_state x = Ready \<Longrightarrow> window_rates x role \<noteq> None"
      if "x \<in> set_arr3 ws" for x r
      using prod [OF that] role by (auto simp: window_rates_def split: if_splits)
    show "window_rates (a3_0 ws) role = Some r \<Longrightarrow> is_ok (bum_rates r)" "window_rates (a3_1 ws) role = Some r \<Longrightarrow> is_ok (bum_rates r)"
      "dw_state (a3_0 ws) = Ready \<Longrightarrow> window_rates (a3_0 ws) role \<noteq> None" "dw_state (a3_1 ws) = Ready \<Longrightarrow> window_rates (a3_1 ws) role \<noteq> None" for r
      using rates mem by blast+
    show "is_ok (baseline_bum_elevated ?b role)"
      unfolding baseline_bum_elevated_def using cached_bum_subject [OF b role] by (intro bum_elevated_loop_ok) blast
  qed
  obtain i eg where ie: "derive_hook (a3_0 ws) (a3_1 ws) ?b ExternalXdpIngress = Inr i" "derive_hook (a3_0 ws) (a3_1 ws) ?b PhysicalTcEgress = Inr eg"
    using hook by blast
  let ?c = "storm_candidate (hook_is_candidate i) (hook_is_candidate eg)"
  show ?thesis
  proof (cases "ordering_fault ws (br_source_end_unix_ms ?b) (fw_end_unix_ms w) t")
    case None
    then obtain src where src: "validate_source_endpoints ws ?b w t = Inr src"
      and t: "\<not> is_some_and (fw_end_unix_ms w) (\<lambda>end. t < end)" using ends by auto
    obtain su hi where rel: "derive_relationship_signals ?c i w t = Inr (su, hi)" using relationship_ok [OF w t] by (metis surj_pair)
    from None v w bv src ie rel signals_valid [OF w ie rel] show ?thesis
      by (simp add: signals_derive_def fixed_window_ok [OF v] Let_def)
  next
    case (Some f)
    with ends v w bv show ?thesis by (simp add: signals_derive_def fixed_window_ok [OF v])
  qed
qed

section \<open>Properties\<close>




end
