(* ===== verification/Detection.thy ===== *)
theory Detection
  imports Signals
begin

text \<open>
  The detection engine (\<open>l2-loop-core/src/detection.rs\<close>, from \<open>DetectionTransitionReason\<close> on): a
  hysteresis machine that turns derived signals into a published state, with three ticks to assert, ten
  to clear and thirty seconds of cooldown, a numbered ring of transitions, and an unavailable state that
  remembers where to resume.
\<close>

section \<open>Definitions\<close>

definition DETECTION_ASSERT_TICKS :: u8 where [simp]: "DETECTION_ASSERT_TICKS = 3"
definition DETECTION_CLEAR_TICKS :: u8 where [simp]: "DETECTION_CLEAR_TICKS = 10"
definition DETECTION_COOLDOWN_MS :: u64 where [simp]: "DETECTION_COOLDOWN_MS = 30000"
definition DETECTION_TRANSITION_CAPACITY :: nat where [simp]: "DETECTION_TRANSITION_CAPACITY = 16"

record DetectionConfig =
  dc_fingerprint_window_ms :: u64
  dc_fingerprint_freshness_ms :: u64
  dc_adaptive_packet_floor_pps :: u64
  dc_adaptive_byte_floor_bps :: u64
  dc_absolute_packet_threshold_pps :: u64
  dc_absolute_byte_threshold_bps :: u64
  dc_bum_ratio_milli :: u64
  dc_dominant_ratio_milli :: u64
  dc_minimum_ingress_samples :: u64
  dc_amplification_ratio_milli :: u64
  dc_assert_ticks :: u8
  dc_clear_ticks :: u8
  dc_cooldown_ms :: u64
  dc_transition_capacity :: u8

definition config_fixed :: DetectionConfig where
  "config_fixed =
     \<lparr>dc_fingerprint_window_ms = DETECTION_FINGERPRINT_WINDOW_MS, dc_fingerprint_freshness_ms = DETECTION_FINGERPRINT_FRESHNESS_MS,
      dc_adaptive_packet_floor_pps = DETECTION_ADAPTIVE_PACKET_FLOOR_PPS, dc_adaptive_byte_floor_bps = DETECTION_ADAPTIVE_BYTE_FLOOR_BPS,
      dc_absolute_packet_threshold_pps = DETECTION_ABSOLUTE_PACKET_THRESHOLD_PPS,
      dc_absolute_byte_threshold_bps = DETECTION_ABSOLUTE_BYTE_THRESHOLD_BPS, dc_bum_ratio_milli = DETECTION_BUM_RATIO_MILLI,
      dc_dominant_ratio_milli = DETECTION_DOMINANT_RATIO_MILLI, dc_minimum_ingress_samples = DETECTION_MINIMUM_INGRESS_SAMPLES,
      dc_amplification_ratio_milli = DETECTION_AMPLIFICATION_RATIO_MILLI, dc_assert_ticks = DETECTION_ASSERT_TICKS,
      dc_clear_ticks = DETECTION_CLEAR_TICKS, dc_cooldown_ms = DETECTION_COOLDOWN_MS,
      dc_transition_capacity = of_nat DETECTION_TRANSITION_CAPACITY\<rparr>"

datatype DetectionState = DsWarmingUp | DsNormal | DsIngressStorm | DsEgressStorm | DsBidirectionalStorm
  | DsLoopSuspected | DsLoopHighConfidence | DsCooldown | DsUnavailable

definition is_anomalous :: "DetectionState \<Rightarrow> bool" where
  "is_anomalous s \<longleftrightarrow> s \<in> {DsIngressStorm, DsEgressStorm, DsBidirectionalStorm, DsLoopSuspected, DsLoopHighConfidence}"

datatype DetectionTransitionReason = EvidenceReady | StormAsserted | RelationshipSuspected | RelationshipHighConfidence
  | EvidenceCleared | CooldownCompleted | EvidenceUnavailable | EvidenceRecovered | SamplerPaused | IntegrityFailure

datatype DetectionEngineError = EngClockRegression | EngInvalidSignals | EngInvalidErrorCode | EngSequenceOverflow

record DetectionTransition =
  dt_sequence :: u64
  dt_previous_state :: DetectionState
  dt_current_state :: DetectionState
  dt_reason :: DetectionTransitionReason
  dt_occurred_at_unix_ms :: u64

record DetectionReport =
  dr_state :: DetectionState
  dr_retained_anomalous_state :: "DetectionState option"
  dr_evaluated_at_unix_ms :: u64
  dr_state_since_unix_ms :: u64
  dr_last_trustworthy_at_unix_ms :: "u64 option"
  dr_config :: DetectionConfig
  dr_signals :: DetectionSignals
  dr_candidate_streak :: u8
  dr_clear_streak :: u8
  dr_transition_sequence :: u64
  dr_transitions :: "DetectionTransition list"
  dr_last_error_code :: "string option"

record DetectionEngine =
  de_identity :: RateIdentity
  de_last_trustworthy_monotonic_ns :: u64
  de_resume_state :: DetectionState
  de_last_candidate :: StormCandidate
  de_candidate_streak :: u8
  de_clear_streak :: u8
  de_cooldown_started_at_monotonic_ns :: "u64 option"
  de_last_anomalous_state :: "DetectionState option"
  de_transition_sequence :: u64
  de_transitions :: "DetectionTransition list"
  de_report :: DetectionReport

definition report_warming :: "RateIdentity \<Rightarrow> u64 \<Rightarrow> DetectionReport" where
  "report_warming identity evaluated_at_unix_ms =
     \<lparr>dr_state = DsWarmingUp, dr_retained_anomalous_state = None, dr_evaluated_at_unix_ms = evaluated_at_unix_ms,
      dr_state_since_unix_ms = evaluated_at_unix_ms, dr_last_trustworthy_at_unix_ms = None, dr_config = config_fixed,
      dr_signals = signals_warming, dr_candidate_streak = 0, dr_clear_streak = 0, dr_transition_sequence = 0,
      dr_transitions = [], dr_last_error_code = None\<rparr>"

definition detection_engine_new :: "RateIdentity \<Rightarrow> u64 \<Rightarrow> u64 \<Rightarrow> DetectionEngine" where
  "detection_engine_new identity started_at_monotonic_ns started_at_unix_ms =
     \<lparr>de_identity = identity, de_last_trustworthy_monotonic_ns = started_at_monotonic_ns, de_resume_state = DsWarmingUp,
      de_last_candidate = CandNone, de_candidate_streak = 0, de_clear_streak = 0,
      de_cooldown_started_at_monotonic_ns = None, de_last_anomalous_state = None, de_transition_sequence = 0,
      de_transitions = [], de_report = report_warming identity started_at_unix_ms\<rparr>"

definition report_unavailable ::
  "RateIdentity \<Rightarrow> u64 \<Rightarrow> DetectionState option \<Rightarrow> string \<Rightarrow> (DomainError, DetectionReport) result" where
  "report_unavailable identity evaluated_at_unix_ms retained code =
     rbind (validate_error_code code) (\<lambda>_.
     if is_some_and retained (\<lambda>state. \<not> is_anomalous state)
     then Inl (InvalidObservation ''detection retained state is not anomalous'')
     else
       let report = (report_warming identity evaluated_at_unix_ms)\<lparr>dr_state := DsUnavailable, dr_retained_anomalous_state := retained\<rparr>
       in rbind (window_unavailable code) (\<lambda>w.
          Inr (report\<lparr>dr_signals := (dr_signals report)\<lparr>ds_fingerprint_window := w\<rparr>, dr_last_error_code := Some code\<rparr>)))"

definition validate_retained_state :: "DetectionState \<Rightarrow> DetectionState option \<Rightarrow> (DomainError, unit) result" where
  "validate_retained_state state retained =
     (if is_some_and retained (\<lambda>value. \<not> is_anomalous value)
         \<or> retained \<noteq> None \<and> \<not> (state \<in> {DsCooldown, DsUnavailable})
         \<or> state = DsCooldown \<and> retained = None
      then Inl (InvalidObservation ''detection retained state is invalid'')
      else Inr ())"

definition validate_transitions :: "DetectionTransition list \<Rightarrow> u64 \<Rightarrow> (DomainError, unit) result" where
  "validate_transitions transitions sequence =
     (if transitions = [] then
        if sequence \<noteq> 0 then Inl (InvalidObservation ''empty detection history has a non-zero sequence'') else Inr ()
      else
        rbind (rfold (\<lambda>transition previous.
            if dt_sequence transition = 0
               \<or> is_some_and previous (\<lambda>sequence. checked_add sequence 1 \<noteq> Some (dt_sequence transition))
               \<or> dt_previous_state transition = dt_current_state transition
            then Inl (InvalidObservation ''detection transition history is invalid'')
            else Inr (Some (dt_sequence transition))) transitions None) (\<lambda>previous.
        if previous \<noteq> Some sequence
        then Inl (InvalidObservation ''detection transition sequence is inconsistent'')
        else Inr ()))"

definition validate_report_code :: "DetectionReport \<Rightarrow> (DomainError, unit) result" where
  "validate_report_code r =
     (case dr_last_error_code r of
        Some code \<Rightarrow>
          if dr_state r = DsUnavailable then validate_error_code code
          else rbind (validate_error_code code) (\<lambda>_.
               if fw_state (ds_fingerprint_window (dr_signals r)) \<noteq> FwUnavailable
               then Inl (InvalidObservation ''available detection has an unrelated error code'')
               else Inr ())
      | None \<Rightarrow>
          if dr_state r = DsUnavailable
          then Inl (InvalidObservation ''unavailable detection requires an error code'')
          else Inr ())"

definition detection_report_validate :: "DetectionReport \<Rightarrow> (DomainError, unit) result" where
  "detection_report_validate r =
     (if dr_config r \<noteq> config_fixed \<or> DETECTION_ASSERT_TICKS < dr_candidate_streak r
         \<or> DETECTION_CLEAR_TICKS < dr_clear_streak r \<or> DETECTION_TRANSITION_CAPACITY < length (dr_transitions r)
      then Inl (InvalidObservation ''detection report fixed bounds are invalid'')
      else
        rbind (signals_validate (dr_signals r)) (\<lambda>_.
        rbind (validate_retained_state (dr_state r) (dr_retained_anomalous_state r)) (\<lambda>_.
        rbind (validate_report_code r) (\<lambda>_.
        validate_transitions (dr_transitions r) (dr_transition_sequence r)))))"

definition evidence_ready :: "DetectionSignals \<Rightarrow> bool" where
  "evidence_ready s \<longleftrightarrow>
     ds_source_window_end_unix_ms s \<noteq> None \<and> hs_bum_packets_per_second (ds_ingress s) \<noteq> None
     \<and> hs_bum_packets_per_second (ds_egress s) \<noteq> None \<and> hs_baseline_elevated (ds_ingress s) \<noteq> None
     \<and> hs_baseline_elevated (ds_egress s) \<noteq> None"

primrec candidate_state :: "StormCandidate \<Rightarrow> DetectionState option" where
  "candidate_state CandNone = None"
| "candidate_state CandIngress = Some DsIngressStorm"
| "candidate_state CandEgress = Some DsEgressStorm"
| "candidate_state CandBidirectional = Some DsBidirectionalStorm"

definition strongest_anomaly :: "DetectionState option \<Rightarrow> DetectionSignals \<Rightarrow> DetectionState option" where
  "strongest_anomaly candidate signals =
     (let supports_relationship = ds_candidate signals \<in> {CandIngress, CandBidirectional}
      in if supports_relationship \<and> ds_loop_high_confidence signals = Some True then Some DsLoopHighConfidence
         else if supports_relationship \<and> ds_loop_suspected signals = Some True then Some DsLoopSuspected
         else candidate)"

definition is_relationship_state :: "DetectionState \<Rightarrow> bool" where
  "is_relationship_state s \<longleftrightarrow> s \<in> {DsLoopSuspected, DsLoopHighConfidence}"

definition state_supports_relationship :: "DetectionState \<Rightarrow> bool" where
  "state_supports_relationship s \<longleftrightarrow> s \<in> {DsIngressStorm, DsBidirectionalStorm, DsLoopSuspected, DsLoopHighConfidence}"

fun anomaly_rank :: "DetectionState \<Rightarrow> u8" where
  "anomaly_rank DsEgressStorm = 1"
| "anomaly_rank DsIngressStorm = 2"
| "anomaly_rank DsBidirectionalStorm = 3"
| "anomaly_rank DsLoopSuspected = 4"
| "anomaly_rank DsLoopHighConfidence = 5"
| "anomaly_rank _ = 0"

fun reason_for_assertion :: "DetectionState \<Rightarrow> DetectionTransitionReason" where
  "reason_for_assertion DsLoopSuspected = RelationshipSuspected"
| "reason_for_assertion DsLoopHighConfidence = RelationshipHighConfidence"
| "reason_for_assertion _ = StormAsserted"

definition update_candidate_streak :: "StormCandidate \<Rightarrow> DetectionEngine \<Rightarrow> DetectionEngine" where
  "update_candidate_streak candidate e =
     (if candidate = CandNone then e\<lparr>de_last_candidate := CandNone, de_candidate_streak := 0\<rparr>
      else if candidate = de_last_candidate e
      then e\<lparr>de_candidate_streak := min (saturating_add (de_candidate_streak e) 1) DETECTION_ASSERT_TICKS\<rparr>
      else e\<lparr>de_last_candidate := candidate, de_candidate_streak := 1\<rparr>)"

definition cooldown_elapsed :: "u64 \<Rightarrow> DetectionEngine \<Rightarrow> (DetectionEngineError, bool) result" where
  "cooldown_elapsed now e =
     rbind (ok_or EngInvalidSignals (de_cooldown_started_at_monotonic_ns e)) (\<lambda>started.
     rbind (ok_or EngClockRegression (checked_sub now started)) (\<lambda>elapsed.
     Inr (saturating_mul DETECTION_COOLDOWN_MS 1000000 \<le> elapsed)))"

definition record_transition ::
  "DetectionState \<Rightarrow> DetectionState \<Rightarrow> DetectionTransitionReason \<Rightarrow> u64 \<Rightarrow> (DetectionEngine, DetectionEngineError, unit) port" where
  "record_transition previous current reason occurred_at_unix_ms e =
     (case checked_add (de_transition_sequence e) 1 of
        None \<Rightarrow> (Inl EngSequenceOverflow, e)
      | Some sequence \<Rightarrow>
          (Inr (),
           e\<lparr>de_transition_sequence := sequence,
             de_transitions := (if length (de_transitions e) = DETECTION_TRANSITION_CAPACITY then tl (de_transitions e)
                                else de_transitions e) @
               [\<lparr>dt_sequence = sequence, dt_previous_state = previous, dt_current_state = current, dt_reason = reason,
                 dt_occurred_at_unix_ms = occurred_at_unix_ms\<rparr>],
             de_report := (de_report e)\<lparr>dr_state := current, dr_state_since_unix_ms := occurred_at_unix_ms\<rparr>\<rparr>))"

definition sync_retained_state :: "DetectionEngine \<Rightarrow> DetectionEngine" where
  "sync_retained_state e =
     e\<lparr>de_report := (de_report e)\<lparr>dr_retained_anomalous_state :=
        (case dr_state (de_report e) of
           DsCooldown \<Rightarrow> de_last_anomalous_state e
         | DsUnavailable \<Rightarrow>
             if is_anomalous (de_resume_state e) then Some (de_resume_state e)
             else if de_resume_state e = DsCooldown then de_last_anomalous_state e
             else None
         | _ \<Rightarrow> None)\<rparr>\<rparr>"

definition sync_history :: "DetectionEngine \<Rightarrow> DetectionEngine" where
  "sync_history e =
     e\<lparr>de_report := (de_report e)\<lparr>dr_transition_sequence := de_transition_sequence e, dr_transitions := de_transitions e\<rparr>\<rparr>"

text \<open>The decision of one evaluation: the next state and the reason for it.\<close>

definition decide ::
  "u64 \<Rightarrow> DetectionSignals \<Rightarrow> DetectionState \<Rightarrow>
   (DetectionEngine, DetectionEngineError, DetectionState \<times> DetectionTransitionReason option) port" where
  "decide now signals current e =
     (let desired = strongest_anomaly (candidate_state (ds_candidate signals)) signals
      in if is_anomalous current then
           if desired = Some current then (Inr (current, None), e\<lparr>de_clear_streak := 0\<rparr>)
           else if is_some_and desired (\<lambda>d. anomaly_rank current < anomaly_rank d
                     \<and> (is_relationship_state d \<and> state_supports_relationship current
                        \<or> DETECTION_ASSERT_TICKS \<le> de_candidate_streak e))
           then (Inr (unwrap_or desired current, Some (reason_for_assertion (unwrap_or desired current))), e\<lparr>de_clear_streak := 0\<rparr>)
           else
             let e = e\<lparr>de_clear_streak := min (saturating_add (de_clear_streak e) 1) DETECTION_CLEAR_TICKS\<rparr>
             in if DETECTION_CLEAR_TICKS \<le> de_clear_streak e then
                  (case desired of
                     Some d \<Rightarrow> (Inr (d, Some EvidenceCleared), e\<lparr>de_clear_streak := 0\<rparr>)
                   | None \<Rightarrow> (Inr (DsCooldown, Some EvidenceCleared), e\<lparr>de_cooldown_started_at_monotonic_ns := Some now\<rparr>))
                else (Inr (current, None), e)
         else if current = DsCooldown then
           if desired \<noteq> None \<and> DETECTION_ASSERT_TICKS \<le> de_candidate_streak e
           then (Inr (unwrap_or desired DsCooldown, Some (reason_for_assertion (unwrap_or desired DsCooldown))),
                 e\<lparr>de_clear_streak := 0, de_cooldown_started_at_monotonic_ns := None\<rparr>)
           else if desired = None then
             (case cooldown_elapsed now e of
                Inl err \<Rightarrow> (Inl err, e)
              | Inr elapsed \<Rightarrow>
                  if elapsed then (Inr (DsNormal, Some CooldownCompleted),
                                   e\<lparr>de_clear_streak := 0, de_cooldown_started_at_monotonic_ns := None\<rparr>)
                  else (Inr (current, None), e))
           else (Inr (current, None), e)
         else if desired \<noteq> None \<and> DETECTION_ASSERT_TICKS \<le> de_candidate_streak e
         then (Inr (unwrap_or desired current, Some (reason_for_assertion (unwrap_or desired current))), e\<lparr>de_clear_streak := 0\<rparr>)
         else if current = DsWarmingUp \<and> ds_candidate signals = CandNone \<and> evidence_ready signals
         then (Inr (DsNormal, Some EvidenceReady), e)
         else (Inr (current, None), e))"

text \<open>The fields an evaluation writes before it records the transition.\<close>

definition apply_decision :: "u64 \<Rightarrow> u64 \<Rightarrow> DetectionSignals \<Rightarrow> DetectionState \<Rightarrow> DetectionEngine \<Rightarrow> DetectionEngine" where
  "apply_decision now unix signals next e =
     e\<lparr>de_last_anomalous_state := (if is_anomalous next then Some next else de_last_anomalous_state e),
       de_last_trustworthy_monotonic_ns := now, de_resume_state := next,
       de_report := (de_report e)\<lparr>dr_evaluated_at_unix_ms := unix, dr_last_trustworthy_at_unix_ms := Some unix,
         dr_signals := signals, dr_candidate_streak := de_candidate_streak e, dr_clear_streak := de_clear_streak e,
         dr_last_error_code := None\<rparr>\<rparr>"

text \<open>The tail of every operation: synchronise, validate, publish.\<close>

definition publish :: "(DetectionEngine, DetectionEngineError, DetectionReport) port" where
  "publish e =
     (let e = sync_history (sync_retained_state e)
      in case detection_report_validate (de_report e) of
           Inl _ \<Rightarrow> (Inl EngInvalidSignals, e)
         | Inr _ \<Rightarrow> (Inr (de_report e), e))"

definition evaluate :: "u64 \<Rightarrow> u64 \<Rightarrow> DetectionSignals \<Rightarrow> (DetectionEngine, DetectionEngineError, DetectionReport) port" where
  "evaluate now unix signals e =
     (if \<not> is_ok (signals_validate signals) then (Inl EngInvalidSignals, e)
      else if now \<le> de_last_trustworthy_monotonic_ns e
              \<or> is_some_and (dr_last_trustworthy_at_unix_ms (de_report e)) (\<lambda>previous. unix < previous)
      then (Inl EngClockRegression, e)
      else
        let published = dr_state (de_report e);
            current = (if published = DsUnavailable then de_resume_state e else published)
        in port_bind (decide now signals current) (\<lambda>(next, reason).
           port_bind (\<lambda>e.
             let e = apply_decision now unix signals next e;
                 reason = (if published = DsUnavailable \<and> next = current then Some EvidenceRecovered else reason)
             in if published \<noteq> next
                then record_transition published next (unwrap_or reason EvidenceRecovered) unix e
                else (Inr (), e\<lparr>de_report := (de_report e)\<lparr>dr_state := next\<rparr>\<rparr>)) (\<lambda>_.
           publish)) (update_candidate_streak (ds_candidate signals) e))"

definition publish_unavailable ::
  "u64 \<Rightarrow> string \<Rightarrow> DetectionTransitionReason \<Rightarrow> bool \<Rightarrow> (DetectionEngine, DetectionEngineError, DetectionReport) port" where
  "publish_unavailable unix code reason reset_signals e =
     (if \<not> is_ok (validate_error_code code) then (Inl EngInvalidErrorCode, e)
      else
        let previous = dr_state (de_report e);
            e = (if previous \<noteq> DsUnavailable \<and> \<not> reset_signals then e\<lparr>de_resume_state := previous\<rparr> else e);
            report = (de_report e)\<lparr>dr_evaluated_at_unix_ms := unix, dr_last_error_code := Some code\<rparr>;
            report = (if reset_signals then report\<lparr>dr_signals := signals_warming\<rparr> else report)
        in case window_unavailable code of
             Inl _ \<Rightarrow> (Inl EngInvalidErrorCode, e\<lparr>de_report := report\<rparr>)
           | Inr window \<Rightarrow>
               port_bind (\<lambda>e. if previous \<noteq> DsUnavailable then record_transition previous DsUnavailable reason unix e else (Inr (), e))
                 (\<lambda>_. publish)
                 (e\<lparr>de_report := report\<lparr>dr_signals := (dr_signals report)\<lparr>ds_fingerprint_window := window\<rparr>,
                    dr_candidate_streak := de_candidate_streak e, dr_clear_streak := de_clear_streak e\<rparr>\<rparr>))"

definition detection_unavailable :: "u64 \<Rightarrow> string \<Rightarrow> (DetectionEngine, DetectionEngineError, DetectionReport) port" where
  "detection_unavailable unix code = publish_unavailable unix code EvidenceUnavailable False"

definition detection_pause :: "u64 \<Rightarrow> (DetectionEngine, DetectionEngineError, DetectionReport) port" where
  "detection_pause unix = publish_unavailable unix ''SAMPLER_PAUSED'' SamplerPaused False"

definition detection_clear :: "RateIdentity \<Rightarrow> u64 \<Rightarrow> u64 \<Rightarrow> string \<Rightarrow> (DetectionEngine, DetectionEngineError, DetectionReport) port" where
  "detection_clear identity now unix code e =
     (if \<not> is_ok (validate_error_code code) then (Inl EngInvalidErrorCode, e)
      else if identity \<noteq> de_identity e
      then let e = detection_engine_new identity now unix in (Inr (de_report e), e)
      else publish_unavailable unix code IntegrityFailure True
             (e\<lparr>de_last_trustworthy_monotonic_ns := now, de_resume_state := DsWarmingUp, de_last_candidate := CandNone,
                de_candidate_streak := 0, de_clear_streak := 0, de_cooldown_started_at_monotonic_ns := None,
                de_last_anomalous_state := None, de_report := (de_report e)\<lparr>dr_last_trustworthy_at_unix_ms := None\<rparr>\<rparr>))"

record DetectionSummary =
  dm_state :: DetectionState
  dm_retained_anomalous_state :: "DetectionState option"
  dm_transition_sequence :: u64
  dm_state_since_unix_ms :: u64
  dm_last_trustworthy_at_unix_ms :: "u64 option"
  dm_candidate :: StormCandidate
  dm_fingerprint_window_state :: FingerprintWindowState
  dm_last_error_code :: "string option"

definition detection_summary_validate :: "DetectionSummary \<Rightarrow> (DomainError, unit) result" where
  "detection_summary_validate s =
     rbind (validate_retained_state (dm_state s) (dm_retained_anomalous_state s)) (\<lambda>_.
     rbind (case dm_last_error_code s of None \<Rightarrow> Inr () | Some code \<Rightarrow> validate_error_code code) (\<lambda>_.
     if dm_state s = DsUnavailable \<and> dm_last_error_code s = None
     then Inl (InvalidObservation ''unavailable detection summary requires an error code'')
     else Inr ()))"

definition detection_summary_from :: "DetectionReport \<Rightarrow> DetectionSummary" where
  "detection_summary_from r =
     \<lparr>dm_state = dr_state r, dm_retained_anomalous_state = dr_retained_anomalous_state r,
      dm_transition_sequence = dr_transition_sequence r, dm_state_since_unix_ms = dr_state_since_unix_ms r,
      dm_last_trustworthy_at_unix_ms = dr_last_trustworthy_at_unix_ms r, dm_candidate = ds_candidate (dr_signals r),
      dm_fingerprint_window_state = fw_state (ds_fingerprint_window (dr_signals r)), dm_last_error_code = dr_last_error_code r\<rparr>"

section \<open>The engine's invariant\<close>

definition push_transition :: "DetectionTransition \<Rightarrow> DetectionTransition list \<Rightarrow> DetectionTransition list" where
  "push_transition t ts = (if length ts = DETECTION_TRANSITION_CAPACITY then tl ts else ts) @ [t]"

interpretation transitions: bounded_ring DETECTION_TRANSITION_CAPACITY push_transition
  by unfold_locales (auto simp: push_transition_def)

text \<open>The ring holds consecutively numbered transitions, each starting in the state the one before it ended in.\<close>

definition follows :: "DetectionTransition \<Rightarrow> DetectionTransition \<Rightarrow> bool" where
  "follows a b \<longleftrightarrow> checked_add (dt_sequence a) 1 = Some (dt_sequence b) \<and> dt_current_state a = dt_previous_state b"

definition ring_ok :: "DetectionTransition list \<Rightarrow> u64 \<Rightarrow> DetectionState \<Rightarrow> bool" where
  "ring_ok ts sequence state \<longleftrightarrow>
     length ts \<le> DETECTION_TRANSITION_CAPACITY \<and> successively follows ts
     \<and> list_all (\<lambda>t. dt_sequence t \<noteq> 0 \<and> dt_previous_state t \<noteq> dt_current_state t) ts
     \<and> (if ts = [] then sequence = 0 else dt_sequence (last ts) = sequence \<and> dt_current_state (last ts) = state)"

lemma successively_tl: "successively P xs \<Longrightarrow> successively P (tl xs)"
  by (cases xs) (auto simp: successively_Cons)

lemma ring_ok_push:
  assumes ring: "ring_ok ts s state" and n: "checked_add s 1 = Some (dt_sequence t)"
    and t: "dt_previous_state t = state" "dt_current_state t \<noteq> state"
  shows "ring_ok (push_transition t ts) (dt_sequence t) (dt_current_state t)"
proof -
  have nz: "dt_sequence t \<noteq> 0" using checked_add_unat [OF n] by auto
  let ?ts = "if length ts = DETECTION_TRANSITION_CAPACITY then tl ts else ts"
  have "successively follows ?ts" "list_all (\<lambda>t. dt_sequence t \<noteq> 0 \<and> dt_previous_state t \<noteq> dt_current_state t) ?ts"
    using ring by (auto simp: ring_ok_def successively_tl list_all_iff dest: list.set_sel(2) [rotated])
  moreover have "?ts = [] \<or> follows (last ?ts) t"
    using ring n t by (auto simp: ring_ok_def follows_def last_tl split: if_splits)
  moreover have "length (push_transition t ts) \<le> DETECTION_TRANSITION_CAPACITY"
    using ring by (intro transitions.push_bounded) (simp add: ring_ok_def)
  ultimately show ?thesis
    using t nz unfolding ring_ok_def push_transition_def
    by (auto simp: successively_append_iff)
qed

lemma ring_ok_validates:
  assumes "ring_ok ts s state" shows "validate_transitions ts s = Inr ()"
proof -
  have loop: "rfold (\<lambda>transition previous.
            if dt_sequence transition = 0
               \<or> is_some_and previous (\<lambda>sequence. checked_add sequence 1 \<noteq> Some (dt_sequence transition))
               \<or> dt_previous_state transition = dt_current_state transition
            then Inl (InvalidObservation ''detection transition history is invalid'')
            else Inr (Some (dt_sequence transition))) us p = Inr (if us = [] then p else Some (dt_sequence (last us)))"
    if "successively follows us" "list_all (\<lambda>t. dt_sequence t \<noteq> 0 \<and> dt_previous_state t \<noteq> dt_current_state t) us"
      "case p of None \<Rightarrow> True | Some q \<Rightarrow> us = [] \<or> checked_add q 1 = Some (dt_sequence (hd us))" for us p
    using that
  proof (induction us arbitrary: p)
    case (Cons u us)
    have "us = [] \<or> checked_add (dt_sequence u) 1 = Some (dt_sequence (hd us))"
      using Cons.prems(1) by (auto simp: successively_Cons follows_def)
    then show ?case using Cons by (auto simp: successively_Cons split: option.splits)
  qed simp
  show ?thesis
    using assms loop [of ts None] by (auto simp: validate_transitions_def ring_ok_def split: if_splits)
qed

definition settled :: "DetectionEngine \<Rightarrow> bool" where
  "settled e \<longleftrightarrow>
     dr_config (de_report e) = config_fixed
     \<and> de_candidate_streak e \<le> DETECTION_ASSERT_TICKS \<and> de_clear_streak e \<le> DETECTION_CLEAR_TICKS
     \<and> dr_candidate_streak (de_report e) = de_candidate_streak e \<and> dr_clear_streak (de_report e) = de_clear_streak e
     \<and> signals_validate (dr_signals (de_report e)) = Inr ()
     \<and> de_resume_state e \<noteq> DsUnavailable
     \<and> (dr_state (de_report e) = DsUnavailable \<or> dr_state (de_report e) = de_resume_state e)
     \<and> (if dr_state (de_report e) = DsUnavailable
        then is_some_and (dr_last_error_code (de_report e)) (\<lambda>code. is_ok (validate_error_code code))
        else dr_last_error_code (de_report e) = None)
     \<and> (is_anomalous (de_resume_state e) \<longrightarrow> de_last_anomalous_state e = Some (de_resume_state e) \<and> de_clear_streak e < DETECTION_CLEAR_TICKS)
     \<and> (de_resume_state e = DsCooldown \<longrightarrow> is_some_and (de_last_anomalous_state e) is_anomalous
          \<and> is_some_and (de_cooldown_started_at_monotonic_ns e) (\<lambda>t. t \<le> de_last_trustworthy_monotonic_ns e))
     \<and> ring_ok (de_transitions e) (de_transition_sequence e) (dr_state (de_report e))"

text \<open>What the tail of an operation synchronises, as one update.\<close>

definition retained_of :: "DetectionState \<Rightarrow> DetectionState \<Rightarrow> DetectionState option \<Rightarrow> DetectionState option" where
  "retained_of state resume latest =
     (case state of
        DsCooldown \<Rightarrow> latest
      | DsUnavailable \<Rightarrow> if is_anomalous resume then Some resume else if resume = DsCooldown then latest else None
      | _ \<Rightarrow> None)"

definition synced :: "DetectionEngine \<Rightarrow> DetectionEngine" where
  "synced e = e\<lparr>de_report := (de_report e)
     \<lparr>dr_retained_anomalous_state := retained_of (dr_state (de_report e)) (de_resume_state e) (de_last_anomalous_state e),
      dr_transition_sequence := de_transition_sequence e, dr_transitions := de_transitions e\<rparr>\<rparr>"

lemma synced_eq: "sync_history (sync_retained_state e) = synced e"
  unfolding sync_history_def sync_retained_state_def retained_of_def [symmetric] by (simp add: synced_def)

lemma retained_of_valid:
  assumes "resume \<noteq> DsUnavailable" "state = DsUnavailable \<or> state = resume"
    "is_anomalous resume \<longrightarrow> latest = Some resume" "resume = DsCooldown \<longrightarrow> is_some_and latest is_anomalous"
  shows "validate_retained_state state (retained_of state resume latest) = Inr ()"
  using assms by (cases state; cases resume)
    (auto simp: validate_retained_state_def retained_of_def is_some_and_conv is_anomalous_def)

lemma synced_fields [simp]:
  "de_identity (synced e) = de_identity e"
  "de_last_trustworthy_monotonic_ns (synced e) = de_last_trustworthy_monotonic_ns e"
  "de_resume_state (synced e) = de_resume_state e"
  "de_last_candidate (synced e) = de_last_candidate e"
  "de_candidate_streak (synced e) = de_candidate_streak e"
  "de_clear_streak (synced e) = de_clear_streak e"
  "de_cooldown_started_at_monotonic_ns (synced e) = de_cooldown_started_at_monotonic_ns e"
  "de_last_anomalous_state (synced e) = de_last_anomalous_state e"
  "de_transition_sequence (synced e) = de_transition_sequence e"
  "de_transitions (synced e) = de_transitions e"
  "dr_state (de_report (synced e)) = dr_state (de_report e)"
  "dr_config (de_report (synced e)) = dr_config (de_report e)"
  "dr_signals (de_report (synced e)) = dr_signals (de_report e)"
  "dr_candidate_streak (de_report (synced e)) = dr_candidate_streak (de_report e)"
  "dr_clear_streak (de_report (synced e)) = dr_clear_streak (de_report e)"
  "dr_last_error_code (de_report (synced e)) = dr_last_error_code (de_report e)"
  "dr_last_trustworthy_at_unix_ms (de_report (synced e)) = dr_last_trustworthy_at_unix_ms (de_report e)"
  "dr_transitions (de_report (synced e)) = de_transitions e"
  "dr_transition_sequence (de_report (synced e)) = de_transition_sequence e"
  "dr_retained_anomalous_state (de_report (synced e)) =
     retained_of (dr_state (de_report e)) (de_resume_state e) (de_last_anomalous_state e)"
  by (simp_all add: synced_def)

lemma synced_idem: "synced (synced e) = synced e"
  by (simp add: synced_def)

text \<open>An engine at rest is settled and its report is synchronised with it.\<close>

definition det_inv :: "DetectionEngine \<Rightarrow> bool" where
  "det_inv e \<longleftrightarrow> settled e \<and> synced e = e"

lemma settled_validates:
  assumes "settled e"
  shows "detection_report_validate (de_report (synced e)) = Inr ()"
proof -
  let ?r = "de_report (synced e)"
  have retained: "validate_retained_state (dr_state ?r) (dr_retained_anomalous_state ?r) = Inr ()"
    unfolding synced_fields by (rule retained_of_valid) (use assms in \<open>simp_all add: settled_def\<close>)
  have code: "validate_report_code ?r = Inr ()"
    using assms by (cases "dr_last_error_code (de_report e)")
      (auto simp: settled_def validate_report_code_def is_ok_conv split: if_splits)
  have "validate_transitions (dr_transitions ?r) (dr_transition_sequence ?r) = Inr ()"
    using assms by (auto simp: settled_def intro: ring_ok_validates)
  then show ?thesis using assms retained code
    by (simp add: settled_def detection_report_validate_def ring_ok_def not_less)
qed

lemma publish_settled:
  assumes "settled e"
  shows "publish e = (Inr (de_report (synced e)), synced e)" "det_inv (synced e)"
proof -
  have "settled (synced e)" using assms by (simp add: settled_def)
  then show "det_inv (synced e)" by (simp add: det_inv_def synced_idem)
  show "publish e = (Inr (de_report (synced e)), synced e)"
    using settled_validates [OF assms] by (simp add: publish_def synced_eq Let_def)
qed

lemma warming_signals_validate: "signals_validate signals_warming = Inr ()"
  by (simp add: signals_validate_def signals_warming_def hook_signals_warming_def warming_validates)

lemma det_inv_new: "det_inv (detection_engine_new identity now unix)"
  by (simp add: det_inv_def settled_def detection_engine_new_def report_warming_def warming_signals_validate
      ring_ok_def is_anomalous_def synced_def retained_of_def)

section \<open>What the operations do\<close>

definition accepts :: "u64 \<Rightarrow> u64 \<Rightarrow> DetectionSignals \<Rightarrow> DetectionEngine \<Rightarrow> bool" where
  "accepts now unix signals e \<longleftrightarrow>
     is_ok (signals_validate signals) \<and> de_last_trustworthy_monotonic_ns e < now
     \<and> \<not> is_some_and (dr_last_trustworthy_at_unix_ms (de_report e)) (\<lambda>previous. unix < previous)"

lemma unat_u8_lt: "unat (a :: u8) < 256"
  using unsigned_less [where 'a = nat, of a] by simp

lemma clear_tick: "unat (min (saturating_add (c :: u8) 1) 10) = min (unat c + 1) 10"
  by (simp add: unat_min saturating_add_unat)

lemma candidate_tick: "unat (min (saturating_add (c :: u8) 1) 3) = min (unat c + 1) 3"
  by (simp add: unat_min saturating_add_unat)

lemma strongest_anomaly_anomalous:
  "strongest_anomaly (candidate_state c) s = Some d \<Longrightarrow> is_anomalous d"
  by (cases c) (auto simp: strongest_anomaly_def is_anomalous_def Let_def split: if_splits)

lemma strongest_anomaly_None:
  "strongest_anomaly (candidate_state (ds_candidate s)) s = None \<longleftrightarrow> ds_candidate s = CandNone"
  by (cases "ds_candidate s") (auto simp: strongest_anomaly_def Let_def)

definition cooled :: "u64 option \<Rightarrow> u64 \<Rightarrow> bool" where
  "cooled started now \<longleftrightarrow> is_some_and started (\<lambda>t. 30000000000 \<le> unat now - unat t)"

text \<open>
  A decision as a value: the next state, its reason, the clear streak and the start of the cooldown.
  It reads nothing of the engine but the two streaks and the cooldown.
\<close>

definition decision ::
  "u64 \<Rightarrow> DetectionSignals \<Rightarrow> DetectionState \<Rightarrow> u8 \<Rightarrow> u8 \<Rightarrow> u64 option \<Rightarrow>
   DetectionState \<times> DetectionTransitionReason option \<times> u8 \<times> u64 option" where
  "decision now signals current candidate clear started =
     (let tick = min (saturating_add clear 1) DETECTION_CLEAR_TICKS;
          asserted = DETECTION_ASSERT_TICKS \<le> candidate
      in case strongest_anomaly (candidate_state (ds_candidate signals)) signals of
        Some d \<Rightarrow>
          if is_anomalous current then
            if d = current then (current, None, 0, started)
            else if anomaly_rank current < anomaly_rank d
                    \<and> (is_relationship_state d \<and> state_supports_relationship current \<or> asserted)
            then (d, Some (reason_for_assertion d), 0, started)
            else if DETECTION_CLEAR_TICKS \<le> tick then (d, Some EvidenceCleared, 0, started)
            else (current, None, tick, started)
          else if asserted then (d, Some (reason_for_assertion d), 0, if current = DsCooldown then None else started)
          else (current, None, clear, started)
      | None \<Rightarrow>
          if is_anomalous current then
            if DETECTION_CLEAR_TICKS \<le> tick then (DsCooldown, Some EvidenceCleared, tick, Some now)
            else (current, None, tick, started)
          else if current = DsCooldown then
            if cooled started now
            then (DsNormal, Some CooldownCompleted, 0, None)
            else (current, None, clear, started)
          else if current = DsWarmingUp \<and> evidence_ready signals then (DsNormal, Some EvidenceReady, clear, started)
          else (current, None, clear, started))"

lemma cooldown_elapsed_eq:
  assumes "de_cooldown_started_at_monotonic_ns e = Some t" "t \<le> now"
  shows "cooldown_elapsed now e = Inr (cooled (Some t) now)"
  using assms by (simp add: cooled_def cooldown_elapsed_def checked_sub_def saturating_mul_def word_le_nat_alt unat_sub)

lemma decide_eq:
  assumes "current = DsCooldown \<longrightarrow> is_some_and (de_cooldown_started_at_monotonic_ns e) (\<lambda>t. t \<le> now)"
  shows "decide now signals current e =
    (case decision now signals current (de_candidate_streak e) (de_clear_streak e) (de_cooldown_started_at_monotonic_ns e) of
       (next, reason, clear, started) \<Rightarrow>
         (Inr (next, reason), e\<lparr>de_clear_streak := clear, de_cooldown_started_at_monotonic_ns := started\<rparr>))"
proof (cases "strongest_anomaly (candidate_state (ds_candidate signals)) signals")
  case None
  then have none: "ds_candidate signals = CandNone" by (simp add: strongest_anomaly_None)
  show ?thesis
  proof (cases "current = DsCooldown")
    case True
    with assms obtain t where "de_cooldown_started_at_monotonic_ns e = Some t" "t \<le> now" by (auto simp: is_some_and_conv)
    with True None show ?thesis
      by (simp add: decide_def decision_def Let_def is_anomalous_def cooldown_elapsed_eq)
  next
    case False
    with None none show ?thesis by (auto simp: decide_def decision_def Let_def)
  qed
next
  case (Some d)
  then have "ds_candidate signals \<noteq> CandNone" using strongest_anomaly_None [of signals] by auto
  with Some show ?thesis
    by (cases "is_anomalous current"; cases "current = DsCooldown") (auto simp: decide_def decision_def Let_def is_anomalous_def)
qed

lemma decision_invariant:
  assumes "decision now signals current candidate clear started = (next, reason, clear', started')"
    and "current \<noteq> DsUnavailable" "clear \<le> DETECTION_CLEAR_TICKS"
    and "is_anomalous current \<longrightarrow> clear < DETECTION_CLEAR_TICKS"
    and "current = DsCooldown \<longrightarrow> is_some_and started (\<lambda>t. t \<le> now)"
  shows "next \<noteq> DsUnavailable" "clear' \<le> DETECTION_CLEAR_TICKS" "is_anomalous next \<longrightarrow> clear' < DETECTION_CLEAR_TICKS"
    "next = DsCooldown \<longrightarrow> is_some_and started' (\<lambda>t. t \<le> now) \<and> (current = DsCooldown \<or> is_anomalous current)"
proof -
  have states: "\<not> is_anomalous DsCooldown" "\<not> is_anomalous DsNormal" "\<not> is_anomalous DsUnavailable"
    by (simp_all add: is_anomalous_def)
  have "next \<noteq> DsUnavailable \<and> clear' \<le> DETECTION_CLEAR_TICKS \<and> (is_anomalous next \<longrightarrow> clear' < DETECTION_CLEAR_TICKS)
    \<and> (next = DsCooldown \<longrightarrow> is_some_and started' (\<lambda>t. t \<le> now) \<and> (current = DsCooldown \<or> is_anomalous current))"
  proof (cases "strongest_anomaly (candidate_state (ds_candidate signals)) signals")
    case None
    with assms states show ?thesis
      by (auto simp add: decision_def Let_def not_le split: if_splits)
  next
    case (Some d)
    moreover from this have "is_anomalous d" by (rule strongest_anomaly_anomalous)
    moreover from this have "d \<noteq> DsUnavailable" "d \<noteq> DsCooldown" using states by blast+
    ultimately show ?thesis using assms states
      by (auto simp add: decision_def Let_def not_le split: if_splits)
  qed
  then show "next \<noteq> DsUnavailable" "clear' \<le> DETECTION_CLEAR_TICKS" "is_anomalous next \<longrightarrow> clear' < DETECTION_CLEAR_TICKS"
    "next = DsCooldown \<longrightarrow> is_some_and started' (\<lambda>t. t \<le> now) \<and> (current = DsCooldown \<or> is_anomalous current)"
    by blast+
qed

section \<open>The hysteresis machine the engine implements\<close>

text \<open>
  The abstract detector: the part of the engine that decides, without report, ring or outage. Its
  \<open>clear\<close> forgets everything but the identity, and outages are no steps at all.
\<close>

record Hysteresis =
  hy_identity :: RateIdentity
  hy_trusted_ns :: u64
  hy_trusted_ms :: "u64 option"
  hy_state :: DetectionState
  hy_candidate :: StormCandidate
  hy_streak :: u8
  hy_clear :: u8
  hy_started :: "u64 option"
  hy_alarm :: "DetectionState option"

definition hysteresis :: "DetectionEngine \<Rightarrow> Hysteresis" where
  "hysteresis e =
     \<lparr>hy_identity = de_identity e, hy_trusted_ns = de_last_trustworthy_monotonic_ns e,
      hy_trusted_ms = dr_last_trustworthy_at_unix_ms (de_report e), hy_state = de_resume_state e,
      hy_candidate = de_last_candidate e, hy_streak = de_candidate_streak e, hy_clear = de_clear_streak e,
      hy_started = de_cooldown_started_at_monotonic_ns e, hy_alarm = de_last_anomalous_state e\<rparr>"

definition hyst_accepts :: "u64 \<Rightarrow> u64 \<Rightarrow> DetectionSignals \<Rightarrow> Hysteresis \<Rightarrow> bool" where
  "hyst_accepts now unix signals h \<longleftrightarrow>
     is_ok (signals_validate signals) \<and> hy_trusted_ns h < now \<and> \<not> is_some_and (hy_trusted_ms h) (\<lambda>previous. unix < previous)"

definition next_streak :: "StormCandidate \<Rightarrow> StormCandidate \<Rightarrow> u8 \<Rightarrow> u8" where
  "next_streak candidate latest streak =
     (if candidate = CandNone then 0
      else if candidate = latest then min (saturating_add streak 1) DETECTION_ASSERT_TICKS
      else 1)"

definition hyst_observe :: "u64 \<Rightarrow> u64 \<Rightarrow> DetectionSignals \<Rightarrow> Hysteresis \<Rightarrow> Hysteresis" where
  "hyst_observe now unix signals h =
     (let streak = next_streak (ds_candidate signals) (hy_candidate h) (hy_streak h)
      in case decision now signals (hy_state h) streak (hy_clear h) (hy_started h) of
           (next, _, clear, started) \<Rightarrow>
             h\<lparr>hy_trusted_ns := now, hy_trusted_ms := Some unix, hy_state := next, hy_candidate := ds_candidate signals,
               hy_streak := streak, hy_clear := clear, hy_started := started,
               hy_alarm := if is_anomalous next then Some next else hy_alarm h\<rparr>)"

datatype DetectionOp = OpEvaluate u64 u64 DetectionSignals | OpUnavailable u64 string | OpPause u64
  | OpClear RateIdentity u64 u64 string

definition hyst_step :: "Hysteresis \<Rightarrow> DetectionOp \<Rightarrow> Hysteresis" where
  "hyst_step h op =
     (case op of
        OpEvaluate now unix signals \<Rightarrow> if hyst_accepts now unix signals h then hyst_observe now unix signals h else h
      | OpUnavailable unix code \<Rightarrow> h
      | OpPause unix \<Rightarrow> h
      | OpClear identity now unix code \<Rightarrow>
          if is_ok (validate_error_code code) then hysteresis (detection_engine_new identity now unix) else h)"

definition det_step :: "DetectionEngine \<Rightarrow> DetectionOp \<Rightarrow> DetectionEngine" where
  "det_step e op =
     (case op of
        OpEvaluate now unix signals \<Rightarrow> snd (evaluate now unix signals e)
      | OpUnavailable unix code \<Rightarrow> snd (detection_unavailable unix code e)
      | OpPause unix \<Rightarrow> snd (detection_pause unix e)
      | OpClear identity now unix code \<Rightarrow> snd (detection_clear identity now unix code e))"

lemma update_streak_fields [simp]:
  "update_candidate_streak c e = e\<lparr>de_last_candidate := c, de_candidate_streak := next_streak c (de_last_candidate e) (de_candidate_streak e)\<rparr>"
  by (auto simp: update_candidate_streak_def next_streak_def)

lemma next_streak_bound: "s \<le> DETECTION_ASSERT_TICKS \<Longrightarrow> next_streak c l s \<le> DETECTION_ASSERT_TICKS"
  by (auto simp: next_streak_def)

text \<open>Recording a transition out of a settled engine's published state.\<close>

lemma record_transition_ok:
  assumes "de_transition_sequence e \<noteq> - 1" "ring_ok (de_transitions e) (de_transition_sequence e) previous" "previous \<noteq> current"
  obtains s ts where "record_transition previous current reason unix e =
      (Inr (), e\<lparr>de_transition_sequence := s, de_transitions := ts,
         de_report := (de_report e)\<lparr>dr_state := current, dr_state_since_unix_ms := unix\<rparr>\<rparr>)"
    "ring_ok ts s current" "unat s = unat (de_transition_sequence e) + 1"
proof -
  let ?s = "de_transition_sequence e + 1"
  have "unat (de_transition_sequence e) \<noteq> 18446744073709551615"
    using assms(1) unat_u64_max by (simp add: word_unat_eq_iff)
  with unat_lt_64 [of "de_transition_sequence e"] have "unat (de_transition_sequence e) + 1 < 18446744073709551616"
    by linarith
  then have c: "checked_add (de_transition_sequence e) 1 = Some ?s" by (simp add: checked_add_def)
  define t where "t = \<lparr>dt_sequence = ?s, dt_previous_state = previous, dt_current_state = current, dt_reason = reason,
                 dt_occurred_at_unix_ms = unix\<rparr>"
  have "ring_ok (push_transition t (de_transitions e)) ?s current"
    using ring_ok_push [OF assms(2), of t] c assms(3) by (simp add: t_def)
  moreover have "record_transition previous current reason unix e =
      (Inr (), e\<lparr>de_transition_sequence := ?s, de_transitions := push_transition t (de_transitions e),
         de_report := (de_report e)\<lparr>dr_state := current, dr_state_since_unix_ms := unix\<rparr>\<rparr>)"
    using c by (simp add: record_transition_def push_transition_def t_def)
  ultimately show thesis using that checked_add_unat [OF c] by simp
qed

lemma record_or_stay:
  assumes "de_transition_sequence e \<noteq> - 1" "ring_ok (de_transitions e) (de_transition_sequence e) previous"
    "dr_state (de_report e) = previous"
  obtains s ts since where "(if previous \<noteq> current then record_transition previous current reason unix e
       else (Inr (), e\<lparr>de_report := (de_report e)\<lparr>dr_state := current\<rparr>\<rparr>)) =
      (Inr (), e\<lparr>de_transition_sequence := s, de_transitions := ts,
         de_report := (de_report e)\<lparr>dr_state := current, dr_state_since_unix_ms := since\<rparr>\<rparr>)"
    "ring_ok ts s current" "unat s \<le> unat (de_transition_sequence e) + 1"
proof (cases "previous = current")
  case True
  show thesis by (rule that [where s = "de_transition_sequence e" and ts = "de_transitions e" and since = "dr_state_since_unix_ms (de_report e)"]) (use True assms in simp_all)
next
  case False
  from record_transition_ok [OF assms(1,2) False, of reason unix] obtain s ts where
    "record_transition previous current reason unix e =
      (Inr (), e\<lparr>de_transition_sequence := s, de_transitions := ts,
         de_report := (de_report e)\<lparr>dr_state := current, dr_state_since_unix_ms := unix\<rparr>\<rparr>)"
    "ring_ok ts s current" "unat s = unat (de_transition_sequence e) + 1" by metis
  then show thesis by (intro that [where s = s and ts = ts and since = unix]) (use False in simp_all)
qed

lemma evaluate_accepted:
  assumes inv: "det_inv e" and seq: "de_transition_sequence e \<noteq> - 1" and acc: "accepts now unix signals e"
  obtains e' where "evaluate now unix signals e = (Inr (de_report e'), e')" "det_inv e'"
    "hysteresis e' = hyst_observe now unix signals (hysteresis e)"
    "unat (de_transition_sequence e') \<le> unat (de_transition_sequence e) + 1"
    "dr_state (de_report e') = de_resume_state e'" "dr_signals (de_report e') = signals"
proof -
  let ?streak = "next_streak (ds_candidate signals) (de_last_candidate e) (de_candidate_streak e)"
  define u where "u = update_candidate_streak (ds_candidate signals) e"
  have settled: "settled e" using inv by (simp add: det_inv_def)
  have checks: "is_ok (signals_validate signals)" "\<not> now \<le> de_last_trustworthy_monotonic_ns e"
    "\<not> is_some_and (dr_last_trustworthy_at_unix_ms (de_report e)) (\<lambda>previous. unix < previous)"
    using acc by (auto simp: accepts_def)
  obtain nxt reason clear started where dec:
    "decision now signals (de_resume_state e) ?streak (de_clear_streak e) (de_cooldown_started_at_monotonic_ns e) = (nxt, reason, clear, started)"
    using prod_cases4 by blast
  have now: "is_some_and (de_cooldown_started_at_monotonic_ns e) (\<lambda>t. t \<le> now)" if "de_resume_state e = DsCooldown"
    using settled acc that by (auto simp: settled_def accepts_def is_some_and_conv)
  define v where "v = u\<lparr>de_clear_streak := clear, de_cooldown_started_at_monotonic_ns := started\<rparr>"
  have decide: "decide now signals (de_resume_state e) u = (Inr (nxt, reason), v)"
    using decide_eq [of "de_resume_state e" u now signals] now by (simp add: dec u_def v_def)
  note inv' = decision_invariant [OF dec] 
  define p where "p = dr_state (de_report e)"
  define a where "a = apply_decision now unix signals nxt v"
  define why where "why = unwrap_or (if p = DsUnavailable \<and> nxt = de_resume_state e then Some EvidenceRecovered else reason) EvidenceRecovered"
  have current: "(if p = DsUnavailable then de_resume_state e else p) = de_resume_state e"
    using settled by (auto simp: settled_def p_def)
  have a: "de_transition_sequence a \<noteq> - 1" "ring_ok (de_transitions a) (de_transition_sequence a) p" "dr_state (de_report a) = p"
    using settled seq by (simp_all add: settled_def a_def v_def u_def apply_decision_def p_def)
  from record_or_stay [OF a, of nxt why unix] obtain s ts since where
    rec: "(if p \<noteq> nxt then record_transition p nxt why unix a
       else (Inr (), a\<lparr>de_report := (de_report a)\<lparr>dr_state := nxt\<rparr>\<rparr>)) =
      (Inr (), a\<lparr>de_transition_sequence := s, de_transitions := ts,
         de_report := (de_report a)\<lparr>dr_state := nxt, dr_state_since_unix_ms := since\<rparr>\<rparr>)"
    and ring: "ring_ok ts s nxt" and s: "unat s \<le> unat (de_transition_sequence a) + 1" by metis
  define b where "b = a\<lparr>de_transition_sequence := s, de_transitions := ts,
         de_report := (de_report a)\<lparr>dr_state := nxt, dr_state_since_unix_ms := since\<rparr>\<rparr>"
  have sb: "settled b"
  proof -
    have alarm: "is_some_and (de_last_anomalous_state e) is_anomalous" if "nxt = DsCooldown"
      using that inv'(4) settled now by (auto simp: settled_def)
    have dec': "nxt \<noteq> DsUnavailable" "clear \<le> DETECTION_CLEAR_TICKS" "is_anomalous nxt \<longrightarrow> clear < DETECTION_CLEAR_TICKS"
      "nxt = DsCooldown \<longrightarrow> is_some_and started (\<lambda>t. t \<le> now)"
      using inv' settled now by (auto simp: settled_def)
    have "\<not> is_anomalous DsCooldown" by (simp add: is_anomalous_def)
    moreover have "?streak \<le> DETECTION_ASSERT_TICKS" using settled by (intro next_streak_bound) (simp add: settled_def)
    moreover have "dr_config (de_report b) = config_fixed" "signals_validate (dr_signals (de_report b)) = Inr ()"
      using settled acc by (simp_all add: b_def a_def v_def u_def apply_decision_def settled_def accepts_def is_ok_conv)
    moreover have "de_candidate_streak b = ?streak" "de_clear_streak b = clear" "de_resume_state b = nxt"
      "dr_candidate_streak (de_report b) = ?streak" "dr_clear_streak (de_report b) = clear" "dr_state (de_report b) = nxt"
      "dr_last_error_code (de_report b) = None" "de_cooldown_started_at_monotonic_ns b = started"
      "de_last_trustworthy_monotonic_ns b = now" "de_transitions b = ts" "de_transition_sequence b = s"
      "de_last_anomalous_state b = (if is_anomalous nxt then Some nxt else de_last_anomalous_state e)"
      by (simp_all add: b_def a_def v_def u_def apply_decision_def)
    ultimately show ?thesis using alarm dec' ring by (simp add: settled_def)
  qed
  show thesis
  proof (rule that [of "synced b"])
    show "evaluate now unix signals e = (Inr (de_report (synced b)), synced b)"
      using checks decide current rec publish_settled(1) [OF sb]
      by (simp add: evaluate_def Let_def p_def [symmetric] u_def [symmetric] a_def [symmetric]
          why_def [symmetric] b_def [symmetric] port_bind_def del: update_streak_fields split del: if_split cong: if_cong)
    show "hysteresis (synced b) = hyst_observe now unix signals (hysteresis e)"
      by (simp add: hysteresis_def hyst_observe_def dec b_def a_def v_def u_def apply_decision_def)
    show "unat (de_transition_sequence (synced b)) \<le> unat (de_transition_sequence e) + 1"
      using s by (simp add: b_def a_def v_def u_def apply_decision_def)
  qed (use publish_settled(2) [OF sb] in \<open>simp_all add: b_def a_def v_def u_def apply_decision_def\<close>)
qed


lemma evaluate_refused:
  assumes "\<not> accepts now unix signals e"
  shows "evaluate now unix signals e =
    (Inl (if is_ok (signals_validate signals) then EngClockRegression else EngInvalidSignals), e)"
  using assms by (auto simp: accepts_def evaluate_def not_less Let_def)

text \<open>Publishing an outage changes nothing the abstract detector sees.\<close>

lemma window_unavailable_ok:
  "validate_error_code code = Inr () \<Longrightarrow> \<exists>w. window_unavailable code = Inr w \<and> window_validate w = Inr ()"
  using unavailable_validates [of code] by (auto simp: window_unavailable_def)

text \<open>What an operation needs before it publishes an outage: everything settled but the report's state and streaks.\<close>

definition resumable :: "DetectionEngine \<Rightarrow> bool" where
  "resumable e \<longleftrightarrow>
     dr_config (de_report e) = config_fixed
     \<and> de_candidate_streak e \<le> DETECTION_ASSERT_TICKS \<and> de_clear_streak e \<le> DETECTION_CLEAR_TICKS
     \<and> signals_validate (dr_signals (de_report e)) = Inr () \<and> de_resume_state e \<noteq> DsUnavailable
     \<and> (is_anomalous (de_resume_state e) \<longrightarrow> de_last_anomalous_state e = Some (de_resume_state e) \<and> de_clear_streak e < DETECTION_CLEAR_TICKS)
     \<and> (de_resume_state e = DsCooldown \<longrightarrow> is_some_and (de_last_anomalous_state e) is_anomalous
          \<and> is_some_and (de_cooldown_started_at_monotonic_ns e) (\<lambda>t. t \<le> de_last_trustworthy_monotonic_ns e))
     \<and> ring_ok (de_transitions e) (de_transition_sequence e) (dr_state (de_report e))"

lemma settled_resumable: "settled e \<Longrightarrow> resumable e"
  by (simp add: settled_def resumable_def)

lemma signals_validate_window:
  assumes "signals_validate s = Inr ()" "window_validate w = Inr ()"
  shows "signals_validate (s\<lparr>ds_fingerprint_window := w\<rparr>) = Inr ()"
  using assms by (auto simp: signals_validate_def rbind_Inr_conv)

lemma stay: "e\<lparr>de_report := (de_report e)\<lparr>dr_state := dr_state (de_report e)\<rparr>\<rparr> = e"
  by simp

lemma publish_unavailable_ok:
  assumes r: "resumable e" and seq: "de_transition_sequence e \<noteq> - 1" and code: "validate_error_code code = Inr ()"
    and resume: "reset \<or> dr_state (de_report e) = DsUnavailable \<or> dr_state (de_report e) = de_resume_state e"
  obtains e' where "publish_unavailable unix code reason reset e = (Inr (de_report e'), e')" "det_inv e'"
    "hysteresis e' = hysteresis e" "unat (de_transition_sequence e') \<le> unat (de_transition_sequence e) + 1"
    "dr_state (de_report e') = DsUnavailable"
proof -
  from window_unavailable_ok [OF code] obtain w where w: "window_unavailable code = Inr w" "window_validate w = Inr ()" by blast
  define p where "p = dr_state (de_report e)"
  define signals where "signals = (if reset then signals_warming else dr_signals (de_report e))\<lparr>ds_fingerprint_window := w\<rparr>"
  define a where "a = e\<lparr>de_report := (de_report e)\<lparr>dr_evaluated_at_unix_ms := unix, dr_last_error_code := Some code,
     dr_signals := signals, dr_candidate_streak := de_candidate_streak e, dr_clear_streak := de_clear_streak e\<rparr>\<rparr>"
  have signals: "signals_validate signals = Inr ()"
    using r w(2) by (simp add: signals_def resumable_def signals_validate_window warming_signals_validate)
  have keep: "(if p \<noteq> DsUnavailable \<and> \<not> reset then e\<lparr>de_resume_state := p\<rparr> else e) = e"
    using resume by (auto simp: p_def)
  have a: "de_transition_sequence a \<noteq> - 1" "ring_ok (de_transitions a) (de_transition_sequence a) p" "dr_state (de_report a) = p"
    using r seq by (simp_all add: a_def p_def resumable_def)
  from record_or_stay [OF a, of DsUnavailable reason unix] obtain s ts since where
    rec: "(if p \<noteq> DsUnavailable then record_transition p DsUnavailable reason unix a
       else (Inr (), a\<lparr>de_report := (de_report a)\<lparr>dr_state := DsUnavailable\<rparr>\<rparr>)) =
      (Inr (), a\<lparr>de_transition_sequence := s, de_transitions := ts,
         de_report := (de_report a)\<lparr>dr_state := DsUnavailable, dr_state_since_unix_ms := since\<rparr>\<rparr>)"
    and ring: "ring_ok ts s DsUnavailable" and s: "unat s \<le> unat (de_transition_sequence a) + 1" by metis
  define b where "b = a\<lparr>de_transition_sequence := s, de_transitions := ts,
         de_report := (de_report a)\<lparr>dr_state := DsUnavailable, dr_state_since_unix_ms := since\<rparr>\<rparr>"
  have rec': "(if p \<noteq> DsUnavailable then record_transition p DsUnavailable reason unix a else (Inr (), a)) = (Inr (), b)"
    using rec stay [of a] a(3) by (cases "p = DsUnavailable") (simp_all add: b_def)
  have sb: "settled b" using r ring signals code by (simp add: settled_def resumable_def b_def a_def)
  show thesis
  proof (rule that [of "synced b"])
    show "publish_unavailable unix code reason reset e = (Inr (de_report (synced b)), synced b)"
      unfolding publish_unavailable_def p_def [symmetric] Let_def keep w(1)
      using code rec' [unfolded a_def signals_def] publish_settled(1) [OF sb]
      by (cases reset; simp add: port_bind_def split del: if_split cong: if_cong)
    show "hysteresis (synced b) = hysteresis e" by (simp add: hysteresis_def b_def a_def)
    show "unat (de_transition_sequence (synced b)) \<le> unat (de_transition_sequence e) + 1" using s by (simp add: b_def a_def)
  qed (use publish_settled(2) [OF sb] in \<open>simp_all add: b_def\<close>)
qed


section \<open>The engine implements the hysteresis machine\<close>

lemma publish_unavailable_refused:
  "\<not> is_ok (validate_error_code code) \<Longrightarrow> publish_unavailable unix code reason reset e = (Inl EngInvalidErrorCode, e)"
  by (simp add: publish_unavailable_def)

lemma outage_step:
  fixes unix code reason e
  assumes "det_inv e" "de_transition_sequence e \<noteq> - 1"
  defines "e' \<equiv> snd (publish_unavailable unix code reason False e)"
  shows "det_inv e' \<and> hysteresis e' = hysteresis e \<and> unat (de_transition_sequence e') \<le> unat (de_transition_sequence e) + 1"
proof (cases "is_ok (validate_error_code code)")
  case True
  have "settled e" using assms(1) by (simp add: det_inv_def)
  then have "resumable e" "dr_state (de_report e) = DsUnavailable \<or> dr_state (de_report e) = de_resume_state e"
    by (auto simp: settled_resumable settled_def)
  with publish_unavailable_ok [of e code False unix reason] assms(2) True show ?thesis
    unfolding e'_def is_ok_conv by (metis snd_conv old.unit.exhaust)
next
  case False
  with assms(1) show ?thesis by (simp add: e'_def publish_unavailable_refused)
qed

lemma clear_step:
  fixes identity now unix code e
  assumes "det_inv e" "de_transition_sequence e \<noteq> - 1"
  defines "e' \<equiv> snd (detection_clear identity now unix code e)"
  shows "det_inv e' \<and> hysteresis e' = hyst_step (hysteresis e) (OpClear identity now unix code)
    \<and> unat (de_transition_sequence e') \<le> unat (de_transition_sequence e) + 1"
proof -
  consider (bad) "\<not> is_ok (validate_error_code code)"
    | (other) "is_ok (validate_error_code code)" "identity \<noteq> de_identity e"
    | (same) "validate_error_code code = Inr ()" "identity = de_identity e"
    by (cases "validate_error_code code") auto
  then show ?thesis
  proof cases
    case bad
    with assms(1) show ?thesis by (simp add: e'_def detection_clear_def hyst_step_def)
  next
    case other
    then show ?thesis
      by (simp add: e'_def detection_clear_def hyst_step_def Let_def det_inv_new) (simp add: detection_engine_new_def)
  next
    case same
    define c where "c = e\<lparr>de_last_trustworthy_monotonic_ns := now, de_resume_state := DsWarmingUp, de_last_candidate := CandNone,
                de_candidate_streak := 0, de_clear_streak := 0, de_cooldown_started_at_monotonic_ns := None,
                de_last_anomalous_state := None, de_report := (de_report e)\<lparr>dr_last_trustworthy_at_unix_ms := None\<rparr>\<rparr>"
    have "resumable c" "de_transition_sequence c \<noteq> - 1"
      using assms by (auto simp: c_def det_inv_def settled_def resumable_def is_anomalous_def)
    from publish_unavailable_ok [OF this same(1), of True unix IntegrityFailure] obtain e2 where
      "publish_unavailable unix code IntegrityFailure True c = (Inr (de_report e2), e2)" "det_inv e2"
      "hysteresis e2 = hysteresis c" "unat (de_transition_sequence e2) \<le> unat (de_transition_sequence c) + 1" by metis
    moreover have "hysteresis c = hysteresis (detection_engine_new identity now unix)"
      using same by (simp add: c_def hysteresis_def detection_engine_new_def report_warming_def)
    moreover have "de_transition_sequence c = de_transition_sequence e" by (simp add: c_def)
    ultimately show ?thesis
      using same by (simp add: e'_def detection_clear_def hyst_step_def c_def [symmetric])
  qed
qed

lemma det_step_ok:
  assumes "det_inv e" "de_transition_sequence e \<noteq> - 1"
  shows "det_inv (det_step e op) \<and> hysteresis (det_step e op) = hyst_step (hysteresis e) op
    \<and> unat (de_transition_sequence (det_step e op)) \<le> unat (de_transition_sequence e) + 1"
proof (cases op)
  case (OpEvaluate now unix signals)
  have same: "hyst_accepts now unix signals (hysteresis e) = accepts now unix signals e"
    by (simp add: hyst_accepts_def accepts_def hysteresis_def)
  show ?thesis
  proof (cases "accepts now unix signals e")
    case True
    from evaluate_accepted [OF assms True] obtain e' where "evaluate now unix signals e = (Inr (de_report e'), e')"
      "det_inv e'" "hysteresis e' = hyst_observe now unix signals (hysteresis e)"
      "unat (de_transition_sequence e') \<le> unat (de_transition_sequence e) + 1" by metis
    then show ?thesis by (simp add: OpEvaluate det_step_def hyst_step_def same True)
  next
    case False
    with assms(1) show ?thesis by (simp add: OpEvaluate det_step_def hyst_step_def same evaluate_refused)
  qed
next
  case (OpUnavailable unix code)
  with outage_step [OF assms, of unix code EvidenceUnavailable] show ?thesis
    by (simp add: det_step_def hyst_step_def detection_unavailable_def)
next
  case (OpPause unix)
  with outage_step [OF assms, of unix "''SAMPLER_PAUSED''" SamplerPaused] show ?thesis
    by (simp add: det_step_def hyst_step_def detection_pause_def)
next
  case (OpClear identity now unix code)
  with clear_step [OF assms, of identity now unix code] show ?thesis by (simp add: det_step_def)
qed

text \<open>A run of the engine: fewer than \<open>2 ^ 64 - 1\<close> operations cannot exhaust the transition numbers.\<close>

abbreviation det_run :: "DetectionEngine \<Rightarrow> DetectionOp list \<Rightarrow> DetectionEngine" where
  "det_run \<equiv> foldl det_step"

abbreviation hyst_run :: "Hysteresis \<Rightarrow> DetectionOp list \<Rightarrow> Hysteresis" where
  "hyst_run \<equiv> foldl hyst_step"

lemma det_run_ok:
  assumes "det_inv e" "unat (de_transition_sequence e) + length ops < 2 ^ 64 - 1"
  shows "det_inv (det_run e ops) \<and> hysteresis (det_run e ops) = hyst_run (hysteresis e) ops
    \<and> unat (de_transition_sequence (det_run e ops)) \<le> unat (de_transition_sequence e) + length ops"
  using assms
proof (induction ops arbitrary: e)
  case (Cons op ops)
  have "de_transition_sequence e \<noteq> - 1" using Cons.prems(2) unat_u64_max by auto
  from det_step_ok [OF Cons.prems(1) this, of op] Cons.prems(2)
  have "det_inv (det_step e op)" "hysteresis (det_step e op) = hyst_step (hysteresis e) op"
    "unat (de_transition_sequence (det_step e op)) + length ops < 2 ^ 64 - 1"
    "unat (de_transition_sequence (det_step e op)) \<le> unat (de_transition_sequence e) + 1" by auto
  with Cons.IH [of "det_step e op"] show ?case by simp
qed simp

section \<open>What the hysteresis machine guarantees\<close>

text \<open>The candidates of the accepted evaluations since the last reset, newest first.\<close>

definition track :: "Hysteresis \<times> StormCandidate list \<Rightarrow> DetectionOp \<Rightarrow> Hysteresis \<times> StormCandidate list" where
  "track hc op =
     (hyst_step (fst hc) op,
      case op of
        OpEvaluate now unix signals \<Rightarrow> if hyst_accepts now unix signals (fst hc) then ds_candidate signals # snd hc else snd hc
      | OpClear identity now unix code \<Rightarrow> if is_ok (validate_error_code code) then [] else snd hc
      | _ \<Rightarrow> snd hc)"

definition candidates :: "DetectionEngine \<Rightarrow> DetectionOp list \<Rightarrow> StormCandidate list" where
  "candidates e ops = snd (foldl track (hysteresis e, []) ops)"

fun run_length :: "StormCandidate list \<Rightarrow> nat" where
  "run_length [] = 0"
| "run_length (c # cs) = (if c = CandNone then 0 else Suc (length (takeWhile (\<lambda>d. d = c) cs)))"

definition streak_inv :: "Hysteresis \<times> StormCandidate list \<Rightarrow> bool" where
  "streak_inv hc \<longleftrightarrow>
     hy_candidate (fst hc) = (case snd hc of [] \<Rightarrow> CandNone | c # _ \<Rightarrow> c)
     \<and> unat (hy_streak (fst hc)) = min (run_length (snd hc)) 3"

lemma observe_fields:
  "hy_candidate (hyst_observe now unix signals h) = ds_candidate signals"
  "hy_streak (hyst_observe now unix signals h) = next_streak (ds_candidate signals) (hy_candidate h) (hy_streak h)"
  "hy_trusted_ns (hyst_observe now unix signals h) = now"
  "hy_trusted_ms (hyst_observe now unix signals h) = Some unix"
  by (simp_all add: hyst_observe_def Let_def split: prod.splits)

lemma streak_next:
  assumes "streak_inv (h, cs)"
  shows "unat (next_streak c (hy_candidate h) (hy_streak h)) = min (run_length (c # cs)) 3"
proof (cases cs)
  case Nil
  with assms show ?thesis by (auto simp: streak_inv_def next_streak_def)
next
  case (Cons d ds)
  with assms show ?thesis by (auto simp: streak_inv_def next_streak_def candidate_tick)
qed

interpretation tracker: machine track streak_inv
proof
  fix hc op
  assume inv: "streak_inv hc"
  obtain h cs where hc: "hc = (h, cs)" by fastforce
  show "streak_inv (track hc op)"
  proof (cases op)
    case (OpEvaluate now unix signals)
    with inv show ?thesis
      using streak_next [of h cs "ds_candidate signals"]
      by (simp add: hc track_def hyst_step_def streak_inv_def observe_fields del: run_length.simps)
  next
    case (OpClear identity now unix code)
    with inv show ?thesis
      by (simp add: hc track_def hyst_step_def streak_inv_def hysteresis_def detection_engine_new_def)
  qed (use inv in \<open>simp_all add: hc track_def hyst_step_def\<close>)
qed

lemma track_run: "fst (foldl track (h, cs) ops) = hyst_run h ops"
  by (induction ops arbitrary: h cs) (simp_all add: track_def)

lemma candidates_streak:
  assumes "hysteresis e = hysteresis (detection_engine_new i n u)"
  shows "streak_inv (hyst_run (hysteresis e) ops, candidates e ops)"
proof -
  have "streak_inv (hysteresis e, [])"
    using assms by (simp add: streak_inv_def hysteresis_def detection_engine_new_def)
  then have "streak_inv (foldl track (hysteresis e, []) ops)" by (rule tracker.run_inv)
  moreover have "foldl track (hysteresis e, []) ops = (hyst_run (hysteresis e) ops, candidates e ops)"
    by (metis candidates_def prod.collapse track_run)
  ultimately show ?thesis by simp
qed

lemma rank_zero: "\<not> is_anomalous s \<longleftrightarrow> anomaly_rank s = 0"
  by (cases s) (auto simp: is_anomalous_def)

text \<open>A decision raises the rank only on three equal candidates, on relationship evidence, or when the old alarm runs out.\<close>

lemma decision_raises:
  assumes "decision now signals current streak clear started = (nxt, reason, clear', started')"
    and "anomaly_rank current < anomaly_rank nxt"
  shows "clear' = 0" "ds_candidate signals \<noteq> CandNone"
    "3 \<le> streak \<or> is_relationship_state nxt \<and> state_supports_relationship current
     \<or> is_anomalous current \<and> 10 \<le> min (saturating_add clear 1) 10"
proof -
  have low: "anomaly_rank DsCooldown = 0" "anomaly_rank DsNormal = 0" by simp_all
  have "clear' = 0 \<and> ds_candidate signals \<noteq> CandNone \<and> (3 \<le> streak \<or> is_relationship_state nxt \<and> state_supports_relationship current
     \<or> is_anomalous current \<and> 10 \<le> min (saturating_add clear 1) 10)"
  proof (cases "strongest_anomaly (candidate_state (ds_candidate signals)) signals")
    case None
    with assms low show ?thesis by (auto simp: decision_def Let_def split: if_splits)
  next
    case (Some d)
    moreover from this have "ds_candidate signals \<noteq> CandNone" using strongest_anomaly_None [of signals] by auto
    ultimately show ?thesis using assms by (auto simp: decision_def Let_def split: if_splits)
  qed
  then show "clear' = 0" "ds_candidate signals \<noteq> CandNone"
    "3 \<le> streak \<or> is_relationship_state nxt \<and> state_supports_relationship current
     \<or> is_anomalous current \<and> 10 \<le> min (saturating_add clear 1) 10" by blast+
qed

lemma run_three:
  assumes "3 \<le> run_length (c # cs)"
  shows "take 2 cs = [c, c]"
proof -
  let ?w = "takeWhile (\<lambda>d. d = c) cs"
  have w: "2 \<le> length ?w" using assms by (auto split: if_splits)
  then have "take 2 cs = take 2 ?w" by (metis le_Suc_ex takeWhile_eq_take take_take min.absorb1)
  moreover from w obtain a b rest where "?w = a # b # rest" by (cases ?w; cases "tl ?w") auto
  moreover from this have "a = c" "b = c" by (metis list.set_intros set_takeWhileD)+
  ultimately show ?thesis by (simp add: numeral_2_eq_2)
qed

text \<open>One accepted evaluation of a held alarm: it stays, or rises, or the clear streak grows by one.\<close>

lemma decision_holds:
  assumes "decision now signals current streak clear started = (nxt, reason, clear', started')"
    and "is_anomalous current" "unat clear < 9"
  shows "is_anomalous nxt \<and> anomaly_rank current \<le> anomaly_rank nxt \<and> unat clear' \<le> unat clear + 1"
proof -
  have tick: "\<not> 10 \<le> min (saturating_add clear 1) 10" "unat (min (saturating_add clear 1) 10) = unat clear + 1"
    using assms(3) clear_tick [of clear] by (auto simp: word_le_nat_alt)
  show ?thesis
  proof (cases "strongest_anomaly (candidate_state (ds_candidate signals)) signals")
    case None
    with assms tick show ?thesis by (auto simp: decision_def Let_def)
  next
    case (Some d)
    moreover from this have "is_anomalous d" by (rule strongest_anomaly_anomalous)
    ultimately show ?thesis using assms tick by (auto simp: decision_def Let_def split: if_splits)
  qed
qed

definition is_evaluation :: "DetectionOp \<Rightarrow> bool" where
  "is_evaluation op \<longleftrightarrow> (case op of OpEvaluate _ _ _ \<Rightarrow> True | _ \<Rightarrow> False)"

definition is_reset :: "DetectionOp \<Rightarrow> bool" where
  "is_reset op \<longleftrightarrow> (case op of OpClear _ _ _ _ \<Rightarrow> True | _ \<Rightarrow> False)"

lemma hyst_holds:
  assumes "is_anomalous (hy_state h)" "unat (hy_clear h) + length (filter is_evaluation ops) < 10" "\<not> list_ex is_reset ops"
  shows "is_anomalous (hy_state (hyst_run h ops)) \<and> anomaly_rank (hy_state h) \<le> anomaly_rank (hy_state (hyst_run h ops))"
  using assms
proof (induction ops arbitrary: h)
  case (Cons op ops)
  show ?case
  proof (cases op)
    case (OpEvaluate now unix signals)
    show ?thesis
    proof (cases "hyst_accepts now unix signals h")
      case True
      let ?h = "hyst_observe now unix signals h"
      have "is_anomalous (hy_state ?h) \<and> anomaly_rank (hy_state h) \<le> anomaly_rank (hy_state ?h) \<and> unat (hy_clear ?h) \<le> unat (hy_clear h) + 1"
        using Cons.prems decision_holds [of now signals "hy_state h" _ "hy_clear h" "hy_started h"]
        by (simp add: hyst_observe_def Let_def OpEvaluate is_evaluation_def split: prod.splits)
      with Cons.IH [of ?h] Cons.prems True show ?thesis
        by (auto simp: OpEvaluate hyst_step_def is_evaluation_def)
    next
      case False
      with Cons.IH [of h] Cons.prems show ?thesis by (simp add: OpEvaluate hyst_step_def is_evaluation_def)
    qed
  qed (use Cons.IH [of h] Cons.prems in \<open>simp_all add: hyst_step_def is_evaluation_def is_reset_def\<close>)
qed simp


text \<open>Evaluations on advancing clocks, and quiet ones.\<close>

type_synonym observation = "u64 \<times> u64 \<times> DetectionSignals"

fun advancing :: "u64 \<Rightarrow> u64 option \<Rightarrow> observation list \<Rightarrow> bool" where
  "advancing ns ms [] \<longleftrightarrow> True"
| "advancing ns ms ((now, unix, signals) # os) \<longleftrightarrow>
     ns < now \<and> \<not> is_some_and ms (\<lambda>previous. unix < previous) \<and> advancing now (Some unix) os"

fun quiet :: "observation \<Rightarrow> bool" where
  "quiet (now, unix, signals) \<longleftrightarrow> signals_validate signals = Inr () \<and> ds_candidate signals = CandNone"

fun evaluation :: "observation \<Rightarrow> DetectionOp" where
  "evaluation (now, unix, signals) = OpEvaluate now unix signals"

lemma quiet_tick:
  assumes "quiet (now, unix, signals)" "is_anomalous (hy_state h)" "unat (hy_clear h) < 10"
  defines "h' \<equiv> hyst_observe now unix signals h"
  shows "if unat (hy_clear h) = 9 then hy_state h' = DsCooldown \<and> hy_started h' = Some now
         else hy_state h' = hy_state h \<and> unat (hy_clear h') = unat (hy_clear h) + 1"
proof -
  have none: "strongest_anomaly (candidate_state (ds_candidate signals)) signals = None"
    using assms(1) unfolding strongest_anomaly_None by simp
  have "10 \<le> min (saturating_add (hy_clear h) 1) 10 \<longleftrightarrow> unat (hy_clear h) = 9"
    using assms(3) clear_tick [of "hy_clear h"] by (auto simp: word_le_nat_alt)
  with none assms(2,3) show ?thesis
    using clear_tick [of "hy_clear h"] by (auto simp: h'_def hyst_observe_def decision_def Let_def)
qed

text \<open>Ten quiet evaluations, less those already counted, lead into the cooldown.\<close>

lemma quiet_cools:
  assumes "list_all quiet os" "advancing (hy_trusted_ns h) (hy_trusted_ms h) os"
    and "is_anomalous (hy_state h)" "unat (hy_clear h) + length os = 10" "os \<noteq> []"
  defines "h' \<equiv> hyst_run h (map evaluation os)"
  shows "hy_state h' = DsCooldown \<and> hy_started h' = Some (fst (last os)) \<and> hy_trusted_ns h' = fst (last os)
    \<and> hy_trusted_ms h' = Some (fst (snd (last os)))"
  using assms(1-5) unfolding h'_def
proof (induction os arbitrary: h)
  case (Cons q os)
  obtain now unix signals where q: "q = (now, unix, signals)" by (cases q)
  let ?h = "hyst_observe now unix signals h"
  have acc: "hyst_accepts now unix signals h" using Cons.prems by (simp add: q hyst_accepts_def)
  have tick: "if unat (hy_clear h) = 9 then hy_state ?h = DsCooldown \<and> hy_started ?h = Some now
         else hy_state ?h = hy_state h \<and> unat (hy_clear ?h) = unat (hy_clear h) + 1"
    by (rule quiet_tick) (use Cons.prems in \<open>auto simp: q\<close>)
  have run: "hyst_run h (map evaluation (q # os)) = hyst_run ?h (map evaluation os)"
    using acc by (simp add: q hyst_step_def)
  show ?case
  proof (cases "os = []")
    case True
    with Cons.prems tick show ?thesis unfolding run by (simp add: q observe_fields)
  next
    case False
    then have "length os \<noteq> 0" by simp
    with tick Cons.prems(3,4) have "hy_state ?h = hy_state h" "unat (hy_clear ?h) + length os = 10" by (auto split: if_splits)
    moreover have "advancing (hy_trusted_ns ?h) (hy_trusted_ms ?h) os" "list_all quiet os"
      using Cons.prems by (simp_all add: q observe_fields)
    ultimately show ?thesis using Cons.IH [of ?h] Cons.prems(3) False unfolding run by simp
  qed
qed simp

lemma cooldown_completes:
  assumes "quiet (now, unix, signals)" "hy_state h = DsCooldown" "hy_started h = Some t"
    and "30000000000 \<le> unat now - unat t"
  shows "hy_state (hyst_observe now unix signals h) = DsNormal"
proof -
  have "strongest_anomaly (candidate_state (ds_candidate signals)) signals = None"
    using assms(1) unfolding strongest_anomaly_None by simp
  with assms(2-) show ?thesis
    by (simp add: hyst_observe_def decision_def Let_def cooled_def is_anomalous_def)
qed

lemma last_evaluation_published:
  assumes "det_inv e" "unat (de_transition_sequence e) + length ops < 2 ^ 64 - 2"
    and "hyst_accepts now unix signals (hyst_run (hysteresis e) ops)"
  defines "e' \<equiv> det_run e (ops @ [OpEvaluate now unix signals])"
  shows "dr_state (de_report e') = hy_state (hyst_observe now unix signals (hyst_run (hysteresis e) ops))"
proof -
  let ?e = "det_run e ops"
  have run: "det_inv ?e" "hysteresis ?e = hyst_run (hysteresis e) ops" "de_transition_sequence ?e \<noteq> - 1"
    using det_run_ok [OF assms(1), of ops] assms(2) unat_u64_max by auto
  moreover have "accepts now unix signals ?e"
    using assms(3) run(2) [symmetric] by (simp add: hyst_accepts_def accepts_def hysteresis_def)
  ultimately obtain f where "evaluate now unix signals ?e = (Inr (de_report f), f)"
    "hysteresis f = hyst_observe now unix signals (hysteresis ?e)" "dr_state (de_report f) = de_resume_state f"
    using evaluate_accepted by metis
  then show ?thesis using run(2) by (simp add: e'_def det_step_def hysteresis_def) (metis Hysteresis.select_convs(4))
qed

section \<open>Properties\<close>

definition is_outage :: "DetectionOp \<Rightarrow> bool" where
  "is_outage op \<longleftrightarrow> (case op of OpUnavailable _ _ \<Rightarrow> True | OpPause _ \<Rightarrow> True | _ \<Rightarrow> False)"

lemma hyst_step_accepted [simp]:
  "hyst_accepts now unix signals h \<Longrightarrow> hyst_step h (OpEvaluate now unix signals) = hyst_observe now unix signals h"
  by (simp add: hyst_step_def)

lemma hyst_skips_outages: "hyst_run h ops = hyst_run h (filter (\<lambda>op. \<not> is_outage op) ops)"
  by (induction ops arbitrary: h) (auto simp: is_outage_def hyst_step_def split: DetectionOp.splits)

lemma reachable_run:
  fixes i n u ops
  assumes "length ops < 2 ^ 64 - 1"
  defines "e \<equiv> det_run (detection_engine_new i n u) ops"
  shows "det_inv e" "hysteresis e = hyst_run (hysteresis (detection_engine_new i n u)) ops"
    "de_transition_sequence e \<noteq> - 1"
  using det_run_ok [OF det_inv_new, of i n u ops] assms unat_u64_max
  by (auto simp: e_def detection_engine_new_def)

text \<open>An ingress storm on advancing clocks, as a concrete run.\<close>

abbreviation storm_signals :: DetectionSignals where
  "storm_signals \<equiv> signals_warming\<lparr>ds_candidate := CandIngress\<rparr>"

abbreviation calm :: "u64 \<Rightarrow> observation" where
  "calm now \<equiv> (now, 20, signals_warming)"

abbreviation an_identity :: RateIdentity where
  "an_identity \<equiv> \<lparr>ri_ifindex = 7, ri_generation = 1\<rparr>"

abbreviation storm_ops :: "DetectionOp list" where
  "storm_ops \<equiv> [OpEvaluate 6 10 storm_signals, OpEvaluate 7 11 storm_signals]"

lemma storm_signals_valid: "signals_validate storm_signals = Inr ()"
  using warming_signals_validate by (simp add: signals_validate_def rbind_Inr_conv signals_warming_def)

lemma storm_decision:
  "decision now storm_signals DsWarmingUp streak clear started =
     (if 3 \<le> streak then (DsIngressStorm, Some StormAsserted, 0, started) else (DsWarmingUp, None, clear, started))"
  by (simp add: decision_def strongest_anomaly_def is_anomalous_def Let_def) (simp add: signals_warming_def strongest_anomaly_def)

abbreviation storm_at :: "u64 \<Rightarrow> u64 option \<Rightarrow> DetectionState \<Rightarrow> StormCandidate \<Rightarrow> u8 \<Rightarrow> DetectionState option \<Rightarrow> Hysteresis" where
  "storm_at now unix state candidate streak alarm \<equiv>
    \<lparr>hy_identity = an_identity, hy_trusted_ns = now, hy_trusted_ms = unix, hy_state = state, hy_candidate = candidate,
     hy_streak = streak, hy_clear = 0, hy_started = None, hy_alarm = alarm\<rparr>"

lemma storm_start: "hysteresis (detection_engine_new an_identity 5 9) = storm_at 5 None DsWarmingUp CandNone 0 None"
  by (simp add: hysteresis_def detection_engine_new_def report_warming_def)

lemma storm_tick:
  assumes "ns < now" "\<not> is_some_and ms (\<lambda>previous. unix < previous)" "s = next_streak CandIngress c streak"
  shows "hyst_step (storm_at ns ms DsWarmingUp c streak None) (OpEvaluate now unix storm_signals) =
    (if 3 \<le> s then storm_at now (Some unix) DsIngressStorm CandIngress s (Some DsIngressStorm)
     else storm_at now (Some unix) DsWarmingUp CandIngress s None)"
  using assms storm_signals_valid
  by (simp add: hyst_step_def hyst_accepts_def hyst_observe_def storm_decision Let_def is_anomalous_def)

lemma storm_streaks: "next_streak CandIngress CandNone 0 = 1" "next_streak CandIngress CandIngress 1 = 2" "next_streak CandIngress CandIngress 2 = 3"
  by (simp_all add: next_streak_def saturating_add_def min_def)

lemma storm_run:
  "hyst_run (hysteresis (detection_engine_new an_identity 5 9)) storm_ops = storm_at 7 (Some 11) DsWarmingUp CandIngress 2 None"
  "hyst_run (hysteresis (detection_engine_new an_identity 5 9)) (storm_ops @ [OpEvaluate 8 12 storm_signals]) =
   storm_at 8 (Some 12) DsIngressStorm CandIngress 3 (Some DsIngressStorm)"
  unfolding storm_start by (simp_all add: storm_tick [OF _ _ refl] storm_streaks word_le_nat_alt)

text \<open>The engine after the two, and after the three, evaluations of the storm.\<close>

lemma storm_engine:
  "hysteresis (det_run (detection_engine_new an_identity 5 9) storm_ops) = storm_at 7 (Some 11) DsWarmingUp CandIngress 2 None"
  "hysteresis (det_run (detection_engine_new an_identity 5 9) (storm_ops @ [OpEvaluate 8 12 storm_signals])) =
   storm_at 8 (Some 12) DsIngressStorm CandIngress 3 (Some DsIngressStorm)"
  using reachable_run(2) [of storm_ops] reachable_run(2) [of "storm_ops @ [OpEvaluate 8 12 storm_signals]"] storm_run
  by simp_all

lemma hysteresis_eq:
  assumes "hysteresis e = storm_at now unix state candidate streak alarm"
  shows "de_resume_state e = state" "de_clear_streak e = 0" "de_last_trustworthy_monotonic_ns e = now"
    "dr_last_trustworthy_at_unix_ms (de_report e) = unix"
  using assms by (simp_all add: hysteresis_def)

text \<open>
  After any sequence of evaluations, outages, pauses and resets of a new engine (fewer than
  \<open>2 ^ 64 - 1\<close> of them), the cached report and its summary satisfy their own validation, and the ring
  holds at most sixteen transitions, numbered without a gap up to the current number, each starting in
  the state the one before it ended in, the last one ending in the published state.
\<close>

theorem detection_reports_validate:
  fixes identity ns ms ops
  assumes "length ops < 2 ^ 64 - 1"
  defines "e \<equiv> det_run (detection_engine_new identity ns ms) ops"
  shows "detection_report_validate (de_report e) = Inr ()
    \<and> detection_summary_validate (detection_summary_from (de_report e)) = Inr ()
    \<and> ring_ok (dr_transitions (de_report e)) (dr_transition_sequence (de_report e)) (dr_state (de_report e))"
proof -
  have inv: "settled e" "synced e = e" using reachable_run(1) [OF assms(1)] by (simp_all add: e_def det_inv_def)
  have valid: "detection_report_validate (de_report e) = Inr ()" using settled_validates [OF inv(1)] inv(2) by simp
  moreover from valid have "detection_summary_validate (detection_summary_from (de_report e)) = Inr ()"
    by (auto simp: detection_report_validate_def detection_summary_validate_def detection_summary_from_def
        validate_report_code_def rbind_Inr_conv split: if_splits option.splits)
  moreover have "ring_ok (dr_transitions (de_report e)) (dr_transition_sequence (de_report e)) (dr_state (de_report e))"
    using inv synced_fields(18,19) [of e] by (simp add: settled_def)
  ultimately show ?thesis by blast
qed

theorem detection_reports_validate_witness:
  "detection_report_validate (de_report (det_run (detection_engine_new \<lparr>ri_ifindex = 7, ri_generation = 1\<rparr> 5 9) [OpPause 10])) = Inr ()"
  using detection_reports_validate [where ops = "[OpPause 10]" and ns = 5 and ms = 9 and identity = "\<lparr>ri_ifindex = 7, ri_generation = 1\<rparr>"] by simp

text \<open>
  \<^bold>\<open>C10.\<close> The engine implements the hysteresis machine, to which outages and pauses are invisible: after
  any run, everything that decides (state to resume, streaks, cooldown, retained alarm, clocks) is what
  the abstract machine holds after the same run with the outages and pauses removed; the published state
  is that state, or unavailable.
\<close>

theorem outages_are_transparent:
  fixes identity ns ms ops
  assumes "length ops < 2 ^ 64 - 1"
  defines "e \<equiv> det_run (detection_engine_new identity ns ms) ops"
  shows "hysteresis e = hyst_run (hysteresis (detection_engine_new identity ns ms)) (filter (\<lambda>op. \<not> is_outage op) ops)
    \<and> dr_state (de_report e) \<in> {DsUnavailable, hy_state (hysteresis e)}"
proof -
  have "hysteresis e = hyst_run (hysteresis (detection_engine_new identity ns ms)) (filter (\<lambda>op. \<not> is_outage op) ops)"
    using reachable_run(2) [OF assms(1)] by (simp add: e_def hyst_skips_outages [symmetric])
  moreover have "dr_state (de_report e) = DsUnavailable \<or> dr_state (de_report e) = de_resume_state e"
    using reachable_run(1) [OF assms(1)] by (simp add: e_def det_inv_def settled_def)
  moreover have "hy_state (hysteresis e) = de_resume_state e" by (simp add: hysteresis_def)
  ultimately show ?thesis by simp
qed

theorem outages_are_transparent_witness:
  "hysteresis (det_run (detection_engine_new \<lparr>ri_ifindex = 7, ri_generation = 1\<rparr> 5 9) [OpPause 10]) = hysteresis (detection_engine_new \<lparr>ri_ifindex = 7, ri_generation = 1\<rparr> 5 9)"
  using outages_are_transparent [where ops = "[OpPause 10]" and ns = 5 and ms = 9 and identity = "\<lparr>ri_ifindex = 7, ri_generation = 1\<rparr>"] by (simp add: is_outage_def)

text \<open>
  What an evaluation returns, at every reachable engine: it refuses exactly invalid signals and
  regressing clocks, and then changes nothing; otherwise it succeeds, publishes a valid report of these
  signals, and is the abstract machine's step.
\<close>

theorem evaluate_outcomes:
  fixes identity ns ms ops
  assumes "length ops < 2 ^ 64 - 1"
  defines "e \<equiv> det_run (detection_engine_new identity ns ms) ops"
  shows "case evaluate now unix signals e of
      (Inl err, e') \<Rightarrow> e' = e \<and> \<not> accepts now unix signals e
        \<and> err = (if is_ok (signals_validate signals) then EngClockRegression else EngInvalidSignals)
    | (Inr report, e') \<Rightarrow> accepts now unix signals e \<and> report = de_report e' \<and> dr_signals report = signals
        \<and> detection_report_validate report = Inr () \<and> dr_state report = de_resume_state e'
        \<and> hysteresis e' = hyst_observe now unix signals (hysteresis e)"
proof (cases "accepts now unix signals e")
  case True
  have r: "det_inv e" "de_transition_sequence e \<noteq> - 1" using reachable_run [OF assms(1)] by (simp_all add: e_def)
  from evaluate_accepted [OF r True] obtain f where "evaluate now unix signals e = (Inr (de_report f), f)" "det_inv f"
    "hysteresis f = hyst_observe now unix signals (hysteresis e)" "dr_state (de_report f) = de_resume_state f"
    "dr_signals (de_report f) = signals" by metis
  with True settled_validates [of f] show ?thesis by (simp add: det_inv_def)
qed (simp add: evaluate_refused)

theorem evaluate_outcomes_witness:
  "fst (evaluate 6 10 signals_warming (det_run (detection_engine_new \<lparr>ri_ifindex = 7, ri_generation = 1\<rparr> 5 9) []))
   = Inr (de_report (snd (evaluate 6 10 signals_warming (det_run (detection_engine_new \<lparr>ri_ifindex = 7, ri_generation = 1\<rparr> 5 9) []))))"
proof -
  have "accepts 6 10 signals_warming (detection_engine_new \<lparr>ri_ifindex = 7, ri_generation = 1\<rparr> 5 9)"
    by (simp add: accepts_def warming_signals_validate detection_engine_new_def report_warming_def)
  then show ?thesis
    using evaluate_outcomes [where ops = "[]" and now = 6 and unix = 10 and signals = signals_warming and ns = 5 and ms = 9 and identity = "\<lparr>ri_ifindex = 7, ri_generation = 1\<rparr>"]
    by (auto split: prod.splits sum.splits)
qed

text \<open>
  \<^bold>\<open>C7.\<close> No alarm out of a single spike: when an evaluation raises the severity of the published alarm,
  a storm candidate is present, the clear streak starts again from zero, and either this and the two
  accepted evaluations before it all had the same candidate, or relationship evidence upgrades an alarm
  that already supports it, or an alarm that was already published ran out of its ten ticks and is
  replaced.
\<close>

theorem alarms_need_three_ticks:
  fixes identity ns ms ops
  assumes "length ops < 2 ^ 64 - 1"
  defines "e \<equiv> det_run (detection_engine_new identity ns ms) ops"
  assumes "evaluate now unix signals e = (Inr report, e')"
    and "anomaly_rank (de_resume_state e) < anomaly_rank (dr_state report)"
  shows "ds_candidate signals \<in> {CandIngress, CandEgress, CandBidirectional} \<and> de_clear_streak e' = 0
    \<and> (take 2 (candidates (detection_engine_new identity ns ms) ops) = [ds_candidate signals, ds_candidate signals]
       \<or> is_relationship_state (dr_state report) \<and> state_supports_relationship (de_resume_state e)
       \<or> is_anomalous (de_resume_state e) \<and> de_clear_streak e = 9)"
proof -
  let ?new = "detection_engine_new identity ns ms"
  have r: "det_inv e" "hysteresis e = hyst_run (hysteresis ?new) ops" "de_transition_sequence e \<noteq> - 1"
    using reachable_run [OF assms(1)] by (simp_all add: e_def)
  have acc: "accepts now unix signals e" using assms(3) evaluate_refused by fastforce
  from evaluate_accepted [OF r(1,3) acc] assms(3) have f: "report = de_report e'"
    "hysteresis e' = hyst_observe now unix signals (hysteresis e)" "dr_state report = de_resume_state e'" by (metis Pair_inject sum.inject(2))+
  obtain nxt reason clear started where dec: "decision now signals (de_resume_state e)
      (next_streak (ds_candidate signals) (de_last_candidate e) (de_candidate_streak e)) (de_clear_streak e)
      (de_cooldown_started_at_monotonic_ns e) = (nxt, reason, clear, started)"
    using prod_cases4 by blast
  have e': "de_resume_state e' = nxt" "de_clear_streak e' = clear"
    using f(2) dec by (simp_all add: hysteresis_def hyst_observe_def)
  have rank: "anomaly_rank (de_resume_state e) < anomaly_rank nxt" using assms(4) f(3) e' by simp
  note raised = decision_raises [OF dec rank]
  have cand: "ds_candidate signals \<in> {CandIngress, CandEgress, CandBidirectional}" using raised(2) by (cases "ds_candidate signals") auto
  have "streak_inv (hysteresis e, candidates ?new ops)" using candidates_streak [of ?new _ _ _ ops] r(2) by auto
  from streak_next [OF this, of "ds_candidate signals"] have three:
    "take 2 (candidates ?new ops) = [ds_candidate signals, ds_candidate signals]"
    if "3 \<le> next_streak (ds_candidate signals) (de_last_candidate e) (de_candidate_streak e)"
    using that by (intro run_three) (auto simp: hysteresis_def word_le_nat_alt simp del: run_length.simps)
  have nine: "de_clear_streak e = 9" if "is_anomalous (de_resume_state e)" "10 \<le> min (saturating_add (de_clear_streak e) 1) 10"
  proof -
    have "unat (de_clear_streak e) < 10" using that(1) r(1) by (simp add: det_inv_def settled_def word_less_nat_alt)
    with that(2) clear_tick [of "de_clear_streak e"] have "unat (de_clear_streak e) = unat (9 :: u8)"
      by (simp add: word_le_nat_alt)
    then show ?thesis by (simp only: word_unat_eq_iff)
  qed
  show ?thesis using raised(1,3) cand three nine e' f(3) by auto
qed

theorem alarms_need_three_ticks_witness:
  "\<exists>report e'. evaluate 8 12 storm_signals (det_run (detection_engine_new an_identity 5 9) storm_ops) = (Inr report, e')
     \<and> dr_state report = DsIngressStorm \<and> de_clear_streak e' = 0
     \<and> take 2 (candidates (detection_engine_new an_identity 5 9) storm_ops) = [CandIngress, CandIngress]"
proof -
  let ?e = "det_run (detection_engine_new an_identity 5 9) storm_ops"
  note at = hysteresis_eq [OF storm_engine(1)]
  have acc: "accepts 8 12 storm_signals ?e" using storm_signals_valid at by (simp add: accepts_def)
  have r: "det_inv ?e" "de_transition_sequence ?e \<noteq> - 1" using reachable_run(1,3) [of storm_ops] by simp_all
  from evaluate_accepted [OF r acc] obtain f where f: "evaluate 8 12 storm_signals ?e = (Inr (de_report f), f)"
    "hysteresis f = hyst_observe 8 12 storm_signals (hysteresis ?e)" "dr_state (de_report f) = de_resume_state f"
    by metis
  have "hysteresis f = storm_at 8 (Some 12) DsIngressStorm CandIngress 3 (Some DsIngressStorm)"
    unfolding f(2) storm_engine(1)
    by (simp add: hyst_observe_def storm_decision storm_streaks is_anomalous_def)
  note state = hysteresis_eq(1) [OF this]
  show ?thesis
    using alarms_need_three_ticks [where ops = storm_ops, OF _ f(1)] f(1,3) at(1) state
    by (auto simp: is_anomalous_def state_supports_relationship_def)
qed

text \<open>
  \<^bold>\<open>C8.\<close> A published alarm is held: whatever is evaluated and however often evidence is unavailable or
  sampling pauses, without a reset the alarm stays, at its severity or a higher one, as long as fewer
  evaluations follow than its clear streak is short of ten.
\<close>

theorem alarms_are_held:
  fixes identity ns ms ops
  assumes "length ops + length later < 2 ^ 64 - 1"
  defines "e \<equiv> det_run (detection_engine_new identity ns ms) ops"
  assumes "is_anomalous (de_resume_state e)" "unat (de_clear_streak e) + length (filter is_evaluation later) < 10"
    and "\<not> list_ex is_reset later"
  shows "is_anomalous (de_resume_state (det_run e later))
    \<and> anomaly_rank (de_resume_state e) \<le> anomaly_rank (de_resume_state (det_run e later))"
proof -
  have "hysteresis e = hyst_run (hysteresis (detection_engine_new identity ns ms)) ops"
    using reachable_run(2) [of ops] assms(1) by (simp add: e_def)
  moreover have "hysteresis (det_run e later) = hyst_run (hysteresis (detection_engine_new identity ns ms)) (ops @ later)"
    using reachable_run(2) [of "ops @ later"] assms(1) by (simp add: e_def)
  ultimately have "hysteresis (det_run e later) = hyst_run (hysteresis e) later" by simp
  moreover have "hy_state (hysteresis x) = de_resume_state x" "hy_clear (hysteresis x) = de_clear_streak x" for x
    by (simp_all add: hysteresis_def)
  ultimately show ?thesis using hyst_holds [of "hysteresis e" later] assms(3-5) by metis
qed

theorem alarms_are_held_witness:
  "is_anomalous (de_resume_state (det_run (det_run (detection_engine_new an_identity 5 9) (storm_ops @ [OpEvaluate 8 12 storm_signals]))
     [OpPause 13, OpEvaluate 9 14 signals_warming]))"
  by (rule conjunct1 [OF alarms_are_held])
    (simp_all only: hysteresis_eq [OF storm_engine(2)], simp_all add: is_anomalous_def is_evaluation_def is_reset_def)

lemma advancing_append:
  "os \<noteq> [] \<Longrightarrow> advancing ns ms (os @ ps) \<longleftrightarrow> advancing ns ms os \<and> advancing (fst (last os)) (Some (fst (snd (last os)))) ps"
  by (induction ns ms os rule: advancing.induct) auto

lemma advancing_accepts:
  assumes "\<And>o'. o' \<in> set (os @ [(now, unix, signals)]) \<Longrightarrow> quiet o'"
    and "advancing (hy_trusted_ns h) (hy_trusted_ms h) (os @ [(now, unix, signals)])"
  shows "hyst_accepts now unix signals (hyst_run h (map evaluation os))"
  using assms
proof (induction os arbitrary: h)
  case (Cons q os)
  obtain n u s where q: "q = (n, u, s)" by (cases q)
  have "quiet q" by (rule Cons.prems(1)) simp
  with Cons.prems(2) have acc: "hyst_accepts n u s h" by (simp add: q hyst_accepts_def)
  have "hyst_accepts now unix signals (hyst_run (hyst_observe n u s h) (map evaluation os))"
    by (rule Cons.IH) (use Cons.prems in \<open>auto simp: q observe_fields\<close>)
  with acc show ?case by (simp add: q)
qed (auto simp: hyst_accepts_def)

text \<open>
  \<^bold>\<open>C9.\<close> An alarm ends: from any reachable engine that holds an alarm, the quiet evaluations that bring
  its clear streak to ten, on advancing clocks, publish the cooldown, and a further quiet evaluation at
  least thirty seconds after the last of them publishes the normal state.
\<close>

theorem alarms_clear:
  fixes identity ns ms ops
  assumes "length ops + length os < 2 ^ 64 - 3"
  defines "e \<equiv> det_run (detection_engine_new identity ns ms) ops"
  assumes "is_anomalous (de_resume_state e)" "unat (de_clear_streak e) + length os = 10"
    and "list_all quiet (os @ [q])"
    and "advancing (de_last_trustworthy_monotonic_ns e) (dr_last_trustworthy_at_unix_ms (de_report e)) (os @ [q])"
    and "30000000000 \<le> unat (fst q) - unat (fst (last os))"
  shows "dr_state (de_report (det_run e (map evaluation os))) = DsCooldown
    \<and> dr_state (de_report (det_run e (map evaluation (os @ [q])))) = DsNormal"
proof -
  let ?h = "hysteresis e" and ?hc = "hyst_run (hysteresis e) (map evaluation os)"
  obtain now unix signals where q: "q = (now, unix, signals)" by (cases q)
  have r: "det_inv e" "unat (de_transition_sequence e) \<le> length ops"
    using det_run_ok [OF det_inv_new, of identity ns ms ops] assms(1) by (auto simp: e_def detection_engine_new_def)
  then have room: "unat (de_transition_sequence e) + length os < 2 ^ 64 - 3" using assms(1) by linarith
  have clear: "unat (de_clear_streak e) < 10" using r(1) assms(3) by (simp add: det_inv_def settled_def word_less_nat_alt)
  then have ne: "os \<noteq> []" using assms(4) by auto
  have adv: "advancing (hy_trusted_ns ?h) (hy_trusted_ms ?h) os" "advancing (fst (last os)) (Some (fst (snd (last os)))) [q]"
    using assms(6) advancing_append [OF ne] by (simp_all add: hysteresis_def)
  have cool: "hy_state ?hc = DsCooldown \<and> hy_started ?hc = Some (fst (last os)) \<and> hy_trusted_ns ?hc = fst (last os)
      \<and> hy_trusted_ms ?hc = Some (fst (snd (last os)))"
    using assms(3-5) ne by (intro quiet_cools [OF _ adv(1)]) (simp_all add: hysteresis_def)
  have "hyst_accepts now unix signals ?hc" using adv(2) cool assms(5) by (simp add: q hyst_accepts_def)
  moreover have "unat (de_transition_sequence e) + length (map evaluation os) < 2 ^ 64 - 2" using room by simp
  ultimately have "dr_state (de_report (det_run e (map evaluation os @ [OpEvaluate now unix signals]))) = hy_state (hyst_observe now unix signals ?hc)"
    by (intro last_evaluation_published [OF r(1)])
  moreover have "hy_state (hyst_observe now unix signals ?hc) = DsNormal"
    using cool assms(5,7) by (intro cooldown_completes [where t = "fst (last os)"]) (simp_all add: q)
  ultimately have normal: "dr_state (de_report (det_run e (map evaluation (os @ [q])))) = DsNormal" by (simp add: q)
  obtain init now' unix' signals' where os: "os = init @ [(now', unix', signals')]"
    using ne by (metis append_butlast_last_id prod_cases3)
  let ?hi = "hyst_run ?h (map evaluation init)"
  have "list_all quiet init" "advancing (hy_trusted_ns ?h) (hy_trusted_ms ?h) (init @ [(now', unix', signals')])"
    using assms(5) adv(1) by (simp_all add: os)
  then have acc: "hyst_accepts now' unix' signals' ?hi"
    using assms(5) by (intro advancing_accepts) (auto simp: os list_all_iff)
  have "unat (de_transition_sequence e) + length (map evaluation init) < 2 ^ 64 - 2" using room by (simp add: os)
  from last_evaluation_published [OF r(1) this acc]
  have "dr_state (de_report (det_run e (map evaluation os))) = hy_state ?hc"
    using acc by (simp add: os)
  with normal cool show ?thesis by simp
qed

theorem alarms_clear_witness:
  "dr_state (de_report (det_run (det_run (detection_engine_new an_identity 5 9) (storm_ops @ [OpEvaluate 8 12 storm_signals]))
     (map evaluation (map calm [11, 12, 13, 14, 15, 16, 17, 18, 19, 20] @ [calm 30000000020])))) = DsNormal"
  by (rule conjunct2 [OF alarms_clear])
    (simp_all only: hysteresis_eq [OF storm_engine(2)], simp_all add: is_anomalous_def warming_signals_validate signals_warming_def [THEN arg_cong, where f = ds_candidate, simplified])

end
