(* ===== verification/Evidence.thy ===== *)
theory Evidence
  imports Detection
begin

text \<open>
  The evidence contract (\<open>l2-loop-core/src/evidence.rs\<close>): event identifiers and list cursors with their
  text forms, alert codes, the revision and manifest models with their validation, and list queries.
\<close>

section \<open>Definitions\<close>

definition EVIDENCE_SCHEMA_VERSION :: u16 where [simp]: "EVIDENCE_SCHEMA_VERSION = 1"
definition EVIDENCE_MAX_STORE_BYTES :: u64 where [simp]: "EVIDENCE_MAX_STORE_BYTES = 1073741824"
definition EVIDENCE_MAX_EVENTS :: nat where [simp]: "EVIDENCE_MAX_EVENTS = 1000"
definition EVIDENCE_MAX_REVISIONS_PER_EVENT :: u64 where [simp]: "EVIDENCE_MAX_REVISIONS_PER_EVENT = 16"
definition EVIDENCE_MAX_REVISION_BYTES :: u64 where [simp]: "EVIDENCE_MAX_REVISION_BYTES = 1048576"
definition EVIDENCE_MAX_EVENT_BYTES :: u64 where [simp]: "EVIDENCE_MAX_EVENT_BYTES = 16777216"
definition EVIDENCE_MAX_CLOSED_AGE_MS :: u64 where [simp]: "EVIDENCE_MAX_CLOSED_AGE_MS = 30 * 24 * 60 * 60 * 1000"
definition EVIDENCE_LIST_DEFAULT_LIMIT :: u16 where [simp]: "EVIDENCE_LIST_DEFAULT_LIMIT = 50"
definition EVIDENCE_LIST_MAX_LIMIT :: u16 where [simp]: "EVIDENCE_LIST_MAX_LIMIT = 200"
definition INCIDENT_OUTPUT_QUEUE_CAPACITY :: nat where [simp]: "INCIDENT_OUTPUT_QUEUE_CAPACITY = 32"
definition EVENT_ID_BYTES :: nat where [simp]: "EVENT_ID_BYTES = 16"
definition EVENT_ID_TEXT_BYTES :: nat where [simp]: "EVENT_ID_TEXT_BYTES = EVENT_ID_BYTES * 2"
definition CURSOR_VERSION :: string where [simp]: "CURSOR_VERSION = ''1''"

datatype EvidenceContractError = InvalidEventId | InvalidListLimit | InvalidCursor | InvalidModel

text \<open>\<open>[u8; 16]\<close> is a list of bytes; the array type keeps its length, stated by \<open>event_id_ok\<close>.\<close>

datatype EventId = EventId (event_bytes: "u8 list")

definition event_id_ok :: "EventId \<Rightarrow> bool" where
  "event_id_ok e \<longleftrightarrow> length (event_bytes e) = EVENT_ID_BYTES"

definition is_lower_hex :: "char \<Rightarrow> bool" where
  "is_lower_hex c \<longleftrightarrow> is_ascii_digit c \<or> 97 \<le> (of_char c :: nat) \<and> of_char c \<le> (102 :: nat)"

definition nibble :: "char \<Rightarrow> (EvidenceContractError, u8) result" where
  "nibble byte =
     (let b = of_char byte :: u8
      in if 48 \<le> b \<and> b \<le> 57 then Inr (b - 48)
         else if 97 \<le> b \<and> b \<le> 102 then Inr (b - 97 + 10)
         else Inl InvalidEventId)"

text \<open>The loop over \<open>chunks_exact(2)\<close>: a last odd byte is left out.\<close>

fun hex_pairs :: "string \<Rightarrow> (EvidenceContractError, u8 list) result" where
  "hex_pairs (a # b # rest) =
     rbind (nibble a) (\<lambda>high. rbind (nibble b) (\<lambda>low. rbind (hex_pairs rest) (\<lambda>bytes.
     Inr ((push_bit 4 high OR low) # bytes))))"
| "hex_pairs _ = Inr []"

definition event_id_from_str :: "string \<Rightarrow> (EvidenceContractError, EventId) result" where
  "event_id_from_str value =
     (if length value \<noteq> EVENT_ID_TEXT_BYTES \<or> \<not> list_all is_lower_hex value then Inl InvalidEventId
      else rbind (hex_pairs value) (\<lambda>bytes. Inr (EventId bytes)))"

definition HEX :: string where "HEX = ''0123456789abcdef''"

definition event_id_display :: "EventId \<Rightarrow> string" where
  "event_id_display e = concat (map (\<lambda>byte. [HEX ! unat (drop_bit 4 byte), HEX ! unat (byte AND 15)]) (event_bytes e))"

datatype AlertSeverity = SevInformation | SevNotice | SevWarning

datatype AlertCode = AcStormConfirmed | AcExternalLoopSuspected | AcExternalLoopHighConfidence | AcIncidentCooldown
  | AcIncidentClosed | AcGenerationEnded | AcOutputDegraded

fun alert_code_for_state :: "DetectionState \<Rightarrow> AlertCode option" where
  "alert_code_for_state DsIngressStorm = Some AcStormConfirmed"
| "alert_code_for_state DsEgressStorm = Some AcStormConfirmed"
| "alert_code_for_state DsBidirectionalStorm = Some AcStormConfirmed"
| "alert_code_for_state DsLoopSuspected = Some AcExternalLoopSuspected"
| "alert_code_for_state DsLoopHighConfidence = Some AcExternalLoopHighConfidence"
| "alert_code_for_state DsCooldown = Some AcIncidentCooldown"
| "alert_code_for_state DsNormal = Some AcIncidentClosed"
| "alert_code_for_state _ = None"

fun severity :: "AlertCode \<Rightarrow> AlertSeverity" where
  "severity AcStormConfirmed = SevNotice"
| "severity AcExternalLoopSuspected = SevNotice"
| "severity AcExternalLoopHighConfidence = SevWarning"
| "severity AcOutputDegraded = SevWarning"
| "severity _ = SevInformation"

datatype EvidenceStatus = EvStored | EvUnavailable
datatype EvidenceIntegrity = EvValid | EvCorrupt | EvIncomplete
datatype OutputHealthState = OutHealthy | OutDegraded
datatype AlertSinkMode = SinkJournald | SinkStderrJson

record OutputHealth =
  oh_state :: OutputHealthState
  oh_store_available :: bool
  oh_corrupt_object_count :: u16
  oh_incomplete_object_count :: u16
  oh_unknown_object_count :: u16
  oh_alert_sink :: AlertSinkMode
  oh_last_error_code :: "string option"
  oh_dropped_job_count :: u64

definition output_health_unavailable :: "string \<Rightarrow> OutputHealth" where
  "output_health_unavailable code =
     \<lparr>oh_state = OutDegraded, oh_store_available = False, oh_corrupt_object_count = 0, oh_incomplete_object_count = 0,
      oh_unknown_object_count = 0, oh_alert_sink = SinkStderrJson, oh_last_error_code = Some code, oh_dropped_job_count = 0\<rparr>"

record ActiveIncidentMetadata =
  am_event_id :: EventId
  am_revision :: u64

record IncidentRevisionV1 =
  ir_schema_version :: u16
  ir_event_id :: EventId
  ir_revision :: u64
  ir_interface :: InterfaceName
  ir_ifindex :: u32
  ir_interface_generation :: u64
  ir_transition_sequence :: u64
  ir_previous_state :: DetectionState
  ir_current_state :: DetectionState
  ir_transition_reason :: DetectionTransitionReason
  ir_opened_at_unix_ms :: u64
  ir_occurred_at_unix_ms :: u64
  ir_closed_at_unix_ms :: "u64 option"
  ir_alert_code :: AlertCode
  ir_severity :: AlertSeverity
  ir_evidence_status :: EvidenceStatus
  ir_xdp_ingress :: ObservationCounters
  ir_tc_egress :: ObservationCounters
  ir_rate_windows :: "StatusRateWindow arr3"
  ir_baseline :: BaselineSummary
  ir_fingerprint_window :: FingerprintWindowReport
  ir_detection :: DetectionReport
  ir_observation_health :: ObservationHealth
  ir_vlan_visibility :: VlanVisibility
  ir_last_error_code :: "string option"

definition incident_revision_validate :: "IncidentRevisionV1 \<Rightarrow> (EvidenceContractError, unit) result" where
  "incident_revision_validate r =
     (if ir_schema_version r \<noteq> EVIDENCE_SCHEMA_VERSION \<or> ir_revision r = 0
         \<or> EVIDENCE_MAX_REVISIONS_PER_EVENT < ir_revision r \<or> ir_ifindex r = 0 \<or> ir_interface_generation r = 0
         \<or> ir_transition_sequence r = 0 \<or> ir_occurred_at_unix_ms r < ir_opened_at_unix_ms r
         \<or> is_some_and (ir_closed_at_unix_ms r) (\<lambda>closed. closed < ir_opened_at_unix_ms r)
         \<or> ir_severity r \<noteq> severity (ir_alert_code r)
      then Inl InvalidModel
      else map_err InvalidModel (detection_report_validate (ir_detection r)))"

record EvidenceManifestV1 =
  em_schema_version :: u16
  em_event_id :: EventId
  em_revision :: u64
  em_current_state :: DetectionState
  em_evidence_file :: string
  em_evidence_bytes :: u64
  em_evidence_sha256 :: string
  em_total_bytes :: u64
  em_package_version :: string

definition evidence_manifest_validate :: "EvidenceManifestV1 \<Rightarrow> (EvidenceContractError, unit) result" where
  "evidence_manifest_validate m =
     (if em_schema_version m \<noteq> EVIDENCE_SCHEMA_VERSION \<or> em_revision m = 0
         \<or> EVIDENCE_MAX_REVISIONS_PER_EVENT < em_revision m \<or> em_evidence_file m \<noteq> ''evidence.json''
         \<or> em_evidence_bytes m = 0 \<or> EVIDENCE_MAX_REVISION_BYTES < em_evidence_bytes m
         \<or> em_total_bytes m < em_evidence_bytes m \<or> EVIDENCE_MAX_EVENT_BYTES < em_total_bytes m
         \<or> length (em_evidence_sha256 m) \<noteq> 64 \<or> \<not> list_all is_lower_hex (em_evidence_sha256 m)
      then Inl InvalidModel
      else Inr ())"

record EvidenceSummaryV1 =
  es_schema_version :: u16
  es_event_id :: EventId
  es_latest_revision :: u64
  es_interface :: InterfaceName
  es_ifindex :: u32
  es_interface_generation :: u64
  es_current_state :: DetectionState
  es_alert_code :: AlertCode
  es_severity :: AlertSeverity
  es_opened_at_unix_ms :: u64
  es_last_transition_at_unix_ms :: u64
  es_closed_at_unix_ms :: "u64 option"
  es_bundle_bytes :: u64
  es_integrity :: EvidenceIntegrity

record EvidenceDetailV1 =
  ed_summary :: EvidenceSummaryV1
  ed_latest :: IncidentRevisionV1

record EvidenceListPageV1 =
  ep_items :: "EvidenceSummaryV1 list"
  ep_next_cursor :: "string option"

record EvidenceCursor =
  ec_filter_hash :: u64
  ec_last_transition_at_unix_ms :: u64
  ec_event_id :: EventId

definition interface_filter_hash :: "InterfaceName option \<Rightarrow> u64" where
  "interface_filter_hash interface =
     fold (\<lambda>byte value. (value XOR of_char byte) * 0x100000001b3)
       (case interface of None \<Rightarrow> ''-'' | Some name \<Rightarrow> as_str name) 0xcbf29ce484222325"

definition evidence_cursor_new :: "InterfaceName option \<Rightarrow> u64 \<Rightarrow> EventId \<Rightarrow> EvidenceCursor" where
  "evidence_cursor_new interface last_transition_at_unix_ms event_id =
     \<lparr>ec_filter_hash = interface_filter_hash interface, ec_last_transition_at_unix_ms = last_transition_at_unix_ms,
      ec_event_id = event_id\<rparr>"

text \<open>\<open>u64::from_str_radix(_, 16)\<close> on digits already known to be lower-case hexadecimal; it fails on overflow.\<close>

definition from_str_radix_16 :: "string \<Rightarrow> u64 option" where
  "from_str_radix_16 value =
     fold (\<lambda>c accumulator. case accumulator of
         None \<Rightarrow> None
       | Some v \<Rightarrow>
           (case (checked_mul v 16, nibble c) of
              (Some w, Inr digit) \<Rightarrow> checked_add w (ucast digit)
            | _ \<Rightarrow> None)) value (Some 0)"

definition parse_fixed_hex_u64 :: "string \<Rightarrow> (EvidenceContractError, u64) result" where
  "parse_fixed_hex_u64 value =
     (if length value \<noteq> 16 \<or> \<not> list_all is_lower_hex value then Inl InvalidCursor
      else ok_or InvalidCursor (from_str_radix_16 value))"

text \<open>\<open>str::split\<close> on one character: never empty, one field more than there are separators.\<close>

fun split_on :: "char \<Rightarrow> string \<Rightarrow> string list" where
  "split_on sep [] = [[]]"
| "split_on sep (c # rest) =
     (if c = sep then [] # split_on sep rest
      else case split_on sep rest of [] \<Rightarrow> [[c]] | field # others \<Rightarrow> (c # field) # others)"

definition cursor_parse_for :: "string \<Rightarrow> InterfaceName option \<Rightarrow> (EvidenceContractError, EvidenceCursor) result" where
  "cursor_parse_for value interface =
     (if \<not> list_all (\<lambda>c. (of_char c :: nat) < 128) value \<or> 80 < length value then Inl InvalidCursor
      else case split_on CHR ''-'' value of
        [version, timestamp, event_id, filt] \<Rightarrow>
          if version \<noteq> CURSOR_VERSION then Inl InvalidCursor
          else
            rbind (parse_fixed_hex_u64 filt) (\<lambda>filter_hash.
            rbind (parse_fixed_hex_u64 timestamp) (\<lambda>last_transition_at_unix_ms.
            rbind (map_err InvalidCursor (event_id_from_str event_id)) (\<lambda>event_id.
            if filter_hash \<noteq> interface_filter_hash interface then Inl InvalidCursor
            else Inr \<lparr>ec_filter_hash = filter_hash, ec_last_transition_at_unix_ms = last_transition_at_unix_ms,
                      ec_event_id = event_id\<rparr>)))
      | _ \<Rightarrow> Inl InvalidCursor)"

text \<open>\<open>{:016x}\<close> of a \<open>u64\<close>: sixteen digits, most significant first.\<close>

definition hex16 :: "u64 \<Rightarrow> string" where
  "hex16 v = map (\<lambda>i. HEX ! unat (drop_bit (4 * (15 - i)) v AND 15)) [0..<16]"

definition cursor_display :: "EvidenceCursor \<Rightarrow> string" where
  "cursor_display c =
     CURSOR_VERSION @ ''-'' @ hex16 (ec_last_transition_at_unix_ms c) @ ''-'' @ event_id_display (ec_event_id c) @ ''-''
     @ hex16 (ec_filter_hash c)"

record EvidenceListQuery =
  lq_interface :: "InterfaceName option"
  lq_limit :: u16
  lq_cursor :: "EvidenceCursor option"

definition evidence_list_query_new ::
  "InterfaceName option \<Rightarrow> u16 option \<Rightarrow> EvidenceCursor option \<Rightarrow> (EvidenceContractError, EvidenceListQuery) result" where
  "evidence_list_query_new interface limit cursor =
     (let limit = unwrap_or limit EVIDENCE_LIST_DEFAULT_LIMIT
      in if \<not> (1 \<le> limit \<and> limit \<le> EVIDENCE_LIST_MAX_LIMIT) then Inl InvalidListLimit
         else if is_some_and cursor (\<lambda>value. ec_filter_hash value \<noteq> interface_filter_hash interface) then Inl InvalidCursor
         else Inr \<lparr>lq_interface = interface, lq_limit = limit, lq_cursor = cursor\<rparr>)"

section \<open>Hexadecimal text\<close>

lemma hex_digits:
  assumes "n < (16 :: nat)"
  obtains "n = 0" | "n = 1" | "n = 2" | "n = 3" | "n = 4" | "n = 5" | "n = 6" | "n = 7" | "n = 8" | "n = 9" | "n = 10"
    | "n = 11" | "n = 12" | "n = 13" | "n = 14" | "n = 15"
  using assms by (auto simp: less_Suc_eq numeral_eq_Suc)

lemma nibble_hex:
  assumes "n < 16"
  shows "nibble (HEX ! n) = Inr (of_nat n)" "is_lower_hex (HEX ! n)" "HEX ! n \<noteq> CHR ''-''" "(of_char (HEX ! n) :: nat) < 128"
  using assms by (cases rule: hex_digits; simp add: HEX_def nibble_def is_lower_hex_def is_ascii_digit_def)+

lemma char_byte: "(of_char c :: nat) < 256" "unat (of_char c :: u8) = of_char c"
proof -
  have "(of_char c :: nat) mod 256 = of_char c" by simp
  then show n: "(of_char c :: nat) < 256" by (metis mod_less_divisor zero_less_numeral)
  have "(of_char c :: u8) = of_nat (of_char c)" by (simp add: of_nat_of_char)
  then show "unat (of_char c :: u8) = of_char c" using n by (simp only: unat_of_nat) simp
qed

lemma nibble_Inr:
  assumes "nibble c = Inr d"
  shows "unat d < 16" "c = HEX ! unat d"
proof -
  define n where "n = (of_char c :: nat)"
  have b: "(of_char c :: u8) = of_nat n" by (simp add: n_def of_nat_of_char)
  have c: "c = char_of n" by (simp add: n_def)
  have "n \<in> {48..57} \<and> d = of_nat n - 48 \<or> n \<in> {97..102} \<and> d = of_nat n - 97 + 10"
    using assms char_byte(2) [of c] unfolding n_def
    by (auto simp: nibble_def Let_def word_le_nat_alt of_nat_of_char split: if_splits)
  moreover have "n \<in> {48..57} \<Longrightarrow> n \<in> {48, 49, 50, 51, 52, 53, 54, 55, 56, 57}" unfolding atLeastAtMost_iff insert_iff empty_iff by presburger
  moreover have "n \<in> {97..102} \<Longrightarrow> n \<in> {97, 98, 99, 100, 101, 102}" unfolding atLeastAtMost_iff insert_iff empty_iff by presburger
  ultimately have "n \<in> {48, 49, 50, 51, 52, 53, 54, 55, 56, 57} \<and> d = of_nat n - 48
    \<or> n \<in> {97, 98, 99, 100, 101, 102} \<and> d = of_nat n - 97 + 10" by blast
  then have "unat d < 16 \<and> char_of n = HEX ! unat d"
    by (elim disjE conjE insertE emptyE) (simp_all add: HEX_def char_of_def bit_Suc_0_iff)
  then show "unat d < 16" "c = HEX ! unat d" using c by auto
qed

lemma lower_hex_digit:
  assumes "is_lower_hex c"
  obtains d where "d < 16" "c = HEX ! d"
proof -
  have "\<exists>d. nibble c = Inr d"
    using assms char_byte(2) [of c] by (auto simp: is_lower_hex_def is_ascii_digit_def nibble_def Let_def word_le_nat_alt)
  then show thesis using that nibble_Inr by blast
qed

lemma lower_hex_text:
  assumes "list_all is_lower_hex s"
  obtains ns where "list_all (\<lambda>n. n < 16) ns" "s = map ((!) HEX) ns"
proof -
  have "\<exists>ns. list_all (\<lambda>n. n < 16) ns \<and> s = map ((!) HEX) ns"
    using assms
  proof (induction s)
    case (Cons c s)
    then obtain ns where ns: "list_all (\<lambda>n. n < 16) ns" "s = map ((!) HEX) ns" by auto
    obtain d where "d < 16" "c = HEX ! d" using Cons.prems lower_hex_digit by auto
    with ns have "list_all (\<lambda>n. n < 16) (d # ns) \<and> c # s = map ((!) HEX) (d # ns)" by simp
    then show ?case by (rule exI)
  qed simp
  then show thesis using that by blast
qed

lemma hex_text:
  assumes "list_all (\<lambda>n. n < 16) ns"
  shows "list_all is_lower_hex (map ((!) HEX) ns)" "CHR ''-'' \<notin> set (map ((!) HEX) ns)"
    "list_all (\<lambda>c. (of_char c :: nat) < 128) (map ((!) HEX) ns)"
  using assms nibble_hex(2-4) by (auto simp: list_all_iff) metis

text \<open>Base sixteen, most significant digit first.\<close>

fun digits :: "nat \<Rightarrow> nat \<Rightarrow> nat list" where
  "digits 0 v = []"
| "digits (Suc k) v = digits k (v div 16) @ [v mod 16]"

definition horner :: "nat list \<Rightarrow> nat" where
  "horner ns = foldl (\<lambda>v d. v * 16 + d) 0 ns"

lemma horner_snoc [simp]: "horner [] = 0" "horner (ns @ [d]) = horner ns * 16 + d"
  by (simp_all add: horner_def)

lemma digits_length [simp]: "length (digits k v) = k"
  by (induction k arbitrary: v) auto

lemma digits_small: "list_all (\<lambda>n. n < 16) (digits k v)"
  by (induction k arbitrary: v) auto

lemma horner_digits: "horner (digits k v) = v mod 16 ^ k"
proof (induction k arbitrary: v)
  case (Suc k)
  have "v mod 16 ^ Suc k = 16 * (v div 16 mod 16 ^ k) + v mod 16"
    by (simp add: mod_mult2_eq)
  with Suc show ?case by simp
qed simp

lemma horner_bound: "list_all (\<lambda>n. n < 16) ns \<Longrightarrow> horner ns < 16 ^ length ns"
  by (induction ns rule: rev_induct) auto

lemma digits_horner: "list_all (\<lambda>n. n < 16) ns \<Longrightarrow> digits (length ns) (horner ns) = ns"
  by (induction ns rule: rev_induct) auto

lemma hex16_digits: "hex16 v = map ((!) HEX) (digits 16 (unat v))"
proof -
  have d: "digits k n = map (\<lambda>i. n div 16 ^ (k - 1 - i) mod 16) [0..<k]" for k n
  proof (induction k arbitrary: n)
    case (Suc k)
    have "map (\<lambda>i. n div 16 div 16 ^ (k - 1 - i) mod 16) [0..<k] = map (\<lambda>i. n div 16 ^ (k - i) mod 16) [0..<k]"
    proof (rule map_cong [OF refl])
      fix i assume "i \<in> set [0..<k]"
      then have "k - i = Suc (k - 1 - i)" by auto
      then show "n div 16 div 16 ^ (k - 1 - i) mod 16 = n div 16 ^ (k - i) mod 16" by (simp add: div_mult2_eq)
    qed
    with Suc show ?case by simp
  qed simp
  have "unat (drop_bit (4 * j) v AND 15) = unat v div 16 ^ j mod 16" if "j < 16" for j
  proof -
    have "drop_bit (4 * j) v AND 15 = take_bit 4 (drop_bit (4 * j) v)"
      by (simp add: take_bit_eq_mask mask_eq_exp_minus_1)
    then have "unat (drop_bit (4 * j) v AND 15) = take_bit 4 (drop_bit (4 * j) (unat v))"
      using that by (cases "j = 15") (auto simp: unsigned_take_bit_eq unsigned_drop_bit_eq take_bit_drop_bit min_def)
    also have "\<dots> = unat v div 16 ^ j mod 16"
      by (simp add: take_bit_eq_mod drop_bit_eq_div power_mult)
    finally show ?thesis .
  qed
  then show ?thesis by (simp add: hex16_def d)
qed

lemma from_str_radix_16_horner:
  assumes "list_all (\<lambda>n. n < 16) ns" "length ns \<le> 16"
  shows "from_str_radix_16 (map ((!) HEX) ns) = Some (of_nat (horner ns))"
  using assms
proof (induction ns rule: rev_induct)
  case (snoc d ns)
  have small: "horner ns < 16 ^ 15"
    using horner_bound [of ns] snoc.prems power_increasing [of "length ns" 15 "16 :: nat"] by auto
  then have u: "unat (of_nat (horner ns) :: u64) = horner ns" by (simp add: unat_of_nat)
  have d: "d < 16" "unat (of_nat d :: u8) = d" "nibble (HEX ! d) = Inr (of_nat d)"
    using snoc.prems nibble_hex(1) [of d] by (auto simp: unat_of_nat)
  have m: "checked_mul (of_nat (horner ns)) 16 = Some (of_nat (horner ns * 16) :: u64)"
    using small u by (simp add: checked_mul_def)
  have um: "unat (of_nat (horner ns * 16) :: u64) = horner ns * 16"
    using small by (simp only: unat_of_nat) simp
  have "checked_add (of_nat (horner ns * 16)) (ucast (of_nat d :: u8)) = Some (of_nat (horner ns * 16 + d) :: u64)"
    unfolding checked_add_def um using small d by (simp add: unat_widen) (metis of_nat_unat)
  with snoc m d(3) show ?case by (simp add: from_str_radix_16_def)
qed (simp add: from_str_radix_16_def)


section \<open>Text forms are canonical\<close>

text \<open>A codec for the values of a type that satisfy \<open>ok\<close>, canonical on the texts it accepts.\<close>

locale checked_codec =
  fixes enc :: "'a \<Rightarrow> 'b" and dec :: "'b \<Rightarrow> ('e, 'a) result" and ok :: "'a \<Rightarrow> bool"
  assumes ok_dec_enc: "ok x \<Longrightarrow> dec (enc x) = Inr x"
    and dec_sound: "dec b = Inr x \<Longrightarrow> ok x \<and> enc x = b"
begin

lemma dec_Inr: "dec b = Inr x \<longleftrightarrow> ok x \<and> enc x = b"
  using ok_dec_enc dec_sound by blast

lemma enc_inj_ok: "ok x \<Longrightarrow> ok y \<Longrightarrow> enc x = enc y \<Longrightarrow> x = y"
  by (metis ok_dec_enc sum.inject(2))

end

sublocale canonical_codec \<subseteq> checked: checked_codec enc dec "\<lambda>_. True"
  by unfold_locales (auto simp: dec_enc enc_dec)

interpretation hex_u64: canonical_codec hex16 parse_fixed_hex_u64
proof
  fix v :: u64
  have "horner (digits 16 (unat v)) = unat v" using unat_lt_64 [of v] by (simp add: horner_digits)
  then show "parse_fixed_hex_u64 (hex16 v) = Inr v"
    using from_str_radix_16_horner [OF digits_small, of 16 "unat v"] hex_text(1) [OF digits_small, of 16 "unat v"]
    by (simp add: parse_fixed_hex_u64_def hex16_digits)
next
  fix s v
  assume p: "parse_fixed_hex_u64 s = Inr v"
  then obtain ns where ns: "list_all (\<lambda>n. n < 16) ns" "s = map ((!) HEX) ns"
    using lower_hex_text [of s] by (auto simp: parse_fixed_hex_u64_def split: if_splits)
  have len: "length ns = 16" using p ns(2) by (auto simp: parse_fixed_hex_u64_def split: if_splits)
  have v: "v = of_nat (horner ns)"
    using p from_str_radix_16_horner [OF ns(1)] len by (auto simp: parse_fixed_hex_u64_def ns(2) split: if_splits)
  have "horner ns < 2 ^ 64" using horner_bound [OF ns(1)] len by simp
  then have "unat v = horner ns" unfolding v by (simp only: unat_of_nat) simp
  then show "hex16 v = s" using digits_horner [OF ns(1)] len by (simp add: hex16_digits ns(2))
qed

lemma byte_halves:
  fixes b h l :: u8
  shows "unat (drop_bit 4 b) < 16" "unat (b AND 15) < 16" "push_bit 4 (drop_bit 4 b) OR (b AND 15) = b"
    and "unat h < 16 \<Longrightarrow> unat l < 16 \<Longrightarrow> drop_bit 4 (push_bit 4 h OR l) = h \<and> (push_bit 4 h OR l) AND 15 = l"
proof -
  have m: "(15 :: u8) = mask 4" by (simp add: mask_eq_exp_minus_1)
  have small: "take_bit 4 x = x" if "unat x < 16" for x :: u8
    using that by (simp add: word_unat_eq_iff unsigned_take_bit_eq take_bit_nat_eq_self)
  show "unat (drop_bit 4 b) < 16"
    using unsigned_less [where 'a = nat, of b] by (simp add: drop_bit_eq_div unat_div)
  show "unat (b AND 15) < 16" unfolding m by (simp add: take_bit_eq_mask [symmetric] take_bit_eq_mod unat_mod)
  show "push_bit 4 (drop_bit 4 b) OR (b AND 15) = b"
    unfolding m by (rule bit_eqI) (auto simp: bit_simps)
  assume "unat h < 16" "unat l < 16"
  then have hl: "\<And>n. bit h n \<Longrightarrow> n < 4" "\<And>n. bit l n \<Longrightarrow> n < 4"
    using small by (metis bit_take_bit_iff)+
  show "drop_bit 4 (push_bit 4 h OR l) = h \<and> (push_bit 4 h OR l) AND 15 = l"
    unfolding m by (intro conjI bit_eqI) (use hl in \<open>auto simp: bit_simps\<close>)
qed


lemma hex_pairs_display: "hex_pairs (event_id_display (EventId bs)) = Inr bs"
proof (induction bs)
  case (Cons b bs)
  have "nibble (HEX ! unat (drop_bit 4 b)) = Inr (drop_bit 4 b)" "nibble (HEX ! unat (b AND 15)) = Inr (b AND 15)"
    using nibble_hex(1) byte_halves(1,2) [of b] by simp_all
  with Cons show ?case by (simp add: event_id_display_def byte_halves(3))
qed (simp add: event_id_display_def)

lemma display_hex:
  obtains ns where "list_all (\<lambda>n. n < 16) ns" "event_id_display (EventId bs) = map ((!) HEX) ns" "length ns = 2 * length bs"
proof
  let ?ns = "concat (map (\<lambda>b. [unat (drop_bit 4 b), unat (b AND 15)]) bs)"
  show "list_all (\<lambda>n. n < 16) ?ns" using byte_halves(1,2) by (auto simp: list_all_iff)
  show "event_id_display (EventId bs) = map ((!) HEX) ?ns" by (simp add: event_id_display_def map_concat comp_def)
  show "length ?ns = 2 * length bs" by (induction bs) auto
qed

lemma hex_pairs_sound:
  assumes "hex_pairs s = Inr bs" "even (length s)"
  shows "event_id_display (EventId bs) = s \<and> length bs = length s div 2"
  using assms
proof (induction s arbitrary: bs rule: hex_pairs.induct)
  case (1 a b rest)
  from "1.prems"(1) obtain h l cs where n: "nibble a = Inr h" "nibble b = Inr l" "hex_pairs rest = Inr cs" "bs = (push_bit 4 h OR l) # cs"
    by (auto simp: rbind_Inr_conv)
  have "event_id_display (EventId cs) = rest \<and> length cs = length rest div 2"
    using "1.IH" [OF n(3)] "1.prems"(2) by simp
  moreover have "a = HEX ! unat h" "b = HEX ! unat l" using n(1,2) nibble_Inr(2) by blast+
  moreover have "drop_bit 4 (push_bit 4 h OR l) = h \<and> (push_bit 4 h OR l) AND 15 = l"
    using n(1,2) nibble_Inr(1) by (intro byte_halves(4)) blast+
  ultimately show ?case by (simp add: n(4) event_id_display_def)
qed (auto simp: event_id_display_def)

interpretation event_id: checked_codec event_id_display event_id_from_str event_id_ok
proof
  fix e assume ok: "event_id_ok e"
  obtain bs where e: "e = EventId bs" by (cases e)
  obtain ns where "list_all (\<lambda>n. n < 16) ns" "event_id_display e = map ((!) HEX) ns" "length ns = 2 * length bs"
    using display_hex [of bs] e by metis
  then show "event_id_from_str (event_id_display e) = Inr e"
    using ok hex_pairs_display [of bs] hex_text(1) [of ns] by (simp add: event_id_from_str_def event_id_ok_def e)
next
  fix s e assume "event_id_from_str s = Inr e"
  then show "event_id_ok e \<and> event_id_display e = s"
    using hex_pairs_sound [of s "event_bytes e"] by (auto simp: event_id_from_str_def event_id_ok_def rbind_Inr_conv split: if_splits)
qed

section \<open>Cursors\<close>

lemma split_on_join: "sep \<notin> set a \<Longrightarrow> split_on sep (a @ sep # b) = a # split_on sep b"
  by (induction a) auto

lemma split_on_last: "sep \<notin> set a \<Longrightarrow> split_on sep a = [a]"
  by (induction a) auto

lemma split_on_nonempty: "split_on sep s \<noteq> []"
  by (induction s) (auto split: list.splits)

lemma split_on_Cons:
  assumes "split_on sep s = a # b # rest"
  obtains t where "s = a @ sep # t" "split_on sep t = b # rest"
  using assms
proof (induction s arbitrary: a thesis)
  case (Cons c s)
  show ?case
  proof (cases "c = sep")
    case True
    then show ?thesis using Cons.prems by (intro Cons.prems(1) [of s]) auto
  next
    case False
    with Cons.prems(2) obtain a' where a': "a = c # a'" "split_on sep s = a' # b # rest"
      by (auto split: list.splits)
    from Cons.IH [OF _ a'(2)] obtain t where "s = a' @ sep # t" "split_on sep t = b # rest" by blast
    then show ?thesis by (intro Cons.prems(1) [of t]) (simp_all add: a')
  qed
qed simp

lemma split_on_single: "split_on sep s = [a] \<Longrightarrow> s = a"
proof (induction s arbitrary: a)
  case (Cons c s)
  then show ?case by (auto simp: split_on_nonempty split: list.splits if_splits)
qed simp

definition cursor_ok :: "InterfaceName option \<Rightarrow> EvidenceCursor \<Rightarrow> bool" where
  "cursor_ok interface c \<longleftrightarrow> event_id_ok (ec_event_id c) \<and> ec_filter_hash c = interface_filter_hash interface"

lemma cursor_fields:
  assumes "event_id_ok e"
  shows "CHR ''-'' \<notin> set (hex16 v) \<and> list_all (\<lambda>c. (of_char c :: nat) < 128) (hex16 v) \<and> length (hex16 v) = 16"
    "CHR ''-'' \<notin> set (event_id_display e) \<and> list_all (\<lambda>c. (of_char c :: nat) < 128) (event_id_display e)
     \<and> length (event_id_display e) = 32"
proof -
  show "CHR ''-'' \<notin> set (hex16 v) \<and> list_all (\<lambda>c. (of_char c :: nat) < 128) (hex16 v) \<and> length (hex16 v) = 16"
    using hex_text(2,3) [OF digits_small, of 16 "unat v"] by (simp only: hex16_digits length_map digits_length) simp
  obtain ns where "list_all (\<lambda>n. n < 16) ns" "event_id_display e = map ((!) HEX) ns" "length ns = 2 * length (event_bytes e)"
    using display_hex [of "event_bytes e"] by (metis EventId.collapse)
  then show "CHR ''-'' \<notin> set (event_id_display e) \<and> list_all (\<lambda>c. (of_char c :: nat) < 128) (event_id_display e)
     \<and> length (event_id_display e) = 32"
    using assms hex_text(2,3) [of ns] by (simp add: event_id_ok_def)
qed

interpretation cursor: checked_codec cursor_display "\<lambda>value. cursor_parse_for value interface" "cursor_ok interface" for interface
proof
  fix c assume ok: "cursor_ok interface c"
  then have id: "event_id_ok (ec_event_id c)" by (simp add: cursor_ok_def)
  note f = cursor_fields [OF id]
  have "split_on CHR ''-'' (cursor_display c) =
      [CURSOR_VERSION, hex16 (ec_last_transition_at_unix_ms c), event_id_display (ec_event_id c), hex16 (ec_filter_hash c)]"
    using f by (simp add: cursor_display_def split_on_join split_on_last)
  moreover have "list_all (\<lambda>c. (of_char c :: nat) < 128) (cursor_display c)" "length (cursor_display c) \<le> 80"
    using f by (simp_all add: cursor_display_def)
  ultimately show "cursor_parse_for (cursor_display c) interface = Inr c"
    using ok by (simp add: cursor_parse_for_def cursor_ok_def hex_u64.dec_enc event_id.ok_dec_enc not_less)
next
  fix s c assume p: "cursor_parse_for s interface = Inr c"
  then obtain ts ident filt where split: "split_on CHR ''-'' s = [CURSOR_VERSION, ts, ident, filt]"
    and parts: "parse_fixed_hex_u64 filt = Inr (ec_filter_hash c)" "parse_fixed_hex_u64 ts = Inr (ec_last_transition_at_unix_ms c)"
      "event_id_from_str ident = Inr (ec_event_id c)" "ec_filter_hash c = interface_filter_hash interface"
    by (auto simp: cursor_parse_for_def rbind_Inr_conv split: if_splits list.splits)
  obtain t where t: "s = CURSOR_VERSION @ CHR ''-'' # t" "split_on CHR ''-'' t = [ts, ident, filt]" using split by (rule split_on_Cons)
  obtain u where u: "t = ts @ CHR ''-'' # u" "split_on CHR ''-'' u = [ident, filt]" using t(2) by (rule split_on_Cons)
  obtain w where w: "u = ident @ CHR ''-'' # w" "split_on CHR ''-'' w = [filt]" using u(2) by (rule split_on_Cons)
  have "w = filt" using w(2) by (rule split_on_single)
  then show "cursor_ok interface c \<and> cursor_display c = s"
    using parts t(1) u(1) w(1) hex_u64.enc_dec [OF parts(1)] hex_u64.enc_dec [OF parts(2)] event_id.dec_sound [OF parts(3)]
    by (simp add: cursor_ok_def cursor_display_def)
qed


section \<open>Properties\<close>

text \<open>
  Text forms are exact and canonical: a text parses as an event identifier just when it is the
  display of that identifier, and as a cursor of a filter just when it is the display of a cursor made
  for that filter; every other text is refused, and the cursor of a page always parses under its filter.
\<close>

theorem identifiers_and_cursors_roundtrip:
  "(event_id_from_str s = Inr e) = (event_id_ok e \<and> s = event_id_display e)
   \<and> (cursor_parse_for s interface = Inr c) = (cursor_ok interface c \<and> s = cursor_display c)
   \<and> (event_id_ok e = (cursor_parse_for (cursor_display (evidence_cursor_new interface t e)) interface
        = Inr (evidence_cursor_new interface t e)))"
  using event_id.dec_Inr [of s e] cursor.dec_Inr [of s interface c]
    cursor.dec_Inr [of "cursor_display (evidence_cursor_new interface t e)" interface "evidence_cursor_new interface t e"]
  by (auto simp: cursor_ok_def evidence_cursor_new_def)

end
