(* ===== verification/Incident.thy ===== *)
theory Incident
  imports Evidence
begin

text \<open>
  Observation snapshots (\<open>l2-loop-core/src/observation.rs\<close>, \<open>ObservationSnapshot\<close>) and the incident
  recorder (\<open>l2-loop-agent/src/incident.rs\<close>), which turns the detection engine's transitions into the
  numbered revisions of one incident at a time. The source of event identifiers is a parameter: a
  fallible call on a state of its own.
\<close>

section \<open>Definitions\<close>

subsection \<open>Snapshots\<close>

definition OBSERVATION_SCHEMA_VERSION :: u16 where [simp]: "OBSERVATION_SCHEMA_VERSION = 5"

record ObservationSnapshot =
  os_schema_version :: u16
  os_interface :: InterfaceName
  os_ifindex :: u32
  os_generation :: u64
  os_captured_at_unix_ms :: u64
  os_vlan_visibility :: VlanVisibility
  os_health :: ObservationHealth
  os_hooks :: "HookObservation arr2"
  os_sampling :: SamplingStatus
  os_rate_windows :: "DetailedRateWindow arr3"
  os_baseline :: BaselineReport
  os_fingerprints :: FingerprintReport
  os_detection :: DetectionReport

definition observation_snapshot_new ::
  "InterfaceName \<Rightarrow> u32 \<Rightarrow> u64 \<Rightarrow> u64 \<Rightarrow> VlanVisibility \<Rightarrow> HookObservation arr2 \<Rightarrow> SamplingStatus \<Rightarrow> DetailedRateWindow arr3 \<Rightarrow>
   (DomainError, ObservationSnapshot) result" where
  "observation_snapshot_new interface ifindex generation captured_at_unix_ms vlan_visibility hooks sampling rate_windows =
     (if ifindex = 0 then Inl (InvalidObservation ''ifindex must be non-zero'')
      else if generation = 0 then Inl (InvalidObservation ''interface generation must be non-zero'')
      else if ho_role (a2_0 hooks) \<noteq> ExternalXdpIngress \<or> ho_role (a2_1 hooks) \<noteq> PhysicalTcEgress
      then Inl (InvalidObservation ''hook observations must be ordered XDP ingress then TC egress'')
      else if list_ex (\<lambda>hook. list_ex (\<lambda>(actual, expected). co_traffic_class actual \<noteq> expected)
                        (zip (arr6_list (ho_classes hook)) (arr6_list CLASS_ORDER))) (arr2_list hooks)
      then Inl (InvalidObservation ''class observations do not match the fixed class order'')
      else
        rbind (validate_detailed_rate_windows rate_windows) (\<lambda>_.
        rbind (rate_identity_new ifindex generation) (\<lambda>identity.
        Inr \<lparr>os_schema_version = OBSERVATION_SCHEMA_VERSION, os_interface = interface, os_ifindex = ifindex,
             os_generation = generation, os_captured_at_unix_ms = captured_at_unix_ms, os_vlan_visibility = vlan_visibility,
             os_health = Healthy, os_hooks = hooks, os_sampling = sampling, os_rate_windows = rate_windows,
             os_baseline = baseline_report_learning identity captured_at_unix_ms, os_fingerprints = fingerprint_report_empty,
             os_detection = report_warming identity captured_at_unix_ms\<rparr>)))"

subsection \<open>The recorder\<close>

record IncidentIdentity =
  ii_interface :: InterfaceName
  ii_ifindex :: u32
  ii_generation :: u64

datatype IncidentRecorderError = RecInvalidIdentity | RecIdUnavailable | RecTransitionGap | RecRevisionLimit | RecClockRegression
  | RecInvalidSnapshot

definition incident_identity_new :: "InterfaceName \<Rightarrow> u32 \<Rightarrow> u64 \<Rightarrow> (IncidentRecorderError, IncidentIdentity) result" where
  "incident_identity_new interface ifindex generation =
     (if ifindex = 0 \<or> generation = 0 then Inl RecInvalidIdentity
      else Inr \<lparr>ii_interface = interface, ii_ifindex = ifindex, ii_generation = generation\<rparr>)"

record IncidentWriteJob =
  ij_revision :: IncidentRevisionV1

record ActiveIncident =
  ai_event_id :: EventId
  ai_revision :: u64
  ai_opened_at_unix_ms :: u64
  ai_last_state :: DetectionState

record 's IncidentRecorder =
  ic_identity :: IncidentIdentity
  ic_id_source :: 's
  ic_active :: "ActiveIncident option"
  ic_last_transition_sequence :: u64
  ic_suppressed_duplicate_count :: u64

type_synonym 's event_id_source = "('s, IncidentRecorderError, EventId) port"

definition incident_recorder_new :: "IncidentIdentity \<Rightarrow> 's \<Rightarrow> 's IncidentRecorder" where
  "incident_recorder_new identity id_source =
     \<lparr>ic_identity = identity, ic_id_source = id_source, ic_active = None, ic_last_transition_sequence = 0,
      ic_suppressed_duplicate_count = 0\<rparr>"

definition active_event :: "'s IncidentRecorder \<Rightarrow> EventId option" where
  "active_event r = (case ic_active r of Some incident \<Rightarrow> Some (ai_event_id incident) | None \<Rightarrow> None)"

definition active_metadata :: "'s IncidentRecorder \<Rightarrow> ActiveIncidentMetadata option" where
  "active_metadata r =
     (case ic_active r of
        Some incident \<Rightarrow> Some \<lparr>am_event_id = ai_event_id incident, am_revision = ai_revision incident\<rparr>
      | None \<Rightarrow> None)"

definition reset_identity :: "IncidentIdentity \<Rightarrow> 's IncidentRecorder \<Rightarrow> 's IncidentRecorder" where
  "reset_identity identity r =
     r\<lparr>ic_identity := identity, ic_active := None, ic_last_transition_sequence := 0, ic_suppressed_duplicate_count := 0\<rparr>"

text \<open>The duplicate and gap checks that open \<open>record\<close> and \<open>acknowledge_without_output\<close>.\<close>

definition suppress_duplicate :: "'s IncidentRecorder \<Rightarrow> 's IncidentRecorder" where
  "suppress_duplicate r = r\<lparr>ic_suppressed_duplicate_count := saturating_add (ic_suppressed_duplicate_count r) 1\<rparr>"

definition acknowledge_without_output ::
  "DetectionTransition \<Rightarrow> ('s IncidentRecorder, IncidentRecorderError, unit) port" where
  "acknowledge_without_output transition r =
     (if dt_sequence transition \<le> ic_last_transition_sequence r then (Inr (), suppress_duplicate r)
      else if dt_sequence transition \<noteq> saturating_add (ic_last_transition_sequence r) 1 then (Inl RecTransitionGap, r)
      else (Inr (), r\<lparr>ic_active := map_option (\<lambda>incident. incident\<lparr>ai_last_state := dt_current_state transition\<rparr>) (ic_active r),
                      ic_last_transition_sequence := dt_sequence transition\<rparr>))"

definition validate_snapshot :: "ObservationSnapshot \<Rightarrow> 's IncidentRecorder \<Rightarrow> (IncidentRecorderError, unit) result" where
  "validate_snapshot snapshot r =
     (if os_interface snapshot \<noteq> ii_interface (ic_identity r) \<or> os_ifindex snapshot \<noteq> ii_ifindex (ic_identity r)
         \<or> os_generation snapshot \<noteq> ii_generation (ic_identity r)
      then Inl RecInvalidSnapshot else Inr ())"

definition or_else :: "'a option \<Rightarrow> 'a option \<Rightarrow> 'a option" where
  "or_else a b = (case a of Some _ \<Rightarrow> a | None \<Rightarrow> b)"

definition incident_job ::
  "'s IncidentRecorder \<Rightarrow> ActiveIncident \<Rightarrow> DetectionTransition \<Rightarrow> AlertCode \<Rightarrow> u64 option \<Rightarrow> ObservationSnapshot \<Rightarrow>
   (IncidentRecorderError, IncidentWriteJob) result" where
  "incident_job r incident transition code closed_at_unix_ms snapshot =
     (let rate_windows = map_arr3 (\<lambda>window.
            \<lparr>sw_window_ms = dw_window_ms window, sw_state = dw_state window, sw_coverage_ms = dw_coverage_ms window,
             sw_elapsed_ns = dw_elapsed_ns window, sw_start_unix_ms = dw_start_unix_ms window, sw_end_unix_ms = dw_end_unix_ms window,
             sw_xdp_ingress = map_option (\<lambda>hooks. hr_total (a2_0 hooks)) (dw_hooks window),
             sw_tc_egress = map_option (\<lambda>hooks. hr_total (a2_1 hooks)) (dw_hooks window)\<rparr>) (os_rate_windows snapshot);
          revision =
            \<lparr>ir_schema_version = EVIDENCE_SCHEMA_VERSION, ir_event_id = ai_event_id incident, ir_revision = ai_revision incident,
             ir_interface = ii_interface (ic_identity r), ir_ifindex = ii_ifindex (ic_identity r),
             ir_interface_generation = ii_generation (ic_identity r), ir_transition_sequence = dt_sequence transition,
             ir_previous_state = dt_previous_state transition, ir_current_state = dt_current_state transition,
             ir_transition_reason = dt_reason transition, ir_opened_at_unix_ms = ai_opened_at_unix_ms incident,
             ir_occurred_at_unix_ms = dt_occurred_at_unix_ms transition, ir_closed_at_unix_ms = closed_at_unix_ms,
             ir_alert_code = code, ir_severity = severity code, ir_evidence_status = EvStored,
             ir_xdp_ingress = ho_total (a2_0 (os_hooks snapshot)), ir_tc_egress = ho_total (a2_1 (os_hooks snapshot)),
             ir_rate_windows = rate_windows, ir_baseline = summary_from_report (os_baseline snapshot),
             ir_fingerprint_window = ds_fingerprint_window (dr_signals (os_detection snapshot)),
             ir_detection = os_detection snapshot, ir_observation_health = os_health snapshot,
             ir_vlan_visibility = os_vlan_visibility snapshot,
             ir_last_error_code = or_else (or_else (dr_last_error_code (os_detection snapshot)) (br_last_error_code (os_baseline snapshot)))
               (ss_last_error_code (os_sampling snapshot))\<rparr>
      in rbind (map_err RecInvalidSnapshot (incident_revision_validate revision)) (\<lambda>_.
         Inr \<lparr>ij_revision = revision\<rparr>))"

text \<open>The alert code of a transition while an incident is active.\<close>

definition active_code :: "DetectionState \<Rightarrow> AlertCode option" where
  "active_code state =
     (if is_anomalous state then alert_code_for_state state
      else case state of
        DsUnavailable \<Rightarrow> Some AcOutputDegraded
      | DsCooldown \<Rightarrow> Some AcIncidentCooldown
      | DsNormal \<Rightarrow> Some AcIncidentClosed
      | _ \<Rightarrow> None)"

text \<open>
  The arms of the match in \<open>record\<close>. The \<open>expect\<close> on the code of an anomalous state never panics
  (\<open>anomalous_has_code\<close> below), so the default of \<open>unwrap_or\<close> is never used.
\<close>

definition open_incident ::
  "'s event_id_source \<Rightarrow> DetectionTransition \<Rightarrow> ObservationSnapshot \<Rightarrow>
   ('s IncidentRecorder, IncidentRecorderError, IncidentWriteJob option) port" where
  "open_incident next_id transition snapshot r =
     (case next_id (ic_id_source r) of
        (Inl e, source) \<Rightarrow> (Inl e, r\<lparr>ic_id_source := source\<rparr>)
      | (Inr event_id, source) \<Rightarrow>
          let r = r\<lparr>ic_id_source := source\<rparr>;
              code = unwrap_or (alert_code_for_state (dt_current_state transition)) AcStormConfirmed;
              incident = \<lparr>ai_event_id = event_id, ai_revision = 1, ai_opened_at_unix_ms = dt_occurred_at_unix_ms transition,
                          ai_last_state = dt_current_state transition\<rparr>
          in (case incident_job r incident transition code None snapshot of
                Inl e \<Rightarrow> (Inl e, r)
              | Inr job \<Rightarrow> (Inr (Some job), r\<lparr>ic_active := Some incident\<rparr>)))"

definition revise_incident ::
  "ActiveIncident \<Rightarrow> DetectionTransition \<Rightarrow> ObservationSnapshot \<Rightarrow>
   ('s IncidentRecorder, IncidentRecorderError, IncidentWriteJob option) port" where
  "revise_incident incident transition snapshot r =
     (case active_code (dt_current_state transition) of
        Some code \<Rightarrow>
          if EVIDENCE_MAX_REVISIONS_PER_EVENT \<le> ai_revision incident then (Inl RecRevisionLimit, r)
          else
            let nxt = incident\<lparr>ai_revision := ai_revision incident + 1, ai_last_state := dt_current_state transition\<rparr>;
                closed_at = (if code = AcIncidentClosed then Some (dt_occurred_at_unix_ms transition) else None)
            in (case incident_job r nxt transition code closed_at snapshot of
                  Inl e \<Rightarrow> (Inl e, r)
                | Inr job \<Rightarrow> (Inr (Some job), r\<lparr>ic_active := (if closed_at \<noteq> None then None else Some nxt)\<rparr>))
      | None \<Rightarrow> (Inr None, r\<lparr>ic_active := Some (incident\<lparr>ai_last_state := dt_current_state transition\<rparr>)\<rparr>))"

definition record_arm ::
  "'s event_id_source \<Rightarrow> DetectionTransition \<Rightarrow> ObservationSnapshot \<Rightarrow>
   ('s IncidentRecorder, IncidentRecorderError, IncidentWriteJob option) port" where
  "record_arm next_id transition snapshot r =
     (case ic_active r of
        None \<Rightarrow> if is_anomalous (dt_current_state transition) then open_incident next_id transition snapshot r else (Inr None, r)
      | Some incident \<Rightarrow> revise_incident incident transition snapshot r)"

definition recorder_record ::
  "'s event_id_source \<Rightarrow> DetectionTransition \<Rightarrow> ObservationSnapshot \<Rightarrow>
   ('s IncidentRecorder, IncidentRecorderError, IncidentWriteJob option) port" where
  "recorder_record next_id transition snapshot r =
     (case validate_snapshot snapshot r of
        Inl e \<Rightarrow> (Inl e, r)
      | Inr _ \<Rightarrow>
          if dt_sequence transition \<le> ic_last_transition_sequence r then (Inr None, suppress_duplicate r)
          else if dt_sequence transition \<noteq> saturating_add (ic_last_transition_sequence r) 1 then (Inl RecTransitionGap, r)
          else case record_arm next_id transition snapshot r of
            (Inl e, r) \<Rightarrow> (Inl e, r)
          | (Inr job, r) \<Rightarrow> (Inr job, r\<lparr>ic_last_transition_sequence := dt_sequence transition\<rparr>))"

definition recorder_generation_ended ::
  "u64 \<Rightarrow> ObservationSnapshot \<Rightarrow> ('s IncidentRecorder, IncidentRecorderError, IncidentWriteJob option) port" where
  "recorder_generation_ended occurred_at_unix_ms snapshot r =
     (case validate_snapshot snapshot r of
        Inl e \<Rightarrow> (Inl e, r)
      | Inr _ \<Rightarrow>
        (case ic_active r of
           None \<Rightarrow> (Inr None, r)
         | Some incident \<Rightarrow>
             if EVIDENCE_MAX_REVISIONS_PER_EVENT \<le> ai_revision incident then (Inl RecRevisionLimit, r)
             else if occurred_at_unix_ms < ai_opened_at_unix_ms incident then (Inl RecClockRegression, r)
             else
               let nxt = incident\<lparr>ai_revision := ai_revision incident + 1\<rparr>;
                   transition = \<lparr>dt_sequence = ic_last_transition_sequence r, dt_previous_state = ai_last_state incident,
                                 dt_current_state = ai_last_state incident, dt_reason = SamplerPaused,
                                 dt_occurred_at_unix_ms = occurred_at_unix_ms\<rparr>
               in (case incident_job r nxt transition AcGenerationEnded (Some occurred_at_unix_ms) snapshot of
                     Inl e \<Rightarrow> (Inl e, r)
                   | Inr job \<Rightarrow> (Inr (Some job), r\<lparr>ic_active := None\<rparr>))))"

section \<open>The recorder's invariant\<close>

lemma anomalous_has_code: "is_anomalous s \<Longrightarrow> alert_code_for_state s \<noteq> None \<and> active_code s = alert_code_for_state s"
  by (cases s) (auto simp: is_anomalous_def active_code_def)

text \<open>A revision that opens an incident, and one that continues or follows another.\<close>

definition opens :: "IncidentRevisionV1 \<Rightarrow> bool" where
  "opens b \<longleftrightarrow> ir_revision b = 1 \<and> is_anomalous (ir_current_state b) \<and> ir_opened_at_unix_ms b = ir_occurred_at_unix_ms b
     \<and> ir_closed_at_unix_ms b = None"

definition succeeds :: "IncidentRevisionV1 \<Rightarrow> IncidentRevisionV1 \<Rightarrow> bool" where
  "succeeds a b \<longleftrightarrow>
     ir_transition_sequence a \<le> ir_transition_sequence b
     \<and> (if ir_closed_at_unix_ms a = None
        then ir_event_id b = ir_event_id a \<and> unat (ir_revision b) = unat (ir_revision a) + 1
             \<and> ir_opened_at_unix_ms b = ir_opened_at_unix_ms a
        else opens b)"

definition revision_ok :: "IncidentIdentity \<Rightarrow> IncidentRevisionV1 \<Rightarrow> bool" where
  "revision_ok identity b \<longleftrightarrow>
     incident_revision_validate b = Inr () \<and> ir_interface b = ii_interface identity \<and> ir_ifindex b = ii_ifindex identity
     \<and> ir_interface_generation b = ii_generation identity
     \<and> (ir_closed_at_unix_ms b \<noteq> None) = (ir_alert_code b \<in> {AcIncidentClosed, AcGenerationEnded})"

definition log_ok :: "IncidentIdentity \<Rightarrow> IncidentRevisionV1 list \<Rightarrow> bool" where
  "log_ok identity log \<longleftrightarrow> (log = [] \<or> opens (hd log)) \<and> successively succeeds log \<and> list_all (revision_ok identity) log"

datatype RecorderOp = RecRecord DetectionTransition ObservationSnapshot | RecAcknowledge DetectionTransition
  | RecEnded u64 ObservationSnapshot | RecReset IncidentIdentity

definition emitted :: "('e, IncidentWriteJob option) result \<Rightarrow> IncidentRevisionV1 list" where
  "emitted x = (case x of Inr (Some job) \<Rightarrow> [ij_revision job] | _ \<Rightarrow> [])"

text \<open>A run of the recorder with the log of what it emitted since the last reset.\<close>

fun recorder_step :: "'s event_id_source \<Rightarrow> 's IncidentRecorder \<times> IncidentRevisionV1 list \<Rightarrow> RecorderOp \<Rightarrow>
   's IncidentRecorder \<times> IncidentRevisionV1 list" where
  "recorder_step next_id (r, log) (RecRecord t s) = (case recorder_record next_id t s r of (x, r') \<Rightarrow> (r', log @ emitted x))"
| "recorder_step next_id (r, log) (RecAcknowledge t) = (snd (acknowledge_without_output t r), log)"
| "recorder_step next_id (r, log) (RecEnded ms s) = (case recorder_generation_ended ms s r of (x, r') \<Rightarrow> (r', log @ emitted x))"
| "recorder_step next_id (r, log) (RecReset identity) = (reset_identity identity r, [])"

definition recorder_inv :: "'s IncidentRecorder \<times> IncidentRevisionV1 list \<Rightarrow> bool" where
  "recorder_inv rl \<longleftrightarrow>
     log_ok (ic_identity (fst rl)) (snd rl)
     \<and> (snd rl = [] \<or> ir_transition_sequence (last (snd rl)) \<le> ic_last_transition_sequence (fst rl))
     \<and> (case ic_active (fst rl) of
          None \<Rightarrow> snd rl = [] \<or> ir_closed_at_unix_ms (last (snd rl)) \<noteq> None
        | Some incident \<Rightarrow> snd rl \<noteq> [] \<and> ir_closed_at_unix_ms (last (snd rl)) = None
            \<and> ir_event_id (last (snd rl)) = ai_event_id incident \<and> ir_revision (last (snd rl)) = ai_revision incident
            \<and> ir_opened_at_unix_ms (last (snd rl)) = ai_opened_at_unix_ms incident)"

lemma job_fields:
  assumes "incident_job r incident t code closed s = Inr job"
  shows "incident_revision_validate (ij_revision job) = Inr ()" "ir_event_id (ij_revision job) = ai_event_id incident"
    "ir_revision (ij_revision job) = ai_revision incident" "ir_opened_at_unix_ms (ij_revision job) = ai_opened_at_unix_ms incident"
    "ir_closed_at_unix_ms (ij_revision job) = closed" "ir_transition_sequence (ij_revision job) = dt_sequence t"
    "ir_current_state (ij_revision job) = dt_current_state t" "ir_occurred_at_unix_ms (ij_revision job) = dt_occurred_at_unix_ms t"
    "ir_alert_code (ij_revision job) = code" "ir_interface (ij_revision job) = ii_interface (ic_identity r)"
    "ir_ifindex (ij_revision job) = ii_ifindex (ic_identity r)" "ir_interface_generation (ij_revision job) = ii_generation (ic_identity r)"
  using assms by (auto simp: incident_job_def Let_def rbind_Inr_conv)

lemma log_ok_snoc:
  assumes "log_ok identity log" "revision_ok identity b" "if log = [] then opens b else succeeds (last log) b"
  shows "log_ok identity (log @ [b])"
  using assms by (cases "log = []") (auto simp: log_ok_def successively_append_iff)

text \<open>Every way of emitting a job extends a log that satisfies the invariant.\<close>

lemma opening_step:
  assumes inv: "recorder_inv (r, log)" and none: "ic_active r = None"
    and job: "incident_job r0 \<lparr>ai_event_id = e, ai_revision = 1, ai_opened_at_unix_ms = dt_occurred_at_unix_ms t, ai_last_state = st\<rparr>
      t code None s = Inr job" "ic_identity r0 = ic_identity r"
    and t: "ic_last_transition_sequence r < dt_sequence t" "is_anomalous (dt_current_state t)"
      "code \<notin> {AcIncidentClosed, AcGenerationEnded}"
  shows "log_ok (ic_identity r) (log @ [ij_revision job])"
proof (rule log_ok_snoc)
  note f = job_fields [OF job(1)]
  show "revision_ok (ic_identity r) (ij_revision job)" using f job(2) t(3) by (simp add: revision_ok_def)
  have "opens (ij_revision job)" using f t(2) by (simp add: opens_def)
  moreover have "succeeds (last log) (ij_revision job)" if "log \<noteq> []"
    using inv none that f(6) t(1) calculation by (auto simp: recorder_inv_def succeeds_def)
  ultimately show "if log = [] then opens (ij_revision job) else succeeds (last log) (ij_revision job)" by simp
qed (use inv in \<open>simp add: recorder_inv_def\<close>)

lemma continuing_step:
  assumes inv: "recorder_inv (r, log)" and some: "ic_active r = Some incident" and rev: "ai_revision incident < 16"
    and job: "incident_job r nxt t code closed s = Inr job"
    and nxt: "ai_event_id nxt = ai_event_id incident" "ai_revision nxt = ai_revision incident + 1"
      "ai_opened_at_unix_ms nxt = ai_opened_at_unix_ms incident"
    and t: "ic_last_transition_sequence r \<le> dt_sequence t" "(closed \<noteq> None) = (code \<in> {AcIncidentClosed, AcGenerationEnded})"
  shows "log_ok (ic_identity r) (log @ [ij_revision job])"
proof (rule log_ok_snoc)
  note f = job_fields [OF job]
  show "revision_ok (ic_identity r) (ij_revision job)" using f t(2) by (simp add: revision_ok_def)
  have "unat (ai_revision incident + 1) = unat (ai_revision incident) + 1"
    using rev by (simp add: unat_word_ariths word_less_nat_alt)
  then have "log \<noteq> []" "succeeds (last log) (ij_revision job)"
    using inv some f nxt t(1) by (auto simp: recorder_inv_def succeeds_def)
  then show "if log = [] then opens (ij_revision job) else succeeds (last log) (ij_revision job)" by simp
qed (use inv in \<open>simp add: recorder_inv_def\<close>)

lemma log_kept:
  assumes "recorder_inv (r, log)" "ic_identity r' = ic_identity r" "ic_last_transition_sequence r \<le> ic_last_transition_sequence r'"
    and "ic_active r' = ic_active r \<or> (\<exists>st. ic_active r' = map_option (\<lambda>incident. incident\<lparr>ai_last_state := st\<rparr>) (ic_active r))"
  shows "recorder_inv (r', log)"
  using assms by (cases "ic_active r") (auto simp: recorder_inv_def intro: order_trans)

lemma acknowledge_inv:
  assumes inv: "recorder_inv (r, log)" shows "recorder_inv (snd (acknowledge_without_output t r), log)"
  by (rule log_kept [OF inv]) (auto simp: acknowledge_without_output_def suppress_duplicate_def)

lemma ended_inv:
  assumes inv: "recorder_inv (r, log)" and op: "recorder_generation_ended ms s r = (x, r')"
  shows "recorder_inv (r', log @ emitted x)"
proof (cases "ic_active r")
  case None
  with op have "r' = r \<and> emitted x = []"
    by (cases "validate_snapshot s r") (auto simp: recorder_generation_ended_def emitted_def)
  with inv show ?thesis by simp
next
  case (Some incident)
  let ?n = "incident\<lparr>ai_revision := ai_revision incident + 1\<rparr>"
  let ?t = "\<lparr>dt_sequence = ic_last_transition_sequence r, dt_previous_state = ai_last_state incident,
          dt_current_state = ai_last_state incident, dt_reason = SamplerPaused, dt_occurred_at_unix_ms = ms\<rparr>"
  show ?thesis
  proof (cases "is_ok (validate_snapshot s r) \<and> ai_revision incident < 16 \<and> \<not> ms < ai_opened_at_unix_ms incident
      \<and> is_ok (incident_job r ?n ?t AcGenerationEnded (Some ms) s)")
    case True
    then obtain job where job: "incident_job r ?n ?t AcGenerationEnded (Some ms) s = Inr job" by (auto simp: is_ok_conv)
    have "x = Inr (Some job)" "r' = r\<lparr>ic_active := None\<rparr>"
      using op True Some job by (auto simp: recorder_generation_ended_def is_ok_conv Let_def not_le split: if_splits)
    moreover have "log_ok (ic_identity r) (log @ [ij_revision job])"
      by (rule continuing_step [OF inv Some _ job]) (use True in simp_all)
    ultimately show ?thesis using job_fields [OF job] by (simp add: recorder_inv_def emitted_def)
  next
    case False
    with op Some have "r' = r \<and> emitted x = []"
      by (cases "validate_snapshot s r"; cases "incident_job r ?n ?t AcGenerationEnded (Some ms) s")
        (auto simp: recorder_generation_ended_def emitted_def Let_def not_le split: if_splits)
    with inv show ?thesis by simp
  qed
qed

lemma open_inv:
  assumes inv: "recorder_inv (r, log)" and none: "ic_active r = None" "is_anomalous (dt_current_state t)"
    and seq: "ic_last_transition_sequence r < dt_sequence t" and op: "open_incident next_id t s r = (Inr job, r')"
  shows "recorder_inv (r'\<lparr>ic_last_transition_sequence := dt_sequence t\<rparr>, log @ emitted (Inr job))"
proof -
  obtain code where code: "alert_code_for_state (dt_current_state t) = Some code" using none anomalous_has_code by blast
  have coded: "code \<notin> {AcIncidentClosed, AcGenerationEnded}"
    using code none(2) by (cases "dt_current_state t") (auto simp: is_anomalous_def)
  from op code obtain source e j where r': "r' = r\<lparr>ic_id_source := source, ic_active := Some
      \<lparr>ai_event_id = e, ai_revision = 1, ai_opened_at_unix_ms = dt_occurred_at_unix_ms t, ai_last_state = dt_current_state t\<rparr>\<rparr>"
    "job = Some j"
    and j: "incident_job (r\<lparr>ic_id_source := source\<rparr>) \<lparr>ai_event_id = e, ai_revision = 1,
       ai_opened_at_unix_ms = dt_occurred_at_unix_ms t, ai_last_state = dt_current_state t\<rparr> t code None s = Inr j"
    by (auto simp: open_incident_def Let_def split: prod.splits sum.splits)
  have "log_ok (ic_identity r) (log @ [ij_revision j])"
    by (rule opening_step [OF inv none(1) j _ seq none(2) coded]) simp
  then show ?thesis using job_fields [OF j] r' by (simp add: recorder_inv_def emitted_def)
qed

lemma revise_inv:
  assumes inv: "recorder_inv (r, log)" and some: "ic_active r = Some incident"
    and seq: "ic_last_transition_sequence r < dt_sequence t" and op: "revise_incident incident t s r = (Inr job, r')"
  shows "recorder_inv (r'\<lparr>ic_last_transition_sequence := dt_sequence t\<rparr>, log @ emitted (Inr job))"
proof (cases "active_code (dt_current_state t)")
  case None
  with op have "job = None" "r' = r\<lparr>ic_active := Some (incident\<lparr>ai_last_state := dt_current_state t\<rparr>)\<rparr>"
    by (simp_all add: revise_incident_def)
  then show ?thesis using some seq by (auto intro!: log_kept [OF inv] simp: emitted_def)
next
  case (Some code)
  let ?n = "incident\<lparr>ai_revision := ai_revision incident + 1, ai_last_state := dt_current_state t\<rparr>"
  let ?c = "if code = AcIncidentClosed then Some (dt_occurred_at_unix_ms t) else None"
  have coded: "code \<noteq> AcGenerationEnded"
    using Some by (cases "dt_current_state t") (auto simp: active_code_def is_anomalous_def)
  from op Some obtain j where j: "incident_job r ?n t code ?c s = Inr j" "ai_revision incident < 16" "job = Some j"
    "r' = r\<lparr>ic_active := (if ?c \<noteq> None then None else Some ?n)\<rparr>"
    by (simp add: revise_incident_def Let_def not_le split: sum.splits if_splits)
  have "log_ok (ic_identity r) (log @ [ij_revision j])"
    by (rule continuing_step [OF inv some j(2) j(1)]) (use seq coded in simp_all)
  then show ?thesis using job_fields [OF j(1)] j(3,4) by (simp add: recorder_inv_def emitted_def)
qed

lemma arm_error_kept:
  assumes "recorder_inv (r, log)" "record_arm next_id t s r = (Inl e, r')"
  shows "recorder_inv (r', log)"
proof -
  have "\<exists>source. r' = r\<lparr>ic_id_source := source\<rparr>"
    using assms(2) by (auto simp: record_arm_def open_incident_def revise_incident_def Let_def
        split: option.splits prod.splits sum.splits if_splits intro: exI [of _ "ic_id_source r"])
  then show ?thesis by (auto intro!: log_kept [OF assms(1)])
qed

lemma record_inv:
  assumes inv: "recorder_inv (r, log)" and op: "recorder_record next_id t s r = (x, r')"
  shows "recorder_inv (r', log @ emitted x)"
proof -
  consider "r' = r" "emitted x = []" | "r' = suppress_duplicate r" "emitted x = []"
    | e where "record_arm next_id t s r = (Inl e, r')" "emitted x = []"
    | job q where "record_arm next_id t s r = (Inr job, q)" "x = Inr job" "r' = q\<lparr>ic_last_transition_sequence := dt_sequence t\<rparr>"
        "ic_last_transition_sequence r < dt_sequence t"
    using op by (auto simp: recorder_record_def emitted_def not_le split: sum.splits if_splits prod.splits)
  then show ?thesis
  proof cases
    case 2
    then show ?thesis by (auto intro!: log_kept [OF inv] simp: suppress_duplicate_def)
  next
    case 3
    with arm_error_kept [OF inv] show ?thesis by simp
  next
    case (4 job q)
    show ?thesis
    proof (cases "ic_active r")
      case None
      show ?thesis
      proof (cases "is_anomalous (dt_current_state t)")
        case True
        with 4 None open_inv [OF inv None True 4(4)] show ?thesis by (simp add: record_arm_def)
      next
        case False
        with 4 None show ?thesis by (auto intro!: log_kept [OF inv] simp: record_arm_def emitted_def)
      qed
    next
      case (Some incident)
      with 4 revise_inv [OF inv Some 4(4)] show ?thesis by (simp add: record_arm_def)
    qed
  qed (use inv in simp)
qed

interpretation recorder: machine "recorder_step next_id" recorder_inv for next_id
proof
  fix s :: "'a IncidentRecorder \<times> IncidentRevisionV1 list" and op
  assume inv: "recorder_inv s"
  obtain r log where s: "s = (r, log)" by fastforce
  show "recorder_inv (recorder_step next_id s op)"
  proof (cases op)
    case (RecReset identity)
    then show ?thesis by (simp add: s recorder_inv_def reset_identity_def log_ok_def)
  qed (use inv s in \<open>auto simp: acknowledge_inv intro: record_inv ended_inv split: prod.split\<close>)
qed

lemma code_unless_warming: "s \<noteq> DsWarmingUp \<Longrightarrow> active_code s \<noteq> None"
  by (cases s) (auto simp: active_code_def is_anomalous_def)

section \<open>Properties\<close>

text \<open>
  \<^bold>\<open>C13.\<close> Whatever transitions are recorded or acknowledged, whenever generations end or the identity is
  reset, and however the identifier source behaves, the revisions emitted under one identity form whole
  incidents: each opens with revision one in an anomalous state, its revisions are numbered without a gap
  up to at most sixteen, keep its identifier and opening time, and follow the transitions' order; only a
  closing or generation-ended revision carries a closing time, and nothing follows it but a new incident.
  Every revision validates.
\<close>

theorem incidents_are_well_formed:
  "case foldl (recorder_step next_id) (incident_recorder_new identity source, []) ops of
     (r, log) \<Rightarrow> log_ok (ic_identity r) log \<and> list_all (\<lambda>b. unat (ir_revision b) \<in> {1..16}) log
       \<and> (active_event r = None) = (log = [] \<or> is_some_and (ir_closed_at_unix_ms (last log)) (\<lambda>_. True))"
proof -
  have "recorder_inv (incident_recorder_new identity source, [])"
    by (simp add: recorder_inv_def incident_recorder_new_def log_ok_def)
  then have "recorder_inv (foldl (recorder_step next_id) (incident_recorder_new identity source, []) ops)"
    by (rule recorder.run_inv)
  then show ?thesis
    by (auto simp: recorder_inv_def log_ok_def active_event_def revision_ok_def incident_revision_validate_def list_all_iff
        is_some_and_conv word_le_nat_alt word_less_nat_alt not_less Suc_le_eq unat_gt_0 split: prod.splits option.splits if_splits)
qed

text \<open>A recorder whose incident has reached the limit: which one, and that it stays.\<close>

definition capped :: "EventId \<Rightarrow> 's IncidentRecorder \<Rightarrow> bool" where
  "capped event r \<longleftrightarrow> (\<exists>incident. ic_active r = Some incident \<and> ai_event_id incident = event \<and> ai_revision incident = 16)"

lemma capped_record:
  assumes "capped event r"
  shows "capped event (snd (recorder_record next_id t s r)) \<and> emitted (fst (recorder_record next_id t s r)) = []"
  using assms
  by (cases "validate_snapshot s r"; cases "active_code (dt_current_state t)")
    (auto simp: capped_def recorder_record_def record_arm_def revise_incident_def suppress_duplicate_def emitted_def)

lemma capped_step:
  assumes "capped event r" "\<forall>i. op \<noteq> RecReset i"
  shows "\<exists>r'. recorder_step next_id (r, log) op = (r', log) \<and> capped event r'"
proof (cases op)
  case (RecRecord t s)
  then show ?thesis using capped_record [OF assms(1), of next_id t s] by (simp add: case_prod_beta)
next
  case (RecAcknowledge t)
  then show ?thesis using assms(1) by (auto simp: capped_def acknowledge_without_output_def suppress_duplicate_def)
next
  case (RecEnded ms s)
  then show ?thesis using assms(1)
    by (cases "validate_snapshot s r") (auto simp: capped_def recorder_generation_ended_def emitted_def)
qed (use assms in simp)

lemma capped_run:
  assumes "capped event r" "list_all (\<lambda>op. \<forall>i. op \<noteq> RecReset i) ops"
  shows "\<exists>r'. foldl (recorder_step next_id) (r, log) ops = (r', log) \<and> capped event r'"
  using assms
proof (induction ops arbitrary: r)
  case (Cons op ops)
  then obtain r' where "recorder_step next_id (r, log) op = (r', log)" "capped event r'"
    using capped_step [of event r op next_id log] by auto
  with Cons show ?case by simp
qed simp

lemma next_in_sequence: "a < b \<Longrightarrow> b = saturating_add a 1 \<longleftrightarrow> unat b = unat a + 1" for a b :: u64
proof -
  assume "a < b"
  then have "unat (saturating_add a 1) = unat a + 1"
    using saturating_add_unat [of a 1] unat_lt_64 [of b] by (simp add: word_less_nat_alt min_def)
  moreover have "b = saturating_add a 1 \<longleftrightarrow> unat b = unat (saturating_add a 1)" by (auto intro: unsigned_word_eqI)
  ultimately show ?thesis by simp
qed


definition idle_snapshot :: ObservationSnapshot where
  "idle_snapshot = \<lparr>os_schema_version = 1, os_interface = InterfaceName ''eth0'', os_ifindex = 7, os_generation = 1,
     os_captured_at_unix_ms = 4, os_vlan_visibility = VlanUnknown, os_health = Healthy,
     os_hooks = Arr2 (idle_hook ExternalXdpIngress) (idle_hook PhysicalTcEgress), os_sampling = sampling_status idle_history,
     os_rate_windows = map_arr3 (\<lambda>w. into_detailed (CalcStale w 0)) RATE_WINDOW_MS,
     os_baseline = baseline_report_learning \<lparr>ri_ifindex = 7, ri_generation = 1\<rparr> 4, os_fingerprints = fingerprint_report_empty,
     os_detection = report_warming \<lparr>ri_ifindex = 7, ri_generation = 1\<rparr> 4\<rparr>"

definition full_recorder :: "unit IncidentRecorder" where
  "full_recorder = (incident_recorder_new \<lparr>ii_interface = InterfaceName ''eth0'', ii_ifindex = 7, ii_generation = 1\<rparr> ())
      \<lparr>ic_active := Some \<lparr>ai_event_id = EventId [], ai_revision = 16, ai_opened_at_unix_ms = 1, ai_last_state = DsIngressStorm\<rparr>,
       ic_last_transition_sequence := 20\<rparr>"

definition closing_transition :: DetectionTransition where
  "closing_transition = \<lparr>dt_sequence = 21, dt_previous_state = DsCooldown, dt_current_state = DsNormal,
     dt_reason = CooldownCompleted, dt_occurred_at_unix_ms = 5\<rparr>"

definition no_identifiers :: "unit event_id_source" where
  "no_identifiers source = (Inl RecIdUnavailable, source)"


end
