(* ===== verification/Ownership.thy ===== *)
theory Ownership
  imports Observation
begin

text \<open>
  The ownership journal (\<open>l2-loop-agent/src/ownership.rs\<close>): run identifiers, the paths a run may own,
  the identities of the attached programs and pinned maps, and the journal's validation and storage.
  The file system is a parameter, a record of fallible calls on a state of its own; so is the JSON codec.
\<close>

section \<open>Definitions\<close>

subsection \<open>Paths\<close>

text \<open>A path is the list of its components, as \<open>Path::components\<close> gives it; paths compare by components.\<close>

datatype Component = RootDir | CurDir | ParentDir | Normal string

type_synonym path = "Component list"

definition is_absolute :: "path \<Rightarrow> bool" where
  "is_absolute p \<longleftrightarrow> (case p of RootDir # _ \<Rightarrow> True | _ \<Rightarrow> False)"

fun strip_prefix :: "path \<Rightarrow> path \<Rightarrow> path option" where
  "strip_prefix [] p = Some p"
| "strip_prefix (b # base) (c # p) = (if b = c then strip_prefix base p else None)"
| "strip_prefix (b # base) [] = None"

definition file_name :: "path \<Rightarrow> string option" where
  "file_name p = (if p = [] then None else case last p of Normal name \<Rightarrow> Some name | _ \<Rightarrow> None)"

text \<open>\<open>Path::parent\<close>: the path without its final component; the root and the empty path have none.\<close>

definition parent :: "path \<Rightarrow> path option" where
  "parent p = (if p = [] \<or> last p = RootDir then None else Some (butlast p))"

subsection \<open>Run identifiers and roots\<close>

definition OWNERSHIP_SCHEMA_VERSION :: u16 where [simp]: "OWNERSHIP_SCHEMA_VERSION = 2"
definition ABI_VERSION :: u16 where [simp]: "ABI_VERSION = 1"
definition TEST_JOURNAL_ROOT :: path where
  "TEST_JOURNAL_ROOT = [RootDir, Normal ''run'', Normal ''l2-loop'', Normal ''tests'']"
definition TEST_PIN_BASE :: path where
  "TEST_PIN_BASE = [RootDir, Normal ''sys'', Normal ''fs'', Normal ''bpf'', Normal ''l2-loop'', Normal ''test'']"
definition OWNED_MAP_NAMES :: "string list" where
  "OWNED_MAP_NAMES = [''IFACE_CONFIG'', ''HOOK_STATS'', ''FINGERPRINTS'', ''PROBE_REGISTRY'', ''PROBE_STATS'', ''RATE_POLICY'']"

datatype OwnershipFileType = OwFile | OwDirectory | OwSymlink | OwOther

record OwnershipMetadata =
  om_file_type :: OwnershipFileType
  om_mode :: u32

text \<open>\<open>io::Error\<close> is its kind: not found, or any other.\<close>

datatype IoError = NotFound | OtherIo string

datatype OwnershipError = OwInvalidRunId | OwInvalidJournalPath | OwInvalidPinPath | OwPinRootTarget | OwSymlinkAt path
  | OwSchemaMismatch u16 u16 | OwAbiMismatch u16 u16 | OwIdentityMismatch string | OwJson string | OwIo path IoError

datatype RunId = RunId (run_id_str: string)

definition run_id_parse :: "string \<Rightarrow> (OwnershipError, RunId) result" where
  "run_id_parse value =
     (if length value = 32 \<and> list_all (\<lambda>byte. is_ascii_digit byte \<or> 97 \<le> (of_char byte :: nat) \<and> of_char byte \<le> (102 :: nat)) value
      then Inr (RunId value) else Inl OwInvalidRunId)"

definition validate_absolute_root :: "path \<Rightarrow> OwnershipError \<Rightarrow> (OwnershipError, unit) result" where
  "validate_absolute_root root error =
     (if \<not> is_absolute root \<or> list_ex (\<lambda>component. component \<in> {ParentDir, CurDir}) root then Inl error else Inr ())"

record JournalPath =
  jp_root :: path
  jp_path :: path

definition journal_for_root :: "path \<Rightarrow> RunId \<Rightarrow> (OwnershipError, JournalPath) result" where
  "journal_for_root root run_id =
     rbind (validate_absolute_root root OwInvalidJournalPath) (\<lambda>_.
     Inr \<lparr>jp_root = root, jp_path = root @ [Normal (run_id_str run_id @ ''.json'')]\<rparr>)"

definition journal_new :: "RunId \<Rightarrow> (OwnershipError, JournalPath) result" where
  "journal_new run_id = journal_for_root TEST_JOURNAL_ROOT run_id"

text \<open>\<open>with_extension("json.tmp")\<close> on a file name that ends in \<open>.json\<close>: the extension is replaced.\<close>

definition temporary_path :: "JournalPath \<Rightarrow> path" where
  "temporary_path j =
     (case file_name (jp_path j) of
        Some name \<Rightarrow> butlast (jp_path j) @ [Normal (take (length name - 5) name @ ''.json.tmp'')]
      | None \<Rightarrow> jp_path j)"

datatype TestPinRoot = TestPinRoot (pin_root_path: path)

definition pin_root_for_root :: "path \<Rightarrow> RunId \<Rightarrow> (OwnershipError, TestPinRoot) result" where
  "pin_root_for_root root run_id =
     rbind (validate_absolute_root root OwInvalidPinPath) (\<lambda>_. Inr (TestPinRoot (root @ [Normal (run_id_str run_id)])))"

definition pin_root_new :: "RunId \<Rightarrow> (OwnershipError, TestPinRoot) result" where
  "pin_root_new run_id = pin_root_for_root TEST_PIN_BASE run_id"

fun is_normal :: "Component \<Rightarrow> bool" where
  "is_normal (Normal _) = True"
| "is_normal _ = False"

definition validate_lexical :: "TestPinRoot \<Rightarrow> path \<Rightarrow> (OwnershipError, unit) result" where
  "validate_lexical pins target =
     (if \<not> is_absolute target then Inl OwInvalidPinPath
      else
        rbind (ok_or OwInvalidPinPath (strip_prefix (pin_root_path pins) target)) (\<lambda>suffix.
        case suffix of
          [] \<Rightarrow> Inl OwPinRootTarget
        | first # rest \<Rightarrow>
            if \<not> is_normal first \<or> list_ex (\<lambda>component. \<not> is_normal component) rest then Inl OwInvalidPinPath
            else Inr ()))"

subsection \<open>Owned identities\<close>

datatype XdpAttachMode = XdpNative | XdpGeneric

record OwnedXdp =
  ox_ifindex :: u32
  ox_mode :: XdpAttachMode
  ox_program_id :: u32
  ox_program_tag :: "u8 list"
  ox_link_id :: "u32 option"

record XdpKernelIdentity =
  xk_ifindex :: u32
  xk_mode :: XdpAttachMode
  xk_program_id :: u32
  xk_program_tag :: "u8 list"
  xk_link_id :: "u32 option"

definition xdp_kernel_identity_from :: "OwnedXdp \<Rightarrow> XdpKernelIdentity" where
  "xdp_kernel_identity_from value =
     \<lparr>xk_ifindex = ox_ifindex value, xk_mode = ox_mode value, xk_program_id = ox_program_id value,
      xk_program_tag = ox_program_tag value, xk_link_id = ox_link_id value\<rparr>"

definition owned_xdp_matches :: "OwnedXdp \<Rightarrow> XdpKernelIdentity \<Rightarrow> bool" where
  "owned_xdp_matches self current \<longleftrightarrow> xdp_kernel_identity_from self = current"

datatype TcHook = TcHookIngress | TcHookEgress

record OwnedTc =
  ot_ifindex :: u32
  ot_hook :: TcHook
  ot_priority :: u16
  ot_handle :: u32
  ot_program_id :: u32
  ot_created_clsact :: bool

record TcKernelIdentity =
  tk_ifindex :: u32
  tk_hook :: TcHook
  tk_priority :: u16
  tk_handle :: u32
  tk_program_id :: u32

definition tc_kernel_identity_from :: "OwnedTc \<Rightarrow> TcKernelIdentity" where
  "tc_kernel_identity_from value =
     \<lparr>tk_ifindex = ot_ifindex value, tk_hook = ot_hook value, tk_priority = ot_priority value, tk_handle = ot_handle value,
      tk_program_id = ot_program_id value\<rparr>"

definition owned_tc_matches :: "OwnedTc \<Rightarrow> TcKernelIdentity \<Rightarrow> bool" where
  "owned_tc_matches self current \<longleftrightarrow> tc_kernel_identity_from self = current"

record OwnedMapPin =
  mp_name :: string
  mp_path :: path
  mp_map_id :: u32

definition owned_map_pin_validate :: "OwnedMapPin \<Rightarrow> (OwnershipError, unit) result" where
  "owned_map_pin_validate self =
     (if mp_map_id self = 0 \<or> \<not> List.member OWNED_MAP_NAMES (mp_name self) \<or> \<not> is_absolute (mp_path self)
         \<or> list_ex (\<lambda>component. component \<in> {ParentDir, CurDir}) (mp_path self) \<or> file_name (mp_path self) \<noteq> Some (mp_name self)
      then Inl (OwIdentityMismatch ''invalid owned map identity'')
      else Inr ())"

definition owned_map_pin_new :: "string \<Rightarrow> path \<Rightarrow> u32 \<Rightarrow> (OwnershipError, OwnedMapPin) result" where
  "owned_map_pin_new name path map_id =
     (let owned = \<lparr>mp_name = name, mp_path = path, mp_map_id = map_id\<rparr>
      in rbind (owned_map_pin_validate owned) (\<lambda>_. Inr owned))"

record OwnershipRecord =
  or_schema_version :: u16
  or_abi_version :: u16
  or_generation :: u64
  or_ifindex :: u32
  or_xdp :: "OwnedXdp option"
  or_tc :: "OwnedTc list"
  or_map_pins :: "OwnedMapPin list"
  or_created_at_unix_seconds :: u64

text \<open>The loop over the pins, with the pins before the current one.\<close>

fun unique_pins :: "OwnedMapPin list \<Rightarrow> OwnedMapPin list \<Rightarrow> (OwnershipError, unit) result" where
  "unique_pins previous [] = Inr ()"
| "unique_pins previous (pin # rest) =
     rbind (owned_map_pin_validate pin) (\<lambda>_.
     if list_ex (\<lambda>p. mp_name p = mp_name pin \<or> mp_path p = mp_path pin \<or> mp_map_id p = mp_map_id pin) previous
     then Inl (OwIdentityMismatch ''owned map identities are not unique'')
     else unique_pins (previous @ [pin]) rest)"

definition validate_owned_maps :: "OwnershipRecord \<Rightarrow> (OwnershipError, unit) result" where
  "validate_owned_maps self =
     (if length (or_map_pins self) \<noteq> length OWNED_MAP_NAMES
      then Inl (OwIdentityMismatch ''owned map set is incomplete'')
      else
        rbind (unique_pins [] (or_map_pins self)) (\<lambda>_.
        if list_ex (\<lambda>required. \<not> list_ex (\<lambda>pin. mp_name pin = required) (or_map_pins self)) OWNED_MAP_NAMES
        then Inl (OwIdentityMismatch ''owned map set does not match the public ABI'')
        else Inr ()))"

subsection \<open>The store\<close>

record 'f OwnershipFileSystem =
  fs_metadata :: "path \<Rightarrow> ('f, IoError, OwnershipMetadata) port"
  fs_read :: "path \<Rightarrow> ('f, IoError, u8 list) port"
  fs_write_new_sync :: "path \<Rightarrow> u8 list \<Rightarrow> u32 \<Rightarrow> ('f, IoError, unit) port"
  fs_rename_replace :: "path \<Rightarrow> path \<Rightarrow> ('f, IoError, unit) port"
  fs_sync_directory :: "path \<Rightarrow> ('f, IoError, unit) port"

text \<open>\<open>.map_err(|source| io_error(path, source))\<close> on a call.\<close>

definition io_call :: "path \<Rightarrow> ('f, IoError, 'a) port \<Rightarrow> ('f, OwnershipError, 'a) port" where
  "io_call path call f = (case call f of (Inl source, g) \<Rightarrow> (Inl (OwIo path source), g) | (Inr a, g) \<Rightarrow> (Inr a, g))"

definition reject_symlink :: "'f OwnershipFileSystem \<Rightarrow> path \<Rightarrow> ('f, OwnershipError, unit) port" where
  "reject_symlink fs path =
     port_bind (io_call path (fs_metadata fs path)) (\<lambda>metadata.
     if om_file_type metadata = OwSymlink then port_lift (Inl (OwSymlinkAt path)) else port_return ())"

text \<open>The walk below the pin root, component by component; \<open>current\<close> is the path so far.\<close>

fun reject_symlinks_below :: "'f OwnershipFileSystem \<Rightarrow> path \<Rightarrow> path \<Rightarrow> ('f, OwnershipError, unit) port" where
  "reject_symlinks_below fs current [] = port_return ()"
| "reject_symlinks_below fs current (component # rest) =
     (if \<not> is_normal component then port_lift (Inl OwInvalidPinPath)
      else port_bind (reject_symlink fs (current @ [component])) (\<lambda>_. reject_symlinks_below fs (current @ [component]) rest))"

definition validate_existing :: "TestPinRoot \<Rightarrow> 'f OwnershipFileSystem \<Rightarrow> path \<Rightarrow> ('f, OwnershipError, unit) port" where
  "validate_existing pins fs target =
     port_bind (port_lift (validate_lexical pins target)) (\<lambda>_.
     port_bind (reject_symlink fs (pin_root_path pins)) (\<lambda>_.
     port_bind (port_lift (ok_or OwInvalidPinPath (strip_prefix (pin_root_path pins) target))) (\<lambda>suffix.
     reject_symlinks_below fs (pin_root_path pins) suffix)))"

definition validate_record_identity :: "OwnershipRecord \<Rightarrow> u16 \<Rightarrow> u32 \<Rightarrow> u64 \<Rightarrow> (OwnershipError, unit) result" where
  "validate_record_identity record expected_abi_version expected_ifindex expected_generation =
     (if or_schema_version record \<noteq> OWNERSHIP_SCHEMA_VERSION
      then Inl (OwSchemaMismatch OWNERSHIP_SCHEMA_VERSION (or_schema_version record))
      else if or_abi_version record \<noteq> expected_abi_version \<or> or_abi_version record \<noteq> ABI_VERSION
      then Inl (OwAbiMismatch expected_abi_version (or_abi_version record))
      else if or_ifindex record = 0 \<or> or_generation record = 0 \<or> or_ifindex record \<noteq> expected_ifindex
              \<or> or_generation record \<noteq> expected_generation
      then Inl (OwIdentityMismatch ''journal generation or ifindex does not match'')
      else if is_some_and (or_xdp record) (\<lambda>xdp. ox_ifindex xdp \<noteq> or_ifindex record)
              \<or> list_ex (\<lambda>tc. ot_ifindex tc \<noteq> or_ifindex record) (or_tc record)
      then Inl (OwIdentityMismatch ''owned hook ifindex does not match journal'')
      else validate_owned_maps record)"

fun validate_pins :: "TestPinRoot \<Rightarrow> 'f OwnershipFileSystem \<Rightarrow> OwnedMapPin list \<Rightarrow> ('f, OwnershipError, unit) port" where
  "validate_pins pins fs [] = port_return ()"
| "validate_pins pins fs (pin # rest) = port_bind (validate_existing pins fs (mp_path pin)) (\<lambda>_. validate_pins pins fs rest)"

definition validate_record ::
  "TestPinRoot \<Rightarrow> 'f OwnershipFileSystem \<Rightarrow> OwnershipRecord \<Rightarrow> u16 \<Rightarrow> u32 \<Rightarrow> u64 \<Rightarrow> ('f, OwnershipError, unit) port" where
  "validate_record pins fs record expected_abi_version expected_ifindex expected_generation =
     port_bind (port_lift (validate_record_identity record expected_abi_version expected_ifindex expected_generation)) (\<lambda>_.
     validate_pins pins fs (or_map_pins record))"

record OwnershipCodec =
  oj_to_vec_pretty :: "OwnershipRecord \<Rightarrow> (string, u8 list) result"
  oj_from_slice :: "u8 list \<Rightarrow> (string, OwnershipRecord) result"

definition json_call :: "(string, 'a) result \<Rightarrow> ('f, OwnershipError, 'a) port" where
  "json_call r f = (case r of Inl e \<Rightarrow> (Inl (OwJson e), f) | Inr a \<Rightarrow> (Inr a, f))"

definition ownership_save ::
  "OwnershipCodec \<Rightarrow> 'f OwnershipFileSystem \<Rightarrow> JournalPath \<Rightarrow> TestPinRoot \<Rightarrow> OwnershipRecord \<Rightarrow> ('f, OwnershipError, unit) port" where
  "ownership_save json fs journal pins record =
     port_bind (validate_record pins fs record (or_abi_version record) (or_ifindex record) (or_generation record)) (\<lambda>_.
     port_bind (\<lambda>f. case fs_metadata fs (jp_path journal) f of
         (Inr metadata, g) \<Rightarrow> (if om_file_type metadata \<noteq> OwFile then Inl OwInvalidJournalPath else Inr (), g)
       | (Inl NotFound, g) \<Rightarrow> (Inr (), g)
       | (Inl source, g) \<Rightarrow> (Inl (OwIo (jp_path journal) source), g)) (\<lambda>_.
     port_bind (json_call (oj_to_vec_pretty json record)) (\<lambda>contents.
     port_bind (io_call (temporary_path journal) (fs_write_new_sync fs (temporary_path journal) contents 384)) (\<lambda>_.
     port_bind (io_call (jp_path journal) (fs_rename_replace fs (temporary_path journal) (jp_path journal))) (\<lambda>_.
     io_call (jp_root journal) (fs_sync_directory fs (jp_root journal)))))))"

definition ownership_load_current ::
  "OwnershipCodec \<Rightarrow> 'f OwnershipFileSystem \<Rightarrow> JournalPath \<Rightarrow> TestPinRoot \<Rightarrow> ('f, OwnershipError, OwnershipRecord) port" where
  "ownership_load_current json fs journal pins =
     port_bind (io_call (jp_path journal) (fs_metadata fs (jp_path journal))) (\<lambda>metadata.
     if om_file_type metadata = OwSymlink then port_lift (Inl (OwSymlinkAt (jp_path journal)))
     else if om_file_type metadata \<noteq> OwFile \<or> om_mode metadata \<noteq> 384 then port_lift (Inl OwInvalidJournalPath)
     else
       port_bind (io_call (jp_path journal) (fs_read fs (jp_path journal))) (\<lambda>contents.
       port_bind (json_call (oj_from_slice json contents)) (\<lambda>record.
       port_bind (validate_record pins fs record ABI_VERSION (or_ifindex record) (or_generation record)) (\<lambda>_.
       port_return record))))"

definition ownership_load_validated ::
  "OwnershipCodec \<Rightarrow> 'f OwnershipFileSystem \<Rightarrow> JournalPath \<Rightarrow> TestPinRoot \<Rightarrow> u16 \<Rightarrow> u32 \<Rightarrow> u64 \<Rightarrow>
   ('f, OwnershipError, OwnershipRecord) port" where
  "ownership_load_validated json fs journal pins expected_abi_version expected_ifindex expected_generation =
     port_bind (ownership_load_current json fs journal pins) (\<lambda>record.
     port_bind (validate_record pins fs record expected_abi_version expected_ifindex expected_generation) (\<lambda>_.
     port_return record))"

section \<open>What a validated record owns\<close>

lemma strip_prefix_Some: "strip_prefix base p = Some suffix \<longleftrightarrow> p = base @ suffix"
  by (induction base p rule: strip_prefix.induct) auto

lemma unique_pins_ok:
  "unique_pins previous rest = Inr () \<Longrightarrow>
     list_all (\<lambda>p. owned_map_pin_validate p = Inr ()) rest \<and> distinct (map mp_name rest) \<and> distinct (map mp_path rest)
     \<and> distinct (map mp_map_id rest)
     \<and> set (map mp_name previous) \<inter> set (map mp_name rest) = {} \<and> set (map mp_path previous) \<inter> set (map mp_path rest) = {}
     \<and> set (map mp_map_id previous) \<inter> set (map mp_map_id rest) = {}"
proof (induction previous rest rule: unique_pins.induct)
  case (2 previous pin rest)
  from 2(2) have ok: "owned_map_pin_validate pin = Inr ()"
    and fresh: "\<not> list_ex (\<lambda>p. mp_name p = mp_name pin \<or> mp_path p = mp_path pin \<or> mp_map_id p = mp_map_id pin) previous"
    and rest: "unique_pins (previous @ [pin]) rest = Inr ()"
    by (auto simp: rbind_Inr_conv split: if_splits)
  from 2(1) [OF fresh rest] show ?case using ok fresh by (auto simp: list_ex_iff)
qed simp

lemma owned_maps_ok:
  assumes "validate_owned_maps r = Inr ()"
  shows "set (map mp_name (or_map_pins r)) = set OWNED_MAP_NAMES" "distinct (map mp_name (or_map_pins r))"
    "distinct (map mp_path (or_map_pins r))" "distinct (map mp_map_id (or_map_pins r))"
    "list_all (\<lambda>p. owned_map_pin_validate p = Inr ()) (or_map_pins r)"
proof -
  have pins: "unique_pins [] (or_map_pins r) = Inr ()"
    and all: "\<not> list_ex (\<lambda>required. \<not> list_ex (\<lambda>pin. mp_name pin = required) (or_map_pins r)) OWNED_MAP_NAMES"
    using assms by (auto simp: validate_owned_maps_def rbind_Inr_conv split: if_splits)
  show "distinct (map mp_name (or_map_pins r))"
    "distinct (map mp_path (or_map_pins r))" "distinct (map mp_map_id (or_map_pins r))"
    and valid: "list_all (\<lambda>p. owned_map_pin_validate p = Inr ()) (or_map_pins r)"
    using unique_pins_ok [OF pins] by auto
  have "set OWNED_MAP_NAMES \<subseteq> set (map mp_name (or_map_pins r))" using all by (auto simp: list_ex_iff)
  moreover have "set (map mp_name (or_map_pins r)) \<subseteq> set OWNED_MAP_NAMES"
    using valid by (auto simp: list_all_iff owned_map_pin_validate_def split: if_splits)
  ultimately show "set (map mp_name (or_map_pins r)) = set OWNED_MAP_NAMES" by blast
qed

lemma lexical_ok:
  assumes "validate_lexical pins target = Inr ()"
  obtains suffix where "suffix \<noteq> []" "target = pin_root_path pins @ suffix" "list_all is_normal suffix"
proof -
  from assms obtain suffix where s: "target = pin_root_path pins @ suffix"
    "(case suffix of [] \<Rightarrow> Inl OwPinRootTarget
      | first # rest \<Rightarrow> if \<not> is_normal first \<or> list_ex (\<lambda>component. \<not> is_normal component) rest then Inl OwInvalidPinPath else Inr ()) = Inr ()"
    by (auto simp: validate_lexical_def rbind_Inr_conv strip_prefix_Some split: if_splits)
  then show thesis using that [of suffix] by (cases suffix) (auto simp: list_ex_iff list_all_iff split: if_splits)
qed

lemma pins_below_root:
  "validate_pins pins fs ms f = (Inr (), g) \<Longrightarrow> list_all (\<lambda>pin. validate_lexical pins (mp_path pin) = Inr ()) ms"
  by (induction ms arbitrary: f) (auto simp: port_bind_Inr_conv validate_existing_def port_lift_def)

definition owned_below :: "TestPinRoot \<Rightarrow> OwnedMapPin \<Rightarrow> bool" where
  "owned_below pins pin \<longleftrightarrow>
     (\<exists>suffix. mp_path pin = pin_root_path pins @ suffix @ [Normal (mp_name pin)] \<and> list_all is_normal suffix)"

lemma pin_owned_below:
  assumes "owned_map_pin_validate pin = Inr ()" "validate_lexical pins (mp_path pin) = Inr ()"
  shows "owned_below pins pin"
proof -
  from assms(2) obtain suffix where s: "suffix \<noteq> []" "mp_path pin = pin_root_path pins @ suffix" "list_all is_normal suffix"
    by (rule lexical_ok)
  have "last suffix = Normal (mp_name pin)"
    using assms(1) s(1,2) by (auto simp: owned_map_pin_validate_def file_name_def split: if_splits Component.splits)
  with s show ?thesis unfolding owned_below_def
    by (intro exI [of _ "butlast suffix"]) (metis append_butlast_last_id list_all_append)
qed

text \<open>
  \<^bold>\<open>C15.\<close> A validated record owns nothing outside its run. Whatever the file system answers, a record that
  passes validation names each of the six public maps exactly once, under distinct paths and distinct
  non-zero ids; every pin lies strictly below the run's pin root, reached by ordinary components only and
  ending in the map's name; the record is of the expected, non-zero interface and generation, and every
  program it lists is attached to that interface.
\<close>

theorem validated_records_own_their_run:
  assumes "validate_record pins fs record abi ifindex generation f = (Inr (), g)"
  shows "set (map mp_name (or_map_pins record)) = set OWNED_MAP_NAMES \<and> distinct (map mp_name (or_map_pins record))
    \<and> distinct (map mp_path (or_map_pins record)) \<and> distinct (map mp_map_id (or_map_pins record))
    \<and> list_all (\<lambda>pin. mp_map_id pin \<noteq> 0 \<and> owned_below pins pin) (or_map_pins record)
    \<and> or_ifindex record = ifindex \<and> ifindex \<noteq> 0 \<and> or_generation record = generation \<and> generation \<noteq> 0
    \<and> or_abi_version record = 1 \<and> or_schema_version record = 2
    \<and> list_all (\<lambda>tc. ot_ifindex tc = ifindex) (or_tc record)
    \<and> (case or_xdp record of None \<Rightarrow> True | Some xdp \<Rightarrow> ox_ifindex xdp = ifindex)"
proof -
  obtain h where v: "validate_record_identity record abi ifindex generation = Inr ()" "validate_pins pins fs (or_map_pins record) h = (Inr (), g)"
    using assms by (auto simp: validate_record_def port_bind_Inr_conv port_lift_def)
  have maps: "validate_owned_maps record = Inr ()"
    and id: "or_ifindex record = ifindex \<and> ifindex \<noteq> 0 \<and> or_generation record = generation \<and> generation \<noteq> 0
      \<and> or_abi_version record = 1 \<and> or_schema_version record = 2 \<and> list_all (\<lambda>tc. ot_ifindex tc = ifindex) (or_tc record)
      \<and> (case or_xdp record of None \<Rightarrow> True | Some xdp \<Rightarrow> ox_ifindex xdp = ifindex)"
    using v(1) by (auto simp: validate_record_identity_def list_ex_iff list_all_iff split: if_splits option.splits)
  note valid = owned_maps_ok [OF maps]
  have "list_all (\<lambda>pin. mp_map_id pin \<noteq> 0 \<and> owned_below pins pin) (or_map_pins record)"
    using valid(5) pins_below_root [OF v(2)] pin_owned_below
    by (auto simp: list_all_iff owned_map_pin_validate_def split: if_splits)
  with valid id show ?thesis by blast
qed


text \<open>A run of the isolated test lab, with the directory tree of its pins.\<close>

definition lab_run :: RunId where "lab_run = RunId ''0123456789abcdef0123456789abcdef''"
definition lab_pins :: TestPinRoot where "lab_pins = TestPinRoot (TEST_PIN_BASE @ [Normal (run_id_str lab_run)])"
definition lab_journal :: JournalPath where
  "lab_journal = \<lparr>jp_root = TEST_JOURNAL_ROOT, jp_path = TEST_JOURNAL_ROOT @ [Normal (run_id_str lab_run @ ''.json'')]\<rparr>"

definition lab_record :: OwnershipRecord where
  "lab_record = \<lparr>or_schema_version = 2, or_abi_version = 1, or_generation = 9, or_ifindex = 4, or_xdp = None, or_tc = [],
     or_map_pins = map (\<lambda>(name, i). \<lparr>mp_name = name, mp_path = pin_root_path lab_pins @ [Normal name], mp_map_id = i\<rparr>)
       (zip OWNED_MAP_NAMES [1, 2, 3, 4, 5, 6]), or_created_at_unix_seconds = 0\<rparr>"

type_synonym files = "path \<Rightarrow> (OwnershipMetadata \<times> u8 list) option"

definition memory_fs :: "files OwnershipFileSystem" where
  "memory_fs =
     \<lparr>fs_metadata = (\<lambda>p f. (case f p of None \<Rightarrow> Inl NotFound | Some (m, _) \<Rightarrow> Inr m, f)),
      fs_read = (\<lambda>p f. (case f p of None \<Rightarrow> Inl NotFound | Some (_, bytes) \<Rightarrow> Inr bytes, f)),
      fs_write_new_sync = (\<lambda>p bytes mode f.
        if f p = None then (Inr (), f(p \<mapsto> (\<lparr>om_file_type = OwFile, om_mode = mode\<rparr>, bytes))) else (Inl (OtherIo ''exists''), f)),
      fs_rename_replace = (\<lambda>a b f. if f a = None then (Inl NotFound, f) else (Inr (), (f(a := None))(b := f a))),
      fs_sync_directory = (\<lambda>p f. (Inr (), f))\<rparr>"

definition lab_files :: files where
  "lab_files p =
     (if p = pin_root_path lab_pins \<or> List.member (map mp_path (or_map_pins lab_record)) p
      then Some (\<lparr>om_file_type = OwOther, om_mode = 448\<rparr>, []) else None)"

lemma lab_record_validates:
  "validate_record lab_pins memory_fs lab_record 1 4 9 lab_files = (Inr (), snd (validate_record lab_pins memory_fs lab_record 1 4 9 lab_files))"
proof -
  have "fst (validate_record lab_pins memory_fs lab_record 1 4 9 lab_files) = Inr ()" by code_simp
  then show ?thesis by (simp only: prod_eq_iff fst_conv snd_conv)
qed

theorem validated_records_own_their_run_witness:
  "list_all (\<lambda>pin. mp_map_id pin \<noteq> 0 \<and> owned_below lab_pins pin) (or_map_pins lab_record)"
  using validated_records_own_their_run [OF lab_record_validates] by blast

section \<open>The journal on a file system\<close>

text \<open>
  What the store relies on of a working file system, over a view of its files: \<open>lstat\<close> and reads are exact
  and change nothing, a new file that was written has the contents and the mode it was given and disturbs
  no existing file, and a rename moves one file over another.
\<close>

definition journal_fs :: "'f OwnershipFileSystem \<Rightarrow> ('f \<Rightarrow> files) \<Rightarrow> bool" where
  "journal_fs fs view \<longleftrightarrow>
     (\<forall>p f. (\<exists>g. fs_metadata fs p f = (case view f p of None \<Rightarrow> Inl NotFound | Some (m, _) \<Rightarrow> Inr m, g) \<and> view g = view f)
        \<and> (\<forall>m bytes. view f p = Some (m, bytes) \<and> om_file_type m = OwFile \<longrightarrow> (\<exists>g. fs_read fs p f = (Inr bytes, g) \<and> view g = view f))
        \<and> (\<forall>bytes mode g. fs_write_new_sync fs p bytes mode f = (Inr (), g) \<longrightarrow>
             view g p = Some (\<lparr>om_file_type = OwFile, om_mode = mode\<rparr>, bytes) \<and> (\<forall>q. q \<noteq> p \<and> view f q \<noteq> None \<longrightarrow> view g q = view f q))
        \<and> (\<forall>to g. fs_rename_replace fs p to f = (Inr (), g) \<longrightarrow> view g to = view f p \<and> (\<forall>q. q \<noteq> p \<and> q \<noteq> to \<longrightarrow> view g q = view f q))
        \<and> (\<forall>g. fs_sync_directory fs p f = (Inr (), g) \<longrightarrow> view g = view f))"

lemma io_call_Inr_conv: "io_call p call f = (Inr a, g) \<longleftrightarrow> call f = (Inr a, g)"
  by (auto simp: io_call_def split: prod.splits sum.splits)

lemma json_call_Inr_conv: "json_call r f = (Inr a, g) \<longleftrightarrow> r = Inr a \<and> g = f"
  by (auto simp: json_call_def split: sum.splits)

lemma journal_fsD:
  assumes "journal_fs fs view"
  shows "\<exists>g. fs_metadata fs p f = (case view f p of None \<Rightarrow> Inl NotFound | Some (m, _) \<Rightarrow> Inr m, g) \<and> view g = view f"
    "view f p = Some (m, bytes) \<Longrightarrow> om_file_type m = OwFile \<Longrightarrow> \<exists>g. fs_read fs p f = (Inr bytes, g) \<and> view g = view f"
    "fs_write_new_sync fs p bytes mode f = (Inr (), h) \<Longrightarrow> view h p = Some (\<lparr>om_file_type = OwFile, om_mode = mode\<rparr>, bytes)"
    "fs_write_new_sync fs p bytes mode f = (Inr (), h) \<Longrightarrow> q \<noteq> p \<Longrightarrow> view f q \<noteq> None \<Longrightarrow> view h q = view f q"
    "fs_rename_replace fs p to f = (Inr (), h) \<Longrightarrow> view h to = view f p"
    "fs_rename_replace fs p to f = (Inr (), h) \<Longrightarrow> q \<noteq> p \<Longrightarrow> q \<noteq> to \<Longrightarrow> view h q = view f q"
    "fs_sync_directory fs p f = (Inr (), h) \<Longrightarrow> view h = view f"
  using assms unfolding journal_fs_def by blast+

text \<open>Validation on a view: no symlink on the way to any pin.\<close>

definition plain_at :: "files \<Rightarrow> path \<Rightarrow> bool" where
  "plain_at v p \<longleftrightarrow> (case v p of None \<Rightarrow> False | Some (m, _) \<Rightarrow> om_file_type m \<noteq> OwSymlink)"

fun plain_below :: "files \<Rightarrow> path \<Rightarrow> path \<Rightarrow> bool" where
  "plain_below v current [] = True"
| "plain_below v current (c # rest) \<longleftrightarrow> is_normal c \<and> plain_at v (current @ [c]) \<and> plain_below v (current @ [c]) rest"

definition plain_pin :: "files \<Rightarrow> TestPinRoot \<Rightarrow> path \<Rightarrow> bool" where
  "plain_pin v pins target \<longleftrightarrow> validate_lexical pins target = Inr () \<and> plain_at v (pin_root_path pins)
     \<and> (\<exists>suffix. target = pin_root_path pins @ suffix \<and> plain_below v (pin_root_path pins) suffix)"

lemma reject_symlink_view:
  assumes "journal_fs fs view"
  obtains x g where "reject_symlink fs p f = (x, g)" "view g = view f" "x = Inr () \<longleftrightarrow> plain_at (view f) p"
proof -
  obtain g where "fs_metadata fs p f = (case view f p of None \<Rightarrow> Inl NotFound | Some (m, _) \<Rightarrow> Inr m, g)" "view g = view f"
    using journal_fsD(1) [OF assms] by blast
  moreover have "(if b then port_lift (Inl e) else port_return ()) g = (if b then Inl e else Inr (), g)" for b and e :: OwnershipError
    by (simp add: port_lift_def)
  ultimately show thesis using that
    by (cases "view f p") (auto simp: reject_symlink_def port_bind_def io_call_def plain_at_def)
qed

lemma below_view:
  assumes "journal_fs fs view"
  shows "view (snd (reject_symlinks_below fs current suffix f)) = view f
    \<and> (fst (reject_symlinks_below fs current suffix f) = Inr () \<longleftrightarrow> plain_below (view f) current suffix)"
proof (induction suffix arbitrary: current f)
  case (Cons c rest)
  obtain x g where "reject_symlink fs (current @ [c]) f = (x, g)" "view g = view f" "x = Inr () \<longleftrightarrow> plain_at (view f) (current @ [c])"
    using reject_symlink_view [OF assms] .
  then show ?case using Cons.IH [of "current @ [c]" g] by (cases x) (auto simp: port_bind_def port_lift_def)
qed (simp add: port_return_def)

lemma existing_view:
  assumes "journal_fs fs view"
  shows "view (snd (validate_existing pins fs target f)) = view f
    \<and> (fst (validate_existing pins fs target f) = Inr () \<longleftrightarrow> plain_pin (view f) pins target)"
proof (cases "validate_lexical pins target")
  case (Inl e)
  then show ?thesis by (simp add: validate_existing_def port_bind_def port_lift_def plain_pin_def)
next
  case (Inr u)
  then have lex: "validate_lexical pins target = Inr ()" by simp
  then obtain suffix where s: "target = pin_root_path pins @ suffix" by (rule lexical_ok)
  obtain x g where "reject_symlink fs (pin_root_path pins) f = (x, g)" "view g = view f" "x = Inr () \<longleftrightarrow> plain_at (view f) (pin_root_path pins)"
    using reject_symlink_view [OF assms] .
  with lex s below_view [OF assms, of "pin_root_path pins" suffix g] show ?thesis
    by (cases x) (auto simp: validate_existing_def port_bind_def port_lift_def plain_pin_def strip_prefix_Some [THEN iffD2])
qed

lemma pins_view:
  assumes "journal_fs fs view"
  shows "view (snd (validate_pins pins fs ms f)) = view f
    \<and> (fst (validate_pins pins fs ms f) = Inr () \<longleftrightarrow> list_all (\<lambda>m. plain_pin (view f) pins (mp_path m)) ms)"
proof (induction ms arbitrary: f)
  case (Cons m ms)
  obtain x g where "validate_existing pins fs (mp_path m) f = (x, g)" by fastforce
  with existing_view [OF assms, of pins "mp_path m" f] Cons.IH [of g] show ?case
    by (cases x) (auto simp: port_bind_def)
qed (simp add: port_return_def)

lemma plain_below_agree:
  assumes "\<And>s. v (current @ s) \<noteq> None \<Longrightarrow> w (current @ s) = v (current @ s)" "plain_below v current suffix"
  shows "plain_below w current suffix"
  using assms
proof (induction suffix arbitrary: current)
  case (Cons c rest)
  have "plain_below w (current @ [c]) rest" using Cons.prems by (intro Cons.IH) auto
  moreover have "w (current @ [c]) = v (current @ [c])" using Cons.prems by (auto simp: plain_at_def split: option.splits)
  ultimately show ?case using Cons.prems(2) by (simp add: plain_at_def)
qed simp

lemma plain_pin_agree:
  assumes "\<And>s. v (pin_root_path pins @ s) \<noteq> None \<Longrightarrow> w (pin_root_path pins @ s) = v (pin_root_path pins @ s)" "plain_pin v pins target"
  shows "plain_pin w pins target"
proof -
  have "w (pin_root_path pins) = v (pin_root_path pins)" using assms(1) [of "[]"] assms(2) by (auto simp: plain_pin_def plain_at_def split: option.splits)
  then show ?thesis using assms plain_below_agree [of v "pin_root_path pins" w] unfolding plain_pin_def plain_at_def by auto
qed


text \<open>The two roots are different trees.\<close>

lemma roots_apart:
  assumes "journal_new run = Inr journal" "pin_root_new run = Inr pins"
  shows "pin_root_path pins @ s \<noteq> jp_path journal" "pin_root_path pins @ s \<noteq> temporary_path journal"
    "temporary_path journal \<noteq> jp_path journal"
  using assms
  by (auto simp: journal_new_def journal_for_root_def pin_root_new_def pin_root_for_root_def rbind_Inr_conv TEST_JOURNAL_ROOT_def
      TEST_PIN_BASE_def temporary_path_def file_name_def)

lemma saved_record_validates:
  assumes fs: "journal_fs fs view" and roots: "journal_new run = Inr journal" "pin_root_new run = Inr pins"
    and saved: "ownership_save json fs journal pins record f = (Inr (), g)"
  shows "validate_record_identity record 1 (or_ifindex record) (or_generation record) = Inr ()"
    "list_all (\<lambda>m. plain_pin (view g) pins (mp_path m)) (or_map_pins record)"
    "\<exists>bytes. oj_to_vec_pretty json record = Inr bytes \<and> view g (jp_path journal) = Some (\<lparr>om_file_type = OwFile, om_mode = 384\<rparr>, bytes)"
proof -
  obtain f1 f2 f3 f4 bytes where steps:
    "validate_record pins fs record (or_abi_version record) (or_ifindex record) (or_generation record) f = (Inr (), f1)"
    "(case fs_metadata fs (jp_path journal) f1 of
         (Inr metadata, g) \<Rightarrow> (if om_file_type metadata \<noteq> OwFile then Inl OwInvalidJournalPath else Inr (), g)
       | (Inl NotFound, g) \<Rightarrow> (Inr (), g)
       | (Inl source, g) \<Rightarrow> (Inl (OwIo (jp_path journal) source), g)) = (Inr (), f2)"
    "oj_to_vec_pretty json record = Inr bytes"
    "fs_write_new_sync fs (temporary_path journal) bytes 384 f2 = (Inr (), f3)"
    "fs_rename_replace fs (temporary_path journal) (jp_path journal) f3 = (Inr (), f4)"
    "fs_sync_directory fs (jp_root journal) f4 = (Inr (), g)"
    using saved
    unfolding ownership_save_def port_bind_Inr_conv io_call_Inr_conv json_call_Inr_conv by auto
  have id: "validate_record_identity record (or_abi_version record) (or_ifindex record) (or_generation record) = Inr ()"
    and f: "validate_pins pins fs (or_map_pins record) f = (Inr (), f1)"
    using steps(1) by (auto simp: validate_record_def port_bind_Inr_conv port_lift_def)
  show "validate_record_identity record 1 (or_ifindex record) (or_generation record) = Inr ()"
    using id by (auto simp: validate_record_identity_def split: if_splits)
  have plain: "list_all (\<lambda>m. plain_pin (view f) pins (mp_path m)) (or_map_pins record)" and f1: "view f1 = view f"
    using pins_view [OF fs, of pins "or_map_pins record" f] f by simp_all
  obtain f2' where "fs_metadata fs (jp_path journal) f1 = (case view f1 (jp_path journal) of None \<Rightarrow> Inl NotFound | Some (m, _) \<Rightarrow> Inr m, f2')"
    "view f2' = view f1" using journal_fsD(1) [OF fs] by blast
  with steps(2) f1 have f2: "view f2 = view f" by (auto split: option.splits prod.splits sum.splits)
  note wrote = journal_fsD(3) [OF fs steps(4)] journal_fsD(4) [OF fs steps(4)]
  note moved = journal_fsD(5) [OF fs steps(5)] journal_fsD(6) [OF fs steps(5)]
  have g: "view g = view f4" using journal_fsD(7) [OF fs steps(6)] .
  show "\<exists>bytes. oj_to_vec_pretty json record = Inr bytes \<and> view g (jp_path journal) = Some (\<lparr>om_file_type = OwFile, om_mode = 384\<rparr>, bytes)"
    using steps(3) wrote(1) moved(1) g by simp
  have "view g (pin_root_path pins @ s) = view f (pin_root_path pins @ s)" if "view f (pin_root_path pins @ s) \<noteq> None" for s
    using wrote(2) moved(2) that roots_apart [OF roots] g f2 by simp
  then show "list_all (\<lambda>m. plain_pin (view g) pins (mp_path m)) (or_map_pins record)"
    using plain plain_pin_agree [of "view f" pins "view g"] by (auto simp: list_all_iff)
qed

lemma validate_record_view:
  assumes "journal_fs fs view" "validate_record_identity record abi ifindex generation = Inr ()"
    "list_all (\<lambda>m. plain_pin (view f) pins (mp_path m)) (or_map_pins record)"
  shows "\<exists>g. validate_record pins fs record abi ifindex generation f = (Inr (), g) \<and> view g = view f"
  using pins_view [OF assms(1), of pins "or_map_pins record" f] assms(2,3)
  by (cases "validate_pins pins fs (or_map_pins record) f") (auto simp: validate_record_def port_bind_def port_lift_def)

text \<open>
  \<^bold>\<open>C37.\<close> The journal gives back what was saved. On a file system with the contract above and a codec that
  decodes what it encoded, a save that succeeded under the run's own roots is read back, by the plain and
  by the validating load, as the same record.
\<close>

theorem saved_journal_loads:
  assumes "journal_fs fs view" "journal_new run = Inr journal" "pin_root_new run = Inr pins"
    and codec: "\<And>r bytes. oj_to_vec_pretty json r = Inr bytes \<Longrightarrow> oj_from_slice json bytes = Inr r"
    and "ownership_save json fs journal pins record f = (Inr (), g)"
  shows "(\<exists>h. ownership_load_current json fs journal pins g = (Inr record, h))
    \<and> (\<exists>h. ownership_load_validated json fs journal pins 1 (or_ifindex record) (or_generation record) g = (Inr record, h))"
proof -
  note saved = saved_record_validates [OF assms(1-3,5)]
  obtain bytes where bytes: "oj_to_vec_pretty json record = Inr bytes"
    "view g (jp_path journal) = Some (\<lparr>om_file_type = OwFile, om_mode = 384\<rparr>, bytes)" using saved(3) by blast
  obtain g1 where g1: "fs_metadata fs (jp_path journal) g = (Inr \<lparr>om_file_type = OwFile, om_mode = 384\<rparr>, g1)" "view g1 = view g"
    using journal_fsD(1) [OF assms(1), of "jp_path journal" g] bytes(2) by auto
  obtain g2 where g2: "fs_read fs (jp_path journal) g1 = (Inr bytes, g2)" "view g2 = view g"
    using journal_fsD(2) [OF assms(1), of g1 "jp_path journal" "\<lparr>om_file_type = OwFile, om_mode = 384\<rparr>" bytes] bytes(2) g1(2) by auto
  obtain g3 where g3: "validate_record pins fs record 1 (or_ifindex record) (or_generation record) g2 = (Inr (), g3)" "view g3 = view g"
    using validate_record_view [OF assms(1) saved(1)] saved(2) g2(2) by metis
  obtain g4 where g4: "validate_record pins fs record 1 (or_ifindex record) (or_generation record) g3 = (Inr (), g4)"
    using validate_record_view [OF assms(1) saved(1)] saved(2) g3(2) by metis
  have "ownership_load_current json fs journal pins g = (Inr record, g3)"
    using g1 g2 g3(1) codec [OF bytes(1)]
    by (simp add: ownership_load_current_def port_bind_def io_call_def json_call_def)
  with g4 show ?thesis by (simp add: ownership_load_validated_def port_bind_def)
qed


definition lab_codec :: OwnershipCodec where
  "lab_codec = \<lparr>oj_to_vec_pretty = (\<lambda>r. if r = lab_record then Inr [123, 125] else Inl ''unsupported''), oj_from_slice = (\<lambda>_. Inr lab_record)\<rparr>"

lemma memory_fs_contract: "journal_fs memory_fs (\<lambda>f. f)"
  by (auto simp: journal_fs_def memory_fs_def split: option.splits if_splits)

theorem saved_journal_loads_witness:
  "\<exists>h. ownership_load_current lab_codec memory_fs lab_journal lab_pins
        (snd (ownership_save lab_codec memory_fs lab_journal lab_pins lab_record lab_files)) = (Inr lab_record, h)"
proof -
  let ?save = "ownership_save lab_codec memory_fs lab_journal lab_pins lab_record lab_files"
  have "fst ?save = Inr ()" by code_simp
  then have saved: "?save = (Inr (), snd ?save)" by (simp only: prod_eq_iff fst_conv snd_conv)
  have roots: "journal_new lab_run = Inr lab_journal" "pin_root_new lab_run = Inr lab_pins" by code_simp+
  have codec: "oj_from_slice lab_codec bytes = Inr r" if "oj_to_vec_pretty lab_codec r = Inr bytes" for r bytes
    using that by (simp add: lab_codec_def split: if_splits)
  from saved_journal_loads [OF memory_fs_contract roots codec saved] show ?thesis by blast
qed

end
