(* ===== verification/Sampling.thy ===== *)
theory Sampling
  imports Incident Ownership
begin

text \<open>
  The sampling service (\<open>l2-loop-agent/src/observation.rs\<close>): the background tick that reads the kernel
  maps, feeds rate history, baseline, fingerprint window and detection engine, and hands the engine's
  transitions to the incident recorder; and the requests that read a snapshot on demand. The reader of
  the kernel maps and the clock are parameters, fallible calls on a world state \<open>'w\<close>.
\<close>

section \<open>Definitions\<close>

subsection \<open>Ports\<close>

datatype RawFingerprints = FpNotRequested | FpAvailable "FingerprintEvidence list" | FpReadUnavailable string

record RawObservation =
  ro_ifindex :: u32
  ro_generation :: u64
  ro_vlan_visibility :: VlanVisibility
  ro_hooks :: "HookObservation arr2"
  ro_fingerprints :: RawFingerprints

datatype ObservationReadPurpose = PurposeRequest | PurposeBackgroundSample | PurposeBackgroundAnalysis

text \<open>The wall clock gives nanoseconds since the Unix epoch, negative before it.\<close>

record ('w, 's) SamplingPorts =
  sp_monotonic_ns :: "'w \<Rightarrow> u64 \<times> 'w"
  sp_wall_time :: "'w \<Rightarrow> int \<times> 'w"
  sp_read_exact :: "OwnershipRecord \<Rightarrow> ObservationReadPurpose \<Rightarrow> ('w, PortError, RawObservation) port"
  sp_next_id :: "'s event_id_source"

definition wall_time_ms :: "('w, 's) SamplingPorts \<Rightarrow> 'w \<Rightarrow> u64 option \<times> 'w" where
  "wall_time_ms ports w =
     (case sp_wall_time ports w of
        (t, w) \<Rightarrow> (if t < 0 then None else try_from_usize (nat t div 1000000), w))"

subsection \<open>Codes and errors\<close>

definition OBS_OWNERSHIP_MISMATCH :: string where "OBS_OWNERSHIP_MISMATCH = ''OBS_OWNERSHIP_MISMATCH''"
definition OBS_MAP_IDENTITY_MISMATCH :: string where "OBS_MAP_IDENTITY_MISMATCH = ''OBS_MAP_IDENTITY_MISMATCH''"
definition OBS_MAP_UNAVAILABLE :: string where "OBS_MAP_UNAVAILABLE = ''OBS_MAP_UNAVAILABLE''"
definition OBS_SNAPSHOT_FAILED :: string where "OBS_SNAPSHOT_FAILED = ''OBS_SNAPSHOT_FAILED''"
definition OBS_RATE_CALCULATION_FAILED :: string where "OBS_RATE_CALCULATION_FAILED = ''OBS_RATE_CALCULATION_FAILED''"
definition OBS_RATE_SAMPLER_PAUSED :: string where "OBS_RATE_SAMPLER_PAUSED = ''OBS_RATE_SAMPLER_PAUSED''"
definition BASELINE_SOURCE_UNAVAILABLE :: string where "BASELINE_SOURCE_UNAVAILABLE = ''BASELINE_SOURCE_UNAVAILABLE''"
definition BASELINE_IDENTITY_CHANGED :: string where "BASELINE_IDENTITY_CHANGED = ''BASELINE_IDENTITY_CHANGED''"
definition BASELINE_CLOCK_REGRESSION :: string where "BASELINE_CLOCK_REGRESSION = ''BASELINE_CLOCK_REGRESSION''"
definition BASELINE_COUNTER_REGRESSION :: string where "BASELINE_COUNTER_REGRESSION = ''BASELINE_COUNTER_REGRESSION''"
definition BASELINE_CALCULATION_FAILED :: string where "BASELINE_CALCULATION_FAILED = ''BASELINE_CALCULATION_FAILED''"
definition BASELINE_SAMPLER_PAUSED :: string where "BASELINE_SAMPLER_PAUSED = ''BASELINE_SAMPLER_PAUSED''"
definition DETECTION_SOURCE_UNAVAILABLE :: string where "DETECTION_SOURCE_UNAVAILABLE = ''DETECTION_SOURCE_UNAVAILABLE''"
definition DETECTION_IDENTITY_CHANGED :: string where "DETECTION_IDENTITY_CHANGED = ''DETECTION_IDENTITY_CHANGED''"
definition DETECTION_RATE_INVALID :: string where "DETECTION_RATE_INVALID = ''DETECTION_RATE_INVALID''"
definition DETECTION_FINGERPRINT_UNAVAILABLE :: string where
  "DETECTION_FINGERPRINT_UNAVAILABLE = ''DETECTION_FINGERPRINT_UNAVAILABLE''"
definition DETECTION_SAMPLER_PAUSED :: string where "DETECTION_SAMPLER_PAUSED = ''DETECTION_SAMPLER_PAUSED''"
definition ANALYSIS_PERIOD_NS :: u64 where [simp]: "ANALYSIS_PERIOD_NS = 10000000000"

datatype ObservationError = ObservationError (oe_code: string) (oe_evidence: string)

definition session_error :: ObservationError where
  "session_error = ObservationError ''OBS_SESSION_NOT_FOUND'' ''no active isolated session matches the request''"

definition ownership_error :: ObservationError where
  "ownership_error = ObservationError OBS_OWNERSHIP_MISMATCH ''observation identity does not match the ownership journal''"

definition snapshot_error :: ObservationError where
  "snapshot_error = ObservationError OBS_SNAPSHOT_FAILED ''observation snapshot construction failed''"

definition mismatch_error :: ObservationError where
  "mismatch_error = ObservationError ''OBS_INTERFACE_MISMATCH'' ''requested interface does not match the active session''"

definition reader_error :: "PortError \<Rightarrow> ObservationError" where
  "reader_error error = ObservationError (unwrap_or (stable_code error) OBS_MAP_UNAVAILABLE) ''observation reader failed''"

definition is_identity_code :: "string \<Rightarrow> bool" where
  "is_identity_code code \<longleftrightarrow> code \<in> {OBS_OWNERSHIP_MISMATCH, OBS_MAP_IDENTITY_MISMATCH}"

primrec rate_error_code :: "RateHistoryError \<Rightarrow> string" where
  "rate_error_code IdentityMismatch = OBS_OWNERSHIP_MISMATCH"
| "rate_error_code ClockRegression = ''OBS_RATE_CLOCK_REGRESSION''"
| "rate_error_code CounterRegression = ''OBS_RATE_COUNTER_REGRESSION''"
| "rate_error_code CalculationFailed = OBS_RATE_CALCULATION_FAILED"

definition rate_history_error :: "RateHistoryError \<Rightarrow> ObservationError" where
  "rate_history_error error = ObservationError (rate_error_code error) ''rate history validation failed''"

primrec baseline_code_for_rate_error :: "RateHistoryError \<Rightarrow> string" where
  "baseline_code_for_rate_error IdentityMismatch = BASELINE_IDENTITY_CHANGED"
| "baseline_code_for_rate_error ClockRegression = BASELINE_CLOCK_REGRESSION"
| "baseline_code_for_rate_error CounterRegression = BASELINE_COUNTER_REGRESSION"
| "baseline_code_for_rate_error CalculationFailed = BASELINE_CALCULATION_FAILED"

definition record_history_failure :: "u64 \<Rightarrow> RateHistoryError \<Rightarrow> RateHistory \<Rightarrow> RateHistory" where
  "record_history_failure now_ns error history =
     (if error = IdentityMismatch then record_identity_failure now_ns (rate_error_code error) history
      else record_rate_failure now_ns (rate_error_code error) history)"

definition observation_health ::
  "SamplingStatus \<Rightarrow> DetailedRateWindow arr3 \<Rightarrow> BaselineState \<Rightarrow> FingerprintState \<Rightarrow> DetectionState \<Rightarrow> ObservationHealth" where
  "observation_health sampling windows baseline_state fingerprint_state detection_state =
     (if ss_sampling_paused sampling \<or> ss_last_error_code sampling \<noteq> None
         \<or> list_ex (\<lambda>window. dw_state window = Stale) (arr3_list windows) \<or> baseline_state = BlUnavailable
         \<or> fingerprint_state = FpUnavailable \<or> detection_state = DsUnavailable
      then Degraded else Healthy)"

definition fingerprint_report :: "u32 \<Rightarrow> u64 \<Rightarrow> RawFingerprints \<Rightarrow> (ObservationError, FingerprintReport) result" where
  "fingerprint_report ifindex generation raw =
     (case raw of
        FpNotRequested \<Rightarrow> Inr fingerprint_report_empty
      | FpAvailable evidence \<Rightarrow> map_err snapshot_error (fingerprint_report_build ifindex generation evidence)
      | FpReadUnavailable code \<Rightarrow> map_err snapshot_error (fingerprint_report_unavailable code))"

definition rate_sample :: "RawObservation \<Rightarrow> u64 \<Rightarrow> u64 \<Rightarrow> (unit, RateSample) result" where
  "rate_sample raw captured_at_monotonic_ns captured_at_unix_ms =
     rbind (map_err () (rate_identity_new (ro_ifindex raw) (ro_generation raw))) (\<lambda>identity.
     map_err () (rate_sample_new identity captured_at_monotonic_ns captured_at_unix_ms (ro_vlan_visibility raw) (ro_hooks raw)))"

subsection \<open>The service's state\<close>

datatype SamplingTickOutcome = Sampled | Rejected

record ('w, 's) SamplingService =
  sv_world :: 'w
  sv_history :: "RateHistory option"
  sv_baseline :: "BaselineEngine option"
  sv_fingerprint_window :: "FingerprintWindowHistory option"
  sv_detection :: "DetectionEngine option"
  sv_next_analysis_at_ns :: "u64 option"
  sv_incident_recorder :: "'s IncidentRecorder option"
  sv_incident_jobs :: "IncidentWriteJob list"
  sv_latest_incident_snapshot :: "ObservationSnapshot option"

definition sampling_service_new :: "'w \<Rightarrow> ('w, 's) SamplingService" where
  "sampling_service_new world =
     \<lparr>sv_world = world, sv_history = None, sv_baseline = None, sv_fingerprint_window = None, sv_detection = None,
      sv_next_analysis_at_ns = None, sv_incident_recorder = None, sv_incident_jobs = [], sv_latest_incident_snapshot = None\<rparr>"

text \<open>\<open>if let Some(x) = self.field.as_mut() { x.op() }\<close>.\<close>

definition on_history :: "(RateHistory \<Rightarrow> RateHistory) \<Rightarrow> ('w, 's) SamplingService \<Rightarrow> ('w, 's) SamplingService" where
  "on_history f s = s\<lparr>sv_history := map_option f (sv_history s)\<rparr>"

definition on_baseline :: "(BaselineEngine \<Rightarrow> BaselineEngine) \<Rightarrow> ('w, 's) SamplingService \<Rightarrow> ('w, 's) SamplingService" where
  "on_baseline f s = s\<lparr>sv_baseline := map_option f (sv_baseline s)\<rparr>"

definition on_window :: "(FingerprintWindowHistory \<Rightarrow> FingerprintWindowHistory) \<Rightarrow> ('w, 's) SamplingService \<Rightarrow> ('w, 's) SamplingService" where
  "on_window f s = s\<lparr>sv_fingerprint_window := map_option f (sv_fingerprint_window s)\<rparr>"

definition on_detection :: "(DetectionEngine \<Rightarrow> DetectionEngine) \<Rightarrow> ('w, 's) SamplingService \<Rightarrow> ('w, 's) SamplingService" where
  "on_detection f s = s\<lparr>sv_detection := map_option f (sv_detection s)\<rparr>"

definition clear_baseline :: "u64 \<Rightarrow> string \<Rightarrow> ('w, 's) SamplingService \<Rightarrow> ('w, 's) SamplingService" where
  "clear_baseline unix_ms code = on_baseline (\<lambda>b. snd (baseline_clear_integrity (be_identity b) unix_ms code b))"

definition sampling_start ::
  "('w, 's) SamplingPorts \<Rightarrow> OwnershipRecord \<Rightarrow> (('w, 's) SamplingService, ObservationError, unit) port" where
  "sampling_start ports ownership s =
     (case rate_identity_new (or_ifindex ownership) (or_generation ownership) of
        Inl _ \<Rightarrow> (Inl ownership_error, s)
      | Inr identity \<Rightarrow>
          (case wall_time_ms ports (sv_world s) of
             (None, w) \<Rightarrow> (Inl snapshot_error, s\<lparr>sv_world := w\<rparr>)
           | (Some started_at_unix_ms, w) \<Rightarrow>
               (case sp_monotonic_ns ports w of
                  (started_at_monotonic_ns, w) \<Rightarrow>
                    (case rate_history_new identity started_at_monotonic_ns of
                       Inl _ \<Rightarrow> (Inl snapshot_error, s\<lparr>sv_world := w\<rparr>)
                     | Inr history \<Rightarrow>
                         let s = s\<lparr>sv_world := w, sv_history := Some history,
                               sv_baseline := Some (baseline_engine_new identity started_at_unix_ms),
                               sv_fingerprint_window := Some (window_history_new identity),
                               sv_detection := Some (detection_engine_new identity started_at_monotonic_ns started_at_unix_ms)\<rparr>
                         in (case checked_add started_at_monotonic_ns ANALYSIS_PERIOD_NS of
                               None \<Rightarrow> (Inl snapshot_error, s)
                             | Some deadline \<Rightarrow> (Inr (), s\<lparr>sv_next_analysis_at_ns := Some deadline\<rparr>))))))"

definition start_incident_generation ::
  "InterfaceName \<Rightarrow> OwnershipRecord \<Rightarrow> 's \<Rightarrow> (('w, 's) SamplingService, ObservationError, unit) port" where
  "start_incident_generation interface ownership source s =
     (case incident_identity_new interface (or_ifindex ownership) (or_generation ownership) of
        Inl _ \<Rightarrow> (Inl ownership_error, s)
      | Inr identity \<Rightarrow>
          (Inr (), s\<lparr>sv_incident_recorder := Some (incident_recorder_new identity source), sv_incident_jobs := [],
                     sv_latest_incident_snapshot := None\<rparr>))"

definition sampling_clear :: "('w, 's) SamplingService \<Rightarrow> ('w, 's) SamplingService" where
  "sampling_clear s = sampling_service_new (sv_world s)"

subsection \<open>Integrity failures\<close>

definition mark_detection_unavailable :: "u64 \<Rightarrow> string \<Rightarrow> ('w, 's) SamplingService \<Rightarrow> ('w, 's) SamplingService" where
  "mark_detection_unavailable unix_ms code = on_detection (\<lambda>d. snd (detection_unavailable unix_ms code d))"

definition clear_detection_integrity ::
  "OwnershipRecord \<Rightarrow> u64 \<Rightarrow> u64 \<Rightarrow> string \<Rightarrow> ('w, 's) SamplingService \<Rightarrow> ('w, 's) SamplingService" where
  "clear_detection_integrity ownership now_ns unix_ms code s =
     (let s = on_window window_history_clear s
      in case rate_identity_new (or_ifindex ownership) (or_generation ownership) of
           Inl _ \<Rightarrow> s
         | Inr identity \<Rightarrow> on_detection (\<lambda>d. snd (detection_clear identity now_ns unix_ms code d)) s)"

definition clear_request_integrity ::
  "OwnershipRecord \<Rightarrow> u64 \<Rightarrow> u64 \<Rightarrow> string \<Rightarrow> string \<Rightarrow> ('w, 's) SamplingService \<Rightarrow> ('w, 's) SamplingService" where
  "clear_request_integrity ownership now_ns unix_ms baseline_code detection_code s =
     clear_detection_integrity ownership now_ns unix_ms detection_code (clear_baseline unix_ms baseline_code s)"

definition advance_analysis_deadline :: "u64 \<Rightarrow> (('w, 's) SamplingService, unit, unit) port" where
  "advance_analysis_deadline now_ns s =
     (case rbind (ok_or () (sv_next_analysis_at_ns s)) (\<lambda>deadline.
           rbind (ok_or () (checked_sub now_ns deadline)) (\<lambda>overdue.
           rbind (ok_or () (Option.bind (checked_div overdue ANALYSIS_PERIOD_NS) (\<lambda>value. checked_add value 1))) (\<lambda>periods.
           rbind (ok_or () (checked_mul periods ANALYSIS_PERIOD_NS)) (\<lambda>advance.
           ok_or () (checked_add deadline advance))))) of
        Inl e \<Rightarrow> (Inl e, s)
      | Inr deadline \<Rightarrow> (Inr (), s\<lparr>sv_next_analysis_at_ns := Some deadline\<rparr>))"

subsection \<open>The background tick\<close>

definition record_analysis_fingerprints :: "RawFingerprints \<Rightarrow> u64 \<Rightarrow> u64 \<Rightarrow> ('w, 's) SamplingService \<Rightarrow> bool \<times> ('w, 's) SamplingService" where
  "record_analysis_fingerprints prints now_ns unix_ms s =
     (case sv_fingerprint_window s of
        None \<Rightarrow> (False, s)
      | Some history \<Rightarrow>
          (case prints of
             FpAvailable evidence \<Rightarrow>
               (case record_scan now_ns unix_ms evidence history of
                  (Inl error, h) \<Rightarrow>
                    (False, mark_detection_unavailable unix_ms (window_stable_code error) (s\<lparr>sv_fingerprint_window := Some h\<rparr>))
                | (Inr _, h) \<Rightarrow> (True, s\<lparr>sv_fingerprint_window := Some h\<rparr>))
           | FpReadUnavailable code \<Rightarrow>
               (False, mark_detection_unavailable unix_ms code
                         (s\<lparr>sv_fingerprint_window := Some (snd (window_history_unavailable code history))\<rparr>))
           | FpNotRequested \<Rightarrow>
               (False, mark_detection_unavailable unix_ms DETECTION_FINGERPRINT_UNAVAILABLE
                         (s\<lparr>sv_fingerprint_window := Some (snd (window_history_unavailable DETECTION_FINGERPRINT_UNAVAILABLE history))\<rparr>))))"

definition evaluate_detection ::
  "OwnershipRecord \<Rightarrow> DetailedRateWindow arr3 \<Rightarrow> u64 \<Rightarrow> u64 \<Rightarrow> ('w, 's) SamplingService \<Rightarrow> ('w, 's) SamplingService" where
  "evaluate_detection ownership windows now_ns unix_ms s =
     (case (sv_baseline s, sv_fingerprint_window s) of
        (Some baseline, Some window) \<Rightarrow>
          (case signals_derive windows (be_cached baseline) (fwh_report window) unix_ms of
             Inl _ \<Rightarrow> clear_detection_integrity ownership now_ns unix_ms DETECTION_RATE_INVALID s
           | Inr signals \<Rightarrow>
               (case sv_detection s of
                  None \<Rightarrow> s
                | Some detection \<Rightarrow>
                    if now_ns = 0 \<and> dr_last_trustworthy_at_unix_ms (de_report detection) = None then s
                    else
                      (case evaluate now_ns unix_ms signals detection of
                         (Inr _, d) \<Rightarrow> s\<lparr>sv_detection := Some d\<rparr>
                       | (Inl _, d) \<Rightarrow>
                           clear_detection_integrity ownership now_ns unix_ms DETECTION_RATE_INVALID (s\<lparr>sv_detection := Some d\<rparr>))))
      | _ \<Rightarrow> s)"

definition cache_background_snapshot :: "RawObservation \<Rightarrow> u64 \<Rightarrow> u64 \<Rightarrow> ('w, 's) SamplingService \<Rightarrow> ('w, 's) SamplingService" where
  "cache_background_snapshot raw now_ns unix_ms s =
     (case (sv_incident_recorder s, sv_history s, sv_baseline s, sv_detection s) of
        (Some recorder, Some history, Some baseline, Some detection) \<Rightarrow>
          (case (detailed_windows now_ns history, fingerprint_report (ro_ifindex raw) (ro_generation raw) (ro_fingerprints raw)) of
             (Inr rate_windows, Inr prints) \<Rightarrow>
               let sampling = sampling_status history;
                   health = observation_health sampling rate_windows (br_state (be_cached baseline)) (fr_state prints)
                     (dr_state (de_report detection))
               in (case observation_snapshot_new (ii_interface (ic_identity recorder)) (ro_ifindex raw) (ro_generation raw) unix_ms
                     (ro_vlan_visibility raw) (ro_hooks raw) sampling rate_windows of
                     Inl _ \<Rightarrow> s
                   | Inr snapshot \<Rightarrow>
                       s\<lparr>sv_latest_incident_snapshot := Some (snapshot\<lparr>os_health := health, os_baseline := be_cached baseline,
                           os_fingerprints := prints, os_detection := de_report detection\<rparr>)\<rparr>)
           | _ \<Rightarrow> s)
      | _ \<Rightarrow> s)"

definition push_incident_job :: "IncidentWriteJob \<Rightarrow> ('w, 's) SamplingService \<Rightarrow> ('w, 's) SamplingService" where
  "push_incident_job job s =
     (if length (sv_incident_jobs s) < INCIDENT_OUTPUT_QUEUE_CAPACITY
      then s\<lparr>sv_incident_jobs := sv_incident_jobs s @ [job]\<rparr> else s)"

text \<open>
  The loop over the unseen transitions: without a snapshot they are only acknowledged; with one they are
  recorded until the recorder refuses.
\<close>

fun capture_loop ::
  "'s event_id_source \<Rightarrow> ObservationSnapshot option \<Rightarrow> DetectionTransition list \<Rightarrow> 's IncidentRecorder \<Rightarrow>
   IncidentWriteJob list \<times> 's IncidentRecorder" where
  "capture_loop next_id snapshot [] recorder = ([], recorder)"
| "capture_loop next_id None (transition # unseen) recorder =
     capture_loop next_id None unseen (snd (acknowledge_without_output transition recorder))"
| "capture_loop next_id (Some snapshot) (transition # unseen) recorder =
     (case recorder_record next_id transition snapshot recorder of
        (Inr job, r) \<Rightarrow>
          (case capture_loop next_id (Some snapshot) unseen r of (jobs, r') \<Rightarrow> (case_option [] (\<lambda>j. [j]) job @ jobs, r'))
      | (Inl _, r) \<Rightarrow> ([], r))"

definition unseen_transitions :: "DetectionReport \<Rightarrow> 's IncidentRecorder \<Rightarrow> DetectionTransition list" where
  "unseen_transitions report recorder =
     filter (\<lambda>transition. ic_last_transition_sequence recorder < dt_sequence transition) (dr_transitions report)"

definition capture_incident_transitions ::
  "('w, 's) SamplingPorts \<Rightarrow> ('w, 's) SamplingService \<Rightarrow> ('w, 's) SamplingService" where
  "capture_incident_transitions ports s =
     (case sv_detection s of
        None \<Rightarrow> s
      | Some detection \<Rightarrow>
          let report = de_report detection;
              s = s\<lparr>sv_latest_incident_snapshot := map_option (\<lambda>snapshot. snapshot\<lparr>os_detection := report,
                     os_health := (if dr_state report = DsUnavailable then Degraded else os_health snapshot)\<rparr>)
                     (sv_latest_incident_snapshot s)\<rparr>
          in (case sv_incident_recorder s of
                None \<Rightarrow> s
              | Some recorder \<Rightarrow>
                  (case capture_loop (sp_next_id ports) (sv_latest_incident_snapshot s) (unseen_transitions report recorder) recorder of
                     (jobs, r) \<Rightarrow> fold push_incident_job jobs (s\<lparr>sv_incident_recorder := Some r\<rparr>))))"

fun acknowledge_loop :: "DetectionTransition list \<Rightarrow> 's IncidentRecorder \<Rightarrow> 's IncidentRecorder" where
  "acknowledge_loop [] recorder = recorder"
| "acknowledge_loop (transition # unseen) recorder =
     (case acknowledge_without_output transition recorder of
        (Inr _, r) \<Rightarrow> acknowledge_loop unseen r
      | (Inl _, r) \<Rightarrow> r)"

definition acknowledge_request_transitions :: "('w, 's) SamplingService \<Rightarrow> ('w, 's) SamplingService" where
  "acknowledge_request_transitions s =
     (case (sv_detection s, sv_incident_recorder s) of
        (Some detection, Some recorder) \<Rightarrow>
          s\<lparr>sv_incident_recorder := Some (acknowledge_loop (unseen_transitions (de_report detection) recorder) recorder)\<rparr>
      | _ \<Rightarrow> s)"

text \<open>The rejections of a tick: every one leaves history, baseline, window and engine together.\<close>

definition reject_integrity ::
  "(RateHistory \<Rightarrow> RateHistory) \<Rightarrow> OwnershipRecord \<Rightarrow> u64 \<Rightarrow> u64 \<Rightarrow> string \<Rightarrow> string \<Rightarrow>
   ('w, 's) SamplingService \<Rightarrow> SamplingTickOutcome \<times> ('w, 's) SamplingService" where
  "reject_integrity failure ownership now_ns unix_ms baseline_code detection_code s =
     (Rejected, clear_detection_integrity ownership now_ns unix_ms detection_code
                  (clear_baseline unix_ms baseline_code (on_history failure s)))"

definition reject_read ::
  "PortError \<Rightarrow> OwnershipRecord \<Rightarrow> u64 \<Rightarrow> u64 \<Rightarrow> ('w, 's) SamplingService \<Rightarrow> SamplingTickOutcome \<times> ('w, 's) SamplingService" where
  "reject_read error ownership now_ns unix_ms s =
     (let code = unwrap_or (stable_code error) OBS_MAP_UNAVAILABLE
      in if is_identity_code code
         then reject_integrity (record_identity_failure now_ns code) ownership now_ns unix_ms BASELINE_IDENTITY_CHANGED
                DETECTION_IDENTITY_CHANGED s
         else (Rejected, mark_detection_unavailable unix_ms DETECTION_SOURCE_UNAVAILABLE
                (on_baseline (\<lambda>b. snd (baseline_unavailable unix_ms BASELINE_SOURCE_UNAVAILABLE b))
                  (on_history (record_transient_failure code) s))))"

text \<open>What happens to an accepted sample: windows, baseline, fingerprints, detection, snapshot.\<close>

definition analyse_sample ::
  "OwnershipRecord \<Rightarrow> bool \<Rightarrow> RawObservation \<Rightarrow> u64 \<Rightarrow> u64 \<Rightarrow> RateHistory \<Rightarrow> ('w, 's) SamplingService \<Rightarrow>
   SamplingTickOutcome \<times> ('w, 's) SamplingService" where
  "analyse_sample ownership analysis_due raw now_ns unix_ms history s =
     (case detailed_windows now_ns history of
        Inl error \<Rightarrow>
          reject_integrity (record_history_failure now_ns error) ownership now_ns unix_ms (baseline_code_for_rate_error error)
            DETECTION_RATE_INVALID s
      | Inr windows \<Rightarrow>
          (case (if dw_state (a3_1 windows) = Ready
                 then (case sv_baseline s of
                         None \<Rightarrow> (False, s)
                       | Some baseline \<Rightarrow>
                           (case evaluate_ready_window (a3_1 windows) unix_ms baseline of
                              (x, b) \<Rightarrow> (is_ok x, s\<lparr>sv_baseline := Some b\<rparr>)))
                 else (True, s)) of
             (False, s) \<Rightarrow> (Rejected, clear_detection_integrity ownership now_ns unix_ms DETECTION_RATE_INVALID s)
           | (True, s) \<Rightarrow>
               (case (if analysis_due then record_analysis_fingerprints (ro_fingerprints raw) now_ns unix_ms s else (True, s)) of
                  (False, s) \<Rightarrow> (Sampled, s)
                | (True, s) \<Rightarrow>
                    (Sampled, cache_background_snapshot raw now_ns unix_ms (evaluate_detection ownership windows now_ns unix_ms s)))))"

definition accept_raw ::
  "OwnershipRecord \<Rightarrow> bool \<Rightarrow> RawObservation \<Rightarrow> u64 \<Rightarrow> u64 \<Rightarrow> ('w, 's) SamplingService \<Rightarrow>
   SamplingTickOutcome \<times> ('w, 's) SamplingService" where
  "accept_raw ownership analysis_due raw now_ns unix_ms s =
     (case rate_sample raw now_ns unix_ms of
        Inl _ \<Rightarrow>
          reject_integrity (record_rate_failure now_ns OBS_RATE_CALCULATION_FAILED) ownership now_ns unix_ms
            BASELINE_CALCULATION_FAILED DETECTION_RATE_INVALID s
      | Inr sample \<Rightarrow>
          (case sv_history s of
             None \<Rightarrow> (Rejected, s)
           | Some history \<Rightarrow>
               (case rate_insert sample history of
                  (Inl error, h) \<Rightarrow>
                    reject_integrity (record_history_failure now_ns error) ownership now_ns unix_ms
                      (baseline_code_for_rate_error error) DETECTION_RATE_INVALID (s\<lparr>sv_history := Some h\<rparr>)
                | (Inr _, h) \<Rightarrow> analyse_sample ownership analysis_due raw now_ns unix_ms h (s\<lparr>sv_history := Some h\<rparr>))))"

text \<open>The read of a tick and the checks on what it returned.\<close>

definition tick_read ::
  "('w, 's) SamplingPorts \<Rightarrow> OwnershipRecord \<Rightarrow> bool \<Rightarrow> u64 \<Rightarrow> ('w, 's) SamplingService \<Rightarrow>
   SamplingTickOutcome \<times> ('w, 's) SamplingService" where
  "tick_read ports ownership analysis_due now_ns s =
     (case sp_read_exact ports ownership (if analysis_due then PurposeBackgroundAnalysis else PurposeBackgroundSample) (sv_world s) of
        (read_result, w) \<Rightarrow>
     (case wall_time_ms ports w of
        (evaluated, w) \<Rightarrow>
          let evaluated_at_unix_ms = unwrap_or evaluated 0; s = s\<lparr>sv_world := w\<rparr>
          in (case read_result of
                Inl error \<Rightarrow> reject_read error ownership now_ns evaluated_at_unix_ms s
              | Inr raw \<Rightarrow>
                  if ro_ifindex raw \<noteq> or_ifindex ownership \<or> ro_generation raw \<noteq> or_generation ownership
                  then reject_integrity (record_identity_failure now_ns OBS_OWNERSHIP_MISMATCH) ownership now_ns
                         evaluated_at_unix_ms BASELINE_IDENTITY_CHANGED DETECTION_IDENTITY_CHANGED s
                  else
                    (case wall_time_ms ports (sv_world s) of
                       (None, w) \<Rightarrow>
                         reject_integrity (record_rate_failure now_ns OBS_SNAPSHOT_FAILED) ownership now_ns
                           evaluated_at_unix_ms BASELINE_CLOCK_REGRESSION DETECTION_RATE_INVALID (s\<lparr>sv_world := w\<rparr>)
                     | (Some captured_at_unix_ms, w) \<Rightarrow>
                         accept_raw ownership analysis_due raw now_ns captured_at_unix_ms (s\<lparr>sv_world := w\<rparr>)))))"

definition sample_tick_inner ::
  "('w, 's) SamplingPorts \<Rightarrow> OwnershipRecord \<Rightarrow> ('w, 's) SamplingService \<Rightarrow> SamplingTickOutcome \<times> ('w, 's) SamplingService" where
  "sample_tick_inner ports ownership s =
     (if sv_history s = None \<or> sv_baseline s = None \<or> sv_fingerprint_window s = None \<or> sv_detection s = None
      then (Rejected, s)
      else
        (case sp_monotonic_ns ports (sv_world s) of
           (now_ns, w) \<Rightarrow>
             let s = s\<lparr>sv_world := w\<rparr>; analysis_due = is_some_and (sv_next_analysis_at_ns s) (\<lambda>deadline. deadline \<le> now_ns)
             in (case (if analysis_due then advance_analysis_deadline now_ns s else (Inr (), s)) of
                   (Inl _, s) \<Rightarrow> (Rejected, s)
                 | (Inr _, s) \<Rightarrow> tick_read ports ownership analysis_due now_ns s)))"

definition sample_tick ::
  "('w, 's) SamplingPorts \<Rightarrow> OwnershipRecord \<Rightarrow> ('w, 's) SamplingService \<Rightarrow> SamplingTickOutcome \<times> ('w, 's) SamplingService" where
  "sample_tick ports ownership s =
     (case sample_tick_inner ports ownership s of (outcome, s) \<Rightarrow> (outcome, capture_incident_transitions ports s))"

subsection \<open>Requests\<close>

text \<open>A failed request clears history, baseline and detection together and returns its error.\<close>

definition fail_request ::
  "(RateHistory \<Rightarrow> RateHistory) \<Rightarrow> OwnershipRecord \<Rightarrow> u64 \<Rightarrow> u64 \<Rightarrow> string \<Rightarrow> string \<Rightarrow> ObservationError \<Rightarrow>
   (('w, 's) SamplingService, ObservationError, 'a) port" where
  "fail_request failure ownership now_ns unix_ms baseline_code detection_code error s =
     (Inl error, clear_request_integrity ownership now_ns unix_ms baseline_code detection_code (on_history failure s))"

definition fail_history ::
  "OwnershipRecord \<Rightarrow> u64 \<Rightarrow> u64 \<Rightarrow> RateHistoryError \<Rightarrow> (('w, 's) SamplingService, ObservationError, 'a) port" where
  "fail_history ownership now_ns unix_ms error =
     fail_request (record_history_failure now_ns error) ownership now_ns unix_ms (baseline_code_for_rate_error error)
       DETECTION_RATE_INVALID (rate_history_error error)"

text \<open>The snapshot of a request, once its sample has been validated against the history.\<close>

definition assemble_snapshot ::
  "InterfaceName \<Rightarrow> OwnershipRecord \<Rightarrow> RawObservation \<Rightarrow> u64 \<Rightarrow> u64 \<Rightarrow>
   (('w, 's) SamplingService, ObservationError, ObservationSnapshot \<times> StatusRateWindow arr3) port" where
  "assemble_snapshot requested ownership raw now_ns unix_ms s =
     (case sv_history s of
        None \<Rightarrow> (Inl session_error, s)
      | Some history \<Rightarrow>
          (case (detailed_windows now_ns history, status_windows now_ns history) of
             (Inl error, _) \<Rightarrow> fail_history ownership now_ns unix_ms error s
           | (Inr _, Inl error) \<Rightarrow> fail_history ownership now_ns unix_ms error s
           | (Inr rate_windows, Inr status_rate_windows) \<Rightarrow>
               (case (sv_baseline s, sv_detection s) of
                  (Some baseline, Some detection) \<Rightarrow>
                    (case fingerprint_report (ro_ifindex raw) (ro_generation raw) (ro_fingerprints raw) of
                       Inl error \<Rightarrow> (Inl error, s)
                     | Inr prints \<Rightarrow>
                         let sampling = sampling_status history;
                             health = observation_health sampling rate_windows (br_state (be_cached baseline)) (fr_state prints)
                               (dr_state (de_report detection))
                         in (case observation_snapshot_new requested (ro_ifindex raw) (ro_generation raw) unix_ms
                                 (ro_vlan_visibility raw) (ro_hooks raw) sampling rate_windows of
                               Inl _ \<Rightarrow> (Inl snapshot_error, s)
                             | Inr snapshot \<Rightarrow>
                                 (Inr (snapshot\<lparr>os_health := health, os_baseline := be_cached baseline, os_fingerprints := prints,
                                    os_detection := de_report detection\<rparr>, status_rate_windows), s)))
                | _ \<Rightarrow> (Inl session_error, s))))"

definition current_snapshot ::
  "('w, 's) SamplingPorts \<Rightarrow> InterfaceName \<Rightarrow> InterfaceName \<Rightarrow> OwnershipRecord \<Rightarrow>
   (('w, 's) SamplingService, ObservationError, ObservationSnapshot \<times> StatusRateWindow arr3) port" where
  "current_snapshot ports requested active_interface ownership s =
     (if requested \<noteq> active_interface then (Inl mismatch_error, s)
      else if sv_history s = None then (Inl session_error, s)
      else
        (case sp_monotonic_ns ports (sv_world s) of
           (now_ns, w) \<Rightarrow>
        (case sp_read_exact ports ownership PurposeRequest w of
           (Inl error, w) \<Rightarrow>
             let code = unwrap_or (stable_code error) OBS_MAP_UNAVAILABLE
             in if is_identity_code code
                then (case wall_time_ms ports w of
                        (wall, w) \<Rightarrow>
                          fail_request (record_identity_failure now_ns code) ownership now_ns (unwrap_or wall 0)
                            BASELINE_IDENTITY_CHANGED DETECTION_IDENTITY_CHANGED (reader_error error) (s\<lparr>sv_world := w\<rparr>))
                else (Inl (reader_error error), s\<lparr>sv_world := w\<rparr>)
         | (Inr raw, w) \<Rightarrow>
             (case wall_time_ms ports w of
                (wall, w) \<Rightarrow>
                  let s = s\<lparr>sv_world := w\<rparr>
                  in if ro_ifindex raw \<noteq> or_ifindex ownership \<or> ro_generation raw \<noteq> or_generation ownership
                     then fail_request (record_identity_failure now_ns OBS_OWNERSHIP_MISMATCH) ownership now_ns (unwrap_or wall 0)
                            BASELINE_IDENTITY_CHANGED DETECTION_IDENTITY_CHANGED ownership_error s
                     else (case wall of
                        None \<Rightarrow>
                          fail_request (record_rate_failure now_ns OBS_SNAPSHOT_FAILED) ownership now_ns 0
                            BASELINE_CLOCK_REGRESSION DETECTION_RATE_INVALID snapshot_error s
                      | Some captured_at_unix_ms \<Rightarrow>
                          (case rate_identity_new (ro_ifindex raw) (ro_generation raw) of
                             Inl _ \<Rightarrow> (Inl ownership_error, s)
                           | Inr identity \<Rightarrow>
                               (case rate_sample_new identity now_ns captured_at_unix_ms (ro_vlan_visibility raw) (ro_hooks raw) of
                                  Inl _ \<Rightarrow>
                                    fail_request (record_rate_failure now_ns OBS_RATE_CALCULATION_FAILED) ownership now_ns
                                      captured_at_unix_ms BASELINE_CALCULATION_FAILED DETECTION_RATE_INVALID snapshot_error s
                                | Inr current \<Rightarrow>
                                    (case sv_history s of
                                       None \<Rightarrow> (Inl session_error, s)
                                     | Some history \<Rightarrow>
                                         (case validate_current current history of
                                            (Inl error, h) \<Rightarrow>
                                              fail_history ownership now_ns captured_at_unix_ms error (s\<lparr>sv_history := Some h\<rparr>)
                                          | (Inr _, h) \<Rightarrow>
                                              assemble_snapshot requested ownership raw now_ns captured_at_unix_ms
                                                (s\<lparr>sv_history := Some h\<rparr>))))))))))"

definition sampling_observe ::
  "('w, 's) SamplingPorts \<Rightarrow> InterfaceName \<Rightarrow> InterfaceName \<Rightarrow> OwnershipRecord \<Rightarrow>
   (('w, 's) SamplingService, ObservationError, ObservationSnapshot) port" where
  "sampling_observe ports requested active_interface ownership s =
     (case current_snapshot ports requested active_interface ownership s of
        (Inl error, s) \<Rightarrow> (Inl error, acknowledge_request_transitions s)
      | (Inr (snapshot, _), s) \<Rightarrow> (Inr snapshot, acknowledge_request_transitions s))"

record InterfaceStatus =
  is_interface :: InterfaceName
  is_state :: InterfaceState
  is_generation :: u64
  is_captured_at_unix_ms :: u64
  is_health :: ObservationHealth
  is_vlan_visibility :: VlanVisibility
  is_xdp_ingress :: ObservationCounters
  is_tc_egress :: ObservationCounters
  is_sampling :: SamplingStatus
  is_rate_windows :: "StatusRateWindow arr3"
  is_baseline :: BaselineSummary
  is_fingerprints :: FingerprintSummary
  is_detection :: DetectionSummary
  is_output_health :: OutputHealth
  is_active_incident :: "ActiveIncidentMetadata option"

definition status_of_snapshot :: "ObservationSnapshot \<Rightarrow> StatusRateWindow arr3 \<Rightarrow> InterfaceStatus" where
  "status_of_snapshot snapshot rate_windows =
     \<lparr>is_interface = os_interface snapshot, is_state = IfObserving, is_generation = os_generation snapshot,
      is_captured_at_unix_ms = os_captured_at_unix_ms snapshot, is_health = os_health snapshot,
      is_vlan_visibility = os_vlan_visibility snapshot, is_xdp_ingress = ho_total (a2_0 (os_hooks snapshot)),
      is_tc_egress = ho_total (a2_1 (os_hooks snapshot)), is_sampling = os_sampling snapshot, is_rate_windows = rate_windows,
      is_baseline = summary_from_report (os_baseline snapshot), is_fingerprints = fingerprint_summary_from (os_fingerprints snapshot),
      is_detection = detection_summary_from (os_detection snapshot),
      is_output_health = output_health_unavailable ''OUTPUT_NOT_CONFIGURED'', is_active_incident = None\<rparr>"

definition sampling_status_request ::
  "('w, 's) SamplingPorts \<Rightarrow> InterfaceName option \<Rightarrow> InterfaceName option \<Rightarrow> OwnershipRecord option \<Rightarrow>
   (('w, 's) SamplingService, ObservationError, InterfaceStatus list) port" where
  "sampling_status_request ports requested active_interface ownership s =
     (case (active_interface, ownership) of
        (None, None) \<Rightarrow> (if requested = None then Inr [] else Inl session_error, s)
      | (Some active_interface, Some ownership) \<Rightarrow>
          if unwrap_or requested active_interface \<noteq> active_interface then (Inl session_error, s)
          else
            (case current_snapshot ports (unwrap_or requested active_interface) active_interface ownership s of
               (Inl error, s) \<Rightarrow> (Inl error, acknowledge_request_transitions s)
             | (Inr (snapshot, rate_windows), s) \<Rightarrow>
                 (Inr [status_of_snapshot snapshot rate_windows], acknowledge_request_transitions s))
      | _ \<Rightarrow> (Inl ownership_error, s))"

definition sampling_pause :: "('w, 's) SamplingPorts \<Rightarrow> ('w, 's) SamplingService \<Rightarrow> ('w, 's) SamplingService" where
  "sampling_pause ports s =
     (let s = (case sv_history s of
                 None \<Rightarrow> s
               | Some history \<Rightarrow>
                   (case sp_monotonic_ns ports (sv_world s) of
                      (now_ns, w) \<Rightarrow> s\<lparr>sv_world := w, sv_history := Some (rate_pause now_ns OBS_RATE_SAMPLER_PAUSED history)\<rparr>));
          s = (case sv_baseline s of
                 None \<Rightarrow> s
               | Some baseline \<Rightarrow>
                   (case wall_time_ms ports (sv_world s) of
                      (wall, w) \<Rightarrow> s\<lparr>sv_world := w,
                        sv_baseline := Some (snd (baseline_unavailable (unwrap_or wall 0) BASELINE_SAMPLER_PAUSED baseline))\<rparr>));
          s = on_window (\<lambda>h. snd (window_history_unavailable DETECTION_SAMPLER_PAUSED h)) s;
          s = (case sv_detection s of
                 None \<Rightarrow> s
               | Some detection \<Rightarrow>
                   (case wall_time_ms ports (sv_world s) of
                      (wall, w) \<Rightarrow> s\<lparr>sv_world := w, sv_detection := Some (snd (detection_pause (unwrap_or wall 0) detection))\<rparr>))
      in capture_incident_transitions ports s)"

definition sampling_generation_ended :: "('w, 's) SamplingPorts \<Rightarrow> ('w, 's) SamplingService \<Rightarrow> ('w, 's) SamplingService" where
  "sampling_generation_ended ports s =
     (case (sv_latest_incident_snapshot s, sv_incident_recorder s) of
        (Some snapshot, Some recorder) \<Rightarrow>
          (case wall_time_ms ports (sv_world s) of
             (wall, w) \<Rightarrow>
               (case recorder_generation_ended (unwrap_or wall (os_captured_at_unix_ms snapshot)) snapshot recorder of
                  (Inr (Some job), r) \<Rightarrow> push_incident_job job (s\<lparr>sv_world := w, sv_incident_recorder := Some r\<rparr>)
                | (_, r) \<Rightarrow> s\<lparr>sv_world := w, sv_incident_recorder := Some r\<rparr>))
      | _ \<Rightarrow> s)"

definition take_incident_jobs :: "('w, 's) SamplingService \<Rightarrow> IncidentWriteJob list \<times> ('w, 's) SamplingService" where
  "take_incident_jobs s = (sv_incident_jobs s, s\<lparr>sv_incident_jobs := []\<rparr>)"

definition active_incident :: "('w, 's) SamplingService \<Rightarrow> ActiveIncidentMetadata option" where
  "active_incident s = Option.bind (sv_incident_recorder s) active_metadata"

subsection \<open>The service without history\<close>

definition observation_service_observe ::
  "('w, 's) SamplingPorts \<Rightarrow> InterfaceName \<Rightarrow> InterfaceName \<Rightarrow> OwnershipRecord \<Rightarrow> ('w, ObservationError, ObservationSnapshot) port" where
  "observation_service_observe ports requested active_interface ownership w =
     (if requested \<noteq> active_interface then (Inl mismatch_error, w)
      else
        (case sp_read_exact ports ownership PurposeRequest w of
           (Inl error, w) \<Rightarrow> (Inl (reader_error error), w)
         | (Inr raw, w) \<Rightarrow>
             if ro_ifindex raw \<noteq> or_ifindex ownership \<or> ro_generation raw \<noteq> or_generation ownership then (Inl ownership_error, w)
             else
               (case wall_time_ms ports w of
                  (None, w) \<Rightarrow> (Inl snapshot_error, w)
                | (Some captured_at_unix_ms, w) \<Rightarrow>
                    (rbind (map_err snapshot_error (observation_snapshot_new requested (ro_ifindex raw) (ro_generation raw)
                        captured_at_unix_ms (ro_vlan_visibility raw) (ro_hooks raw)
                        \<lparr>ss_latest_success_at_unix_ms = None, ss_last_error_code = None, ss_consecutive_failures = 0,
                         ss_sampling_paused = False\<rparr> warming_detailed_rate_windows)) (\<lambda>snapshot.
                     rbind (fingerprint_report (ro_ifindex raw) (ro_generation raw) (ro_fingerprints raw)) (\<lambda>prints.
                     Inr (snapshot\<lparr>os_fingerprints := prints,
                       os_health := (if fr_state prints = FpUnavailable then Degraded else os_health snapshot)\<rparr>))), w))))"

definition observation_service_status ::
  "('w, 's) SamplingPorts \<Rightarrow> InterfaceName option \<Rightarrow> InterfaceName option \<Rightarrow> OwnershipRecord option \<Rightarrow>
   ('w, ObservationError, InterfaceStatus list) port" where
  "observation_service_status ports requested active_interface ownership w =
     (case (active_interface, ownership) of
        (None, None) \<Rightarrow> (if requested = None then Inr [] else Inl session_error, w)
      | (Some active_interface, Some ownership) \<Rightarrow>
          if unwrap_or requested active_interface \<noteq> active_interface then (Inl session_error, w)
          else
            (case observation_service_observe ports (unwrap_or requested active_interface) active_interface ownership w of
               (x, w) \<Rightarrow> (rbind x (\<lambda>snapshot. Inr [status_of_snapshot snapshot warming_status_rate_windows]), w))
      | _ \<Rightarrow> (Inl ownership_error, w))"

section \<open>The service drives its components through their own operations\<close>

text \<open>\<open>runs st n x y\<close>: a component, if there is one, goes from \<open>x\<close> to \<open>y\<close> by at most \<open>n\<close> of its operations.\<close>

definition runs :: "('c \<Rightarrow> 'o \<Rightarrow> 'c) \<Rightarrow> nat \<Rightarrow> 'c option \<Rightarrow> 'c option \<Rightarrow> bool" where
  "runs st n x y \<longleftrightarrow>
     (case x of
        None \<Rightarrow> y = None
      | Some a \<Rightarrow> \<exists>ops. length ops \<le> n \<and> y = Some (foldl st a ops))"

lemma runs_refl [simp]: "runs st n x x"
  by (auto simp: runs_def split: option.split intro: exI [of _ "[]"])

lemma runs_trans: "runs st m x y \<Longrightarrow> runs st n y z \<Longrightarrow> runs st (m + n) x z"
proof (cases x)
  case (Some a)
  assume "runs st m x y" "runs st n y z"
  with Some obtain ops1 ops2 where "length ops1 \<le> m" "y = Some (foldl st a ops1)" "length ops2 \<le> n" "z = Some (foldl st (foldl st a ops1) ops2)"
    by (auto simp: runs_def)
  with Some show ?thesis by (auto simp: runs_def intro!: exI [of _ "ops1 @ ops2"])
qed (auto simp: runs_def)

lemma runs_mono: "runs st m x y \<Longrightarrow> m \<le> n \<Longrightarrow> runs st n x y"
  unfolding runs_def by (cases x) (auto intro: order_trans)

lemma runs_one: "runs st (Suc n) x (map_option (\<lambda>a. st a op) x)" "runs st (Suc n) (Some a) (Some (st a op))"
  by (cases x) (auto simp: runs_def intro: exI [of _ "[op]"])

definition driven :: "nat \<Rightarrow> ('w, 's) SamplingService \<Rightarrow> ('w, 's) SamplingService \<Rightarrow> bool" where
  "driven n s t \<longleftrightarrow>
     runs rate_step n (sv_history s) (sv_history t) \<and> runs baseline_step n (sv_baseline s) (sv_baseline t)
     \<and> runs window_step n (sv_fingerprint_window s) (sv_fingerprint_window t) \<and> runs det_step n (sv_detection s) (sv_detection t)"

lemma driven_refl [simp]: "driven n s s"
  by (simp add: driven_def)

lemma driven_trans: "driven m s t \<Longrightarrow> driven n t u \<Longrightarrow> m + n \<le> k \<Longrightarrow> driven k s u"
  unfolding driven_def by (meson runs_trans runs_mono)

lemma driven_mono: "driven m s t \<Longrightarrow> m \<le> n \<Longrightarrow> driven n s t"
  unfolding driven_def by (meson runs_mono)

lemma driven_same:
  "sv_history t = sv_history s \<Longrightarrow> sv_baseline t = sv_baseline s \<Longrightarrow> sv_fingerprint_window t = sv_fingerprint_window s \<Longrightarrow>
   sv_detection t = sv_detection s \<Longrightarrow> driven n s t"
  by (simp add: driven_def)

text \<open>The helpers, one operation each.\<close>

named_theorems driving

lemma driven_history [driving]:
  "driven 1 s (on_history (record_identity_failure now code) s)" "driven 1 s (on_history (record_rate_failure now code) s)"
  "driven 1 s (on_history (record_transient_failure code) s)" "driven 1 s (on_history (record_history_failure now error) s)"
proof -
  have "driven 1 s (on_history (\<lambda>h. rate_step h op) s)" for op
    using runs_one(1) [of rate_step 0 "sv_history s" op] by (simp add: driven_def on_history_def)
  from this [of "OpIdentityFailure now code"] this [of "OpRateFailure now code"] this [of "OpTransientFailure code"]
    this [of "OpIdentityFailure now (rate_error_code error)"] this [of "OpRateFailure now (rate_error_code error)"]
  show "driven 1 s (on_history (record_identity_failure now code) s)" "driven 1 s (on_history (record_rate_failure now code) s)"
    "driven 1 s (on_history (record_transient_failure code) s)" "driven 1 s (on_history (record_history_failure now error) s)"
    by (cases error; simp add: record_history_failure_def [abs_def])+
qed

lemma driven_baseline [driving]:
  "driven 1 s (clear_baseline unix code s)" "driven 1 s (on_baseline (\<lambda>b. snd (baseline_unavailable unix code b)) s)"
proof -
  show "driven 1 s (on_baseline (\<lambda>b. snd (baseline_unavailable unix code b)) s)"
    using runs_one(1) [of baseline_step 0 "sv_baseline s" "BlMarkUnavailable unix code"] by (simp add: driven_def on_baseline_def)
  have "runs baseline_step 1 (Some b) (Some (snd (baseline_clear_integrity (be_identity b) unix code b)))" for b
    using runs_one(2) [of baseline_step 0 b "BlClearIntegrity (be_identity b) unix code"] by simp
  then show "driven 1 s (clear_baseline unix code s)"
    by (cases "sv_baseline s") (simp_all add: driven_def clear_baseline_def on_baseline_def)
qed

lemma driven_detection [driving]:
  "driven 1 s (mark_detection_unavailable unix code s)" "driven 1 s (clear_detection_integrity ownership now unix code s)"
proof -
  have det: "runs det_step 1 d (map_option (\<lambda>d. det_step d op) d)" for d op using runs_one(1) [of det_step 0 d op] by simp
  show "driven 1 s (mark_detection_unavailable unix code s)"
    using det [of "sv_detection s" "OpUnavailable unix code"]
    by (simp add: driven_def mark_detection_unavailable_def on_detection_def det_step_def)
  have "runs window_step 1 (sv_fingerprint_window s) (map_option window_history_clear (sv_fingerprint_window s))"
    using runs_one(1) [of window_step 0 _ WClear] by simp
  then show "driven 1 s (clear_detection_integrity ownership now unix code s)"
    using det [of "sv_detection s" "OpClear _ now unix code"]
    by (simp add: driven_def clear_detection_integrity_def on_detection_def on_window_def Let_def det_step_def split: sum.split)
qed

lemma driven_reject [driving]:
  assumes "driven 1 s (on_history failure s)"
  shows "driven 3 s (snd (reject_integrity failure ownership now unix b d s))"
    "driven 3 s (snd (fail_request failure ownership now unix b d error s))"
proof -
  have "driven 3 s (clear_detection_integrity ownership now unix d (clear_baseline unix b (on_history failure s)))"
    using driven_trans [OF assms driven_trans [OF driven_baseline(1) driven_detection(2) order_refl] order_refl] by (simp add: numeral_3_eq_3)
  then show "driven 3 s (snd (reject_integrity failure ownership now unix b d s))"
    "driven 3 s (snd (fail_request failure ownership now unix b d error s))"
    by (simp_all add: reject_integrity_def fail_request_def clear_request_integrity_def)
qed

lemma driven_reject_read: "driven 3 s (snd (reject_read error ownership now unix s))"
proof -
  have "driven 3 s (mark_detection_unavailable unix c (on_baseline (\<lambda>b. snd (baseline_unavailable unix c' b))
      (on_history (record_transient_failure code) s)))" for c c' code
    using driven_trans [OF driven_history(3) driven_trans [OF driven_baseline(2) driven_detection(1) order_refl] order_refl]
    by (simp add: numeral_3_eq_3)
  then show ?thesis by (simp add: reject_read_def Let_def driven_reject(1) [OF driven_history(1)])
qed


lemma driven_fingerprints: "driven 2 s (snd (record_analysis_fingerprints p now unix s))"
proof (cases "sv_fingerprint_window s")
  case (Some h)
  have step: "driven 1 s (s\<lparr>sv_fingerprint_window := Some (window_step h op)\<rparr>)" for op
    using runs_one(2) [of window_step 0 h op] Some by (simp add: driven_def)
  have mark: "driven 2 s (mark_detection_unavailable unix code (s\<lparr>sv_fingerprint_window := Some (window_step h op)\<rparr>))" for op code
    by (rule driven_trans [OF step driven_detection(1)]) simp
  show ?thesis
  proof (cases p)
    case (FpAvailable evidence)
    then show ?thesis
      using driven_mono [OF step [of "WScan now unix evidence"], of 2] mark [of _ "WScan now unix evidence"]
      by (auto simp: record_analysis_fingerprints_def Some split: prod.splits sum.splits)
  qed (use mark [of _ "WUnavailable _"] in \<open>auto simp: record_analysis_fingerprints_def Some\<close>)
qed (simp add: record_analysis_fingerprints_def)

lemma driven_evaluate: "driven 2 s (evaluate_detection ownership windows now unix s)"
proof -
  have reset: "driven 2 s (clear_detection_integrity ownership now unix code s)" for code
    by (rule driven_mono [OF driven_detection(2)]) simp
  have step: "driven 1 s (s\<lparr>sv_detection := Some e'\<rparr>)" if "sv_detection s = Some e" "evaluate now unix signals e = (x, e')" for e e' x signals
    using runs_one(2) [of det_step 0 e "OpEvaluate now unix signals"] that by (simp add: driven_def det_step_def)
  have "driven 2 s (clear_detection_integrity ownership now unix code (s\<lparr>sv_detection := Some e'\<rparr>))"
    if "sv_detection s = Some e" "evaluate now unix signals e = (x, e')" for e e' x signals code
    by (rule driven_trans [OF step [OF that] driven_detection(2)]) simp
  moreover have "driven 2 s (s\<lparr>sv_detection := Some e'\<rparr>)" if "sv_detection s = Some e" "evaluate now unix signals e = (x, e')" for e e' x signals
    by (rule driven_mono [OF step [OF that]]) simp
  ultimately show ?thesis using reset
    by (auto simp: evaluate_detection_def split: option.split sum.split prod.split)
qed

lemma cache_keeps [simp]:
  "sv_history (cache_background_snapshot raw now unix s) = sv_history s" "sv_baseline (cache_background_snapshot raw now unix s) = sv_baseline s"
  "sv_fingerprint_window (cache_background_snapshot raw now unix s) = sv_fingerprint_window s"
  "sv_detection (cache_background_snapshot raw now unix s) = sv_detection s"
  "sv_incident_jobs (cache_background_snapshot raw now unix s) = sv_incident_jobs s"
  "sv_incident_recorder (cache_background_snapshot raw now unix s) = sv_incident_recorder s"
  by (auto simp: cache_background_snapshot_def Let_def split: option.split prod.split sum.split)

lemma driven_analyse:
  fixes s :: "('w, 's) SamplingService"
  shows "driven 5 s (snd (analyse_sample ownership due raw now unix history s))"
proof (cases "detailed_windows now history")
  case (Inl error)
  then show ?thesis
    using driven_mono [OF driven_reject(1) [OF driven_history(4) [of s now error]], of 5] by (simp add: analyse_sample_def)
next
  case (Inr windows)
  define step1 where "step1 = (if dw_state (a3_1 windows) = Ready
     then (case sv_baseline s of None \<Rightarrow> (False, s)
           | Some baseline \<Rightarrow> (case evaluate_ready_window (a3_1 windows) unix baseline of (x, b) \<Rightarrow> (is_ok x, s\<lparr>sv_baseline := Some b\<rparr>)))
     else (True, s))"
  have one: "driven 1 s (snd step1)"
    using runs_one(2) [of baseline_step 0 _ "BlEvaluate (a3_1 windows) unix"]
    by (auto simp: step1_def driven_def split: option.split prod.split) (metis snd_conv)
  define step2 where "step2 t = (if due then record_analysis_fingerprints (ro_fingerprints raw) now unix t else (True, t))" for t :: "('w, 's) SamplingService"
  have two: "driven 2 t (snd (step2 t))" for t by (simp add: step2_def driven_fingerprints)
  have clear: "driven 5 s (clear_detection_integrity ownership now unix code (snd step1))" for code
    by (rule driven_trans [OF one driven_detection(2)]) simp
  have three: "driven 3 s (snd (step2 (snd step1)))" by (rule driven_trans [OF one two]) simp
  have five: "driven 5 s (evaluate_detection ownership windows now unix (snd (step2 (snd step1))))"
    by (rule driven_trans [OF three driven_evaluate]) simp
  then have "driven 5 s (cache_background_snapshot raw now unix (evaluate_detection ownership windows now unix (snd (step2 (snd step1)))))"
    by (simp add: driven_def)
  moreover have "driven 5 s (snd (step2 (snd step1)))" by (rule driven_mono [OF three]) simp
  ultimately show ?thesis
    unfolding analyse_sample_def Inr sum.case step1_def [symmetric] step2_def [symmetric] using clear
    by (auto split: prod.split bool.split)
qed


lemma driven_insert:
  assumes "sv_history s = Some h" "rate_sample_new i now unix v hooks = Inr sample"
  shows "driven 1 s (s\<lparr>sv_history := Some (snd (rate_insert sample h))\<rparr>)"
    "driven 1 s (s\<lparr>sv_history := Some (snd (validate_current sample h))\<rparr>)"
  using runs_one(2) [of rate_step 0 h "OpInsert i now unix v hooks"] runs_one(2) [of rate_step 0 h "OpValidateCurrent i now unix v hooks"] assms
  by (simp_all add: driven_def)

lemma driven_accept: "driven 6 s (snd (accept_raw ownership due raw now unix s))"
proof (cases "rate_sample raw now unix")
  case (Inl e)
  then show ?thesis
    using driven_mono [OF driven_reject(1) [OF driven_history(2) [of s now OBS_RATE_CALCULATION_FAILED]], of 6] by (simp add: accept_raw_def)
next
  case (Inr sample)
  then obtain i where i: "rate_sample_new i now unix (ro_vlan_visibility raw) (ro_hooks raw) = Inr sample"
    by (auto simp: rate_sample_def rbind_Inr_conv)
  show ?thesis
  proof (cases "sv_history s")
    case (Some h)
    let ?s = "s\<lparr>sv_history := Some (snd (rate_insert sample h))\<rparr>"
    note one = driven_insert(1) [OF Some i]
    have "driven 6 s (snd (analyse_sample ownership due raw now unix h' ?s))" for h'
      by (rule driven_trans [OF one driven_analyse]) simp
    moreover have "driven 6 s (snd (reject_integrity (record_history_failure now error) ownership now unix b d ?s))" for error b d
      by (rule driven_trans [OF one driven_reject(1) [OF driven_history(4)]]) simp
    ultimately show ?thesis using Inr Some by (auto simp: accept_raw_def split: prod.split sum.split)
  qed (simp add: accept_raw_def Inr)
qed

lemma advance_keeps:
  "driven n s (snd (advance_analysis_deadline now s))"
  by (auto simp: advance_analysis_deadline_def driven_def split: sum.split)

lemma driven_world: "driven n (s\<lparr>sv_world := w\<rparr>) t \<longleftrightarrow> driven n s t" "driven n s (t\<lparr>sv_world := w\<rparr>) \<longleftrightarrow> driven n s t"
  by (simp_all add: driven_def)

lemma driven_tick_read: "driven 6 s (snd (tick_read ports ownership due now s))"
proof -
  have r1: "driven 6 t (snd (reject_integrity (record_identity_failure now code) ownership now unix b d t))"
    for t :: "('a, 'b) SamplingService" and now code unix b d
    using driven_mono [OF driven_reject(1) [OF driven_history(1) [of t now code]]] by simp
  have r2: "driven 6 t (snd (reject_integrity (record_rate_failure now code) ownership now unix b d t))"
    for t :: "('a, 'b) SamplingService" and now code unix b d
    using driven_mono [OF driven_reject(1) [OF driven_history(2) [of t now code]]] by simp
  have r3: "driven 6 t (snd (reject_read error ownership now unix t))" for t :: "('a, 'b) SamplingService" and now unix error
    by (rule driven_mono [OF driven_reject_read]) simp
  note r = r1 [of "s\<lparr>sv_world := w\<rparr>" for w, unfolded driven_world] r2 [of "s\<lparr>sv_world := w\<rparr>" for w, unfolded driven_world]
    r3 [of "s\<lparr>sv_world := w\<rparr>" for w, unfolded driven_world] driven_accept [of "s\<lparr>sv_world := w\<rparr>" for w, unfolded driven_world]
  show ?thesis
    unfolding tick_read_def Let_def by (auto simp: r split: prod.split sum.split option.split)
qed

lemma driven_tick_inner: "driven 6 s (snd (sample_tick_inner ports ownership s))"
proof -
  have "driven 0 s (snd (if due then advance_analysis_deadline now (s\<lparr>sv_world := w\<rparr>) else (Inr (), s\<lparr>sv_world := w\<rparr>)))" for due now w
    using advance_keeps [of 0 "s\<lparr>sv_world := w\<rparr>" now] by (simp add: driven_world)
  note adv = this
  have "driven 6 s t \<and> driven 6 s (snd (tick_read ports ownership due now t))"
    if "(if due then advance_analysis_deadline now (s\<lparr>sv_world := w\<rparr>) else (Inr (), s\<lparr>sv_world := w\<rparr>)) = (x, t)" for due now w x t
  proof -
    have z: "driven 0 s t" using adv [of due now w] that by simp
    show ?thesis using driven_mono [OF z, of 6] driven_trans [OF z driven_tick_read, of 6 ports ownership due now] by simp
  qed
  then show ?thesis
    unfolding sample_tick_inner_def Let_def by (simp split: prod.split sum.split) (metis prod.exhaust_sel)
qed

lemma push_keeps [simp]:
  "sv_history (fold push_incident_job jobs s) = sv_history s" "sv_baseline (fold push_incident_job jobs s) = sv_baseline s"
  "sv_fingerprint_window (fold push_incident_job jobs s) = sv_fingerprint_window s"
  "sv_detection (fold push_incident_job jobs s) = sv_detection s"
  by (induction jobs arbitrary: s) (simp_all add: push_incident_job_def)

lemma capture_keeps [simp]:
  "sv_history (capture_incident_transitions ports s) = sv_history s" "sv_baseline (capture_incident_transitions ports s) = sv_baseline s"
  "sv_fingerprint_window (capture_incident_transitions ports s) = sv_fingerprint_window s"
  "sv_detection (capture_incident_transitions ports s) = sv_detection s"
  by (auto simp: capture_incident_transitions_def Let_def split: option.split prod.split)

lemma acknowledge_keeps [simp]:
  "sv_history (acknowledge_request_transitions s) = sv_history s" "sv_baseline (acknowledge_request_transitions s) = sv_baseline s"
  "sv_fingerprint_window (acknowledge_request_transitions s) = sv_fingerprint_window s"
  "sv_detection (acknowledge_request_transitions s) = sv_detection s"
  "sv_incident_jobs (acknowledge_request_transitions s) = sv_incident_jobs s"
  by (auto simp: acknowledge_request_transitions_def split: option.split)

lemma driven_tick: "driven 6 s (snd (sample_tick ports ownership s))"
  using driven_tick_inner [of s ports ownership]
  by (cases "sample_tick_inner ports ownership s") (simp add: sample_tick_def driven_def)

lemma driven_assemble: "driven 3 s (snd (assemble_snapshot requested ownership raw now unix s))"
proof -
  have "driven 3 s (snd (fail_history ownership now unix error s))" for error
    using driven_reject(2) [OF driven_history(4)] by (simp add: fail_history_def)
  then show ?thesis
    unfolding assemble_snapshot_def Let_def by (auto split: option.split prod.split sum.split)
qed


lemma driven_fail:
  "driven 4 t (snd (fail_request (record_identity_failure now code) ownership now unix b d error t))"
  "driven 4 t (snd (fail_request (record_rate_failure now code) ownership now unix b d error t))"
  by (rule driven_mono [OF driven_reject(2)], rule driven_history, simp)+

lemma driven_fail_history:
  assumes "sv_history t = Some h" "rate_sample_new i now unix v hooks = Inr sample"
  shows "driven 4 t (snd (fail_history ownership now unix error (t\<lparr>sv_history := Some (snd (validate_current sample h))\<rparr>)))"
  unfolding fail_history_def by (rule driven_trans [OF driven_insert(2) [OF assms] driven_reject(2) [OF driven_history(4)]]) simp

lemma driven_current: "driven 4 s (snd (current_snapshot ports requested active_interface ownership s))"
proof -
  have h: "driven 4 t (snd (assemble_snapshot requested ownership raw now unix (t\<lparr>sv_history := Some (snd (validate_current sample h))\<rparr>)))"
    if "sv_history t = Some h" "rate_sample_new i now unix v hooks = Inr sample"
    for t :: "('a, 'b) SamplingService" and h i now unix v hooks sample raw
    by (rule driven_trans [OF driven_insert(2) [OF that] driven_assemble]) simp
  note r = driven_fail [of "s\<lparr>sv_world := w\<rparr>" for w, unfolded driven_world]
  note q = h [of "s\<lparr>sv_world := w\<rparr>" for w, unfolded driven_world, simplified]
    driven_fail_history [of "s\<lparr>sv_world := w\<rparr>" for w, unfolded driven_world, simplified]
  have wrong: "driven 4 s (s\<lparr>sv_world := w\<rparr>)" for w by (simp add: driven_def)
  show ?thesis
    unfolding current_snapshot_def Let_def
    by (auto simp: r wrong split: prod.split sum.split option.split) (metis q snd_conv)+
qed


lemma driven_pause: "driven 1 s (sampling_pause ports s)"
proof -
  have h: "runs rate_step (Suc 0) (Some h) (Some (rate_pause now code h))" for h now code
    using runs_one(2) [of rate_step 0 h "RateOp.OpPause now code"] by simp
  have b: "runs baseline_step (Suc 0) (Some b) (Some (snd (baseline_unavailable unix code b)))" for b unix code
    using runs_one(2) [of baseline_step 0 b "BlMarkUnavailable unix code"] by simp
  have w: "runs window_step (Suc 0) x (map_option (\<lambda>h. snd (window_history_unavailable code h)) x)" for x code
    using runs_one(1) [of window_step 0 x "WUnavailable code"] by simp
  have d: "runs det_step (Suc 0) (Some e) (Some (snd (detection_pause unix e)))" for e unix
    using runs_one(2) [of det_step 0 e "OpPause unix"] by (simp add: det_step_def)
  show ?thesis
    unfolding sampling_pause_def Let_def driven_def
    by (cases "sv_history s"; cases "sv_baseline s"; cases "sv_detection s")
      (simp_all add: h b w d on_window_def split: prod.split)
qed

lemma ended_keeps: "driven 0 s (sampling_generation_ended ports s)"
  by (auto simp: sampling_generation_ended_def push_incident_job_def driven_def split: option.split prod.split sum.split)

section \<open>The queue of write jobs\<close>

definition job_ok :: "IncidentWriteJob \<Rightarrow> bool" where
  "job_ok job \<longleftrightarrow> incident_revision_validate (ij_revision job) = Inr ()"

definition queue_ok :: "IncidentWriteJob list \<Rightarrow> bool" where
  "queue_ok jobs \<longleftrightarrow> length jobs \<le> INCIDENT_OUTPUT_QUEUE_CAPACITY \<and> list_all job_ok jobs"

lemma job_valid: "incident_job r incident t code closed s = Inr job \<Longrightarrow> job_ok job"
  using job_fields(1) by (simp add: job_ok_def)

lemma record_job_ok: "recorder_record next_id t s r = (Inr (Some job), r') \<Longrightarrow> job_ok job"
  by (auto simp: recorder_record_def record_arm_def open_incident_def revise_incident_def Let_def
      split: sum.splits if_splits option.splits prod.splits intro: job_valid)

lemma ended_job_ok: "recorder_generation_ended ms s r = (Inr (Some job), r') \<Longrightarrow> job_ok job"
  by (auto simp: recorder_generation_ended_def Let_def split: sum.splits if_splits option.splits intro: job_valid)

lemma capture_loop_jobs: "list_all job_ok (fst (capture_loop next_id snapshot unseen r))"
proof (induction next_id snapshot unseen r rule: capture_loop.induct)
  case (3 next_id snapshot t unseen r)
  show ?case
  proof (cases "recorder_record next_id t snapshot r")
    case (Pair x r')
    show ?thesis
    proof (cases x)
      case (Inr job)
      with Pair 3 show ?thesis using record_job_ok [of next_id t snapshot r] by (auto split: prod.split option.split)
    qed (simp add: Pair)
  qed
qed auto

lemma push_queue_ok: "queue_ok (sv_incident_jobs s) \<Longrightarrow> list_all job_ok jobs \<Longrightarrow> queue_ok (sv_incident_jobs (fold push_incident_job jobs s))"
  by (induction jobs arbitrary: s) (auto simp: push_incident_job_def queue_ok_def)

lemma capture_queue_ok: "queue_ok (sv_incident_jobs s) \<Longrightarrow> queue_ok (sv_incident_jobs (capture_incident_transitions ports s))"
  by (auto simp: capture_incident_transitions_def Let_def split: option.split prod.split intro!: push_queue_ok)
    (metis capture_loop_jobs fst_conv)+

lemma ended_queue_ok: "queue_ok (sv_incident_jobs s) \<Longrightarrow> queue_ok (sv_incident_jobs (sampling_generation_ended ports s))"
proof -
  have "queue_ok (sv_incident_jobs t) \<Longrightarrow> job_ok job \<Longrightarrow> queue_ok (sv_incident_jobs (push_incident_job job t))"
    for t :: "('a, 'b) SamplingService" and job
    using push_queue_ok [of t "[job]"] by simp
  then show "queue_ok (sv_incident_jobs s) \<Longrightarrow> ?thesis"
    by (auto simp: sampling_generation_ended_def split: option.split prod.split sum.split dest: ended_job_ok)
qed

text \<open>Nothing else touches the queue.\<close>

lemma jobs_kept [simp]:
  "sv_incident_jobs (on_history f s) = sv_incident_jobs s" "sv_incident_jobs (on_baseline g s) = sv_incident_jobs s"
  "sv_incident_jobs (on_window k s) = sv_incident_jobs s" "sv_incident_jobs (on_detection l s) = sv_incident_jobs s"
  "sv_incident_jobs (clear_baseline unix code s) = sv_incident_jobs s"
  "sv_incident_jobs (mark_detection_unavailable unix code s) = sv_incident_jobs s"
  "sv_incident_jobs (clear_detection_integrity ownership now unix code s) = sv_incident_jobs s"
  "sv_incident_jobs (snd (reject_integrity f ownership now unix b d s)) = sv_incident_jobs s"
  "sv_incident_jobs (snd (reject_read error ownership now unix s)) = sv_incident_jobs s"
  "sv_incident_jobs (snd (record_analysis_fingerprints p now unix s)) = sv_incident_jobs s"
  "sv_incident_jobs (evaluate_detection ownership windows now unix s) = sv_incident_jobs s"
  "sv_incident_jobs (snd (advance_analysis_deadline now s)) = sv_incident_jobs s"
  "sv_incident_jobs (snd (fail_request f ownership now unix b d oe s)) = sv_incident_jobs s"
  by (auto simp: on_history_def on_baseline_def on_window_def on_detection_def clear_baseline_def mark_detection_unavailable_def
      clear_detection_integrity_def reject_integrity_def reject_read_def record_analysis_fingerprints_def evaluate_detection_def
      advance_analysis_deadline_def fail_request_def clear_request_integrity_def Let_def
      split: option.split sum.split prod.split RawFingerprints.split)


lemma analyse_jobs [simp]: "sv_incident_jobs (snd (analyse_sample ownership due raw now unix h s)) = sv_incident_jobs s"
proof -
  have "sv_incident_jobs t = sv_incident_jobs s"
    if "(if due then record_analysis_fingerprints p now unix s' else (True, s')) = (x, t)" "sv_incident_jobs s' = sv_incident_jobs s"
    for x t s' p
    using that by (auto split: if_splits) (metis jobs_kept(10) snd_conv)
  then show ?thesis
    unfolding analyse_sample_def
    by (simp split: sum.split prod.split bool.split option.split) fastforce
qed

lemma accept_jobs [simp]: "sv_incident_jobs (snd (accept_raw ownership due raw now unix t)) = sv_incident_jobs t"
  by (auto simp: accept_raw_def split: sum.split option.split prod.split)

lemma tick_read_jobs [simp]: "sv_incident_jobs (snd (tick_read ports ownership due now t)) = sv_incident_jobs t"
  by (auto simp: tick_read_def Let_def split: sum.split option.split prod.split)

lemma tick_jobs [simp]: "sv_incident_jobs (snd (sample_tick_inner ports ownership s)) = sv_incident_jobs s"
proof -
  obtain now w where clock: "sp_monotonic_ns ports (sv_world s) = (now, w)" by fastforce
  let ?s = "s\<lparr>sv_world := w\<rparr>"
  let ?due = "is_some_and (sv_next_analysis_at_ns ?s) (\<lambda>deadline. deadline \<le> now)"
  obtain x t where adv: "(if ?due then advance_analysis_deadline now ?s else (Inr (), ?s)) = (x, t)" by fastforce
  have "sv_incident_jobs (snd (if ?due then advance_analysis_deadline now ?s else (Inr (), ?s))) = sv_incident_jobs s" by simp
  then have "sv_incident_jobs t = sv_incident_jobs s" unfolding adv by simp
  then show ?thesis
    unfolding sample_tick_inner_def Let_def clock prod.case adv by (cases x) simp_all
qed

lemma current_jobs [simp]: "sv_incident_jobs (snd (current_snapshot ports requested active_interface ownership s)) = sv_incident_jobs s"
proof -
  have "sv_incident_jobs (snd (assemble_snapshot requested ownership raw now unix t)) = sv_incident_jobs t"
    for raw now unix and t :: "('a, 'b) SamplingService"
    by (auto simp: assemble_snapshot_def fail_history_def Let_def split: sum.split option.split prod.split)
  then show ?thesis
    unfolding current_snapshot_def Let_def fail_history_def by (auto split: prod.split sum.split option.split)
qed

section \<open>The service as a machine\<close>

datatype 's ServiceOp = SvStart OwnershipRecord | SvStartIncidents InterfaceName OwnershipRecord 's | SvTick OwnershipRecord
  | SvObserve InterfaceName InterfaceName OwnershipRecord
  | SvStatus "InterfaceName option" "InterfaceName option" "OwnershipRecord option"
  | SvPause | SvGenerationEnded | SvTakeJobs | SvClear

definition service_step ::
  "('w, 's) SamplingPorts \<Rightarrow> ('w, 's) SamplingService \<Rightarrow> 's ServiceOp \<Rightarrow> ('w, 's) SamplingService" where
  "service_step ports s op =
     (case op of
        SvStart ownership \<Rightarrow> snd (sampling_start ports ownership s)
      | SvStartIncidents interface ownership source \<Rightarrow> snd (start_incident_generation interface ownership source s)
      | SvTick ownership \<Rightarrow> snd (sample_tick ports ownership s)
      | SvObserve requested active_interface ownership \<Rightarrow> snd (sampling_observe ports requested active_interface ownership s)
      | SvStatus requested active_interface ownership \<Rightarrow> snd (sampling_status_request ports requested active_interface ownership s)
      | SvPause \<Rightarrow> sampling_pause ports s
      | SvGenerationEnded \<Rightarrow> sampling_generation_ended ports s
      | SvTakeJobs \<Rightarrow> snd (take_incident_jobs s)
      | SvClear \<Rightarrow> sampling_clear s)"

definition whenever :: "('a \<Rightarrow> bool) \<Rightarrow> 'a option \<Rightarrow> bool" where
  "whenever P x \<longleftrightarrow> (case x of None \<Rightarrow> True | Some a \<Rightarrow> P a)"

lemma whenever_simps [simp]: "whenever P None" "whenever P (Some a) = P a"
  by (simp_all add: whenever_def)

text \<open>The invariant after at most \<open>k\<close> operations; each drives the engine at most six times.\<close>

definition service_ok :: "nat \<Rightarrow> ('w, 's) SamplingService \<Rightarrow> bool" where
  "service_ok k s \<longleftrightarrow>
     whenever rate_inv (sv_history s) \<and> whenever baseline_inv (sv_baseline s) \<and> whenever window_inv (sv_fingerprint_window s)
     \<and> whenever (\<lambda>e. det_inv e \<and> unat (de_transition_sequence e) \<le> 6 * k) (sv_detection s) \<and> queue_ok (sv_incident_jobs s)"

lemma runs_inv:
  assumes "runs st n x y" "whenever P x" "\<And>a op. P a \<Longrightarrow> P (st a op)"
  shows "whenever P y"
proof -
  have "P a \<Longrightarrow> P (foldl st a ops)" for a ops by (induction ops arbitrary: a) (auto simp: assms(3))
  with assms(1,2) show ?thesis by (cases x) (auto simp: runs_def)
qed

lemma driven_ok:
  assumes "service_ok k s" "driven 6 s t" "queue_ok (sv_incident_jobs t)" "6 * Suc k < 2 ^ 64 - 1"
  shows "service_ok (Suc k) t"
proof -
  have "whenever (\<lambda>e. det_inv e \<and> unat (de_transition_sequence e) \<le> 6 * Suc k) (sv_detection t)"
  proof (cases "sv_detection s")
    case (Some e)
    then obtain ops where ops: "length ops \<le> 6" "sv_detection t = Some (det_run e ops)"
      using assms(2) by (auto simp: driven_def runs_def)
    have e: "det_inv e" "unat (de_transition_sequence e) \<le> 6 * k" using assms(1) Some by (auto simp: service_ok_def)
    then have "unat (de_transition_sequence e) + length ops < 2 ^ 64 - 1" using ops(1) assms(4) by simp
    from det_run_ok [OF e(1) this] e(2) ops show ?thesis by simp
  qed (use assms(2) in \<open>auto simp: driven_def runs_def\<close>)
  moreover have "whenever rate_inv (sv_history t)" "whenever baseline_inv (sv_baseline t)" "whenever window_inv (sv_fingerprint_window t)"
    using assms(1,2) rate_machine.step_inv baseline_machine.step_inv window_machine.step_inv
    by (auto simp: driven_def service_ok_def intro: runs_inv)
  ultimately show ?thesis using assms(3) by (simp add: service_ok_def)
qed

lemma start_ok:
  assumes "service_ok k s"
  shows "service_ok (Suc k) (snd (sampling_start ports ownership s))"
proof -
  have keep: "service_ok (Suc k) (s\<lparr>sv_world := w\<rparr>)" "service_ok (Suc k) s" for w
    using assms by (auto simp: service_ok_def whenever_def split: option.splits)
  have fresh: "service_ok (Suc k) (s\<lparr>sv_world := w, sv_history := Some h, sv_baseline := Some (baseline_engine_new i ms),
      sv_fingerprint_window := Some (window_history_new i), sv_detection := Some (detection_engine_new i ns ms),
      sv_next_analysis_at_ns := d\<rparr>)" if "rate_history_new i ns = Inr h" for w h i ms ns d
    using assms rate_inv_new [OF that] window_run_inv [of i "[]"]
    by (simp add: service_ok_def baseline_inv_new det_inv_new) (simp add: detection_engine_new_def)
  show ?thesis
    using keep fresh [where d = "sv_next_analysis_at_ns s", simplified] fresh
    by (auto simp: sampling_start_def Let_def split: sum.split option.split prod.split)
qed

lemma service_step_ok:
  assumes "service_ok k s" "6 * Suc k < 2 ^ 64 - 1"
  shows "service_ok (Suc k) (service_step ports s op)"
proof -
  have queue: "queue_ok (sv_incident_jobs s)" using assms(1) by (simp add: service_ok_def)
  have drive: "service_ok (Suc k) t" if "driven 6 s t" "queue_ok (sv_incident_jobs t)" for t
    by (rule driven_ok [OF assms(1) that assms(2)])
  have request: "service_ok (Suc k) (acknowledge_request_transitions t)"
    if "current_snapshot ports r a ow s = (x, t)" for r a ow x t
    using drive [of "acknowledge_request_transitions t"] driven_mono [OF driven_current [of s ports r a ow], of 6] queue
      current_jobs [of ports r a ow s] that by (simp add: driven_def)
  have refused: "service_ok (Suc k) s" by (rule drive) (simp_all add: queue)
  show ?thesis
  proof (cases op)
    case (SvTick ownership)
    have "queue_ok (sv_incident_jobs (snd (sample_tick ports ownership s)))"
      using capture_queue_ok [of "snd (sample_tick_inner ports ownership s)" ports] queue
      by (auto simp: sample_tick_def split: prod.split)
    then show ?thesis using drive [OF driven_tick] SvTick by (simp add: service_step_def)
  next
    case SvPause
    have "queue_ok (sv_incident_jobs (sampling_pause ports s))"
      unfolding sampling_pause_def Let_def
      by (rule capture_queue_ok) (simp add: queue split: option.split prod.split)
    then show ?thesis
      using drive [OF driven_mono [OF driven_pause]] SvPause by (simp add: service_step_def)
  next
    case SvGenerationEnded
    then show ?thesis
      using drive [OF driven_mono [OF ended_keeps] ended_queue_ok [OF queue]] by (simp add: service_step_def)
  qed (use refused request start_ok [OF assms(1)] in \<open>auto simp: service_step_def sampling_observe_def sampling_status_request_def
      start_incident_generation_def take_incident_jobs_def sampling_clear_def sampling_service_new_def service_ok_def queue_ok_def
      split: prod.split sum.split option.split\<close>)
qed

lemma service_run_ok:
  assumes "service_ok k s" "6 * (k + length ops) < 2 ^ 64 - 1"
  shows "service_ok (k + length ops) (foldl (service_step ports) s ops)"
  using assms
proof (induction ops arbitrary: k s)
  case (Cons op ops)
  then have "service_ok (Suc k) (service_step ports s op)" by (intro service_step_ok) simp_all
  from Cons.IH [OF this] Cons.prems(2) show ?case by simp
qed simp

lemma service_new_ok: "service_ok 0 (sampling_service_new w)"
  by (simp add: service_ok_def sampling_service_new_def queue_ok_def)

lemma service_reachable:
  assumes "6 * length ops < 2 ^ 64 - 1"
  shows "service_ok (length ops) (foldl (service_step ports) (sampling_service_new w) ops)"
  using service_run_ok [OF service_new_ok, of ops ports w] assms by simp

section \<open>Rejected ticks\<close>

text \<open>
  The engine has room for \<open>n\<close> more transitions; and the engine \<open>before\<close> has been replaced by one whose
  report makes no claim about the traffic: unavailable, or, when \<open>before\<close> watched another identity
  than \<open>i\<close>, a fresh engine for \<open>i\<close> that is warming up.
\<close>

definition roomy :: "nat \<Rightarrow> ('w, 's) SamplingService \<Rightarrow> bool" where
  "roomy n s \<longleftrightarrow> whenever (\<lambda>e. det_inv e \<and> unat (de_transition_sequence e) + n < 2 ^ 64 - 1) (sv_detection s)"

definition silenced :: "RateIdentity \<Rightarrow> DetectionEngine \<Rightarrow> DetectionEngine \<Rightarrow> bool" where
  "silenced i before e \<longleftrightarrow>
     dr_state (de_report e) = DsUnavailable \<or>
     (dr_state (de_report e) = DsWarmingUp \<and> de_identity before \<noteq> i \<and> de_identity e = i)"

definition retracted :: "RateIdentity \<Rightarrow> DetectionEngine option \<Rightarrow> ('w, 's) SamplingService \<Rightarrow> bool" where
  "retracted i before s \<longleftrightarrow> rel_option (silenced i) before (sv_detection s)"

lemma roomy_driven:
  assumes "roomy (m + n) s" "driven m s t"
  shows "roomy n t"
proof (cases "sv_detection s")
  case (Some e)
  then obtain ops where ops: "length ops \<le> m" "sv_detection t = Some (det_run e ops)"
    using assms(2) by (auto simp: driven_def runs_def)
  have e: "det_inv e" "unat (de_transition_sequence e) + (m + n) < 2 ^ 64 - 1" using assms(1) Some by (auto simp: roomy_def)
  then have "unat (de_transition_sequence e) + length ops < 2 ^ 64 - 1" using ops(1) by simp
  from det_run_ok [OF e(1) this] e(2) ops show ?thesis by (simp add: roomy_def)
qed (use assms(2) in \<open>auto simp: driven_def runs_def roomy_def\<close>)

lemma roomy_mono: "roomy m s \<Longrightarrow> n \<le> m \<Longrightarrow> roomy n s"
  by (auto simp: roomy_def whenever_def split: option.splits)

lemma roomy_step: "roomy m s \<Longrightarrow> driven k s t \<Longrightarrow> k + n \<le> m \<Longrightarrow> roomy n t"
  using roomy_driven [of k n s t] roomy_mono [of m s "k + n"] by simp

lemma room_for_one: "unat x + Suc n < 2 ^ 64 - 1 \<Longrightarrow> x \<noteq> (- 1 :: u64)"
  using unat_u64_max by auto

lemma outage_state:
  assumes "det_inv e" "de_transition_sequence e \<noteq> - 1" "validate_error_code code = Inr ()"
  shows "dr_state (de_report (snd (publish_unavailable unix code reason False e))) = DsUnavailable"
proof -
  have "settled e" using assms(1) by (simp add: det_inv_def)
  then have "resumable e" "dr_state (de_report e) = DsUnavailable \<or> dr_state (de_report e) = de_resume_state e"
    by (auto simp: settled_resumable settled_def)
  with publish_unavailable_ok [of e code False unix reason] assms(2,3) show ?thesis by (metis snd_conv)
qed

lemma clear_state:
  assumes "det_inv e" "de_transition_sequence e \<noteq> - 1" "validate_error_code code = Inr ()"
  shows "silenced identity e (snd (detection_clear identity now unix code e))"
proof (cases "identity = de_identity e")
  case True
  define c where "c = e\<lparr>de_last_trustworthy_monotonic_ns := now, de_resume_state := DsWarmingUp, de_last_candidate := CandNone,
                de_candidate_streak := 0, de_clear_streak := 0, de_cooldown_started_at_monotonic_ns := None,
                de_last_anomalous_state := None, de_report := (de_report e)\<lparr>dr_last_trustworthy_at_unix_ms := None\<rparr>\<rparr>"
  have "resumable c" "de_transition_sequence c \<noteq> - 1"
    using assms by (auto simp: c_def det_inv_def settled_def resumable_def is_anomalous_def)
  then obtain e' where "publish_unavailable unix code IntegrityFailure True c = (Inr (de_report e'), e')"
    "dr_state (de_report e') = DsUnavailable"
    using publish_unavailable_ok [of c code True unix IntegrityFailure] assms(3) by metis
  with True assms(3) show ?thesis by (simp add: silenced_def detection_clear_def c_def)
next
  case False
  with assms(3) show ?thesis
    by (simp add: silenced_def detection_clear_def Let_def) (simp add: detection_engine_new_def report_warming_def)
qed

lemma mark_retracts:
  assumes "roomy (Suc n) s" "validate_error_code code = Inr ()"
  shows "retracted i (sv_detection s) (mark_detection_unavailable unix code s)"
  using assms room_for_one outage_state [of _ code unix EvidenceUnavailable]
  by (auto simp: mark_detection_unavailable_def on_detection_def retracted_def silenced_def roomy_def whenever_def
      detection_unavailable_def
      split: option.splits)

lemma clear_retracts:
  assumes "roomy (Suc n) s" "validate_error_code code = Inr ()" "rate_identity_new (or_ifindex ownership) (or_generation ownership) = Inr i"
  shows "retracted i (sv_detection s) (clear_detection_integrity ownership now unix code s)"
  using assms room_for_one clear_state [of _ code i now unix]
  by (auto simp: clear_detection_integrity_def on_detection_def on_window_def retracted_def roomy_def whenever_def Let_def split: option.splits)

lemma detection_codes_valid [simp]:
  "validate_error_code DETECTION_RATE_INVALID = Inr ()" "validate_error_code DETECTION_IDENTITY_CHANGED = Inr ()"
  "validate_error_code DETECTION_SOURCE_UNAVAILABLE = Inr ()"
  by (simp_all add: DETECTION_RATE_INVALID_def DETECTION_IDENTITY_CHANGED_def DETECTION_SOURCE_UNAVAILABLE_def, code_simp+)


lemma analysis_keeps_detection [simp]:
  "sv_detection (on_baseline g s) = sv_detection s" "sv_detection (on_history f s) = sv_detection s"
  by (simp_all add: on_baseline_def on_history_def split: option.splits)

lemma reject_retracts:
  assumes "roomy (Suc (Suc n)) s" "driven 1 s (on_history failure s)" "validate_error_code d = Inr ()"
    "rate_identity_new (or_ifindex ownership) (or_generation ownership) = Inr i"
  shows "retracted i (sv_detection s) (snd (reject_integrity failure ownership now unix b d s))"
proof -
  have "roomy (Suc n) (clear_baseline unix b (on_history failure s))"
    using assms(1) by (simp add: roomy_def clear_baseline_def on_baseline_def on_history_def whenever_def split: option.splits)
  moreover have "sv_detection (clear_baseline unix b (on_history failure s)) = sv_detection s"
    by (simp add: clear_baseline_def)
  ultimately show ?thesis using clear_retracts assms(3,4) by (metis reject_integrity_def snd_conv)
qed

lemma reject_read_retracts:
  assumes "roomy 2 s" "rate_identity_new (or_ifindex ownership) (or_generation ownership) = Inr i"
  shows "retracted i (sv_detection s) (snd (reject_read error ownership now unix s))"
proof -
  have room: "roomy (Suc 0) (on_baseline g (on_history f s))" for g f
    using assms(1) by (simp add: roomy_def on_baseline_def on_history_def whenever_def split: option.splits)
  show ?thesis
    using mark_retracts [OF room, of _ i] reject_retracts [OF assms(1) [unfolded numeral_2_eq_2] driven_history(1) _ assms(2)]
    by (simp add: reject_read_def Let_def)
qed

lemma analyse_retracts:
  assumes "roomy 6 s" "rate_identity_new (or_ifindex ownership) (or_generation ownership) = Inr i"
    "analyse_sample ownership due raw now unix h s = (Rejected, t)"
  shows "retracted i (sv_detection s) t"
proof -
  have room: "roomy (Suc (Suc 0)) s" "roomy (Suc 0) (s\<lparr>sv_baseline := b\<rparr>)" "roomy (Suc 0) s" for b
    using assms(1) by (auto simp: roomy_def whenever_def split: option.splits)
  note clears = clear_retracts [OF room(2) _ assms(2), simplified] clear_retracts [OF room(3) _ assms(2)]
    reject_retracts [OF room(1) driven_history(4) _ assms(2)]
  show ?thesis
  proof (cases "detailed_windows now h")
    case (Inl error)
    have "t = snd (analyse_sample ownership due raw now unix h s)" using assms(3) by simp
    also have "\<dots> = snd (reject_integrity (record_history_failure now error) ownership now unix (baseline_code_for_rate_error error)
            DETECTION_RATE_INVALID s)" by (simp add: analyse_sample_def Inl)
    finally show ?thesis using clears(3) by simp
  next
    case (Inr windows)
    with assms(3) show ?thesis
      by (auto simp: analyse_sample_def clears split: if_splits option.splits prod.splits bool.splits)
  qed
qed

lemma accept_retracts:
  assumes "roomy 7 s" "rate_identity_new (or_ifindex ownership) (or_generation ownership) = Inr i" "sv_history s = Some h"
    "accept_raw ownership due raw now unix s = (Rejected, t)"
  shows "retracted i (sv_detection s) t"
proof -
  have room: "roomy (Suc (Suc 0)) s" "roomy (Suc (Suc 0)) (s\<lparr>sv_history := h\<rparr>)" "roomy 6 (s\<lparr>sv_history := h\<rparr>)" for h
    using assms(1) by (auto simp: roomy_def whenever_def split: option.splits)
  note rejected = reject_retracts [OF room(1) driven_history(2) _ assms(2)] reject_retracts [OF room(2) driven_history(4) _ assms(2)]
  consider (sample) e where "rate_sample raw now unix = Inl e"
    | (insert) sample e h' where "rate_sample raw now unix = Inr sample" "rate_insert sample h = (Inl e, h')"
    | (ok) sample x h' where "rate_sample raw now unix = Inr sample" "rate_insert sample h = (Inr x, h')"
    by (metis old.sum.exhaust surj_pair)
  then show ?thesis
  proof cases
    case sample
    with assms(4) rejected(1) show ?thesis by (auto simp: accept_raw_def reject_integrity_def)
  next
    case insert
    with assms(3,4) rejected(2) show ?thesis by (auto simp: accept_raw_def reject_integrity_def)
  next
    case ok
    with assms(3,4) analyse_retracts [OF room(3) assms(2)] show ?thesis by (auto simp: accept_raw_def)
  qed
qed

text \<open>The analysis deadline moves by whole periods, to the first one after the current time.\<close>

lemma advance_deadline:
  fixes s :: "('w, 's) SamplingService"
  assumes "sv_next_analysis_at_ns s = Some deadline" "deadline \<le> now"
  shows "case advance_analysis_deadline now s of
      (Inr _, t) \<Rightarrow> \<exists>d. t = s\<lparr>sv_next_analysis_at_ns := Some d\<rparr> \<and> unat now < unat d \<and> unat d \<le> unat now + 10 ^ 10
        \<and> 10 ^ 10 dvd unat d - unat deadline
    | (Inl _, t) \<Rightarrow> t = s \<and> 2 ^ 64 \<le> unat now + 10 ^ 10"
proof -
  let ?p = "10000000000 :: u64"
  define periods where "periods = (now - deadline) div ?p + 1"
  define m where "m = (unat now - unat deadline) div 10 ^ 10 + 1"
  have diff: "unat (now - deadline) = unat now - unat deadline" using assms(2) by (rule unat_diff)
  have le: "unat deadline \<le> unat now" using assms(2) by (simp add: word_le_nat_alt)
  have q: "unat ((now - deadline) div ?p) = (unat now - unat deadline) div 10 ^ 10" by (simp add: unat_div diff)
  have "(unat now - unat deadline) div 10 ^ 10 \<le> unat now div 10 ^ 10" by (simp add: div_le_mono)
  also have "\<dots> < 2 ^ 64 - 1" by (simp add: div_less_iff_less_mult) (use unat_lt_64 [of now] in linarith)
  finally have small: "(unat now - unat deadline) div 10 ^ 10 < 2 ^ 64 - 1" .
  have add: "checked_add ((now - deadline) div ?p) 1 = Some periods"
    using small by (simp add: checked_add_Some periods_def q)
  have m: "unat periods = m" using checked_add_unat [OF add] by (simp add: q m_def)
  have bounds: "unat now < unat deadline + m * 10 ^ 10" "unat deadline + m * 10 ^ 10 \<le> unat now + 10 ^ 10"
    using le by (simp_all add: m_def)
  show ?thesis
  proof (cases "checked_mul periods ?p")
    case None
    then have "2 ^ 64 \<le> m * 10 ^ 10" by (simp add: checked_mul_def m split: if_splits)
    with bounds have "2 ^ 64 \<le> unat now + 10 ^ 10" by linarith
    with None assms add show ?thesis
      by (simp add: advance_analysis_deadline_def checked_sub_def checked_div_def)
  next
    case (Some a)
    then have a: "unat a = m * 10 ^ 10" using checked_mul_unat [OF Some] m by simp
    show ?thesis
    proof (cases "checked_add deadline a")
      case None
      then have "2 ^ 64 \<le> unat now + 10 ^ 10" using bounds a by (simp add: checked_add_None)
      with None Some assms add show ?thesis
        by (simp add: advance_analysis_deadline_def checked_sub_def checked_div_def)
    next
      case (Some d)
      then have "unat d = unat deadline + m * 10 ^ 10" using checked_add_unat [OF Some] a by simp
      with bounds Some \<open>checked_mul periods ?p = Some a\<close> assms add show ?thesis
        by (auto simp: advance_analysis_deadline_def checked_sub_def checked_div_def intro!: exI [of _ d])
    qed
  qed
qed

lemma tick_read_retracts:
  assumes "roomy 7 s" "rate_identity_new (or_ifindex ownership) (or_generation ownership) = Inr i" "sv_history s = Some h"
    "tick_read ports ownership due now s = (Rejected, t)"
  shows "retracted i (sv_detection s) t"
proof -
  have room: "roomy 7 (s\<lparr>sv_world := w\<rparr>)" "roomy (Suc (Suc 0)) (s\<lparr>sv_world := w\<rparr>)" "roomy 2 (s\<lparr>sv_world := w\<rparr>)" for w
    using assms(1) by (auto simp: roomy_def whenever_def split: option.splits)
  note rejected = reject_retracts [OF room(2) driven_history(1) _ assms(2)] reject_retracts [OF room(2) driven_history(2) _ assms(2)]
    reject_read_retracts [OF room(3) assms(2)]
  have kept: "sv_detection (s\<lparr>sv_world := w\<rparr>) = sv_detection s" for w by simp
  note rejected = rejected [unfolded kept]
  obtain x w1 where x: "sp_read_exact ports ownership (if due then PurposeBackgroundAnalysis else PurposeBackgroundSample) (sv_world s) = (x, w1)"
    by fastforce
  obtain wall w2 where wall: "wall_time_ms ports w1 = (wall, w2)" by fastforce
  obtain wall' w3 where wall': "wall_time_ms ports w2 = (wall', w3)" by fastforce
  have accept: "retracted i (sv_detection s) t" if "accept_raw ownership due raw now ms (s\<lparr>sv_world := w3\<rparr>) = (Rejected, t)" for raw ms
    using accept_retracts [OF room(1) assms(2) _ that] assms(3) by simp
  show ?thesis
  proof (cases x)
    case (Inl error)
    then have "(Rejected, t) = reject_read error ownership now (unwrap_or wall 0) (s\<lparr>sv_world := w2\<rparr>)"
      using assms(4) by (simp add: tick_read_def x wall Let_def)
    with rejected(3) show ?thesis by (metis snd_conv)
  next
    case (Inr raw)
    with assms(4) accept rejected(1,2) show ?thesis
      by (auto simp: tick_read_def x wall wall' Let_def reject_integrity_def split: if_splits option.splits)
  qed
qed

lemma capture_retracted [simp]: "retracted i before (capture_incident_transitions ports s) = retracted i before s"
  by (simp add: retracted_def)

lemma rejected_tick:
  fixes s :: "('w, 's) SamplingService"
  assumes "roomy 7 s" "rate_identity_new (or_ifindex ownership) (or_generation ownership) = Inr i"
    "sv_history s \<noteq> None" "sv_baseline s \<noteq> None" "sv_fingerprint_window s \<noteq> None" "sv_detection s \<noteq> None"
    "unat (fst (sp_monotonic_ns ports (sv_world s))) + 10 ^ 10 < 2 ^ 64"
    "sample_tick ports ownership s = (Rejected, t)"
  shows "retracted i (sv_detection s) t"
proof -
  obtain now w where clock: "sp_monotonic_ns ports (sv_world s) = (now, w)" by fastforce
  let ?s = "s\<lparr>sv_world := w\<rparr>"
  define due where "due \<longleftrightarrow> is_some_and (sv_next_analysis_at_ns ?s) (\<lambda>deadline. deadline \<le> now)"
  obtain x u where adv: "(if due then advance_analysis_deadline now ?s else (Inr (), ?s)) = (x, u)" by fastforce
  have u: "(\<exists>y. x = Inr y) \<and> sv_history u = sv_history s \<and> sv_detection u = sv_detection s"
  proof (cases due)
    case True
    then obtain deadline where "sv_next_analysis_at_ns ?s = Some deadline" "deadline \<le> now" by (auto simp: due_def is_some_and_conv)
    from advance_deadline [OF this] True adv assms(7) clock show ?thesis by (auto split: sum.splits)
  qed (use adv in auto)
  then obtain y where y: "x = Inr y" by blast
  have "roomy 7 u" using assms(1) u by (simp add: roomy_def)
  moreover obtain h where "sv_history u = Some h" using assms(3) u by auto
  moreover obtain v where "tick_read ports ownership due now u = (Rejected, v)" "t = capture_incident_transitions ports v"
    using assms(3-6,8) adv y unfolding sample_tick_def sample_tick_inner_def Let_def clock prod.case due_def [symmetric]
    by (auto split: prod.splits)
  ultimately show ?thesis
    using tick_read_retracts [OF _ assms(2), of u h ports due now] u by (metis capture_retracted)
qed


text \<open>A service on a machine whose clock stands still and whose maps cannot be read.\<close>

abbreviation broken_ports :: "(unit, unit) SamplingPorts" where
  "broken_ports \<equiv> \<lparr>sp_monotonic_ns = (\<lambda>w. (5, w)), sp_wall_time = (\<lambda>w. (7000000, w)),
     sp_read_exact = (\<lambda>o' p w. (Inl (Adapter ''bpf''), w)), sp_next_id = (\<lambda>w. (Inl RecIdUnavailable, w))\<rparr>"

abbreviation lab_ownership :: OwnershipRecord where
  "lab_ownership \<equiv> \<lparr>or_schema_version = 1, or_abi_version = 1, or_generation = 1, or_ifindex = 7, or_xdp = None, or_tc = [],
     or_map_pins = [], or_created_at_unix_seconds = 0\<rparr>"

lemma det_inv_published:
  assumes "det_inv e"
  shows "detection_report_validate (de_report e) = Inr ()
    \<and> ring_ok (dr_transitions (de_report e)) (dr_transition_sequence (de_report e)) (dr_state (de_report e))"
  using assms settled_validates [of e] synced_fields(18,19) [of e] by (simp add: det_inv_def settled_def)

lemma service_ok_published:
  assumes "service_ok k s"
  shows "whenever (\<lambda>h. length (rh_samples h) \<le> RATE_HISTORY_CAPACITY \<and> sorted_wrt sample_after (rh_samples h)
        \<and> list_all (\<lambda>x. rs_identity x = rh_identity h) (rh_samples h)) (sv_history s)"
    and "whenever (\<lambda>b. baseline_report_validate (be_cached b) = Inr ()) (sv_baseline s)"
    and "whenever (\<lambda>w. window_validate (fwh_report w) = Inr ()) (sv_fingerprint_window s)"
    and "whenever (\<lambda>e. detection_report_validate (de_report e) = Inr ()
        \<and> ring_ok (dr_transitions (de_report e)) (dr_transition_sequence (de_report e)) (dr_state (de_report e))) (sv_detection s)"
    and "length (sv_incident_jobs s) \<le> 32 \<and> list_all (\<lambda>j. incident_revision_validate (ij_revision j) = Inr ()) (sv_incident_jobs s)"
  using assms det_inv_published
  by (auto simp: service_ok_def whenever_def rate_inv_def list_all_iff baseline_inv_def window_inv_def queue_ok_def job_ok_def split: option.splits)

text \<open>
  \<^bold>\<open>C5.\<close> Whatever the service is asked to do, in whatever order (starts, ticks with arbitrary readings and
  clocks, requests, pauses, ends of a generation), its parts stay well formed: the rate history is a
  bounded ring of ordered samples of one identity, the cached baseline, fingerprint window and
  detection reports satisfy their own validation, the detection transitions are numbered without gaps,
  and at most 32 write jobs wait, each a revision that validates.
\<close>

theorem service_stays_well_formed:
  fixes ports :: "('w, 's) SamplingPorts" and world ops
  assumes "6 * length ops < 2 ^ 64 - 1"
  defines "s \<equiv> foldl (service_step ports) (sampling_service_new world) ops"
  shows "whenever (\<lambda>h. length (rh_samples h) \<le> RATE_HISTORY_CAPACITY \<and> sorted_wrt sample_after (rh_samples h)
        \<and> list_all (\<lambda>x. rs_identity x = rh_identity h) (rh_samples h)) (sv_history s)
    \<and> whenever (\<lambda>b. baseline_report_validate (be_cached b) = Inr ()) (sv_baseline s)
    \<and> whenever (\<lambda>w. window_validate (fwh_report w) = Inr ()) (sv_fingerprint_window s)
    \<and> whenever (\<lambda>e. detection_report_validate (de_report e) = Inr ()
        \<and> ring_ok (dr_transitions (de_report e)) (dr_transition_sequence (de_report e)) (dr_state (de_report e))) (sv_detection s)
    \<and> length (sv_incident_jobs s) \<le> 32 \<and> list_all (\<lambda>j. incident_revision_validate (ij_revision j) = Inr ()) (sv_incident_jobs s)"
  using service_ok_published [OF service_reachable [OF assms(1), of ports world]] by (simp add: s_def)

theorem service_stays_well_formed_witness:
  "whenever (\<lambda>e. detection_report_validate (de_report e) = Inr ())
     (sv_detection (foldl (service_step broken_ports) (sampling_service_new ()) [SvStart lab_ownership, SvTick lab_ownership, SvPause]))"
  using service_stays_well_formed [where ports = broken_ports and world = "()" and ops = "[SvStart lab_ownership, SvTick lab_ownership, SvPause]"]
  by (auto simp: whenever_def split: option.splits)

text \<open>
  \<^bold>\<open>C6.\<close> A rejected tick never leaves an old verdict standing. On a running service of an owned interface,
  as long as the monotonic clock is ten seconds away from its end, a tick that is rejected for any
  reason (the read, the identity, the clock, a counter that went back, the rates, the baseline)
  publishes detection as unavailable when the engine watched the owned interface and generation. Only
  an engine that watched another one may instead be replaced by a fresh engine, for the owned one,
  that is warming up.
\<close>

theorem rejected_ticks_retract_the_verdict:
  fixes ports :: "('w, 's) SamplingPorts" and world ops
  defines "s \<equiv> foldl (service_step ports) (sampling_service_new world) ops"
  assumes "6 * length ops + 7 < 2 ^ 64 - 1"
    and "sv_history s \<noteq> None" "sv_baseline s \<noteq> None" "sv_fingerprint_window s \<noteq> None" "sv_detection s = Some before"
    and "or_ifindex ownership \<noteq> 0" "or_generation ownership \<noteq> 0"
    and "unat (fst (sp_monotonic_ns ports (sv_world s))) + 10 ^ 10 < 2 ^ 64"
    and "sample_tick ports ownership s = (Rejected, t)"
  shows "\<exists>e. sv_detection t = Some e \<and>
    (if ri_ifindex (de_identity before) = or_ifindex ownership \<and> ri_generation (de_identity before) = or_generation ownership
     then dr_state (de_report e) = DsUnavailable
     else dr_state (de_report e) = DsUnavailable \<or>
       (dr_state (de_report e) = DsWarmingUp \<and> ri_ifindex (de_identity e) = or_ifindex ownership \<and>
        ri_generation (de_identity e) = or_generation ownership))"
proof -
  have "service_ok (length ops) s" using service_reachable [of ops ports world] assms(2) by (simp add: s_def)
  then have "roomy 7 s" using assms(2) by (auto simp: roomy_def service_ok_def whenever_def split: option.splits)
  moreover obtain i where i: "rate_identity_new (or_ifindex ownership) (or_generation ownership) = Inr i"
    using assms(7,8) by (auto simp: rate_identity_new_def)
  ultimately have "retracted i (sv_detection s) t"
    by (rule rejected_tick) (use assms(3-6,9,10) in simp_all)
  then obtain e where "sv_detection t = Some e" "silenced i before e"
    using assms(6) by (auto simp: retracted_def option_rel_Some1)
  moreover have "i = \<lparr>ri_ifindex = or_ifindex ownership, ri_generation = or_generation ownership\<rparr>"
    using i by (auto simp: rate_identity_new_def split: if_splits)
  ultimately show ?thesis by (auto simp: silenced_def)
qed

theorem rejected_ticks_retract_the_verdict_witness:
  "\<exists>e. sv_detection (snd (sample_tick broken_ports lab_ownership
       (foldl (service_step broken_ports) (sampling_service_new ()) [SvStart lab_ownership]))) = Some e
     \<and> dr_state (de_report e) = DsUnavailable"
proof -
  let ?s = "foldl (service_step broken_ports) (sampling_service_new ()) [SvStart lab_ownership]"
  note eval = service_step_def sampling_start_def sampling_service_new_def wall_time_ms_def rate_identity_new_def rate_history_new_def
    rate_identity_validate_def try_from_usize_def checked_add_def Let_def
  have s: "sv_history ?s \<noteq> None" "sv_baseline ?s \<noteq> None" "sv_fingerprint_window ?s \<noteq> None"
    by (simp_all add: eval)
  obtain before where d: "sv_detection ?s = Some before"
    "de_identity before = \<lparr>ri_ifindex = 7, ri_generation = 1\<rparr>"
    by (simp add: eval detection_engine_new_def)
  have "fst (sample_tick broken_ports lab_ownership ?s) = Rejected"
    by (simp add: eval sample_tick_def sample_tick_inner_def tick_read_def reject_read_def reject_integrity_def)
  then have t: "sample_tick broken_ports lab_ownership ?s = (Rejected, snd (sample_tick broken_ports lab_ownership ?s))"
    by (simp add: prod_eq_iff)
  show ?thesis
    using rejected_ticks_retract_the_verdict [where ports = broken_ports and world = "()" and ops = "[SvStart lab_ownership]"
        and ownership = lab_ownership, OF _ s d(1) _ _ _ t] d(2) by simp
qed


lemma request_succeeds:
  assumes "current_snapshot ports requested active_interface ownership s = (Inr result, u)"
  obtains raw now unix w where "assemble_snapshot requested ownership raw now unix (s\<lparr>sv_world := w\<rparr>) = (Inr result, u)"
    "requested = active_interface" "ro_ifindex raw = or_ifindex ownership" "ro_generation raw = or_generation ownership"
proof -
  have kept: "x = Inr y \<Longrightarrow> h' = h" if "validate_current current h = (x, h')" for x y h h' current
    using that by (auto simp: validate_current_def Let_def split: if_splits)
  have same: "s\<lparr>sv_world := w, sv_history := Some h\<rparr> = s\<lparr>sv_world := w\<rparr>" if "sv_history s = Some h" for w h
    using that by simp
  show thesis
    using assms that
    by (auto simp: current_snapshot_def Let_def fail_request_def fail_history_def same
        split: if_splits prod.splits sum.splits option.splits dest: kept)
qed

lemma assembled:
  assumes "assemble_snapshot requested ownership raw now unix s = (Inr (snapshot, windows), u)"
  shows "u = s" "os_interface snapshot = requested" "os_ifindex snapshot = ro_ifindex raw" "os_generation snapshot = ro_generation raw"
    "map_option sampling_status (sv_history s) = Some (os_sampling snapshot)" "map_option be_cached (sv_baseline s) = Some (os_baseline snapshot)"
    "map_option de_report (sv_detection s) = Some (os_detection snapshot)"
    "os_health snapshot = observation_health (os_sampling snapshot) (os_rate_windows snapshot) (br_state (os_baseline snapshot))
         (fr_state (os_fingerprints snapshot)) (dr_state (os_detection snapshot))"
  using assms
  by (auto simp: assemble_snapshot_def Let_def fail_request_def fail_history_def observation_snapshot_new_def rbind_Inr_conv
      split: if_splits prod.splits sum.splits option.splits)

text \<open>A machine on which nothing moves, and a service that has just been started on it.\<close>

abbreviation idle_ports :: "(unit, unit) SamplingPorts" where
  "idle_ports \<equiv> \<lparr>sp_monotonic_ns = (\<lambda>w. (5, w)), sp_wall_time = (\<lambda>w. (7000000, w)),
     sp_read_exact = (\<lambda>ow p w. (Inr \<lparr>ro_ifindex = or_ifindex ow, ro_generation = or_generation ow, ro_vlan_visibility = VlanUnknown,
        ro_hooks = Arr2 (idle_hook ExternalXdpIngress) (idle_hook PhysicalTcEgress), ro_fingerprints = FpNotRequested\<rparr>, w)),
     sp_next_id = (\<lambda>w. (Inl RecIdUnavailable, w))\<rparr>"

text \<open>
  A request reads and does not disturb. When it succeeds, the snapshot is of the interface the
  session runs on and of its identity, it carries the cached baseline and detection reports as they
  stand, its health is derived from exactly the parts it carries, and neither history nor baseline nor
  fingerprint window nor engine nor the queue of write jobs has changed.
\<close>

theorem observe_reports_and_keeps:
  assumes "sampling_observe ports requested active_interface ownership s = (Inr snapshot, t)"
  shows "os_interface snapshot = active_interface \<and> requested = active_interface
    \<and> os_ifindex snapshot = or_ifindex ownership \<and> os_generation snapshot = or_generation ownership
    \<and> map_option sampling_status (sv_history s) = Some (os_sampling snapshot)
    \<and> map_option be_cached (sv_baseline s) = Some (os_baseline snapshot)
    \<and> map_option de_report (sv_detection s) = Some (os_detection snapshot)
    \<and> os_health snapshot = observation_health (os_sampling snapshot) (os_rate_windows snapshot) (br_state (os_baseline snapshot))
         (fr_state (os_fingerprints snapshot)) (dr_state (os_detection snapshot))
    \<and> sv_history t = sv_history s \<and> sv_baseline t = sv_baseline s \<and> sv_fingerprint_window t = sv_fingerprint_window s
    \<and> sv_detection t = sv_detection s \<and> sv_incident_jobs t = sv_incident_jobs s"
proof -
  obtain windows u where u: "current_snapshot ports requested active_interface ownership s = (Inr (snapshot, windows), u)"
    "t = acknowledge_request_transitions u"
    using assms by (auto simp: sampling_observe_def split: prod.splits sum.splits)
  from request_succeeds [OF u(1)] obtain raw now unix w where
    a: "assemble_snapshot requested ownership raw now unix (s\<lparr>sv_world := w\<rparr>) = (Inr (snapshot, windows), u)"
      "requested = active_interface" "ro_ifindex raw = or_ifindex ownership" "ro_generation raw = or_generation ownership" .
  from assembled [OF a(1)] a(2-4) u(2) show ?thesis by simp
qed


theorem observe_reports_and_keeps_witness:
  "\<exists>snapshot. fst (sampling_observe idle_ports (InterfaceName ''eth0'') (InterfaceName ''eth0'') lab_ownership
        (foldl (service_step idle_ports) (sampling_service_new ()) [SvStart lab_ownership])) = Inr snapshot
     \<and> os_interface snapshot = (InterfaceName ''eth0'') \<and> os_ifindex snapshot = 7"
proof -
  let ?s = "foldl (service_step idle_ports) (sampling_service_new ()) [SvStart lab_ownership]"
  note eval = service_step_def sampling_start_def sampling_service_new_def wall_time_ms_def rate_identity_new_def rate_history_new_def
    rate_identity_validate_def try_from_usize_def checked_add_def Let_def
  have "\<exists>snapshot. fst (sampling_observe idle_ports (InterfaceName ''eth0'') (InterfaceName ''eth0'') lab_ownership ?s) = Inr snapshot"
    by (simp add: eval sampling_observe_def current_snapshot_def rate_sample_new_def validate_observation_hooks_def vd_front_def RATE_WINDOW_MS_def detailed_validate_def validate_evidence_shape_def idle_hook_def CLASS_ORDER_def
        validate_current_def vd_back_def assemble_snapshot_def detailed_windows_def status_windows_def calculate_windows_def
        coverage_ms_def is_stale_eq freshness_reference_def calculate_window_def fingerprint_report_def observation_snapshot_new_def
        validate_detailed_rate_windows_def)
  then obtain snapshot where ok: "fst (sampling_observe idle_ports (InterfaceName ''eth0'') (InterfaceName ''eth0'') lab_ownership ?s) = Inr snapshot" ..
  then have "sampling_observe idle_ports (InterfaceName ''eth0'') (InterfaceName ''eth0'') lab_ownership ?s
    = (Inr snapshot, snd (sampling_observe idle_ports (InterfaceName ''eth0'') (InterfaceName ''eth0'') lab_ownership ?s))"
    by (simp only: prod_eq_iff fst_conv snd_conv)
  from observe_reports_and_keeps [OF this] have "os_interface snapshot = InterfaceName ''eth0'' \<and> os_ifindex snapshot = or_ifindex lab_ownership"
    by blast
  with ok show ?thesis by (intro exI [of _ snapshot]) (simp only: OwnershipRecord.select_convs)
qed


text \<open>
  \<^bold>\<open>C38.\<close> The analysis schedule cannot drift or fall behind: when a tick finds the deadline passed, the new
  deadline is a whole number of ten-second periods after the old one and the first such instant after
  the current time, however many periods were missed; the only failure is the end of the 64-bit clock,
  and it leaves the service unchanged.
\<close>

theorem analysis_deadline_advances:
  fixes s :: "('w, 's) SamplingService"
  assumes "sv_next_analysis_at_ns s = Some deadline" "deadline \<le> now"
  shows "case advance_analysis_deadline now s of
      (Inr _, t) \<Rightarrow> \<exists>d. t = s\<lparr>sv_next_analysis_at_ns := Some d\<rparr> \<and> unat now < unat d \<and> unat d \<le> unat now + 10 ^ 10
        \<and> 10 ^ 10 dvd unat d - unat deadline
    | (Inl _, t) \<Rightarrow> t = s \<and> 2 ^ 64 \<le> unat now + 10 ^ 10"
  using assms by (rule advance_deadline)

theorem analysis_deadline_advances_witness:
  "\<exists>d. sv_next_analysis_at_ns (snd (advance_analysis_deadline 35000000000 ((sampling_service_new () :: (unit, unit) SamplingService)\<lparr>sv_next_analysis_at_ns := Some 10000000005\<rparr>)))
     = Some d \<and> 35000000000 < unat d \<and> unat d \<le> 45000000000 \<and> 10 ^ 10 dvd unat d - 10000000005"
  using analysis_deadline_advances [of "(sampling_service_new () :: (unit, unit) SamplingService)\<lparr>sv_next_analysis_at_ns := Some 10000000005\<rparr>" 10000000005 35000000000]
  by (auto split: prod.splits sum.splits)

end
