(* ===== verification/EvidenceStore.thy ===== *)
theory EvidenceStore
  imports Incident Ownership "HOL-Library.List_Lexorder"
begin

text \<open>
  The evidence store (\<open>l2-loop-agent/src/evidence_store.rs\<close>): the index of stored incidents, the commit of a
  revision, recovery from disk, listing by pages, and retention. The file system, the JSON codec and the
  digest are parameters.
\<close>

section \<open>Definitions\<close>

subsection \<open>Ports\<close>

datatype EvidenceFileType = EfFile | EfDirectory | EfSymlink | EfOther

record EvidenceMetadata =
  ev_file_type :: EvidenceFileType
  ev_mode :: u32
  ev_uid :: u32
  ev_length :: u64

datatype EvidenceIoStep = CreateEvent | CreateTemporary | WriteEvidence | WriteManifest | SyncTemporary | Publish | SyncEvent

datatype EvidenceIoError = EvNotFound | EvAlreadyExists | EvOtherError string

record FilesystemSpace =
  sp_total_bytes :: u64
  sp_available_bytes :: u64

text \<open>
  \<open>EvidenceIo\<close> and \<open>FilesystemCapacity\<close>, with the effective user, the process number and the process-wide
  counter of temporary names.
\<close>

record 'w EvidenceIo =
  io_checkpoint :: "EvidenceIoStep \<Rightarrow> ('w, EvidenceIoError, unit) port"
  io_metadata :: "path \<Rightarrow> ('w, EvidenceIoError, EvidenceMetadata) port"
  io_read_directory :: "path \<Rightarrow> ('w, EvidenceIoError, path list) port"
  io_read_file :: "path \<Rightarrow> ('w, EvidenceIoError, u8 list) port"
  io_create_directory :: "path \<Rightarrow> u32 \<Rightarrow> ('w, EvidenceIoError, unit) port"
  io_write_file :: "path \<Rightarrow> u8 list \<Rightarrow> u32 \<Rightarrow> ('w, EvidenceIoError, unit) port"
  io_sync_directory :: "path \<Rightarrow> ('w, EvidenceIoError, unit) port"
  io_rename_noreplace :: "path \<Rightarrow> path \<Rightarrow> ('w, EvidenceIoError, unit) port"
  io_remove_private_directory :: "path \<Rightarrow> ('w, EvidenceIoError, unit) port"
  io_remove_event_directory :: "path \<Rightarrow> ('w, EvidenceIoError, unit) port"
  io_capacity :: "path \<Rightarrow> ('w, EvidenceIoError, FilesystemSpace) port"
  io_geteuid :: u32
  io_process_id :: string
  io_next_sequence :: "'w \<Rightarrow> u64 \<times> 'w"

record EvidenceCodec =
  ej_revision_to_vec :: "IncidentRevisionV1 \<Rightarrow> (string, u8 list) result"
  ej_revision_from_slice :: "u8 list \<Rightarrow> (string, IncidentRevisionV1) result"
  ej_manifest_to_vec :: "EvidenceManifestV1 \<Rightarrow> (string, u8 list) result"
  ej_manifest_from_slice :: "u8 list \<Rightarrow> (string, EvidenceManifestV1) result"
  ej_sha256 :: "u8 list \<Rightarrow> u8 list"

subsection \<open>Values\<close>

definition EVIDENCE_MIN_FREE_RESERVE_BYTES :: u64 where [simp]: "EVIDENCE_MIN_FREE_RESERVE_BYTES = 536870912"
definition EVIDENCE_MIN_FREE_RESERVE_PERCENT :: u8 where [simp]: "EVIDENCE_MIN_FREE_RESERVE_PERCENT = 5"

datatype EvidenceStoreError = UnsafeRoot | InvalidRevision | RevisionTooLarge | RevisionConflict | RevisionSequence
  | StoreNotFound | StoreIo | RetentionUnavailable

record EvidenceStoreHealth =
  eh_available :: bool
  eh_corrupt_object_count :: u16
  eh_incomplete_object_count :: u16
  eh_unknown_object_count :: u16
  eh_event_count :: u16
  eh_total_bytes :: u64

record EvidencePage =
  pg_items :: "EvidenceSummaryV1 list"
  pg_next_cursor :: "EvidenceCursor option"

record StoreUsage =
  su_event_count :: u16
  su_total_bytes :: u64
  su_filesystem :: FilesystemSpace
  su_required_free_reserve :: u64

record RetentionOutcome =
  rt_deleted_event_ids :: "EventId list"
  rt_usage :: StoreUsage

text \<open>\<open>total / 100 * 5 + total % 100 * 5 / 100\<close>: no step of it can overflow.\<close>

definition minimum_free_reserve :: "u64 \<Rightarrow> u64" where
  "minimum_free_reserve total_bytes =
     (let percent = total_bytes div 100 * ucast EVIDENCE_MIN_FREE_RESERVE_PERCENT
            + total_bytes mod 100 * ucast EVIDENCE_MIN_FREE_RESERVE_PERCENT div 100
      in if EVIDENCE_MIN_FREE_RESERVE_BYTES < percent then percent else EVIDENCE_MIN_FREE_RESERVE_BYTES)"

definition saturating_sub :: "'a::len word \<Rightarrow> 'a word \<Rightarrow> 'a word" where
  "saturating_sub a b = (if b \<le> a then a - b else 0)"

text \<open>\<open>EventId\<close> derives its order from its bytes.\<close>

instantiation EventId :: linorder
begin

definition less_eq_EventId :: "EventId \<Rightarrow> EventId \<Rightarrow> bool" where
  "less_eq_EventId a b \<longleftrightarrow> event_bytes a \<le> event_bytes b"

definition less_EventId :: "EventId \<Rightarrow> EventId \<Rightarrow> bool" where
  "less_EventId a b \<longleftrightarrow> event_bytes a < event_bytes b"

instance
proof
  fix a b c :: EventId
  show "(a < b) = (a \<le> b \<and> \<not> b \<le> a)" by (simp only: less_eq_EventId_def less_EventId_def less_le_not_le)
  show "a \<le> a" by (simp add: less_eq_EventId_def)
  show "a \<le> b \<Longrightarrow> b \<le> c \<Longrightarrow> a \<le> c" unfolding less_eq_EventId_def by (rule order_trans)
  show "a \<le> b \<Longrightarrow> b \<le> a \<Longrightarrow> a = b" unfolding less_eq_EventId_def by (drule (1) antisym) (rule EventId.expand)
  show "a \<le> b \<or> b \<le> a" unfolding less_eq_EventId_def by (rule linear)
qed

end

subsection \<open>State\<close>

record 'w LinuxEvidenceStore =
  ls_world :: 'w
  ls_root :: path
  ls_package_version :: string
  ls_index :: "(EventId \<times> EvidenceDetailV1) list"
  ls_health :: EvidenceStoreHealth

text \<open>A call of the adapter with its error mapped, and one whose result is looked at.\<close>

definition io_attempt :: "('w, EvidenceIoError, 'a) port \<Rightarrow> 'w LinuxEvidenceStore \<Rightarrow> (EvidenceIoError, 'a) result \<times> 'w LinuxEvidenceStore" where
  "io_attempt call s = (case call (ls_world s) of (x, w) \<Rightarrow> (x, s\<lparr>ls_world := w\<rparr>))"

definition io_or :: "'e \<Rightarrow> ('w, EvidenceIoError, 'a) port \<Rightarrow> ('w LinuxEvidenceStore, 'e, 'a) port" where
  "io_or e call s = (case io_attempt call s of (Inl _, s) \<Rightarrow> (Inl e, s) | (Inr a, s) \<Rightarrow> (Inr a, s))"

definition NO_HEALTH :: EvidenceStoreHealth where
  "NO_HEALTH = \<lparr>eh_available = False, eh_corrupt_object_count = 0, eh_incomplete_object_count = 0, eh_unknown_object_count = 0,
     eh_event_count = 0, eh_total_bytes = 0\<rparr>"

definition private_directory :: "'w EvidenceIo \<Rightarrow> EvidenceMetadata \<Rightarrow> bool" where
  "private_directory io metadata \<longleftrightarrow> ev_file_type metadata = EfDirectory \<and> ev_mode metadata = 448 \<and> ev_uid metadata = io_geteuid io"

definition validate_root :: "'w EvidenceIo \<Rightarrow> ('w LinuxEvidenceStore, EvidenceStoreError, unit) port" where
  "validate_root io s =
     port_bind (io_or UnsafeRoot (io_metadata io (ls_root s))) (\<lambda>metadata.
     if private_directory io metadata then port_return () else port_lift (Inl UnsafeRoot)) s"

definition validate_private_directory :: "'w EvidenceIo \<Rightarrow> path \<Rightarrow> ('w LinuxEvidenceStore, EvidenceStoreError, unit) port" where
  "validate_private_directory io path =
     port_bind (io_or StoreIo (io_metadata io path)) (\<lambda>metadata.
     if private_directory io metadata then port_return () else port_lift (Inl StoreIo))"

definition event_directory :: "EventId \<Rightarrow> 'w LinuxEvidenceStore \<Rightarrow> path" where
  "event_directory event_id s = ls_root s @ [Normal (event_id_display event_id)]"

definition ensure_event_directory :: "'w EvidenceIo \<Rightarrow> EventId \<Rightarrow> ('w LinuxEvidenceStore, EvidenceStoreError, path) port" where
  "ensure_event_directory io event_id s =
     (let path = event_directory event_id s
      in case io_attempt (io_metadata io path) s of
           (Inr _, s) \<Rightarrow> port_bind (validate_private_directory io path) (\<lambda>_. port_return path) s
         | (Inl EvNotFound, s) \<Rightarrow>
             port_bind (io_or StoreIo (io_checkpoint io CreateEvent)) (\<lambda>_.
             port_bind (io_or StoreIo (io_create_directory io path 448)) (\<lambda>_.
             port_bind (io_or StoreIo (io_sync_directory io (ls_root s))) (\<lambda>_.
             port_return path))) s
         | (Inl _, s) \<Rightarrow> (Inl StoreIo, s))"

text \<open>The closure inside \<open>commit_revision\<close>.\<close>

definition publish_revision ::
  "'w EvidenceIo \<Rightarrow> path \<Rightarrow> path \<Rightarrow> path \<Rightarrow> u8 list \<Rightarrow> u8 list \<Rightarrow> ('w LinuxEvidenceStore, EvidenceStoreError, unit) port" where
  "publish_revision io event_dir temporary target evidence manifest =
     port_bind (io_or StoreIo (io_checkpoint io CreateTemporary)) (\<lambda>_.
     port_bind (io_or StoreIo (io_create_directory io temporary 448)) (\<lambda>_.
     port_bind (io_or StoreIo (io_checkpoint io WriteEvidence)) (\<lambda>_.
     port_bind (io_or StoreIo (io_write_file io (temporary @ [Normal ''evidence.json'']) evidence 384)) (\<lambda>_.
     port_bind (io_or StoreIo (io_checkpoint io WriteManifest)) (\<lambda>_.
     port_bind (io_or StoreIo (io_write_file io (temporary @ [Normal ''manifest.json'']) manifest 384)) (\<lambda>_.
     port_bind (io_or StoreIo (io_checkpoint io SyncTemporary)) (\<lambda>_.
     port_bind (io_or StoreIo (io_sync_directory io temporary)) (\<lambda>_.
     port_bind (io_or StoreIo (io_checkpoint io Publish)) (\<lambda>_.
     port_bind (\<lambda>s. case io_attempt (io_rename_noreplace io temporary target) s of
         (Inl EvAlreadyExists, s) \<Rightarrow> (Inl RevisionConflict, s)
       | (Inl _, s) \<Rightarrow> (Inl StoreIo, s)
       | (Inr u, s) \<Rightarrow> (Inr u, s)) (\<lambda>_.
     port_bind (io_or StoreIo (io_checkpoint io SyncEvent)) (\<lambda>_.
     io_or StoreIo (io_sync_directory io event_dir))))))))))))"

definition temporary_directory :: "'w EvidenceIo \<Rightarrow> path \<Rightarrow> u64 \<Rightarrow> u64 \<Rightarrow> path" where
  "temporary_directory io event_dir revision sequence =
     event_dir @ [Normal (''.tmp-'' @ hex16 revision @ ''-'' @ io_process_id io @ ''-'' @ hex16 sequence)]"

definition commit_revision ::
  "'w EvidenceIo \<Rightarrow> path \<Rightarrow> u64 \<Rightarrow> u8 list \<Rightarrow> u8 list \<Rightarrow> ('w LinuxEvidenceStore, EvidenceStoreError, unit) port" where
  "commit_revision io event_dir revision evidence manifest s =
     (let target = event_dir @ [Normal (hex16 revision)]
      in case io_attempt (io_metadata io target) s of
           (Inr _, s) \<Rightarrow> (Inl RevisionConflict, s)
         | (Inl _, s) \<Rightarrow>
             (case io_next_sequence io (ls_world s) of
                (sequence, w) \<Rightarrow>
                  let temporary = temporary_directory io event_dir revision sequence
                  in (case publish_revision io event_dir temporary target evidence manifest (s\<lparr>ls_world := w\<rparr>) of
                        (Inr u, s) \<Rightarrow> (Inr u, s)
                      | (Inl e, s) \<Rightarrow>
                          (case io_attempt (io_metadata io temporary) s of
                             (Inr _, s) \<Rightarrow> (Inl e, snd (io_attempt (io_remove_private_directory io temporary) s))
                           | (Inl _, s) \<Rightarrow> (Inl e, s)))))"

subsection \<open>Manifests and details\<close>

definition hex2 :: "u8 \<Rightarrow> string" where
  "hex2 byte = [HEX ! unat (drop_bit 4 byte), HEX ! unat (byte AND 15)]"

definition sha256_hex :: "EvidenceCodec \<Rightarrow> u8 list \<Rightarrow> string" where
  "sha256_hex json bytes = concat (map hex2 (ej_sha256 json bytes))"

text \<open>
  The loop that looks for a manifest whose \<open>total_bytes\<close> counts its own encoding. It need not end, so its
  result is an option; \<open>manifest_loop_terminates\<close> below shows when it does.
\<close>

partial_function (option) manifest_loop ::
  "EvidenceCodec \<Rightarrow> u64 \<Rightarrow> EvidenceManifestV1 \<Rightarrow> (EvidenceStoreError, EvidenceManifestV1 \<times> u8 list) result option" where
  "manifest_loop json evidence_bytes manifest =
     (case ej_manifest_to_vec json manifest of
        Inl _ \<Rightarrow> Some (Inl StoreIo)
      | Inr bytes \<Rightarrow>
          (case try_from_usize (length bytes) of
             None \<Rightarrow> Some (Inl StoreIo)
           | Some len \<Rightarrow>
               (case checked_add evidence_bytes len of
                  None \<Rightarrow> Some (Inl RevisionTooLarge)
                | Some sum_bytes \<Rightarrow>
                    if em_total_bytes manifest = sum_bytes then Some (Inr (manifest, bytes))
                    else manifest_loop json evidence_bytes (manifest\<lparr>em_total_bytes := sum_bytes\<rparr>))))"

definition first_manifest :: "EvidenceCodec \<Rightarrow> IncidentRevisionV1 \<Rightarrow> u8 list \<Rightarrow> string \<Rightarrow> u64 \<Rightarrow> EvidenceManifestV1" where
  "first_manifest json revision evidence package_version evidence_bytes =
     \<lparr>em_schema_version = EVIDENCE_SCHEMA_VERSION, em_event_id = ir_event_id revision, em_revision = ir_revision revision,
      em_current_state = ir_current_state revision, em_evidence_file = ''evidence.json'', em_evidence_bytes = evidence_bytes,
      em_evidence_sha256 = sha256_hex json evidence, em_total_bytes = evidence_bytes, em_package_version = package_version\<rparr>"

definition build_manifest ::
  "EvidenceCodec \<Rightarrow> IncidentRevisionV1 \<Rightarrow> u8 list \<Rightarrow> string \<Rightarrow> (EvidenceStoreError, EvidenceManifestV1 \<times> u8 list) result option" where
  "build_manifest json revision evidence package_version =
     (case try_from_usize (length evidence) of
        None \<Rightarrow> Some (Inl StoreIo)
      | Some evidence_bytes \<Rightarrow>
          map_option (\<lambda>r. rbind r (\<lambda>(manifest, bytes).
             rbind (map_err InvalidRevision (evidence_manifest_validate manifest)) (\<lambda>_. Inr (manifest, bytes))))
           (manifest_loop json evidence_bytes (first_manifest json revision evidence package_version evidence_bytes)))"

definition detail_from_revision :: "IncidentRevisionV1 \<Rightarrow> u64 \<Rightarrow> EvidenceDetailV1" where
  "detail_from_revision revision bundle_bytes =
     \<lparr>ed_summary = \<lparr>es_schema_version = EVIDENCE_SCHEMA_VERSION, es_event_id = ir_event_id revision,
        es_latest_revision = ir_revision revision, es_interface = ir_interface revision, es_ifindex = ir_ifindex revision,
        es_interface_generation = ir_interface_generation revision, es_current_state = ir_current_state revision,
        es_alert_code = ir_alert_code revision, es_severity = ir_severity revision, es_opened_at_unix_ms = ir_opened_at_unix_ms revision,
        es_last_transition_at_unix_ms = ir_occurred_at_unix_ms revision, es_closed_at_unix_ms = ir_closed_at_unix_ms revision,
        es_bundle_bytes = bundle_bytes, es_integrity = EvValid\<rparr>,
      ed_latest = revision\<rparr>"

subsection \<open>Reading back\<close>

datatype RevisionReadError = RrIncomplete | RrCorrupt

definition parse_revision_name :: "string \<Rightarrow> u64 option" where
  "parse_revision_name name =
     (if length name \<noteq> 16 \<or> \<not> list_all is_lower_hex name then None
      else Option.bind (from_str_radix_16 name) (\<lambda>revision.
        if 0 < revision \<and> revision \<le> EVIDENCE_MAX_REVISIONS_PER_EVENT then Some revision else None))"

definition validate_private_file :: "'w EvidenceIo \<Rightarrow> path \<Rightarrow> ('w LinuxEvidenceStore, RevisionReadError, unit) port" where
  "validate_private_file io path =
     port_bind (io_or RrIncomplete (io_metadata io path)) (\<lambda>metadata.
     if ev_file_type metadata \<noteq> EfFile \<or> ev_mode metadata \<noteq> 384 \<or> ev_uid metadata \<noteq> io_geteuid io \<or> ev_length metadata = 0
        \<or> EVIDENCE_MAX_REVISION_BYTES < ev_length metadata
     then port_lift (Inl RrCorrupt) else port_return ())"

definition read_manifest ::
  "'w EvidenceIo \<Rightarrow> EvidenceCodec \<Rightarrow> EventId \<Rightarrow> u64 \<Rightarrow> path \<Rightarrow> ('w LinuxEvidenceStore, RevisionReadError, EvidenceManifestV1) port" where
  "read_manifest io json event_id revision_number manifest_path =
     port_bind (io_or RrCorrupt (io_read_file io manifest_path)) (\<lambda>manifest_bytes.
     port_bind (port_lift (map_err RrCorrupt (ej_manifest_from_slice json manifest_bytes))) (\<lambda>manifest.
     port_bind (port_lift (map_err RrCorrupt (evidence_manifest_validate manifest))) (\<lambda>_.
     if em_event_id manifest \<noteq> event_id \<or> em_revision manifest \<noteq> revision_number then port_lift (Inl RrCorrupt)
     else port_return manifest)))"

definition read_revision ::
  "'w EvidenceIo \<Rightarrow> EvidenceCodec \<Rightarrow> EventId \<Rightarrow> u64 \<Rightarrow> path \<Rightarrow>
   ('w LinuxEvidenceStore, RevisionReadError, IncidentRevisionV1 \<times> EvidenceManifestV1) port" where
  "read_revision io json event_id revision_number path =
     (let evidence_path = path @ [Normal ''evidence.json'']; manifest_path = path @ [Normal ''manifest.json'']
      in port_bind (\<lambda>s. case validate_private_directory io path s of (Inl _, s) \<Rightarrow> (Inl RrCorrupt, s) | (Inr u, s) \<Rightarrow> (Inr u, s)) (\<lambda>_.
         port_bind (io_or RrCorrupt (io_read_directory io path)) (\<lambda>entries.
         if evidence_path \<notin> set entries \<or> manifest_path \<notin> set entries then port_lift (Inl RrIncomplete)
         else if length entries \<noteq> 2 then port_lift (Inl RrCorrupt)
         else
           port_bind (validate_private_file io evidence_path) (\<lambda>_.
           port_bind (validate_private_file io manifest_path) (\<lambda>_.
           port_bind (read_manifest io json event_id revision_number manifest_path) (\<lambda>manifest.
           port_bind (io_or RrCorrupt (io_read_file io evidence_path)) (\<lambda>evidence_bytes.
           if try_from_usize (length evidence_bytes) \<noteq> Some (em_evidence_bytes manifest)
              \<or> sha256_hex json evidence_bytes \<noteq> em_evidence_sha256 manifest
           then port_lift (Inl RrCorrupt)
           else
             port_bind (port_lift (map_err RrCorrupt (ej_revision_from_slice json evidence_bytes))) (\<lambda>revision.
             port_bind (port_lift (map_err RrCorrupt (incident_revision_validate revision))) (\<lambda>_.
             if ir_event_id revision \<noteq> event_id \<or> ir_revision revision \<noteq> revision_number
                \<or> ir_current_state revision \<noteq> em_current_state manifest \<or> ir_schema_version revision \<noteq> em_schema_version manifest
             then port_lift (Inl RrCorrupt) else port_return (revision, manifest))))))))))"

definition increment_count :: "u16 \<Rightarrow> u16" where
  "increment_count value = saturating_add value 1"

text \<open>The loop of \<open>recover_event\<close>, with \<open>latest\<close>, \<open>bytes_seen\<close> and \<open>health\<close>.\<close>

fun recover_revisions ::
  "'w EvidenceIo \<Rightarrow> EvidenceCodec \<Rightarrow> EventId \<Rightarrow> path list \<Rightarrow> IncidentRevisionV1 option \<Rightarrow> u64 \<Rightarrow> EvidenceStoreHealth \<Rightarrow>
   'w LinuxEvidenceStore \<Rightarrow> (IncidentRevisionV1 option \<times> u64 \<times> EvidenceStoreHealth) \<times> 'w LinuxEvidenceStore" where
  "recover_revisions io json event_id [] latest bytes_seen health s = ((latest, bytes_seen, health), s)"
| "recover_revisions io json event_id (path # paths) latest bytes_seen health s =
     (let name = unwrap_or (file_name path) []
      in if take 5 name = ''.tmp-'' then
           recover_revisions io json event_id paths latest bytes_seen
             (health\<lparr>eh_incomplete_object_count := increment_count (eh_incomplete_object_count health)\<rparr>) s
         else case parse_revision_name name of
           None \<Rightarrow>
             recover_revisions io json event_id paths latest bytes_seen
               (health\<lparr>eh_unknown_object_count := increment_count (eh_unknown_object_count health)\<rparr>) s
         | Some revision_number \<Rightarrow>
             (case read_revision io json event_id revision_number path s of
                (Inr (revision, manifest), s) \<Rightarrow>
                  recover_revisions io json event_id paths
                    (if (case latest of None \<Rightarrow> True | Some current \<Rightarrow> ir_revision current < ir_revision revision) then Some revision else latest)
                    (saturating_add bytes_seen (em_total_bytes manifest)) health s
              | (Inl RrIncomplete, s) \<Rightarrow>
                  recover_revisions io json event_id paths latest bytes_seen
                    (health\<lparr>eh_incomplete_object_count := increment_count (eh_incomplete_object_count health)\<rparr>) s
              | (Inl RrCorrupt, s) \<Rightarrow>
                  recover_revisions io json event_id paths latest bytes_seen
                    (health\<lparr>eh_corrupt_object_count := increment_count (eh_corrupt_object_count health)\<rparr>) s))"

definition recover_event ::
  "'w EvidenceIo \<Rightarrow> EvidenceCodec \<Rightarrow> EventId \<Rightarrow> path \<Rightarrow> EvidenceStoreHealth \<Rightarrow>
   ('w LinuxEvidenceStore, EvidenceStoreError, EvidenceDetailV1 option \<times> EvidenceStoreHealth) port" where
  "recover_event io json event_id event_dir health s =
     (case validate_private_directory io event_dir s of
        (Inl _, s) \<Rightarrow> (Inr (None, health\<lparr>eh_corrupt_object_count := increment_count (eh_corrupt_object_count health)\<rparr>), s)
      | (Inr _, s) \<Rightarrow>
          (case io_or StoreIo (io_read_directory io event_dir) s of
             (Inl e, s) \<Rightarrow> (Inl e, s)
           | (Inr paths, s) \<Rightarrow>
               (case recover_revisions io json event_id paths None 0 health s of
                  ((latest, bytes_seen, health), s) \<Rightarrow>
                    (Inr (map_option (\<lambda>revision. detail_from_revision revision bytes_seen) latest, health), s))))"

text \<open>The loop of \<open>recover\<close>, with \<open>index\<close>, \<open>health\<close> and \<open>canonical_events\<close>.\<close>

fun recover_events ::
  "'w EvidenceIo \<Rightarrow> EvidenceCodec \<Rightarrow> path list \<Rightarrow> (EventId \<times> EvidenceDetailV1) list \<Rightarrow> EvidenceStoreHealth \<Rightarrow> nat \<Rightarrow>
   ('w LinuxEvidenceStore, EvidenceStoreError, (EventId \<times> EvidenceDetailV1) list \<times> EvidenceStoreHealth) port" where
  "recover_events io json [] index health canonical_events s = (Inr (index, health), s)"
| "recover_events io json (path # paths) index health canonical_events s =
     (let name = unwrap_or (file_name path) [];
          unknown = health\<lparr>eh_unknown_object_count := increment_count (eh_unknown_object_count health)\<rparr>
      in case event_id_from_str name of
           Inl _ \<Rightarrow> recover_events io json paths index unknown canonical_events s
         | Inr event_id \<Rightarrow>
             if event_id_display event_id \<noteq> name \<or> EVIDENCE_MAX_EVENTS \<le> canonical_events
             then recover_events io json paths index unknown canonical_events s
             else
               (case recover_event io json event_id path health s of
                  (Inl e, s) \<Rightarrow> (Inl e, s)
                | (Inr (None, health), s) \<Rightarrow> recover_events io json paths index health (Suc canonical_events) s
                | (Inr (Some detail, health), s) \<Rightarrow>
                    recover_events io json paths (bt_insert event_id detail index)
                      (health\<lparr>eh_total_bytes := saturating_add (eh_total_bytes health) (es_bundle_bytes (ed_summary detail))\<rparr>)
                      (Suc canonical_events) s))"

text \<open>\<open>u16::try_from(index.len()).unwrap_or(u16::MAX)\<close>.\<close>

definition event_count_of :: "(EventId \<times> EvidenceDetailV1) list \<Rightarrow> u16" where
  "event_count_of index = unwrap_or (try_from_usize (length index)) (- 1)"

definition store_recover :: "'w EvidenceIo \<Rightarrow> EvidenceCodec \<Rightarrow> ('w LinuxEvidenceStore, EvidenceStoreError, unit) port" where
  "store_recover io json s =
     port_bind (validate_root io) (\<lambda>_.
     port_bind (io_or UnsafeRoot (io_read_directory io (ls_root s))) (\<lambda>paths.
     port_bind (recover_events io json paths [] (NO_HEALTH\<lparr>eh_available := True\<rparr>) 0) (\<lambda>(index, health) s.
       (Inr (), s\<lparr>ls_index := index, ls_health := health\<lparr>eh_event_count := event_count_of index\<rparr>\<rparr>)))) s"

definition store_open ::
  "'w EvidenceIo \<Rightarrow> EvidenceCodec \<Rightarrow> path \<Rightarrow> string \<Rightarrow> 'w \<Rightarrow> (EvidenceStoreError, 'w LinuxEvidenceStore) result \<times> 'w" where
  "store_open io json root package_version w =
     (if package_version = [] \<or> 64 < length package_version \<or> \<not> list_all (\<lambda>c. (of_char c :: nat) < 128) package_version
         \<or> \<not> is_absolute root \<or> list_ex (\<lambda>component. component \<in> {ParentDir, CurDir}) root
      then (Inl UnsafeRoot, w)
      else
        (case store_recover io json \<lparr>ls_world = w, ls_root = root, ls_package_version = package_version, ls_index = [], ls_health = NO_HEALTH\<rparr> of
           (Inl e, s) \<Rightarrow> (Inl e, ls_world s)
         | (Inr _, s) \<Rightarrow> (Inr s, ls_world s)))"

subsection \<open>Storing\<close>

text \<open>The checks of \<open>put\<close> before anything is encoded.\<close>

definition put_check :: "IncidentRevisionV1 \<Rightarrow> 'w LinuxEvidenceStore \<Rightarrow> (EvidenceStoreError, unit) result" where
  "put_check revision s =
     rbind (map_err InvalidRevision (incident_revision_validate revision)) (\<lambda>_.
     let previous = bt_get (ls_index s) (ir_event_id revision);
         expected = (case previous of None \<Rightarrow> 1 | Some detail \<Rightarrow> saturating_add (ir_revision (ed_latest detail)) 1)
     in if ir_revision revision \<noteq> expected
        then Inl (if ir_revision revision < expected then RevisionConflict else RevisionSequence)
        else if is_some_and previous (\<lambda>detail.
                  let latest = ed_latest detail
                  in ir_interface latest \<noteq> ir_interface revision \<or> ir_ifindex latest \<noteq> ir_ifindex revision
                     \<or> ir_interface_generation latest \<noteq> ir_interface_generation revision
                     \<or> ir_opened_at_unix_ms latest \<noteq> ir_opened_at_unix_ms revision)
        then Inl InvalidRevision
        else Inr ())"

definition put_encode :: "EvidenceCodec \<Rightarrow> IncidentRevisionV1 \<Rightarrow> (EvidenceStoreError, u8 list) result" where
  "put_encode json revision =
     rbind (map_err InvalidRevision (ej_revision_to_vec json revision)) (\<lambda>evidence.
     if evidence = [] \<or> EVIDENCE_MAX_REVISION_BYTES < unwrap_or (try_from_usize (length evidence)) (- 1)
     then Inl RevisionTooLarge else Inr evidence)"

text \<open>The size of the event with this revision, if it may be stored.\<close>

definition put_room :: "IncidentRevisionV1 \<Rightarrow> EvidenceManifestV1 \<Rightarrow> 'w LinuxEvidenceStore \<Rightarrow> (EvidenceStoreError, u64) result" where
  "put_room revision manifest s =
     (let previous_event_bytes = (case bt_get (ls_index s) (ir_event_id revision) of
                None \<Rightarrow> 0 | Some detail \<Rightarrow> es_bundle_bytes (ed_summary detail))
      in rbind (ok_or RevisionTooLarge (checked_add previous_event_bytes (em_total_bytes manifest))) (\<lambda>bytes_seen.
         if EVIDENCE_MAX_EVENT_BYTES < bytes_seen
            \<or> (case checked_add (eh_total_bytes (ls_health s)) (em_total_bytes manifest) of
                 None \<Rightarrow> True | Some all_bytes \<Rightarrow> EVIDENCE_MAX_STORE_BYTES < all_bytes)
         then Inl RevisionTooLarge
         else if bt_get (ls_index s) (ir_event_id revision) = None \<and> EVIDENCE_MAX_EVENTS \<le> length (ls_index s)
         then Inl RevisionTooLarge
         else Inr bytes_seen))"

definition put_index :: "IncidentRevisionV1 \<Rightarrow> EvidenceManifestV1 \<Rightarrow> u64 \<Rightarrow> 'w LinuxEvidenceStore \<Rightarrow> 'w LinuxEvidenceStore" where
  "put_index revision manifest bytes_seen s =
     (let is_new = (bt_get (ls_index s) (ir_event_id revision) = None); health = ls_health s
      in s\<lparr>ls_index := bt_insert (ir_event_id revision) (detail_from_revision revision bytes_seen) (ls_index s),
           ls_health := health\<lparr>eh_available := True, eh_total_bytes := saturating_add (eh_total_bytes health) (em_total_bytes manifest),
             eh_event_count := (if is_new then saturating_add (eh_event_count health) 1 else eh_event_count health)\<rparr>\<rparr>)"

definition store_put ::
  "'w EvidenceIo \<Rightarrow> EvidenceCodec \<Rightarrow> IncidentRevisionV1 \<Rightarrow> 'w LinuxEvidenceStore \<Rightarrow>
   ((EvidenceStoreError, EvidenceSummaryV1) result \<times> 'w LinuxEvidenceStore) option" where
  "store_put io json revision s =
     (case validate_root io s of
        (Inl e, s) \<Rightarrow> Some (Inl e, s)
      | (Inr _, s) \<Rightarrow>
          (case rbind (put_check revision s) (\<lambda>_. put_encode json revision) of
             Inl e \<Rightarrow> Some (Inl e, s)
           | Inr evidence \<Rightarrow>
               (case build_manifest json revision evidence (ls_package_version s) of
                  None \<Rightarrow> None
                | Some (Inl e) \<Rightarrow> Some (Inl e, s)
                | Some (Inr (manifest, manifest_bytes)) \<Rightarrow>
                    (case put_room revision manifest s of
                       Inl e \<Rightarrow> Some (Inl e, s)
                     | Inr bytes_seen \<Rightarrow>
                         Some (port_bind (ensure_event_directory io (ir_event_id revision)) (\<lambda>event_dir.
                               port_bind (commit_revision io event_dir (ir_revision revision) evidence manifest_bytes) (\<lambda>_ s.
                                 (Inr (ed_summary (detail_from_revision revision bytes_seen)), put_index revision manifest bytes_seen s))) s)))))"

definition store_get :: "EventId \<Rightarrow> 'w LinuxEvidenceStore \<Rightarrow> (EvidenceStoreError, EvidenceDetailV1) result" where
  "store_get event_id s = ok_or StoreNotFound (bt_get (ls_index s) event_id)"

subsection \<open>Listing\<close>

text \<open>\<open>sort_by\<close> is stable: insertion that keeps equal elements in their order.\<close>

fun insert_by :: "('a \<Rightarrow> 'a \<Rightarrow> bool) \<Rightarrow> 'a \<Rightarrow> 'a list \<Rightarrow> 'a list" where
  "insert_by le x [] = [x]"
| "insert_by le x (y # ys) = (if le x y then x # y # ys else y # insert_by le x ys)"

definition sort_by :: "('a \<Rightarrow> 'a \<Rightarrow> bool) \<Rightarrow> 'a list \<Rightarrow> 'a list" where
  "sort_by le xs = foldr (insert_by le) xs []"

text \<open>Latest transition first, then by identifier.\<close>

definition newer_first :: "EvidenceSummaryV1 \<Rightarrow> EvidenceSummaryV1 \<Rightarrow> bool" where
  "newer_first left right \<longleftrightarrow>
     es_last_transition_at_unix_ms right < es_last_transition_at_unix_ms left
     \<or> es_last_transition_at_unix_ms right = es_last_transition_at_unix_ms left \<and> es_event_id left \<le> es_event_id right"

definition after_cursor :: "EvidenceCursor \<Rightarrow> EvidenceSummaryV1 \<Rightarrow> bool" where
  "after_cursor cursor summary \<longleftrightarrow>
     es_last_transition_at_unix_ms summary < ec_last_transition_at_unix_ms cursor
     \<or> es_last_transition_at_unix_ms summary = ec_last_transition_at_unix_ms cursor \<and> ec_event_id cursor < es_event_id summary"

definition store_list :: "EvidenceListQuery \<Rightarrow> 'w LinuxEvidenceStore \<Rightarrow> EvidencePage" where
  "store_list query s =
     (let items = filter (\<lambda>summary. case lq_cursor query of None \<Rightarrow> True | Some cursor \<Rightarrow> after_cursor cursor summary)
            (filter (\<lambda>summary. case lq_interface query of None \<Rightarrow> True | Some interface \<Rightarrow> es_interface summary = interface)
              (map (\<lambda>(_, detail). ed_summary detail) (ls_index s)));
          items = sort_by newer_first items;
          limit = unat (lq_limit query);
          has_more = limit < length items;
          items = take limit items
      in \<lparr>pg_items = items,
          pg_next_cursor = (if has_more
            then Some (evidence_cursor_new (lq_interface query) (es_last_transition_at_unix_ms (last items)) (es_event_id (last items)))
            else None)\<rparr>)"

subsection \<open>Retention\<close>

definition closed_candidates :: "(EventId \<times> EvidenceDetailV1) list \<Rightarrow> (u64 \<times> EventId \<times> u64) list" where
  "closed_candidates index =
     sort_by (\<lambda>(closed, event_id, _) (closed', event_id', _). (closed, event_id) \<le> (closed', event_id'))
       (List.map_filter (\<lambda>(event_id, detail).
          map_option (\<lambda>closed_at. (closed_at, event_id, es_bundle_bytes (ed_summary detail))) (es_closed_at_unix_ms (ed_summary detail))) index)"

definition store_fits :: "u64 \<Rightarrow> u64 \<Rightarrow> bool" where
  "store_fits total_bytes incoming_bytes \<longleftrightarrow> is_some_and (checked_add total_bytes incoming_bytes) (\<lambda>bytes. bytes \<le> EVIDENCE_MAX_STORE_BYTES)"

text \<open>Whether the loop stops at this candidate.\<close>

definition retention_satisfied ::
  "u64 \<Rightarrow> u64 \<Rightarrow> FilesystemSpace \<Rightarrow> u64 \<Rightarrow> nat \<Rightarrow> u64 \<Rightarrow> EvidenceStoreHealth \<Rightarrow> bool" where
  "retention_satisfied now_unix_ms incoming_bytes filesystem reclaimed deleted closed_at health \<longleftrightarrow>
     \<not> is_some_and (checked_sub now_unix_ms closed_at) (\<lambda>age. EVIDENCE_MAX_CLOSED_AGE_MS < age)
     \<and> store_fits (saturating_sub (eh_total_bytes health) reclaimed) incoming_bytes
     \<and> is_some_and (Option.bind (checked_add (sp_available_bytes filesystem) reclaimed) (\<lambda>bytes. checked_sub bytes incoming_bytes))
         (\<lambda>bytes. minimum_free_reserve (sp_total_bytes filesystem) \<le> bytes)
     \<and> unat (eh_event_count health) - deleted < EVIDENCE_MAX_EVENTS"

definition delete_event :: "'w EvidenceIo \<Rightarrow> EventId \<Rightarrow> u64 \<Rightarrow> ('w LinuxEvidenceStore, EvidenceStoreError, unit) port" where
  "delete_event io event_id bundle_bytes s =
     (let event_dir = event_directory event_id s
      in port_bind (\<lambda>s. case validate_private_directory io event_dir s of (Inl _, s) \<Rightarrow> (Inl RetentionUnavailable, s) | (Inr u, s) \<Rightarrow> (Inr u, s)) (\<lambda>_.
         port_bind (\<lambda>s. (if (case bt_get (ls_index s) event_id of None \<Rightarrow> True | Some detail \<Rightarrow> es_bundle_bytes (ed_summary detail) \<noteq> bundle_bytes)
                         then Inl RetentionUnavailable else Inr (), s)) (\<lambda>_.
         port_bind (io_or RetentionUnavailable (io_remove_event_directory io event_dir)) (\<lambda>_.
         port_bind (io_or RetentionUnavailable (io_sync_directory io (ls_root s))) (\<lambda>_ s.
           (Inr (), s\<lparr>ls_index := filter (\<lambda>(key, _). key \<noteq> event_id) (ls_index s)\<rparr>))))) s)"

fun retention_loop ::
  "'w EvidenceIo \<Rightarrow> u64 \<Rightarrow> u64 \<Rightarrow> FilesystemSpace \<Rightarrow> (u64 \<times> EventId \<times> u64) list \<Rightarrow> u64 \<Rightarrow> EventId list \<Rightarrow>
   ('w LinuxEvidenceStore, EvidenceStoreError, u64 \<times> EventId list) port" where
  "retention_loop io now_unix_ms incoming_bytes filesystem [] reclaimed deleted s = (Inr (reclaimed, deleted), s)"
| "retention_loop io now_unix_ms incoming_bytes filesystem ((closed_at, event_id, bundle_bytes) # others) reclaimed deleted s =
     (if retention_satisfied now_unix_ms incoming_bytes filesystem reclaimed (length deleted) closed_at (ls_health s)
      then (Inr (reclaimed, deleted), s)
      else
        (case delete_event io event_id bundle_bytes s of
           (Inl e, s) \<Rightarrow> (Inl e, s)
         | (Inr _, s) \<Rightarrow>
             (case checked_add reclaimed bundle_bytes of
                None \<Rightarrow> (Inl RetentionUnavailable, s)
              | Some reclaimed \<Rightarrow> retention_loop io now_unix_ms incoming_bytes filesystem others reclaimed (deleted @ [event_id]) s)))"

definition retention_finish ::
  "u64 \<Rightarrow> FilesystemSpace \<Rightarrow> u64 \<Rightarrow> EventId list \<Rightarrow> ('w LinuxEvidenceStore, EvidenceStoreError, RetentionOutcome) port" where
  "retention_finish incoming_bytes filesystem reclaimed deleted s =
     (let reserve = minimum_free_reserve (sp_total_bytes filesystem);
          health = (ls_health s)\<lparr>eh_total_bytes := saturating_sub (eh_total_bytes (ls_health s)) reclaimed, eh_event_count := event_count_of (ls_index s)\<rparr>;
          available_after = saturating_add (sp_available_bytes filesystem) reclaimed
      in if \<not> store_fits (eh_total_bytes health) incoming_bytes
            \<or> \<not> is_some_and (checked_sub available_after incoming_bytes) (\<lambda>bytes. reserve \<le> bytes)
            \<or> EVIDENCE_MAX_EVENTS \<le> unat (eh_event_count health)
         then (Inl RetentionUnavailable, s\<lparr>ls_health := health\<lparr>eh_available := False\<rparr>\<rparr>)
         else (Inr \<lparr>rt_deleted_event_ids = deleted, rt_usage = \<lparr>su_event_count = eh_event_count health, su_total_bytes = eh_total_bytes health,
                   su_filesystem = \<lparr>sp_total_bytes = sp_total_bytes filesystem, sp_available_bytes = available_after\<rparr>,
                   su_required_free_reserve = reserve\<rparr>\<rparr>,
               s\<lparr>ls_health := health\<lparr>eh_available := True\<rparr>\<rparr>))"

definition enforce_retention ::
  "'w EvidenceIo \<Rightarrow> u64 \<Rightarrow> u64 \<Rightarrow> ('w LinuxEvidenceStore, EvidenceStoreError, RetentionOutcome) port" where
  "enforce_retention io now_unix_ms incoming_bytes s =
     port_bind (validate_root io) (\<lambda>_.
     if EVIDENCE_MAX_EVENT_BYTES < incoming_bytes then port_lift (Inl RetentionUnavailable)
     else
       port_bind (io_or RetentionUnavailable (io_capacity io (ls_root s))) (\<lambda>filesystem.
       if sp_total_bytes filesystem < sp_available_bytes filesystem then port_lift (Inl RetentionUnavailable)
       else
         port_bind (\<lambda>s. retention_loop io now_unix_ms incoming_bytes filesystem (closed_candidates (ls_index s)) 0 [] s) (\<lambda>(reclaimed, deleted).
         retention_finish incoming_bytes filesystem reclaimed deleted))) s"

subsection \<open>The sink of the output worker\<close>

text \<open>\<open>persist_revision\<close>: retention with room for one revision, then the revision itself; \<open>None\<close> of the clock is a time before the epoch.\<close>

definition persist_revision ::
  "'w EvidenceIo \<Rightarrow> EvidenceCodec \<Rightarrow> u64 option \<Rightarrow> IncidentRevisionV1 \<Rightarrow> 'w LinuxEvidenceStore \<Rightarrow>
   ((unit, unit) result \<times> 'w LinuxEvidenceStore) option" where
  "persist_revision io json now revision s =
     (case now of
        None \<Rightarrow> Some (Inl (), s)
      | Some now_unix_ms \<Rightarrow>
          (case enforce_retention io now_unix_ms EVIDENCE_MAX_REVISION_BYTES s of
             (Inl _, s) \<Rightarrow> Some (Inl (), s)
           | (Inr _, s) \<Rightarrow>
               map_option (\<lambda>(x, s). (case x of Inl _ \<Rightarrow> Inl () | Inr _ \<Rightarrow> Inr (), s)) (store_put io json revision s)))"

section \<open>What the adapter calls keep\<close>

text \<open>A call of the adapter changes the world and nothing else of the store.\<close>

definition same_store :: "'w LinuxEvidenceStore \<Rightarrow> 'w LinuxEvidenceStore \<Rightarrow> bool" where
  "same_store s t \<longleftrightarrow> ls_root t = ls_root s \<and> ls_package_version t = ls_package_version s \<and> ls_index t = ls_index s \<and> ls_health t = ls_health s"

definition keeps :: "('w LinuxEvidenceStore, 'e, 'a) port \<Rightarrow> bool" where
  "keeps p \<longleftrightarrow> (\<forall>s. same_store s (snd (p s)))"

named_theorems keep_rules

lemma same_store_refl [simp]: "same_store s s"
  by (simp add: same_store_def)

lemma same_store_trans: "same_store s t \<Longrightarrow> same_store t u \<Longrightarrow> same_store s u"
  by (simp add: same_store_def)

lemma keepsD: "keeps p \<Longrightarrow> p s = (x, t) \<Longrightarrow> same_store s t"
  unfolding keeps_def by (metis snd_conv)

lemma keeps_attempt [simp]: "same_store s (snd (io_attempt call s))"
  by (simp add: io_attempt_def same_store_def split: prod.split)

lemma keeps_io [keep_rules]: "keeps (io_or e call)"
  unfolding keeps_def io_or_def
  by (auto split: prod.split sum.split) (metis keeps_attempt snd_conv)+

lemma keeps_return [keep_rules]: "keeps (port_return a)" "keeps (port_lift r)"
  by (simp_all add: keeps_def port_lift_def)

lemma keeps_bind [keep_rules]: "keeps p \<Longrightarrow> (\<And>a. keeps (f a)) \<Longrightarrow> keeps (port_bind p f)"
  unfolding keeps_def port_bind_def
  by (auto split: prod.split sum.split) (metis same_store_trans snd_conv)+

lemma keeps_if [keep_rules]: "keeps p \<Longrightarrow> keeps q \<Longrightarrow> keeps (if b then p else q)"
  by simp

lemma keeps_map_err:
  "keeps p \<Longrightarrow> keeps (\<lambda>s. case p s of (Inl _, s) \<Rightarrow> (Inl e, s) | (Inr u, s) \<Rightarrow> (Inr u, s))"
  unfolding keeps_def by (auto split: prod.split sum.split) (metis snd_conv)+

lemma keeps_root [keep_rules]: "keeps (validate_root io)" "keeps (validate_private_directory io path)"
proof -
  have "keeps (port_bind (io_or UnsafeRoot (io_metadata io root)) (\<lambda>metadata.
     if private_directory io metadata then port_return () else port_lift (Inl UnsafeRoot)))" for root by (intro keep_rules)
  then show "keeps (validate_root io)" by (simp add: keeps_def validate_root_def)
  show "keeps (validate_private_directory io path)" unfolding validate_private_directory_def by (intro keep_rules)
qed

lemma keeps_ensure [keep_rules]: "keeps (ensure_event_directory io event_id)"
proof -
  have create: "keeps (port_bind (io_or StoreIo (io_checkpoint io CreateEvent)) (\<lambda>_.
             port_bind (io_or StoreIo (io_create_directory io path 448)) (\<lambda>_.
             port_bind (io_or StoreIo (io_sync_directory io root)) (\<lambda>_.
             port_return path))))" for path root by (intro keep_rules)
  have check: "keeps (port_bind (validate_private_directory io path) (\<lambda>_. port_return path))" for path by (intro keep_rules)
  show ?thesis
    unfolding keeps_def ensure_event_directory_def Let_def
  proof
    fix s
    obtain x t where a: "io_attempt (io_metadata io (event_directory event_id s)) s = (x, t)" by fastforce
    have st: "same_store s t" using keeps_attempt [of s "io_metadata io (event_directory event_id s)"] a by simp
    show "same_store s (snd (case io_attempt (io_metadata io (event_directory event_id s)) s of
           (Inr _, s') \<Rightarrow> port_bind (validate_private_directory io (event_directory event_id s)) (\<lambda>_. port_return (event_directory event_id s)) s'
         | (Inl EvNotFound, s') \<Rightarrow>
             port_bind (io_or StoreIo (io_checkpoint io CreateEvent)) (\<lambda>_.
             port_bind (io_or StoreIo (io_create_directory io (event_directory event_id s) 448)) (\<lambda>_.
             port_bind (io_or StoreIo (io_sync_directory io (ls_root s'))) (\<lambda>_.
             port_return (event_directory event_id s)))) s'
         | (Inl _, s') \<Rightarrow> (Inl StoreIo, s')))"
      unfolding a using st create check
      by (auto simp: keeps_def intro: same_store_trans split: sum.split EvidenceIoError.split)
  qed
qed

lemma keeps_rename:
  "keeps (\<lambda>s. case io_attempt call s of
         (Inl EvAlreadyExists, s) \<Rightarrow> (Inl RevisionConflict, s)
       | (Inl _, s) \<Rightarrow> (Inl StoreIo, s)
       | (Inr u, s) \<Rightarrow> (Inr u, s))"
  unfolding keeps_def
  by (auto split: prod.split sum.split EvidenceIoError.split) (metis keeps_attempt snd_conv)+

lemma keeps_publish [keep_rules]: "keeps (publish_revision io event_dir temporary target evidence manifest)"
  unfolding publish_revision_def by (intro keep_rules keeps_rename)

lemma keeps_commit [keep_rules]: "keeps (commit_revision io event_dir revision evidence manifest)"
  unfolding keeps_def
proof
  fix s
  obtain x t where a: "io_attempt (io_metadata io (event_dir @ [Normal (hex16 revision)])) s = (x, t)" by fastforce
  then have st: "same_store s t" using keeps_attempt by (metis snd_conv)
  obtain n w where n: "io_next_sequence io (ls_world t) = (n, w)" by fastforce
  let ?tmp = "temporary_directory io event_dir revision n"
  obtain y u where p: "publish_revision io event_dir ?tmp (event_dir @ [Normal (hex16 revision)]) evidence manifest (t\<lparr>ls_world := w\<rparr>) = (y, u)"
    by fastforce
  have "same_store t u" using keepsD [OF keeps_publish p] by (simp add: same_store_def)
  with st have su: "same_store s u" by (rule same_store_trans)
  obtain z v where m: "io_attempt (io_metadata io ?tmp) u = (z, v)" by fastforce
  then have "same_store u v" using keeps_attempt by (metis snd_conv)
  with su have sv: "same_store s v" by (rule same_store_trans)
  then have "same_store s (snd (io_attempt call v))" for call :: "('a, EvidenceIoError, unit) port" by (rule same_store_trans) simp
  with st su sv show "same_store s (snd (commit_revision io event_dir revision evidence manifest s))"
    by (simp add: commit_revision_def Let_def a n p m split: sum.split)
qed

section \<open>The index and its accounting\<close>

definition index_bytes :: "(EventId \<times> EvidenceDetailV1) list \<Rightarrow> nat" where
  "index_bytes index = sum_list (map (\<lambda>d. unat (es_bundle_bytes (ed_summary d))) (map snd index))"

definition entry_ok :: "EventId \<times> EvidenceDetailV1 \<Rightarrow> bool" where
  "entry_ok = (\<lambda>(event_id, detail). ir_event_id (ed_latest detail) = event_id
     \<and> detail = detail_from_revision (ed_latest detail) (es_bundle_bytes (ed_summary detail)))"

definition store_inv :: "'w LinuxEvidenceStore \<Rightarrow> bool" where
  "store_inv s \<longleftrightarrow>
     bt_wf (ls_index s) \<and> list_all entry_ok (ls_index s) \<and> length (ls_index s) \<le> EVIDENCE_MAX_EVENTS
     \<and> unat (eh_event_count (ls_health s)) = length (ls_index s) \<and> unat (eh_total_bytes (ls_health s)) = index_bytes (ls_index s)"

lemma store_inv_same: "same_store s t \<Longrightarrow> store_inv t = store_inv s"
  by (simp add: store_inv_def same_store_def)

lemma index_bytes_insert:
  assumes "bt_wf m"
  shows "index_bytes (bt_insert k d m) + (case bt_get m k of None \<Rightarrow> 0 | Some e \<Rightarrow> unat (es_bundle_bytes (ed_summary e)))
    = index_bytes m + unat (es_bundle_bytes (ed_summary d))"
  unfolding index_bytes_def using bt_insert_sum [OF assms, of "\<lambda>d. unat (es_bundle_bytes (ed_summary d))" k d] by simp

lemma set_bt_insert: "set (bt_insert k d m) \<subseteq> insert (k, d) (set m)"
  by (induction k d m rule: bt_insert.induct) auto

lemma entry_of_revision: "entry_ok (ir_event_id r, detail_from_revision r n)"
  by (simp add: entry_ok_def detail_from_revision_def)

lemma detail_fields [simp]:
  "es_bundle_bytes (ed_summary (detail_from_revision r n)) = n" "ed_latest (detail_from_revision r n) = r"
  "es_event_id (ed_summary (detail_from_revision r n)) = ir_event_id r" "es_latest_revision (ed_summary (detail_from_revision r n)) = ir_revision r"
  "es_closed_at_unix_ms (ed_summary (detail_from_revision r n)) = ir_closed_at_unix_ms r"
  by (simp_all add: detail_from_revision_def)

lemma put_index_ok:
  assumes "store_inv s" "put_room r manifest s = Inr n"
  shows "store_inv (put_index r manifest n s)" "unat n \<le> 2 ^ 24" "unat (eh_total_bytes (ls_health (put_index r manifest n s))) \<le> 2 ^ 30"
proof -
  let ?old = "bt_get (ls_index s) (ir_event_id r)"
  let ?prev = "case ?old of None \<Rightarrow> 0 | Some d \<Rightarrow> es_bundle_bytes (ed_summary d)"
  let ?m = "em_total_bytes manifest" and ?t = "eh_total_bytes (ls_health s)"
  from assms(2) have n: "checked_add ?prev ?m = Some n" "n \<le> EVIDENCE_MAX_EVENT_BYTES"
    and all: "\<exists>b. checked_add ?t ?m = Some b \<and> b \<le> EVIDENCE_MAX_STORE_BYTES"
    and room: "?old = None \<Longrightarrow> length (ls_index s) < EVIDENCE_MAX_EVENTS"
    by (auto simp: put_room_def Let_def rbind_Inr_conv split: if_splits option.splits)
  show "unat n \<le> 2 ^ 24" using n(2) by (simp add: word_le_nat_alt)
  from all obtain b where b: "unat b = unat ?t + unat ?m" "unat b \<le> 2 ^ 30" "checked_add ?t ?m = Some b"
    using checked_add_unat by (fastforce simp: word_le_nat_alt)
  then have sat: "saturating_add ?t ?m = b" by (auto simp: saturating_add_def checked_add_def split: if_splits)
  show "unat (eh_total_bytes (ls_health (put_index r manifest n s))) \<le> 2 ^ 30"
    using b sat by (simp add: put_index_def Let_def)
  have prev: "unat n = (case ?old of None \<Rightarrow> 0 | Some d \<Rightarrow> unat (es_bundle_bytes (ed_summary d))) + unat ?m"
    using checked_add_unat [OF n(1)] by (simp split: option.splits)
  have wf: "bt_wf (ls_index s)" and entries: "list_all entry_ok (ls_index s)" and len: "length (ls_index s) \<le> 1000"
    and count: "unat (eh_event_count (ls_health s)) = length (ls_index s)" and bytes: "unat ?t = index_bytes (ls_index s)"
    using assms(1) by (simp_all add: store_inv_def EVIDENCE_MAX_EVENTS_def)
  have "index_bytes (bt_insert (ir_event_id r) (detail_from_revision r n) (ls_index s)) = unat b"
    using index_bytes_insert [OF wf, of "ir_event_id r" "detail_from_revision r n"] prev b(1) bytes by simp
  moreover have "list_all entry_ok (bt_insert (ir_event_id r) (detail_from_revision r n) (ls_index s))"
    using entries set_bt_insert [of "ir_event_id r" "detail_from_revision r n" "ls_index s"] entry_of_revision [of r n]
    by (auto simp: list_all_iff)
  moreover have "ir_event_id r \<in> fst ` set (ls_index s) \<longleftrightarrow> ?old \<noteq> None"
    using map_of_eq_None_iff [of "ls_index s" "ir_event_id r"] by auto
  then have "length (bt_insert (ir_event_id r) (detail_from_revision r n) (ls_index s)) = (if ?old = None then Suc (length (ls_index s)) else length (ls_index s))"
    using length_bt_insert [OF wf] by simp
  moreover have "unat (saturating_add (eh_event_count (ls_health s)) 1) = Suc (length (ls_index s))"
    using count len by (simp add: saturating_add_unat)
  ultimately show "store_inv (put_index r manifest n s)"
    using wf bt_wf_insert [OF wf] count room sat len
    by (cases "?old = None") (simp_all add: store_inv_def put_index_def Let_def EVIDENCE_MAX_EVENTS_def)
qed

lemma put_steps:
  assumes "store_put io json r s = Some (x, t)"
  shows "case x of
      Inl _ \<Rightarrow> same_store s t
    | Inr summary \<Rightarrow> \<exists>u manifest n. same_store s u \<and> put_check r u = Inr () \<and> put_room r manifest u = Inr n
        \<and> summary = ed_summary (detail_from_revision r n) \<and> t = put_index r manifest n u"
proof -
  obtain y a where a: "validate_root io s = (y, a)" by fastforce
  have sa: "same_store s a" using keepsD [OF keeps_root(1) a] .
  have room_same: "put_room r manifest u = put_room r manifest a" "put_check r u = put_check r a" if "same_store a u" for manifest u
  proof -
    have "ls_index u = ls_index a" "ls_health u = ls_health a" using that by (simp_all add: same_store_def)
    then show "put_room r manifest u = put_room r manifest a" "put_check r u = put_check r a"
      unfolding put_room_def put_check_def by (simp_all only:)
  qed
  show ?thesis
  proof (cases y)
    case (Inr ok)
    show ?thesis
    proof (cases "rbind (put_check r a) (\<lambda>_. put_encode json r)")
      case (Inr evidence)
      then have check: "put_check r a = Inr ()" by (cases "put_check r a") auto
      obtain b where b: "build_manifest json r evidence (ls_package_version a) = Some b"
        using assms a \<open>y = Inr ok\<close> Inr by (auto simp: store_put_def split: option.splits)
      show ?thesis
      proof (cases b)
        case (Inr mb)
        obtain manifest bytes where mb: "mb = (manifest, bytes)" by fastforce
        show ?thesis
        proof (cases "put_room r manifest a")
          case (Inr n)
          let ?commit = "\<lambda>event_dir. port_bind (commit_revision io event_dir (ir_revision r) evidence bytes) (\<lambda>_ s.
                                 (Inr (ed_summary (detail_from_revision r n)), put_index r manifest n s))"
          have t: "port_bind (ensure_event_directory io (ir_event_id r)) ?commit a = (x, t)"
            using assms a \<open>y = Inr ok\<close> \<open>rbind (put_check r a) (\<lambda>_. put_encode json r) = Inr evidence\<close> b \<open>b = Inr mb\<close> mb Inr
            by (simp add: store_put_def)
          obtain p c where p: "ensure_event_directory io (ir_event_id r) a = (p, c)" by fastforce
          have ac: "same_store a c" using keepsD [OF keeps_ensure p] .
          show ?thesis
          proof (cases p)
            case (Inr event_dir)
            obtain q d where q: "commit_revision io event_dir (ir_revision r) evidence bytes c = (q, d)" by fastforce
            have ad: "same_store a d" using same_store_trans [OF ac keepsD [OF keeps_commit q]] .
            show ?thesis
              using t p q Inr ad room_same [OF ad] check \<open>put_room r manifest a = Inr n\<close> same_store_trans [OF sa ad]
              by (cases q) (auto simp: port_bind_def intro!: exI [of _ d] exI [of _ manifest] exI [of _ n])
          qed (use t p ac sa in \<open>auto simp: port_bind_def intro: same_store_trans\<close>)
        qed (use assms a \<open>y = Inr ok\<close> \<open>rbind (put_check r a) (\<lambda>_. put_encode json r) = Inr evidence\<close> b \<open>b = Inr mb\<close> mb sa in \<open>auto simp: store_put_def\<close>)
      qed (use assms a \<open>y = Inr ok\<close> Inr b sa in \<open>auto simp: store_put_def\<close>)
    qed (use assms a Inr sa in \<open>auto simp: store_put_def\<close>)
  qed (use assms a sa in \<open>auto simp: store_put_def\<close>)
qed


section \<open>A store for examples\<close>

text \<open>An adapter that finds an empty private root and lets every call succeed; a codec of fixed lengths.\<close>

definition easy_io :: "unit EvidenceIo" where
  "easy_io =
     \<lparr>io_checkpoint = (\<lambda>_ w. (Inr (), w)),
      io_metadata = (\<lambda>p w. (if p = [RootDir, Normal ''ev''] then Inr \<lparr>ev_file_type = EfDirectory, ev_mode = 448, ev_uid = 0, ev_length = 0\<rparr>
        else Inl EvNotFound, w)),
      io_read_directory = (\<lambda>_ w. (Inr [], w)), io_read_file = (\<lambda>_ w. (Inl EvNotFound, w)),
      io_create_directory = (\<lambda>_ _ w. (Inr (), w)), io_write_file = (\<lambda>_ _ _ w. (Inr (), w)), io_sync_directory = (\<lambda>_ w. (Inr (), w)),
      io_rename_noreplace = (\<lambda>_ _ w. (Inr (), w)), io_remove_private_directory = (\<lambda>_ w. (Inr (), w)),
      io_remove_event_directory = (\<lambda>_ w. (Inr (), w)),
      io_capacity = (\<lambda>_ w. (Inr \<lparr>sp_total_bytes = 10 ^ 12, sp_available_bytes = 10 ^ 11\<rparr>, w)),
      io_geteuid = 0, io_process_id = ''1'', io_next_sequence = (\<lambda>w. (1, w))\<rparr>"

definition easy_codec :: EvidenceCodec where
  "easy_codec =
     \<lparr>ej_revision_to_vec = (\<lambda>_. Inr [1]), ej_revision_from_slice = (\<lambda>_. Inl ''eof''), ej_manifest_to_vec = (\<lambda>_. Inr [1, 2, 3]),
      ej_manifest_from_slice = (\<lambda>_. Inl ''eof''), ej_sha256 = (\<lambda>_. replicate 32 0)\<rparr>"

definition easy_store :: "unit LinuxEvidenceStore" where
  "easy_store = \<lparr>ls_world = (), ls_root = [RootDir, Normal ''ev''], ls_package_version = ''1'', ls_index = [], ls_health = NO_HEALTH\<rparr>"

definition easy_revision :: "u64 \<Rightarrow> IncidentRevisionV1" where
  "easy_revision n =
     \<lparr>ir_schema_version = 1, ir_event_id = EventId (replicate 16 7), ir_revision = n, ir_interface = InterfaceName ''eth0'', ir_ifindex = 7,
      ir_interface_generation = 1, ir_transition_sequence = n, ir_previous_state = DsNormal, ir_current_state = DsIngressStorm,
      ir_transition_reason = StormAsserted, ir_opened_at_unix_ms = 5, ir_occurred_at_unix_ms = 5, ir_closed_at_unix_ms = None,
      ir_alert_code = AcStormConfirmed, ir_severity = SevNotice, ir_evidence_status = EvStored,
      ir_xdp_ingress = \<lparr>oc_packets = 0, oc_bytes = 0\<rparr>, ir_tc_egress = \<lparr>oc_packets = 0, oc_bytes = 0\<rparr>,
      ir_rate_windows = warming_status_rate_windows, ir_baseline = summary_from_report (baseline_report_learning an_identity 5),
      ir_fingerprint_window = window_warming, ir_detection = report_warming an_identity 5, ir_observation_health = Healthy,
      ir_vlan_visibility = VlanUnknown, ir_last_error_code = None\<rparr>"

lemma easy_revision_valid: "n \<noteq> 0 \<Longrightarrow> n \<le> 16 \<Longrightarrow> incident_revision_validate (easy_revision n) = Inr ()"
proof -
  have "detection_report_validate (report_warming an_identity 5) = Inr ()"
    using settled_validates [of "detection_engine_new an_identity 5 5"] det_inv_new [of an_identity 5 5]
    by (simp add: det_inv_def detection_engine_new_def)
  then show "n \<noteq> 0 \<Longrightarrow> n \<le> 16 \<Longrightarrow> ?thesis" by (simp add: incident_revision_validate_def easy_revision_def)
qed

lemma easy_manifest: "build_manifest easy_codec (easy_revision 1) [1] ''1'' =
    Some (Inr ((first_manifest easy_codec (easy_revision 1) [1] ''1'' 1)\<lparr>em_total_bytes := 4\<rparr>, [1, 2, 3]))"
proof -
  let ?m = "first_manifest easy_codec (easy_revision 1) [1] ''1'' 1"
  have "manifest_loop easy_codec 1 (?m\<lparr>em_total_bytes := 4\<rparr>) = Some (Inr (?m\<lparr>em_total_bytes := 4\<rparr>, [1, 2, 3]))"
    by (subst manifest_loop.simps) (simp add: easy_codec_def try_from_usize_def checked_add_def)
  moreover have "em_total_bytes ?m = 1" by (simp add: first_manifest_def)
  ultimately have "manifest_loop easy_codec 1 ?m = Some (Inr (?m\<lparr>em_total_bytes := 4\<rparr>, [1, 2, 3]))"
    by (subst manifest_loop.simps) (simp add: easy_codec_def try_from_usize_def checked_add_def)
  moreover have "evidence_manifest_validate (?m\<lparr>em_total_bytes := 4\<rparr>) = Inr ()"
  proof -
    have "sha256_hex easy_codec [1] = replicate 64 (CHR ''0'')" by code_simp
    moreover have "is_lower_hex (CHR ''0'')" by code_simp
    ultimately show ?thesis by (simp add: evidence_manifest_validate_def first_manifest_def easy_revision_def list_all_iff)
  qed
  ultimately show ?thesis by (simp add: build_manifest_def try_from_usize_def)
qed

lemma easy_put: "\<exists>t. store_put easy_io easy_codec (easy_revision 1) easy_store = Some (Inr (ed_summary (detail_from_revision (easy_revision 1) 4)), t)"
proof -
  have root: "validate_root easy_io easy_store = (Inr (), easy_store)"
    by (simp add: validate_root_def port_bind_def io_or_def io_attempt_def easy_io_def easy_store_def private_directory_def)
  have check: "put_check (easy_revision 1) easy_store = Inr ()"
    using easy_revision_valid [of 1] by (simp add: put_check_def easy_store_def easy_revision_def)
  have encode: "put_encode easy_codec (easy_revision 1) = Inr [1]"
    by (simp add: put_encode_def easy_codec_def try_from_usize_def)
  have room: "put_room (easy_revision 1) ((first_manifest easy_codec (easy_revision 1) [1] ''1'' 1)\<lparr>em_total_bytes := 4\<rparr>) easy_store = Inr 4"
    by (simp add: put_room_def easy_store_def NO_HEALTH_def checked_add_def EVIDENCE_MAX_EVENTS_def EVIDENCE_MAX_STORE_BYTES_def)
  have version: "ls_package_version easy_store = ''1''" by (simp add: easy_store_def)
  have dir: "ensure_event_directory easy_io (ir_event_id (easy_revision 1)) easy_store =
      (Inr (event_directory (ir_event_id (easy_revision 1)) easy_store), easy_store)"
    by (simp add: ensure_event_directory_def Let_def event_directory_def io_attempt_def io_or_def port_bind_def easy_io_def easy_store_def)
  have commit: "fst (commit_revision easy_io d 1 e m s) = Inr ()" if "length d = 3" for d e m s
    using that by (auto simp: commit_revision_def Let_def publish_revision_def io_attempt_def io_or_def port_bind_def easy_io_def)
  have "length (event_directory (ir_event_id (easy_revision 1)) easy_store) = 3" by (simp add: event_directory_def easy_store_def)
  from commit [OF this] obtain u where "commit_revision easy_io (event_directory (ir_event_id (easy_revision 1)) easy_store) 1 [1] [1, 2, 3] easy_store = (Inr (), u)"
    by (metis prod.exhaust_sel)
  moreover have "ir_revision (easy_revision 1) = 1" by (simp add: easy_revision_def)
  ultimately show ?thesis
    using room check encode easy_manifest dir unfolding store_put_def root by (simp add: version port_bind_def)
qed

lemma easy_store_inv: "store_inv easy_store"
  by (simp add: store_inv_def easy_store_def NO_HEALTH_def index_bytes_def)

definition easy_one :: "unit LinuxEvidenceStore" where
  "easy_one = easy_store\<lparr>ls_index := [(EventId (replicate 16 7), detail_from_revision (easy_revision 1) 4)]\<rparr>"

section \<open>Listing by pages\<close>

lemma mset_insert_by [simp]: "mset (insert_by le x ys) = add_mset x (mset ys)"
  by (induction ys) auto

lemma mset_sort_by [simp]: "mset (sort_by le xs) = mset xs"
  by (induction xs) (auto simp: sort_by_def)

lemma set_insert_by [simp]: "set (insert_by le x ys) = insert x (set ys)"
  by (metis mset_insert_by set_mset_add_mset_insert set_mset_mset)

definition total_order_by :: "('a \<Rightarrow> 'a \<Rightarrow> bool) \<Rightarrow> bool" where
  "total_order_by le \<longleftrightarrow> (\<forall>x y z. le x y \<longrightarrow> le y z \<longrightarrow> le x z) \<and> (\<forall>x y. le x y \<or> le y x)"

lemma sorted_insert_by: "total_order_by le \<Longrightarrow> sorted_wrt le ys \<Longrightarrow> sorted_wrt le (insert_by le x ys)"
proof (induction ys)
  case (Cons y ys)
  then show ?case unfolding total_order_by_def by (auto; metis)
qed simp

lemma sorted_sort_by: "total_order_by le \<Longrightarrow> sorted_wrt le (sort_by le xs)"
  by (induction xs) (auto simp: sort_by_def intro: sorted_insert_by)

lemma insert_by_head: "\<forall>y \<in> set ys. le x y \<Longrightarrow> insert_by le x ys = x # ys"
  by (cases ys) auto

lemma filter_insert_by:
  assumes "total_order_by le" "sorted_wrt le ys"
  shows "filter P (insert_by le x ys) = (if P x then insert_by le x (filter P ys) else filter P ys)"
  using assms(2)
proof (induction ys)
  case (Cons y ys)
  show ?case
  proof (cases "le x y")
    case True
    then have "\<forall>z \<in> set (filter P (y # ys)). le x z" using Cons.prems assms(1) unfolding total_order_by_def by auto
    with True show ?thesis using insert_by_head [of "filter P (y # ys)" le x] by auto
  qed (use Cons in auto)
qed simp

lemma filter_sort_by: "total_order_by le \<Longrightarrow> filter P (sort_by le xs) = sort_by le (filter P xs)"
proof (induction xs)
  case (Cons x xs)
  then show ?case using filter_insert_by [OF Cons.prems sorted_sort_by [OF Cons.prems], of P x xs] by (simp add: sort_by_def)
qed (simp add: sort_by_def)

lemma newer_first_order: "total_order_by newer_first"
  unfolding total_order_by_def newer_first_def by (auto; (meson less_trans order_trans | force))

definition cursor_of :: "InterfaceName option \<Rightarrow> EvidenceSummaryV1 \<Rightarrow> EvidenceCursor" where
  "cursor_of interface summary = evidence_cursor_new interface (es_last_transition_at_unix_ms summary) (es_event_id summary)"

lemma after_cursor_of: "after_cursor (cursor_of i a) b \<longleftrightarrow> newer_first a b \<and> es_event_id a \<noteq> es_event_id b
     \<or> es_event_id a = es_event_id b \<and> es_last_transition_at_unix_ms b < es_last_transition_at_unix_ms a"
  by (auto simp: after_cursor_def cursor_of_def evidence_cursor_new_def newer_first_def)

text \<open>The whole list of a query.\<close>

definition all_matching :: "InterfaceName option \<Rightarrow> 'w LinuxEvidenceStore \<Rightarrow> EvidenceSummaryV1 list" where
  "all_matching interface s =
     filter (\<lambda>summary. case interface of None \<Rightarrow> True | Some i \<Rightarrow> es_interface summary = i) (map (\<lambda>(_, detail). ed_summary detail) (ls_index s))"

lemma all_matching_distinct:
  assumes "store_inv s"
  shows "distinct (map es_event_id (all_matching interface s))"
proof -
  have "es_event_id (ed_summary d) = e" if "(e, d) \<in> set (ls_index s)" for e d
  proof -
    have "entry_ok (e, d)" using assms that by (auto simp: store_inv_def list_all_iff)
    then have "ir_event_id (ed_latest d) = e" "d = detail_from_revision (ed_latest d) (es_bundle_bytes (ed_summary d))" by (auto simp: entry_ok_def)
    then show ?thesis by (metis detail_fields(3))
  qed
  then have "map es_event_id (map (\<lambda>(_, detail). ed_summary detail) (ls_index s)) = map fst (ls_index s)"
    by (auto intro!: map_cong)
  then have "distinct (map es_event_id (map (\<lambda>(_, detail). ed_summary detail) (ls_index s)))"
    using bt_wf_distinct assms by (metis store_inv_def)
  then show ?thesis unfolding all_matching_def by (rule distinct_map_filter)
qed

text \<open>Everything after the \<open>k\<close>th entry of the sorted list is what the cursor of that entry selects.\<close>

lemma cursor_selects_rest:
  assumes "sorted_wrt newer_first (xs @ x # ys)" "distinct (map es_event_id (xs @ x # ys))"
  shows "filter (after_cursor (cursor_of i x)) (xs @ x # ys) = ys"
proof -
  have before: "newer_first z x" "es_event_id z \<noteq> es_event_id x" if "z \<in> set xs" for z
    using assms that by (auto simp: sorted_wrt_append) (metis imageI)
  have after: "newer_first x z" "es_event_id z \<noteq> es_event_id x" if "z \<in> set ys" for z
    using assms that by (auto simp: sorted_wrt_append) (metis imageI)
  have "\<not> after_cursor (cursor_of i x) z" if "z \<in> set xs" for z
    using before [OF that] unfolding after_cursor_of newer_first_def by (metis less_asym' less_irrefl antisym)
  moreover have "\<not> after_cursor (cursor_of i x) x" by (simp add: after_cursor_of)
  moreover have "after_cursor (cursor_of i x) z" if "z \<in> set ys" for z
    using after [OF that] unfolding after_cursor_of by metis
  ultimately show ?thesis by (simp add: filter_empty_conv)
qed


definition whole_list :: "InterfaceName option \<Rightarrow> 'w LinuxEvidenceStore \<Rightarrow> EvidenceSummaryV1 list" where
  "whole_list interface s = sort_by newer_first (all_matching interface s)"

lemma whole_list_sorted: "sorted_wrt newer_first (whole_list interface s)"
  unfolding whole_list_def by (rule sorted_sort_by [OF newer_first_order])

lemma whole_list_distinct: "store_inv s \<Longrightarrow> distinct (map es_event_id (whole_list interface s))"
  using all_matching_distinct [of s interface] unfolding whole_list_def
  by (metis mset_map mset_sort_by mset_eq_imp_distinct_iff)

text \<open>A request at position \<open>k\<close> of the list: none before the first page, else the cursor of the entry before it.\<close>

definition cursor_at :: "EvidenceListQuery \<Rightarrow> 'w LinuxEvidenceStore \<Rightarrow> nat \<Rightarrow> EvidenceCursor option" where
  "cursor_at query s k = (if k = 0 then None else Some (cursor_of (lq_interface query) (whole_list (lq_interface query) s ! (k - 1))))"

lemma page_at:
  assumes "store_inv s" "lq_limit query \<noteq> 0" "k \<le> length (whole_list (lq_interface query) s)" "lq_cursor query = cursor_at query s k"
  defines "all \<equiv> whole_list (lq_interface query) s" and "n \<equiv> unat (lq_limit query)"
  shows "pg_items (store_list query s) = take n (drop k all)"
    "pg_next_cursor (store_list query s) = (if k + n < length all then cursor_at query s (k + n) else None)"
proof -
  have rest: "sort_by newer_first (filter (\<lambda>summary. case lq_cursor query of None \<Rightarrow> True | Some cursor \<Rightarrow> after_cursor cursor summary)
      (all_matching (lq_interface query) s)) = drop k all"
  proof (cases k)
    case 0
    then show ?thesis using assms(4) by (simp add: cursor_at_def all_def whole_list_def)
  next
    case (Suc j)
    then have j: "j < length all" using assms(3) by (simp add: all_def)
    then have split: "all = take j all @ all ! j # drop k all" using Suc by (simp add: id_take_nth_drop)
    have "filter (after_cursor (cursor_of (lq_interface query) (all ! j))) all = drop k all"
      using cursor_selects_rest [of "take j all" "all ! j" "drop k all"] whole_list_sorted [of "lq_interface query" s]
        whole_list_distinct [OF assms(1), of "lq_interface query"] split unfolding all_def by metis
    then show ?thesis using assms(4) Suc
      by (simp add: cursor_at_def filter_sort_by [OF newer_first_order, symmetric]) (simp add: all_def whole_list_def)
  qed
  have n: "0 < n" using assms(2) by (simp add: n_def unat_gt_0)
  show "pg_items (store_list query s) = take n (drop k all)"
    using rest by (simp add: store_list_def Let_def all_matching_def n_def)
  show "pg_next_cursor (store_list query s) = (if k + n < length all then cursor_at query s (k + n) else None)"
  proof (cases "k + n < length all")
    case True
    then have "last (take n (drop k all)) = all ! (k + n - 1)" using n by (simp add: last_conv_nth)
    then show ?thesis using rest True n
      by (simp add: store_list_def Let_def all_matching_def n_def [symmetric] cursor_at_def cursor_of_def all_def)
  qed (use rest in \<open>simp add: store_list_def Let_def all_matching_def n_def [symmetric]\<close>)
qed

text \<open>A client that asks for page after page, at most \<open>fuel\<close> of them.\<close>

fun list_walk :: "nat \<Rightarrow> EvidenceListQuery \<Rightarrow> 'w LinuxEvidenceStore \<Rightarrow> EvidenceSummaryV1 list" where
  "list_walk 0 query s = []"
| "list_walk (Suc fuel) query s =
     (let page = store_list query s
      in pg_items page @ (case pg_next_cursor page of None \<Rightarrow> [] | Some c \<Rightarrow> list_walk fuel (query\<lparr>lq_cursor := Some c\<rparr>) s))"

lemma list_walk_from:
  assumes "store_inv s" "lq_limit query \<noteq> 0"
  shows "k \<le> length (whole_list (lq_interface query) s) \<Longrightarrow> lq_cursor query = cursor_at query s k \<Longrightarrow>
    length (whole_list (lq_interface query) s) - k < fuel \<Longrightarrow> list_walk fuel query s = drop k (whole_list (lq_interface query) s)"
  using assms(2)
proof (induction fuel arbitrary: k query)
  case (Suc fuel)
  let ?all = "whole_list (lq_interface query) s" and ?n = "unat (lq_limit query)"
  have n: "0 < ?n" using Suc.prems(4) by (simp add: unat_gt_0)
  note page = page_at [OF assms(1) Suc.prems(4,1,2)]
  show ?case
  proof (cases "k + ?n < length ?all")
    case True
    then obtain c where c: "cursor_at query s (k + ?n) = Some c" using n by (simp add: cursor_at_def)
    have "list_walk fuel (query\<lparr>lq_cursor := Some c\<rparr>) s = drop (k + ?n) ?all"
      using Suc.IH [of "k + ?n" "query\<lparr>lq_cursor := Some c\<rparr>"] True Suc.prems(3,4) n c by (simp add: cursor_at_def)
    with True page c show ?thesis by (simp add: Let_def) (metis add.commute append_take_drop_id drop_drop)
  qed (use page in \<open>simp add: Let_def\<close>)
qed simp

definition easy_two :: "unit LinuxEvidenceStore" where
  "easy_two = easy_store\<lparr>ls_index := [(EventId (replicate 16 6), detail_from_revision ((easy_revision 1)\<lparr>ir_event_id := EventId (replicate 16 6)\<rparr>) 4),
      (EventId (replicate 16 7), detail_from_revision ((easy_revision 1)\<lparr>ir_closed_at_unix_ms := Some 9\<rparr>) 5)],
     ls_health := NO_HEALTH\<lparr>eh_event_count := 2, eh_total_bytes := 9\<rparr>\<rparr>"

lemma easy_two_index: "length (ls_index easy_two) = 2"
  by (simp add: easy_two_def)

lemma easy_two_inv: "store_inv easy_two"
proof -
  have "EventId (replicate 16 6) < EventId (replicate 16 7)" unfolding less_EventId_def by code_simp
  then show ?thesis
    by (simp add: store_inv_def easy_two_def index_bytes_def bt_wf_def entry_ok_def easy_store_def NO_HEALTH_def EVIDENCE_MAX_EVENTS_def)
      (simp add: easy_revision_def)
qed

text \<open>
  Reading page by page misses nothing and repeats nothing. A client that starts without a cursor and
  follows the returned cursors receives, in at most one page more than there are events, exactly the stored
  summaries of the requested interface, each once, latest transition first and by identifier within the
  same instant, whatever the page size.
\<close>

theorem pages_cover_the_list:
  assumes "store_inv s" "lq_limit query \<noteq> 0" "lq_cursor query = None"
  shows "mset (list_walk (Suc (length (ls_index s))) query s)
      = mset (filter (\<lambda>x. case lq_interface query of None \<Rightarrow> True | Some i \<Rightarrow> es_interface x = i) (map (\<lambda>(_, d). ed_summary d) (ls_index s)))
    \<and> sorted_wrt newer_first (list_walk (Suc (length (ls_index s))) query s)
    \<and> distinct (map es_event_id (list_walk (Suc (length (ls_index s))) query s))"
proof -
  have "length (whole_list (lq_interface query) s) \<le> length (ls_index s)"
    unfolding whole_list_def by (metis (no_types, lifting) all_matching_def length_filter_le length_map mset_sort_by size_mset)
  then have "list_walk (Suc (length (ls_index s))) query s = whole_list (lq_interface query) s"
    using list_walk_from [OF assms(1,2), of 0] assms(3) by (simp add: cursor_at_def del: list_walk.simps)
  then show ?thesis
    using whole_list_sorted [of "lq_interface query" s] whole_list_distinct [OF assms(1), of "lq_interface query"]
    by (simp add: whole_list_def del: list_walk.simps) (simp add: all_matching_def)
qed

theorem pages_cover_the_list_witness:
  "mset (list_walk 3 \<lparr>lq_interface = None, lq_limit = 1, lq_cursor = None\<rparr> easy_two) = mset (map (\<lambda>(_, d). ed_summary d) (ls_index easy_two))"
  using pages_cover_the_list [OF easy_two_inv, of "\<lparr>lq_interface = None, lq_limit = 1, lq_cursor = None\<rparr>"]
  by (simp add: easy_two_index numeral_3_eq_3 del: list_walk.simps)

section \<open>Retention\<close>

definition without :: "EventId list \<Rightarrow> (EventId \<times> EvidenceDetailV1) list \<Rightarrow> (EventId \<times> EvidenceDetailV1) list" where
  "without ids index = filter (\<lambda>(key, _). key \<notin> set ids) index"

lemma without_simps [simp]: "without [] index = index" 
  "without ids (without ids' index) = without (ids' @ ids) index"
  "filter (\<lambda>(key, _). key \<noteq> e) index = without [e] index"
  by (auto simp: without_def intro!: filter_cong)

lemma bt_wf_without: "bt_wf index \<Longrightarrow> bt_wf (without ids index)"
  unfolding bt_wf_def without_def by (induction index) (auto simp: image_iff)

lemma bt_get_without: "bt_get (without ids index) e = (if e \<in> set ids then None else bt_get index e)"
  by (induction index) (auto simp: without_def)

lemma index_bytes_delete:
  assumes "bt_wf m" "bt_get m e = Some d"
  shows "index_bytes (filter (\<lambda>(key, _). key \<noteq> e) m) + unat (es_bundle_bytes (ed_summary d)) = index_bytes m"
  using assms
proof (induction m)
  case (Cons kv m)
  obtain k v where kv: "kv = (k, v)" by fastforce
  have wf: "bt_wf m" and above: "\<forall>x \<in> fst ` set m. k < x" using Cons.prems(1) by (auto simp: bt_wf_def kv)
  show ?case
  proof (cases "k = e")
    case True
    then have "filter (\<lambda>(key, _). key \<noteq> e) m = m" using above by (intro filter_True) auto
    with True Cons.prems(2) show ?thesis by (simp add: kv index_bytes_def)
  next
    case False
    with Cons.IH [OF wf] Cons.prems(2) show ?thesis by (simp add: kv index_bytes_def)
  qed
qed simp

lemma port_bindE:
  assumes "port_bind p f s = (x, t)"
  obtains (error) e where "x = Inl e" "p s = (Inl e, t)" | (step) a u where "p s = (Inr a, u)" "f a u = (x, t)"
  using assms unfolding port_bind_def by (auto split: prod.splits sum.splits)

lemma delete_event_cases:
  assumes "delete_event io e n s = (x, t)"
  shows "case x of
      Inl _ \<Rightarrow> same_store s t
    | Inr _ \<Rightarrow> (\<exists>d. bt_get (ls_index s) e = Some d \<and> es_bundle_bytes (ed_summary d) = n) \<and> ls_root t = ls_root s
        \<and> ls_package_version t = ls_package_version s \<and> ls_health t = ls_health s \<and> ls_index t = without [e] (ls_index s)"
  using assms unfolding delete_event_def Let_def
proof (cases rule: port_bindE)
  case (error e')
  then show ?thesis using keepsD [OF keeps_map_err [OF keeps_root(2)] error(2)] by simp
next
  case (step a u)
  have su: "same_store s u" using keepsD [OF keeps_map_err [OF keeps_root(2)] step(1)] .
  from step(2) show ?thesis
  proof (cases rule: port_bindE)
    case (step b v)
    then have v: "v = u" and d: "\<exists>d. bt_get (ls_index s) e = Some d \<and> es_bundle_bytes (ed_summary d) = n"
      using su by (auto simp: same_store_def split: if_splits option.splits)
    from step(2) show ?thesis
    proof (cases rule: port_bindE)
      case (error e')
      then show ?thesis using keepsD [OF keeps_io error(2)] su v by (auto intro: same_store_trans)
    next
      case (step c w)
      have sw: "same_store s w" using keepsD [OF keeps_io step(1)] su v by (auto intro: same_store_trans)
      from step(2) show ?thesis
      proof (cases rule: port_bindE)
        case (error e')
        then show ?thesis using keepsD [OF keeps_io error(2)] sw by (auto intro: same_store_trans)
      next
        case (step c' w')
        have "same_store s w'" using keepsD [OF keeps_io step(1)] sw by (auto intro: same_store_trans)
        then show ?thesis using d step(2) by (auto simp: same_store_def)
      qed
    qed
  qed (use su in auto)
qed

lemma retention_loop_cases:
  assumes "bt_wf (ls_index s)" "retention_loop io now incoming filesystem cs reclaimed deleted s = (x, t)"
  shows "\<exists>k \<le> length cs. ls_index t = without (map (\<lambda>c. fst (snd c)) (take k cs)) (ls_index s) \<and> ls_health t = ls_health s \<and> ls_root t = ls_root s
    \<and> (case x of Inl _ \<Rightarrow> True
       | Inr (r, ids) \<Rightarrow> ids = deleted @ map (\<lambda>c. fst (snd c)) (take k cs) \<and> unat r + index_bytes (ls_index t) = unat reclaimed + index_bytes (ls_index s))"
  using assms
proof (induction cs arbitrary: reclaimed deleted s)
  case Nil
  then show ?case by auto
next
  case (Cons c cs)
  obtain closed e n where c: "c = (closed, e, n)" by (cases c) auto
  show ?case
  proof (cases "retention_satisfied now incoming filesystem reclaimed (length deleted) closed (ls_health s)")
    case True
    with Cons.prems show ?thesis by (auto simp: c intro!: exI [of _ 0])
  next
    case False
    obtain y u where y: "delete_event io e n s = (y, u)" by fastforce
    note del = delete_event_cases [OF y]
    show ?thesis
    proof (cases y)
      case (Inl err)
      with False Cons.prems(2) y del show ?thesis by (auto simp: c same_store_def intro!: exI [of _ 0])
    next
      case (Inr ok)
      with del obtain d where d: "bt_get (ls_index s) e = Some d" "es_bundle_bytes (ed_summary d) = n"
        and u: "ls_health u = ls_health s" "ls_root u = ls_root s" "ls_index u = without [e] (ls_index s)" by auto
      note less = index_bytes_delete [OF Cons.prems(1) d(1)]
      show ?thesis
      proof (cases "checked_add reclaimed n")
        case None
        with False Inr Cons.prems(2) y u show ?thesis by (auto simp: c intro!: exI [of _ 1])
      next
        case (Some r)
        have loop: "retention_loop io now incoming filesystem cs r (deleted @ [e]) u = (x, t)"
          using False Inr Cons.prems(2) y Some by (simp add: c)
        from Cons.IH [OF _ this] bt_wf_without [OF Cons.prems(1)] u(3) obtain k where k: "k \<le> length cs"
          "ls_index t = without (map (\<lambda>c. fst (snd c)) (take k cs)) (ls_index u)" "ls_health t = ls_health u" "ls_root t = ls_root u"
          "case x of Inl _ \<Rightarrow> True | Inr (r', ids) \<Rightarrow> ids = (deleted @ [e]) @ map (\<lambda>c. fst (snd c)) (take k cs)
             \<and> unat r' + index_bytes (ls_index t) = unat r + index_bytes (ls_index u)" by metis
        have "unat r = unat reclaimed + unat n" using checked_add_unat [OF Some] .
        with less d(2) u(3) have "unat r + index_bytes (ls_index u) = unat reclaimed + index_bytes (ls_index s)" by simp
        with k u show ?thesis by (intro exI [of _ "Suc k"]) (auto simp: c split: sum.splits)
      qed
    qed
  qed
qed

lemma candidates_closed:
  assumes "(closed, e, n) \<in> set (closed_candidates index)"
  shows "\<exists>d. (e, d) \<in> set index \<and> es_closed_at_unix_ms (ed_summary d) = Some closed \<and> es_bundle_bytes (ed_summary d) = n"
proof -
  have "set (closed_candidates index) = set (List.map_filter (\<lambda>(event_id, detail).
          map_option (\<lambda>closed_at. (closed_at, event_id, es_bundle_bytes (ed_summary detail))) (es_closed_at_unix_ms (ed_summary detail))) index)"
    unfolding closed_candidates_def by (simp only: set_mset_mset [symmetric] mset_sort_by)
  with assms show ?thesis by (auto simp: map_filter_def)
qed

lemma open_survive:
  assumes "bt_wf index" "bt_get index e = Some d" "es_closed_at_unix_ms (ed_summary d) = None"
  shows "bt_get (without (map (\<lambda>c. fst (snd c)) (take k (closed_candidates index))) index) e = Some d"
proof -
  have "e \<notin> set (map (\<lambda>c. fst (snd c)) (take k (closed_candidates index)))"
  proof
    assume "e \<in> set (map (\<lambda>c. fst (snd c)) (take k (closed_candidates index)))"
    then obtain closed n where "(closed, e, n) \<in> set (closed_candidates index)" by (auto dest!: in_set_takeD)
    from candidates_closed [OF this] obtain d' where "(e, d') \<in> set index" "es_closed_at_unix_ms (ed_summary d') = Some closed" by blast
    moreover have "bt_get index e = Some d'" using calculation(1) bt_wf_distinct [OF assms(1)] by (rule map_of_is_SomeI [rotated])
    ultimately show False using assms(2,3) by simp
  qed
  with assms(2) show ?thesis by (simp add: bt_get_without)
qed

lemma length_without: "length (without ids index) \<le> length index" "list_all P index \<Longrightarrow> list_all P (without ids index)"
  by (auto simp: without_def list_all_iff)

lemma event_count_unat: "length index \<le> EVIDENCE_MAX_EVENTS \<Longrightarrow> unat (event_count_of index) = length index"
  by (simp add: event_count_of_def EVIDENCE_MAX_EVENTS_def try_from_usize_def unat_of_nat take_bit_eq_mod)

lemma saturating_sub_unat: "unat (saturating_sub a b) = unat a - unat b"
  by (simp add: saturating_sub_def word_le_nat_alt unat_sub)

lemma retention_finish_cases:
  assumes "retention_finish incoming filesystem reclaimed deleted s = (x, t)" "length (ls_index s) \<le> EVIDENCE_MAX_EVENTS"
  shows "ls_index t = ls_index s" "unat (eh_event_count (ls_health t)) = length (ls_index s)"
    "unat (eh_total_bytes (ls_health t)) = unat (eh_total_bytes (ls_health s)) - unat reclaimed" "eh_available (ls_health t) \<longleftrightarrow> \<not> isl x"
    "case x of Inl _ \<Rightarrow> True | Inr out \<Rightarrow> rt_deleted_event_ids out = deleted \<and> length (ls_index t) < EVIDENCE_MAX_EVENTS
        \<and> unat (eh_total_bytes (ls_health t)) + unat incoming \<le> 2 ^ 30
        \<and> unat (su_required_free_reserve (rt_usage out)) + unat incoming \<le> unat (sp_available_bytes (su_filesystem (rt_usage out)))"
proof -
  note count = event_count_unat [OF assms(2)]
  have fits: "unat a + unat b \<le> 2 ^ 30" if "store_fits a b" for a b
    using that by (auto simp: store_fits_def is_some_and_conv word_le_nat_alt dest!: checked_add_unat)
  have room: "unat r + unat b \<le> unat a" if "is_some_and (checked_sub a b) (\<lambda>bytes. r \<le> bytes)" for a b r :: u64
    using that by (auto simp: is_some_and_conv checked_sub_def word_le_nat_alt unat_sub split: if_splits)
  note defs = retention_finish_def Let_def
  show "ls_index t = ls_index s" "unat (eh_event_count (ls_health t)) = length (ls_index s)"
    "unat (eh_total_bytes (ls_health t)) = unat (eh_total_bytes (ls_health s)) - unat reclaimed" "eh_available (ls_health t) \<longleftrightarrow> \<not> isl x"
    using assms(1) count by (auto simp: defs saturating_sub_unat split: if_splits)
  show "case x of Inl _ \<Rightarrow> True | Inr out \<Rightarrow> rt_deleted_event_ids out = deleted \<and> length (ls_index t) < EVIDENCE_MAX_EVENTS
        \<and> unat (eh_total_bytes (ls_health t)) + unat incoming \<le> 2 ^ 30
        \<and> unat (su_required_free_reserve (rt_usage out)) + unat incoming \<le> unat (sp_available_bytes (su_filesystem (rt_usage out)))"
    using assms(1) count fits [of "saturating_sub (eh_total_bytes (ls_health s)) reclaimed" incoming]
      room [of "saturating_add (sp_available_bytes filesystem) reclaimed" incoming "minimum_free_reserve (sp_total_bytes filesystem)"]
    unfolding defs by (auto split: if_splits)
qed

text \<open>What one enforcement did: the first \<open>k\<close> candidates are gone, and a success accounts for them.\<close>

definition retention_good ::
  "'w LinuxEvidenceStore \<Rightarrow> u64 \<Rightarrow> nat \<Rightarrow> (EvidenceStoreError, RetentionOutcome) result \<Rightarrow> 'w LinuxEvidenceStore \<Rightarrow> bool" where
  "retention_good s incoming k x t \<longleftrightarrow>
     (let gone = map (\<lambda>c. fst (snd c)) (take k (closed_candidates (ls_index s))) in
        ls_index t = without gone (ls_index s)
        \<and> (case x of Inl _ \<Rightarrow> True | Inr out \<Rightarrow> rt_deleted_event_ids out = gone \<and> store_inv t \<and> eh_available (ls_health t)
             \<and> length (ls_index t) < EVIDENCE_MAX_EVENTS \<and> unat (eh_total_bytes (ls_health t)) + unat incoming \<le> 2 ^ 30
             \<and> unat (su_required_free_reserve (rt_usage out)) + unat incoming \<le> unat (sp_available_bytes (su_filesystem (rt_usage out)))))"

lemma retention_early: "same_store s t \<Longrightarrow> isl x \<Longrightarrow> \<exists>k. retention_good s incoming k x t"
  by (intro exI [of _ 0]) (auto simp: retention_good_def same_store_def split: sum.splits)

lemma retained:
  assumes "store_inv s" "same_store s v"
    "port_bind (\<lambda>s. retention_loop io now incoming filesystem (closed_candidates (ls_index s)) 0 [] s) (\<lambda>(reclaimed, deleted).
       retention_finish incoming filesystem reclaimed deleted) v = (x, t)"
  shows "\<exists>k. retention_good s incoming k x t"
proof -
  have index: "ls_index v = ls_index s" "ls_health v = ls_health s" using assms(2) by (simp_all add: same_store_def)
  have wf: "bt_wf (ls_index v)" and len: "length (ls_index s) \<le> EVIDENCE_MAX_EVENTS"
    and entries: "list_all entry_ok (ls_index s)" and bytes: "unat (eh_total_bytes (ls_health s)) = index_bytes (ls_index s)"
    using assms(1) index by (simp_all add: store_inv_def)
  from assms(3) show ?thesis
  proof (cases rule: port_bindE)
    case (error e)
    from retention_loop_cases [OF wf error(2)] error(1) show ?thesis by (auto simp: retention_good_def Let_def index)
  next
    case (step a u)
    obtain r ids where a: "a = (r, ids)" by (cases a)
    from retention_loop_cases [OF wf step(1)] obtain k where
      k: "ls_index u = without (map (\<lambda>c. fst (snd c)) (take k (closed_candidates (ls_index s)))) (ls_index s)" "ls_health u = ls_health s"
        "ids = map (\<lambda>c. fst (snd c)) (take k (closed_candidates (ls_index s)))" "unat r + index_bytes (ls_index u) = index_bytes (ls_index s)"
      by (auto simp: a index)
    have fin: "retention_finish incoming filesystem r ids u = (x, t)" using step(2) by (simp add: a)
    have "length (ls_index u) \<le> EVIDENCE_MAX_EVENTS" using length_without(1) len unfolding k(1) by (rule le_trans)
    note fin = retention_finish_cases [OF fin this]
    have "store_inv t"
      unfolding store_inv_def fin(1-3) using bt_wf_without wf length_without(2) [OF entries] k bytes len
      by (auto simp: index intro: order_trans [OF length_without(1)])
    with fin k show ?thesis by (intro exI [of _ k]) (auto simp: retention_good_def Let_def split: sum.splits)
  qed
qed

text \<open>When an incident was closed, and the order of closing (by identifier within the same instant).\<close>

definition closing_time :: "(EventId \<times> EvidenceDetailV1) list \<Rightarrow> EventId \<Rightarrow> u64 option" where
  "closing_time index e = Option.bind (bt_get index e) (\<lambda>d. es_closed_at_unix_ms (ed_summary d))"

definition closed_before :: "(EventId \<times> EvidenceDetailV1) list \<Rightarrow> EventId \<Rightarrow> EventId \<Rightarrow> bool" where
  "closed_before index e e' \<longleftrightarrow>
     (\<exists>c c'. closing_time index e = Some c \<and> closing_time index e' = Some c' \<and> (c < c' \<or> c = c' \<and> e < e'))"

lemma candidates_order:
  assumes wf: "bt_wf index"
  defines "ids \<equiv> map (\<lambda>c. fst (snd c)) (closed_candidates index)"
  shows "distinct ids" "set ids = {e. closing_time index e \<noteq> None}" "sorted_wrt (closed_before index) ids"
proof -
  let ?g = "\<lambda>(event_id, detail). map_option (\<lambda>closed_at. (closed_at, event_id, es_bundle_bytes (ed_summary detail))) (es_closed_at_unix_ms (ed_summary detail))"
  let ?le = "\<lambda>(closed, event_id, _) (closed', event_id', _). (closed, event_id) \<le> (closed' :: u64, event_id' :: EventId)"
  have ids: "map (\<lambda>c. fst (snd c)) (List.map_filter ?g index) = map fst (filter (\<lambda>(_, d). es_closed_at_unix_ms (ed_summary d) \<noteq> None) index)"
    by (induction index) (auto simp: map_filter_def)
  have "mset ids = mset (map fst (filter (\<lambda>(_, d). es_closed_at_unix_ms (ed_summary d) \<noteq> None) index))"
    unfolding ids_def closed_candidates_def mset_map mset_sort_by ids [symmetric] ..
  moreover have "distinct (map fst (filter (\<lambda>(_, d). es_closed_at_unix_ms (ed_summary d) \<noteq> None) index))"
    using bt_wf_distinct [OF wf] by (rule distinct_map_filter)
  ultimately show dist: "distinct ids" by (metis mset_eq_imp_distinct_iff)
  have members: "set ids = fst ` {(e, d). (e, d) \<in> set index \<and> es_closed_at_unix_ms (ed_summary d) \<noteq> None}"
    using arg_cong [OF \<open>mset ids = _\<close>, of set_mset] by (auto simp: image_def)
  have get: "bt_get index e = Some d \<longleftrightarrow> (e, d) \<in> set index" for e d
    using bt_wf_distinct [OF wf] by simp
  show "set ids = {e. closing_time index e \<noteq> None}"
    unfolding members closing_time_def by (force simp: get image_iff bind_eq_Some_conv)
  have time: "closing_time index (fst (snd c)) = Some (fst c)" if "c \<in> set (closed_candidates index)" for c
    using candidates_closed [of "fst c" "fst (snd c)" "snd (snd c)" index] that by (auto simp: closing_time_def bind_eq_Some_conv get)
  have "total_order_by ?le" unfolding total_order_by_def by (auto simp: less_le_trans)
  then have "sorted_wrt ?le (closed_candidates index)" unfolding closed_candidates_def by (rule sorted_sort_by)
  then show "sorted_wrt (closed_before index) ids"
    unfolding sorted_wrt_iff_nth_less
  proof (intro allI impI)
    fix i j assume le: "\<forall>i j. i < j \<longrightarrow> j < length (closed_candidates index) \<longrightarrow> ?le (closed_candidates index ! i) (closed_candidates index ! j)"
      and ij: "i < j" "j < length ids"
    let ?a = "closed_candidates index ! i" and ?b = "closed_candidates index ! j"
    have len: "i < length (closed_candidates index)" "j < length (closed_candidates index)" using ij by (simp_all add: ids_def)
    have "ids ! i \<noteq> ids ! j" using nth_eq_iff_index_eq [OF dist, of i j] ij by linarith
    then have "fst (snd ?a) \<noteq> fst (snd ?b)" using len by (simp add: ids_def)
    moreover have "?le ?a ?b" by (rule le [rule_format, OF ij(1) len(2)])
    ultimately have "fst ?a < fst ?b \<or> fst ?a = fst ?b \<and> fst (snd ?a) < fst (snd ?b)"
      by (auto simp: case_prod_beta less_eq_prod_def)
    then show "closed_before index (ids ! i) (ids ! j)"
      using time [OF nth_mem [OF len(1)]] time [OF nth_mem [OF len(2)]] len
      by (auto simp: closed_before_def ids_def)
  qed
qed



section \<open>The manifest that counts itself\<close>

text \<open>The number of decimal digits of a number in JSON text.\<close>

fun decimal_width :: "nat \<Rightarrow> nat" where
  "decimal_width n = (if n < 10 then 1 else Suc (decimal_width (n div 10)))"

declare decimal_width.simps [simp del]

lemma decimal_width_mono: "a \<le> b \<Longrightarrow> decimal_width a \<le> decimal_width b"
proof (induction b arbitrary: a rule: decimal_width.induct)
  case (1 b)
  show ?case
  proof (cases "a < 10")
    case True
    then show ?thesis by (subst decimal_width.simps) (subst decimal_width.simps, simp)
  next
    case False
    with 1 have "decimal_width (a div 10) \<le> decimal_width (b div 10)" by (simp add: div_le_mono)
    with False 1 show ?thesis by (subst decimal_width.simps) (subst (2) decimal_width.simps, simp)
  qed
qed

lemma decimal_width_bound: "n < 10 ^ Suc k \<Longrightarrow> decimal_width n \<le> Suc k"
proof (induction k arbitrary: n)
  case 0
  then show ?case by (simp add: decimal_width.simps)
next
  case (Suc k)
  then have "n div 10 < 10 ^ Suc k" by (simp add: less_mult_imp_div_less)
  from Suc.IH [OF this] show ?case by (subst decimal_width.simps) simp
qed

lemma decimal_width_64: "decimal_width (unat (n :: u64)) \<le> 20"
proof -
  have "unat n < 10 ^ Suc 19" by (rule less_trans [OF unat_lt_64]) simp
  from decimal_width_bound [OF this] show ?thesis by simp
qed

text \<open>
  What the loop relies on: the encoding of a manifest grows with \<open>total_bytes\<close> only by the digits that
  number is printed with.
\<close>

definition decimal_manifests :: "EvidenceCodec \<Rightarrow> bool" where
  "decimal_manifests json \<longleftrightarrow>
     (\<forall>m. \<exists>c. \<forall>n bytes. ej_manifest_to_vec json (m\<lparr>em_total_bytes := n\<rparr>) = Inr bytes \<longrightarrow> length bytes = c + decimal_width (unat n))"

lemma manifest_loop_returns:
  assumes "\<forall>n bytes. ej_manifest_to_vec json (m\<lparr>em_total_bytes := n\<rparr>) = Inr bytes \<longrightarrow> length bytes = c + decimal_width (unat n)"
    "unat n \<le> unat evidence + c + decimal_width (unat n)"
  shows "\<exists>x. manifest_loop json evidence (m\<lparr>em_total_bytes := n\<rparr>) = Some x"
  using assms(2)
proof (induction "20 - decimal_width (unat n)" arbitrary: n rule: less_induct)
  case less
  have step: "(\<exists>x. manifest_loop json evidence (m\<lparr>em_total_bytes := k\<rparr>) = Some x) \<or>
      (\<exists>l. unat l = unat evidence + c + decimal_width (unat k) \<and> k \<noteq> l
        \<and> manifest_loop json evidence (m\<lparr>em_total_bytes := k\<rparr>) = manifest_loop json evidence (m\<lparr>em_total_bytes := l\<rparr>))" for k
  proof (cases "ej_manifest_to_vec json (m\<lparr>em_total_bytes := k\<rparr>)")
    case (Inr bytes)
    then have len: "length bytes = c + decimal_width (unat k)" using assms(1) by blast
    show ?thesis
    proof (cases "try_from_usize (length bytes) :: u64 option")
      case (Some n)
      then have n: "unat n = length bytes" by (rule try_from_usize_unat)
      show ?thesis
      proof (cases "checked_add evidence n")
        case (Some l)
        with checked_add_unat [OF Some] n len have "unat l = unat evidence + c + decimal_width (unat k)" by simp
        moreover have "manifest_loop json evidence (m\<lparr>em_total_bytes := k\<rparr>) = (if k = l then Some (Inr (m\<lparr>em_total_bytes := k\<rparr>, bytes))
            else manifest_loop json evidence (m\<lparr>em_total_bytes := l\<rparr>))"
          by (subst manifest_loop.simps) (simp add: Inr Some \<open>try_from_usize (length bytes) = Some n\<close>)
        ultimately show ?thesis by (cases "k = l") (simp, metis)
      qed (use Inr Some in \<open>subst manifest_loop.simps, simp\<close>)
    qed (use Inr in \<open>subst manifest_loop.simps, simp\<close>)
  qed (subst manifest_loop.simps, simp)
  from step [of n] show ?case
  proof
    assume "\<exists>l. unat l = unat evidence + c + decimal_width (unat n) \<and> n \<noteq> l
        \<and> manifest_loop json evidence (m\<lparr>em_total_bytes := n\<rparr>) = manifest_loop json evidence (m\<lparr>em_total_bytes := l\<rparr>)"
    then obtain l where l: "unat l = unat evidence + c + decimal_width (unat n)"
      "manifest_loop json evidence (m\<lparr>em_total_bytes := n\<rparr>) = manifest_loop json evidence (m\<lparr>em_total_bytes := l\<rparr>)" by blast
    then have wide: "decimal_width (unat n) \<le> decimal_width (unat l)" using less.prems by (intro decimal_width_mono) simp
    show ?case
    proof (cases "decimal_width (unat n) = decimal_width (unat l)")
      case True
      have "l' = l" if "unat l' = unat evidence + c + decimal_width (unat l)" for l'
      proof -
        have "unat l' = unat l" using that l(1) True by linarith
        then show ?thesis by (simp add: word_unat_eq_iff)
      qed
      then have "\<exists>x. manifest_loop json evidence (m\<lparr>em_total_bytes := l\<rparr>) = Some x" using step [of l] by blast
      with l(2) show ?thesis by simp
    next
      case False
      with wide less.hyps [of l] l decimal_width_64 [of l] show ?thesis by fastforce
    qed
  qed
qed

lemma manifest_loop_exact:
  assumes "manifest_loop json evidence m = Some x"
  shows "case x of Inl _ \<Rightarrow> True | Inr (manifest, bytes) \<Rightarrow> unat (em_total_bytes manifest) = unat evidence + length bytes"
  using _ assms
proof (rule manifest_loop.raw_induct [where P = "\<lambda>_ evidence _ x.
    case x of Inl _ \<Rightarrow> True | Inr (manifest, bytes) \<Rightarrow> unat (em_total_bytes manifest) = unat evidence + length bytes"])
  fix loop :: "EvidenceCodec \<Rightarrow> u64 \<Rightarrow> EvidenceManifestV1 \<Rightarrow> (EvidenceStoreError, EvidenceManifestV1 \<times> u8 list) result option"
  fix json evidence m x
  assume IH: "\<And>json evidence m x. loop json evidence m = Some x \<Longrightarrow>
      case x of Inl _ \<Rightarrow> True | Inr (manifest, bytes) \<Rightarrow> unat (em_total_bytes manifest) = unat evidence + length bytes"
    and run: "(case ej_manifest_to_vec json m of Inl _ \<Rightarrow> Some (Inl StoreIo)
      | Inr bytes \<Rightarrow> (case try_from_usize (length bytes) of None \<Rightarrow> Some (Inl StoreIo)
        | Some len \<Rightarrow> (case checked_add evidence len of None \<Rightarrow> Some (Inl RevisionTooLarge)
          | Some sum_bytes \<Rightarrow> if em_total_bytes m = sum_bytes then Some (Inr (m, bytes))
              else loop json evidence (m\<lparr>em_total_bytes := sum_bytes\<rparr>)))) = Some x"
  then show "case x of Inl _ \<Rightarrow> True | Inr (manifest, bytes) \<Rightarrow> unat (em_total_bytes manifest) = unat evidence + length bytes"
    by (auto split: sum.splits option.splits if_splits dest!: checked_add_unat try_from_usize_unat IH)
qed

lemma build_manifest_returns:
  assumes "decimal_manifests json"
  shows "\<exists>x. build_manifest json r evidence version = Some x"
proof (cases "try_from_usize (length evidence) :: u64 option")
  case (Some n)
  let ?m = "first_manifest json r evidence version n"
  obtain c where "\<forall>k bytes. ej_manifest_to_vec json (?m\<lparr>em_total_bytes := k\<rparr>) = Inr bytes \<longrightarrow> length bytes = c + decimal_width (unat k)"
    using assms unfolding decimal_manifests_def by blast
  from manifest_loop_returns [OF this, of n n] have "\<exists>x. manifest_loop json n ?m = Some x" by (simp add: first_manifest_def)
  then show ?thesis using Some by (auto simp: build_manifest_def)
qed (simp add: build_manifest_def)

lemma store_put_returns:
  assumes "decimal_manifests json"
  shows "\<exists>x t. store_put io json r s = Some (x, t)"
  unfolding store_put_def using build_manifest_returns [OF assms]
  by (auto split: prod.split sum.split option.split) (metis option.distinct(1))

lemma persist_revision_returns:
  assumes "decimal_manifests json"
  shows "\<exists>x t. persist_revision io json now r s = Some (x, t)"
proof (cases now)
  case (Some now_unix_ms)
  obtain y u where r: "enforce_retention io now_unix_ms EVIDENCE_MAX_REVISION_BYTES s = (y, u)" by fastforce
  obtain x t where "store_put io json r u = Some (x, t)" using store_put_returns [OF assms, of io r u] by blast
  with Some r show ?thesis by (cases y) (simp_all add: persist_revision_def)
qed (simp add: persist_revision_def)

definition decimal_codec :: EvidenceCodec where
  "decimal_codec = easy_codec\<lparr>ej_manifest_to_vec := \<lambda>m. Inr (replicate (decimal_width (unat (em_total_bytes m))) 49)\<rparr>"

lemma decimal_codec_ok: "decimal_manifests decimal_codec"
  unfolding decimal_manifests_def by (rule allI, rule exI [of _ 0]) (simp add: decimal_codec_def)

text \<open>
  Storing a revision always comes to an end. The search for a manifest that states its own size ends
  for every revision whenever the encoder prints \<open>total_bytes\<close> in decimal and lets the rest of the text
  alone, so \<open>put\<close> returns a summary or an error for every revision, store and file system; and the manifest
  it settles on counts exactly the evidence and its own encoding.
\<close>

theorem put_always_returns:
  assumes "decimal_manifests json"
  shows "(\<exists>x t. store_put io json r s = Some (x, t))
    \<and> (\<forall>evidence version manifest bytes. build_manifest json r evidence version = Some (Inr (manifest, bytes))
        \<longrightarrow> unat (em_total_bytes manifest) = length evidence + length bytes)"
  using store_put_returns [OF assms, of io r s]
  by (auto simp: build_manifest_def rbind_Inr_conv split: option.splits dest!: manifest_loop_exact try_from_usize_unat)

theorem put_always_returns_witness:
  "\<exists>x t. store_put easy_io decimal_codec (easy_revision 1) easy_store = Some (x, t)"
  using put_always_returns [OF decimal_codec_ok] by blast

section \<open>The files of the store\<close>

text \<open>
  What the file system below the adapter promises, on the contents of regular files as \<open>view\<close> shows them:
  looking, synchronising and counting change nothing; a directory is only created where there was
  nothing; a write that succeeds leaves exactly its bytes and one that fails touches no other file; a
  rename moves a whole tree to a place where there was nothing, or does nothing; the removal of a private
  directory stays inside it.
\<close>

definition below :: "path \<Rightarrow> path \<Rightarrow> bool" where
  "below p q \<longleftrightarrow> take (length p) q = p"

definition evidence_files :: "'w EvidenceIo \<Rightarrow> ('w \<Rightarrow> path \<Rightarrow> u8 list option) \<Rightarrow> bool" where
  "evidence_files io view \<longleftrightarrow>
     (\<forall>step w. view (snd (io_checkpoint io step w)) = view w) \<and>
     (\<forall>p w. view (snd (io_metadata io p w)) = view w) \<and>
     (\<forall>p w. view (snd (io_sync_directory io p w)) = view w) \<and>
     (\<forall>w. view (snd (io_next_sequence io w)) = view w) \<and>
     (\<forall>p m w. view (snd (io_create_directory io p m w)) = view w \<and>
        (is_ok (fst (io_create_directory io p m w)) \<longrightarrow> (\<forall>q. view w (p @ q) = None))) \<and>
     (\<forall>p b m w. case io_write_file io p b m w of
          (Inl _, w') \<Rightarrow> \<forall>q. q \<noteq> p \<longrightarrow> view w' q = view w q
        | (Inr _, w') \<Rightarrow> view w' = (view w)(p \<mapsto> b)) \<and>
     (\<forall>p p' w. case io_rename_noreplace io p p' w of
          (Inl _, w') \<Rightarrow> view w' = view w
        | (Inr _, w') \<Rightarrow> (\<forall>q. view w (p' @ q) = None) \<and>
            view w' = (\<lambda>q. if below p' q then view w (p @ drop (length p') q) else if below p q then None else view w q)) \<and>
     (\<forall>p w q. \<not> below p q \<longrightarrow> view (snd (io_remove_private_directory io p w)) q = view w q)"

lemma quiet_calls:
  assumes "evidence_files io view"
  shows "view (snd (io_checkpoint io step w)) = view w" "view (snd (io_metadata io p w)) = view w"
    "view (snd (io_sync_directory io p w)) = view w" "view (snd (io_create_directory io p m w)) = view w"
  using assms by (simp_all add: evidence_files_def)

text \<open>Assertions before and after a call, on success and on failure.\<close>

definition triple :: "('s \<Rightarrow> bool) \<Rightarrow> ('s, 'e, 'a) port \<Rightarrow> ('a \<Rightarrow> 's \<Rightarrow> bool) \<Rightarrow> ('e \<Rightarrow> 's \<Rightarrow> bool) \<Rightarrow> bool" where
  "triple P p Q E \<longleftrightarrow> (\<forall>s. P s \<longrightarrow> (case p s of (Inl e, t) \<Rightarrow> E e t | (Inr a, t) \<Rightarrow> Q a t))"

lemma triple_bind: "triple P p Q E \<Longrightarrow> (\<And>a. triple (Q a) (f a) R E) \<Longrightarrow> triple P (port_bind p f) R E"
  unfolding triple_def port_bind_def by (fastforce split: prod.splits sum.splits)

lemma triple_io:
  assumes "\<And>w. P w \<Longrightarrow> case call w of (Inl _, w') \<Rightarrow> E e w' | (Inr _, w') \<Rightarrow> Q w'"
  shows "triple (\<lambda>s. P (ls_world s)) (io_or e call) (\<lambda>_ s. Q (ls_world s)) (\<lambda>e s. E e (ls_world s))"
  unfolding triple_def io_or_def io_attempt_def using assms by (fastforce split: prod.splits sum.splits)

lemma triple_quiet:
  assumes "\<And>w. view (snd (call w)) = view w" "\<And>w. P (view w) \<Longrightarrow> E e (view w)"
  shows "triple (\<lambda>s. P (view (ls_world s))) (io_or e call) (\<lambda>_ s. P (view (ls_world s))) (\<lambda>e s. E e (view (ls_world s)))"
proof (rule triple_io)
  show "case call w of (Inl _, w') \<Rightarrow> E e (view w') | (Inr _, w') \<Rightarrow> P (view w')" if "P (view w)" for w
    using assms(1) [of w] assms(2) [of w] that by (auto split: prod.split sum.split)
qed

text \<open>The files of one revision: its evidence and its manifest below the revision's directory.\<close>

definition with_revision :: "path \<Rightarrow> u8 list \<Rightarrow> u8 list \<Rightarrow> (path \<Rightarrow> u8 list option) \<Rightarrow> path \<Rightarrow> u8 list option" where
  "with_revision dir evidence manifest v =
     v(dir @ [Normal ''evidence.json''] \<mapsto> evidence, dir @ [Normal ''manifest.json''] \<mapsto> manifest)"

definition agree_off :: "path \<Rightarrow> (path \<Rightarrow> u8 list option) \<Rightarrow> (path \<Rightarrow> u8 list option) \<Rightarrow> bool" where
  "agree_off tmp v v' \<longleftrightarrow> (\<forall>q. \<not> below tmp q \<longrightarrow> v' q = v q)"

lemma below_append [simp]: "below p (p @ q)"
  by (simp add: below_def)

lemma belowE: "below p q \<Longrightarrow> (\<And>r. q = p @ r \<Longrightarrow> thesis) \<Longrightarrow> thesis"
  unfolding below_def by (metis append_take_drop_id)

lemma agree_off_write:
  "agree_off tmp V v \<Longrightarrow> \<forall>q. q \<noteq> tmp @ r \<longrightarrow> v' q = v q \<Longrightarrow> agree_off tmp V v'"
  unfolding agree_off_def by (metis below_append)

lemma publish_files:
  fixes io :: "'w EvidenceIo" and tmp target :: path and V :: "path \<Rightarrow> u8 list option" and evidence manifest
  assumes io: "evidence_files io view"
  defines "E \<equiv> \<lambda>e v. agree_off tmp V v \<or> e = StoreIo \<and> agree_off tmp (with_revision target evidence manifest V) v"
  shows "triple (\<lambda>s. agree_off tmp V (view (ls_world s))) (publish_revision io event_dir tmp target evidence manifest)
    (\<lambda>_ s. agree_off tmp (with_revision target evidence manifest V) (view (ls_world s))) (\<lambda>e s. E e (view (ls_world s)))"
proof -
  let ?ev = "tmp @ [Normal ''evidence.json'']" and ?mf = "tmp @ [Normal ''manifest.json'']"
  define A1 where "A1 v \<longleftrightarrow> agree_off tmp V v \<and> (\<forall>q. v (tmp @ q) = None)" for v
  define A2 where "A2 v \<longleftrightarrow> agree_off tmp V v \<and> (\<forall>q. v (tmp @ q) = (if q = [Normal ''evidence.json''] then Some evidence else None))" for v
  define A3 where "A3 v \<longleftrightarrow> agree_off tmp V v \<and> (\<forall>q. v (tmp @ q) = with_revision [] evidence manifest (\<lambda>_. None) q)" for v
  note quiet = triple_quiet [where view = view and E = E]
  have calls: "view (snd (io_checkpoint io step w)) = view w" "view (snd (io_sync_directory io p w)) = view w" for step p w
    using io by (simp_all add: evidence_files_def)
  have off: "A1 v \<Longrightarrow> E e v" "A2 v \<Longrightarrow> E e v" "A3 v \<Longrightarrow> E e v" "agree_off tmp V v \<Longrightarrow> E e v"
    "agree_off tmp (with_revision target evidence manifest V) v \<Longrightarrow> E StoreIo v" for v e
    by (simp_all add: E_def A1_def A2_def A3_def)
  have create: "triple (\<lambda>s. agree_off tmp V (view (ls_world s))) (io_or StoreIo (io_create_directory io tmp 448))
      (\<lambda>_ s. A1 (view (ls_world s))) (\<lambda>e s. E e (view (ls_world s)))"
  proof (rule triple_io)
    fix w assume "agree_off tmp V (view w)"
    moreover have "view (snd (io_create_directory io tmp 448 w)) = view w \<and>
        (is_ok (fst (io_create_directory io tmp 448 w)) \<longrightarrow> (\<forall>q. view w (tmp @ q) = None))" using io by (simp add: evidence_files_def)
    ultimately show "case io_create_directory io tmp 448 w of (Inl _, w') \<Rightarrow> E StoreIo (view w') | (Inr _, w') \<Rightarrow> A1 (view w')"
      by (auto simp: A1_def E_def split: prod.splits sum.splits)
  qed
  have write1: "triple (\<lambda>s. A1 (view (ls_world s))) (io_or StoreIo (io_write_file io ?ev evidence 384))
      (\<lambda>_ s. A2 (view (ls_world s))) (\<lambda>e s. E e (view (ls_world s)))"
  proof (rule triple_io)
    fix w assume "A1 (view w)"
    moreover have "case io_write_file io ?ev evidence 384 w of (Inl _, w') \<Rightarrow> \<forall>q. q \<noteq> ?ev \<longrightarrow> view w' q = view w q
        | (Inr _, w') \<Rightarrow> view w' = (view w)(?ev \<mapsto> evidence)" using io by (simp add: evidence_files_def)
    ultimately show "case io_write_file io ?ev evidence 384 w of (Inl _, w') \<Rightarrow> E StoreIo (view w') | (Inr _, w') \<Rightarrow> A2 (view w')"
      using agree_off_write [of tmp V "view w" "[Normal ''evidence.json'']"]
      by (auto simp: A1_def A2_def E_def split: prod.splits sum.splits)
  qed
  have write2: "triple (\<lambda>s. A2 (view (ls_world s))) (io_or StoreIo (io_write_file io ?mf manifest 384))
      (\<lambda>_ s. A3 (view (ls_world s))) (\<lambda>e s. E e (view (ls_world s)))"
  proof (rule triple_io)
    fix w assume "A2 (view w)"
    moreover have "case io_write_file io ?mf manifest 384 w of (Inl _, w') \<Rightarrow> \<forall>q. q \<noteq> ?mf \<longrightarrow> view w' q = view w q
        | (Inr _, w') \<Rightarrow> view w' = (view w)(?mf \<mapsto> manifest)" using io by (simp add: evidence_files_def)
    ultimately show "case io_write_file io ?mf manifest 384 w of (Inl _, w') \<Rightarrow> E StoreIo (view w') | (Inr _, w') \<Rightarrow> A3 (view w')"
      using agree_off_write [of tmp V "view w" "[Normal ''manifest.json'']"]
      by (auto simp: A2_def A3_def E_def with_revision_def split: prod.splits sum.splits)
  qed
  have rename: "triple (\<lambda>s. A3 (view (ls_world s))) (\<lambda>s. case io_attempt (io_rename_noreplace io tmp target) s of
         (Inl EvAlreadyExists, s) \<Rightarrow> (Inl RevisionConflict, s)
       | (Inl _, s) \<Rightarrow> (Inl StoreIo, s)
       | (Inr u, s) \<Rightarrow> (Inr u, s))
      (\<lambda>_ s. agree_off tmp (with_revision target evidence manifest V) (view (ls_world s))) (\<lambda>e s. E e (view (ls_world s)))"
    unfolding triple_def
  proof (intro allI impI)
    fix s :: "'w LinuxEvidenceStore" assume a: "A3 (view (ls_world s))"
    have ren: "case io_rename_noreplace io tmp target (ls_world s) of
          (Inl _, w') \<Rightarrow> view w' = view (ls_world s)
        | (Inr _, w') \<Rightarrow> (\<forall>q. view (ls_world s) (target @ q) = None) \<and> view w' = (\<lambda>q. if below target q then view (ls_world s) (tmp @ drop (length target) q)
            else if below tmp q then None else view (ls_world s) q)" using io by (simp add: evidence_files_def)
    have moved: "agree_off tmp (with_revision target evidence manifest V) (\<lambda>q. if below target q then view (ls_world s) (tmp @ drop (length target) q)
            else if below tmp q then None else view (ls_world s) q)" if "\<forall>q. view (ls_world s) (target @ q) = None"
      using a that by (auto simp: A3_def agree_off_def with_revision_def elim!: belowE) metis
    show "case (case io_attempt (io_rename_noreplace io tmp target) s of
         (Inl EvAlreadyExists, s) \<Rightarrow> (Inl RevisionConflict, s)
       | (Inl _, s) \<Rightarrow> (Inl StoreIo, s)
       | (Inr u, s) \<Rightarrow> (Inr u, s)) of (Inl e, t) \<Rightarrow> E e (view (ls_world t))
       | (Inr a, t) \<Rightarrow> agree_off tmp (with_revision target evidence manifest V) (view (ls_world t))"
      using ren moved off(3) [OF a] by (auto simp: io_attempt_def split: prod.splits sum.splits EvidenceIoError.splits)
  qed
  show ?thesis
    unfolding publish_revision_def
    by (rule triple_bind [OF quiet] triple_bind [OF create] triple_bind [OF write1] triple_bind [OF write2] triple_bind [OF rename]
        quiet calls off | assumption)+
qed

text \<open>
  The files a reader of the store sees: everything but what lies in the private \<open>.tmp-\<close> directories of
  the events, which recovery only counts.
\<close>

definition in_temporary :: "path \<Rightarrow> path \<Rightarrow> bool" where
  "in_temporary root q \<longleftrightarrow> (\<exists>event name rest. q = root @ [event, Normal (''.tmp-'' @ name)] @ rest)"

definition stored_files :: "path \<Rightarrow> (path \<Rightarrow> u8 list option) \<Rightarrow> path \<Rightarrow> u8 list option" where
  "stored_files root v q = (if in_temporary root q then None else v q)"

definition revision_directory :: "path \<Rightarrow> IncidentRevisionV1 \<Rightarrow> path" where
  "revision_directory root r = root @ [Normal (event_id_display (ir_event_id r)), Normal (hex16 (ir_revision r))]"

lemma stored_files_agree:
  assumes "agree_off (temporary_directory io (root @ [Normal e]) n k) V v"
  shows "stored_files root v = stored_files root V"
proof
  fix q
  have "in_temporary root q" if "below (temporary_directory io (root @ [Normal e]) n k) q"
    using that by (auto simp: in_temporary_def temporary_directory_def elim!: belowE)
  with assms show "stored_files root v q = stored_files root V q"
    by (auto simp: stored_files_def agree_off_def)
qed

lemma stored_files_revision:
  "stored_files root (with_revision (revision_directory root r) evidence manifest V) =
   with_revision (revision_directory root r) evidence manifest (stored_files root V)"
proof -
  have "hd (hex16 n) \<noteq> CHR ''.''" for n
  proof -
    have "HEX ! k \<noteq> CHR ''.''" if "k < 16" for k
      using that unfolding HEX_def by (auto simp: less_Suc_eq numeral_eq_Suc)
    moreover have "unat (drop_bit 60 n AND 15) < 16"
    proof -
      have "drop_bit 60 n AND 15 = take_bit 4 (drop_bit 60 n)" by (simp add: take_bit_eq_mask mask_numeral mask_eq_exp_minus_1)
      then have "unat (drop_bit 60 n AND 15) = take_bit 4 (unat (drop_bit 60 n))" by (simp only: unsigned_take_bit_eq)
      then show ?thesis using take_bit_nat_less_exp [of 4 "unat (drop_bit 60 n)"] by simp
    qed
    ultimately show ?thesis by (simp add: hex16_def upt_rec)
  qed
  then have "hex16 n \<noteq> ''.tmp-'' @ name" for n name by (metis list.sel(1) append_Cons)
  then have "\<not> in_temporary root (revision_directory root r @ q)" for q
    by (auto simp: in_temporary_def revision_directory_def)
  then show ?thesis by (auto simp: fun_eq_iff stored_files_def with_revision_def)
qed

lemma commit_files:
  assumes io: "evidence_files io view" and c: "commit_revision io event_dir n evidence manifest s = (x, t)"
  shows "\<exists>k. let tmp = temporary_directory io event_dir n k; V = view (ls_world s);
       W = with_revision (event_dir @ [Normal (hex16 n)]) evidence manifest V; v = view (ls_world t)
     in (case x of Inr _ \<Rightarrow> agree_off tmp W v | Inl e \<Rightarrow> agree_off tmp V v \<or> e = StoreIo \<and> agree_off tmp W v)"
proof -
  let ?target = "event_dir @ [Normal (hex16 n)]" and ?V = "view (ls_world s)"
  have still: "view (ls_world (snd (io_attempt (io_metadata io p) s))) = view (ls_world s)" for p s
    using io by (simp add: evidence_files_def io_attempt_def split: prod.split) (metis snd_conv)
  obtain y a where a: "io_attempt (io_metadata io ?target) s = (y, a)" by fastforce
  have va: "view (ls_world a) = ?V" using still [of ?target s] a by simp
  obtain k w where k: "io_next_sequence io (ls_world a) = (k, w)" by fastforce
  have vw: "view w = ?V" using io va k by (simp add: evidence_files_def) (metis snd_conv)
  define tmp where "tmp = temporary_directory io event_dir n k"
  let ?W = "with_revision ?target evidence manifest ?V"
  obtain z b where b: "publish_revision io event_dir tmp ?target evidence manifest (a\<lparr>ls_world := w\<rparr>) = (z, b)" by fastforce
  have pub: "case z of Inr _ \<Rightarrow> agree_off tmp ?W (view (ls_world b)) | Inl e \<Rightarrow> agree_off tmp ?V (view (ls_world b)) \<or> e = StoreIo \<and> agree_off tmp ?W (view (ls_world b))"
    using publish_files [OF io, of tmp ?V event_dir ?target evidence manifest] b vw
    unfolding triple_def by (auto simp: agree_off_def dest!: spec [of _ "a\<lparr>ls_world := w\<rparr>"] split: sum.splits)
  obtain m c' where m: "io_attempt (io_metadata io tmp) b = (m, c')" by fastforce
  have vc: "view (ls_world c') = view (ls_world b)" using still [of tmp b] m by simp
  have rem: "agree_off tmp U (view (ls_world c')) \<Longrightarrow> agree_off tmp U (view (ls_world (snd (io_attempt (io_remove_private_directory io tmp) c'))))" for U
    using io unfolding evidence_files_def agree_off_def io_attempt_def by (auto split: prod.split) (metis snd_conv)
  show ?thesis
  proof (cases y)
    case (Inr _)
    then show ?thesis using c va by (auto simp: commit_revision_def a agree_off_def)
  next
    case (Inl _)
    then show ?thesis
      using c pub rem vc unfolding commit_revision_def Let_def a k prod.case sum.case tmp_def [symmetric] b
      by (intro exI [of _ k]) (auto simp: m tmp_def [symmetric] split: sum.splits)
  qed
qed

lemma root_files:
  assumes "evidence_files io view"
  shows "view (ls_world (snd (validate_root io s))) = view (ls_world s)"
    "view (ls_world (snd (validate_private_directory io p s))) = view (ls_world s)"
    "view (ls_world (snd (ensure_event_directory io e s))) = view (ls_world s)"
proof -
  have quiet: "triple (\<lambda>s. view (ls_world s) = V) (io_or err call) (\<lambda>_ s. view (ls_world s) = V) (\<lambda>_ s. view (ls_world s) = V)"
    if "\<And>w. view (snd (call w)) = view w" for V err and call :: "('a, EvidenceIoError, 'b) port"
    using triple_quiet [of view call "\<lambda>v. v = V" "\<lambda>_ v. v = V"] that by simp
  note calls = quiet_calls [OF assms]
  have res: "view (ls_world (snd (p s))) = view (ls_world s)"
    if "\<And>V. triple (\<lambda>s. view (ls_world s) = V) p (\<lambda>_ s. view (ls_world s) = V) (\<lambda>_ s. view (ls_world s) = V)"
    for p :: "('a LinuxEvidenceStore, 'e, 'b) port" and s
  proof -
    have "case p s of (Inl e, t) \<Rightarrow> view (ls_world t) = view (ls_world s) | (Inr a, t) \<Rightarrow> view (ls_world t) = view (ls_world s)"
      by (rule that [unfolded triple_def, rule_format, OF refl])
    then show ?thesis by (cases "p s"; cases "fst (p s)") simp_all
  qed
  have meta: "view (ls_world (snd (io_or err (io_metadata io p) s))) = view (ls_world s)" for err :: 'f and p s
    by (rule res, rule quiet, rule calls)
  have attempt: "view (ls_world (snd (io_attempt (io_metadata io p) s))) = view (ls_world s)" for p s
    using calls(2) [of p "ls_world s"] by (auto simp: io_attempt_def split: prod.split)
  have lift: "snd (port_bind q f s) = snd (q s)" if "\<And>a t. snd (f a t) = t" for q :: "('a LinuxEvidenceStore, 'e, 'b) port" and f :: "'b \<Rightarrow> ('a LinuxEvidenceStore, 'e, 'c) port" and s
    using that by (auto simp: port_bind_def split: prod.split sum.split)
  show "view (ls_world (snd (validate_root io s))) = view (ls_world s)"
    unfolding validate_root_def by (subst lift) (simp_all add: meta port_lift_def)
  show priv: "view (ls_world (snd (validate_private_directory io p s))) = view (ls_world s)" for p s
    unfolding validate_private_directory_def by (subst lift) (simp_all add: meta port_lift_def)
  have create: "view (ls_world (snd (port_bind (io_or StoreIo (io_checkpoint io CreateEvent)) (\<lambda>_.
             port_bind (io_or StoreIo (io_create_directory io path 448)) (\<lambda>_.
             port_bind (io_or StoreIo (io_sync_directory io root)) (\<lambda>_.
             port_return path))) s))) = view (ls_world s)" for path root s
  proof (rule res)
    show "triple (\<lambda>s. view (ls_world s) = V) (port_bind (io_or StoreIo (io_checkpoint io CreateEvent)) (\<lambda>_.
             port_bind (io_or StoreIo (io_create_directory io path 448)) (\<lambda>_.
             port_bind (io_or StoreIo (io_sync_directory io root)) (\<lambda>_.
             port_return path)))) (\<lambda>_ s. view (ls_world s) = V) (\<lambda>_ s. view (ls_world s) = V)" for V
      by (rule triple_bind [OF quiet] calls | (simp add: triple_def; fail))+
  qed
  show "view (ls_world (snd (ensure_event_directory io e s))) = view (ls_world s)"
  proof -
    obtain x t where a: "io_attempt (io_metadata io (event_directory e s)) s = (x, t)" by fastforce
    have t: "view (ls_world t) = view (ls_world s)" using attempt [of "event_directory e s" s] a by simp
    have check: "snd (port_bind (validate_private_directory io p) (\<lambda>_. port_return p) t) = snd (validate_private_directory io p t)" for p
      by (rule lift) simp
    show ?thesis
      unfolding ensure_event_directory_def Let_def a using t create check priv
      by (auto split: sum.split EvidenceIoError.split)
  qed
qed

text \<open>
  A manifest that describes a revision: it names the event, the revision and its state, the length and
  digest of the evidence, and the length of the two files together.
\<close>

definition describes :: "EvidenceCodec \<Rightarrow> IncidentRevisionV1 \<Rightarrow> u8 list \<Rightarrow> u8 list \<Rightarrow> bool" where
  "describes json r evidence bytes \<longleftrightarrow>
     (\<exists>m. ej_manifest_to_vec json m = Inr bytes \<and> em_event_id m = ir_event_id r \<and> em_revision m = ir_revision r \<and>
       em_current_state m = ir_current_state r \<and> unat (em_evidence_bytes m) = length evidence \<and>
       em_evidence_sha256 m = sha256_hex json evidence \<and> unat (em_total_bytes m) = length evidence + length bytes)"

lemma manifest_loop_fields:
  assumes "manifest_loop json evidence m = Some x"
  shows "case x of Inl _ \<Rightarrow> True | Inr (manifest, bytes) \<Rightarrow> ej_manifest_to_vec json manifest = Inr bytes \<and> (\<exists>n. manifest = m\<lparr>em_total_bytes := n\<rparr>)"
  using _ assms
proof (rule manifest_loop.raw_induct [where P = "\<lambda>json _ m x.
    case x of Inl _ \<Rightarrow> True | Inr (manifest, bytes) \<Rightarrow> ej_manifest_to_vec json manifest = Inr bytes \<and> (\<exists>n. manifest = m\<lparr>em_total_bytes := n\<rparr>)"])
  fix loop :: "EvidenceCodec \<Rightarrow> u64 \<Rightarrow> EvidenceManifestV1 \<Rightarrow> (EvidenceStoreError, EvidenceManifestV1 \<times> u8 list) result option"
  fix json evidence m x
  assume IH: "\<And>json evidence m x. loop json evidence m = Some x \<Longrightarrow>
      case x of Inl _ \<Rightarrow> True | Inr (manifest, bytes) \<Rightarrow> ej_manifest_to_vec json manifest = Inr bytes \<and> (\<exists>n. manifest = m\<lparr>em_total_bytes := n\<rparr>)"
    and run: "(case ej_manifest_to_vec json m of Inl _ \<Rightarrow> Some (Inl StoreIo)
      | Inr bytes \<Rightarrow> (case try_from_usize (length bytes) of None \<Rightarrow> Some (Inl StoreIo)
        | Some len \<Rightarrow> (case checked_add evidence len of None \<Rightarrow> Some (Inl RevisionTooLarge)
          | Some sum_bytes \<Rightarrow> if em_total_bytes m = sum_bytes then Some (Inr (m, bytes))
              else loop json evidence (m\<lparr>em_total_bytes := sum_bytes\<rparr>)))) = Some x"
  have "m = m\<lparr>em_total_bytes := em_total_bytes m\<rparr>" by simp
  then have self: "\<exists>n. m = m\<lparr>em_total_bytes := n\<rparr>" by blast
  from run self show "case x of Inl _ \<Rightarrow> True | Inr (manifest, bytes) \<Rightarrow> ej_manifest_to_vec json manifest = Inr bytes \<and> (\<exists>n. manifest = m\<lparr>em_total_bytes := n\<rparr>)"
    by (auto split: sum.splits option.splits if_splits dest!: IH)
qed

lemma build_manifest_describes:
  assumes "build_manifest json r evidence version = Some (Inr (m, bytes))"
  shows "describes json r evidence bytes" "unat (em_total_bytes m) = length evidence + length bytes"
proof -
  from assms obtain n where n: "try_from_usize (length evidence) = Some n"
    and loop: "manifest_loop json n (first_manifest json r evidence version n) = Some (Inr (m, bytes))"
    by (auto simp: build_manifest_def rbind_Inr_conv split: option.splits)
  from manifest_loop_fields [OF loop] obtain k where k: "ej_manifest_to_vec json m = Inr bytes"
    "m = (first_manifest json r evidence version n)\<lparr>em_total_bytes := k\<rparr>" by auto
  have len: "unat n = length evidence" using n by (rule try_from_usize_unat)
  then show total: "unat (em_total_bytes m) = length evidence + length bytes" using manifest_loop_exact [OF loop] by simp
  show "describes json r evidence bytes"
    unfolding describes_def using k len total by (intro exI [of _ m]) (simp add: first_manifest_def)
qed

lemma put_files:
  assumes io: "evidence_files io view" and put: "store_put io json r s = Some (x, t)"
  defines "before \<equiv> stored_files (ls_root s) (view (ls_world s))" and "after \<equiv> stored_files (ls_root s) (view (ls_world t))"
  shows "isl x \<and> after = before \<or>
    (\<exists>evidence bytes. ej_revision_to_vec json r = Inr evidence \<and> describes json r evidence bytes \<and>
       after = with_revision (revision_directory (ls_root s) r) evidence bytes before \<and>
       (case x of Inl e \<Rightarrow> e = StoreIo
        | Inr summary \<Rightarrow> unat (es_bundle_bytes summary) = (case bt_get (ls_index s) (ir_event_id r) of
            None \<Rightarrow> 0 | Some d \<Rightarrow> unat (es_bundle_bytes (ed_summary d))) + length evidence + length bytes))"
proof -
  obtain y a where a: "validate_root io s = (y, a)" by fastforce
  have sa: "same_store s a" using keepsD [OF keeps_root(1) a] .
  have va: "view (ls_world a) = view (ls_world s)" using root_files(1) [OF io, of s] a by simp
  consider (early) "isl x" "t = a"
    | (late) evidence m bytes n where "put_encode json r = Inr evidence" "build_manifest json r evidence (ls_package_version a) = Some (Inr (m, bytes))"
        "put_room r m a = Inr n"
        "port_bind (ensure_event_directory io (ir_event_id r)) (\<lambda>event_dir.
           port_bind (commit_revision io event_dir (ir_revision r) evidence bytes) (\<lambda>_ s.
             (Inr (ed_summary (detail_from_revision r n)), put_index r m n s))) a = (x, t)"
    using put a by (auto simp: store_put_def rbind_Inr_conv split: sum.splits option.splits prod.splits)
  then show ?thesis
  proof cases
    case early
    then show ?thesis using va by (simp add: before_def after_def)
  next
    case late
    obtain p c where p: "ensure_event_directory io (ir_event_id r) a = (p, c)" by fastforce
    have vc: "view (ls_world c) = view (ls_world s)" using root_files(3) [OF io, of "ir_event_id r" a] p va by simp
    show ?thesis
    proof (cases p)
      case (Inl e)
      then show ?thesis using late(4) p vc by (auto simp: port_bind_def before_def after_def)
    next
      case (Inr event_dir)
      then have dir: "event_dir = ls_root s @ [Normal (event_id_display (ir_event_id r))]"
        using p sa by (auto simp: ensure_event_directory_def Let_def event_directory_def same_store_def port_bind_def
            split: prod.splits sum.splits EvidenceIoError.splits)
      have target: "event_dir @ [Normal (hex16 (ir_revision r))] = revision_directory (ls_root s) r"
        by (simp add: dir revision_directory_def)
      obtain q d where q: "commit_revision io event_dir (ir_revision r) evidence bytes c = (q, d)" by fastforce
      obtain k where k: "case q of Inr _ \<Rightarrow> agree_off (temporary_directory io event_dir (ir_revision r) k)
            (with_revision (revision_directory (ls_root s) r) evidence bytes (view (ls_world s))) (view (ls_world d))
          | Inl e \<Rightarrow> agree_off (temporary_directory io event_dir (ir_revision r) k) (view (ls_world s)) (view (ls_world d)) \<or>
              e = StoreIo \<and> agree_off (temporary_directory io event_dir (ir_revision r) k)
                (with_revision (revision_directory (ls_root s) r) evidence bytes (view (ls_world s))) (view (ls_world d))"
        using commit_files [OF io q] unfolding Let_def target vc by blast
      have wd: "ls_world t = ls_world d"
        using late(4) p Inr q by (cases q) (auto simp: port_bind_def put_index_def Let_def)
      have unchanged: "agree_off (temporary_directory io event_dir (ir_revision r) k) (view (ls_world s)) (view (ls_world d)) \<Longrightarrow> after = before"
        and stored: "agree_off (temporary_directory io event_dir (ir_revision r) k)
            (with_revision (revision_directory (ls_root s) r) evidence bytes (view (ls_world s))) (view (ls_world d)) \<Longrightarrow>
          after = with_revision (revision_directory (ls_root s) r) evidence bytes before"
        using stored_files_agree [of io "ls_root s" _ _ k] stored_files_revision
        by (simp_all add: before_def after_def wd dir)
      have enc: "ej_revision_to_vec json r = Inr evidence"
        using late(1) by (auto simp: put_encode_def rbind_Inr_conv split: if_splits)
      note desc = build_manifest_describes [OF late(2)]
      have n: "unat n = (case bt_get (ls_index s) (ir_event_id r) of
            None \<Rightarrow> 0 | Some d \<Rightarrow> unat (es_bundle_bytes (ed_summary d))) + length evidence + length bytes"
        using late(3) sa desc(2)
        by (auto simp: put_room_def Let_def rbind_Inr_conv same_store_def split: if_splits option.splits dest!: checked_add_unat)
      show ?thesis
      proof (cases q)
        case (Inl e)
        then have "x = Inl e" using late(4) p \<open>p = Inr event_dir\<close> q by (simp add: port_bind_def)
        with k Inl unchanged stored enc desc(1) show ?thesis by auto
      next
        case (Inr ok)
        then have "x = Inr (ed_summary (detail_from_revision r n))" using late(4) p \<open>p = Inr event_dir\<close> q by (simp add: port_bind_def)
        with k Inr stored enc desc(1) n show ?thesis by auto
      qed
    qed
  qed
qed

text \<open>A file system in memory that keeps the promise.\<close>

record MemoryWorld =
  mw_files :: "(path \<times> u8 list) list"
  mw_dirs :: "path list"

definition moved_path :: "path \<Rightarrow> path \<Rightarrow> path \<Rightarrow> path" where
  "moved_path p p' q = (if below p q then p' @ drop (length p) q else q)"

definition memory_io :: "MemoryWorld EvidenceIo" where
  "memory_io =
     \<lparr>io_checkpoint = (\<lambda>_ w. (Inr (), w)),
      io_metadata = (\<lambda>p w. (if p \<in> set (mw_dirs w) then Inr \<lparr>ev_file_type = EfDirectory, ev_mode = 448, ev_uid = 0, ev_length = 0\<rparr>
        else case map_of (mw_files w) p of
          None \<Rightarrow> Inl EvNotFound
        | Some b \<Rightarrow> Inr \<lparr>ev_file_type = EfFile, ev_mode = 384, ev_uid = 0, ev_length = of_nat (length b)\<rparr>, w)),
      io_read_directory = (\<lambda>p w. (Inr (filter (\<lambda>q. length q = Suc (length p) \<and> below p q) (mw_dirs w @ map fst (mw_files w))), w)),
      io_read_file = (\<lambda>p w. (ok_or EvNotFound (map_of (mw_files w) p), w)),
      io_create_directory = (\<lambda>p _ w. if p \<in> set (mw_dirs w) \<or> list_ex (\<lambda>f. below p (fst f)) (mw_files w) then (Inl EvAlreadyExists, w)
        else (Inr (), w\<lparr>mw_dirs := p # mw_dirs w\<rparr>)),
      io_write_file = (\<lambda>p b _ w. if map_of (mw_files w) p \<noteq> None then (Inl EvAlreadyExists, w)
        else (Inr (), w\<lparr>mw_files := (p, b) # mw_files w\<rparr>)),
      io_sync_directory = (\<lambda>_ w. (Inr (), w)),
      io_rename_noreplace = (\<lambda>p p' w. if p' \<in> set (mw_dirs w) \<or> list_ex (\<lambda>f. below p' (fst f)) (mw_files w) \<or> below p p'
        then (Inl EvAlreadyExists, w)
        else (Inr (), w\<lparr>mw_files := map (\<lambda>(q, b). (moved_path p p' q, b)) (mw_files w), mw_dirs := map (moved_path p p') (mw_dirs w)\<rparr>)),
      io_remove_private_directory = (\<lambda>p w. (Inr (), w\<lparr>mw_files := filter (\<lambda>f. \<not> below p (fst f)) (mw_files w),
        mw_dirs := filter (\<lambda>q. \<not> below p q) (mw_dirs w)\<rparr>)),
      io_remove_event_directory = (\<lambda>p w. (Inr (), w\<lparr>mw_files := filter (\<lambda>f. \<not> below p (fst f)) (mw_files w),
        mw_dirs := filter (\<lambda>q. \<not> below p q) (mw_dirs w)\<rparr>)),
      io_capacity = (\<lambda>_ w. (Inr \<lparr>sp_total_bytes = 10 ^ 12, sp_available_bytes = 10 ^ 11\<rparr>, w)),
      io_geteuid = 0, io_process_id = ''1'', io_next_sequence = (\<lambda>w. (1, w))\<rparr>"

lemma map_of_moved:
  assumes "\<not> list_ex (\<lambda>f. below p' (fst f)) fs"
  shows "map_of (map (\<lambda>(q, b). (moved_path p p' q, b)) fs) =
    (\<lambda>q. if below p' q then map_of fs (p @ drop (length p') q) else if below p q then None else map_of fs q)"
proof
  fix q
  show "map_of (map (\<lambda>(q, b). (moved_path p p' q, b)) fs) q =
    (if below p' q then map_of fs (p @ drop (length p') q) else if below p q then None else map_of fs q)"
    using assms
  proof (induction fs)
    case (Cons f fs)
    obtain k b where f: "f = (k, b)" by fastforce
    have k: "\<not> below p' k" using Cons.prems by (simp add: f)
    have "moved_path p p' k = q \<longleftrightarrow> (if below p' q then k = p @ drop (length p') q else if below p q then False else k = q)"
      using k by (auto simp: moved_path_def elim!: belowE) (metis below_append)
    then show ?case using Cons by (cases "below p' q"; cases "below p q") (auto simp: f)
  qed simp
qed

lemma map_of_absent: "\<not> list_ex (\<lambda>f. below p (fst f)) fs \<Longrightarrow> map_of fs (p @ q) = None"
  by (induction fs) auto

lemma map_of_removed: "\<not> below p q \<Longrightarrow> map_of (filter (\<lambda>f. \<not> below p (fst f)) fs) q = map_of fs q"
  by (induction fs) auto

lemma memory_files: "evidence_files memory_io (\<lambda>w. map_of (mw_files w))"
  unfolding evidence_files_def
  by (auto simp: memory_io_def map_of_absent map_of_moved map_of_removed)

definition memory_store :: "MemoryWorld LinuxEvidenceStore" where
  "memory_store = \<lparr>ls_world = \<lparr>mw_files = [], mw_dirs = [[RootDir, Normal ''ev'']]\<rparr>, ls_root = [RootDir, Normal ''ev''],
     ls_package_version = ''1'', ls_index = [], ls_health = NO_HEALTH\<rparr>"

lemma put_index_steps:
  assumes "store_inv s" "store_put io json r s = Some (x, t)"
  shows "store_inv t \<and>
    (case x of
       Inl e \<Rightarrow> ls_index t = ls_index s \<and> ls_health t = ls_health s
     | Inr summary \<Rightarrow>
         ir_revision r = (case bt_get (ls_index s) (ir_event_id r) of None \<Rightarrow> 1 | Some d \<Rightarrow> saturating_add (ir_revision (ed_latest d)) 1)
         \<and> store_get (ir_event_id r) t = Inr \<lparr>ed_summary = summary, ed_latest = r\<rparr>
         \<and> (\<forall>e. e \<noteq> ir_event_id r \<longrightarrow> store_get e t = store_get e s)
         \<and> unat (es_bundle_bytes summary) \<le> 2 ^ 24 \<and> unat (eh_total_bytes (ls_health t)) \<le> 2 ^ 30)"
proof (cases x)
  case (Inl e)
  with put_steps [OF assms(2)] have "same_store s t" by simp
  with assms(1) Inl show ?thesis by (simp add: store_inv_same) (simp add: same_store_def)
next
  case (Inr summary)
  with put_steps [OF assms(2)] obtain u manifest n where u: "same_store s u" "put_check r u = Inr ()" "put_room r manifest u = Inr n"
    "summary = ed_summary (detail_from_revision r n)" "t = put_index r manifest n u" by auto
  have "store_inv u" using u(1) assms(1) by (simp add: store_inv_same)
  note ok = put_index_ok [OF this u(3)]
  have index: "ls_index u = ls_index s" using u(1) by (simp add: same_store_def)
  have get: "store_get e t = (if e = ir_event_id r then Inr (detail_from_revision r n) else store_get e s)" for e
    using u(5) index by (simp add: store_get_def put_index_def Let_def bt_get_insert)
  have "ir_revision r = (case bt_get (ls_index s) (ir_event_id r) of None \<Rightarrow> 1 | Some d \<Rightarrow> saturating_add (ir_revision (ed_latest d)) 1)"
    using u(2) index by (auto simp: put_check_def Let_def rbind_Inr_conv split: if_splits)
  moreover have "detail_from_revision r n = \<lparr>ed_summary = summary, ed_latest = r\<rparr>" using u(4) by (simp add: detail_from_revision_def)
  ultimately show ?thesis using ok get u(4,5) Inr by simp
qed


lemma memory_put:
  "\<exists>t. store_put memory_io easy_codec (easy_revision 1) memory_store = Some (Inr (ed_summary (detail_from_revision (easy_revision 1) 4)), t)"
proof -
  let ?root = "[RootDir, Normal ''ev'']"
  have root: "validate_root memory_io memory_store = (Inr (), memory_store)"
    by (simp add: validate_root_def port_bind_def io_or_def io_attempt_def memory_io_def memory_store_def private_directory_def)
  have check: "put_check (easy_revision 1) memory_store = Inr ()"
    using easy_revision_valid [of 1] by (simp add: put_check_def memory_store_def easy_revision_def)
  have encode: "put_encode easy_codec (easy_revision 1) = Inr [1]"
    by (simp add: put_encode_def easy_codec_def try_from_usize_def)
  have room: "put_room (easy_revision 1) ((first_manifest easy_codec (easy_revision 1) [1] ''1'' 1)\<lparr>em_total_bytes := 4\<rparr>) memory_store = Inr 4"
    by (simp add: put_room_def memory_store_def NO_HEALTH_def checked_add_def EVIDENCE_MAX_EVENTS_def EVIDENCE_MAX_STORE_BYTES_def)
  have version: "ls_package_version memory_store = ''1''" by (simp add: memory_store_def)
  let ?d = "event_directory (ir_event_id (easy_revision 1)) memory_store"
  let ?s = "memory_store\<lparr>ls_world := \<lparr>mw_files = [], mw_dirs = [?d, ?root]\<rparr>\<rparr>"
  have dir: "ensure_event_directory memory_io (ir_event_id (easy_revision 1)) memory_store = (Inr ?d, ?s)"
    by (simp add: ensure_event_directory_def Let_def event_directory_def io_attempt_def io_or_def port_bind_def memory_io_def memory_store_def)
  have ne: "hex16 1 \<noteq> ''.tmp-'' @ n" for n
    by (simp add: hex16_def upt_rec HEX_def)
  have "fst (commit_revision memory_io (?root @ [c]) 1 [1] [1, 2, 3] (memory_store\<lparr>ls_world := \<lparr>mw_files = [], mw_dirs = [?root @ [c], ?root]\<rparr>\<rparr>)) = Inr ()" for c
    using ne
    by (simp add: commit_revision_def Let_def publish_revision_def io_attempt_def io_or_def port_bind_def memory_io_def temporary_directory_def
        below_def memory_store_def)
  moreover have "?d = ?root @ [Normal (event_id_display (ir_event_id (easy_revision 1)))]"
    by (simp add: event_directory_def memory_store_def)
  ultimately have "fst (commit_revision memory_io ?d 1 [1] [1, 2, 3] ?s) = Inr ()" by simp
  then obtain u where "commit_revision memory_io ?d 1 [1] [1, 2, 3] ?s = (Inr (), u)" by (metis prod.exhaust_sel)
  moreover have "ir_revision (easy_revision 1) = 1" by (simp add: easy_revision_def)
  ultimately show ?thesis
    using room check encode easy_manifest dir unfolding store_put_def root by (simp add: version port_bind_def)
qed

lemma memory_store_inv: "store_inv memory_store"
  by (simp add: store_inv_def memory_store_def NO_HEALTH_def index_bytes_def)


section \<open>Lost revisions\<close>

text \<open>Offering revisions one after the other, and the number of the revision the store waits for.\<close>

fun put_each ::
  "'w EvidenceIo \<Rightarrow> EvidenceCodec \<Rightarrow> IncidentRevisionV1 list \<Rightarrow> 'w LinuxEvidenceStore \<Rightarrow>
   ((EvidenceStoreError, EvidenceSummaryV1) result list \<times> 'w LinuxEvidenceStore) option" where
  "put_each io json [] s = Some ([], s)"
| "put_each io json (r # rs) s =
     (case store_put io json r s of
        None \<Rightarrow> None
      | Some (x, t) \<Rightarrow> map_option (\<lambda>(xs, u). (x # xs, u)) (put_each io json rs t))"

definition awaited_revision :: "'w LinuxEvidenceStore \<Rightarrow> EventId \<Rightarrow> nat" where
  "awaited_revision s e = (case bt_get (ls_index s) e of None \<Rightarrow> 1 | Some d \<Rightarrow> unat (ir_revision (ed_latest d)) + 1)"

definition root_in_order :: "'w EvidenceIo \<Rightarrow> path \<Rightarrow> bool" where
  "root_in_order io root \<longleftrightarrow> (\<forall>w. \<exists>m w'. io_metadata io root w = (Inr m, w') \<and> private_directory io m)"

lemma awaited_check:
  assumes "awaited_revision s (ir_event_id r) < unat (ir_revision r)"
  shows "put_check r s = Inl (if incident_revision_validate r = Inr () then RevisionSequence else InvalidRevision)"
proof -
  let ?expected = "case bt_get (ls_index s) (ir_event_id r) of None \<Rightarrow> 1 | Some detail \<Rightarrow> saturating_add (ir_revision (ed_latest detail)) 1"
  have "unat ?expected = awaited_revision s (ir_event_id r)"
    using assms
    by (auto simp: awaited_revision_def saturating_add_unat min_def split: option.splits)
      (use unat_lt_64 [of "ir_revision r"] in linarith)
  then have "ir_revision r \<noteq> ?expected" "\<not> ir_revision r < ?expected" using assms by (auto simp: word_less_nat_alt)
  then show ?thesis
    by (cases "incident_revision_validate r") (simp_all add: put_check_def Let_def)
qed

lemma refused_put:
  fixes s :: "'w LinuxEvidenceStore"
  assumes "awaited_revision s (ir_event_id r) < unat (ir_revision r)"
  shows "\<exists>e t. store_put io json r s = Some (Inl e, t) \<and> same_store s t \<and> t = snd (validate_root io s) \<and>
    e \<in> {RevisionSequence, InvalidRevision, UnsafeRoot} \<and>
    (root_in_order io (ls_root s) \<and> incident_revision_validate r = Inr () \<longrightarrow> e = RevisionSequence)"
proof -
  obtain x a where a: "validate_root io s = (x, a)" by fastforce
  have sa: "same_store s a" using keepsD [OF keeps_root(1) a] .
  then have "awaited_revision a (ir_event_id r) < unat (ir_revision r)" using assms by (simp add: awaited_revision_def same_store_def)
  note check = awaited_check [OF this]
  have root: "x = Inl e \<Longrightarrow> e = UnsafeRoot" "root_in_order io (ls_root s) \<Longrightarrow> x = Inr ()" for e
    using a unfolding validate_root_def port_bind_def io_or_def io_attempt_def root_in_order_def port_lift_def
    by (auto split: prod.splits sum.splits if_splits) (metis Pair_inject sum.inject(2) sum.distinct(1))+
  show ?thesis
    using sa a check root by (cases x) (auto simp: store_put_def)
qed

text \<open>
  \<^bold>\<open>C31.\<close> A lost revision loses the rest of its incident, its closing included. Once a revision of an event
  has not been stored, be it the first (the event is unknown) or a later one, every revision after the
  missing one is refused: each call returns, with an error, whatever the file system and the encoder
  do, and neither index nor accounting nor any file changes. As long as the root directory is in order
  and the offered revisions are valid, the error is \<open>RevisionSequence\<close> every time. (The recorder,
  which has moved on, never offers the missing revision again.)
\<close>

theorem lost_revision_blocks_incident:
  fixes s :: "'w LinuxEvidenceStore"
  assumes "list_all (\<lambda>r. ir_event_id r = e \<and> awaited_revision s e < unat (ir_revision r)) rs"
  shows "\<exists>xs t. put_each io json rs s = Some (xs, t) \<and> ls_index t = ls_index s \<and> ls_health t = ls_health s \<and>
    length xs = length rs \<and> set xs \<subseteq> {Inl RevisionSequence, Inl InvalidRevision, Inl UnsafeRoot} \<and>
    (root_in_order io (ls_root s) \<and> list_all (\<lambda>r. incident_revision_validate r = Inr ()) rs \<longrightarrow>
       xs = replicate (length rs) (Inl RevisionSequence)) \<and>
    (evidence_files io view \<longrightarrow> view (ls_world t) = view (ls_world s))"
proof -
  have "\<exists>xs t. put_each io json rs s = Some (xs, t) \<and> same_store s t \<and>
    length xs = length rs \<and> set xs \<subseteq> {Inl RevisionSequence, Inl InvalidRevision, Inl UnsafeRoot} \<and>
    (root_in_order io (ls_root s) \<and> list_all (\<lambda>r. incident_revision_validate r = Inr ()) rs \<longrightarrow>
       xs = replicate (length rs) (Inl RevisionSequence)) \<and>
    (evidence_files io view \<longrightarrow> view (ls_world t) = view (ls_world s))"
    using assms
  proof (induction rs arbitrary: s)
    case (Cons r rs)
    then have "awaited_revision s (ir_event_id r) < unat (ir_revision r)" by simp
    from refused_put [OF this, of io json] obtain err t where t: "store_put io json r s = Some (Inl err, t)" "same_store s t"
      "t = snd (validate_root io s)" "err \<in> {RevisionSequence, InvalidRevision, UnsafeRoot}"
      "root_in_order io (ls_root s) \<and> incident_revision_validate r = Inr () \<longrightarrow> err = RevisionSequence" by blast
    have "awaited_revision t e = awaited_revision s e" using t(2) by (simp add: awaited_revision_def same_store_def)
    with Cons.prems have "list_all (\<lambda>r. ir_event_id r = e \<and> awaited_revision t e < unat (ir_revision r)) rs" by simp
    from Cons.IH [OF this] obtain xs u where u: "put_each io json rs t = Some (xs, u)" "same_store t u"
      "length xs = length rs" "set xs \<subseteq> {Inl RevisionSequence, Inl InvalidRevision, Inl UnsafeRoot}"
      "root_in_order io (ls_root t) \<and> list_all (\<lambda>r. incident_revision_validate r = Inr ()) rs \<longrightarrow> xs = replicate (length rs) (Inl RevisionSequence)"
      "evidence_files io view \<longrightarrow> view (ls_world u) = view (ls_world t)" by blast
    have root: "ls_root t = ls_root s" using t(2) by (simp add: same_store_def)
    have files: "evidence_files io view \<Longrightarrow> view (ls_world t) = view (ls_world s)" unfolding t(3) by (rule root_files(1))
    show ?case
    proof (intro exI conjI)
      show "put_each io json (r # rs) s = Some (Inl err # xs, u)" using t(1) u(1) by simp
      show "same_store s u" using t(2) u(2) by (rule same_store_trans)
      show "evidence_files io view \<longrightarrow> view (ls_world u) = view (ls_world s)" using files u(6) by metis
      show "root_in_order io (ls_root s) \<and> list_all (\<lambda>r. incident_revision_validate r = Inr ()) (r # rs) \<longrightarrow>
          Inl err # xs = replicate (length (r # rs)) (Inl RevisionSequence)" using t(5) u(5) unfolding root by simp
    qed (use t(4) u(3,4) in auto)
  qed simp
  then show ?thesis unfolding same_store_def by blast
qed

theorem lost_revision_blocks_incident_witness:
  "\<exists>t u. put_each easy_io easy_codec [easy_revision 2, easy_revision 3] easy_store = Some ([Inl RevisionSequence, Inl RevisionSequence], t) \<and>
     ls_index t = [] \<and>
     put_each easy_io easy_codec [easy_revision 3, easy_revision 4] easy_one = Some ([Inl RevisionSequence, Inl RevisionSequence], u) \<and>
     ls_index u = ls_index easy_one"
proof -
  have root: "root_in_order easy_io (ls_root easy_store)" "root_in_order easy_io (ls_root easy_one)"
    by (simp_all add: root_in_order_def easy_io_def easy_one_def easy_store_def private_directory_def)
  have rev: "ir_event_id (easy_revision n) = EventId (replicate 16 7)" "ir_revision (easy_revision n) = n" for n
    by (simp_all add: easy_revision_def)
  have awaited: "awaited_revision easy_store (EventId (replicate 16 7)) = 1" "awaited_revision easy_one (EventId (replicate 16 7)) = 2"
    by (simp add: awaited_revision_def easy_store_def) (simp add: awaited_revision_def easy_one_def rev)
  have none: "ls_index easy_store = []" by (simp add: easy_store_def)
  obtain t where "put_each easy_io easy_codec [easy_revision 2, easy_revision 3] easy_store = Some ([Inl RevisionSequence, Inl RevisionSequence], t)"
    "ls_index t = ls_index easy_store"
    using lost_revision_blocks_incident [where s = easy_store and e = "EventId (replicate 16 7)" and rs = "[easy_revision 2, easy_revision 3]"
        and io = easy_io and json = easy_codec] root(1) easy_revision_valid [of 2] easy_revision_valid [of 3]
    by (auto simp: rev awaited simp del: put_each.simps)
  moreover obtain u where "put_each easy_io easy_codec [easy_revision 3, easy_revision 4] easy_one = Some ([Inl RevisionSequence, Inl RevisionSequence], u)"
    "ls_index u = ls_index easy_one"
    using lost_revision_blocks_incident [where s = easy_one and e = "EventId (replicate 16 7)" and rs = "[easy_revision 3, easy_revision 4]"
        and io = easy_io and json = easy_codec] root(2) easy_revision_valid [of 3] easy_revision_valid [of 4]
    by (auto simp: rev awaited simp del: put_each.simps)
  ultimately show ?thesis using none by auto
qed

end
