(* ===== verification/Output.thy ===== *)
theory Output
  imports EvidenceStore
begin

text \<open>
  Alerts and the output worker (\<open>l2-loop-agent/src/alert.rs\<close>, \<open>l2-loop-agent/src/incident_output.rs\<close>): the journal
  payload of an alert, the fallback of the alert sink, the backends, the processing of a write job, and the
  worker task with its bounded queue as a step relation. The journal socket, standard error, the JSON
  encoder and the backend behind the worker are parameters.
\<close>

section \<open>Definitions\<close>

subsection \<open>Alerts\<close>

definition ALERT_SCHEMA_VERSION :: u16 where [simp]: "ALERT_SCHEMA_VERSION = 1"

record SanitizedAlertV1 =
  sa_event_id :: EventId
  sa_evidence_status :: EvidenceStatus
  sa_revision :: u64
  sa_transition_sequence :: u64
  sa_code :: AlertCode
  sa_severity :: AlertSeverity
  sa_previous_state :: DetectionState
  sa_current_state :: DetectionState
  sa_transition_reason :: DetectionTransitionReason
  sa_interface :: InterfaceName
  sa_ifindex :: u32
  sa_generation :: u64
  sa_message :: string

record 'w AlertIo =
  al_send_journal :: "string \<Rightarrow> ('w, string, unit) port"
  al_write_stderr :: "string \<Rightarrow> ('w, string, unit) port"

text \<open>\<open>serde_json\<close> on the values an alert holds: \<open>JsonAlert\<close> as a whole, a string, and the four enums.\<close>

record AlertCodec =
  aj_alert_to_vec :: "u16 \<Rightarrow> string \<Rightarrow> SanitizedAlertV1 \<Rightarrow> (string, string) result"
  aj_string :: "string \<Rightarrow> (string, string) result"
  aj_evidence_status :: "EvidenceStatus \<Rightarrow> (string, string) result"
  aj_code :: "AlertCode \<Rightarrow> (string, string) result"
  aj_state :: "DetectionState \<Rightarrow> (string, string) result"
  aj_reason :: "DetectionTransitionReason \<Rightarrow> (string, string) result"

datatype AlertPublishOutcome = PublishedJournald | PublishedStderrJson

record 'w LinuxAlertSink =
  as_io :: 'w
  as_stderr_fallback :: bool
  as_published_health_codes :: "string set"

definition alert_sink_new :: "'w \<Rightarrow> 'w LinuxAlertSink" where
  "alert_sink_new io = \<lparr>as_io = io, as_stderr_fallback = False, as_published_health_codes = {}\<rparr>"

text \<open>A call of the adapter of the sink.\<close>

definition sink_call :: "('w, 'e, 'a) port \<Rightarrow> ('w LinuxAlertSink, 'e, 'a) port" where
  "sink_call call sink = (case call (as_io sink) of (x, w) \<Rightarrow> (x, sink\<lparr>as_io := w\<rparr>))"

definition newline :: char where
  "newline = CHR 0x0A"

definition validate_alert :: "SanitizedAlertV1 \<Rightarrow> (string, unit) result" where
  "validate_alert alert =
     (if sa_revision alert = 0 \<or> sa_transition_sequence alert = 0 \<or> sa_ifindex alert = 0 \<or> sa_generation alert = 0
         \<or> sa_severity alert \<noteq> severity (sa_code alert) \<or> sa_message alert = [] \<or> 96 < length (sa_message alert)
         \<or> \<not> list_all (\<lambda>c. (of_char c :: nat) < 128) (sa_message alert)
         \<or> list_ex (\<lambda>c. c = newline \<or> c = CHR 0x0D \<or> c = CHR ''='') (sa_message alert)
      then Inl ''invalid sanitized alert'' else Inr ())"

fun journal_priority :: "AlertSeverity \<Rightarrow> nat" where
  "journal_priority SevWarning = 4"
| "journal_priority SevNotice = 5"
| "journal_priority SevInformation = 6"

text \<open>\<open>{}\<close> of an unsigned integer.\<close>

fun decimal :: "nat \<Rightarrow> string" where
  "decimal n = (if n < 10 then [char_of (48 + n)] else decimal (n div 10) @ [char_of (48 + n mod 10)])"

declare decimal.simps [simp del]

text \<open>\<open>trim_matches('"')\<close>.\<close>

definition trim_quotes :: "string \<Rightarrow> string" where
  "trim_quotes s = rev (dropWhile (\<lambda>c. c = CHR 0x22) (rev (dropWhile (\<lambda>c. c = CHR 0x22) s)))"

definition enum_json :: "(string, string) result \<Rightarrow> string" where
  "enum_json encoded = trim_quotes (case encoded of Inr text \<Rightarrow> text | Inl _ \<Rightarrow> ''unknown'')"

text \<open>The fields of the journal entry, each followed by a newline in the payload.\<close>

definition journal_fields :: "AlertCodec \<Rightarrow> SanitizedAlertV1 \<Rightarrow> (string \<times> string) list" where
  "journal_fields json alert =
     [(''MESSAGE'', sa_message alert),
      (''PRIORITY'', decimal (journal_priority (sa_severity alert))),
      (''SYSLOG_IDENTIFIER'', ''l2-loopd''),
      (''L2_LOOP_EVENT_ID'', event_id_display (sa_event_id alert)),
      (''L2_LOOP_EVIDENCE_STATUS'', enum_json (aj_evidence_status json (sa_evidence_status alert))),
      (''L2_LOOP_REVISION'', decimal (unat (sa_revision alert))),
      (''L2_LOOP_TRANSITION_SEQUENCE'', decimal (unat (sa_transition_sequence alert))),
      (''L2_LOOP_CODE'', enum_json (aj_code json (sa_code alert))),
      (''L2_LOOP_PREVIOUS_STATE'', enum_json (aj_state json (sa_previous_state alert))),
      (''L2_LOOP_CURRENT_STATE'', enum_json (aj_state json (sa_current_state alert))),
      (''L2_LOOP_REASON'', enum_json (aj_reason json (sa_transition_reason alert))),
      (''L2_LOOP_INTERFACE'', as_str (sa_interface alert)),
      (''L2_LOOP_IFINDEX'', decimal (unat (sa_ifindex alert))),
      (''L2_LOOP_GENERATION'', decimal (unat (sa_generation alert)))]"

definition journal_payload :: "AlertCodec \<Rightarrow> SanitizedAlertV1 \<Rightarrow> string" where
  "journal_payload json alert = concat (map (\<lambda>(name, value). name @ CHR ''='' # value @ [newline]) (journal_fields json alert))"

definition write_json :: "'w AlertIo \<Rightarrow> AlertCodec \<Rightarrow> SanitizedAlertV1 \<Rightarrow> ('w LinuxAlertSink, string, AlertPublishOutcome) port" where
  "write_json io json alert =
     port_bind (port_lift (aj_alert_to_vec json ALERT_SCHEMA_VERSION (event_id_display (sa_event_id alert)) alert)) (\<lambda>bytes.
     port_bind (sink_call (al_write_stderr io (bytes @ [newline]))) (\<lambda>_.
     port_return PublishedStderrJson))"

definition sink_publish :: "'w AlertIo \<Rightarrow> AlertCodec \<Rightarrow> SanitizedAlertV1 \<Rightarrow> ('w LinuxAlertSink, string, AlertPublishOutcome) port" where
  "sink_publish io json alert sink =
     (case validate_alert alert of
        Inl e \<Rightarrow> (Inl e, sink)
      | Inr _ \<Rightarrow>
          if as_stderr_fallback sink then write_json io json alert sink
          else
            (case sink_call (al_send_journal io (journal_payload json alert)) sink of
               (Inr _, sink) \<Rightarrow> (Inr PublishedJournald, sink)
             | (Inl _, sink) \<Rightarrow> write_json io json alert (sink\<lparr>as_stderr_fallback := True\<rparr>)))"

definition publish_output_health :: "'w AlertIo \<Rightarrow> AlertCodec \<Rightarrow> string \<Rightarrow> 'w LinuxAlertSink \<Rightarrow> bool \<times> 'w LinuxAlertSink" where
  "publish_output_health io json code sink =
     (if code = [] \<or> 64 < length code
         \<or> \<not> list_all (\<lambda>byte. is_ascii_uppercase byte \<or> is_ascii_digit byte \<or> byte = CHR ''_'') code
         \<or> code \<in> as_published_health_codes sink
      then (False, sink)
      else
        (let line = CHR ''{'' # CHR 0x22 # ''schema_version'' @ CHR 0x22 # '':1,'' @ CHR 0x22 # ''kind'' @ CHR 0x22 # '':'' @ CHR 0x22
               # ''output_health'' @ CHR 0x22 # '','' @ CHR 0x22 # ''code'' @ CHR 0x22 # '':''
               @ (case aj_string json code of Inr text \<Rightarrow> text | Inl _ \<Rightarrow> CHR 0x22 # ''OUTPUT_UNAVAILABLE'' @ [CHR 0x22]) @ ''}'' @ [newline]
         in (case sink_call (al_write_stderr io line)
                    (sink\<lparr>as_published_health_codes := insert code (as_published_health_codes sink), as_stderr_fallback := True\<rparr>) of
               (x, sink) \<Rightarrow> (\<not> isl x, sink))))"

subsection \<open>Backends\<close>

definition OUTPUT_STORE_UNAVAILABLE :: string where "OUTPUT_STORE_UNAVAILABLE = ''OUTPUT_STORE_UNAVAILABLE''"
definition OUTPUT_QUEUE_FULL :: string where "OUTPUT_QUEUE_FULL = ''OUTPUT_QUEUE_FULL''"
definition OUTPUT_WORKER_FAILED :: string where "OUTPUT_WORKER_FAILED = ''OUTPUT_WORKER_FAILED''"

datatype IncidentOutputError = StoreUnavailable
datatype IncidentOutputSubmitError = QueueFull | SubmitClosed
datatype IncidentOutputShutdown = Drained | TimedOut | WorkerFailed

text \<open>
  \<open>IncidentOutputBackend\<close>. A call of it returns, panics, or (\<open>None\<close>) does not come back.
\<close>

datatype 'a call = Returned 'a | Panicked

record 'b IncidentOutputBackend =
  ob_persist :: "IncidentWriteJob \<Rightarrow> 'b \<Rightarrow> ((IncidentOutputError, unit) result \<times> 'b) call option"
  ob_alert :: "IncidentWriteJob \<Rightarrow> EvidenceStatus \<Rightarrow> 'b \<Rightarrow> (AlertSinkMode \<times> 'b) call option"

fun alert_message :: "AlertCode \<Rightarrow> string" where
  "alert_message AcStormConfirmed = ''passive L2 storm confirmed''"
| "alert_message AcExternalLoopSuspected = ''passive L2 loop relationship suspected''"
| "alert_message AcExternalLoopHighConfidence = ''passive L2 loop relationship high confidence''"
| "alert_message AcIncidentCooldown = ''passive L2 incident cooling down''"
| "alert_message AcIncidentClosed = ''passive L2 incident closed''"
| "alert_message AcGenerationEnded = ''passive L2 observation generation ended''"
| "alert_message AcOutputDegraded = ''passive L2 incident output degraded''"

text \<open>The alert both sinks build from a job.\<close>

definition alert_of_job :: "IncidentWriteJob \<Rightarrow> EvidenceStatus \<Rightarrow> SanitizedAlertV1" where
  "alert_of_job job status =
     (let revision = ij_revision job
      in \<lparr>sa_event_id = ir_event_id revision, sa_evidence_status = status, sa_revision = ir_revision revision,
          sa_transition_sequence = ir_transition_sequence revision, sa_code = ir_alert_code revision, sa_severity = ir_severity revision,
          sa_previous_state = ir_previous_state revision, sa_current_state = ir_current_state revision,
          sa_transition_reason = ir_transition_reason revision, sa_interface = ir_interface revision, sa_ifindex = ir_ifindex revision,
          sa_generation = ir_interface_generation revision, sa_message = alert_message (ir_alert_code revision)\<rparr>)"

definition alert_through_sink ::
  "'w AlertIo \<Rightarrow> AlertCodec \<Rightarrow> IncidentWriteJob \<Rightarrow> EvidenceStatus \<Rightarrow> 'w LinuxAlertSink \<Rightarrow> AlertSinkMode \<times> 'w LinuxAlertSink" where
  "alert_through_sink io json job status sink =
     (case sink_publish io json (alert_of_job job status) sink of
        (Inr PublishedJournald, sink) \<Rightarrow> (SinkJournald, sink)
      | (_, sink) \<Rightarrow> (SinkStderrJson, sink))"

text \<open>
  The implementations: a store with an alert sink, the store alone, the sink alone, and neither. The clock of
  \<open>persist_revision\<close> is a part of the world of the store.
\<close>

record ('s, 'a) StoredIncidentOutputBackend =
  sb_store :: "'s LinuxEvidenceStore"
  sb_alerts :: "'a LinuxAlertSink"

definition persist_call ::
  "'s EvidenceIo \<Rightarrow> EvidenceCodec \<Rightarrow> ('s \<Rightarrow> u64 option) \<Rightarrow> IncidentWriteJob \<Rightarrow> 's LinuxEvidenceStore \<Rightarrow>
   ((IncidentOutputError, unit) result \<times> 's LinuxEvidenceStore) call option" where
  "persist_call io json clock job store =
     map_option (\<lambda>(x, store). Returned (map_err StoreUnavailable x, store))
       (persist_revision io json (clock (ls_world store)) (ij_revision job) store)"

definition stored_backend ::
  "'s EvidenceIo \<Rightarrow> EvidenceCodec \<Rightarrow> ('s \<Rightarrow> u64 option) \<Rightarrow> 'a AlertIo \<Rightarrow> AlertCodec \<Rightarrow>
   ('s, 'a) StoredIncidentOutputBackend IncidentOutputBackend" where
  "stored_backend io json clock alert_io alert_json =
     \<lparr>ob_persist = (\<lambda>job b. map_option (\<lambda>c. case c of Returned (x, store) \<Rightarrow> Returned (x, b\<lparr>sb_store := store\<rparr>) | Panicked \<Rightarrow> Panicked)
          (persist_call io json clock job (sb_store b))),
      ob_alert = (\<lambda>job status b. case alert_through_sink alert_io alert_json job status (sb_alerts b) of
          (mode, sink) \<Rightarrow> Some (Returned (mode, b\<lparr>sb_alerts := sink\<rparr>)))\<rparr>"

definition store_backend ::
  "'s EvidenceIo \<Rightarrow> EvidenceCodec \<Rightarrow> ('s \<Rightarrow> u64 option) \<Rightarrow> 's LinuxEvidenceStore IncidentOutputBackend" where
  "store_backend io json clock =
     \<lparr>ob_persist = persist_call io json clock, ob_alert = (\<lambda>_ _ store. Some (Returned (SinkStderrJson, store)))\<rparr>"

definition sink_backend :: "'a AlertIo \<Rightarrow> AlertCodec \<Rightarrow> 'a LinuxAlertSink IncidentOutputBackend" where
  "sink_backend io json =
     \<lparr>ob_persist = (\<lambda>_ sink. Some (Returned (Inl StoreUnavailable, sink))),
      ob_alert = (\<lambda>job status sink. Some (Returned (alert_through_sink io json job status sink)))\<rparr>"

definition unavailable_backend :: "unit IncidentOutputBackend" where
  "unavailable_backend =
     \<lparr>ob_persist = (\<lambda>_ b. Some (Returned (Inl StoreUnavailable, b))), ob_alert = (\<lambda>_ _ b. Some (Returned (SinkStderrJson, b)))\<rparr>"

subsection \<open>The worker\<close>

definition update_health :: "bool \<Rightarrow> string option \<Rightarrow> bool \<Rightarrow> OutputHealth \<Rightarrow> OutputHealth" where
  "update_health store_available error dropped health =
     (let health = health\<lparr>oh_state := OutDegraded, oh_store_available := store_available, oh_last_error_code := error\<rparr>
      in if dropped then health\<lparr>oh_dropped_job_count := saturating_add (oh_dropped_job_count health) 1\<rparr> else health)"

text \<open>\<open>unavailable_health\<close>, which a reader of a poisoned health lock would get, is \<open>output_health_unavailable\<close>.\<close>

definition initial_health :: OutputHealth where
  "initial_health =
     \<lparr>oh_state = OutHealthy, oh_store_available = True, oh_corrupt_object_count = 0, oh_incomplete_object_count = 0,
      oh_unknown_object_count = 0, oh_alert_sink = SinkStderrJson, oh_last_error_code = None, oh_dropped_job_count = 0\<rparr>"

datatype WorkerPhase = Receiving | Draining | Finished | Aborted

record 'b OutputWorker =
  ow_queue :: "IncidentWriteJob list"
  ow_closed :: bool
  ow_current :: "IncidentWriteJob option"
  ow_phase :: WorkerPhase
  ow_shutdown :: bool
  ow_handles_gone :: bool
  ow_backend :: 'b
  ow_poisoned :: bool
  ow_health :: OutputHealth

definition start_with_health :: "'b \<Rightarrow> OutputHealth \<Rightarrow> 'b OutputWorker" where
  "start_with_health backend health =
     \<lparr>ow_queue = [], ow_closed = False, ow_current = None, ow_phase = Receiving, ow_shutdown = False, ow_handles_gone = False,
      ow_backend = backend, ow_poisoned = False, ow_health = health\<rparr>"

definition worker_start :: "'b \<Rightarrow> 'b OutputWorker" where
  "worker_start backend = start_with_health backend initial_health"

text \<open>\<open>try_submit\<close> through any handle.\<close>

definition try_submit :: "IncidentWriteJob \<Rightarrow> 'b OutputWorker \<Rightarrow> (IncidentOutputSubmitError, unit) result \<times> 'b OutputWorker" where
  "try_submit job w =
     (if ow_closed w then (Inl SubmitClosed, w\<lparr>ow_health := update_health False (Some OUTPUT_WORKER_FAILED) True (ow_health w)\<rparr>)
      else if INCIDENT_OUTPUT_QUEUE_CAPACITY \<le> length (ow_queue w)
      then (Inl QueueFull, w\<lparr>ow_health := update_health False (Some OUTPUT_QUEUE_FULL) True (ow_health w)\<rparr>)
      else (Inr (), w\<lparr>ow_queue := ow_queue w @ [job]\<rparr>))"

text \<open>The blocking part of \<open>process_job\<close>: a panic while the backend is locked poisons the lock for good.\<close>

definition blocking_job ::
  "'b IncidentOutputBackend \<Rightarrow> IncidentWriteJob \<Rightarrow> 'b OutputWorker \<Rightarrow>
   (((IncidentOutputError, unit) result \<times> AlertSinkMode) call \<times> 'b OutputWorker) option" where
  "blocking_job backend job w =
     (if ow_poisoned w then Some (Returned (Inl StoreUnavailable, SinkStderrJson), w)
      else
        (case ob_persist backend job (ow_backend w) of
           None \<Rightarrow> None
         | Some Panicked \<Rightarrow> Some (Panicked, w\<lparr>ow_poisoned := True\<rparr>)
         | Some (Returned (persisted, b)) \<Rightarrow>
             (case ob_alert backend job (if isl persisted then EvUnavailable else EvStored) b of
                None \<Rightarrow> None
              | Some Panicked \<Rightarrow> Some (Panicked, w\<lparr>ow_backend := b, ow_poisoned := True\<rparr>)
              | Some (Returned (mode, b)) \<Rightarrow> Some (Returned (persisted, mode), w\<lparr>ow_backend := b\<rparr>))))"

definition process_job :: "'b IncidentOutputBackend \<Rightarrow> IncidentWriteJob \<Rightarrow> 'b OutputWorker \<Rightarrow> 'b OutputWorker option" where
  "process_job backend job w =
     (case blocking_job backend job w of
        None \<Rightarrow> None
      | Some (Panicked, w) \<Rightarrow> Some (w\<lparr>ow_health := update_health False (Some OUTPUT_STORE_UNAVAILABLE) False (ow_health w)\<rparr>)
      | Some (Returned (persisted, alert_sink), w) \<Rightarrow>
          let health = (ow_health w)\<lparr>oh_alert_sink := alert_sink\<rparr>
          in Some (w\<lparr>ow_health := (if isl persisted then update_health False (Some OUTPUT_STORE_UNAVAILABLE) False health else health)\<rparr>))"

text \<open>
  The task between two suspension points. \<open>select!\<close> is biased, so a requested shutdown is seen before the
  next job; a job that was taken is finished first. \<open>None\<close>: the task waits, or its backend never returns.
\<close>

definition worker_poll :: "'b IncidentOutputBackend \<Rightarrow> 'b OutputWorker \<Rightarrow> 'b OutputWorker option" where
  "worker_poll backend w =
     (case ow_current w of
        Some job \<Rightarrow> map_option (\<lambda>w. w\<lparr>ow_current := None\<rparr>) (if ow_phase w \<in> {Finished, Aborted} then None else process_job backend job w)
      | None \<Rightarrow>
          (case ow_phase w of
             Receiving \<Rightarrow>
               if ow_shutdown w then Some (w\<lparr>ow_phase := Draining, ow_closed := True\<rparr>)
               else (case ow_queue w of
                       job # jobs \<Rightarrow> Some (w\<lparr>ow_current := Some job, ow_queue := jobs\<rparr>)
                     | [] \<Rightarrow> if ow_handles_gone w then Some (w\<lparr>ow_phase := Finished, ow_closed := True\<rparr>) else None)
           | Draining \<Rightarrow>
               (case ow_queue w of
                  job # jobs \<Rightarrow> Some (w\<lparr>ow_current := Some job, ow_queue := jobs\<rparr>)
                | [] \<Rightarrow> Some (w\<lparr>ow_phase := Finished\<rparr>))
           | _ \<Rightarrow> None))"

text \<open>
  \<open>shutdown\<close>: the request (dropping the worker object has the same effect on the task), and the report on
  the awaited task: \<open>None\<close> when the time is over, else how the task ended.
\<close>

definition shutdown_request :: "'b OutputWorker \<Rightarrow> 'b OutputWorker" where
  "shutdown_request w = w\<lparr>ow_shutdown := True\<rparr>"

definition shutdown_report :: "(unit, unit) result option \<Rightarrow> 'b OutputWorker \<Rightarrow> IncidentOutputShutdown \<times> 'b OutputWorker" where
  "shutdown_report ended w =
     (case ended of
        Some (Inr _) \<Rightarrow> (Drained, w)
      | Some (Inl _) \<Rightarrow> (WorkerFailed, w\<lparr>ow_health := update_health False (Some OUTPUT_WORKER_FAILED) False (ow_health w)\<rparr>)
      | None \<Rightarrow> (TimedOut, w\<lparr>ow_phase := Aborted, ow_closed := True, ow_queue := [],
                  ow_health := update_health False (Some OUTPUT_WORKER_FAILED) False (ow_health w)\<rparr>))"

text \<open>
  The worker among its clients. A job being processed when the task is aborted stays current for ever: the
  blocking call may still end, but nobody looks at its result.
\<close>

datatype WorkerEvent = Accepted IncidentWriteJob | Refused IncidentWriteJob | Taken IncidentWriteJob | Processed IncidentWriteJob bool
  | Lost "IncidentWriteJob list" | Internal

definition stored :: "((IncidentOutputError, unit) result \<times> AlertSinkMode) call \<Rightarrow> bool" where
  "stored r = (case r of Returned (persisted, _) \<Rightarrow> \<not> isl persisted | Panicked \<Rightarrow> False)"

inductive worker_run :: "'b IncidentOutputBackend \<Rightarrow> 'b OutputWorker \<Rightarrow> WorkerEvent list \<Rightarrow> 'b OutputWorker \<Rightarrow> bool"
  for backend w0 where
  run_start: "worker_run backend w0 [] w0"
| run_accept: "worker_run backend w0 es w \<Longrightarrow> \<not> ow_handles_gone w \<Longrightarrow> try_submit job w = (Inr (), w') \<Longrightarrow>
    worker_run backend w0 (es @ [Accepted job]) w'"
| run_refuse: "worker_run backend w0 es w \<Longrightarrow> \<not> ow_handles_gone w \<Longrightarrow> try_submit job w = (Inl e, w') \<Longrightarrow>
    worker_run backend w0 (es @ [Refused job]) w'"
| run_take: "worker_run backend w0 es w \<Longrightarrow> ow_current w = None \<Longrightarrow> worker_poll backend w = Some w' \<Longrightarrow> ow_current w' = Some job \<Longrightarrow>
    worker_run backend w0 (es @ [Taken job]) w'"
| run_process: "worker_run backend w0 es w \<Longrightarrow> ow_current w = Some job \<Longrightarrow> blocking_job backend job w = Some (r, v) \<Longrightarrow>
    worker_poll backend w = Some w' \<Longrightarrow> worker_run backend w0 (es @ [Processed job (stored r)]) w'"
| run_phase: "worker_run backend w0 es w \<Longrightarrow> ow_current w = None \<Longrightarrow> worker_poll backend w = Some w' \<Longrightarrow> ow_current w' = None \<Longrightarrow>
    worker_run backend w0 (es @ [Internal]) w'"
| run_shutdown: "worker_run backend w0 es w \<Longrightarrow> worker_run backend w0 (es @ [Internal]) (shutdown_request w)"
| run_abort: "worker_run backend w0 es w \<Longrightarrow> ow_phase w \<noteq> Finished \<Longrightarrow> shutdown_report None w = (report, w') \<Longrightarrow>
    worker_run backend w0 (es @ [Lost (ow_queue w)]) w'"
| run_handles: "worker_run backend w0 es w \<Longrightarrow> worker_run backend w0 (es @ [Internal]) (w\<lparr>ow_handles_gone := True\<rparr>)"

section \<open>The queue\<close>

fun accepted_jobs :: "WorkerEvent list \<Rightarrow> IncidentWriteJob list" where
  "accepted_jobs [] = []"
| "accepted_jobs (Accepted job # es) = job # accepted_jobs es"
| "accepted_jobs (_ # es) = accepted_jobs es"

fun processed_jobs :: "WorkerEvent list \<Rightarrow> (IncidentWriteJob \<times> bool) list" where
  "processed_jobs [] = []"
| "processed_jobs (Processed job ok # es) = (job, ok) # processed_jobs es"
| "processed_jobs (_ # es) = processed_jobs es"

fun refused_jobs :: "WorkerEvent list \<Rightarrow> IncidentWriteJob list" where
  "refused_jobs [] = []"
| "refused_jobs (Refused job # es) = job # refused_jobs es"
| "refused_jobs (_ # es) = refused_jobs es"

fun lost_jobs :: "WorkerEvent list \<Rightarrow> IncidentWriteJob list" where
  "lost_jobs [] = []"
| "lost_jobs (Lost jobs # es) = jobs @ lost_jobs es"
| "lost_jobs (_ # es) = lost_jobs es"

lemma accepted_append [simp]: "accepted_jobs (es @ es') = accepted_jobs es @ accepted_jobs es'"
  by (induction es rule: accepted_jobs.induct) auto

lemma processed_append [simp]: "processed_jobs (es @ es') = processed_jobs es @ processed_jobs es'"
  by (induction es rule: processed_jobs.induct) auto

lemma refused_append [simp]: "refused_jobs (es @ es') = refused_jobs es @ refused_jobs es'"
  by (induction es rule: refused_jobs.induct) auto

lemma lost_append [simp]: "lost_jobs (es @ es') = lost_jobs es @ lost_jobs es'"
  by (induction es rule: lost_jobs.induct) auto

definition in_flight :: "'b OutputWorker \<Rightarrow> IncidentWriteJob list" where
  "in_flight w = (case ow_current w of None \<Rightarrow> [] | Some job \<Rightarrow> [job])"

definition refused_count :: "WorkerEvent list \<Rightarrow> u64" where
  "refused_count es = ((\<lambda>n. saturating_add n 1) ^^ length (refused_jobs es)) 0"

definition worker_inv :: "WorkerEvent list \<Rightarrow> 'b OutputWorker \<Rightarrow> bool" where
  "worker_inv es w \<longleftrightarrow>
     accepted_jobs es = map fst (processed_jobs es) @ in_flight w @ ow_queue w @ lost_jobs es
     \<and> length (ow_queue w) \<le> INCIDENT_OUTPUT_QUEUE_CAPACITY
     \<and> (lost_jobs es \<noteq> [] \<longrightarrow> ow_phase w = Aborted)
     \<and> (ow_phase w = Aborted \<longrightarrow> ow_queue w = []) \<and> (ow_phase w = Finished \<longrightarrow> ow_queue w = [] \<and> ow_current w = None)
     \<and> (ow_phase w \<noteq> Receiving \<longrightarrow> ow_closed w)
     \<and> oh_dropped_job_count (ow_health w) = refused_count es
     \<and> (oh_state (ow_health w) = OutHealthy \<longleftrightarrow> refused_jobs es = [] \<and> list_all snd (processed_jobs es) \<and> ow_phase w \<noteq> Aborted)
     \<and> (oh_store_available (ow_health w) \<longleftrightarrow> oh_state (ow_health w) = OutHealthy)"

lemma update_health_fields [simp]:
  "oh_state (update_health a e d h) = OutDegraded" "oh_store_available (update_health a e d h) = a"
  "oh_dropped_job_count (update_health a e d h) = (if d then saturating_add (oh_dropped_job_count h) 1 else oh_dropped_job_count h)"
  by (simp_all add: update_health_def Let_def)

lemma blocking_job_frame:
  assumes "blocking_job backend job w = Some (r, v)"
  shows "ow_queue v = ow_queue w" "ow_closed v = ow_closed w" "ow_current v = ow_current w" "ow_phase v = ow_phase w"
    "ow_health v = ow_health w" "ow_shutdown v = ow_shutdown w"
  using assms by (auto simp: blocking_job_def split: if_splits option.splits call.splits)

lemma process_job_frame:
  assumes "process_job backend job w = Some w'"
  obtains r v where "blocking_job backend job w = Some (r, v)"
    "ow_queue w' = ow_queue w" "ow_closed w' = ow_closed w" "ow_current w' = ow_current w" "ow_phase w' = ow_phase w" "ow_shutdown w' = ow_shutdown w"
    "oh_dropped_job_count (ow_health w') = oh_dropped_job_count (ow_health w)"
    "oh_state (ow_health w') = (if stored r then oh_state (ow_health w) else OutDegraded)"
    "oh_store_available (ow_health w') \<longleftrightarrow> stored r \<and> oh_store_available (ow_health w)"
proof -
  obtain r v where b: "blocking_job backend job w = Some (r, v)" using assms by (cases "blocking_job backend job w") (auto simp: process_job_def)
  note frame = blocking_job_frame [OF b]
  show thesis
  proof (cases r)
    case (Returned x)
    obtain persisted mode where x: "x = (persisted, mode)" by (cases x)
    show thesis using assms b frame Returned x by (intro that [OF b]) (auto simp: process_job_def Let_def stored_def split: if_splits)
  next
    case Panicked
    then show thesis using assms b frame by (intro that [OF b]) (auto simp: process_job_def stored_def)
  qed
qed

lemma worker_inv_start: "worker_inv [] (worker_start b)"
  by (simp add: worker_inv_def worker_start_def start_with_health_def initial_health_def in_flight_def refused_count_def)

lemma refused_count_Refused [simp]: "refused_count (es @ [Refused job]) = saturating_add (refused_count es) 1"
  by (simp add: refused_count_def)

lemma refused_count_same [simp]: "refused_jobs es' = [] \<Longrightarrow> refused_count (es @ es') = refused_count es"
  by (simp add: refused_count_def)

text \<open>One poll: a job is finished, a job is taken, or only the phase changes.\<close>

lemma worker_poll_cases:
  assumes "worker_poll backend w = Some w'"
  obtains (processed) job r v where "ow_current w = Some job" "ow_phase w \<in> {Receiving, Draining}" "blocking_job backend job w = Some (r, v)"
      "ow_current w' = None" "ow_queue w' = ow_queue w" "ow_closed w' = ow_closed w" "ow_phase w' = ow_phase w" "ow_shutdown w' = ow_shutdown w"
      "oh_dropped_job_count (ow_health w') = oh_dropped_job_count (ow_health w)"
      "oh_state (ow_health w') = (if stored r then oh_state (ow_health w) else OutDegraded)"
      "oh_store_available (ow_health w') \<longleftrightarrow> stored r \<and> oh_store_available (ow_health w)"
  | (taken) job jobs where "ow_current w = None" "ow_phase w \<in> {Receiving, Draining}" "ow_queue w = job # jobs"
      "w' = w\<lparr>ow_current := Some job, ow_queue := jobs\<rparr>"
  | (draining) "ow_current w = None" "ow_phase w = Receiving" "ow_shutdown w" "w' = w\<lparr>ow_phase := Draining, ow_closed := True\<rparr>"
  | (finished) "ow_current w = None" "ow_queue w = []" "ow_phase w = Draining" "w' = w\<lparr>ow_phase := Finished\<rparr>"
  | (abandoned) "ow_current w = None" "ow_queue w = []" "ow_phase w = Receiving" "\<not> ow_shutdown w"
      "w' = w\<lparr>ow_phase := Finished, ow_closed := True\<rparr>"
proof (cases "ow_current w")
  case (Some job)
  with assms obtain u where u: "process_job backend job w = Some u" "w' = u\<lparr>ow_current := None\<rparr>" "ow_phase w \<in> {Receiving, Draining}"
    by (cases "ow_phase w") (auto simp: worker_poll_def)
  from u(1) show thesis by (rule process_job_frame) (rule processed [OF Some u(3)], auto simp: u(2))
next
  case None
  show thesis
  proof (cases "ow_phase w")
    case Receiving
    show thesis
    proof (cases "ow_shutdown w")
      case True
      with None Receiving assms show thesis by (intro draining) (simp_all add: worker_poll_def)
    next
      case False
      show thesis
      proof (cases "ow_queue w")
        case Nil
        with None Receiving False assms show thesis by (intro abandoned) (simp_all add: worker_poll_def split: if_splits)
      next
        case (Cons job jobs)
        with None Receiving False assms show thesis by (intro taken [OF _ _ Cons]) (simp_all add: worker_poll_def)
      qed
    qed
  next
    case Draining
    show thesis
    proof (cases "ow_queue w")
      case Nil
      with None Draining assms show thesis by (intro finished) (simp_all add: worker_poll_def)
    next
      case (Cons job jobs)
      with None Draining assms show thesis by (intro taken [OF _ _ Cons]) (simp_all add: worker_poll_def)
    qed
  qed (use None assms in \<open>simp_all add: worker_poll_def\<close>)
qed

lemma worker_inv_submit:
  assumes "worker_inv es w" "try_submit job w = (x, w')"
  shows "worker_inv (es @ [if isl x then Refused job else Accepted job]) w'"
proof (cases "ow_closed w")
  case True
  with assms show ?thesis by (simp add: try_submit_def worker_inv_def in_flight_def) (clarsimp simp: in_flight_def)
next
  case open_end: False
  then have phase: "ow_phase w = Receiving" and none: "lost_jobs es = []" using assms(1) by (auto simp: worker_inv_def)
  show ?thesis
  proof (cases "INCIDENT_OUTPUT_QUEUE_CAPACITY \<le> length (ow_queue w)")
    case True
    with open_end assms show ?thesis by (simp add: try_submit_def worker_inv_def) (clarsimp simp: in_flight_def)
  next
    case False
    with open_end assms phase none show ?thesis by (simp add: try_submit_def worker_inv_def) (clarsimp simp: in_flight_def)
  qed
qed

lemma worker_inv_poll:
  assumes "worker_inv es w" "worker_poll backend w = Some w'"
  shows "(\<forall>job r v. ow_current w = Some job \<and> blocking_job backend job w = Some (r, v) \<longrightarrow> worker_inv (es @ [Processed job (stored r)]) w')
    \<and> (ow_current w = None \<longrightarrow> worker_inv (es @ [case ow_current w' of Some job \<Rightarrow> Taken job | None \<Rightarrow> Internal]) w')"
  using assms(2)
proof (cases rule: worker_poll_cases)
  case (processed job r v)
  then show ?thesis using assms(1) by (auto simp: worker_inv_def in_flight_def split: if_splits)
next
  case (taken job jobs)
  then show ?thesis using assms(1) by (auto simp: worker_inv_def in_flight_def)
qed (use assms(1) in \<open>auto simp: worker_inv_def in_flight_def\<close>)

lemma worker_inv_run: "worker_run backend (worker_start b) es w \<Longrightarrow> worker_inv es w"
proof (induction rule: worker_run.induct)
  case run_start
  show ?case by (rule worker_inv_start)
next
  case (run_accept es w job w')
  then show ?case using worker_inv_submit by fastforce
next
  case (run_refuse es w job e w')
  then show ?case using worker_inv_submit by fastforce
next
  case (run_take es w w' job)
  then show ?case using worker_inv_poll by fastforce
next
  case (run_process es w job r v w')
  then show ?case using worker_inv_poll by fastforce
next
  case (run_phase es w w')
  then show ?case using worker_inv_poll by fastforce
next
  case (run_abort es w report w')
  then show ?case by (auto simp: worker_inv_def shutdown_report_def in_flight_def)
qed (auto simp: worker_inv_def shutdown_request_def in_flight_def)

lemma refused_count_unat: "unat (refused_count es) = min (length (refused_jobs es)) (2 ^ 64 - 1)"
proof -
  have "unat (((\<lambda>x :: u64. saturating_add x 1) ^^ n) 0) = min n (2 ^ 64 - 1)" for n
    by (induction n) (auto simp: saturating_add_unat)
  then show ?thesis by (simp add: refused_count_def)
qed

text \<open>The calls of a backend come back.\<close>

definition backend_returns :: "'b IncidentOutputBackend \<Rightarrow> bool" where
  "backend_returns backend \<longleftrightarrow> (\<forall>job b. ob_persist backend job b \<noteq> None) \<and> (\<forall>job status b. ob_alert backend job status b \<noteq> None)"

lemma blocking_job_returns: "backend_returns backend \<Longrightarrow> \<exists>r v. blocking_job backend job w = Some (r, v)"
  unfolding backend_returns_def blocking_job_def by (auto split: option.split call.split) (metis option.distinct(1))+

lemma process_job_returns: "backend_returns backend \<Longrightarrow> \<exists>w'. process_job backend job w = Some w'"
  using blocking_job_returns [of backend job w] unfolding process_job_def by (auto simp: Let_def split: call.split)

text \<open>What a worker with a requested shutdown still has to do.\<close>

definition work_left :: "'b OutputWorker \<Rightarrow> nat" where
  "work_left w = (case ow_phase w of Receiving \<Rightarrow> 2 | Draining \<Rightarrow> 1 | _ \<Rightarrow> 0) + 2 * length (ow_queue w) + length (in_flight w)"

lemma shutdown_polls:
  assumes "backend_returns backend" "ow_shutdown w" "ow_phase w \<in> {Receiving, Draining}"
  shows "\<exists>w'. worker_poll backend w = Some w'"
proof (cases "ow_current w")
  case (Some job)
  then show ?thesis using process_job_returns [OF assms(1), of job w] assms(3) by (auto simp: worker_poll_def)
next
  case None
  then show ?thesis using assms(2,3) by (cases "ow_queue w") (auto simp: worker_poll_def)
qed

lemma poll_decreases:
  assumes "worker_poll backend w = Some w'" "ow_shutdown w"
  shows "work_left w' < work_left w" "ow_shutdown w'" "ow_phase w' \<noteq> Aborted"
  using assms(1) assms(2) by (cases rule: worker_poll_cases; auto simp: work_left_def in_flight_def)+

lemma run_poll:
  assumes "worker_run backend w0 es w" "worker_poll backend w = Some w'"
  shows "\<exists>e. worker_run backend w0 (es @ [e]) w' \<and> accepted_jobs [e] = [] \<and> refused_jobs [e] = [] \<and> lost_jobs [e] = []"
proof (cases "ow_current w")
  case (Some job)
  from assms(2) obtain r v where "blocking_job backend job w = Some (r, v)" using Some by (cases rule: worker_poll_cases) auto
  from run_process [OF assms(1) Some this assms(2)] show ?thesis by fastforce
next
  case None
  show ?thesis
  proof (cases "ow_current w'")
    case None
    from run_phase [OF assms(1) \<open>ow_current w = None\<close> assms(2) this] show ?thesis by fastforce
  next
    case (Some job)
    from run_take [OF assms(1) None assms(2) Some] show ?thesis by fastforce
  qed
qed

lemma drains:
  assumes "backend_returns backend" "worker_run backend w0 es w" "ow_shutdown w" "ow_phase w \<noteq> Aborted"
  shows "\<exists>es' w'. worker_run backend w0 (es @ es') w' \<and> ow_phase w' = Finished \<and> length es' \<le> work_left w
    \<and> accepted_jobs es' = [] \<and> refused_jobs es' = [] \<and> lost_jobs es' = []"
  using assms(2-)
proof (induction "work_left w" arbitrary: es w rule: less_induct)
  case less
  show ?case
  proof (cases "ow_phase w = Finished")
    case True
    with less.prems show ?thesis by (intro exI [of _ "[]"] exI [of _ w]) simp
  next
    case False
    then have "ow_phase w \<in> {Receiving, Draining}" using less.prems(3) by (cases "ow_phase w") auto
    then obtain u where u: "worker_poll backend w = Some u" using shutdown_polls [OF assms(1) less.prems(2)] by blast
    note step = poll_decreases [OF u less.prems(2)]
    from run_poll [OF less.prems(1) u] obtain e where
      e: "worker_run backend w0 (es @ [e]) u" "accepted_jobs [e] = []" "refused_jobs [e] = []" "lost_jobs [e] = []" by blast
    from less.hyps [OF step(1) e(1) step(2,3)] obtain es' w' where
      "worker_run backend w0 ((es @ [e]) @ es') w'" "ow_phase w' = Finished" "length es' \<le> work_left u"
      "accepted_jobs es' = []" "refused_jobs es' = []" "lost_jobs es' = []" by blast
    with e step(1) accepted_append [of "[e]" es'] refused_append [of "[e]" es'] lost_append [of "[e]" es'] show ?thesis
      by (intro exI [of _ "e # es'"] exI [of _ w']) simp
  qed
qed

definition easy_job :: IncidentWriteJob where
  "easy_job = \<lparr>ij_revision = easy_revision 1\<rparr>"

lemma unavailable_returns: "backend_returns unavailable_backend"
  by (simp add: backend_returns_def unavailable_backend_def)


lemma stored_returns: "decimal_manifests json \<Longrightarrow> backend_returns (stored_backend io json clock alert_io alert_json)"
  unfolding backend_returns_def stored_backend_def persist_call_def
  by (auto split: prod.split) (metis persist_revision_returns option.distinct(1))

text \<open>
  \<^bold>\<open>C32.\<close> The worker keeps the order of its jobs and tells what happened to them. Whatever clients, the task and
  a shutdown do in whatever order, the accepted jobs are those processed, in that order, then the one being
  processed, then those waiting, then those an aborted task left behind; at most 32 wait; every refused job is
  counted; and the health says healthy exactly as long as no job was refused, none failed to be stored and the
  task was not aborted.
\<close>

theorem worker_accounts_for_jobs:
  assumes "worker_run backend (worker_start b) es w"
  shows "accepted_jobs es = map fst (processed_jobs es) @ in_flight w @ ow_queue w @ lost_jobs es
    \<and> length (ow_queue w) \<le> 32 \<and> (lost_jobs es = [] \<or> ow_phase w = Aborted)
    \<and> unat (oh_dropped_job_count (ow_health w)) = min (length (refused_jobs es)) (2 ^ 64 - 1)
    \<and> (oh_state (ow_health w) = OutHealthy \<longleftrightarrow> refused_jobs es = [] \<and> list_all snd (processed_jobs es) \<and> ow_phase w \<noteq> Aborted)
    \<and> (oh_store_available (ow_health w) \<longleftrightarrow> oh_state (ow_health w) = OutHealthy)"
  using worker_inv_run [OF assms] refused_count_unat [of es] unfolding worker_inv_def by simp blast

theorem worker_accounts_for_jobs_witness:
  "\<exists>w. worker_run unavailable_backend (worker_start ()) [Accepted easy_job, Taken easy_job, Processed easy_job False] w
    \<and> oh_state (ow_health w) \<noteq> OutHealthy"
proof -
  let ?w0 = "worker_start () :: unit OutputWorker"
  let ?w1 = "?w0\<lparr>ow_queue := [easy_job]\<rparr>" and ?w2 = "?w0\<lparr>ow_current := Some easy_job\<rparr>"
  have "worker_run unavailable_backend ?w0 ([] @ [Accepted easy_job]) ?w1"
    by (rule run_accept [OF run_start]) (simp_all add: try_submit_def worker_start_def start_with_health_def)
  then have "worker_run unavailable_backend ?w0 (([] @ [Accepted easy_job]) @ [Taken easy_job]) ?w2"
    by (rule run_take) (simp_all add: worker_poll_def worker_start_def start_with_health_def)
  moreover obtain w where w: "worker_poll unavailable_backend ?w2 = Some w"
    by (simp add: worker_poll_def process_job_def blocking_job_def unavailable_backend_def worker_start_def start_with_health_def Let_def)
  moreover have "blocking_job unavailable_backend easy_job ?w2 = Some (Returned (Inl StoreUnavailable, SinkStderrJson), ?w2)"
    by (simp add: blocking_job_def unavailable_backend_def worker_start_def start_with_health_def)
  ultimately have "worker_run unavailable_backend ?w0 ((([] @ [Accepted easy_job]) @ [Taken easy_job])
      @ [Processed easy_job (stored (Returned (Inl StoreUnavailable, SinkStderrJson)))]) w"
    by (intro run_process [where w = ?w2]) simp_all
  then have run: "worker_run unavailable_backend ?w0 [Accepted easy_job, Taken easy_job, Processed easy_job False] w" by (simp add: stored_def)
  with worker_accounts_for_jobs [OF run] show ?thesis by (intro exI [of _ w]) simp
qed



section \<open>The journal entry\<close>

text \<open>How the journal reads an entry: a line is a field, up to the first equals sign its name.\<close>

fun entry_lines :: "string \<Rightarrow> string list" where
  "entry_lines [] = []"
| "entry_lines (c # cs) =
     (if c = newline then [] # entry_lines cs
      else case entry_lines cs of [] \<Rightarrow> [[c]] | l # ls \<Rightarrow> (c # l) # ls)"

definition parse_entry :: "string \<Rightarrow> (string \<times> string) list" where
  "parse_entry payload =
     map (\<lambda>line. (takeWhile (\<lambda>c. c \<noteq> CHR ''='') line, tl (dropWhile (\<lambda>c. c \<noteq> CHR ''='') line))) (entry_lines payload)"

definition one_line :: "string \<Rightarrow> bool" where
  "one_line s \<longleftrightarrow> newline \<notin> set s"

lemma entry_lines_line: "one_line l \<Longrightarrow> entry_lines (l @ newline # rest) = l # entry_lines rest"
  by (induction l) (auto simp: one_line_def)

lemma parse_concat:
  assumes "list_all (\<lambda>(name, value). one_line name \<and> one_line value \<and> CHR ''='' \<notin> set name) fs"
  shows "parse_entry (concat (map (\<lambda>(name, value). name @ CHR ''='' # value @ [newline]) fs)) = fs"
  using assms
proof (induction fs)
  case (Cons f fs)
  obtain name v where f: "f = (name, v)" by (cases f)
  have "one_line (name @ CHR ''='' # v)" using Cons.prems by (auto simp: f one_line_def newline_def)
  from entry_lines_line [OF this] have "entry_lines (name @ CHR ''='' # v @ newline # rest) = (name @ CHR ''='' # v) # entry_lines rest" for rest by simp
  moreover have "takeWhile (\<lambda>c. c \<noteq> CHR ''='') (name @ CHR ''='' # v) = name" "tl (dropWhile (\<lambda>c. c \<noteq> CHR ''='') (name @ CHR ''='' # v)) = v"
    using Cons.prems by (auto simp: f takeWhile_append dropWhile_append)
  ultimately show ?case using Cons by (simp add: f parse_entry_def)
qed (simp add: parse_entry_def)

lemma one_line_decimal: "one_line (decimal n)"
proof (induction n rule: decimal.induct)
  case (1 n)
  have digit: "char_of (48 + d) \<noteq> newline" if "d < 10" for d :: nat
  proof
    assume "char_of (48 + d) = newline"
    then have "of_char (char_of (48 + d)) = (of_char newline :: nat)" by simp
    with that show False by (simp add: newline_def)
  qed
  show ?case using 1 digit [of n] digit [of "n mod 10"] by (subst decimal.simps) (auto simp: one_line_def)
qed

lemma one_line_trim: "one_line s \<Longrightarrow> one_line (trim_quotes s)"
  unfolding one_line_def trim_quotes_def by (metis set_dropWhileD set_rev)

lemma one_line_enum: "case r of Inl _ \<Rightarrow> True | Inr text \<Rightarrow> one_line text \<Longrightarrow> one_line (enum_json r)"
  unfolding enum_json_def by (rule one_line_trim) (auto split: sum.splits simp: one_line_def newline_def)

lemma one_line_event_id: "one_line (event_id_display e)"
proof -
  have hex: "HEX ! n \<noteq> newline" if "n < 16" for n
  proof -
    have "HEX ! n \<in> set HEX" using that by (intro nth_mem) (simp add: HEX_def)
    then show ?thesis by (auto simp: HEX_def newline_def)
  qed
  have "unat (drop_bit 4 b) < 16" "unat (b AND 15) < 16" for b :: u8
    using byte_halves(1,2) [of b] by auto
  then have "newline \<notin> {HEX ! unat (drop_bit 4 b), HEX ! unat (b AND 15)}" for b :: u8 using hex by (metis insertE singletonD)
  then show ?thesis by (auto simp: one_line_def event_id_display_def)
qed

lemma one_line_interface: "interface_name_new (as_str i) = Inr i \<Longrightarrow> one_line (as_str i)"
  by (auto simp: interface_name_new_def Let_def one_line_def newline_def list_all_iff is_ascii_alphanumeric_def is_ascii_digit_def
      is_ascii_uppercase_def is_ascii_lowercase_def split: if_splits)

text \<open>What the alert relies on of the encoder: an enum is encoded on one line.\<close>

definition one_line_codec :: "AlertCodec \<Rightarrow> bool" where
  "one_line_codec json \<longleftrightarrow>
     (\<forall>x. case aj_evidence_status json x of Inl _ \<Rightarrow> True | Inr text \<Rightarrow> one_line text) \<and> (\<forall>x. case aj_code json x of Inl _ \<Rightarrow> True | Inr text \<Rightarrow> one_line text)
     \<and> (\<forall>x. case aj_state json x of Inl _ \<Rightarrow> True | Inr text \<Rightarrow> one_line text) \<and> (\<forall>x. case aj_reason json x of Inl _ \<Rightarrow> True | Inr text \<Rightarrow> one_line text)"

lemma alert_message_ok:
  "alert_message code \<noteq> []" "length (alert_message code) \<le> 96" "list_all (\<lambda>c. (of_char c :: nat) < 128) (alert_message code)"
  "\<not> list_ex (\<lambda>c. c = newline \<or> c = CHR 0x0D \<or> c = CHR ''='') (alert_message code)" "one_line (alert_message code)"
  by (cases code; simp add: newline_def one_line_def)+

lemma valid_alert:
  assumes "incident_revision_validate (ij_revision job) = Inr ()"
  shows "validate_alert (alert_of_job job status) = Inr ()"
  using assms alert_message_ok [of "ir_alert_code (ij_revision job)"]
  by (auto simp: validate_alert_def alert_of_job_def Let_def incident_revision_validate_def split: if_splits)

definition plain_codec :: AlertCodec where
  "plain_codec = \<lparr>aj_alert_to_vec = (\<lambda>_ _ _. Inr ''{}''), aj_string = Inr, aj_evidence_status = (\<lambda>_. Inr ''stored''), aj_code = (\<lambda>_. Inr ''storm''),
     aj_state = (\<lambda>_. Inr ''normal''), aj_reason = (\<lambda>_. Inr ''evidence'')\<rparr>"

lemma plain_codec_lines: "one_line_codec plain_codec"
  by (simp add: one_line_codec_def plain_codec_def one_line_def newline_def)



end
