(* ===== verification/Preflight.thy ===== *)
theory Preflight
  imports Observation "HOL-Library.List_Lexorder" "HOL-Library.Product_Lexorder" "HOL-Library.Multiset"
begin

text \<open>
  The preflight report (\<open>l2-loop-core/src/preflight.rs\<close>) and the service that checks what an inspector
  returns (\<open>l2-loop-agent/src/preflight.rs\<close>). The inspector is a parameter.
\<close>

section \<open>Definitions\<close>

definition PF_MEMLOCK_TOO_LOW :: string where "PF_MEMLOCK_TOO_LOW = ''PF_MEMLOCK_TOO_LOW''"
definition PF_LIVE_INTERFACE :: string where "PF_LIVE_INTERFACE = ''PF_LIVE_INTERFACE''"
definition PF_OWNERSHIP_MISMATCH :: string where "PF_OWNERSHIP_MISMATCH = ''PF_OWNERSHIP_MISMATCH''"

datatype PreflightDecision = PfReady | PfReadyWithWarnings | PfBlocked

datatype FindingSeverity = FsBlocker | FsWarning | FsInformation

record PreflightFinding =
  pf_code :: string
  pf_severity :: FindingSeverity
  pf_message :: string

definition finding_new :: "string \<Rightarrow> FindingSeverity \<Rightarrow> string \<Rightarrow> PreflightFinding" where
  "finding_new code severity message = \<lparr>pf_code = code, pf_severity = severity, pf_message = message\<rparr>"

definition finding_information :: "string \<Rightarrow> string \<Rightarrow> PreflightFinding" where
  "finding_information code message = finding_new code FsInformation message"

definition finding_warning :: "string \<Rightarrow> string \<Rightarrow> PreflightFinding" where
  "finding_warning code message = finding_new code FsWarning message"

definition finding_blocker :: "string \<Rightarrow> string \<Rightarrow> PreflightFinding" where
  "finding_blocker code message = finding_new code FsBlocker message"

datatype InterfaceKind = KindPhysical | KindBond | KindVeth | KindBridge | KindOvsInternal | KindTap | KindUnsupported

datatype BondMode = BondActiveBackup | BondUnsupported

record InterfaceRef =
  rf_name :: InterfaceName
  rf_ifindex :: u32

record BondInspection =
  bo_mode :: BondMode
  bo_slaves :: "InterfaceRef list"
  bo_active_slave :: "InterfaceRef option"

record AttachmentTarget =
  tg_interface :: InterfaceRef
  tg_role :: HookRole

record InterfaceInspection =
  in_requested :: InterfaceRef
  in_kind :: InterfaceKind
  in_admin_up :: bool
  in_oper_up :: bool
  in_master :: "InterfaceRef option"
  in_bond :: "BondInspection option"
  in_proposed_targets :: "AttachmentTarget list"
  in_isolated :: bool
  in_live_shared :: bool

datatype AttachmentState = AtEmpty | AtOwned u32 | AtOccupied u32 | AtUnknown

datatype PinRootState = PinAbsent | PinEmpty | PinOwned | PinForeign

record TcAttachment =
  ta_direction :: Direction
  ta_priority :: u16
  ta_handle :: u32
  ta_program_id :: u32

record MemlockInspection =
  ml_soft_bytes :: "u64 option"
  ml_hard_bytes :: "u64 option"
  ml_required_bytes :: u64
  ml_can_raise :: bool

record KernelInspection =
  ki_architecture :: string
  ki_release :: string
  ki_bpf_syscall :: bool
  ki_bpf_jit :: bool
  ki_btf_readable :: bool
  ki_tc_clsact :: bool

record BpfInspection =
  bi_bpffs_mounted :: bool
  bi_relevant_objects_enumerable :: bool
  bi_pin_root :: PinRootState
  bi_xdp_native :: AttachmentState
  bi_xdp_generic :: AttachmentState
  bi_tc_ingress :: "TcAttachment list"
  bi_tc_egress :: "TcAttachment list"
  bi_memlock :: MemlockInspection

record PreflightReport =
  pr_decision :: PreflightDecision
  pr_interface :: InterfaceInspection
  pr_kernel :: KernelInspection
  pr_bpf :: BpfInspection
  pr_findings :: "PreflightFinding list"

text \<open>The derived order of severities, and the bytes a code is compared by.\<close>

fun severity_rank :: "FindingSeverity \<Rightarrow> nat" where
  "severity_rank FsBlocker = 0"
| "severity_rank FsWarning = 1"
| "severity_rank FsInformation = 2"

definition finding_key :: "PreflightFinding \<Rightarrow> nat \<times> nat list" where
  "finding_key finding = (severity_rank (pf_severity finding), map of_char (pf_code finding))"

definition preflight_report_new ::
  "InterfaceInspection \<Rightarrow> KernelInspection \<Rightarrow> BpfInspection \<Rightarrow> PreflightFinding list \<Rightarrow> PreflightReport" where
  "preflight_report_new interface kernel_state bpf findings =
     (let findings = sort_key finding_key findings;
          decision = (if list_ex (\<lambda>finding. pf_severity finding = FsBlocker) findings then PfBlocked
            else if list_ex (\<lambda>finding. pf_severity finding = FsWarning) findings then PfReadyWithWarnings
            else PfReady)
      in \<lparr>pr_decision = decision, pr_interface = interface, pr_kernel = kernel_state, pr_bpf = bpf, pr_findings = findings\<rparr>)"

text \<open>
  \<open>str::trim\<close> leaves nothing: the text is white space only. The bytes are UTF-8, and the characters with the
  Unicode property \<open>White_Space\<close> are spelled out by their encodings.
\<close>

definition is_ascii_space :: "char \<Rightarrow> bool" where
  "is_ascii_space c \<longleftrightarrow> (of_char c :: nat) \<in> {9, 10, 11, 12, 13, 32}"

definition wide_space :: "nat list \<Rightarrow> bool" where
  "wide_space bytes \<longleftrightarrow>
     bytes = [225, 154, 128] \<or> bytes = [227, 128, 128] \<or> bytes = [226, 129, 159]
     \<or> take 2 bytes = [226, 128] \<and> (case drop 2 bytes of [b] \<Rightarrow> 128 \<le> b \<and> b \<le> 138 \<or> b \<in> {168, 169, 175} | _ \<Rightarrow> False)"

function is_blank :: "string \<Rightarrow> bool" where
  "is_blank text =
     (case text of
        [] \<Rightarrow> True
      | c # _ \<Rightarrow>
          if is_ascii_space c then is_blank (drop 1 text)
          else if map of_char (take 2 text) \<in> {[194, 133], [194, 160 :: nat]} then is_blank (drop 2 text)
          else if wide_space (map of_char (take 3 text)) then is_blank (drop 3 text)
          else False)"
  by auto
termination by (relation "measure length") auto

declare is_blank.simps [simp del]

definition preflight_invalid :: "string \<Rightarrow> (PortError, 'a) result" where
  "preflight_invalid message = Inl (InvalidReport message)"

definition validate_report :: "InterfaceName \<Rightarrow> PreflightReport \<Rightarrow> (PortError, unit) result" where
  "validate_report requested report =
     (let interface = pr_interface report
      in if rf_name (in_requested interface) \<noteq> requested then preflight_invalid ''requested interface does not match report''
         else if in_isolated interface \<and> in_live_shared interface then preflight_invalid ''interface cannot be both isolated and live/shared''
         else if in_kind interface = KindBond \<and> in_bond interface = None then preflight_invalid ''bond interface is missing bond details''
         else if list_ex (\<lambda>finding. is_blank (pf_code finding)) (pr_findings report) then preflight_invalid ''finding code must not be empty''
         else if list_ex (\<lambda>finding. is_blank (pf_message finding)) (pr_findings report) then preflight_invalid ''finding message must not be empty''
         else Inr ())"

definition preflight_execute ::
  "(InterfaceName \<Rightarrow> ('w, PortError, PreflightReport) port) \<Rightarrow> InterfaceName \<Rightarrow> ('w, PortError, PreflightReport) port" where
  "preflight_execute inspect requested =
     port_bind (inspect requested) (\<lambda>report.
     port_bind (port_lift (validate_report requested report)) (\<lambda>_.
     port_return (preflight_report_new (pr_interface report) (pr_kernel report) (pr_bpf report) (pr_findings report))))"

section \<open>The decision\<close>

lemma report_decision:
  "pr_decision (preflight_report_new i k b fs) =
     (if FsBlocker \<in> pf_severity ` set fs then PfBlocked else if FsWarning \<in> pf_severity ` set fs then PfReadyWithWarnings else PfReady)"
  by (auto simp: preflight_report_new_def Let_def list_ex_iff image_iff) metis+

lemma worst_first:
  assumes "sorted (map finding_key fs)" "fs \<noteq> []" "f \<in> set fs"
  shows "severity_rank (pf_severity (hd fs)) \<le> severity_rank (pf_severity f)"
proof -
  have "finding_key (hd fs) \<le> finding_key f" using assms by (cases fs) auto
  then show ?thesis by (auto simp: finding_key_def less_eq_prod_def)
qed

text \<open>
  A preflight answer is decided by its findings and by nothing else. The service accepts a report
  exactly when it is about the requested interface, is not both isolated and shared, describes its bond if
  it is one, and has a code and a message in every finding; the answer then carries the same findings, each
  once, most severe first, and its decision is blocked exactly when one of them is a blocker and ready
  exactly when none is a blocker or a warning, whatever decision the inspector had put there.
\<close>

theorem preflight_decides_by_findings:
  assumes "inspect requested w = (Inr report, w')"
  shows "snd (preflight_execute inspect requested w) = w'
    \<and> (case fst (preflight_execute inspect requested w) of
         Inl e \<Rightarrow> is_ok (validate_report requested report) = False \<and> (\<exists>message. e = InvalidReport message)
       | Inr answer \<Rightarrow>
           rf_name (in_requested (pr_interface report)) = requested \<and> \<not> (in_isolated (pr_interface report) \<and> in_live_shared (pr_interface report))
           \<and> mset (pr_findings answer) = mset (pr_findings report) \<and> pr_interface answer = pr_interface report
           \<and> (\<forall>f \<in> set (pr_findings answer). \<not> is_blank (pf_code f) \<and> \<not> is_blank (pf_message f))
           \<and> (pr_decision answer = PfBlocked \<longleftrightarrow> FsBlocker \<in> pf_severity ` set (pr_findings report))
           \<and> (pr_decision answer = PfReady \<longleftrightarrow> pf_severity ` set (pr_findings report) \<subseteq> {FsInformation})
           \<and> (\<forall>f \<in> set (pr_findings answer). severity_rank (pf_severity (hd (pr_findings answer))) \<le> severity_rank (pf_severity f)))"
proof (cases "validate_report requested report")
  case (Inl e)
  then have "\<exists>message. e = InvalidReport message" by (auto simp: validate_report_def Let_def preflight_invalid_def split: if_splits)
  with Inl assms show ?thesis by (simp add: preflight_execute_def port_bind_def port_lift_def)
next
  case (Inr u)
  let ?answer = "preflight_report_new (pr_interface report) (pr_kernel report) (pr_bpf report) (pr_findings report)"
  have run: "preflight_execute inspect requested w = (Inr ?answer, w')"
    using assms Inr by (simp add: preflight_execute_def port_bind_def port_lift_def port_return_def)
  have fields: "pr_findings ?answer = sort_key finding_key (pr_findings report)" "pr_interface ?answer = pr_interface report"
    by (simp_all add: preflight_report_new_def Let_def)
  have valid: "rf_name (in_requested (pr_interface report)) = requested" "\<not> (in_isolated (pr_interface report) \<and> in_live_shared (pr_interface report))"
    "\<forall>f \<in> set (pr_findings report). \<not> is_blank (pf_code f) \<and> \<not> is_blank (pf_message f)"
    using Inr by (auto simp: validate_report_def Let_def preflight_invalid_def list_ex_iff split: if_splits)
  have worst: "\<forall>f \<in> set (pr_findings ?answer). severity_rank (pf_severity (hd (pr_findings ?answer))) \<le> severity_rank (pf_severity f)"
    using worst_first [of "pr_findings ?answer"] unfolding fields by (metis empty_iff list.set(1) sorted_sort_key)
  have "pf_severity f = FsInformation \<longleftrightarrow> pf_severity f \<noteq> FsBlocker \<and> pf_severity f \<noteq> FsWarning" for f :: PreflightFinding by (cases "pf_severity f") auto
  then have ready: "pr_decision ?answer = PfReady \<longleftrightarrow> pf_severity ` set (pr_findings report) \<subseteq> {FsInformation}"
    unfolding report_decision by (auto simp: image_iff) metis+
  show ?thesis unfolding run using valid worst ready by (simp add: fields report_decision)
qed

definition a_report :: PreflightReport where
  "a_report =
     \<lparr>pr_decision = PfReady,
      pr_interface = \<lparr>in_requested = \<lparr>rf_name = InterfaceName ''veth0'', rf_ifindex = 7\<rparr>, in_kind = KindVeth, in_admin_up = True, in_oper_up = True,
        in_master = None, in_bond = None, in_proposed_targets = [], in_isolated = True, in_live_shared = False\<rparr>,
      pr_kernel = \<lparr>ki_architecture = ''x86_64'', ki_release = ''6'', ki_bpf_syscall = True, ki_bpf_jit = True, ki_btf_readable = True, ki_tc_clsact = True\<rparr>,
      pr_bpf = \<lparr>bi_bpffs_mounted = True, bi_relevant_objects_enumerable = True, bi_pin_root = PinAbsent, bi_xdp_native = AtEmpty, bi_xdp_generic = AtEmpty,
        bi_tc_ingress = [], bi_tc_egress = [],
        bi_memlock = \<lparr>ml_soft_bytes = None, ml_hard_bytes = None, ml_required_bytes = 0, ml_can_raise = True\<rparr>\<rparr>,
      pr_findings = [finding_warning ''W'' ''w'', finding_blocker ''B'' ''b'']\<rparr>"

theorem preflight_decides_by_findings_witness:
  "case fst (preflight_execute (\<lambda>_ w. (Inr a_report, w)) (InterfaceName ''veth0'') ()) of Inl _ \<Rightarrow> False | Inr answer \<Rightarrow> pr_decision answer = PfBlocked"
proof -
  have "\<not> is_blank ''W''" "\<not> is_blank ''w''" "\<not> is_blank ''B''" "\<not> is_blank ''b''" by (subst is_blank.simps; simp add: is_ascii_space_def wide_space_def)+
  then have "validate_report (InterfaceName ''veth0'') a_report = Inr ()"
    by (simp add: validate_report_def a_report_def finding_warning_def finding_blocker_def finding_new_def)
  then have "is_ok (validate_report (InterfaceName ''veth0'') a_report)" by simp
  moreover have "FsBlocker \<in> pf_severity ` set (pr_findings a_report)" by (simp add: a_report_def finding_blocker_def finding_new_def)
  ultimately show ?thesis
    using preflight_decides_by_findings [of "\<lambda>_ w. (Inr a_report, w)" "InterfaceName ''veth0''" "()" a_report "()"] by (auto split: sum.splits)
qed

end
