(* ===== verification/Attach.thy ===== *)
theory Attach
  imports Ownership Preflight
begin

text \<open>
  Attaching and detaching the programs (\<open>l2-loop-agent/src/attach.rs\<close>, the permit of
  \<open>l2-loop-agent/src/host_acceptance.rs\<close>) and the earlier agent service (\<open>l2-loop-agent/src/service.rs\<close>). The ports
  they call are parameters: records of fallible calls on a state of their own.
\<close>

section \<open>Definitions\<close>

subsection \<open>Ports\<close>

record LoadedXdp =
  lx_program_fd :: "32 word"
  lx_program_id :: u32
  lx_program_tag :: "u8 list"

record LoadedTc =
  lt_program_fd :: "32 word"
  lt_program_id :: u32

record LoadedBpfObject =
  lo_xdp :: LoadedXdp
  lo_tc_egress :: LoadedTc
  lo_map_pins :: "OwnedMapPin list"

text \<open>\<open>PlatformInspector\<close>, \<open>ResourceLimits\<close>, \<open>BpfObjectLoader\<close>, \<open>SafeXdpPort\<close>, \<open>SafeTcPort\<close>, \<open>MapPublisher\<close> and \<open>EphemeralOwnershipStore\<close>.\<close>

record 'w AttachPorts =
  ap_inspect :: "InterfaceName \<Rightarrow> ('w, PortError, PreflightReport) port"
  ap_raise_memlock :: "('w, PortError, unit) port"
  ap_load :: "TestPinRoot \<Rightarrow> ('w, PortError, LoadedBpfObject) port"
  ap_unload :: "LoadedBpfObject \<Rightarrow> ('w, PortError, unit) port"
  ap_xdp_attach :: "u32 \<Rightarrow> XdpAttachMode \<Rightarrow> LoadedXdp \<Rightarrow> ('w, PortError, OwnedXdp) port"
  ap_xdp_verify :: "OwnedXdp \<Rightarrow> ('w, PortError, unit) port"
  ap_xdp_detach :: "OwnedXdp \<Rightarrow> ('w, PortError, unit) port"
  ap_tc_attach :: "u32 \<Rightarrow> TcHook \<Rightarrow> LoadedTc \<Rightarrow> ('w, PortError, OwnedTc) port"
  ap_tc_verify :: "OwnedTc \<Rightarrow> ('w, PortError, unit) port"
  ap_tc_detach :: "OwnedTc \<Rightarrow> ('w, PortError, unit) port"
  ap_initialize :: "LoadedBpfObject \<Rightarrow> u32 \<Rightarrow> u64 \<Rightarrow> ('w, PortError, unit) port"
  ap_publish :: "LoadedBpfObject \<Rightarrow> u32 \<Rightarrow> u64 \<Rightarrow> ('w, PortError, unit) port"
  ap_rollback_initialized :: "LoadedBpfObject \<Rightarrow> u32 \<Rightarrow> u64 \<Rightarrow> ('w, PortError, unit) port"
  ap_save :: "OwnershipRecord \<Rightarrow> ('w, PortError, unit) port"
  ap_remove :: "OwnershipRecord \<Rightarrow> ('w, PortError, unit) port"

subsection \<open>Errors and sessions\<close>

definition ATTACH_PREFLIGHT_FAILED :: string where "ATTACH_PREFLIGHT_FAILED = ''ATTACH_PREFLIGHT_FAILED''"
definition PREFLIGHT_BLOCKED :: string where "PREFLIGHT_BLOCKED = ''PREFLIGHT_BLOCKED''"
definition BPF_LOAD_FAILED :: string where "BPF_LOAD_FAILED = ''BPF_LOAD_FAILED''"
definition XDP_ATTACH_FAILED :: string where "XDP_ATTACH_FAILED = ''XDP_ATTACH_FAILED''"
definition XDP_VERIFY_FAILED :: string where "XDP_VERIFY_FAILED = ''XDP_VERIFY_FAILED''"
definition TC_ATTACH_FAILED :: string where "TC_ATTACH_FAILED = ''TC_ATTACH_FAILED''"
definition TC_VERIFY_FAILED :: string where "TC_VERIFY_FAILED = ''TC_VERIFY_FAILED''"
definition MAP_INITIALIZE_FAILED :: string where "MAP_INITIALIZE_FAILED = ''MAP_INITIALIZE_FAILED''"
definition OWNERSHIP_JOURNAL_FAILED :: string where "OWNERSHIP_JOURNAL_FAILED = ''OWNERSHIP_JOURNAL_FAILED''"
definition IFACE_CONFIG_PUBLISH_FAILED :: string where "IFACE_CONFIG_PUBLISH_FAILED = ''IFACE_CONFIG_PUBLISH_FAILED''"
definition OWNED_CLEANUP_INCOMPLETE :: string where "OWNED_CLEANUP_INCOMPLETE = ''OWNED_CLEANUP_INCOMPLETE''"

text \<open>The evidence of an error before it is printed: a port's error, an ownership error, or a fixed text.\<close>

datatype AttachEvidence = PortEvidence PortError | OwnershipEvidence OwnershipError | TextEvidence string

type_synonym cleanup_evidence = "(string \<times> PortError) list"

record AttachmentError =
  ae_code :: string
  ae_evidence :: AttachEvidence
  ae_cleanup_evidence :: cleanup_evidence

definition without_cleanup :: "string \<Rightarrow> AttachEvidence \<Rightarrow> AttachmentError" where
  "without_cleanup code evidence = \<lparr>ae_code = code, ae_evidence = evidence, ae_cleanup_evidence = []\<rparr>"

record AttachmentSession =
  ss_state :: InterfaceState
  ss_generation :: u64
  ss_ownership :: OwnershipRecord
  ss_loaded :: LoadedBpfObject

record RollbackState =
  rb_loaded :: "LoadedBpfObject option"
  rb_xdp :: "OwnedXdp option"
  rb_tc :: "OwnedTc option"
  rb_maps_initialized :: bool
  rb_journal :: "OwnershipRecord option"

definition rollback_default :: RollbackState where
  "rollback_default = \<lparr>rb_loaded = None, rb_xdp = None, rb_tc = None, rb_maps_initialized = False, rb_journal = None\<rparr>"

record 'w AttachmentTransaction =
  tr_world :: 'w
  tr_generation :: u64

definition transaction_new :: "'w \<Rightarrow> 'w AttachmentTransaction" where
  "transaction_new w = \<lparr>tr_world = w, tr_generation = 0\<rparr>"

subsection \<open>Checks\<close>

definition validate_isolated_target :: "InterfaceName \<Rightarrow> PreflightReport \<Rightarrow> (AttachmentError, unit) result" where
  "validate_isolated_target requested report =
     (let interface = pr_interface report
      in if rf_name (in_requested interface) \<noteq> requested \<or> rf_ifindex (in_requested interface) = 0 \<or> in_kind interface \<noteq> KindVeth
            \<or> \<not> in_isolated interface \<or> in_live_shared interface
         then Inl (without_cleanup PF_LIVE_INTERFACE (TextEvidence ''attachment is restricted to the exact isolated veth target''))
         else if pr_decision report = PfBlocked then
           (let code = (case find (\<lambda>finding. pf_severity finding = FsBlocker) (pr_findings report) of
                  None \<Rightarrow> PREFLIGHT_BLOCKED | Some finding \<Rightarrow> pf_code finding)
            in Inl (without_cleanup code (TextEvidence ''preflight blocked isolated attachment'')))
         else Inr ())"

text \<open>\<open>saturating_add(1).max(1)\<close>.\<close>

definition next_generation :: "u64 \<Rightarrow> u64" where
  "next_generation generation = (let n = saturating_add generation 1 in if n < 1 then 1 else n)"

subsection \<open>Cleanup\<close>

text \<open>\<open>collect_cleanup\<close> on the outcome of a call, with the evidence so far and the state of the ports.\<close>

type_synonym 'w cleanup = "cleanup_evidence \<times> 'w \<Rightarrow> cleanup_evidence \<times> 'w"

definition collect_cleanup :: "string \<Rightarrow> ('w, PortError, unit) port \<Rightarrow> 'w cleanup" where
  "collect_cleanup resource call = (\<lambda>(evidence, w).
     case call w of (Inl error, w) \<Rightarrow> (evidence @ [(resource, error)], w) | (Inr _, w) \<Rightarrow> (evidence, w))"

definition cleanup_journal :: "'w AttachPorts \<Rightarrow> OwnershipRecord option \<Rightarrow> 'w cleanup" where
  "cleanup_journal ports journal =
     (case journal of None \<Rightarrow> id | Some record \<Rightarrow> collect_cleanup ''ephemeral ownership journal'' (ap_remove ports record))"

definition cleanup_maps :: "'w AttachPorts \<Rightarrow> bool \<Rightarrow> LoadedBpfObject option \<Rightarrow> u32 \<Rightarrow> u64 \<Rightarrow> 'w cleanup" where
  "cleanup_maps ports initialized loaded ifindex generation =
     (case loaded of
        Some object \<Rightarrow> if initialized then collect_cleanup ''initialized maps'' (ap_rollback_initialized ports object ifindex generation) else id
      | None \<Rightarrow> id)"

definition cleanup_tc :: "'w AttachPorts \<Rightarrow> OwnedTc list \<Rightarrow> 'w cleanup" where
  "cleanup_tc ports owned = fold (\<lambda>filter. collect_cleanup ''TC egress filter'' (ap_tc_detach ports filter)) (rev owned)"

definition cleanup_xdp :: "'w AttachPorts \<Rightarrow> OwnedXdp option \<Rightarrow> 'w cleanup" where
  "cleanup_xdp ports owned = (case owned of None \<Rightarrow> id | Some x \<Rightarrow> collect_cleanup ''XDP link'' (ap_xdp_detach ports x))"

definition cleanup_loaded :: "'w AttachPorts \<Rightarrow> LoadedBpfObject option \<Rightarrow> 'w cleanup" where
  "cleanup_loaded ports loaded = (case loaded of None \<Rightarrow> id | Some object \<Rightarrow> collect_cleanup ''loaded eBPF object'' (ap_unload ports object))"

definition tc_list :: "'a option \<Rightarrow> 'a list" where
  "tc_list owned = (case owned of None \<Rightarrow> [] | Some x \<Rightarrow> [x])"

definition rollback ::
  "'w AttachPorts \<Rightarrow> string \<Rightarrow> PortError \<Rightarrow> RollbackState \<Rightarrow> u32 \<Rightarrow> u64 \<Rightarrow> 'w \<Rightarrow> AttachmentError \<times> 'w" where
  "rollback ports code error rb ifindex generation w =
     (case cleanup_loaded ports (rb_loaded rb)
        (cleanup_xdp ports (rb_xdp rb)
        (cleanup_tc ports (tc_list (rb_tc rb))
        (cleanup_maps ports (rb_maps_initialized rb) (rb_loaded rb) ifindex generation
        (cleanup_journal ports (rb_journal rb) ([], w))))) of
        (evidence, w) \<Rightarrow> (\<lparr>ae_code = code, ae_evidence = PortEvidence error, ae_cleanup_evidence = evidence\<rparr>, w))"

definition rollback_pass_through ::
  "'w AttachPorts \<Rightarrow> string \<Rightarrow> PortError \<Rightarrow> RollbackState \<Rightarrow> u32 \<Rightarrow> u64 \<Rightarrow> 'w \<Rightarrow> AttachmentError \<times> 'w" where
  "rollback_pass_through ports code error rb ifindex generation w =
     (case cleanup_loaded ports (rb_loaded rb)
        (cleanup_maps ports (rb_maps_initialized rb) (rb_loaded rb) ifindex generation
        (cleanup_xdp ports (rb_xdp rb)
        (cleanup_tc ports (tc_list (rb_tc rb))
        (cleanup_journal ports (rb_journal rb) ([], w))))) of
        (evidence, w) \<Rightarrow> (\<lparr>ae_code = code, ae_evidence = PortEvidence error, ae_cleanup_evidence = evidence\<rparr>, w))"

subsection \<open>Attaching\<close>

text \<open>A step of the transaction: on an error, its code or the stable code of the error, and the rollback.\<close>

definition attempt ::
  "('w, PortError, 'a) port \<Rightarrow> (PortError \<Rightarrow> 'w \<Rightarrow> AttachmentError \<times> 'w) \<Rightarrow> ('a \<Rightarrow> ('w, AttachmentError, 'b) port) \<Rightarrow>
   ('w, AttachmentError, 'b) port" where
  "attempt call undo f w =
     (case call w of
        (Inl error, w) \<Rightarrow> (case undo error w of (e, w) \<Rightarrow> (Inl e, w))
      | (Inr a, w) \<Rightarrow> f a w)"

definition no_undo :: "string \<Rightarrow> PortError \<Rightarrow> 'w \<Rightarrow> AttachmentError \<times> 'w" where
  "no_undo code error w = (without_cleanup code (PortEvidence error), w)"

definition coded :: "string \<Rightarrow> PortError \<Rightarrow> string" where
  "coded code error = unwrap_or (stable_code error) code"

definition record_of :: "u64 \<Rightarrow> u32 \<Rightarrow> OwnedXdp \<Rightarrow> OwnedTc \<Rightarrow> LoadedBpfObject \<Rightarrow> u64 \<Rightarrow> OwnershipRecord" where
  "record_of generation ifindex xdp tc loaded created_at_unix_seconds =
     \<lparr>or_schema_version = OWNERSHIP_SCHEMA_VERSION, or_abi_version = ABI_VERSION, or_generation = generation, or_ifindex = ifindex,
      or_xdp = Some xdp, or_tc = [tc], or_map_pins = lo_map_pins loaded, or_created_at_unix_seconds = created_at_unix_seconds\<rparr>"

definition open_pins :: "RunId \<Rightarrow> ('w, AttachmentError, TestPinRoot) port" where
  "open_pins run_id =
     (case pin_root_new run_id of
        Inl e \<Rightarrow> port_lift (Inl (without_cleanup BPF_LOAD_FAILED (OwnershipEvidence e)))
      | Inr pins \<Rightarrow> port_return pins)"

text \<open>The steps of \<open>execute\<close> once the object is loaded.\<close>

definition attach_loaded ::
  "'w AttachPorts \<Rightarrow> u64 \<Rightarrow> u32 \<Rightarrow> u64 \<Rightarrow> LoadedBpfObject \<Rightarrow> ('w, AttachmentError, AttachmentSession) port" where
  "attach_loaded ports old_generation ifindex created_at_unix_seconds loaded =
     (let rb = rollback_default\<lparr>rb_loaded := Some loaded\<rparr>
      in attempt (ap_xdp_attach ports ifindex XdpGeneric (lo_xdp loaded)) (\<lambda>e. rollback ports (coded XDP_ATTACH_FAILED e) e rb ifindex 0) (\<lambda>xdp.
         let rb = rb\<lparr>rb_xdp := Some xdp\<rparr>
         in attempt (ap_xdp_verify ports xdp) (\<lambda>e. rollback ports (coded XDP_VERIFY_FAILED e) e rb ifindex 0) (\<lambda>_.
         attempt (ap_tc_attach ports ifindex TcHookEgress (lo_tc_egress loaded)) (\<lambda>e. rollback ports (coded TC_ATTACH_FAILED e) e rb ifindex 0) (\<lambda>tc.
         let rb = rb\<lparr>rb_tc := Some tc\<rparr>
         in attempt (ap_tc_verify ports tc) (\<lambda>e. rollback ports (coded TC_VERIFY_FAILED e) e rb ifindex 0) (\<lambda>_.
         let generation = next_generation old_generation
         in attempt (ap_initialize ports loaded ifindex generation) (\<lambda>e. rollback ports MAP_INITIALIZE_FAILED e rb ifindex generation) (\<lambda>_.
         let rb = rb\<lparr>rb_maps_initialized := True\<rparr>; record = record_of generation ifindex xdp tc loaded created_at_unix_seconds
         in attempt (ap_save ports record) (\<lambda>e. rollback ports OWNERSHIP_JOURNAL_FAILED e rb ifindex generation) (\<lambda>_.
         let rb = rb\<lparr>rb_journal := Some record\<rparr>
         in attempt (ap_publish ports loaded ifindex generation) (\<lambda>e. rollback ports IFACE_CONFIG_PUBLISH_FAILED e rb ifindex generation) (\<lambda>_.
         port_return \<lparr>ss_state = IfObserving, ss_generation = generation, ss_ownership = record, ss_loaded = loaded\<rparr>))))))))"

definition execute_steps ::
  "'w AttachPorts \<Rightarrow> u64 \<Rightarrow> InterfaceName \<Rightarrow> RunId \<Rightarrow> u64 \<Rightarrow> ('w, AttachmentError, AttachmentSession) port" where
  "execute_steps ports old_generation interface run_id created_at_unix_seconds =
     attempt (ap_inspect ports interface) (no_undo ATTACH_PREFLIGHT_FAILED) (\<lambda>report.
     port_bind (port_lift (validate_isolated_target interface report)) (\<lambda>_.
     attempt (ap_raise_memlock ports) (no_undo PF_MEMLOCK_TOO_LOW) (\<lambda>_.
     port_bind (open_pins run_id) (\<lambda>pins.
     attempt (ap_load ports pins) (no_undo BPF_LOAD_FAILED) (\<lambda>loaded.
     attach_loaded ports old_generation (rf_ifindex (in_requested (pr_interface report))) created_at_unix_seconds loaded)))))"

text \<open>The transaction keeps the generation of its last success.\<close>

definition commit_generation ::
  "(u64 \<Rightarrow> ('w, AttachmentError, AttachmentSession) port) \<Rightarrow> ('w AttachmentTransaction, AttachmentError, AttachmentSession) port" where
  "commit_generation steps t =
     (case steps (tr_generation t) (tr_world t) of
        (Inr session, w) \<Rightarrow> (Inr session, t\<lparr>tr_world := w, tr_generation := ss_generation session\<rparr>)
      | (Inl e, w) \<Rightarrow> (Inl e, t\<lparr>tr_world := w\<rparr>))"

definition transaction_execute ::
  "'w AttachPorts \<Rightarrow> InterfaceName \<Rightarrow> RunId \<Rightarrow> u64 \<Rightarrow> ('w AttachmentTransaction, AttachmentError, AttachmentSession) port" where
  "transaction_execute ports interface run_id created_at_unix_seconds =
     commit_generation (\<lambda>generation. execute_steps ports generation interface run_id created_at_unix_seconds)"

subsection \<open>Detaching\<close>

definition cleanup_result :: "cleanup_evidence \<Rightarrow> (AttachmentError, unit) result" where
  "cleanup_result evidence =
     (if evidence = [] then Inr ()
      else Inl \<lparr>ae_code = OWNED_CLEANUP_INCOMPLETE, ae_evidence = TextEvidence ''one or more exact owned cleanup steps were retained'',
                ae_cleanup_evidence = evidence\<rparr>)"

definition detach_steps :: "'w AttachPorts \<Rightarrow> AttachmentSession \<Rightarrow> ('w, AttachmentError, unit) port" where
  "detach_steps ports session w =
     (let record = ss_ownership session; loaded = Some (ss_loaded session)
      in case cleanup_loaded ports loaded
           (cleanup_xdp ports (or_xdp record)
           (cleanup_tc ports (or_tc record)
           (cleanup_maps ports True loaded (or_ifindex record) (ss_generation session)
           (cleanup_journal ports (Some record) ([], w))))) of
           (evidence, w) \<Rightarrow> (cleanup_result evidence, w))"

definition detach_exact :: "'w AttachPorts \<Rightarrow> AttachmentSession \<Rightarrow> ('w AttachmentTransaction, AttachmentError, unit) port" where
  "detach_exact ports session t = (case detach_steps ports session (tr_world t) of (x, w) \<Rightarrow> (x, t\<lparr>tr_world := w\<rparr>))"

subsection \<open>The acceptance pass-through\<close>

record AcceptancePassThroughPermit =
  pp_run_id :: RunId
  pp_interface :: InterfaceName
  pp_ifindex :: u32
  pp_evidence_root :: path
  pp_artifact_root :: path
  pp_journal_path :: path

definition permit_authorizes :: "AcceptancePassThroughPermit \<Rightarrow> InterfaceName \<Rightarrow> PreflightReport \<Rightarrow> bool" where
  "permit_authorizes permit interface report \<longleftrightarrow>
     interface = pp_interface permit \<and> rf_name (in_requested (pr_interface report)) = pp_interface permit
     \<and> rf_ifindex (in_requested (pr_interface report)) = pp_ifindex permit"

definition matches_attachment :: "AcceptancePassThroughPermit \<Rightarrow> AttachmentSession \<Rightarrow> bool" where
  "matches_attachment permit attachment \<longleftrightarrow>
     (let pin_root = TEST_PIN_BASE @ [Normal (run_id_str (pp_run_id permit))]; record = ss_ownership attachment
      in or_ifindex record = pp_ifindex permit \<and> ss_generation attachment = or_generation record
         \<and> length (or_map_pins record) = length OWNED_MAP_NAMES
         \<and> list_all (\<lambda>pin. List.member OWNED_MAP_NAMES (mp_name pin) \<and> mp_path pin = pin_root @ [Normal (mp_name pin)]) (or_map_pins record))"

datatype AcceptancePassThroughSession = AcceptancePassThroughSession (pass_attachment: AttachmentSession)

definition observation_enabled :: "AcceptancePassThroughSession \<Rightarrow> bool" where
  "observation_enabled session = False"

definition pass_through_loaded ::
  "'w AttachPorts \<Rightarrow> u64 \<Rightarrow> u32 \<Rightarrow> u64 \<Rightarrow> LoadedBpfObject \<Rightarrow> ('w, AttachmentError, AttachmentSession) port" where
  "pass_through_loaded ports old_generation ifindex created_at_unix_seconds loaded =
     (let rb = rollback_default\<lparr>rb_loaded := Some loaded\<rparr>; generation = next_generation old_generation;
          undo = (\<lambda>code rb e. rollback_pass_through ports code e rb ifindex generation)
      in attempt (ap_initialize ports loaded ifindex generation) (undo MAP_INITIALIZE_FAILED rb) (\<lambda>_.
         let rb = rb\<lparr>rb_maps_initialized := True\<rparr>
         in attempt (ap_xdp_attach ports ifindex XdpGeneric (lo_xdp loaded)) (\<lambda>e. undo (coded XDP_ATTACH_FAILED e) rb e) (\<lambda>xdp.
         let rb = rb\<lparr>rb_xdp := Some xdp\<rparr>
         in attempt (ap_xdp_verify ports xdp) (\<lambda>e. undo (coded XDP_VERIFY_FAILED e) rb e) (\<lambda>_.
         attempt (ap_tc_attach ports ifindex TcHookEgress (lo_tc_egress loaded)) (\<lambda>e. undo (coded TC_ATTACH_FAILED e) rb e) (\<lambda>tc.
         let rb = rb\<lparr>rb_tc := Some tc\<rparr>
         in attempt (ap_tc_verify ports tc) (\<lambda>e. undo (coded TC_VERIFY_FAILED e) rb e) (\<lambda>_.
         let record = record_of generation ifindex xdp tc loaded created_at_unix_seconds
         in attempt (ap_save ports record) (undo OWNERSHIP_JOURNAL_FAILED rb) (\<lambda>_.
         port_return \<lparr>ss_state = IfAttaching, ss_generation = generation, ss_ownership = record, ss_loaded = loaded\<rparr>)))))))"

definition pass_through_steps ::
  "'w AttachPorts \<Rightarrow> u64 \<Rightarrow> AcceptancePassThroughPermit \<Rightarrow> u64 \<Rightarrow> ('w, AttachmentError, AttachmentSession) port" where
  "pass_through_steps ports old_generation permit created_at_unix_seconds =
     attempt (ap_inspect ports (pp_interface permit)) (no_undo ATTACH_PREFLIGHT_FAILED) (\<lambda>report.
     port_bind (port_lift (validate_isolated_target (pp_interface permit) report)) (\<lambda>_.
     if \<not> permit_authorizes permit (pp_interface permit) report
     then port_lift (Inl (without_cleanup PF_OWNERSHIP_MISMATCH (TextEvidence ''acceptance pass-through permit identity changed'')))
     else
       attempt (ap_raise_memlock ports) (no_undo PF_MEMLOCK_TOO_LOW) (\<lambda>_.
       port_bind (open_pins (pp_run_id permit)) (\<lambda>pins.
       attempt (ap_load ports pins) (no_undo BPF_LOAD_FAILED) (\<lambda>loaded.
       pass_through_loaded ports old_generation (rf_ifindex (in_requested (pr_interface report))) created_at_unix_seconds loaded)))))"

definition execute_acceptance_pass_through ::
  "'w AttachPorts \<Rightarrow> AcceptancePassThroughPermit \<Rightarrow> u64 \<Rightarrow>
   ('w AttachmentTransaction, AttachmentError, AcceptancePassThroughSession) port" where
  "execute_acceptance_pass_through ports permit created_at_unix_seconds =
     port_bind (commit_generation (\<lambda>generation. pass_through_steps ports generation permit created_at_unix_seconds))
       (\<lambda>attachment. port_return (AcceptancePassThroughSession attachment))"

definition pass_through_detach_steps :: "'w AttachPorts \<Rightarrow> AttachmentSession \<Rightarrow> ('w, AttachmentError, unit) port" where
  "pass_through_detach_steps ports session w =
     (let record = ss_ownership session; loaded = Some (ss_loaded session)
      in case cleanup_loaded ports loaded
           (cleanup_maps ports True loaded (or_ifindex record) (ss_generation session)
           (cleanup_xdp ports (or_xdp record)
           (cleanup_tc ports (or_tc record)
           (cleanup_journal ports (Some record) ([], w))))) of
           (evidence, w) \<Rightarrow> (cleanup_result evidence, w))"

definition detach_acceptance_pass_through_exact ::
  "'w AttachPorts \<Rightarrow> AcceptancePassThroughPermit \<Rightarrow> AcceptancePassThroughSession \<Rightarrow> ('w AttachmentTransaction, AttachmentError, unit) port" where
  "detach_acceptance_pass_through_exact ports permit session t =
     (if \<not> matches_attachment permit (pass_attachment session)
      then (Inl (without_cleanup PF_OWNERSHIP_MISMATCH (TextEvidence ''acceptance pass-through cleanup identity changed'')), t)
      else case pass_through_detach_steps ports (pass_attachment session) (tr_world t) of (x, w) \<Rightarrow> (x, t\<lparr>tr_world := w\<rparr>))"

section \<open>What the ports promise\<close>

text \<open>
  The ledger of the kernel objects, map entries and journals that exist, as the comments of \<open>ports.rs\<close>
  speak of them. A call that acquires adds one thing that was not there, and on an error nothing; one
  that releases removes its things and no others, and on an error may have removed some of them.
\<close>

datatype Resource = ResLoaded LoadedBpfObject | ResXdp OwnedXdp | ResTc OwnedTc | ResMaps LoadedBpfObject u32 u64
  | ResGate LoadedBpfObject u32 u64 | ResJournal OwnershipRecord

definition looks :: "('w \<Rightarrow> Resource set) \<Rightarrow> ('w, PortError, 'a) port \<Rightarrow> bool" where
  "looks ledger call \<longleftrightarrow> (\<forall>w. ledger (snd (call w)) = ledger w)"

definition acquires :: "('w \<Rightarrow> Resource set) \<Rightarrow> ('w, PortError, 'a) port \<Rightarrow> ('a \<Rightarrow> Resource) \<Rightarrow> bool" where
  "acquires ledger call thing \<longleftrightarrow>
     (\<forall>w. case call w of (Inl _, w') \<Rightarrow> ledger w' = ledger w
        | (Inr a, w') \<Rightarrow> thing a \<notin> ledger w \<and> ledger w' = insert (thing a) (ledger w))"

definition releases :: "('w \<Rightarrow> Resource set) \<Rightarrow> ('w, PortError, unit) port \<Rightarrow> Resource set \<Rightarrow> bool" where
  "releases ledger call things \<longleftrightarrow>
     (\<forall>w. case call w of (Inl _, w') \<Rightarrow> ledger w - things \<subseteq> ledger w' \<and> ledger w' \<subseteq> ledger w
        | (Inr _, w') \<Rightarrow> ledger w' = ledger w - things)"

definition honest_ports :: "'w AttachPorts \<Rightarrow> ('w \<Rightarrow> Resource set) \<Rightarrow> bool" where
  "honest_ports ports ledger \<longleftrightarrow>
     (\<forall>i. looks ledger (ap_inspect ports i)) \<and> looks ledger (ap_raise_memlock ports)
     \<and> (\<forall>p. acquires ledger (ap_load ports p) ResLoaded) \<and> (\<forall>l. releases ledger (ap_unload ports l) {ResLoaded l})
     \<and> (\<forall>i m l. acquires ledger (ap_xdp_attach ports i m l) ResXdp) \<and> (\<forall>x. looks ledger (ap_xdp_verify ports x))
     \<and> (\<forall>x. releases ledger (ap_xdp_detach ports x) {ResXdp x})
     \<and> (\<forall>i h l. acquires ledger (ap_tc_attach ports i h l) ResTc) \<and> (\<forall>x. looks ledger (ap_tc_verify ports x))
     \<and> (\<forall>x. releases ledger (ap_tc_detach ports x) {ResTc x})
     \<and> (\<forall>l i g. acquires ledger (ap_initialize ports l i g) (\<lambda>_. ResMaps l i g))
     \<and> (\<forall>l i g. acquires ledger (ap_publish ports l i g) (\<lambda>_. ResGate l i g))
     \<and> (\<forall>l i g. releases ledger (ap_rollback_initialized ports l i g) {ResMaps l i g, ResGate l i g})
     \<and> (\<forall>r. acquires ledger (ap_save ports r) (\<lambda>_. ResJournal r)) \<and> (\<forall>r. releases ledger (ap_remove ports r) {ResJournal r})
     \<and> (\<forall>w l i g. ResGate l i g \<in> ledger w \<longrightarrow> ResMaps l i g \<in> ledger w)"

lemma honest_gate: "honest_ports ports ledger \<Longrightarrow> ResMaps l i g \<notin> ledger w \<Longrightarrow> ResGate l i g \<notin> ledger w"
  unfolding honest_ports_def by blast

section \<open>Cleaning up\<close>

text \<open>A cleanup keeps everything else, and without new evidence it removed all it should.\<close>

definition cleans :: "('w \<Rightarrow> Resource set) \<Rightarrow> 'w cleanup \<Rightarrow> Resource set \<Rightarrow> bool" where
  "cleans ledger c things \<longleftrightarrow>
     (\<forall>ev w. \<exists>more w'. c (ev, w) = (ev @ more, w') \<and> ledger w - things \<subseteq> ledger w' \<and> ledger w' \<subseteq> ledger w
        \<and> (more = [] \<longrightarrow> ledger w' = ledger w - things))"

named_theorems clean_rules

lemma cleans_id [clean_rules]: "cleans ledger id {}"
  by (simp add: cleans_def)

lemma cleans_collect [clean_rules]: "releases ledger call things \<Longrightarrow> cleans ledger (collect_cleanup resource call) things"
  unfolding cleans_def
proof (intro allI)
  fix ev :: cleanup_evidence and w :: 'a
  assume r: "releases ledger call things"
  obtain x w' where x: "call w = (x, w')" by fastforce
  from r [unfolded releases_def, rule_format, of w] x
  show "\<exists>more w'. collect_cleanup resource call (ev, w) = (ev @ more, w') \<and> ledger w - things \<subseteq> ledger w' \<and> ledger w' \<subseteq> ledger w
        \<and> (more = [] \<longrightarrow> ledger w' = ledger w - things)"
    by (cases x) (auto simp: collect_cleanup_def)
qed

lemma cleans_then:
  assumes "cleans ledger c things" "cleans ledger d others"
  shows "cleans ledger (\<lambda>s. d (c s)) (things \<union> others)"
  unfolding cleans_def
proof (intro allI)
  fix ev w
  obtain m w1 where c: "c (ev, w) = (ev @ m, w1)" "ledger w - things \<subseteq> ledger w1" "ledger w1 \<subseteq> ledger w" "m = [] \<longrightarrow> ledger w1 = ledger w - things"
    using assms(1) unfolding cleans_def by meson
  obtain n w2 where d: "d (ev @ m, w1) = ((ev @ m) @ n, w2)" "ledger w1 - others \<subseteq> ledger w2" "ledger w2 \<subseteq> ledger w1" "n = [] \<longrightarrow> ledger w2 = ledger w1 - others"
    using assms(2) unfolding cleans_def by meson
  show "\<exists>more w'. d (c (ev, w)) = (ev @ more, w') \<and> ledger w - (things \<union> others) \<subseteq> ledger w' \<and> ledger w' \<subseteq> ledger w
        \<and> (more = [] \<longrightarrow> ledger w' = ledger w - (things \<union> others))"
    using c d by (intro exI [of _ "m @ n"] exI [of _ w2]) auto
qed

definition journal_things :: "OwnershipRecord option \<Rightarrow> Resource set" where
  "journal_things journal = ResJournal ` set_option journal"

definition map_things :: "bool \<Rightarrow> LoadedBpfObject option \<Rightarrow> u32 \<Rightarrow> u64 \<Rightarrow> Resource set" where
  "map_things initialized loaded i g = (if initialized then (\<Union>l \<in> set_option loaded. {ResMaps l i g, ResGate l i g}) else {})"

lemma cleans_steps:
  assumes "honest_ports ports ledger"
  shows "cleans ledger (cleanup_journal ports journal) (journal_things journal)"
    "cleans ledger (cleanup_maps ports initialized loaded i g) (map_things initialized loaded i g)"
    "cleans ledger (cleanup_tc ports tcs) (ResTc ` set tcs)" "cleans ledger (cleanup_xdp ports xdp) (ResXdp ` set_option xdp)"
    "cleans ledger (cleanup_loaded ports loaded) (ResLoaded ` set_option loaded)"
proof -
  have releases: "releases ledger (ap_remove ports r) {ResJournal r}" "releases ledger (ap_rollback_initialized ports l i g) {ResMaps l i g, ResGate l i g}"
    "releases ledger (ap_tc_detach ports t) {ResTc t}" "releases ledger (ap_xdp_detach ports x) {ResXdp x}" "releases ledger (ap_unload ports l) {ResLoaded l}"
    for r l i g t x using assms by (simp_all add: honest_ports_def)
  show "cleans ledger (cleanup_journal ports journal) (journal_things journal)"
    by (cases journal) (auto simp: cleanup_journal_def journal_things_def intro!: clean_rules releases)
  show "cleans ledger (cleanup_maps ports initialized loaded i g) (map_things initialized loaded i g)"
    by (cases loaded) (auto simp: cleanup_maps_def map_things_def intro!: clean_rules releases)
  show "cleans ledger (cleanup_xdp ports xdp) (ResXdp ` set_option xdp)"
    by (cases xdp) (auto simp: cleanup_xdp_def intro!: clean_rules releases)
  show "cleans ledger (cleanup_loaded ports loaded) (ResLoaded ` set_option loaded)"
    by (cases loaded) (auto simp: cleanup_loaded_def intro!: clean_rules releases)
  have "cleans ledger (fold (\<lambda>filter. collect_cleanup ''TC egress filter'' (ap_tc_detach ports filter)) ts) (ResTc ` set ts)" for ts
  proof (induction ts)
    case Nil
    show ?case by (simp add: cleans_def)
  next
    case (Cons t ts)
    from cleans_then [OF cleans_collect [OF releases(3)] Cons] show ?case by (simp add: comp_def)
  qed
  from this [of "rev tcs"] show "cleans ledger (cleanup_tc ports tcs) (ResTc ` set tcs)" by (simp add: cleanup_tc_def)
qed


text \<open>Everything a rollback is told to undo, and everything a session holds.\<close>

definition rollback_things :: "RollbackState \<Rightarrow> u32 \<Rightarrow> u64 \<Rightarrow> Resource set" where
  "rollback_things rb i g =
     journal_things (rb_journal rb) \<union> map_things (rb_maps_initialized rb) (rb_loaded rb) i g \<union> ResTc ` set_option (rb_tc rb)
     \<union> ResXdp ` set_option (rb_xdp rb) \<union> ResLoaded ` set_option (rb_loaded rb)"

definition session_things :: "AttachmentSession \<Rightarrow> Resource set" where
  "session_things session =
     (let record = ss_ownership session; l = ss_loaded session
      in {ResJournal record, ResMaps l (or_ifindex record) (ss_generation session), ResGate l (or_ifindex record) (ss_generation session), ResLoaded l}
         \<union> ResTc ` set (or_tc record) \<union> ResXdp ` set_option (or_xdp record))"

lemma set_tc_list [simp]: "set (tc_list x) = set_option x"
  by (cases x) (simp_all add: tc_list_def)

lemma cleans_rollback:
  assumes "honest_ports ports ledger"
  shows "cleans ledger (\<lambda>s. cleanup_loaded ports (rb_loaded rb) (cleanup_xdp ports (rb_xdp rb) (cleanup_tc ports (tc_list (rb_tc rb))
      (cleanup_maps ports (rb_maps_initialized rb) (rb_loaded rb) i g (cleanup_journal ports (rb_journal rb) s))))) (rollback_things rb i g)"
    "cleans ledger (\<lambda>s. cleanup_loaded ports (rb_loaded rb) (cleanup_maps ports (rb_maps_initialized rb) (rb_loaded rb) i g
      (cleanup_xdp ports (rb_xdp rb) (cleanup_tc ports (tc_list (rb_tc rb)) (cleanup_journal ports (rb_journal rb) s))))) (rollback_things rb i g)"
proof -
  note steps = cleans_steps [OF assms]
  have "cleans ledger (\<lambda>s. cleanup_loaded ports (rb_loaded rb) (cleanup_xdp ports (rb_xdp rb) (cleanup_tc ports (tc_list (rb_tc rb))
      (cleanup_maps ports (rb_maps_initialized rb) (rb_loaded rb) i g (cleanup_journal ports (rb_journal rb) s)))))
      ((((journal_things (rb_journal rb) \<union> map_things (rb_maps_initialized rb) (rb_loaded rb) i g) \<union> ResTc ` set (tc_list (rb_tc rb)))
        \<union> ResXdp ` set_option (rb_xdp rb)) \<union> ResLoaded ` set_option (rb_loaded rb))"
    by (intro cleans_then steps)
  then show "cleans ledger (\<lambda>s. cleanup_loaded ports (rb_loaded rb) (cleanup_xdp ports (rb_xdp rb) (cleanup_tc ports (tc_list (rb_tc rb))
      (cleanup_maps ports (rb_maps_initialized rb) (rb_loaded rb) i g (cleanup_journal ports (rb_journal rb) s))))) (rollback_things rb i g)"
    by (simp add: rollback_things_def)
  have "cleans ledger (\<lambda>s. cleanup_loaded ports (rb_loaded rb) (cleanup_maps ports (rb_maps_initialized rb) (rb_loaded rb) i g
      (cleanup_xdp ports (rb_xdp rb) (cleanup_tc ports (tc_list (rb_tc rb)) (cleanup_journal ports (rb_journal rb) s)))))
      ((((journal_things (rb_journal rb) \<union> ResTc ` set (tc_list (rb_tc rb))) \<union> ResXdp ` set_option (rb_xdp rb))
        \<union> map_things (rb_maps_initialized rb) (rb_loaded rb) i g) \<union> ResLoaded ` set_option (rb_loaded rb))"
    by (intro cleans_then steps)
  then show "cleans ledger (\<lambda>s. cleanup_loaded ports (rb_loaded rb) (cleanup_maps ports (rb_maps_initialized rb) (rb_loaded rb) i g
      (cleanup_xdp ports (rb_xdp rb) (cleanup_tc ports (tc_list (rb_tc rb)) (cleanup_journal ports (rb_journal rb) s))))) (rollback_things rb i g)"
    by (simp add: rollback_things_def Un_assoc Un_left_commute)
qed

section \<open>The transaction\<close>

text \<open>
  The state inside a transaction that began at \<open>w0\<close>: what was there, and \<open>mine\<close>, which was not; and how it
  may end.
\<close>

definition holding :: "('w \<Rightarrow> Resource set) \<Rightarrow> 'w \<Rightarrow> Resource set \<Rightarrow> 'w \<Rightarrow> bool" where
  "holding ledger w0 mine w \<longleftrightarrow> ledger w = ledger w0 \<union> mine \<and> ledger w0 \<inter> mine = {}"

definition undone :: "('w \<Rightarrow> Resource set) \<Rightarrow> 'w \<Rightarrow> AttachmentError \<times> 'w \<Rightarrow> bool" where
  "undone ledger w0 = (\<lambda>(e, w). ledger w0 \<subseteq> ledger w \<and> (ae_cleanup_evidence e = [] \<longrightarrow> ledger w = ledger w0))"

definition ended :: "('w \<Rightarrow> Resource set) \<Rightarrow> 'w \<Rightarrow> ('b \<Rightarrow> Resource set) \<Rightarrow> (AttachmentError, 'b) result \<times> 'w \<Rightarrow> bool" where
  "ended ledger w0 things = (\<lambda>(x, w). case x of Inl e \<Rightarrow> undone ledger w0 (e, w) | Inr b \<Rightarrow> holding ledger w0 (things b) w)"

lemma undone_no_undo: "holding ledger w0 {} w \<Longrightarrow> undone ledger w0 (no_undo code e w)" "holding ledger w0 {} w \<Longrightarrow> undone ledger w0 (without_cleanup code ev, w)"
  by (simp_all add: undone_def no_undo_def without_cleanup_def holding_def)

lemma undone_cleans:
  assumes "cleans ledger c things" "holding ledger w0 mine w" "mine \<subseteq> things" "things \<inter> ledger w0 = {}" "c ([], w) = (evidence, w')"
  shows "undone ledger w0 (\<lparr>ae_code = code, ae_evidence = ev, ae_cleanup_evidence = evidence\<rparr>, w')"
proof -
  from assms(1) obtain more where m: "ledger w - things \<subseteq> ledger w'" "more = evidence" "more = [] \<longrightarrow> ledger w' = ledger w - things"
    unfolding cleans_def by (metis append_Nil assms(5) prod.inject)
  moreover have "ledger w - things = ledger w0" using assms(2-4) by (auto simp: holding_def)
  ultimately show ?thesis by (auto simp: undone_def)
qed

lemma undone_rollback:
  assumes "honest_ports ports ledger" "holding ledger w0 mine w" "mine \<subseteq> rollback_things rb i g" "rollback_things rb i g \<inter> ledger w0 = {}"
  shows "undone ledger w0 (rollback ports code e rb i g w)" "undone ledger w0 (rollback_pass_through ports code e rb i g w)"
  unfolding rollback_def rollback_pass_through_def
  using undone_cleans [OF cleans_rollback(1) [OF assms(1)] assms(2-4)] undone_cleans [OF cleans_rollback(2) [OF assms(1)] assms(2-4)]
  by (auto split: prod.split)

lemma attempt_ended:
  assumes "call w = (x, w')" "\<And>e. x = Inl e \<Longrightarrow> undone ledger w0 (undo e w')" "\<And>a. x = Inr a \<Longrightarrow> ended ledger w0 things (f a w')"
  shows "ended ledger w0 things (attempt call undo f w)"
proof (cases x)
  case (Inl e)
  with assms(1) assms(2) [OF this] show ?thesis by (cases "undo e w'") (simp add: attempt_def ended_def)
next
  case (Inr a)
  with assms(1) assms(3) [OF this] show ?thesis by (simp add: attempt_def)
qed

lemma attempt_looks:
  assumes "looks ledger call" "holding ledger w0 mine w" "\<And>e w. holding ledger w0 mine w \<Longrightarrow> undone ledger w0 (undo e w)"
    "\<And>a w. holding ledger w0 mine w \<Longrightarrow> ended ledger w0 things (f a w)"
  shows "ended ledger w0 things (attempt call undo f w)"
proof -
  obtain x w' where x: "call w = (x, w')" by fastforce
  then have "holding ledger w0 mine w'" using assms(1,2) unfolding looks_def holding_def by (metis snd_conv)
  with assms(3,4) show ?thesis by (intro attempt_ended [where call = call and w = w, OF x]) blast+
qed

lemma attempt_acquires:
  assumes "acquires ledger call thing" "holding ledger w0 mine w" "\<And>e w. holding ledger w0 mine w \<Longrightarrow> undone ledger w0 (undo e w)"
    "\<And>a w. holding ledger w0 (insert (thing a) mine) w \<Longrightarrow> ended ledger w0 things (f a w)"
  shows "ended ledger w0 things (attempt call undo f w)"
proof -
  obtain x w' where x: "call w = (x, w')" by fastforce
  from assms(1) [unfolded acquires_def, rule_format, of w] x
  have "case x of Inl _ \<Rightarrow> ledger w' = ledger w | Inr a \<Rightarrow> thing a \<notin> ledger w \<and> ledger w' = insert (thing a) (ledger w)" by (cases x) auto
  then have "case x of Inl _ \<Rightarrow> holding ledger w0 mine w' | Inr a \<Rightarrow> holding ledger w0 (insert (thing a) mine) w'"
    using assms(2) by (cases x) (auto simp: holding_def)
  with assms(3,4) show ?thesis by (intro attempt_ended [where call = call and w = w, OF x]) auto
qed


lemma honest_looks:
  assumes "honest_ports ports ledger"
  shows "looks ledger (ap_inspect ports i)" "looks ledger (ap_raise_memlock ports)" "looks ledger (ap_xdp_verify ports x)" "looks ledger (ap_tc_verify ports t)"
  using assms by (simp_all add: honest_ports_def)

lemma honest_acquires:
  assumes "honest_ports ports ledger"
  shows "acquires ledger (ap_load ports p) ResLoaded" "acquires ledger (ap_xdp_attach ports i m lx) ResXdp" "acquires ledger (ap_tc_attach ports i h lt) ResTc"
    "acquires ledger (ap_initialize ports l i g) (\<lambda>_. ResMaps l i g)" "acquires ledger (ap_publish ports l i g) (\<lambda>_. ResGate l i g)"
    "acquires ledger (ap_save ports r) (\<lambda>_. ResJournal r)"
  using assms by (simp_all add: honest_ports_def)

lemma rollback_enough:
  assumes "honest_ports ports ledger" "holding ledger w0 mine w" "mine \<subseteq> rollback_things rb i g" "rollback_things rb i g - (case rb_loaded rb of None \<Rightarrow> {} | Some l \<Rightarrow> {ResGate l i g}) \<subseteq> mine"
  shows "undone ledger w0 (rollback ports code e rb i g w)" "undone ledger w0 (rollback_pass_through ports code e rb i g w)"
proof -
  have "rollback_things rb i g \<inter> ledger w0 = {}"
  proof (cases "rb_loaded rb")
    case (Some l)
    have "ResGate l i g \<notin> ledger w0" if "ResGate l i g \<in> rollback_things rb i g"
    proof -
      from that have "ResMaps l i g \<in> rollback_things rb i g"
        by (auto simp: rollback_things_def map_things_def journal_things_def split: if_splits)
      then have "ResMaps l i g \<in> mine" using assms(4) Some by auto
      then have "ResMaps l i g \<notin> ledger w0" using assms(2) by (auto simp: holding_def)
      then show ?thesis by (rule honest_gate [OF assms(1)])
    qed
    then show ?thesis using assms(2,4) Some by (auto simp: holding_def)
  qed (use assms(2,4) in \<open>auto simp: holding_def\<close>)
  then show "undone ledger w0 (rollback ports code e rb i g w)" "undone ledger w0 (rollback_pass_through ports code e rb i g w)"
    using undone_rollback [OF assms(1-3)] by blast+
qed

lemmas thing_defs = rollback_things_def map_things_def journal_things_def rollback_default_def

definition covers :: "RollbackState \<Rightarrow> u32 \<Rightarrow> u64 \<Rightarrow> Resource set \<Rightarrow> bool" where
  "covers rb i g mine \<longleftrightarrow> mine \<subseteq> rollback_things rb i g
     \<and> rollback_things rb i g - (case rb_loaded rb of None \<Rightarrow> {} | Some l \<Rightarrow> {ResGate l i g}) \<subseteq> mine"

text \<open>A step of the transaction whose rollback covers what it holds.\<close>

lemma look_step:
  assumes "honest_ports ports ledger" "looks ledger call" "holding ledger w0 mine w" "covers rb i g mine"
    "\<And>a w. holding ledger w0 mine w \<Longrightarrow> ended ledger w0 things (f a w)"
  shows "ended ledger w0 things (attempt call (\<lambda>e. rollback ports (code e) e rb i g) f w)"
    "ended ledger w0 things (attempt call (\<lambda>e. rollback_pass_through ports (code e) e rb i g) f w)"
  using assms(4) unfolding covers_def
  by (auto intro!: attempt_looks [OF assms(2,3) _ assms(5)] rollback_enough [OF assms(1)])

lemma acquire_step:
  assumes "honest_ports ports ledger" "acquires ledger call thing" "holding ledger w0 mine w" "covers rb i g mine"
    "\<And>a w. holding ledger w0 (insert (thing a) mine) w \<Longrightarrow> ended ledger w0 things (f a w)"
  shows "ended ledger w0 things (attempt call (\<lambda>e. rollback ports (code e) e rb i g) f w)"
    "ended ledger w0 things (attempt call (\<lambda>e. rollback_pass_through ports (code e) e rb i g) f w)"
  using assms(4) unfolding covers_def
  by (auto intro!: attempt_acquires [OF assms(2,3) _ assms(5)] rollback_enough [OF assms(1)])

lemma attach_loaded_ended:
  assumes "honest_ports ports ledger" "holding ledger w0 {ResLoaded l} w"
  shows "ended ledger w0 session_things (attach_loaded ports old i created l w)"
  unfolding attach_loaded_def Let_def
  apply (rule acquire_step(1) [OF assms(1) honest_acquires(2) [OF assms(1)] assms(2)], simp add: covers_def thing_defs)
  apply (rule look_step(1) [OF assms(1) honest_looks(3) [OF assms(1)]], assumption, simp add: covers_def thing_defs)
  apply (rule acquire_step(1) [OF assms(1) honest_acquires(3) [OF assms(1)]], assumption, simp add: covers_def thing_defs)
  apply (rule look_step(1) [OF assms(1) honest_looks(4) [OF assms(1)]], assumption, simp add: covers_def thing_defs)
  apply (rule acquire_step(1) [OF assms(1) honest_acquires(4) [OF assms(1)]], assumption, simp add: covers_def thing_defs)
  apply (rule acquire_step(1) [OF assms(1) honest_acquires(6) [OF assms(1)]], assumption, auto simp: covers_def thing_defs)
  apply (rule acquire_step(1) [OF assms(1) honest_acquires(5) [OF assms(1)]], assumption, auto simp: covers_def thing_defs)
  apply (simp add: ended_def port_return_def session_things_def record_of_def insert_commute)
  done

definition pass_through_things :: "AttachmentSession \<Rightarrow> Resource set" where
  "pass_through_things session = session_things session - {ResGate (ss_loaded session) (or_ifindex (ss_ownership session)) (ss_generation session)}"

lemma pass_through_loaded_ended:
  assumes "honest_ports ports ledger" "holding ledger w0 {ResLoaded l} w"
  shows "ended ledger w0 pass_through_things (pass_through_loaded ports old i created l w)"
  unfolding pass_through_loaded_def Let_def
  apply (rule acquire_step(2) [OF assms(1) honest_acquires(4) [OF assms(1)] assms(2)], simp add: covers_def thing_defs)
  apply (rule acquire_step(2) [OF assms(1) honest_acquires(2) [OF assms(1)]], assumption, auto simp: covers_def thing_defs)
  apply (rule look_step(2) [OF assms(1) honest_looks(3) [OF assms(1)]], assumption, auto simp: covers_def thing_defs)
  apply (rule acquire_step(2) [OF assms(1) honest_acquires(3) [OF assms(1)]], assumption, auto simp: covers_def thing_defs)
  apply (rule look_step(2) [OF assms(1) honest_looks(4) [OF assms(1)]], assumption, auto simp: covers_def thing_defs)
  apply (rule acquire_step(2) [OF assms(1) honest_acquires(6) [OF assms(1)]], assumption, auto simp: covers_def thing_defs)
  apply (auto simp: ended_def port_return_def pass_through_things_def session_things_def record_of_def holding_def)
  done

lemma ended_error: "holding ledger w0 {} w \<Longrightarrow> ended ledger w0 things (Inl (without_cleanup code ev), w)"
  by (simp add: ended_def undone_no_undo)

lemma validate_isolated_error: "validate_isolated_target i report = Inl e \<Longrightarrow> \<exists>code ev. e = without_cleanup code ev"
  by (auto simp: validate_isolated_target_def Let_def split: if_splits)

lemma ended_validated:
  assumes "holding ledger w0 {} w" "\<And>w. holding ledger w0 {} w \<Longrightarrow> ended ledger w0 things (f () w)"
  shows "ended ledger w0 things (port_bind (port_lift (validate_isolated_target i report)) f w)"
  using assms ended_error [OF assms(1)] validate_isolated_error [of i report]
  by (cases "validate_isolated_target i report") (auto simp: port_bind_def port_lift_def)

lemma ended_pins:
  assumes "holding ledger w0 {} w" "\<And>pins w. holding ledger w0 {} w \<Longrightarrow> ended ledger w0 things (f pins w)"
  shows "ended ledger w0 things (port_bind (open_pins run_id) f w)"
  using assms ended_error [OF assms(1)]
  by (cases "pin_root_new run_id") (auto simp: port_bind_def port_lift_def port_return_def open_pins_def)

lemma look_first:
  assumes "looks ledger call" "holding ledger w0 {} w" "\<And>a w. holding ledger w0 {} w \<Longrightarrow> ended ledger w0 things (f a w)"
  shows "ended ledger w0 things (attempt call (no_undo code) f w)"
  by (rule attempt_looks [OF assms(1,2)]) (simp_all add: undone_no_undo assms(3))

lemma acquire_first:
  assumes "acquires ledger call thing" "holding ledger w0 {} w" "\<And>a w. holding ledger w0 {thing a} w \<Longrightarrow> ended ledger w0 things (f a w)"
  shows "ended ledger w0 things (attempt call (no_undo code) f w)"
  by (rule attempt_acquires [OF assms(1,2)]) (simp_all add: undone_no_undo assms(3))

lemma ended_prologue:
  assumes "honest_ports ports ledger" "\<And>l w. holding ledger w0 {ResLoaded l} w \<Longrightarrow> ended ledger w0 things (f l w)" "holding ledger w0 {} w"
  shows "ended ledger w0 things (attempt (ap_raise_memlock ports) (no_undo PF_MEMLOCK_TOO_LOW) (\<lambda>_.
     port_bind (open_pins run_id) (\<lambda>pins. attempt (ap_load ports pins) (no_undo BPF_LOAD_FAILED) f)) w)"
  by (intro look_first [OF honest_looks(2) [OF assms(1)] assms(3)] ended_pins acquire_first [OF honest_acquires(1) [OF assms(1)]] assms(2))

lemma execute_steps_ended:
  assumes "honest_ports ports ledger"
  shows "ended ledger w session_things (execute_steps ports old interface run_id created w)"
  unfolding execute_steps_def
  by (intro look_first [OF honest_looks(1) [OF assms]] ended_validated ended_prologue [OF assms] attach_loaded_ended [OF assms]) (simp add: holding_def)

lemma pass_through_steps_ended:
  assumes "honest_ports ports ledger"
  shows "ended ledger w pass_through_things (pass_through_steps ports old permit created w)"
proof -
  have "holding ledger w {} w" by (simp add: holding_def)
  moreover have "ended ledger w pass_through_things
        ((if \<not> permit_authorizes permit (pp_interface permit) report
          then port_lift (Inl (without_cleanup PF_OWNERSHIP_MISMATCH (TextEvidence ''acceptance pass-through permit identity changed'')))
          else attempt (ap_raise_memlock ports) (no_undo PF_MEMLOCK_TOO_LOW) (\<lambda>_.
            port_bind (open_pins (pp_run_id permit)) (\<lambda>pins.
            attempt (ap_load ports pins) (no_undo BPF_LOAD_FAILED) (\<lambda>loaded.
            pass_through_loaded ports old (rf_ifindex (in_requested (pr_interface report))) created loaded)))) w')"
    if w': "holding ledger w {} w'" for report w'
    by (cases "permit_authorizes permit (pp_interface permit) report")
      (simp_all add: port_lift_def ended_error [OF w'] ended_prologue [OF assms pass_through_loaded_ended [OF assms] w'])
  ultimately show ?thesis
    unfolding pass_through_steps_def by (intro look_first [OF honest_looks(1) [OF assms]] ended_validated)
qed

lemma attach_loaded_session:
  "attach_loaded ports old i created l w = (Inr s, w') \<Longrightarrow> ss_state s = IfObserving \<and> ss_generation s = next_generation old
     \<and> or_ifindex (ss_ownership s) = i \<and> or_generation (ss_ownership s) = next_generation old"
  by (auto simp: attach_loaded_def Let_def attempt_def port_return_def record_of_def split: prod.splits sum.splits)

lemma execute_steps_session:
  assumes "execute_steps ports old interface run_id created w = (Inr s, w')"
  shows "\<exists>report w1. ap_inspect ports interface w = (Inr report, w1) \<and> validate_isolated_target interface report = Inr ()
    \<and> ss_state s = IfObserving \<and> ss_generation s = next_generation old \<and> or_generation (ss_ownership s) = next_generation old
    \<and> or_ifindex (ss_ownership s) = rf_ifindex (in_requested (pr_interface report))"
proof -
  from assms obtain report w1 where r: "ap_inspect ports interface w = (Inr report, w1)"
    by (auto simp: execute_steps_def attempt_def no_undo_def split: prod.splits sum.splits)
  with assms have v: "validate_isolated_target interface report = Inr ()"
    by (cases "validate_isolated_target interface report") (auto simp: execute_steps_def attempt_def port_bind_def port_lift_def)
  from assms r v obtain l w2 where "attach_loaded ports old (rf_ifindex (in_requested (pr_interface report))) created l w2 = (Inr s, w')"
    by (auto simp: execute_steps_def attempt_def no_undo_def port_bind_def port_lift_def open_pins_def port_return_def split: prod.splits sum.splits)
  from attach_loaded_session [OF this] r v show ?thesis by blast
qed

lemma next_generation_pos: "next_generation n \<noteq> 0"
  by (auto simp: next_generation_def Let_def)

lemma cleans_detach:
  assumes "honest_ports ports ledger" "detach_steps ports s w = (x, w')"
  shows "ledger w - session_things s \<subseteq> ledger w'" "x = Inr () \<Longrightarrow> ledger w' = ledger w - session_things s"
    "x = Inl e \<Longrightarrow> ae_cleanup_evidence e \<noteq> []" "ledger w' \<subseteq> ledger w"
proof -
  let ?r = "ss_ownership s" and ?l = "Some (ss_loaded s)"
  note steps = cleans_steps [OF assms(1)]
  have "cleans ledger (\<lambda>st. cleanup_loaded ports ?l (cleanup_xdp ports (or_xdp ?r) (cleanup_tc ports (or_tc ?r)
      (cleanup_maps ports True ?l (or_ifindex ?r) (ss_generation s) (cleanup_journal ports (Some ?r) st)))))
      ((((journal_things (Some ?r) \<union> map_things True ?l (or_ifindex ?r) (ss_generation s)) \<union> ResTc ` set (or_tc ?r))
        \<union> ResXdp ` set_option (or_xdp ?r)) \<union> ResLoaded ` set_option ?l)"
    by (intro cleans_then steps)
  moreover have "((((journal_things (Some ?r) \<union> map_things True ?l (or_ifindex ?r) (ss_generation s)) \<union> ResTc ` set (or_tc ?r))
        \<union> ResXdp ` set_option (or_xdp ?r)) \<union> ResLoaded ` set_option ?l) = session_things s"
    by (auto simp: session_things_def Let_def journal_things_def map_things_def)
  ultimately obtain more w1 where m: "cleanup_loaded ports ?l (cleanup_xdp ports (or_xdp ?r) (cleanup_tc ports (or_tc ?r)
      (cleanup_maps ports True ?l (or_ifindex ?r) (ss_generation s) (cleanup_journal ports (Some ?r) ([], w))))) = ([] @ more, w1)"
    "ledger w - session_things s \<subseteq> ledger w1" "ledger w1 \<subseteq> ledger w" "more = [] \<longrightarrow> ledger w1 = ledger w - session_things s"
    unfolding cleans_def by metis
  then have "x = cleanup_result more" "w' = w1" using assms(2) by (auto simp: detach_steps_def Let_def)
  then show "ledger w - session_things s \<subseteq> ledger w'" "x = Inr () \<Longrightarrow> ledger w' = ledger w - session_things s"
    "x = Inl e \<Longrightarrow> ae_cleanup_evidence e \<noteq> []" "ledger w' \<subseteq> ledger w"
    using m by (auto simp: cleanup_result_def split: if_splits)
qed

subsection \<open>Ports that keep a ledger\<close>

text \<open>A world that is its own ledger: the promises can be kept.\<close>

definition book :: "Resource set \<Rightarrow> Resource set" where
  "book w = {r \<in> w. case r of ResGate l i g \<Rightarrow> ResMaps l i g \<in> w | _ \<Rightarrow> True}"

definition book_add :: "Resource \<Rightarrow> 'a \<Rightarrow> (Resource set, PortError, 'a) port" where
  "book_add r a w = (if r \<in> w then (Inl (Adapter ''exists''), w) else (Inr a, insert r w))"

definition an_object :: LoadedBpfObject where
  "an_object = \<lparr>lo_xdp = \<lparr>lx_program_fd = 3, lx_program_id = 11, lx_program_tag = replicate 8 1\<rparr>, lo_tc_egress = \<lparr>lt_program_fd = 4, lt_program_id = 12\<rparr>,
     lo_map_pins = []\<rparr>"

definition an_xdp :: "u32 \<Rightarrow> XdpAttachMode \<Rightarrow> LoadedXdp \<Rightarrow> OwnedXdp" where
  "an_xdp i m l = \<lparr>ox_ifindex = i, ox_mode = m, ox_program_id = lx_program_id l, ox_program_tag = lx_program_tag l, ox_link_id = None\<rparr>"

definition a_tc :: "u32 \<Rightarrow> TcHook \<Rightarrow> LoadedTc \<Rightarrow> OwnedTc" where
  "a_tc i h l = \<lparr>ot_ifindex = i, ot_hook = h, ot_priority = 1, ot_handle = 1, ot_program_id = lt_program_id l, ot_created_clsact = True\<rparr>"

definition book_ports :: "Resource set AttachPorts" where
  "book_ports =
     \<lparr>ap_inspect = (\<lambda>_ w. (Inr (a_report\<lparr>pr_findings := []\<rparr>), w)), ap_raise_memlock = (\<lambda>w. (Inr (), w)),
      ap_load = (\<lambda>_. book_add (ResLoaded an_object) an_object), ap_unload = (\<lambda>l w. (Inr (), w - {ResLoaded l})),
      ap_xdp_attach = (\<lambda>i m l. book_add (ResXdp (an_xdp i m l)) (an_xdp i m l)), ap_xdp_verify = (\<lambda>_ w. (Inr (), w)),
      ap_xdp_detach = (\<lambda>x w. (Inr (), w - {ResXdp x})),
      ap_tc_attach = (\<lambda>i h l. book_add (ResTc (a_tc i h l)) (a_tc i h l)), ap_tc_verify = (\<lambda>_ w. (Inr (), w)),
      ap_tc_detach = (\<lambda>x w. (Inr (), w - {ResTc x})),
      ap_initialize = (\<lambda>l i g w. if ResGate l i g \<in> w then (Inl (Adapter ''stale''), w) else book_add (ResMaps l i g) () w),
      ap_publish = (\<lambda>l i g w. if ResMaps l i g \<notin> w then (Inl (Adapter ''early''), w) else book_add (ResGate l i g) () w),
      ap_rollback_initialized = (\<lambda>l i g w. (Inr (), w - {ResMaps l i g, ResGate l i g})),
      ap_save = (\<lambda>r. book_add (ResJournal r) ()), ap_remove = (\<lambda>r w. (Inr (), w - {ResJournal r}))\<rparr>"

lemma book_plain: "(\<And>l i g. r \<noteq> ResMaps l i g \<and> r \<noteq> ResGate l i g) \<Longrightarrow> book (insert r w) = insert r (book w) \<and> (r \<in> book w \<longleftrightarrow> r \<in> w) \<and> book (w - {r}) = book w - {r}"
  by (auto simp: book_def split: Resource.splits)

lemma book_maps:
  "ResGate l i g \<notin> w \<Longrightarrow> book (insert (ResMaps l i g) w) = insert (ResMaps l i g) (book w)"
  "ResMaps l i g \<in> w \<Longrightarrow> book (insert (ResGate l i g) w) = insert (ResGate l i g) (book w)"
  "ResMaps l i g \<in> book w \<longleftrightarrow> ResMaps l i g \<in> w" "ResGate l i g \<in> book w \<longleftrightarrow> ResGate l i g \<in> w \<and> ResMaps l i g \<in> w"
  "book (w - {ResMaps l i g, ResGate l i g}) = book w - {ResMaps l i g, ResGate l i g}"
  by (auto simp: book_def split: Resource.splits)

lemma book_add_acquires: "(\<And>l i g. r \<noteq> ResMaps l i g \<and> r \<noteq> ResGate l i g) \<Longrightarrow> r = thing a \<Longrightarrow> acquires book (book_add r a) thing"
  using book_plain [of r] by (auto simp: acquires_def book_add_def)

lemma book_honest: "honest_ports book_ports book"
  unfolding honest_ports_def book_ports_def
  using book_plain [of "ResLoaded l" for l] book_plain [of "ResXdp x" for x] book_plain [of "ResTc x" for x] book_plain [of "ResJournal x" for x]
  by (auto simp: looks_def releases_def acquires_def book_add_def book_maps)

text \<open>
  \<^bold>\<open>C35.\<close> Attaching is all or nothing. With ports that keep their promises, a failed attach has removed nothing
  that was there before, and when its error carries no cleanup evidence the ledger is exactly as before;
  the generation does not advance. A successful one has added exactly the object, the two hooks, the map
  entries, the journal and, for an observing attach only, the activation gate; the pass-through never
  opens that gate.
\<close>

theorem attach_is_transactional:
  assumes "honest_ports ports ledger"
  shows "(case transaction_execute ports interface run_id created t of
      (Inl e, t') \<Rightarrow> ledger (tr_world t) \<subseteq> ledger (tr_world t') \<and> (ae_cleanup_evidence e = [] \<longrightarrow> ledger (tr_world t') = ledger (tr_world t))
        \<and> tr_generation t' = tr_generation t
    | (Inr s, t') \<Rightarrow> ledger (tr_world t') = ledger (tr_world t) \<union> session_things s \<and> ledger (tr_world t) \<inter> session_things s = {}
        \<and> tr_generation t' = ss_generation s \<and> ss_generation s \<noteq> 0)
    \<and> (case execute_acceptance_pass_through ports permit created t of
      (Inl e, t') \<Rightarrow> ledger (tr_world t) \<subseteq> ledger (tr_world t') \<and> (ae_cleanup_evidence e = [] \<longrightarrow> ledger (tr_world t') = ledger (tr_world t))
        \<and> tr_generation t' = tr_generation t
    | (Inr s, t') \<Rightarrow> ledger (tr_world t') = ledger (tr_world t) \<union> (session_things (pass_attachment s) - range (\<lambda>(l, i, g). ResGate l i g))
        \<and> tr_generation t' = ss_generation (pass_attachment s))"
proof
  obtain x w where r: "execute_steps ports (tr_generation t) interface run_id created (tr_world t) = (x, w)" by fastforce
  from execute_steps_ended [OF assms, of "tr_world t" "tr_generation t" interface run_id created]
    execute_steps_session [of ports "tr_generation t" interface run_id created "tr_world t" _ w]
  show "case transaction_execute ports interface run_id created t of
      (Inl e, t') \<Rightarrow> ledger (tr_world t) \<subseteq> ledger (tr_world t') \<and> (ae_cleanup_evidence e = [] \<longrightarrow> ledger (tr_world t') = ledger (tr_world t))
        \<and> tr_generation t' = tr_generation t
    | (Inr s, t') \<Rightarrow> ledger (tr_world t') = ledger (tr_world t) \<union> session_things s \<and> ledger (tr_world t) \<inter> session_things s = {}
        \<and> tr_generation t' = ss_generation s \<and> ss_generation s \<noteq> 0"
    unfolding r by (cases x) (auto simp: transaction_execute_def commit_generation_def r ended_def undone_def holding_def next_generation_pos)
next
  obtain x w where r: "pass_through_steps ports (tr_generation t) permit created (tr_world t) = (x, w)" by fastforce
  have gates: "pass_through_things s = session_things s - range (\<lambda>(l, i, g). ResGate l i g)" for s
    by (auto simp: pass_through_things_def session_things_def Let_def image_iff)
  from pass_through_steps_ended [OF assms, of "tr_world t" "tr_generation t" permit created]
  show "case execute_acceptance_pass_through ports permit created t of
      (Inl e, t') \<Rightarrow> ledger (tr_world t) \<subseteq> ledger (tr_world t') \<and> (ae_cleanup_evidence e = [] \<longrightarrow> ledger (tr_world t') = ledger (tr_world t))
        \<and> tr_generation t' = tr_generation t
    | (Inr s, t') \<Rightarrow> ledger (tr_world t') = ledger (tr_world t) \<union> (session_things (pass_attachment s) - range (\<lambda>(l, i, g). ResGate l i g))
        \<and> tr_generation t' = ss_generation (pass_attachment s)"
    unfolding r by (cases x)
      (auto simp: execute_acceptance_pass_through_def commit_generation_def r ended_def undone_def holding_def port_bind_def port_return_def gates)
qed

definition a_run :: RunId where
  "a_run = RunId (replicate 32 (CHR ''0''))"

definition a_session :: AttachmentSession where
  "a_session = \<lparr>ss_state = IfObserving, ss_generation = 1,
     ss_ownership = record_of 1 7 (an_xdp 7 XdpGeneric (lo_xdp an_object)) (a_tc 7 TcHookEgress (lo_tc_egress an_object)) an_object 5, ss_loaded = an_object\<rparr>"

lemma book_run: "\<exists>t'. transaction_execute book_ports (InterfaceName ''veth0'') a_run 5 (transaction_new {}) = (Inr a_session, t')"
proof -
  have report: "validate_isolated_target (InterfaceName ''veth0'') (a_report\<lparr>pr_findings := []\<rparr>) = Inr ()"
    "rf_ifindex (in_requested (pr_interface (a_report\<lparr>pr_findings := []\<rparr>))) = 7" by (simp_all add: validate_isolated_target_def a_report_def)
  have pins: "\<exists>pins. pin_root_new a_run = Inr pins"
    by (simp add: pin_root_new_def pin_root_for_root_def validate_absolute_root_def TEST_PIN_BASE_def is_absolute_def)
  have gen: "next_generation 0 = 1" by (simp add: next_generation_def saturating_add_def)
  obtain w where "execute_steps book_ports 0 (InterfaceName ''veth0'') a_run 5 {} = (Inr a_session, w)"
    using report pins gen unfolding execute_steps_def attach_loaded_def
    by (auto simp: book_ports_def attempt_def port_bind_def port_lift_def port_return_def open_pins_def book_add_def Let_def a_session_def)
  then show ?thesis by (simp add: transaction_execute_def commit_generation_def transaction_new_def a_session_def)
qed

theorem attach_is_transactional_witness:
  "\<exists>t'. transaction_execute book_ports (InterfaceName ''veth0'') a_run 5 (transaction_new {}) = (Inr a_session, t')
    \<and> book (tr_world t') = session_things a_session"
proof -
  obtain t' where t': "transaction_execute book_ports (InterfaceName ''veth0'') a_run 5 (transaction_new {}) = (Inr a_session, t')" using book_run by blast
  moreover have "book (tr_world (transaction_new {})) = {}" by (simp add: book_def transaction_new_def)
  ultimately show ?thesis
    using attach_is_transactional [OF book_honest, where interface = "InterfaceName ''veth0''" and run_id = a_run and created = 5 and t = "transaction_new {}"] by auto
qed



text \<open>
  Only an isolated test interface is ever attached to. When the inspection does not show the requested
  interface as an isolated, unshared veth with an index, or its decision is blocked, the attach stops there:
  nothing after the inspection is called and the error names the reason. A session therefore always belongs
  to such an interface and starts observing under a generation of its own.
\<close>

theorem attach_needs_isolated_target:
  assumes "ap_inspect ports interface (tr_world t) = (Inr report, w)"
  shows "(validate_isolated_target interface report \<noteq> Inr () \<longrightarrow>
      (\<exists>e. transaction_execute ports interface run_id created t = (Inl e, t\<lparr>tr_world := w\<rparr>) \<and> ae_cleanup_evidence e = []))
    \<and> (\<forall>s t'. transaction_execute ports interface run_id created t = (Inr s, t') \<longrightarrow>
        rf_name (in_requested (pr_interface report)) = interface \<and> in_kind (pr_interface report) = KindVeth \<and> in_isolated (pr_interface report)
        \<and> \<not> in_live_shared (pr_interface report) \<and> pr_decision report \<noteq> PfBlocked
        \<and> or_ifindex (ss_ownership s) = rf_ifindex (in_requested (pr_interface report)) \<and> or_ifindex (ss_ownership s) \<noteq> 0
        \<and> ss_state s = IfObserving \<and> ss_generation s = or_generation (ss_ownership s) \<and> ss_generation s \<noteq> 0)"
proof (intro conjI impI allI)
  assume "validate_isolated_target interface report \<noteq> Inr ()"
  then obtain e where e: "validate_isolated_target interface report = Inl e" by (cases "validate_isolated_target interface report") auto
  from validate_isolated_error [OF e] have "ae_cleanup_evidence e = []" by (auto simp: without_cleanup_def)
  with e assms show "\<exists>e. transaction_execute ports interface run_id created t = (Inl e, t\<lparr>tr_world := w\<rparr>) \<and> ae_cleanup_evidence e = []"
    by (simp add: transaction_execute_def commit_generation_def execute_steps_def attempt_def port_bind_def port_lift_def)
next
  fix s t'
  assume "transaction_execute ports interface run_id created t = (Inr s, t')"
  then obtain w' where "execute_steps ports (tr_generation t) interface run_id created (tr_world t) = (Inr s, w')"
    by (auto simp: transaction_execute_def commit_generation_def split: prod.splits sum.splits)
  from execute_steps_session [OF this] assms next_generation_pos
  have v: "validate_isolated_target interface report = Inr ()" and s: "ss_state s = IfObserving" "ss_generation s = or_generation (ss_ownership s)"
    "ss_generation s \<noteq> 0" "or_ifindex (ss_ownership s) = rf_ifindex (in_requested (pr_interface report))" by auto
  from v show "rf_name (in_requested (pr_interface report)) = interface" "in_kind (pr_interface report) = KindVeth" "in_isolated (pr_interface report)"
    "\<not> in_live_shared (pr_interface report)" "pr_decision report \<noteq> PfBlocked" "or_ifindex (ss_ownership s) \<noteq> 0"
    unfolding s(4) by (auto simp: validate_isolated_target_def Let_def split: if_splits)
  show "or_ifindex (ss_ownership s) = rf_ifindex (in_requested (pr_interface report))" "ss_state s = IfObserving"
    "ss_generation s = or_generation (ss_ownership s)" "ss_generation s \<noteq> 0" using s by auto
qed

theorem attach_needs_isolated_target_witness:
  "\<exists>e. transaction_execute book_ports (InterfaceName ''eth0'') a_run 5 (transaction_new {}) = (Inl e, transaction_new {})"
proof -
  have "ap_inspect book_ports (InterfaceName ''eth0'') (tr_world (transaction_new {})) = (Inr (a_report\<lparr>pr_findings := []\<rparr>), {})"
    by (simp add: book_ports_def transaction_new_def)
  moreover have "validate_isolated_target (InterfaceName ''eth0'') (a_report\<lparr>pr_findings := []\<rparr>) \<noteq> Inr ()"
    by (simp add: validate_isolated_target_def a_report_def)
  ultimately show ?thesis using attach_needs_isolated_target [of book_ports "InterfaceName ''eth0''" "transaction_new {}"] by (fastforce simp: transaction_new_def)
qed

end
