(* ===== verification/Lifecycle.thy ===== *)
theory Lifecycle
  imports Domain "HOL-Library.Sublist"
begin

text \<open>
  Runs of the interface lifecycle of \<open>l2-loop-core/src/interface.rs\<close>, as the sequence of states an
  interface passes through by accepted transitions.
\<close>

section \<open>Runs\<close>

text \<open>A run of the lifecycle as the states an interface goes through, by accepted transitions only.\<close>

inductive lifecycle :: "InterfaceState list \<Rightarrow> bool" where
  start: "lifecycle [s]"
| step: "lifecycle (p @ [s]) \<Longrightarrow> interface_transition s t = Inr t \<Longrightarrow> lifecycle (p @ [s, t])"

lemma interface_transition_Inr:
  "interface_transition s t = Inr u \<longleftrightarrow> u = t \<and>
     (s = t \<or> (s, t) \<in> {(IfDetached, IfAttaching), (IfAttaching, IfObserving), (IfObserving, IfPolicing),
       (IfPolicing, IfObserving), (IfAttaching, IfError), (IfObserving, IfError), (IfPolicing, IfError),
       (IfError, IfDetached)})"
  by (auto simp: interface_transition_def Let_def)

text \<open>What a run that started detached must have been through to be in a state.\<close>

fun trail :: "InterfaceState \<Rightarrow> InterfaceState list" where
  "trail IfDetached = [IfDetached]"
| "trail IfAttaching = [IfDetached, IfAttaching]"
| "trail IfObserving = [IfDetached, IfAttaching, IfObserving]"
| "trail IfPolicing = [IfDetached, IfAttaching, IfObserving, IfPolicing]"
| "trail IfError = [IfDetached, IfAttaching, IfError]"

lemma subseq_extend: "subseq xs p \<Longrightarrow> subseq (xs @ [t]) (p @ [t])"
  by (simp add: list_emb_append_mono)

lemma subseq_later: "subseq xs p \<Longrightarrow> subseq xs (p @ [t])"
  using subseq_order.trans [OF _ prefix_imp_subseq [OF prefixI [OF refl]]] by blast

lemma trail_step:
  assumes "interface_transition s t = Inr t" and "subseq (trail s) p"
  shows "subseq (trail t) (p @ [t])"
proof -
  have shorter: "subseq (xs @ [t]) (p @ [t])" if "subseq (xs @ ys) p" for xs ys
    using that subseq_extend [of xs p t] list_emb_appendD by (metis list_emb_prefix subseq_order.trans prefixI prefix_imp_subseq)
  have "s = t \<or> (\<exists>xs ys. trail s = xs @ ys \<and> trail t = xs @ [t])"
    using assms(1) by (cases s; cases t) (auto simp: interface_transition_Inr intro: exI [of _ "[]"])
  then show ?thesis using shorter assms(2) subseq_later by auto
qed

lemma lifecycle_trail: "lifecycle run \<Longrightarrow> hd run = IfDetached \<Longrightarrow> subseq (trail (last run)) run"
proof (induction rule: lifecycle.induct)
  case (step p s t)
  then have "hd (p @ [s]) = IfDetached" by (cases p) auto
  with step trail_step [of s t "p @ [s]"] show ?case by simp
qed simp

text \<open>
  Every state of an interface that started detached has its history: an interface that polices was
  attached and observed first, one that observes was attached first, and one in error had been attached.
\<close>

theorem lifecycle_order:
  assumes "lifecycle run" and "hd run = IfDetached"
  shows "(case last run of
      IfDetached \<Rightarrow> True
    | IfAttaching \<Rightarrow> subseq [IfDetached, IfAttaching] run
    | IfObserving \<Rightarrow> subseq [IfDetached, IfAttaching, IfObserving] run
    | IfPolicing \<Rightarrow> subseq [IfDetached, IfAttaching, IfObserving, IfPolicing] run
    | IfError \<Rightarrow> subseq [IfDetached, IfAttaching, IfError] run)"
  using lifecycle_trail [OF assms] by (cases "last run") simp_all

theorem lifecycle_order_witness:
  "subseq [IfDetached, IfAttaching, IfObserving, IfPolicing] [IfDetached, IfAttaching, IfObserving, IfObserving, IfPolicing]"
proof -
  note steps = lifecycle.step [of "[IfDetached, IfAttaching, IfObserving]" IfObserving IfPolicing]
    lifecycle.step [of "[IfDetached, IfAttaching]" IfObserving IfObserving]
    lifecycle.step [of "[IfDetached]" IfAttaching IfObserving] lifecycle.step [of "[]" IfDetached IfAttaching]
    lifecycle.start [of IfDetached]
  have "lifecycle [IfDetached, IfAttaching, IfObserving, IfObserving, IfPolicing]"
    using steps by (simp add: interface_transition_def)
  from lifecycle_order [OF this] show ?thesis by simp
qed

end
