(* ===== verification/Service.thy ===== *)
theory Service
  imports Attach Lifecycle
begin

text \<open>
  The agent service (\<open>l2-loop-agent/src/service.rs\<close>): observe, police and stop policing one interface over a
  resolver and a hook manager, which are parameters, and the lifecycle its state follows.
\<close>

section \<open>Definitions\<close>

record InterfaceIdentity =
  id_name :: InterfaceName
  id_ifindex :: u32

record HookHandle =
  hh_id :: u8
  hh_role :: HookRole

text \<open>\<open>InterfaceResolver\<close> and \<open>HookManager\<close>.\<close>

record 'w HookPorts =
  hp_resolve :: "InterfaceName \<Rightarrow> ('w, PortError, InterfaceIdentity) port"
  hp_attach :: "InterfaceIdentity \<Rightarrow> HookRole \<Rightarrow> ('w, PortError, HookHandle) port"
  hp_verify :: "HookHandle \<Rightarrow> ('w, PortError, unit) port"
  hp_detach :: "HookHandle \<Rightarrow> ('w, PortError, unit) port"
  hp_publish_observe :: "InterfaceIdentity \<Rightarrow> u64 \<Rightarrow> ('w, PortError, unit) port"
  hp_publish_policy :: "PolicyRequest \<Rightarrow> ('w, PortError, unit) port"
  hp_clear_policy :: "('w, PortError, unit) port"

datatype ServiceError = ServiceDomain DomainError | ServicePort PortError | ServiceInvalidState InterfaceState

record 'w AgentService =
  ag_world :: 'w
  ag_state :: InterfaceState
  ag_generation :: u64

definition agent_new :: "'w \<Rightarrow> 'w AgentService" where
  "agent_new w = \<lparr>ag_world = w, ag_state = IfDetached, ag_generation = 0\<rparr>"

definition agent_fail :: "PortError \<Rightarrow> ('w AgentService, ServiceError, 'a) port" where
  "agent_fail error s = (Inl (ServicePort error), s\<lparr>ag_state := IfError\<rparr>)"

text \<open>\<open>self.state = self.state.transition(next)?\<close>.\<close>

definition agent_transition :: "InterfaceState \<Rightarrow> ('w AgentService, ServiceError, unit) port" where
  "agent_transition to s =
     (case interface_transition (ag_state s) to of
        Inl e \<Rightarrow> (Inl (ServiceDomain e), s)
      | Inr state \<Rightarrow> (Inr (), s\<lparr>ag_state := state\<rparr>))"

text \<open>A call whose error fails the service after \<open>undo\<close>.\<close>

definition hook_call ::
  "('w, PortError, 'a) port \<Rightarrow> ('w \<Rightarrow> 'w) \<Rightarrow> ('a \<Rightarrow> ('w AgentService, ServiceError, 'b) port) \<Rightarrow> ('w AgentService, ServiceError, 'b) port" where
  "hook_call call undo f s =
     (case call (ag_world s) of
        (Inl error, w) \<Rightarrow> agent_fail error (s\<lparr>ag_world := undo w\<rparr>)
      | (Inr a, w) \<Rightarrow> f a (s\<lparr>ag_world := w\<rparr>))"

definition verify_both :: "'w HookPorts \<Rightarrow> HookHandle \<Rightarrow> HookHandle \<Rightarrow> ('w, PortError, unit) port" where
  "verify_both hooks ingress egress = port_bind (hp_verify hooks ingress) (\<lambda>_. hp_verify hooks egress)"

definition detach_both :: "'w HookPorts \<Rightarrow> HookHandle \<Rightarrow> HookHandle \<Rightarrow> 'w \<Rightarrow> 'w" where
  "detach_both hooks ingress egress w = snd (hp_detach hooks ingress (snd (hp_detach hooks egress w)))"

definition agent_observe :: "'w HookPorts \<Rightarrow> string \<Rightarrow> ('w AgentService, ServiceError, unit) port" where
  "agent_observe hooks name s =
     (if ag_state s \<noteq> IfDetached then (Inl (ServiceInvalidState (ag_state s)), s)
      else
        (case interface_name_new name of
           Inl e \<Rightarrow> (Inl (ServiceDomain e), s)
         | Inr interface \<Rightarrow>
             port_bind (agent_transition IfAttaching) (\<lambda>_.
             hook_call (hp_resolve hooks interface) id (\<lambda>identity.
             hook_call (hp_attach hooks identity ExternalXdpIngress) id (\<lambda>ingress.
             hook_call (hp_attach hooks identity PhysicalTcEgress) (\<lambda>w. snd (hp_detach hooks ingress w)) (\<lambda>egress.
             hook_call (verify_both hooks ingress egress) (detach_both hooks ingress egress) (\<lambda>_ s.
             let generation = next_generation (ag_generation s)
             in hook_call (hp_publish_observe hooks identity generation) (detach_both hooks ingress egress) (\<lambda>_ s.
                agent_transition IfObserving (s\<lparr>ag_generation := generation\<rparr>)) s))))) s))"

text \<open>A call whose error leaves the state.\<close>

definition plain_call :: "('w, PortError, unit) port \<Rightarrow> ('w AgentService, ServiceError, unit) port" where
  "plain_call call s = (case call (ag_world s) of (Inl e, w) \<Rightarrow> (Inl (ServicePort e), s\<lparr>ag_world := w\<rparr>) | (Inr _, w) \<Rightarrow> (Inr (), s\<lparr>ag_world := w\<rparr>))"

definition apply_policy :: "'w HookPorts \<Rightarrow> PolicyRequest \<Rightarrow> ('w AgentService, ServiceError, unit) port" where
  "apply_policy hooks policy s =
     (if ag_state s \<noteq> IfObserving then (Inl (ServiceInvalidState (ag_state s)), s)
      else port_bind (plain_call (hp_publish_policy hooks policy)) (\<lambda>_. agent_transition IfPolicing) s)"

definition expire_policy :: "'w HookPorts \<Rightarrow> ('w AgentService, ServiceError, unit) port" where
  "expire_policy hooks s =
     (if ag_state s \<noteq> IfPolicing then (Inl (ServiceInvalidState (ag_state s)), s)
      else port_bind (plain_call (hp_clear_policy hooks)) (\<lambda>_. agent_transition IfObserving) s)"

datatype agent_op = OpObserve string | OpPolicy PolicyRequest | OpExpire

definition agent_step :: "'w HookPorts \<Rightarrow> agent_op \<Rightarrow> ('w AgentService, ServiceError, unit) port" where
  "agent_step hooks op = (case op of OpObserve name \<Rightarrow> agent_observe hooks name | OpPolicy policy \<Rightarrow> apply_policy hooks policy | OpExpire \<Rightarrow> expire_policy hooks)"

section \<open>Handles\<close>

definition honest_hooks :: "'w HookPorts \<Rightarrow> ('w \<Rightarrow> HookHandle set) \<Rightarrow> bool" where
  "honest_hooks hooks handles \<longleftrightarrow>
     (\<forall>i w. handles (snd (hp_resolve hooks i w)) = handles w) \<and> (\<forall>h w. handles (snd (hp_verify hooks h w)) = handles w)
     \<and> (\<forall>i g w. handles (snd (hp_publish_observe hooks i g w)) = handles w) \<and> (\<forall>p w. handles (snd (hp_publish_policy hooks p w)) = handles w)
     \<and> (\<forall>w. handles (snd (hp_clear_policy hooks w)) = handles w)
     \<and> (\<forall>i r w. case hp_attach hooks i r w of (Inl _, w') \<Rightarrow> handles w' = handles w
          | (Inr h, w') \<Rightarrow> h \<notin> handles w \<and> handles w' = insert h (handles w))
     \<and> (\<forall>h w. handles (snd (hp_detach hooks h w)) = handles w - {h})"

text \<open>What holds between two operations of a service that began with no handle.\<close>

definition agent_inv :: "('w \<Rightarrow> HookHandle set) \<Rightarrow> 'w AgentService \<Rightarrow> bool" where
  "agent_inv handles s \<longleftrightarrow>
     (case ag_state s of
        IfDetached \<Rightarrow> handles (ag_world s) = {} \<and> ag_generation s = 0
      | IfAttaching \<Rightarrow> False
      | IfError \<Rightarrow> handles (ag_world s) = {} \<and> ag_generation s = 0
      | _ \<Rightarrow> card (handles (ag_world s)) = 2 \<and> ag_generation s = 1)"

lemma honest_attach:
  assumes "honest_hooks hooks handles" "hp_attach hooks i r w = (x, w')"
  shows "case x of Inl _ \<Rightarrow> handles w' = handles w | Inr h \<Rightarrow> h \<notin> handles w \<and> handles w' = insert h (handles w)"
proof -
  have "case hp_attach hooks i r w of (Inl _, w') \<Rightarrow> handles w' = handles w
          | (Inr h, w') \<Rightarrow> h \<notin> handles w \<and> handles w' = insert h (handles w)" using assms(1) by (simp add: honest_hooks_def)
  with assms(2) show ?thesis by (cases x) simp_all
qed

lemma honest_others:
  assumes "honest_hooks hooks handles"
  shows "hp_resolve hooks i w = (x, w') \<Longrightarrow> handles w' = handles w" "hp_publish_observe hooks d g w = (y, w') \<Longrightarrow> handles w' = handles w"
    "hp_publish_policy hooks p w = (y, w') \<Longrightarrow> handles w' = handles w" "hp_clear_policy hooks w = (y, w') \<Longrightarrow> handles w' = handles w"
    "handles (detach_both hooks a b w) = handles w - {b} - {a}" "handles (snd (hp_detach hooks h w)) = handles w - {h}"
proof -
  have rules: "handles (snd (hp_resolve hooks i w)) = handles w" "handles (snd (hp_publish_observe hooks d g w)) = handles w"
    "handles (snd (hp_publish_policy hooks p w)) = handles w" "handles (snd (hp_clear_policy hooks w)) = handles w"
    "handles (snd (hp_detach hooks h w)) = handles w - {h}" for i d g p h w using assms by (simp_all add: honest_hooks_def)
  show "hp_resolve hooks i w = (x, w') \<Longrightarrow> handles w' = handles w" using rules(1) [of i w] by simp
  show "hp_publish_observe hooks d g w = (y, w') \<Longrightarrow> handles w' = handles w" using rules(2) [of d g w] by simp
  show "hp_publish_policy hooks p w = (y, w') \<Longrightarrow> handles w' = handles w" using rules(3) [of p w] by simp
  show "hp_clear_policy hooks w = (y, w') \<Longrightarrow> handles w' = handles w" using rules(4) [of w] by simp
  show "handles (detach_both hooks a b w) = handles w - {b} - {a}" "handles (snd (hp_detach hooks h w)) = handles w - {h}"
    by (simp_all add: detach_both_def rules)
qed

lemma honest_verify: "honest_hooks hooks handles \<Longrightarrow> verify_both hooks a b w = (x, w') \<Longrightarrow> handles w' = handles w"
proof -
  assume honest: "honest_hooks hooks handles" and run: "verify_both hooks a b w = (x, w')"
  have rule: "handles (snd (hp_verify hooks h w)) = handles w" for h w using honest by (simp add: honest_hooks_def)
  obtain y v where v: "hp_verify hooks a w = (y, v)" by fastforce
  with run rule [of a w] rule [of b v] show ?thesis by (cases y) (auto simp: verify_both_def port_bind_def)
qed

lemma observe_inv:
  assumes honest: "honest_hooks hooks handles" and inv: "agent_inv handles s"
  shows "agent_inv handles (snd (agent_observe hooks name s))"
proof (cases "ag_state s = IfDetached \<and> is_ok (interface_name_new name)")
  case False
  then show ?thesis using inv by (cases "interface_name_new name") (auto simp: agent_observe_def)
next
  case True
  then obtain interface where name: "interface_name_new name = Inr interface" by (cases "interface_name_new name") auto
  have empty: "handles (ag_world s) = {}" "ag_generation s = 0" using inv True by (simp_all add: agent_inv_def)
  have first: "agent_transition IfAttaching s = (Inr (), s\<lparr>ag_state := IfAttaching\<rparr>)" using True by (simp add: agent_transition_def interface_transition_def)
  note run = agent_observe_def name first port_bind_def hook_call_def agent_fail_def agent_inv_def
  obtain x1 w1 where r1: "hp_resolve hooks interface (ag_world s) = (x1, w1)" by fastforce
  then have h1: "handles w1 = {}" using honest_others(1) [OF honest] empty by auto
  show ?thesis
  proof (cases x1)
    case (Inl e)
    then show ?thesis using True r1 h1 empty by (simp add: run)
  next
    case i1: (Inr identity)
    obtain x2 w2 where r2: "hp_attach hooks identity ExternalXdpIngress w1 = (x2, w2)" by fastforce
    note h2 = honest_attach [OF honest r2]
    show ?thesis
    proof (cases x2)
      case (Inl e)
      then show ?thesis using True r1 i1 r2 h1 h2 empty by (simp add: run)
    next
      case i2: (Inr ingress)
      obtain x3 w3 where r3: "hp_attach hooks identity PhysicalTcEgress w2 = (x3, w3)" by fastforce
      note h3 = honest_attach [OF honest r3]
      show ?thesis
      proof (cases x3)
        case (Inl e)
        then show ?thesis using True r1 i1 r2 i2 r3 h1 h2 h3 empty by (simp add: run honest_others(6) [OF honest])
      next
        case i3: (Inr egress)
        have two: "handles w3 = {ingress, egress}" "ingress \<noteq> egress" using h1 h2 h3 i2 i3 by auto
        obtain x4 w4 where r4: "verify_both hooks ingress egress w3 = (x4, w4)" by fastforce
        have h4: "handles w4 = {ingress, egress}" using honest_verify [OF honest r4] two by simp
        obtain x5 w5 where r5: "hp_publish_observe hooks identity (next_generation 0) w4 = (x5, w5)" by fastforce
        have h5: "handles w5 = {ingress, egress}" using honest_others(2) [OF honest r5] h4 by simp
        have last_step: "agent_transition IfObserving (s'\<lparr>ag_state := IfAttaching, ag_world := w, ag_generation := g\<rparr>)
          = (Inr (), s'\<lparr>ag_state := IfObserving, ag_world := w, ag_generation := g\<rparr>)" for s' :: "'a AgentService" and w g
          by (simp add: agent_transition_def interface_transition_def)
        have "next_generation 0 = 1" by (simp add: next_generation_def saturating_add_def)
        then show ?thesis
          using True r1 i1 r2 i2 r3 i3 r4 r5 h4 h5 two empty
          by (cases x4; cases x5) (simp_all add: run Let_def honest_others(5) [OF honest] last_step insert_Diff_if)
      qed
    qed
  qed
qed

lemma policy_inv:
  assumes honest: "honest_hooks hooks handles" and inv: "agent_inv handles s"
  shows "agent_inv handles (snd (apply_policy hooks policy s))" "agent_inv handles (snd (expire_policy hooks s))"
proof -
  obtain x w where p: "hp_publish_policy hooks policy (ag_world s) = (x, w)" by fastforce
  obtain y v where c: "hp_clear_policy hooks (ag_world s) = (y, v)" by fastforce
  note calls = port_bind_def plain_call_def agent_transition_def interface_transition_def agent_inv_def
  show "agent_inv handles (snd (apply_policy hooks policy s))"
    using inv honest_others(3) [OF honest p] by (cases x; cases "ag_state s") (simp_all add: apply_policy_def p calls)
  show "agent_inv handles (snd (expire_policy hooks s))"
    using inv honest_others(4) [OF honest c] by (cases y; cases "ag_state s") (simp_all add: expire_policy_def c calls)
qed

lemma agent_run_inv:
  assumes "honest_hooks hooks handles" "agent_inv handles s"
  shows "agent_inv handles (foldl (\<lambda>s op. snd (agent_step hooks op s)) s ops)"
  using assms(2)
  by (induction ops arbitrary: s)
    (auto simp: agent_step_def observe_inv [OF assms(1)] policy_inv [OF assms(1)] split: agent_op.split)

lemma error_is_final: "ag_state s = IfError \<Longrightarrow> agent_step hooks op s = (Inl (ServiceInvalidState IfError), s)"
  by (cases op) (simp_all add: agent_step_def agent_observe_def apply_policy_def expire_policy_def)

definition handle_ports :: "HookHandle set HookPorts" where
  "handle_ports =
     \<lparr>hp_resolve = (\<lambda>name w. (Inr \<lparr>id_name = name, id_ifindex = 7\<rparr>, w)),
      hp_attach = (\<lambda>_ role w. let h = \<lparr>hh_id = 1, hh_role = role\<rparr> in if h \<in> w then (Inl (Adapter ''busy''), w) else (Inr h, insert h w)),
      hp_verify = (\<lambda>_ w. (Inr (), w)), hp_detach = (\<lambda>h w. (Inr (), w - {h})), hp_publish_observe = (\<lambda>_ _ w. (Inr (), w)),
      hp_publish_policy = (\<lambda>_ w. (Inr (), w)), hp_clear_policy = (\<lambda>w. (Inr (), w))\<rparr>"

lemma handle_ports_honest: "honest_hooks handle_ports id"
  by (simp add: honest_hooks_def handle_ports_def Let_def)

text \<open>
  The agent service never loses a hook. Whatever sequence of observe, police and expire requests it
  gets, over a hook manager that attaches and detaches what it says, between two requests it holds exactly
  two hooks while it observes or polices and none while it is detached or failed, it is never left half
  attached, and it publishes one generation. A failed service answers every further request with its state
  and does nothing.
\<close>

theorem agent_hooks_balanced:
  assumes "honest_hooks hooks handles" "handles w = {}"
  defines "run \<equiv> \<lambda>ops. foldl (\<lambda>s op. snd (agent_step hooks op s)) (agent_new w) ops"
  shows "(case ag_state (run ops) of
      IfDetached \<Rightarrow> handles (ag_world (run ops)) = {} \<and> ag_generation (run ops) = 0
    | IfAttaching \<Rightarrow> False
    | IfObserving \<Rightarrow> card (handles (ag_world (run ops))) = 2 \<and> ag_generation (run ops) = 1
    | IfPolicing \<Rightarrow> card (handles (ag_world (run ops))) = 2 \<and> ag_generation (run ops) = 1
    | IfError \<Rightarrow> handles (ag_world (run ops)) = {} \<and> (\<forall>op. agent_step hooks op (run ops) = (Inl (ServiceInvalidState IfError), run ops)))"
proof -
  have "agent_inv handles (agent_new w)" using assms(2) by (simp add: agent_inv_def agent_new_def)
  from agent_run_inv [OF assms(1) this, of ops] show ?thesis
    unfolding run_def agent_inv_def by (simp add: error_is_final split: InterfaceState.splits)
qed

theorem agent_hooks_balanced_witness:
  "card (ag_world (foldl (\<lambda>s op. snd (agent_step handle_ports op s)) (agent_new {}) [OpObserve ''veth0''])) = 2"
proof -
  have "interface_name_new ''veth0'' = Inr (InterfaceName ''veth0'')"
    by (simp add: interface_name_new_def is_ascii_alphanumeric_def is_ascii_digit_def is_ascii_lowercase_def)
  then have "ag_state (foldl (\<lambda>s op. snd (agent_step handle_ports op s)) (agent_new {}) [OpObserve ''veth0'']) = IfObserving"
    by (simp add: agent_step_def agent_observe_def agent_new_def handle_ports_def port_bind_def hook_call_def agent_transition_def interface_transition_def
        verify_both_def Let_def)
  with agent_hooks_balanced [OF handle_ports_honest, of "{}" "[OpObserve ''veth0'']"] show ?thesis by simp
qed

end
