(* ===== verification/Deployment.thy ===== *)
theory Deployment
  imports Evidence Preflight
begin

text \<open>
  The contracts of the deployment gate (\<open>l2-loop-core/src/deployment.rs\<close>): identities, the authorization, the
  performance evidence and its assessment, the canary plan, findings, gates and the report they decide.
\<close>

section \<open>Definitions\<close>

subsection \<open>Limits and codes\<close>

definition DEPLOYMENT_SCHEMA_VERSION :: u16 where [simp]: "DEPLOYMENT_SCHEMA_VERSION = 1"
definition AUTHORIZATION_MAX_LIFETIME_MS :: u64 where [simp]: "AUTHORIZATION_MAX_LIFETIME_MS = 86400000"
definition PERFORMANCE_EVIDENCE_MAX_LIFETIME_MS :: u64 where [simp]: "PERFORMANCE_EVIDENCE_MAX_LIFETIME_MS = AUTHORIZATION_MAX_LIFETIME_MS"
definition CANARY_MAX_OBSERVATION_MS :: u64 where [simp]: "CANARY_MAX_OBSERVATION_MS = 900000"
definition PERFORMANCE_TRIALS_PER_MODE :: nat where [simp]: "PERFORMANCE_TRIALS_PER_MODE = 5"
definition PERFORMANCE_TOTAL_TRIALS :: nat where [simp]: "PERFORMANCE_TOTAL_TRIALS = 15"
definition PERFORMANCE_FIXED_FRAME_SIZES :: "u16 list" where [simp]: "PERFORMANCE_FIXED_FRAME_SIZES = [64, 512, 1514]"
definition PERFORMANCE_FRAMES_PER_SIZE :: u32 where [simp]: "PERFORMANCE_FRAMES_PER_SIZE = 65536"
definition PERFORMANCE_PASS_THROUGH_MIN_PERMILLE :: u16 where [simp]: "PERFORMANCE_PASS_THROUGH_MIN_PERMILLE = 950"
definition PERFORMANCE_OBSERVE_MIN_PERMILLE :: u16 where [simp]: "PERFORMANCE_OBSERVE_MIN_PERMILLE = 900"
definition PERFORMANCE_MAX_DAEMON_RSS_BYTES :: u64 where [simp]: "PERFORMANCE_MAX_DAEMON_RSS_BYTES = 268435456"
definition PERFORMANCE_MAX_RSS_GROWTH_BYTES :: u64 where [simp]: "PERFORMANCE_MAX_RSS_GROWTH_BYTES = 16777216"
definition PERFORMANCE_MAX_DAEMON_CPU_PERMILLE :: u16 where [simp]: "PERFORMANCE_MAX_DAEMON_CPU_PERMILLE = 1000"

definition DG_PERFORMANCE_UNAVAILABLE :: string where "DG_PERFORMANCE_UNAVAILABLE = ''DG_PERFORMANCE_UNAVAILABLE''"
definition DG_PERFORMANCE_REGRESSION :: string where "DG_PERFORMANCE_REGRESSION = ''DG_PERFORMANCE_REGRESSION''"

definition BLOCKER_CODES :: "string list" where
  "BLOCKER_CODES =
     [''DG_ARTIFACT_INVENTORY'', ''DG_ARTIFACT_MANIFEST'', ''DG_ARTIFACT_CHECKSUM'', ''DG_STAGING_ROOT'', ''DG_LAYOUT_TYPE'', ''DG_LAYOUT_MODE'',
      ''DG_LAYOUT_SYMLINK'', ''DG_SYSTEMD_CONTRACT'', ''DG_AUTH_SCHEMA'', ''DG_AUTH_EXPIRED'', ''DG_AUTH_ARTIFACT'', ''DG_AUTH_IDENTITY'',
      ''DG_INTERFACE_UNSUPPORTED'', ''DG_XDP_NOT_EMPTY'', ''DG_TC_NOT_EMPTY'', ''DG_PLATFORM_BLOCKED'', ''DG_EVIDENCE_ROOT'',
      DG_PERFORMANCE_UNAVAILABLE, DG_PERFORMANCE_REGRESSION, ''DG_INTERNAL'']"

definition WARNING_CODES :: "string list" where
  "WARNING_CODES = [''DG_REAL_JOURNALD_UNVERIFIED'', ''DG_NATIVE_XDP_UNVERIFIED'', ''DG_WORKLOAD_PERFORMANCE_UNVERIFIED'']"

text \<open>The bytes strings are compared by, and \<open>sort\<close> on strings.\<close>

definition text_key :: "string \<Rightarrow> nat list" where
  "text_key s = map of_char s"

definition sorted_warning_codes :: "string list" where
  "sorted_warning_codes = sort_key text_key WARNING_CODES"

definition is_hex_of_length :: "string \<Rightarrow> nat \<Rightarrow> bool" where
  "is_hex_of_length value len \<longleftrightarrow> length value = len \<and> list_all is_lower_hex value"

definition is_ascii_graphic :: "char \<Rightarrow> bool" where
  "is_ascii_graphic c \<longleftrightarrow> 33 \<le> (of_char c :: nat) \<and> of_char c \<le> (126 :: nat)"

definition is_safe_text :: "string \<Rightarrow> nat \<Rightarrow> bool" where
  "is_safe_text value maximum_length \<longleftrightarrow>
     value \<noteq> [] \<and> length value \<le> maximum_length \<and> list_all (\<lambda>byte. is_ascii_graphic byte \<and> byte \<noteq> CHR ''/'' \<and> byte \<noteq> CHR 0x5C) value"

definition codes_are_sorted_unique :: "string list \<Rightarrow> bool" where
  "codes_are_sorted_unique codes \<longleftrightarrow> list_all (\<lambda>(a, b). text_key a < text_key b) (zip codes (tl codes))"

datatype DeploymentContractError = InvalidArtifactIdentity | InvalidHostCompatibility | InvalidDeploymentAuthorization | InvalidPerformanceEvidence
  | InvalidDeploymentFinding | InvalidGateSummary | InvalidCanaryPlan | InvalidDeploymentReport

subsection \<open>Identities and authorization\<close>

datatype DeploymentDecisionV1 = DdBlocked | DdStagingReady | DdCanaryCandidate | DdInstalledVerified | DdPhysicalCanaryReady

datatype DeploymentCommandV1 = DcStaging | DcInstalled | DcInspect

record DeploymentArtifactIdentityV1 =
  da_commit_sha :: string
  da_package_version :: string

definition artifact_validate :: "DeploymentArtifactIdentityV1 \<Rightarrow> (DeploymentContractError, unit) result" where
  "artifact_validate self =
     (if \<not> is_hex_of_length (da_commit_sha self) 40 \<or> \<not> is_safe_text (da_package_version self) 64 then Inl InvalidArtifactIdentity else Inr ())"

definition artifact_new :: "string \<Rightarrow> string \<Rightarrow> (DeploymentContractError, DeploymentArtifactIdentityV1) result" where
  "artifact_new commit_sha package_version =
     (let identity = \<lparr>da_commit_sha = commit_sha, da_package_version = package_version\<rparr>
      in rbind (artifact_validate identity) (\<lambda>_. Inr identity))"

record DeploymentHostCompatibilityV1 =
  dh_architecture :: string
  dh_kernel_release :: string
  dh_logical_cpu_count :: u32

definition host_validate :: "DeploymentHostCompatibilityV1 \<Rightarrow> (DeploymentContractError, unit) result" where
  "host_validate self =
     (if \<not> is_safe_text (dh_architecture self) 32 \<or> \<not> is_safe_text (dh_kernel_release self) 128 \<or> dh_logical_cpu_count self = 0
      then Inl InvalidHostCompatibility else Inr ())"

definition host_new :: "string \<Rightarrow> string \<Rightarrow> u32 \<Rightarrow> (DeploymentContractError, DeploymentHostCompatibilityV1) result" where
  "host_new architecture kernel_release logical_cpu_count =
     (let identity = \<lparr>dh_architecture = architecture, dh_kernel_release = kernel_release, dh_logical_cpu_count = logical_cpu_count\<rparr>
      in rbind (host_validate identity) (\<lambda>_. Inr identity))"

datatype DeploymentAuthorizationModeV1 = ReadOnlyCanaryCandidate
datatype DeploymentLinkStateV1 = LinkUp
datatype DeploymentHookStateV1 = HookEmpty

record DeploymentAuthorizedInterfaceV1 =
  du_name :: string
  du_ifindex :: u32
  du_kind :: InterfaceKind
  du_administrative_state :: DeploymentLinkStateV1
  du_operational_state :: DeploymentLinkStateV1
  du_master_ifindex :: "u32 option"
  du_mac_address_sha256 :: string
  du_driver :: string
  du_device_identity_sha256 :: string
  du_network_namespace_sha256 :: string
  du_xdp_native :: DeploymentHookStateV1
  du_xdp_generic :: DeploymentHookStateV1
  du_tc_clsact :: bool
  du_tc_ingress :: "string list"
  du_tc_egress :: "string list"

definition authorized_interface_validate :: "DeploymentAuthorizedInterfaceV1 \<Rightarrow> (DeploymentContractError, unit) result" where
  "authorized_interface_validate self =
     (if \<not> is_ok (interface_name_new (du_name self)) \<or> du_ifindex self = 0 \<or> du_kind self \<noteq> KindPhysical \<or> du_master_ifindex self \<noteq> None
         \<or> \<not> is_hex_of_length (du_mac_address_sha256 self) 64 \<or> \<not> is_safe_text (du_driver self) 128
         \<or> \<not> is_hex_of_length (du_device_identity_sha256 self) 64 \<or> \<not> is_hex_of_length (du_network_namespace_sha256 self) 64
         \<or> du_tc_clsact self \<or> du_tc_ingress self \<noteq> [] \<or> du_tc_egress self \<noteq> []
      then Inl InvalidDeploymentAuthorization else Inr ())"

record DeploymentAuthorizationV1 =
  dz_schema_version :: u16
  dz_authorization_id :: string
  dz_artifact_commit_sha :: string
  dz_mode :: DeploymentAuthorizationModeV1
  dz_interface :: DeploymentAuthorizedInterfaceV1
  dz_issued_at_unix_ms :: u64
  dz_expires_at_unix_ms :: u64

definition authorization_validate_structure :: "DeploymentAuthorizationV1 \<Rightarrow> (DeploymentContractError, unit) result" where
  "authorization_validate_structure self =
     rbind (ok_or InvalidDeploymentAuthorization (checked_sub (dz_expires_at_unix_ms self) (dz_issued_at_unix_ms self))) (\<lambda>lifetime.
     if dz_schema_version self \<noteq> DEPLOYMENT_SCHEMA_VERSION \<or> \<not> is_hex_of_length (dz_authorization_id self) 32
        \<or> \<not> is_hex_of_length (dz_artifact_commit_sha self) 40 \<or> dz_issued_at_unix_ms self = 0 \<or> lifetime = 0
        \<or> AUTHORIZATION_MAX_LIFETIME_MS < lifetime
     then Inl InvalidDeploymentAuthorization
     else authorized_interface_validate (dz_interface self))"

definition authorization_validate_at :: "DeploymentAuthorizationV1 \<Rightarrow> u64 \<Rightarrow> (DeploymentContractError, unit) result" where
  "authorization_validate_at self captured_at_unix_ms =
     rbind (authorization_validate_structure self) (\<lambda>_.
     if \<not> (dz_issued_at_unix_ms self \<le> captured_at_unix_ms \<and> captured_at_unix_ms \<le> dz_expires_at_unix_ms self)
     then Inl InvalidDeploymentAuthorization else Inr ())"

definition authorization_validate_for ::
  "DeploymentAuthorizationV1 \<Rightarrow> u64 \<Rightarrow> DeploymentArtifactIdentityV1 \<Rightarrow> (DeploymentContractError, unit) result" where
  "authorization_validate_for self captured_at_unix_ms artifact =
     rbind (authorization_validate_at self captured_at_unix_ms) (\<lambda>_.
     rbind (artifact_validate artifact) (\<lambda>_.
     if dz_artifact_commit_sha self \<noteq> da_commit_sha artifact then Inl InvalidDeploymentAuthorization else Inr ()))"

subsection \<open>Performance evidence\<close>

datatype PerformanceModeV1 = ModeBaseline | ModePassThrough | ModeObserve
datatype PerformanceXdpModeV1 = PerfNative | PerfGeneric
datatype PerformanceResultV1 = PerfPassed | PerfFailed | PerfUnavailable

definition PERFORMANCE_TRIAL_MODE_ORDER :: "PerformanceModeV1 list" where
  "PERFORMANCE_TRIAL_MODE_ORDER =
     [ModeBaseline, ModePassThrough, ModeObserve, ModePassThrough, ModeObserve, ModeBaseline, ModeObserve, ModeBaseline, ModePassThrough,
      ModeBaseline, ModeObserve, ModePassThrough, ModePassThrough, ModeBaseline, ModeObserve]"

record PerformanceTrialV1 =
  pt_trial_number :: u8
  pt_mode :: PerformanceModeV1
  pt_frame_sizes :: "u16 list"
  pt_frames_per_size :: u32
  pt_duration_ns :: u64
  pt_packets_per_second :: u64
  pt_bytes_per_second :: u64
  pt_daemon_cpu_time_ns :: u64
  pt_peak_resident_memory_bytes :: u64
  pt_packet_drop_delta :: u64
  pt_packet_error_delta :: u64

text \<open>The products are taken in \<open>u128\<close>; with the fixed sizes they cannot overflow, and the checks are kept.\<close>

definition trial_validate :: "PerformanceTrialV1 \<Rightarrow> (DeploymentContractError, unit) result" where
  "trial_validate self =
     (if pt_frame_sizes self \<noteq> PERFORMANCE_FIXED_FRAME_SIZES \<or> pt_frames_per_size self \<noteq> PERFORMANCE_FRAMES_PER_SIZE
         \<or> pt_duration_ns self = 0 \<or> pt_packets_per_second self = 0 \<or> pt_bytes_per_second self = 0
      then Inl InvalidPerformanceEvidence
      else
        rbind (ok_or InvalidPerformanceEvidence (checked_mul (ucast (pt_frames_per_size self)) (of_nat (length (pt_frame_sizes self)) :: u128))) (\<lambda>sent_packets.
        rbind (rfold (\<lambda>size total. ok_or InvalidPerformanceEvidence (checked_add total (ucast size :: u128))) (pt_frame_sizes self) 0) (\<lambda>sent_bytes.
        rbind (ok_or InvalidPerformanceEvidence (checked_mul sent_bytes (ucast (pt_frames_per_size self)))) (\<lambda>sent_bytes.
        rbind (ok_or InvalidPerformanceEvidence (checked_mul sent_packets 1000000000)) (\<lambda>packets.
        rbind (ok_or InvalidPerformanceEvidence (checked_mul sent_bytes 1000000000)) (\<lambda>bytes.
        if ucast (pt_packets_per_second self) \<noteq> packets div ucast (pt_duration_ns self)
           \<or> ucast (pt_bytes_per_second self) \<noteq> bytes div ucast (pt_duration_ns self)
        then Inl InvalidPerformanceEvidence else Inr ()))))))"

record PerformanceRateV1 =
  pe_packets_per_second :: u64
  pe_bytes_per_second :: u64

record PerformanceMediansV1 =
  pm_baseline :: PerformanceRateV1
  pm_pass_through :: PerformanceRateV1
  pm_observe :: PerformanceRateV1

record PerformanceEvidenceV1 =
  pv_schema_version :: u16
  pv_evidence_id :: string
  pv_artifact_commit_sha :: string
  pv_package_version :: string
  pv_architecture :: string
  pv_kernel_release :: string
  pv_logical_cpu_count :: u32
  pv_veth_xdp_mode :: PerformanceXdpModeV1
  pv_issued_at_unix_ms :: u64
  pv_expires_at_unix_ms :: u64
  pv_warm_up_complete :: bool
  pv_measurement_complete :: bool
  pv_measurement_noisy :: bool
  pv_host_identity_stable :: bool
  pv_trials :: "PerformanceTrialV1 list"
  pv_medians :: PerformanceMediansV1
  pv_pass_through_baseline_ratio_permille :: u16
  pv_observe_baseline_ratio_permille :: u16
  pv_daemon_cpu_time_ns :: u64
  pv_daemon_cpu_permille :: u16
  pv_peak_resident_memory_bytes :: u64
  pv_rss_growth_bytes :: u64
  pv_packet_drop_delta :: u64
  pv_packet_error_delta :: u64
  pv_counts_before :: "u32 list"
  pv_counts_after :: "u32 list"
  pv_forwarding_intact :: bool
  pv_owned_cleanup_complete :: bool
  pv_network_identity_restored :: bool
  pv_ebpf_identity_restored :: bool
  pv_result :: PerformanceResultV1
  pv_findings :: "string list"

text \<open>\<open>pv_counts_before\<close> and \<open>pv_counts_after\<close> hold the counts of processes, maps, programs, pins and namespaces, in this order.\<close>

record PerformanceAssessmentV1 =
  pa_medians :: PerformanceMediansV1
  pa_pass_through_baseline_ratio_permille :: u16
  pa_observe_baseline_ratio_permille :: u16
  pa_daemon_cpu_time_ns :: u64
  pa_daemon_cpu_permille :: u16
  pa_peak_resident_memory_bytes :: u64
  pa_rss_growth_bytes :: u64
  pa_result :: PerformanceResultV1
  pa_outstanding_warning_codes :: "string list"

definition median_for :: "PerformanceTrialV1 list \<Rightarrow> PerformanceModeV1 \<Rightarrow> (DeploymentContractError, PerformanceRateV1) result" where
  "median_for trials mode =
     (let chosen = filter (\<lambda>trial. pt_mode trial = mode) trials
      in if length chosen \<noteq> PERFORMANCE_TRIALS_PER_MODE then Inl InvalidPerformanceEvidence
         else Inr \<lparr>pe_packets_per_second = sort (map pt_packets_per_second chosen) ! (PERFORMANCE_TRIALS_PER_MODE div 2),
                   pe_bytes_per_second = sort (map pt_bytes_per_second chosen) ! (PERFORMANCE_TRIALS_PER_MODE div 2)\<rparr>)"

definition observe_rss_for_trial :: "PerformanceTrialV1 list \<Rightarrow> u8 \<Rightarrow> (DeploymentContractError, u64) result" where
  "observe_rss_for_trial trials trial_number =
     (case filter (\<lambda>trial. pt_trial_number trial = trial_number \<and> pt_mode trial = ModeObserve) trials of
        [trial] \<Rightarrow> Inr (pt_peak_resident_memory_bytes trial)
      | _ \<Rightarrow> Inl InvalidPerformanceEvidence)"

definition conservative_ratio_permille :: "PerformanceRateV1 \<Rightarrow> PerformanceRateV1 \<Rightarrow> (DeploymentContractError, u16) result" where
  "conservative_ratio_permille measured baseline =
     (if pe_packets_per_second baseline = 0 \<or> pe_bytes_per_second baseline = 0 then Inl InvalidPerformanceEvidence
      else
        rbind (ok_or InvalidPerformanceEvidence (checked_mul (ucast (pe_packets_per_second measured) :: u128) 1000)) (\<lambda>packets.
        rbind (ok_or InvalidPerformanceEvidence (checked_mul (ucast (pe_bytes_per_second measured) :: u128) 1000)) (\<lambda>bytes.
        ok_or InvalidPerformanceEvidence
          (try_from_word (min (packets div ucast (pe_packets_per_second baseline)) (bytes div ucast (pe_bytes_per_second baseline)))))))"

text \<open>The running totals of the loop over the trials.\<close>

record TrialTotals =
  tt_cpu_time_ns :: u64
  tt_duration_ns :: u128
  tt_drop_delta :: u64
  tt_error_delta :: u64
  tt_peak_bytes :: u64

definition no_trial_totals :: TrialTotals where
  "no_trial_totals = \<lparr>tt_cpu_time_ns = 0, tt_duration_ns = 0, tt_drop_delta = 0, tt_error_delta = 0, tt_peak_bytes = 0\<rparr>"

definition trial_step :: "nat \<times> PerformanceTrialV1 \<Rightarrow> TrialTotals \<Rightarrow> (DeploymentContractError, TrialTotals) result" where
  "trial_step = (\<lambda>(index, trial) t.
     rbind (trial_validate trial) (\<lambda>_.
     rbind (ok_or InvalidPerformanceEvidence (try_from_usize (index div 3 + 1))) (\<lambda>expected_trial_number.
     if pt_trial_number trial \<noteq> expected_trial_number \<or> pt_mode trial \<noteq> PERFORMANCE_TRIAL_MODE_ORDER ! index
     then Inl InvalidPerformanceEvidence
     else
       rbind (ok_or InvalidPerformanceEvidence (checked_add (tt_cpu_time_ns t) (pt_daemon_cpu_time_ns trial))) (\<lambda>cpu.
       rbind (ok_or InvalidPerformanceEvidence (checked_add (tt_duration_ns t) (ucast (pt_duration_ns trial)))) (\<lambda>duration.
       rbind (ok_or InvalidPerformanceEvidence (checked_add (tt_drop_delta t) (pt_packet_drop_delta trial))) (\<lambda>drops.
       rbind (ok_or InvalidPerformanceEvidence (checked_add (tt_error_delta t) (pt_packet_error_delta trial))) (\<lambda>errors.
       Inr \<lparr>tt_cpu_time_ns = cpu, tt_duration_ns = duration, tt_drop_delta = drops, tt_error_delta = errors,
            tt_peak_bytes = max (tt_peak_bytes t) (pt_peak_resident_memory_bytes trial)\<rparr>))))))) "

definition evidence_header_valid :: "PerformanceEvidenceV1 \<Rightarrow> u64 \<Rightarrow> u64 \<Rightarrow> bool" where
  "evidence_header_valid self captured_at_unix_ms lifetime \<longleftrightarrow>
     \<not> (pv_schema_version self \<noteq> DEPLOYMENT_SCHEMA_VERSION \<or> \<not> is_hex_of_length (pv_evidence_id self) 32
        \<or> \<not> is_hex_of_length (pv_artifact_commit_sha self) 40 \<or> \<not> is_safe_text (pv_package_version self) 64
        \<or> \<not> is_safe_text (pv_architecture self) 32 \<or> \<not> is_safe_text (pv_kernel_release self) 128 \<or> pv_logical_cpu_count self = 0
        \<or> pv_issued_at_unix_ms self = 0 \<or> lifetime = 0 \<or> PERFORMANCE_EVIDENCE_MAX_LIFETIME_MS < lifetime
        \<or> \<not> (pv_issued_at_unix_ms self \<le> captured_at_unix_ms \<and> captured_at_unix_ms \<le> pv_expires_at_unix_ms self)
        \<or> length (pv_trials self) \<noteq> PERFORMANCE_TOTAL_TRIALS)"

definition performance_regression :: "PerformanceEvidenceV1 \<Rightarrow> bool" where
  "performance_regression self \<longleftrightarrow>
     pv_pass_through_baseline_ratio_permille self < PERFORMANCE_PASS_THROUGH_MIN_PERMILLE
     \<or> pv_observe_baseline_ratio_permille self < PERFORMANCE_OBSERVE_MIN_PERMILLE
     \<or> PERFORMANCE_MAX_DAEMON_CPU_PERMILLE < pv_daemon_cpu_permille self
     \<or> PERFORMANCE_MAX_DAEMON_RSS_BYTES < pv_peak_resident_memory_bytes self
     \<or> PERFORMANCE_MAX_RSS_GROWTH_BYTES < pv_rss_growth_bytes self
     \<or> pv_packet_drop_delta self \<noteq> 0 \<or> pv_packet_error_delta self \<noteq> 0 \<or> pv_counts_before self \<noteq> pv_counts_after self
     \<or> \<not> pv_forwarding_intact self \<or> \<not> pv_owned_cleanup_complete self \<or> \<not> pv_network_identity_restored self
     \<or> \<not> pv_ebpf_identity_restored self"

definition expected_performance_result :: "PerformanceEvidenceV1 \<Rightarrow> PerformanceResultV1" where
  "expected_performance_result self =
     (if \<not> pv_warm_up_complete self \<or> \<not> pv_measurement_complete self \<or> pv_measurement_noisy self \<or> \<not> pv_host_identity_stable self
      then PerfUnavailable
      else if performance_regression self then PerfFailed
      else PerfPassed)"

fun expected_performance_findings :: "PerformanceResultV1 \<Rightarrow> string list" where
  "expected_performance_findings PerfPassed = []"
| "expected_performance_findings PerfFailed = [DG_PERFORMANCE_REGRESSION]"
| "expected_performance_findings PerfUnavailable = [DG_PERFORMANCE_UNAVAILABLE]"

definition assess_structure :: "PerformanceEvidenceV1 \<Rightarrow> u64 \<Rightarrow> (DeploymentContractError, PerformanceAssessmentV1) result" where
  "assess_structure self captured_at_unix_ms =
     rbind (ok_or InvalidPerformanceEvidence (checked_sub (pv_expires_at_unix_ms self) (pv_issued_at_unix_ms self))) (\<lambda>lifetime.
     if \<not> evidence_header_valid self captured_at_unix_ms lifetime then Inl InvalidPerformanceEvidence
     else
       rbind (rfold trial_step (enumerate 0 (pv_trials self)) no_trial_totals) (\<lambda>t.
       rbind (median_for (pv_trials self) ModeBaseline) (\<lambda>baseline.
       rbind (median_for (pv_trials self) ModePassThrough) (\<lambda>pass_through.
       rbind (median_for (pv_trials self) ModeObserve) (\<lambda>observe.
       rbind (conservative_ratio_permille pass_through baseline) (\<lambda>pass_through_ratio.
       rbind (conservative_ratio_permille observe baseline) (\<lambda>observe_ratio.
       rbind (ok_or InvalidPerformanceEvidence (checked_mul (ucast (tt_cpu_time_ns t) :: u128) 1000)) (\<lambda>cpu.
       rbind (ok_or InvalidPerformanceEvidence (try_from_word (cpu div tt_duration_ns t))) (\<lambda>daemon_cpu_permille.
       rbind (observe_rss_for_trial (pv_trials self) 1) (\<lambda>first_observe_rss.
       rbind (observe_rss_for_trial (pv_trials self) 5) (\<lambda>fifth_observe_rss.
       let rss_growth_bytes = (if first_observe_rss \<le> fifth_observe_rss then fifth_observe_rss - first_observe_rss else 0);
           medians = \<lparr>pm_baseline = baseline, pm_pass_through = pass_through, pm_observe = observe\<rparr>;
           result = expected_performance_result self
       in if pv_medians self \<noteq> medians \<or> pv_pass_through_baseline_ratio_permille self \<noteq> pass_through_ratio
             \<or> pv_observe_baseline_ratio_permille self \<noteq> observe_ratio \<or> pv_daemon_cpu_time_ns self \<noteq> tt_cpu_time_ns t
             \<or> pv_daemon_cpu_permille self \<noteq> daemon_cpu_permille \<or> pv_peak_resident_memory_bytes self \<noteq> tt_peak_bytes t
             \<or> pv_rss_growth_bytes self \<noteq> rss_growth_bytes \<or> pv_packet_drop_delta self \<noteq> tt_drop_delta t
             \<or> pv_packet_error_delta self \<noteq> tt_error_delta t \<or> \<not> codes_are_sorted_unique (pv_findings self)
             \<or> list_ex (\<lambda>code. code \<noteq> DG_PERFORMANCE_REGRESSION \<and> code \<noteq> DG_PERFORMANCE_UNAVAILABLE) (pv_findings self)
          then Inl InvalidPerformanceEvidence
          else if pv_result self \<noteq> result \<or> pv_findings self \<noteq> expected_performance_findings result
          then Inl InvalidPerformanceEvidence
          else Inr \<lparr>pa_medians = medians, pa_pass_through_baseline_ratio_permille = pass_through_ratio,
                    pa_observe_baseline_ratio_permille = observe_ratio, pa_daemon_cpu_time_ns = tt_cpu_time_ns t,
                    pa_daemon_cpu_permille = daemon_cpu_permille, pa_peak_resident_memory_bytes = tt_peak_bytes t,
                    pa_rss_growth_bytes = rss_growth_bytes, pa_result = result, pa_outstanding_warning_codes = sorted_warning_codes\<rparr>)))))))))))"

definition assess_for ::
  "PerformanceEvidenceV1 \<Rightarrow> u64 \<Rightarrow> DeploymentArtifactIdentityV1 \<Rightarrow> DeploymentHostCompatibilityV1 \<Rightarrow>
   (DeploymentContractError, PerformanceAssessmentV1) result" where
  "assess_for self captured_at_unix_ms artifact host =
     rbind (artifact_validate artifact) (\<lambda>_.
     rbind (host_validate host) (\<lambda>_.
     rbind (assess_structure self captured_at_unix_ms) (\<lambda>assessment.
     if pv_artifact_commit_sha self \<noteq> da_commit_sha artifact \<or> pv_package_version self \<noteq> da_package_version artifact
        \<or> pv_architecture self \<noteq> dh_architecture host \<or> pv_kernel_release self \<noteq> dh_kernel_release host
        \<or> pv_logical_cpu_count self \<noteq> dh_logical_cpu_count host
     then Inl InvalidPerformanceEvidence else Inr assessment)))"

subsection \<open>The canary plan\<close>

record DeploymentInterfaceSummaryV1 =
  ds_name :: string
  ds_ifindex :: u32
  ds_kind :: InterfaceKind
  ds_administrative_state :: DeploymentLinkStateV1
  ds_operational_state :: DeploymentLinkStateV1

definition interface_summary_validate :: "DeploymentInterfaceSummaryV1 \<Rightarrow> (DeploymentContractError, unit) result" where
  "interface_summary_validate self =
     (if \<not> is_ok (interface_name_new (ds_name self)) \<or> ds_ifindex self = 0 then Inl InvalidCanaryPlan else Inr ())"

definition interface_summary_new ::
  "string \<Rightarrow> u32 \<Rightarrow> InterfaceKind \<Rightarrow> bool \<Rightarrow> bool \<Rightarrow> (DeploymentContractError, DeploymentInterfaceSummaryV1) result" where
  "interface_summary_new name ifindex kind administrative_up operational_up =
     (let summary = \<lparr>ds_name = name, ds_ifindex = ifindex, ds_kind = kind, ds_administrative_state = LinkUp, ds_operational_state = LinkUp\<rparr>
      in if \<not> administrative_up \<or> \<not> operational_up then Inl InvalidCanaryPlan
         else rbind (interface_summary_validate summary) (\<lambda>_. Inr summary))"

datatype CanarySnapshotRequirementV1 = SnapNetwork | SnapXdp | SnapTc | SnapLoadedPrograms | SnapMaps | SnapPins | SnapTrafficHealth

datatype CanaryStopConditionV1 = StopIdentityChange | StopObservationDegradation | StopTrafficHealthDegradation | StopOwnershipMismatch
  | StopCleanupUncertainty | StopSignal | StopDeadline

datatype CanaryRollbackRequirementV1 = DetachOwnedTc | DetachOwnedXdp | UnpinOwnedMaps | UnloadOwnedPrograms | RemoveOwnedJournal
  | RestoreNetworkIdentity

definition REQUIRED_SNAPSHOTS :: "CanarySnapshotRequirementV1 list" where
  "REQUIRED_SNAPSHOTS = [SnapNetwork, SnapXdp, SnapTc, SnapLoadedPrograms, SnapMaps, SnapPins, SnapTrafficHealth]"

definition STOP_CONDITIONS :: "CanaryStopConditionV1 list" where
  "STOP_CONDITIONS =
     [StopIdentityChange, StopObservationDegradation, StopTrafficHealthDegradation, StopOwnershipMismatch, StopCleanupUncertainty,
      StopSignal, StopDeadline]"

definition ROLLBACK_REQUIREMENTS :: "CanaryRollbackRequirementV1 list" where
  "ROLLBACK_REQUIREMENTS =
     [DetachOwnedTc, DetachOwnedXdp, UnpinOwnedMaps, UnloadOwnedPrograms, RemoveOwnedJournal, RestoreNetworkIdentity]"

record CanaryPlanV1 =
  cp_schema_version :: u16
  cp_executable :: bool
  cp_authorization_id :: string
  cp_artifact_commit_sha :: string
  cp_interface :: DeploymentInterfaceSummaryV1
  cp_xdp_ingress_mode :: PerformanceXdpModeV1
  cp_tc_egress_hook :: bool
  cp_no_replace :: bool
  cp_reject_foreign_or_unknown_state :: bool
  cp_required_snapshots :: "CanarySnapshotRequirementV1 list"
  cp_maximum_observation_duration_ms :: u64
  cp_stop_conditions :: "CanaryStopConditionV1 list"
  cp_rollback_requirements :: "CanaryRollbackRequirementV1 list"
  cp_blocker_codes :: "string list"
  cp_warning_codes :: "string list"

definition canary_plan_validate :: "CanaryPlanV1 \<Rightarrow> (DeploymentContractError, unit) result" where
  "canary_plan_validate self =
     (if cp_schema_version self \<noteq> DEPLOYMENT_SCHEMA_VERSION \<or> cp_executable self \<or> \<not> is_hex_of_length (cp_authorization_id self) 32
         \<or> \<not> is_hex_of_length (cp_artifact_commit_sha self) 40 \<or> ds_kind (cp_interface self) \<noteq> KindPhysical
         \<or> \<not> is_ok (interface_summary_validate (cp_interface self)) \<or> cp_xdp_ingress_mode self \<noteq> PerfNative
         \<or> \<not> cp_tc_egress_hook self \<or> \<not> cp_no_replace self \<or> \<not> cp_reject_foreign_or_unknown_state self
         \<or> cp_required_snapshots self \<noteq> REQUIRED_SNAPSHOTS
         \<or> cp_maximum_observation_duration_ms self \<noteq> CANARY_MAX_OBSERVATION_MS
         \<or> cp_stop_conditions self \<noteq> STOP_CONDITIONS \<or> cp_rollback_requirements self \<noteq> ROLLBACK_REQUIREMENTS
         \<or> cp_blocker_codes self \<noteq> [] \<or> cp_warning_codes self \<noteq> sorted_warning_codes
      then Inl InvalidCanaryPlan else Inr ())"

definition canary_plan_new ::
  "DeploymentAuthorizationV1 \<Rightarrow> DeploymentInterfaceSummaryV1 \<Rightarrow> (DeploymentContractError, CanaryPlanV1) result" where
  "canary_plan_new authorization iface =
     rbind (authorization_validate_structure authorization) (\<lambda>_.
     rbind (interface_summary_validate iface) (\<lambda>_.
     if ds_kind iface \<noteq> KindPhysical \<or> du_name (dz_interface authorization) \<noteq> ds_name iface
        \<or> du_ifindex (dz_interface authorization) \<noteq> ds_ifindex iface \<or> du_kind (dz_interface authorization) \<noteq> ds_kind iface
     then Inl InvalidCanaryPlan
     else
       let plan = \<lparr>cp_schema_version = DEPLOYMENT_SCHEMA_VERSION, cp_executable = False,
                   cp_authorization_id = dz_authorization_id authorization, cp_artifact_commit_sha = dz_artifact_commit_sha authorization,
                   cp_interface = iface, cp_xdp_ingress_mode = PerfNative, cp_tc_egress_hook = True, cp_no_replace = True,
                   cp_reject_foreign_or_unknown_state = True, cp_required_snapshots = REQUIRED_SNAPSHOTS,
                   cp_maximum_observation_duration_ms = CANARY_MAX_OBSERVATION_MS, cp_stop_conditions = STOP_CONDITIONS,
                   cp_rollback_requirements = ROLLBACK_REQUIREMENTS, cp_blocker_codes = [], cp_warning_codes = sorted_warning_codes\<rparr>
       in rbind (canary_plan_validate plan) (\<lambda>_. Inr plan)))"

subsection \<open>Findings and gates\<close>

datatype DeploymentFindingSeverityV1 = DsBlocker | DsWarning | DsInformation

primrec deployment_severity_rank :: "DeploymentFindingSeverityV1 \<Rightarrow> nat" where
  "deployment_severity_rank DsBlocker = 0"
| "deployment_severity_rank DsWarning = 1"
| "deployment_severity_rank DsInformation = 2"

record DeploymentFindingV1 =
  df_code :: string
  df_severity :: DeploymentFindingSeverityV1

definition deployment_finding_blocker :: "string \<Rightarrow> (DeploymentContractError, DeploymentFindingV1) result" where
  "deployment_finding_blocker code =
     (if code \<notin> set BLOCKER_CODES then Inl InvalidDeploymentFinding else Inr \<lparr>df_code = code, df_severity = DsBlocker\<rparr>)"

definition deployment_finding_warning :: "string \<Rightarrow> (DeploymentContractError, DeploymentFindingV1) result" where
  "deployment_finding_warning code =
     (if code \<notin> set WARNING_CODES then Inl InvalidDeploymentFinding else Inr \<lparr>df_code = code, df_severity = DsWarning\<rparr>)"

definition deployment_finding_validate :: "DeploymentFindingV1 \<Rightarrow> (DeploymentContractError, unit) result" where
  "deployment_finding_validate self =
     (let valid = (case df_severity self of
                     DsBlocker \<Rightarrow> df_code self \<in> set BLOCKER_CODES
                   | DsWarning \<Rightarrow> df_code self \<in> set WARNING_CODES
                   | DsInformation \<Rightarrow> False)
      in if \<not> valid then Inl InvalidDeploymentFinding else Inr ())"

datatype DeploymentGateStateV1 = GatePassed | GateBlocked | GateUnavailable | GateNotApplicable

record DeploymentGateSummaryV1 =
  gs_state :: DeploymentGateStateV1
  gs_finding_codes :: "string list"

definition gate_passed :: DeploymentGateSummaryV1 where
  "gate_passed = \<lparr>gs_state = GatePassed, gs_finding_codes = []\<rparr>"

definition gate_not_applicable :: DeploymentGateSummaryV1 where
  "gate_not_applicable = \<lparr>gs_state = GateNotApplicable, gs_finding_codes = []\<rparr>"

definition gate_blocked :: "string \<Rightarrow> (DeploymentContractError, DeploymentGateSummaryV1) result" where
  "gate_blocked code =
     (if code \<notin> set BLOCKER_CODES then Inl InvalidGateSummary else Inr \<lparr>gs_state = GateBlocked, gs_finding_codes = [code]\<rparr>)"

definition gate_validate :: "DeploymentGateSummaryV1 \<Rightarrow> (DeploymentContractError, unit) result" where
  "gate_validate self =
     (let codes_valid = codes_are_sorted_unique (gs_finding_codes self) \<and> list_all (\<lambda>code. code \<in> set BLOCKER_CODES) (gs_finding_codes self);
          shape_valid = (case gs_state self of
                           GatePassed \<Rightarrow> gs_finding_codes self = [] | GateNotApplicable \<Rightarrow> gs_finding_codes self = []
                         | GateBlocked \<Rightarrow> gs_finding_codes self \<noteq> [] | GateUnavailable \<Rightarrow> gs_finding_codes self \<noteq> [])
      in if \<not> codes_valid \<or> \<not> shape_valid then Inl InvalidGateSummary else Inr ())"

definition gate_prevents :: "DeploymentGateSummaryV1 \<Rightarrow> bool" where
  "gate_prevents self \<longleftrightarrow> gs_state self \<in> {GateBlocked, GateUnavailable}"

record DeploymentGateSummariesV1 =
  ga_bundle :: DeploymentGateSummaryV1
  ga_layout :: DeploymentGateSummaryV1
  ga_service :: DeploymentGateSummaryV1
  ga_authorization :: DeploymentGateSummaryV1
  ga_platform :: DeploymentGateSummaryV1
  ga_evidence :: DeploymentGateSummaryV1
  ga_performance :: DeploymentGateSummaryV1

definition staging_passed :: DeploymentGateSummariesV1 where
  "staging_passed =
     \<lparr>ga_bundle = gate_passed, ga_layout = gate_passed, ga_service = gate_passed, ga_authorization = gate_passed,
      ga_platform = gate_not_applicable, ga_evidence = gate_passed, ga_performance = gate_passed\<rparr>"

definition inspect_passed :: DeploymentGateSummariesV1 where
  "inspect_passed =
     \<lparr>ga_bundle = gate_passed, ga_layout = gate_passed, ga_service = gate_passed, ga_authorization = gate_passed,
      ga_platform = gate_passed, ga_evidence = gate_passed, ga_performance = gate_passed\<rparr>"

definition installed_passed :: DeploymentGateSummariesV1 where
  "installed_passed = staging_passed"

definition inspect_blocked :: "string \<Rightarrow> (DeploymentContractError, DeploymentGateSummariesV1) result" where
  "inspect_blocked code = rbind (gate_blocked code) (\<lambda>platform. Inr (inspect_passed\<lparr>ga_platform := platform\<rparr>))"

definition gates_all :: "DeploymentGateSummariesV1 \<Rightarrow> DeploymentGateSummaryV1 list" where
  "gates_all self =
     [ga_bundle self, ga_layout self, ga_service self, ga_authorization self, ga_platform self, ga_evidence self, ga_performance self]"

definition gates_validate :: "DeploymentGateSummariesV1 \<Rightarrow> (DeploymentContractError, unit) result" where
  "gates_validate self = rfold (\<lambda>gate _. gate_validate gate) (gates_all self) ()"

definition prevents_positive_decision :: "DeploymentGateSummariesV1 \<Rightarrow> bool" where
  "prevents_positive_decision self = list_ex gate_prevents (gates_all self)"

definition is_staging_positive :: "DeploymentGateSummariesV1 \<Rightarrow> bool" where
  "is_staging_positive self \<longleftrightarrow>
     gs_state (ga_bundle self) = GatePassed \<and> gs_state (ga_layout self) = GatePassed \<and> gs_state (ga_service self) = GatePassed
     \<and> gs_state (ga_authorization self) = GatePassed \<and> gs_state (ga_platform self) = GateNotApplicable
     \<and> gs_state (ga_evidence self) = GatePassed \<and> gs_state (ga_performance self) = GatePassed"

definition is_inspect_positive :: "DeploymentGateSummariesV1 \<Rightarrow> bool" where
  "is_inspect_positive self = list_all (\<lambda>gate. gs_state gate = GatePassed) (gates_all self)"

definition is_installed_positive :: "DeploymentGateSummariesV1 \<Rightarrow> bool" where
  "is_installed_positive self = is_staging_positive self"

subsection \<open>The report\<close>

record DeploymentGateReportV1 =
  dr_schema_version :: u16
  dr_decision :: DeploymentDecisionV1
  dr_artifact :: DeploymentArtifactIdentityV1
  dr_interface :: "DeploymentInterfaceSummaryV1 option"
  dr_gates :: DeploymentGateSummariesV1
  dr_findings :: "DeploymentFindingV1 list"
  dr_canary_plan :: "CanaryPlanV1 option"
  dr_captured_at_unix_ms :: u64
  dr_mutations_performed :: bool

text \<open>Findings are compared by severity first and by the bytes of the code then.\<close>

definition deployment_finding_key :: "DeploymentFindingV1 \<Rightarrow> nat list" where
  "deployment_finding_key f = deployment_severity_rank (df_severity f) # text_key (df_code f)"

definition sort_dedup :: "('a \<Rightarrow> nat list) \<Rightarrow> 'a list \<Rightarrow> 'a list" where
  "sort_dedup key xs = remdups_adj (sort_key key xs)"

definition tidy_findings :: "DeploymentFindingV1 list \<Rightarrow> DeploymentFindingV1 list" where
  "tidy_findings findings = sort_dedup deployment_finding_key findings"

definition gate_decision ::
  "DeploymentCommandV1 \<Rightarrow> DeploymentArtifactIdentityV1 \<Rightarrow> DeploymentInterfaceSummaryV1 option \<Rightarrow> DeploymentGateSummariesV1 \<Rightarrow>
   CanaryPlanV1 option \<Rightarrow> bool \<Rightarrow> (DeploymentContractError, DeploymentDecisionV1) result" where
  "gate_decision command artifact iface gates canary_plan has_blocker =
     (case command of
        DcStaging \<Rightarrow>
          if iface \<noteq> None \<or> canary_plan \<noteq> None then Inl InvalidDeploymentReport
          else if has_blocker then Inr DdBlocked
          else if is_staging_positive gates then Inr DdStagingReady
          else Inl InvalidDeploymentReport
      | DcInstalled \<Rightarrow>
          if iface \<noteq> None \<or> canary_plan \<noteq> None then Inl InvalidDeploymentReport
          else if has_blocker then Inr DdBlocked
          else if is_installed_positive gates then Inr DdInstalledVerified
          else Inl InvalidDeploymentReport
      | DcInspect \<Rightarrow>
          if has_blocker then (if canary_plan \<noteq> None then Inl InvalidDeploymentReport else Inr DdBlocked)
          else
            rbind (ok_or InvalidDeploymentReport iface) (\<lambda>i.
            rbind (interface_summary_validate i) (\<lambda>_.
            rbind (ok_or InvalidDeploymentReport canary_plan) (\<lambda>plan.
            rbind (canary_plan_validate plan) (\<lambda>_.
            if \<not> is_inspect_positive gates \<or> cp_artifact_commit_sha plan \<noteq> da_commit_sha artifact \<or> cp_interface plan \<noteq> i
            then Inl InvalidDeploymentReport
            else Inr DdPhysicalCanaryReady)))))"

definition has_blocker_finding :: "DeploymentFindingV1 list \<Rightarrow> bool" where
  "has_blocker_finding findings = list_ex (\<lambda>f. df_severity f = DsBlocker) findings"

definition report_derive ::
  "DeploymentCommandV1 \<Rightarrow> DeploymentArtifactIdentityV1 \<Rightarrow> DeploymentInterfaceSummaryV1 option \<Rightarrow> DeploymentGateSummariesV1 \<Rightarrow>
   DeploymentFindingV1 list \<Rightarrow> CanaryPlanV1 option \<Rightarrow> u64 \<Rightarrow> (DeploymentContractError, DeploymentGateReportV1) result" where
  "report_derive command artifact iface gates findings canary_plan captured_at_unix_ms =
     rbind (artifact_validate artifact) (\<lambda>_.
     rbind (gates_validate gates) (\<lambda>_.
     if captured_at_unix_ms = 0 then Inl InvalidDeploymentReport
     else
       rbind (rfold (\<lambda>f _. deployment_finding_validate f) findings ()) (\<lambda>_.
       let findings = tidy_findings findings;
           has_blocker = has_blocker_finding findings \<or> prevents_positive_decision gates
       in rbind (gate_decision command artifact iface gates canary_plan has_blocker) (\<lambda>decision.
          Inr \<lparr>dr_schema_version = DEPLOYMENT_SCHEMA_VERSION, dr_decision = decision, dr_artifact = artifact, dr_interface = iface,
               dr_gates = gates, dr_findings = findings, dr_canary_plan = canary_plan, dr_captured_at_unix_ms = captured_at_unix_ms,
               dr_mutations_performed = False\<rparr>))))"

definition report_validate :: "DeploymentGateReportV1 \<Rightarrow> DeploymentCommandV1 \<Rightarrow> (DeploymentContractError, unit) result" where
  "report_validate self command =
     (if dr_schema_version self \<noteq> DEPLOYMENT_SCHEMA_VERSION \<or> dr_mutations_performed self then Inl InvalidDeploymentReport
      else
        rbind (report_derive command (dr_artifact self) (dr_interface self) (dr_gates self) (dr_findings self) (dr_canary_plan self)
                 (dr_captured_at_unix_ms self)) (\<lambda>expected.
        if expected \<noteq> self then Inl InvalidDeploymentReport else Inr ()))"

section \<open>The report is a fixed point of its derivation\<close>

text \<open>
  Sorting and removing neighbours that are equal, for a key that tells elements apart: the elements stay, in
  strict order, and the result depends on the set of elements only.
\<close>

lemma sort_key_sorted: "sorted (map f xs) \<Longrightarrow> sort_key f xs = xs"
  by (induction xs) (auto simp: insort_is_Cons)

lemma sorted_map_remdups_adj: "sorted (map f xs) \<Longrightarrow> sorted (map f (remdups_adj xs))"
  by (induction xs rule: remdups_adj.induct) auto

lemma distinct_remdups_adj_sorted: "sorted xs \<Longrightarrow> distinct (remdups_adj xs)"
  by (induction xs rule: remdups_adj.induct) force+

lemma set_sort_dedup [simp]: "set (sort_dedup key xs) = set xs"
  by (simp add: sort_dedup_def)

lemma sort_dedup_idem [simp]: "sort_dedup key (sort_dedup key xs) = sort_dedup key xs"
proof -
  have "sorted (map key (sort_dedup key xs))"
    by (simp add: sort_dedup_def sorted_map_remdups_adj)
  then have "sort_key key (sort_dedup key xs) = sort_dedup key xs"
    by (rule sort_key_sorted)
  moreover have "remdups_adj (sort_dedup key xs) = sort_dedup key xs"
    unfolding sort_dedup_def distinct_adj_altdef [symmetric] by (rule distinct_adj_remdups_adj)
  ultimately show ?thesis
    by (metis sort_dedup_def)
qed

locale finding_order =
  fixes key :: "'a \<Rightarrow> nat list"
  assumes key_inj: "inj key"
begin

lemma ordered: "sorted_wrt (<) (map key (sort_dedup key xs))"
proof -
  have "map key (sort_dedup key xs) = remdups_adj (map key (sort_key key xs))"
    by (simp add: sort_dedup_def remdups_adj_map_injective key_inj)
  moreover have "distinct (remdups_adj (map key (sort_key key xs)))"
    by (simp add: distinct_remdups_adj_sorted)
  ultimately show ?thesis
    by (simp add: strict_sorted_iff)
qed

lemma canonical:
  assumes "set xs = set ys"
  shows "sort_dedup key xs = sort_dedup key ys"
proof -
  have "map key (sort_dedup key xs) = map key (sort_dedup key ys)"
    using ordered [of xs] ordered [of ys] assms
    by (intro strict_sorted_equal) auto
  then show ?thesis
    using key_inj by (simp add: inj_map_eq_map)
qed

end

lemma text_key_inj: "text_key a = text_key b \<Longrightarrow> a = b"
  unfolding text_key_def by (metis inj_map_eq_map inj_def of_char_eq_iff)

interpretation deployment_findings: finding_order deployment_finding_key
proof (unfold_locales, rule injI)
  fix x y
  assume k: "deployment_finding_key x = deployment_finding_key y"
  then have "df_code x = df_code y"
    by (auto simp: deployment_finding_key_def dest: text_key_inj)
  moreover from k have "df_severity x = df_severity y"
    by (cases "df_severity x"; cases "df_severity y") (auto simp: deployment_finding_key_def)
  ultimately show "x = y" by simp
qed

lemma set_tidy [simp]: "set (tidy_findings fs) = set fs"
  by (simp add: tidy_findings_def)

lemma tidy_idem [simp]: "tidy_findings (tidy_findings fs) = tidy_findings fs"
  by (simp add: tidy_findings_def)

lemma tidy_ordered: "sorted_wrt (<) (map deployment_finding_key (tidy_findings fs))"
  unfolding tidy_findings_def by (rule deployment_findings.ordered)

lemma has_blocker_iff: "has_blocker_finding fs \<longleftrightarrow> (\<exists>f \<in> set fs. df_severity f = DsBlocker)"
  by (auto simp: has_blocker_finding_def list_ex_iff)

text \<open>What a derived report is made of.\<close>

lemma report_derive_Inr:
  "report_derive command artifact iface gates fs plan now = Inr r \<longleftrightarrow>
     artifact_validate artifact = Inr () \<and> gates_validate gates = Inr () \<and> now \<noteq> 0 \<and> (\<forall>f \<in> set fs. deployment_finding_validate f = Inr ())
     \<and> gate_decision command artifact iface gates plan (has_blocker_finding fs \<or> prevents_positive_decision gates) = Inr (dr_decision r)
     \<and> r = \<lparr>dr_schema_version = DEPLOYMENT_SCHEMA_VERSION, dr_decision = dr_decision r, dr_artifact = artifact, dr_interface = iface,
            dr_gates = gates, dr_findings = tidy_findings fs, dr_canary_plan = plan, dr_captured_at_unix_ms = now,
            dr_mutations_performed = False\<rparr>"
proof -
  have b: "has_blocker_finding (tidy_findings fs) = has_blocker_finding fs"
    by (simp add: has_blocker_iff)
  show ?thesis
    unfolding report_derive_def Let_def b by (auto simp: rbind_Inr_conv rfold_unit)
qed

lemma report_decision_blocked:
  "gate_decision command artifact iface gates plan b = Inr d \<Longrightarrow> d = DdBlocked \<longleftrightarrow> b"
  by (cases command) (auto simp: gate_decision_def rbind_Inr_conv split: if_splits)

lemma report_decision_ready:
  "gate_decision command artifact iface gates plan b = Inr DdPhysicalCanaryReady \<Longrightarrow>
   \<exists>i p. iface = Some i \<and> plan = Some p \<and> canary_plan_validate p = Inr () \<and> is_inspect_positive gates
         \<and> cp_artifact_commit_sha p = da_commit_sha artifact \<and> cp_interface p = i"
  by (cases command) (auto simp: gate_decision_def rbind_Inr_conv split: if_splits)

lemma report_decision_offline:
  "gate_decision command artifact iface gates plan b = Inr d \<Longrightarrow> d \<in> {DdStagingReady, DdInstalledVerified} \<Longrightarrow>
   is_staging_positive gates \<and> plan = None \<and> iface = None"
  by (cases command) (auto simp: gate_decision_def is_installed_positive_def rbind_Inr_conv split: if_splits)

text \<open>
  \<^bold>\<open>C28.\<close> A deployment report that was derived passes its own validation: deriving it again from its fields
  gives the same report. Its findings are those that were given, in strict order of severity and code. It
  is blocked exactly when a finding is a blocker or a gate is blocked or unavailable; it never claims a
  mutation; and a positive decision has every gate it needs passed, with, for the canary, a plan for the same commit
  and interface that is not executable.
\<close>

theorem derived_report_validates:
  assumes "report_derive command artifact iface gates findings plan now = Inr r"
  shows "report_validate r command = Inr ()
    \<and> set (dr_findings r) = set findings \<and> sorted_wrt (<) (map deployment_finding_key (dr_findings r))
    \<and> (dr_decision r = DdBlocked \<longleftrightarrow> (\<exists>f. f \<in> set findings \<and> df_severity f = DsBlocker) \<or> prevents_positive_decision gates)
    \<and> \<not> dr_mutations_performed r
    \<and> (dr_decision r = DdPhysicalCanaryReady \<longrightarrow>
         is_inspect_positive gates \<and> (\<exists>p. plan = Some p \<and> iface = Some (cp_interface p) \<and> \<not> cp_executable p
                                         \<and> cp_artifact_commit_sha p = da_commit_sha artifact))
    \<and> (dr_decision r = DdStagingReady \<or> dr_decision r = DdInstalledVerified \<longrightarrow> is_staging_positive gates \<and> plan = None)"
proof -
  note d = assms [unfolded report_derive_Inr]
  have r: "dr_schema_version r = 1" "dr_artifact r = artifact" "dr_interface r = iface" "dr_gates r = gates" "dr_findings r = tidy_findings findings"
    "dr_canary_plan r = plan" "dr_captured_at_unix_ms r = now" "\<not> dr_mutations_performed r"
    using d by (metis DeploymentGateReportV1.select_convs DEPLOYMENT_SCHEMA_VERSION_def)+
  have again: "report_derive command artifact iface gates (tidy_findings findings) plan now = Inr r"
    using d by (simp add: report_derive_Inr has_blocker_iff)
  have "report_validate r command = Inr ()"
    using again r by (simp add: report_validate_def)
  moreover have "dr_decision r = DdBlocked \<longleftrightarrow> has_blocker_finding findings \<or> prevents_positive_decision gates"
    using d report_decision_blocked by blast
  moreover have "is_inspect_positive gates \<and> (\<exists>p. plan = Some p \<and> iface = Some (cp_interface p) \<and> \<not> cp_executable p
                                         \<and> cp_artifact_commit_sha p = da_commit_sha artifact)" if c: "dr_decision r = DdPhysicalCanaryReady"
  proof -
    from c d obtain p where p: "iface = Some (cp_interface p)" "plan = Some p" "canary_plan_validate p = Inr ()" "is_inspect_positive gates"
        "cp_artifact_commit_sha p = da_commit_sha artifact"
      using report_decision_ready by metis
    moreover from p(3) have "\<not> cp_executable p"
      by (auto simp: canary_plan_validate_def split: if_splits)
    ultimately show ?thesis by blast
  qed
  moreover have "is_staging_positive gates \<and> plan = None" if "dr_decision r = DdStagingReady \<or> dr_decision r = DdInstalledVerified"
    using that d report_decision_offline [of command artifact iface gates plan _ "dr_decision r"] by blast
  ultimately show ?thesis
    using r(8) by (simp add: r(5) tidy_ordered has_blocker_iff Bex_def)
qed

text \<open>A staging report with two warnings given out of order, derived, and accepted.\<close>

definition sample_commit :: string where "sample_commit = replicate 40 CHR ''a''"

lemma sample_commit_hex [simp]: "is_hex_of_length sample_commit 40"
  by (simp add: is_hex_of_length_def sample_commit_def is_lower_hex_def list_all_iff ascii_class_defs)

definition sample_identity :: DeploymentArtifactIdentityV1 where
  "sample_identity = \<lparr>da_commit_sha = sample_commit, da_package_version = ''1.2''\<rparr>"

lemma sample_identity_valid: "artifact_validate sample_identity = Inr ()"
  by (simp add: artifact_validate_def sample_identity_def is_safe_text_def is_ascii_graphic_def)

definition sample_warnings :: "DeploymentFindingV1 list" where
  "sample_warnings = [\<lparr>df_code = ''DG_REAL_JOURNALD_UNVERIFIED'', df_severity = DsWarning\<rparr>, \<lparr>df_code = ''DG_NATIVE_XDP_UNVERIFIED'', df_severity = DsWarning\<rparr>]"

lemma sample_warnings_valid: "f \<in> set sample_warnings \<Longrightarrow> deployment_finding_validate f = Inr () \<and> df_severity f = DsWarning"
  by (auto simp: sample_warnings_def deployment_finding_validate_def WARNING_CODES_def)

lemma staging_passed_valid: "gates_validate staging_passed = Inr () \<and> \<not> prevents_positive_decision staging_passed \<and> is_staging_positive staging_passed"
  by (simp add: gates_validate_def gates_all_def staging_passed_def gate_passed_def gate_not_applicable_def gate_validate_def
      codes_are_sorted_unique_def prevents_positive_decision_def gate_prevents_def is_staging_positive_def)

lemma derived_report_validates_witness:
  "\<exists>r. report_derive DcStaging sample_identity None staging_passed sample_warnings None 7 = Inr r \<and> report_validate r DcStaging = Inr ()
       \<and> dr_decision r \<noteq> DdBlocked"
proof -
  have "\<exists>r. report_derive DcStaging sample_identity None staging_passed sample_warnings None 7 = Inr r"
    unfolding report_derive_Inr
    by (intro exI [of _ "\<lparr>dr_schema_version = DEPLOYMENT_SCHEMA_VERSION, dr_decision = DdStagingReady, dr_artifact = sample_identity, dr_interface = None,
            dr_gates = staging_passed, dr_findings = tidy_findings sample_warnings, dr_canary_plan = None, dr_captured_at_unix_ms = 7,
            dr_mutations_performed = False\<rparr>"])
       (auto simp: sample_identity_valid staging_passed_valid sample_warnings_valid gate_decision_def has_blocker_iff)
  then show ?thesis
    using derived_report_validates [of DcStaging sample_identity None staging_passed sample_warnings None 7]
      sample_warnings_valid staging_passed_valid by fastforce
qed

section \<open>What passing performance evidence means\<close>

lemma conservative_ratio_bound:
  assumes r: "conservative_ratio_permille measured baseline = Inr ratio" and k: "k \<le> ratio"
  shows "unat k * unat (pe_packets_per_second baseline) \<le> 1000 * unat (pe_packets_per_second measured)
    \<and> unat k * unat (pe_bytes_per_second baseline) \<le> 1000 * unat (pe_bytes_per_second measured)"
proof -
  have mul: "k * c \<le> m" if "k \<le> m div c" for k m c :: nat
    using that by (metis div_times_less_eq_dividend le_trans mult_le_mono1)
  have w: "unat (1000 :: u128) = 1000" by simp
  have "unat k \<le> unat ratio" using k by (simp add: word_le_nat_alt)
  also from r obtain p q :: u128 where p: "unat p = unat (pe_packets_per_second measured) * 1000" "unat q = unat (pe_bytes_per_second measured) * 1000"
    and "try_from_word (min (p div ucast (pe_packets_per_second baseline)) (q div ucast (pe_bytes_per_second baseline))) = Some ratio"
    by (auto simp: conservative_ratio_permille_def rbind_Inr_conv split: if_splits dest!: checked_mul_unat)
  then have "unat ratio = min (unat p div unat (pe_packets_per_second baseline)) (unat q div unat (pe_bytes_per_second baseline))"
    by (simp add: try_from_word_unat unat_min unat_div)
  finally have "unat k \<le> unat p div unat (pe_packets_per_second baseline)" "unat k \<le> unat q div unat (pe_bytes_per_second baseline)"
    by auto
  from this [THEN mul] show ?thesis by (simp add: p mult.commute)
qed

text \<open>Each trial's rates are those of its fixed traffic over its duration.\<close>

lemma trial_rates_exact:
  assumes "trial_validate t = Inr ()"
  shows "unat (pt_packets_per_second t) = 196608 * 10 ^ 9 div unat (pt_duration_ns t)
    \<and> unat (pt_bytes_per_second t) = 136970240 * 10 ^ 9 div unat (pt_duration_ns t)"
proof -
  from assms have eq: "ucast (pt_packets_per_second t) = (196608000000000 :: u128) div ucast (pt_duration_ns t)"
    "ucast (pt_bytes_per_second t) = (136970240000000000 :: u128) div ucast (pt_duration_ns t)"
    by (auto simp: trial_validate_def rbind_Inr_conv checked_mul_def checked_add_def unsigned_ucast_eq split: if_splits)
  have "unat (ucast (pt_packets_per_second t) :: u128) = 196608000000000 div unat (pt_duration_ns t)"
    "unat (ucast (pt_bytes_per_second t) :: u128) = 136970240000000000 div unat (pt_duration_ns t)"
    unfolding eq by (simp_all add: unat_div)
  then show ?thesis by simp
qed

text \<open>The running totals dominate every trial; their sums are exact.\<close>

lemma trial_step_Inr:
  assumes "trial_step (i, t) s = Inr s'"
  shows "trial_validate t = Inr () \<and> unat (pt_trial_number t) = i div 3 + 1 \<and> pt_mode t = PERFORMANCE_TRIAL_MODE_ORDER ! i
    \<and> unat (tt_cpu_time_ns s') = unat (tt_cpu_time_ns s) + unat (pt_daemon_cpu_time_ns t)
    \<and> unat (tt_duration_ns s') = unat (tt_duration_ns s) + unat (pt_duration_ns t)
    \<and> unat (tt_drop_delta s') = unat (tt_drop_delta s) + unat (pt_packet_drop_delta t)
    \<and> unat (tt_error_delta s') = unat (tt_error_delta s) + unat (pt_packet_error_delta t)
    \<and> unat (tt_peak_bytes s') = max (unat (tt_peak_bytes s)) (unat (pt_peak_resident_memory_bytes t))"
  using assms
  by (auto simp: trial_step_def rbind_Inr_conv unat_max split: if_splits dest!: checked_add_unat try_from_usize_unat)

lemma trial_totals:
  assumes "rfold trial_step (enumerate n ts) s = Inr s'"
  shows "(\<forall>i < length ts. trial_validate (ts ! i) = Inr () \<and> unat (pt_trial_number (ts ! i)) = (n + i) div 3 + 1
            \<and> pt_mode (ts ! i) = PERFORMANCE_TRIAL_MODE_ORDER ! (n + i))
    \<and> unat (tt_cpu_time_ns s') = unat (tt_cpu_time_ns s) + (\<Sum>t\<leftarrow>ts. unat (pt_daemon_cpu_time_ns t))
    \<and> unat (tt_duration_ns s') = unat (tt_duration_ns s) + (\<Sum>t\<leftarrow>ts. unat (pt_duration_ns t))
    \<and> unat (tt_drop_delta s') = unat (tt_drop_delta s) + (\<Sum>t\<leftarrow>ts. unat (pt_packet_drop_delta t))
    \<and> unat (tt_error_delta s') = unat (tt_error_delta s) + (\<Sum>t\<leftarrow>ts. unat (pt_packet_error_delta t))
    \<and> unat (tt_peak_bytes s) \<le> unat (tt_peak_bytes s')
    \<and> (\<forall>t \<in> set ts. unat (pt_peak_resident_memory_bytes t) \<le> unat (tt_peak_bytes s'))"
  using assms
proof (induction ts arbitrary: n s)
  case (Cons t ts)
  from Cons.prems obtain u where u: "trial_step (n, t) s = Inr u" "rfold trial_step (enumerate (Suc n) ts) u = Inr s'"
    by (auto simp: rbind_Inr_conv)
  note st = trial_step_Inr [OF u(1)] and ih = Cons.IH [OF u(2)]
  have pref: "trial_validate ((t # ts) ! i) = Inr () \<and> unat (pt_trial_number ((t # ts) ! i)) = (n + i) div 3 + 1
            \<and> pt_mode ((t # ts) ! i) = PERFORMANCE_TRIAL_MODE_ORDER ! (n + i)" if "i < length (t # ts)" for i
    using that st ih by (cases i) auto
  have sums: "unat (tt_cpu_time_ns s') = unat (tt_cpu_time_ns s) + (\<Sum>t\<leftarrow>t # ts. unat (pt_daemon_cpu_time_ns t))"
    "unat (tt_duration_ns s') = unat (tt_duration_ns s) + (\<Sum>t\<leftarrow>t # ts. unat (pt_duration_ns t))"
    "unat (tt_drop_delta s') = unat (tt_drop_delta s) + (\<Sum>t\<leftarrow>t # ts. unat (pt_packet_drop_delta t))"
    "unat (tt_error_delta s') = unat (tt_error_delta s) + (\<Sum>t\<leftarrow>t # ts. unat (pt_packet_error_delta t))"
    using st ih by simp_all
  have "unat (tt_peak_bytes s) \<le> unat (tt_peak_bytes s')" "\<forall>x \<in> set (t # ts). unat (pt_peak_resident_memory_bytes x) \<le> unat (tt_peak_bytes s')"
    using st ih by auto
  with pref sums show ?case by blast
qed simp

lemma assess_structure_Inr:
  assumes "assess_structure e now = Inr a"
  shows "\<exists>t. pv_issued_at_unix_ms e \<le> pv_expires_at_unix_ms e
    \<and> evidence_header_valid e now (pv_expires_at_unix_ms e - pv_issued_at_unix_ms e)
    \<and> rfold trial_step (enumerate 0 (pv_trials e)) no_trial_totals = Inr t
    \<and> median_for (pv_trials e) ModeBaseline = Inr (pm_baseline (pa_medians a))
    \<and> median_for (pv_trials e) ModePassThrough = Inr (pm_pass_through (pa_medians a))
    \<and> median_for (pv_trials e) ModeObserve = Inr (pm_observe (pa_medians a))
    \<and> conservative_ratio_permille (pm_pass_through (pa_medians a)) (pm_baseline (pa_medians a)) = Inr (pv_pass_through_baseline_ratio_permille e)
    \<and> conservative_ratio_permille (pm_observe (pa_medians a)) (pm_baseline (pa_medians a)) = Inr (pv_observe_baseline_ratio_permille e)
    \<and> unat (pv_daemon_cpu_permille e) = unat (tt_cpu_time_ns t) * 1000 div unat (tt_duration_ns t)
    \<and> pv_peak_resident_memory_bytes e = tt_peak_bytes t \<and> pv_packet_drop_delta e = tt_drop_delta t \<and> pv_packet_error_delta e = tt_error_delta t
    \<and> pa_result a = expected_performance_result e \<and> pv_result e = pa_result a \<and> pv_findings e = expected_performance_findings (pa_result a)"
proof -
  have m: "unat d = unat c * 1000 div unat (u :: u128)" if "checked_mul (ucast c) 1000 = Some k" "try_from_word (k div u) = Some d"
    for c :: u64 and d :: u16 and k u
    using checked_mul_unat [OF that(1)] try_from_word_unat [OF that(2)] by (simp add: unat_div)
  show ?thesis
    using assms by (fastforce simp: assess_structure_def Let_def rbind_Inr_conv checked_sub_Some m split: if_splits)
qed




text \<open>Evidence of fifteen equal trials of one second each passes.\<close>

definition sample_trial :: "u8 \<Rightarrow> PerformanceModeV1 \<Rightarrow> PerformanceTrialV1" where
  "sample_trial n m =
     \<lparr>pt_trial_number = n, pt_mode = m, pt_frame_sizes = PERFORMANCE_FIXED_FRAME_SIZES, pt_frames_per_size = PERFORMANCE_FRAMES_PER_SIZE,
      pt_duration_ns = 1000000000, pt_packets_per_second = 196608, pt_bytes_per_second = 136970240, pt_daemon_cpu_time_ns = 1000,
      pt_peak_resident_memory_bytes = 1024, pt_packet_drop_delta = 0, pt_packet_error_delta = 0\<rparr>"

definition sample_trials :: "PerformanceTrialV1 list" where
  "sample_trials =
     map2 sample_trial [1, 1, 1, 2, 2, 2, 3, 3, 3, 4, 4, 4, 5, 5, 5] PERFORMANCE_TRIAL_MODE_ORDER"

definition sample_rate :: PerformanceRateV1 where
  "sample_rate = \<lparr>pe_packets_per_second = 196608, pe_bytes_per_second = 136970240\<rparr>"

definition sample_performance :: PerformanceEvidenceV1 where
  "sample_performance =
     \<lparr>pv_schema_version = 1, pv_evidence_id = replicate 32 CHR ''b'', pv_artifact_commit_sha = sample_commit, pv_package_version = ''1.2'',
      pv_architecture = ''x86_64'', pv_kernel_release = ''6.1'', pv_logical_cpu_count = 4, pv_veth_xdp_mode = PerfNative,
      pv_issued_at_unix_ms = 10, pv_expires_at_unix_ms = 20, pv_warm_up_complete = True, pv_measurement_complete = True,
      pv_measurement_noisy = False, pv_host_identity_stable = True, pv_trials = sample_trials,
      pv_medians = \<lparr>pm_baseline = sample_rate, pm_pass_through = sample_rate, pm_observe = sample_rate\<rparr>,
      pv_pass_through_baseline_ratio_permille = 1000, pv_observe_baseline_ratio_permille = 1000, pv_daemon_cpu_time_ns = 15000,
      pv_daemon_cpu_permille = 0, pv_peak_resident_memory_bytes = 1024, pv_rss_growth_bytes = 0, pv_packet_drop_delta = 0,
      pv_packet_error_delta = 0, pv_counts_before = [1, 2, 3, 4, 5], pv_counts_after = [1, 2, 3, 4, 5], pv_forwarding_intact = True,
      pv_owned_cleanup_complete = True, pv_network_identity_restored = True, pv_ebpf_identity_restored = True, pv_result = PerfPassed,
      pv_findings = []\<rparr>"

definition sample_host :: DeploymentHostCompatibilityV1 where
  "sample_host = \<lparr>dh_architecture = ''x86_64'', dh_kernel_release = ''6.1'', dh_logical_cpu_count = 4\<rparr>"

lemma sample_trial_valid: "trial_validate (sample_trial n m) = Inr ()"
  by (simp add: trial_validate_def sample_trial_def checked_mul_def checked_add_def)

lemma sample_trial_fields:
  "pt_trial_number (sample_trial n m) = n" "pt_mode (sample_trial n m) = m" "pt_daemon_cpu_time_ns (sample_trial n m) = 1000"
  "pt_duration_ns (sample_trial n m) = 1000000000" "pt_packet_drop_delta (sample_trial n m) = 0" "pt_packet_error_delta (sample_trial n m) = 0"
  "pt_peak_resident_memory_bytes (sample_trial n m) = 1024"
  by (simp_all add: sample_trial_def)

lemma sample_trials_sum:
  "rfold trial_step (enumerate 0 sample_trials) no_trial_totals =
     Inr \<lparr>tt_cpu_time_ns = 15000, tt_duration_ns = 15000000000, tt_drop_delta = 0, tt_error_delta = 0, tt_peak_bytes = 1024\<rparr>"
  by (simp add: sample_trials_def PERFORMANCE_TRIAL_MODE_ORDER_def no_trial_totals_def trial_step_def sample_trial_valid
      sample_trial_fields checked_add_def try_from_usize_def)

lemma sample_medians: "median_for sample_trials m = Inr sample_rate"
  by (cases m)
     (simp_all add: median_for_def sample_trials_def PERFORMANCE_TRIAL_MODE_ORDER_def sample_trial_def sample_rate_def)

lemma sample_rss: "observe_rss_for_trial sample_trials 1 = Inr 1024" "observe_rss_for_trial sample_trials 5 = Inr 1024"
  by (simp_all add: observe_rss_for_trial_def sample_trials_def PERFORMANCE_TRIAL_MODE_ORDER_def sample_trial_def)

lemma sample_ratio: "conservative_ratio_permille sample_rate sample_rate = Inr 1000"
  by (simp add: conservative_ratio_permille_def sample_rate_def checked_mul_def try_from_word_def)

lemma sample_header: "evidence_header_valid sample_performance 15 10"
  by (simp add: evidence_header_valid_def sample_performance_def is_hex_of_length_def is_lower_hex_def list_all_iff ascii_class_defs
      is_safe_text_def is_ascii_graphic_def sample_trials_def PERFORMANCE_TRIAL_MODE_ORDER_def sample_commit_def)

lemma sample_evidence_fields:
  "pv_trials sample_performance = sample_trials" "pv_issued_at_unix_ms sample_performance = 10" "pv_expires_at_unix_ms sample_performance = 20"
  by (simp_all add: sample_performance_def)

lemma sample_result: "expected_performance_result sample_performance = PerfPassed"
  by (simp add: expected_performance_result_def performance_regression_def sample_performance_def)

lemma sample_assessed: "\<exists>a. assess_structure sample_performance 15 = Inr a \<and> pa_result a = PerfPassed"
  by (simp add: assess_structure_def sample_evidence_fields checked_sub_def sample_header sample_trials_sum sample_medians sample_ratio sample_rss
      sample_result checked_mul_def try_from_word_def)
     (simp add: sample_performance_def codes_are_sorted_unique_def)


end
