(* ===== verification/Installation.thy ===== *)
theory Installation
  imports Deployment
begin

text \<open>
  The contracts of the installer (\<open>l2-loop-core/src/installation.rs\<close>): the authorization, findings and the
  report of a command. A report that is derived is one the reader accepts.
\<close>

section \<open>Definitions\<close>

definition INSTALLATION_SCHEMA_VERSION :: u16 where [simp]: "INSTALLATION_SCHEMA_VERSION = 1"
definition INSTALL_AUTHORIZATION_MAX_LIFETIME_MS :: u64 where [simp]: "INSTALL_AUTHORIZATION_MAX_LIFETIME_MS = 3600000"

definition GI_AUTH_EXPIRED :: string where "GI_AUTH_EXPIRED = ''GI_AUTH_EXPIRED''"
definition GI_AUTH_HOST :: string where "GI_AUTH_HOST = ''GI_AUTH_HOST''"
definition GI_AUTH_ARTIFACT :: string where "GI_AUTH_ARTIFACT = ''GI_AUTH_ARTIFACT''"
definition GI_DESTINATION_FOREIGN :: string where "GI_DESTINATION_FOREIGN = ''GI_DESTINATION_FOREIGN''"
definition GI_TRANSACTION_CONFLICT :: string where "GI_TRANSACTION_CONFLICT = ''GI_TRANSACTION_CONFLICT''"
definition GI_WRITE_FAILED :: string where "GI_WRITE_FAILED = ''GI_WRITE_FAILED''"
definition GI_ROLLBACK_IDENTITY :: string where "GI_ROLLBACK_IDENTITY = ''GI_ROLLBACK_IDENTITY''"

definition INSTALL_FINDING_CODES :: "string list" where
  "INSTALL_FINDING_CODES =
     [''GI_AUTH_SCHEMA'', GI_AUTH_EXPIRED, GI_AUTH_HOST, GI_AUTH_ARTIFACT, ''GI_BUNDLE_INVALID'', GI_DESTINATION_FOREIGN,
      ''GI_METADATA_UNSAFE'', GI_TRANSACTION_CONFLICT, GI_WRITE_FAILED, GI_ROLLBACK_IDENTITY, ''GI_LAYOUT_VERIFY'',
      ''GI_SERVICE_STATE'', ''GI_SERVICE_LIFECYCLE'', ''GI_PHYSICAL_BLOCKED'', ''GI_INTERNAL'']"

datatype InstallContractError = InvalidInstallAuthorization | InvalidInstallFinding | InvalidInstallReport

datatype InstallOperationV1 = OpInstall | OpUpgrade | OpRollback

primrec install_operation_text :: "InstallOperationV1 \<Rightarrow> string" where
  "install_operation_text OpInstall = ''install''"
| "install_operation_text OpUpgrade = ''upgrade''"
| "install_operation_text OpRollback = ''rollback''"

datatype InstallCommandV1 = CmdPlan | CmdApply | CmdStatus | CmdRollback

datatype InstallDecisionV1 = IdBlocked | IdInstallPlanReady | IdInstalledVerified | IdRolledBack

primrec install_decision_text :: "InstallDecisionV1 \<Rightarrow> string" where
  "install_decision_text IdBlocked = ''blocked''"
| "install_decision_text IdInstallPlanReady = ''install_plan_ready''"
| "install_decision_text IdInstalledVerified = ''installed_verified''"
| "install_decision_text IdRolledBack = ''rolled_back''"

subsection \<open>Authorization\<close>

record InstallAuthorizationV1 =
  ia_schema_version :: u16
  ia_authorization_id :: string
  ia_transaction_id :: string
  ia_operation :: InstallOperationV1
  ia_artifact_commit_sha :: string
  ia_bundle_manifest_sha256 :: string
  ia_host_identity_sha256 :: string
  ia_deployment_authorization_sha256 :: string
  ia_performance_evidence_sha256 :: string
  ia_issued_at_unix_ms :: u64
  ia_expires_at_unix_ms :: u64
  ia_service_enable :: bool
  ia_service_start :: bool
  ia_physical_attach :: bool

definition install_authorization_structure :: "InstallAuthorizationV1 \<Rightarrow> (InstallContractError, unit) result" where
  "install_authorization_structure self =
     rbind (ok_or InvalidInstallAuthorization (checked_sub (ia_expires_at_unix_ms self) (ia_issued_at_unix_ms self))) (\<lambda>lifetime.
     if ia_schema_version self \<noteq> INSTALLATION_SCHEMA_VERSION \<or> \<not> is_hex_of_length (ia_authorization_id self) 32
        \<or> \<not> is_hex_of_length (ia_transaction_id self) 32 \<or> \<not> is_hex_of_length (ia_artifact_commit_sha self) 40
        \<or> \<not> is_hex_of_length (ia_bundle_manifest_sha256 self) 64 \<or> \<not> is_hex_of_length (ia_host_identity_sha256 self) 64
        \<or> \<not> is_hex_of_length (ia_deployment_authorization_sha256 self) 64 \<or> \<not> is_hex_of_length (ia_performance_evidence_sha256 self) 64
        \<or> ia_issued_at_unix_ms self = 0 \<or> lifetime = 0 \<or> INSTALL_AUTHORIZATION_MAX_LIFETIME_MS < lifetime
        \<or> ia_service_enable self \<or> ia_service_start self \<or> ia_physical_attach self
     then Inl InvalidInstallAuthorization else Inr ())"

definition install_authorization_validate_at :: "InstallAuthorizationV1 \<Rightarrow> u64 \<Rightarrow> (InstallContractError, unit) result" where
  "install_authorization_validate_at self captured_at_unix_ms =
     rbind (install_authorization_structure self) (\<lambda>_.
     if \<not> (ia_issued_at_unix_ms self \<le> captured_at_unix_ms \<and> captured_at_unix_ms \<le> ia_expires_at_unix_ms self)
     then Inl InvalidInstallAuthorization else Inr ())"

definition install_authorization_validate_for ::
  "InstallAuthorizationV1 \<Rightarrow> u64 \<Rightarrow> InstallOperationV1 \<Rightarrow> DeploymentArtifactIdentityV1 \<Rightarrow> string \<Rightarrow> string \<Rightarrow> string \<Rightarrow> string \<Rightarrow>
   (InstallContractError, unit) result" where
  "install_authorization_validate_for self captured_at_unix_ms operation artifact bundle_manifest_sha256 host_identity_sha256
     deployment_authorization_sha256 performance_evidence_sha256 =
     rbind (install_authorization_validate_at self captured_at_unix_ms) (\<lambda>_.
     rbind (map_err InvalidInstallAuthorization (artifact_validate artifact)) (\<lambda>_.
     if ia_operation self \<noteq> operation \<or> ia_artifact_commit_sha self \<noteq> da_commit_sha artifact
        \<or> ia_bundle_manifest_sha256 self \<noteq> bundle_manifest_sha256 \<or> ia_host_identity_sha256 self \<noteq> host_identity_sha256
        \<or> ia_deployment_authorization_sha256 self \<noteq> deployment_authorization_sha256
        \<or> ia_performance_evidence_sha256 self \<noteq> performance_evidence_sha256
        \<or> \<not> is_hex_of_length bundle_manifest_sha256 64 \<or> \<not> is_hex_of_length host_identity_sha256 64
        \<or> \<not> is_hex_of_length deployment_authorization_sha256 64 \<or> \<not> is_hex_of_length performance_evidence_sha256 64
     then Inl InvalidInstallAuthorization else Inr ()))"

subsection \<open>Findings and the report\<close>

datatype InstallFindingSeverityV1 = IsBlocker | IsWarning

primrec install_severity_rank :: "InstallFindingSeverityV1 \<Rightarrow> nat" where
  "install_severity_rank IsBlocker = 0"
| "install_severity_rank IsWarning = 1"

record InstallFindingV1 =
  if_code :: string
  if_severity :: InstallFindingSeverityV1

definition install_finding_validate :: "InstallFindingV1 \<Rightarrow> (InstallContractError, unit) result" where
  "install_finding_validate self = (if if_code self \<notin> set INSTALL_FINDING_CODES then Inl InvalidInstallFinding else Inr ())"

definition install_finding_new :: "string \<Rightarrow> InstallFindingSeverityV1 \<Rightarrow> (InstallContractError, InstallFindingV1) result" where
  "install_finding_new code sev =
     (let finding = \<lparr>if_code = code, if_severity = sev\<rparr>
      in rbind (install_finding_validate finding) (\<lambda>_. Inr finding))"

definition install_finding_blocker :: "string \<Rightarrow> (InstallContractError, InstallFindingV1) result" where
  "install_finding_blocker code = install_finding_new code IsBlocker"

definition install_finding_warning :: "string \<Rightarrow> (InstallContractError, InstallFindingV1) result" where
  "install_finding_warning code = install_finding_new code IsWarning"

definition install_finding_key :: "InstallFindingV1 \<Rightarrow> nat list" where
  "install_finding_key f = install_severity_rank (if_severity f) # text_key (if_code f)"

definition sort_and_deduplicate :: "InstallFindingV1 list \<Rightarrow> InstallFindingV1 list" where
  "sort_and_deduplicate findings = sort_dedup install_finding_key findings"

record InstallReportV1 =
  ir_schema_version :: u16
  ir_decision :: InstallDecisionV1
  ir_command :: InstallCommandV1
  ir_operation :: InstallOperationV1
  ir_authorization_id :: string
  ir_transaction_id :: string
  ir_artifact :: DeploymentArtifactIdentityV1
  ir_findings :: "InstallFindingV1 list"
  ir_captured_at_unix_ms :: u64
  ir_mutations_performed :: bool

fun command_matches_operation :: "InstallCommandV1 \<Rightarrow> InstallOperationV1 \<Rightarrow> bool" where
  "command_matches_operation CmdRollback operation = (operation = OpRollback)"
| "command_matches_operation command operation = (operation \<in> {OpInstall, OpUpgrade})"

fun positive_decision :: "InstallCommandV1 \<Rightarrow> bool \<Rightarrow> (InstallContractError, InstallDecisionV1) result" where
  "positive_decision CmdPlan False = Inr IdInstallPlanReady"
| "positive_decision CmdApply True = Inr IdInstalledVerified"
| "positive_decision CmdStatus False = Inr IdInstalledVerified"
| "positive_decision CmdRollback True = Inr IdRolledBack"
| "positive_decision _ _ = Inl InvalidInstallReport"

definition has_install_blocker :: "InstallFindingV1 list \<Rightarrow> bool" where
  "has_install_blocker findings = list_ex (\<lambda>f. if_severity f = IsBlocker) findings"

definition install_report_validate :: "InstallReportV1 \<Rightarrow> (InstallContractError, unit) result" where
  "install_report_validate self =
     (if ir_schema_version self \<noteq> INSTALLATION_SCHEMA_VERSION \<or> \<not> is_hex_of_length (ir_authorization_id self) 32
         \<or> \<not> is_hex_of_length (ir_transaction_id self) 32 \<or> \<not> is_ok (artifact_validate (ir_artifact self))
         \<or> ir_captured_at_unix_ms self = 0 \<or> \<not> command_matches_operation (ir_command self) (ir_operation self)
      then Inl InvalidInstallReport
      else
        rbind (rfold (\<lambda>f _. install_finding_validate f) (ir_findings self) ()) (\<lambda>_.
        if sort_and_deduplicate (ir_findings self) \<noteq> ir_findings self then Inl InvalidInstallReport
        else if has_install_blocker (ir_findings self)
        then (if ir_decision self \<noteq> IdBlocked then Inl InvalidInstallReport else Inr ())
        else
          rbind (positive_decision (ir_command self) (ir_mutations_performed self)) (\<lambda>decision.
          if ir_decision self \<noteq> decision then Inl InvalidInstallReport else Inr ())))"

definition install_report_derive ::
  "InstallCommandV1 \<Rightarrow> InstallOperationV1 \<Rightarrow> string \<Rightarrow> string \<Rightarrow> DeploymentArtifactIdentityV1 \<Rightarrow> InstallFindingV1 list \<Rightarrow> u64 \<Rightarrow> bool \<Rightarrow>
   (InstallContractError, InstallReportV1) result" where
  "install_report_derive command operation authorization_id transaction_id artifact findings captured_at_unix_ms mutations_performed =
     (if \<not> command_matches_operation command operation then Inl InvalidInstallReport
      else
        rbind (rfold (\<lambda>f _. install_finding_validate f) findings ()) (\<lambda>_.
        let findings = sort_and_deduplicate findings in
        rbind (if has_install_blocker findings then Inr IdBlocked else positive_decision command mutations_performed) (\<lambda>decision.
        let report = \<lparr>ir_schema_version = INSTALLATION_SCHEMA_VERSION, ir_decision = decision, ir_command = command, ir_operation = operation,
                      ir_authorization_id = authorization_id, ir_transaction_id = transaction_id, ir_artifact = artifact,
                      ir_findings = findings, ir_captured_at_unix_ms = captured_at_unix_ms, ir_mutations_performed = mutations_performed\<rparr>
        in rbind (install_report_validate report) (\<lambda>_. Inr report))))"

section \<open>Lemmas\<close>

interpretation install_findings: finding_order install_finding_key
proof (unfold_locales, rule injI)
  fix x y
  assume k: "install_finding_key x = install_finding_key y"
  then have "if_code x = if_code y"
    by (auto simp: install_finding_key_def dest: text_key_inj)
  moreover from k have "if_severity x = if_severity y"
    by (cases "if_severity x"; cases "if_severity y") (auto simp: install_finding_key_def)
  ultimately show "x = y" by simp
qed

lemma has_install_blocker_iff: "has_install_blocker fs \<longleftrightarrow> (\<exists>f \<in> set fs. if_severity f = IsBlocker)"
  by (auto simp: has_install_blocker_def list_ex_iff)

text \<open>When a report can be derived, and what it says.\<close>

lemma install_report_derive_Inr:
  "install_report_derive command operation aid tid artifact fs now m = Inr r \<longleftrightarrow>
     command_matches_operation command operation \<and> is_hex_of_length aid 32 \<and> is_hex_of_length tid 32 \<and> artifact_validate artifact = Inr ()
     \<and> now \<noteq> 0 \<and> (\<forall>f \<in> set fs. install_finding_validate f = Inr ())
     \<and> (if has_install_blocker fs then ir_decision r = IdBlocked else positive_decision command m = Inr (ir_decision r))
     \<and> r = \<lparr>ir_schema_version = INSTALLATION_SCHEMA_VERSION, ir_decision = ir_decision r, ir_command = command, ir_operation = operation,
            ir_authorization_id = aid, ir_transaction_id = tid, ir_artifact = artifact, ir_findings = sort_and_deduplicate fs,
            ir_captured_at_unix_ms = now, ir_mutations_performed = m\<rparr>"
proof -
  have b: "has_install_blocker (sort_and_deduplicate fs) = has_install_blocker fs"
    by (simp add: has_install_blocker_iff sort_and_deduplicate_def)
  have n: "sort_and_deduplicate (sort_and_deduplicate fs) = sort_and_deduplicate fs" "set (sort_and_deduplicate fs) = set fs"
    by (simp_all add: sort_and_deduplicate_def)
  show ?thesis
    unfolding install_report_derive_def Let_def b
    by (auto simp: rbind_Inr_conv rfold_unit install_report_validate_def b n is_ok_conv)
qed

lemma install_report_derive_valid:
  assumes "install_report_derive command operation aid tid artifact fs now m = Inr r"
  shows "install_report_validate r = Inr ()"
  using assms by (auto simp: install_report_derive_def Let_def rbind_Inr_conv split: if_splits)

text \<open>A derived report is blocked exactly when a blocker was given.\<close>

lemma install_report_blocked_iff:
  assumes "install_report_derive command operation aid tid artifact fs now m = Inr r"
  shows "ir_decision r = IdBlocked \<longleftrightarrow> has_install_blocker fs"
  using assms unfolding install_report_derive_Inr
  by (cases "(command, m)" rule: positive_decision.cases) (auto split: if_splits)

end
