(* ===== verification/InstallJournal.thy ===== *)
theory InstallJournal
  imports Installation
begin

text \<open>
  The journal of an installation transaction (\<open>l2-loop-core/src/install_journal.rs\<close>): the fixed roles, the
  identities of the objects that are installed, the entries, and the operations that move the journal
  forward or back. A journal that any sequence of operations has produced is one that can be read back after a
  crash, and a rollback undoes what was applied, newest first.

  The operations change the journal in place and may fail afterwards, so each returns its result together
  with the journal it leaves behind.
\<close>

section \<open>Roles\<close>

datatype InstallRoleV1 =
    RoleEvidenceRoot | RoleDaemon | RoleCli | RoleUsrRoot | RoleUsrBinRoot | RoleUsrLibRoot
  | RoleUsrLibexecRoot | RoleProductLibexecRoot | RoleUsrLibSystemdRoot | RoleSystemdUnitRoot | RoleUsrShareRoot | RoleUsrShareDocRoot
  | RoleProductDocRoot | RoleEtcRoot | RoleConfigRoot | RoleVarRoot | RoleVarLibRoot | RoleStateRoot
  | RoleGatesRoot | RoleEvidenceParent | RoleInstallRoot | RoleTransactionsRoot | RoleDeploymentChecker | RoleInstaller
  | RoleHostChecker | RoleEbpfObject | RoleBundleManifest | RoleBundleChecksums | RoleServiceUnit | RoleAuthorizationExample
  | RoleDeploymentAuthorization | RolePerformanceEvidence

text \<open>The order that the derived \<open>Ord\<close> gives the roles: the one of their declaration.\<close>

primrec role_ordinal :: "InstallRoleV1 \<Rightarrow> nat" where
  "role_ordinal RoleEvidenceRoot = 0"
| "role_ordinal RoleDaemon = 1"
| "role_ordinal RoleCli = 2"
| "role_ordinal RoleUsrRoot = 3"
| "role_ordinal RoleUsrBinRoot = 4"
| "role_ordinal RoleUsrLibRoot = 5"
| "role_ordinal RoleUsrLibexecRoot = 6"
| "role_ordinal RoleProductLibexecRoot = 7"
| "role_ordinal RoleUsrLibSystemdRoot = 8"
| "role_ordinal RoleSystemdUnitRoot = 9"
| "role_ordinal RoleUsrShareRoot = 10"
| "role_ordinal RoleUsrShareDocRoot = 11"
| "role_ordinal RoleProductDocRoot = 12"
| "role_ordinal RoleEtcRoot = 13"
| "role_ordinal RoleConfigRoot = 14"
| "role_ordinal RoleVarRoot = 15"
| "role_ordinal RoleVarLibRoot = 16"
| "role_ordinal RoleStateRoot = 17"
| "role_ordinal RoleGatesRoot = 18"
| "role_ordinal RoleEvidenceParent = 19"
| "role_ordinal RoleInstallRoot = 20"
| "role_ordinal RoleTransactionsRoot = 21"
| "role_ordinal RoleDeploymentChecker = 22"
| "role_ordinal RoleInstaller = 23"
| "role_ordinal RoleHostChecker = 24"
| "role_ordinal RoleEbpfObject = 25"
| "role_ordinal RoleBundleManifest = 26"
| "role_ordinal RoleBundleChecksums = 27"
| "role_ordinal RoleServiceUnit = 28"
| "role_ordinal RoleAuthorizationExample = 29"
| "role_ordinal RoleDeploymentAuthorization = 30"
| "role_ordinal RolePerformanceEvidence = 31"

primrec fixed_destination :: "InstallRoleV1 \<Rightarrow> string" where
  "fixed_destination RoleUsrRoot = ''/usr''"
| "fixed_destination RoleUsrBinRoot = ''/usr/bin''"
| "fixed_destination RoleUsrLibRoot = ''/usr/lib''"
| "fixed_destination RoleUsrLibexecRoot = ''/usr/libexec''"
| "fixed_destination RoleProductLibexecRoot = ''/usr/libexec/l2-loop''"
| "fixed_destination RoleUsrLibSystemdRoot = ''/usr/lib/systemd''"
| "fixed_destination RoleSystemdUnitRoot = ''/usr/lib/systemd/system''"
| "fixed_destination RoleUsrShareRoot = ''/usr/share''"
| "fixed_destination RoleUsrShareDocRoot = ''/usr/share/doc''"
| "fixed_destination RoleProductDocRoot = ''/usr/share/doc/l2-loop''"
| "fixed_destination RoleEtcRoot = ''/etc''"
| "fixed_destination RoleConfigRoot = ''/etc/l2-loop''"
| "fixed_destination RoleVarRoot = ''/var''"
| "fixed_destination RoleVarLibRoot = ''/var/lib''"
| "fixed_destination RoleStateRoot = ''/var/lib/l2-loop''"
| "fixed_destination RoleGatesRoot = ''/var/lib/l2-loop/gates''"
| "fixed_destination RoleEvidenceParent = ''/var/lib/l2-loop/evidence''"
| "fixed_destination RoleEvidenceRoot = ''/var/lib/l2-loop/evidence/v1''"
| "fixed_destination RoleInstallRoot = ''/var/lib/l2-loop/install''"
| "fixed_destination RoleTransactionsRoot = ''/var/lib/l2-loop/install/transactions''"
| "fixed_destination RoleCli = ''/usr/bin/l2-loopctl''"
| "fixed_destination RoleDaemon = ''/usr/libexec/l2-loop/l2-loopd''"
| "fixed_destination RoleDeploymentChecker = ''/usr/libexec/l2-loop/l2-loop-deploycheck''"
| "fixed_destination RoleInstaller = ''/usr/libexec/l2-loop/l2-loop-install''"
| "fixed_destination RoleHostChecker = ''/usr/libexec/l2-loop/l2-loop-hostcheck''"
| "fixed_destination RoleEbpfObject = ''/usr/libexec/l2-loop/l2-loop-ebpf.o''"
| "fixed_destination RoleBundleManifest = ''/usr/libexec/l2-loop/manifest.json''"
| "fixed_destination RoleBundleChecksums = ''/usr/libexec/l2-loop/SHA256SUMS''"
| "fixed_destination RoleServiceUnit = ''/usr/lib/systemd/system/l2-loop.service''"
| "fixed_destination RoleAuthorizationExample = ''/usr/share/doc/l2-loop/deployment-v1.example.json''"
| "fixed_destination RoleDeploymentAuthorization = ''/etc/l2-loop/deployment-v1.json''"
| "fixed_destination RolePerformanceEvidence = ''/var/lib/l2-loop/gates/performance-v1.json''"

primrec install_order :: "InstallRoleV1 \<Rightarrow> u8" where
  "install_order RoleUsrRoot = 0"
| "install_order RoleUsrBinRoot = 1"
| "install_order RoleUsrLibRoot = 2"
| "install_order RoleUsrLibexecRoot = 3"
| "install_order RoleProductLibexecRoot = 4"
| "install_order RoleUsrLibSystemdRoot = 5"
| "install_order RoleSystemdUnitRoot = 6"
| "install_order RoleUsrShareRoot = 7"
| "install_order RoleUsrShareDocRoot = 8"
| "install_order RoleProductDocRoot = 9"
| "install_order RoleEtcRoot = 10"
| "install_order RoleConfigRoot = 11"
| "install_order RoleVarRoot = 12"
| "install_order RoleVarLibRoot = 13"
| "install_order RoleStateRoot = 14"
| "install_order RoleGatesRoot = 15"
| "install_order RoleEvidenceParent = 16"
| "install_order RoleEvidenceRoot = 17"
| "install_order RoleInstallRoot = 18"
| "install_order RoleTransactionsRoot = 19"
| "install_order RoleCli = 20"
| "install_order RoleDaemon = 21"
| "install_order RoleDeploymentChecker = 22"
| "install_order RoleInstaller = 23"
| "install_order RoleHostChecker = 24"
| "install_order RoleEbpfObject = 25"
| "install_order RoleBundleManifest = 26"
| "install_order RoleBundleChecksums = 27"
| "install_order RoleServiceUnit = 28"
| "install_order RoleAuthorizationExample = 29"
| "install_order RoleDeploymentAuthorization = 30"
| "install_order RolePerformanceEvidence = 31"

fun expected_mode :: "InstallRoleV1 \<Rightarrow> u32" where
  "expected_mode RoleConfigRoot = 448"
| "expected_mode RoleStateRoot = 448"
| "expected_mode RoleGatesRoot = 448"
| "expected_mode RoleEvidenceParent = 448"
| "expected_mode RoleEvidenceRoot = 448"
| "expected_mode RoleInstallRoot = 448"
| "expected_mode RoleTransactionsRoot = 448"
| "expected_mode RoleDeploymentAuthorization = 384"
| "expected_mode RolePerformanceEvidence = 384"
| "expected_mode RoleEbpfObject = 420"
| "expected_mode RoleBundleManifest = 420"
| "expected_mode RoleBundleChecksums = 420"
| "expected_mode RoleServiceUnit = 420"
| "expected_mode RoleAuthorizationExample = 420"
| "expected_mode _ = 493"

definition is_journal_retention_directory :: "InstallRoleV1 \<Rightarrow> bool" where
  "is_journal_retention_directory self \<longleftrightarrow> self \<in> {RoleStateRoot, RoleInstallRoot, RoleTransactionsRoot}"

definition role_is_directory :: "InstallRoleV1 \<Rightarrow> bool" where
  "role_is_directory self \<longleftrightarrow> install_order self < 20"

section \<open>Identities\<close>

definition INSTALL_JOURNAL_SCHEMA_VERSION :: u16 where [simp]: "INSTALL_JOURNAL_SCHEMA_VERSION = 1"

datatype InstallJournalError = InvalidJournal | InvalidTransition

datatype InstallObjectKindV1 = ObjDirectory | ObjRegularFile

record InstallIntendedIdentityV1 =
  ii_kind :: InstallObjectKindV1
  ii_sha256 :: "string option"
  ii_mode :: u32
  ii_uid :: u32
  ii_gid :: u32

definition intended_validate :: "InstallIntendedIdentityV1 \<Rightarrow> (InstallJournalError, unit) result" where
  "intended_validate self =
     (let digest_valid = (case (ii_kind self, ii_sha256 self) of
                            (ObjRegularFile, Some digest) \<Rightarrow> is_hex_of_length digest 64
                          | (ObjDirectory, None) \<Rightarrow> True
                          | _ \<Rightarrow> False)
      in if \<not> digest_valid \<or> 4095 < ii_mode self then Inl InvalidJournal else Inr ())"

definition intended_regular_file :: "string \<Rightarrow> u32 \<Rightarrow> u32 \<Rightarrow> u32 \<Rightarrow> (InstallJournalError, InstallIntendedIdentityV1) result" where
  "intended_regular_file sha256 mode uid gid =
     (let identity = \<lparr>ii_kind = ObjRegularFile, ii_sha256 = Some sha256, ii_mode = mode, ii_uid = uid, ii_gid = gid\<rparr>
      in rbind (intended_validate identity) (\<lambda>_. Inr identity))"

definition intended_directory :: "u32 \<Rightarrow> u32 \<Rightarrow> u32 \<Rightarrow> (InstallJournalError, InstallIntendedIdentityV1) result" where
  "intended_directory mode uid gid =
     (let identity = \<lparr>ii_kind = ObjDirectory, ii_sha256 = None, ii_mode = mode, ii_uid = uid, ii_gid = gid\<rparr>
      in rbind (intended_validate identity) (\<lambda>_. Inr identity))"

record InstallObjectIdentityV1 =
  oi_kind :: InstallObjectKindV1
  oi_device :: u64
  oi_inode :: u64
  oi_hard_links :: u64
  oi_sha256 :: "string option"
  oi_mode :: u32
  oi_uid :: u32
  oi_gid :: u32

definition object_validate :: "InstallObjectIdentityV1 \<Rightarrow> (InstallJournalError, unit) result" where
  "object_validate self =
     (let shape_valid = (case (oi_kind self, oi_sha256 self) of
                           (ObjRegularFile, Some digest) \<Rightarrow> oi_hard_links self = 1 \<and> is_hex_of_length digest 64
                         | (ObjDirectory, None) \<Rightarrow> 0 < oi_hard_links self
                         | _ \<Rightarrow> False)
      in if oi_device self = 0 \<or> oi_inode self = 0 \<or> 4095 < oi_mode self \<or> \<not> shape_valid then Inl InvalidJournal else Inr ())"

definition object_regular_file ::
  "u64 \<Rightarrow> u64 \<Rightarrow> u64 \<Rightarrow> string \<Rightarrow> u32 \<Rightarrow> u32 \<Rightarrow> u32 \<Rightarrow> (InstallJournalError, InstallObjectIdentityV1) result" where
  "object_regular_file device inode hard_links sha256 mode uid gid =
     (let identity = \<lparr>oi_kind = ObjRegularFile, oi_device = device, oi_inode = inode, oi_hard_links = hard_links, oi_sha256 = Some sha256,
                      oi_mode = mode, oi_uid = uid, oi_gid = gid\<rparr>
      in rbind (object_validate identity) (\<lambda>_. Inr identity))"

definition object_directory ::
  "u64 \<Rightarrow> u64 \<Rightarrow> u64 \<Rightarrow> u32 \<Rightarrow> u32 \<Rightarrow> u32 \<Rightarrow> (InstallJournalError, InstallObjectIdentityV1) result" where
  "object_directory device inode hard_links mode uid gid =
     (let identity = \<lparr>oi_kind = ObjDirectory, oi_device = device, oi_inode = inode, oi_hard_links = hard_links, oi_sha256 = None,
                      oi_mode = mode, oi_uid = uid, oi_gid = gid\<rparr>
      in rbind (object_validate identity) (\<lambda>_. Inr identity))"

definition matches_persistent_object :: "InstallObjectIdentityV1 \<Rightarrow> InstallObjectIdentityV1 \<Rightarrow> bool" where
  "matches_persistent_object self observed \<longleftrightarrow>
     oi_kind self = oi_kind observed \<and> oi_device self = oi_device observed \<and> oi_inode self = oi_inode observed
     \<and> oi_mode self = oi_mode observed \<and> oi_uid self = oi_uid observed \<and> oi_gid self = oi_gid observed
     \<and> (case oi_kind self of
          ObjRegularFile \<Rightarrow> oi_hard_links self = oi_hard_links observed \<and> oi_sha256 self = oi_sha256 observed
        | ObjDirectory \<Rightarrow> True)"

definition object_matches_intended :: "InstallObjectIdentityV1 \<Rightarrow> InstallIntendedIdentityV1 \<Rightarrow> bool" where
  "object_matches_intended self intended \<longleftrightarrow>
     oi_kind self = ii_kind intended \<and> oi_sha256 self = ii_sha256 intended \<and> oi_mode self = ii_mode intended
     \<and> oi_uid self = ii_uid intended \<and> oi_gid self = ii_gid intended"

section \<open>Entries\<close>

datatype InstallPriorStateV1 = PriorAbsent | PriorOwned (prior_identity: InstallObjectIdentityV1) (backup_basename: string)

datatype InstallJournalEntryPhaseV1 = PhPending | PhApplied | PhVerified | PhRolledBack

record InstallJournalEntryV1 =
  ne_role :: InstallRoleV1
  ne_fixed_path :: string
  ne_intended :: InstallIntendedIdentityV1
  ne_sibling_basename :: "string option"
  ne_prior_state :: InstallPriorStateV1
  ne_current_identity :: "InstallObjectIdentityV1 option"
  ne_created_parent_identity :: "InstallObjectIdentityV1 option"
  ne_phase :: InstallJournalEntryPhaseV1

definition safe_basename :: "string \<Rightarrow> bool" where
  "safe_basename value \<longleftrightarrow>
     value \<noteq> [] \<and> value \<noteq> ''.'' \<and> value \<noteq> ''..'' \<and> length value \<le> 255
     \<and> \<not> list_ex (\<lambda>byte. byte \<in> {CHR ''/'', CHR 0x5C, CHR ''*'', CHR ''?'', CHR ''['', CHR '']'', CHR 0x00}) value"

text \<open>The part of an entry that does not change, and the part that goes with its phase.\<close>

definition entry_validate_fixed :: "InstallJournalEntryV1 \<Rightarrow> (InstallJournalError, unit) result" where
  "entry_validate_fixed self =
     rbind (intended_validate (ne_intended self)) (\<lambda>_.
     if ne_fixed_path self \<noteq> fixed_destination (ne_role self) \<or> ii_mode (ne_intended self) \<noteq> expected_mode (ne_role self)
        \<or> ii_uid (ne_intended self) \<noteq> 0 \<or> ii_gid (ne_intended self) \<noteq> 0
        \<or> role_is_directory (ne_role self) \<noteq> (ii_kind (ne_intended self) = ObjDirectory)
     then Inl InvalidJournal
     else if (if role_is_directory (ne_role self) then ne_sibling_basename self \<noteq> None \<or> ne_prior_state self \<noteq> PriorAbsent
              else \<not> is_some_and (ne_sibling_basename self) safe_basename)
     then Inl InvalidJournal
     else case ne_prior_state self of
            PriorAbsent \<Rightarrow> Inr ()
          | PriorOwned identity backup \<Rightarrow>
              rbind (object_validate identity) (\<lambda>_.
              if role_is_directory (ne_role self) \<or> oi_kind identity \<noteq> ObjRegularFile \<or> oi_mode identity \<noteq> expected_mode (ne_role self)
                 \<or> oi_uid identity \<noteq> 0 \<or> oi_gid identity \<noteq> 0 \<or> \<not> safe_basename backup
              then Inl InvalidJournal else Inr ()))"

definition created_parent_ok :: "InstallJournalError \<Rightarrow> InstallObjectIdentityV1 option \<Rightarrow> (InstallJournalError, unit) result" where
  "created_parent_ok err created_parent =
     (case created_parent of
        None \<Rightarrow> Inr ()
      | Some parent_id \<Rightarrow>
          rbind (object_validate parent_id) (\<lambda>_.
          if oi_kind parent_id \<noteq> ObjDirectory \<or> oi_uid parent_id \<noteq> 0 \<or> oi_gid parent_id \<noteq> 0 then Inl err else Inr ()))"

definition entry_validate_phase :: "InstallJournalEntryV1 \<Rightarrow> (InstallJournalError, unit) result" where
  "entry_validate_phase self =
     (if ne_phase self = PhPending
      then (if ne_current_identity self \<noteq> None \<or> ne_created_parent_identity self \<noteq> None then Inl InvalidJournal else Inr ())
      else
        rbind (ok_or InvalidJournal (ne_current_identity self)) (\<lambda>current.
        rbind (object_validate current) (\<lambda>_.
        if \<not> object_matches_intended current (ne_intended self) then Inl InvalidJournal
        else created_parent_ok InvalidJournal (ne_created_parent_identity self))))"

definition entry_validate :: "InstallJournalEntryV1 \<Rightarrow> (InstallJournalError, unit) result" where
  "entry_validate self = rbind (entry_validate_fixed self) (\<lambda>_. entry_validate_phase self)"

definition entry_new ::
  "InstallRoleV1 \<Rightarrow> InstallIntendedIdentityV1 \<Rightarrow> string option \<Rightarrow> InstallPriorStateV1 \<Rightarrow> (InstallJournalError, InstallJournalEntryV1) result" where
  "entry_new role intended sibling_basename prior_state =
     (let entry = \<lparr>ne_role = role, ne_fixed_path = fixed_destination role, ne_intended = intended, ne_sibling_basename = sibling_basename,
                   ne_prior_state = prior_state, ne_current_identity = None, ne_created_parent_identity = None, ne_phase = PhPending\<rparr>
      in rbind (entry_validate entry) (\<lambda>_. Inr entry))"

definition absent_directory :: "InstallRoleV1 \<Rightarrow> InstallIntendedIdentityV1 \<Rightarrow> (InstallJournalError, InstallJournalEntryV1) result" where
  "absent_directory role intended = entry_new role intended None PriorAbsent"

definition absent_file :: "InstallRoleV1 \<Rightarrow> InstallIntendedIdentityV1 \<Rightarrow> string \<Rightarrow> (InstallJournalError, InstallJournalEntryV1) result" where
  "absent_file role intended sibling_basename = entry_new role intended (Some sibling_basename) PriorAbsent"

definition prior_owned_file ::
  "InstallRoleV1 \<Rightarrow> InstallIntendedIdentityV1 \<Rightarrow> string \<Rightarrow> string \<Rightarrow> InstallObjectIdentityV1 \<Rightarrow> (InstallJournalError, InstallJournalEntryV1) result" where
  "prior_owned_file role intended sibling_basename backup prior =
     entry_new role intended (Some sibling_basename) (PriorOwned prior backup)"

section \<open>The journal\<close>

record InstallJournalBindingsV1 =
  ib_transaction_id :: string
  ib_authorization_id :: string
  ib_host_identity_sha256 :: string
  ib_artifact :: DeploymentArtifactIdentityV1
  ib_bundle_manifest_sha256 :: string
  ib_deployment_authorization_sha256 :: string
  ib_performance_evidence_sha256 :: string

definition bindings_validate :: "InstallJournalBindingsV1 \<Rightarrow> (InstallJournalError, unit) result" where
  "bindings_validate self =
     (if \<not> is_hex_of_length (ib_transaction_id self) 32 \<or> \<not> is_hex_of_length (ib_authorization_id self) 32
         \<or> \<not> is_hex_of_length (ib_host_identity_sha256 self) 64 \<or> \<not> is_hex_of_length (ib_bundle_manifest_sha256 self) 64
         \<or> \<not> is_hex_of_length (ib_deployment_authorization_sha256 self) 64 \<or> \<not> is_hex_of_length (ib_performance_evidence_sha256 self) 64
         \<or> \<not> is_ok (artifact_validate (ib_artifact self))
      then Inl InvalidJournal else Inr ())"

definition bindings_new ::
  "string \<Rightarrow> string \<Rightarrow> string \<Rightarrow> DeploymentArtifactIdentityV1 \<Rightarrow> string \<Rightarrow> string \<Rightarrow> string \<Rightarrow> (InstallJournalError, InstallJournalBindingsV1) result" where
  "bindings_new transaction_id authorization_id host_identity_sha256 artifact bundle_manifest_sha256 deployment_authorization_sha256
     performance_evidence_sha256 =
     (let bindings = \<lparr>ib_transaction_id = transaction_id, ib_authorization_id = authorization_id, ib_host_identity_sha256 = host_identity_sha256,
                      ib_artifact = artifact, ib_bundle_manifest_sha256 = bundle_manifest_sha256,
                      ib_deployment_authorization_sha256 = deployment_authorization_sha256,
                      ib_performance_evidence_sha256 = performance_evidence_sha256\<rparr>
      in rbind (bindings_validate bindings) (\<lambda>_. Inr bindings))"

datatype InstallJournalStateV1 = JsPlanned | JsPrepared | JsApplying | JsInstalled | JsFailed | JsRollingBack | JsRolledBack

datatype InstallJournalForwardActionV1 =
    FwApply (fw_step: u64) (fw_role: InstallRoleV1)
  | FwVerify (fw_step: u64) (fw_role: InstallRoleV1) (fw_expected: InstallObjectIdentityV1)

datatype InstallJournalRollbackActionV1 =
    RemoveExact (rb_step: u64) (rb_role: InstallRoleV1) (rb_current: InstallObjectIdentityV1) "InstallObjectIdentityV1 option"
  | RestoreExact (rb_step: u64) (rb_role: InstallRoleV1) (rb_current: InstallObjectIdentityV1) string InstallObjectIdentityV1
      "InstallObjectIdentityV1 option"
  | RetainExact (rb_step: u64) (rb_role: InstallRoleV1) (rb_current: InstallObjectIdentityV1)

text \<open>The journal keeps its seven bindings as fields; here they are one field.\<close>

record InstallJournalV1 =
  ij_schema_version :: u16
  ij_bindings :: InstallJournalBindingsV1
  ij_state :: InstallJournalStateV1
  ij_durable_step :: u64
  ij_entries :: "InstallJournalEntryV1 list"
  ij_failure_code :: "string option"
  ij_rollback_possible :: bool

definition install_journal_new :: "InstallJournalBindingsV1 \<Rightarrow> InstallJournalV1" where
  "install_journal_new bindings =
     \<lparr>ij_schema_version = INSTALL_JOURNAL_SCHEMA_VERSION, ij_bindings = bindings, ij_state = JsPlanned, ij_durable_step = 0, ij_entries = [],
      ij_failure_code = None, ij_rollback_possible = True\<rparr>"

fun validate_entries_from :: "u8 option \<Rightarrow> InstallJournalEntryV1 list \<Rightarrow> (InstallJournalError, unit) result" where
  "validate_entries_from prior_order [] = Inr ()"
| "validate_entries_from prior_order (entry # entries) =
     rbind (entry_validate entry) (\<lambda>_.
     let order = install_order (ne_role entry) in
     if is_some_and prior_order (\<lambda>prior. order \<le> prior) then Inl InvalidJournal
     else validate_entries_from (Some order) entries)"

definition validate_entries :: "InstallJournalEntryV1 list \<Rightarrow> (InstallJournalError, unit) result" where
  "validate_entries entries = (if entries = [] then Inl InvalidJournal else validate_entries_from None entries)"

type_synonym journal_op = "(InstallJournalV1, InstallJournalError, unit) port"

definition advance_step :: journal_op where
  "advance_step self =
     (case checked_add (ij_durable_step self) 1 of
        None \<Rightarrow> (Inl InvalidTransition, self)
      | Some n \<Rightarrow> (Inr (), self\<lparr>ij_durable_step := n\<rparr>))"

definition prepare :: "InstallJournalEntryV1 list \<Rightarrow> journal_op" where
  "prepare entries self =
     (let entries = sort_key (\<lambda>entry. install_order (ne_role entry)) entries in
      case validate_entries entries of
        Inl e \<Rightarrow> (Inl e, self)
      | Inr _ \<Rightarrow>
          if ij_state self = JsPlanned then advance_step (self\<lparr>ij_entries := entries, ij_state := JsPrepared\<rparr>)
          else if ij_state self = JsPrepared \<and> ij_entries self = entries then (Inr (), self)
          else (Inl InvalidTransition, self))"

definition start_applying :: journal_op where
  "start_applying self =
     (if ij_state self \<noteq> JsPrepared then (Inl InvalidTransition, self)
      else advance_step (self\<lparr>ij_state := JsApplying\<rparr>))"

definition next_forward_action :: "InstallJournalV1 \<Rightarrow> InstallJournalForwardActionV1 option" where
  "next_forward_action self =
     (if ij_state self \<noteq> JsApplying then None
      else case List.find (\<lambda>entry. ne_phase entry \<noteq> PhVerified) (ij_entries self) of
             None \<Rightarrow> None
           | Some entry \<Rightarrow>
               (case checked_add (ij_durable_step self) 1 of
                  None \<Rightarrow> None
                | Some durable_step \<Rightarrow>
                    (case ne_phase entry of
                       PhPending \<Rightarrow> Some (FwApply durable_step (ne_role entry))
                     | PhApplied \<Rightarrow> map_option (FwVerify durable_step (ne_role entry)) (ne_current_identity entry)
                     | _ \<Rightarrow> None)))"

fun entry_index_from :: "nat \<Rightarrow> InstallJournalEntryV1 list \<Rightarrow> InstallRoleV1 \<Rightarrow> (InstallJournalError, nat) result" where
  "entry_index_from i [] role = Inl InvalidTransition"
| "entry_index_from i (entry # entries) role = (if ne_role entry = role then Inr i else entry_index_from (Suc i) entries role)"

definition entry_index :: "InstallJournalV1 \<Rightarrow> InstallRoleV1 \<Rightarrow> (InstallJournalError, nat) result" where
  "entry_index self role = entry_index_from 0 (ij_entries self) role"

definition update_entry :: "nat \<Rightarrow> (InstallJournalEntryV1 \<Rightarrow> InstallJournalEntryV1) \<Rightarrow> InstallJournalV1 \<Rightarrow> InstallJournalV1" where
  "update_entry index f self = self\<lparr>ij_entries := (ij_entries self)[index := f (ij_entries self ! index)]\<rparr>"

definition find_entry :: "InstallJournalV1 \<Rightarrow> InstallRoleV1 \<Rightarrow> InstallJournalEntryV1 option" where
  "find_entry self role = List.find (\<lambda>entry. ne_role entry = role) (ij_entries self)"

definition record_applied :: "InstallRoleV1 \<Rightarrow> InstallObjectIdentityV1 \<Rightarrow> InstallObjectIdentityV1 option \<Rightarrow> journal_op" where
  "record_applied role current_identity created_parent_identity self =
     (if is_some_and (find_entry self role) (\<lambda>entry. ne_phase entry = PhApplied)
      then (if is_some_and (find_entry self role) (\<lambda>entry. ne_current_identity entry = Some current_identity
                                                     \<and> ne_created_parent_identity entry = created_parent_identity)
            then (Inr (), self) else (Inl InvalidTransition, self))
      else case next_forward_action self of
             Some (FwApply _ expected_role) \<Rightarrow>
               if role \<noteq> expected_role then (Inl InvalidTransition, self)
               else
                 (case rbind (entry_index self role) (\<lambda>index.
                       rbind (object_validate current_identity) (\<lambda>_.
                       if \<not> object_matches_intended current_identity (ne_intended (ij_entries self ! index)) then Inl InvalidTransition
                       else rbind (created_parent_ok InvalidTransition created_parent_identity) (\<lambda>_. Inr index))) of
                    Inl e \<Rightarrow> (Inl e, self)
                  | Inr index \<Rightarrow>
                      advance_step (update_entry index (\<lambda>entry. entry\<lparr>ne_current_identity := Some current_identity,
                        ne_created_parent_identity := created_parent_identity, ne_phase := PhApplied\<rparr>) self))
           | _ \<Rightarrow> (Inl InvalidTransition, self))"

definition record_verified :: "InstallRoleV1 \<Rightarrow> InstallObjectIdentityV1 \<Rightarrow> journal_op" where
  "record_verified role observed_identity self =
     (if is_some_and (find_entry self role) (\<lambda>entry. ne_phase entry = PhVerified)
      then (if is_some_and (find_entry self role) (\<lambda>entry. ne_current_identity entry = Some observed_identity)
            then (Inr (), self) else (Inl InvalidTransition, self))
      else case next_forward_action self of
             Some (FwVerify _ expected_role expected_identity) \<Rightarrow>
               if role \<noteq> expected_role \<or> observed_identity \<noteq> expected_identity then (Inl InvalidTransition, self)
               else
                 (case entry_index self role of
                    Inl e \<Rightarrow> (Inl e, self)
                  | Inr index \<Rightarrow> advance_step (update_entry index (\<lambda>entry. entry\<lparr>ne_phase := PhVerified\<rparr>) self))
           | _ \<Rightarrow> (Inl InvalidTransition, self))"

definition mark_installed :: journal_op where
  "mark_installed self =
     (if ij_state self \<noteq> JsApplying \<or> next_forward_action self \<noteq> None \<or> ij_entries self = [] then (Inl InvalidTransition, self)
      else advance_step (self\<lparr>ij_state := JsInstalled\<rparr>))"

definition record_install_failure :: "string \<Rightarrow> bool \<Rightarrow> journal_op" where
  "record_install_failure code rollback_possible self =
     (if \<not> is_ok (install_finding_blocker code) then (Inl InvalidJournal, self)
      else if ij_state self = JsFailed
      then (if ij_failure_code self = Some code \<and> ij_rollback_possible self = rollback_possible then (Inr (), self)
            else (Inl InvalidTransition, self))
      else if ij_state self \<noteq> JsApplying then (Inl InvalidTransition, self)
      else advance_step (self\<lparr>ij_failure_code := Some code, ij_rollback_possible := rollback_possible, ij_state := JsFailed\<rparr>))"

definition begin_rollback :: journal_op where
  "begin_rollback self =
     (if \<not> ij_rollback_possible self \<or> ij_state self \<notin> {JsApplying, JsInstalled, JsFailed} then (Inl InvalidTransition, self)
      else advance_step (self\<lparr>ij_state := JsRollingBack\<rparr>))"

definition next_rollback_action :: "InstallJournalV1 \<Rightarrow> InstallJournalRollbackActionV1 option" where
  "next_rollback_action self =
     (if ij_state self \<noteq> JsRollingBack \<or> \<not> ij_rollback_possible self then None
      else case List.find (\<lambda>entry. ne_phase entry \<in> {PhApplied, PhVerified}) (rev (ij_entries self)) of
             None \<Rightarrow> None
           | Some entry \<Rightarrow>
               (case checked_add (ij_durable_step self) 1 of
                  None \<Rightarrow> None
                | Some durable_step \<Rightarrow>
                    (case ne_current_identity entry of
                       None \<Rightarrow> None
                     | Some expected_current \<Rightarrow>
                         (case ne_prior_state entry of
                            PriorAbsent \<Rightarrow>
                              if is_journal_retention_directory (ne_role entry)
                              then Some (RetainExact durable_step (ne_role entry) expected_current)
                              else Some (RemoveExact durable_step (ne_role entry) expected_current (ne_created_parent_identity entry))
                          | PriorOwned identity backup \<Rightarrow>
                              Some (RestoreExact durable_step (ne_role entry) expected_current backup identity
                                     (ne_created_parent_identity entry))))))"

definition record_rollback_completed :: "InstallJournalRollbackActionV1 \<Rightarrow> journal_op" where
  "record_rollback_completed action self =
     (if next_rollback_action self \<noteq> Some action then (Inl InvalidTransition, self)
      else case entry_index self (rb_role action) of
             Inl e \<Rightarrow> (Inl e, self)
           | Inr index \<Rightarrow> advance_step (update_entry index (\<lambda>entry. entry\<lparr>ne_phase := PhRolledBack\<rparr>) self))"

definition mark_rolled_back :: journal_op where
  "mark_rolled_back self =
     (if ij_state self \<noteq> JsRollingBack \<or> next_rollback_action self \<noteq> None then (Inl InvalidTransition, self)
      else advance_step (self\<lparr>ij_state := JsRolledBack\<rparr>))"

section \<open>Reading a journal back\<close>

text \<open>The loops over the phases keep what they have seen; the progress is a count of steps.\<close>

definition forward_step :: "InstallJournalEntryPhaseV1 \<Rightarrow> u64 \<times> bool \<times> bool \<Rightarrow> (InstallJournalError, u64 \<times> bool \<times> bool) result" where
  "forward_step phase = (\<lambda>(progress, saw_applied, saw_pending).
     case phase of
       PhVerified \<Rightarrow> if \<not> saw_applied \<and> \<not> saw_pending then Inr (progress + 2, saw_applied, saw_pending) else Inl InvalidJournal
     | PhApplied \<Rightarrow> if \<not> saw_applied \<and> \<not> saw_pending then Inr (progress + 1, True, saw_pending) else Inl InvalidJournal
     | PhPending \<Rightarrow> Inr (progress, saw_applied, True)
     | PhRolledBack \<Rightarrow> Inl InvalidJournal)"

definition validate_forward_prefix :: "InstallJournalEntryPhaseV1 list \<Rightarrow> (InstallJournalError, u64) result" where
  "validate_forward_prefix phases = rbind (rfold forward_step phases (0, False, False)) (\<lambda>(progress, _). Inr progress)"

definition rollback_step :: "bool \<Rightarrow> InstallJournalEntryPhaseV1 \<Rightarrow> bool \<times> bool \<Rightarrow> (InstallJournalError, bool \<times> bool) result" where
  "rollback_step terminal phase = (\<lambda>(saw_rolled_back, saw_pending).
     case phase of
       PhVerified \<Rightarrow> if \<not> saw_rolled_back \<and> \<not> saw_pending \<and> \<not> terminal then Inr (saw_rolled_back, saw_pending) else Inl InvalidJournal
     | PhApplied \<Rightarrow> if \<not> saw_rolled_back \<and> \<not> saw_pending \<and> \<not> terminal then Inr (saw_rolled_back, saw_pending) else Inl InvalidJournal
     | PhRolledBack \<Rightarrow> if \<not> saw_pending then Inr (True, saw_pending) else Inl InvalidJournal
     | PhPending \<Rightarrow> Inr (saw_rolled_back, True))"

definition validate_rollback_shape :: "InstallJournalEntryPhaseV1 list \<Rightarrow> bool \<Rightarrow> (InstallJournalError, unit) result" where
  "validate_rollback_shape phases terminal = rbind (rfold (rollback_step terminal) phases (False, False)) (\<lambda>_. Inr ())"

definition validate_entries_for_state :: "InstallJournalV1 \<Rightarrow> (InstallJournalError, unit) result" where
  "validate_entries_for_state journal =
     (let failure_valid = (case ij_failure_code journal of Some code \<Rightarrow> is_ok (install_finding_blocker code) | None \<Rightarrow> True);
          phases = map ne_phase (ij_entries journal);
          fail = Inl InvalidJournal
      in if \<not> failure_valid \<or> \<not> ij_rollback_possible journal \<and> ij_failure_code journal = None then fail
         else if ij_state journal = JsPlanned
         then (if ij_durable_step journal \<noteq> 0 \<or> ij_entries journal \<noteq> [] \<or> ij_failure_code journal \<noteq> None \<or> \<not> ij_rollback_possible journal
               then fail else Inr ())
         else
           rbind (validate_entries (ij_entries journal)) (\<lambda>_.
           case ij_state journal of
             JsPlanned \<Rightarrow> Inr ()
           | JsPrepared \<Rightarrow>
               if ij_durable_step journal \<noteq> 1 \<or> list_ex (\<lambda>phase. phase \<noteq> PhPending) phases \<or> ij_failure_code journal \<noteq> None
               then fail else Inr ()
           | JsApplying \<Rightarrow>
               rbind (validate_forward_prefix phases) (\<lambda>progress.
               if ij_durable_step journal \<noteq> 2 + progress \<or> ij_failure_code journal \<noteq> None then fail else Inr ())
           | JsInstalled \<Rightarrow>
               rbind (ok_or InvalidJournal (checked_add 3 (saturating_mul 2 (of_nat (length (ij_entries journal)))))) (\<lambda>expected.
               if ij_durable_step journal \<noteq> expected \<or> list_ex (\<lambda>phase. phase \<noteq> PhVerified) phases \<or> ij_failure_code journal \<noteq> None
               then fail else Inr ())
           | JsFailed \<Rightarrow>
               rbind (validate_forward_prefix phases) (\<lambda>progress.
               if ij_durable_step journal \<noteq> 3 + progress \<or> ij_failure_code journal = None then fail else Inr ())
           | JsRollingBack \<Rightarrow>
               rbind (validate_rollback_shape phases False) (\<lambda>_.
               if ij_durable_step journal < 3 then fail else Inr ())
           | JsRolledBack \<Rightarrow>
               rbind (validate_rollback_shape phases True) (\<lambda>_.
               if ij_durable_step journal < 4 then fail else Inr ())))"

definition journal_validate :: "InstallJournalV1 \<Rightarrow> (InstallJournalError, unit) result" where
  "journal_validate self =
     rbind (bindings_validate (ij_bindings self)) (\<lambda>_.
     if ij_schema_version self \<noteq> INSTALL_JOURNAL_SCHEMA_VERSION then Inl InvalidJournal
     else validate_entries_for_state self)"

section \<open>Entries in order\<close>

definition roles_in_order :: "InstallRoleV1 list" where
  "roles_in_order =
     [RoleUsrRoot, RoleUsrBinRoot, RoleUsrLibRoot, RoleUsrLibexecRoot, RoleProductLibexecRoot, RoleUsrLibSystemdRoot, RoleSystemdUnitRoot,
      RoleUsrShareRoot, RoleUsrShareDocRoot, RoleProductDocRoot, RoleEtcRoot, RoleConfigRoot, RoleVarRoot, RoleVarLibRoot, RoleStateRoot,
      RoleGatesRoot, RoleEvidenceParent, RoleEvidenceRoot, RoleInstallRoot, RoleTransactionsRoot, RoleCli, RoleDaemon, RoleDeploymentChecker,
      RoleInstaller, RoleHostChecker, RoleEbpfObject, RoleBundleManifest, RoleBundleChecksums, RoleServiceUnit, RoleAuthorizationExample,
      RoleDeploymentAuthorization, RolePerformanceEvidence]"

lemma roles_in_order_nth: "roles_in_order ! unat (install_order role) = role \<and> install_order role < 32"
  by (cases role) (simp_all add: roles_in_order_def)

lemma install_order_inj: "install_order a = install_order b \<longleftrightarrow> a = b"
  by (metis roles_in_order_nth)

abbreviation entry_order :: "InstallJournalEntryV1 \<Rightarrow> u8" where
  "entry_order e \<equiv> install_order (ne_role e)"

lemma validate_entries_from_iff:
  "validate_entries_from prior es = Inr () \<longleftrightarrow>
     (\<forall>e \<in> set es. entry_validate e = Inr ()) \<and> sorted_wrt (<) (map entry_order es) \<and> (case prior of None \<Rightarrow> True | Some q \<Rightarrow> \<forall>e \<in> set es. q < entry_order e)"
proof (induction es arbitrary: prior)
  case (Cons e es)
  show ?case
    by (cases prior) (auto simp: Let_def rbind_Inr_conv Cons.IH not_le dest: order.strict_trans)
qed (simp split: option.splits)

lemma validate_entries_iff:
  "validate_entries es = Inr () \<longleftrightarrow> es \<noteq> [] \<and> (\<forall>e \<in> set es. entry_validate e = Inr ()) \<and> sorted_wrt (<) (map entry_order es)"
  by (auto simp: validate_entries_def validate_entries_from_iff)

lemma distinct_roles:
  assumes "validate_entries es = Inr ()"
  shows "distinct (map ne_role es)"
proof -
  have "distinct (map entry_order es)"
    using assms by (simp add: validate_entries_iff strict_sorted_iff)
  then show ?thesis
    by (auto simp: distinct_map inj_on_def)
qed

lemma entries_bound:
  assumes "validate_entries es = Inr ()"
  shows "length es \<le> 32"
proof -
  have "distinct (map (unat \<circ> entry_order) es)"
    using assms by (simp add: validate_entries_iff strict_sorted_iff distinct_map inj_on_def word_unat_eq_iff)
  moreover have "set (map (unat \<circ> entry_order) es) \<subseteq> {..<32}"
    using roles_in_order_nth by (auto simp: word_less_nat_alt)
  ultimately show ?thesis
    by (metis card_lessThan card_mono distinct_card finite_lessThan length_map)
qed

lemma validate_entries_update:
  assumes "validate_entries (xs @ e # ys) = Inr ()" and "entry_validate e' = Inr ()" and "ne_role e' = ne_role e"
  shows "validate_entries (xs @ e' # ys) = Inr ()"
  using assms by (auto simp: validate_entries_iff)

section \<open>Finding an entry\<close>

lemma find_first: "\<forall>x \<in> set xs. \<not> P x \<Longrightarrow> P e \<Longrightarrow> List.find P (xs @ e # ys) = Some e"
  by (induction xs) auto

lemma find_none: "\<forall>x \<in> set xs. \<not> P x \<Longrightarrow> List.find P xs = None"
  by (induction xs) auto

lemma entry_index_from_split:
  "ne_role e \<notin> ne_role ` set xs \<Longrightarrow> entry_index_from i (xs @ e # ys) (ne_role e) = Inr (i + length xs)"
  by (induction xs arbitrary: i) auto

text \<open>The entry that stands between \<open>xs\<close> and \<open>ys\<close>: the lookups by its role find it, and updating it changes nothing else.\<close>

lemma split_entry:
  assumes "validate_entries (ij_entries j) = Inr ()" and "ij_entries j = xs @ e # ys"
  shows "entry_index j (ne_role e) = Inr (length xs)" "find_entry j (ne_role e) = Some e"
    "update_entry (length xs) f j = j\<lparr>ij_entries := xs @ f e # ys\<rparr>"
proof -
  from distinct_roles [OF assms(1)] assms(2) have r: "ne_role e \<notin> ne_role ` set xs" by auto
  show "entry_index j (ne_role e) = Inr (length xs)"
    using entry_index_from_split [OF r, of 0] assms(2) by (simp add: entry_index_def)
  show "find_entry j (ne_role e) = Some e"
    unfolding find_entry_def assms(2)
  proof (rule find_first)
    show "\<forall>x \<in> set xs. ne_role x \<noteq> ne_role e" using r by (metis imageI)
  qed simp
  show "update_entry (length xs) f j = j\<lparr>ij_entries := xs @ f e # ys\<rparr>"
    by (simp add: update_entry_def assms(2))
qed

lemma map_split:
  assumes "map f es = us @ u # vs"
  obtains xs e ys where "es = xs @ e # ys" "map f xs = us" "f e = u" "map f ys = vs"
  using assms by (auto simp: map_eq_append_conv map_eq_Cons_conv)

section \<open>Phases\<close>

definition forward_phases :: "nat \<Rightarrow> nat \<Rightarrow> nat \<Rightarrow> InstallJournalEntryPhaseV1 list" where
  "forward_phases v a p = replicate v PhVerified @ replicate a PhApplied @ replicate p PhPending"

definition rollback_phases :: "InstallJournalEntryPhaseV1 list \<Rightarrow> nat \<Rightarrow> nat \<Rightarrow> InstallJournalEntryPhaseV1 list" where
  "rollback_phases xs r p = xs @ replicate r PhRolledBack @ replicate p PhPending"

lemma rfold_forward_verified: "rfold forward_step (replicate v PhVerified) (k, False, False) = Inr (k + 2 * of_nat v, False, False)"
proof (induction v arbitrary: k)
  case (Suc v)
  then show ?case by (simp add: forward_step_def algebra_simps)
qed simp

lemma rfold_forward_pending: "\<exists>b'. rfold forward_step (replicate p PhPending) (k, a, b) = Inr (k, a, b')"
  by (induction p arbitrary: b) (auto simp: forward_step_def)

lemma validate_forward_phases:
  assumes "a \<le> 1"
  shows "validate_forward_prefix (forward_phases v a p) = Inr (2 * of_nat v + of_nat a)"
proof -
  have "a = 0 \<or> a = 1" using assms by auto
  moreover obtain b where "rfold forward_step (replicate p PhPending) (2 * of_nat v, False, False) = Inr (2 * of_nat v, False, b)"
    using rfold_forward_pending by blast
  moreover obtain b where "rfold forward_step (replicate p PhPending) (2 * of_nat v + 1, True, False) = Inr (2 * of_nat v + 1, True, b)"
    using rfold_forward_pending by blast
  ultimately show ?thesis
    by (auto simp: validate_forward_prefix_def forward_phases_def rfold_append rfold_forward_verified forward_step_def)
qed

lemma rfold_rollback_pending: "\<exists>b'. rfold (rollback_step t) (replicate p PhPending) (a, b) = Inr (a, b')"
  by (induction p arbitrary: b) (auto simp: rollback_step_def)

lemma rfold_rollback_rolled: "\<exists>a'. rfold (rollback_step t) (replicate r PhRolledBack) (a, False) = Inr (a', False)"
  by (induction r arbitrary: a) (auto simp: rollback_step_def)

lemma rfold_rollback_active: "set xs \<subseteq> {PhApplied, PhVerified} \<Longrightarrow> rfold (rollback_step False) xs (False, False) = Inr (False, False)"
  by (induction xs) (auto simp: rollback_step_def)

lemma validate_rollback_phases:
  assumes "set xs \<subseteq> {PhApplied, PhVerified}" and "t \<Longrightarrow> xs = []"
  shows "validate_rollback_shape (rollback_phases xs r p) t = Inr ()"
proof -
  have x: "rfold (rollback_step t) xs (False, False) = Inr (False, False)"
    using assms rfold_rollback_active by (cases t) auto
  obtain a where a: "rfold (rollback_step t) (replicate r PhRolledBack) (False, False) = Inr (a, False)"
    using rfold_rollback_rolled by blast
  obtain b where b: "rfold (rollback_step t) (replicate p PhPending) (a, False) = Inr (a, b)"
    using rfold_rollback_pending by blast
  show ?thesis
    by (simp add: validate_rollback_shape_def rollback_phases_def rfold_append x a b)
qed

section \<open>The invariant\<close>

definition failure_ok :: "InstallJournalV1 \<Rightarrow> bool" where
  "failure_ok j \<longleftrightarrow> (case ij_failure_code j of None \<Rightarrow> True | Some code \<Rightarrow> is_ok (install_finding_blocker code))"

definition untroubled :: "InstallJournalV1 \<Rightarrow> bool" where
  "untroubled j \<longleftrightarrow> ij_failure_code j = None \<and> ij_rollback_possible j"

abbreviation phases_of :: "InstallJournalV1 \<Rightarrow> InstallJournalEntryPhaseV1 list" where
  "phases_of j \<equiv> map ne_phase (ij_entries j)"

definition forward_at :: "nat \<Rightarrow> InstallJournalV1 \<Rightarrow> bool" where
  "forward_at base j \<longleftrightarrow> (\<exists>v a p. a \<le> 1 \<and> phases_of j = forward_phases v a p \<and> unat (ij_durable_step j) = base + 2 * v + a)"

definition rolling_at :: "InstallJournalV1 \<Rightarrow> bool" where
  "rolling_at j \<longleftrightarrow> (\<exists>xs r p. set xs \<subseteq> {PhApplied, PhVerified} \<and> phases_of j = rollback_phases xs r p \<and> 3 \<le> unat (ij_durable_step j)
     \<and> unat (ij_durable_step j) + length xs \<le> 4 + 3 * length (ij_entries j))"

definition journal_shape :: "InstallJournalV1 \<Rightarrow> bool" where
  "journal_shape j \<longleftrightarrow>
     (case ij_state j of
        JsPlanned \<Rightarrow> ij_durable_step j = 0 \<and> ij_entries j = [] \<and> untroubled j
      | JsPrepared \<Rightarrow> ij_durable_step j = 1 \<and> phases_of j = forward_phases 0 0 (length (ij_entries j)) \<and> untroubled j
      | JsApplying \<Rightarrow> forward_at 2 j \<and> untroubled j
      | JsInstalled \<Rightarrow> phases_of j = forward_phases (length (ij_entries j)) 0 0 \<and> unat (ij_durable_step j) = 3 + 2 * length (ij_entries j) \<and> untroubled j
      | JsFailed \<Rightarrow> forward_at 3 j \<and> ij_failure_code j \<noteq> None \<and> failure_ok j
      | JsRollingBack \<Rightarrow> rolling_at j \<and> ij_rollback_possible j \<and> failure_ok j
      | JsRolledBack \<Rightarrow> (\<exists>r p. phases_of j = rollback_phases [] r p) \<and> 4 \<le> unat (ij_durable_step j)
                         \<and> unat (ij_durable_step j) \<le> 5 + 3 * length (ij_entries j) \<and> ij_rollback_possible j \<and> failure_ok j)"

definition journal_inv :: "InstallJournalV1 \<Rightarrow> bool" where
  "journal_inv j \<longleftrightarrow>
     bindings_validate (ij_bindings j) = Inr () \<and> ij_schema_version j = INSTALL_JOURNAL_SCHEMA_VERSION
     \<and> (ij_state j \<noteq> JsPlanned \<longrightarrow> validate_entries (ij_entries j) = Inr ()) \<and> journal_shape j"

lemma length_of_map: "map f xs = ys \<Longrightarrow> length xs = length ys"
  by (drule arg_cong [where f = length]) simp

lemma forward_phases_length: "phases_of j = forward_phases v a p \<Longrightarrow> v + a + p = length (ij_entries j)"
  by (drule length_of_map) (simp add: forward_phases_def)

lemma rollback_phases_length: "phases_of j = rollback_phases xs r p \<Longrightarrow> length xs + r + p = length (ij_entries j)"
  by (drule length_of_map) (simp add: rollback_phases_def)

lemma journal_new_inv: "bindings_validate b = Inr () \<Longrightarrow> journal_inv (install_journal_new b)"
  by (simp add: journal_inv_def install_journal_new_def journal_shape_def untroubled_def)

text \<open>The step counter stays far from its limit, so it always advances.\<close>

lemma step_bound:
  assumes "journal_inv j"
  shows "unat (ij_durable_step j) \<le> 101"
proof (cases "ij_state j = JsPlanned")
  case False
  with assms have n: "length (ij_entries j) \<le> 32" by (auto simp: journal_inv_def intro: entries_bound)
  from assms have "journal_shape j" by (simp add: journal_inv_def)
  with n show ?thesis
    by (cases "ij_state j")
       (auto simp: journal_shape_def forward_at_def rolling_at_def dest!: forward_phases_length)
qed (use assms in \<open>simp add: journal_inv_def journal_shape_def\<close>)

lemma advance_ok:
  assumes "unat (ij_durable_step j) \<le> 101"
  shows "advance_step j = (Inr (), j\<lparr>ij_durable_step := ij_durable_step j + 1\<rparr>)" "checked_add (ij_durable_step j) 1 = Some (ij_durable_step j + 1)"
    "unat (ij_durable_step j + 1) = unat (ij_durable_step j) + 1"
proof -
  show c: "checked_add (ij_durable_step j) 1 = Some (ij_durable_step j + 1)"
    using assms by (simp add: checked_add_def)
  then show "advance_step j = (Inr (), j\<lparr>ij_durable_step := ij_durable_step j + 1\<rparr>)"
    by (simp add: advance_step_def)
  show "unat (ij_durable_step j + 1) = unat (ij_durable_step j) + 1"
    using checked_add_unat [OF c] by simp
qed

lemma entry_identity:
  assumes "entry_validate e = Inr ()" and "ne_phase e \<noteq> PhPending"
  shows "\<exists>i. ne_current_identity e = Some i"
  using assms by (auto simp: entry_validate_def entry_validate_phase_def rbind_Inr_conv split: if_splits)

text \<open>What the journal proposes next, moving forward.\<close>

lemma next_forward_cases:
  assumes "journal_inv j" and "ij_state j = JsApplying"
  obtains (finished) "next_forward_action j = None" "phases_of j = forward_phases (length (ij_entries j)) 0 0"
      "unat (ij_durable_step j) = 2 + 2 * length (ij_entries j)"
  | (apply_next) xs e ys where "ij_entries j = xs @ e # ys" "map ne_phase xs = replicate (length xs) PhVerified" "ne_phase e = PhPending"
      "map ne_phase ys = replicate (length ys) PhPending" "next_forward_action j = Some (FwApply (ij_durable_step j + 1) (ne_role e))"
      "unat (ij_durable_step j) = 2 + 2 * length xs"
  | (verify_next) xs e ys i where "ij_entries j = xs @ e # ys" "map ne_phase xs = replicate (length xs) PhVerified" "ne_phase e = PhApplied"
      "map ne_phase ys = replicate (length ys) PhPending" "ne_current_identity e = Some i"
      "next_forward_action j = Some (FwVerify (ij_durable_step j + 1) (ne_role e) i)" "unat (ij_durable_step j) = 3 + 2 * length xs"
proof -
  have adv: "checked_add (ij_durable_step j) 1 = Some (ij_durable_step j + 1)"
    using advance_ok step_bound assms(1) by blast
  from assms have valid: "validate_entries (ij_entries j) = Inr ()" by (simp add: journal_inv_def)
  from assms obtain v a p where ph: "a \<le> 1" "phases_of j = forward_phases v a p" and st: "unat (ij_durable_step j) = 2 + 2 * v + a"
    by (auto simp: journal_inv_def journal_shape_def forward_at_def)
  have vs: "\<forall>x \<in> set xs. \<not> ne_phase x \<noteq> PhVerified" if "map ne_phase xs = replicate v PhVerified" for xs
    using that by (metis in_set_replicate image_eqI list.set_map)
  consider "a = 0" "p = 0" | q where "a = 0" "p = Suc q" | "a = 1" using ph(1) by (cases p) (auto simp: le_Suc_eq)
  then show thesis
  proof cases
    case 1
    then have all: "phases_of j = replicate v PhVerified" using ph(2) by (simp add: forward_phases_def)
    then have "next_forward_action j = None"
      using find_none [OF vs [OF all]] by (simp add: next_forward_action_def)
    moreover have "length (ij_entries j) = v" using length_of_map [OF all] by simp
    ultimately show ?thesis by (intro finished) (use 1 ph st in simp_all)
  next
    case (2 q)
    then have "phases_of j = replicate v PhVerified @ PhPending # replicate q PhPending" using ph(2) by (simp add: forward_phases_def)
    then obtain xs e ys where s: "ij_entries j = xs @ e # ys" "map ne_phase xs = replicate v PhVerified" "ne_phase e = PhPending"
        "map ne_phase ys = replicate q PhPending" by (rule map_split)
    have "List.find (\<lambda>entry. ne_phase entry \<noteq> PhVerified) (ij_entries j) = Some e"
      unfolding s(1) by (rule find_first [OF vs [OF s(2)]]) (simp add: s(3))
    then have n: "next_forward_action j = Some (FwApply (ij_durable_step j + 1) (ne_role e))"
      using assms(2) adv s(3) by (simp add: next_forward_action_def)
    have "length xs = v" "length ys = q" using s(2,4) [THEN length_of_map] by simp_all
    then show ?thesis by (intro apply_next [OF s(1) _ s(3) _ n]) (use s(2,4) st 2 in simp_all)
  next
    case 3
    then have "phases_of j = replicate v PhVerified @ PhApplied # replicate p PhPending" using ph(2) by (simp add: forward_phases_def)
    then obtain xs e ys where s: "ij_entries j = xs @ e # ys" "map ne_phase xs = replicate v PhVerified" "ne_phase e = PhApplied"
        "map ne_phase ys = replicate p PhPending" by (rule map_split)
    have "entry_validate e = Inr ()" using valid s(1) by (simp add: validate_entries_iff)
    with s(3) obtain i where i: "ne_current_identity e = Some i" using entry_identity by fastforce
    have "List.find (\<lambda>entry. ne_phase entry \<noteq> PhVerified) (ij_entries j) = Some e"
      unfolding s(1) by (rule find_first [OF vs [OF s(2)]]) (simp add: s(3))
    then have n: "next_forward_action j = Some (FwVerify (ij_durable_step j + 1) (ne_role e) i)"
      using assms(2) adv s(3) i by (simp add: next_forward_action_def)
    have "length xs = v" "length ys = p" using s(2,4) [THEN length_of_map] by simp_all
    then show ?thesis by (intro verify_next [OF s(1) _ s(3) _ i n]) (use s(2,4) st 3 in simp_all)
  qed
qed

text \<open>The action that undoes an entry.\<close>

definition rollback_action_for :: "u64 \<Rightarrow> InstallJournalEntryV1 \<Rightarrow> InstallObjectIdentityV1 \<Rightarrow> InstallJournalRollbackActionV1" where
  "rollback_action_for n e i =
     (case ne_prior_state e of
        PriorAbsent \<Rightarrow> if is_journal_retention_directory (ne_role e) then RetainExact n (ne_role e) i
                        else RemoveExact n (ne_role e) i (ne_created_parent_identity e)
      | PriorOwned identity backup \<Rightarrow> RestoreExact n (ne_role e) i backup identity (ne_created_parent_identity e))"

lemma rb_role_action_for [simp]: "rb_role (rollback_action_for n e i) = ne_role e"
  by (simp add: rollback_action_for_def split: InstallPriorStateV1.split)

lemma next_rollback_cases:
  assumes "journal_inv j" and "ij_state j = JsRollingBack"
  obtains (finished) r p where "next_rollback_action j = None" "phases_of j = rollback_phases [] r p"
  | (undo) xs e ys i us r p where "ij_entries j = xs @ e # ys" "map ne_phase xs = us" "set us \<subseteq> {PhApplied, PhVerified}"
      "ne_phase e \<in> {PhApplied, PhVerified}" "map ne_phase ys = replicate r PhRolledBack @ replicate p PhPending"
      "ne_current_identity e = Some i" "next_rollback_action j = Some (rollback_action_for (ij_durable_step j + 1) e i)"
      "3 \<le> unat (ij_durable_step j)" "unat (ij_durable_step j) + length xs + 1 \<le> 4 + 3 * length (ij_entries j)"
proof -
  have adv: "checked_add (ij_durable_step j) 1 = Some (ij_durable_step j + 1)"
    using advance_ok step_bound assms(1) by blast
  from assms have valid: "validate_entries (ij_entries j) = Inr ()" and poss: "ij_rollback_possible j"
    by (simp_all add: journal_inv_def journal_shape_def)
  from assms obtain ps r p where ph: "set ps \<subseteq> {PhApplied, PhVerified}" "phases_of j = rollback_phases ps r p"
    and st: "3 \<le> unat (ij_durable_step j)" "unat (ij_durable_step j) + length ps \<le> 4 + 3 * length (ij_entries j)"
    by (auto simp: journal_inv_def journal_shape_def rolling_at_def)
  let ?P = "\<lambda>entry :: InstallJournalEntryV1. ne_phase entry \<in> {PhApplied, PhVerified}"
  have idle: "\<forall>x \<in> set (rev ys). \<not> ?P x" if "map ne_phase ys = replicate r PhRolledBack @ replicate p PhPending" for ys
  proof
    fix x assume "x \<in> set (rev ys)"
    then have "ne_phase x \<in> set (map ne_phase ys)" by auto
    then show "\<not> ?P x" unfolding that by auto
  qed
  show thesis
  proof (cases ps rule: rev_cases)
    case Nil
    with ph have "next_rollback_action j = None"
      using find_none [OF idle] by (simp add: next_rollback_action_def rollback_phases_def)
    then show ?thesis by (rule finished) (use ph Nil in simp)
  next
    case (snoc us u)
    with ph have "phases_of j = us @ u # replicate r PhRolledBack @ replicate p PhPending" by (simp add: rollback_phases_def)
    then obtain xs e ys where s: "ij_entries j = xs @ e # ys" "map ne_phase xs = us" "ne_phase e = u"
        "map ne_phase ys = replicate r PhRolledBack @ replicate p PhPending" by (rule map_split)
    have u: "?P e" using ph(1) snoc s(3) by simp
    have "entry_validate e = Inr ()" using valid s(1) by (simp add: validate_entries_iff)
    with u obtain i where i: "ne_current_identity e = Some i" using entry_identity by fastforce
    have "List.find ?P (rev (ij_entries j)) = Some e"
      unfolding s(1) using find_first [OF idle [OF s(4)], of e "rev xs"] u by simp
    then have n: "next_rollback_action j = Some (rollback_action_for (ij_durable_step j + 1) e i)"
      using assms(2) poss adv i by (simp add: next_rollback_action_def rollback_action_for_def split: InstallPriorStateV1.split)
    have "length xs = length us" using s(2) [THEN length_of_map] by simp
    then show ?thesis by (intro undo [OF s(1) s(2) _ _ s(4) i n]) (use u ph(1) snoc st in simp_all)
  qed
qed

section \<open>A journal that satisfies the invariant can be read back\<close>

lemma forward_at_validates:
  assumes "forward_at base j"
  shows "\<exists>progress. validate_forward_prefix (phases_of j) = Inr progress \<and> ij_durable_step j = of_nat base + progress"
proof -
  from assms obtain v a p where s: "a \<le> 1" "phases_of j = forward_phases v a p" "unat (ij_durable_step j) = base + 2 * v + a"
    by (auto simp: forward_at_def)
  have "ij_durable_step j = of_nat (base + 2 * v + a)"
    unfolding s(3) [symmetric] by simp
  with s show ?thesis by (simp add: validate_forward_phases algebra_simps)
qed

lemma inv_validates:
  assumes "journal_inv j"
  shows "journal_validate j = Inr ()"
proof -
  have b: "bindings_validate (ij_bindings j) = Inr ()" "ij_schema_version j = INSTALL_JOURNAL_SCHEMA_VERSION" and sh: "journal_shape j"
    using assms by (simp_all add: journal_inv_def)
  have valid: "validate_entries (ij_entries j) = Inr ()" if "ij_state j \<noteq> JsPlanned"
    using assms that by (simp add: journal_inv_def)
  have "validate_entries_for_state j = Inr ()"
  proof (cases "ij_state j")
    case JsPlanned
    with sh show ?thesis by (simp add: journal_shape_def untroubled_def validate_entries_for_state_def)
  next
    case JsPrepared
    with sh valid show ?thesis
      by (simp add: journal_shape_def untroubled_def validate_entries_for_state_def forward_phases_def list_ex_iff)
  next
    case JsApplying
    with sh have "forward_at 2 j" by (simp add: journal_shape_def)
    from forward_at_validates [OF this] JsApplying sh valid show ?thesis
      by (auto simp: journal_shape_def untroubled_def validate_entries_for_state_def)
  next
    case JsInstalled
    with valid have n: "length (ij_entries j) \<le> 32" by (auto intro: entries_bound)
    then have u: "unat (of_nat (length (ij_entries j)) :: u64) = length (ij_entries j)" by (simp add: unat_of_nat)
    from JsInstalled sh have st: "unat (ij_durable_step j) = 3 + 2 * length (ij_entries j)" by (simp add: journal_shape_def)
    have "ij_durable_step j = of_nat (3 + 2 * length (ij_entries j))" unfolding st [symmetric] by simp
    moreover have "saturating_mul 2 (of_nat (length (ij_entries j))) = (2 * of_nat (length (ij_entries j)) :: u64)"
      using n by (simp add: saturating_mul_def u)
    moreover have "checked_add 3 (2 * of_nat (length (ij_entries j)) :: u64) = Some (3 + 2 * of_nat (length (ij_entries j)))"
      using n by (simp add: checked_add_def unat_word_ariths u)
    ultimately show ?thesis
      using JsInstalled sh valid
      by (simp add: journal_shape_def untroubled_def validate_entries_for_state_def forward_phases_def list_ex_iff)
  next
    case JsFailed
    with sh have "forward_at 3 j" by (simp add: journal_shape_def)
    from forward_at_validates [OF this] JsFailed sh valid show ?thesis
      by (auto simp: journal_shape_def failure_ok_def validate_entries_for_state_def)
  next
    case JsRollingBack
    with sh obtain xs r p where s: "set xs \<subseteq> {PhApplied, PhVerified}" "phases_of j = rollback_phases xs r p" "3 \<le> unat (ij_durable_step j)"
      by (auto simp: journal_shape_def rolling_at_def)
    have "validate_rollback_shape (phases_of j) False = Inr ()"
      unfolding s(2) by (rule validate_rollback_phases [OF s(1)]) simp
    with JsRollingBack sh valid s(3) show ?thesis
      by (auto simp: journal_shape_def failure_ok_def validate_entries_for_state_def word_less_nat_alt split: option.splits)
  next
    case JsRolledBack
    with sh obtain r p where s: "phases_of j = rollback_phases [] r p" "4 \<le> unat (ij_durable_step j)"
      by (auto simp: journal_shape_def)
    have "validate_rollback_shape (phases_of j) True = Inr ()"
      unfolding s(1) by (rule validate_rollback_phases) simp_all
    with JsRolledBack sh valid s(2) show ?thesis
      by (auto simp: journal_shape_def failure_ok_def validate_entries_for_state_def word_less_nat_alt split: option.splits)
  qed
  with b show ?thesis by (simp add: journal_validate_def)
qed

section \<open>Every operation keeps the invariant\<close>

text \<open>A refused call leaves the journal as it was; an accepted one keeps the invariant.\<close>

definition sound_call :: "journal_op \<Rightarrow> InstallJournalV1 \<Rightarrow> bool" where
  "sound_call call j \<longleftrightarrow> (case call j of (Inl e, j') \<Rightarrow> j' = j | (Inr _, j') \<Rightarrow> journal_inv j')"

lemma sound_advance:
  assumes "unat (ij_durable_step k) \<le> 101" and "journal_inv (k\<lparr>ij_durable_step := ij_durable_step k + 1\<rparr>)"
    and "call j = advance_step k"
  shows "sound_call call j"
  using assms by (simp add: sound_call_def advance_ok)

lemma sound_refuse [simp]: "call j = (Inl e, j) \<Longrightarrow> sound_call call j"
  by (simp add: sound_call_def)

lemma sound_idle: "journal_inv j \<Longrightarrow> call j = (Inr (), j) \<Longrightarrow> sound_call call j"
  by (simp add: sound_call_def)

lemma journal_invD:
  assumes "journal_inv j" and "ij_state j \<noteq> JsPlanned"
  shows "validate_entries (ij_entries j) = Inr ()"
  using assms by (simp add: journal_inv_def)

lemma prepare_sound:
  assumes inv: "journal_inv j" and pending: "\<forall>e \<in> set entries. ne_phase e = PhPending"
  shows "sound_call (prepare entries) j"
proof (cases "validate_entries (sort_key entry_order entries)")
  case (Inr u)
  let ?es = "sort_key entry_order entries"
  show ?thesis
  proof (cases "ij_state j = JsPlanned")
    case True
    let ?k = "j\<lparr>ij_entries := ?es, ij_state := JsPrepared\<rparr>"
    have "map ne_phase ?es = map (\<lambda>_. PhPending) ?es"
      using pending by (intro map_cong) auto
    then have ph: "map ne_phase ?es = forward_phases 0 0 (length ?es)"
      by (simp add: forward_phases_def map_replicate_const)
    have z: "ij_durable_step j = 0" "untroubled j" using inv True by (simp_all add: journal_inv_def journal_shape_def)
    have "journal_inv (?k\<lparr>ij_durable_step := ij_durable_step ?k + 1\<rparr>)"
      using inv Inr z ph by (simp add: journal_inv_def journal_shape_def untroubled_def)
    then show ?thesis
      by (rule sound_advance [rotated]) (use True Inr z in \<open>simp_all add: prepare_def Let_def\<close>)
  next
    case False
    then show ?thesis
      using inv Inr by (cases "ij_state j = JsPrepared \<and> ij_entries j = ?es") (auto simp: sound_call_def prepare_def Let_def)
  qed
qed (simp add: prepare_def)

lemma start_applying_sound:
  assumes "journal_inv j"
  shows "sound_call start_applying j"
proof (cases "ij_state j = JsPrepared")
  case True
  let ?k = "j\<lparr>ij_state := JsApplying\<rparr>"
  have "forward_at 2 (?k\<lparr>ij_durable_step := ij_durable_step ?k + 1\<rparr>)"
    unfolding forward_at_def using assms True
    by (intro exI [of _ 0] exI [of _ "length (ij_entries j)"]) (simp add: journal_inv_def journal_shape_def)
  then have "journal_inv (?k\<lparr>ij_durable_step := ij_durable_step ?k + 1\<rparr>)"
    using assms True by (simp add: journal_inv_def journal_shape_def untroubled_def)
  then show ?thesis
    by (rule sound_advance [rotated]) (use True step_bound [OF assms] in \<open>simp_all add: start_applying_def\<close>)
qed (simp add: start_applying_def)

lemma fixed_part_kept [simp]:
  "entry_validate_fixed (e\<lparr>ne_phase := ph\<rparr>) = entry_validate_fixed e"
  "entry_validate_fixed (e\<lparr>ne_current_identity := i\<rparr>) = entry_validate_fixed e"
  "entry_validate_fixed (e\<lparr>ne_created_parent_identity := c\<rparr>) = entry_validate_fixed e"
  by (simp_all add: entry_validate_fixed_def cong: if_cong InstallPriorStateV1.case_cong)

lemma applied_entry_valid:
  assumes "entry_validate e = Inr ()" and "object_validate i = Inr ()" and "object_matches_intended i (ne_intended e)"
    and "created_parent_ok InvalidTransition c = Inr ()"
  shows "entry_validate (e\<lparr>ne_current_identity := Some i, ne_created_parent_identity := c, ne_phase := PhApplied\<rparr>) = Inr ()"
  using assms
  by (auto simp: entry_validate_def entry_validate_phase_def created_parent_ok_def rbind_Inr_conv
      split: if_splits option.splits)

lemma phase_entry_valid:
  assumes "entry_validate e = Inr ()" and "ne_phase e \<noteq> PhPending" and "ph \<noteq> PhPending"
  shows "entry_validate (e\<lparr>ne_phase := ph\<rparr>) = Inr ()"
  using assms by (simp add: entry_validate_def entry_validate_phase_def cong: if_cong)

text \<open>Replacing one entry of a running journal by an entry with the same role.\<close>

lemma inv_update_entry:
  assumes "journal_inv j" and "ij_state j \<noteq> JsPlanned" and "ij_entries j = xs @ e # ys"
    and "entry_validate e' = Inr ()" and "ne_role e' = ne_role e"
    and "journal_shape (j\<lparr>ij_entries := xs @ e' # ys, ij_durable_step := n\<rparr>)"
  shows "journal_inv (j\<lparr>ij_entries := xs @ e' # ys, ij_durable_step := n\<rparr>)"
proof -
  have "validate_entries (xs @ e' # ys) = Inr ()"
    using journal_invD [OF assms(1,2)] assms(3-5) by (simp add: validate_entries_update)
  with assms show ?thesis by (simp add: journal_inv_def)
qed

lemma record_applied_sound:
  assumes inv: "journal_inv j"
  shows "sound_call (record_applied role i c) j"
proof (cases "is_some_and (find_entry j role) (\<lambda>entry. ne_phase entry = PhApplied)")
  case True
  then show ?thesis
    using inv by (simp add: sound_call_def record_applied_def)
next
  case new: False
  show ?thesis
  proof (cases "ij_state j = JsApplying")
    case True
    from inv True show ?thesis
    proof (cases rule: next_forward_cases)
      case (apply_next xs e ys)
      have valid: "validate_entries (ij_entries j) = Inr ()" using inv True by (simp add: journal_inv_def)
      let ?f = "\<lambda>entry. entry\<lparr>ne_current_identity := Some i, ne_created_parent_identity := c, ne_phase := PhApplied\<rparr>"
      let ?ok = "role = ne_role e \<and> object_validate i = Inr () \<and> object_matches_intended i (ne_intended e) \<and> created_parent_ok InvalidTransition c = Inr ()"
      note sp = split_entry [OF valid apply_next(1)]
      have nth: "ij_entries j ! length xs = e" by (simp add: apply_next(1))
      show ?thesis
      proof (cases ?ok)
        case ok: True
        have e: "entry_validate e = Inr ()" using valid apply_next(1) by (simp add: validate_entries_iff)
        let ?n = "ij_durable_step j + 1"
        have "forward_at 2 (j\<lparr>ij_entries := xs @ ?f e # ys, ij_durable_step := ?n\<rparr>)"
          unfolding forward_at_def
          by (intro exI [of _ "length xs"] exI [of _ "1 :: nat"] exI [of _ "length ys"])
             (simp add: forward_phases_def apply_next(2,4,6) advance_ok(3) [OF step_bound [OF inv]])
        then have sh: "journal_shape (j\<lparr>ij_entries := xs @ ?f e # ys, ij_durable_step := ?n\<rparr>)"
          using inv True by (simp add: journal_inv_def journal_shape_def untroubled_def)
        have "journal_inv (j\<lparr>ij_entries := xs @ ?f e # ys, ij_durable_step := ?n\<rparr>)"
          by (rule inv_update_entry [OF inv _ apply_next(1) _ _ sh]) (use True ok e applied_entry_valid in simp_all)
        moreover have "record_applied role i c j = advance_step (j\<lparr>ij_entries := xs @ ?f e # ys\<rparr>)"
          using ok new sp nth by (simp add: record_applied_def apply_next(5))
        ultimately show ?thesis
          by (intro sound_advance [of "j\<lparr>ij_entries := xs @ ?f e # ys\<rparr>"]) (simp_all add: step_bound [OF inv])
      next
        case False
        then have "\<exists>err. record_applied role i c j = (Inl err, j)"
          using new sp(1) nth
          by (cases "role = ne_role e"; cases "object_validate i"; cases "created_parent_ok InvalidTransition c")
             (auto simp: record_applied_def apply_next(5))
        then show ?thesis by auto
      qed
    qed (use new in \<open>simp_all add: record_applied_def\<close>)
  next
    case False
    then show ?thesis using new by (simp add: record_applied_def next_forward_action_def)
  qed
qed

lemma record_verified_sound:
  assumes inv: "journal_inv j"
  shows "sound_call (record_verified role i) j"
proof (cases "is_some_and (find_entry j role) (\<lambda>entry. ne_phase entry = PhVerified)")
  case True
  then show ?thesis
    using inv by (simp add: sound_call_def record_verified_def)
next
  case new: False
  show ?thesis
  proof (cases "ij_state j = JsApplying")
    case True
    from inv True show ?thesis
    proof (cases rule: next_forward_cases)
      case (verify_next xs e ys i')
      have valid: "validate_entries (ij_entries j) = Inr ()" using inv True by (simp add: journal_inv_def)
      note sp = split_entry [OF valid verify_next(1)]
      show ?thesis
      proof (cases "role = ne_role e \<and> i = i'")
        case ok: True
        have e: "entry_validate e = Inr ()" using valid verify_next(1) by (simp add: validate_entries_iff)
        let ?n = "ij_durable_step j + 1" and ?e = "e\<lparr>ne_phase := PhVerified\<rparr>"
        have "forward_at 2 (j\<lparr>ij_entries := xs @ ?e # ys, ij_durable_step := ?n\<rparr>)"
          unfolding forward_at_def
          by (intro exI [of _ "Suc (length xs)"] exI [of _ "0 :: nat"] exI [of _ "length ys"])
             (simp add: forward_phases_def verify_next(2,4,7) advance_ok(3) [OF step_bound [OF inv]] replicate_append_same [symmetric])
        then have sh: "journal_shape (j\<lparr>ij_entries := xs @ ?e # ys, ij_durable_step := ?n\<rparr>)"
          using inv True by (simp add: journal_inv_def journal_shape_def untroubled_def)
        have "journal_inv (j\<lparr>ij_entries := xs @ ?e # ys, ij_durable_step := ?n\<rparr>)"
          by (rule inv_update_entry [OF inv _ verify_next(1) _ _ sh]) (use True e verify_next(3) phase_entry_valid in simp_all)
        moreover have "record_verified role i j = advance_step (j\<lparr>ij_entries := xs @ ?e # ys\<rparr>)"
          using ok new sp by (simp add: record_verified_def verify_next(6))
        ultimately show ?thesis
          by (intro sound_advance [of "j\<lparr>ij_entries := xs @ ?e # ys\<rparr>"]) (simp_all add: step_bound [OF inv])
      qed (use new in \<open>auto simp: record_verified_def verify_next(6)\<close>)
    qed (use new in \<open>simp_all add: record_verified_def\<close>)
  next
    case False
    then show ?thesis using new by (simp add: record_verified_def next_forward_action_def)
  qed
qed

lemma mark_installed_sound:
  assumes inv: "journal_inv j"
  shows "sound_call mark_installed j"
proof (cases "ij_state j = JsApplying \<and> next_forward_action j = None \<and> ij_entries j \<noteq> []")
  case True
  then have app: "ij_state j = JsApplying" by simp
  from inv app have "phases_of j = forward_phases (length (ij_entries j)) 0 0 \<and> unat (ij_durable_step j) = 2 + 2 * length (ij_entries j)"
    by (cases rule: next_forward_cases) (use True in simp_all)
  moreover note advance_ok(3) [OF step_bound [OF inv]]
  ultimately have "journal_inv (j\<lparr>ij_state := JsInstalled, ij_durable_step := ij_durable_step j + 1\<rparr>)"
    using inv app by (simp add: journal_inv_def journal_shape_def untroubled_def)
  then show ?thesis
    by (intro sound_advance [of "j\<lparr>ij_state := JsInstalled\<rparr>"]) (use True step_bound [OF inv] in \<open>simp_all add: mark_installed_def\<close>)
qed (auto simp: mark_installed_def)

lemma record_failure_sound:
  assumes inv: "journal_inv j"
  shows "sound_call (record_install_failure code possible) j"
proof (cases "is_ok (install_finding_blocker code) \<and> ij_state j = JsApplying")
  case True
  let ?k = "j\<lparr>ij_failure_code := Some code, ij_rollback_possible := possible, ij_state := JsFailed\<rparr>"
  from True inv obtain v a p where "a \<le> 1" "phases_of j = forward_phases v a p" "unat (ij_durable_step j) = 2 + 2 * v + a"
    by (auto simp: journal_inv_def journal_shape_def forward_at_def)
  then have "forward_at 3 (?k\<lparr>ij_durable_step := ij_durable_step ?k + 1\<rparr>)"
    unfolding forward_at_def
    by (intro exI [of _ v] exI [of _ a] exI [of _ p]) (simp add: advance_ok(3) [OF step_bound [OF inv]])
  then have "journal_inv (?k\<lparr>ij_durable_step := ij_durable_step ?k + 1\<rparr>)"
    using True inv by (simp add: journal_inv_def journal_shape_def failure_ok_def)
  then show ?thesis
    by (intro sound_advance [of ?k]) (use True step_bound [OF inv] in \<open>simp_all add: record_install_failure_def\<close>)
qed (use inv in \<open>auto simp: sound_call_def record_install_failure_def\<close>)

lemma forward_rolls_back:
  assumes "forward_at base j" and "base \<le> 3"
    and "ij_entries k = ij_entries j" and "unat (ij_durable_step k) = unat (ij_durable_step j) + 1" and "2 \<le> base"
  shows "rolling_at k"
proof -
  from assms(1) obtain v a p where s: "a \<le> 1" "phases_of j = forward_phases v a p" "unat (ij_durable_step j) = base + 2 * v + a"
    by (auto simp: forward_at_def)
  let ?xs = "replicate v PhVerified @ replicate a PhApplied"
  have "phases_of k = rollback_phases ?xs 0 p" using s(2) assms(3) by (simp add: forward_phases_def rollback_phases_def)
  moreover have "set ?xs \<subseteq> {PhApplied, PhVerified}" by auto
  moreover have "v + a + p = length (ij_entries j)" by (rule forward_phases_length [OF s(2)])
  ultimately have "set ?xs \<subseteq> {PhApplied, PhVerified} \<and> phases_of k = rollback_phases ?xs 0 p \<and> 3 \<le> unat (ij_durable_step k)
      \<and> unat (ij_durable_step k) + length ?xs \<le> 4 + 3 * length (ij_entries k)"
    using s(1,3) assms(2-5) by auto
  then show ?thesis unfolding rolling_at_def by blast
qed

lemma begin_rollback_sound:
  assumes inv: "journal_inv j"
  shows "sound_call begin_rollback j"
proof (cases "ij_rollback_possible j \<and> ij_state j \<in> {JsApplying, JsInstalled, JsFailed}")
  case True
  let ?k = "j\<lparr>ij_state := JsRollingBack\<rparr>"
  let ?k' = "?k\<lparr>ij_durable_step := ij_durable_step ?k + 1\<rparr>"
  have st: "unat (ij_durable_step ?k') = unat (ij_durable_step j) + 1"
    by (simp add: advance_ok(3) [OF step_bound [OF inv]])
  have "\<exists>base. forward_at base j \<and> 2 \<le> base \<and> base \<le> 3"
  proof (cases "ij_state j = JsInstalled")
    case True
    with inv have "forward_at 3 j"
      unfolding forward_at_def
      by (intro exI [of _ "length (ij_entries j)"] exI [of _ "0 :: nat"]) (simp add: journal_inv_def journal_shape_def)
    then show ?thesis by auto
  next
    case False
    with True inv show ?thesis by (auto simp: journal_inv_def journal_shape_def)
  qed
  then have "rolling_at ?k'" using forward_rolls_back [of _ j ?k'] st by auto
  moreover have "failure_ok j" using True inv by (auto simp: journal_inv_def journal_shape_def untroubled_def failure_ok_def)
  ultimately have "journal_inv ?k'"
    using True inv by (auto simp: journal_inv_def journal_shape_def failure_ok_def)
  then show ?thesis
    by (intro sound_advance [of ?k]) (use True step_bound [OF inv] in \<open>auto simp: begin_rollback_def\<close>)
qed (auto simp: begin_rollback_def)

text \<open>Completing the proposed rollback action marks its entry and proposes the one before it.\<close>

lemma rollback_completed_step:
  assumes inv: "journal_inv j" and state: "ij_state j = JsRollingBack" and s: "ij_entries j = xs @ e # ys"
    and u: "set (map ne_phase xs) \<subseteq> {PhApplied, PhVerified}" "ne_phase e \<in> {PhApplied, PhVerified}"
      "map ne_phase ys = replicate r PhRolledBack @ replicate p PhPending"
    and a: "next_rollback_action j = Some action" "rb_role action = ne_role e"
    and st: "3 \<le> unat (ij_durable_step j)" "unat (ij_durable_step j) + length xs + 1 \<le> 4 + 3 * length (ij_entries j)"
  shows "record_rollback_completed action j =
           (Inr (), j\<lparr>ij_entries := xs @ e\<lparr>ne_phase := PhRolledBack\<rparr> # ys, ij_durable_step := ij_durable_step j + 1\<rparr>)"
    and "journal_inv (j\<lparr>ij_entries := xs @ e\<lparr>ne_phase := PhRolledBack\<rparr> # ys, ij_durable_step := ij_durable_step j + 1\<rparr>)"
proof -
  have valid: "validate_entries (ij_entries j) = Inr ()" using inv state by (simp add: journal_inv_def)
  have e: "entry_validate e = Inr ()" using valid s by (simp add: validate_entries_iff)
  let ?e = "e\<lparr>ne_phase := PhRolledBack\<rparr>"
  let ?k = "j\<lparr>ij_entries := xs @ ?e # ys\<rparr>"
  have "record_rollback_completed action j = advance_step ?k"
    using split_entry [OF valid s] a by (simp add: record_rollback_completed_def)
  then show "record_rollback_completed action j = (Inr (), j\<lparr>ij_entries := xs @ ?e # ys, ij_durable_step := ij_durable_step j + 1\<rparr>)"
    using advance_ok(1) [of ?k] step_bound [OF inv] by simp
  let ?j = "j\<lparr>ij_entries := xs @ ?e # ys, ij_durable_step := ij_durable_step j + 1\<rparr>"
  have "phases_of ?j = rollback_phases (map ne_phase xs) (Suc r) p"
    by (simp add: rollback_phases_def u(3))
  moreover note advance_ok(3) [OF step_bound [OF inv]]
  ultimately have "rolling_at ?j"
    unfolding rolling_at_def using u(1) st s
    by (intro exI [of _ "map ne_phase xs"] exI [of _ "Suc r"] exI [of _ p]) simp
  then have "journal_shape ?j"
    using inv state by (simp add: journal_inv_def journal_shape_def failure_ok_def)
  then show "journal_inv ?j"
    by (intro inv_update_entry [OF inv _ s]) (use state e u(2) phase_entry_valid in auto)
qed

lemma record_rollback_completed_sound:
  assumes inv: "journal_inv j"
  shows "sound_call (record_rollback_completed action) j"
proof (cases "ij_state j = JsRollingBack \<and> next_rollback_action j = Some action")
  case True
  then have "ij_state j = JsRollingBack" by simp
  with inv show ?thesis
  proof (cases rule: next_rollback_cases)
    case (undo xs e ys i us r p)
    have "rb_role action = ne_role e" using True undo(7) by auto
    from rollback_completed_step [OF inv _ undo(1) _ undo(4,5) _ this undo(8,9)] undo(2,3) True
    show ?thesis by (simp add: sound_call_def)
  qed (use True in simp)
next
  case False
  then have "next_rollback_action j \<noteq> Some action" by (auto simp: next_rollback_action_def split: if_splits)
  then show ?thesis by (simp add: record_rollback_completed_def)
qed

lemma mark_rolled_back_sound:
  assumes inv: "journal_inv j"
  shows "sound_call mark_rolled_back j"
proof (cases "ij_state j = JsRollingBack \<and> next_rollback_action j = None")
  case True
  then have state: "ij_state j = JsRollingBack" by simp
  let ?k = "j\<lparr>ij_state := JsRolledBack\<rparr>"
  from inv state obtain r p where ph: "phases_of j = rollback_phases [] r p"
    by (cases rule: next_rollback_cases) (use True in simp_all)
  from inv state have st: "3 \<le> unat (ij_durable_step j)" "unat (ij_durable_step j) \<le> 4 + 3 * length (ij_entries j)"
    by (auto simp: journal_inv_def journal_shape_def rolling_at_def)
  moreover note advance_ok(3) [OF step_bound [OF inv]]
  ultimately have "journal_inv (?k\<lparr>ij_durable_step := ij_durable_step ?k + 1\<rparr>)"
    using inv state ph by (auto simp: journal_inv_def journal_shape_def failure_ok_def)
  then show ?thesis
    by (intro sound_advance [of ?k]) (use True step_bound [OF inv] in \<open>simp_all add: mark_rolled_back_def\<close>)
qed (auto simp: mark_rolled_back_def)

section \<open>Sequences of calls\<close>

text \<open>
  The calls that change a journal. Entries have private fields, so the entries given to \<open>prepare\<close> come from the
  constructors; a call to it carries the arguments of \<open>InstallJournalEntryV1::new\<close>.
\<close>

datatype journal_call =
    CallPrepare "(InstallRoleV1 \<times> InstallIntendedIdentityV1 \<times> string option \<times> InstallPriorStateV1) list"
  | CallStartApplying
  | CallApplied InstallRoleV1 InstallObjectIdentityV1 "InstallObjectIdentityV1 option"
  | CallVerified InstallRoleV1 InstallObjectIdentityV1
  | CallInstalled
  | CallFailure string bool
  | CallBeginRollback
  | CallRollbackCompleted InstallJournalRollbackActionV1
  | CallRolledBack

definition new_entries :: "(InstallRoleV1 \<times> InstallIntendedIdentityV1 \<times> string option \<times> InstallPriorStateV1) list \<Rightarrow>
   (InstallJournalError, InstallJournalEntryV1 list) result" where
  "new_entries specs = rfold (\<lambda>(role, intended, sibling, prior) es. rbind (entry_new role intended sibling prior) (\<lambda>e. Inr (es @ [e]))) specs []"

primrec perform :: "journal_call \<Rightarrow> journal_op" where
  "perform (CallPrepare specs) = (\<lambda>j. case new_entries specs of Inl e \<Rightarrow> (Inl e, j) | Inr entries \<Rightarrow> prepare entries j)"
| "perform CallStartApplying = start_applying"
| "perform (CallApplied role i c) = record_applied role i c"
| "perform (CallVerified role i) = record_verified role i"
| "perform CallInstalled = mark_installed"
| "perform (CallFailure code possible) = record_install_failure code possible"
| "perform CallBeginRollback = begin_rollback"
| "perform (CallRollbackCompleted action) = record_rollback_completed action"
| "perform CallRolledBack = mark_rolled_back"

definition journal_step :: "InstallJournalV1 \<Rightarrow> journal_call \<Rightarrow> InstallJournalV1" where
  "journal_step j call = snd (perform call j)"

lemma new_entries_pending: "new_entries specs = Inr es \<Longrightarrow> \<forall>e \<in> set es. ne_phase e = PhPending"
  unfolding new_entries_def
  by (erule rfold_inv) (auto simp: rbind_Inr_conv entry_new_def Let_def)

lemma perform_sound: "journal_inv j \<Longrightarrow> sound_call (perform call) j"
proof (cases call)
  case (CallPrepare specs)
  assume inv: "journal_inv j"
  show ?thesis
  proof (cases "new_entries specs")
    case (Inr es)
    with prepare_sound [OF inv new_entries_pending [OF Inr]] CallPrepare show ?thesis by (simp add: sound_call_def)
  qed (simp add: CallPrepare)
qed (simp_all add: start_applying_sound record_applied_sound record_verified_sound mark_installed_sound record_failure_sound
      begin_rollback_sound record_rollback_completed_sound mark_rolled_back_sound)

interpretation journal: machine journal_step journal_inv
proof
  fix j call
  assume inv: "journal_inv j"
  obtain r k where p: "perform call j = (r, k)" by (cases "perform call j")
  with perform_sound [OF inv, of call] inv show "journal_inv (journal_step j call)"
    by (cases r) (simp_all add: sound_call_def journal_step_def)
qed

text \<open>
  \<^bold>\<open>C25.\<close> Whatever sequence of calls a journal has been through, accepted or refused, it passes the validation
  that reading it back performs, so an installation that was interrupted at any point can be resumed or
  rolled back. A call that is refused has not changed the journal.
\<close>

theorem journal_always_readable:
  assumes "bindings_validate b = Inr ()"
  shows "journal_validate (foldl journal_step (install_journal_new b) calls) = Inr ()
    \<and> (\<forall>call e. fst (perform call (foldl journal_step (install_journal_new b) calls)) = Inl e \<longrightarrow>
         journal_step (foldl journal_step (install_journal_new b) calls) call = foldl journal_step (install_journal_new b) calls)"
proof -
  let ?j = "foldl journal_step (install_journal_new b) calls"
  have inv: "journal_inv ?j"
    by (rule journal.run_inv [OF journal_new_inv [OF assms]])
  have "journal_step ?j call = ?j" if "fst (perform call ?j) = Inl e" for call e
    using perform_sound [OF inv, of call] that by (cases "perform call ?j") (simp add: sound_call_def journal_step_def)
  with inv_validates [OF inv] show ?thesis by blast
qed

section \<open>Recording twice\<close>

lemma record_applied_found:
  assumes inv: "journal_inv j" and ok: "record_applied role i c j = (Inr (), j')"
  shows "\<exists>e. find_entry j' role = Some e \<and> ne_phase e = PhApplied \<and> ne_current_identity e = Some i \<and> ne_created_parent_identity e = c"
proof (cases "is_some_and (find_entry j role) (\<lambda>entry. ne_phase entry = PhApplied)")
  case True
  with ok show ?thesis by (auto simp: record_applied_def is_some_and_conv split: if_splits)
next
  case new: False
  then have state: "ij_state j = JsApplying"
    using ok by (auto simp: record_applied_def next_forward_action_def split: if_splits)
  from inv state show ?thesis
  proof (cases rule: next_forward_cases)
    case (apply_next xs e ys)
    have valid: "validate_entries (ij_entries j) = Inr ()" using inv state by (simp add: journal_inv_def)
    let ?e = "e\<lparr>ne_current_identity := Some i, ne_created_parent_identity := c, ne_phase := PhApplied\<rparr>"
    have role: "role = ne_role e" using ok new by (auto simp: record_applied_def apply_next(5) split: if_splits)
    have "ne_role e \<notin> ne_role ` set xs" using distinct_roles [OF valid] apply_next(1) by auto
    then have "\<forall>x \<in> set xs. ne_role x \<noteq> ne_role e" by (metis imageI)
    then have f: "List.find (\<lambda>entry. ne_role entry = ne_role e) (xs @ ?e # ys) = Some ?e" by (rule find_first) simp
    have "advance_step (j\<lparr>ij_entries := xs @ ?e # ys\<rparr>) = (Inr (), j')"
      using ok new role split_entry [OF valid apply_next(1)] by (auto simp: record_applied_def apply_next(5) rbind_Inr_conv split: sum.splits if_splits)
    then have "ij_entries j' = xs @ ?e # ys"
      using advance_ok(1) [of "j\<lparr>ij_entries := xs @ ?e # ys\<rparr>"] step_bound [OF inv] by auto
    with f show ?thesis by (simp add: find_entry_def role)
  qed (use ok new in \<open>auto simp: record_applied_def\<close>)
qed

lemma record_verified_found:
  assumes inv: "journal_inv j" and ok: "record_verified role i j = (Inr (), j')"
  shows "\<exists>e. find_entry j' role = Some e \<and> ne_phase e = PhVerified \<and> ne_current_identity e = Some i"
proof (cases "is_some_and (find_entry j role) (\<lambda>entry. ne_phase entry = PhVerified)")
  case True
  with ok show ?thesis by (auto simp: record_verified_def is_some_and_conv split: if_splits)
next
  case new: False
  then have state: "ij_state j = JsApplying"
    using ok by (auto simp: record_verified_def next_forward_action_def split: if_splits)
  from inv state show ?thesis
  proof (cases rule: next_forward_cases)
    case (verify_next xs e ys i')
    have valid: "validate_entries (ij_entries j) = Inr ()" using inv state by (simp add: journal_inv_def)
    let ?e = "e\<lparr>ne_phase := PhVerified\<rparr>"
    have role: "role = ne_role e" "i = i'" using ok new by (auto simp: record_verified_def verify_next(6) split: if_splits)
    have "ne_role e \<notin> ne_role ` set xs" using distinct_roles [OF valid] verify_next(1) by auto
    then have "\<forall>x \<in> set xs. ne_role x \<noteq> ne_role e" by (metis imageI)
    then have f: "List.find (\<lambda>entry. ne_role entry = ne_role e) (xs @ ?e # ys) = Some ?e" by (rule find_first) simp
    have "advance_step (j\<lparr>ij_entries := xs @ ?e # ys\<rparr>) = (Inr (), j')"
      using ok new role split_entry [OF valid verify_next(1)] by (auto simp: record_verified_def verify_next(6) split: sum.splits)
    then have "ij_entries j' = xs @ ?e # ys"
      using advance_ok(1) [of "j\<lparr>ij_entries := xs @ ?e # ys\<rparr>"] step_bound [OF inv] by auto
    with f verify_next(5) show ?thesis by (simp add: find_entry_def role)
  qed (use ok new in \<open>auto simp: record_verified_def\<close>)
qed


lemma prepare_again:
  assumes "prepare entries j = (Inr (), j')"
  shows "prepare entries j' = (Inr (), j')"
  using assms by (auto simp: prepare_def Let_def advance_step_def split: sum.splits if_splits option.splits)

lemma record_failure_again:
  assumes "record_install_failure code possible j = (Inr (), j')"
  shows "record_install_failure code possible j' = (Inr (), j')"
  using assms by (auto simp: record_install_failure_def advance_step_def split: if_splits option.splits)

text \<open>
  A call that records something and was accepted can be made again with the same arguments, as happens when
  the process dies between recording and acting on it: it is accepted and changes nothing. This holds for
  preparing, recording an applied object, recording a verified object and recording a failure.
\<close>

theorem replayed_records_change_nothing:
  assumes "bindings_validate b = Inr ()" and "j = foldl journal_step (install_journal_new b) calls" and "perform call j = (Inr (), j')"
    and "(\<exists>specs. call = CallPrepare specs) \<or> (\<exists>role i c. call = CallApplied role i c) \<or> (\<exists>role i. call = CallVerified role i)
      \<or> (\<exists>code possible. call = CallFailure code possible)"
  shows "perform call j' = (Inr (), j')"
proof -
  have inv: "journal_inv j"
    unfolding assms(2) by (rule journal.run_inv [OF journal_new_inv [OF assms(1)]])
  from assms(4) consider (prep) specs where "call = CallPrepare specs" | (appl) role i c where "call = CallApplied role i c"
    | (ver) role i where "call = CallVerified role i" | (fail) code possible where "call = CallFailure code possible" by auto
  then show ?thesis
  proof cases
    case prep
    with assms(3) show ?thesis by (auto intro: prepare_again split: sum.splits)
  next
    case appl
    with record_applied_found [OF inv] assms(3) show ?thesis by (fastforce simp: record_applied_def)
  next
    case ver
    with record_verified_found [OF inv] assms(3) show ?thesis by (fastforce simp: record_verified_def)
  next
    case fail
    with assms(3) show ?thesis by (auto intro: record_failure_again)
  qed
qed

text \<open>A transaction that creates \<open>/etc/l2-loop\<close> and stops after it.\<close>

definition sample_digest :: string where "sample_digest = replicate 64 CHR ''0''"

definition sample_bindings :: InstallJournalBindingsV1 where
  "sample_bindings =
     \<lparr>ib_transaction_id = replicate 32 CHR ''1'', ib_authorization_id = replicate 32 CHR ''2'', ib_host_identity_sha256 = sample_digest,
      ib_artifact = sample_identity, ib_bundle_manifest_sha256 = sample_digest, ib_deployment_authorization_sha256 = sample_digest,
      ib_performance_evidence_sha256 = sample_digest\<rparr>"

lemma sample_bindings_valid: "bindings_validate sample_bindings = Inr ()"
  by (simp add: bindings_validate_def sample_bindings_def sample_identity_valid sample_digest_def is_hex_of_length_def is_lower_hex_def
      list_all_iff ascii_class_defs)

definition sample_intended :: InstallIntendedIdentityV1 where
  "sample_intended = \<lparr>ii_kind = ObjDirectory, ii_sha256 = None, ii_mode = 448, ii_uid = 0, ii_gid = 0\<rparr>"

definition sample_object :: InstallObjectIdentityV1 where
  "sample_object = \<lparr>oi_kind = ObjDirectory, oi_device = 8, oi_inode = 42, oi_hard_links = 2, oi_sha256 = None, oi_mode = 448, oi_uid = 0, oi_gid = 0\<rparr>"

definition sample_prefix :: "journal_call list" where
  "sample_prefix = [CallPrepare [(RoleConfigRoot, sample_intended, None, PriorAbsent)], CallStartApplying]"

lemmas sample_run_defs = journal_step_def new_entries_def entry_new_def entry_validate_def entry_validate_fixed_def entry_validate_phase_def
  intended_validate_def sample_intended_def role_is_directory_def prepare_def validate_entries_def start_applying_def advance_step_def
  checked_add_def install_journal_new_def sample_prefix_def

lemma sample_applied:
  "\<exists>j'. perform (CallApplied RoleConfigRoot sample_object None) (foldl journal_step (install_journal_new sample_bindings) sample_prefix) = (Inr (), j')"
  by (simp add: sample_run_defs record_applied_def find_entry_def next_forward_action_def entry_index_def object_validate_def sample_object_def
      object_matches_intended_def created_parent_ok_def update_entry_def)

lemma journal_always_readable_witness:
  "journal_validate (foldl journal_step (install_journal_new sample_bindings) sample_prefix) = Inr ()"
  using journal_always_readable [OF sample_bindings_valid, of sample_prefix] by blast

lemma replayed_records_change_nothing_witness:
  "\<exists>j'. perform (CallApplied RoleConfigRoot sample_object None) (foldl journal_step (install_journal_new sample_bindings) sample_prefix) = (Inr (), j')
       \<and> perform (CallApplied RoleConfigRoot sample_object None) j' = (Inr (), j')"
  using sample_applied replayed_records_change_nothing [OF sample_bindings_valid refl] by blast

end
