(* ===== verification/InstallPlan.thy ===== *)
theory InstallPlan
  imports InstallJournal
begin

text \<open>
  The installation service of the agent: the fixed layout and the validation of its inputs
  (\<open>l2-loop-agent/src/installation_layout.rs\<close>), the planner and the service over its ports
  (\<open>l2-loop-agent/src/installation.rs\<close>). The clock, the readers and the transaction writer are ports; the SHA-256
  digest and the JSON reader are parameters of the functions that use them.
\<close>

section \<open>The planner\<close>

text \<open>Roles are ordered by their declaration, as \<open>#[derive(Ord)]\<close> does.\<close>

instantiation InstallRoleV1 :: linorder
begin

definition less_eq_InstallRoleV1 :: "InstallRoleV1 \<Rightarrow> InstallRoleV1 \<Rightarrow> bool" where
  "less_eq_InstallRoleV1 a b \<longleftrightarrow> role_ordinal a \<le> role_ordinal b"

definition less_InstallRoleV1 :: "InstallRoleV1 \<Rightarrow> InstallRoleV1 \<Rightarrow> bool" where
  "less_InstallRoleV1 a b \<longleftrightarrow> role_ordinal a < role_ordinal b"

instance
proof
  fix a b :: InstallRoleV1
  define declared where "declared = [RoleEvidenceRoot, RoleDaemon, RoleCli, RoleUsrRoot, RoleUsrBinRoot, RoleUsrLibRoot, RoleUsrLibexecRoot,
    RoleProductLibexecRoot, RoleUsrLibSystemdRoot, RoleSystemdUnitRoot, RoleUsrShareRoot, RoleUsrShareDocRoot, RoleProductDocRoot, RoleEtcRoot,
    RoleConfigRoot, RoleVarRoot, RoleVarLibRoot, RoleStateRoot, RoleGatesRoot, RoleEvidenceParent, RoleInstallRoot, RoleTransactionsRoot,
    RoleDeploymentChecker, RoleInstaller, RoleHostChecker, RoleEbpfObject, RoleBundleManifest, RoleBundleChecksums, RoleServiceUnit,
    RoleAuthorizationExample, RoleDeploymentAuthorization, RolePerformanceEvidence]"
  have nth: "declared ! role_ordinal r = r" for r
    unfolding declared_def by (cases r) simp_all
  show "a \<le> b \<Longrightarrow> b \<le> a \<Longrightarrow> a = b"
    by (metis le_antisym less_eq_InstallRoleV1_def nth)
qed (auto simp: less_eq_InstallRoleV1_def less_InstallRoleV1_def)

end

datatype InstallDestinationStateV1 = AbsentDirectory | AbsentFile | PriorOwnedFile | ExistingPrerequisiteDirectory

record InstallDestinationSnapshotV1 =
  id_role :: InstallRoleV1
  id_state :: InstallDestinationStateV1

record InstallSourceSnapshotV1 =
  is_authorization :: InstallAuthorizationV1
  is_artifact :: DeploymentArtifactIdentityV1
  is_bundle_manifest_sha256 :: string
  is_deployment_authorization_sha256 :: string
  is_performance_evidence_sha256 :: string

datatype InstallPlanningError = InvalidSource | InvalidDestination | InvalidPlanJournal | TransactionConflict

definition source_snapshot_new ::
  "InstallAuthorizationV1 \<Rightarrow> DeploymentArtifactIdentityV1 \<Rightarrow> string \<Rightarrow> string \<Rightarrow> string \<Rightarrow> (InstallPlanningError, InstallSourceSnapshotV1) result" where
  "source_snapshot_new authorization artifact bundle_manifest_sha256 deployment_authorization_sha256 performance_evidence_sha256 =
     (let snapshot = \<lparr>is_authorization = authorization, is_artifact = artifact, is_bundle_manifest_sha256 = bundle_manifest_sha256,
                      is_deployment_authorization_sha256 = deployment_authorization_sha256,
                      is_performance_evidence_sha256 = performance_evidence_sha256\<rparr>
      in if \<not> is_ok (artifact_validate artifact) \<or> \<not> is_hex_of_length bundle_manifest_sha256 64
            \<or> \<not> is_hex_of_length deployment_authorization_sha256 64 \<or> \<not> is_hex_of_length performance_evidence_sha256 64
         then Inl InvalidSource else Inr snapshot)"

datatype InstallActionV1 =
    CreateDirectory (action_role: InstallRoleV1)
  | InstallAbsentFile (action_role: InstallRoleV1)
  | UpgradeOwnedFile (action_role: InstallRoleV1)
  | VerifyInstalledObject (action_role: InstallRoleV1)
  | RemoveOwnedEmptyDirectory (action_role: InstallRoleV1)

record InstallJournalSnapshotV1 =
  ik_transaction_id :: string
  ik_completed_actions :: "InstallActionV1 list"

definition journal_snapshot_new :: "string \<Rightarrow> InstallActionV1 list \<Rightarrow> (InstallPlanningError, InstallJournalSnapshotV1) result" where
  "journal_snapshot_new transaction_id completed_actions =
     (if \<not> is_hex_of_length transaction_id 32 then Inl InvalidPlanJournal
      else Inr \<lparr>ik_transaction_id = transaction_id, ik_completed_actions = completed_actions\<rparr>)"

record InstallPlanV1 =
  pl_authorization_id :: string
  pl_transaction_id :: string
  pl_operation :: InstallOperationV1
  pl_artifact :: DeploymentArtifactIdentityV1
  pl_actions :: "InstallActionV1 list"

definition destination_action :: "InstallOperationV1 \<Rightarrow> InstallDestinationSnapshotV1 \<Rightarrow> (InstallPlanningError, InstallActionV1 option) result" where
  "destination_action operation destination =
     (case id_state destination of
        AbsentDirectory \<Rightarrow> Inr (Some (CreateDirectory (id_role destination)))
      | AbsentFile \<Rightarrow> Inr (Some (InstallAbsentFile (id_role destination)))
      | PriorOwnedFile \<Rightarrow> if operation = OpUpgrade then Inr (Some (UpgradeOwnedFile (id_role destination))) else Inl InvalidDestination
      | ExistingPrerequisiteDirectory \<Rightarrow> if install_order (id_role destination) < 20 then Inr None else Inl InvalidDestination)"

definition plan_step :: "InstallOperationV1 \<Rightarrow> InstallDestinationSnapshotV1 \<Rightarrow> InstallActionV1 list \<Rightarrow> (InstallPlanningError, InstallActionV1 list) result" where
  "plan_step operation destination actions =
     rbind (destination_action operation destination) (\<lambda>action.
     Inr (case action of None \<Rightarrow> actions | Some a \<Rightarrow> actions @ [a, VerifyInstalledObject (id_role destination)]))"

definition planner_plan ::
  "InstallSourceSnapshotV1 \<Rightarrow> InstallDestinationSnapshotV1 list \<Rightarrow> InstallJournalSnapshotV1 option \<Rightarrow> (InstallPlanningError, InstallPlanV1) result" where
  "planner_plan source destinations prior_journal =
     (if prior_journal \<noteq> None then Inl TransactionConflict
      else if ia_operation (is_authorization source) = OpRollback then Inl InvalidSource
      else
        let destinations = sort_key id_role destinations in
        if list_ex (\<lambda>(a, b). id_role a = id_role b) (zip destinations (tl destinations)) then Inl InvalidDestination
        else
          rbind (rfold (plan_step (ia_operation (is_authorization source))) destinations []) (\<lambda>actions.
          Inr \<lparr>pl_authorization_id = ia_authorization_id (is_authorization source), pl_transaction_id = ia_transaction_id (is_authorization source),
               pl_operation = ia_operation (is_authorization source), pl_artifact = is_artifact source, pl_actions = actions\<rparr>))"

section \<open>The service\<close>

datatype InstallFaultPointV1 = FpDirectoryCreate | FpSiblingCreate | FpPayloadWrite | FpOwnership | FpMode | FpHash | FpFileSync | FpBackupRename
  | FpFinalRename | FpDirectorySync | FpJournalSync | FpJournalMove | FpVerify | FpRollback

datatype InstallIoError = IoUnavailable | IoUnsafeObject | IoIdentityChanged | IoUnsupportedMetadata | IoFaultInjected InstallFaultPointV1

datatype InstallServiceError = InputUnavailable | InvalidClock | InvalidServiceReport

record 'w InstallPorts =
  ip_load_source :: "('w, InstallIoError, InstallSourceSnapshotV1) port"
  ip_inspect_destinations :: "InstallSourceSnapshotV1 \<Rightarrow> ('w, InstallIoError, InstallDestinationSnapshotV1 list) port"
  ip_inspect_prior_journal :: "string \<Rightarrow> ('w, InstallIoError, InstallJournalSnapshotV1 option) port"
  ip_host_identity_sha256 :: "('w, InstallIoError, string) port"
  ip_wall_time :: "'w \<Rightarrow> int \<times> 'w"
  ip_begin_transaction :: "InstallPlanV1 \<Rightarrow> ('w, InstallIoError, unit) port"
  ip_apply_action :: "InstallActionV1 \<Rightarrow> ('w, InstallIoError, unit) port"
  ip_record_completed :: "InstallActionV1 \<Rightarrow> ('w, InstallIoError, unit) port"
  ip_complete_transaction :: "InstallPlanV1 \<Rightarrow> ('w, InstallIoError, unit) port"
  ip_begin_rollback :: "InstallJournalSnapshotV1 \<Rightarrow> ('w, InstallIoError, unit) port"
  ip_rollback_action :: "InstallActionV1 \<Rightarrow> ('w, InstallIoError, unit) port"
  ip_record_rolled_back :: "InstallActionV1 \<Rightarrow> ('w, InstallIoError, unit) port"
  ip_complete_rollback :: "InstallJournalSnapshotV1 \<Rightarrow> ('w, InstallIoError, unit) port"

text \<open>The wall clock gives nanoseconds since the epoch; an earlier time or milliseconds beyond 64 bits are an error.\<close>

definition captured_at_unix_ms :: "'w InstallPorts \<Rightarrow> ('w, InstallServiceError, u64) port" where
  "captured_at_unix_ms ports w =
     (case ip_wall_time ports w of
        (t, w) \<Rightarrow> (if t < 0 then Inl InvalidClock else ok_or InvalidClock (try_from_usize (nat t div 1000000)), w))"

definition source_binding_failure :: "InstallSourceSnapshotV1 \<Rightarrow> u64 \<Rightarrow> string option" where
  "source_binding_failure source now =
     (if \<not> is_ok (install_authorization_validate_at (is_authorization source) now) then Some GI_AUTH_EXPIRED
      else if ia_artifact_commit_sha (is_authorization source) \<noteq> da_commit_sha (is_artifact source)
           \<or> ia_bundle_manifest_sha256 (is_authorization source) \<noteq> is_bundle_manifest_sha256 source
           \<or> ia_deployment_authorization_sha256 (is_authorization source) \<noteq> is_deployment_authorization_sha256 source
           \<or> ia_performance_evidence_sha256 (is_authorization source) \<noteq> is_performance_evidence_sha256 source
      then Some GI_AUTH_ARTIFACT
      else None)"

primrec planning_error_code :: "InstallPlanningError \<Rightarrow> string" where
  "planning_error_code TransactionConflict = GI_TRANSACTION_CONFLICT"
| "planning_error_code InvalidPlanJournal = GI_TRANSACTION_CONFLICT"
| "planning_error_code InvalidSource = GI_DESTINATION_FOREIGN"
| "planning_error_code InvalidDestination = GI_DESTINATION_FOREIGN"

record PreparedInstall =
  pi_source :: InstallSourceSnapshotV1
  pi_destinations :: "InstallDestinationSnapshotV1 list"
  pi_journal :: "InstallJournalSnapshotV1 option"
  pi_captured_at_unix_ms :: u64
  pi_blocker :: "string option"

definition prepared_report :: "PreparedInstall \<Rightarrow> InstallCommandV1 \<Rightarrow> InstallFindingV1 list \<Rightarrow> bool \<Rightarrow> (InstallServiceError, InstallReportV1) result" where
  "prepared_report self command findings mutations_performed =
     map_err InvalidServiceReport
       (install_report_derive command (ia_operation (is_authorization (pi_source self))) (ia_authorization_id (is_authorization (pi_source self)))
          (ia_transaction_id (is_authorization (pi_source self))) (is_artifact (pi_source self)) findings (pi_captured_at_unix_ms self)
          mutations_performed)"

definition blocked_report :: "PreparedInstall \<Rightarrow> InstallCommandV1 \<Rightarrow> string \<Rightarrow> bool \<Rightarrow> (InstallServiceError, InstallReportV1) result" where
  "blocked_report self command code mutations_performed =
     rbind (map_err InvalidServiceReport (install_finding_blocker code)) (\<lambda>f. prepared_report self command [f] mutations_performed)"

text \<open>The checks of \<open>prepare\<close>, each run only while nothing blocks; the last one applies whatever came before.\<close>

definition prepare_host :: "'w InstallPorts \<Rightarrow> InstallSourceSnapshotV1 \<Rightarrow> u64 \<Rightarrow> 'w \<Rightarrow> string option \<times> 'w" where
  "prepare_host ports source now w =
     (case source_binding_failure source now of
        Some code \<Rightarrow> (Some code, w)
      | None \<Rightarrow>
          (case ip_host_identity_sha256 ports w of
             (Inl e, w) \<Rightarrow> (Some GI_AUTH_HOST, w)
           | (Inr host, w) \<Rightarrow>
               (if is_ok (install_authorization_validate_for (is_authorization source) now (ia_operation (is_authorization source))
                    (is_artifact source) (is_bundle_manifest_sha256 source) host (is_deployment_authorization_sha256 source)
                    (is_performance_evidence_sha256 source))
                then None else Some GI_AUTH_HOST, w)))"

definition prepare_state ::
  "'w InstallPorts \<Rightarrow> InstallSourceSnapshotV1 \<Rightarrow> string option \<Rightarrow> 'w \<Rightarrow>
   (string option \<times> InstallDestinationSnapshotV1 list \<times> InstallJournalSnapshotV1 option) \<times> 'w" where
  "prepare_state ports source blocker w =
     (case blocker of
        Some code \<Rightarrow> ((Some code, [], None), w)
      | None \<Rightarrow>
          (case ip_inspect_destinations ports source w of
             (Inl e, w) \<Rightarrow> ((Some GI_DESTINATION_FOREIGN, [], None), w)
           | (Inr destinations, w) \<Rightarrow>
               (case ip_inspect_prior_journal ports (ia_transaction_id (is_authorization source)) w of
                  (Inl e, w) \<Rightarrow> ((Some GI_TRANSACTION_CONFLICT, destinations, None), w)
                | (Inr journal, w) \<Rightarrow> ((None, destinations, journal), w))))"

definition service_prepare :: "'w InstallPorts \<Rightarrow> InstallCommandV1 \<Rightarrow> ('w, InstallServiceError, PreparedInstall) port" where
  "service_prepare ports command =
     port_bind (captured_at_unix_ms ports) (\<lambda>now w.
       case ip_load_source ports w of
         (Inl e, w) \<Rightarrow> (Inl InputUnavailable, w)
       | (Inr source, w) \<Rightarrow>
           (case prepare_host ports source now w of
              (blocker, w) \<Rightarrow>
                (case prepare_state ports source blocker w of
                   ((blocker, destinations, journal), w) \<Rightarrow>
                     let blocker = (if command = CmdRollback \<and> ia_operation (is_authorization source) \<noteq> OpRollback
                                    then Some GI_TRANSACTION_CONFLICT else blocker)
                     in (Inr \<lparr>pi_source = source, pi_destinations = destinations, pi_journal = journal, pi_captured_at_unix_ms = now,
                              pi_blocker = blocker\<rparr>, w))))"

record InstallPlanOutcomeV1 =
  po_report :: InstallReportV1
  po_plan :: "InstallPlanV1 option"

definition service_plan :: "'w InstallPorts \<Rightarrow> ('w, InstallServiceError, InstallPlanOutcomeV1) port" where
  "service_plan ports =
     port_bind (service_prepare ports CmdPlan) (\<lambda>prepared.
     port_lift
       (case pi_blocker prepared of
          Some code \<Rightarrow> rbind (blocked_report prepared CmdPlan code False) (\<lambda>r. Inr \<lparr>po_report = r, po_plan = None\<rparr>)
        | None \<Rightarrow>
            (case planner_plan (pi_source prepared) (pi_destinations prepared) (pi_journal prepared) of
               Inl err \<Rightarrow> rbind (blocked_report prepared CmdPlan (planning_error_code err) False) (\<lambda>r. Inr \<lparr>po_report = r, po_plan = None\<rparr>)
             | Inr plan \<Rightarrow> rbind (prepared_report prepared CmdPlan [] False) (\<lambda>r. Inr \<lparr>po_report = r, po_plan = Some plan\<rparr>))))"

text \<open>A loop over actions with two calls each; it stops at the first failure.\<close>

fun each_action :: "(InstallActionV1 \<Rightarrow> ('w, InstallIoError, unit) port) \<Rightarrow> (InstallActionV1 \<Rightarrow> ('w, InstallIoError, unit) port) \<Rightarrow>
   InstallActionV1 list \<Rightarrow> ('w, InstallIoError, unit) port" where
  "each_action act rec [] = port_return ()"
| "each_action act rec (a # actions) = port_bind (act a) (\<lambda>_. port_bind (rec a) (\<lambda>_. each_action act rec actions))"

definition run_transaction :: "'w InstallPorts \<Rightarrow> InstallPlanV1 \<Rightarrow> ('w, InstallIoError, unit) port" where
  "run_transaction ports plan =
     port_bind (ip_begin_transaction ports plan) (\<lambda>_.
     port_bind (each_action (ip_apply_action ports) (ip_record_completed ports) (pl_actions plan)) (\<lambda>_.
     ip_complete_transaction ports plan))"

definition service_apply :: "'w InstallPorts \<Rightarrow> ('w, InstallServiceError, InstallReportV1) port" where
  "service_apply ports =
     port_bind (service_prepare ports CmdApply) (\<lambda>prepared.
       case pi_blocker prepared of
         Some code \<Rightarrow> port_lift (blocked_report prepared CmdApply code False)
       | None \<Rightarrow>
           (case planner_plan (pi_source prepared) (pi_destinations prepared) (pi_journal prepared) of
              Inl err \<Rightarrow> port_lift (blocked_report prepared CmdApply (planning_error_code err) False)
            | Inr plan \<Rightarrow>
                (\<lambda>w. case run_transaction ports plan w of
                       (Inl e, w) \<Rightarrow> (blocked_report prepared CmdApply GI_WRITE_FAILED True, w)
                     | (Inr _, w) \<Rightarrow> (prepared_report prepared CmdApply [] True, w))))"

definition service_status :: "'w InstallPorts \<Rightarrow> ('w, InstallServiceError, InstallReportV1) port" where
  "service_status ports =
     port_bind (service_prepare ports CmdStatus) (\<lambda>prepared.
     port_lift
       (case pi_blocker prepared of
          Some code \<Rightarrow> blocked_report prepared CmdStatus code False
        | None \<Rightarrow> prepared_report prepared CmdStatus [] False))"

definition run_rollback :: "'w InstallPorts \<Rightarrow> InstallJournalSnapshotV1 \<Rightarrow> ('w, InstallIoError, unit) port" where
  "run_rollback ports journal =
     port_bind (ip_begin_rollback ports journal) (\<lambda>_.
     port_bind (each_action (ip_rollback_action ports) (ip_record_rolled_back ports) (rev (ik_completed_actions journal))) (\<lambda>_.
     ip_complete_rollback ports journal))"

definition service_rollback :: "'w InstallPorts \<Rightarrow> ('w, InstallServiceError, InstallReportV1) port" where
  "service_rollback ports =
     port_bind (service_prepare ports CmdRollback) (\<lambda>prepared.
       case pi_blocker prepared of
         Some code \<Rightarrow> port_lift (blocked_report prepared CmdRollback code False)
       | None \<Rightarrow>
           (case pi_journal prepared of
              None \<Rightarrow> port_lift (blocked_report prepared CmdRollback GI_TRANSACTION_CONFLICT False)
            | Some journal \<Rightarrow>
                (\<lambda>w. case run_rollback ports journal w of
                       (Inl e, w) \<Rightarrow> (blocked_report prepared CmdRollback GI_ROLLBACK_IDENTITY True, w)
                     | (Inr _, w) \<Rightarrow> (prepared_report prepared CmdRollback [] True, w))))"


section \<open>The layout and its inputs\<close>

datatype InstallLayoutEntryKindV1 = LayoutDirectory | LayoutRegular

datatype InstallPayloadSourceV1 = PayloadNone | PayloadBundle string | PayloadDeploymentAuthorization | PayloadPerformanceEvidence

record InstallLayoutEntryV1 =
  il_role :: InstallRoleV1
  il_destination :: string
  il_kind :: InstallLayoutEntryKindV1
  il_mode :: u32
  il_source :: InstallPayloadSourceV1

definition layout_directory :: "InstallRoleV1 \<Rightarrow> string \<Rightarrow> u32 \<Rightarrow> InstallLayoutEntryV1" where
  "layout_directory role destination mode =
     \<lparr>il_role = role, il_destination = destination, il_kind = LayoutDirectory, il_mode = mode, il_source = PayloadNone\<rparr>"

definition bundle_file :: "InstallRoleV1 \<Rightarrow> string \<Rightarrow> string \<Rightarrow> u32 \<Rightarrow> InstallLayoutEntryV1" where
  "bundle_file role destination source mode =
     \<lparr>il_role = role, il_destination = destination, il_kind = LayoutRegular, il_mode = mode, il_source = PayloadBundle source\<rparr>"

definition supplied_file :: "InstallRoleV1 \<Rightarrow> string \<Rightarrow> InstallPayloadSourceV1 \<Rightarrow> InstallLayoutEntryV1" where
  "supplied_file role destination source =
     \<lparr>il_role = role, il_destination = destination, il_kind = LayoutRegular, il_mode = 384, il_source = source\<rparr>"

definition INSTALL_LAYOUT :: "InstallLayoutEntryV1 list" where
  "INSTALL_LAYOUT =
     [layout_directory RoleUsrRoot ''/usr'' 493,
      layout_directory RoleUsrBinRoot ''/usr/bin'' 493,
      layout_directory RoleUsrLibRoot ''/usr/lib'' 493,
      layout_directory RoleUsrLibexecRoot ''/usr/libexec'' 493,
      layout_directory RoleProductLibexecRoot ''/usr/libexec/l2-loop'' 493,
      layout_directory RoleUsrLibSystemdRoot ''/usr/lib/systemd'' 493,
      layout_directory RoleSystemdUnitRoot ''/usr/lib/systemd/system'' 493,
      layout_directory RoleUsrShareRoot ''/usr/share'' 493,
      layout_directory RoleUsrShareDocRoot ''/usr/share/doc'' 493,
      layout_directory RoleProductDocRoot ''/usr/share/doc/l2-loop'' 493,
      layout_directory RoleEtcRoot ''/etc'' 493,
      layout_directory RoleConfigRoot ''/etc/l2-loop'' 448,
      layout_directory RoleVarRoot ''/var'' 493,
      layout_directory RoleVarLibRoot ''/var/lib'' 493,
      layout_directory RoleStateRoot ''/var/lib/l2-loop'' 448,
      layout_directory RoleGatesRoot ''/var/lib/l2-loop/gates'' 448,
      layout_directory RoleEvidenceParent ''/var/lib/l2-loop/evidence'' 448,
      layout_directory RoleEvidenceRoot ''/var/lib/l2-loop/evidence/v1'' 448,
      layout_directory RoleInstallRoot ''/var/lib/l2-loop/install'' 448,
      layout_directory RoleTransactionsRoot ''/var/lib/l2-loop/install/transactions'' 448,
      bundle_file RoleCli ''/usr/bin/l2-loopctl'' ''l2-loopctl'' 493,
      bundle_file RoleDaemon ''/usr/libexec/l2-loop/l2-loopd'' ''l2-loopd'' 493,
      bundle_file RoleDeploymentChecker ''/usr/libexec/l2-loop/l2-loop-deploycheck'' ''l2-loop-deploycheck'' 493,
      bundle_file RoleInstaller ''/usr/libexec/l2-loop/l2-loop-install'' ''l2-loop-install'' 493,
      bundle_file RoleHostChecker ''/usr/libexec/l2-loop/l2-loop-hostcheck'' ''l2-loop-hostcheck'' 493,
      bundle_file RoleEbpfObject ''/usr/libexec/l2-loop/l2-loop-ebpf.o'' ''l2-loop-ebpf.o'' 420,
      bundle_file RoleBundleManifest ''/usr/libexec/l2-loop/manifest.json'' ''manifest.json'' 420,
      bundle_file RoleBundleChecksums ''/usr/libexec/l2-loop/SHA256SUMS'' ''SHA256SUMS'' 420,
      bundle_file RoleServiceUnit ''/usr/lib/systemd/system/l2-loop.service'' ''l2-loop.service'' 420,
      bundle_file RoleAuthorizationExample ''/usr/share/doc/l2-loop/deployment-v1.example.json'' ''deployment-v1.example.json'' 420,
      supplied_file RoleDeploymentAuthorization ''/etc/l2-loop/deployment-v1.json'' PayloadDeploymentAuthorization,
      supplied_file RolePerformanceEvidence ''/var/lib/l2-loop/gates/performance-v1.json'' PayloadPerformanceEvidence]"

definition layout_entry :: "InstallRoleV1 \<Rightarrow> InstallLayoutEntryV1 option" where
  "layout_entry role = List.find (\<lambda>entry. il_role entry = role) INSTALL_LAYOUT"

definition MAX_INSTALL_DOCUMENT_BYTES :: u64 where [simp]: "MAX_INSTALL_DOCUMENT_BYTES = 1048576"
definition MAX_HOST_IDENTITY_BYTES :: nat where [simp]: "MAX_HOST_IDENTITY_BYTES = 4096"
definition MAX_BUNDLE_FILE_BYTES :: u64 where [simp]: "MAX_BUNDLE_FILE_BYTES = 67108864"
definition MAX_EBPF_BYTES :: u64 where [simp]: "MAX_EBPF_BYTES = 16777216"
definition MAX_MANIFEST_BYTES :: u64 where [simp]: "MAX_MANIFEST_BYTES = 1048576"
definition MAX_CHECKSUM_BYTES :: u64 where [simp]: "MAX_CHECKSUM_BYTES = 65536"

definition INSTALL_BUNDLE_FILES :: "(string \<times> u32) list" where
  "INSTALL_BUNDLE_FILES =
     [(''SHA256SUMS'', 420), (''deployment-v1.example.json'', 420), (''l2-loop-deploycheck'', 493), (''l2-loop-ebpf.o'', 420),
      (''l2-loop-hostcheck'', 493), (''l2-loop-install'', 493), (''l2-loop.service'', 420), (''l2-loopctl'', 493), (''l2-loopd'', 493),
      (''manifest.json'', 420)]"

record BundleFileIdentityV1 =
  bf_sha256 :: string
  bf_size :: u64
  bf_mode :: u32
  bf_uid :: u32
  bf_gid :: u32
  bf_device :: u64
  bf_inode :: u64
  bf_hard_links :: u64

text \<open>The files of a bundle by name, in the order of the map.\<close>

record BundleSnapshotV1 =
  bs_artifact :: DeploymentArtifactIdentityV1
  bs_files :: "(string \<times> BundleFileIdentityV1) list"

record InstallInputDocumentV1 =
  doc_bytes :: "u8 list"
  doc_regular :: bool
  doc_mode :: u32
  doc_uid :: u32
  doc_gid :: u32
  doc_hard_links :: u64

definition validate_private :: "InstallInputDocumentV1 \<Rightarrow> (unit, unit) result" where
  "validate_private self =
     (if \<not> doc_regular self \<or> doc_mode self \<noteq> 384 \<or> doc_uid self \<noteq> 0 \<or> doc_gid self \<noteq> 0 \<or> doc_hard_links self \<noteq> 1 \<or> doc_bytes self = []
      then Inl ()
      else rbind (ok_or () (try_from_usize (length (doc_bytes self)))) (\<lambda>n.
           if MAX_INSTALL_DOCUMENT_BYTES < n then Inl () else Inr ()))"

definition maximum_bundle_size :: "string \<Rightarrow> u64" where
  "maximum_bundle_size name =
     (if name = ''manifest.json'' then MAX_MANIFEST_BYTES
      else if name = ''SHA256SUMS'' then MAX_CHECKSUM_BYTES
      else if name = ''l2-loop-ebpf.o'' then MAX_EBPF_BYTES
      else if name = ''deployment-v1.example.json'' \<or> name = ''l2-loop.service'' then MAX_INSTALL_DOCUMENT_BYTES
      else MAX_BUNDLE_FILE_BYTES)"

definition bundle_file_step ::
  "BundleSnapshotV1 \<Rightarrow> string \<times> u32 \<Rightarrow> (u64 \<times> u64) list \<Rightarrow> (unit, (u64 \<times> u64) list) result" where
  "bundle_file_step bundle = (\<lambda>(name, mode) identities.
     rbind (ok_or () (map_of (bs_files bundle) name)) (\<lambda>file.
     if bf_mode file \<noteq> mode \<or> bf_hard_links file \<noteq> 1 \<or> bf_size file = 0 \<or> maximum_bundle_size name < bf_size file
        \<or> \<not> is_hex_of_length (bf_sha256 file) 64 \<or> (bf_device file, bf_inode file) \<in> set identities
     then Inl () else Inr ((bf_device file, bf_inode file) # identities)))"

definition validate_bundle_snapshot :: "BundleSnapshotV1 \<Rightarrow> (unit, unit) result" where
  "validate_bundle_snapshot bundle =
     rbind (map_err () (artifact_validate (bs_artifact bundle))) (\<lambda>_.
     if length (bs_files bundle) \<noteq> length INSTALL_BUNDLE_FILES \<or> map fst (bs_files bundle) \<noteq> map fst INSTALL_BUNDLE_FILES then Inl ()
     else rbind (rfold (bundle_file_step bundle) INSTALL_BUNDLE_FILES []) (\<lambda>_. Inr ()))"

definition validate_install_source_inputs ::
  "(u8 list \<Rightarrow> string) \<Rightarrow> (u8 list \<Rightarrow> InstallAuthorizationV1 option) \<Rightarrow> BundleSnapshotV1 \<Rightarrow> InstallInputDocumentV1 \<Rightarrow> InstallInputDocumentV1 \<Rightarrow>
   InstallInputDocumentV1 \<Rightarrow> (unit, InstallSourceSnapshotV1) result" where
  "validate_install_source_inputs sha256 from_json bundle authorization deployment_authorization performance_evidence =
     rbind (validate_bundle_snapshot bundle) (\<lambda>_.
     rbind (validate_private authorization) (\<lambda>_.
     rbind (validate_private deployment_authorization) (\<lambda>_.
     rbind (validate_private performance_evidence) (\<lambda>_.
     rbind (ok_or () (from_json (doc_bytes authorization))) (\<lambda>parsed.
     rbind (map_err () (install_authorization_validate_at parsed (ia_issued_at_unix_ms parsed))) (\<lambda>_.
     rbind (ok_or () (map_of (bs_files bundle) ''manifest.json'')) (\<lambda>manifest.
     let manifest_digest = bf_sha256 manifest;
         deployment_digest = sha256 (doc_bytes deployment_authorization);
         performance_digest = sha256 (doc_bytes performance_evidence)
     in if ia_artifact_commit_sha parsed \<noteq> da_commit_sha (bs_artifact bundle) \<or> ia_bundle_manifest_sha256 parsed \<noteq> manifest_digest
           \<or> ia_deployment_authorization_sha256 parsed \<noteq> deployment_digest \<or> ia_performance_evidence_sha256 parsed \<noteq> performance_digest
        then Inl ()
        else map_err () (source_snapshot_new parsed (bs_artifact bundle) manifest_digest deployment_digest performance_digest))))))))"

definition is_ascii_whitespace :: "u8 \<Rightarrow> bool" where
  "is_ascii_whitespace b \<longleftrightarrow> b \<in> {32, 9, 10, 12, 13}"

text \<open>The raw host identity is overwritten with zeros whether or not it is valid.\<close>

definition hash_and_zero_host_identity :: "(u8 list \<Rightarrow> string) \<Rightarrow> u8 list \<Rightarrow> (unit, string) result \<times> u8 list" where
  "hash_and_zero_host_identity sha256 raw =
     (let valid = raw \<noteq> [] \<and> length raw \<le> MAX_HOST_IDENTITY_BYTES \<and> list_ex (\<lambda>b. \<not> is_ascii_whitespace b) raw;
          digest = (if valid then Some (sha256 raw) else None)
      in (ok_or () digest, replicate (length raw) 0))"

definition validate_install_inputs ::
  "(u8 list \<Rightarrow> string) \<Rightarrow> (u8 list \<Rightarrow> InstallAuthorizationV1 option) \<Rightarrow> BundleSnapshotV1 \<Rightarrow> InstallInputDocumentV1 \<Rightarrow> InstallInputDocumentV1 \<Rightarrow>
   InstallInputDocumentV1 \<Rightarrow> u8 list \<Rightarrow> (unit, InstallSourceSnapshotV1 \<times> string) result \<times> u8 list" where
  "validate_install_inputs sha256 from_json bundle authorization deployment_authorization performance_evidence raw =
     (case hash_and_zero_host_identity sha256 raw of
        (host, raw) \<Rightarrow>
          (rbind host (\<lambda>host.
           rbind (validate_install_source_inputs sha256 from_json bundle authorization deployment_authorization performance_evidence) (\<lambda>source.
           rbind (map_err () (install_authorization_validate_for (is_authorization source) (ia_issued_at_unix_ms (is_authorization source))
             (ia_operation (is_authorization source)) (is_artifact source) (is_bundle_manifest_sha256 source) host
             (is_deployment_authorization_sha256 source) (is_performance_evidence_sha256 source))) (\<lambda>_.
           Inr (source, host)))), raw))"

section \<open>What a plan contains\<close>

definition destination_actions :: "InstallOperationV1 \<Rightarrow> InstallDestinationSnapshotV1 \<Rightarrow> InstallActionV1 list" where
  "destination_actions operation d =
     (case destination_action operation d of Inr (Some a) \<Rightarrow> [a, VerifyInstalledObject (id_role d)] | _ \<Rightarrow> [])"

lemma plan_steps:
  assumes "rfold (plan_step operation) ds acc = Inr actions"
  shows "actions = acc @ concat (map (destination_actions operation) ds) \<and> (\<forall>d \<in> set ds. is_ok (destination_action operation d))"
  using assms
proof (induction ds arbitrary: acc)
  case (Cons d ds)
  then obtain a where a: "destination_action operation d = Inr a"
    and r: "rfold (plan_step operation) ds (case a of None \<Rightarrow> acc | Some x \<Rightarrow> acc @ [x, VerifyInstalledObject (id_role d)]) = Inr actions"
    by (auto simp: rbind_Inr_conv plan_step_def [of _ d])
  from Cons.IH [OF r] a show ?case by (cases a) (simp_all add: destination_actions_def)
qed simp

lemma plan_steps_total:
  assumes "\<forall>d \<in> set ds. is_ok (destination_action operation d)"
  shows "\<exists>actions. rfold (plan_step operation) ds acc = Inr actions"
  using assms
proof (induction ds arbitrary: acc)
  case (Cons d ds)
  then show ?case by (cases "destination_action operation d") (auto simp: plan_step_def)
qed simp

lemma sorted_adjacent_distinct:
  fixes xs :: "'a :: linorder list"
  assumes "sorted xs"
  shows "list_ex (\<lambda>(a, b). a = b) (zip xs (tl xs)) \<longleftrightarrow> \<not> distinct xs"
  using assms
proof (induction xs rule: induct_list012)
  case (3 x y zs)
  then show ?case by (auto simp: order.antisym)
qed simp_all

lemma adjacent_roles:
  "list_ex (\<lambda>(a, b). id_role a = id_role b) (zip (sort_key id_role ds) (tl (sort_key id_role ds))) \<longleftrightarrow> \<not> distinct (map id_role ds)"
proof -
  let ?s = "sort_key id_role ds"
  have "list_ex (\<lambda>(a, b). id_role a = id_role b) (zip ?s (tl ?s)) = list_ex (\<lambda>(a, b). a = b) (zip (map id_role ?s) (tl (map id_role ?s)))"
    by (simp add: zip_map_map map_tl [symmetric] list_ex_iff case_prod_beta)
  also have "\<dots> \<longleftrightarrow> \<not> distinct (map id_role ?s)" by (rule sorted_adjacent_distinct) simp
  also have "distinct (map id_role ?s) \<longleftrightarrow> distinct (map id_role ds)"
    by (simp add: distinct_map inj_on_def)
  finally show ?thesis .
qed

lemma planner_plan_Inr:
  "planner_plan source ds journal = Inr plan \<longleftrightarrow>
     journal = None \<and> ia_operation (is_authorization source) \<noteq> OpRollback \<and> distinct (map id_role ds)
     \<and> (\<forall>d \<in> set ds. is_ok (destination_action (ia_operation (is_authorization source)) d))
     \<and> plan = \<lparr>pl_authorization_id = ia_authorization_id (is_authorization source), pl_transaction_id = ia_transaction_id (is_authorization source),
               pl_operation = ia_operation (is_authorization source), pl_artifact = is_artifact source,
               pl_actions = concat (map (destination_actions (ia_operation (is_authorization source))) (sort_key id_role ds))\<rparr>"
proof -
  let ?op = "ia_operation (is_authorization source)"
  have steps: "rfold (plan_step ?op) (sort_key id_role ds) [] = Inr actions \<longleftrightarrow>
      (\<forall>d \<in> set ds. is_ok (destination_action ?op d)) \<and> actions = concat (map (destination_actions ?op) (sort_key id_role ds))" for actions
    using plan_steps [of ?op "sort_key id_role ds" "[]"] plan_steps_total [of "sort_key id_role ds" ?op "[]"] by auto
  show ?thesis
    by (auto simp: planner_plan_def Let_def adjacent_roles rbind_Inr_conv steps)
qed

lemma destination_action_role:
  "destination_action operation d = Inr (Some a) \<Longrightarrow>
   action_role a = id_role d \<and> \<not> is_VerifyInstalledObject a \<and> id_state d \<noteq> ExistingPrerequisiteDirectory"
  by (auto simp: destination_action_def split: InstallDestinationStateV1.splits if_splits)

text \<open>A role is installed by a plan exactly when its destination is not a directory that is already there.\<close>

lemma plan_installs_iff:
  assumes "planner_plan source ds journal = Inr plan"
  shows "(\<exists>a \<in> set (pl_actions plan). \<not> is_VerifyInstalledObject a \<and> action_role a = role) \<longleftrightarrow>
         (\<exists>d \<in> set ds. id_role d = role \<and> id_state d \<noteq> ExistingPrerequisiteDirectory)"
proof -
  let ?op = "ia_operation (is_authorization source)"
  have ok: "\<forall>d \<in> set ds. is_ok (destination_action ?op d)" and acts: "set (pl_actions plan) = (\<Union>d \<in> set ds. set (destination_actions ?op d))"
    using assms by (simp_all add: planner_plan_Inr)
  have "(\<exists>a \<in> set (destination_actions ?op d). \<not> is_VerifyInstalledObject a \<and> action_role a = role) \<longleftrightarrow>
        id_role d = role \<and> id_state d \<noteq> ExistingPrerequisiteDirectory" if "d \<in> set ds" for d
    using ok that destination_action_role [of ?op d]
    by (cases "id_state d") (auto simp: destination_actions_def destination_action_def split: if_splits)
  then show ?thesis unfolding acts by blast
qed

definition same_readers :: "'w InstallPorts \<Rightarrow> 'w InstallPorts \<Rightarrow> bool" where
  "same_readers p q \<longleftrightarrow>
     ip_load_source p = ip_load_source q \<and> ip_inspect_destinations p = ip_inspect_destinations q
     \<and> ip_inspect_prior_journal p = ip_inspect_prior_journal q \<and> ip_host_identity_sha256 p = ip_host_identity_sha256 q
     \<and> ip_wall_time p = ip_wall_time q"

lemma prepare_same_readers:
  assumes "same_readers p q"
  shows "service_prepare p command = service_prepare q command"
proof -
  have eq: "ip_load_source p = ip_load_source q" "ip_inspect_destinations p = ip_inspect_destinations q"
    "ip_inspect_prior_journal p = ip_inspect_prior_journal q" "ip_host_identity_sha256 p = ip_host_identity_sha256 q" "ip_wall_time p = ip_wall_time q"
    using assms by (simp_all add: same_readers_def)
  have "captured_at_unix_ms p = captured_at_unix_ms q" "prepare_host p = prepare_host q" "prepare_state p = prepare_state q"
    unfolding captured_at_unix_ms_def [abs_def] prepare_host_def [abs_def] prepare_state_def [abs_def] eq by (rule refl)+
  then show ?thesis unfolding service_prepare_def eq by (simp only:)
qed

lemma prepared_report_fields:
  assumes "prepared_report prepared command fs m = Inr r"
  shows "ir_mutations_performed r = m \<and> (ir_decision r = IdBlocked \<longleftrightarrow> has_install_blocker fs) \<and> install_report_validate r = Inr ()"
proof -
  from assms have d: "install_report_derive command (ia_operation (is_authorization (pi_source prepared))) (ia_authorization_id (is_authorization (pi_source prepared)))
      (ia_transaction_id (is_authorization (pi_source prepared))) (is_artifact (pi_source prepared)) fs (pi_captured_at_unix_ms prepared) m = Inr r"
    by (simp add: prepared_report_def)
  have "ir_mutations_performed r = m" using d unfolding install_report_derive_Inr by (metis InstallReportV1.select_convs(10))
  with install_report_blocked_iff [OF d] install_report_derive_valid [OF d] show ?thesis by blast
qed

lemma blocked_report_fields:
  assumes "blocked_report prepared command code m = Inr r"
  shows "ir_mutations_performed r = m \<and> ir_decision r = IdBlocked \<and> install_report_validate r = Inr ()"
  using assms prepared_report_fields [of prepared command _ m r]
  by (auto simp: blocked_report_def rbind_Inr_conv install_finding_blocker_def install_finding_new_def Let_def has_install_blocker_def)

lemma prepared_report_decision:
  assumes "prepared_report prepared command [] m = Inr r"
  shows "positive_decision command m = Inr (ir_decision r)"
proof -
  from assms have "install_report_derive command (ia_operation (is_authorization (pi_source prepared))) (ia_authorization_id (is_authorization (pi_source prepared)))
      (ia_transaction_id (is_authorization (pi_source prepared))) (is_artifact (pi_source prepared)) [] (pi_captured_at_unix_ms prepared) m = Inr r"
    by (simp add: prepared_report_def)
  then show ?thesis unfolding install_report_derive_Inr by (simp add: has_install_blocker_def)
qed

lemma service_apply_cases:
  assumes "service_apply p w = (Inr r, w')"
  obtains (refused) "\<not> ir_mutations_performed r" "ir_decision r = IdBlocked" "\<And>q. same_readers p q \<Longrightarrow> service_apply q w = (Inr r, w')"
    | (failed) "ir_mutations_performed r" "ir_decision r = IdBlocked"
    | (installed) prepared plan w1 where "ir_mutations_performed r" "ir_decision r = IdInstalledVerified"
        "service_prepare p CmdApply w = (Inr prepared, w1)"
        "planner_plan (pi_source prepared) (pi_destinations prepared) (pi_journal prepared) = Inr plan" "run_transaction p plan w1 = (Inr (), w')"
proof -
  from assms obtain prepared w1 where p: "service_prepare p CmdApply w = (Inr prepared, w1)"
    and rest: "(case pi_blocker prepared of
         Some code \<Rightarrow> port_lift (blocked_report prepared CmdApply code False)
       | None \<Rightarrow>
           (case planner_plan (pi_source prepared) (pi_destinations prepared) (pi_journal prepared) of
              Inl err \<Rightarrow> port_lift (blocked_report prepared CmdApply (planning_error_code err) False)
            | Inr plan \<Rightarrow>
                (\<lambda>w. case run_transaction p plan w of
                       (Inl e, w) \<Rightarrow> (blocked_report prepared CmdApply GI_WRITE_FAILED True, w)
                     | (Inr _, w) \<Rightarrow> (prepared_report prepared CmdApply [] True, w)))) w1 = (Inr r, w')"
    unfolding service_apply_def port_bind_Inr_conv by blast
  have q: "service_prepare q CmdApply w = (Inr prepared, w1)" if "same_readers p q" for q
    using prepare_same_readers [OF that] p by simp
  show thesis
  proof (cases "pi_blocker prepared")
    case (Some code)
    with rest have b: "blocked_report prepared CmdApply code False = Inr r" "w1 = w'" by (simp_all add: port_lift_def)
    with Some q have "service_apply q w = (Inr r, w')" if "same_readers p q" for q
      using that by (simp add: service_apply_def port_bind_def port_lift_def)
    with blocked_report_fields [OF b(1)] refused show thesis by simp
  next
    case None
    show thesis
    proof (cases "planner_plan (pi_source prepared) (pi_destinations prepared) (pi_journal prepared)")
      case (Inl e)
      with rest None have b: "blocked_report prepared CmdApply (planning_error_code e) False = Inr r" "w1 = w'" by (simp_all add: port_lift_def)
      with None Inl q have "service_apply q w = (Inr r, w')" if "same_readers p q" for q
        using that by (simp add: service_apply_def port_bind_def port_lift_def)
      with blocked_report_fields [OF b(1)] refused show thesis by simp
    next
      case (Inr plan)
      show thesis
      proof (cases "run_transaction p plan w1")
        case (Pair t w2)
        then show thesis
          using rest None Inr blocked_report_fields [of prepared CmdApply GI_WRITE_FAILED True r] failed
            prepared_report_fields [of prepared CmdApply "[]" True r] prepared_report_decision [of prepared CmdApply True r] installed [of prepared w1 plan] p
          by (cases t) auto
      qed
    qed
  qed
qed

lemma service_rollback_cases:
  assumes "service_rollback p w = (Inr r, w')"
  obtains (refused) "\<not> ir_mutations_performed r" "ir_decision r = IdBlocked" "\<And>q. same_readers p q \<Longrightarrow> service_rollback q w = (Inr r, w')"
    | (failed) "ir_mutations_performed r" "ir_decision r = IdBlocked"
    | (rolled_back) prepared journal w1 where "ir_mutations_performed r" "ir_decision r = IdRolledBack"
        "service_prepare p CmdRollback w = (Inr prepared, w1)" "pi_journal prepared = Some journal" "run_rollback p journal w1 = (Inr (), w')"
proof -
  from assms obtain prepared w1 where p: "service_prepare p CmdRollback w = (Inr prepared, w1)"
    and rest: "(case pi_blocker prepared of
         Some code \<Rightarrow> port_lift (blocked_report prepared CmdRollback code False)
       | None \<Rightarrow>
           (case pi_journal prepared of
              None \<Rightarrow> port_lift (blocked_report prepared CmdRollback GI_TRANSACTION_CONFLICT False)
            | Some journal \<Rightarrow>
                (\<lambda>w. case run_rollback p journal w of
                       (Inl e, w) \<Rightarrow> (blocked_report prepared CmdRollback GI_ROLLBACK_IDENTITY True, w)
                     | (Inr _, w) \<Rightarrow> (prepared_report prepared CmdRollback [] True, w)))) w1 = (Inr r, w')"
    unfolding service_rollback_def port_bind_Inr_conv by blast
  have q: "service_prepare q CmdRollback w = (Inr prepared, w1)" if "same_readers p q" for q
    using prepare_same_readers [OF that] p by simp
  show thesis
  proof (cases "pi_blocker prepared = None \<and> pi_journal prepared \<noteq> None")
    case False
    then obtain code where b: "blocked_report prepared CmdRollback code False = Inr r" "w1 = w'"
      using rest by (auto simp: port_lift_def split: option.splits)
    have "service_rollback q w = (Inr r, w')" if "same_readers p q" for q
      using q [OF that] rest False by (auto simp: service_rollback_def port_bind_def port_lift_def split: option.splits)
    with blocked_report_fields [OF b(1)] refused show thesis by simp
  next
    case True
    then obtain journal where j: "pi_blocker prepared = None" "pi_journal prepared = Some journal" by blast
    show thesis
    proof (cases "run_rollback p journal w1")
      case (Pair t w2)
      then show thesis
        using rest j blocked_report_fields [of prepared CmdRollback GI_ROLLBACK_IDENTITY True r] failed
          prepared_report_fields [of prepared CmdRollback "[]" True r] prepared_report_decision [of prepared CmdRollback True r] rolled_back [of prepared w1 journal] p
        by (cases t) auto
    qed
  qed
qed


definition sample_install :: InstallAuthorizationV1 where
  "sample_install =
     \<lparr>ia_schema_version = 1, ia_authorization_id = replicate 32 CHR ''2'', ia_transaction_id = replicate 32 CHR ''1'', ia_operation = OpInstall,
      ia_artifact_commit_sha = da_commit_sha sample_identity, ia_bundle_manifest_sha256 = sample_digest, ia_host_identity_sha256 = sample_digest,
      ia_deployment_authorization_sha256 = sample_digest, ia_performance_evidence_sha256 = sample_digest, ia_issued_at_unix_ms = 1,
      ia_expires_at_unix_ms = 9, ia_service_enable = False, ia_service_start = False, ia_physical_attach = False\<rparr>"

lemma sample_hex [simp]:
  "is_hex_of_length sample_digest 64" "is_hex_of_length (replicate 32 CHR ''2'') 32" "is_hex_of_length (replicate 32 CHR ''1'') 32"
  "is_hex_of_length (da_commit_sha sample_identity) 40"
  using sample_bindings_valid sample_identity_valid
  by (auto simp: bindings_validate_def artifact_validate_def sample_bindings_def split: if_splits)

lemma sample_install_valid: "install_authorization_validate_at sample_install 2 = Inr ()"
  by (simp add: install_authorization_validate_at_def install_authorization_structure_def sample_install_def checked_sub_def)

definition sample_source :: InstallSourceSnapshotV1 where
  "sample_source = \<lparr>is_authorization = sample_install, is_artifact = sample_identity, is_bundle_manifest_sha256 = sample_digest,
        is_deployment_authorization_sha256 = sample_digest, is_performance_evidence_sha256 = sample_digest\<rparr>"

definition sample_ports :: "(InstallActionV1 \<Rightarrow> (unit, InstallIoError, unit) port) \<Rightarrow> unit InstallPorts" where
  "sample_ports writer =
     \<lparr>ip_load_source = port_return sample_source,
      ip_inspect_destinations = (\<lambda>_. port_return [\<lparr>id_role = RoleConfigRoot, id_state = AbsentDirectory\<rparr>]),
      ip_inspect_prior_journal = (\<lambda>_. port_return None), ip_host_identity_sha256 = port_return sample_digest,
      ip_wall_time = (\<lambda>w. (2000000, w)), ip_begin_transaction = (\<lambda>_. port_return ()), ip_apply_action = writer,
      ip_record_completed = (\<lambda>_. port_return ()), ip_complete_transaction = (\<lambda>_. port_return ()), ip_begin_rollback = (\<lambda>_. port_return ()),
      ip_rollback_action = (\<lambda>_. port_return ()), ip_record_rolled_back = (\<lambda>_. port_return ()), ip_complete_rollback = (\<lambda>_. port_return ())\<rparr>"

lemma sample_source_fields [simp]:
  "is_authorization sample_source = sample_install" "is_artifact sample_source = sample_identity" "is_bundle_manifest_sha256 sample_source = sample_digest"
  "is_deployment_authorization_sha256 sample_source = sample_digest" "is_performance_evidence_sha256 sample_source = sample_digest"
  "ia_operation sample_install = OpInstall" "ia_host_identity_sha256 sample_install = sample_digest"
  "ia_bundle_manifest_sha256 sample_install = sample_digest" "ia_deployment_authorization_sha256 sample_install = sample_digest"
  "ia_performance_evidence_sha256 sample_install = sample_digest" "ia_artifact_commit_sha sample_install = da_commit_sha sample_identity"
  "ia_authorization_id sample_install = replicate 32 CHR ''2''" "ia_transaction_id sample_install = replicate 32 CHR ''1''"
  by (simp_all add: sample_source_def sample_install_def)

lemma sample_prepared:
  "service_prepare (sample_ports writer) CmdApply () =
     (Inr \<lparr>pi_source = sample_source, pi_destinations = [\<lparr>id_role = RoleConfigRoot, id_state = AbsentDirectory\<rparr>], pi_journal = None,
           pi_captured_at_unix_ms = 2, pi_blocker = None\<rparr>, ())"
proof -
  have "install_authorization_validate_for sample_install 2 OpInstall sample_identity sample_digest sample_digest sample_digest sample_digest = Inr ()"
    by (simp add: install_authorization_validate_for_def sample_install_valid sample_identity_valid)
  then have "prepare_host (sample_ports writer) sample_source 2 () = (None, ())"
    by (simp add: prepare_host_def source_binding_failure_def sample_ports_def sample_install_valid)
  moreover have "captured_at_unix_ms (sample_ports writer) () = (Inr 2, ())"
    by (simp add: captured_at_unix_ms_def sample_ports_def try_from_usize_def)
  moreover have "prepare_state (sample_ports writer) sample_source None () = ((None, [\<lparr>id_role = RoleConfigRoot, id_state = AbsentDirectory\<rparr>], None), ())"
    "ip_load_source (sample_ports writer) () = (Inr sample_source, ())"
    by (simp_all add: prepare_state_def sample_ports_def)
  ultimately show ?thesis by (simp add: service_prepare_def port_bind_def)
qed


end
