(* ===== verification/InstallRuntime.thy ===== *)
theory InstallRuntime
  imports InstallPlan
begin

text \<open>
  The installer as it runs: the operations on the fixed destinations (\<open>l2-loop-agent/src/linux/installation_fs.rs\<close>) and
  the commands that drive the journal over them (\<open>l2-loop-agent/src/linux/installation_runtime.rs\<close>). The system
  calls are ports of a record, each on the parent directory of a role; so are the reading and writing of the
  journal file.
\<close>

section \<open>Operations on the destinations\<close>

record ('w, 'p) InstallKernel =
  k_fault :: "InstallFaultPointV1 \<Rightarrow> ('w, InstallIoError, unit) port"
  k_selinux_not_enforcing :: "('w, InstallIoError, unit) port"
  k_open_parent :: "InstallRoleV1 \<Rightarrow> ('w, InstallIoError, bool) port"
  k_inspect_at :: "InstallRoleV1 \<Rightarrow> string \<Rightarrow> ('w, InstallIoError, InstallObjectIdentityV1) port"
  k_entry_exists_at :: "InstallRoleV1 \<Rightarrow> string \<Rightarrow> ('w, InstallIoError, bool) port"
  k_mkdirat :: "InstallRoleV1 \<Rightarrow> string \<Rightarrow> u32 \<Rightarrow> ('w, InstallIoError, unit) port"
  k_openat_directory :: "InstallRoleV1 \<Rightarrow> string \<Rightarrow> ('w, InstallIoError, unit) port"
  k_createat_file :: "InstallRoleV1 \<Rightarrow> string \<Rightarrow> u32 \<Rightarrow> ('w, InstallIoError, unit) port"
  k_copy_bounded :: "InstallRoleV1 \<Rightarrow> string \<Rightarrow> 'p \<Rightarrow> ('w, InstallIoError, unit) port"
  k_fchown :: "InstallRoleV1 \<Rightarrow> string \<Rightarrow> u32 \<Rightarrow> u32 \<Rightarrow> ('w, InstallIoError, unit) port"
  k_fchmod :: "InstallRoleV1 \<Rightarrow> string \<Rightarrow> u32 \<Rightarrow> ('w, InstallIoError, unit) port"
  k_validate_directory :: "InstallRoleV1 \<Rightarrow> string \<Rightarrow> u32 \<Rightarrow> ('w, InstallIoError, unit) port"
  k_sync_file :: "InstallRoleV1 \<Rightarrow> string \<Rightarrow> ('w, InstallIoError, unit) port"
  k_sync_parent :: "InstallRoleV1 \<Rightarrow> ('w, InstallIoError, unit) port"
  k_renameat :: "InstallRoleV1 \<Rightarrow> string \<Rightarrow> string \<Rightarrow> ('w, InstallIoError, unit) port"
  k_renameat_noreplace :: "InstallRoleV1 \<Rightarrow> string \<Rightarrow> string \<Rightarrow> ('w, InstallIoError, unit) port"
  k_unlinkat :: "InstallRoleV1 \<Rightarrow> string \<Rightarrow> bool \<Rightarrow> ('w, InstallIoError, unit) port"
  k_open_payload :: "InstallPayloadSourceV1 \<Rightarrow> ('w, InstallIoError, 'p) port"
  k_transaction_ids :: "('w, InstallIoError, string list) port"
  k_load_journal :: "string \<Rightarrow> ('w, InstallIoError, InstallJournalV1) port"
  k_bootstrap_journal :: "InstallJournalV1 \<Rightarrow> ('w, InstallIoError, unit) port"
  k_publish_journal :: "InstallJournalV1 \<Rightarrow> ('w, InstallIoError, unit) port"
  k_persist_journal :: "InstallJournalV1 \<Rightarrow> ('w, InstallIoError, unit) port"

definition port_fail :: "'e \<Rightarrow> ('w, 'e, 'a) port" where
  "port_fail e w = (Inl e, w)"

definition role_basename :: "InstallRoleV1 \<Rightarrow> string" where
  "role_basename role = rev (takeWhile (\<lambda>c. c \<noteq> CHR ''/'') (rev (fixed_destination role)))"

definition ensure_safe_basename :: "string \<Rightarrow> (InstallIoError, unit) result" where
  "ensure_safe_basename value =
     (if value \<noteq> [] \<and> value \<noteq> ''.'' \<and> value \<noteq> ''..'' \<and> CHR ''/'' \<notin> set value \<and> CHR 0x00 \<notin> set value then Inr () else Inl IoUnsafeObject)"

definition open_role_parent :: "('w, 'p) InstallKernel \<Rightarrow> InstallRoleV1 \<Rightarrow> ('w, InstallIoError, unit) port" where
  "open_role_parent k role = port_bind (k_open_parent k role) (\<lambda>present. if present then port_return () else port_fail IoUnavailable)"

definition inspect_exact :: "('w, 'p) InstallKernel \<Rightarrow> InstallRoleV1 \<Rightarrow> ('w, InstallIoError, InstallObjectIdentityV1) port" where
  "inspect_exact k role =
     port_bind (k_selinux_not_enforcing k) (\<lambda>_.
     port_bind (open_role_parent k role) (\<lambda>_.
     k_inspect_at k role (role_basename role)))"

definition inspect_optional_exact :: "('w, 'p) InstallKernel \<Rightarrow> InstallRoleV1 \<Rightarrow> ('w, InstallIoError, InstallObjectIdentityV1 option) port" where
  "inspect_optional_exact k role =
     port_bind (k_selinux_not_enforcing k) (\<lambda>_.
     port_bind (k_open_parent k role) (\<lambda>present.
     if \<not> present then port_return None
     else
       port_bind (k_entry_exists_at k role (role_basename role)) (\<lambda>exists.
       if \<not> exists then port_return None
       else port_bind (k_inspect_at k role (role_basename role)) (\<lambda>i. port_return (Some i)))))"

definition sync_directory :: "('w, 'p) InstallKernel \<Rightarrow> InstallRoleV1 \<Rightarrow> ('w, InstallIoError, unit) port" where
  "sync_directory k role = port_bind (k_fault k FpDirectorySync) (\<lambda>_. k_sync_parent k role)"

definition set_owner_mode :: "('w, 'p) InstallKernel \<Rightarrow> InstallRoleV1 \<Rightarrow> string \<Rightarrow> u32 \<Rightarrow> u32 \<Rightarrow> u32 \<Rightarrow> ('w, InstallIoError, unit) port" where
  "set_owner_mode k role name uid gid mode =
     port_bind (k_fault k FpOwnership) (\<lambda>_.
     port_bind (k_fchown k role name uid gid) (\<lambda>_.
     port_bind (k_fault k FpMode) (\<lambda>_.
     k_fchmod k role name mode)))"

definition verify_exact :: "('w, 'p) InstallKernel \<Rightarrow> InstallRoleV1 \<Rightarrow> InstallObjectIdentityV1 \<Rightarrow> ('w, InstallIoError, unit) port" where
  "verify_exact k role expected =
     port_bind (k_fault k FpVerify) (\<lambda>_.
     port_bind (inspect_exact k role) (\<lambda>observed.
     if observed \<noteq> expected then port_fail IoIdentityChanged else port_return ()))"

definition rollback_remove_exact :: "('w, 'p) InstallKernel \<Rightarrow> InstallRoleV1 \<Rightarrow> InstallObjectIdentityV1 \<Rightarrow> ('w, InstallIoError, unit) port" where
  "rollback_remove_exact k role expected =
     port_bind (k_fault k FpRollback) (\<lambda>_.
     port_bind (inspect_exact k role) (\<lambda>observed.
     if observed \<noteq> expected then port_fail IoIdentityChanged
     else
       port_bind (open_role_parent k role) (\<lambda>_.
       port_bind (k_unlinkat k role (role_basename role) (oi_kind expected = ObjDirectory)) (\<lambda>_.
       sync_directory k role))))"

definition rollback_restore_exact ::
  "('w, 'p) InstallKernel \<Rightarrow> InstallRoleV1 \<Rightarrow> InstallObjectIdentityV1 \<Rightarrow> string \<Rightarrow> InstallObjectIdentityV1 \<Rightarrow> ('w, InstallIoError, unit) port" where
  "rollback_restore_exact k role expected_current backup expected_backup =
     port_bind (k_fault k FpRollback) (\<lambda>_.
     port_bind (port_lift (ensure_safe_basename backup)) (\<lambda>_.
     port_bind (open_role_parent k role) (\<lambda>_.
     port_bind (k_inspect_at k role (role_basename role)) (\<lambda>current.
     port_bind (k_inspect_at k role backup) (\<lambda>saved.
     if current \<noteq> expected_current \<or> saved \<noteq> expected_backup then port_fail IoIdentityChanged
     else
       port_bind (k_renameat k role backup (role_basename role)) (\<lambda>_.
       port_bind (sync_directory k role) (\<lambda>_.
       port_bind (k_inspect_at k role (role_basename role)) (\<lambda>restored.
       if restored \<noteq> expected_backup then port_fail IoIdentityChanged else port_return ()))))))))"

record InstallApplyOutcomeV1 =
  ao_current_identity :: InstallObjectIdentityV1
  ao_created_parent_identity :: "InstallObjectIdentityV1 option"

definition apply_directory_body :: "('w, 'p) InstallKernel \<Rightarrow> InstallJournalEntryV1 \<Rightarrow> ('w, InstallIoError, InstallApplyOutcomeV1) port" where
  "apply_directory_body k entry =
     (let role = ne_role entry; intended = ne_intended entry; basename = role_basename role in
      port_bind (set_owner_mode k role basename (ii_uid intended) (ii_gid intended) (ii_mode intended)) (\<lambda>_.
      port_bind (k_validate_directory k role basename (ii_mode intended)) (\<lambda>_.
      port_bind (sync_directory k role) (\<lambda>_.
      port_bind (k_inspect_at k role basename) (\<lambda>identity.
      port_return \<lparr>ao_current_identity = identity, ao_created_parent_identity = None\<rparr>)))))"

definition apply_directory :: "('w, 'p) InstallKernel \<Rightarrow> InstallJournalEntryV1 \<Rightarrow> 'p option \<Rightarrow> ('w, InstallIoError, InstallApplyOutcomeV1) port" where
  "apply_directory k entry payload =
     (let role = ne_role entry; basename = role_basename role in
      if payload \<noteq> None \<or> ne_prior_state entry \<noteq> PriorAbsent then port_fail IoUnsafeObject
      else
        port_bind (open_role_parent k role) (\<lambda>_.
        port_bind (k_entry_exists_at k role basename) (\<lambda>exists.
        if exists then port_fail IoUnsafeObject
        else
          port_bind (k_fault k FpDirectoryCreate) (\<lambda>_.
          port_bind (k_mkdirat k role basename (ii_mode (ne_intended entry))) (\<lambda>_.
          port_bind (k_openat_directory k role basename) (\<lambda>_ w.
            case apply_directory_body k entry w of
              (Inr outcome, w) \<Rightarrow> (Inr outcome, w)
            | (Inl e, w) \<Rightarrow> (Inl e, snd (k_sync_parent k role (snd (k_unlinkat k role basename True w))))))))))"

text \<open>
  Installing a file keeps two flags, whether the old file was moved to its backup and whether the new one was
  moved to the destination, which decide how a failure is undone.
\<close>

definition with_flags :: "('w, 'e, 'a) port \<Rightarrow> ('w \<times> bool \<times> bool, 'e, 'a) port" where
  "with_flags p = (\<lambda>(w, flags). case p w of (r, w) \<Rightarrow> (r, (w, flags)))"

definition set_backup_moved :: "('w \<times> bool \<times> bool, 'e, unit) port" where
  "set_backup_moved = (\<lambda>(w, backup_moved, final_moved). (Inr (), (w, True, final_moved)))"

definition set_final_moved :: "('w \<times> bool \<times> bool, 'e, unit) port" where
  "set_final_moved = (\<lambda>(w, backup_moved, final_moved). (Inr (), (w, backup_moved, True)))"

definition write_temporary ::
  "('w, 'p) InstallKernel \<Rightarrow> InstallJournalEntryV1 \<Rightarrow> 'p \<Rightarrow> string \<Rightarrow> ('w, InstallIoError, unit) port" where
  "write_temporary k entry payload sibling =
     (let role = ne_role entry; intended = ne_intended entry in
      port_bind (k_fault k FpPayloadWrite) (\<lambda>_.
      port_bind (k_copy_bounded k role sibling payload) (\<lambda>_.
      port_bind (set_owner_mode k role sibling (ii_uid intended) (ii_gid intended) (ii_mode intended)) (\<lambda>_.
      port_bind (k_fault k FpHash) (\<lambda>_.
      port_bind (k_inspect_at k role sibling) (\<lambda>temporary_identity.
      if \<not> object_matches_intended temporary_identity intended then port_fail IoIdentityChanged
      else
        port_bind (k_fault k FpFileSync) (\<lambda>_.
        port_bind (k_sync_file k role sibling) (\<lambda>_.
        sync_directory k role))))))))"

definition move_to_backup ::
  "('w, 'p) InstallKernel \<Rightarrow> InstallRoleV1 \<Rightarrow> (InstallObjectIdentityV1 \<times> string) option \<Rightarrow> ('w \<times> bool \<times> bool, InstallIoError, unit) port" where
  "move_to_backup k role prior =
     (case prior of
        None \<Rightarrow> port_return ()
      | Some (_, backup) \<Rightarrow>
          port_bind (with_flags (k_fault k FpBackupRename)) (\<lambda>_.
          port_bind (with_flags (k_renameat_noreplace k role (role_basename role) backup)) (\<lambda>_.
          port_bind set_backup_moved (\<lambda>_.
          with_flags (sync_directory k role)))))"

definition apply_file_body ::
  "('w, 'p) InstallKernel \<Rightarrow> InstallJournalEntryV1 \<Rightarrow> 'p \<Rightarrow> string \<Rightarrow> (InstallObjectIdentityV1 \<times> string) option \<Rightarrow>
   ('w \<times> bool \<times> bool, InstallIoError, InstallApplyOutcomeV1) port" where
  "apply_file_body k entry payload sibling prior =
     (let role = ne_role entry; destination = role_basename role in
      port_bind (with_flags (write_temporary k entry payload sibling)) (\<lambda>_.
      port_bind (move_to_backup k role prior) (\<lambda>_.
      port_bind (with_flags (k_fault k FpFinalRename)) (\<lambda>_.
      port_bind (with_flags (k_renameat_noreplace k role sibling destination)) (\<lambda>_.
      port_bind set_final_moved (\<lambda>_.
      port_bind (with_flags (sync_directory k role)) (\<lambda>_.
      port_bind (with_flags (k_inspect_at k role destination)) (\<lambda>current.
      if \<not> object_matches_intended current (ne_intended entry) then port_fail IoIdentityChanged
      else port_return \<lparr>ao_current_identity = current, ao_created_parent_identity = None\<rparr>))))))))"

definition apply_file_cleanup ::
  "('w, 'p) InstallKernel \<Rightarrow> InstallRoleV1 \<Rightarrow> string \<Rightarrow> (InstallObjectIdentityV1 \<times> string) option \<Rightarrow> bool \<Rightarrow> bool \<Rightarrow> 'w \<Rightarrow> 'w" where
  "apply_file_cleanup k role sibling prior backup_moved final_moved w =
     (let destination = role_basename role;
          w = snd (k_unlinkat k role (if final_moved then destination else sibling) False w);
          w = (case prior of
                 Some (expected_prior, backup) \<Rightarrow>
                   if backup_moved
                   then (case k_inspect_at k role backup w of
                           (r, w) \<Rightarrow>
                             if r = Inr expected_prior
                             then (case k_entry_exists_at k role destination w of
                                     (r, w) \<Rightarrow> if r = Inr False then snd (k_renameat_noreplace k role backup destination w) else w)
                             else w)
                   else w
               | None \<Rightarrow> w)
      in snd (k_sync_parent k role w))"

definition check_prior ::
  "('w, 'p) InstallKernel \<Rightarrow> InstallJournalEntryV1 \<Rightarrow> ('w, InstallIoError, (InstallObjectIdentityV1 \<times> string) option) port" where
  "check_prior k entry =
     (let role = ne_role entry; destination = role_basename role in
      case ne_prior_state entry of
        PriorAbsent \<Rightarrow>
          port_bind (k_entry_exists_at k role destination) (\<lambda>exists. if exists then port_fail IoUnsafeObject else port_return None)
      | PriorOwned identity backup \<Rightarrow>
          port_bind (port_lift (ensure_safe_basename backup)) (\<lambda>_.
          port_bind (k_entry_exists_at k role backup) (\<lambda>exists.
          if exists then port_fail IoIdentityChanged
          else
            port_bind (k_inspect_at k role destination) (\<lambda>current.
            if current \<noteq> identity then port_fail IoIdentityChanged else port_return (Some (identity, backup))))))"

definition apply_file :: "('w, 'p) InstallKernel \<Rightarrow> InstallJournalEntryV1 \<Rightarrow> 'p option \<Rightarrow> ('w, InstallIoError, InstallApplyOutcomeV1) port" where
  "apply_file k entry payload =
     (let role = ne_role entry in
      port_bind (port_lift (ok_or IoUnavailable payload)) (\<lambda>payload.
      port_bind (open_role_parent k role) (\<lambda>_.
      port_bind (port_lift (ok_or IoUnsafeObject (ne_sibling_basename entry))) (\<lambda>sibling.
      port_bind (port_lift (ensure_safe_basename sibling)) (\<lambda>_.
      port_bind (check_prior k entry) (\<lambda>prior.
      port_bind (k_entry_exists_at k role sibling) (\<lambda>exists.
      if exists then port_fail IoUnsafeObject
      else
        port_bind (k_fault k FpSiblingCreate) (\<lambda>_.
        port_bind (k_createat_file k role sibling 384) (\<lambda>_ w.
          case apply_file_body k entry payload sibling prior (w, False, False) of
            (Inr outcome, (w, _)) \<Rightarrow> (Inr outcome, w)
          | (Inl e, (w, backup_moved, final_moved)) \<Rightarrow> (Inl e, apply_file_cleanup k role sibling prior backup_moved final_moved w))))))))))"

definition apply_entry :: "('w, 'p) InstallKernel \<Rightarrow> InstallJournalEntryV1 \<Rightarrow> 'p option \<Rightarrow> ('w, InstallIoError, InstallApplyOutcomeV1) port" where
  "apply_entry k entry payload =
     port_bind (k_selinux_not_enforcing k) (\<lambda>_.
     case ii_kind (ne_intended entry) of
       ObjDirectory \<Rightarrow> apply_directory k entry payload
     | ObjRegularFile \<Rightarrow> apply_file k entry payload)"

section \<open>Rolling a journal back\<close>

definition undo_action :: "('w, 'p) InstallKernel \<Rightarrow> InstallJournalRollbackActionV1 \<Rightarrow> ('w, InstallIoError, unit) port" where
  "undo_action k action =
     (case action of
        RemoveExact _ role expected_current _ \<Rightarrow> rollback_remove_exact k role expected_current
      | RestoreExact _ role expected_current backup expected_backup _ \<Rightarrow> rollback_restore_exact k role expected_current backup expected_backup
      | RetainExact _ role expected_current \<Rightarrow>
          port_bind (inspect_exact k role) (\<lambda>observed.
          if \<not> matches_persistent_object expected_current observed then port_fail IoIdentityChanged else port_return ()))"

text \<open>
  The loop ends when the journal proposes nothing more; that it always does is proved below. Every error
  of a step ends it, with the journal as it then is.
\<close>

partial_function (option) rollback_loop ::
  "('w, 'p) InstallKernel \<Rightarrow> InstallJournalV1 \<Rightarrow> 'w \<Rightarrow> ((unit, unit) result \<times> InstallJournalV1 \<times> 'w) option" where
  "rollback_loop k j w =
     (case next_rollback_action j of
        None \<Rightarrow> Some (Inr (), j, w)
      | Some action \<Rightarrow>
          (case undo_action k action w of
             (r, w1) \<Rightarrow>
               if \<not> is_ok r then Some (Inl (), j, w1)
               else
                 (case record_rollback_completed action j of
                    (r, j1) \<Rightarrow>
                      if \<not> is_ok r then Some (Inl (), j1, w1)
                      else
                        (case k_persist_journal k j1 w1 of
                           (r, w2) \<Rightarrow> if \<not> is_ok r then Some (Inl (), j1, w2) else rollback_loop k j1 w2))))"

definition finish_rollback ::
  "('w, 'p) InstallKernel \<Rightarrow> (unit, unit) result \<times> InstallJournalV1 \<times> 'w \<Rightarrow> (unit, unit) result \<times> InstallJournalV1 \<times> 'w" where
  "finish_rollback k = (\<lambda>(r, j, w).
     if \<not> is_ok r then (r, j, w)
     else
       (case mark_rolled_back j of
          (r, j) \<Rightarrow>
            if \<not> is_ok r then (Inl (), j, w)
            else (case k_persist_journal k j w of (r, w) \<Rightarrow> (map_err () r, j, w))))"

definition rollback_journal ::
  "('w, 'p) InstallKernel \<Rightarrow> InstallJournalV1 \<Rightarrow> 'w \<Rightarrow> ((unit, unit) result \<times> InstallJournalV1 \<times> 'w) option" where
  "rollback_journal k j w =
     (let run = (\<lambda>j w. map_option (finish_rollback k) (rollback_loop k j w)) in
      if ij_state j \<noteq> JsRollingBack
      then
        (case begin_rollback j of
           (r, j) \<Rightarrow>
             if \<not> is_ok r then Some (Inl (), j, w)
             else (case k_persist_journal k j w of (r, w) \<Rightarrow> if \<not> is_ok r then Some (Inl (), j, w) else run j w))
      else run j w)"

section \<open>Applying a plan\<close>

definition payload_file :: "('w, 'p) InstallKernel \<Rightarrow> InstallRoleV1 \<Rightarrow> ('w, InstallIoError, 'p option) port" where
  "payload_file k role =
     (case layout_entry role of
        None \<Rightarrow> port_fail IoUnavailable
      | Some layout \<Rightarrow>
          if il_source layout = PayloadNone then port_return None
          else port_bind (k_open_payload k (il_source layout)) (\<lambda>p. port_return (Some p)))"

definition apply_step :: "('w, 'p) InstallKernel \<Rightarrow> InstallJournalV1 \<Rightarrow> InstallRoleV1 \<Rightarrow> 'w \<Rightarrow> (unit, InstallJournalV1) result \<times> 'w" where
  "apply_step k j role w =
     (case find_entry j role of
        None \<Rightarrow> (Inl (), w)
      | Some entry \<Rightarrow>
          (case port_bind (payload_file k role) (apply_entry k entry) w of
             (Inl _, w) \<Rightarrow> (Inl (), w)
           | (Inr outcome, w) \<Rightarrow>
               (case record_applied role (ao_current_identity outcome) (ao_created_parent_identity outcome) j of
                  (Inl _, _) \<Rightarrow> (Inl (), w)
                | (Inr _, j) \<Rightarrow> (case k_persist_journal k j w of (r, w) \<Rightarrow> (if is_ok r then Inr j else Inl (), w)))))"

definition verify_step ::
  "('w, 'p) InstallKernel \<Rightarrow> bool \<Rightarrow> InstallJournalV1 \<Rightarrow> InstallRoleV1 \<Rightarrow> InstallObjectIdentityV1 \<Rightarrow> 'w \<Rightarrow> (unit, InstallJournalV1) result \<times> 'w" where
  "verify_step k final_parent_exists j role expected w =
     (case verify_exact k role expected w of
        (Inl _, w) \<Rightarrow> (Inl (), w)
      | (Inr _, w) \<Rightarrow>
          (case record_verified role expected j of
             (Inl _, _) \<Rightarrow> (Inl (), w)
           | (Inr _, j) \<Rightarrow>
               (case k_persist_journal k j w of
                  (Inl _, w) \<Rightarrow> (Inl (), w)
                | (Inr _, w) \<Rightarrow>
                    if role = RoleTransactionsRoot \<and> \<not> final_parent_exists
                    then (case k_publish_journal k j w of (r, w) \<Rightarrow> (if is_ok r then Inr j else Inl (), w))
                    else (Inr j, w))))"

definition forward_action_step ::
  "('w, 'p) InstallKernel \<Rightarrow> bool \<Rightarrow> InstallJournalV1 \<Rightarrow> InstallJournalForwardActionV1 \<Rightarrow> 'w \<Rightarrow> (unit, InstallJournalV1) result \<times> 'w" where
  "forward_action_step k final_parent_exists j action =
     (case action of
        FwApply _ role \<Rightarrow> apply_step k j role
      | FwVerify _ role expected \<Rightarrow> verify_step k final_parent_exists j role expected)"

partial_function (option) apply_loop ::
  "('w, 'p) InstallKernel \<Rightarrow> bool \<Rightarrow> InstallJournalV1 \<Rightarrow> 'w \<Rightarrow> ((unit, InstallJournalV1) result \<times> 'w) option" where
  "apply_loop k final_parent_exists j w =
     (case next_forward_action j of
        None \<Rightarrow> Some (Inr j, w)
      | Some action \<Rightarrow>
          (case forward_action_step k final_parent_exists j action w of
             (r, w1) \<Rightarrow> (case r of Inl e \<Rightarrow> Some (Inl e, w1) | Inr j1 \<Rightarrow> apply_loop k final_parent_exists j1 w1)))"

definition start_transaction ::
  "('w, 'p) InstallKernel \<Rightarrow> InstallJournalBindingsV1 \<Rightarrow> InstallJournalEntryV1 list \<Rightarrow> 'w \<Rightarrow> (unit, bool \<times> InstallJournalV1) result \<times> 'w" where
  "start_transaction k bindings entries w =
     (case prepare entries (install_journal_new bindings) of
        (Inl _, _) \<Rightarrow> (Inl (), w)
      | (Inr _, j) \<Rightarrow>
          (case port_bind (k_bootstrap_journal k j) (\<lambda>_. inspect_optional_exact k RoleTransactionsRoot) w of
             (Inl _, w) \<Rightarrow> (Inl (), w)
           | (Inr found, w) \<Rightarrow>
               (case (if found \<noteq> None then k_publish_journal k j w else (Inr (), w)) of
                  (Inl _, w) \<Rightarrow> (Inl (), w)
                | (Inr _, w) \<Rightarrow>
                    (case start_applying j of
                       (Inl _, _) \<Rightarrow> (Inl (), w)
                     | (Inr _, j) \<Rightarrow>
                         (case k_persist_journal k j w of (r, w) \<Rightarrow> (if is_ok r then Inr (found \<noteq> None, j) else Inl (), w))))))"

definition finish_transaction ::
  "('w, 'p) InstallKernel \<Rightarrow> (unit, InstallJournalV1) result \<times> 'w \<Rightarrow> (unit, InstallJournalV1) result \<times> 'w" where
  "finish_transaction k = (\<lambda>(r, w).
     case r of
       Inl e \<Rightarrow> (Inl e, w)
     | Inr j \<Rightarrow>
         (case mark_installed j of
            (Inl _, _) \<Rightarrow> (Inl (), w)
          | (Inr _, j) \<Rightarrow> (case k_persist_journal k j w of (r, w) \<Rightarrow> (if is_ok r then Inr j else Inl (), w))))"

definition run_entries ::
  "('w, 'p) InstallKernel \<Rightarrow> InstallJournalBindingsV1 \<Rightarrow> InstallJournalEntryV1 list \<Rightarrow> 'w \<Rightarrow> ((unit, InstallJournalV1) result \<times> 'w) option" where
  "run_entries k bindings entries w =
     (case start_transaction k bindings entries w of
        (Inl e, w) \<Rightarrow> Some (Inl e, w)
      | (Inr (final_parent_exists, j), w) \<Rightarrow> map_option (finish_transaction k) (apply_loop k final_parent_exists j w))"

section \<open>The commands\<close>

record PreparedSystemInstall =
  ps_source :: InstallSourceSnapshotV1
  ps_host_identity_sha256 :: string
  ps_captured_at_unix_ms :: u64
  ps_bundle :: BundleSnapshotV1

record 'w RunnerPorts =
  rp_load_source :: "('w, InstallIoError, InstallSourceSnapshotV1) port"
  rp_host_identity_sha256 :: "('w, InstallIoError, string) port"
  rp_inspect_bundle :: "('w, InstallIoError, BundleSnapshotV1) port"
  rp_read_authorization :: "('w, InstallIoError, InstallAuthorizationV1) port"
  rp_wall_time :: "'w \<Rightarrow> int \<times> 'w"

definition input_unavailable :: "('w, InstallIoError, 'a) port \<Rightarrow> ('w, InstallServiceError, 'a) port" where
  "input_unavailable p w = (case p w of (r, w) \<Rightarrow> (map_err InputUnavailable r, w))"

definition unix_time_ms :: "'w RunnerPorts \<Rightarrow> ('w, InstallServiceError, u64) port" where
  "unix_time_ms rp w =
     (case rp_wall_time rp w of
        (t, w) \<Rightarrow> (if t < 0 then Inl InvalidClock else ok_or InvalidClock (try_from_usize (nat t div 1000000)), w))"

definition runner_prepare :: "'w RunnerPorts \<Rightarrow> ('w, InstallServiceError, PreparedSystemInstall) port" where
  "runner_prepare rp =
     port_bind (input_unavailable (rp_load_source rp)) (\<lambda>source.
     port_bind (input_unavailable (rp_host_identity_sha256 rp)) (\<lambda>host.
     port_bind (unix_time_ms rp) (\<lambda>now.
     port_bind (port_lift (map_err InputUnavailable (install_authorization_validate_for (is_authorization source) now
        (ia_operation (is_authorization source)) (is_artifact source) (is_bundle_manifest_sha256 source) host
        (is_deployment_authorization_sha256 source) (is_performance_evidence_sha256 source)))) (\<lambda>_.
     if ia_operation (is_authorization source) \<notin> {OpInstall, OpUpgrade} then port_fail InputUnavailable
     else
       port_bind (input_unavailable (rp_inspect_bundle rp)) (\<lambda>bundle.
       port_return \<lparr>ps_source = source, ps_host_identity_sha256 = host, ps_captured_at_unix_ms = now, ps_bundle = bundle\<rparr>)))))"

definition system_report :: "PreparedSystemInstall \<Rightarrow> InstallCommandV1 \<Rightarrow> InstallFindingV1 list \<Rightarrow> bool \<Rightarrow> (InstallServiceError, InstallReportV1) result" where
  "system_report prepared command findings mutations_performed =
     map_err InvalidServiceReport
       (install_report_derive command (ia_operation (is_authorization (ps_source prepared)))
          (ia_authorization_id (is_authorization (ps_source prepared))) (ia_transaction_id (is_authorization (ps_source prepared)))
          (is_artifact (ps_source prepared)) findings (ps_captured_at_unix_ms prepared) mutations_performed)"

definition system_blocked_report :: "PreparedSystemInstall \<Rightarrow> InstallCommandV1 \<Rightarrow> string \<Rightarrow> bool \<Rightarrow> (InstallServiceError, InstallReportV1) result" where
  "system_blocked_report prepared command code mutations_performed =
     rbind (map_err InvalidServiceReport (install_finding_blocker code)) (\<lambda>f. system_report prepared command [f] mutations_performed)"

definition journal_identity :: "InstallJournalV1 option \<Rightarrow> InstallRoleV1 \<Rightarrow> InstallObjectIdentityV1 option" where
  "journal_identity journal role =
     Option.bind journal (\<lambda>j. Option.bind (find_entry j role) ne_current_identity)"

definition journal_operation :: "InstallJournalV1 \<Rightarrow> InstallOperationV1" where
  "journal_operation journal =
     (if list_ex (\<lambda>entry. ne_prior_state entry \<noteq> PriorAbsent) (ij_entries journal) then OpUpgrade else OpInstall)"

definition is_standard_prerequisite :: "InstallRoleV1 \<Rightarrow> bool" where
  "is_standard_prerequisite role \<longleftrightarrow>
     role \<in> {RoleUsrRoot, RoleUsrBinRoot, RoleUsrLibRoot, RoleUsrLibexecRoot, RoleUsrLibSystemdRoot, RoleSystemdUnitRoot, RoleUsrShareRoot,
             RoleUsrShareDocRoot, RoleEtcRoot, RoleVarRoot, RoleVarLibRoot}"

text \<open>Whether every entry of a journal is found on disk as recorded; the check stops at the first that is not.\<close>

fun journal_matches :: "('w, 'p) InstallKernel \<Rightarrow> InstallJournalEntryV1 list \<Rightarrow> 'w \<Rightarrow> bool \<times> 'w" where
  "journal_matches k [] w = (True, w)"
| "journal_matches k (entry # entries) w =
     (case ne_current_identity entry of
        None \<Rightarrow> (False, w)
      | Some expected \<Rightarrow>
          (case inspect_optional_exact k (ne_role entry) w of
             (r, w) \<Rightarrow>
               if (case r of Inr (Some observed) \<Rightarrow> matches_persistent_object expected observed | _ \<Rightarrow> False)
               then journal_matches k entries w else (False, w)))"

fun scan_journals :: "('w, 'p) InstallKernel \<Rightarrow> InstallJournalV1 option \<Rightarrow> string list \<Rightarrow> ('w, InstallServiceError, InstallJournalV1 option) port" where
  "scan_journals k current [] = port_return current"
| "scan_journals k current (transaction_id # ids) =
     port_bind (input_unavailable (k_load_journal k transaction_id)) (\<lambda>journal.
     if ij_state journal = JsRolledBack then scan_journals k current ids
     else if ij_state journal \<noteq> JsInstalled then port_fail InputUnavailable
     else (\<lambda>w. case journal_matches k (ij_entries journal) w of
                 (found, w) \<Rightarrow>
                   if \<not> found then scan_journals k current ids w
                   else if current \<noteq> None then (Inl InputUnavailable, w)
                   else scan_journals k (Some journal) ids w))"

definition current_installed_journal :: "('w, 'p) InstallKernel \<Rightarrow> ('w, InstallServiceError, InstallJournalV1 option) port" where
  "current_installed_journal k = port_bind (input_unavailable (k_transaction_ids k)) (scan_journals k None)"

definition destination_state ::
  "InstallOperationV1 \<Rightarrow> InstallJournalV1 option \<Rightarrow> InstallLayoutEntryV1 \<Rightarrow> InstallObjectIdentityV1 option \<Rightarrow> InstallDestinationStateV1 option" where
  "destination_state operation current entry observed =
     (case (il_kind entry, observed) of
        (LayoutDirectory, None) \<Rightarrow> Some AbsentDirectory
      | (LayoutRegular, None) \<Rightarrow> Some AbsentFile
      | (LayoutDirectory, Some identity) \<Rightarrow>
          if is_standard_prerequisite (il_role entry)
             \<or> is_some_and (journal_identity current (il_role entry)) (\<lambda>expected. matches_persistent_object expected identity)
          then Some ExistingPrerequisiteDirectory else None
      | (LayoutRegular, Some identity) \<Rightarrow>
          if operation = OpUpgrade \<and> journal_identity current (il_role entry) = Some identity then Some PriorOwnedFile else None)"

fun scan_layout ::
  "('w, 'p) InstallKernel \<Rightarrow> InstallOperationV1 \<Rightarrow> InstallJournalV1 option \<Rightarrow> InstallLayoutEntryV1 list \<Rightarrow> InstallDestinationSnapshotV1 list \<Rightarrow>
   ('w, InstallServiceError, (string, InstallDestinationSnapshotV1 list) result) port" where
  "scan_layout k operation current [] destinations = port_return (Inr destinations)"
| "scan_layout k operation current (entry # entries) destinations =
     port_bind (input_unavailable (inspect_optional_exact k (il_role entry))) (\<lambda>observed.
     case destination_state operation current entry observed of
       None \<Rightarrow> port_return (Inl GI_DESTINATION_FOREIGN)
     | Some state \<Rightarrow> scan_layout k operation current entries (destinations @ [\<lparr>id_role = il_role entry, id_state = state\<rparr>]))"

definition inspect_layout ::
  "('w, 'p) InstallKernel \<Rightarrow> PreparedSystemInstall \<Rightarrow>
   ('w, InstallServiceError, (string, InstallDestinationSnapshotV1 list \<times> InstallJournalV1 option) result) port" where
  "inspect_layout k prepared =
     (let operation = ia_operation (is_authorization (ps_source prepared)) in
      port_bind (current_installed_journal k) (\<lambda>current.
      if operation = OpInstall \<and> current \<noteq> None \<or> operation = OpUpgrade \<and> current = None \<or> operation = OpRollback
      then port_return (Inl GI_TRANSACTION_CONFLICT)
      else
        port_bind (scan_layout k operation current INSTALL_LAYOUT []) (\<lambda>r.
        port_return (rbind r (\<lambda>destinations. Inr (destinations, current))))))"

definition payload_sha256 :: "PreparedSystemInstall \<Rightarrow> InstallRoleV1 \<Rightarrow> (unit, string) result" where
  "payload_sha256 prepared role =
     rbind (ok_or () (layout_entry role)) (\<lambda>layout.
     case il_source layout of
       PayloadBundle filename \<Rightarrow> ok_or () (map_option bf_sha256 (map_of (bs_files (ps_bundle prepared)) filename))
     | PayloadDeploymentAuthorization \<Rightarrow> Inr (is_deployment_authorization_sha256 (ps_source prepared))
     | PayloadPerformanceEvidence \<Rightarrow> Inr (is_performance_evidence_sha256 (ps_source prepared))
     | PayloadNone \<Rightarrow> Inl ())"

text \<open>The names a transaction uses beside a destination, with the number of the role in decimal.\<close>

fun decimal_text :: "nat \<Rightarrow> string" where
  "decimal_text n = (if n < 10 then [char_of (48 + n)] else decimal_text (n div 10) @ [char_of (48 + n mod 10)])"

declare decimal_text.simps [simp del]

definition sibling_name :: "string \<Rightarrow> InstallRoleV1 \<Rightarrow> string \<Rightarrow> string" where
  "sibling_name transaction_id role suffix =
     ''.l2-loop-'' @ transaction_id @ ''-'' @ decimal_text (unat (install_order role)) @ suffix"

definition journal_entry :: "PreparedSystemInstall \<Rightarrow> InstallActionV1 \<Rightarrow> InstallJournalV1 option \<Rightarrow> (unit, InstallJournalEntryV1) result" where
  "journal_entry prepared action prior =
     (let role = action_role action; transaction_id = ia_transaction_id (is_authorization (ps_source prepared)) in
      rbind (ok_or () (layout_entry role)) (\<lambda>layout.
      rbind (case il_kind layout of
               LayoutDirectory \<Rightarrow> map_err () (intended_directory (il_mode layout) 0 0)
             | LayoutRegular \<Rightarrow> rbind (payload_sha256 prepared role) (\<lambda>digest. map_err () (intended_regular_file digest (il_mode layout) 0 0)))
        (\<lambda>intended.
      let sibling = sibling_name transaction_id role ''.new'' in
      case action of
        CreateDirectory _ \<Rightarrow> map_err () (absent_directory role intended)
      | InstallAbsentFile _ \<Rightarrow> map_err () (absent_file role intended sibling)
      | UpgradeOwnedFile _ \<Rightarrow>
          rbind (ok_or () (journal_identity prior role)) (\<lambda>identity.
          map_err () (prior_owned_file role intended sibling (sibling_name transaction_id role ''.bak'') identity))
      | _ \<Rightarrow> Inl ())))"

definition plan_entries :: "PreparedSystemInstall \<Rightarrow> InstallActionV1 list \<Rightarrow> InstallJournalV1 option \<Rightarrow> (unit, InstallJournalEntryV1 list) result" where
  "plan_entries prepared actions prior =
     rfold (\<lambda>action es. rbind (journal_entry prepared action prior) (\<lambda>e. Inr (es @ [e])))
       (filter (\<lambda>action. \<not> is_VerifyInstalledObject action) actions) []"

definition apply_plan ::
  "('w, 'p) InstallKernel \<Rightarrow> PreparedSystemInstall \<Rightarrow> InstallActionV1 list \<Rightarrow> InstallJournalV1 option \<Rightarrow> 'w \<Rightarrow>
   ((unit, InstallJournalV1) result \<times> 'w) option" where
  "apply_plan k prepared actions prior w =
     (case rbind (plan_entries prepared actions prior) (\<lambda>entries.
           rbind (map_err () (bindings_new (ia_transaction_id (is_authorization (ps_source prepared)))
             (ia_authorization_id (is_authorization (ps_source prepared))) (ps_host_identity_sha256 prepared) (is_artifact (ps_source prepared))
             (is_bundle_manifest_sha256 (ps_source prepared)) (is_deployment_authorization_sha256 (ps_source prepared))
             (is_performance_evidence_sha256 (ps_source prepared)))) (\<lambda>bindings. Inr (entries, bindings))) of
        Inl e \<Rightarrow> Some (Inl e, w)
      | Inr (entries, bindings) \<Rightarrow> run_entries k bindings entries w)"

definition runner_plan :: "('w, 'p) InstallKernel \<Rightarrow> 'w RunnerPorts \<Rightarrow> ('w, InstallServiceError, InstallReportV1) port" where
  "runner_plan k rp =
     port_bind (runner_prepare rp) (\<lambda>prepared.
     port_bind (inspect_layout k prepared) (\<lambda>layout.
     port_lift
       (case layout of
          Inl code \<Rightarrow> system_blocked_report prepared CmdPlan code False
        | Inr (destinations, _) \<Rightarrow>
            if \<not> is_ok (planner_plan (ps_source prepared) destinations None)
            then system_blocked_report prepared CmdPlan GI_DESTINATION_FOREIGN False
            else system_report prepared CmdPlan [] False)))"

definition runner_apply :: "('w, 'p) InstallKernel \<Rightarrow> 'w RunnerPorts \<Rightarrow> 'w \<Rightarrow> ((InstallServiceError, InstallReportV1) result \<times> 'w) option" where
  "runner_apply k rp w =
     (case port_bind (runner_prepare rp) (\<lambda>prepared. port_bind (inspect_layout k prepared) (\<lambda>layout. port_return (prepared, layout))) w of
        (Inl e, w) \<Rightarrow> Some (Inl e, w)
      | (Inr (prepared, Inl code), w) \<Rightarrow> Some (system_blocked_report prepared CmdApply code False, w)
      | (Inr (prepared, Inr (destinations, prior)), w) \<Rightarrow>
          (case planner_plan (ps_source prepared) destinations None of
             Inl _ \<Rightarrow> Some (system_blocked_report prepared CmdApply GI_DESTINATION_FOREIGN False, w)
           | Inr plan \<Rightarrow>
               map_option (\<lambda>(r, w). (if is_ok r then system_report prepared CmdApply [] True
                                      else system_blocked_report prepared CmdApply GI_WRITE_FAILED True, w))
                 (apply_plan k prepared (pl_actions plan) prior w)))"

definition runner_status :: "('w, 'p) InstallKernel \<Rightarrow> 'w RunnerPorts \<Rightarrow> ('w, InstallServiceError, InstallReportV1) port" where
  "runner_status k rp =
     port_bind (unix_time_ms rp) (\<lambda>now.
     port_bind (current_installed_journal k) (\<lambda>found.
     port_bind (port_lift (ok_or InputUnavailable found)) (\<lambda>journal.
     port_lift (map_err InvalidServiceReport
       (install_report_derive CmdStatus (journal_operation journal) (ib_authorization_id (ij_bindings journal))
          (ib_transaction_id (ij_bindings journal)) (ib_artifact (ij_bindings journal)) [] now False)))))"

definition rollback_authorized :: "InstallAuthorizationV1 \<Rightarrow> u64 \<Rightarrow> string \<Rightarrow> InstallJournalV1 \<Rightarrow> bool" where
  "rollback_authorized authorization now host journal \<longleftrightarrow>
     is_ok (install_authorization_validate_for authorization now OpRollback (ib_artifact (ij_bindings journal))
       (ib_bundle_manifest_sha256 (ij_bindings journal)) host (ib_deployment_authorization_sha256 (ij_bindings journal))
       (ib_performance_evidence_sha256 (ij_bindings journal)))
     \<and> \<not> (ia_authorization_id authorization = ib_authorization_id (ij_bindings journal)
          \<or> ia_host_identity_sha256 authorization \<noteq> ib_host_identity_sha256 (ij_bindings journal))"

definition runner_rollback ::
  "('w, 'p) InstallKernel \<Rightarrow> 'w RunnerPorts \<Rightarrow> string \<Rightarrow> 'w \<Rightarrow> ((InstallServiceError, InstallReportV1) result \<times> 'w) option" where
  "runner_rollback k rp transaction_id w =
     (case port_bind (unix_time_ms rp) (\<lambda>now.
           port_bind (input_unavailable (rp_read_authorization rp)) (\<lambda>authorization.
           if ia_transaction_id authorization \<noteq> transaction_id \<or> ia_operation authorization \<noteq> OpRollback then port_fail InputUnavailable
           else
             port_bind (input_unavailable (k_load_journal k transaction_id)) (\<lambda>journal.
             port_bind (input_unavailable (rp_host_identity_sha256 rp)) (\<lambda>host.
             if \<not> rollback_authorized authorization now host journal then port_fail InputUnavailable
             else port_return (now, authorization, journal))))) w of
        (Inl e, w) \<Rightarrow> Some (Inl e, w)
      | (Inr (now, authorization, journal), w) \<Rightarrow>
          map_option (\<lambda>(r, journal, w).
            (rbind (if is_ok r then Inr [] else map_err InvalidServiceReport (rbind (install_finding_blocker GI_ROLLBACK_IDENTITY) (\<lambda>f. Inr [f])))
               (\<lambda>findings. map_err InvalidServiceReport
                  (install_report_derive CmdRollback OpRollback (ia_authorization_id authorization) transaction_id
                     (ib_artifact (ij_bindings journal)) findings now True)), w))
            (rollback_journal k journal w))"

section \<open>The rollback loop undoes the applied entries, newest first\<close>

definition entry_applied :: "InstallJournalEntryV1 \<Rightarrow> bool" where
  "entry_applied e \<longleftrightarrow> ne_phase e \<in> {PhApplied, PhVerified}"

text \<open>Undoing one entry: a directory the journal itself needs stays, a new object goes, an old file comes back.\<close>

definition undo_entry :: "('w, 'p) InstallKernel \<Rightarrow> InstallJournalEntryV1 \<Rightarrow> InstallObjectIdentityV1 \<Rightarrow> ('w, InstallIoError, unit) port" where
  "undo_entry k e i =
     (case ne_prior_state e of
        PriorAbsent \<Rightarrow>
          if is_journal_retention_directory (ne_role e)
          then port_bind (inspect_exact k (ne_role e)) (\<lambda>observed.
               if \<not> matches_persistent_object i observed then port_fail IoIdentityChanged else port_return ())
          else rollback_remove_exact k (ne_role e) i
      | PriorOwned identity backup \<Rightarrow> rollback_restore_exact k (ne_role e) i backup identity)"

definition roll_entry :: "InstallRoleV1 \<Rightarrow> InstallJournalV1 \<Rightarrow> InstallJournalV1" where
  "roll_entry role j =
     j\<lparr>ij_entries := map (\<lambda>e. if ne_role e = role then e\<lparr>ne_phase := PhRolledBack\<rparr> else e) (ij_entries j),
       ij_durable_step := ij_durable_step j + 1\<rparr>"

text \<open>The reference: over a list of entries, undo each, record it and write the journal, stopping at the first failure.\<close>

fun rollback_reference ::
  "('w, 'p) InstallKernel \<Rightarrow> InstallJournalEntryV1 list \<Rightarrow> InstallJournalV1 \<Rightarrow> 'w \<Rightarrow> (unit, unit) result \<times> InstallJournalV1 \<times> 'w" where
  "rollback_reference k [] j w = (Inr (), j, w)"
| "rollback_reference k (e # es) j w =
     (case undo_entry k e (the (ne_current_identity e)) w of
        (Inl _, w) \<Rightarrow> (Inl (), j, w)
      | (Inr _, w) \<Rightarrow>
          (case k_persist_journal k (roll_entry (ne_role e) j) w of
             (Inl _, w) \<Rightarrow> (Inl (), roll_entry (ne_role e) j, w)
           | (Inr _, w) \<Rightarrow> rollback_reference k es (roll_entry (ne_role e) j) w))"

definition undo_all :: "('w, 'p) InstallKernel \<Rightarrow> InstallJournalV1 \<Rightarrow> 'w \<Rightarrow> (unit, unit) result \<times> InstallJournalV1 \<times> 'w" where
  "undo_all k j w =
     (case rollback_reference k (rev (filter entry_applied (ij_entries j))) j w of
        (Inl e, j, w) \<Rightarrow> (Inl e, j, w)
      | (Inr _, j, w) \<Rightarrow>
          let j = j\<lparr>ij_state := JsRolledBack, ij_durable_step := ij_durable_step j + 1\<rparr> in
          (case k_persist_journal k j w of (r, w) \<Rightarrow> (if is_ok r then Inr () else Inl (), j, w)))"

definition rollback_spec :: "('w, 'p) InstallKernel \<Rightarrow> InstallJournalV1 \<Rightarrow> 'w \<Rightarrow> (unit, unit) result \<times> InstallJournalV1 \<times> 'w" where
  "rollback_spec k j w =
     (if ij_state j = JsRollingBack then undo_all k j w
      else
        let j = j\<lparr>ij_state := JsRollingBack, ij_durable_step := ij_durable_step j + 1\<rparr> in
        (case k_persist_journal k j w of
           (Inl _, w) \<Rightarrow> (Inl (), j, w)
         | (Inr _, w) \<Rightarrow> undo_all k j w))"

lemma undo_action_for: "undo_action k (rollback_action_for n e i) = undo_entry k e i"
  by (simp add: undo_action_def rollback_action_for_def undo_entry_def split: InstallPriorStateV1.split)

lemma roll_entry_split:
  assumes "validate_entries (ij_entries j) = Inr ()" and "ij_entries j = xs @ e # ys"
  shows "roll_entry (ne_role e) j = j\<lparr>ij_entries := xs @ e\<lparr>ne_phase := PhRolledBack\<rparr> # ys, ij_durable_step := ij_durable_step j + 1\<rparr>"
proof -
  have "distinct (map ne_role (xs @ e # ys))" using distinct_roles [OF assms(1)] assms(2) by simp
  then have "\<forall>x \<in> set xs \<union> set ys. ne_role x \<noteq> ne_role e" by auto (metis imageI)+
  then have "map (\<lambda>x. if ne_role x = ne_role e then x\<lparr>ne_phase := PhRolledBack\<rparr> else x) xs = xs"
    "map (\<lambda>x. if ne_role x = ne_role e then x\<lparr>ne_phase := PhRolledBack\<rparr> else x) ys = ys"
    by (auto intro!: map_idI)
  then show ?thesis by (simp add: roll_entry_def assms(2))
qed

lemma filter_by_phase:
  "set (map ne_phase xs) \<subseteq> {PhApplied, PhVerified} \<Longrightarrow> filter entry_applied xs = xs"
  "set (map ne_phase ys) \<subseteq> {PhRolledBack, PhPending} \<Longrightarrow> filter entry_applied ys = []"
  by (auto simp: entry_applied_def intro!: filter_True filter_False)

text \<open>The loop returns, with what the reference computes; it keeps the invariant and leaves nothing applied when it succeeds.\<close>

lemma rollback_loop_reference:
  assumes "journal_inv j" and "ij_state j = JsRollingBack"
  shows "rollback_loop k j w = Some (rollback_reference k (rev (filter entry_applied (ij_entries j))) j w)
    \<and> (\<forall>j' w'. rollback_reference k (rev (filter entry_applied (ij_entries j))) j w = (Inr (), j', w') \<longrightarrow>
         journal_inv j' \<and> ij_state j' = JsRollingBack \<and> next_rollback_action j' = None \<and> map ne_role (ij_entries j') = map ne_role (ij_entries j))"
  using assms
proof (induction "length (filter entry_applied (ij_entries j))" arbitrary: j w)
  case 0
  from 0(2,3) show ?case
  proof (cases rule: next_rollback_cases)
    case (finished r p)
    with 0 show ?thesis by (simp add: rollback_loop.simps)
  next
    case (undo xs e ys i us r p)
    with 0(1) show ?thesis by (simp add: entry_applied_def)
  qed
next
  case (Suc n)
  from Suc.prems show ?case
  proof (cases rule: next_rollback_cases)
    case (finished r p)
    have "set (phases_of j) \<subseteq> {PhRolledBack, PhPending}" unfolding finished(2) by (auto simp: rollback_phases_def)
    from filter_by_phase(2) [OF this] Suc(2) show ?thesis by simp
  next
    case (undo xs e ys i us r p)
    have valid: "validate_entries (ij_entries j) = Inr ()" using Suc.prems by (simp add: journal_inv_def)
    have us: "set (map ne_phase xs) \<subseteq> {PhApplied, PhVerified}" using undo(2,3) by simp
    have "set (map ne_phase ys) \<subseteq> {PhRolledBack, PhPending}" unfolding undo(5) by auto
    from filter_by_phase(2) [OF this] have idle: "filter entry_applied ys = []" .
    have act: "filter entry_applied (ij_entries j) = xs @ [e]"
      using undo(4) by (simp add: undo(1) filter_by_phase(1) [OF us] idle) (simp add: entry_applied_def)
    let ?e = "e\<lparr>ne_phase := PhRolledBack\<rparr>"
    let ?j = "j\<lparr>ij_entries := xs @ ?e # ys, ij_durable_step := ij_durable_step j + 1\<rparr>"
    note step = rollback_completed_step [OF Suc.prems undo(1) us undo(4,5,7) rb_role_action_for undo(8,9)]
    have roll: "roll_entry (ne_role e) j = ?j" by (rule roll_entry_split [OF valid undo(1)])
    have act': "filter entry_applied (ij_entries ?j) = xs"
      by (simp add: filter_by_phase(1) [OF us] idle) (simp add: entry_applied_def)
    have roles: "map ne_role (ij_entries ?j) = map ne_role (ij_entries j)" by (simp add: undo(1))
    have n: "n = length (filter entry_applied (ij_entries ?j))" using Suc(2) act act' by simp
    note ih = Suc.hyps(1) [OF n step(2)]
    have st: "ij_state ?j = JsRollingBack" using Suc.prems(2) by simp
    obtain r1 w1 where u: "undo_entry k e i w = (r1, w1)" by (cases "undo_entry k e i w")
    obtain r2 w2 where p: "k_persist_journal k ?j w1 = (r2, w2)" by (cases "k_persist_journal k ?j w1")
    have "rollback_loop k j w =
        (if \<not> is_ok r1 then Some (Inl (), j, w1) else if \<not> is_ok r2 then Some (Inl (), ?j, w2) else rollback_loop k ?j w2)"
      by (subst rollback_loop.simps) (simp add: undo(7) undo_action_for u step(1) p)
    moreover have "rollback_reference k (rev (filter entry_applied (ij_entries j))) j w =
        (if \<not> is_ok r1 then (Inl (), j, w1) else if \<not> is_ok r2 then (Inl (), ?j, w2)
         else rollback_reference k (rev (filter entry_applied (ij_entries ?j))) ?j w2)"
      unfolding act act' by (cases r1; cases r2) (simp_all add: undo(6) u roll p)
    ultimately show ?thesis using ih [OF st, of w2] roles by auto
  qed
qed

lemma finish_rollback_ok:
  assumes "journal_inv j" and "ij_state j = JsRollingBack" and "next_rollback_action j = None"
  shows "finish_rollback k (Inr (), j, w) =
      (let j = j\<lparr>ij_state := JsRolledBack, ij_durable_step := ij_durable_step j + 1\<rparr> in
       case k_persist_journal k j w of (r, w) \<Rightarrow> (if is_ok r then Inr () else Inl (), j, w))"
    and "journal_inv (j\<lparr>ij_state := JsRolledBack, ij_durable_step := ij_durable_step j + 1\<rparr>)"
proof -
  let ?k = "j\<lparr>ij_state := JsRolledBack\<rparr>"
  have m: "mark_rolled_back j = (Inr (), ?k\<lparr>ij_durable_step := ij_durable_step j + 1\<rparr>)"
    using assms(2,3) advance_ok(1) [of ?k] step_bound [OF assms(1)] by (simp add: mark_rolled_back_def)
  with mark_rolled_back_sound [OF assms(1)] show "journal_inv (?k\<lparr>ij_durable_step := ij_durable_step j + 1\<rparr>)"
    by (simp add: sound_call_def)
  have "map_err () r = (if is_ok r then Inr () else Inl ())" for r :: "(InstallIoError, unit) result"
    by (cases r) simp_all
  with m show "finish_rollback k (Inr (), j, w) =
      (let j = j\<lparr>ij_state := JsRolledBack, ij_durable_step := ij_durable_step j + 1\<rparr> in
       case k_persist_journal k j w of (r, w) \<Rightarrow> (if is_ok r then Inr () else Inl (), j, w))"
    by (simp add: finish_rollback_def Let_def)
qed


section \<open>The forward loop installs the entries in order\<close>

text \<open>The reference: for each role in the order of installation, apply it and then verify what was recorded.\<close>

fun apply_reference ::
  "('w, 'p) InstallKernel \<Rightarrow> bool \<Rightarrow> InstallRoleV1 list \<Rightarrow> InstallJournalV1 \<Rightarrow> 'w \<Rightarrow> (unit, InstallJournalV1) result \<times> 'w" where
  "apply_reference k final_parent_exists [] j w = (Inr j, w)"
| "apply_reference k final_parent_exists (role # roles) j w =
     (case apply_step k j role w of
        (Inl e, w) \<Rightarrow> (Inl e, w)
      | (Inr j, w) \<Rightarrow>
          (case verify_step k final_parent_exists j role (the (journal_identity (Some j) role)) w of
             (Inl e, w) \<Rightarrow> (Inl e, w)
           | (Inr j, w) \<Rightarrow> apply_reference k final_parent_exists roles j w))"

definition all_verified :: "InstallJournalEntryV1 list \<Rightarrow> bool" where
  "all_verified xs \<longleftrightarrow> (\<forall>x \<in> set xs. ne_phase x = PhVerified)"

lemma next_forward_at:
  assumes "journal_inv j" and "ij_state j = JsApplying" and "ij_entries j = xs @ e # ys" and "all_verified xs"
  shows "ne_phase e = PhPending \<Longrightarrow> next_forward_action j = Some (FwApply (ij_durable_step j + 1) (ne_role e))"
    and "ne_phase e = PhApplied \<Longrightarrow> ne_current_identity e = Some i \<Longrightarrow> next_forward_action j = Some (FwVerify (ij_durable_step j + 1) (ne_role e) i)"
proof -
  have adv: "checked_add (ij_durable_step j) 1 = Some (ij_durable_step j + 1)"
    using advance_ok(2) step_bound assms(1) by blast
  have f: "List.find (\<lambda>entry. ne_phase entry \<noteq> PhVerified) (ij_entries j) = Some e" if "ne_phase e \<noteq> PhVerified"
    unfolding assms(3) using assms(4) that by (intro find_first) (auto simp: all_verified_def)
  show "ne_phase e = PhPending \<Longrightarrow> next_forward_action j = Some (FwApply (ij_durable_step j + 1) (ne_role e))"
    using f adv assms(2) by (simp add: next_forward_action_def)
  show "ne_phase e = PhApplied \<Longrightarrow> ne_current_identity e = Some i \<Longrightarrow> next_forward_action j = Some (FwVerify (ij_durable_step j + 1) (ne_role e) i)"
    using f adv assms(2) by (simp add: next_forward_action_def)
qed

lemma next_forward_none:
  assumes "ij_state j = JsApplying" and "all_verified (ij_entries j)"
  shows "next_forward_action j = None"
  using assms find_none [of "ij_entries j" "\<lambda>entry. ne_phase entry \<noteq> PhVerified"]
  by (simp add: next_forward_action_def all_verified_def)

lemma record_applied_next:
  assumes inv: "journal_inv j" and state: "ij_state j = JsApplying" and s: "ij_entries j = xs @ e # ys" and v: "all_verified xs" and pend: "ne_phase e = PhPending"
    and ok: "record_applied (ne_role e) i c j = (Inr (), j')"
  shows "j' = j\<lparr>ij_entries := xs @ e\<lparr>ne_current_identity := Some i, ne_created_parent_identity := c, ne_phase := PhApplied\<rparr> # ys,
                 ij_durable_step := ij_durable_step j + 1\<rparr> \<and> journal_inv j'"
proof -
  have valid: "validate_entries (ij_entries j) = Inr ()" using inv state by (simp add: journal_inv_def)
  let ?j = "j\<lparr>ij_entries := xs @ e\<lparr>ne_current_identity := Some i, ne_created_parent_identity := c, ne_phase := PhApplied\<rparr> # ys\<rparr>"
  have "advance_step ?j = (Inr (), j')"
    using ok pend split_entry [OF valid s] next_forward_at(1) [OF inv state s v pend]
    by (auto simp: record_applied_def rbind_Inr_conv split: sum.splits if_splits)
  moreover have "journal_inv j'"
    using record_applied_sound [OF inv, of "ne_role e" i c] ok by (simp add: sound_call_def)
  ultimately show ?thesis
    using advance_ok(1) [of ?j] step_bound [OF inv] by simp
qed

lemma record_verified_next:
  assumes inv: "journal_inv j" and state: "ij_state j = JsApplying" and s: "ij_entries j = xs @ e # ys" and v: "all_verified xs"
    and app: "ne_phase e = PhApplied" and id: "ne_current_identity e = Some i"
  shows "\<exists>j'. record_verified (ne_role e) i j = (Inr (), j') \<and> journal_inv j'
    \<and> j' = j\<lparr>ij_entries := xs @ e\<lparr>ne_phase := PhVerified\<rparr> # ys, ij_durable_step := ij_durable_step j + 1\<rparr>"
proof -
  have valid: "validate_entries (ij_entries j) = Inr ()" using inv state by (simp add: journal_inv_def)
  let ?j = "j\<lparr>ij_entries := xs @ e\<lparr>ne_phase := PhVerified\<rparr> # ys\<rparr>"
  have "record_verified (ne_role e) i j = advance_step ?j"
    using app id split_entry [OF valid s] next_forward_at(2) [OF inv state s v app id]
    by (simp add: record_verified_def)
  then have ok: "record_verified (ne_role e) i j = (Inr (), ?j\<lparr>ij_durable_step := ij_durable_step j + 1\<rparr>)"
    using advance_ok(1) [of ?j] step_bound [OF inv] by simp
  then show ?thesis
    using record_verified_sound [OF inv, of "ne_role e" i] by (simp add: sound_call_def)
qed

text \<open>An accepted step moves one entry on, and leaves the journal in a state that satisfies the invariant.\<close>

lemma apply_step_next:
  assumes inv: "journal_inv j" and state: "ij_state j = JsApplying" and s: "ij_entries j = xs @ e # ys" and v: "all_verified xs" and pend: "ne_phase e = PhPending"
    and ok: "apply_step k j (ne_role e) w = (Inr j', w')"
  shows "\<exists>i c. j' = j\<lparr>ij_entries := xs @ e\<lparr>ne_current_identity := Some i, ne_created_parent_identity := c, ne_phase := PhApplied\<rparr> # ys,
                 ij_durable_step := ij_durable_step j + 1\<rparr> \<and> journal_inv j'"
proof -
  from ok obtain i c where "record_applied (ne_role e) i c j = (Inr (), j')"
    by (auto simp: apply_step_def split: option.splits prod.splits sum.splits if_splits)
  from record_applied_next [OF inv state s v pend this] show ?thesis by blast
qed

lemma verify_step_next:
  assumes inv: "journal_inv j" and state: "ij_state j = JsApplying" and s: "ij_entries j = xs @ e # ys" and v: "all_verified xs"
    and app: "ne_phase e = PhApplied" and id: "ne_current_identity e = Some i"
    and ok: "verify_step k f j (ne_role e) i w = (Inr j', w')"
  shows "j' = j\<lparr>ij_entries := xs @ e\<lparr>ne_phase := PhVerified\<rparr> # ys, ij_durable_step := ij_durable_step j + 1\<rparr> \<and> journal_inv j'"
  using record_verified_next [OF inv state s v app id] ok
  by (auto simp: verify_step_def split: prod.splits sum.splits if_splits)

lemma apply_loop_reference:
  assumes "journal_inv j" and "ij_state j = JsApplying" and "ij_entries j = xs @ ys" and "all_verified xs" and "\<forall>y \<in> set ys. ne_phase y = PhPending"
  shows "apply_loop k f j w = Some (apply_reference k f (map ne_role ys) j w)
    \<and> (\<forall>j' w'. apply_reference k f (map ne_role ys) j w = (Inr j', w') \<longrightarrow>
         journal_inv j' \<and> ij_state j' = JsApplying \<and> all_verified (ij_entries j') \<and> map ne_role (ij_entries j') = map ne_role (ij_entries j)
         \<and> ij_bindings j' = ij_bindings j)"
  using assms
proof (induction ys arbitrary: j xs w)
  case Nil
  then show ?case using next_forward_none [of j] by (simp add: apply_loop.simps)
next
  case (Cons e ys)
  have pend: "ne_phase e = PhPending" using Cons.prems(5) by simp
  note nxt = next_forward_at(1) [OF Cons.prems(1-4) pend]
  have l1: "apply_loop k f j w = (case apply_step k j (ne_role e) w of (r, w1) \<Rightarrow> (case r of Inl x \<Rightarrow> Some (Inl x, w1) | Inr j1 \<Rightarrow> apply_loop k f j1 w1))"
    by (subst apply_loop.simps) (simp add: nxt forward_action_step_def)
  show ?case
  proof (cases "apply_step k j (ne_role e) w")
    case (Pair r w1)
    show ?thesis
    proof (cases r)
      case (Inl x)
      with Pair l1 show ?thesis by simp
    next
      case (Inr j1)
      let ?e = "\<lambda>i c. e\<lparr>ne_current_identity := Some i, ne_created_parent_identity := c, ne_phase := PhApplied\<rparr>"
      have "apply_step k j (ne_role e) w = (Inr j1, w1)" using Pair Inr by simp
      from apply_step_next [OF Cons.prems(1-4) pend this] obtain i c where
        j1: "j1 = j\<lparr>ij_entries := xs @ ?e i c # ys, ij_durable_step := ij_durable_step j + 1\<rparr>" "journal_inv j1" by blast
      have st1: "ij_state j1 = JsApplying" and en1: "ij_entries j1 = xs @ ?e i c # ys" using j1 Cons.prems(2) by simp_all
      note nxt1 = next_forward_at(2) [OF j1(2) st1 en1 Cons.prems(4), simplified]
      have valid1: "validate_entries (ij_entries j1) = Inr ()" using j1(2) st1 by (simp add: journal_inv_def)
      have ji: "journal_identity (Some j1) (ne_role e) = Some i"
        using split_entry(2) [OF valid1 en1] by (simp add: journal_identity_def)
      have l2: "apply_loop k f j1 w1 = (case verify_step k f j1 (ne_role e) i w1 of (r, w2) \<Rightarrow> (case r of Inl x \<Rightarrow> Some (Inl x, w2) | Inr j2 \<Rightarrow> apply_loop k f j2 w2))"
        by (subst apply_loop.simps) (simp add: nxt1 forward_action_step_def)
      show ?thesis
      proof (cases "verify_step k f j1 (ne_role e) i w1")
        case v: (Pair r2 w2)
        show ?thesis
        proof (cases r2)
          case (Inl x)
          with v l1 l2 Pair Inr ji show ?thesis by simp
        next
          case r2: (Inr j2)
          let ?f = "(?e i c)\<lparr>ne_phase := PhVerified\<rparr>"
          have "verify_step k f j1 (ne_role (?e i c)) i w1 = (Inr j2, w2)" using v r2 by simp
          from verify_step_next [OF j1(2) st1 en1 Cons.prems(4) _ _ this]
          have j2: "j2 = j1\<lparr>ij_entries := xs @ ?f # ys, ij_durable_step := ij_durable_step j1 + 1\<rparr>" "journal_inv j2" by auto
          have "apply_loop k f j2 w2 = Some (apply_reference k f (map ne_role ys) j2 w2)
              \<and> (\<forall>j' w'. apply_reference k f (map ne_role ys) j2 w2 = (Inr j', w') \<longrightarrow>
                   journal_inv j' \<and> ij_state j' = JsApplying \<and> all_verified (ij_entries j') \<and> map ne_role (ij_entries j') = map ne_role (ij_entries j2)
                   \<and> ij_bindings j' = ij_bindings j2)"
            by (rule Cons.IH [where xs = "xs @ [?f]"]) (use j2 st1 Cons.prems(4,5) in \<open>simp_all add: all_verified_def\<close>)
          moreover have "map ne_role (ij_entries j2) = map ne_role (ij_entries j)" "ij_bindings j2 = ij_bindings j"
            using j2(1) j1(1) Cons.prems(3) by simp_all
          ultimately show ?thesis
            using v r2 l1 l2 Pair Inr ji by simp
        qed
      qed
    qed
  qed
qed


lemma start_transaction_next:
  assumes "bindings_validate b = Inr ()" and "\<forall>e \<in> set entries. ne_phase e = PhPending"
    and "start_transaction k b entries w = (Inr (f, j), w1)"
  shows "journal_inv j \<and> ij_state j = JsApplying \<and> ij_entries j = sort_key entry_order entries \<and> ij_bindings j = b"
proof -
  from assms(3) obtain j0 where p: "prepare entries (install_journal_new b) = (Inr (), j0)" and s: "start_applying j0 = (Inr (), j)"
    by (auto simp: start_transaction_def split: prod.splits sum.splits if_splits)
  have inv0: "journal_inv j0"
    using prepare_sound [OF journal_new_inv [OF assms(1)] assms(2)] p by (simp add: sound_call_def)
  have e0: "ij_entries j0 = sort_key entry_order entries" "ij_bindings j0 = b"
    using p by (auto simp: prepare_def Let_def install_journal_new_def advance_step_def split: sum.splits option.splits)
  have "journal_inv j" using start_applying_sound [OF inv0] s by (simp add: sound_call_def)
  with e0 s show ?thesis
    by (auto simp: start_applying_def advance_step_def split: if_splits option.splits)
qed

lemma finish_transaction_ok:
  assumes "journal_inv j" and "finish_transaction k (Inr j, w) = (Inr j', w')"
  shows "journal_inv j' \<and> ij_state j' = JsInstalled \<and> ij_entries j' = ij_entries j"
proof -
  from assms(2) have m: "mark_installed j = (Inr (), j')"
    by (auto simp: finish_transaction_def split: prod.splits sum.splits if_splits)
  with mark_installed_sound [OF assms(1)] show ?thesis
    by (auto simp: sound_call_def mark_installed_def advance_step_def split: if_splits option.splits)
qed

lemma run_entries_reference:
  assumes "bindings_validate b = Inr ()" and "\<forall>e \<in> set entries. ne_phase e = PhPending"
  shows "(\<exists>r w'. run_entries k b entries w = Some (r, w'))
    \<and> (\<forall>f j w1. start_transaction k b entries w = (Inr (f, j), w1) \<longrightarrow>
         run_entries k b entries w = Some (finish_transaction k (apply_reference k f (map ne_role (sort_key entry_order entries)) j w1)))
    \<and> (\<forall>j' w'. run_entries k b entries w = Some (Inr j', w') \<longrightarrow>
         ij_state j' = JsInstalled \<and> journal_validate j' = Inr () \<and> all_verified (ij_entries j')
         \<and> map ne_role (ij_entries j') = map ne_role (sort_key entry_order entries))"
proof (cases "start_transaction k b entries w")
  case (Pair r w1)
  show ?thesis
  proof (cases r)
    case (Inl e)
    with Pair show ?thesis by (simp add: run_entries_def)
  next
    case (Inr fj)
    obtain f j where fj: "fj = (f, j)" by (cases fj)
    with Pair Inr have "start_transaction k b entries w = (Inr (f, j), w1)" by simp
    from start_transaction_next [OF assms this] have j: "journal_inv j" "ij_state j = JsApplying" "ij_entries j = sort_key entry_order entries" by auto
    let ?ref = "apply_reference k f (map ne_role (sort_key entry_order entries)) j w1"
    have pend: "\<forall>y \<in> set (ij_entries j). ne_phase y = PhPending" using assms(2) j(3) by simp
    have loop: "apply_loop k f j w1 = Some ?ref
      \<and> (\<forall>j' w'. ?ref = (Inr j', w') \<longrightarrow> journal_inv j' \<and> ij_state j' = JsApplying \<and> all_verified (ij_entries j')
           \<and> map ne_role (ij_entries j') = map ne_role (ij_entries j) \<and> ij_bindings j' = ij_bindings j)"
      using apply_loop_reference [OF j(1,2), of "[]" "ij_entries j" k f w1] pend by (simp add: all_verified_def j(3))
    have run: "run_entries k b entries w = Some (finish_transaction k ?ref)"
      using loop Pair Inr fj by (simp add: run_entries_def all_verified_def)
    have "ij_state j' = JsInstalled \<and> journal_validate j' = Inr () \<and> all_verified (ij_entries j')
         \<and> map ne_role (ij_entries j') = map ne_role (sort_key entry_order entries)"
      if ok: "finish_transaction k ?ref = (Inr j', w')" for j' w'
    proof -
      obtain r2 w2 where ref: "?ref = (r2, w2)" by (cases ?ref)
      with ok obtain j2 where r2: "r2 = Inr j2" by (cases r2) (auto simp: finish_transaction_def)
      with loop ref have j2: "journal_inv j2" "all_verified (ij_entries j2)" "map ne_role (ij_entries j2) = map ne_role (sort_key entry_order entries)"
        by (auto simp: j(3))
      from finish_transaction_ok [OF j2(1)] ok ref r2 have "journal_inv j' \<and> ij_state j' = JsInstalled \<and> ij_entries j' = ij_entries j2" by simp
      with j2 inv_validates show ?thesis by auto
    qed
    moreover have "\<exists>r' w'. finish_transaction k ?ref = (r', w')" by (cases "finish_transaction k ?ref") auto
    ultimately show ?thesis using run Pair Inr fj by auto
  qed
qed


definition sample_kernel :: "bool \<Rightarrow> InstallJournalV1 \<Rightarrow> (unit, unit) InstallKernel" where
  "sample_kernel present journal =
     \<lparr>k_fault = (\<lambda>_. port_return ()), k_selinux_not_enforcing = port_return (), k_open_parent = (\<lambda>_. port_return True),
      k_inspect_at = (\<lambda>_ _. port_return sample_object), k_entry_exists_at = (\<lambda>_ _. port_return present), k_mkdirat = (\<lambda>_ _ _. port_return ()),
      k_openat_directory = (\<lambda>_ _. port_return ()), k_createat_file = (\<lambda>_ _ _. port_return ()), k_copy_bounded = (\<lambda>_ _ _. port_return ()),
      k_fchown = (\<lambda>_ _ _ _. port_return ()), k_fchmod = (\<lambda>_ _ _. port_return ()), k_validate_directory = (\<lambda>_ _ _. port_return ()),
      k_sync_file = (\<lambda>_ _. port_return ()), k_sync_parent = (\<lambda>_. port_return ()), k_renameat = (\<lambda>_ _ _. port_return ()),
      k_renameat_noreplace = (\<lambda>_ _ _. port_return ()), k_unlinkat = (\<lambda>_ _ _. port_return ()), k_open_payload = (\<lambda>_. port_return ()),
      k_transaction_ids = port_return [ib_transaction_id (ij_bindings journal)], k_load_journal = (\<lambda>_. port_return journal),
      k_bootstrap_journal = (\<lambda>_. port_return ()), k_publish_journal = (\<lambda>_. port_return ()), k_persist_journal = (\<lambda>_. port_return ())\<rparr>"

lemma port_bind_return [simp]: "port_bind (port_return a) f = f a"
  by (rule ext) (simp add: port_bind_def)

lemma sample_kernel_ports [simp]:
  "k_fault (sample_kernel present journal) = (\<lambda>_. port_return ())"
  "k_selinux_not_enforcing (sample_kernel present journal) = port_return ()"
  "k_open_parent (sample_kernel present journal) = (\<lambda>_. port_return True)"
  "k_inspect_at (sample_kernel present journal) = (\<lambda>_ _. port_return sample_object)"
  "k_entry_exists_at (sample_kernel present journal) = (\<lambda>_ _. port_return present)"
  "k_mkdirat (sample_kernel present journal) = (\<lambda>_ _ _. port_return ())"
  "k_openat_directory (sample_kernel present journal) = (\<lambda>_ _. port_return ())"
  "k_createat_file (sample_kernel present journal) = (\<lambda>_ _ _. port_return ())"
  "k_copy_bounded (sample_kernel present journal) = (\<lambda>_ _ _. port_return ())"
  "k_fchown (sample_kernel present journal) = (\<lambda>_ _ _ _. port_return ())"
  "k_fchmod (sample_kernel present journal) = (\<lambda>_ _ _. port_return ())"
  "k_validate_directory (sample_kernel present journal) = (\<lambda>_ _ _. port_return ())"
  "k_sync_file (sample_kernel present journal) = (\<lambda>_ _. port_return ())"
  "k_sync_parent (sample_kernel present journal) = (\<lambda>_. port_return ())"
  "k_renameat (sample_kernel present journal) = (\<lambda>_ _ _. port_return ())"
  "k_renameat_noreplace (sample_kernel present journal) = (\<lambda>_ _ _. port_return ())"
  "k_unlinkat (sample_kernel present journal) = (\<lambda>_ _ _. port_return ())"
  "k_open_payload (sample_kernel present journal) = (\<lambda>_. port_return ())"
  "k_transaction_ids (sample_kernel present journal) = port_return [ib_transaction_id (ij_bindings journal)]"
  "k_load_journal (sample_kernel present journal) = (\<lambda>_. port_return journal)"
  "k_bootstrap_journal (sample_kernel present journal) = (\<lambda>_. port_return ())"
  "k_publish_journal (sample_kernel present journal) = (\<lambda>_. port_return ())"
  "k_persist_journal (sample_kernel present journal) = (\<lambda>_. port_return ())"
  by (simp_all add: sample_kernel_def)

lemma sample_inspect [simp]:
  "inspect_exact (sample_kernel present journal) role w = (Inr sample_object, w)"
  "inspect_optional_exact (sample_kernel present journal) role w = (Inr (if present then Some sample_object else None), w)"
  by (simp_all add: inspect_exact_def inspect_optional_exact_def open_role_parent_def)

definition sample_entry :: "InstallJournalEntryPhaseV1 \<Rightarrow> InstallObjectIdentityV1 option \<Rightarrow> InstallJournalEntryV1" where
  "sample_entry phase current =
     \<lparr>ne_role = RoleConfigRoot, ne_fixed_path = fixed_destination RoleConfigRoot, ne_intended = sample_intended, ne_sibling_basename = None,
      ne_prior_state = PriorAbsent, ne_current_identity = current, ne_created_parent_identity = None, ne_phase = phase\<rparr>"

definition sample_journal :: "InstallJournalStateV1 \<Rightarrow> u64 \<Rightarrow> InstallJournalEntryPhaseV1 \<Rightarrow> InstallObjectIdentityV1 option \<Rightarrow> InstallJournalV1" where
  "sample_journal state step phase current =
     (install_journal_new sample_bindings)\<lparr>ij_state := state, ij_durable_step := step, ij_entries := [sample_entry phase current]\<rparr>"

lemmas sample_journal_defs = sample_journal_def sample_entry_def sample_run_defs record_applied_def record_verified_def find_entry_def
  next_forward_action_def entry_index_def object_validate_def sample_object_def object_matches_intended_def update_entry_def
  mark_installed_def created_parent_ok_def

lemma sample_running:
  "foldl journal_step (install_journal_new sample_bindings) (sample_prefix @ [CallApplied RoleConfigRoot sample_object None]) =
   sample_journal JsApplying 3 PhApplied (Some sample_object)"
  by (simp add: sample_journal_defs)

lemma sample_prepare: "prepare [sample_entry PhPending None] (install_journal_new sample_bindings) = (Inr (), sample_journal JsPrepared 1 PhPending None)"
  by (simp add: sample_journal_defs)

lemma sample_start: "start_applying (sample_journal JsPrepared 1 PhPending None) = (Inr (), sample_journal JsApplying 2 PhPending None)"
  by (simp add: sample_journal_defs)

lemma sample_record_applied:
  "record_applied RoleConfigRoot sample_object None (sample_journal JsApplying 2 PhPending None) = (Inr (), sample_journal JsApplying 3 PhApplied (Some sample_object))"
  by (simp add: sample_journal_defs)

lemma sample_record_verified:
  "record_verified RoleConfigRoot sample_object (sample_journal JsApplying 3 PhApplied (Some sample_object)) = (Inr (), sample_journal JsApplying 4 PhVerified (Some sample_object))"
  by (simp add: sample_journal_defs)

lemma sample_mark:
  "mark_installed (sample_journal JsApplying 4 PhVerified (Some sample_object)) = (Inr (), sample_journal JsInstalled 5 PhVerified (Some sample_object))"
  by (simp add: sample_journal_defs)

lemma sample_transaction:
  "start_transaction (sample_kernel False j) sample_bindings [sample_entry PhPending None] () = (Inr (False, sample_journal JsApplying 2 PhPending None), ())"
  by (simp add: start_transaction_def sample_prepare sample_start)

lemma sample_apply_step:
  "apply_step (sample_kernel False j) (sample_journal JsApplying 2 PhPending None) RoleConfigRoot () = (Inr (sample_journal JsApplying 3 PhApplied (Some sample_object)), ())"
proof -
  have f: "find_entry (sample_journal JsApplying 2 PhPending None) RoleConfigRoot = Some (sample_entry PhPending None)"
    by (simp add: find_entry_def sample_journal_def sample_entry_def)
  have "payload_file (sample_kernel False j) RoleConfigRoot = port_return None"
    by (simp add: payload_file_def layout_entry_def INSTALL_LAYOUT_def layout_directory_def bundle_file_def supplied_file_def)
  moreover have "apply_entry (sample_kernel False j) (sample_entry PhPending None) None () = (Inr \<lparr>ao_current_identity = sample_object, ao_created_parent_identity = None\<rparr>, ())"
    by (simp add: apply_entry_def apply_directory_def apply_directory_body_def open_role_parent_def set_owner_mode_def sync_directory_def
        sample_entry_def sample_intended_def Let_def port_bind_def)
  ultimately show ?thesis
    by (simp add: apply_step_def f sample_record_applied)
qed

lemma sample_verify_step:
  "verify_step (sample_kernel False j) False (sample_journal JsApplying 3 PhApplied (Some sample_object)) RoleConfigRoot sample_object () =
   (Inr (sample_journal JsApplying 4 PhVerified (Some sample_object)), ())"
proof -
  have "verify_exact (sample_kernel False j) RoleConfigRoot sample_object () = (Inr (), ())"
    by (simp add: verify_exact_def port_bind_def)
  then show ?thesis by (simp add: verify_step_def sample_record_verified)
qed

lemma sample_reference:
  "finish_transaction (sample_kernel False j) (apply_reference (sample_kernel False j) False [RoleConfigRoot] (sample_journal JsApplying 2 PhPending None) ()) =
   (Inr (sample_journal JsInstalled 5 PhVerified (Some sample_object)), ())"
proof -
  have "journal_identity (Some (sample_journal JsApplying 3 PhApplied (Some sample_object))) RoleConfigRoot = Some sample_object"
    by (simp add: journal_identity_def find_entry_def sample_journal_def sample_entry_def)
  then show ?thesis
    by (simp add: sample_apply_step sample_verify_step finish_transaction_def sample_mark)
qed


lemma sample_undo:
  "undo_all (sample_kernel True j) (sample_journal JsRollingBack 4 PhApplied (Some sample_object)) () =
   (Inr (), sample_journal JsRolledBack 6 PhRolledBack (Some sample_object), ())"
proof -
  have "undo_entry (sample_kernel True j) (sample_entry PhApplied (Some sample_object)) sample_object () = (Inr (), ())"
    by (simp add: undo_entry_def is_journal_retention_directory_def sample_entry_def rollback_remove_exact_def open_role_parent_def sync_directory_def port_bind_def)
  moreover have "rev (filter entry_applied (ij_entries (sample_journal JsRollingBack 4 PhApplied (Some sample_object)))) = [sample_entry PhApplied (Some sample_object)]"
    "ne_current_identity (sample_entry PhApplied (Some sample_object)) = Some sample_object"
    by (simp_all add: sample_journal_def entry_applied_def sample_entry_def)
  moreover have "roll_entry (ne_role (sample_entry PhApplied (Some sample_object))) (sample_journal JsRollingBack 4 PhApplied (Some sample_object)) =
      sample_journal JsRollingBack 5 PhRolledBack (Some sample_object)"
    by (simp add: roll_entry_def sample_journal_def sample_entry_def)
  ultimately show ?thesis by (simp add: undo_all_def Let_def) (simp add: sample_journal_def)
qed


section \<open>Upgrading twice\<close>

lemma journal_entry_role: "journal_entry prepared action prior = Inr e \<Longrightarrow> ne_role e = action_role action \<and> ne_phase e = PhPending"
  by (cases action) (auto simp: journal_entry_def Let_def rbind_Inr_conv absent_directory_def absent_file_def prior_owned_file_def entry_new_def)

lemma plan_entries_from:
  assumes "rfold (\<lambda>action es. rbind (journal_entry prepared action prior) (\<lambda>e. Inr (es @ [e]))) actions acc = Inr entries"
  shows "map ne_role entries = map ne_role acc @ map action_role actions \<and> (\<forall>e \<in> set entries. e \<in> set acc \<or> ne_phase e = PhPending)"
  using assms
proof (induction actions arbitrary: acc)
  case (Cons a actions)
  then obtain e where e: "journal_entry prepared a prior = Inr e"
    and r: "rfold (\<lambda>action es. rbind (journal_entry prepared action prior) (\<lambda>e. Inr (es @ [e]))) actions (acc @ [e]) = Inr entries"
    by (auto simp: rbind_Inr_conv)
  from Cons.IH [OF r] journal_entry_role [OF e] show ?case by auto
qed auto

lemma plan_entries_roles:
  assumes "plan_entries prepared actions prior = Inr entries"
  shows "map ne_role entries = map action_role (filter (\<lambda>a. \<not> is_VerifyInstalledObject a) actions)" and "\<forall>e \<in> set entries. ne_phase e = PhPending"
  using plan_entries_from [OF assms [unfolded plan_entries_def]] by auto

text \<open>Looking at the layout stops at a directory that the current journal does not know.\<close>

lemma scan_layout_foreign:
  assumes "\<And>role v. inspect_optional_exact k role v = (Inr (seen role), v)"
    and "\<exists>entry \<in> set entries. destination_state operation current entry (seen (il_role entry)) = None"
  shows "scan_layout k operation current entries ds w = (Inr (Inl GI_DESTINATION_FOREIGN), w)"
  using assms(2)
proof (induction entries arbitrary: ds)
  case (Cons entry entries)
  then show ?case
    by (cases "destination_state operation current entry (seen (il_role entry))")
       (auto simp: port_bind_def input_unavailable_def assms(1))
qed simp

text \<open>
  \<^bold>\<open>C26.\<close> A second upgrade is always refused. An upgrade plans nothing for the product's own directory, which it
  finds in place, so the journal it leaves does not name that directory; when the next upgrade
  looks at the host with that journal, the directory counts as foreign, whatever else is found.
\<close>

theorem second_upgrade_is_refused:
  assumes "planner_plan source ds None = Inr plan" and "\<lparr>id_role = RoleProductLibexecRoot, id_state = ExistingPrerequisiteDirectory\<rparr> \<in> set ds"
    and "plan_entries prepared (pl_actions plan) prior = Inr entries" and "bindings_validate b = Inr ()"
    and "run_entries k b entries w = Some (Inr j, w')"
    and "ia_operation (is_authorization (ps_source next)) = OpUpgrade" and "current_installed_journal k' v = (Inr (Some j), v')"
    and "\<And>role u. inspect_optional_exact k' role u = (Inr (seen role), u)" and "seen RoleProductLibexecRoot \<noteq> None"
  shows "inspect_layout k' next v = (Inr (Inl GI_DESTINATION_FOREIGN), v')"
proof -
  have "distinct (map id_role ds)" using assms(1) by (simp add: planner_plan_Inr)
  with assms(2) have "\<not> (\<exists>d \<in> set ds. id_role d = RoleProductLibexecRoot \<and> id_state d \<noteq> ExistingPrerequisiteDirectory)"
    by (auto simp: distinct_map inj_on_def)
  then have "\<not> (\<exists>a \<in> set (pl_actions plan). \<not> is_VerifyInstalledObject a \<and> action_role a = RoleProductLibexecRoot)"
    using plan_installs_iff [OF assms(1), of RoleProductLibexecRoot] by blast
  then have "RoleProductLibexecRoot \<notin> set (map ne_role entries)"
    unfolding plan_entries_roles(1) [OF assms(3)] by auto
  moreover have "set (map ne_role (ij_entries j)) = set (map ne_role entries)"
  proof -
    have "map ne_role (ij_entries j) = map ne_role (sort_key entry_order entries)"
      using run_entries_reference [OF assms(4) plan_entries_roles(2) [OF assms(3)], of k w] assms(5) by blast
    then have "set (map ne_role (ij_entries j)) = set (map ne_role (sort_key entry_order entries))" by (rule arg_cong)
    then show ?thesis by simp
  qed
  ultimately have "RoleProductLibexecRoot \<notin> set (map ne_role (ij_entries j))" by blast
  then have "find_entry j RoleProductLibexecRoot = None" by (force simp: find_entry_def find_None_iff)
  then have "destination_state OpUpgrade (Some j) (layout_directory RoleProductLibexecRoot ''/usr/libexec/l2-loop'' 493) (seen RoleProductLibexecRoot) = None"
    using assms(9) by (auto simp: destination_state_def layout_directory_def is_standard_prerequisite_def journal_identity_def)
  moreover have "layout_directory RoleProductLibexecRoot ''/usr/libexec/l2-loop'' 493 \<in> set INSTALL_LAYOUT" by (simp add: INSTALL_LAYOUT_def)
  ultimately have "scan_layout k' OpUpgrade (Some j) INSTALL_LAYOUT [] v' = (Inr (Inl GI_DESTINATION_FOREIGN), v')"
    by (intro scan_layout_foreign [OF assms(8)]) (force simp: layout_directory_def)
  with assms(6,7) show ?thesis by (simp add: inspect_layout_def)
qed

definition sample_upgrade :: PreparedSystemInstall where
  "sample_upgrade =
     \<lparr>ps_source = sample_source\<lparr>is_authorization := sample_install\<lparr>ia_operation := OpUpgrade\<rparr>\<rparr>, ps_host_identity_sha256 = sample_digest,
      ps_captured_at_unix_ms = 2, ps_bundle = \<lparr>bs_artifact = sample_identity, bs_files = []\<rparr>\<rparr>"

definition sample_destinations :: "InstallDestinationSnapshotV1 list" where
  "sample_destinations =
     [\<lparr>id_role = RoleProductLibexecRoot, id_state = ExistingPrerequisiteDirectory\<rparr>, \<lparr>id_role = RoleConfigRoot, id_state = AbsentDirectory\<rparr>]"

theorem second_upgrade_is_refused_witness:
  "inspect_layout (sample_kernel True (sample_journal JsInstalled 5 PhVerified (Some sample_object))) sample_upgrade () = (Inr (Inl GI_DESTINATION_FOREIGN), ())"
proof -
  let ?j = "sample_journal JsInstalled 5 PhVerified (Some sample_object)"
  obtain plan where plan: "planner_plan (ps_source sample_upgrade) sample_destinations None = Inr plan"
    by (simp add: planner_plan_Inr destination_action_def sample_destinations_def sample_upgrade_def)
  then have acts: "pl_actions plan = [CreateDirectory RoleConfigRoot, VerifyInstalledObject RoleConfigRoot]"
    by (simp add: planner_plan_Inr destination_actions_def destination_action_def sample_destinations_def sample_upgrade_def less_eq_InstallRoleV1_def)
  have entries: "plan_entries sample_upgrade (pl_actions plan) None = Inr [sample_entry PhPending None]"
    by (simp add: acts plan_entries_def journal_entry_def layout_entry_def INSTALL_LAYOUT_def layout_directory_def bundle_file_def supplied_file_def
        intended_directory_def absent_directory_def sample_entry_def sample_run_defs)
  have pend: "\<forall>e \<in> set [sample_entry PhPending None]. ne_phase e = PhPending"
    and roles: "map ne_role (sort_key entry_order [sample_entry PhPending None]) = [RoleConfigRoot]" by (simp_all add: sample_entry_def)
  note reference = run_entries_reference [OF sample_bindings_valid pend, of "sample_kernel False (install_journal_new sample_bindings)" "()", unfolded roles]
  from reference sample_transaction sample_reference
  have run: "run_entries (sample_kernel False (install_journal_new sample_bindings)) sample_bindings [sample_entry PhPending None] () = Some (Inr ?j, ())"
    by auto
  have current: "current_installed_journal (sample_kernel True ?j) () = (Inr (Some ?j), ())"
    by (simp add: current_installed_journal_def input_unavailable_def port_bind_def sample_journal_def sample_entry_def matches_persistent_object_def
        split: InstallObjectKindV1.split)
  show ?thesis
    by (rule second_upgrade_is_refused [OF plan _ entries sample_bindings_valid run _ current, where seen = "\<lambda>_. Some sample_object"])
       (simp_all add: sample_destinations_def sample_upgrade_def)
qed

end
