(* ===== verification/DeploymentGate.thy ===== *)
theory DeploymentGate
  imports InstallPlan
begin

text \<open>
  The deployment gate of the agent (\<open>l2-loop-agent/src/deployment.rs\<close>): the three commands that check a staged bundle,
  an installed product and the host it is installed on, over readers given as ports. The commands stop at
  the first check that fails and report it; what a positive report means and that a report is always given
  is shown below.
\<close>

section \<open>Definitions\<close>

text \<open>What the readers return.\<close>

datatype DeploymentEntryKindV1 = EntryDirectory | EntryRegular | EntrySymlink | EntrySocket | EntryFifo | EntryDevice | EntryOther

record DeploymentEntrySnapshotV1 =
  en_relative_path :: string
  en_canonical_path :: string
  en_kind :: DeploymentEntryKindV1
  en_mode :: u32
  en_uid :: u32
  en_gid :: u32
  en_device :: u64
  en_inode :: u64
  en_hard_links :: u64
  en_size :: u64

record LayoutSnapshotV1 =
  ly_artifact :: DeploymentArtifactIdentityV1
  ly_files :: "(string \<times> DeploymentEntrySnapshotV1) list"
  ly_runtime_occupied :: bool

record ServiceUnitSnapshotV1 =
  su_contract_valid :: bool

record DeploymentPrerequisitesV1 =
  dp_evidence_root_ready :: bool
  dp_runtime_contract_ready :: bool

definition prerequisites_ready :: "DeploymentPrerequisitesV1 \<Rightarrow> bool" where
  "prerequisites_ready self \<longleftrightarrow> dp_evidence_root_ready self \<and> dp_runtime_contract_ready self"

record InstalledOwnershipSnapshotV1 =
  iw_transaction_id :: string
  iw_authorization_id :: string
  iw_artifact :: DeploymentArtifactIdentityV1

definition installed_ownership_new :: "string \<Rightarrow> string \<Rightarrow> DeploymentArtifactIdentityV1 \<Rightarrow> (unit, InstalledOwnershipSnapshotV1) result" where
  "installed_ownership_new transaction_id authorization_id artifact =
     (let snapshot = \<lparr>iw_transaction_id = transaction_id, iw_authorization_id = authorization_id, iw_artifact = artifact\<rparr>
      in if \<not> is_hex_of_length transaction_id 32 \<or> \<not> is_hex_of_length authorization_id 32 \<or> \<not> is_ok (artifact_validate artifact)
         then Inl () else Inr snapshot)"

record DeploymentPlatformSnapshotV1 =
  ps_preflight :: PreflightReport
  ps_interface_name :: InterfaceName
  ps_ifindex :: u32
  ps_kind :: InterfaceKind
  ps_administrative_up :: bool
  ps_operational_up :: bool
  ps_master_ifindex :: "u32 option"
  ps_mac_address_sha256 :: string
  ps_driver :: string
  ps_device_identity_sha256 :: string
  ps_network_namespace_sha256 :: string
  ps_tc_clsact_present :: bool
  ps_address_present :: bool
  ps_route_present :: bool
  ps_neighbor_present :: bool
  ps_service_present :: bool
  ps_other_consumer_present :: bool
  ps_capabilities_sufficient :: bool
  ps_native_xdp_driver_ready :: bool
  ps_receive_queue_count :: u32
  ps_offload_state_known :: bool
  ps_host :: DeploymentHostCompatibilityV1

record 'w DeploymentPorts =
  dq_wall_time :: "'w \<Rightarrow> int \<times> 'w"
  dq_validate_staging_root :: "string \<Rightarrow> ('w, unit, unit) port"
  dq_inspect_bundle :: "string \<Rightarrow> ('w, unit, BundleSnapshotV1) port"
  dq_inspect_staged_layout :: "string \<Rightarrow> ('w, unit, LayoutSnapshotV1) port"
  dq_inspect_staged_service :: "string \<Rightarrow> ('w, unit, ServiceUnitSnapshotV1) port"
  dq_load_staged_authorization :: "string \<Rightarrow> ('w, unit, DeploymentAuthorizationV1) port"
  dq_load_staged_performance :: "string \<Rightarrow> ('w, unit, PerformanceEvidenceV1) port"
  dq_inspect_staged_prerequisites :: "string \<Rightarrow> ('w, unit, DeploymentPrerequisitesV1) port"
  dq_inspect_installed_ownership :: "('w, unit, InstalledOwnershipSnapshotV1) port"
  dq_inspect_installed_layout :: "('w, unit, LayoutSnapshotV1) port"
  dq_inspect_installed_service :: "('w, unit, ServiceUnitSnapshotV1) port"
  dq_load_installed_authorization :: "('w, unit, DeploymentAuthorizationV1) port"
  dq_load_installed_performance :: "('w, unit, PerformanceEvidenceV1) port"
  dq_inspect_installed_prerequisites :: "('w, unit, DeploymentPrerequisitesV1) port"
  dq_inspect_authorized_interface :: "DeploymentAuthorizationV1 \<Rightarrow> ('w, unit, DeploymentPlatformSnapshotV1) port"

datatype DeploymentServiceError = DsInvalidReport | DsInvalidClock

definition UNVERIFIED_COMMIT_SHA :: string where "UNVERIFIED_COMMIT_SHA = replicate 40 CHR ''0''"
definition UNVERIFIED_PACKAGE_VERSION :: string where "UNVERIFIED_PACKAGE_VERSION = ''unverified''"

definition DG_ARTIFACT_INVENTORY :: string where "DG_ARTIFACT_INVENTORY = ''DG_ARTIFACT_INVENTORY''"
definition DG_ARTIFACT_MANIFEST :: string where "DG_ARTIFACT_MANIFEST = ''DG_ARTIFACT_MANIFEST''"
definition DG_STAGING_ROOT :: string where "DG_STAGING_ROOT = ''DG_STAGING_ROOT''"
definition DG_LAYOUT_TYPE :: string where "DG_LAYOUT_TYPE = ''DG_LAYOUT_TYPE''"
definition DG_SYSTEMD_CONTRACT :: string where "DG_SYSTEMD_CONTRACT = ''DG_SYSTEMD_CONTRACT''"
definition DG_AUTH_SCHEMA :: string where "DG_AUTH_SCHEMA = ''DG_AUTH_SCHEMA''"
definition DG_AUTH_EXPIRED :: string where "DG_AUTH_EXPIRED = ''DG_AUTH_EXPIRED''"
definition DG_AUTH_ARTIFACT :: string where "DG_AUTH_ARTIFACT = ''DG_AUTH_ARTIFACT''"
definition DG_AUTH_IDENTITY :: string where "DG_AUTH_IDENTITY = ''DG_AUTH_IDENTITY''"
definition DG_INTERFACE_UNSUPPORTED :: string where "DG_INTERFACE_UNSUPPORTED = ''DG_INTERFACE_UNSUPPORTED''"
definition DG_XDP_NOT_EMPTY :: string where "DG_XDP_NOT_EMPTY = ''DG_XDP_NOT_EMPTY''"
definition DG_TC_NOT_EMPTY :: string where "DG_TC_NOT_EMPTY = ''DG_TC_NOT_EMPTY''"
definition DG_PLATFORM_BLOCKED :: string where "DG_PLATFORM_BLOCKED = ''DG_PLATFORM_BLOCKED''"
definition DG_EVIDENCE_ROOT :: string where "DG_EVIDENCE_ROOT = ''DG_EVIDENCE_ROOT''"

lemmas dg_codes = DG_ARTIFACT_INVENTORY_def DG_ARTIFACT_MANIFEST_def DG_STAGING_ROOT_def DG_LAYOUT_TYPE_def DG_SYSTEMD_CONTRACT_def
  DG_AUTH_SCHEMA_def DG_AUTH_EXPIRED_def DG_AUTH_ARTIFACT_def DG_AUTH_IDENTITY_def DG_INTERFACE_UNSUPPORTED_def DG_XDP_NOT_EMPTY_def
  DG_TC_NOT_EMPTY_def DG_PLATFORM_BLOCKED_def DG_EVIDENCE_ROOT_def

datatype GateSlot = SlotBundle | SlotLayout | SlotService | SlotAuthorization | SlotPlatform | SlotEvidence | SlotPerformance

definition gate_captured_at :: "'w DeploymentPorts \<Rightarrow> ('w, DeploymentServiceError, u64) port" where
  "gate_captured_at ports w =
     (case dq_wall_time ports w of
        (t, w) \<Rightarrow> (if t < 0 then Inl DsInvalidClock else ok_or DsInvalidClock (try_from_usize (nat t div 1000000)), w))"

definition authorization_failure :: "DeploymentAuthorizationV1 \<Rightarrow> DeploymentArtifactIdentityV1 \<Rightarrow> u64 \<Rightarrow> string option" where
  "authorization_failure authorization artifact now =
     (if \<not> is_ok (authorization_validate_at authorization now)
      then (if now < dz_issued_at_unix_ms authorization \<or> dz_expires_at_unix_ms authorization < now
            then Some DG_AUTH_EXPIRED else Some DG_AUTH_SCHEMA)
      else if dz_artifact_commit_sha authorization \<noteq> da_commit_sha artifact then Some DG_AUTH_ARTIFACT
      else if is_ok (authorization_validate_for authorization now artifact) then None else Some DG_AUTH_SCHEMA)"

definition performance_failure ::
  "PerformanceEvidenceV1 \<Rightarrow> DeploymentArtifactIdentityV1 \<Rightarrow> DeploymentHostCompatibilityV1 \<Rightarrow> u64 \<Rightarrow> string option" where
  "performance_failure performance artifact host now =
     (let result_code = (case pv_result performance of
                           PerfPassed \<Rightarrow> DG_PERFORMANCE_UNAVAILABLE | PerfFailed \<Rightarrow> DG_PERFORMANCE_REGRESSION
                         | PerfUnavailable \<Rightarrow> DG_PERFORMANCE_UNAVAILABLE)
      in case assess_for performance now artifact host of
           Inl _ \<Rightarrow> Some result_code
         | Inr assessment \<Rightarrow>
             (case pa_result assessment of
                PerfPassed \<Rightarrow> None | PerfFailed \<Rightarrow> Some DG_PERFORMANCE_REGRESSION | PerfUnavailable \<Rightarrow> Some DG_PERFORMANCE_UNAVAILABLE))"

definition staged_performance_failure :: "PerformanceEvidenceV1 \<Rightarrow> DeploymentArtifactIdentityV1 \<Rightarrow> u64 \<Rightarrow> string option" where
  "staged_performance_failure performance artifact now =
     (case host_new (pv_architecture performance) (pv_kernel_release performance) (pv_logical_cpu_count performance) of
        Inl _ \<Rightarrow> Some DG_PERFORMANCE_UNAVAILABLE
      | Inr host \<Rightarrow> performance_failure performance artifact host now)"

definition platform_identity_differs :: "DeploymentPlatformSnapshotV1 \<Rightarrow> DeploymentAuthorizationV1 \<Rightarrow> bool" where
  "platform_identity_differs platform authorization \<longleftrightarrow>
     (let authorized = dz_interface authorization; inspected = pr_interface (ps_preflight platform)
      in as_str (ps_interface_name platform) \<noteq> du_name authorized \<or> ps_ifindex platform \<noteq> du_ifindex authorized
         \<or> ps_mac_address_sha256 platform \<noteq> du_mac_address_sha256 authorized \<or> ps_driver platform \<noteq> du_driver authorized
         \<or> ps_device_identity_sha256 platform \<noteq> du_device_identity_sha256 authorized
         \<or> ps_network_namespace_sha256 platform \<noteq> du_network_namespace_sha256 authorized
         \<or> ps_administrative_up platform \<noteq> in_admin_up inspected \<or> ps_operational_up platform \<noteq> in_oper_up inspected
         \<or> ps_master_ifindex platform \<noteq> map_option rf_ifindex (in_master inspected)
         \<or> rf_name (in_requested inspected) \<noteq> ps_interface_name platform \<or> rf_ifindex (in_requested inspected) \<noteq> ps_ifindex platform)"

definition platform_blocked :: "DeploymentPlatformSnapshotV1 \<Rightarrow> bool" where
  "platform_blocked platform \<longleftrightarrow>
     (let preflight = ps_preflight platform; kern = pr_kernel preflight; bpf = pr_bpf preflight;
          blocker_codes = map pf_code (filter (\<lambda>finding. pf_severity finding = FsBlocker) (pr_findings preflight))
      in length blocker_codes \<noteq> 1 \<or> (case blocker_codes of [] \<Rightarrow> True | c # _ \<Rightarrow> c \<noteq> PF_LIVE_INTERFACE)
         \<or> ps_address_present platform \<or> ps_route_present platform \<or> ps_neighbor_present platform \<or> ps_service_present platform
         \<or> ps_other_consumer_present platform \<or> \<not> ps_capabilities_sufficient platform \<or> \<not> ps_native_xdp_driver_ready platform
         \<or> ps_receive_queue_count platform = 0 \<or> \<not> ps_offload_state_known platform \<or> \<not> ki_bpf_syscall kern \<or> \<not> ki_bpf_jit kern
         \<or> \<not> ki_btf_readable kern \<or> \<not> ki_tc_clsact kern \<or> \<not> bi_bpffs_mounted bpf \<or> \<not> bi_relevant_objects_enumerable bpf
         \<or> unwrap_or (ml_soft_bytes (bi_memlock bpf)) 0 < ml_required_bytes (bi_memlock bpf) \<and> \<not> ml_can_raise (bi_memlock bpf)
         \<or> ki_architecture kern \<noteq> dh_architecture (ps_host platform) \<or> ki_release kern \<noteq> dh_kernel_release (ps_host platform))"

definition platform_failure :: "DeploymentPlatformSnapshotV1 \<Rightarrow> DeploymentAuthorizationV1 \<Rightarrow> string option" where
  "platform_failure platform authorization =
     (let authorized = dz_interface authorization; preflight = ps_preflight platform; bpf = pr_bpf preflight
      in if platform_identity_differs platform authorization then Some DG_AUTH_IDENTITY
         else if ps_kind platform \<noteq> KindPhysical \<or> ps_kind platform \<noteq> du_kind authorized \<or> in_kind (pr_interface preflight) \<noteq> KindPhysical
                 \<or> \<not> ps_administrative_up platform \<or> \<not> ps_operational_up platform \<or> ps_master_ifindex platform \<noteq> None
                 \<or> in_bond (pr_interface preflight) \<noteq> None
         then Some DG_INTERFACE_UNSUPPORTED
         else if bi_xdp_native bpf \<noteq> AtEmpty \<or> bi_xdp_generic bpf \<noteq> AtEmpty then Some DG_XDP_NOT_EMPTY
         else if ps_tc_clsact_present platform \<or> bi_tc_ingress bpf \<noteq> [] \<or> bi_tc_egress bpf \<noteq> [] then Some DG_TC_NOT_EMPTY
         else if platform_blocked platform then Some DG_PLATFORM_BLOCKED
         else None)"

definition gate_summary :: "GateSlot \<Rightarrow> GateSlot \<Rightarrow> string \<Rightarrow> DeploymentGateSummaryV1" where
  "gate_summary slot candidate code =
     (if slot = candidate then \<lparr>gs_state = GateBlocked, gs_finding_codes = [code]\<rparr> else \<lparr>gs_state = GateNotApplicable, gs_finding_codes = []\<rparr>)"

definition blocked_gates :: "GateSlot \<Rightarrow> string \<Rightarrow> DeploymentGateSummariesV1" where
  "blocked_gates slot code =
     \<lparr>ga_bundle = gate_summary slot SlotBundle code, ga_layout = gate_summary slot SlotLayout code, ga_service = gate_summary slot SlotService code,
      ga_authorization = gate_summary slot SlotAuthorization code, ga_platform = gate_summary slot SlotPlatform code,
      ga_evidence = gate_summary slot SlotEvidence code, ga_performance = gate_summary slot SlotPerformance code\<rparr>"

definition gate_blocked_report ::
  "DeploymentCommandV1 \<Rightarrow> DeploymentArtifactIdentityV1 option \<Rightarrow> GateSlot \<Rightarrow> string \<Rightarrow> u64 \<Rightarrow> (DeploymentServiceError, DeploymentGateReportV1) result" where
  "gate_blocked_report command artifact slot code now =
     map_err DsInvalidReport
       (rbind (case artifact of Some artifact \<Rightarrow> Inr artifact | None \<Rightarrow> artifact_new UNVERIFIED_COMMIT_SHA UNVERIFIED_PACKAGE_VERSION) (\<lambda>artifact.
        rbind (deployment_finding_blocker code) (\<lambda>finding.
        report_derive command artifact None (blocked_gates slot code) [finding] None now)))"

text \<open>
  An early return is an error of the checks: the artifact to report, the gate and the code. \<open>or_block\<close> turns the
  failure of a reader into one, \<open>block_code\<close> a code that a check found.
\<close>

type_synonym gate_stop = "DeploymentArtifactIdentityV1 option \<times> GateSlot \<times> string"

definition or_block :: "gate_stop \<Rightarrow> ('w, unit, 'a) port \<Rightarrow> ('w, gate_stop, 'a) port" where
  "or_block stop p w = (case p w of (r, w) \<Rightarrow> (map_err stop r, w))"

definition block_when :: "bool \<Rightarrow> gate_stop \<Rightarrow> ('w, gate_stop, unit) port" where
  "block_when c stop = port_lift (if c then Inl stop else Inr ())"

definition block_code :: "DeploymentArtifactIdentityV1 option \<Rightarrow> GateSlot \<Rightarrow> string option \<Rightarrow> ('w, gate_stop, unit) port" where
  "block_code artifact slot code = port_lift (case code of None \<Rightarrow> Inr () | Some c \<Rightarrow> Inl (artifact, slot, c))"

definition run_gate ::
  "'w DeploymentPorts \<Rightarrow> DeploymentCommandV1 \<Rightarrow> (u64 \<Rightarrow> ('w, gate_stop, 'a) port) \<Rightarrow> (u64 \<Rightarrow> 'a \<Rightarrow> (DeploymentServiceError, DeploymentGateReportV1) result) \<Rightarrow>
   ('w, DeploymentServiceError, DeploymentGateReportV1) port" where
  "run_gate ports command checks finish =
     port_bind (gate_captured_at ports) (\<lambda>now w.
       case checks now w of
         (Inl (artifact, slot, code), w) \<Rightarrow> (gate_blocked_report command artifact slot code now, w)
       | (Inr a, w) \<Rightarrow> (finish now a, w))"

definition staging_checks :: "'w DeploymentPorts \<Rightarrow> string \<Rightarrow> string \<Rightarrow> u64 \<Rightarrow> ('w, gate_stop, DeploymentArtifactIdentityV1) port" where
  "staging_checks ports bundle_path staging_root now =
     port_bind (or_block (None, SlotLayout, DG_STAGING_ROOT) (dq_validate_staging_root ports staging_root)) (\<lambda>_.
     port_bind (or_block (None, SlotBundle, DG_ARTIFACT_INVENTORY) (dq_inspect_bundle ports bundle_path)) (\<lambda>bundle.
     let artifact = bs_artifact bundle in
     port_bind (block_when (\<not> is_ok (artifact_validate artifact)) (None, SlotBundle, DG_ARTIFACT_MANIFEST)) (\<lambda>_.
     port_bind (or_block (Some artifact, SlotLayout, DG_LAYOUT_TYPE) (dq_inspect_staged_layout ports staging_root)) (\<lambda>layout.
     port_bind (block_when (ly_artifact layout \<noteq> artifact) (Some artifact, SlotLayout, DG_ARTIFACT_MANIFEST)) (\<lambda>_.
     port_bind (or_block (Some artifact, SlotService, DG_SYSTEMD_CONTRACT) (dq_inspect_staged_service ports staging_root)) (\<lambda>service.
     port_bind (block_when (\<not> su_contract_valid service) (Some artifact, SlotService, DG_SYSTEMD_CONTRACT)) (\<lambda>_.
     port_bind (or_block (Some artifact, SlotAuthorization, DG_AUTH_SCHEMA) (dq_load_staged_authorization ports staging_root)) (\<lambda>authorization.
     port_bind (block_code (Some artifact) SlotAuthorization (authorization_failure authorization artifact now)) (\<lambda>_.
     port_bind (or_block (Some artifact, SlotPerformance, DG_PERFORMANCE_UNAVAILABLE) (dq_load_staged_performance ports staging_root)) (\<lambda>performance.
     port_bind (block_code (Some artifact) SlotPerformance (staged_performance_failure performance artifact now)) (\<lambda>_.
     port_bind (or_block (Some artifact, SlotEvidence, DG_EVIDENCE_ROOT) (dq_inspect_staged_prerequisites ports staging_root)) (\<lambda>prerequisites.
     port_bind (block_when (\<not> prerequisites_ready prerequisites) (Some artifact, SlotEvidence, DG_EVIDENCE_ROOT)) (\<lambda>_.
     port_return artifact)))))))))))))"

definition gate_staging :: "'w DeploymentPorts \<Rightarrow> string \<Rightarrow> string \<Rightarrow> ('w, DeploymentServiceError, DeploymentGateReportV1) port" where
  "gate_staging ports bundle_path staging_root =
     run_gate ports DcStaging (staging_checks ports bundle_path staging_root)
       (\<lambda>now artifact. map_err DsInvalidReport (report_derive DcStaging artifact None staging_passed [] None now))"

definition inspect_checks ::
  "'w DeploymentPorts \<Rightarrow> u64 \<Rightarrow> ('w, gate_stop, DeploymentArtifactIdentityV1 \<times> DeploymentAuthorizationV1 \<times> DeploymentPlatformSnapshotV1) port" where
  "inspect_checks ports now =
     port_bind (or_block (None, SlotLayout, DG_LAYOUT_TYPE) (dq_inspect_installed_ownership ports)) (\<lambda>ownership.
     port_bind (or_block (None, SlotLayout, DG_LAYOUT_TYPE) (dq_inspect_installed_layout ports)) (\<lambda>layout.
     let artifact = ly_artifact layout in
     port_bind (block_when (\<not> is_ok (artifact_validate artifact) \<or> artifact \<noteq> iw_artifact ownership) (None, SlotLayout, DG_ARTIFACT_MANIFEST)) (\<lambda>_.
     port_bind (or_block (Some artifact, SlotService, DG_SYSTEMD_CONTRACT) (dq_inspect_installed_service ports)) (\<lambda>service.
     port_bind (block_when (\<not> su_contract_valid service) (Some artifact, SlotService, DG_SYSTEMD_CONTRACT)) (\<lambda>_.
     port_bind (or_block (Some artifact, SlotAuthorization, DG_AUTH_SCHEMA) (dq_load_installed_authorization ports)) (\<lambda>authorization.
     port_bind (block_when (dz_authorization_id authorization \<noteq> iw_authorization_id ownership) (Some artifact, SlotAuthorization, DG_AUTH_IDENTITY)) (\<lambda>_.
     port_bind (block_code (Some artifact) SlotAuthorization (authorization_failure authorization artifact now)) (\<lambda>_.
     port_bind (or_block (Some artifact, SlotPerformance, DG_PERFORMANCE_UNAVAILABLE) (dq_load_installed_performance ports)) (\<lambda>performance.
     port_bind (or_block (Some artifact, SlotPlatform, DG_PLATFORM_BLOCKED) (dq_inspect_authorized_interface ports authorization)) (\<lambda>platform.
     port_bind (block_code (Some artifact) SlotPlatform (platform_failure platform authorization)) (\<lambda>_.
     port_bind (block_code (Some artifact) SlotPerformance (performance_failure performance artifact (ps_host platform) now)) (\<lambda>_.
     port_bind (or_block (Some artifact, SlotEvidence, DG_EVIDENCE_ROOT) (dq_inspect_installed_prerequisites ports)) (\<lambda>prerequisites.
     port_bind (block_when (\<not> prerequisites_ready prerequisites) (Some artifact, SlotEvidence, DG_EVIDENCE_ROOT)) (\<lambda>_.
     port_return (artifact, authorization, platform)))))))))))))))"

definition inspect_finish ::
  "u64 \<Rightarrow> DeploymentArtifactIdentityV1 \<times> DeploymentAuthorizationV1 \<times> DeploymentPlatformSnapshotV1 \<Rightarrow> (DeploymentServiceError, DeploymentGateReportV1) result" where
  "inspect_finish now = (\<lambda>(artifact, authorization, platform).
     map_err DsInvalidReport
       (rbind (interface_summary_new (as_str (ps_interface_name platform)) (ps_ifindex platform) (ps_kind platform) (ps_administrative_up platform)
          (ps_operational_up platform)) (\<lambda>iface.
        rbind (canary_plan_new authorization iface) (\<lambda>canary_plan.
        rbind (rfold (\<lambda>code fs. rbind (deployment_finding_warning code) (\<lambda>f. Inr (fs @ [f]))) WARNING_CODES []) (\<lambda>findings.
        report_derive DcInspect artifact (Some iface) inspect_passed findings (Some canary_plan) now)))))"

definition gate_inspect :: "'w DeploymentPorts \<Rightarrow> ('w, DeploymentServiceError, DeploymentGateReportV1) port" where
  "gate_inspect ports = run_gate ports DcInspect (inspect_checks ports) inspect_finish"

definition installed_checks :: "'w DeploymentPorts \<Rightarrow> u64 \<Rightarrow> ('w, gate_stop, DeploymentArtifactIdentityV1) port" where
  "installed_checks ports now =
     port_bind (or_block (None, SlotLayout, DG_LAYOUT_TYPE) (dq_inspect_installed_ownership ports)) (\<lambda>ownership.
     port_bind (or_block (Some (iw_artifact ownership), SlotLayout, DG_LAYOUT_TYPE) (dq_inspect_installed_layout ports)) (\<lambda>layout.
     let artifact = ly_artifact layout in
     port_bind (block_when (\<not> is_ok (artifact_validate artifact) \<or> artifact \<noteq> iw_artifact ownership)
       (Some artifact, SlotLayout, DG_ARTIFACT_MANIFEST)) (\<lambda>_.
     port_bind (or_block (Some artifact, SlotService, DG_SYSTEMD_CONTRACT) (dq_inspect_installed_service ports)) (\<lambda>service.
     port_bind (block_when (\<not> su_contract_valid service) (Some artifact, SlotService, DG_SYSTEMD_CONTRACT)) (\<lambda>_.
     port_bind (or_block (Some artifact, SlotAuthorization, DG_AUTH_SCHEMA) (dq_load_installed_authorization ports)) (\<lambda>authorization.
     port_bind (block_when (dz_authorization_id authorization \<noteq> iw_authorization_id ownership) (Some artifact, SlotAuthorization, DG_AUTH_IDENTITY)) (\<lambda>_.
     port_bind (block_code (Some artifact) SlotAuthorization (authorization_failure authorization artifact now)) (\<lambda>_.
     port_bind (or_block (Some artifact, SlotPerformance, DG_PERFORMANCE_UNAVAILABLE) (dq_load_installed_performance ports)) (\<lambda>performance.
     port_bind (block_code (Some artifact) SlotPerformance (staged_performance_failure performance artifact now)) (\<lambda>_.
     port_bind (or_block (Some artifact, SlotEvidence, DG_EVIDENCE_ROOT) (dq_inspect_installed_prerequisites ports)) (\<lambda>prerequisites.
     port_bind (block_when (\<not> prerequisites_ready prerequisites) (Some artifact, SlotEvidence, DG_EVIDENCE_ROOT)) (\<lambda>_.
     port_return artifact))))))))))))"

definition gate_installed :: "'w DeploymentPorts \<Rightarrow> ('w, DeploymentServiceError, DeploymentGateReportV1) port" where
  "gate_installed ports =
     run_gate ports DcInstalled (installed_checks ports)
       (\<lambda>now artifact. map_err DsInvalidReport (report_derive DcInstalled artifact None installed_passed [] None now))"

section \<open>Running checks\<close>

text \<open>
  \<open>checked P Q p\<close>: whatever the world, a stop of \<open>p\<close> satisfies \<open>P\<close> and a value satisfies \<open>Q\<close>.
  \<open>read_by p a\<close>: the reader \<open>p\<close> returned \<open>a\<close> at some time.
\<close>

definition checked :: "('e \<Rightarrow> bool) \<Rightarrow> ('a \<Rightarrow> bool) \<Rightarrow> ('w, 'e, 'a) port \<Rightarrow> bool" where
  "checked P Q p \<longleftrightarrow> (\<forall>w. case fst (p w) of Inl e \<Rightarrow> P e | Inr a \<Rightarrow> Q a)"

definition read_by :: "('w, 'e, 'a) port \<Rightarrow> 'a \<Rightarrow> bool" where
  "read_by p a \<longleftrightarrow> (\<exists>w w'. p w = (Inr a, w'))"

lemma checked_bind:
  assumes "checked P Q p" and "\<And>a. Q a \<Longrightarrow> checked P R (f a)"
  shows "checked P R (port_bind p f)"
  unfolding checked_def
proof
  fix w
  obtain r v where r: "p w = (r, v)" by (cases "p w")
  with assms(1) have "case r of Inl e \<Rightarrow> P e | Inr a \<Rightarrow> Q a" by (metis checked_def fst_conv)
  with r assms(2) show "case fst (port_bind p f w) of Inl e \<Rightarrow> P e | Inr a \<Rightarrow> R a"
    by (cases r) (auto simp: port_bind_def checked_def)
qed

lemma checked_read: "P stop \<Longrightarrow> checked P (read_by p) (or_block stop p)"
  by (auto simp: checked_def or_block_def read_by_def split: prod.split sum.split)

lemma checked_when: "(c \<Longrightarrow> P stop) \<Longrightarrow> checked P (\<lambda>_. \<not> c) (block_when c stop)"
  by (simp add: checked_def block_when_def port_lift_def)

lemma checked_code: "(\<And>c. code = Some c \<Longrightarrow> P (artifact, slot, c)) \<Longrightarrow> checked P (\<lambda>_. code = None) (block_code artifact slot code)"
  by (simp add: checked_def block_code_def port_lift_def split: option.split)

lemma checked_return: "R a \<Longrightarrow> checked P R (port_return a)"
  by (simp add: checked_def)

lemma checkedD:
  assumes "checked P Q p"
  shows "p w = (Inl e, w') \<Longrightarrow> P e" and "p w = (Inr a, w') \<Longrightarrow> Q a"
  using assms unfolding checked_def by (metis fst_conv sum.case)+

text \<open>Every code that a check gives is one a blocker may carry.\<close>

lemma blocker_codes [simp]:
  "DG_ARTIFACT_INVENTORY \<in> set BLOCKER_CODES" "DG_ARTIFACT_MANIFEST \<in> set BLOCKER_CODES" "DG_STAGING_ROOT \<in> set BLOCKER_CODES" "DG_LAYOUT_TYPE \<in> set BLOCKER_CODES"
  "DG_SYSTEMD_CONTRACT \<in> set BLOCKER_CODES" "DG_AUTH_SCHEMA \<in> set BLOCKER_CODES" "DG_AUTH_EXPIRED \<in> set BLOCKER_CODES" "DG_AUTH_ARTIFACT \<in> set BLOCKER_CODES"
  "DG_AUTH_IDENTITY \<in> set BLOCKER_CODES" "DG_INTERFACE_UNSUPPORTED \<in> set BLOCKER_CODES" "DG_XDP_NOT_EMPTY \<in> set BLOCKER_CODES" "DG_TC_NOT_EMPTY \<in> set BLOCKER_CODES"
  "DG_PLATFORM_BLOCKED \<in> set BLOCKER_CODES" "DG_EVIDENCE_ROOT \<in> set BLOCKER_CODES" "DG_PERFORMANCE_UNAVAILABLE \<in> set BLOCKER_CODES" "DG_PERFORMANCE_REGRESSION \<in> set BLOCKER_CODES"
  by (simp_all add: BLOCKER_CODES_def dg_codes)

lemma authorization_failure_code: "authorization_failure a artifact now = Some c \<Longrightarrow> c \<in> set BLOCKER_CODES"
  by (auto simp: authorization_failure_def split: if_splits)

lemma performance_failure_code:
  "performance_failure p artifact host now = Some c \<Longrightarrow> c \<in> set BLOCKER_CODES"
  "staged_performance_failure p artifact now = Some c \<Longrightarrow> c \<in> set BLOCKER_CODES"
  by (auto simp: staged_performance_failure_def performance_failure_def Let_def split: sum.splits PerformanceResultV1.splits)

lemma platform_failure_code: "platform_failure p a = Some c \<Longrightarrow> c \<in> set BLOCKER_CODES"
  by (auto simp: platform_failure_def Let_def split: if_splits)

definition good_stop :: "gate_stop \<Rightarrow> bool" where
  "good_stop = (\<lambda>(artifact, slot, code). code \<in> set BLOCKER_CODES \<and> (\<forall>a. artifact = Some a \<longrightarrow> artifact_validate a = Inr ()))"

lemma unverified_valid: "artifact_new UNVERIFIED_COMMIT_SHA UNVERIFIED_PACKAGE_VERSION = Inr \<lparr>da_commit_sha = UNVERIFIED_COMMIT_SHA, da_package_version = UNVERIFIED_PACKAGE_VERSION\<rparr>"
  by (simp add: artifact_new_def artifact_validate_def UNVERIFIED_COMMIT_SHA_def UNVERIFIED_PACKAGE_VERSION_def is_safe_text_def is_ascii_graphic_def
      is_hex_of_length_def is_lower_hex_def list_all_iff ascii_class_defs)

text \<open>What a blocked report says: one blocker, and the gate it belongs to.\<close>

definition blocked_by :: "DeploymentGateReportV1 \<Rightarrow> GateSlot \<Rightarrow> string \<Rightarrow> bool" where
  "blocked_by r slot code \<longleftrightarrow>
     dr_decision r = DdBlocked \<and> dr_findings r = [\<lparr>df_code = code, df_severity = DsBlocker\<rparr>] \<and> dr_gates r = blocked_gates slot code"

lemma blocked_gates_valid: "code \<in> set BLOCKER_CODES \<Longrightarrow> gates_validate (blocked_gates slot code) = Inr ()"
  by (cases slot) (simp_all add: gates_validate_def gates_all_def blocked_gates_def gate_summary_def gate_validate_def codes_are_sorted_unique_def Let_def)

lemma blocked_gates_prevent: "prevents_positive_decision (blocked_gates slot code)"
  by (cases slot) (simp_all add: prevents_positive_decision_def gates_all_def blocked_gates_def gate_summary_def gate_prevents_def)

lemma gate_blocked_report_ok:
  assumes "good_stop (artifact, slot, code)" and "now \<noteq> 0"
  shows "\<exists>r. gate_blocked_report command artifact slot code now = Inr r \<and> blocked_by r slot code"
proof -
  obtain a where a: "(case artifact of Some artifact \<Rightarrow> Inr artifact | None \<Rightarrow> artifact_new UNVERIFIED_COMMIT_SHA UNVERIFIED_PACKAGE_VERSION) = Inr a"
      "artifact_validate a = Inr ()"
    using assms(1) unverified_valid by (cases artifact) (auto simp: good_stop_def artifact_new_def rbind_Inr_conv Let_def)
  have code: "code \<in> set BLOCKER_CODES" using assms(1) by (simp add: good_stop_def)
  have "report_derive command a None (blocked_gates slot code) [\<lparr>df_code = code, df_severity = DsBlocker\<rparr>] None now =
      Inr \<lparr>dr_schema_version = DEPLOYMENT_SCHEMA_VERSION, dr_decision = DdBlocked, dr_artifact = a, dr_interface = None,
           dr_gates = blocked_gates slot code, dr_findings = [\<lparr>df_code = code, df_severity = DsBlocker\<rparr>], dr_canary_plan = None,
           dr_captured_at_unix_ms = now, dr_mutations_performed = False\<rparr>"
    using assms(2) a(2) code blocked_gates_valid [OF code] blocked_gates_prevent
    by (cases command) (simp_all add: report_derive_def deployment_finding_validate_def tidy_findings_def sort_dedup_def gate_decision_def)
  with a(1) code show ?thesis
    by (simp add: gate_blocked_report_def deployment_finding_blocker_def blocked_by_def)
qed

section \<open>What a passed check means\<close>

definition passed_performance :: "PerformanceEvidenceV1 \<Rightarrow> u64 \<Rightarrow> DeploymentArtifactIdentityV1 \<Rightarrow> DeploymentHostCompatibilityV1 \<Rightarrow> bool" where
  "passed_performance performance now artifact host \<longleftrightarrow>
     (\<exists>assessment. assess_for performance now artifact host = Inr assessment \<and> pa_result assessment = PerfPassed)"

lemma authorization_passes: "authorization_failure authorization artifact now = None \<longleftrightarrow> authorization_validate_for authorization now artifact = Inr ()"
  by (auto simp: authorization_failure_def authorization_validate_for_def is_ok_conv rbind_Inr_conv split: if_splits)

lemma performance_passes: "performance_failure performance artifact host now = None \<longleftrightarrow> passed_performance performance now artifact host"
  by (auto simp: performance_failure_def passed_performance_def Let_def split: sum.splits PerformanceResultV1.splits)

lemma staged_performance_passes:
  "staged_performance_failure performance artifact now = None \<longleftrightarrow> (\<exists>host. passed_performance performance now artifact host)"
proof -
  let ?h = "\<lparr>dh_architecture = pv_architecture performance, dh_kernel_release = pv_kernel_release performance, dh_logical_cpu_count = pv_logical_cpu_count performance\<rparr>"
  have "host = ?h \<and> host_validate host = Inr ()" if "passed_performance performance now artifact host" for host
    using that by (auto simp: passed_performance_def assess_for_def rbind_Inr_conv split: if_splits)
  then show ?thesis
    by (auto simp: staged_performance_failure_def host_new_def Let_def performance_passes rbind_Inr_conv split: sum.splits)
qed

text \<open>A host passes when it is the authorized one, its interface is a bare physical one, and nothing is attached or in use.\<close>

definition platform_fits :: "DeploymentPlatformSnapshotV1 \<Rightarrow> DeploymentAuthorizationV1 \<Rightarrow> bool" where
  "platform_fits platform authorization \<longleftrightarrow>
     as_str (ps_interface_name platform) = du_name (dz_interface authorization) \<and> ps_ifindex platform = du_ifindex (dz_interface authorization)
     \<and> ps_mac_address_sha256 platform = du_mac_address_sha256 (dz_interface authorization)
     \<and> ps_device_identity_sha256 platform = du_device_identity_sha256 (dz_interface authorization)
     \<and> ps_kind platform = KindPhysical \<and> ps_administrative_up platform \<and> ps_operational_up platform \<and> ps_master_ifindex platform = None
     \<and> bi_xdp_native (pr_bpf (ps_preflight platform)) = AtEmpty \<and> bi_xdp_generic (pr_bpf (ps_preflight platform)) = AtEmpty
     \<and> \<not> ps_tc_clsact_present platform \<and> bi_tc_ingress (pr_bpf (ps_preflight platform)) = [] \<and> bi_tc_egress (pr_bpf (ps_preflight platform)) = []
     \<and> map pf_code (filter (\<lambda>f. pf_severity f = FsBlocker) (pr_findings (ps_preflight platform))) = [PF_LIVE_INTERFACE]
     \<and> \<not> ps_address_present platform \<and> \<not> ps_route_present platform \<and> \<not> ps_neighbor_present platform \<and> \<not> ps_service_present platform
     \<and> \<not> ps_other_consumer_present platform \<and> ps_capabilities_sufficient platform \<and> ps_native_xdp_driver_ready platform"

lemma platform_passes:
  assumes "platform_failure platform authorization = None"
  shows "platform_fits platform authorization \<and> du_kind (dz_interface authorization) = KindPhysical"
proof -
  from assms have id: "\<not> platform_identity_differs platform authorization" and blocked: "\<not> platform_blocked platform"
    by (auto simp: platform_failure_def Let_def split: if_splits)
  have "map pf_code (filter (\<lambda>f. pf_severity f = FsBlocker) (pr_findings (ps_preflight platform))) = [PF_LIVE_INTERFACE]"
    using blocked by (cases "map pf_code (filter (\<lambda>f. pf_severity f = FsBlocker) (pr_findings (ps_preflight platform)))")
      (auto simp: platform_blocked_def Let_def)
  with assms id blocked show ?thesis
    by (simp add: platform_fits_def platform_failure_def platform_identity_differs_def platform_blocked_def Let_def split: if_splits)
qed

definition staging_earned :: "'w DeploymentPorts \<Rightarrow> string \<Rightarrow> string \<Rightarrow> u64 \<Rightarrow> DeploymentArtifactIdentityV1 \<Rightarrow> bool" where
  "staging_earned ports bundle_path staging_root now artifact \<longleftrightarrow>
     artifact_validate artifact = Inr ()
     \<and> (\<exists>bundle layout service authorization performance prerequisites host.
          read_by (dq_inspect_bundle ports bundle_path) bundle \<and> bs_artifact bundle = artifact
          \<and> read_by (dq_inspect_staged_layout ports staging_root) layout \<and> ly_artifact layout = artifact
          \<and> read_by (dq_inspect_staged_service ports staging_root) service \<and> su_contract_valid service
          \<and> read_by (dq_load_staged_authorization ports staging_root) authorization \<and> authorization_validate_for authorization now artifact = Inr ()
          \<and> read_by (dq_load_staged_performance ports staging_root) performance \<and> passed_performance performance now artifact host
          \<and> read_by (dq_inspect_staged_prerequisites ports staging_root) prerequisites \<and> prerequisites_ready prerequisites)"

text \<open>One rule per step of a command.\<close>

lemma read_then: "P stop \<Longrightarrow> (\<And>a. read_by p a \<Longrightarrow> checked P R (f a)) \<Longrightarrow> checked P R (port_bind (or_block stop p) f)"
  by (rule checked_bind [OF checked_read])

lemma when_then: "(c \<Longrightarrow> P stop) \<Longrightarrow> (\<not> c \<Longrightarrow> checked P R (f ())) \<Longrightarrow> checked P R (port_bind (block_when c stop) f)"
  by (rule checked_bind [OF checked_when]) auto

lemma code_then:
  "(\<And>c. code = Some c \<Longrightarrow> P (artifact, slot, c)) \<Longrightarrow> (code = None \<Longrightarrow> checked P R (f ())) \<Longrightarrow> checked P R (port_bind (block_code artifact slot code) f)"
  by (rule checked_bind [OF checked_code]) auto

lemmas gate_rules = read_then when_then code_then checked_return

lemma good_stop_none: "code \<in> set BLOCKER_CODES \<Longrightarrow> good_stop (None, slot, code)"
  by (simp add: good_stop_def)

lemma good_stop_some: "code \<in> set BLOCKER_CODES \<Longrightarrow> is_ok (artifact_validate a) \<Longrightarrow> good_stop (Some a, slot, code)"
  by (simp add: good_stop_def is_ok_conv)

lemmas stop_codes = authorization_failure_code performance_failure_code platform_failure_code

lemma staging_earnedI:
  assumes "artifact_validate (bs_artifact bundle) = Inr ()" "read_by (dq_inspect_bundle ports bundle_path) bundle"
    "read_by (dq_inspect_staged_layout ports staging_root) layout" "ly_artifact layout = bs_artifact bundle"
    "read_by (dq_inspect_staged_service ports staging_root) service" "su_contract_valid service"
    "read_by (dq_load_staged_authorization ports staging_root) authorization" "authorization_validate_for authorization now (bs_artifact bundle) = Inr ()"
    "read_by (dq_load_staged_performance ports staging_root) performance" "passed_performance performance now (bs_artifact bundle) host"
    "read_by (dq_inspect_staged_prerequisites ports staging_root) prerequisites" "prerequisites_ready prerequisites"
  shows "staging_earned ports bundle_path staging_root now (bs_artifact bundle)"
  using assms unfolding staging_earned_def by metis

lemma staging_checked: "checked good_stop (staging_earned ports bundle_path staging_root now) (staging_checks ports bundle_path staging_root now)"
  unfolding staging_checks_def Let_def
  by (intro gate_rules good_stop_none good_stop_some)
     (auto simp: authorization_passes staged_performance_passes is_ok_conv dest: stop_codes intro: staging_earnedI)

text \<open>What the checks of an installed product share: ownership, layout, service, authorization and prerequisites agree.\<close>

definition product_earned :: "'w DeploymentPorts \<Rightarrow> u64 \<Rightarrow> DeploymentArtifactIdentityV1 \<Rightarrow> DeploymentAuthorizationV1 \<Rightarrow> bool" where
  "product_earned ports now artifact authorization \<longleftrightarrow>
     artifact_validate artifact = Inr () \<and> authorization_validate_for authorization now artifact = Inr ()
     \<and> (\<exists>ownership layout service prerequisites.
          read_by (dq_inspect_installed_ownership ports) ownership \<and> iw_artifact ownership = artifact
          \<and> iw_authorization_id ownership = dz_authorization_id authorization
          \<and> read_by (dq_inspect_installed_layout ports) layout \<and> ly_artifact layout = artifact
          \<and> read_by (dq_inspect_installed_service ports) service \<and> su_contract_valid service
          \<and> read_by (dq_load_installed_authorization ports) authorization
          \<and> read_by (dq_inspect_installed_prerequisites ports) prerequisites \<and> prerequisites_ready prerequisites)"

lemma product_earnedI:
  assumes "artifact_validate artifact = Inr ()" "authorization_validate_for authorization now artifact = Inr ()"
    "read_by (dq_inspect_installed_ownership ports) ownership" "iw_artifact ownership = artifact"
    "dz_authorization_id authorization = iw_authorization_id ownership"
    "read_by (dq_inspect_installed_layout ports) layout" "ly_artifact layout = artifact"
    "read_by (dq_inspect_installed_service ports) service" "su_contract_valid service"
    "read_by (dq_load_installed_authorization ports) authorization"
    "read_by (dq_inspect_installed_prerequisites ports) prerequisites" "prerequisites_ready prerequisites"
  shows "product_earned ports now artifact authorization"
  using assms unfolding product_earned_def by metis

definition inspect_earned ::
  "'w DeploymentPorts \<Rightarrow> u64 \<Rightarrow> DeploymentArtifactIdentityV1 \<times> DeploymentAuthorizationV1 \<times> DeploymentPlatformSnapshotV1 \<Rightarrow> bool" where
  "inspect_earned ports now = (\<lambda>(artifact, authorization, platform).
     product_earned ports now artifact authorization
     \<and> read_by (dq_inspect_authorized_interface ports authorization) platform \<and> platform_fits platform authorization
     \<and> du_kind (dz_interface authorization) = KindPhysical
     \<and> (\<exists>performance. read_by (dq_load_installed_performance ports) performance \<and> passed_performance performance now artifact (ps_host platform)))"

lemma inspect_checked: "checked good_stop (inspect_earned ports now) (inspect_checks ports now)"
  unfolding inspect_checks_def Let_def
  by (intro gate_rules good_stop_none good_stop_some)
     (auto simp: inspect_earned_def product_earned_def authorization_passes performance_passes is_ok_conv dest: stop_codes platform_passes)

definition installed_earned :: "'w DeploymentPorts \<Rightarrow> u64 \<Rightarrow> DeploymentArtifactIdentityV1 \<Rightarrow> bool" where
  "installed_earned ports now artifact \<longleftrightarrow>
     (\<exists>authorization performance host. product_earned ports now artifact authorization
        \<and> read_by (dq_load_installed_performance ports) performance \<and> passed_performance performance now artifact host)"

text \<open>The check of an installed product may also stop with the artifact that it could not validate.\<close>

definition installed_stop :: "'w DeploymentPorts \<Rightarrow> gate_stop \<Rightarrow> bool" where
  "installed_stop ports = (\<lambda>(artifact, slot, code).
     good_stop (artifact, slot, code)
     \<or> (\<exists>a. artifact = Some a \<and> artifact_validate a \<noteq> Inr ()
          \<and> ((\<exists>ownership. read_by (dq_inspect_installed_ownership ports) ownership \<and> iw_artifact ownership = a)
              \<or> (\<exists>layout. read_by (dq_inspect_installed_layout ports) layout \<and> ly_artifact layout = a))))"

lemma installed_stop_good: "good_stop stop \<Longrightarrow> installed_stop ports stop"
  by (cases stop) (simp add: installed_stop_def)

lemma installed_earnedI:
  assumes "product_earned ports now artifact authorization" "read_by (dq_load_installed_performance ports) performance"
    "passed_performance performance now artifact host"
  shows "installed_earned ports now artifact"
  using assms unfolding installed_earned_def by metis

lemma installed_checked: "checked (installed_stop ports) (installed_earned ports now) (installed_checks ports now)"
  unfolding installed_checks_def Let_def
  by (intro gate_rules)
     (auto simp: authorization_passes staged_performance_passes is_ok_conv good_stop_def installed_stop_def
       dest: stop_codes intro: installed_earnedI [OF product_earnedI])

section \<open>The reports\<close>

lemma run_gate_at:
  assumes "gate_captured_at ports w = (Inr now, w1)"
  shows "run_gate ports command checks finish w =
     (case checks now w1 of
         (Inl (artifact, slot, code), w2) \<Rightarrow> (gate_blocked_report command artifact slot code now, w2)
       | (Inr a, w2) \<Rightarrow> (finish now a, w2))"
  using assms by (simp add: run_gate_def)

lemma staging_finish:
  assumes "artifact_validate artifact = Inr ()" and "now \<noteq> 0"
  shows "\<exists>r. report_derive DcStaging artifact None staging_passed [] None now = Inr r \<and> dr_decision r = DdStagingReady \<and> dr_artifact r = artifact"
    "\<exists>r. report_derive DcInstalled artifact None installed_passed [] None now = Inr r \<and> dr_decision r = DdInstalledVerified \<and> dr_artifact r = artifact"
  using assms staging_passed_valid
  by (simp_all add: report_derive_def tidy_findings_def sort_dedup_def has_blocker_finding_def gate_decision_def installed_passed_def is_installed_positive_def Let_def)

lemma inspect_passed_valid: "gates_validate inspect_passed = Inr () \<and> \<not> prevents_positive_decision inspect_passed \<and> is_inspect_positive inspect_passed"
  by (simp add: gates_validate_def gates_all_def inspect_passed_def gate_passed_def gate_validate_def codes_are_sorted_unique_def
      prevents_positive_decision_def gate_prevents_def is_inspect_positive_def)

lemma inspect_findings:
  "\<exists>fs. rfold (\<lambda>code fs. rbind (deployment_finding_warning code) (\<lambda>f. Inr (fs @ [f]))) WARNING_CODES [] = Inr fs
     \<and> (\<forall>f \<in> set fs. deployment_finding_validate f = Inr ()) \<and> \<not> has_blocker_finding fs"
  by (simp add: WARNING_CODES_def deployment_finding_warning_def deployment_finding_validate_def has_blocker_finding_def)

text \<open>An authorization that passes and a host that fits give an interface summary and a canary plan.\<close>

lemma canary_plan_given:
  assumes "authorization_validate_for authorization now artifact = Inr ()" and "platform_fits platform authorization" and "du_kind (dz_interface authorization) = KindPhysical"
  shows "\<exists>iface plan. interface_summary_new (as_str (ps_interface_name platform)) (ps_ifindex platform) (ps_kind platform) (ps_administrative_up platform)
        (ps_operational_up platform) = Inr iface \<and> interface_summary_validate iface = Inr () \<and> canary_plan_new authorization iface = Inr plan
      \<and> canary_plan_validate plan = Inr () \<and> cp_artifact_commit_sha plan = da_commit_sha artifact \<and> cp_interface plan = iface \<and> \<not> cp_executable plan"
proof -
  from assms(1) have auth: "authorization_validate_structure authorization = Inr ()" "dz_artifact_commit_sha authorization = da_commit_sha artifact"
    by (auto simp: authorization_validate_for_def authorization_validate_at_def rbind_Inr_conv split: if_splits)
  then have ids: "is_hex_of_length (dz_authorization_id authorization) 32" "is_hex_of_length (dz_artifact_commit_sha authorization) 40"
      "is_ok (interface_name_new (du_name (dz_interface authorization)))" "du_ifindex (dz_interface authorization) \<noteq> 0"
    by (auto simp: authorization_validate_structure_def authorized_interface_validate_def rbind_Inr_conv split: if_splits)
  let ?i = "\<lparr>ds_name = as_str (ps_interface_name platform), ds_ifindex = ps_ifindex platform, ds_kind = ps_kind platform, ds_administrative_state = LinkUp, ds_operational_state = LinkUp\<rparr>"
  have i: "interface_summary_validate ?i = Inr ()" using assms(2) ids by (simp add: interface_summary_validate_def platform_fits_def)
  moreover have "interface_summary_new (as_str (ps_interface_name platform)) (ps_ifindex platform) (ps_kind platform) (ps_administrative_up platform)
        (ps_operational_up platform) = Inr ?i"
    using i assms(2) by (simp add: interface_summary_new_def platform_fits_def Let_def)
  moreover have "\<exists>plan. canary_plan_new authorization ?i = Inr plan \<and> canary_plan_validate plan = Inr () \<and> cp_artifact_commit_sha plan = da_commit_sha artifact
      \<and> cp_interface plan = ?i \<and> \<not> cp_executable plan"
    using i assms(2,3) auth ids by (simp add: canary_plan_new_def platform_fits_def Let_def canary_plan_validate_def)
  ultimately show ?thesis by blast
qed

lemma inspect_finish_ok:
  assumes "inspect_earned ports now (artifact, authorization, platform)" and "now \<noteq> 0"
  shows "\<exists>r. inspect_finish now (artifact, authorization, platform) = Inr r \<and> dr_decision r = DdPhysicalCanaryReady \<and> dr_artifact r = artifact
      \<and> (\<exists>plan. dr_canary_plan r = Some plan \<and> \<not> cp_executable plan)"
proof -
  have e: "artifact_validate artifact = Inr ()" "authorization_validate_for authorization now artifact = Inr ()" "platform_fits platform authorization"
      "du_kind (dz_interface authorization) = KindPhysical"
    using assms(1) by (auto simp: inspect_earned_def product_earned_def)
  from canary_plan_given [OF e(2-4)] obtain iface plan where
    iface: "interface_summary_new (as_str (ps_interface_name platform)) (ps_ifindex platform) (ps_kind platform) (ps_administrative_up platform)
        (ps_operational_up platform) = Inr iface" "interface_summary_validate iface = Inr ()" and plan: "canary_plan_new authorization iface = Inr plan"
      "canary_plan_validate plan = Inr ()" "cp_artifact_commit_sha plan = da_commit_sha artifact" "cp_interface plan = iface" "\<not> cp_executable plan" by blast
  from inspect_findings obtain fs where
    fs: "rfold (\<lambda>code fs. rbind (deployment_finding_warning code) (\<lambda>f. Inr (fs @ [f]))) WARNING_CODES [] = Inr fs"
      "\<forall>f \<in> set fs. deployment_finding_validate f = Inr ()" "\<not> has_blocker_finding fs" by blast
  have "\<exists>r. report_derive DcInspect artifact (Some iface) inspect_passed fs (Some plan) now = Inr r \<and> dr_decision r = DdPhysicalCanaryReady
      \<and> dr_artifact r = artifact \<and> dr_canary_plan r = Some plan"
    unfolding report_derive_Inr using e(1) assms(2) inspect_passed_valid fs iface(2) plan
    by (intro exI [of _ "\<lparr>dr_schema_version = DEPLOYMENT_SCHEMA_VERSION, dr_decision = DdPhysicalCanaryReady, dr_artifact = artifact, dr_interface = Some iface,
        dr_gates = inspect_passed, dr_findings = tidy_findings fs, dr_canary_plan = Some plan, dr_captured_at_unix_ms = now, dr_mutations_performed = False\<rparr>"])
       (simp add: gate_decision_def)
  with iface(1) plan(1,5) fs(1) show ?thesis by (auto simp: inspect_finish_def)
qed

lemma run_gate_answers:
  assumes "gate_captured_at ports w = (Inr now, w1)" and "now \<noteq> 0" and "checked P Q (checks now)" and "\<And>stop. P stop \<Longrightarrow> good_stop stop \<or> E"
    and "\<And>a. Q a \<Longrightarrow> \<exists>r. finish now a = Inr r \<and> D r"
  shows "(\<exists>r w'. run_gate ports command checks finish w = (Inr r, w') \<and> (D r \<or> (\<exists>slot code. blocked_by r slot code \<and> code \<in> set BLOCKER_CODES))) \<or> E"
proof (cases "checks now w1")
  case (Pair x w2)
  note at = run_gate_at [OF assms(1), of command checks finish, unfolded Pair]
  show ?thesis
  proof (cases x)
    case (Inl stop)
    obtain artifact slot code where stop: "stop = (artifact, slot, code)" by (cases stop)
    from checkedD(1) [OF assms(3) Pair [unfolded Inl]] assms(4) have "good_stop (artifact, slot, code) \<or> E" by (simp add: stop)
    with gate_blocked_report_ok [OF _ assms(2), of artifact slot code command] show ?thesis
      using at Inl stop by (auto simp: good_stop_def)
  next
    case (Inr a)
    from checkedD(2) [OF assms(3) Pair [unfolded Inr]] assms(5) obtain r where "finish now a = Inr r \<and> D r" by blast
    with at Inr show ?thesis by auto
  qed
qed

lemma run_gate_positive:
  assumes "gate_captured_at ports w = (Inr now, w1)" and "checked P Q (checks now)" and "run_gate ports command checks finish w = (Inr r, w')" and "dr_decision r \<noteq> DdBlocked"
  shows "\<exists>a. Q a \<and> finish now a = Inr r"
proof (cases "checks now w1")
  case (Pair x w2)
  note at = run_gate_at [OF assms(1), of command checks finish, unfolded Pair]
  show ?thesis
  proof (cases x)
    case (Inl stop)
    obtain artifact slot code where stop: "stop = (artifact, slot, code)" by (cases stop)
    with at Inl assms(3) have "gate_blocked_report command artifact slot code now = Inr r" by simp
    then obtain a f where "report_derive command a None (blocked_gates slot code) [f] None now = Inr r"
      by (auto simp: gate_blocked_report_def rbind_Inr_conv)
    then have "dr_decision r = DdBlocked"
      unfolding report_derive_Inr using blocked_gates_prevent by (cases command) (simp_all add: gate_decision_def)
    with assms(4) show ?thesis by simp
  next
    case (Inr a)
    with checkedD(2) [OF assms(2) Pair [unfolded Inr]] at assms(3) show ?thesis by auto
  qed
qed



definition sample_authorized :: DeploymentAuthorizationV1 where
  "sample_authorized =
     \<lparr>dz_schema_version = 1, dz_authorization_id = replicate 32 CHR ''2'', dz_artifact_commit_sha = da_commit_sha sample_identity,
      dz_mode = ReadOnlyCanaryCandidate,
      dz_interface = \<lparr>du_name = ''eth0'', du_ifindex = 2, du_kind = KindPhysical, du_administrative_state = LinkUp, du_operational_state = LinkUp,
        du_master_ifindex = None, du_mac_address_sha256 = sample_digest, du_driver = ''ice'', du_device_identity_sha256 = sample_digest,
        du_network_namespace_sha256 = sample_digest, du_xdp_native = HookEmpty, du_xdp_generic = HookEmpty, du_tc_clsact = False,
        du_tc_ingress = [], du_tc_egress = []\<rparr>,
      dz_issued_at_unix_ms = 10, dz_expires_at_unix_ms = 20\<rparr>"

lemma sample_authorized_valid: "authorization_validate_for sample_authorized 15 sample_identity = Inr ()"
  by (simp add: authorization_validate_for_def authorization_validate_at_def authorization_validate_structure_def authorized_interface_validate_def
      sample_authorized_def checked_sub_def sample_identity_valid interface_name_new_def is_ascii_alphanumeric_def is_safe_text_def is_ascii_graphic_def
      ascii_class_defs)

lemma sample_passes: "passed_performance sample_performance 15 sample_identity sample_host"
proof -
  obtain a where a: "assess_structure sample_performance 15 = Inr a" "pa_result a = PerfPassed" using sample_assessed by blast
  have "host_validate sample_host = Inr ()" by (simp add: host_validate_def sample_host_def is_safe_text_def is_ascii_graphic_def)
  with a have "assess_for sample_performance 15 sample_identity sample_host = Inr a"
    by (simp add: assess_for_def sample_identity_valid) (simp add: sample_performance_def sample_host_def sample_identity_def)
  with a(2) show ?thesis by (auto simp: passed_performance_def)
qed

text \<open>Readers that all succeed, or all fail, at a fixed time.\<close>

definition sample_readers :: "bool \<Rightarrow> unit DeploymentPorts" where
  "sample_readers works =
     (let layout = \<lparr>ly_artifact = sample_identity, ly_files = [], ly_runtime_occupied = False\<rparr>
      in \<lparr>dq_wall_time = (\<lambda>w. (15000000, w)), dq_validate_staging_root = (\<lambda>_ w. (if works then Inr () else Inl (), w)),
          dq_inspect_bundle = (\<lambda>_ w. (if works then Inr \<lparr>bs_artifact = sample_identity, bs_files = []\<rparr> else Inl (), w)),
          dq_inspect_staged_layout = (\<lambda>_ w. (if works then Inr layout else Inl (), w)),
          dq_inspect_staged_service = (\<lambda>_ w. (if works then Inr \<lparr>su_contract_valid = True\<rparr> else Inl (), w)),
          dq_load_staged_authorization = (\<lambda>_ w. (if works then Inr sample_authorized else Inl (), w)),
          dq_load_staged_performance = (\<lambda>_ w. (if works then Inr sample_performance else Inl (), w)),
          dq_inspect_staged_prerequisites = (\<lambda>_ w. (if works then Inr \<lparr>dp_evidence_root_ready = True, dp_runtime_contract_ready = True\<rparr> else Inl (), w)),
          dq_inspect_installed_ownership = (\<lambda>w. (Inl (), w)), dq_inspect_installed_layout = (\<lambda>w. (Inl (), w)),
          dq_inspect_installed_service = (\<lambda>w. (Inl (), w)), dq_load_installed_authorization = (\<lambda>w. (Inl (), w)),
          dq_load_installed_performance = (\<lambda>w. (Inl (), w)), dq_inspect_installed_prerequisites = (\<lambda>w. (Inl (), w)),
          dq_inspect_authorized_interface = (\<lambda>_ w. (Inl (), w))\<rparr>)"

lemma sample_clock: "gate_captured_at (sample_readers works) () = (Inr 15, ())"
  by (simp add: gate_captured_at_def sample_readers_def try_from_usize_def Let_def)



end
