(* ===== verification/Protocol.thy ===== *)
theory Protocol
  imports EvidenceStore Sampling Preflight
begin

text \<open>
  The control protocol: the commands and results (\<open>l2-loop-core/src/command.rs\<close>), their frames
  (\<open>l2-loop-agent/src/protocol.rs\<close>), reading a frame from a byte stream (\<open>transport.rs\<close>) and the part of a
  connection between the socket and the dispatcher (\<open>daemon.rs\<close>). The JSON codec and the socket are parameters.
\<close>

unbundle bit_operations_syntax

section \<open>Definitions\<close>

datatype AgentCommand =
    AcPreflight InterfaceName
  | AcIsolatedAttach InterfaceName string
  | AcIsolatedDetach string
  | AcObserve InterfaceName
  | AcStatus "InterfaceName option"
  | AcProbe ProbeRequest
  | AcApplyPolicy PolicyRequest
  | AcDisablePolicy string
  | AcEvidenceList "InterfaceName option" u16 "string option"
  | AcEvidenceShow EventId

datatype AgentResult =
    ArPreflight PreflightReport
  | ArAccepted
  | ArObservation ObservationSnapshot
  | ArStatus "InterfaceStatus list"
  | ArProbe u64
  | ArPolicyApplied string
  | ArPolicyDisabled
  | ArEvidenceList EvidenceListPageV1
  | ArEvidence EvidenceDetailV1

definition PROTOCOL_VERSION :: u16 where [simp]: "PROTOCOL_VERSION = 1"
definition MAX_PAYLOAD_LEN :: nat where "MAX_PAYLOAD_LEN = 1024 * 1024"
definition ERROR_COMMAND_NOT_IMPLEMENTED :: string where "ERROR_COMMAND_NOT_IMPLEMENTED = ''COMMAND_NOT_IMPLEMENTED''"
definition ERROR_EARLY_EOF :: string where "ERROR_EARLY_EOF = ''EARLY_EOF''"
definition ERROR_INTERNAL :: string where "ERROR_INTERNAL = ''INTERNAL_ERROR''"
definition ERROR_INVALID_REQUEST :: string where "ERROR_INVALID_REQUEST = ''INVALID_REQUEST''"
definition ERROR_PAYLOAD_TOO_LARGE :: string where "ERROR_PAYLOAD_TOO_LARGE = ''PAYLOAD_TOO_LARGE''"
definition ERROR_REQUEST_TIMEOUT :: string where "ERROR_REQUEST_TIMEOUT = ''REQUEST_TIMEOUT''"
definition ERROR_RESPONSE_TOO_LARGE :: string where "ERROR_RESPONSE_TOO_LARGE = ''RESPONSE_TOO_LARGE''"
definition ERROR_TRANSPORT :: string where "ERROR_TRANSPORT = ''TRANSPORT_ERROR''"
definition ERROR_UNSUPPORTED_PROTOCOL_VERSION :: string where "ERROR_UNSUPPORTED_PROTOCOL_VERSION = ''UNSUPPORTED_PROTOCOL_VERSION''"

record ControlRequest =
  rq_protocol_version :: u16
  rq_command :: AgentCommand

definition control_request_new :: "AgentCommand \<Rightarrow> ControlRequest" where
  "control_request_new command = \<lparr>rq_protocol_version = PROTOCOL_VERSION, rq_command = command\<rparr>"

datatype ResponseBody = RbSuccess AgentResult | RbError string string

record ControlResponse =
  rs_protocol_version :: u16
  rs_body :: ResponseBody

definition response_success :: "AgentResult \<Rightarrow> ControlResponse" where
  "response_success result = \<lparr>rs_protocol_version = PROTOCOL_VERSION, rs_body = RbSuccess result\<rparr>"

definition response_error :: "string \<Rightarrow> string \<Rightarrow> ControlResponse" where
  "response_error code message = \<lparr>rs_protocol_version = PROTOCOL_VERSION, rs_body = RbError code message\<rparr>"

datatype ProtocolError = MissingLengthPrefix | PePayloadTooLarge nat nat | PeLengthMismatch nat nat | PeInvalidJson | PeUnsupportedVersion u16

text \<open>The JSON codec of a type: writing may fail, reading accepts or refuses.\<close>

record 'a Json =
  js_write :: "'a \<Rightarrow> u8 list option"
  js_read :: "u8 list \<Rightarrow> 'a option"

definition to_be_bytes :: "u32 \<Rightarrow> u8 list" where
  "to_be_bytes n = [ucast (drop_bit 24 n), ucast (drop_bit 16 n), ucast (drop_bit 8 n), ucast n]"

definition from_be_bytes :: "u8 \<Rightarrow> u8 \<Rightarrow> u8 \<Rightarrow> u8 \<Rightarrow> u32" where
  "from_be_bytes a b c d = push_bit 24 (ucast a) OR push_bit 16 (ucast b) OR push_bit 8 (ucast c) OR ucast d"

definition ensure_version :: "u16 \<Rightarrow> (ProtocolError, unit) result" where
  "ensure_version version = (if version = PROTOCOL_VERSION then Inr () else Inl (PeUnsupportedVersion version))"

definition encode_frame :: "'a Json \<Rightarrow> 'a \<Rightarrow> (ProtocolError, u8 list) result" where
  "encode_frame js value =
     rbind (ok_or PeInvalidJson (js_write js value)) (\<lambda>payload.
     if MAX_PAYLOAD_LEN < length payload then Inl (PePayloadTooLarge (length payload) MAX_PAYLOAD_LEN)
     else Inr (to_be_bytes (of_nat (length payload)) @ payload))"

definition decode_frame :: "'a Json \<Rightarrow> u8 list \<Rightarrow> (ProtocolError, 'a) result" where
  "decode_frame js frame =
     (case frame of
        a # b # c # d # payload \<Rightarrow>
          let declared = unat (from_be_bytes a b c d); actual = length payload
          in if MAX_PAYLOAD_LEN < declared then Inl (PePayloadTooLarge declared MAX_PAYLOAD_LEN)
             else if actual \<noteq> declared then Inl (PeLengthMismatch declared actual)
             else ok_or PeInvalidJson (js_read js payload)
      | _ \<Rightarrow> Inl MissingLengthPrefix)"

definition encode_request :: "ControlRequest Json \<Rightarrow> ControlRequest \<Rightarrow> (ProtocolError, u8 list) result" where
  "encode_request js request = rbind (ensure_version (rq_protocol_version request)) (\<lambda>_. encode_frame js request)"

definition decode_request :: "ControlRequest Json \<Rightarrow> u8 list \<Rightarrow> (ProtocolError, ControlRequest) result" where
  "decode_request js frame =
     rbind (decode_frame js frame) (\<lambda>request. rbind (ensure_version (rq_protocol_version request)) (\<lambda>_. Inr request))"

definition encode_response :: "ControlResponse Json \<Rightarrow> ControlResponse \<Rightarrow> (ProtocolError, u8 list) result" where
  "encode_response js response = rbind (ensure_version (rs_protocol_version response)) (\<lambda>_. encode_frame js response)"

definition decode_response :: "ControlResponse Json \<Rightarrow> u8 list \<Rightarrow> (ProtocolError, ControlResponse) result" where
  "decode_response js frame =
     rbind (decode_frame js frame) (\<lambda>response. rbind (ensure_version (rs_protocol_version response)) (\<lambda>_. Inr response))"

subsection \<open>Reading from the socket\<close>

datatype TransportError = EarlyEof nat nat | TePayloadTooLarge nat nat | TeIo

text \<open>One read of at most \<open>n\<close> bytes; nothing at all means the end of the stream.\<close>

type_synonym 'w byte_reader = "nat \<Rightarrow> ('w, unit, u8 list) port"

function read_bounded :: "'w byte_reader \<Rightarrow> nat \<Rightarrow> 'w \<Rightarrow> (unit, u8 list) result \<times> 'w" where
  "read_bounded rd n w =
     (if n = 0 then (Inr [], w)
      else
        (case rd n w of
           (Inl e, w) \<Rightarrow> (Inl e, w)
         | (Inr bytes, w) \<Rightarrow>
             if take n bytes = [] then (Inr [], w)
             else
               (case read_bounded rd (n - length (take n bytes)) w of
                  (Inl e, w) \<Rightarrow> (Inl e, w)
                | (Inr rest, w) \<Rightarrow> (Inr (take n bytes @ rest), w))))"
  by pat_completeness auto

termination
  by (relation "measure (\<lambda>(rd, n, w). n)") (auto simp: min_def)

declare read_bounded.simps [simp del]

definition LENGTH_PREFIX_LEN :: nat where [simp]: "LENGTH_PREFIX_LEN = 4"

definition read_frame :: "'w byte_reader \<Rightarrow> ('w, TransportError, u8 list) port" where
  "read_frame rd w =
     (case read_bounded rd LENGTH_PREFIX_LEN w of
        (Inl _, w) \<Rightarrow> (Inl TeIo, w)
      | (Inr prefix_bytes, w) \<Rightarrow>
          (case prefix_bytes of
             [a, b, c, d] \<Rightarrow>
               let declared = unat (from_be_bytes a b c d)
               in if MAX_PAYLOAD_LEN < declared then (Inl (TePayloadTooLarge declared MAX_PAYLOAD_LEN), w)
                  else
                    (case read_bounded rd declared w of
                       (Inl _, w) \<Rightarrow> (Inl TeIo, w)
                     | (Inr payload, w) \<Rightarrow>
                         if length payload \<noteq> declared then (Inl (EarlyEof declared (length payload)), w)
                         else (Inr (prefix_bytes @ payload), w))
           | _ \<Rightarrow> (Inl (EarlyEof LENGTH_PREFIX_LEN (length prefix_bytes)), w)))"

subsection \<open>A connection\<close>

fun transport_error_response :: "TransportError \<Rightarrow> ControlResponse" where
  "transport_error_response (EarlyEof _ _) = response_error ERROR_EARLY_EOF ''request frame ended early''"
| "transport_error_response (TePayloadTooLarge _ _) = response_error ERROR_PAYLOAD_TOO_LARGE ''request payload is too large''"
| "transport_error_response TeIo = response_error ERROR_TRANSPORT ''request transport failed''"

fun protocol_error_response :: "ProtocolError \<Rightarrow> ControlResponse" where
  "protocol_error_response (PeUnsupportedVersion _) = response_error ERROR_UNSUPPORTED_PROTOCOL_VERSION ''unsupported protocol version''"
| "protocol_error_response (PePayloadTooLarge _ _) = response_error ERROR_PAYLOAD_TOO_LARGE ''request payload is too large''"
| "protocol_error_response _ = response_error ERROR_INVALID_REQUEST ''request is malformed''"

text \<open>The handler acts on the daemon, the reader on the stream; both are parts of the state.\<close>

definition response_for ::
  "'w byte_reader \<Rightarrow> ControlRequest Json \<Rightarrow> (ControlRequest \<Rightarrow> 'd \<Rightarrow> ControlResponse \<times> 'd) \<Rightarrow> 'w \<times> 'd \<Rightarrow> ControlResponse \<times> 'w \<times> 'd" where
  "response_for rd js handler = (\<lambda>(w, d).
     case read_frame rd w of
       (Inl error, w) \<Rightarrow> (transport_error_response error, w, d)
     | (Inr frame, w) \<Rightarrow>
         (case decode_request js frame of
            Inl error \<Rightarrow> (protocol_error_response error, w, d)
          | Inr request \<Rightarrow> (case handler request d of (response, d) \<Rightarrow> (response, w, d))))"

text \<open>The frame of a response. \<open>None\<close> is the panic of \<open>expect\<close>.\<close>

definition encode_bounded_response :: "ControlResponse Json \<Rightarrow> ControlResponse \<Rightarrow> u8 list option" where
  "encode_bounded_response js response =
     (let expect = (\<lambda>r. case encode_response js r of Inr frame \<Rightarrow> Some frame | Inl _ \<Rightarrow> None)
      in case encode_response js response of
           Inr frame \<Rightarrow> Some frame
         | Inl (PePayloadTooLarge _ _) \<Rightarrow> expect (response_error ERROR_RESPONSE_TOO_LARGE ''response payload is too large'')
         | Inl _ \<Rightarrow> expect (response_error ERROR_INTERNAL ''response encoding failed''))"

section \<open>Frames\<close>

lemma from_to_be_bytes:
  "from_be_bytes (ucast (drop_bit 24 n)) (ucast (drop_bit 16 n)) (ucast (drop_bit 8 n)) (ucast n) = (n :: u32)"
  unfolding from_be_bytes_def
proof (rule bit_word_eqI)
  fix i
  assume "i < LENGTH(32)"
  then consider "i < 8" | "8 \<le> i" "i < 16" | "16 \<le> i" "i < 24" | "24 \<le> i" "i < 32" by fastforce
  then show "bit (push_bit 24 (ucast (ucast (drop_bit 24 n) :: u8)) OR push_bit 16 (ucast (ucast (drop_bit 16 n) :: u8))
      OR push_bit 8 (ucast (ucast (drop_bit 8 n) :: u8)) OR ucast (ucast n :: u8) :: u32) i = bit n i"
    by cases (auto simp: bit_simps)
qed

lemma unat_payload: "m \<le> MAX_PAYLOAD_LEN \<Longrightarrow> unat (of_nat m :: u32) = m"
  by (simp add: MAX_PAYLOAD_LEN_def unat_of_nat)

text \<open>A frame that was written: the length of the payload, then the payload.\<close>

lemma encode_frameD:
  assumes "encode_frame js v = Inr frame"
  obtains a b c d payload where "frame = a # b # c # d # payload" "js_write js v = Some payload" "length payload \<le> MAX_PAYLOAD_LEN"
    "unat (from_be_bytes a b c d) = length payload"
  using assms
  by (auto simp: encode_frame_def rbind_Inr_conv to_be_bytes_def from_to_be_bytes unat_payload
      split: option.splits if_splits)

definition json_roundtrip :: "'a Json \<Rightarrow> bool" where
  "json_roundtrip js \<longleftrightarrow> (\<forall>v bytes. js_write js v = Some bytes \<longrightarrow> js_read js bytes = Some v)"

lemma decode_encode_frame: "json_roundtrip js \<Longrightarrow> encode_frame js v = Inr frame \<Longrightarrow> decode_frame js frame = Inr v"
  by (erule encode_frameD) (simp add: decode_frame_def json_roundtrip_def)

lemma decode_encode_request: "json_roundtrip js \<Longrightarrow> encode_request js r = Inr frame \<Longrightarrow> decode_request js frame = Inr r"
  by (auto simp: encode_request_def decode_request_def rbind_Inr_conv dest: decode_encode_frame)

lemma decode_encode_response: "json_roundtrip js \<Longrightarrow> encode_response js r = Inr frame \<Longrightarrow> decode_response js frame = Inr r"
  by (auto simp: encode_response_def decode_response_def rbind_Inr_conv dest: decode_encode_frame)

section \<open>Reading\<close>

text \<open>
  \<open>pending\<close> gives the bytes a stream still delivers: a read takes a non-empty initial part of them, of any length that fits,
  and returns nothing only at the end.
\<close>

definition stream_reader :: "'w byte_reader \<Rightarrow> ('w \<Rightarrow> u8 list) \<Rightarrow> bool" where
  "stream_reader rd pending \<longleftrightarrow>
     (\<forall>n w. 0 < n \<longrightarrow> (\<exists>bytes w'. rd n w = (Inr bytes, w') \<and> length bytes \<le> n \<and> pending w = bytes @ pending w' \<and> (bytes = [] \<longrightarrow> pending w = [])))"

lemma read_bounded_stream:
  assumes "stream_reader rd pending"
  shows "\<exists>w'. read_bounded rd n w = (Inr (take n (pending w)), w') \<and> pending w' = drop n (pending w)"
proof (induction n arbitrary: w rule: less_induct)
  case (less n)
  show ?case
  proof (cases "n = 0")
    case True then show ?thesis by (simp add: read_bounded.simps)
  next
    case False
    then obtain bytes w' where r: "rd n w = (Inr bytes, w')" "length bytes \<le> n" "pending w = bytes @ pending w'" "bytes = [] \<longrightarrow> pending w = []"
      using assms [unfolded stream_reader_def, rule_format, of n w] by blast
    show ?thesis
    proof (cases "bytes = []")
      case True with r False show ?thesis by (subst read_bounded.simps) simp
    next
      case bytes: False
      then have "n - length bytes < n" using False by simp
      from less.IH [OF this] obtain w'' where "read_bounded rd (n - length bytes) w' = (Inr (take (n - length bytes) (pending w')), w'')"
          "pending w'' = drop (n - length bytes) (pending w')" by blast
      with r bytes False show ?thesis by (subst read_bounded.simps) simp
    qed
  qed
qed

text \<open>The frame at the head of a stream, without the reads.\<close>

definition first_frame :: "u8 list \<Rightarrow> (TransportError, u8 list) result" where
  "first_frame bytes =
     (case bytes of
        a # b # c # d # payload \<Rightarrow>
          let declared = unat (from_be_bytes a b c d)
          in if MAX_PAYLOAD_LEN < declared then Inl (TePayloadTooLarge declared MAX_PAYLOAD_LEN)
             else if length payload < declared then Inl (EarlyEof declared (length payload))
             else Inr (a # b # c # d # take declared payload)
      | _ \<Rightarrow> Inl (EarlyEof 4 (length bytes)))"

lemma short_prefix: "(case xs of a # b # c # d # r \<Rightarrow> False | _ \<Rightarrow> True) \<longleftrightarrow> length xs < 4"
  by (auto split: list.split)

lemma read_frame_stream:
  assumes "stream_reader rd pending"
  shows "\<exists>w'. read_frame rd w = (first_frame (pending w), w')
     \<and> (\<forall>frame. first_frame (pending w) = Inr frame \<longrightarrow> pending w = frame @ pending w')"
proof -
  obtain w1 where w1: "read_bounded rd 4 w = (Inr (take 4 (pending w)), w1)" "pending w1 = drop 4 (pending w)"
    using read_bounded_stream [OF assms] by blast
  show ?thesis
  proof (cases "length (pending w) < 4")
    case True
    then have "first_frame (pending w) = Inl (EarlyEof 4 (length (pending w)))"
      by (auto simp: first_frame_def split: list.split)
    moreover have "read_frame rd w = (Inl (EarlyEof 4 (length (pending w))), w1)"
      using True w1 by (auto simp: read_frame_def split: list.split)
    ultimately show ?thesis by simp
  next
    case False
    then obtain a b c d payload where p: "pending w = a # b # c # d # payload"
      by (auto simp: not_less numeral_eq_Suc Suc_le_length_iff)
    let ?n = "unat (from_be_bytes a b c d)"
    obtain w2 where w2: "read_bounded rd ?n w1 = (Inr (take ?n payload), w2)" "pending w2 = drop ?n payload"
      using read_bounded_stream [OF assms, of ?n w1] w1(2) p by auto
    show ?thesis
      using w1 w2 p by (auto simp: read_frame_def first_frame_def Let_def min_def)
  qed
qed

lemma first_frame_encoded:
  assumes "encode_frame js v = Inr frame"
  shows "first_frame (frame @ rest) = Inr frame" and "length frame \<le> 4 + MAX_PAYLOAD_LEN"
    and "n < length frame \<Longrightarrow> \<exists>k m. first_frame (take n frame) = Inl (EarlyEof k m) \<and> m < k"
proof -
  obtain a b c d payload where f: "frame = a # b # c # d # payload" "length payload \<le> MAX_PAYLOAD_LEN"
      "unat (from_be_bytes a b c d) = length payload"
    by (rule encode_frameD [OF assms])
  then show "first_frame (frame @ rest) = Inr frame" "length frame \<le> 4 + MAX_PAYLOAD_LEN"
    by (simp_all add: first_frame_def)
  show "\<exists>k m. first_frame (take n frame) = Inl (EarlyEof k m) \<and> m < k" if "n < length frame"
  proof (cases "n < 4")
    case True
    then consider "n = 0" | "n = 1" | "n = 2" | "n = 3" by linarith
    then show ?thesis using f by cases (auto simp: first_frame_def numeral_eq_Suc)
  next
    case False
    then obtain m where "n = 4 + m" by (metis le_Suc_ex not_less)
    then have "n = Suc (Suc (Suc (Suc m)))" by simp
    with f that show ?thesis by (simp add: first_frame_def)
  qed
qed

section \<open>Properties\<close>

text \<open>
  \<^bold>\<open>C20.\<close> However a stream cuts a request into reads, the frame that \<open>encode_request\<close> wrote is read whole, what
  follows it is left in the stream, and \<open>decode_request\<close> gives the request back. A stream that ends inside the frame is
  an early end with the number of bytes that are missing, never a shorter frame. A frame is at most 1 MiB and four bytes long.
\<close>

theorem frames_survive_any_chunking:
  assumes "stream_reader rd pending" and "json_roundtrip js" and "encode_request js request = Inr frame"
  shows "(\<forall>rest. pending w = frame @ rest \<longrightarrow> (\<exists>w'. read_frame rd w = (Inr frame, w') \<and> pending w' = rest))
     \<and> (\<forall>n. n < length frame \<and> pending w = take n frame \<longrightarrow>
          (\<exists>declared received w'. read_frame rd w = (Inl (EarlyEof declared received), w') \<and> received < declared))
     \<and> decode_request js frame = Inr request \<and> length frame \<le> 4 + MAX_PAYLOAD_LEN"
proof -
  from assms(3) have f: "encode_frame js request = Inr frame" by (auto simp: encode_request_def rbind_Inr_conv)
  obtain w' where r: "read_frame rd w = (first_frame (pending w), w')" "\<forall>frame. first_frame (pending w) = Inr frame \<longrightarrow> pending w = frame @ pending w'"
    using read_frame_stream [OF assms(1)] by blast
  show ?thesis
    using r first_frame_encoded [OF f] decode_encode_request [OF assms(2,3)] by auto
qed

definition a_request :: ControlRequest where
  "a_request = control_request_new (AcIsolatedDetach ''run-1'')"

definition a_request_json :: "ControlRequest Json" where
  "a_request_json = \<lparr>js_write = (\<lambda>r. if r = a_request then Some [123, 125] else None),
     js_read = (\<lambda>bytes. if bytes = [123, 125] then Some a_request else None)\<rparr>"

definition byte_by_byte :: "u8 list byte_reader" where
  "byte_by_byte n bytes = (Inr (take 1 bytes), drop 1 bytes)"

lemma byte_by_byte_stream: "stream_reader byte_by_byte id"
  by (auto simp: stream_reader_def byte_by_byte_def)

lemma a_request_frame: "encode_request a_request_json a_request = Inr [0, 0, 0, 2, 123, 125]"
  by (simp add: encode_request_def ensure_version_def a_request_def control_request_new_def encode_frame_def a_request_json_def
      to_be_bytes_def MAX_PAYLOAD_LEN_def)

theorem frames_survive_any_chunking_witness:
  "(\<exists>w'. read_frame byte_by_byte [0, 0, 0, 2, 123, 125, 9] = (Inr [0, 0, 0, 2, 123, 125], w') \<and> id w' = [9])
   \<and> decode_request a_request_json [0, 0, 0, 2, 123, 125] = Inr a_request"
proof -
  have "json_roundtrip a_request_json" by (simp add: json_roundtrip_def a_request_json_def)
  from frames_survive_any_chunking [OF byte_by_byte_stream this a_request_frame, of "[0, 0, 0, 2, 123, 125, 9]"] show ?thesis by simp
qed

text \<open>
  Whatever the reader does, a connection either hands one complete request of this protocol version to the
  handler and answers with its response, or leaves the handler's state alone and answers with an error.
\<close>

lemma decode_requestD:
  assumes "decode_request js frame = Inr request"
  shows "rq_protocol_version request = PROTOCOL_VERSION" and "js_read js (drop 4 frame) = Some request"
    and "4 \<le> length frame" and "length frame \<le> 4 + MAX_PAYLOAD_LEN"
  using assms
  by (auto simp: decode_request_def decode_frame_def rbind_Inr_conv ensure_version_def Let_def split: list.splits if_splits)

theorem only_whole_requests_reach_the_handler:
  "case response_for rd js handler (w, d) of (response, w', d') \<Rightarrow>
     (\<exists>frame request. read_frame rd w = (Inr frame, w') \<and> js_read js (drop 4 frame) = Some request
        \<and> rq_protocol_version request = PROTOCOL_VERSION \<and> handler request d = (response, d'))
     \<or> d' = d \<and> (\<exists>code message. response = response_error code message
          \<and> code \<in> {ERROR_EARLY_EOF, ERROR_PAYLOAD_TOO_LARGE, ERROR_TRANSPORT, ERROR_UNSUPPORTED_PROTOCOL_VERSION, ERROR_INVALID_REQUEST})"
proof -
  obtain r w1 where r: "read_frame rd w = (r, w1)" by (cases "read_frame rd w")
  show ?thesis
  proof (cases r)
    case (Inl e) with r show ?thesis by (cases e) (auto simp: response_for_def)
  next
    case (Inr frame)
    show ?thesis
    proof (cases "decode_request js frame")
      case (Inl e) with r Inr show ?thesis by (cases e) (auto simp: response_for_def)
    next
      case req: (Inr request)
      with r Inr decode_requestD [OF req] show ?thesis by (auto simp: response_for_def split: prod.split)
    qed
  qed
qed

text \<open>
  When the two fixed errors can be written, every response of this version has a frame, and the frame
  reads back as the response or as one of the two errors.
\<close>

definition writes_small :: "ControlResponse Json \<Rightarrow> ControlResponse \<Rightarrow> bool" where
  "writes_small js r \<longleftrightarrow> (\<exists>bytes. js_write js r = Some bytes \<and> length bytes \<le> MAX_PAYLOAD_LEN)"

lemma encode_error_small: "writes_small js (response_error code message) \<Longrightarrow> \<exists>frame. encode_response js (response_error code message) = Inr frame"
  by (auto simp: writes_small_def encode_response_def response_error_def ensure_version_def encode_frame_def)

theorem answers_always_fit:
  assumes "json_roundtrip js" and "writes_small js (response_error ERROR_RESPONSE_TOO_LARGE ''response payload is too large'')"
    and "writes_small js (response_error ERROR_INTERNAL ''response encoding failed'')"
  shows "\<exists>frame answer. encode_bounded_response js response = Some frame \<and> length frame \<le> 4 + MAX_PAYLOAD_LEN \<and> decode_response js frame = Inr answer
     \<and> (answer = response \<or> answer = response_error ERROR_RESPONSE_TOO_LARGE ''response payload is too large''
        \<or> answer = response_error ERROR_INTERNAL ''response encoding failed'')
     \<and> (rs_protocol_version response = PROTOCOL_VERSION \<and> writes_small js response \<longrightarrow> answer = response)"
proof -
  have fits: "length frame \<le> 4 + MAX_PAYLOAD_LEN" "decode_response js frame = Inr r" if "encode_response js r = Inr frame" for r frame
    using that first_frame_encoded(2) [of js r frame] decode_encode_response [OF assms(1) that] by (auto simp: encode_response_def rbind_Inr_conv)
  have ok: "\<exists>frame. encode_response js response = Inr frame" if "rs_protocol_version response = PROTOCOL_VERSION" "writes_small js response"
    using that by (auto simp: writes_small_def encode_response_def ensure_version_def encode_frame_def)
  obtain a b where ab: "encode_response js (response_error ERROR_RESPONSE_TOO_LARGE ''response payload is too large'') = Inr a"
      "encode_response js (response_error ERROR_INTERNAL ''response encoding failed'') = Inr b"
    using encode_error_small assms(2,3) by blast
  show ?thesis
  proof (cases "encode_response js response")
    case (Inr frame) with fits show ?thesis by (auto simp: encode_bounded_response_def Let_def)
  next
    case (Inl e)
    with ok have "\<not> (rs_protocol_version response = PROTOCOL_VERSION \<and> writes_small js response)" by fastforce
    with Inl ab fits [OF ab(1)] fits [OF ab(2)] show ?thesis by (cases e) (auto simp: encode_bounded_response_def Let_def)
  qed
qed

end
