(* ===== verification/Control.thy ===== *)
theory Control
  imports Protocol Attach Output
begin

text \<open>
  The daemon's control of one isolated session (\<open>l2-loop-agent/src/daemon.rs\<close>): attaching and detaching
  through the attachment transaction, sampling while the session is active, the requests that look at it,
  the queries of the evidence store, and the dispatcher that maps the commands of the protocol to them.
  The world of the kernel objects and journals belongs to the driver, the world of the readings and the
  clocks of the samples to the sampling service.
\<close>

section \<open>Definitions\<close>

subsection \<open>State and errors\<close>

record ActiveIsolatedSession =
  at_run_id :: RunId
  at_interface :: InterfaceName
  at_attachment :: AttachmentSession
  at_sampling_paused :: bool

record ('w, 'v, 's, 'b) TransactionIsolatedControl =
  tic_driver :: "'w AttachmentTransaction"
  tic_sampling :: "('v, 's) SamplingService"
  tic_incident_output :: "'b OutputWorker option"
  tic_active :: "ActiveIsolatedSession option"

text \<open>
  The transaction's ports, the journal that \<open>CanonicalOwnershipReader\<close> loads, the system time in nanoseconds
  since the epoch (negative before it), the sampling service's ports and a fresh source of event identifiers.
\<close>

record ('w, 'v, 's) ControlPorts =
  cp_attach :: "'w AttachPorts"
  cp_load :: "RunId \<Rightarrow> ('w, PortError, OwnershipRecord) port"
  cp_system_time :: "'w \<Rightarrow> int \<times> 'w"
  cp_sampling :: "('v, 's) SamplingPorts"
  cp_event_source :: 's

definition isolated_control_new :: "'w \<Rightarrow> 'v \<Rightarrow> ('w, 'v, 's, 'b) TransactionIsolatedControl" where
  "isolated_control_new w v =
     \<lparr>tic_driver = transaction_new w, tic_sampling = sampling_service_new v, tic_incident_output = None, tic_active = None\<rparr>"

definition with_incident_output :: "'b OutputWorker \<Rightarrow> ('w, 'v, 's, 'b) TransactionIsolatedControl \<Rightarrow> ('w, 'v, 's, 'b) TransactionIsolatedControl" where
  "with_incident_output output c = c\<lparr>tic_incident_output := Some output\<rparr>"

datatype IsolatedSamplingOutcome = SoIdle | SoSampled | SoRejected

record IsolatedControlError =
  ic_code :: string
  ic_blocked :: bool

definition control_blocked :: "string \<Rightarrow> IsolatedControlError" where
  "control_blocked code = \<lparr>ic_code = code, ic_blocked = True\<rparr>"

definition control_internal :: "string \<Rightarrow> IsolatedControlError" where
  "control_internal code = \<lparr>ic_code = code, ic_blocked = False\<rparr>"

definition attachment_control_error :: "AttachmentError \<Rightarrow> IsolatedControlError" where
  "attachment_control_error error =
     (if take 3 (ae_code error) = ''PF_'' then control_blocked (ae_code error) else control_internal (ae_code error))"

definition observation_control_error :: "ObservationError \<Rightarrow> IsolatedControlError" where
  "observation_control_error error = control_internal (oe_code error)"

definition parse_run_id :: "string \<Rightarrow> RunId option" where
  "parse_run_id value = (case run_id_parse value of Inr run_id \<Rightarrow> Some run_id | Inl _ \<Rightarrow> None)"

subsection \<open>Calls into the parts\<close>

definition load_journal :: "('w, 'v, 's) ControlPorts \<Rightarrow> RunId \<Rightarrow> (('w, 'v, 's, 'b) TransactionIsolatedControl, PortError, OwnershipRecord) port" where
  "load_journal ports run_id c =
     (case cp_load ports run_id (tr_world (tic_driver c)) of (r, w) \<Rightarrow> (r, c\<lparr>tic_driver := (tic_driver c)\<lparr>tr_world := w\<rparr>\<rparr>))"

definition sampling_call ::
  "(('v, 's) SamplingService, ObservationError, 'a) port \<Rightarrow> (('w, 'v, 's, 'b) TransactionIsolatedControl, IsolatedControlError, 'a) port" where
  "sampling_call call c =
     (case call (tic_sampling c) of
        (Inl e, s) \<Rightarrow> (Inl (observation_control_error e), c\<lparr>tic_sampling := s\<rparr>)
      | (Inr a, s) \<Rightarrow> (Inr a, c\<lparr>tic_sampling := s\<rparr>))"

definition canonical_ownership ::
  "('w, 'v, 's) ControlPorts \<Rightarrow> ActiveIsolatedSession \<Rightarrow> (('w, 'v, 's, 'b) TransactionIsolatedControl, IsolatedControlError, OwnershipRecord) port" where
  "canonical_ownership ports act c =
     (case load_journal ports (at_run_id act) c of
        (Inl _, c) \<Rightarrow> (Inl (control_internal OBS_OWNERSHIP_MISMATCH), c)
      | (Inr committed, c) \<Rightarrow>
          if committed \<noteq> ss_ownership (at_attachment act) then (Inl (control_internal OBS_OWNERSHIP_MISMATCH), c) else (Inr committed, c))"

definition flush_incident_jobs :: "('w, 'v, 's, 'b) TransactionIsolatedControl \<Rightarrow> ('w, 'v, 's, 'b) TransactionIsolatedControl" where
  "flush_incident_jobs c =
     (case take_incident_jobs (tic_sampling c) of
        (jobs, s) \<Rightarrow> c\<lparr>tic_sampling := s,
          tic_incident_output := map_option (fold (\<lambda>job output. snd (try_submit job output)) jobs) (tic_incident_output c)\<rparr>)"

subsection \<open>Control of the session\<close>

definition control_attach ::
  "('w, 'v, 's) ControlPorts \<Rightarrow> InterfaceName \<Rightarrow> RunId \<Rightarrow> (('w, 'v, 's, 'b) TransactionIsolatedControl, IsolatedControlError, unit) port" where
  "control_attach ports interface run_id c =
     (if tic_active c \<noteq> None then (Inl (control_blocked PF_OWNERSHIP_MISMATCH), c)
      else
        (case cp_system_time ports (tr_world (tic_driver c)) of
           (t, w) \<Rightarrow>
             let c = c\<lparr>tic_driver := (tic_driver c)\<lparr>tr_world := w\<rparr>\<rparr>
             in if t < 0 then (Inl (control_internal ''SYSTEM_CLOCK_INVALID''), c)
                else
                  (case transaction_execute (cp_attach ports) interface run_id (of_nat (nat t div 1000000000)) (tic_driver c) of
                     (Inl e, driver) \<Rightarrow> (Inl (attachment_control_error e), c\<lparr>tic_driver := driver\<rparr>)
                   | (Inr session, driver) \<Rightarrow>
                       port_bind (sampling_call (sampling_start (cp_sampling ports) (ss_ownership session))) (\<lambda>_.
                       port_bind (sampling_call (start_incident_generation interface (ss_ownership session) (cp_event_source ports))) (\<lambda>_ c.
                         (Inr (), c\<lparr>tic_active := Some \<lparr>at_run_id = run_id, at_interface = interface, at_attachment = session,
                            at_sampling_paused = False\<rparr>\<rparr>))) (c\<lparr>tic_driver := driver\<rparr>))))"

definition pause_session ::
  "('w, 'v, 's) ControlPorts \<Rightarrow> ActiveIsolatedSession \<Rightarrow> ('w, 'v, 's, 'b) TransactionIsolatedControl \<Rightarrow> ('w, 'v, 's, 'b) TransactionIsolatedControl" where
  "pause_session ports act c =
     (flush_incident_jobs (c\<lparr>tic_sampling := sampling_pause (cp_sampling ports) (tic_sampling c)\<rparr>))
       \<lparr>tic_active := Some (act\<lparr>at_sampling_paused := True\<rparr>)\<rparr>"

definition end_session :: "('w, 'v, 's) ControlPorts \<Rightarrow> ('w, 'v, 's, 'b) TransactionIsolatedControl \<Rightarrow> ('w, 'v, 's, 'b) TransactionIsolatedControl" where
  "end_session ports c =
     (let c = flush_incident_jobs (c\<lparr>tic_sampling := sampling_generation_ended (cp_sampling ports) (tic_sampling c)\<rparr>)
      in c\<lparr>tic_sampling := sampling_clear (tic_sampling c), tic_active := None\<rparr>)"

definition control_detach ::
  "('w, 'v, 's) ControlPorts \<Rightarrow> RunId \<Rightarrow> (('w, 'v, 's, 'b) TransactionIsolatedControl, IsolatedControlError, unit) port" where
  "control_detach ports run_id c =
     (case tic_active c of
        None \<Rightarrow> (Inl (control_blocked PF_OWNERSHIP_MISMATCH), c)
      | Some act \<Rightarrow>
          if at_run_id act \<noteq> run_id then (Inl (control_blocked PF_OWNERSHIP_MISMATCH), c)
          else
            (case load_journal ports run_id c of
               (Inl _, c) \<Rightarrow> (Inl (control_blocked PF_OWNERSHIP_MISMATCH), c)
             | (Inr committed, c) \<Rightarrow>
                 if committed \<noteq> ss_ownership (at_attachment act) then (Inl (control_blocked PF_OWNERSHIP_MISMATCH), c)
                 else
                   let c = pause_session ports act c
                   in (case detach_exact (cp_attach ports) (at_attachment act) (tic_driver c) of
                         (Inl e, driver) \<Rightarrow> (Inl (attachment_control_error e), c\<lparr>tic_driver := driver\<rparr>)
                       | (Inr _, driver) \<Rightarrow> (Inr (), end_session ports (c\<lparr>tic_driver := driver\<rparr>)))))"

definition control_sample_tick ::
  "('w, 'v, 's) ControlPorts \<Rightarrow> (('w, 'v, 's, 'b) TransactionIsolatedControl, IsolatedControlError, IsolatedSamplingOutcome) port" where
  "control_sample_tick ports c =
     (case tic_active c of
        None \<Rightarrow> (Inr SoIdle, c)
      | Some act \<Rightarrow>
          if at_sampling_paused act then (Inr SoRejected, c)
          else
            port_bind (canonical_ownership ports act) (\<lambda>ownership c.
              case sample_tick (cp_sampling ports) ownership (tic_sampling c) of
                (outcome, s) \<Rightarrow>
                  (Inr (case outcome of Sampled \<Rightarrow> SoSampled | Rejected \<Rightarrow> SoRejected), flush_incident_jobs (c\<lparr>tic_sampling := s\<rparr>))) c)"

definition control_observe ::
  "('w, 'v, 's) ControlPorts \<Rightarrow> InterfaceName \<Rightarrow> (('w, 'v, 's, 'b) TransactionIsolatedControl, IsolatedControlError, ObservationSnapshot) port" where
  "control_observe ports interface c =
     (case tic_active c of
        None \<Rightarrow> (Inl (control_internal ''OBS_SESSION_NOT_FOUND''), c)
      | Some act \<Rightarrow>
          port_bind (canonical_ownership ports act) (\<lambda>ownership.
          sampling_call (sampling_observe (cp_sampling ports) interface (at_interface act) ownership)) c)"

definition control_status ::
  "('w, 'v, 's) ControlPorts \<Rightarrow> InterfaceName option \<Rightarrow> (('w, 'v, 's, 'b) TransactionIsolatedControl, IsolatedControlError, InterfaceStatus list) port" where
  "control_status ports interface c =
     (case tic_active c of
        None \<Rightarrow> sampling_call (sampling_status_request (cp_sampling ports) interface None None) c
      | Some act \<Rightarrow>
          if is_some_and interface (\<lambda>requested. requested \<noteq> at_interface act) then (Inl (control_internal ''OBS_SESSION_NOT_FOUND''), c)
          else
            port_bind (canonical_ownership ports act) (\<lambda>ownership.
            port_bind (sampling_call (sampling_status_request (cp_sampling ports) interface (Some (at_interface act)) (Some ownership))) (\<lambda>statuses c.
              let health = (case tic_incident_output c of
                              None \<Rightarrow> output_health_unavailable ''OUTPUT_NOT_CONFIGURED'' | Some output \<Rightarrow> ow_health output);
                  incident = active_incident (tic_sampling c)
              in (Inr (map (\<lambda>status. status\<lparr>is_output_health := health, is_active_incident := incident\<rparr>) statuses), c))) c)"

definition control_shutdown :: "('w, 'v, 's) ControlPorts \<Rightarrow> (('w, 'v, 's, 'b) TransactionIsolatedControl, IsolatedControlError, unit) port" where
  "control_shutdown ports c = (case tic_active c of None \<Rightarrow> (Inr (), c) | Some act \<Rightarrow> control_detach ports (at_run_id act) c)"

subsection \<open>Queries of the evidence store\<close>

text \<open>A mutex: its value, or poisoned by a holder that panicked.\<close>

datatype 'a mutex = Guarded 'a | PoisonedLock

datatype EvidenceControlError = EcInvalidRequest | EcNotFound | EcUnavailable

definition map_evidence_error :: "EvidenceStoreError \<Rightarrow> EvidenceControlError" where
  "map_evidence_error error = (if error = StoreNotFound then EcNotFound else EcUnavailable)"

fun shared_list :: "'e LinuxEvidenceStore mutex \<Rightarrow> EvidenceListQuery \<Rightarrow> (EvidenceStoreError, EvidencePage) result" where
  "shared_list (Guarded store) query = Inr (store_list query store)"
| "shared_list PoisonedLock query = Inl StoreIo"

fun shared_get :: "'e LinuxEvidenceStore mutex \<Rightarrow> EventId \<Rightarrow> (EvidenceStoreError, EvidenceDetailV1) result" where
  "shared_get (Guarded store) event_id = store_get event_id store"
| "shared_get PoisonedLock event_id = Inl StoreIo"

definition map_failure :: "('e \<Rightarrow> 'f) \<Rightarrow> ('e, 'a) result \<Rightarrow> ('f, 'a) result" where
  "map_failure f r = (case r of Inl e \<Rightarrow> Inl (f e) | Inr a \<Rightarrow> Inr a)"

definition evidence_control_list ::
  "'e LinuxEvidenceStore mutex \<Rightarrow> InterfaceName option \<Rightarrow> u16 \<Rightarrow> string option \<Rightarrow> (EvidenceControlError, EvidenceListPageV1) result" where
  "evidence_control_list store interface limit cursor =
     rbind (case cursor of
              None \<Rightarrow> Inr None
            | Some value \<Rightarrow> (case cursor_parse_for value interface of Inl _ \<Rightarrow> Inl EcInvalidRequest | Inr cur \<Rightarrow> Inr (Some cur))) (\<lambda>cursor.
     rbind (map_err EcInvalidRequest (evidence_list_query_new interface (Some limit) cursor)) (\<lambda>query.
     rbind (map_failure map_evidence_error (shared_list store query)) (\<lambda>page.
     Inr \<lparr>ep_items = pg_items page, ep_next_cursor = map_option cursor_display (pg_next_cursor page)\<rparr>)))"

definition evidence_control_show :: "'e LinuxEvidenceStore mutex \<Rightarrow> EventId \<Rightarrow> (EvidenceControlError, EvidenceDetailV1) result" where
  "evidence_control_show store event_id = map_failure map_evidence_error (shared_get store event_id)"

subsection \<open>The dispatcher\<close>

definition EVIDENCE_INVALID_REQUEST :: string where "EVIDENCE_INVALID_REQUEST = ''EVIDENCE_INVALID_REQUEST''"
definition EVIDENCE_NOT_FOUND :: string where "EVIDENCE_NOT_FOUND = ''EVIDENCE_NOT_FOUND''"
definition EVIDENCE_UNAVAILABLE :: string where "EVIDENCE_UNAVAILABLE = ''EVIDENCE_UNAVAILABLE''"

record ('p, 'w, 'v, 's, 'b, 'e) DaemonDispatcher =
  dd_preflight :: "'p mutex"
  dd_isolated :: "('w, 'v, 's, 'b) TransactionIsolatedControl mutex option"
  dd_evidence :: "'e LinuxEvidenceStore mutex mutex option"

definition dispatcher_new :: "'p \<Rightarrow> ('p, 'w, 'v, 's, 'b, 'e) DaemonDispatcher" where
  "dispatcher_new preflight = \<lparr>dd_preflight = Guarded preflight, dd_isolated = None, dd_evidence = None\<rparr>"

definition dispatcher_with_isolated :: "'p \<Rightarrow> ('w, 'v, 's, 'b) TransactionIsolatedControl \<Rightarrow> ('p, 'w, 'v, 's, 'b, 'e) DaemonDispatcher" where
  "dispatcher_with_isolated preflight isolated =
     \<lparr>dd_preflight = Guarded preflight, dd_isolated = Some (Guarded isolated), dd_evidence = None\<rparr>"

definition dispatcher_with_controls ::
  "'p \<Rightarrow> ('w, 'v, 's, 'b) TransactionIsolatedControl \<Rightarrow> 'e LinuxEvidenceStore mutex \<Rightarrow> ('p, 'w, 'v, 's, 'b, 'e) DaemonDispatcher" where
  "dispatcher_with_controls preflight isolated evidence =
     \<lparr>dd_preflight = Guarded preflight, dd_isolated = Some (Guarded isolated), dd_evidence = Some (Guarded evidence)\<rparr>"

text \<open>
  A blocking task: it takes the lock and runs, or finds the lock poisoned. \<open>None\<close> is a task that panicked
  (\<open>JoinError\<close>); the operations of the model return, so a dispatched task never gives it.
\<close>

datatype IsolatedDispatchFailure = DfLock | DfControl IsolatedControlError

type_synonym ('e, 'a) joined = "('e, 'a) result option"

definition isolated_task ::
  "(('w, 'v, 's, 'b) TransactionIsolatedControl, IsolatedControlError, 'a) port \<Rightarrow> ('w, 'v, 's, 'b) TransactionIsolatedControl mutex \<Rightarrow>
   (IsolatedDispatchFailure, 'a) joined \<times> ('w, 'v, 's, 'b) TransactionIsolatedControl mutex" where
  "isolated_task call lock =
     (case lock of
        PoisonedLock \<Rightarrow> (Some (Inl DfLock), PoisonedLock)
      | Guarded control \<Rightarrow> (case call control of (r, control) \<Rightarrow> (Some (map_failure DfControl r), Guarded control)))"

definition isolated_response :: "(IsolatedDispatchFailure, unit) joined \<Rightarrow> ControlResponse" where
  "isolated_response controlled =
     (case controlled of
        Some (Inr _) \<Rightarrow> response_success ArAccepted
      | Some (Inl (DfControl error)) \<Rightarrow>
          if ic_blocked error then response_error (ic_code error) ''isolated attachment was blocked''
          else response_error (ic_code error) ''isolated control failed''
      | _ \<Rightarrow> response_error ERROR_INTERNAL ''isolated control failed'')"

definition observation_response :: "(IsolatedDispatchFailure, 'a) joined \<Rightarrow> ('a \<Rightarrow> AgentResult) \<Rightarrow> ControlResponse" where
  "observation_response controlled result =
     (case controlled of
        Some (Inr value) \<Rightarrow> response_success (result value)
      | Some (Inl (DfControl error)) \<Rightarrow> response_error (ic_code error) ''observation failed''
      | _ \<Rightarrow> response_error ERROR_INTERNAL ''observation failed'')"

definition evidence_task :: "('e LinuxEvidenceStore mutex \<Rightarrow> (EvidenceControlError, 'a) result) \<Rightarrow> 'e LinuxEvidenceStore mutex mutex \<Rightarrow> (EvidenceControlError, 'a) joined" where
  "evidence_task call lock = (case lock of PoisonedLock \<Rightarrow> Some (Inl EcUnavailable) | Guarded evidence \<Rightarrow> Some (call evidence))"

definition evidence_response :: "(EvidenceControlError, 'a) joined \<Rightarrow> ('a \<Rightarrow> AgentResult) \<Rightarrow> ControlResponse" where
  "evidence_response controlled success =
     (case controlled of
        Some (Inr value) \<Rightarrow> response_success (success value)
      | Some (Inl EcInvalidRequest) \<Rightarrow> response_error EVIDENCE_INVALID_REQUEST ''invalid bounded evidence query''
      | Some (Inl EcNotFound) \<Rightarrow> response_error EVIDENCE_NOT_FOUND ''evidence event was not found''
      | _ \<Rightarrow> response_error EVIDENCE_UNAVAILABLE ''evidence is unavailable'')"

text \<open>A command of the isolated control: refused with \<open>disabled\<close> when there is none, run under its lock otherwise.\<close>

definition on_isolated ::
  "string \<Rightarrow> (('w, 'v, 's, 'b) TransactionIsolatedControl, IsolatedControlError, 'a) port \<Rightarrow> ((IsolatedDispatchFailure, 'a) joined \<Rightarrow> ControlResponse) \<Rightarrow>
   ('p, 'w, 'v, 's, 'b, 'e) DaemonDispatcher \<Rightarrow> ControlResponse \<times> ('p, 'w, 'v, 's, 'b, 'e) DaemonDispatcher" where
  "on_isolated disabled call respond d =
     (case dd_isolated d of
        None \<Rightarrow> (response_error ERROR_COMMAND_NOT_IMPLEMENTED disabled, d)
      | Some lock \<Rightarrow> (case isolated_task call lock of (controlled, lock) \<Rightarrow> (respond controlled, d\<lparr>dd_isolated := Some lock\<rparr>)))"

definition on_evidence ::
  "('e LinuxEvidenceStore mutex \<Rightarrow> (EvidenceControlError, 'a) result) \<Rightarrow> ('a \<Rightarrow> AgentResult) \<Rightarrow> ('p, 'w, 'v, 's, 'b, 'e) DaemonDispatcher \<Rightarrow> ControlResponse" where
  "on_evidence call success d =
     (case dd_evidence d of
        None \<Rightarrow> response_error EVIDENCE_UNAVAILABLE ''evidence is unavailable''
      | Some lock \<Rightarrow> evidence_response (evidence_task call lock) success)"

definition dispatch_preflight ::
  "(InterfaceName \<Rightarrow> ('p, PortError, PreflightReport) port) \<Rightarrow> InterfaceName \<Rightarrow> ('p, 'w, 'v, 's, 'b, 'e) DaemonDispatcher \<Rightarrow>
   ControlResponse \<times> ('p, 'w, 'v, 's, 'b, 'e) DaemonDispatcher" where
  "dispatch_preflight inspect interface d =
     (case dd_preflight d of
        PoisonedLock \<Rightarrow> (response_error ERROR_INTERNAL ''preflight inspection failed'', d)
      | Guarded p \<Rightarrow>
          (case preflight_execute inspect interface p of
             (Inr report, p) \<Rightarrow> (response_success (ArPreflight report), d\<lparr>dd_preflight := Guarded p\<rparr>)
           | (Inl _, p) \<Rightarrow> (response_error ERROR_INTERNAL ''preflight inspection failed'', d\<lparr>dd_preflight := Guarded p\<rparr>)))"

definition dispatch ::
  "(InterfaceName \<Rightarrow> ('p, PortError, PreflightReport) port) \<Rightarrow> ('w, 'v, 's) ControlPorts \<Rightarrow> ControlRequest \<Rightarrow>
   ('p, 'w, 'v, 's, 'b, 'e) DaemonDispatcher \<Rightarrow> ControlResponse \<times> ('p, 'w, 'v, 's, 'b, 'e) DaemonDispatcher" where
  "dispatch inspect ports request d =
     (case rq_command request of
        AcPreflight interface \<Rightarrow> dispatch_preflight inspect interface d
      | AcIsolatedAttach interface run_id \<Rightarrow>
          (case parse_run_id run_id of
             None \<Rightarrow> (response_error ERROR_INVALID_REQUEST ''invalid isolated run ID'', d)
           | Some run_id \<Rightarrow> on_isolated ''isolated control is not enabled'' (control_attach ports interface run_id) isolated_response d)
      | AcIsolatedDetach run_id \<Rightarrow>
          (case parse_run_id run_id of
             None \<Rightarrow> (response_error ERROR_INVALID_REQUEST ''invalid isolated run ID'', d)
           | Some run_id \<Rightarrow> on_isolated ''isolated control is not enabled'' (control_detach ports run_id) isolated_response d)
      | AcObserve interface \<Rightarrow>
          on_isolated ''command is not implemented'' (control_observe ports interface) (\<lambda>r. observation_response r ArObservation) d
      | AcStatus interface \<Rightarrow>
          on_isolated ''command is not implemented'' (control_status ports interface) (\<lambda>r. observation_response r ArStatus) d
      | AcEvidenceList interface limit cursor \<Rightarrow>
          (on_evidence (\<lambda>store. evidence_control_list store interface limit cursor) ArEvidenceList d, d)
      | AcEvidenceShow event_id \<Rightarrow> (on_evidence (\<lambda>store. evidence_control_show store event_id) ArEvidence d, d)
      | _ \<Rightarrow> (response_error ERROR_COMMAND_NOT_IMPLEMENTED ''command is not implemented'', d))"

subsection \<open>The daemon\<close>

datatype DaemonError = InvalidParent | UnsafeParentOwner | UnsafeParentPermissions | SocketPathNotSocket | SocketInUse | IsolatedCleanup
  | Sampler | InvalidAcceptanceFault | DaemonIo string

definition shutdown_isolated ::
  "('w, 'v, 's) ControlPorts \<Rightarrow> (('p, 'w, 'v, 's, 'b, 'e) DaemonDispatcher, IsolatedControlError, unit) port" where
  "shutdown_isolated ports d =
     (case dd_isolated d of
        None \<Rightarrow> (Inr (), d)
      | Some PoisonedLock \<Rightarrow> (Inl (control_internal ''ISOLATED_CONTROL_LOCK''), d)
      | Some (Guarded control) \<Rightarrow> (case control_shutdown ports control of (r, control) \<Rightarrow> (r, d\<lparr>dd_isolated := Some (Guarded control)\<rparr>)))"

definition sample_isolated ::
  "('w, 'v, 's) ControlPorts \<Rightarrow> (('p, 'w, 'v, 's, 'b, 'e) DaemonDispatcher, DaemonError, IsolatedSamplingOutcome) port" where
  "sample_isolated ports d =
     (case dd_isolated d of
        None \<Rightarrow> (Inr SoIdle, d)
      | Some PoisonedLock \<Rightarrow> (Inl Sampler, d)
      | Some (Guarded control) \<Rightarrow> (case control_sample_tick ports control of (r, control) \<Rightarrow> (map_err Sampler r, d\<lparr>dd_isolated := Some (Guarded control)\<rparr>)))"

text \<open>
  How the daemon ends: which of the signal, the server and the sampler came first, what the server and the
  sampler returned (\<open>None\<close>: the sampler's task panicked), and then the cleanup of the session.
\<close>

datatype FirstExit = FxSignal | FxServer | FxSampler

definition coordinate_daemon ::
  "('w, 'v, 's) ControlPorts \<Rightarrow> FirstExit \<Rightarrow> (DaemonError, unit) result \<Rightarrow> (DaemonError, unit) joined \<Rightarrow>
   (('p, 'w, 'v, 's, 'b, 'e) DaemonDispatcher, DaemonError, unit) port" where
  "coordinate_daemon ports first server_result sampler_result d =
     (let sampler_exited_first = (first = FxSampler)
      in case shutdown_isolated ports d of
           (r, d) \<Rightarrow>
             let cleanup_result = map_err IsolatedCleanup r
             in (case sampler_result of
                   Some (Inr _) \<Rightarrow>
                     if \<not> sampler_exited_first then (rbind server_result (\<lambda>_. cleanup_result), d) else (Inl Sampler, d)
                 | _ \<Rightarrow> (Inl Sampler, d)))"

section \<open>The control as a machine\<close>

datatype ControlOp = CtAttach InterfaceName RunId | CtDetach RunId | CtTick | CtObserve InterfaceName | CtStatus "InterfaceName option" | CtShutdown

definition control_step ::
  "('w, 'v, 's) ControlPorts \<Rightarrow> ('w, 'v, 's, 'b) TransactionIsolatedControl \<Rightarrow> ControlOp \<Rightarrow> ('w, 'v, 's, 'b) TransactionIsolatedControl" where
  "control_step ports c op =
     (case op of
        CtAttach interface run_id \<Rightarrow> snd (control_attach ports interface run_id c)
      | CtDetach run_id \<Rightarrow> snd (control_detach ports run_id c)
      | CtTick \<Rightarrow> snd (control_sample_tick ports c)
      | CtObserve interface \<Rightarrow> snd (control_observe ports interface c)
      | CtStatus interface \<Rightarrow> snd (control_status ports interface c)
      | CtShutdown \<Rightarrow> snd (control_shutdown ports c))"

text \<open>The parts that an operation leaves alone.\<close>

lemma load_keeps [simp]:
  "tic_sampling (snd (load_journal ports r c)) = tic_sampling c" "tic_active (snd (load_journal ports r c)) = tic_active c"
  "tic_incident_output (snd (load_journal ports r c)) = tic_incident_output c"
  "tr_world (tic_driver (snd (load_journal ports r c))) = snd (cp_load ports r (tr_world (tic_driver c)))"
  by (simp_all add: load_journal_def split: prod.split)

lemma canonical_loads: "snd (canonical_ownership ports act c) = snd (load_journal ports (at_run_id act) c)"
  by (auto simp: canonical_ownership_def split: prod.split sum.split)

lemma canonical_keeps [simp]:
  "tic_sampling (snd (canonical_ownership ports act c)) = tic_sampling c" "tic_active (snd (canonical_ownership ports act c)) = tic_active c"
  "tic_incident_output (snd (canonical_ownership ports act c)) = tic_incident_output c"
  "tr_world (tic_driver (snd (canonical_ownership ports act c))) = snd (cp_load ports (at_run_id act) (tr_world (tic_driver c)))"
  by (simp_all add: canonical_loads)

lemma sampling_call_keeps [simp]:
  "tic_driver (snd (sampling_call f c)) = tic_driver c" "tic_active (snd (sampling_call f c)) = tic_active c"
  "tic_incident_output (snd (sampling_call f c)) = tic_incident_output c" "tic_sampling (snd (sampling_call f c)) = snd (f (tic_sampling c))"
  by (simp_all add: sampling_call_def split: prod.split sum.split)

lemma flush_keeps [simp]:
  "tic_driver (flush_incident_jobs c) = tic_driver c" "tic_active (flush_incident_jobs c) = tic_active c"
  "tic_sampling (flush_incident_jobs c) = snd (take_incident_jobs (tic_sampling c))"
  by (simp_all add: flush_incident_jobs_def split: prod.split)

lemma pause_keeps [simp]:
  "tic_driver (pause_session ports act c) = tic_driver c" "tic_active (pause_session ports act c) = Some (act\<lparr>at_sampling_paused := True\<rparr>)"
  by (simp_all add: pause_session_def)

lemma end_keeps [simp]: "tic_driver (end_session ports c) = tic_driver c" "tic_active (end_session ports c) = None"
  by (simp_all add: end_session_def Let_def)

section \<open>The session's share of the kernel\<close>

abbreviation holds :: "('w \<Rightarrow> Resource set) \<Rightarrow> ('w, 'v, 's, 'b) TransactionIsolatedControl \<Rightarrow> Resource set" where
  "holds ledger c \<equiv> ledger (tr_world (tic_driver c))"

text \<open>Loading a journal and reading the time take nothing and give nothing.\<close>

definition quiet_ports :: "('w, 'v, 's) ControlPorts \<Rightarrow> ('w \<Rightarrow> Resource set) \<Rightarrow> bool" where
  "quiet_ports ports ledger \<longleftrightarrow>
     honest_ports (cp_attach ports) ledger \<and> (\<forall>r. looks ledger (cp_load ports r)) \<and> (\<forall>w. ledger (snd (cp_system_time ports w)) = ledger w)"

text \<open>
  What was there at the start is there; beside it there is nothing without a session, the session's things
  with one, and what a detach left of them once it was tried.
\<close>

definition kept_apart :: "('w \<Rightarrow> Resource set) \<Rightarrow> Resource set \<Rightarrow> ('w, 'v, 's, 'b) TransactionIsolatedControl \<Rightarrow> bool" where
  "kept_apart ledger l0 c \<longleftrightarrow> l0 \<subseteq> holds ledger c \<and> (\<forall>act. tic_active c = Some act \<longrightarrow> l0 \<inter> session_things (at_attachment act) = {})"

definition accounted :: "('w \<Rightarrow> Resource set) \<Rightarrow> Resource set \<Rightarrow> ('w, 'v, 's, 'b) TransactionIsolatedControl \<Rightarrow> bool" where
  "accounted ledger l0 c \<longleftrightarrow> kept_apart ledger l0 c
     \<and> (case tic_active c of
          None \<Rightarrow> holds ledger c = l0
        | Some act \<Rightarrow> holds ledger c \<subseteq> l0 \<union> session_things (at_attachment act)
            \<and> (\<not> at_sampling_paused act \<longrightarrow> holds ledger c = l0 \<union> session_things (at_attachment act)))"

text \<open>An attach that strands something: its rollback was not complete, or the driver attached and the sampling service did not start.\<close>

definition strands :: "('w, 'v, 's) ControlPorts \<Rightarrow> ('w, 'v, 's, 'b) TransactionIsolatedControl \<Rightarrow> ControlOp \<Rightarrow> bool" where
  "strands ports c op \<longleftrightarrow>
     (case op of
        CtAttach interface run_id \<Rightarrow>
          (case cp_system_time ports (tr_world (tic_driver c)) of
             (t, w) \<Rightarrow> tic_active c = None \<and> 0 \<le> t
               \<and> (case fst (transaction_execute (cp_attach ports) interface run_id (of_nat (nat t div 1000000000)) ((tic_driver c)\<lparr>tr_world := w\<rparr>)) of
                    Inl e \<Rightarrow> ae_cleanup_evidence e \<noteq> []
                  | Inr _ \<Rightarrow> tic_active (control_step ports c op) = None))
      | _ \<Rightarrow> False)"

lemma driver_attach:
  assumes "honest_ports ports ledger"
  shows "transaction_execute ports i r created t = (Inl e, t') \<Longrightarrow>
      ledger (tr_world t) \<subseteq> ledger (tr_world t') \<and> (ae_cleanup_evidence e = [] \<longrightarrow> ledger (tr_world t') = ledger (tr_world t))"
    and "transaction_execute ports i r created t = (Inr s, t') \<Longrightarrow>
      ledger (tr_world t') = ledger (tr_world t) \<union> session_things s \<and> ledger (tr_world t) \<inter> session_things s = {}"
  using execute_steps_ended [OF assms, of "tr_world t" "tr_generation t" i r created]
  by (auto simp: transaction_execute_def commit_generation_def ended_def undone_def holding_def split: prod.splits sum.splits)

lemma driver_identity:
  assumes "transaction_execute ports i r created t = (Inr s, t')"
  shows "or_ifindex (ss_ownership s) \<noteq> 0" "or_generation (ss_ownership s) \<noteq> 0"
proof -
  obtain w where "execute_steps ports (tr_generation t) i r created (tr_world t) = (Inr s, w)"
    using assms by (auto simp: transaction_execute_def commit_generation_def split: prod.splits sum.splits)
  from execute_steps_session [OF this] show "or_ifindex (ss_ownership s) \<noteq> 0" "or_generation (ss_ownership s) \<noteq> 0"
    by (auto simp: validate_isolated_target_def next_generation_pos Let_def split: if_splits)
qed

lemma driver_detach:
  assumes "honest_ports ports ledger" "detach_exact ports s t = (x, t')"
  shows "ledger (tr_world t) - session_things s \<subseteq> ledger (tr_world t')" "ledger (tr_world t') \<subseteq> ledger (tr_world t)"
    "x = Inr () \<Longrightarrow> ledger (tr_world t') = ledger (tr_world t) - session_things s"
proof -
  obtain w where "detach_steps ports s (tr_world t) = (x, w)" "tr_world t' = w" using assms(2) by (auto simp: detach_exact_def split: prod.splits)
  with cleans_detach [OF assms(1), of s "tr_world t" x w]
  show "ledger (tr_world t) - session_things s \<subseteq> ledger (tr_world t')" "ledger (tr_world t') \<subseteq> ledger (tr_world t)"
    "x = Inr () \<Longrightarrow> ledger (tr_world t') = ledger (tr_world t) - session_things s" by auto
qed

text \<open>The operations but attach and detach leave the ledger and the session alone.\<close>

definition unmoved :: "('w \<Rightarrow> Resource set) \<Rightarrow> ('w, 'v, 's, 'b) TransactionIsolatedControl \<Rightarrow> ('w, 'v, 's, 'b) TransactionIsolatedControl \<Rightarrow> bool" where
  "unmoved ledger c c' \<longleftrightarrow> holds ledger c' = holds ledger c \<and> tic_active c' = tic_active c"

lemma unmoved_accounts: "unmoved ledger c c' \<Longrightarrow> accounted ledger l0 c' = accounted ledger l0 c" "unmoved ledger c c' \<Longrightarrow> kept_apart ledger l0 c' = kept_apart ledger l0 c"
  by (simp_all add: unmoved_def accounted_def kept_apart_def split: option.split)

lemma unmoved_bind:
  assumes "unmoved ledger c (snd (p c))" "\<And>a c'. fst (p c) = Inr a \<Longrightarrow> unmoved ledger c' (snd (f a c'))"
  shows "unmoved ledger c (snd (port_bind p f c))"
  using assms by (auto simp: port_bind_def unmoved_def split: prod.splits sum.splits)

lemma unmoved_load: "quiet_ports ports ledger \<Longrightarrow> unmoved ledger c (snd (load_journal ports r c))"
  by (simp add: unmoved_def quiet_ports_def looks_def)

lemma unmoved_canonical: "quiet_ports ports ledger \<Longrightarrow> unmoved ledger c (snd (canonical_ownership ports act c))"
  by (simp add: canonical_loads unmoved_load)

lemma unmoved_sampling: "unmoved ledger c (snd (sampling_call f c))" "unmoved ledger c (flush_incident_jobs (c\<lparr>tic_sampling := s\<rparr>))"
  by (simp_all add: unmoved_def)

lemma unmoved_refl [simp]: "unmoved ledger c c"
  by (simp add: unmoved_def)

lemma unmoved_requests:
  assumes "quiet_ports ports ledger"
  shows "unmoved ledger c (snd (control_sample_tick ports c))" "unmoved ledger c (snd (control_observe ports i c))" "unmoved ledger c (snd (control_status ports j c))"
  unfolding control_sample_tick_def control_observe_def control_status_def
  by (auto intro!: unmoved_bind unmoved_canonical [OF assms] unmoved_sampling simp: Let_def unmoved_sampling split: option.split prod.split)

text \<open>A detach is refused with nothing changed, fails with the session paused and some of its things gone, or ends the session.\<close>

lemma detach_accounts:
  assumes "quiet_ports ports ledger" "control_detach ports r c = (x, c')"
  shows "kept_apart ledger l0 c \<Longrightarrow> kept_apart ledger l0 c'" "accounted ledger l0 c \<Longrightarrow> accounted ledger l0 c'"
    "x = Inr () \<Longrightarrow> tic_active c' = None \<and> (accounted ledger l0 c \<longrightarrow> holds ledger c' = l0)"
proof -
  have honest: "honest_ports (cp_attach ports) ledger" using assms(1) by (simp add: quiet_ports_def)
  consider (refused) "unmoved ledger c c'" "x \<noteq> Inr ()"
    | (failed) act e where "tic_active c = Some act" "x = Inl e" "tic_active c' = Some (act\<lparr>at_sampling_paused := True\<rparr>)"
        "holds ledger c - session_things (at_attachment act) \<subseteq> holds ledger c'" "holds ledger c' \<subseteq> holds ledger c"
    | (ended) act where "tic_active c = Some act" "tic_active c' = None" "holds ledger c' = holds ledger c - session_things (at_attachment act)"
  proof (cases "tic_active c")
    case None with assms(2) that(1) show ?thesis by (auto simp: control_detach_def)
  next
    case (Some act)
    obtain y c1 where load: "load_journal ports r c = (y, c1)" by fastforce
    have c1: "unmoved ledger c c1" using unmoved_load [OF assms(1), of c r] load by simp
    show ?thesis
    proof (cases "at_run_id act = r \<and> y = Inr (ss_ownership (at_attachment act))")
      case False
      then have "(x, c') = (Inl (control_blocked PF_OWNERSHIP_MISMATCH), if at_run_id act = r then c1 else c)"
        using assms(2) Some load by (cases y) (auto simp: control_detach_def split: if_splits)
      with c1 that(1) show ?thesis by (auto split: if_splits)
    next
      case True
      let ?c2 = "pause_session ports act c1"
      obtain z t where d: "detach_exact (cp_attach ports) (at_attachment act) (tic_driver ?c2) = (z, t)" by fastforce
      have w: "ledger (tr_world (tic_driver ?c2)) = holds ledger c" using c1 by (simp add: unmoved_def)
      note dd = driver_detach [OF honest d, unfolded w]
      show ?thesis
      proof (cases z)
        case (Inl e)
        with assms(2) Some load True d have "x = Inl (attachment_control_error e)" "c' = ?c2\<lparr>tic_driver := t\<rparr>"
          by (auto simp: control_detach_def Let_def)
        with that(2) [OF Some] dd(1,2) show ?thesis by simp
      next
        case (Inr u)
        with assms(2) Some load True d have "x = Inr ()" "c' = end_session ports (?c2\<lparr>tic_driver := t\<rparr>)"
          by (auto simp: control_detach_def Let_def)
        with that(3) [OF Some] dd(3) Inr show ?thesis by simp
      qed
    qed
  qed
  then have "(kept_apart ledger l0 c \<longrightarrow> kept_apart ledger l0 c') \<and> (accounted ledger l0 c \<longrightarrow> accounted ledger l0 c')
    \<and> (x = Inr () \<longrightarrow> tic_active c' = None \<and> (accounted ledger l0 c \<longrightarrow> holds ledger c' = l0))"
  proof cases
    case refused then show ?thesis by (simp add: unmoved_accounts)
  next
    case failed
    then have "kept_apart ledger l0 c \<longrightarrow> kept_apart ledger l0 c'" unfolding kept_apart_def by auto
    moreover have "accounted ledger l0 c \<longrightarrow> kept_apart ledger l0 c' \<longrightarrow> accounted ledger l0 c'" using failed unfolding accounted_def by auto
    ultimately show ?thesis using failed(2) by (simp add: accounted_def)
  next
    case (ended act)
    then have keep: "kept_apart ledger l0 c \<longrightarrow> kept_apart ledger l0 c'" unfolding kept_apart_def by auto
    moreover have "accounted ledger l0 c \<longrightarrow> holds ledger c' = l0" using ended unfolding accounted_def kept_apart_def by auto
    ultimately show ?thesis using ended(2) by (simp add: accounted_def)
  qed
  then show "kept_apart ledger l0 c \<Longrightarrow> kept_apart ledger l0 c'" "accounted ledger l0 c \<Longrightarrow> accounted ledger l0 c'"
    "x = Inr () \<Longrightarrow> tic_active c' = None \<and> (accounted ledger l0 c \<longrightarrow> holds ledger c' = l0)" by simp_all
qed

lemma start_active:
  assumes "port_bind (sampling_call f) (\<lambda>_. port_bind (sampling_call g) (\<lambda>_ c. (Inr (), c\<lparr>tic_active := Some act\<rparr>))) c = (x, c')"
  shows "tic_driver c' = tic_driver c" "tic_active c' = (if x = Inr () then Some act else tic_active c)"
  using assms by (auto simp: port_bind_def sampling_call_def split: prod.splits sum.splits)

lemma attach_accounts:
  assumes "quiet_ports ports ledger" "control_attach ports i r c = (x, c')"
  shows "kept_apart ledger l0 c \<Longrightarrow> kept_apart ledger l0 c'"
    "accounted ledger l0 c \<Longrightarrow> \<not> strands ports c (CtAttach i r) \<Longrightarrow> accounted ledger l0 c'"
proof -
  have honest: "honest_ports (cp_attach ports) ledger" using assms(1) by (simp add: quiet_ports_def)
  obtain t w where time: "cp_system_time ports (tr_world (tic_driver c)) = (t, w)" by fastforce
  have w: "ledger w = holds ledger c" using assms(1) time by (metis quiet_ports_def snd_conv)
  obtain y d where exec: "transaction_execute (cp_attach ports) i r (of_nat (nat t div 1000000000)) ((tic_driver c)\<lparr>tr_world := w\<rparr>) = (y, d)" by fastforce
  note drive = driver_attach [OF honest, of i r "of_nat (nat t div 1000000000)" "(tic_driver c)\<lparr>tr_world := w\<rparr>"]
  have step: "tic_active (control_step ports c (CtAttach i r)) = tic_active c'" using assms(2) by (simp add: control_step_def)
  have "(kept_apart ledger l0 c \<longrightarrow> kept_apart ledger l0 c') \<and> (accounted ledger l0 c \<and> \<not> strands ports c (CtAttach i r) \<longrightarrow> accounted ledger l0 c')"
  proof (cases "tic_active c = None \<and> 0 \<le> t")
    case False
    then have "c' = c \<or> c' = c\<lparr>tic_driver := (tic_driver c)\<lparr>tr_world := w\<rparr>\<rparr>"
      using assms(2) time by (cases "tic_active c = None") (simp_all add: control_attach_def)
    then have "unmoved ledger c c'"
    proof
      assume "c' = c\<lparr>tic_driver := (tic_driver c)\<lparr>tr_world := w\<rparr>\<rparr>"
      with w show ?thesis unfolding unmoved_def by simp
    qed simp
    then show ?thesis by (simp add: unmoved_accounts)
  next
    case True
    then have none: "tic_active c = None" by simp
    show ?thesis
    proof (cases y)
      case (Inl e)
      with True assms(2) time exec have "tic_active c' = None" "tic_driver c' = d" by (auto simp: control_attach_def)
      moreover have "ledger (tr_world d) = holds ledger c" if "\<not> strands ports c (CtAttach i r)"
        using that drive(1) [of e d] exec Inl w none True time by (simp add: strands_def)
      moreover have "holds ledger c \<subseteq> ledger (tr_world d)" using drive(1) [of e d] exec Inl w by simp
      ultimately show ?thesis using none by (auto simp: kept_apart_def accounted_def)
    next
      case (Inr s)
      let ?act = "\<lparr>at_run_id = r, at_interface = i, at_attachment = s, at_sampling_paused = False\<rparr>"
      have "port_bind (sampling_call (sampling_start (cp_sampling ports) (ss_ownership s))) (\<lambda>_.
          port_bind (sampling_call (start_incident_generation i (ss_ownership s) (cp_event_source ports))) (\<lambda>_ c.
          (Inr (), c\<lparr>tic_active := Some ?act\<rparr>))) (c\<lparr>tic_driver := d\<rparr>) = (x, c')"
        using True assms(2) time exec Inr by (simp add: control_attach_def)
      note started = start_active [OF this]
      have gained: "ledger (tr_world d) = holds ledger c \<union> session_things s" "holds ledger c \<inter> session_things s = {}"
        using drive(2) [of s d] exec Inr w by auto
      have "\<not> strands ports c (CtAttach i r) \<Longrightarrow> tic_active c' = Some ?act"
        using True time exec Inr step started(2) none by (auto simp: strands_def split: if_splits)
      with started gained none show ?thesis by (auto simp: kept_apart_def accounted_def split: if_splits)
    qed
  qed
  then show "kept_apart ledger l0 c \<Longrightarrow> kept_apart ledger l0 c'"
    "accounted ledger l0 c \<Longrightarrow> \<not> strands ports c (CtAttach i r) \<Longrightarrow> accounted ledger l0 c'" by simp_all
qed

lemma step_accounts:
  assumes "quiet_ports ports ledger"
  shows "kept_apart ledger l0 c \<Longrightarrow> kept_apart ledger l0 (control_step ports c op)"
    "accounted ledger l0 c \<Longrightarrow> \<not> strands ports c op \<Longrightarrow> accounted ledger l0 (control_step ports c op)"
proof -
  note attach = attach_accounts [OF assms surjective_pairing] and detach = detach_accounts [OF assms surjective_pairing]
  note requests = unmoved_accounts [OF unmoved_requests(1) [OF assms]] unmoved_accounts [OF unmoved_requests(2) [OF assms]]
    unmoved_accounts [OF unmoved_requests(3) [OF assms]]
  show "kept_apart ledger l0 c \<Longrightarrow> kept_apart ledger l0 (control_step ports c op)"
    by (cases op) (simp_all add: control_step_def control_shutdown_def attach(1) detach(1) requests split: option.split)
  show "accounted ledger l0 c \<Longrightarrow> \<not> strands ports c op \<Longrightarrow> accounted ledger l0 (control_step ports c op)"
    by (cases op) (simp_all add: control_step_def control_shutdown_def attach(2) detach(2) requests split: option.split)
qed

fun strands_nothing :: "('w, 'v, 's) ControlPorts \<Rightarrow> ('w, 'v, 's, 'b) TransactionIsolatedControl \<Rightarrow> ControlOp list \<Rightarrow> bool" where
  "strands_nothing ports c [] \<longleftrightarrow> True"
| "strands_nothing ports c (op # ops) \<longleftrightarrow> \<not> strands ports c op \<and> strands_nothing ports (control_step ports c op) ops"

lemma run_accounts:
  assumes "quiet_ports ports ledger"
  shows "kept_apart ledger l0 c \<Longrightarrow> kept_apart ledger l0 (foldl (control_step ports) c ops)"
    "accounted ledger l0 c \<Longrightarrow> strands_nothing ports c ops \<Longrightarrow> accounted ledger l0 (foldl (control_step ports) c ops)"
  by (induction ops arbitrary: c) (simp_all add: step_accounts [OF assms])

section \<open>The sampling service under the control\<close>

definition served :: "('v, 's) SamplingPorts \<Rightarrow> nat \<Rightarrow> ('v, 's) SamplingService \<Rightarrow> ('v, 's) SamplingService \<Rightarrow> bool" where
  "served ports n s t \<longleftrightarrow> (\<exists>ops. length ops \<le> n \<and> t = foldl (service_step ports) s ops)"

lemma served_refl [simp]: "served ports n s s"
  unfolding served_def by (rule exI [of _ "[]"]) simp

lemma served_trans:
  assumes "served ports m s t" "served ports n t u" "m + n \<le> k"
  shows "served ports k s u"
proof -
  obtain xs ys where "length xs \<le> m" "t = foldl (service_step ports) s xs" "length ys \<le> n" "u = foldl (service_step ports) t ys"
    using assms(1,2) by (auto simp: served_def)
  then show ?thesis unfolding served_def using assms(3) by (intro exI [of _ "xs @ ys"]) simp
qed

lemma served_mono: "served ports m s t \<Longrightarrow> m \<le> n \<Longrightarrow> served ports n s t"
  by (rule served_trans [OF _ served_refl [where n = 0]]) simp_all

lemma served_step: "t = service_step ports s op \<Longrightarrow> served ports 1 s t"
  unfolding served_def by (rule exI [of _ "[op]"]) simp

lemma served_calls:
  "served ports 1 s (snd (sampling_start ports ownership s))" "served ports 1 s (snd (start_incident_generation i ownership source s))"
  "served ports 1 s (snd (sample_tick ports ownership s))" "served ports 1 s (snd (sampling_observe ports i j ownership s))"
  "served ports 1 s (snd (sampling_status_request ports x y z s))" "served ports 1 s (sampling_pause ports s)"
  "served ports 1 s (sampling_generation_ended ports s)" "served ports 1 s (snd (take_incident_jobs s))" "served ports 1 s (sampling_clear s)"
  by (rule served_step [where op = "SvStart ownership"] served_step [where op = "SvStartIncidents i ownership source"]
      served_step [where op = "SvTick ownership"] served_step [where op = "SvObserve i j ownership"] served_step [where op = "SvStatus x y z"]
      served_step [where op = SvPause] served_step [where op = SvGenerationEnded] served_step [where op = SvTakeJobs] served_step [where op = SvClear];
      simp add: service_step_def)+

text \<open>A call drives the sampling service through at most \<open>n\<close> of its operations.\<close>

definition serves ::
  "('v, 's) SamplingPorts \<Rightarrow> nat \<Rightarrow> (('w, 'v, 's, 'b) TransactionIsolatedControl, 'e, 'a) port \<Rightarrow> bool" where
  "serves ports n call \<longleftrightarrow> (\<forall>c. served ports n (tic_sampling c) (tic_sampling (snd (call c))))"

lemma servesD: "serves ports n call \<Longrightarrow> tic_sampling c = s \<Longrightarrow> served ports n s (tic_sampling (snd (call c)))"
  by (auto simp: serves_def)

lemma serves_bind:
  assumes "serves ports m p" "\<And>a. serves ports n (f a)" "m + n \<le> k"
  shows "serves ports k (port_bind p f)"
  unfolding serves_def
proof
  fix c
  obtain r c' where r: "p c = (r, c')" by fastforce
  have p: "served ports m (tic_sampling c) (tic_sampling c')" using assms(1) r by (metis serves_def snd_conv)
  show "served ports k (tic_sampling c) (tic_sampling (snd (port_bind p f c)))"
  proof (cases r)
    case (Inl e) with r served_mono [OF p] assms(3) show ?thesis by (simp add: port_bind_def)
  next
    case (Inr a)
    have "served ports n (tic_sampling c') (tic_sampling (snd (f a c')))" using assms(2) by (simp add: serves_def)
    from served_trans [OF p this assms(3)] r Inr show ?thesis by (simp add: port_bind_def)
  qed
qed

lemma serves_load: "serves sp 0 (load_journal ports r)" "serves sp 0 (canonical_ownership ports act)"
  by (simp_all add: serves_def)

lemma serves_call: "(\<And>s. served ports n s (snd (f s))) \<Longrightarrow> serves ports n (sampling_call f)"
  by (simp add: serves_def)

lemma attach_served: "served (cp_sampling ports) 2 (tic_sampling c) (tic_sampling (snd (control_attach ports i r c)))"
proof -
  have last: "serves (cp_sampling ports) 0 (\<lambda>c. (Inr (), c\<lparr>tic_active := act\<rparr>))" for act by (simp add: serves_def)
  have "serves (cp_sampling ports) 2 (port_bind (sampling_call (sampling_start (cp_sampling ports) ow)) (\<lambda>_.
      port_bind (sampling_call (start_incident_generation i ow src)) (\<lambda>_ c. (Inr (), c\<lparr>tic_active := act\<rparr>))))" for ow src act
    by (rule serves_bind [where m = 1 and n = 1, OF serves_call [OF served_calls(1)] serves_bind [where m = 1 and n = 0, OF serves_call [OF served_calls(2)] last]]) simp_all
  then have "served (cp_sampling ports) 2 (tic_sampling c) (tic_sampling (snd (port_bind (sampling_call (sampling_start (cp_sampling ports) ow)) (\<lambda>_.
      port_bind (sampling_call (start_incident_generation i ow src)) (\<lambda>_ c. (Inr (), c\<lparr>tic_active := act\<rparr>))) (c\<lparr>tic_driver := d\<rparr>))))" for ow src act d
    by (rule servesD) simp
  then show ?thesis by (simp add: control_attach_def Let_def split: prod.split sum.split)
qed

lemma detach_served:
  fixes c :: "('w, 'v, 's, 'b) TransactionIsolatedControl"
  shows "served (cp_sampling ports) 5 (tic_sampling c) (tic_sampling (snd (control_detach ports r c)))"
proof -
  note calls = served_calls [of "cp_sampling ports"]
  have pause: "served (cp_sampling ports) 2 (tic_sampling c) (tic_sampling (pause_session ports act c))" for act and c :: "('w, 'v, 's, 'b) TransactionIsolatedControl"
    using served_trans [OF calls(6) calls(8), where k = 2] by (simp add: pause_session_def)
  have finish: "served (cp_sampling ports) 3 (tic_sampling c) (tic_sampling (end_session ports c))" for c :: "('w, 'v, 's, 'b) TransactionIsolatedControl"
    using served_trans [OF served_trans [OF calls(7) calls(8), where k = 2] calls(9), where k = 3] by (simp add: end_session_def Let_def)
  obtain y c1 where load: "load_journal ports r c = (y, c1)" by fastforce
  have c1: "tic_sampling c1 = tic_sampling c" using load_keeps(1) [of ports r c] load by simp
  have paused: "served (cp_sampling ports) 5 (tic_sampling c) (tic_sampling (pause_session ports act c1))" for act
    using served_mono [OF pause [of c1 act], of 5] c1 by simp
  have done_with: "served (cp_sampling ports) 5 (tic_sampling c) (tic_sampling (end_session ports ((pause_session ports act c1)\<lparr>tic_driver := d\<rparr>)))" for act d
    using served_trans [OF pause [of c1 act] finish [of "(pause_session ports act c1)\<lparr>tic_driver := d\<rparr>", simplified], where k = 5] c1 by simp
  show ?thesis
    using load c1 paused done_with by (auto simp: control_detach_def Let_def split: option.split prod.split sum.split)
qed

lemma requests_served:
  fixes c :: "('w, 'v, 's, 'b) TransactionIsolatedControl"
  shows "served (cp_sampling ports) 2 (tic_sampling c) (tic_sampling (snd (control_sample_tick ports c)))"
  "served (cp_sampling ports) 1 (tic_sampling c) (tic_sampling (snd (control_observe ports i c)))"
  "served (cp_sampling ports) 1 (tic_sampling c) (tic_sampling (snd (control_status ports j c)))"
proof -
  let ?sp = "cp_sampling ports"
  have tick: "serves ?sp 2 (\<lambda>c. case sample_tick ?sp ow (tic_sampling c) of (outcome, s) \<Rightarrow>
      (Inr (case outcome of Sampled \<Rightarrow> SoSampled | Rejected \<Rightarrow> SoRejected), flush_incident_jobs (c\<lparr>tic_sampling := s\<rparr>)))" for ow
    using served_trans [OF served_calls(3) served_calls(8), where ports = ?sp and k = 2] by (simp add: serves_def case_prod_unfold)
  have "serves ?sp 2 (port_bind (canonical_ownership ports act) (\<lambda>ow c. case sample_tick ?sp ow (tic_sampling c) of (outcome, s) \<Rightarrow>
      (Inr (case outcome of Sampled \<Rightarrow> SoSampled | Rejected \<Rightarrow> SoRejected), flush_incident_jobs (c\<lparr>tic_sampling := s\<rparr>))))" for act
    by (rule serves_bind [OF serves_load(2) tick]) simp
  then show "served ?sp 2 (tic_sampling c) (tic_sampling (snd (control_sample_tick ports c)))"
    by (auto simp: control_sample_tick_def serves_def split: option.split)
  have "serves ?sp 1 (port_bind (canonical_ownership ports act) (\<lambda>ow. sampling_call (sampling_observe ?sp i j ow)))" for act j
    by (rule serves_bind [OF serves_load(2) serves_call [OF served_calls(4)]]) simp
  then show "served ?sp 1 (tic_sampling c) (tic_sampling (snd (control_observe ports i c)))"
    by (auto simp: control_observe_def serves_def split: option.split)
  have status: "serves ?sp 1 (port_bind (canonical_ownership ports act) (\<lambda>ow. port_bind (sampling_call (sampling_status_request ?sp j k (Some ow))) f))"
    if "\<And>a c. snd (f a c) = c" for act k and f :: "InterfaceStatus list \<Rightarrow> (('w, 'v, 's, 'b) TransactionIsolatedControl, IsolatedControlError, InterfaceStatus list) port"
    by (rule serves_bind [where n = 1, OF serves_load(2) serves_bind [where m = 1 and n = 0, OF serves_call [OF served_calls(5)]]])
      (simp_all add: serves_def that)
  show "served ?sp 1 (tic_sampling c) (tic_sampling (snd (control_status ports j c)))"
  proof (cases "tic_active c")
    case None then show ?thesis using served_calls(5) by (simp add: control_status_def del: One_nat_def)
  next
    case (Some act)
    then show ?thesis unfolding control_status_def Let_def by (auto intro!: servesD [OF status] simp del: One_nat_def)
  qed
qed

lemma step_served: "served (cp_sampling ports) 5 (tic_sampling c) (tic_sampling (control_step ports c op))"
proof -
  note five = served_mono [where n = 5]
  show ?thesis
    using five [OF attach_served] detach_served five [OF requests_served(1)] five [OF requests_served(2)] five [OF requests_served(3)]
    by (cases op) (auto simp: control_step_def control_shutdown_def split: option.split)
qed

lemma run_served: "served (cp_sampling ports) (5 * length ops) (tic_sampling c) (tic_sampling (foldl (control_step ports) c ops))"
proof (induction ops arbitrary: c)
  case (Cons op ops)
  from served_trans [OF step_served [of ports c op] Cons.IH] show ?case by simp
qed simp

section \<open>The daemon as a machine\<close>

datatype DaemonEvent = DmRequest ControlRequest | DmTick

definition daemon_step ::
  "(InterfaceName \<Rightarrow> ('p, PortError, PreflightReport) port) \<Rightarrow> ('w, 'v, 's) ControlPorts \<Rightarrow> ('p, 'w, 'v, 's, 'b, 'e) DaemonDispatcher \<Rightarrow> DaemonEvent \<Rightarrow>
   ('p, 'w, 'v, 's, 'b, 'e) DaemonDispatcher" where
  "daemon_step inspect ports d ev = (case ev of DmRequest request \<Rightarrow> snd (dispatch inspect ports request d) | DmTick \<Rightarrow> snd (sample_isolated ports d))"

fun control_op_of :: "DaemonEvent \<Rightarrow> ControlOp option" where
  "control_op_of DmTick = Some CtTick"
| "control_op_of (DmRequest request) =
     (case rq_command request of
        AcIsolatedAttach interface run_id \<Rightarrow> map_option (CtAttach interface) (parse_run_id run_id)
      | AcIsolatedDetach run_id \<Rightarrow> map_option CtDetach (parse_run_id run_id)
      | AcObserve interface \<Rightarrow> Some (CtObserve interface)
      | AcStatus interface \<Rightarrow> Some (CtStatus interface)
      | _ \<Rightarrow> None)"

lemma daemon_step_control:
  assumes "dd_isolated d = Some (Guarded c)"
  shows "dd_isolated (daemon_step inspect ports d ev) = Some (Guarded (case control_op_of ev of None \<Rightarrow> c | Some op \<Rightarrow> control_step ports c op))"
proof (cases ev)
  case (DmRequest request)
  with assms show ?thesis
    by (cases "rq_command request")
      (auto simp: daemon_step_def dispatch_def dispatch_preflight_def on_isolated_def isolated_task_def control_step_def
        split: option.split prod.split mutex.split sum.split)
next
  case DmTick with assms show ?thesis by (simp add: daemon_step_def sample_isolated_def control_step_def split: prod.split)
qed

lemma daemon_run_control:
  "dd_isolated d = Some (Guarded c) \<Longrightarrow>
   dd_isolated (foldl (daemon_step inspect ports) d evs) = Some (Guarded (foldl (control_step ports) c (List.map_filter control_op_of evs)))"
proof (induction evs arbitrary: d c)
  case (Cons ev evs)
  from Cons.IH [OF daemon_step_control [OF Cons.prems]] show ?case by (cases "control_op_of ev") (simp_all add: List.map_filter_simps)
qed (simp add: List.map_filter_simps)

section \<open>A laboratory\<close>

text \<open>Ports that keep a ledger, a journal that gives back the session's record, and working clocks.\<close>

definition lab_ports :: "(Resource set, unit, unit) ControlPorts" where
  "lab_ports = \<lparr>cp_attach = book_ports, cp_load = (\<lambda>_ w. (Inr (ss_ownership a_session), w)), cp_system_time = (\<lambda>w. (5000000000, w)),
     cp_sampling = broken_ports, cp_event_source = ()\<rparr>"

definition lab_start :: "(Resource set, unit, unit, unit) TransactionIsolatedControl" where
  "lab_start = isolated_control_new {} ()"

lemma lab_quiet: "quiet_ports lab_ports book"
  by (simp add: quiet_ports_def lab_ports_def book_honest looks_def)

lemma lab_attach:
  "\<exists>c t. control_attach lab_ports (InterfaceName ''veth0'') a_run lab_start = (Inr (), c) \<and> tic_driver c = t
     \<and> tic_active c = Some \<lparr>at_run_id = a_run, at_interface = InterfaceName ''veth0'', at_attachment = a_session, at_sampling_paused = False\<rparr>"
proof -
  obtain t where t: "transaction_execute book_ports (InterfaceName ''veth0'') a_run 5 (transaction_new {}) = (Inr a_session, t)" using book_run by blast
  have new: "(transaction_new {})\<lparr>tr_world := {}\<rparr> = transaction_new {}" by (simp add: transaction_new_def)
  have identity: "or_ifindex (ss_ownership a_session) = 7" "or_generation (ss_ownership a_session) = 1"
    by (simp_all add: a_session_def record_of_def)
  show ?thesis
    using t by (simp add: control_attach_def lab_ports_def lab_start_def isolated_control_new_def new transaction_new_def port_bind_def sampling_call_def
        sampling_start_def identity rate_identity_new_def sampling_service_new_def wall_time_ms_def try_from_usize_def rate_history_new_def
        rate_identity_validate_def checked_add_def start_incident_generation_def incident_identity_new_def Let_def)
qed

lemma lab_strands_nothing: "strands_nothing lab_ports lab_start [CtAttach (InterfaceName ''veth0'') a_run]"
proof -
  obtain c where "control_attach lab_ports (InterfaceName ''veth0'') a_run lab_start = (Inr (), c)" "tic_active c \<noteq> None" using lab_attach by auto
  moreover have "(transaction_new {})\<lparr>tr_world := {}\<rparr> = transaction_new {}" by (simp add: transaction_new_def)
  moreover obtain t where "transaction_execute book_ports (InterfaceName ''veth0'') a_run 5 (transaction_new {}) = (Inr a_session, t)" using book_run by blast
  ultimately show ?thesis
    by (simp add: strands_def) (simp add: control_step_def lab_ports_def lab_start_def isolated_control_new_def transaction_new_def)
qed

section \<open>Properties\<close>





text \<open>
  \<^bold>\<open>C19.\<close> A session whose sampling does not start is lost. When the driver attached and the wall clock of the
  sampling service is before the epoch, the attach is answered with an error although the programs are attached; the control has no
  session, refuses every detach and shuts down with success, so that the kernel objects stay.
\<close>

theorem unstarted_session_is_lost:
  assumes "quiet_ports ports ledger" and "tic_active c = None"
    and "cp_system_time ports (tr_world (tic_driver c)) = (t, w)" and "0 \<le> t"
    and "transaction_execute (cp_attach ports) interface run_id (of_nat (nat t div 1000000000)) ((tic_driver c)\<lparr>tr_world := w\<rparr>) = (Inr session, driver)"
    and "fst (sp_wall_time (cp_sampling ports) (sv_world (tic_sampling c))) < 0"
    and "lost = snd (control_attach ports interface run_id c)"
  shows "fst (control_attach ports interface run_id c) = Inl (control_internal OBS_SNAPSHOT_FAILED)
    \<and> ledger (tr_world (tic_driver lost)) = ledger (tr_world (tic_driver c)) \<union> session_things session
    \<and> control_detach ports r lost = (Inl (control_blocked PF_OWNERSHIP_MISMATCH), lost)
    \<and> control_shutdown ports lost = (Inr (), lost)"
proof -
  obtain i where i: "rate_identity_new (or_ifindex (ss_ownership session)) (or_generation (ss_ownership session)) = Inr i"
    using driver_identity [OF assms(5)] by (auto simp: rate_identity_new_def)
  obtain v where v: "wall_time_ms (cp_sampling ports) (sv_world (tic_sampling c)) = (None, v)"
    using assms(6) by (cases "sp_wall_time (cp_sampling ports) (sv_world (tic_sampling c))") (simp add: wall_time_ms_def)
  have start: "sampling_start (cp_sampling ports) (ss_ownership session) (tic_sampling c) = (Inl snapshot_error, (tic_sampling c)\<lparr>sv_world := v\<rparr>)"
    by (simp add: sampling_start_def i v)
  have attach: "control_attach ports interface run_id c
      = (Inl (observation_control_error snapshot_error), c\<lparr>tic_driver := driver, tic_sampling := (tic_sampling c)\<lparr>sv_world := v\<rparr>\<rparr>)"
    using assms(2-5) start by (simp add: control_attach_def port_bind_def sampling_call_def)
  have "ledger (tr_world driver) = ledger w \<union> session_things session"
    using driver_attach(2) [OF _ assms(5)] assms(1) by (simp add: quiet_ports_def)
  moreover have "ledger w = ledger (tr_world (tic_driver c))" using assms(1,3) by (metis quiet_ports_def snd_conv)
  ultimately show ?thesis
    using assms(2) by (simp add: assms(7) attach observation_control_error_def snapshot_error_def control_detach_def control_shutdown_def)
qed

theorem unstarted_session_is_lost_witness:
  "\<exists>lost. control_attach (lab_ports\<lparr>cp_sampling := broken_ports\<lparr>sp_wall_time := (\<lambda>w. (- 1, w))\<rparr>\<rparr>) (InterfaceName ''veth0'') a_run lab_start
       = (Inl (control_internal OBS_SNAPSHOT_FAILED), lost)
     \<and> book (tr_world (tic_driver lost)) = session_things a_session
     \<and> control_shutdown (lab_ports\<lparr>cp_sampling := broken_ports\<lparr>sp_wall_time := (\<lambda>w. (- 1, w))\<rparr>\<rparr>) lost = (Inr (), lost)"
proof -
  let ?ports = "lab_ports\<lparr>cp_sampling := broken_ports\<lparr>sp_wall_time := (\<lambda>w. (- 1, w))\<rparr>\<rparr>"
  obtain t where t: "transaction_execute book_ports (InterfaceName ''veth0'') a_run 5 (transaction_new {}) = (Inr a_session, t)" using book_run by blast
  have quiet: "quiet_ports ?ports book" using lab_quiet by (simp add: quiet_ports_def)
  have start: "tic_active lab_start = None" "tic_driver lab_start = transaction_new {}" "(transaction_new {})\<lparr>tr_world := {}\<rparr> = transaction_new {}"
      "book (tr_world (tic_driver lab_start)) = {}"
    by (simp_all add: lab_start_def isolated_control_new_def transaction_new_def book_def)
  have time: "cp_system_time ?ports (tr_world (tic_driver lab_start)) = (5000000000, {})"
    by (simp add: lab_ports_def start transaction_new_def)
  have exec: "transaction_execute (cp_attach ?ports) (InterfaceName ''veth0'') a_run (of_nat (nat 5000000000 div 1000000000))
      ((tic_driver lab_start)\<lparr>tr_world := {}\<rparr>) = (Inr a_session, t)"
    using t by (simp add: lab_ports_def start)
  show ?thesis
    using unstarted_session_is_lost [OF quiet start(1) time _ exec _ refl] start(4) by (auto simp: prod_eq_iff)
qed

text \<open>
  Under the control the sampling service keeps its invariant: each request, tick, attach or detach is
  at most five of the service's own operations, so after any of them its history, baseline and detection reports validate and no more
  than 32 write jobs wait.
\<close>

theorem control_keeps_sampling_well_formed:
  fixes ports :: "('w, 'v, 's) ControlPorts" and ops
  assumes "30 * length ops < 2 ^ 64 - 1"
    and "s = tic_sampling (foldl (control_step ports) (with_incident_output output (isolated_control_new w v)) ops)"
  shows "(\<exists>sops. length sops \<le> 5 * length ops \<and> s = foldl (service_step (cp_sampling ports)) (sampling_service_new v) sops)
    \<and> whenever (\<lambda>b. baseline_report_validate (be_cached b) = Inr ()) (sv_baseline s)
    \<and> whenever (\<lambda>h. window_validate (fwh_report h) = Inr ()) (sv_fingerprint_window s)
    \<and> whenever (\<lambda>e. detection_report_validate (de_report e) = Inr ()) (sv_detection s)
    \<and> length (sv_incident_jobs s) \<le> 32 \<and> list_all (\<lambda>j. incident_revision_validate (ij_revision j) = Inr ()) (sv_incident_jobs s)"
proof -
  obtain sops where ops: "length sops \<le> 5 * length ops" "s = foldl (service_step (cp_sampling ports)) (sampling_service_new v) sops"
    using run_served [of ports ops "with_incident_output output (isolated_control_new w v)"]
    by (auto simp: assms(2) served_def with_incident_output_def isolated_control_new_def)
  then have "service_ok (length sops) s" using service_reachable [of sops "cp_sampling ports" v] assms(1) by simp
  from service_ok_published [OF this] ops show ?thesis by (auto simp: whenever_def split: option.splits)
qed

theorem control_keeps_sampling_well_formed_witness:
  "length (sv_incident_jobs (tic_sampling (foldl (control_step lab_ports) (with_incident_output (worker_start ()) (isolated_control_new {} ()))
      [CtAttach (InterfaceName ''veth0'') a_run, CtTick, CtShutdown]))) \<le> 32"
  using control_keeps_sampling_well_formed [OF _ refl, of "[CtAttach (InterfaceName ''veth0'') a_run, CtTick, CtShutdown]" lab_ports "worker_start ()" "{}" "()"] by simp

end
