(* ===== verification/Spec2Isabelle.thy ===== *)
theory Spec2Isabelle
  imports Sampling Output Service InstallRuntime DeploymentGate Control
begin

text \<open>
  \<^bold>\<open>The layer-2 loop detection agent.\<close>

  The program watches one network interface for broadcast storms and switching loops. Programs in the
  kernel count every frame at the two hooks of the interface and keep fingerprints of a sample of
  them; an agent in user space reads these maps once a second, turns counters into rates, learns what is
  normal, compares the fingerprints that leave with those that return, decides whether a storm or a loop
  is going on, and records incidents; a worker stores them and raises alerts. Around this core stand the tools
  that attach the programs, check a host before a deployment and install the product. The theories follow
  these paths; each imports the components it calls.

  \<^item> \<open>Prelude\<close>: checked and saturating machine arithmetic, \<open>Result\<close> and \<open>Option\<close> as sums, fallible calls on
    a state (\<open>port\<close>), fixed-size arrays, and two generic locales: machines whose invariant every step
    keeps, and codecs.
  \<^item> \<open>Domain\<close>, \<open>Lifecycle\<close> (\<open>l2-loop-core/src/value.rs\<close>, \<open>error.rs\<close>, \<open>interface.rs\<close>, \<open>policy.rs\<close>, \<open>probe.rs\<close>,
    \<open>l2-loop-common/src/constants.rs\<close>): the enumerations of the kernel interface, validated names and
    requests, the states of an interface and what every path through them contains.
  \<^item> \<open>Packet\<close>, \<open>FrameHash\<close> (\<open>l2-loop-common/src/packet.rs\<close>, \<open>fingerprint.rs\<close>): the Ethernet and VLAN parser
    against a direct specification; the frame fingerprint.
  \<^item> \<open>Ebpf\<close> (\<open>l2-loop-ebpf/src/programs.rs\<close>, \<open>l2-loop-common/src/abi.rs\<close>): the four programs over per-CPU
    maps with wrapping counters. Every packet passes; counters are conserved; the unrolled in-kernel
    hash and metadata agree with the portable ones.
  \<^item> \<open>Observation\<close> (\<open>l2-loop-core/src/observation.rs\<close>, \<open>l2-loop-agent/src/linux/observation.rs\<close>): how the agent
    reads a hook. Sums over CPUs are exact or refused.
  \<^item> \<open>Rate\<close> (\<open>rate.rs\<close>), \<open>Baseline\<close> (\<open>baseline.rs\<close>): the sample history and its three windows against a
    specification of exact rates; the learned medians and the rule that elevated rates are not learned.
  \<^item> \<open>Fingerprints\<close> (\<open>fingerprint.rs\<close>), \<open>FingerprintWindow\<close> (\<open>fingerprint_window.rs\<close>): the report of a scan
    (its sums, its independence of the map's order, what it accepts) and the difference of two scans.
  \<^item> \<open>Signals\<close>, \<open>Detection\<close> (\<open>detection.rs\<close>): what a tick says about storms and loops, and the engine that
    turns ticks into alarms. The engine refines an abstract hysteresis machine; from it follow when
    alarms rise, how long they are held, and that they clear.
  \<^item> \<open>Evidence\<close> (\<open>evidence.rs\<close>), \<open>Incident\<close> (\<open>l2-loop-agent/src/incident.rs\<close>): identifiers, cursors, the
    revisions of an incident, and the recorder that emits them.
  \<^item> \<open>Ownership\<close> (\<open>l2-loop-agent/src/ownership.rs\<close>): the journal of what a run attached and pinned, its
    validation and storage.
  \<^item> \<open>Sampling\<close> (\<open>l2-loop-agent/src/observation.rs\<close>): the service that composes all of the above: the
    background tick and the requests.
  \<^item> \<open>EvidenceStore\<close> (\<open>l2-loop-agent/src/evidence_store.rs\<close>): opening, recovery, put, get, list and retention over a
    file system, a codec and a digest. A put is atomic and always returns, retention spares open incidents,
    the pages of a listing cover it.
  \<^item> \<open>Output\<close> (\<open>incident_output.rs\<close>, \<open>alert.rs\<close>): the worker between recorder and store as a step relation over
    submissions, polls and shutdown, and the text of an alert with its parser.
  \<^item> \<open>Preflight\<close>, \<open>Attach\<close>, \<open>Service\<close> (\<open>preflight.rs\<close>, \<open>attach.rs\<close>, \<open>service.rs\<close>): the inspection before an attach,
    the attachment transaction with its rollback over a ledger of kernel resources, and the agent service.
  \<^item> \<open>Deployment\<close> (\<open>l2-loop-core/src/deployment.rs\<close>): authorization, performance evidence, canary plan, gates and
    the report that derives a decision from them.
  \<^item> \<open>DeploymentGate\<close> (\<open>l2-loop-agent/src/deployment.rs\<close>): the commands that check a staged bundle, an installed product and
    the host, over readers. They always answer, and a positive answer is earned by every check.
  \<^item> \<open>Protocol\<close> (\<open>l2-loop-core/src/command.rs\<close>, \<open>l2-loop-agent/src/protocol.rs\<close>, \<open>transport.rs\<close>, part of \<open>daemon.rs\<close>): commands, results
    and frames, reading a frame from a stream in pieces, and the answer to a connection. Frames survive any
    chunking; only whole requests of this version reach the handler; every answer fits a frame.
  \<^item> \<open>Control\<close> (\<open>l2-loop-agent/src/daemon.rs\<close>): the control of the isolated session over \<open>Attach\<close>, \<open>Sampling\<close> and \<open>Output\<close>, the
    queries of the evidence store, the dispatcher and the end of the daemon. The control owns exactly what it attached, its
    sampling service only takes the steps of \<open>Sampling\<close>, and a daemon that ends with success leaves nothing behind.
  \<^item> \<open>Installation\<close>, \<open>InstallJournal\<close> (\<open>l2-loop-core/src/installation.rs\<close>, \<open>install_journal.rs\<close>): the contracts of the
    installer and its journal, a state machine of twelve calls whose every state can be read back.
  \<^item> \<open>InstallPlan\<close> (\<open>l2-loop-agent/src/installation.rs\<close>, \<open>installation_layout.rs\<close>): the planner, the service over
    readers and a writer, the fixed layout and the validation of the inputs.
  \<^item> \<open>InstallRuntime\<close> (\<open>linux/installation_fs.rs\<close>, \<open>linux/installation_runtime.rs\<close>): the operations on the destinations
    over system calls, the loops that drive the journal forward and back, and the four commands.

  \<^bold>\<open>State and operations.\<close> A struct is a record with one field per field of the struct (prefixed), an enum a
  datatype. A method with \<open>&mut self\<close> takes the record last and returns it, with its result first; a method
  that also calls the outside world is a \<open>port\<close>, a function on the world's state that returns an error or a
  value. Every early return and \<open>?\<close> of the source is a branch. \<open>u8\<close> to \<open>u128\<close> are words of that width; checked,
  saturating and wrapping operations are kept apart. Vectors and deques are lists, \<open>BTreeMap\<close> is a
  sorted association list.

  \<^bold>\<open>Outside code\<close> is a parameter: kernel maps and the reader's clock (\<open>SamplingPorts\<close>), the LRU map of the
  kernel (\<open>lru_insert\<close>), the source of event identifiers, the file system, the JSON codec and SHA-256, the
  system calls of the installer (\<open>InstallKernel\<close>), the readers of the gate (\<open>DeploymentPorts\<close>), the byte stream of a
  connection, the ports of attachment. Where a theorem needs their
  documented behaviour it is a named hypothesis (such as \<open>journal_fs\<close>), with an instance that satisfies it.

  \<^bold>\<open>What is shown.\<close> Per component: a well-formedness invariant that every operation keeps, and that cached
  reports satisfy the validation their readers apply (\<open>rate_inv\<close>, \<open>baseline_inv\<close>, \<open>window_inv\<close>, \<open>det_inv\<close>,
  \<open>recorder_inv\<close>, \<open>service_ok\<close>); the operations' results on every branch; refinement of a specification
  (\<open>parse_l2_spec\<close>, \<open>windows_spec\<close>, the hysteresis machine). For the composed service: any sequence
  of operations keeps all parts well formed, a rejected tick never leaves an old verdict published,
  requests only read, and the analysis schedule neither drifts nor falls behind. For the daemon: its requests and ticks
  account for every kernel object from attach to exit, and the one way to lose a session is shown. For the installer: the
  journal is readable after any calls, installing and rolling back always return and are the plain loops over the
  entries in order and in reverse, reports tell the truth about writes, and an upgraded host refuses the next upgrade.

  \<^bold>\<open>Bounds.\<close> Theorems about the detection engine assume fewer than \<open>2 ^ 64 - 1\<close> operations, since transitions
  are numbered by a \<open>u64\<close> that must not wrap; a tick drives the engine at most six times, hence the
  factor six for the service, and an operation of the control takes at most five steps of the service. The loops that call the outside world until a state machine is done (\<open>rollback_loop\<close>,
  \<open>apply_loop\<close>, the search for a manifest that counts itself) are partial functions into \<open>option\<close>, and it is
  proved that they return; all other functions are total. No fuel is used.

  \<^bold>\<open>Not modelled.\<close> The system calls behind the ports (\<open>l2-loop-agent/src/linux\<close> apart from \<open>observation.rs\<close> and the
  installer), among them the file format of the journals and evidence and the readers of host facts behind
  \<open>DeploymentPorts\<close>; the daemon's socket file, timers, threads and signals (a request is dispatched as one step, since every
  control is used under its lock); argument parsing and the rendering of
  reports; the build and diagnosis tools. They hold little state of their own: they move bytes between the
  operating system and the components above.
\<close>

end
